(* ===== verification/Aht_Prelude.thy ===== *)
theory Aht_Prelude
  imports Main "HOL-Library.AList" "HOL-Library.Char_ord" "HOL-Library.List_Lexorder"
    "HOL-Library.Multiset" "HOL-Library.Word" "HOL-Library.Finite_Map"
begin

section \<open>The part of Go the registry code rests on\<close>

text \<open>
  Shared by every component: instants and durations (\<open>time.Time\<close>, \<open>time.Duration\<close>),
  byte strings and the few functions of \<open>strings\<close> and \<open>strconv\<close> the code calls, Go maps as
  association lists whose order is the order a \<open>range\<close> loop happens to take, three-way
  comparisons (\<open>cmp.Compare\<close>, \<open>cmp.Or\<close>) and \<open>slices.SortFunc\<close>.

  Two interfaces are stated as locales: \<open>comparator\<close> (what a comparison must satisfy for a
  sort to have one result) and \<open>preference\<close> (what a preference must satisfy for a search over
  a map to be independent of the iteration order). Later theories interpret them on the
  comparisons the code defines.
\<close>

named_theorems go_defs \<open>definitions of the model that proofs unfold as a group\<close>
named_theorems go_simps \<open>rewrite rules shared by the component proofs\<close>

subsection \<open>Instants and durations\<close>

text \<open>
  An instant is its number of nanoseconds since \<open>time.Time{}\<close>, so that the zero value is 0
  and \<open>Before\<close>, \<open>After\<close> and \<open>Equal\<close> are the order and equality of integers. A duration is a
  64-bit number of nanoseconds; \<open>Sub\<close> saturates at its ends.
\<close>

type_synonym time = int
type_synonym duration = int

definition min_duration :: duration where
  "min_duration = - (2 ^ 63)"

definition max_duration :: duration where
  "max_duration = 2 ^ 63 - 1"

definition time_sub :: "time \<Rightarrow> time \<Rightarrow> duration" where
  "time_sub a b = max min_duration (min max_duration (a - b))"

definition nanosecond :: duration where
  "nanosecond = 1"

definition second :: duration where
  "second = 1000000000"

definition minute :: duration where
  "minute = 60 * second"

lemma time_sub_bounds: "min_duration \<le> time_sub a b \<and> time_sub a b \<le> max_duration"
  by (simp add: time_sub_def min_duration_def max_duration_def)

lemma time_sub_exact:
  "min_duration \<le> a - b \<Longrightarrow> a - b \<le> max_duration \<Longrightarrow> time_sub a b = a - b"
  by (simp add: time_sub_def)

lemma time_sub_mono: "a \<le> a' \<Longrightarrow> time_sub a b \<le> time_sub a' b"
  by (simp add: time_sub_def)

lemma time_sub_antimono: "b \<le> b' \<Longrightarrow> time_sub a b' \<le> time_sub a b"
  by (simp add: time_sub_def)

subsection \<open>Strings\<close>

text \<open>
  A Go string is a sequence of bytes, as an Isabelle \<open>string\<close> is a list of 8-bit characters.
  \<open>strings.TrimSpace\<close> removes the UTF-8 encodings of the white space of Unicode on both sides.
\<close>

definition white_space :: "string list" where
  "white_space =
     [[CHR 0x09], [CHR 0x0A], [CHR 0x0B], [CHR 0x0C], [CHR 0x0D], [CHR 0x20],
      [CHR 0xC2, CHR 0x85], [CHR 0xC2, CHR 0xA0],
      [CHR 0xE1, CHR 0x9A, CHR 0x80],
      [CHR 0xE2, CHR 0x80, CHR 0x80], [CHR 0xE2, CHR 0x80, CHR 0x81],
      [CHR 0xE2, CHR 0x80, CHR 0x82], [CHR 0xE2, CHR 0x80, CHR 0x83],
      [CHR 0xE2, CHR 0x80, CHR 0x84], [CHR 0xE2, CHR 0x80, CHR 0x85],
      [CHR 0xE2, CHR 0x80, CHR 0x86], [CHR 0xE2, CHR 0x80, CHR 0x87],
      [CHR 0xE2, CHR 0x80, CHR 0x88], [CHR 0xE2, CHR 0x80, CHR 0x89],
      [CHR 0xE2, CHR 0x80, CHR 0x8A], [CHR 0xE2, CHR 0x80, CHR 0xA8],
      [CHR 0xE2, CHR 0x80, CHR 0xA9], [CHR 0xE2, CHR 0x80, CHR 0xAF],
      [CHR 0xE2, CHR 0x81, CHR 0x9F], [CHR 0xE3, CHR 0x80, CHR 0x80]]"

fun has_prefix :: "string \<Rightarrow> string \<Rightarrow> bool" where
  "has_prefix s [] = True"
| "has_prefix [] (p # ps) = False"
| "has_prefix (c # cs) (p # ps) = (c = p \<and> has_prefix cs ps)"

definition strip_one :: "string list \<Rightarrow> string \<Rightarrow> string option" where
  "strip_one ws s = map_option (\<lambda>w. drop (length w) s) (find (\<lambda>w. w \<noteq> [] \<and> has_prefix s w) ws)"

lemma find_SomeD: "find P xs = Some x \<Longrightarrow> P x \<and> x \<in> set xs"
  by (auto simp: find_Some_iff)

lemma has_prefix_length: "has_prefix s p \<Longrightarrow> length p \<le> length s"
  by (induction s p rule: has_prefix.induct) auto

lemma strip_one_shorter: "strip_one ws s = Some t \<Longrightarrow> length t < length s"
proof -
  assume "strip_one ws s = Some t"
  then obtain w where "w \<noteq> []" "has_prefix s w" "t = drop (length w) s"
    by (auto simp: strip_one_def dest!: find_SomeD)
  then show ?thesis
    using has_prefix_length [of s w] by (cases w; cases s) simp_all
qed

function trim_left :: "string list \<Rightarrow> string \<Rightarrow> string" where
  "trim_left ws s = (case strip_one ws s of None \<Rightarrow> s | Some t \<Rightarrow> trim_left ws t)"
  by pat_completeness auto
termination
  by (relation "measure (\<lambda>(ws, s). length s)") (auto dest: strip_one_shorter)

declare trim_left.simps [simp del]

definition trim_space :: "string \<Rightarrow> string" where
  "trim_space s = rev (trim_left (map rev white_space) (rev (trim_left white_space s)))"

text \<open>
  \<open>strings.ToLower\<close>, as far as a comparison of its result with an ASCII word can see it: the
  upper-case letters of ASCII, and the two other code points whose lower case is ASCII (the
  Kelvin sign and the dotted capital I). Every other code point stays outside ASCII.
\<close>

definition lower_char :: "char \<Rightarrow> char" where
  "lower_char c = (if CHR ''A'' \<le> c \<and> c \<le> CHR ''Z'' then char_of (of_char c + (32::nat)) else c)"

text \<open>The same on the bits of a character, which is what evaluations use.\<close>

lemma lower_char_code [code]:
  "lower_char (Char b0 b1 b2 b3 b4 b5 b6 b7) =
     (if \<not> b7 \<and> b6 \<and> \<not> b5 \<and> (b0 \<or> b1 \<or> b2 \<or> b3 \<or> b4) \<and> \<not> (b4 \<and> b3 \<and> (b2 \<or> b1 \<and> b0))
      then Char b0 b1 b2 b3 b4 True b6 b7 else Char b0 b1 b2 b3 b4 b5 b6 b7)"
  by (cases b0; cases b1; cases b2; cases b3; cases b4; cases b5; cases b6; cases b7;
      simp add: lower_char_def less_eq_char_def char_of_def bit_numeral_rec bit_0)

fun to_lower :: "string \<Rightarrow> string" where
  "to_lower [] = []"
| "to_lower (a # s) =
     (if a = CHR 0xC4 \<and> has_prefix s [CHR 0xB0] then CHR ''i'' # to_lower (drop 1 s)
      else if a = CHR 0xE2 \<and> has_prefix s [CHR 0x84, CHR 0xAA] then CHR ''k'' # to_lower (drop 2 s)
      else lower_char a # to_lower s)"

text \<open>\<open>strconv.Itoa\<close>.\<close>

fun digits :: "nat \<Rightarrow> string" where
  "digits n =
     (if n < 10 then [char_of (48 + n)] else digits (n div 10) @ [char_of (48 + n mod 10)])"

declare digits.simps [simp del]

definition itoa :: "int \<Rightarrow> string" where
  "itoa i = (if i < 0 then CHR ''-'' # digits (nat (- i)) else digits (nat i))"

text \<open>\<open>strings.Join\<close>.\<close>

fun join :: "string \<Rightarrow> string list \<Rightarrow> string" where
  "join sep [] = []"
| "join sep [s] = s"
| "join sep (s # ss) = s @ sep @ join sep ss"

definition digit_value :: "string \<Rightarrow> nat" where
  "digit_value s = foldl (\<lambda>n c. 10 * n + (of_char c - 48)) 0 s"

lemma digit_value_snoc: "digit_value (s @ [c]) = 10 * digit_value s + (of_char c - 48)"
  by (simp add: digit_value_def)

lemma of_char_digit: "d < 10 \<Longrightarrow> of_char (char_of (48 + d :: nat)) = 48 + d"
  by simp

lemma digit_value_digits: "digit_value (digits n) = n"
proof (induction n rule: digits.induct)
  case (1 n)
  show ?case
  proof (cases "n < 10")
    case True
    then show ?thesis by (simp add: digits.simps [of n] digit_value_def)
  next
    case False
    then have "digit_value (digits n) = 10 * digit_value (digits (n div 10)) + n mod 10"
      by (simp add: digits.simps [of n] digit_value_snoc)
    then show ?thesis using False "1.IH" by simp
  qed
qed

lemma digits_inject: "digits m = digits n \<longleftrightarrow> m = n"
  by (metis digit_value_digits)

lemma set_digits: "c \<in> set (digits n) \<Longrightarrow> 48 \<le> (of_char c :: nat) \<and> (of_char c :: nat) < 58"
proof (induction n arbitrary: c rule: digits.induct)
  case (1 n)
  show ?case
  proof (cases "n < 10")
    case True
    with "1.prems" show ?thesis by (simp add: digits.simps [of n])
  next
    case False
    with "1.prems" consider "c \<in> set (digits (n div 10))" | "c = char_of (48 + n mod 10)"
      by (auto simp: digits.simps [of n])
    then show ?thesis
    proof cases
      case 1
      then show ?thesis using False "1.IH" by blast
    next
      case 2
      then show ?thesis by simp
    qed
  qed
qed

lemma digits_no_colon: "CHR '':'' \<notin> set (digits n)"
  using set_digits [of "CHR '':''" n] by auto

lemma digits_no_minus: "CHR ''-'' \<notin> set (digits n)"
  using set_digits [of "CHR ''-''" n] by auto

lemma digits_nonempty: "digits n \<noteq> []"
  by (simp add: digits.simps [of n])

lemma itoa_no_colon: "CHR '':'' \<notin> set (itoa i)"
  by (simp add: itoa_def digits_no_colon)

lemma itoa_inject: "itoa i = itoa j \<longleftrightarrow> i = j"
proof
  assume eq: "itoa i = itoa j"
  have minus: "itoa k \<noteq> [] \<and> (hd (itoa k) = CHR ''-'' \<longleftrightarrow> k < 0)" for k
    using digits_no_minus [of "nat k"] digits_nonempty [of "nat k"]
    by (cases "digits (nat k)") (auto simp: itoa_def)
  from eq minus have "i < 0 \<longleftrightarrow> j < 0" by metis
  with eq show "i = j"
    by (auto simp: itoa_def digits_inject split: if_splits)
qed simp

lemma append_sep_inject:
  "c \<notin> set xs \<Longrightarrow> c \<notin> set ys \<Longrightarrow> xs @ c # us = ys @ c # vs \<longleftrightarrow> xs = ys \<and> us = vs"
proof (induction xs arbitrary: ys)
  case Nil
  then show ?case by (cases ys) auto
next
  case (Cons x xs)
  then show ?case by (cases ys) auto
qed

subsection \<open>Pointers\<close>

text \<open>
  A pointer to a value that the code treats as optional is an \<open>option\<close>; \<open>deref_or\<close> reads one
  with the value used when it is nil.
\<close>

definition deref_or :: "'a \<Rightarrow> 'a option \<Rightarrow> 'a" where
  "deref_or d p = (case p of None \<Rightarrow> d | Some v \<Rightarrow> v)"

lemma pred_option_code [code]: "pred_option P None = True" "pred_option P (Some v) = P v"
  by simp_all

lemma deref_or_simps [simp]: "deref_or d None = d" "deref_or d (Some v) = v"
  by (simp_all add: deref_or_def)

subsection \<open>Maps\<close>

text \<open>
  A Go map with string keys is an association list. Its order stands for the order a \<open>range\<close>
  loop takes, which the language leaves open, so a statement about a loop that holds for every
  association list holds for every order. \<open>map_put\<close> assigns, \<open>map_del\<close> deletes; \<open>map_of\<close> looks up.
\<close>

type_synonym 'a go_map = "(string \<times> 'a) list"

definition map_put :: "string \<Rightarrow> 'a \<Rightarrow> 'a go_map \<Rightarrow> 'a go_map" where
  "map_put k v m = AList.update k v m"

definition map_del :: "string \<Rightarrow> 'a go_map \<Rightarrow> 'a go_map" where
  "map_del k m = AList.delete k m"

definition map_get :: "'a \<Rightarrow> string \<Rightarrow> 'a go_map \<Rightarrow> 'a" where
  "map_get zero k m = deref_or zero (map_of m k)"

definition map_ok :: "'a go_map \<Rightarrow> bool" where
  "map_ok m \<longleftrightarrow> distinct (map fst m)"

lemma map_of_put [simp]: "map_of (map_put k v m) = (map_of m)(k \<mapsto> v)"
  by (simp add: map_put_def AList.update_conv')

lemma map_of_del [simp]: "map_of (map_del k m) = (map_of m)(k := None)"
  by (simp add: map_del_def AList.delete_conv')

lemma map_ok_Nil [simp]: "map_ok []"
  by (simp add: map_ok_def)

lemma map_ok_put [simp]: "map_ok m \<Longrightarrow> map_ok (map_put k v m)"
  by (simp add: map_ok_def map_put_def AList.distinct_update)

lemma map_ok_del [simp]: "map_ok m \<Longrightarrow> map_ok (map_del k m)"
  by (simp add: map_ok_def map_del_def AList.distinct_delete)

lemma map_ok_filter [simp]: "map_ok m \<Longrightarrow> map_ok (filter P m)"
  by (simp add: map_ok_def distinct_map_filter)

lemma map_get_put [simp]:
  "map_get z k (map_put k' v m) = (if k = k' then v else map_get z k m)"
  by (simp add: map_get_def)

lemma in_set_map_of: "map_ok m \<Longrightarrow> (k, v) \<in> set m \<longleftrightarrow> map_of m k = Some v"
  by (auto simp: map_ok_def)

lemma map_ok_ex:
  assumes "map_ok m"
  shows "(\<exists>x \<in> set m. fst x = k \<and> Q x) \<longleftrightarrow> (\<exists>v. map_of m k = Some v \<and> Q (k, v))"
proof
  assume "\<exists>x \<in> set m. fst x = k \<and> Q x"
  then obtain v where "(k, v) \<in> set m" "Q (k, v)" by auto
  then show "\<exists>v. map_of m k = Some v \<and> Q (k, v)" using assms by (auto simp: in_set_map_of)
next
  assume "\<exists>v. map_of m k = Some v \<and> Q (k, v)"
  then obtain v where "map_of m k = Some v" "Q (k, v)" by blast
  then show "\<exists>x \<in> set m. fst x = k \<and> Q x"
    by (intro bexI [of _ "(k, v)"]) (auto dest: map_of_SomeD)
qed

lemma map_of_filter:
  "map_ok m \<Longrightarrow>
   map_of (filter (\<lambda>(k, v). P k v) m) k =
     (case map_of m k of None \<Rightarrow> None | Some v \<Rightarrow> if P k v then Some v else None)"
proof (induction m)
  case (Cons x m)
  then have "map_ok m" by (simp add: map_ok_def)
  moreover have "fst x = k \<Longrightarrow> map_of m k = None"
    using Cons.prems by (auto simp: map_ok_def map_of_eq_None_iff)
  ultimately show ?case using Cons.IH by (cases x) auto
qed simp

lemma set_map_put_subset: "set (map_put k v m) \<subseteq> insert (k, v) (set m)"
  unfolding map_put_def by (induction m) auto

lemma set_map_del_subset: "set (map_del k m) \<subseteq> set m"
  by (auto simp: map_del_def AList.delete_eq)

lemma set_eq_of_map_of:
  "map_ok m \<Longrightarrow> map_ok m' \<Longrightarrow> map_of m = map_of m' \<Longrightarrow> set m = set m'"
  by (auto simp: in_set_map_of)

lemma length_eq_of_map_of:
  assumes "map_ok m" "map_ok m'" "map_of m = map_of m'"
  shows "length m = length m'"
proof -
  have "length m = card (set m)" "length m' = card (set m')"
    using assms by (simp_all add: map_ok_def distinct_card distinct_map)
  then show ?thesis using set_eq_of_map_of [OF assms] by simp
qed

subsection \<open>Three-way comparisons and sorting\<close>

definition compare :: "'a::linorder \<Rightarrow> 'a \<Rightarrow> int" where
  "compare a b = (if a < b then -1 else if a = b then 0 else 1)"

definition cmp_or :: "int list \<Rightarrow> int" where
  "cmp_or xs = deref_or 0 (find (\<lambda>x. x \<noteq> 0) xs)"

lemma cmp_or_simps [simp]:
  "cmp_or [] = 0" "cmp_or (x # xs) = (if x \<noteq> 0 then x else cmp_or xs)"
  by (simp_all add: cmp_or_def)

lemma compare_simps [simp]:
  "compare a b = 0 \<longleftrightarrow> a = b" "compare a b < 0 \<longleftrightarrow> a < b" "0 < compare a b \<longleftrightarrow> b < a"
  by (auto simp: compare_def)

text \<open>
  \<open>slices.SortFunc\<close>: the insertion sort it runs on a slice of at most twelve elements, which
  moves an element left while it compares below its neighbour. On a longer slice the library
  switches to other algorithms; \<open>sort_unique\<close> below says when the result is the same.
\<close>

fun insert_back :: "('a \<Rightarrow> 'a \<Rightarrow> int) \<Rightarrow> 'a \<Rightarrow> 'a list \<Rightarrow> 'a list" where
  "insert_back c x [] = [x]"
| "insert_back c x (y # ys) = (if c x y < 0 then y # insert_back c x ys else x # y # ys)"

definition sort_func :: "('a \<Rightarrow> 'a \<Rightarrow> int) \<Rightarrow> 'a list \<Rightarrow> 'a list" where
  "sort_func c xs = rev (fold (insert_back c) xs [])"

lemma mset_insert_back: "mset (insert_back c x ys) = add_mset x (mset ys)"
  by (induction ys) auto

lemma mset_fold_insert_back: "mset (fold (insert_back c) xs ys) = mset xs + mset ys"
  by (induction xs arbitrary: ys) (auto simp: mset_insert_back)

lemma mset_sort_func [simp]: "mset (sort_func c xs) = mset xs"
  by (simp add: sort_func_def mset_fold_insert_back)

lemma set_sort_func [simp]: "set (sort_func c xs) = set xs"
  by (metis mset_sort_func set_mset_mset)

lemma length_sort_func [simp]: "length (sort_func c xs) = length xs"
  by (metis mset_sort_func size_mset)

text \<open>What a comparison has to satisfy, on the elements it is used for.\<close>

locale comparator =
  fixes cmp :: "'a \<Rightarrow> 'a \<Rightarrow> int" and carrier :: "'a set"
  assumes cmp_flip: "a \<in> carrier \<Longrightarrow> b \<in> carrier \<Longrightarrow> cmp a b < 0 \<longleftrightarrow> 0 < cmp b a"
    and cmp_trans: "a \<in> carrier \<Longrightarrow> b \<in> carrier \<Longrightarrow> c \<in> carrier \<Longrightarrow>
          cmp a b \<le> 0 \<Longrightarrow> cmp b c \<le> 0 \<Longrightarrow> cmp a c \<le> 0"
begin

lemma sorted_insert_back:
  assumes "sorted_wrt (\<lambda>a b. cmp b a \<le> 0) ys" "set ys \<subseteq> carrier" "x \<in> carrier"
  shows "sorted_wrt (\<lambda>a b. cmp b a \<le> 0) (insert_back cmp x ys)"
  using assms
proof (induction ys)
  case (Cons y ys)
  have set_ib: "set (insert_back cmp x ys) = insert x (set ys)"
    by (metis mset_insert_back set_mset_add_mset_insert set_mset_mset)
  show ?case
  proof (cases "cmp x y < 0")
    case True
    then show ?thesis using Cons set_ib by auto
  next
    case False
    then have "cmp y x \<le> 0" using cmp_flip Cons.prems by (meson list.set_intros(1) not_less subsetD)
    moreover have "cmp z x \<le> 0" if "z \<in> set ys" for z
      using that Cons.prems \<open>cmp y x \<le> 0\<close> cmp_trans [of z y x] by auto
    ultimately show ?thesis using Cons.prems False by auto
  qed
qed simp

lemma sorted_fold_insert_back:
  assumes "sorted_wrt (\<lambda>a b. cmp b a \<le> 0) ys" "set ys \<subseteq> carrier" "set xs \<subseteq> carrier"
  shows "sorted_wrt (\<lambda>a b. cmp b a \<le> 0) (fold (insert_back cmp) xs ys)"
  using assms
proof (induction xs arbitrary: ys)
  case (Cons x xs)
  have "set (insert_back cmp x ys) = insert x (set ys)"
    by (metis mset_insert_back set_mset_add_mset_insert set_mset_mset)
  then show ?case using Cons sorted_insert_back by simp
qed simp

lemma sorted_sort_func:
  "set xs \<subseteq> carrier \<Longrightarrow> sorted_wrt (\<lambda>a b. cmp a b \<le> 0) (sort_func cmp xs)"
  by (simp add: sort_func_def sorted_wrt_rev sorted_fold_insert_back)

lemma sorted_unique:
  assumes "sorted_wrt (\<lambda>a b. cmp a b \<le> 0) xs" "sorted_wrt (\<lambda>a b. cmp a b \<le> 0) ys"
    and "mset xs = mset ys" "set xs \<subseteq> carrier"
    and "\<And>a b. a \<in> set xs \<Longrightarrow> b \<in> set xs \<Longrightarrow> cmp a b = 0 \<Longrightarrow> a = b"
  shows "xs = ys"
  using assms
proof (induction xs arbitrary: ys)
  case (Cons x xs)
  from Cons.prems(3) obtain y ys' where ys: "ys = y # ys'" by (cases ys) auto
  have sets: "set ys = set (x # xs)" by (metis Cons.prems(3) set_mset_mset)
  have "x = y"
  proof (rule ccontr)
    assume "x \<noteq> y"
    then have "x \<in> set ys'" "y \<in> set xs" using sets ys by auto
    then have "cmp x y \<le> 0" "cmp y x \<le> 0" using Cons.prems(1,2) ys by auto
    moreover have in_c: "x \<in> carrier" "y \<in> carrier" using Cons.prems(4) \<open>y \<in> set xs\<close> by auto
    ultimately have "cmp x y = 0" using cmp_flip [of x y] cmp_flip [of y x] by linarith
    then show False using Cons.prems(5) [of x y] \<open>y \<in> set xs\<close> \<open>x \<noteq> y\<close> by simp
  qed
  moreover have "xs = ys'"
    using Cons.prems ys \<open>x = y\<close> by (intro Cons.IH) auto
  ultimately show ?case using ys by simp
qed simp

text \<open>Any sorted arrangement of the elements is the one \<open>sort_func\<close> finds.\<close>

lemma sort_unique:
  assumes "mset ys = mset xs" "sorted_wrt (\<lambda>a b. cmp a b \<le> 0) ys" "set xs \<subseteq> carrier"
    and "\<And>a b. a \<in> set xs \<Longrightarrow> b \<in> set xs \<Longrightarrow> cmp a b = 0 \<Longrightarrow> a = b"
  shows "ys = sort_func cmp xs"
proof -
  have "set ys = set xs" using assms(1) by (metis set_mset_mset)
  then show ?thesis
    using assms sorted_sort_func [OF assms(3)] by (intro sorted_unique) auto
qed

lemma sort_permutation:
  assumes "mset ys = mset xs" "set xs \<subseteq> carrier"
    and "\<And>a b. a \<in> set xs \<Longrightarrow> b \<in> set xs \<Longrightarrow> cmp a b = 0 \<Longrightarrow> a = b"
  shows "sort_func cmp ys = sort_func cmp xs"
proof -
  have "set ys = set xs" using assms(1) by (metis set_mset_mset)
  then have "set ys \<subseteq> carrier" using assms(2) by simp
  then show ?thesis using assms sorted_sort_func by (intro sort_unique) auto
qed

end

text \<open>How comparisons are built: by a key, and one after the other as \<open>cmp.Or\<close> does.\<close>

lemma comparator_key: "comparator (\<lambda>a b. compare (f a) (f b)) A"
  by unfold_locales (auto simp: compare_def split: if_splits)

lemma comparator_zero: "comparator (\<lambda>a b. 0) A"
  by unfold_locales auto

lemma comparator_zero_flip:
  assumes "comparator c A" "a \<in> A" "b \<in> A"
  shows "c a b = 0 \<longleftrightarrow> c b a = 0"
  using comparator.cmp_flip [OF assms] comparator.cmp_flip [OF assms(1,3,2)]
  by (metis less_irrefl linorder_cases)

lemma comparator_lex:
  assumes "comparator c A" "comparator d A"
  shows "comparator (\<lambda>a b. if c a b \<noteq> 0 then c a b else d a b) A"
proof
  fix a b x assume in_A: "a \<in> A" "b \<in> A"
  show "(if c a b \<noteq> 0 then c a b else d a b) < 0 \<longleftrightarrow> 0 < (if c b a \<noteq> 0 then c b a else d b a)"
    using comparator.cmp_flip [OF assms(1) in_A] comparator.cmp_flip [OF assms(2) in_A]
      comparator_zero_flip [OF assms(1) in_A] by auto
  assume x: "x \<in> A" and ab: "(if c a b \<noteq> 0 then c a b else d a b) \<le> 0"
    and bx: "(if c b x \<noteq> 0 then c b x else d b x) \<le> 0"
  have c_le: "c a b \<le> 0" "c b x \<le> 0" using ab bx by (auto split: if_splits)
  then have c_ax: "c a x \<le> 0" using comparator.cmp_trans [OF assms(1) in_A x] by blast
  have "c a b = 0 \<and> c b x = 0" if "c a x = 0"
  proof -
    have "c x a \<le> 0" using that comparator_zero_flip [OF assms(1) in_A(1) x] by simp
    then have "c b a \<le> 0" "c x b \<le> 0"
      using c_le comparator.cmp_trans [OF assms(1) in_A(2) x in_A(1)]
        comparator.cmp_trans [OF assms(1) x in_A] by blast+
    then show ?thesis
      using c_le comparator.cmp_flip [OF assms(1) in_A] comparator.cmp_flip [OF assms(1) in_A(2) x]
      by linarith
  qed
  then show "(if c a x \<noteq> 0 then c a x else d a x) \<le> 0"
    using c_ax ab bx comparator.cmp_trans [OF assms(2) in_A x] by auto
qed

lemma comparator_cmp_or:
  assumes "list_all (\<lambda>c. comparator c A) cs"
  shows "comparator (\<lambda>a b. cmp_or (map (\<lambda>c. c a b) cs)) A"
  using assms
proof (induction cs)
  case Nil
  show ?case using comparator_zero by simp
next
  case (Cons c cs)
  then show ?case using comparator_lex [of c A "\<lambda>a b. cmp_or (map (\<lambda>c. c a b) cs)"] by simp
qed

subsection \<open>Searching a map for the preferred entry\<close>

text \<open>
  A loop that keeps the best element seen so far. Where the preference is a strict order that
  is total on elements with distinct keys, the result is the one element preferred to all
  others, whatever the order of the loop.
\<close>

fun best_of :: "('a \<Rightarrow> 'a \<Rightarrow> bool) \<Rightarrow> 'a option \<Rightarrow> 'a list \<Rightarrow> 'a option" where
  "best_of p b [] = b"
| "best_of p b (x # xs) =
     best_of p (case b of None \<Rightarrow> Some x | Some y \<Rightarrow> if p x y then Some x else Some y) xs"

lemma best_of_in: "best_of p b xs = Some x \<Longrightarrow> x \<in> set xs \<or> b = Some x"
  by (induction xs arbitrary: b) (fastforce split: option.splits if_splits)+

lemma best_of_None: "best_of p b xs = None \<longleftrightarrow> b = None \<and> xs = []"
  by (induction xs arbitrary: b) (auto split: option.splits if_splits)

locale preference =
  fixes pref :: "'a \<Rightarrow> 'a \<Rightarrow> bool" and key :: "'a \<Rightarrow> 'k"
  assumes pref_asym: "pref a b \<Longrightarrow> \<not> pref b a"
    and pref_trans: "pref a b \<Longrightarrow> pref b c \<Longrightarrow> pref a c"
    and pref_total: "key a \<noteq> key b \<Longrightarrow> pref a b \<or> pref b a"
begin

lemma best_of_maximal:
  assumes "best_of pref b xs = Some x"
    and "distinct (map key xs)" "\<And>y. b = Some y \<Longrightarrow> key y \<notin> key ` set xs"
  shows "\<forall>y. (y \<in> set xs \<or> b = Some y) \<longrightarrow> y = x \<or> pref x y"
  using assms
proof (induction xs arbitrary: b)
  case (Cons z zs)
  define b' where "b' = (case b of None \<Rightarrow> Some z | Some y \<Rightarrow> if pref z y then Some z else Some y)"
  obtain w where w: "b' = Some w" by (cases b') (auto simp: b'_def split: option.splits if_splits)
  have fresh: "key w \<notin> key ` set zs"
    using Cons.prems(2,3) w by (auto simp: b'_def split: option.splits if_splits)
  have IH: "\<forall>y. (y \<in> set zs \<or> b' = Some y) \<longrightarrow> y = x \<or> pref x y"
    using Cons.prems fresh w by (intro Cons.IH) (auto simp: b'_def)
  show ?case
  proof (intro allI impI)
    fix y assume y: "y \<in> set (z # zs) \<or> b = Some y"
    have "y \<in> set zs \<or> y = w \<or> pref w y"
    proof (cases b)
      case None
      then show ?thesis using y w by (auto simp: b'_def)
    next
      case (Some v)
      then have "key v \<noteq> key z" using Cons.prems(3) by auto
      then have "pref z v \<or> pref v z" using pref_total by blast
      then show ?thesis using y w Some by (auto simp: b'_def split: if_splits)
    qed
    then show "y = x \<or> pref x y" using IH w pref_trans by blast
  qed
qed simp

lemma best_of_unique:
  assumes "set xs = set ys" "distinct (map key xs)" "distinct (map key ys)"
  shows "best_of pref None xs = best_of pref None ys"
proof (cases "best_of pref None xs")
  case None
  then have "ys = []" using assms(1) by (auto simp: best_of_None)
  then show ?thesis using None by simp
next
  case (Some x)
  have x: "x \<in> set xs" using best_of_in [OF Some] by simp
  have x_best: "\<forall>y. y \<in> set xs \<longrightarrow> y = x \<or> pref x y"
    using best_of_maximal [OF Some assms(2)] by simp
  have "best_of pref None ys \<noteq> None" using x assms(1) by (auto simp: best_of_None)
  then obtain y where y: "best_of pref None ys = Some y" by blast
  have y_in: "y \<in> set ys" using best_of_in [OF y] by simp
  have y_best: "\<forall>z. z \<in> set ys \<longrightarrow> z = y \<or> pref y z"
    using best_of_maximal [OF y assms(3)] by simp
  have "x = y" using x x_best y_in y_best assms(1) pref_asym by metis
  then show ?thesis using Some y by simp
qed

end

subsection \<open>Loops that stop at the first error\<close>

fun fold_result :: "('s \<Rightarrow> 'a \<Rightarrow> 'e + 's) \<Rightarrow> 's \<Rightarrow> 'a list \<Rightarrow> 'e + 's" where
  "fold_result f s [] = Inr s"
| "fold_result f s (x # xs) = (case f s x of Inl e \<Rightarrow> Inl e | Inr s' \<Rightarrow> fold_result f s' xs)"

text \<open>The interface of such a loop: a body and what each turn of it keeps.\<close>

locale invariant_loop =
  fixes body :: "'s \<Rightarrow> 'a \<Rightarrow> 'e + 's" and inv :: "'s \<Rightarrow> bool" and ok :: "'a \<Rightarrow> bool"
  assumes body_keeps: "inv s \<Longrightarrow> ok x \<Longrightarrow> body s x = Inr s' \<Longrightarrow> inv s'"
begin

lemma loop_keeps:
  "inv s \<Longrightarrow> list_all ok xs \<Longrightarrow> fold_result body s xs = Inr s' \<Longrightarrow> inv s'"
  by (induction xs arbitrary: s) (auto split: sum.splits dest: body_keeps)

end

lemma fold_result_append:
  "fold_result f s (xs @ ys) =
     (case fold_result f s xs of Inl e \<Rightarrow> Inl e | Inr s' \<Rightarrow> fold_result f s' ys)"
  by (induction xs arbitrary: s) (auto split: sum.splits)

end
