(* ===== verification/Aht_Paths.thy ===== *)
theory Aht_Paths
  imports Aht_Prelude
begin

section \<open>Lexical paths: \<open>path/filepath\<close> on a slash-separated system\<close>

text \<open>
  The registry compares session and project paths after \<open>filepath.Clean\<close>, takes parents and
  last elements with \<open>Dir\<close> and \<open>Base\<close>, and decides containment with \<open>Rel\<close>. The model works on
  the elements between slashes. The lemmas show that a cleaned path is normal, that cleaning is
  idempotent and that it never lengthens a path, which is why a walk through parents ends.
\<close>

fun split_slash :: "string \<Rightarrow> string list" where
  "split_slash [] = [[]]"
| "split_slash (c # cs) =
     (if c = CHR ''/'' then [] # split_slash cs
      else (case split_slash cs of [] \<Rightarrow> [[c]] | w # ws \<Rightarrow> (c # w) # ws))"

definition dotdot :: string where
  "dotdot = ''..''"

text \<open>One element of a path against the elements kept so far, last first.\<close>

definition clean_step :: "bool \<Rightarrow> string \<Rightarrow> string list \<Rightarrow> string list" where
  "clean_step rooted e st =
     (if e = [] \<or> e = ''.'' then st
      else if e = dotdot then
        (case st of
           [] \<Rightarrow> if rooted then [] else [dotdot]
         | t # ts \<Rightarrow> if t = dotdot then dotdot # st else ts)
      else e # st)"

definition clean_elems :: "bool \<Rightarrow> string list \<Rightarrow> string list" where
  "clean_elems rooted es = rev (fold (clean_step rooted) es [])"

definition is_rooted :: "string \<Rightarrow> bool" where
  "is_rooted p = has_prefix p ''/''"

definition path_elems :: "string \<Rightarrow> string list" where
  "path_elems p = clean_elems (is_rooted p) (split_slash p)"

definition path_clean :: "string \<Rightarrow> string" where
  "path_clean p =
     (let es = path_elems p in
      if is_rooted p then CHR ''/'' # join ''/'' es
      else if es = [] then ''.'' else join ''/'' es)"

definition strip_slashes :: "string \<Rightarrow> string" where
  "strip_slashes p = rev (dropWhile (\<lambda>c. c = CHR ''/'') (rev p))"

definition path_base :: "string \<Rightarrow> string" where
  "path_base p =
     (if p = [] then ''.''
      else (let q = last (split_slash (strip_slashes p)) in if q = [] then ''/'' else q))"

definition path_dir :: "string \<Rightarrow> string" where
  "path_dir p = path_clean (rev (dropWhile (\<lambda>c. c \<noteq> CHR ''/'') (rev p)))"

definition path_join :: "string \<Rightarrow> string \<Rightarrow> string" where
  "path_join a b =
     (let es = filter (\<lambda>e. e \<noteq> []) [a, b]
      in if es = [] then [] else path_clean (join ''/'' es))"

fun drop_common :: "string list \<Rightarrow> string list \<Rightarrow> string list \<times> string list" where
  "drop_common (b # bs) (t # ts) = (if b = t then drop_common bs ts else (b # bs, t # ts))"
| "drop_common bs ts = (bs, ts)"

definition path_rel :: "string \<Rightarrow> string \<Rightarrow> string option" where
  "path_rel base targ =
     (if path_clean base = path_clean targ then Some ''.''
      else if is_rooted base \<noteq> is_rooted targ then None
      else (case drop_common (path_elems base) (path_elems targ) of
              (bs, ts) \<Rightarrow>
                if bs \<noteq> [] \<and> hd bs = dotdot then None
                else Some (join ''/'' (map (\<lambda>_. dotdot) bs @ ts))))"

subsection \<open>Normal element lists\<close>

definition plain :: "string \<Rightarrow> bool" where
  "plain e \<longleftrightarrow> e \<noteq> [] \<and> e \<noteq> ''.'' \<and> e \<noteq> dotdot \<and> CHR ''/'' \<notin> set e"

text \<open>
  The elements of a cleaned path: ordinary names, preceded by \<open>..\<close> elements only where the
  path is relative.
\<close>

definition normal_elems :: "bool \<Rightarrow> string list \<Rightarrow> bool" where
  "normal_elems rooted es \<longleftrightarrow>
     (\<exists>n ns. es = replicate n dotdot @ ns \<and> (rooted \<longrightarrow> n = 0) \<and> list_all plain ns)"

lemma split_slash_nonempty [simp]: "split_slash p \<noteq> []"
  by (induction p) (auto split: list.splits)

lemma split_slash_no_slash: "e \<in> set (split_slash p) \<Longrightarrow> CHR ''/'' \<notin> set e"
  by (induction p arbitrary: e) (fastforce split: if_splits list.splits)+

lemma split_slash_append:
  "CHR ''/'' \<notin> set e \<Longrightarrow> split_slash (e @ CHR ''/'' # p) = e # split_slash p"
  by (induction e) auto

lemma split_slash_single: "CHR ''/'' \<notin> set e \<Longrightarrow> split_slash e = [e]"
  by (induction e) auto

lemma split_slash_join:
  "es \<noteq> [] \<Longrightarrow> (\<And>e. e \<in> set es \<Longrightarrow> CHR ''/'' \<notin> set e) \<Longrightarrow> split_slash (join ''/'' es) = es"
  by (induction "''/''" es rule: join.induct)
     (simp_all add: split_slash_single split_slash_append)

text \<open>The same on the reversed stack the fold works on.\<close>

definition normal_stack :: "bool \<Rightarrow> string list \<Rightarrow> bool" where
  "normal_stack rooted st \<longleftrightarrow>
     (\<exists>ns n. st = ns @ replicate n dotdot \<and> (rooted \<longrightarrow> n = 0) \<and> list_all plain ns)"

lemma normal_stack_rev: "normal_stack rooted st \<longleftrightarrow> normal_elems rooted (rev st)"
proof
  assume "normal_stack rooted st"
  then obtain ns n where "st = ns @ replicate n dotdot" "rooted \<longrightarrow> n = 0" "list_all plain ns"
    by (auto simp: normal_stack_def)
  then have "rev st = replicate n dotdot @ rev ns \<and> (rooted \<longrightarrow> n = 0) \<and> list_all plain (rev ns)"
    by (simp add: list_all_rev)
  then show "normal_elems rooted (rev st)" unfolding normal_elems_def by blast
next
  assume "normal_elems rooted (rev st)"
  then obtain ns n where "rev st = replicate n dotdot @ ns" "rooted \<longrightarrow> n = 0" "list_all plain ns"
    by (auto simp: normal_elems_def)
  then have "st = rev ns @ replicate n dotdot \<and> (rooted \<longrightarrow> n = 0) \<and> list_all plain (rev ns)"
    by (metis list_all_rev rev_append rev_replicate rev_rev_ident)
  then show "normal_stack rooted st" unfolding normal_stack_def by blast
qed

lemma clean_step_normal:
  assumes "normal_stack rooted st" "CHR ''/'' \<notin> set e"
  shows "normal_stack rooted (clean_step rooted e st)"
proof -
  obtain ns n where st: "st = ns @ replicate n dotdot" "rooted \<longrightarrow> n = 0" "list_all plain ns"
    using assms(1) by (auto simp: normal_stack_def)
  consider "e = [] \<or> e = ''.''" | "e = dotdot" | "plain e"
    using assms(2) by (auto simp: plain_def)
  then show ?thesis
  proof cases
    case 1
    then show ?thesis using assms(1) by (auto simp: clean_step_def)
  next
    case 2
    show ?thesis
    proof (cases ns)
      case Nil
      then have "clean_step rooted e st = replicate (if rooted then 0 else Suc n) dotdot"
        using 2 st by (cases n) (auto simp: clean_step_def dotdot_def)
      moreover have "normal_stack rooted (replicate (if rooted then 0 else Suc n) dotdot)"
        unfolding normal_stack_def
        by (intro exI [of _ "[]"] exI [of _ "if rooted then 0 else Suc n"]) simp
      ultimately show ?thesis by simp
    next
      case (Cons m ms)
      then have "clean_step rooted e st = ms @ replicate n dotdot"
        using 2 st by (auto simp: clean_step_def plain_def dotdot_def)
      then show ?thesis unfolding normal_stack_def using st Cons by auto
    qed
  next
    case 3
    then have "clean_step rooted e st = (e # ns) @ replicate n dotdot"
      using st by (auto simp: clean_step_def plain_def)
    moreover have "list_all plain (e # ns)" using 3 st by simp
    ultimately show ?thesis unfolding normal_stack_def using st(2) by blast
  qed
qed

lemma fold_clean_step_normal:
  "normal_stack rooted st \<Longrightarrow> (\<And>e. e \<in> set es \<Longrightarrow> CHR ''/'' \<notin> set e) \<Longrightarrow>
   normal_stack rooted (fold (clean_step rooted) es st)"
  by (induction es arbitrary: st) (simp_all add: clean_step_normal)

lemma clean_elems_normal:
  "(\<And>e. e \<in> set es \<Longrightarrow> CHR ''/'' \<notin> set e) \<Longrightarrow> normal_elems rooted (clean_elems rooted es)"
proof -
  assume "\<And>e. e \<in> set es \<Longrightarrow> CHR ''/'' \<notin> set e"
  moreover have "normal_stack rooted []" by (simp add: normal_stack_def)
  ultimately have "normal_stack rooted (fold (clean_step rooted) es [])"
    by (rule fold_clean_step_normal [rotated]) auto
  then show ?thesis by (simp add: clean_elems_def normal_stack_rev)
qed

lemma clean_step_plain: "plain e \<Longrightarrow> clean_step rooted e st = e # st"
  by (simp add: clean_step_def plain_def)

lemma fold_clean_plain:
  "list_all plain ns \<Longrightarrow> fold (clean_step rooted) ns st = rev ns @ st"
  by (induction ns arbitrary: st) (simp_all add: clean_step_plain)

lemma clean_step_dotdots:
  "clean_step False dotdot (replicate m dotdot) = replicate (Suc m) dotdot"
  by (cases m) (simp_all add: clean_step_def dotdot_def)

lemma fold_clean_dotdot:
  "fold (clean_step False) (replicate n dotdot) (replicate m dotdot) = replicate (n + m) dotdot"
proof (induction n arbitrary: m)
  case (Suc n)
  have "fold (clean_step False) (replicate (Suc n) dotdot) (replicate m dotdot) =
      fold (clean_step False) (replicate n dotdot) (replicate (Suc m) dotdot)"
    by (simp add: clean_step_dotdots del: fold_replicate)
  also have "\<dots> = replicate (n + Suc m) dotdot" by (rule Suc.IH)
  finally show ?case by simp
qed simp

lemma clean_elems_idem: "normal_elems rooted es \<Longrightarrow> clean_elems rooted es = es"
proof -
  assume "normal_elems rooted es"
  then obtain n ns where es: "es = replicate n dotdot @ ns" "rooted \<longrightarrow> n = 0" "list_all plain ns"
    by (auto simp: normal_elems_def)
  show ?thesis
  proof (cases rooted)
    case True
    then show ?thesis using es by (simp add: clean_elems_def fold_clean_plain)
  next
    case False
    then show ?thesis
      using es fold_clean_dotdot [of n 0] by (simp add: clean_elems_def fold_clean_plain)
  qed
qed

lemma normal_elems_elem:
  "normal_elems rooted es \<Longrightarrow> e \<in> set es \<Longrightarrow> e = dotdot \<or> plain e"
  unfolding normal_elems_def list_all_iff by auto

lemma normal_elems_no_slash: "normal_elems rooted es \<Longrightarrow> e \<in> set es \<Longrightarrow> CHR ''/'' \<notin> set e"
  using normal_elems_elem [of rooted es e] by (auto simp: plain_def dotdot_def)

lemma normal_elems_nonempty: "normal_elems rooted es \<Longrightarrow> e \<in> set es \<Longrightarrow> e \<noteq> []"
  using normal_elems_elem [of rooted es e] by (auto simp: plain_def dotdot_def)

lemma path_elems_normal: "normal_elems (is_rooted p) (path_elems p)"
  unfolding path_elems_def by (rule clean_elems_normal) (rule split_slash_no_slash)

lemma join_first:
  "es \<noteq> [] \<Longrightarrow> hd es \<noteq> [] \<Longrightarrow> join sep es \<noteq> [] \<and> hd (join sep es) = hd (hd es)"
  by (cases es; cases "tl es") auto

lemma is_rooted_Cons [simp]: "is_rooted (CHR ''/'' # p)"
  by (simp add: is_rooted_def)

lemma is_rooted_iff: "is_rooted p \<longleftrightarrow> p \<noteq> [] \<and> hd p = CHR ''/''"
  by (cases p) (auto simp: is_rooted_def)

lemma is_rooted_path_clean [simp]: "is_rooted (path_clean p) = is_rooted p"
proof (cases "is_rooted p \<or> path_elems p = []")
  case True
  then show ?thesis by (auto simp: path_clean_def Let_def is_rooted_iff)
next
  case False
  then have "hd (path_elems p) \<in> set (path_elems p)" by simp
  then have "hd (path_elems p) \<noteq> []" "CHR ''/'' \<notin> set (hd (path_elems p))"
    using path_elems_normal normal_elems_no_slash normal_elems_nonempty by blast+
  then show ?thesis
    using False join_first [of "path_elems p" "''/''"] list.set_sel(1)
    by (fastforce simp: path_clean_def Let_def is_rooted_iff)
qed

lemma path_elems_path_clean [simp]: "path_elems (path_clean p) = path_elems p"
proof -
  let ?es = "path_elems p"
  note normal = path_elems_normal [of p]
  show ?thesis
  proof (cases "?es = []")
    case True
    then show ?thesis
      using path_elems_def [of p]
      by (cases "is_rooted p")
         (simp_all add: path_clean_def path_elems_def [of "_ # _"] clean_elems_def is_rooted_def
           clean_step_def)
  next
    case False
    then have split: "split_slash (join ''/'' ?es) = ?es"
      using normal normal_elems_no_slash by (intro split_slash_join) auto
    have "clean_elems (is_rooted p) (split_slash (path_clean p)) = ?es"
      using False split clean_elems_idem [OF normal]
      by (auto simp: path_clean_def Let_def clean_elems_def clean_step_def)
    then show ?thesis unfolding path_elems_def [of "path_clean p"] by simp
  qed
qed

lemma path_clean_eq:
  "path_clean p =
     (if is_rooted p then CHR ''/'' # join ''/'' (path_elems p)
      else if path_elems p = [] then ''.'' else join ''/'' (path_elems p))"
  by (simp add: path_clean_def Let_def)

lemma path_clean_idem: "path_clean (path_clean p) = path_clean p"
  by (simp add: path_clean_eq [of "path_clean p"]) (simp add: path_clean_eq [of p])

lemma path_clean_Nil [simp]: "path_clean [] = ''.''"
  by (simp add: path_clean_def path_elems_def clean_elems_def is_rooted_def clean_step_def)

lemma path_clean_slash [simp]: "path_clean ''/'' = ''/''"
  by (simp add: path_clean_def path_elems_def clean_elems_def is_rooted_def clean_step_def)

subsection \<open>Cleaning never lengthens a path\<close>

definition weight :: "string list \<Rightarrow> nat" where
  "weight es = sum_list (map (\<lambda>e. Suc (length e)) es)"

lemma weight_simps [simp]:
  "weight [] = 0" "weight (e # es) = Suc (length e) + weight es"
  "weight (es @ fs) = weight es + weight fs" "weight (rev es) = weight es"
  by (simp_all add: weight_def flip: rev_map)

lemma weight_split_slash: "weight (split_slash p) = Suc (length p)"
  by (induction p) (auto split: list.splits)

lemma length_join_slash: "es \<noteq> [] \<Longrightarrow> Suc (length (join ''/'' es)) = weight es"
  by (induction "''/''" es rule: join.induct) auto

lemma weight_clean_step: "weight (clean_step r e st) \<le> weight st + Suc (length e)"
  by (auto simp: clean_step_def dotdot_def split: list.splits)

lemma weight_fold_clean: "weight (fold (clean_step r) es st) \<le> weight st + weight es"
proof (induction es arbitrary: st)
  case (Cons e es)
  have "weight (fold (clean_step r) (e # es) st) \<le> weight (clean_step r e st) + weight es"
    using Cons [of "clean_step r e st"] by (simp)
  also have "\<dots> \<le> weight st + weight (e # es)"
    using weight_clean_step [of r e st] by simp
  finally show ?case .
qed simp

lemma split_slash_rooted: "is_rooted p \<Longrightarrow> split_slash p = [] # split_slash (tl p)"
  by (cases p) (auto simp: is_rooted_iff)

lemma split_slash_trailing: "split_slash (p @ ''/'') = split_slash p @ [[]]"
  by (induction p) (auto split: list.splits)

lemma weight_path_elems:
  "weight (path_elems p) \<le> (if is_rooted p then length p else Suc (length p))"
proof (cases "is_rooted p")
  case True
  then have "weight (path_elems p) \<le> weight (split_slash (tl p))"
    using weight_fold_clean [of True "split_slash (tl p)" "[]"]
    by (simp add: path_elems_def clean_elems_def split_slash_rooted clean_step_def)
  also have "\<dots> = length p" using True by (cases p) (auto simp: weight_split_slash is_rooted_iff)
  finally show ?thesis using True by simp
next
  case False
  then show ?thesis
    using weight_fold_clean [of False "split_slash p" "[]"]
    by (simp add: path_elems_def clean_elems_def weight_split_slash)
qed

lemma length_path_clean: "p \<noteq> [] \<Longrightarrow> length (path_clean p) \<le> length p"
  using weight_path_elems [of p] length_join_slash [of "path_elems p"]
  by (cases p; cases "path_elems p = []") (auto simp: path_clean_def Let_def split: if_splits)

lemma path_elems_trailing: "p \<noteq> [] \<Longrightarrow> path_elems (p @ ''/'') = path_elems p"
  by (simp add: path_elems_def clean_elems_def split_slash_trailing is_rooted_iff clean_step_def)

lemma path_clean_trailing: "p \<noteq> [] \<Longrightarrow> path_clean (p @ ''/'') = path_clean p"
  by (simp add: path_clean_def path_elems_trailing is_rooted_iff)

text \<open>The parent of a path is shorter, unless the path is its own parent, \<open>.\<close> or \<open>/\<close>.\<close>

lemma length_path_dir:
  assumes "path_dir p \<noteq> ''.''" "path_dir p \<noteq> p" "path_dir p \<noteq> ''/''"
  shows "length (path_dir p) < length p"
proof -
  let ?q = "rev (dropWhile (\<lambda>c. c \<noteq> CHR ''/'') (rev p))"
  have len_q: "length ?q \<le> length p" by (metis length_dropWhile_le length_rev)
  have dir: "path_dir p = path_clean ?q" by (simp add: path_dir_def)
  have "?q \<noteq> []"
  proof
    assume "?q = []"
    then have "path_dir p = ''.''" using dir path_clean_Nil by metis
    then show False using assms(1) by simp
  qed
  then have "last ?q = CHR ''/''"
    using hd_dropWhile [of "\<lambda>c. c \<noteq> CHR ''/''" "rev p"] by (simp add: last_rev)
  then obtain r where r: "?q = r @ ''/''"
    using \<open>?q \<noteq> []\<close> by (metis append_butlast_last_id)
  have "r \<noteq> []"
  proof
    assume "r = []"
    then have "path_dir p = ''/''" using dir r path_clean_slash by (metis append_Nil)
    then show False using assms(3) by simp
  qed
  then have "length (path_dir p) \<le> length r"
    using dir r path_clean_trailing length_path_clean by metis
  then show ?thesis using len_q r by simp
qed

subsection \<open>Containment\<close>

lemma drop_common_prefix: "drop_common bs (bs @ ts) = ([], ts)"
  by (induction bs) auto

lemma drop_common_fst_Nil: "fst (drop_common bs ts) = [] \<Longrightarrow> \<exists>us. ts = bs @ us \<and> snd (drop_common bs ts) = us"
  by (induction bs ts rule: drop_common.induct) (auto split: if_splits)

lemma drop_common_suffix:
  "drop_common bs ts = (bs', ts') \<Longrightarrow> \<exists>cs. bs = cs @ bs' \<and> ts = cs @ ts'"
proof (induction bs ts rule: drop_common.induct)
  case (1 b bs t ts)
  then show ?case by (cases "b = t") (auto intro: exI [of _ "b # _"])
qed auto

end
