(* ===== verification/Aht_Model.thy ===== *)
theory Aht_Model
  imports Aht_Paths
begin

section \<open>The data model: \<open>pkg/registry/model.go\<close>\<close>

text \<open>
  The string enumerations of the code are datatypes with one constructor per declared constant
  and an \<open>Other\<close> constructor for every other string the Go type admits, the empty one included;
  \<open>Valid\<close> then says what it says in the code. Structs are records, one field per Go field,
  prefixed by the struct. A pointer field is an option. Nil and empty slices, and nil and empty
  maps, are one value: the registry normalises empty ones to nil when it stores them. Instants
  carry no location: the code converts them to UTC where it stores them.
\<close>

subsection \<open>Enumerations\<close>

datatype presence = PresenceLive | PresenceGone | PresenceUnknown | PresenceOther string

datatype activity =
  ActivityRunning | ActivityWaiting | ActivityIdle | ActivityFailed | ActivityInterrupted
  | ActivityUnknown | ActivityOther string

datatype native_lifecycle =
  NativeLifecycleStart | NativeLifecycleResume | NativeLifecycleEnd | NativeLifecycleOther string

datatype identity_state = IdentityProvisional | IdentityIdentified | IdentityOther string

datatype authority = AuthorityHook | AuthorityScreen | AuthorityProcess | AuthorityOther string

datatype incarnation_state =
  IncarnationStarting | IncarnationLive | IncarnationEnded | IncarnationExited
  | IncarnationOther string

datatype activity_detail =
  ActivityDetailPermission | ActivityDetailQuestion | ActivityDetailGeneral
  | ActivityDetailUsageLimit | ActivityDetailOther string

datatype detail_quality =
  DetailQualityCurrent | DetailQualityStale | DetailQualityMissing | DetailQualityUnsupported
  | DetailQualityOther string

text \<open>Harness names and multiplexer kinds are compared as strings, so they stay strings.\<close>

type_synonym harness = string
type_synonym multiplexer_kind = string

definition MultiplexerTmux :: multiplexer_kind where "MultiplexerTmux = ''tmux''"
definition MultiplexerZellij :: multiplexer_kind where "MultiplexerZellij = ''zellij''"
definition MultiplexerHerdr :: multiplexer_kind where "MultiplexerHerdr = ''herdr''"

abbreviation no_presence :: presence where "no_presence \<equiv> PresenceOther []"
abbreviation no_activity :: activity where "no_activity \<equiv> ActivityOther []"
abbreviation no_authority :: authority where "no_authority \<equiv> AuthorityOther []"
abbreviation no_detail :: activity_detail where "no_detail \<equiv> ActivityDetailOther []"
abbreviation no_incarnation :: incarnation_state where "no_incarnation \<equiv> IncarnationOther []"

fun presence_string :: "presence \<Rightarrow> string" where
  "presence_string PresenceLive = ''live''"
| "presence_string PresenceGone = ''gone''"
| "presence_string PresenceUnknown = ''unknown''"
| "presence_string (PresenceOther s) = s"

fun activity_string :: "activity \<Rightarrow> string" where
  "activity_string ActivityRunning = ''running''"
| "activity_string ActivityWaiting = ''waiting''"
| "activity_string ActivityIdle = ''idle''"
| "activity_string ActivityFailed = ''failed''"
| "activity_string ActivityInterrupted = ''interrupted''"
| "activity_string ActivityUnknown = ''unknown''"
| "activity_string (ActivityOther s) = s"

fun lifecycle_string :: "native_lifecycle \<Rightarrow> string" where
  "lifecycle_string NativeLifecycleStart = ''start''"
| "lifecycle_string NativeLifecycleResume = ''resume''"
| "lifecycle_string NativeLifecycleEnd = ''end''"
| "lifecycle_string (NativeLifecycleOther s) = s"

fun incarnation_string :: "incarnation_state \<Rightarrow> string" where
  "incarnation_string IncarnationStarting = ''starting''"
| "incarnation_string IncarnationLive = ''live''"
| "incarnation_string IncarnationEnded = ''ended''"
| "incarnation_string IncarnationExited = ''exited''"
| "incarnation_string (IncarnationOther s) = s"

subsection \<open>Validity of enumerated values\<close>

definition presence_valid :: "presence \<Rightarrow> bool" where
  "presence_valid p = (p = PresenceLive \<or> p = PresenceGone \<or> p = PresenceUnknown)"

definition activity_valid :: "activity \<Rightarrow> bool" where
  "activity_valid a =
     (a = ActivityRunning \<or> a = ActivityWaiting \<or> a = ActivityIdle \<or> a = ActivityFailed
      \<or> a = ActivityInterrupted \<or> a = ActivityUnknown)"

definition lifecycle_valid :: "native_lifecycle \<Rightarrow> bool" where
  "lifecycle_valid l =
     (l = NativeLifecycleStart \<or> l = NativeLifecycleResume \<or> l = NativeLifecycleEnd)"

definition kind_valid :: "multiplexer_kind \<Rightarrow> bool" where
  "kind_valid k = (k = MultiplexerTmux \<or> k = MultiplexerZellij \<or> k = MultiplexerHerdr)"

definition authority_valid :: "authority \<Rightarrow> bool" where
  "authority_valid a = (a = AuthorityHook \<or> a = AuthorityScreen \<or> a = AuthorityProcess)"

lemma presence_valid_simps [simp]:
  "presence_valid PresenceLive" "presence_valid PresenceGone" "presence_valid PresenceUnknown"
  "\<not> presence_valid (PresenceOther s)"
  by (simp_all add: presence_valid_def)

lemma activity_valid_simps [simp]:
  "activity_valid ActivityRunning" "activity_valid ActivityWaiting" "activity_valid ActivityIdle"
  "activity_valid ActivityFailed" "activity_valid ActivityInterrupted"
  "activity_valid ActivityUnknown" "\<not> activity_valid (ActivityOther s)"
  by (simp_all add: activity_valid_def)

lemma lifecycle_valid_simps [simp]:
  "lifecycle_valid NativeLifecycleStart" "lifecycle_valid NativeLifecycleResume"
  "lifecycle_valid NativeLifecycleEnd" "\<not> lifecycle_valid (NativeLifecycleOther s)"
  by (simp_all add: lifecycle_valid_def)

subsection \<open>Errors\<close>

text \<open>
  One constructor per sentinel error of the package; the argument is the fixed text the code
  wraps it with. \<open>ErrContext\<close> is a cancelled context, \<open>ErrDropped\<close> is \<open>errObservationDropped\<close>;
  \<open>ErrNilDereference\<close> is the panic of a read through a nil pointer.
\<close>

datatype reg_error =
  ErrInvalidObservation string
  | ErrUnknownPresence string
  | ErrUnknownActivity string
  | ErrObservationConflict string
  | ErrDropped string
  | ErrCorruptStore string
  | ErrProcessEnded
  | ErrSessionNotFound
  | ErrUnsupportedGroupBy
  | ErrContext
  | ErrStoreClosed
  | ErrJournalSequenceExhausted
  | ErrStorage string
  | ErrEncoding
  | ErrNilDereference

subsection \<open>Structs\<close>

record location =
  l_Kind :: multiplexer_kind
  l_ServerID :: string
  l_SessionID :: string
  l_SessionName :: string
  l_WorkspaceID :: string
  l_WorkspaceName :: string
  l_TabID :: string
  l_TabIndex :: string
  l_TabName :: string
  l_WindowID :: string
  l_WindowIndex :: string
  l_WindowName :: string
  l_PaneID :: string
  l_PaneIndex :: string
  l_PaneCurrentPath :: string
  l_PanePID :: int
  l_PaneTTY :: string
  l_ClientTTY :: string

definition zero_location :: location where
  "zero_location =
     \<lparr>l_Kind = [], l_ServerID = [], l_SessionID = [], l_SessionName = [], l_WorkspaceID = [],
      l_WorkspaceName = [], l_TabID = [], l_TabIndex = [], l_TabName = [], l_WindowID = [],
      l_WindowIndex = [], l_WindowName = [], l_PaneID = [], l_PaneIndex = [],
      l_PaneCurrentPath = [], l_PanePID = 0, l_PaneTTY = [], l_ClientTTY = []\<rparr>"

definition location_empty :: "location \<Rightarrow> bool" where
  "location_empty l = (l = zero_location)"

record process_identity =
  p_PID :: int
  p_PPID :: int
  p_ProcessGroupID :: int
  p_Foreground :: bool
  p_StartIdentity :: string
  p_Executable :: string
  p_CWD :: string
  p_TTY :: string

definition zero_process :: process_identity where
  "zero_process =
     \<lparr>p_PID = 0, p_PPID = 0, p_ProcessGroupID = 0, p_Foreground = False, p_StartIdentity = [],
      p_Executable = [], p_CWD = [], p_TTY = []\<rparr>"

definition process_complete :: "process_identity \<Rightarrow> bool" where
  "process_complete p = (p_PID p > 0 \<and> p_StartIdentity p \<noteq> [])"

definition process_equal :: "process_identity \<Rightarrow> process_identity \<Rightarrow> bool" where
  "process_equal p q =
     (p_PID p = p_PID q \<and> p_StartIdentity p \<noteq> [] \<and> p_StartIdentity p = p_StartIdentity q)"

record reporter =
  rp_Sequence :: "64 word option"
  rp_Integration :: string
  rp_Version :: int
  rp_MultiSession :: bool

definition zero_reporter :: reporter where
  "zero_reporter =
     \<lparr>rp_Sequence = None, rp_Integration = [], rp_Version = 0, rp_MultiSession = False\<rparr>"

record detail_evidence =
  de_Value :: activity_detail
  de_ObservedAt :: time

record state_detail =
  sd_Value :: activity_detail
  sd_Quality :: detail_quality
  sd_Authority :: authority
  sd_ObservedAt :: time

record native_observation =
  n_Detail :: "detail_evidence option"
  n_Reporter :: reporter
  n_Event :: string
  n_Lifecycle :: "native_lifecycle option"
  n_Presence :: "presence option"
  n_Activity :: "activity option"
  n_SessionID :: string
  n_SessionPath :: string
  n_ObservedAt :: time
  n_Attributes :: "(string, string) fmap"
  n_RawPayload :: string
  n_Process :: process_identity

record screen_observation =
  sc_Detail :: activity_detail
  sc_Activity :: activity
  sc_Authority :: authority
  sc_Reason :: string
  sc_RuleID :: string
  sc_ManifestSource :: string
  sc_ManifestVersion :: int
  sc_FallbackForIntegration :: string
  sc_FallbackReason :: string
  sc_Process :: process_identity
  sc_ObservedAt :: time

record activity_decision =
  d_Authority :: authority
  d_Reason :: string
  d_RuleID :: string
  d_ManifestSource :: string
  d_ManifestVersion :: int
  d_FallbackReason :: string
  d_Process :: process_identity
  d_ObservedAt :: time

record process_observation =
  po_Present :: bool
  po_Process :: process_identity
  po_ObservedAt :: time

record multiplexer_observation =
  mo_Process :: process_identity
  mo_Location :: location
  mo_ObservedAt :: time

record catalog_observation =
  co_SessionID :: string
  co_SessionPath :: string
  co_ResumeCommand :: "string list"
  co_CWD :: string
  co_ProjectRoot :: string
  co_ProcessPID :: int
  co_ObservedAt :: time

record observations =
  o_Native :: "native_observation option"
  o_Process :: "process_observation option"
  o_Location :: "multiplexer_observation option"
  o_Catalog :: "catalog_observation option"
  o_Screen :: "screen_observation option"

definition zero_observations :: observations where
  "zero_observations =
     \<lparr>o_Native = None, o_Process = None, o_Location = None, o_Catalog = None, o_Screen = None\<rparr>"

text \<open>The interface \<open>Liveness\<close> with its three implementations and its nil value.\<close>

datatype liveness =
  NoLiveness
  | Unknown activity "activity_decision option"
  | Live activity "activity_decision option"
  | Gone time string "activity_decision option"

record incarnation =
  i_State :: incarnation_state
  i_Process :: process_identity
  i_EvidenceAt :: time
  i_TransitionAt :: time
  i_Previous :: "process_identity option"

definition zero_incarnation :: incarnation where
  "zero_incarnation =
     \<lparr>i_State = no_incarnation, i_Process = zero_process, i_EvidenceAt = 0, i_TransitionAt = 0,
      i_Previous = None\<rparr>"

record session =
  s_Detail :: "state_detail option"
  s_Incarnation :: incarnation
  s_IdentityState :: identity_state
  s_Liveness :: liveness
  s_SchemaVersion :: int
  s_ID :: string
  s_Harness :: harness
  s_SessionID :: string
  s_SessionPath :: string
  s_ResumeCommand :: "string list"
  s_CWD :: string
  s_ProjectRoot :: string
  s_Process :: "process_identity option"
  s_Location :: location
  s_Observations :: observations
  s_CreatedAt :: time
  s_UpdatedAt :: time
  s_PresenceChangedAt :: time
  s_ActivityChangedAt :: time

definition zero_session :: session where
  "zero_session =
     \<lparr>s_Detail = None, s_Incarnation = zero_incarnation, s_IdentityState = IdentityOther [],
      s_Liveness = NoLiveness, s_SchemaVersion = 0, s_ID = [], s_Harness = [], s_SessionID = [],
      s_SessionPath = [], s_ResumeCommand = [], s_CWD = [], s_ProjectRoot = [], s_Process = None,
      s_Location = zero_location, s_Observations = zero_observations, s_CreatedAt = 0,
      s_UpdatedAt = 0, s_PresenceChangedAt = 0, s_ActivityChangedAt = 0\<rparr>"

record observation_identity =
  oi_SessionID :: string
  oi_SessionPath :: string
  oi_CWD :: string
  oi_Attributes :: "(string, string) fmap"

definition zero_identity :: observation_identity where
  "zero_identity =
     \<lparr>oi_SessionID = [], oi_SessionPath = [], oi_CWD = [], oi_Attributes = fmempty\<rparr>"

record listing =
  li_ResumeCommand :: "string list"
  li_CWD :: string
  li_ProjectRoot :: string
  li_ProcessPID :: int
  li_ProcessStartIdentity :: string
  li_Current :: bool

record session_filter =
  f_Harness :: harness
  f_Presence :: presence
  f_Activity :: activity
  f_MultiplexerSession :: string
  f_Project :: string
  f_ProjectSubtree :: bool
  f_CWD :: string
  f_MultiplexerKind :: multiplexer_kind
  f_MultiplexerServer :: string
  f_MultiplexerPane :: string

definition zero_filter :: session_filter where
  "zero_filter =
     \<lparr>f_Harness = [], f_Presence = no_presence, f_Activity = no_activity,
      f_MultiplexerSession = [], f_Project = [], f_ProjectSubtree = False, f_CWD = [],
      f_MultiplexerKind = [], f_MultiplexerServer = [], f_MultiplexerPane = []\<rparr>"

text \<open>\<open>storeSchemaVersion\<close> and \<open>IntegrationActivityLease\<close> of \<open>store.go\<close>.\<close>

definition storeSchemaVersion :: int where
  "storeSchemaVersion = 4"

definition IntegrationActivityLease :: duration where
  "IntegrationActivityLease = 30 * second"

subsection \<open>Normalisation of user input\<close>

definition normalize_word :: "string \<Rightarrow> string" where
  "normalize_word v = to_lower (trim_space v)"

definition NormalizePresence :: "string \<Rightarrow> reg_error + presence" where
  "NormalizePresence v =
     (let w = normalize_word v in
      if w = '''' then Inr no_presence
      else if w = ''live'' then Inr PresenceLive
      else if w = ''gone'' then Inr PresenceGone
      else if w = ''unknown'' then Inr PresenceUnknown
      else Inl (ErrUnknownPresence v))"

definition NormalizeActivity :: "string \<Rightarrow> reg_error + activity" where
  "NormalizeActivity v =
     (let w = normalize_word v in
      if w = '''' then Inr no_activity
      else if w \<in> set [''running'', ''working'', ''busy'', ''retry''] then Inr ActivityRunning
      else if w \<in> set [''waiting'', ''blocked''] then Inr ActivityWaiting
      else if w \<in> set [''idle'', ''offline''] then Inr ActivityIdle
      else if w \<in> set [''failed'', ''error'', ''errored'', ''crash'', ''crashed'']
        then Inr ActivityFailed
      else if w \<in> set [''interrupted'', ''paused'', ''stopped'', ''canceled'', ''cancelled'']
        then Inr ActivityInterrupted
      else if w = ''unknown'' then Inr ActivityUnknown
      else Inl (ErrUnknownActivity v))"

definition NormalizeLifecycle :: "string \<Rightarrow> reg_error + native_lifecycle" where
  "NormalizeLifecycle v =
     (let w = normalize_word v in
      if w = ''start'' then Inr NativeLifecycleStart
      else if w = ''resume'' then Inr NativeLifecycleResume
      else if w = ''end'' then Inr NativeLifecycleEnd
      else Inl (ErrInvalidObservation v))"

subsection \<open>Process identities\<close>

text \<open>
  \<open>Equal\<close> is symmetric and transitive, and reflexive exactly on identities that know their
  start: it is an equivalence on complete identities.
\<close>

lemma process_equal_sym: "process_equal p q = process_equal q p"
  by (auto simp: process_equal_def)

lemma process_equal_trans: "process_equal p q \<Longrightarrow> process_equal q r \<Longrightarrow> process_equal p r"
  by (auto simp: process_equal_def)

lemma process_equal_refl: "process_complete p \<Longrightarrow> process_equal p p"
  by (simp add: process_equal_def process_complete_def)

lemma process_equal_complete: "process_equal p q \<Longrightarrow> process_complete p = process_complete q"
  by (auto simp: process_equal_def process_complete_def)

lemma zero_process_incomplete [simp]: "\<not> process_complete zero_process"
  by (simp add: process_complete_def zero_process_def)

lemma zero_process_not_equal [simp]: "\<not> process_equal zero_process p" "\<not> process_equal p zero_process"
  by (auto simp: process_equal_def zero_process_def)

lemma process_complete_not_zero: "process_complete p \<Longrightarrow> p \<noteq> zero_process"
  by auto

subsection \<open>The latest of some instants: \<open>maxTime\<close> of \<open>query.go\<close>\<close>

definition maxTime :: "time list \<Rightarrow> time" where
  "maxTime vs = foldl (\<lambda>latest v. if v > latest then v else latest) 0 vs"

lemma maxTime_two: "maxTime [a, b] = max 0 (max a b)"
  by (simp add: maxTime_def)

lemma maxTime_ge1 [simp]: "a \<le> maxTime [a, b]"
  and maxTime_ge2 [simp]: "b \<le> maxTime [a, b]"
  and maxTime_nonneg [simp]: "0 \<le> maxTime [a, b]"
  by (simp_all add: maxTime_two)

lemma maxTime_same [simp]: "0 \<le> a \<Longrightarrow> maxTime [a, a] = a"
  by (simp add: maxTime_two)

lemma maxTime_left: "0 \<le> a \<Longrightarrow> b \<le> a \<Longrightarrow> maxTime [a, b] = a"
  by (simp add: maxTime_two)

lemma maxTime_right: "0 \<le> b \<Longrightarrow> a \<le> b \<Longrightarrow> maxTime [a, b] = b"
  by (simp add: maxTime_two)

end
