(* ===== verification/Aht_Liveness.thy ===== *)
theory Aht_Liveness
  imports Aht_Model
begin

section \<open>Presence, activity and decision of a session: \<open>liveness.go\<close>\<close>

text \<open>
  The state a consumer sees is one value of the interface \<open>Liveness\<close>. The three readers and the
  three setters are the only ways the reducer looks at it or changes it, apart from assigning a
  whole value.
\<close>

definition NewLiveness :: "presence \<Rightarrow> activity \<Rightarrow> activity_decision option \<Rightarrow> liveness" where
  "NewLiveness p a d =
     (case p of
        PresenceGone \<Rightarrow> Gone 0 [] d
      | PresenceLive \<Rightarrow> Live a d
      | PresenceUnknown \<Rightarrow> Unknown a d
      | PresenceOther _ \<Rightarrow> Unknown a d)"

definition ActivityValue :: "activity option \<Rightarrow> activity" where
  "ActivityValue a = (case a of None \<Rightarrow> ActivityUnknown | Some v \<Rightarrow> v)"

definition s_Presence :: "session \<Rightarrow> presence" where
  "s_Presence s =
     (case s_Liveness s of
        Live _ _ \<Rightarrow> PresenceLive
      | Gone _ _ _ \<Rightarrow> PresenceGone
      | Unknown _ _ \<Rightarrow> PresenceUnknown
      | NoLiveness \<Rightarrow> PresenceUnknown)"

definition s_Activity :: "session \<Rightarrow> activity option" where
  "s_Activity s =
     (case s_Liveness s of
        Live a _ \<Rightarrow> Some a
      | Unknown a _ \<Rightarrow> Some a
      | Gone _ _ _ \<Rightarrow> None
      | NoLiveness \<Rightarrow> Some ActivityUnknown)"

definition s_Decision :: "session \<Rightarrow> activity_decision option" where
  "s_Decision s =
     (case s_Liveness s of
        Live _ d \<Rightarrow> d
      | Unknown _ d \<Rightarrow> d
      | Gone _ _ d \<Rightarrow> d
      | NoLiveness \<Rightarrow> None)"

definition setPresence :: "presence \<Rightarrow> session \<Rightarrow> session" where
  "setPresence p s = s\<lparr>s_Liveness := NewLiveness p (ActivityValue (s_Activity s)) (s_Decision s)\<rparr>"

definition setActivity :: "activity option \<Rightarrow> session \<Rightarrow> session" where
  "setActivity a s =
     (if s_Presence s = PresenceGone then s
      else s\<lparr>s_Liveness := NewLiveness (s_Presence s) (ActivityValue a) (s_Decision s)\<rparr>)"

definition setDecision :: "activity_decision option \<Rightarrow> session \<Rightarrow> session" where
  "setDecision d s =
     (case s_Liveness s of
        Gone at reason _ \<Rightarrow> s\<lparr>s_Liveness := Gone at reason d\<rparr>
      | _ \<Rightarrow> s\<lparr>s_Liveness := NewLiveness (s_Presence s) (ActivityValue (s_Activity s)) d\<rparr>)"

lemma ActivityValue_simps [simp]:
  "ActivityValue None = ActivityUnknown" "ActivityValue (Some a) = a"
  by (simp_all add: ActivityValue_def)

lemma presence_cases: "s_Presence s = PresenceLive \<or> s_Presence s = PresenceGone \<or> s_Presence s = PresenceUnknown"
  by (simp add: s_Presence_def split: liveness.split)

lemma s_Presence_valid [simp]: "presence_valid (s_Presence s)"
  using presence_cases [of s] by auto

lemma activity_None_iff_gone: "s_Activity s = None \<longleftrightarrow> s_Presence s = PresenceGone"
  by (simp add: s_Presence_def s_Activity_def split: liveness.split)

text \<open>Each setter changes the part it names and keeps the other two.\<close>

lemma setPresence_reads [simp]:
  "s_Presence (setPresence PresenceLive s) = PresenceLive"
  "s_Presence (setPresence PresenceUnknown s) = PresenceUnknown"
  "s_Activity (setPresence PresenceLive s) = Some (ActivityValue (s_Activity s))"
  "s_Activity (setPresence PresenceUnknown s) = Some (ActivityValue (s_Activity s))"
  "s_Decision (setPresence p s) = s_Decision s"
  by (simp_all add: setPresence_def NewLiveness_def s_Presence_def s_Activity_def s_Decision_def
      split: presence.split)

lemma setActivity_reads [simp]:
  "s_Presence (setActivity a s) = s_Presence s"
  "s_Decision (setActivity a s) = s_Decision s"
  "s_Presence s \<noteq> PresenceGone \<Longrightarrow> s_Activity (setActivity a s) = Some (ActivityValue a)"
  "s_Presence s = PresenceGone \<Longrightarrow> setActivity a s = s"
  by (auto simp: setActivity_def NewLiveness_def s_Presence_def s_Activity_def s_Decision_def
      split: presence.split liveness.split)

lemma setDecision_reads [simp]:
  "s_Presence (setDecision d s) = s_Presence s"
  "s_Activity (setDecision d s) = s_Activity s"
  "s_Decision (setDecision d s) = d"
  by (auto simp: setDecision_def NewLiveness_def s_Presence_def s_Activity_def s_Decision_def
      split: presence.split liveness.split)

text \<open>Fields outside the liveness are untouched.\<close>

lemma setPresence_frame [simp]:
  "s_Detail (setPresence p s) = s_Detail s"
  "s_Incarnation (setPresence p s) = s_Incarnation s"
  "s_IdentityState (setPresence p s) = s_IdentityState s"
  "s_SchemaVersion (setPresence p s) = s_SchemaVersion s"
  "s_ID (setPresence p s) = s_ID s"
  "s_Harness (setPresence p s) = s_Harness s"
  "s_SessionID (setPresence p s) = s_SessionID s"
  "s_SessionPath (setPresence p s) = s_SessionPath s"
  "s_ResumeCommand (setPresence p s) = s_ResumeCommand s"
  "s_CWD (setPresence p s) = s_CWD s"
  "s_ProjectRoot (setPresence p s) = s_ProjectRoot s"
  "s_Process (setPresence p s) = s_Process s"
  "s_Location (setPresence p s) = s_Location s"
  "s_Observations (setPresence p s) = s_Observations s"
  "s_CreatedAt (setPresence p s) = s_CreatedAt s"
  "s_UpdatedAt (setPresence p s) = s_UpdatedAt s"
  "s_PresenceChangedAt (setPresence p s) = s_PresenceChangedAt s"
  "s_ActivityChangedAt (setPresence p s) = s_ActivityChangedAt s"
  by (simp_all add: setPresence_def split: liveness.split)

lemma setActivity_frame [simp]:
  "s_Detail (setActivity a s) = s_Detail s"
  "s_Incarnation (setActivity a s) = s_Incarnation s"
  "s_IdentityState (setActivity a s) = s_IdentityState s"
  "s_SchemaVersion (setActivity a s) = s_SchemaVersion s"
  "s_ID (setActivity a s) = s_ID s"
  "s_Harness (setActivity a s) = s_Harness s"
  "s_SessionID (setActivity a s) = s_SessionID s"
  "s_SessionPath (setActivity a s) = s_SessionPath s"
  "s_ResumeCommand (setActivity a s) = s_ResumeCommand s"
  "s_CWD (setActivity a s) = s_CWD s"
  "s_ProjectRoot (setActivity a s) = s_ProjectRoot s"
  "s_Process (setActivity a s) = s_Process s"
  "s_Location (setActivity a s) = s_Location s"
  "s_Observations (setActivity a s) = s_Observations s"
  "s_CreatedAt (setActivity a s) = s_CreatedAt s"
  "s_UpdatedAt (setActivity a s) = s_UpdatedAt s"
  "s_PresenceChangedAt (setActivity a s) = s_PresenceChangedAt s"
  "s_ActivityChangedAt (setActivity a s) = s_ActivityChangedAt s"
  by (simp_all add: setActivity_def split: liveness.split)

lemma setDecision_frame [simp]:
  "s_Detail (setDecision d s) = s_Detail s"
  "s_Incarnation (setDecision d s) = s_Incarnation s"
  "s_IdentityState (setDecision d s) = s_IdentityState s"
  "s_SchemaVersion (setDecision d s) = s_SchemaVersion s"
  "s_ID (setDecision d s) = s_ID s"
  "s_Harness (setDecision d s) = s_Harness s"
  "s_SessionID (setDecision d s) = s_SessionID s"
  "s_SessionPath (setDecision d s) = s_SessionPath s"
  "s_ResumeCommand (setDecision d s) = s_ResumeCommand s"
  "s_CWD (setDecision d s) = s_CWD s"
  "s_ProjectRoot (setDecision d s) = s_ProjectRoot s"
  "s_Process (setDecision d s) = s_Process s"
  "s_Location (setDecision d s) = s_Location s"
  "s_Observations (setDecision d s) = s_Observations s"
  "s_CreatedAt (setDecision d s) = s_CreatedAt s"
  "s_UpdatedAt (setDecision d s) = s_UpdatedAt s"
  "s_PresenceChangedAt (setDecision d s) = s_PresenceChangedAt s"
  "s_ActivityChangedAt (setDecision d s) = s_ActivityChangedAt s"
  by (simp_all add: setDecision_def split: liveness.split)

end
