(* ===== verification/Aht_Evidence.thy ===== *)
theory Aht_Evidence
  imports Aht_Liveness
begin

section \<open>Observations and their validation: \<open>evidence.go\<close>, \<open>evidence_validation.go\<close>\<close>

text \<open>
  An observation carries one kind of evidence. The Go interface \<open>Evidence\<close> is a datatype with
  one constructor per implementing pointer type and one for the nil interface; a nil pointer
  inside the interface is not represented (the decoder allocates the pointer it stores, and
  \<open>validate\<close> refuses a nil one before anything reads it).
\<close>

record report =
  r_DetailObservedAt :: "time option"
  r_Detail :: "activity_detail option"
  r_Reporter :: reporter
  r_Event :: string
  r_Lifecycle :: "native_lifecycle option"
  r_Claim :: "presence option"
  r_Activity :: "activity option"
  r_Process :: "process_identity option"
  r_Location :: "location option"
  r_Listing :: "listing option"
  r_Attributes :: "(string, string) fmap"
  r_Payload :: string

definition zero_report :: report where
  "zero_report =
     \<lparr>r_DetailObservedAt = None, r_Detail = None, r_Reporter = zero_reporter, r_Event = [],
      r_Lifecycle = None, r_Claim = None, r_Activity = None, r_Process = None, r_Location = None,
      r_Listing = None, r_Attributes = fmempty, r_Payload = []\<rparr>"

record sighting =
  si_Process :: process_identity
  si_Present :: bool

record verification =
  v_Presence :: presence
  v_Reason :: string

record placement =
  pl_Process :: process_identity
  pl_Location :: location

datatype evidence =
  NoEvidence
  | EvReport report
  | EvSighting sighting
  | EvPlacement placement
  | EvListing listing
  | EvReading screen_observation
  | EvVerification verification

record observation =
  ob_Harness :: harness
  ob_At :: time
  ob_Subject :: observation_identity
  ob_Evidence :: evidence

subsection \<open>Readers\<close>

definition ob_Kind :: "observation \<Rightarrow> string" where
  "ob_Kind ob =
     (case ob_Evidence ob of
        EvReport _ \<Rightarrow> ''report''
      | EvSighting _ \<Rightarrow> ''sighting''
      | EvPlacement _ \<Rightarrow> ''placement''
      | EvListing _ \<Rightarrow> ''listing''
      | EvReading _ \<Rightarrow> ''reading''
      | EvVerification _ \<Rightarrow> ''verification''
      | NoEvidence \<Rightarrow> '''')"

definition ob_Report :: "observation \<Rightarrow> report" where
  "ob_Report ob = (case ob_Evidence ob of EvReport r \<Rightarrow> r | _ \<Rightarrow> zero_report)"

definition ob_Process :: "observation \<Rightarrow> process_identity option" where
  "ob_Process ob =
     (case ob_Evidence ob of
        EvReport r \<Rightarrow> r_Process r
      | EvSighting s \<Rightarrow> if si_Process s \<noteq> zero_process then Some (si_Process s) else None
      | EvPlacement p \<Rightarrow> Some (pl_Process p)
      | EvReading r \<Rightarrow> Some (sc_Process r)
      | EvListing _ \<Rightarrow> None
      | EvVerification _ \<Rightarrow> None
      | NoEvidence \<Rightarrow> None)"

definition ob_Present :: "observation \<Rightarrow> bool option" where
  "ob_Present ob = (case ob_Evidence ob of EvSighting s \<Rightarrow> Some (si_Present s) | _ \<Rightarrow> None)"

definition ob_ActivityClaim :: "observation \<Rightarrow> activity option" where
  "ob_ActivityClaim ob =
     (case ob_Evidence ob of
        EvReport r \<Rightarrow> r_Activity r
      | EvReading r \<Rightarrow> Some (sc_Activity r)
      | _ \<Rightarrow> None)"

definition ob_Location :: "observation \<Rightarrow> location option" where
  "ob_Location ob =
     (case ob_Evidence ob of
        EvReport r \<Rightarrow> r_Location r
      | EvPlacement p \<Rightarrow> Some (pl_Location p)
      | _ \<Rightarrow> None)"

definition ob_Listing :: "observation \<Rightarrow> listing option" where
  "ob_Listing ob =
     (case ob_Evidence ob of
        EvReport r \<Rightarrow> r_Listing r
      | EvListing l \<Rightarrow> Some l
      | _ \<Rightarrow> None)"

definition ob_Reading :: "observation \<Rightarrow> screen_observation option" where
  "ob_Reading ob = (case ob_Evidence ob of EvReading r \<Rightarrow> Some r | _ \<Rightarrow> None)"

lemmas ob_readers =
  ob_Kind_def ob_Report_def ob_Process_def ob_Present_def ob_ActivityClaim_def ob_Location_def
  ob_Listing_def ob_Reading_def

lemma ob_Kind_iff:
  "ob_Kind ob = ''report'' \<longleftrightarrow> (\<exists>r. ob_Evidence ob = EvReport r)"
  "ob_Kind ob = ''sighting'' \<longleftrightarrow> (\<exists>s. ob_Evidence ob = EvSighting s)"
  "ob_Kind ob = ''placement'' \<longleftrightarrow> (\<exists>p. ob_Evidence ob = EvPlacement p)"
  "ob_Kind ob = ''listing'' \<longleftrightarrow> (\<exists>l. ob_Evidence ob = EvListing l)"
  "ob_Kind ob = ''reading'' \<longleftrightarrow> (\<exists>r. ob_Evidence ob = EvReading r)"
  "ob_Kind ob = ''verification'' \<longleftrightarrow> (\<exists>v. ob_Evidence ob = EvVerification v)"
  by (simp_all add: ob_Kind_def split: evidence.split)

subsection \<open>Writers\<close>

definition SetProcess :: "process_identity option \<Rightarrow> observation \<Rightarrow> observation" where
  "SetProcess p ob =
     (case ob_Evidence ob of
        EvReport r \<Rightarrow> ob\<lparr>ob_Evidence := EvReport (r\<lparr>r_Process := p\<rparr>)\<rparr>
      | EvSighting s \<Rightarrow> ob\<lparr>ob_Evidence := EvSighting (s\<lparr>si_Process := deref_or zero_process p\<rparr>)\<rparr>
      | EvPlacement l \<Rightarrow>
          (case p of None \<Rightarrow> ob
           | Some q \<Rightarrow> ob\<lparr>ob_Evidence := EvPlacement (l\<lparr>pl_Process := q\<rparr>)\<rparr>)
      | EvReading r \<Rightarrow>
          (case p of None \<Rightarrow> ob
           | Some q \<Rightarrow> ob\<lparr>ob_Evidence := EvReading (r\<lparr>sc_Process := q\<rparr>)\<rparr>)
      | _ \<Rightarrow> ob)"

definition SetPresent :: "bool option \<Rightarrow> observation \<Rightarrow> observation" where
  "SetPresent p ob =
     (case (ob_Evidence ob, p) of
        (EvSighting s, Some b) \<Rightarrow> ob\<lparr>ob_Evidence := EvSighting (s\<lparr>si_Present := b\<rparr>)\<rparr>
      | _ \<Rightarrow> ob)"

definition SetActivity :: "activity option \<Rightarrow> observation \<Rightarrow> observation" where
  "SetActivity a ob =
     (case ob_Evidence ob of
        EvReport r \<Rightarrow> ob\<lparr>ob_Evidence := EvReport (r\<lparr>r_Activity := a\<rparr>)\<rparr>
      | EvReading r \<Rightarrow>
          (case a of None \<Rightarrow> ob
           | Some b \<Rightarrow> ob\<lparr>ob_Evidence := EvReading (r\<lparr>sc_Activity := b\<rparr>)\<rparr>)
      | _ \<Rightarrow> ob)"

definition SetLocation :: "location option \<Rightarrow> observation \<Rightarrow> observation" where
  "SetLocation l ob =
     (case ob_Evidence ob of
        EvReport r \<Rightarrow> ob\<lparr>ob_Evidence := EvReport (r\<lparr>r_Location := l\<rparr>)\<rparr>
      | EvPlacement p \<Rightarrow>
          (case l of None \<Rightarrow> ob
           | Some m \<Rightarrow> ob\<lparr>ob_Evidence := EvPlacement (p\<lparr>pl_Location := m\<rparr>)\<rparr>)
      | _ \<Rightarrow> ob)"

text \<open>A listing observation given a nil listing would hold a nil pointer; the model keeps it out.\<close>

definition SetListing :: "listing option \<Rightarrow> observation \<Rightarrow> observation" where
  "SetListing l ob =
     (case (ob_Evidence ob, l) of
        (EvReport r, _) \<Rightarrow> ob\<lparr>ob_Evidence := EvReport (r\<lparr>r_Listing := l\<rparr>)\<rparr>
      | (EvListing _, Some m) \<Rightarrow> ob\<lparr>ob_Evidence := EvListing m\<rparr>
      | _ \<Rightarrow> ob)"

definition SetReading :: "screen_observation \<Rightarrow> observation \<Rightarrow> observation" where
  "SetReading r ob = ob\<lparr>ob_Evidence := EvReading r\<rparr>"

lemmas ob_writers =
  SetProcess_def SetPresent_def SetActivity_def SetLocation_def SetListing_def SetReading_def

lemma writers_keep_kind:
  "ob_Kind (SetProcess p ob) = ob_Kind ob" "ob_Kind (SetPresent b ob) = ob_Kind ob"
  "ob_Kind (SetActivity a ob) = ob_Kind ob" "ob_Kind (SetLocation l ob) = ob_Kind ob"
  "ob_Kind (SetListing li ob) = ob_Kind ob"
  by (cases "ob_Evidence ob"; simp add: ob_writers ob_Kind_def split: option.split)+

subsection \<open>What stored values must look like: \<open>state_validation.go\<close>, \<open>detail.go\<close>\<close>

definition detail_valid_for :: "activity_detail \<Rightarrow> activity \<Rightarrow> bool" where
  "detail_valid_for d a =
     (case a of
        ActivityWaiting \<Rightarrow> d = ActivityDetailPermission \<or> d = ActivityDetailQuestion
      | ActivityFailed \<Rightarrow> d = ActivityDetailGeneral \<or> d = ActivityDetailUsageLimit
      | _ \<Rightarrow> False)"

definition hasDetailActivity :: "activity option \<Rightarrow> bool" where
  "hasDetailActivity a = (a = Some ActivityWaiting \<or> a = Some ActivityFailed)"

definition validDetail :: "activity_detail option \<Rightarrow> activity option \<Rightarrow> bool" where
  "validDetail d a =
     (case d of
        None \<Rightarrow> True
      | Some v \<Rightarrow> v = no_detail \<or> (case a of None \<Rightarrow> False | Some b \<Rightarrow> detail_valid_for v b))"

definition validReportDetail :: "report \<Rightarrow> bool" where
  "validReportDetail r =
     (validDetail (r_Detail r) (r_Activity r) \<and>
      (case r_DetailObservedAt r of
         None \<Rightarrow> True
       | Some t \<Rightarrow> r_Detail r \<noteq> None \<and> r_Detail r \<noteq> Some no_detail \<and> t \<noteq> 0))"

definition validStoredLifecycle :: "native_lifecycle option \<Rightarrow> bool" where
  "validStoredLifecycle l = (case l of None \<Rightarrow> True | Some v \<Rightarrow> lifecycle_valid v)"

definition validStoredOptionalPresence :: "presence option \<Rightarrow> bool" where
  "validStoredOptionalPresence p = (case p of None \<Rightarrow> True | Some v \<Rightarrow> presence_valid v)"

definition validStoredOptionalActivity :: "activity option \<Rightarrow> bool" where
  "validStoredOptionalActivity a = (case a of None \<Rightarrow> True | Some v \<Rightarrow> activity_valid v)"

definition validStoredProcess :: "process_identity \<Rightarrow> bool \<Rightarrow> bool" where
  "validStoredProcess p allow_zero =
     (if p = zero_process then allow_zero
      else process_complete p \<and> p_PPID p \<ge> 0 \<and> p_ProcessGroupID p \<ge> 0)"

lemma validStoredProcess_weaken: "validStoredProcess p False \<Longrightarrow> validStoredProcess p b"
  by (auto simp: validStoredProcess_def split: if_splits)

lemma validStoredProcess_complete: "validStoredProcess p False \<Longrightarrow> process_complete p"
  by (auto simp: validStoredProcess_def split: if_splits)

lemma validStoredProcess_zero [simp]: "validStoredProcess zero_process b = b"
  by (simp add: validStoredProcess_def)

subsection \<open>Validation of an observation\<close>

definition validateLocation :: "location option \<Rightarrow> reg_error option" where
  "validateLocation l =
     (case l of
        None \<Rightarrow> None
      | Some v \<Rightarrow>
          if l_PanePID v < 0 \<or> (\<not> location_empty v \<and> \<not> kind_valid (l_Kind v))
          then Some (ErrInvalidObservation ''invalid location'') else None)"

definition validateListing :: "listing option \<Rightarrow> reg_error option" where
  "validateListing l =
     (case l of
        None \<Rightarrow> None
      | Some v \<Rightarrow>
          if li_ProcessPID v < 0
          then Some (ErrInvalidObservation ''invalid listing process pid'') else None)"

definition validateReportMetadata :: "report \<Rightarrow> reg_error option" where
  "validateReportMetadata r =
     (if rp_Version (r_Reporter r) < 0
      then Some (ErrInvalidObservation ''reporter version must not be negative'')
      else if rp_Sequence (r_Reporter r) \<noteq> None \<and> trim_space (rp_Integration (r_Reporter r)) = ''''
      then Some (ErrInvalidObservation ''sequenced report requires reporter'')
      else case validateLocation (r_Location r) of
        Some e \<Rightarrow> Some e
      | None \<Rightarrow> validateListing (r_Listing r))"

definition validateReport :: "report \<Rightarrow> reg_error option" where
  "validateReport r =
     (if \<not> validReportDetail r then Some (ErrInvalidObservation ''invalid activity detail'')
      else if \<not> validStoredLifecycle (r_Lifecycle r) \<or> \<not> validStoredOptionalPresence (r_Claim r)
           \<or> \<not> validStoredOptionalActivity (r_Activity r)
      then Some (ErrInvalidObservation ''invalid report state'')
      else if r_Lifecycle r = Some NativeLifecycleEnd \<and> r_Activity r \<noteq> None
      then Some (ErrInvalidObservation ''end cannot include activity'')
      else if r_Lifecycle r = None \<and> r_Claim r = None \<and> r_Activity r = None \<and> r_Event r = ''''
      then Some (ErrInvalidObservation ''event or transition is required'')
      else validateReportMetadata r)"

definition validateSighting :: "sighting \<Rightarrow> reg_error option" where
  "validateSighting s =
     (if si_Present s \<and> \<not> process_complete (si_Process s)
      then Some (ErrInvalidObservation ''incomplete sighting'') else None)"

definition validateVerification :: "verification \<Rightarrow> reg_error option" where
  "validateVerification v =
     (if (v_Presence v \<noteq> PresenceGone \<and> v_Presence v \<noteq> PresenceUnknown) \<or> v_Reason v = ''''
      then Some (ErrInvalidObservation ''invalid verification'') else None)"

definition validatePlacement :: "placement \<Rightarrow> reg_error option" where
  "validatePlacement p =
     (if \<not> process_complete (pl_Process p)
      then Some (ErrInvalidObservation ''incomplete placement'')
      else validateLocation (Some (pl_Location p)))"

definition validateReading :: "screen_observation \<Rightarrow> reg_error option" where
  "validateReading r =
     (if \<not> process_complete (sc_Process r) \<or> \<not> activity_valid (sc_Activity r)
      then Some (ErrInvalidObservation ''incomplete reading'')
      else if sc_Detail r \<noteq> no_detail \<and> \<not> detail_valid_for (sc_Detail r) (sc_Activity r)
      then Some (ErrInvalidObservation ''invalid reading detail'') else None)"

definition validateEvidence :: "evidence \<Rightarrow> reg_error option" where
  "validateEvidence e =
     (case e of
        NoEvidence \<Rightarrow> Some (ErrInvalidObservation ''evidence is required'')
      | EvReport r \<Rightarrow> validateReport r
      | EvSighting s \<Rightarrow> validateSighting s
      | EvPlacement p \<Rightarrow> validatePlacement p
      | EvListing l \<Rightarrow> validateListing (Some l)
      | EvReading r \<Rightarrow> validateReading r
      | EvVerification v \<Rightarrow> validateVerification v)"

definition validateEvidenceAt :: "evidence \<Rightarrow> time \<Rightarrow> reg_error option" where
  "validateEvidenceAt e at =
     (case validateEvidence e of
        Some err \<Rightarrow> Some err
      | None \<Rightarrow>
          (case e of
             EvReport r \<Rightarrow>
               (case r_DetailObservedAt r of
                  Some t \<Rightarrow>
                    if t > at then Some (ErrInvalidObservation ''detail timestamp follows report'')
                    else None
                | None \<Rightarrow> None)
           | _ \<Rightarrow> None))"

text \<open>\<open>known\<close> is the method \<open>Known\<close> of the rules injected into the reducer.\<close>

definition validateObservation :: "(harness \<Rightarrow> bool) \<Rightarrow> observation \<Rightarrow> reg_error option" where
  "validateObservation known ob =
     (if ob_Harness ob = '''' then Some (ErrInvalidObservation ''harness is required'')
      else if \<not> known (ob_Harness ob)
      then Some (ErrInvalidObservation ''harness is not canonical'')
      else if ob_At ob = 0 then Some (ErrInvalidObservation ''at is required'')
      else case validateEvidenceAt (ob_Evidence ob) (ob_At ob) of
        Some e \<Rightarrow> Some e
      | None \<Rightarrow>
          if (case ob_Process ob of None \<Rightarrow> False | Some p \<Rightarrow> \<not> validStoredProcess p False)
          then Some (ErrInvalidObservation ''invalid process identity'')
          else if oi_SessionID (ob_Subject ob) = '''' \<and> oi_SessionPath (ob_Subject ob) = ''''
               \<and> ob_Process ob = None
          then Some (ErrInvalidObservation ''identity is required'')
          else None)"

text \<open>What a validated observation guarantees to the reducer.\<close>

definition observation_ok :: "observation \<Rightarrow> bool" where
  "observation_ok ob \<longleftrightarrow>
     ob_Harness ob \<noteq> [] \<and> ob_At ob \<noteq> 0 \<and> validateEvidenceAt (ob_Evidence ob) (ob_At ob) = None \<and>
     (\<forall>p. ob_Process ob = Some p \<longrightarrow> validStoredProcess p False) \<and>
     (oi_SessionID (ob_Subject ob) \<noteq> [] \<or> oi_SessionPath (ob_Subject ob) \<noteq> []
      \<or> ob_Process ob \<noteq> None)"

lemma validateObservation_ok:
  "validateObservation known ob = None \<longleftrightarrow> known (ob_Harness ob) \<and> observation_ok ob"
  by (auto simp: validateObservation_def observation_ok_def split: option.splits if_splits)

lemma observation_ok_process:
  "observation_ok ob \<Longrightarrow> ob_Process ob = Some p \<Longrightarrow> process_complete p"
  by (auto simp: observation_ok_def dest: validStoredProcess_complete)

lemma observation_ok_evidence: "observation_ok ob \<Longrightarrow> validateEvidence (ob_Evidence ob) = None"
  by (auto simp: observation_ok_def validateEvidenceAt_def split: option.splits)

lemma observation_ok_kinds:
  assumes "observation_ok ob"
  shows "ob_Evidence ob \<noteq> NoEvidence"
    and "ob_Evidence ob = EvReport r \<Longrightarrow> validateReport r = None"
    and "ob_Evidence ob = EvSighting s \<Longrightarrow> si_Present s \<Longrightarrow> process_complete (si_Process s)"
    and "ob_Evidence ob = EvPlacement p \<Longrightarrow> process_complete (pl_Process p)"
    and "ob_Evidence ob = EvReading q \<Longrightarrow> process_complete (sc_Process q) \<and> activity_valid (sc_Activity q)"
    and "ob_Evidence ob = EvVerification v \<Longrightarrow>
           (v_Presence v = PresenceGone \<or> v_Presence v = PresenceUnknown) \<and> v_Reason v \<noteq> []"
  using observation_ok_evidence [OF assms]
  by (auto simp: validateEvidence_def validateSighting_def validatePlacement_def
      validateReading_def validateVerification_def split: if_splits)

end
