(* ===== verification/Aht_Authority.thy ===== *)
theory Aht_Authority
  imports Aht_Evidence
begin

section \<open>Rules, policies and activity authority: \<open>rules.go\<close>, \<open>authority.go\<close>\<close>

text \<open>
  A reducer is built from injected rules: which harness names are canonical, and one policy per
  harness. \<open>ActivityAuthority\<close> decides whether the reports of an installed hook or the readings
  of the screen own the activity of a session.
\<close>

record detail_support =
  ds_Permission :: bool
  ds_Question :: bool
  ds_UsageLimit :: bool

record detail_capabilities =
  dc_Native :: detail_support
  dc_Screen :: detail_support

record policy =
  pol_DetailReporters :: "string list"
  pol_Details :: detail_capabilities
  pol_ExclusiveProcess :: bool
  pol_Authority :: authority
  pol_ScreenFallback :: bool
  pol_RetainNativeActivity :: bool
  pol_Reporter :: string
  pol_CatalogCreates :: bool

record rules =
  ru_Known :: "harness \<Rightarrow> bool"
  ru_Policy :: "harness \<Rightarrow> policy"

definition no_support :: detail_support where
  "no_support = \<lparr>ds_Permission = False, ds_Question = False, ds_UsageLimit = False\<rparr>"

record hook_evaluation =
  he_Active :: bool
  he_Fresh :: bool
  he_ProcessMatches :: bool
  he_Reason :: string

definition hook_failure :: "string \<Rightarrow> hook_evaluation" where
  "hook_failure reason =
     \<lparr>he_Active = False, he_Fresh = False, he_ProcessMatches = False, he_Reason = reason\<rparr>"

definition nativeEnded :: "native_observation \<Rightarrow> bool" where
  "nativeEnded n = (n_Presence n = Some PresenceGone \<or> n_Lifecycle n = Some NativeLifecycleEnd)"

definition matchingHookObservation ::
    "session \<Rightarrow> policy \<Rightarrow> hook_evaluation + native_observation" where
  "matchingHookObservation s pol =
     (if pol_Authority pol \<noteq> AuthorityHook \<or> pol_Reporter pol = ''''
      then Inl (hook_failure ''hook_not_activity_authority'')
      else case o_Native (s_Observations s) of
        None \<Rightarrow> Inl (hook_failure ''integration_report_missing'')
      | Some n \<Rightarrow>
          if rp_Integration (n_Reporter n) \<noteq> pol_Reporter pol
          then Inl (hook_failure ''integration_identity_mismatch'')
          else if n_Activity n = None \<or> n_Activity n = Some ActivityUnknown
          then Inl (hook_failure ''integration_activity_missing'')
          else if nativeEnded n \<or> s_Presence s = PresenceGone
          then Inl (hook_failure ''integration_ended'')
          else case s_Process s of
            None \<Rightarrow> Inl (hook_failure ''agent_process_missing'')
          | Some p \<Rightarrow>
              if \<not> process_equal (n_Process n) p
              then Inl (hook_failure ''agent_process_replaced'')
              else Inr n)"

definition invalidHookTimeReason :: "time \<Rightarrow> time \<Rightarrow> string" where
  "invalidHookTimeReason observed now =
     (if observed > now then ''integration_observation_from_future''
      else if time_sub now observed > IntegrationActivityLease then ''integration_report_stale''
      else '''')"

definition EvaluateHook :: "session \<Rightarrow> policy \<Rightarrow> time \<Rightarrow> hook_evaluation" where
  "EvaluateHook s pol now =
     (case matchingHookObservation s pol of
        Inl failure \<Rightarrow> failure
      | Inr n \<Rightarrow>
          (let reason = invalidHookTimeReason (n_ObservedAt n) now in
           if reason \<noteq> ''''
           then \<lparr>he_Active = False, he_Fresh = False, he_ProcessMatches = True,
                 he_Reason = reason\<rparr>
           else \<lparr>he_Active = True, he_Fresh = True, he_ProcessMatches = True,
                 he_Reason = ''matching_live_process_report''\<rparr>))"

definition ActivityAuthority :: "session \<Rightarrow> policy \<Rightarrow> time \<Rightarrow> authority \<times> string" where
  "ActivityAuthority s pol now =
     (if pol_Authority pol = AuthorityScreen then (AuthorityScreen, ''screen_primary'')
      else let e = EvaluateHook s pol now in
        if pol_ScreenFallback pol \<and> \<not> he_Active e then
          if pol_RetainNativeActivity pol \<and> he_Reason e = ''integration_report_stale''
          then (AuthorityHook, he_Reason e)
          else (AuthorityScreen, he_Reason e)
        else (AuthorityHook, he_Reason e))"

subsection \<open>When a hook is active\<close>

lemma invalidHookTimeReason_fresh:
  "invalidHookTimeReason observed now = '''' \<longleftrightarrow>
   observed \<le> now \<and> now - observed \<le> IntegrationActivityLease"
  by (auto simp: invalidHookTimeReason_def time_sub_def max_duration_def min_duration_def
      IntegrationActivityLease_def second_def)

lemma matchingHook_iff:
  "matchingHookObservation s pol = Inr n \<longleftrightarrow>
     pol_Authority pol = AuthorityHook \<and> pol_Reporter pol \<noteq> [] \<and>
     o_Native (s_Observations s) = Some n \<and> rp_Integration (n_Reporter n) = pol_Reporter pol \<and>
     n_Activity n \<noteq> None \<and> n_Activity n \<noteq> Some ActivityUnknown \<and> \<not> nativeEnded n \<and>
     s_Presence s \<noteq> PresenceGone \<and>
     (\<exists>p. s_Process s = Some p \<and> process_equal (n_Process n) p)"
  by (auto simp: matchingHookObservation_def split: option.splits)

lemma matchingHook_failure:
  "matchingHookObservation s pol = Inl e \<Longrightarrow>
     \<not> he_Active e \<and> he_Reason e \<noteq> ''integration_report_stale''"
  by (auto simp: matchingHookObservation_def hook_failure_def split: option.splits if_splits)

lemma EvaluateHook_active_iff:
  "he_Active (EvaluateHook s pol now) \<longleftrightarrow>
     (\<exists>n. matchingHookObservation s pol = Inr n \<and> n_ObservedAt n \<le> now \<and>
          now - n_ObservedAt n \<le> IntegrationActivityLease)"
  by (auto simp: EvaluateHook_def Let_def invalidHookTimeReason_fresh
      dest: matchingHook_failure split: sum.splits)

lemma EvaluateHook_fresh: "he_Fresh (EvaluateHook s pol now) = he_Active (EvaluateHook s pol now)"
  by (auto simp: EvaluateHook_def Let_def matchingHookObservation_def hook_failure_def
      split: sum.splits option.splits if_splits)

lemma EvaluateHook_stale_iff:
  "he_Reason (EvaluateHook s pol now) = ''integration_report_stale'' \<longleftrightarrow>
     (\<exists>n. matchingHookObservation s pol = Inr n \<and> n_ObservedAt n \<le> now \<and>
          now - n_ObservedAt n > IntegrationActivityLease)"
proof (cases "matchingHookObservation s pol")
  case (Inl e)
  then show ?thesis using matchingHook_failure by (fastforce simp: EvaluateHook_def)
next
  case (Inr n)
  then show ?thesis
    by (auto simp: EvaluateHook_def Let_def invalidHookTimeReason_def time_sub_def
        max_duration_def min_duration_def IntegrationActivityLease_def second_def)
qed

lemma ActivityAuthority_range:
  "fst (ActivityAuthority s pol now) = AuthorityHook \<or> fst (ActivityAuthority s pol now) = AuthorityScreen"
  by (simp add: ActivityAuthority_def Let_def)

end
