(* ===== verification/Aht_Detail.thy ===== *)
theory Aht_Detail
  imports Aht_Authority
begin

section \<open>Why a session waits or failed: \<open>detail.go\<close>\<close>

text \<open>
  A waiting or failed session may carry a detail (a permission prompt, a question, a usage
  limit). \<open>resolveDetail\<close> recomputes it from the evidence of the authority that made the
  current activity decision; \<open>nativeDetail\<close> says what detail a report leaves in its slot.
\<close>

definition detail_supports :: "detail_support \<Rightarrow> activity \<Rightarrow> bool" where
  "detail_supports supp a =
     (a = ActivityFailed \<or> a = ActivityWaiting \<and> (ds_Permission supp \<or> ds_Question supp))"

definition startsNativeLifecycle :: "native_lifecycle option \<Rightarrow> bool" where
  "startsNativeLifecycle l = (l = Some NativeLifecycleStart \<or> l = Some NativeLifecycleResume)"

definition reportEnds :: "report \<Rightarrow> bool" where
  "reportEnds r = (r_Claim r = Some PresenceGone \<or> r_Lifecycle r = Some NativeLifecycleEnd)"

definition matchingNativeDetail :: "session \<Rightarrow> policy \<Rightarrow> process_identity \<Rightarrow> detail_evidence option" where
  "matchingNativeDetail s pol p =
     (case o_Native (s_Observations s) of
        None \<Rightarrow> None
      | Some n \<Rightarrow>
          if \<not> process_equal (n_Process n) p \<or> nativeEnded n then None
          else if rp_Integration (n_Reporter n) \<noteq> pol_Reporter pol
               \<and> rp_Integration (n_Reporter n) \<notin> set (pol_DetailReporters pol) then None
          else n_Detail n)"

text \<open>\<open>p\<close> is the process of the session, which the caller has checked is present.\<close>

definition selectedDetail ::
    "session \<Rightarrow> policy \<Rightarrow> activity \<Rightarrow> authority \<Rightarrow> process_identity
     \<Rightarrow> detail_evidence option \<times> detail_support" where
  "selectedDetail s pol a auth p =
     (case auth of
        AuthorityHook \<Rightarrow> (matchingNativeDetail s pol p, dc_Native (pol_Details pol))
      | AuthorityScreen \<Rightarrow>
          (case o_Screen (s_Observations s) of
             Some sc \<Rightarrow>
               if process_equal (sc_Process sc) p \<and> sc_Activity sc = a \<and> sc_Detail sc \<noteq> no_detail
               then (Some \<lparr>de_Value = sc_Detail sc, de_ObservedAt = sc_ObservedAt sc\<rparr>,
                     dc_Screen (pol_Details pol))
               else (None, dc_Screen (pol_Details pol))
           | None \<Rightarrow> (None, dc_Screen (pol_Details pol)))
      | AuthorityProcess \<Rightarrow> (None, no_support)
      | AuthorityOther _ \<Rightarrow> (None, no_support))"

definition detail_for ::
    "session \<Rightarrow> policy \<Rightarrow> time \<Rightarrow> activity \<Rightarrow> activity_decision \<Rightarrow> process_identity \<Rightarrow> state_detail" where
  "detail_for s pol now a d p =
     (let (ev, supp) = selectedDetail s pol a (d_Authority d) p;
          base = \<lparr>sd_Value = (if a = ActivityFailed then ActivityDetailGeneral else no_detail),
                  sd_Quality = (if detail_supports supp a then DetailQualityMissing
                                else DetailQualityUnsupported),
                  sd_Authority = d_Authority d, sd_ObservedAt = 0\<rparr> in
      case ev of
        Some e \<Rightarrow>
          if detail_valid_for (de_Value e) a
          then base\<lparr>sd_Value := de_Value e, sd_ObservedAt := de_ObservedAt e,
                    sd_Quality := (if invalidHookTimeReason (de_ObservedAt e) now \<noteq> ''''
                                   then DetailQualityStale else DetailQualityCurrent)\<rparr>
          else base
      | None \<Rightarrow> base)"

definition missing_detail :: state_detail where
  "missing_detail =
     \<lparr>sd_Value = no_detail, sd_Quality = DetailQualityMissing, sd_Authority = no_authority,
      sd_ObservedAt = 0\<rparr>"

definition resolveDetail :: "policy \<Rightarrow> time \<Rightarrow> session \<Rightarrow> session" where
  "resolveDetail pol now s =
     s\<lparr>s_Detail :=
        (if s_Presence s \<noteq> PresenceLive \<or> \<not> hasDetailActivity (s_Activity s) then None
         else case (s_Decision s, s_Process s, s_Activity s) of
           (Some d, Some p, Some a) \<Rightarrow>
             if process_equal (d_Process d) p then Some (detail_for s pol now a d p)
             else Some missing_detail
         | _ \<Rightarrow> Some missing_detail)\<rparr>"

definition retainNativeDetail :: "session \<Rightarrow> report \<Rightarrow> process_identity \<Rightarrow> bool" where
  "retainNativeDetail s r p =
     (case o_Native (s_Observations s) of
        None \<Rightarrow> False
      | Some n \<Rightarrow>
          n_Detail n \<noteq> None \<and> \<not> nativeEnded n \<and> process_complete p \<and>
          process_equal (n_Process n) p \<and>
          rp_Integration (n_Reporter n) = rp_Integration (r_Reporter r) \<and>
          s_Presence s \<noteq> PresenceGone)"

definition nativeDetail :: "session \<Rightarrow> report \<Rightarrow> process_identity \<Rightarrow> time \<Rightarrow> detail_evidence option" where
  "nativeDetail s r p at =
     (if reportEnds r \<or> startsNativeLifecycle (r_Lifecycle r) then None
      else case r_Detail r of
        Some v \<Rightarrow>
          if v = no_detail then None
          else Some \<lparr>de_Value = v, de_ObservedAt = deref_or at (r_DetailObservedAt r)\<rparr>
      | None \<Rightarrow>
          if r_Activity r = Some ActivityFailed
          then Some \<lparr>de_Value = ActivityDetailGeneral, de_ObservedAt = at\<rparr>
          else if r_Activity r \<noteq> None \<or> \<not> retainNativeDetail s r p then None
          else (case o_Native (s_Observations s) of None \<Rightarrow> None | Some n \<Rightarrow> n_Detail n))"

subsection \<open>What a stored detail must look like\<close>

definition validDetailEvidence :: "detail_evidence option \<Rightarrow> activity option \<Rightarrow> bool" where
  "validDetailEvidence d a =
     (case d of
        None \<Rightarrow> True
      | Some e \<Rightarrow>
          (case a of None \<Rightarrow> False | Some b \<Rightarrow> detail_valid_for (de_Value e) b \<and> de_ObservedAt e \<noteq> 0))"

definition validDetailAuthority :: "authority \<Rightarrow> bool" where
  "validDetailAuthority a =
     (a = no_authority \<or> a = AuthorityHook \<or> a = AuthorityScreen \<or> a = AuthorityProcess)"

definition validStateDetail :: "state_detail option \<Rightarrow> activity option \<Rightarrow> bool" where
  "validStateDetail d a =
     (case d of
        None \<Rightarrow> True
      | Some v \<Rightarrow>
          (case a of
             None \<Rightarrow> False
           | Some b \<Rightarrow>
               hasDetailActivity a \<and>
               (sd_Value v = no_detail \<or> detail_valid_for (sd_Value v) b) \<and>
               validDetailAuthority (sd_Authority v) \<and>
               (case sd_Quality v of
                  DetailQualityCurrent \<Rightarrow>
                    sd_Value v \<noteq> no_detail \<and> sd_ObservedAt v \<noteq> 0 \<and> sd_Authority v \<noteq> no_authority
                | DetailQualityStale \<Rightarrow>
                    sd_Value v \<noteq> no_detail \<and> sd_ObservedAt v \<noteq> 0 \<and> sd_Authority v \<noteq> no_authority
                | DetailQualityMissing \<Rightarrow>
                    sd_ObservedAt v = 0 \<and> (sd_Value v = no_detail \<or> sd_Value v = ActivityDetailGeneral)
                | DetailQualityUnsupported \<Rightarrow>
                    sd_ObservedAt v = 0 \<and> (sd_Value v = no_detail \<or> sd_Value v = ActivityDetailGeneral)
                | DetailQualityOther _ \<Rightarrow> False)))"

lemma validStateDetail_None [simp]: "validStateDetail None a"
  by (simp add: validStateDetail_def)

lemma validDetailEvidence_None [simp]: "validDetailEvidence None a"
  by (simp add: validDetailEvidence_def)

lemma detail_valid_for_not_none: "detail_valid_for d a \<Longrightarrow> d \<noteq> no_detail"
  by (auto simp: detail_valid_for_def split: activity.splits)

lemma resolveDetail_frame [simp]:
  "s_Incarnation (resolveDetail pol now s) = s_Incarnation s"
  "s_IdentityState (resolveDetail pol now s) = s_IdentityState s"
  "s_Liveness (resolveDetail pol now s) = s_Liveness s"
  "s_SchemaVersion (resolveDetail pol now s) = s_SchemaVersion s"
  "s_ID (resolveDetail pol now s) = s_ID s"
  "s_Harness (resolveDetail pol now s) = s_Harness s"
  "s_SessionID (resolveDetail pol now s) = s_SessionID s"
  "s_SessionPath (resolveDetail pol now s) = s_SessionPath s"
  "s_ResumeCommand (resolveDetail pol now s) = s_ResumeCommand s"
  "s_CWD (resolveDetail pol now s) = s_CWD s"
  "s_ProjectRoot (resolveDetail pol now s) = s_ProjectRoot s"
  "s_Process (resolveDetail pol now s) = s_Process s"
  "s_Location (resolveDetail pol now s) = s_Location s"
  "s_Observations (resolveDetail pol now s) = s_Observations s"
  "s_CreatedAt (resolveDetail pol now s) = s_CreatedAt s"
  "s_UpdatedAt (resolveDetail pol now s) = s_UpdatedAt s"
  "s_PresenceChangedAt (resolveDetail pol now s) = s_PresenceChangedAt s"
  "s_ActivityChangedAt (resolveDetail pol now s) = s_ActivityChangedAt s"
  by (simp_all add: resolveDetail_def)

lemma readers_of_liveness:
  "s_Liveness s = s_Liveness t \<Longrightarrow>
   s_Presence s = s_Presence t \<and> s_Activity s = s_Activity t \<and> s_Decision s = s_Decision t"
  by (simp add: s_Presence_def s_Activity_def s_Decision_def)

lemma resolveDetail_reads [simp]:
  "s_Presence (resolveDetail pol now s) = s_Presence s"
  "s_Activity (resolveDetail pol now s) = s_Activity s"
  "s_Decision (resolveDetail pol now s) = s_Decision s"
  by (simp_all add: s_Presence_def s_Activity_def s_Decision_def)

lemma resolveDetail_detail [simp]:
  "resolveDetail pol now (s\<lparr>s_Detail := x\<rparr>) = resolveDetail pol now s"
proof -
  have "selectedDetail (s\<lparr>s_Detail := x\<rparr>) pol a auth p = selectedDetail s pol a auth p" for a auth p
    by (cases auth) (simp_all add: selectedDetail_def matchingNativeDetail_def)
  then have "detail_for (s\<lparr>s_Detail := x\<rparr>) pol now a d p = detail_for s pol now a d p" for a d p
    by (simp add: detail_for_def)
  moreover have "s_Presence (s\<lparr>s_Detail := x\<rparr>) = s_Presence s"
    "s_Activity (s\<lparr>s_Detail := x\<rparr>) = s_Activity s"
    "s_Decision (s\<lparr>s_Detail := x\<rparr>) = s_Decision s"
    by (simp_all add: s_Presence_def s_Activity_def s_Decision_def)
  ultimately show ?thesis
    by (simp add: resolveDetail_def split: option.split)
qed

lemma resolveDetail_idem: "resolveDetail pol now (resolveDetail pol now s) = resolveDetail pol now s"
proof -
  obtain x where "resolveDetail pol now s = s\<lparr>s_Detail := x\<rparr>" by (simp add: resolveDetail_def)
  then show ?thesis using resolveDetail_detail by metis
qed

text \<open>A resolved detail is one the snapshot validation accepts, given valid evidence slots.\<close>

definition detail_slots_ok :: "session \<Rightarrow> bool" where
  "detail_slots_ok s \<longleftrightarrow>
     (\<forall>n e. o_Native (s_Observations s) = Some n \<longrightarrow> n_Detail n = Some e \<longrightarrow> de_ObservedAt e \<noteq> 0) \<and>
     (\<forall>sc. o_Screen (s_Observations s) = Some sc \<longrightarrow> sc_ObservedAt sc \<noteq> 0) \<and>
     (\<forall>d. s_Decision s = Some d \<longrightarrow> validDetailAuthority (d_Authority d))"

lemma selectedDetail_authority:
  "fst (selectedDetail s pol a auth p) = Some e \<Longrightarrow> auth = AuthorityHook \<or> auth = AuthorityScreen"
  by (cases auth) (auto simp: selectedDetail_def split: option.splits)

lemma selectedDetail_time:
  "detail_slots_ok s \<Longrightarrow> fst (selectedDetail s pol a auth p) = Some e \<Longrightarrow> de_ObservedAt e \<noteq> 0"
  by (cases auth)
     (auto simp: selectedDetail_def matchingNativeDetail_def detail_slots_ok_def
       split: option.splits if_splits)

lemma detail_for_valid:
  assumes "detail_slots_ok s" "hasDetailActivity (Some a)" "validDetailAuthority (d_Authority d)"
  shows "validStateDetail (Some (detail_for s pol now a d p)) (Some a)"
proof -
  obtain ev supp where sel: "selectedDetail s pol a (d_Authority d) p = (ev, supp)" by fastforce
  show ?thesis
  proof (cases ev)
    case None
    then show ?thesis
      using assms sel
      by (auto simp: detail_for_def validStateDetail_def detail_valid_for_def hasDetailActivity_def)
  next
    case (Some e)
    have time: "de_ObservedAt e \<noteq> 0"
      using sel Some selectedDetail_time [OF assms(1), of pol a "d_Authority d" p e] by simp
    have auth: "d_Authority d = AuthorityHook \<or> d_Authority d = AuthorityScreen"
      using sel Some selectedDetail_authority [of s pol a "d_Authority d" p e] by simp
    show ?thesis
    proof (cases "detail_valid_for (de_Value e) a")
      case True
      then show ?thesis
        using sel Some time auth assms(2) detail_valid_for_not_none [OF True]
        by (auto simp: detail_for_def validStateDetail_def validDetailAuthority_def)
    next
      case False
      then show ?thesis
        using sel Some assms
        by (auto simp: detail_for_def validStateDetail_def detail_valid_for_def hasDetailActivity_def)
    qed
  qed
qed

lemma missing_detail_valid: "hasDetailActivity (Some a) \<Longrightarrow> validStateDetail (Some missing_detail) (Some a)"
  by (auto simp: missing_detail_def validStateDetail_def validDetailAuthority_def hasDetailActivity_def)

lemma resolveDetail_valid:
  assumes "detail_slots_ok s"
  shows "validStateDetail (s_Detail (resolveDetail pol now s)) (s_Activity s)"
proof (cases "s_Presence s \<noteq> PresenceLive \<or> \<not> hasDetailActivity (s_Activity s)")
  case True
  then show ?thesis by (simp add: resolveDetail_def)
next
  case False
  then obtain a where a: "s_Activity s = Some a" by (auto simp: hasDetailActivity_def)
  with False have "validStateDetail (Some missing_detail) (s_Activity s)"
    by (simp add: missing_detail_valid)
  moreover have "validStateDetail (Some (detail_for s pol now a d p)) (s_Activity s)"
    if "s_Decision s = Some d" for d p
    using that assms False a detail_for_valid [of s a d pol now p]
    by (simp add: detail_slots_ok_def)
  ultimately show ?thesis
    using False a by (auto simp: resolveDetail_def split: option.splits)
qed

end
