(* ===== verification/Aht_Lifecycle.thy ===== *)
theory Aht_Lifecycle
  imports Aht_Detail
begin

section \<open>The incarnation state machine: \<open>lifecycle.go\<close>\<close>

text \<open>
  A session runs through incarnations, one per process. \<open>transitionIncarnation\<close> decides, from the
  current incarnation and one observation, whether the observation is accepted and what the next
  incarnation is: a table of guarded actions, the first matching rule wins. The lifecycle machine
  then commits the transition to the session and lets the evidence change activity and decision.
\<close>

subsection \<open>Actions and rules\<close>

datatype incarnation_action =
  IncarnationContinue | IncarnationReject | IncarnationIgnore | IncarnationVerify
  | IncarnationRetire | IncarnationReplace | IncarnationBind | IncarnationResume

record incarnation_transition =
  t_next :: incarnation
  t_reset :: bool
  t_terminal :: bool
  t_accepted :: bool
  t_ignored :: bool

record incarnation_input =
  in_current :: incarnation
  in_process :: "process_identity option"
  in_report :: "report option"
  in_verification :: "verification option"
  in_decision :: "activity_decision option"
  in_kind :: string
  in_at :: time
  in_retire :: bool
  in_absent :: bool
  in_end :: bool
  in_start :: bool
  in_terminal :: bool
  in_different :: bool

definition reportStarts :: "report option \<Rightarrow> bool" where
  "reportStarts r =
     (case r of
        None \<Rightarrow> False
      | Some v \<Rightarrow>
          r_Lifecycle v = Some NativeLifecycleStart \<or> r_Lifecycle v = Some NativeLifecycleResume)"

definition ev_report :: "observation \<Rightarrow> report option" where
  "ev_report ob = (case ob_Evidence ob of EvReport r \<Rightarrow> Some r | _ \<Rightarrow> None)"

definition ev_verification :: "observation \<Rightarrow> verification option" where
  "ev_verification ob = (case ob_Evidence ob of EvVerification v \<Rightarrow> Some v | _ \<Rightarrow> None)"

definition terminal_state :: "incarnation_state \<Rightarrow> bool" where
  "terminal_state st = (st = IncarnationEnded \<or> st = IncarnationExited)"

definition normalizeIncarnationInput ::
    "session \<Rightarrow> observation \<Rightarrow> time \<Rightarrow> bool \<Rightarrow> incarnation_input" where
  "normalizeIncarnationInput s ob at retire =
     \<lparr>in_current = s_Incarnation s,
      in_process = ob_Process ob,
      in_report = ev_report ob,
      in_verification = ev_verification ob,
      in_decision = s_Decision s,
      in_kind = ob_Kind ob,
      in_at = at,
      in_retire = retire,
      in_absent = (ob_Kind ob = ''sighting'' \<and> ob_Present ob = Some False),
      in_end = (case ev_report ob of None \<Rightarrow> False | Some r \<Rightarrow> reportEnds r),
      in_start = reportStarts (ev_report ob),
      in_terminal = terminal_state (i_State (s_Incarnation s)),
      in_different =
        (case ob_Process ob of
           None \<Rightarrow> False
         | Some p \<Rightarrow>
             process_complete p \<and> process_complete (i_Process (s_Incarnation s)) \<and>
             \<not> process_equal (i_Process (s_Incarnation s)) p)\<rparr>"

definition in_evidence_at :: "incarnation_input \<Rightarrow> time" where
  "in_evidence_at i = i_EvidenceAt (in_current i)"

definition has_complete_process :: "incarnation_input \<Rightarrow> bool" where
  "has_complete_process i = (case in_process i of None \<Rightarrow> False | Some p \<Rightarrow> process_complete p)"

definition verifies :: "incarnation_input \<Rightarrow> bool" where
  "verifies i = (in_verification i \<noteq> None)"

definition verificationRejected :: "incarnation_input \<Rightarrow> bool" where
  "verificationRejected i =
     (verifies i \<and>
      (in_terminal i \<or> process_complete (i_Process (in_current i)) \<or>
       in_at i < in_evidence_at i \<or>
       (case in_decision i of None \<Rightarrow> False | Some d \<Rightarrow> in_at i < d_ObservedAt d)))"

definition retirementIgnored :: "incarnation_input \<Rightarrow> bool" where
  "retirementIgnored i = (in_retire i \<and> in_end i)"

definition retirementRejected :: "incarnation_input \<Rightarrow> bool" where
  "retirementRejected i = (in_retire i \<and> in_at i < in_evidence_at i)"

definition retires :: "incarnation_input \<Rightarrow> bool" where
  "retires i = in_retire i"

definition previousProcess :: "incarnation_input \<Rightarrow> bool" where
  "previousProcess i =
     (case (i_Previous (in_current i), in_process i) of
        (Some q, Some p) \<Rightarrow> process_equal q p
      | _ \<Rightarrow> False)"

definition replacementRejected :: "incarnation_input \<Rightarrow> bool" where
  "replacementRejected i =
     (in_different i \<and>
      (previousProcess i \<or> in_end i \<or> in_kind i = ''reading'' \<or> in_kind i = ''placement'' \<or>
       in_absent i \<or> in_at i < in_evidence_at i))"

definition replaces :: "incarnation_input \<Rightarrow> bool" where
  "replaces i = in_different i"

definition terminalStale :: "incarnation_input \<Rightarrow> bool" where
  "terminalStale i = ((in_end i \<or> in_absent i) \<and> in_at i < in_evidence_at i)"

definition bindsTerminalProcess :: "incarnation_input \<Rightarrow> bool" where
  "bindsTerminalProcess i =
     (in_terminal i \<and> \<not> process_complete (i_Process (in_current i)) \<and> has_complete_process i \<and>
      in_report i \<noteq> None \<and> \<not> in_end i \<and> \<not> in_at i < in_evidence_at i)"

definition resumesTerminal :: "incarnation_input \<Rightarrow> bool" where
  "resumesTerminal i =
     (in_terminal i \<and> in_start i \<and>
      in_at i > maxTime [in_evidence_at i, i_TransitionAt (in_current i)])"

definition terminalRejected :: "incarnation_input \<Rightarrow> bool" where
  "terminalRejected i = (in_terminal i \<and> \<not> in_end i \<and> (in_report i \<noteq> None \<or> \<not> in_absent i))"

definition incarnation_rules :: "((incarnation_input \<Rightarrow> bool) \<times> incarnation_action) list" where
  "incarnation_rules =
     [(verificationRejected, IncarnationReject),
      (verifies, IncarnationVerify),
      (retirementIgnored, IncarnationIgnore),
      (retirementRejected, IncarnationReject),
      (retires, IncarnationRetire),
      (replacementRejected, IncarnationReject),
      (replaces, IncarnationReplace),
      (terminalStale, IncarnationReject),
      (bindsTerminalProcess, IncarnationBind),
      (resumesTerminal, IncarnationResume),
      (terminalRejected, IncarnationReject)]"

fun choose_action ::
    "((incarnation_input \<Rightarrow> bool) \<times> incarnation_action) list \<Rightarrow> incarnation_input \<Rightarrow> incarnation_action"
  where
    "choose_action [] i = IncarnationContinue"
  | "choose_action ((m, a) # rs) i = (if m i then a else choose_action rs i)"

subsection \<open>The next incarnation\<close>

definition claimApplies :: "incarnation_input \<Rightarrow> incarnation \<Rightarrow> bool" where
  "claimApplies i next =
     (case in_report i of
        None \<Rightarrow> False
      | Some r \<Rightarrow> r_Claim r \<noteq> None \<and> \<not> in_at i < i_TransitionAt next)"

definition replacementReport :: "incarnation_input \<Rightarrow> incarnation_transition \<Rightarrow> bool" where
  "replacementReport i t = (t_reset t \<and> in_different i \<and> in_report i \<noteq> None)"

definition ownProcessEvidence :: "incarnation_input \<Rightarrow> incarnation \<Rightarrow> bool" where
  "ownProcessEvidence i next =
     (in_report i \<noteq> None \<and> \<not> process_complete (i_Process next) \<or>
      (case in_process i of
         None \<Rightarrow> False
       | Some p \<Rightarrow> process_equal p (i_Process next) \<and> \<not> in_absent i))"

definition take_process :: "incarnation_input \<Rightarrow> incarnation \<Rightarrow> incarnation" where
  "take_process i next =
     (case in_process i of
        None \<Rightarrow> next
      | Some p \<Rightarrow> if process_complete p then next\<lparr>i_Process := p\<rparr> else next)"

definition start_clock :: "incarnation_input \<Rightarrow> incarnation \<Rightarrow> incarnation" where
  "start_clock i next =
     (if i_TransitionAt next = 0 then next\<lparr>i_TransitionAt := in_at i\<rparr> else next)"

definition later_transition :: "incarnation_input \<Rightarrow> time \<Rightarrow> time" where
  "later_transition i prior = maxTime [prior, in_at i]"

definition evidence_state :: "incarnation_input \<Rightarrow> incarnation_transition \<Rightarrow> incarnation_transition" where
  "evidence_state i t =
     (let next = t_next t in
      if in_end i then
        t\<lparr>t_next := next\<lparr>i_State := IncarnationEnded,
            i_TransitionAt := later_transition i (i_TransitionAt (in_current i))\<rparr>,
          t_terminal := True\<rparr>
      else if in_absent i then
        t\<lparr>t_next := next\<lparr>i_State := IncarnationExited,
            i_TransitionAt := later_transition i (i_TransitionAt (in_current i))\<rparr>,
          t_terminal := True\<rparr>
      else if in_kind i = ''sighting'' then
        t\<lparr>t_next := next\<lparr>i_State := IncarnationLive,
            i_TransitionAt := later_transition i (i_TransitionAt next)\<rparr>\<rparr>
      else if claimApplies i next then
        t\<lparr>t_next := next\<lparr>
            i_State := (if (case in_report i of None \<Rightarrow> False
                            | Some r \<Rightarrow> r_Claim r = Some PresenceLive)
                        then IncarnationLive else IncarnationStarting),
            i_TransitionAt := in_at i\<rparr>\<rparr>
      else if replacementReport i t then
        t\<lparr>t_next := next\<lparr>i_State := IncarnationLive\<rparr>\<rparr>
      else t)"

definition note_evidence :: "incarnation_input \<Rightarrow> incarnation \<Rightarrow> incarnation" where
  "note_evidence i next =
     (if ownProcessEvidence i next
      then next\<lparr>i_EvidenceAt := maxTime [i_EvidenceAt next, in_at i]\<rparr> else next)"

definition applyEvidence :: "incarnation_input \<Rightarrow> incarnation_transition \<Rightarrow> incarnation_transition" where
  "applyEvidence i t =
     (let t1 = evidence_state i (t\<lparr>t_next := start_clock i (take_process i (t_next t))\<rparr>)
      in t1\<lparr>t_next := note_evidence i (t_next t1)\<rparr>)"

definition transition_base :: "incarnation_input \<Rightarrow> incarnation_transition" where
  "transition_base i =
     \<lparr>t_next = in_current i, t_reset = False, t_terminal = False, t_accepted = True,
      t_ignored = False\<rparr>"

definition fresh_incarnation ::
    "incarnation_state \<Rightarrow> process_identity \<Rightarrow> process_identity option \<Rightarrow> incarnation" where
  "fresh_incarnation st p prev =
     \<lparr>i_State = st, i_Process = p, i_EvidenceAt = 0, i_TransitionAt = 0, i_Previous = prev\<rparr>"

definition verify_transition :: "incarnation_input \<Rightarrow> incarnation_transition" where
  "verify_transition i =
     (let gone = (case in_verification i of None \<Rightarrow> False | Some v \<Rightarrow> v_Presence v = PresenceGone)
      in (transition_base i)\<lparr>
           t_next := (in_current i)\<lparr>
             i_State := (if gone then IncarnationExited else IncarnationStarting),
             i_TransitionAt := in_at i\<rparr>,
           t_terminal := gone\<rparr>)"

definition retire_transition :: "incarnation_input \<Rightarrow> incarnation_transition" where
  "retire_transition i =
     (transition_base i)\<lparr>
       t_next := (in_current i)\<lparr>i_State := IncarnationExited,
         i_TransitionAt := later_transition i (i_TransitionAt (in_current i))\<rparr>,
       t_terminal := True\<rparr>"

definition transition_for :: "incarnation_input \<Rightarrow> incarnation_action \<Rightarrow> incarnation_transition" where
  "transition_for i act =
     (let base = transition_base i; cur = in_current i;
          own = deref_or zero_process (in_process i) in
      case act of
        IncarnationReject \<Rightarrow> base\<lparr>t_accepted := False\<rparr>
      | IncarnationIgnore \<Rightarrow> base\<lparr>t_accepted := False, t_ignored := True\<rparr>
      | IncarnationVerify \<Rightarrow> verify_transition i
      | IncarnationRetire \<Rightarrow> retire_transition i
      | IncarnationReplace \<Rightarrow>
          applyEvidence i (base\<lparr>t_reset := True,
            t_next := fresh_incarnation IncarnationStarting own (Some (i_Process cur))\<rparr>)
      | IncarnationBind \<Rightarrow>
          applyEvidence i (base\<lparr>t_reset := True,
            t_next := fresh_incarnation IncarnationLive own None\<rparr>)
      | IncarnationResume \<Rightarrow>
          applyEvidence i (base\<lparr>t_reset := True,
            t_next := fresh_incarnation IncarnationStarting (i_Process cur) (i_Previous cur)\<rparr>)
      | IncarnationContinue \<Rightarrow>
          applyEvidence i (if i_State cur = no_incarnation
            then base\<lparr>t_next := cur\<lparr>i_State := IncarnationStarting\<rparr>\<rparr> else base))"

definition transitionIncarnation ::
    "session \<Rightarrow> observation \<Rightarrow> time \<Rightarrow> bool \<Rightarrow> incarnation_transition" where
  "transitionIncarnation s ob at retire =
     (let i = normalizeIncarnationInput s ob at retire
      in transition_for i (choose_action incarnation_rules i))"

subsection \<open>Committing a transition\<close>

definition sessionReplacedReason :: string where
  "sessionReplacedReason = ''session_replaced''"

definition process_decision :: "string \<Rightarrow> process_identity \<Rightarrow> time \<Rightarrow> activity_decision" where
  "process_decision reason p at =
     \<lparr>d_Authority = AuthorityProcess, d_Reason = reason, d_RuleID = [], d_ManifestSource = [],
      d_ManifestVersion = 0, d_FallbackReason = [], d_Process = p, d_ObservedAt = at\<rparr>"

definition replacedTombstone :: "session \<Rightarrow> bool" where
  "replacedTombstone s =
     (case s_Liveness s of Gone _ reason _ \<Rightarrow> reason = sessionReplacedReason | _ \<Rightarrow> False)"

text \<open>The deferred part of \<open>commit\<close>: what changed against the session before it.\<close>

definition note_changes :: "session \<Rightarrow> time \<Rightarrow> session \<Rightarrow> session" where
  "note_changes prior at s =
     s\<lparr>s_PresenceChangedAt :=
          (if s_Presence s \<noteq> s_Presence prior then at else s_PresenceChangedAt s),
        s_ActivityChangedAt :=
          (if s_Activity s \<noteq> s_Activity prior then at else s_ActivityChangedAt s)\<rparr>"

definition reset_evidence :: "incarnation \<Rightarrow> time \<Rightarrow> session \<Rightarrow> session" where
  "reset_evidence next at s =
     (let s1 = s\<lparr>s_Observations := (s_Observations s)\<lparr>
                   o_Native := None, o_Screen := None, o_Process := None, o_Location := None\<rparr>,
                 s_Liveness := Unknown ActivityUnknown
                   (Some (process_decision ''process_replaced'' (i_Process next) at))\<rparr>
      in if process_complete (i_Process next) then s1 else setDecision None s1)"

definition take_incarnation :: "incarnation \<Rightarrow> session \<Rightarrow> session" where
  "take_incarnation next s =
     s\<lparr>s_Incarnation := next,
        s_Process := (if process_complete (i_Process next) then Some (i_Process next)
                      else s_Process s)\<rparr>"

definition settle_liveness :: "incarnation_transition \<Rightarrow> time \<Rightarrow> session \<Rightarrow> session" where
  "settle_liveness t at s =
     (if t_terminal t then
        (if replacedTombstone s then s
         else s\<lparr>s_Liveness := Gone at ''process_gone''
                  (Some (process_decision ''process_gone'' (i_Process (t_next t)) at))\<rparr>)
      else case i_State (t_next t) of
        IncarnationLive \<Rightarrow> setPresence PresenceLive s
      | IncarnationStarting \<Rightarrow> setPresence PresenceUnknown s
      | _ \<Rightarrow> s)"

definition lc_commit :: "incarnation_transition \<Rightarrow> time \<Rightarrow> session \<Rightarrow> session" where
  "lc_commit t at s =
     (if \<not> t_accepted t then s
      else let s1 = (if t_reset t then reset_evidence (t_next t) at s else s)
        in note_changes s at (settle_liveness t at (take_incarnation (t_next t) s1)))"

subsection \<open>Activity from evidence\<close>

definition acceptsActivity :: "session \<Rightarrow> time \<Rightarrow> bool" where
  "acceptsActivity s at =
     (s_Presence s \<noteq> PresenceGone \<and>
      (case s_Decision s of None \<Rightarrow> True | Some d \<Rightarrow> \<not> at < d_ObservedAt d))"

definition lc_verify :: "verification \<Rightarrow> time \<Rightarrow> session \<Rightarrow> session" where
  "lc_verify v at s =
     (let d = Some (process_decision (v_Reason v) zero_process at) in
      if v_Presence v = PresenceGone then s\<lparr>s_Liveness := Gone at (v_Reason v) d\<rparr>
      else s\<lparr>s_Liveness := Unknown ActivityUnknown d\<rparr>)"

definition lc_reading :: "policy \<Rightarrow> time \<Rightarrow> session \<Rightarrow> session" where
  "lc_reading pol at s =
     (case (o_Screen (s_Observations s), s_Process s) of
        (Some sc, Some p) \<Rightarrow>
          if \<not> process_equal (sc_Process sc) p \<or> \<not> acceptsActivity s at then s
          else if fst (ActivityAuthority s pol at) \<noteq> AuthorityScreen then s
          else setDecision (Some
            \<lparr>d_Authority = sc_Authority sc, d_Reason = sc_Reason sc, d_RuleID = sc_RuleID sc,
             d_ManifestSource = sc_ManifestSource sc, d_ManifestVersion = sc_ManifestVersion sc,
             d_FallbackReason = sc_FallbackReason sc, d_Process = sc_Process sc,
             d_ObservedAt = at\<rparr>) (setActivity (Some (sc_Activity sc)) s)
      | _ \<Rightarrow> s)"

definition lc_report :: "report \<Rightarrow> policy \<Rightarrow> time \<Rightarrow> session \<Rightarrow> session" where
  "lc_report r pol at s =
     (case o_Native (s_Observations s) of
        None \<Rightarrow> s
      | Some n \<Rightarrow>
          if n_Activity n \<noteq> None \<and> pol_Authority pol \<noteq> AuthorityScreen \<and> acceptsActivity s at
          then setDecision (Some
            \<lparr>d_Authority = AuthorityHook, d_Reason = r_Event r, d_RuleID = [],
             d_ManifestSource = [], d_ManifestVersion = 0, d_FallbackReason = [],
             d_Process = n_Process n, d_ObservedAt = at\<rparr>) (setActivity (n_Activity n) s)
          else s)"

definition lc_apply :: "observation \<Rightarrow> policy \<Rightarrow> time \<Rightarrow> session \<Rightarrow> session" where
  "lc_apply ob pol at s =
     (case ob_Evidence ob of
        EvReport r \<Rightarrow> lc_report r pol at s
      | EvReading _ \<Rightarrow> lc_reading pol at s
      | EvVerification v \<Rightarrow> lc_verify v at s
      | _ \<Rightarrow> s)"

subsection \<open>What the evidence does to the next incarnation\<close>

lemma applyEvidence_flags [simp]:
  "t_reset (applyEvidence i t) = t_reset t"
  "t_accepted (applyEvidence i t) = t_accepted t"
  "t_ignored (applyEvidence i t) = t_ignored t"
  "t_terminal (applyEvidence i t) = (in_end i \<or> in_absent i \<or> t_terminal t)"
  by (simp_all add: applyEvidence_def evidence_state_def Let_def)

lemma take_process_reads [simp]:
  "i_State (take_process i n) = i_State n"
  "i_EvidenceAt (take_process i n) = i_EvidenceAt n"
  "i_TransitionAt (take_process i n) = i_TransitionAt n"
  "i_Previous (take_process i n) = i_Previous n"
  by (simp_all add: take_process_def split: option.split)

lemma start_clock_reads [simp]:
  "i_State (start_clock i n) = i_State n"
  "i_EvidenceAt (start_clock i n) = i_EvidenceAt n"
  "i_Process (start_clock i n) = i_Process n"
  "i_Previous (start_clock i n) = i_Previous n"
  by (simp_all add: start_clock_def)

lemma note_evidence_reads [simp]:
  "i_State (note_evidence i n) = i_State n"
  "i_TransitionAt (note_evidence i n) = i_TransitionAt n"
  "i_Process (note_evidence i n) = i_Process n"
  "i_Previous (note_evidence i n) = i_Previous n"
  by (simp_all add: note_evidence_def)

lemma evidence_state_reads [simp]:
  "i_EvidenceAt (t_next (evidence_state i t)) = i_EvidenceAt (t_next t)"
  "i_Process (t_next (evidence_state i t)) = i_Process (t_next t)"
  "i_Previous (t_next (evidence_state i t)) = i_Previous (t_next t)"
  by (simp_all add: evidence_state_def Let_def)

lemma applyEvidence_process:
  "i_Process (t_next (applyEvidence i t)) = i_Process (take_process i (t_next t))"
  by (simp add: applyEvidence_def Let_def)

lemma applyEvidence_previous [simp]:
  "i_Previous (t_next (applyEvidence i t)) = i_Previous (t_next t)"
  by (simp add: applyEvidence_def Let_def)

lemma evidence_state_state:
  "i_State (t_next (evidence_state i t)) =
     (if in_end i then IncarnationEnded
      else if in_absent i then IncarnationExited
      else if in_kind i = ''sighting'' then IncarnationLive
      else if claimApplies i (t_next t)
      then (if (case in_report i of None \<Rightarrow> False | Some r \<Rightarrow> r_Claim r = Some PresenceLive)
            then IncarnationLive else IncarnationStarting)
      else if replacementReport i t then IncarnationLive
      else i_State (t_next t))"
  by (simp add: evidence_state_def Let_def)

lemma applyEvidence_terminal_state:
  "in_end i \<or> in_absent i \<Longrightarrow> terminal_state (i_State (t_next (applyEvidence i t)))"
  by (auto simp: applyEvidence_def Let_def evidence_state_state terminal_state_def)

lemma applyEvidence_open_state:
  "\<not> in_end i \<Longrightarrow> \<not> in_absent i \<Longrightarrow>
   i_State (t_next (applyEvidence i t)) \<in> {IncarnationLive, IncarnationStarting, i_State (t_next t)}"
  by (auto simp: applyEvidence_def Let_def evidence_state_state)

lemma applyEvidence_evidence:
  "i_EvidenceAt (t_next t) \<le> i_EvidenceAt (t_next (applyEvidence i t))"
  by (simp add: applyEvidence_def Let_def note_evidence_def)

text \<open>A terminal incarnation never moves back in time.\<close>

lemma applyEvidence_terminal_time:
  "in_end i \<or> in_absent i \<Longrightarrow>
   i_TransitionAt (in_current i) \<le> i_TransitionAt (t_next (applyEvidence i t))"
  by (auto simp: applyEvidence_def Let_def evidence_state_def later_transition_def)

subsection \<open>Which action is chosen\<close>

lemma choose_action_cases:
  fixes i :: incarnation_input
  defines "act \<equiv> choose_action incarnation_rules i"
  shows "act = IncarnationReject \<or> act = IncarnationIgnore
    \<or> act = IncarnationVerify \<and> verifies i \<and> \<not> verificationRejected i
    \<or> act = IncarnationRetire \<and> \<not> verifies i \<and> in_retire i \<and> \<not> retirementRejected i \<and> \<not> in_end i
    \<or> act = IncarnationReplace \<and> \<not> verifies i \<and> \<not> in_retire i \<and> in_different i \<and> \<not> replacementRejected i
    \<or> act = IncarnationBind \<and> \<not> verifies i \<and> \<not> in_retire i \<and> \<not> in_different i \<and> bindsTerminalProcess i
    \<or> act = IncarnationResume \<and> \<not> verifies i \<and> \<not> in_retire i \<and> \<not> in_different i \<and> \<not> terminalStale i
        \<and> resumesTerminal i
    \<or> act = IncarnationContinue \<and> \<not> verifies i \<and> \<not> in_retire i \<and> \<not> in_different i \<and> \<not> terminalStale i
        \<and> \<not> terminalRejected i"
  unfolding act_def
  by (auto simp: incarnation_rules_def retirementIgnored_def retires_def replaces_def)

lemma transition_for_rejected [simp]:
  "\<not> t_accepted (transition_for i IncarnationReject)"
  "\<not> t_accepted (transition_for i IncarnationIgnore)"
  by (simp_all add: transition_for_def transition_base_def Let_def)

lemma normalize_fields [simp]:
  "in_current (normalizeIncarnationInput s ob at ret) = s_Incarnation s"
  "in_process (normalizeIncarnationInput s ob at ret) = ob_Process ob"
  "in_report (normalizeIncarnationInput s ob at ret) = ev_report ob"
  "in_verification (normalizeIncarnationInput s ob at ret) = ev_verification ob"
  "in_decision (normalizeIncarnationInput s ob at ret) = s_Decision s"
  "in_kind (normalizeIncarnationInput s ob at ret) = ob_Kind ob"
  "in_at (normalizeIncarnationInput s ob at ret) = at"
  "in_retire (normalizeIncarnationInput s ob at ret) = ret"
  by (simp_all add: normalizeIncarnationInput_def)

lemma normalize_terminal [simp]:
  "in_terminal (normalizeIncarnationInput s ob at ret) = terminal_state (i_State (s_Incarnation s))"
  by (simp add: normalizeIncarnationInput_def)

text \<open>
  The accepted transitions, each with the condition of its rule. The input is the normalised one.
\<close>

lemma accepted_cases:
  assumes "t_accepted (transitionIncarnation s ob at ret)"
  defines "i \<equiv> normalizeIncarnationInput s ob at ret"
  obtains
    (verify) "verifies i" "\<not> verificationRejected i"
       "transitionIncarnation s ob at ret = verify_transition i"
  | (retire) "\<not> verifies i" "ret" "\<not> retirementRejected i" "\<not> in_end i"
       "transitionIncarnation s ob at ret = retire_transition i"
  | (replace) "\<not> verifies i" "\<not> ret" "in_different i" "\<not> replacementRejected i"
       "transitionIncarnation s ob at ret = transition_for i IncarnationReplace"
  | (bind) "\<not> verifies i" "\<not> ret" "\<not> in_different i" "bindsTerminalProcess i"
       "transitionIncarnation s ob at ret = transition_for i IncarnationBind"
  | (resume) "\<not> verifies i" "\<not> ret" "\<not> in_different i" "\<not> terminalStale i" "resumesTerminal i"
       "transitionIncarnation s ob at ret = transition_for i IncarnationResume"
  | (continue) "\<not> verifies i" "\<not> ret" "\<not> in_different i" "\<not> terminalStale i" "\<not> terminalRejected i"
       "transitionIncarnation s ob at ret = transition_for i IncarnationContinue"
proof -
  have eq: "transitionIncarnation s ob at ret = transition_for i (choose_action incarnation_rules i)"
    by (simp add: transitionIncarnation_def i_def Let_def)
  have ret: "in_retire i = ret" by (simp add: i_def)
  have vr: "transition_for i IncarnationVerify = verify_transition i"
    "transition_for i IncarnationRetire = retire_transition i"
    by (simp_all add: transition_for_def Let_def)
  show thesis
    using choose_action_cases [of i] assms(1) eq ret vr that by auto
qed

end
