(* ===== verification/Aht_EvidenceStore.thy ===== *)
theory Aht_EvidenceStore
  imports Aht_Lifecycle
begin

section \<open>Evidence slots: \<open>evidence_store.go\<close>\<close>

text \<open>
  A session keeps the latest observation of each kind in its own slot. This theory models what
  an observation writes into its slot, when a report is a repetition of the stored one, and the
  sequence contract of reporters that number their reports.
\<close>

definition observationTime :: "time \<Rightarrow> time \<Rightarrow> time" where
  "observationTime observed received = (if observed > received then received else observed)"

definition sourceSlotTime :: "session \<Rightarrow> observation \<Rightarrow> time" where
  "sourceSlotTime s ob =
     (let obs = s_Observations s in
      case ob_Evidence ob of
        EvReport _ \<Rightarrow> (case o_Native obs of None \<Rightarrow> 0 | Some n \<Rightarrow> n_ObservedAt n)
      | EvSighting _ \<Rightarrow> (case o_Process obs of None \<Rightarrow> 0 | Some p \<Rightarrow> po_ObservedAt p)
      | EvPlacement _ \<Rightarrow> (case o_Location obs of None \<Rightarrow> 0 | Some l \<Rightarrow> mo_ObservedAt l)
      | EvListing _ \<Rightarrow> (case o_Catalog obs of None \<Rightarrow> 0 | Some c \<Rightarrow> co_ObservedAt c)
      | EvReading _ \<Rightarrow> (case o_Screen obs of None \<Rightarrow> 0 | Some r \<Rightarrow> sc_ObservedAt r)
      | EvVerification _ \<Rightarrow> 0
      | NoEvidence \<Rightarrow> 0)"

datatype slot =
  SlotNone
  | SlotNative "native_observation option"
  | SlotProcess "process_observation option"
  | SlotLocation "multiplexer_observation option"
  | SlotCatalog "catalog_observation option"
  | SlotScreen "screen_observation option"

definition existingSlot :: "session \<Rightarrow> observation \<Rightarrow> slot" where
  "existingSlot s ob =
     (let obs = s_Observations s in
      case ob_Evidence ob of
        EvReport _ \<Rightarrow> SlotNative (o_Native obs)
      | EvSighting _ \<Rightarrow> SlotProcess (o_Process obs)
      | EvPlacement _ \<Rightarrow> SlotLocation (o_Location obs)
      | EvListing _ \<Rightarrow> SlotCatalog (o_Catalog obs)
      | EvReading _ \<Rightarrow> SlotScreen (o_Screen obs)
      | EvVerification _ \<Rightarrow> SlotNone
      | NoEvidence \<Rightarrow> SlotNone)"

subsection \<open>Storing\<close>

definition nativeActivity :: "session \<Rightarrow> report \<Rightarrow> process_identity \<Rightarrow> activity option" where
  "nativeActivity s r p =
     (case (r_Activity r, o_Native (s_Observations s), s_Process s) of
        (None, Some n, Some q) \<Rightarrow>
          if s_Presence s \<noteq> PresenceGone \<and> \<not> reportEnds r \<and> \<not> nativeEnded n \<and>
             rp_Integration (n_Reporter n) = rp_Integration (r_Reporter r) \<and>
             process_equal q p \<and> process_equal (n_Process n) p
          then n_Activity n else None
      | _ \<Rightarrow> r_Activity r)"

definition native_slot :: "session \<Rightarrow> observation \<Rightarrow> time \<Rightarrow> native_observation" where
  "native_slot s ob at =
     (let r = ob_Report ob; p = deref_or zero_process (ob_Process ob) in
      \<lparr>n_Detail = nativeDetail s r p at,
       n_Reporter = r_Reporter r,
       n_Event = r_Event r,
       n_Lifecycle = r_Lifecycle r,
       n_Presence = r_Claim r,
       n_Activity = nativeActivity s r p,
       n_SessionID = oi_SessionID (ob_Subject ob),
       n_SessionPath = oi_SessionPath (ob_Subject ob),
       n_ObservedAt = at,
       n_Attributes = r_Attributes r,
       n_RawPayload = r_Payload r,
       n_Process = p\<rparr>)"

definition storeNativeObservation :: "observation \<Rightarrow> time \<Rightarrow> session \<Rightarrow> session" where
  "storeNativeObservation ob at s =
     s\<lparr>s_Observations := (s_Observations s)\<lparr>o_Native := Some (native_slot s ob at)\<rparr>\<rparr>"

definition storeProcessObservation :: "observation \<Rightarrow> time \<Rightarrow> session \<Rightarrow> session" where
  "storeProcessObservation ob at s =
     s\<lparr>s_Observations := (s_Observations s)\<lparr>o_Process := Some
        \<lparr>po_Present = (ob_Present ob = Some True),
         po_Process = deref_or zero_process (ob_Process ob), po_ObservedAt = at\<rparr>\<rparr>\<rparr>"

definition storeMultiplexerObservation :: "placement \<Rightarrow> time \<Rightarrow> session \<Rightarrow> session" where
  "storeMultiplexerObservation p at s =
     s\<lparr>s_Observations := (s_Observations s)\<lparr>o_Location := Some
        \<lparr>mo_Process = pl_Process p, mo_Location = pl_Location p, mo_ObservedAt = at\<rparr>\<rparr>\<rparr>"

definition storeCatalogObservation ::
    "observation_identity \<Rightarrow> listing \<Rightarrow> time \<Rightarrow> session \<Rightarrow> session" where
  "storeCatalogObservation subject l at s =
     s\<lparr>s_Observations := (s_Observations s)\<lparr>o_Catalog := Some
        \<lparr>co_SessionID = oi_SessionID subject, co_SessionPath = oi_SessionPath subject,
         co_ResumeCommand = li_ResumeCommand l, co_CWD = li_CWD l,
         co_ProjectRoot = li_ProjectRoot l, co_ProcessPID = li_ProcessPID l,
         co_ObservedAt = at\<rparr>\<rparr>\<rparr>"

definition storeScreenObservation :: "screen_observation \<Rightarrow> time \<Rightarrow> session \<Rightarrow> session" where
  "storeScreenObservation r at s =
     s\<lparr>s_Observations := (s_Observations s)\<lparr>o_Screen := Some (r\<lparr>sc_ObservedAt := at\<rparr>)\<rparr>\<rparr>"

definition storeObservation :: "observation \<Rightarrow> time \<Rightarrow> session \<Rightarrow> session" where
  "storeObservation ob at s =
     (case ob_Evidence ob of
        EvReport _ \<Rightarrow> storeNativeObservation ob at s
      | EvSighting _ \<Rightarrow> storeProcessObservation ob at s
      | EvPlacement p \<Rightarrow> storeMultiplexerObservation p at s
      | EvListing l \<Rightarrow> storeCatalogObservation (ob_Subject ob) l at s
      | EvReading r \<Rightarrow> storeScreenObservation r at s
      | EvVerification _ \<Rightarrow> s
      | NoEvidence \<Rightarrow> s)"

definition observationEquivalent :: "session \<Rightarrow> observation \<Rightarrow> time \<Rightarrow> bool" where
  "observationEquivalent s ob at = (existingSlot s ob = existingSlot (storeObservation ob at s) ob)"

subsection \<open>Sequenced reporters\<close>

definition sameReportProcess :: "native_observation \<Rightarrow> report \<Rightarrow> bool" where
  "sameReportProcess n r =
     (case r_Process r of None \<Rightarrow> True | Some p \<Rightarrow> process_equal (n_Process n) p)"

definition duplicateSequencedReport :: "session \<Rightarrow> observation \<Rightarrow> bool" where
  "duplicateSequencedReport s ob =
     (let r = ob_Report ob in
      case o_Native (s_Observations s) of
        None \<Rightarrow> False
      | Some n \<Rightarrow>
          sameReportProcess n r \<and>
          rp_Sequence (r_Reporter r) \<noteq> None \<and>
          rp_Sequence (n_Reporter n) \<noteq> None \<and>
          rp_Sequence (r_Reporter r) = rp_Sequence (n_Reporter n) \<and>
          trim_space (rp_Integration (r_Reporter r)) \<noteq> '''' \<and>
          trim_space (rp_Integration (r_Reporter r)) = trim_space (rp_Integration (n_Reporter n)) \<and>
          observationEquivalent s ob (n_ObservedAt n))"

definition validateSequenceOrder :: "64 word option \<Rightarrow> 64 word option \<Rightarrow> reg_error option" where
  "validateSequenceOrder prev cur =
     (case (prev, cur) of
        (Some _, None) \<Rightarrow>
          Some (ErrObservationConflict ''reporter omitted sequence after using sequence'')
      | (Some p, Some c) \<Rightarrow>
          if c \<le> p then Some (ErrObservationConflict ''sequence does not follow'') else None
      | _ \<Rightarrow> None)"

definition sequencedObservationTime :: "session \<Rightarrow> observation \<Rightarrow> time \<Rightarrow> reg_error + time" where
  "sequencedObservationTime s ob at =
     (if ob_Kind ob \<noteq> ''report'' then Inr at
      else let r = ob_Report ob; name = trim_space (rp_Integration (r_Reporter r)) in
        case o_Native (s_Observations s) of
          None \<Rightarrow> Inr at
        | Some n \<Rightarrow>
            if name = '''' \<or> \<not> sameReportProcess n r
               \<or> trim_space (rp_Integration (n_Reporter n)) \<noteq> name
            then Inr at
            else if duplicateSequencedReport s ob then Inr (n_ObservedAt n)
            else case validateSequenceOrder (rp_Sequence (n_Reporter n)) (rp_Sequence (r_Reporter r)) of
              Some e \<Rightarrow> Inl e
            | None \<Rightarrow>
                if rp_Sequence (r_Reporter r) = None then
                  (if at = n_ObservedAt n \<and> \<not> observationEquivalent s ob at
                   then Inr (n_ObservedAt n + nanosecond) else Inr at)
                else if \<not> at > n_ObservedAt n then Inr (n_ObservedAt n + nanosecond)
                else Inr at)"

end
