(* ===== verification/Aht_Matching.thy ===== *)
theory Aht_Matching
  imports Aht_EvidenceStore
begin

section \<open>Which session an observation belongs to: \<open>matching.go\<close>\<close>

text \<open>
  Observations name a session by native identity, by process, or by the process identifier in a
  listing. This theory models the search for the best match, the conflicts in which one session
  retires another, and the merging of a session known only by identity into the session of the
  process that turned out to own it. Loops over the session map run over the association list
  that represents it, in its order.
\<close>

record reducer =
  re_Rules :: rules
  re_Digest :: "string \<Rightarrow> string"

text \<open>
  \<open>re_Digest\<close> stands for the hexadecimal form of the first eight bytes of \<open>sha256.Sum256\<close>.
\<close>

definition re_Policy :: "reducer \<Rightarrow> harness \<Rightarrow> policy" where
  "re_Policy r h = ru_Policy (re_Rules r) h"

subsection \<open>Session identifiers: \<open>query.go\<close>\<close>

definition sessionIDParts :: "observation \<Rightarrow> string list" where
  "sessionIDParts ob =
     ob_Harness ob #
     (if oi_SessionID (ob_Subject ob) \<noteq> '''' then [''id'', oi_SessionID (ob_Subject ob)]
      else if oi_SessionPath (ob_Subject ob) \<noteq> ''''
      then [''path'', path_clean (oi_SessionPath (ob_Subject ob))]
      else case ob_Process ob of
        Some p \<Rightarrow>
          if process_complete p then [''process'', itoa (p_PID p), p_StartIdentity p]
          else [''event'', r_Event (ob_Report ob)]
      | None \<Rightarrow> [''event'', r_Event (ob_Report ob)])"

definition sessionIDForObservation :: "reducer \<Rightarrow> observation \<Rightarrow> string" where
  "sessionIDForObservation r ob =
     ob_Harness ob @ ''-'' @ re_Digest r (join [CHR 0x00] (sessionIDParts ob))"

lemma sessionID_nonempty [simp]: "sessionIDForObservation r ob \<noteq> []"
  by (simp add: sessionIDForObservation_def)

subsection \<open>Predicates on one session\<close>

definition samePane :: "session \<Rightarrow> location option \<Rightarrow> bool" where
  "samePane s observed =
     (case observed of
        None \<Rightarrow> False
      | Some l \<Rightarrow>
          let cur = s_Location s in
          if l_PaneID l = '''' then False
          else if l_Kind cur \<noteq> l_Kind l \<or> l_PaneID cur \<noteq> l_PaneID l then False
          else if l_ServerID cur \<noteq> '''' \<or> l_ServerID l \<noteq> '''' then l_ServerID cur = l_ServerID l
          else if l_SessionID cur \<noteq> '''' \<or> l_SessionID l \<noteq> ''''
          then l_SessionID cur = l_SessionID l
          else False)"

definition observationHasIdentity :: "observation \<Rightarrow> bool" where
  "observationHasIdentity ob =
     (oi_SessionID (ob_Subject ob) \<noteq> '''' \<or> oi_SessionPath (ob_Subject ob) \<noteq> '''')"

definition observationIdentityConflicts :: "session \<Rightarrow> observation_identity \<Rightarrow> bool" where
  "observationIdentityConflicts s idy =
     (if oi_SessionID idy \<noteq> '''' \<and> s_SessionID s \<noteq> '''' then oi_SessionID idy \<noteq> s_SessionID s
      else if oi_SessionPath idy \<noteq> '''' \<and> s_SessionPath s \<noteq> ''''
      then path_clean (oi_SessionPath idy) \<noteq> path_clean (s_SessionPath s)
      else False)"

definition session_has_process :: "session \<Rightarrow> process_identity option \<Rightarrow> bool" where
  "session_has_process s p =
     (case (s_Process s, p) of (Some q, Some o') \<Rightarrow> process_equal q o' | _ \<Rightarrow> False)"

definition nativeSessionReplacement :: "reducer \<Rightarrow> session \<Rightarrow> observation \<Rightarrow> bool \<Rightarrow> bool" where
  "nativeSessionReplacement r s ob same =
     (if \<not> same \<or> ob_Kind ob \<noteq> ''report'' \<or> \<not> observationHasIdentity ob
         \<or> s_Harness s \<noteq> ob_Harness ob \<or> \<not> observationIdentityConflicts s (ob_Subject ob)
      then False
      else if rp_MultiSession (r_Reporter (ob_Report ob)) \<or>
           (case o_Native (s_Observations s) of None \<Rightarrow> False
            | Some n \<Rightarrow> rp_MultiSession (n_Reporter n))
      then False
      else pol_ExclusiveProcess (re_Policy r (s_Harness s)))"

definition processHarnessReplacement :: "observation \<Rightarrow> bool \<Rightarrow> bool" where
  "processHarnessReplacement ob same =
     (ob_Kind ob = ''sighting'' \<and> ob_Present ob = Some True \<and> same)"

text \<open>The first component says that the session is replaced, the second that a report replaced it.\<close>

definition conflictingSessionReplacement :: "reducer \<Rightarrow> session \<Rightarrow> observation \<Rightarrow> bool \<times> bool" where
  "conflictingSessionReplacement r s ob =
     (let same = session_has_process s (ob_Process ob) in
      if nativeSessionReplacement r s ob same then (True, True)
      else if s_Harness s = ob_Harness ob \<or> s_Presence s \<noteq> PresenceLive then (False, False)
      else if processHarnessReplacement ob same then (True, False)
      else if s_Process s = None \<and> ob_Kind ob = ''placement'' \<and> samePane s (ob_Location ob)
      then (True, False)
      else (False, False))"

subsection \<open>Retiring the sessions an observation conflicts with\<close>

definition replaced_decision :: "process_identity \<Rightarrow> time \<Rightarrow> activity_decision" where
  "replaced_decision p at =
     \<lparr>d_Authority = AuthorityHook, d_Reason = sessionReplacedReason, d_RuleID = [],
      d_ManifestSource = [], d_ManifestVersion = 0, d_FallbackReason = [], d_Process = p,
      d_ObservedAt = at\<rparr>"

definition mark_replaced :: "process_identity \<Rightarrow> time \<Rightarrow> session \<Rightarrow> session" where
  "mark_replaced p at s =
     (let s1 = (case s_Liveness s of
                  Gone t _ d \<Rightarrow> s\<lparr>s_Liveness := Gone t sessionReplacedReason d\<rparr>
                | _ \<Rightarrow> s)
      in setDecision (Some (replaced_decision p at)) s1)"

text \<open>One turn of the loop: an error, or the new session when this one is retired.\<close>

definition retire_session ::
    "reducer \<Rightarrow> observation \<Rightarrow> time \<Rightarrow> time \<Rightarrow> session \<Rightarrow> reg_error + session option" where
  "retire_session r ob at received s =
     (let (replace, native) = conflictingSessionReplacement r s ob in
      if \<not> replace then Inr None
      else let t = transitionIncarnation s ob at True in
        if \<not> t_accepted t then
          (if t_ignored t then Inr None else Inl (ErrDropped ''retired process evidence''))
        else let s1 = lc_commit t at s;
                 s2 = (if native
                       then mark_replaced (deref_or zero_process (ob_Process ob)) at s1 else s1)
          in Inr (Some (s2\<lparr>s_UpdatedAt := maxTime [s_UpdatedAt s2, received]\<rparr>)))"

definition retire_turn ::
    "reducer \<Rightarrow> observation \<Rightarrow> time \<Rightarrow> time \<Rightarrow> session go_map \<Rightarrow> string \<times> session
     \<Rightarrow> reg_error + session go_map" where
  "retire_turn r ob at received m x =
     (case retire_session r ob at received (snd x) of
        Inl e \<Rightarrow> Inl e
      | Inr None \<Rightarrow> Inr m
      | Inr (Some s) \<Rightarrow> Inr (map_put (fst x) s m))"

definition retireConflictingProcessSessions ::
    "reducer \<Rightarrow> session go_map \<Rightarrow> observation \<Rightarrow> time \<Rightarrow> time \<Rightarrow> reg_error + session go_map" where
  "retireConflictingProcessSessions r m ob at received =
     (case ob_Process ob of
        None \<Rightarrow> Inr m
      | Some p \<Rightarrow>
          if \<not> process_complete p then Inr m
          else fold_result (retire_turn r ob at received) m m)"

subsection \<open>The best matching session\<close>

definition presenceMatchRank :: "presence \<Rightarrow> int" where
  "presenceMatchRank p =
     (case p of PresenceLive \<Rightarrow> 2 | PresenceUnknown \<Rightarrow> 1 | PresenceGone \<Rightarrow> 0 | PresenceOther _ \<Rightarrow> -1)"

definition sessionMatchPreferred :: "session \<Rightarrow> string \<Rightarrow> session \<Rightarrow> string \<Rightarrow> bool" where
  "sessionMatchPreferred c cid b bid =
     (if presenceMatchRank (s_Presence c) \<noteq> presenceMatchRank (s_Presence b)
      then presenceMatchRank (s_Presence c) > presenceMatchRank (s_Presence b)
      else if s_UpdatedAt c \<noteq> s_UpdatedAt b then s_UpdatedAt c > s_UpdatedAt b
      else if s_CreatedAt c \<noteq> s_CreatedAt b then s_CreatedAt c > s_CreatedAt b
      else cid < bid)"

definition best_step ::
    "harness \<Rightarrow> (session \<Rightarrow> bool) \<Rightarrow> string \<times> session \<Rightarrow> string \<times> session \<Rightarrow> string \<times> session" where
  "best_step h matches best x =
     (if s_Harness (snd x) \<noteq> h \<or> \<not> matches (snd x) then best
      else if fst best = '''' \<or> sessionMatchPreferred (snd x) (fst x) (snd best) (fst best) then x
      else best)"

definition bestMatchingSessionID ::
    "session go_map \<Rightarrow> harness \<Rightarrow> (session \<Rightarrow> bool) \<Rightarrow> string" where
  "bestMatchingSessionID m h matches = fst (foldl (best_step h matches) ('''', zero_session) m)"

definition findListingMatchingSession :: "session go_map \<Rightarrow> observation \<Rightarrow> string" where
  "findListingMatchingSession m ob =
     (case ob_Evidence ob of
        EvListing l \<Rightarrow>
          if \<not> li_Current l \<or> li_ProcessPID l \<le> 0 then ''''
          else bestMatchingSessionID m (ob_Harness ob) (\<lambda>s.
            (case s_Process s of
               None \<Rightarrow> False
             | Some p \<Rightarrow>
                 p_PID p = li_ProcessPID l \<and>
                 (li_ProcessStartIdentity l = '''' \<or> p_StartIdentity p = li_ProcessStartIdentity l)) \<and>
            \<not> observationIdentityConflicts s (ob_Subject ob))
      | _ \<Rightarrow> '''')"

definition findProcessMatchingSession :: "session go_map \<Rightarrow> observation \<Rightarrow> string" where
  "findProcessMatchingSession m ob =
     (case ob_Process ob of
        None \<Rightarrow> ''''
      | Some p \<Rightarrow>
          if \<not> process_complete p then ''''
          else bestMatchingSessionID m (ob_Harness ob) (\<lambda>s.
            session_has_process s (Some p) \<and> \<not> observationIdentityConflicts s (ob_Subject ob)))"

definition findIdentityMatchingSession :: "session go_map \<Rightarrow> observation \<Rightarrow> string" where
  "findIdentityMatchingSession m ob =
     (let sid = oi_SessionID (ob_Subject ob); path = oi_SessionPath (ob_Subject ob);
          by_id = (if sid = '''' then ''''
                   else bestMatchingSessionID m (ob_Harness ob) (\<lambda>s. s_SessionID s = sid));
          by_path = (if path = '''' then ''''
                     else bestMatchingSessionID m (ob_Harness ob) (\<lambda>s.
                       s_SessionPath s \<noteq> '''' \<and> path_clean (s_SessionPath s) = path_clean path))
      in if by_id \<noteq> '''' then by_id else by_path)"

definition findMatchingSession :: "session go_map \<Rightarrow> observation \<Rightarrow> string" where
  "findMatchingSession m ob =
     (let byp = findProcessMatchingSession m ob; byi = findIdentityMatchingSession m ob in
      if byp \<noteq> '''' then byp else if byi \<noteq> '''' then byi else findListingMatchingSession m ob)"

subsection \<open>Merging a session known by identity into the session of its process\<close>

definition later :: "('a \<Rightarrow> time) \<Rightarrow> 'a option \<Rightarrow> 'a option \<Rightarrow> 'a option" where
  "later t target prov =
     (case (target, prov) of
        (None, _) \<Rightarrow> prov
      | (Some a, Some b) \<Rightarrow> if t b > t a then prov else target
      | (Some _, None) \<Rightarrow> target)"

definition mergeTerminalObservations :: "observations \<Rightarrow> observations \<Rightarrow> observations" where
  "mergeTerminalObservations target prov =
     target\<lparr>o_Location := later mo_ObservedAt (o_Location target) (o_Location prov),
            o_Screen := later sc_ObservedAt (o_Screen target) (o_Screen prov)\<rparr>"

definition mergeObservations :: "observations \<Rightarrow> observations \<Rightarrow> observations" where
  "mergeObservations target prov =
     mergeTerminalObservations
       (target\<lparr>o_Native := later n_ObservedAt (o_Native target) (o_Native prov),
               o_Process := later po_ObservedAt (o_Process target) (o_Process prov),
               o_Catalog := later co_ObservedAt (o_Catalog target) (o_Catalog prov)\<rparr>) prov"

definition mergeProvisionalMetadata :: "session \<Rightarrow> session \<Rightarrow> session" where
  "mergeProvisionalMetadata t p =
     t\<lparr>s_SessionID := (if s_SessionID t = '''' then s_SessionID p else s_SessionID t),
        s_SessionPath := (if s_SessionPath t = '''' then s_SessionPath p else s_SessionPath t),
        s_ResumeCommand := (if s_ResumeCommand t = [] then s_ResumeCommand p else s_ResumeCommand t),
        s_CWD := (if s_CWD t = '''' then s_CWD p else s_CWD t),
        s_ProjectRoot := (if s_ProjectRoot t = '''' then s_ProjectRoot p else s_ProjectRoot t),
        s_Location := (if location_empty (s_Location t) then s_Location p else s_Location t)\<rparr>"

definition identity_only_evidence :: "observations \<Rightarrow> observations" where
  "identity_only_evidence obs = obs\<lparr>o_Native := None, o_Process := None, o_Screen := None\<rparr>"

definition mergeProvisionalSession :: "session \<Rightarrow> session \<Rightarrow> session" where
  "mergeProvisionalSession target prov =
     (let t1 = mergeProvisionalMetadata target prov;
          incomplete = (case s_Process t1 of None \<Rightarrow> True | Some p \<Rightarrow> \<not> process_complete p);
          donor = (if incomplete then s_Observations prov
                   else identity_only_evidence (s_Observations prov));
          t2 = t1\<lparr>s_Observations := mergeObservations (s_Observations t1) donor\<rparr>;
          t3 = t2\<lparr>s_CreatedAt :=
                 (if s_CreatedAt t2 = 0 \<or> (s_CreatedAt prov \<noteq> 0 \<and> s_CreatedAt prov < s_CreatedAt t2)
                  then s_CreatedAt prov else s_CreatedAt t2)\<rparr>;
          t4 = t3\<lparr>s_UpdatedAt := maxTime [s_UpdatedAt t3, s_UpdatedAt prov]\<rparr>
      in if s_SessionID t4 \<noteq> '''' \<or> s_SessionPath t4 \<noteq> ''''
         then t4\<lparr>s_IdentityState := IdentityIdentified\<rparr> else t4)"

definition preferNativeIdentity ::
    "session go_map \<Rightarrow> observation \<Rightarrow> string \<Rightarrow> string \<Rightarrow> bool" where
  "preferNativeIdentity m ob iid pid =
     (ob_Kind ob = ''report'' \<and> iid \<noteq> '''' \<and> pid \<noteq> '''' \<and> iid \<noteq> pid \<and>
      s_Process (map_get zero_session iid m) \<noteq> None \<and>
      s_IdentityState (map_get zero_session pid m) = IdentityProvisional \<and>
      o_Native (s_Observations (map_get zero_session pid m)) = None)"

definition retire_prior :: "observation \<Rightarrow> time \<Rightarrow> session \<Rightarrow> session" where
  "retire_prior ob at prior =
     (let s1 = lc_commit (transitionIncarnation prior ob at True) at prior
      in s1\<lparr>s_UpdatedAt := maxTime [s_UpdatedAt s1, at]\<rparr>)"

text \<open>The new map and whether the session of the process absorbed the other one.\<close>

definition reconcileIdentityProcessSessions ::
    "session go_map \<Rightarrow> observation \<Rightarrow> time \<Rightarrow> string \<Rightarrow> string \<Rightarrow> session go_map \<times> bool" where
  "reconcileIdentityProcessSessions m ob at iid pid =
     (if iid \<noteq> '''' \<and> pid \<noteq> '''' \<and> iid \<noteq> pid then
        let prior = map_get zero_session iid m;
            m1 = (if s_Process prior \<noteq> None \<and> \<not> session_has_process prior (ob_Process ob)
                  then map_put iid (retire_prior ob at prior) m else m);
            prov = map_get zero_session iid m1
        in if s_Process prov = None
           then (map_del iid
                   (map_put pid (mergeProvisionalSession (map_get zero_session pid m1) prov) m1), True)
           else (m1, False)
      else (m, False))"

definition findAndReconcileMatchingSession ::
    "session go_map \<Rightarrow> observation \<Rightarrow> time \<Rightarrow> session go_map \<times> string" where
  "findAndReconcileMatchingSession m ob at =
     (let iid = findIdentityMatchingSession m ob; pid = findProcessMatchingSession m ob in
      if preferNativeIdentity m ob iid pid then (m, iid)
      else let (m1, absorbed) = reconcileIdentityProcessSessions m ob at iid pid in
        if absorbed then (m1, pid)
        else if pid \<noteq> '''' then (m1, pid)
        else if iid \<noteq> '''' then (m1, iid)
        else (m1, findListingMatchingSession m1 ob))"

subsection \<open>Absorbing the provisional session of a resumed process\<close>

text \<open>
  The loop reads through the pointer to the process of the observation without a check: a
  provisional session of the same harness with a process makes it panic when the observation
  has none.
\<close>

definition resume_candidate :: "session \<Rightarrow> string \<times> session \<Rightarrow> bool" where
  "resume_candidate s x =
     (fst x \<noteq> s_ID s \<and> s_Harness (snd x) = s_Harness s \<and>
      s_IdentityState (snd x) = IdentityProvisional \<and>
      o_Native (s_Observations (snd x)) = None \<and> s_Process (snd x) \<noteq> None)"

definition absorb_resumed :: "observation \<Rightarrow> session \<Rightarrow> session \<Rightarrow> session" where
  "absorb_resumed ob prov s =
     (let s1 = (case o_Process (s_Observations prov) of
                  None \<Rightarrow> s
                | Some p \<Rightarrow> s\<lparr>s_Observations := (s_Observations s)\<lparr>o_Process := Some p\<rparr>\<rparr>);
          s2 = (if o_Location (s_Observations prov) \<noteq> None \<and> ob_Location ob = None
                then s1\<lparr>s_Observations := (s_Observations s1)\<lparr>
                            o_Location := o_Location (s_Observations prov)\<rparr>,
                          s_Location := s_Location prov\<rparr>
                else s1)
      in s2\<lparr>s_Incarnation := (s_Incarnation s2)\<lparr>i_EvidenceAt :=
              maxTime [i_EvidenceAt (s_Incarnation s2), i_EvidenceAt (s_Incarnation prov)]\<rparr>\<rparr>)"

definition resume_turn ::
    "observation \<Rightarrow> session go_map \<times> session \<Rightarrow> string \<times> session
     \<Rightarrow> reg_error + session go_map \<times> session" where
  "resume_turn ob st x =
     (let (m, s) = st in
      if \<not> resume_candidate s x then Inr (m, s)
      else case ob_Process ob of
        None \<Rightarrow> Inl ErrNilDereference
      | Some p \<Rightarrow>
          if \<not> session_has_process (snd x) (Some p) then Inr (m, s)
          else Inr (map_del (fst x) m, absorb_resumed ob (snd x) s))"

definition reconcileResumedProcessSession ::
    "session go_map \<Rightarrow> session \<Rightarrow> observation \<Rightarrow> reg_error + session go_map \<times> session" where
  "reconcileResumedProcessSession m s ob = fold_result (resume_turn ob) (m, s) m"

subsection \<open>The best match does not depend on the order of the loop\<close>

definition preferred_entry :: "string \<times> session \<Rightarrow> string \<times> session \<Rightarrow> bool" where
  "preferred_entry x y = sessionMatchPreferred (snd x) (fst x) (snd y) (fst y)"

interpretation match_order: preference preferred_entry fst
proof
  fix a b c :: "string \<times> session"
  show "preferred_entry a b \<Longrightarrow> \<not> preferred_entry b a"
    by (auto simp: preferred_entry_def sessionMatchPreferred_def split: if_splits)
  show "preferred_entry a b \<Longrightarrow> preferred_entry b c \<Longrightarrow> preferred_entry a c"
    by (auto simp: preferred_entry_def sessionMatchPreferred_def split: if_splits)
  show "fst a \<noteq> fst b \<Longrightarrow> preferred_entry a b \<or> preferred_entry b a"
    by (auto simp: preferred_entry_def sessionMatchPreferred_def split: if_splits)
qed

definition named_keys :: "'a go_map \<Rightarrow> bool" where
  "named_keys m \<longleftrightarrow> [] \<notin> fst ` set m"

definition candidate_entry :: "harness \<Rightarrow> (session \<Rightarrow> bool) \<Rightarrow> string \<times> session \<Rightarrow> bool" where
  "candidate_entry h P x \<longleftrightarrow> s_Harness (snd x) = h \<and> P (snd x)"

lemma best_step_fold:
  assumes "[] \<notin> fst ` set xs"
  shows "foldl (best_step h P) b xs =
     (case best_of preferred_entry (if fst b = [] then None else Some b) (filter (candidate_entry h P) xs) of
        None \<Rightarrow> b | Some x \<Rightarrow> x)"
  using assms
proof (induction xs arbitrary: b)
  case (Cons x xs)
  then have "fst x \<noteq> []" by auto
  have some: "(case best_of p (Some y) ys of None \<Rightarrow> c | Some z \<Rightarrow> z) =
      (case best_of p (Some y) ys of None \<Rightarrow> d | Some z \<Rightarrow> z)"
    for p y ys and c d :: "string \<times> session"
    using best_of_None [of p "Some y" ys] by (cases "best_of p (Some y) ys") simp_all
  consider (skip) "\<not> candidate_entry h P x" "best_step h P b x = b"
    | (take) "candidate_entry h P x" "fst b = [] \<or> preferred_entry x b" "best_step h P b x = x"
    | (keep) "candidate_entry h P x" "fst b \<noteq> []" "\<not> preferred_entry x b" "best_step h P b x = b"
    by (auto simp: best_step_def candidate_entry_def preferred_entry_def)
  then show ?case
  proof cases
    case skip
    then show ?thesis using Cons.IH [of b] Cons.prems by simp
  next
    case take
    then show ?thesis
      using Cons.IH [of x] Cons.prems \<open>fst x \<noteq> []\<close>
        some [where p = preferred_entry and y = x and c = x and d = b] by auto
  next
    case keep
    then show ?thesis using Cons.IH [of b] Cons.prems by simp
  qed
qed simp

lemma bestMatching_best_of:
  assumes "named_keys m"
  shows "bestMatchingSessionID m h P =
     (case best_of preferred_entry None (filter (candidate_entry h P) m) of
        None \<Rightarrow> [] | Some x \<Rightarrow> fst x)"
  using best_step_fold [of m h P "([], zero_session)"] assms
  by (simp add: bestMatchingSessionID_def named_keys_def split: option.split)

lemma bestMatching_order:
  assumes "map_ok m" "map_ok m'" "named_keys m" "map_of m = map_of m'"
  shows "bestMatchingSessionID m h P = bestMatchingSessionID m' h P"
proof -
  have sets: "set m = set m'" by (rule set_eq_of_map_of [OF assms(1,2,4)])
  then have "named_keys m'" using assms(3) by (simp add: named_keys_def)
  moreover have "best_of preferred_entry None (filter (candidate_entry h P) m) =
      best_of preferred_entry None (filter (candidate_entry h P) m')"
    using assms sets map_ok_filter
    by (intro match_order.best_of_unique) (auto simp: map_ok_def distinct_map_filter)
  ultimately show ?thesis using assms(3) by (simp add: bestMatching_best_of)
qed

lemma bestMatching_maximal:
  assumes "map_ok m" "named_keys m" "bestMatchingSessionID m h P = k" "k \<noteq> []"
  shows "\<exists>s. map_of m k = Some s \<and> candidate_entry h P (k, s) \<and>
     (\<forall>x \<in> set m. candidate_entry h P x \<longrightarrow> x = (k, s) \<or> preferred_entry (k, s) x)"
proof -
  obtain x where x: "best_of preferred_entry None (filter (candidate_entry h P) m) = Some x"
    and k: "k = fst x"
    using assms bestMatching_best_of [OF assms(2)] by (auto split: option.splits)
  have distinct: "distinct (map fst (filter (candidate_entry h P) m))"
    using assms(1) by (simp add: map_ok_def distinct_map_filter)
  have mem: "x \<in> set m" "candidate_entry h P x" using best_of_in [OF x] by auto
  moreover have "\<forall>y. y \<in> set (filter (candidate_entry h P) m) \<or> (None::(string \<times> session) option) = Some y \<longrightarrow>
      y = x \<or> preferred_entry x y"
    by (rule match_order.best_of_maximal [OF x distinct]) simp
  ultimately show ?thesis
    using assms(1) k by (intro exI [of _ "snd x"]) (auto simp: in_set_map_of [symmetric])
qed

lemma bestMatching_none:
  assumes "named_keys m" "bestMatchingSessionID m h P = []"
  shows "\<forall>x \<in> set m. \<not> candidate_entry h P x"
proof -
  have "best_of preferred_entry None (filter (candidate_entry h P) m) = None"
  proof (rule ccontr)
    assume "\<not> ?thesis"
    then obtain x where x: "best_of preferred_entry None (filter (candidate_entry h P) m) = Some x" by blast
    then have "fst x = []" "x \<in> set m"
      using assms bestMatching_best_of [OF assms(1)] best_of_in [OF x] by auto
    then show False using assms(1) by (force simp: named_keys_def)
  qed
  then show ?thesis by (auto simp: best_of_None filter_empty_conv)
qed

subsection \<open>Retirement does not depend on the order of the loop\<close>

lemma retire_session_errors:
  "retire_session r ob at received s = Inl e \<Longrightarrow> e = ErrDropped ''retired process evidence''"
  by (auto simp: retire_session_def Let_def split: prod.splits if_splits)

definition retired_value ::
    "reducer \<Rightarrow> observation \<Rightarrow> time \<Rightarrow> time \<Rightarrow> session \<Rightarrow> session" where
  "retired_value r ob at received s =
     (case retire_session r ob at received s of Inr (Some s') \<Rightarrow> s' | _ \<Rightarrow> s)"

definition blocks_retirement ::
    "reducer \<Rightarrow> observation \<Rightarrow> time \<Rightarrow> time \<Rightarrow> session \<Rightarrow> bool" where
  "blocks_retirement r ob at received s \<longleftrightarrow>
     (case retire_session r ob at received s of Inl _ \<Rightarrow> True | Inr _ \<Rightarrow> False)"

lemma retire_loop:
  assumes "distinct (map fst xs)" "\<And>k s. (k, s) \<in> set xs \<Longrightarrow> map_of m k = Some s" "map_ok m"
  shows "if \<exists>x \<in> set xs. blocks_retirement r ob at received (snd x)
     then fold_result (retire_turn r ob at received) m xs = Inl (ErrDropped ''retired process evidence'')
     else \<exists>m'. fold_result (retire_turn r ob at received) m xs = Inr m' \<and> map_ok m' \<and>
        map_of m' = (\<lambda>k. if k \<in> fst ` set xs then map_option (retired_value r ob at received) (map_of m k)
                        else map_of m k)"
  using assms
proof (induction xs arbitrary: m)
  case (Cons x xs)
  obtain k s where x: "x = (k, s)" by fastforce
  show ?case
  proof (cases "retire_session r ob at received s")
    case (Inl e)
    then show ?thesis
      using retire_session_errors [OF Inl] x by (auto simp: retire_turn_def blocks_retirement_def)
  next
    case (Inr v)
    define m1 where "m1 = (case v of None \<Rightarrow> m | Some s' \<Rightarrow> map_put k s' m)"
    have turn: "retire_turn r ob at received m x = Inr m1"
      using Inr x by (simp add: retire_turn_def m1_def split: option.split)
    have m1: "map_of m1 = (map_of m)(k \<mapsto> retired_value r ob at received s)" "map_ok m1"
      using Inr Cons.prems x by (auto simp: m1_def retired_value_def split: option.split)
    have "map_of m1 k' = Some s'" if "(k', s') \<in> set xs" for k' s'
      using that Cons.prems x m1 by (auto simp: rev_image_eqI)
    then have IH: "if \<exists>x \<in> set xs. blocks_retirement r ob at received (snd x)
       then fold_result (retire_turn r ob at received) m1 xs = Inl (ErrDropped ''retired process evidence'')
       else \<exists>m'. fold_result (retire_turn r ob at received) m1 xs = Inr m' \<and> map_ok m' \<and>
          map_of m' = (\<lambda>k. if k \<in> fst ` set xs then map_option (retired_value r ob at received) (map_of m1 k)
                          else map_of m1 k)"
      using Cons.prems(1) m1(2) by (intro Cons.IH) auto
    have "map_of m k = Some s" using Cons.prems(2) x by simp
    moreover have "\<not> blocks_retirement r ob at received s" using Inr by (simp add: blocks_retirement_def)
    moreover have "k \<notin> fst ` set xs" using Cons.prems(1) x by auto
    ultimately show ?thesis
      using IH turn m1(1) x by (auto simp: fun_eq_iff split: if_splits)
  qed
qed simp

text \<open>
  The result of the retirement loop as a map: the error if any session refuses to retire, and
  otherwise every session replaced by its retired value.
\<close>

lemma retireConflicting_map:
  assumes "map_ok m" "ob_Process ob = Some p" "process_complete p"
  shows "if \<exists>x \<in> set m. blocks_retirement r ob at received (snd x)
     then retireConflictingProcessSessions r m ob at received = Inl (ErrDropped ''retired process evidence'')
     else \<exists>m'. retireConflictingProcessSessions r m ob at received = Inr m' \<and> map_ok m' \<and>
        map_of m' = (\<lambda>k. map_option (retired_value r ob at received) (map_of m k))"
proof -
  have outside: "map_of m k = None" if "k \<notin> fst ` set m" for k
    using that by (simp add: map_of_eq_None_iff)
  then have eq: "(\<lambda>k. if k \<in> fst ` set m then map_option f (map_of m k) else map_of m k) =
      (\<lambda>k. map_option f (map_of m k))" for f :: "session \<Rightarrow> session"
    by (auto simp: fun_eq_iff)
  show ?thesis
    using retire_loop [of m m r ob at received] assms
    by (simp add: retireConflictingProcessSessions_def eq map_ok_def split: if_splits)
qed

end
