(* ===== verification/Aht_Reducer.thy ===== *)
theory Aht_Reducer
  imports Aht_Matching
begin

section \<open>The reducer: \<open>reducer.go\<close>, \<open>rules.go\<close>, \<open>changes.go\<close>\<close>

text \<open>
  \<open>reduceOne\<close> takes one observation into the session map; \<open>applyObservationBatch\<close> folds a batch
  into a snapshot, dropping observations whose order is stale and stopping at any other error.
  The rest of the theory is the expiry of gone sessions and the comparison of two states.
\<close>

record snapshot =
  sn_dropped :: "reg_error list"
  sn_JournalSequence :: "64 word"
  sn_SchemaVersion :: int
  sn_UpdatedAt :: time
  sn_Sessions :: "session go_map"
  sn_EndedProcesses :: "time go_map"

definition newSnapshot :: snapshot where
  "newSnapshot =
     \<lparr>sn_dropped = [], sn_JournalSequence = 0, sn_SchemaVersion = storeSchemaVersion,
      sn_UpdatedAt = 0, sn_Sessions = [], sn_EndedProcesses = []\<rparr>"

subsection \<open>Applying an accepted observation to one session\<close>

definition newSession :: "string \<Rightarrow> harness \<Rightarrow> time \<Rightarrow> session" where
  "newSession sid h now =
     \<lparr>s_Detail = None, s_Incarnation = zero_incarnation, s_IdentityState = IdentityProvisional,
      s_Liveness = NewLiveness PresenceUnknown (ActivityValue (Some ActivityUnknown)) None,
      s_SchemaVersion = storeSchemaVersion, s_ID = sid, s_Harness = h, s_SessionID = [],
      s_SessionPath = [], s_ResumeCommand = [], s_CWD = [], s_ProjectRoot = [], s_Process = None,
      s_Location = zero_location, s_Observations = zero_observations, s_CreatedAt = now,
      s_UpdatedAt = now, s_PresenceChangedAt = 0, s_ActivityChangedAt = 0\<rparr>"

definition applyIdentity :: "observation \<Rightarrow> session \<Rightarrow> session" where
  "applyIdentity ob s =
     s\<lparr>s_IdentityState := (if observationHasIdentity ob then IdentityIdentified else s_IdentityState s),
        s_SessionID := (if oi_SessionID (ob_Subject ob) \<noteq> '''' then oi_SessionID (ob_Subject ob)
                        else s_SessionID s),
        s_SessionPath := (if oi_SessionPath (ob_Subject ob) \<noteq> ''''
                          then path_clean (oi_SessionPath (ob_Subject ob)) else s_SessionPath s)\<rparr>"

definition applyListing :: "listing \<Rightarrow> session \<Rightarrow> session" where
  "applyListing l s =
     s\<lparr>s_CWD := (if s_CWD s = '''' then li_CWD l else s_CWD s),
        s_ProjectRoot := (if s_ProjectRoot s = '''' then li_ProjectRoot l else s_ProjectRoot s),
        s_ResumeCommand := (if s_ResumeCommand s = [] then li_ResumeCommand l
                            else s_ResumeCommand s)\<rparr>"

definition applyProcess :: "process_identity option \<Rightarrow> session \<Rightarrow> session" where
  "applyProcess p s =
     (case p of
        None \<Rightarrow> s
      | Some q \<Rightarrow>
          if process_complete q
          then s\<lparr>s_Process := Some q, s_CWD := (if p_CWD q \<noteq> '''' then p_CWD q else s_CWD s)\<rparr>
          else s)"

definition applyLocation :: "location option \<Rightarrow> session \<Rightarrow> session" where
  "applyLocation l s =
     (case l of
        None \<Rightarrow> s
      | Some v \<Rightarrow> s\<lparr>s_Location := v,
                    s_CWD := (if s_CWD s = '''' then l_PaneCurrentPath v else s_CWD s)\<rparr>)"

text \<open>
  A sighting with a complete process returns early in the code; it has no listing and no
  location, so the rest would not change anything.
\<close>

definition applyMetadata :: "observation \<Rightarrow> session \<Rightarrow> session" where
  "applyMetadata ob s =
     (let s1 = applyProcess (ob_Process ob) s in
      if ob_Kind ob = ''sighting'' \<and>
         (case ob_Process ob of None \<Rightarrow> False | Some p \<Rightarrow> process_complete p) then s1
      else let s2 = (if ob_Kind ob = ''report'' \<or> ob_Kind ob = ''listing''
                     then (case ob_Listing ob of None \<Rightarrow> s1 | Some l \<Rightarrow> applyListing l s1)
                     else s1)
        in applyLocation (ob_Location ob) s2)"

definition update_session ::
    "policy \<Rightarrow> observation \<Rightarrow> time \<Rightarrow> time \<Rightarrow> incarnation_transition \<Rightarrow> session \<Rightarrow> session" where
  "update_session pol ob at received t s =
     (let s1 = lc_commit t at s;
          s2 = storeObservation ob at s1;
          s3 = applyIdentity ob s2;
          s4 = applyMetadata ob s3;
          s5 = lc_apply ob pol at s4;
          s6 = resolveDetail pol received s5;
          s7 = s6\<lparr>s_SchemaVersion := storeSchemaVersion,
                 s_UpdatedAt := maxTime [s_UpdatedAt s6, received]\<rparr>
      in note_changes s at s7)"

definition applyObservation ::
    "reducer \<Rightarrow> observation \<Rightarrow> time \<Rightarrow> time \<Rightarrow> incarnation_transition \<Rightarrow> session
     \<Rightarrow> reg_error + session" where
  "applyObservation r ob at received t s =
     (let previous = sourceSlotTime s ob in
      if \<not> t_reset t \<and> \<not> t_terminal t \<and> previous \<noteq> 0 \<and> at < previous
      then Inl (ErrDropped ''observation precedes its slot'')
      else if \<not> t_reset t \<and> \<not> t_terminal t \<and> previous \<noteq> 0 \<and> at = previous then
        (if observationEquivalent s ob at then Inr s
         else Inl (ErrObservationConflict ''observation at the same time''))
      else Inr (update_session (re_Policy r (s_Harness s)) ob at received t s))"

definition clear_native :: "session \<Rightarrow> session" where
  "clear_native s = s\<lparr>s_Observations := (s_Observations s)\<lparr>o_Native := None\<rparr>\<rparr>"

definition reduceSession ::
    "reducer \<Rightarrow> session go_map \<Rightarrow> session \<Rightarrow> observation \<Rightarrow> time \<Rightarrow> time
     \<Rightarrow> reg_error + session go_map \<times> session" where
  "reduceSession r m s ob at received =
     (let t = transitionIncarnation s ob at False;
          baseline = (if t_reset t then clear_native s else s) in
      case sequencedObservationTime baseline ob at of
        Inl e \<Rightarrow> Inl e
      | Inr at' \<Rightarrow>
          if duplicateSequencedReport baseline ob then Inr (m, s)
          else if \<not> t_accepted t then Inl (ErrDropped ''incarnation evidence'')
          else case applyObservation r ob at' received t s of
            Inl e \<Rightarrow> Inl e
          | Inr s' \<Rightarrow>
              if t_reset t \<and> process_complete (i_Process (s_Incarnation s))
              then reconcileResumedProcessSession m s' ob
              else Inr (m, s'))"

definition observationCreatesSession :: "reducer \<Rightarrow> observation \<Rightarrow> bool" where
  "observationCreatesSession r ob =
     (case ob_Evidence ob of
        EvVerification _ \<Rightarrow> False
      | EvListing l \<Rightarrow> pol_CatalogCreates (re_Policy r (ob_Harness ob)) \<and> li_Current l
      | _ \<Rightarrow> True)"

text \<open>The session an observation is reduced into: the stored one or a new one.\<close>

definition target_session ::
    "reducer \<Rightarrow> session go_map \<Rightarrow> observation \<Rightarrow> time \<Rightarrow> string \<Rightarrow> session" where
  "target_session r m ob received found =
     (let sid0 = (if found = '''' then sessionIDForObservation r ob else found);
          s0 = map_get zero_session sid0 m;
          clash = (s_ID s0 \<noteq> '''' \<and> s_Harness s0 \<noteq> ob_Harness ob);
          sid = (if clash then sessionIDForObservation r ob else sid0);
          s = (if clash then zero_session else s0)
      in if s_ID s = '''' then newSession sid (ob_Harness ob) received else s)"

text \<open>\<open>None\<close> is the session the code does not keep.\<close>

definition reduceOne ::
    "reducer \<Rightarrow> session go_map \<Rightarrow> observation \<Rightarrow> time
     \<Rightarrow> reg_error + session go_map \<times> session option" where
  "reduceOne r m ob received =
     (let at = observationTime (ob_At ob) received in
      case retireConflictingProcessSessions r m ob at received of
        Inl e \<Rightarrow> Inl e
      | Inr m1 \<Rightarrow>
          let (m2, found) = findAndReconcileMatchingSession m1 ob at in
          if found = '''' \<and> \<not> observationCreatesSession r ob then Inr (m2, None)
          else case reduceSession r m2 (target_session r m2 ob received found) ob at received of
            Inl e \<Rightarrow> Inl e
          | Inr (m3, s) \<Rightarrow> Inr (map_put (s_ID s) s m3, Some s))"

subsection \<open>Ended processes\<close>

definition endedProcessKey :: "process_identity \<Rightarrow> string" where
  "endedProcessKey p = itoa (p_PID p) @ '':'' @ p_StartIdentity p"

definition endedProcessReport :: "snapshot \<Rightarrow> observation \<Rightarrow> bool" where
  "endedProcessReport sn ob =
     (case ob_Process ob of
        None \<Rightarrow> False
      | Some p \<Rightarrow>
          ob_Kind ob = ''report'' \<and> process_complete p \<and>
          map_of (sn_EndedProcesses sn) (endedProcessKey p) \<noteq> None \<and>
          findMatchingSession (sn_Sessions sn) ob = '''')"

subsection \<open>A batch\<close>

text \<open>
  A context is the answer to each of the polls \<open>ctx.Err()\<close> a call makes, by number; the loop
  polls once per observation.
\<close>

type_synonym go_ctx = "nat \<Rightarrow> bool"

definition stamp :: "time \<Rightarrow> observation \<Rightarrow> observation" where
  "stamp received ob = (if ob_At ob = 0 then ob\<lparr>ob_At := received\<rparr> else ob)"

definition dropped_session :: "snapshot \<Rightarrow> observation \<Rightarrow> session" where
  "dropped_session sn ob =
     (let found = findMatchingSession (sn_Sessions sn) ob;
          sid = (if found = '''' \<and> ob_Process ob \<noteq> None
                 then bestMatchingSessionID (sn_Sessions sn) (ob_Harness ob)
                        (\<lambda>s. session_has_process s (ob_Process ob))
                 else found)
      in map_get zero_session sid (sn_Sessions sn))"

record batch_state =
  bs_snap :: snapshot
  bs_saved :: "session list"
  bs_ended :: nat

definition is_dropped :: "reg_error \<Rightarrow> bool" where
  "is_dropped e = (case e of ErrDropped _ \<Rightarrow> True | _ \<Rightarrow> False)"

definition apply_one ::
    "reducer \<Rightarrow> time \<Rightarrow> batch_state \<Rightarrow> observation \<Rightarrow> reg_error + batch_state" where
  "apply_one r received b ob0 =
     (let ob = stamp received ob0; sn = bs_snap b in
      case validateObservation (ru_Known (re_Rules r)) ob of
        Some e \<Rightarrow> Inl e
      | None \<Rightarrow>
          if endedProcessReport sn ob then Inr (b\<lparr>bs_ended := bs_ended b + 1\<rparr>)
          else case reduceOne r (sn_Sessions sn) ob received of
            Inl e \<Rightarrow>
              if is_dropped e
              then Inr (b\<lparr>bs_snap := sn\<lparr>sn_dropped := sn_dropped sn @ [e]\<rparr>,
                          bs_saved := bs_saved b @ [dropped_session sn ob]\<rparr>)
              else Inl e
          | Inr (m, kept) \<Rightarrow>
              Inr (b\<lparr>bs_snap := sn\<lparr>sn_Sessions := m\<rparr>,
                     bs_saved := bs_saved b @ (case kept of None \<Rightarrow> [] | Some s \<Rightarrow> [s])\<rparr>))"

definition poll_and_apply ::
    "go_ctx \<Rightarrow> reducer \<Rightarrow> time \<Rightarrow> batch_state \<Rightarrow> nat \<times> observation \<Rightarrow> reg_error + batch_state" where
  "poll_and_apply ctx r received b x =
     (if ctx (fst x) then Inl ErrContext else apply_one r received b (snd x))"

definition applyObservationBatch ::
    "go_ctx \<Rightarrow> reducer \<Rightarrow> snapshot \<Rightarrow> observation list \<Rightarrow> time
     \<Rightarrow> reg_error + snapshot \<times> session list \<times> nat" where
  "applyObservationBatch ctx r sn obs received =
     (case fold_result (poll_and_apply ctx r received)
             \<lparr>bs_snap = sn, bs_saved = [], bs_ended = 0\<rparr> (enumerate 0 obs) of
        Inl e \<Rightarrow> Inl e
      | Inr b \<Rightarrow>
          let out = bs_snap b in
          Inr (out\<lparr>sn_UpdatedAt := maxTime [sn_UpdatedAt out, received]\<rparr>, bs_saved b, bs_ended b))"

subsection \<open>Expiry\<close>

definition processOnlySession :: "session \<Rightarrow> bool" where
  "processOnlySession s =
     (s_IdentityState s = IdentityProvisional \<and> o_Native (s_Observations s) = None \<and>
      s_SessionID s = '''' \<and> s_SessionPath s = '''')"

definition goneSince :: "session \<Rightarrow> time" where
  "goneSince s = (if s_PresenceChangedAt s = 0 then s_UpdatedAt s else s_PresenceChangedAt s)"

definition expired_gone :: "(session \<Rightarrow> time) \<Rightarrow> time \<Rightarrow> duration \<Rightarrow> session \<Rightarrow> bool" where
  "expired_gone changed_at now delete_after s =
     (s_Presence s = PresenceGone \<and> changed_at s \<noteq> 0 \<and>
      \<not> time_sub now (changed_at s) < delete_after)"

text \<open>The new map and the number of deletions.\<close>

definition deleteExpiredGoneSessions ::
    "session go_map \<Rightarrow> time \<Rightarrow> duration \<Rightarrow> (session \<Rightarrow> time) \<Rightarrow> session go_map \<times> nat" where
  "deleteExpiredGoneSessions m now delete_after changed_at =
     (if delete_after < 0 then (m, 0)
      else foldl (\<lambda>(m', n) x.
              if expired_gone changed_at now delete_after (snd x)
              then (map_del (fst x) m', n + 1) else (m', n)) (m, 0) m)"

definition remove_gone_turn :: "snapshot \<times> nat \<Rightarrow> string \<times> session \<Rightarrow> snapshot \<times> nat" where
  "remove_gone_turn st x =
     (let (sn, n) = st; s = snd x in
      if s_Presence s \<noteq> PresenceGone \<or> \<not> processOnlySession s then (sn, n)
      else let ended = (case s_Process s of
                          None \<Rightarrow> sn_EndedProcesses sn
                        | Some p \<Rightarrow>
                            if process_complete p
                            then map_put (endedProcessKey p) (goneSince s) (sn_EndedProcesses sn)
                            else sn_EndedProcesses sn)
        in (sn\<lparr>sn_EndedProcesses := ended, sn_Sessions := map_del (fst x) (sn_Sessions sn)\<rparr>, n + 1))"

definition removeGoneProcessOnlySessions :: "snapshot \<Rightarrow> snapshot \<times> nat" where
  "removeGoneProcessOnlySessions sn = foldl remove_gone_turn (sn, 0) (sn_Sessions sn)"

definition pruneEndedProcesses :: "snapshot \<Rightarrow> time \<Rightarrow> duration \<Rightarrow> snapshot" where
  "pruneEndedProcesses sn now ttl =
     sn\<lparr>sn_EndedProcesses :=
          foldl (\<lambda>m x. if time_sub now (snd x) \<ge> ttl then map_del (fst x) m else m)
            (sn_EndedProcesses sn) (sn_EndedProcesses sn)\<rparr>"

definition hasExpiredTombstones :: "snapshot \<Rightarrow> time \<Rightarrow> duration \<Rightarrow> bool" where
  "hasExpiredTombstones sn now ttl =
     (list_ex (\<lambda>x. s_Presence (snd x) = PresenceGone \<and>
         (processOnlySession (snd x) \<or> time_sub now (goneSince (snd x)) \<ge> ttl)) (sn_Sessions sn) \<or>
      list_ex (\<lambda>x. time_sub now (snd x) \<ge> ttl) (sn_EndedProcesses sn))"

definition expireTombstones :: "snapshot \<Rightarrow> time \<Rightarrow> duration \<Rightarrow> snapshot \<times> nat" where
  "expireTombstones sn now ttl =
     (let (sn1, n1) = removeGoneProcessOnlySessions sn;
          (m, n) = foldl (\<lambda>(m', k) x.
              if s_Presence (snd x) \<noteq> PresenceGone \<or> time_sub now (goneSince (snd x)) < ttl
              then (m', k) else (map_del (fst x) m', k + 1))
            (sn_Sessions sn1, n1) (sn_Sessions sn1)
      in (pruneEndedProcesses (sn1\<lparr>sn_Sessions := m\<rparr>) now ttl, n))"

subsection \<open>What a consumer can see of a change\<close>

record change =
  c_ID :: string
  c_Removed :: bool

definition consumerState :: "session \<Rightarrow> session" where
  "consumerState s =
     (let s1 = s\<lparr>s_Incarnation := zero_incarnation, s_Observations := zero_observations,
                 s_UpdatedAt := 0\<rparr>
      in case s_Decision s1 of
           None \<Rightarrow> s1
         | Some d \<Rightarrow> setDecision (Some (d\<lparr>d_ObservedAt := 0\<rparr>)) s1)"

definition stateChanges :: "session go_map \<Rightarrow> session go_map \<Rightarrow> change list" where
  "stateChanges prior after =
     sort_func (\<lambda>a b. compare (c_ID a) (c_ID b))
       (concat (map (\<lambda>(k, prev).
          case map_of after k of
            None \<Rightarrow> [\<lparr>c_ID = k, c_Removed = True\<rparr>]
          | Some cur \<Rightarrow>
              if consumerState prev \<noteq> consumerState cur
              then [\<lparr>c_ID = k, c_Removed = False\<rparr>] else []) prior)
        @ concat (map (\<lambda>(k, cur).
          if map_of prior k = None then [\<lparr>c_ID = k, c_Removed = False\<rparr>] else []) after))"

record reg_state =
  st_Sessions :: "session go_map"
  st_UpdatedAt :: time

text \<open>
  \<open>Reducer.Apply\<close>: the state and changes, or the error with the state unchanged. The context is
  the background context, which is never cancelled.
\<close>

definition Reducer_Apply ::
    "reducer \<Rightarrow> reg_state \<Rightarrow> observation list \<Rightarrow> time \<Rightarrow> reg_error + reg_state \<times> change list" where
  "Reducer_Apply r st obs received =
     (let sn = newSnapshot\<lparr>sn_Sessions := st_Sessions st, sn_UpdatedAt := st_UpdatedAt st\<rparr> in
      case applyObservationBatch (\<lambda>_. False) r sn obs received of
        Inl e \<Rightarrow> Inl e
      | Inr (out, _, _) \<Rightarrow>
          Inr (\<lparr>st_Sessions = sn_Sessions out, st_UpdatedAt = sn_UpdatedAt out\<rparr>,
               stateChanges (st_Sessions st) (sn_Sessions out)))"

subsection \<open>What expiry deletes\<close>

lemma delete_loop:
  assumes "\<And>m n x. g (m, n) x = (if P x then (map_del (fst x) m, n + 1) else (m, n :: nat))"
  shows "map_of (fst (foldl g (m, n) xs)) k =
       (if \<exists>x \<in> set xs. fst x = k \<and> P x then None else map_of m k)"
    and "snd (foldl g (m, n) xs) = n + length (filter P xs)"
    and "map_ok m \<Longrightarrow> map_ok (fst (foldl g (m, n) xs))"
  by (induction xs arbitrary: m n) (auto simp: assms)

lemma delete_matching:
  assumes g: "\<And>m n x. g (m, n) x = (if P x then (map_del (fst x) m, n + 1) else (m, n :: nat))"
    and ok: "map_ok m"
  shows "map_of (fst (foldl g (m, n) m)) k =
     (case map_of m k of None \<Rightarrow> None | Some v \<Rightarrow> if P (k, v) then None else Some v)"
proof (cases "map_of m k")
  case None
  then show ?thesis using delete_loop(1) [of g P, OF g] by simp
next
  case (Some v)
  then have "(\<exists>x \<in> set m. fst x = k \<and> P x) \<longleftrightarrow> P (k, v)"
    using map_ok_ex [OF ok] by simp
  then show ?thesis using delete_loop(1) [of g P, OF g] Some by simp
qed

lemma deleteExpired_spec:
  assumes "map_ok m" "0 \<le> after"
  shows "map_of (fst (deleteExpiredGoneSessions m now after at)) k =
       (case map_of m k of None \<Rightarrow> None
        | Some s \<Rightarrow> if expired_gone at now after s then None else Some s)"
    and "snd (deleteExpiredGoneSessions m now after at) =
       length (filter (\<lambda>x. expired_gone at now after (snd x)) m)"
proof -
  let ?g = "\<lambda>(m', n) x. if expired_gone at now after (snd x) then (map_del (fst x) m', n + 1) else (m', n)"
  have g: "?g (m', n) x = (if expired_gone at now after (snd x) then (map_del (fst x) m', n + 1) else (m', n :: nat))"
    for m' n x by simp
  show "map_of (fst (deleteExpiredGoneSessions m now after at)) k =
       (case map_of m k of None \<Rightarrow> None
        | Some s \<Rightarrow> if expired_gone at now after s then None else Some s)"
    using delete_matching [of ?g "\<lambda>x. expired_gone at now after (snd x)", OF g assms(1), of 0 k] assms(2)
    by (simp add: deleteExpiredGoneSessions_def cong: option.case_cong)
  show "snd (deleteExpiredGoneSessions m now after at) =
       length (filter (\<lambda>x. expired_gone at now after (snd x)) m)"
    using delete_loop(2) [of ?g "\<lambda>x. expired_gone at now after (snd x)", OF g, of m 0 m] assms(2)
    by (simp add: deleteExpiredGoneSessions_def)
qed

text \<open>Process-only sessions that are gone: removed, their processes recorded as ended.\<close>

definition spent :: "session \<Rightarrow> bool" where
  "spent s \<longleftrightarrow> s_Presence s = PresenceGone \<and> processOnlySession s"

definition records_end :: "session \<Rightarrow> string \<Rightarrow> bool" where
  "records_end s key \<longleftrightarrow> spent s \<and> (\<exists>p. s_Process s = Some p \<and> process_complete p \<and> endedProcessKey p = key)"

lemma remove_gone_loop:
  fixes xs :: "(string \<times> session) list" and st :: "snapshot \<times> nat"
  defines "out \<equiv> foldl remove_gone_turn st xs"
  shows "map_of (sn_Sessions (fst out)) k =
       (if \<exists>x \<in> set xs. fst x = k \<and> spent (snd x) then None else map_of (sn_Sessions (fst st)) k)"
    and "snd out = snd st + length (filter (\<lambda>x. spent (snd x)) xs)"
    and "map_ok (sn_Sessions (fst st)) \<Longrightarrow> map_ok (sn_Sessions (fst out))"
    and "map_of (sn_EndedProcesses (fst out)) key \<noteq> None \<longleftrightarrow>
       map_of (sn_EndedProcesses (fst st)) key \<noteq> None \<or> (\<exists>x \<in> set xs. records_end (snd x) key)"
  unfolding out_def
  by (induction xs arbitrary: st)
    (auto simp: remove_gone_turn_def Let_def spent_def records_end_def split: option.splits prod.splits)

lemma removeGone_spec:
  assumes "map_ok (sn_Sessions sn)"
  shows "map_of (sn_Sessions (fst (removeGoneProcessOnlySessions sn))) k =
     (case map_of (sn_Sessions sn) k of None \<Rightarrow> None | Some s \<Rightarrow> if spent s then None else Some s)"
proof (cases "map_of (sn_Sessions sn) k")
  case (Some s)
  then have "(\<exists>x \<in> set (sn_Sessions sn). fst x = k \<and> spent (snd x)) \<longleftrightarrow> spent s"
    using map_ok_ex [OF assms] by simp
  then show ?thesis
    using remove_gone_loop(1) [of "(sn, 0)" "sn_Sessions sn" k] Some
    by (simp add: removeGoneProcessOnlySessions_def)
qed (use remove_gone_loop(1) [of "(sn, 0)" "sn_Sessions sn" k] in
    \<open>simp add: removeGoneProcessOnlySessions_def\<close>)

lemma prune_loop:
  "map_of (foldl (\<lambda>m x. if P x then map_del (fst x) m else m) m xs) k =
     (if \<exists>x \<in> set xs. fst x = k \<and> P x then None else map_of m k)"
  by (induction xs arbitrary: m) auto

lemma pruneEnded_spec:
  assumes "map_ok (sn_EndedProcesses sn)"
  shows "map_of (sn_EndedProcesses (pruneEndedProcesses sn now ttl)) k =
     (case map_of (sn_EndedProcesses sn) k of None \<Rightarrow> None
      | Some at \<Rightarrow> if time_sub now at \<ge> ttl then None else Some at)"
proof (cases "map_of (sn_EndedProcesses sn) k")
  case (Some at)
  then have "(\<exists>x \<in> set (sn_EndedProcesses sn). fst x = k \<and> time_sub now (snd x) \<ge> ttl) \<longleftrightarrow>
      time_sub now at \<ge> ttl"
    using map_ok_ex [OF assms] by simp
  then show ?thesis using Some by (simp add: pruneEndedProcesses_def prune_loop)
qed (simp add: pruneEndedProcesses_def prune_loop)

definition expired_session :: "time \<Rightarrow> duration \<Rightarrow> session \<Rightarrow> bool" where
  "expired_session now ttl s \<longleftrightarrow>
     s_Presence s = PresenceGone \<and> (processOnlySession s \<or> time_sub now (goneSince s) \<ge> ttl)"

lemma expireTombstones_spec:
  assumes "map_ok (sn_Sessions sn)"
  shows "map_of (sn_Sessions (fst (expireTombstones sn now ttl))) k =
     (case map_of (sn_Sessions sn) k of None \<Rightarrow> None
      | Some s \<Rightarrow> if expired_session now ttl s then None else Some s)"
proof -
  obtain sn1 n1 where one: "removeGoneProcessOnlySessions sn = (sn1, n1)" by fastforce
  have ok1: "map_ok (sn_Sessions sn1)"
    using remove_gone_loop(3) [of "(sn, 0)" "sn_Sessions sn"] assms one
    by (simp add: removeGoneProcessOnlySessions_def)
  let ?P = "\<lambda>x :: string \<times> session. \<not> (s_Presence (snd x) \<noteq> PresenceGone \<or> time_sub now (goneSince (snd x)) < ttl)"
  let ?g = "\<lambda>(m', k) x. if s_Presence (snd x) \<noteq> PresenceGone \<or> time_sub now (goneSince (snd x)) < ttl
              then (m', k) else (map_del (fst x) m', k + 1)"
  have g: "?g (m', n) x = (if ?P x then (map_del (fst x) m', n + 1) else (m', n :: nat))" for m' n x
    by simp
  have "map_of (sn_Sessions (fst (expireTombstones sn now ttl))) k =
      map_of (fst (foldl ?g (sn_Sessions sn1, n1) (sn_Sessions sn1))) k"
    using one by (simp add: expireTombstones_def pruneEndedProcesses_def case_prod_beta Let_def)
  then show ?thesis
    using delete_matching [of ?g ?P, OF g ok1, of n1 k] removeGone_spec [OF assms, of k] one
    by (auto simp: expired_session_def spent_def split: option.splits)
qed

lemma removeGone_ended:
  "map_of (sn_EndedProcesses (fst (removeGoneProcessOnlySessions sn))) key \<noteq> None \<longleftrightarrow>
     map_of (sn_EndedProcesses sn) key \<noteq> None \<or> (\<exists>x \<in> set (sn_Sessions sn). records_end (snd x) key)"
  using remove_gone_loop(4) [of "(sn, 0)" "sn_Sessions sn" key]
  by (simp add: removeGoneProcessOnlySessions_def)

text \<open>The cheap test says exactly whether the expiry would change anything.\<close>

lemma hasExpired_iff:
  "hasExpiredTombstones sn now ttl \<longleftrightarrow>
     (\<exists>x \<in> set (sn_Sessions sn). expired_session now ttl (snd x)) \<or>
     (\<exists>x \<in> set (sn_EndedProcesses sn). time_sub now (snd x) \<ge> ttl)"
  by (auto simp: hasExpiredTombstones_def expired_session_def list_ex_iff)

lemma foldl_idle: "(\<And>x. x \<in> set xs \<Longrightarrow> f s x = s) \<Longrightarrow> foldl f s xs = s"
  by (induction xs) auto

lemma expireTombstones_idle:
  assumes "\<not> hasExpiredTombstones sn now ttl"
  shows "expireTombstones sn now ttl = (sn, 0)"
proof -
  have quiet: "\<not> expired_session now ttl (snd x)" if "x \<in> set (sn_Sessions sn)" for x
    using assms that hasExpired_iff by blast
  have "remove_gone_turn (sn, 0) x = (sn, 0)" if "x \<in> set (sn_Sessions sn)" for x
    using quiet [OF that] by (auto simp: remove_gone_turn_def expired_session_def Let_def)
  then have one: "removeGoneProcessOnlySessions sn = (sn, 0)"
    unfolding removeGoneProcessOnlySessions_def by (rule foldl_idle)
  have two: "foldl (\<lambda>(m', k) x. if s_Presence (snd x) \<noteq> PresenceGone \<or> time_sub now (goneSince (snd x)) < ttl
      then (m', k) else (map_del (fst x) m', k + 1)) (sn_Sessions sn, 0) (sn_Sessions sn) = (sn_Sessions sn, 0 :: nat)"
    using quiet by (intro foldl_idle) (auto simp: expired_session_def not_le)
  have three: "foldl (\<lambda>m x. if time_sub now (snd x) \<ge> ttl then map_del (fst x) m else m)
      (sn_EndedProcesses sn) (sn_EndedProcesses sn) = sn_EndedProcesses sn"
    using assms hasExpired_iff by (intro foldl_idle) auto
  show ?thesis
    unfolding expireTombstones_def one Let_def prod.case two
    by (simp add: pruneEndedProcesses_def three)
qed

subsection \<open>The changes between two states\<close>

interpretation changes: comparator "\<lambda>a b. compare (c_ID a) (c_ID b)" UNIV
  by unfold_locales (auto simp: compare_def split: if_splits)

definition old_changes :: "session go_map \<Rightarrow> string \<times> session \<Rightarrow> change list" where
  "old_changes after x =
     (case map_of after (fst x) of
        None \<Rightarrow> [\<lparr>c_ID = fst x, c_Removed = True\<rparr>]
      | Some cur \<Rightarrow>
          if consumerState (snd x) \<noteq> consumerState cur
          then [\<lparr>c_ID = fst x, c_Removed = False\<rparr>] else [])"

definition new_changes :: "session go_map \<Rightarrow> string \<times> session \<Rightarrow> change list" where
  "new_changes before x =
     (if map_of before (fst x) = None then [\<lparr>c_ID = fst x, c_Removed = False\<rparr>] else [])"

definition raw_changes :: "session go_map \<Rightarrow> session go_map \<Rightarrow> change list" where
  "raw_changes before after =
     concat (map (old_changes after) before) @ concat (map (new_changes before) after)"

lemma stateChanges_raw:
  "stateChanges before after = sort_func (\<lambda>a b. compare (c_ID a) (c_ID b)) (raw_changes before after)"
proof -
  have "(\<lambda>(k, prev). case map_of after k of None \<Rightarrow> [\<lparr>c_ID = k, c_Removed = True\<rparr>]
       | Some cur \<Rightarrow> if consumerState prev \<noteq> consumerState cur
                     then [\<lparr>c_ID = k, c_Removed = False\<rparr>] else []) = old_changes after"
    "(\<lambda>(k, cur). if map_of before k = None then [\<lparr>c_ID = k, c_Removed = False\<rparr>] else [] :: change list)
       = (\<lambda>x. new_changes before (x :: string \<times> session))"
    by (auto simp: fun_eq_iff old_changes_def new_changes_def split: option.split)
  then show ?thesis by (simp add: stateChanges_def raw_changes_def)
qed

lemma old_changes_mem:
  "c \<in> set (old_changes after x) \<longleftrightarrow> fst x = c_ID c \<and>
     (case map_of after (c_ID c) of None \<Rightarrow> c_Removed c
      | Some q \<Rightarrow> \<not> c_Removed c \<and> consumerState (snd x) \<noteq> consumerState q)"
  by (cases c; cases "map_of after (fst x)") (auto simp: old_changes_def)

lemma new_changes_mem:
  "c \<in> set (new_changes before x) \<longleftrightarrow> fst x = c_ID c \<and> map_of before (c_ID c) = None \<and> \<not> c_Removed c"
  by (cases c) (auto simp: new_changes_def)

lemma raw_changes_spec:
  assumes "map_ok before" "map_ok after"
  shows "c \<in> set (raw_changes before after) \<longleftrightarrow>
     (case (map_of before (c_ID c), map_of after (c_ID c)) of
        (None, None) \<Rightarrow> False
      | (Some _, None) \<Rightarrow> c_Removed c
      | (None, Some _) \<Rightarrow> \<not> c_Removed c
      | (Some p, Some q) \<Rightarrow> \<not> c_Removed c \<and> consumerState p \<noteq> consumerState q)"
proof -
  let ?Q = "\<lambda>x. case map_of after (c_ID c) of None \<Rightarrow> c_Removed c
      | Some q \<Rightarrow> \<not> c_Removed c \<and> consumerState (snd x) \<noteq> consumerState q"
  let ?R = "\<lambda>x :: string \<times> session. map_of before (c_ID c) = None \<and> \<not> c_Removed c"
  have "c \<in> set (raw_changes before after) \<longleftrightarrow>
      (\<exists>x \<in> set before. fst x = c_ID c \<and> ?Q x) \<or> (\<exists>x \<in> set after. fst x = c_ID c \<and> ?R x)"
    by (simp only: raw_changes_def set_append Un_iff set_concat set_map UN_iff bex_simps
        old_changes_mem [symmetric] new_changes_mem [symmetric]) blast
  also have "\<dots> \<longleftrightarrow> (\<exists>v. map_of before (c_ID c) = Some v \<and> ?Q (c_ID c, v)) \<or>
      (\<exists>v. map_of after (c_ID c) = Some v \<and> ?R (c_ID c, v))"
    unfolding map_ok_ex [OF assms(1), where k = "c_ID c" and Q = ?Q]
      map_ok_ex [OF assms(2), where k = "c_ID c" and Q = ?R] ..
  finally show ?thesis
    by (cases "map_of before (c_ID c)"; cases "map_of after (c_ID c)") simp_all
qed

lemma stateChanges_spec:
  assumes "map_ok before" "map_ok after"
  shows "c \<in> set (stateChanges before after) \<longleftrightarrow>
     (case (map_of before (c_ID c), map_of after (c_ID c)) of
        (None, None) \<Rightarrow> False
      | (Some _, None) \<Rightarrow> c_Removed c
      | (None, Some _) \<Rightarrow> \<not> c_Removed c
      | (Some p, Some q) \<Rightarrow> \<not> c_Removed c \<and> consumerState p \<noteq> consumerState q)"
  using raw_changes_spec [OF assms] by (simp add: stateChanges_raw)

lemma changes_named:
  "map c_ID (old_changes after x) \<in> {[], [fst x]}" "map c_ID (new_changes before x) \<in> {[], [fst x]}"
  by (auto simp: old_changes_def new_changes_def split: option.split)

lemma concat_named_distinct:
  assumes "distinct (map fst xs)" "\<And>x. map c_ID (f x) \<in> {[], [fst x]}"
  shows "distinct (map c_ID (concat (map f xs))) \<and> set (map c_ID (concat (map f xs))) \<subseteq> fst ` set xs"
  using assms(1)
proof (induction xs)
  case (Cons x xs)
  then have IH: "distinct (map c_ID (concat (map f xs)))"
    "set (map c_ID (concat (map f xs))) \<subseteq> fst ` set xs" "fst x \<notin> fst ` set xs"
    by simp_all
  consider "map c_ID (f x) = []" | "map c_ID (f x) = [fst x]" using assms(2) [of x] by auto
  then show ?case
  proof cases
    case 2
    then obtain c where "f x = [c]" "c_ID c = fst x" by auto
    moreover have "fst x \<notin> set (map c_ID (concat (map f xs)))" using IH(2,3) by blast
    ultimately show ?thesis using IH by auto
  qed (use IH in auto)
qed simp

lemma raw_changes_distinct:
  assumes "map_ok before" "map_ok after"
  shows "distinct (map c_ID (raw_changes before after))"
proof -
  let ?old = "concat (map (old_changes after) before)"
  let ?new = "concat (map (new_changes before) after)"
  have old: "distinct (map c_ID ?old) \<and> set (map c_ID ?old) \<subseteq> fst ` set before"
    by (rule concat_named_distinct) (use assms(1) changes_named(1) in \<open>auto simp: map_ok_def\<close>)
  have new: "distinct (map c_ID ?new) \<and> set (map c_ID ?new) \<subseteq> fst ` set after"
    by (rule concat_named_distinct) (use assms(2) changes_named(2) in \<open>auto simp: map_ok_def\<close>)
  have "k \<notin> fst ` set before" if "k \<in> set (map c_ID ?new)" for k
    using that by (force simp: new_changes_mem map_of_eq_None_iff)
  then have "set (map c_ID ?old) \<inter> set (map c_ID ?new) = {}" using old by blast
  then show ?thesis using old new by (simp add: raw_changes_def)
qed

lemma stateChanges_sorted:
  assumes "map_ok before" "map_ok after"
  shows "sorted (map c_ID (stateChanges before after))" "distinct (map c_ID (stateChanges before after))"
proof -
  let ?c = "\<lambda>a b. compare (c_ID a) (c_ID b)"
  have "sorted_wrt (\<lambda>a b. ?c a b \<le> 0) (stateChanges before after)"
    unfolding stateChanges_raw by (rule changes.sorted_sort_func) simp
  then show "sorted (map c_ID (stateChanges before after))"
    by (simp add: sorted_map) (metis (no_types, lifting) sorted_wrt_mono_rel compare_simps(3) not_less)
  have "mset (map c_ID (stateChanges before after)) = mset (map c_ID (raw_changes before after))"
    by (simp add: stateChanges_raw)
  then show "distinct (map c_ID (stateChanges before after))"
    using raw_changes_distinct [OF assms] mset_eq_imp_distinct_iff by blast
qed

lemma stateChanges_order:
  assumes "map_ok a" "map_ok a'" "map_of a = map_of a'" "map_ok b" "map_ok b'" "map_of b = map_of b'"
  shows "stateChanges a b = stateChanges a' b'"
proof -
  have sets: "set (raw_changes a b) = set (raw_changes a' b')"
    using raw_changes_spec [OF assms(1,4)] raw_changes_spec [OF assms(2,5)] assms(3,6) by auto
  have ids: "distinct (map c_ID (raw_changes a b))" "distinct (map c_ID (raw_changes a' b'))"
    using raw_changes_distinct assms by auto
  then have "mset (raw_changes a b) = mset (raw_changes a' b')"
    using sets set_eq_iff_mset_eq_distinct by (metis distinct_map)
  moreover have "x = y" if "x \<in> set (raw_changes a' b')" "y \<in> set (raw_changes a' b')"
      "compare (c_ID x) (c_ID y) = 0" for x y
    using that ids(2) by (auto simp: distinct_map inj_on_def)
  ultimately show ?thesis unfolding stateChanges_raw by (intro changes.sort_permutation) auto
qed

end
