(* ===== verification/Aht_Query.thy ===== *)
theory Aht_Query
  imports Aht_Reducer
begin

section \<open>Filtering and ordering sessions: \<open>query.go\<close>\<close>

text \<open>
  What a client selects with a filter and in which order it sees it. The file system is a
  parameter: what \<open>filepath.Abs\<close> and \<open>filepath.EvalSymlinks\<close> answer for a path, or that they
  fail.
\<close>

record file_system =
  fs_Abs :: "string \<Rightarrow> string option"
  fs_EvalSymlinks :: "string \<Rightarrow> string option"

subsection \<open>Paths\<close>

definition SessionCWD :: "session \<Rightarrow> string" where
  "SessionCWD s =
     (if s_CWD s \<noteq> '''' then s_CWD s
      else case s_Process s of
        Some p \<Rightarrow> if p_CWD p \<noteq> '''' then p_CWD p else l_PaneCurrentPath (s_Location s)
      | None \<Rightarrow> l_PaneCurrentPath (s_Location s))"

function canonicalizeExistingOrParent :: "file_system \<Rightarrow> string \<Rightarrow> string" where
  "canonicalizeExistingOrParent fs p =
     (case fs_EvalSymlinks fs p of
        Some q \<Rightarrow> path_clean q
      | None \<Rightarrow>
          let parent = path_dir p in
          if parent = p \<or> parent = ''.'' \<or> parent = ''/'' then p
          else path_join (canonicalizeExistingOrParent fs parent) (path_base p))"
  by pat_completeness auto
termination
  by (relation "measure (\<lambda>(fs, p). length p)") (auto intro: length_path_dir)

declare canonicalizeExistingOrParent.simps [simp del]

definition CanonicalPath :: "file_system \<Rightarrow> string \<Rightarrow> string" where
  "CanonicalPath fs p =
     (if trim_space p = '''' then ''''
      else let cleaned = path_clean p in
        canonicalizeExistingOrParent fs (deref_or cleaned (fs_Abs fs cleaned)))"

definition PathsEqual :: "file_system \<Rightarrow> string \<Rightarrow> string \<Rightarrow> bool" where
  "PathsEqual fs p q =
     (if p = '''' \<or> q = '''' then False
      else if p = q then True
      else CanonicalPath fs p = CanonicalPath fs q)"

definition PathWithinOrEqual :: "file_system \<Rightarrow> string \<Rightarrow> string \<Rightarrow> bool" where
  "PathWithinOrEqual fs targ base =
     (let t = CanonicalPath fs targ; b = CanonicalPath fs base in
      if t = '''' \<or> b = '''' then False
      else if t = b then True
      else case path_rel b t of
        None \<Rightarrow> False
      | Some rel \<Rightarrow> rel \<noteq> ''..'' \<and> \<not> has_prefix rel ''../'')"

definition MatchesProject :: "file_system \<Rightarrow> session \<Rightarrow> string \<Rightarrow> bool \<Rightarrow> bool" where
  "MatchesProject fs s project subtree =
     (if project = '''' then True
      else let session_project = (if s_ProjectRoot s = '''' then SessionCWD s else s_ProjectRoot s) in
        if subtree
        then PathWithinOrEqual fs (s_ProjectRoot s) project \<or> PathWithinOrEqual fs (SessionCWD s) project
        else PathsEqual fs session_project project)"

definition MatchesServer :: "file_system \<Rightarrow> session \<Rightarrow> string \<Rightarrow> bool" where
  "MatchesServer fs s server =
     (l_ServerID (s_Location s) = server \<or> PathsEqual fs (l_ServerID (s_Location s)) server)"

definition NormalizePaths :: "file_system \<Rightarrow> session_filter \<Rightarrow> session_filter" where
  "NormalizePaths fs f =
     f\<lparr>f_Project := CanonicalPath fs (f_Project f), f_CWD := CanonicalPath fs (f_CWD f)\<rparr>"

subsection \<open>Filters\<close>

definition matchesFilterState :: "session \<Rightarrow> session_filter \<Rightarrow> bool" where
  "matchesFilterState s f =
     (if f_Harness f \<noteq> '''' \<and> s_Harness s \<noteq> f_Harness f then False
      else if f_Presence f \<noteq> no_presence \<and> s_Presence s \<noteq> f_Presence f then False
      else if f_Activity f \<noteq> no_activity \<and> s_Activity s \<noteq> Some (f_Activity f) then False
      else True)"

definition matchesFilterLocation :: "file_system \<Rightarrow> session \<Rightarrow> session_filter \<Rightarrow> bool" where
  "matchesFilterLocation fs s f =
     (if f_MultiplexerKind f \<noteq> '''' \<and> l_Kind (s_Location s) \<noteq> f_MultiplexerKind f then False
      else if f_MultiplexerServer f \<noteq> '''' \<and> \<not> MatchesServer fs s (f_MultiplexerServer f) then False
      else if f_MultiplexerPane f \<noteq> '''' \<and> l_PaneID (s_Location s) \<noteq> f_MultiplexerPane f then False
      else True)"

definition matchesFilterScope :: "file_system \<Rightarrow> session \<Rightarrow> session_filter \<Rightarrow> bool" where
  "matchesFilterScope fs s f =
     (if f_MultiplexerSession f \<noteq> '''' \<and> l_SessionName (s_Location s) \<noteq> f_MultiplexerSession f \<and>
         l_SessionID (s_Location s) \<noteq> f_MultiplexerSession f then False
      else if f_CWD f \<noteq> '''' \<and> \<not> PathsEqual fs (SessionCWD s) (f_CWD f) then False
      else if f_Project f \<noteq> '''' \<and> \<not> MatchesProject fs s (f_Project f) (f_ProjectSubtree f) then False
      else if \<not> matchesFilterLocation fs s f then False
      else True)"

subsection \<open>The order of sessions\<close>

text \<open>\<open>strconv.Atoi\<close>: an optional sign and decimal digits, within 64 bits.\<close>

definition is_digit :: "char \<Rightarrow> bool" where
  "is_digit c \<longleftrightarrow> (48 :: nat) \<le> of_char c \<and> (of_char c :: nat) < 58"

definition atoi :: "string \<Rightarrow> int option" where
  "atoi s =
     (let signed = (s \<noteq> [] \<and> (hd s = CHR ''-'' \<or> hd s = CHR ''+''));
          ds = (if signed then tl s else s);
          n = int (digit_value ds);
          v = (if signed \<and> hd s = CHR ''-'' then - n else n)
      in if ds = [] \<or> \<not> list_all is_digit ds \<or> v < min_duration \<or> v > max_duration then None else Some v)"

definition compareNumericStrings :: "string \<Rightarrow> string \<Rightarrow> int" where
  "compareNumericStrings a b =
     (case (atoi a, atoi b) of
        (Some m, Some n) \<Rightarrow> compare m n
      | _ \<Rightarrow> compare a b)"

definition or_string :: "string \<Rightarrow> string \<Rightarrow> string" where
  "or_string a b = (if a \<noteq> '''' then a else b)"

definition window_index :: "session \<Rightarrow> string" where
  "window_index s = or_string (l_WindowIndex (s_Location s)) (l_TabIndex (s_Location s))"

definition compare_sessions :: "session \<Rightarrow> session \<Rightarrow> int" where
  "compare_sessions a b =
     cmp_or
       [compare (l_Kind (s_Location a)) (l_Kind (s_Location b)),
        compare (l_SessionName (s_Location a)) (l_SessionName (s_Location b)),
        compareNumericStrings (window_index a) (window_index b),
        compareNumericStrings (l_PaneIndex (s_Location a)) (l_PaneIndex (s_Location b)),
        compare (s_Harness a) (s_Harness b),
        compare (s_ID a) (s_ID b),
        compare (s_UpdatedAt a) (s_UpdatedAt b)]"

definition sortSessions :: "session list \<Rightarrow> session list" where
  "sortSessions ss = sort_func compare_sessions ss"

definition FilterSessions :: "file_system \<Rightarrow> session list \<Rightarrow> session_filter \<Rightarrow> session list" where
  "FilterSessions fs ss f =
     sortSessions (filter (\<lambda>s. matchesFilterState s f \<and> matchesFilterScope fs s f) ss)"

subsection \<open>When the order is one\<close>

text \<open>
  The comparison of indices mixes two orders, the one of numbers and the one of strings, and is
  transitive only where every index is a number or empty. There the comparison of sessions meets
  the \<open>comparator\<close> interface.
\<close>

definition numeric_index :: "string \<Rightarrow> bool" where
  "numeric_index s \<longleftrightarrow> s = [] \<or> atoi s \<noteq> None"

definition numeric_session :: "session \<Rightarrow> bool" where
  "numeric_session s \<longleftrightarrow> numeric_index (window_index s) \<and> numeric_index (l_PaneIndex (s_Location s))"

lemma atoi_Nil [simp]: "atoi [] = None"
  by (simp add: atoi_def)

lemma numeric_comparator: "comparator (\<lambda>a b. compareNumericStrings (f a) (f b)) {a. numeric_index (f a)}"
proof
  fix a b c
  assume "a \<in> {a. numeric_index (f a)}" "b \<in> {a. numeric_index (f a)}"
  then have ab: "f a = [] \<or> atoi (f a) \<noteq> None" "f b = [] \<or> atoi (f b) \<noteq> None"
    by (auto simp: numeric_index_def)
  show "compareNumericStrings (f a) (f b) < 0 \<longleftrightarrow> 0 < compareNumericStrings (f b) (f a)"
    using ab by (auto simp: compareNumericStrings_def split: option.splits)
  assume "c \<in> {a. numeric_index (f a)}" and le: "compareNumericStrings (f a) (f b) \<le> 0"
    "compareNumericStrings (f b) (f c) \<le> 0"
  then have c: "f c = [] \<or> atoi (f c) \<noteq> None" by (auto simp: numeric_index_def)
  have below: "compare [] s \<le> 0" "compare s [] \<le> 0 \<longleftrightarrow> s = []" for s :: string
    by (cases s; simp add: compare_def)+
  have int_le: "compare x y \<le> 0 \<longleftrightarrow> x \<le> y" for x y :: int by (auto simp: compare_def)
  show "compareNumericStrings (f a) (f c) \<le> 0"
    using ab c le
    by (auto simp: compareNumericStrings_def below int_le split: option.splits)
qed

lemma comparator_subset: "comparator c A \<Longrightarrow> B \<subseteq> A \<Longrightarrow> comparator c B"
  unfolding comparator_def by blast

interpretation session_order: comparator compare_sessions "{s. numeric_session s}"
proof -
  let ?A = "{s. numeric_session s}"
  let ?cs = "[\<lambda>a b. compare (l_Kind (s_Location a)) (l_Kind (s_Location b)),
        \<lambda>a b. compare (l_SessionName (s_Location a)) (l_SessionName (s_Location b)),
        \<lambda>a b. compareNumericStrings (window_index a) (window_index b),
        \<lambda>a b. compareNumericStrings (l_PaneIndex (s_Location a)) (l_PaneIndex (s_Location b)),
        \<lambda>a b. compare (s_Harness a) (s_Harness b),
        \<lambda>a b. compare (s_ID a) (s_ID b),
        \<lambda>a b. compare (s_UpdatedAt a) (s_UpdatedAt b)]"
  have window: "comparator (\<lambda>a b. compareNumericStrings (window_index a) (window_index b)) ?A"
    by (rule comparator_subset [OF numeric_comparator]) (auto simp: numeric_session_def)
  have pane: "comparator (\<lambda>a b. compareNumericStrings (l_PaneIndex (s_Location a)) (l_PaneIndex (s_Location b))) ?A"
    by (rule comparator_subset [OF numeric_comparator]) (auto simp: numeric_session_def)
  have "list_all (\<lambda>c. comparator c ?A) ?cs"
    using window pane by (simp add: comparator_key)
  then have "comparator (\<lambda>a b. cmp_or (map (\<lambda>c. c a b) ?cs)) ?A" by (rule comparator_cmp_or)
  then show "comparator compare_sessions ?A"
    unfolding compare_sessions_def by (simp only: list.map)
qed

lemma compare_sessions_id: "compare_sessions a b = 0 \<Longrightarrow> s_ID a = s_ID b"
  by (simp add: compare_sessions_def split: if_splits)

lemma FilterSessions_set:
  "set (FilterSessions fs ss f) = {s \<in> set ss. matchesFilterState s f \<and> matchesFilterScope fs s f}"
  by (auto simp: FilterSessions_def sortSessions_def)

lemma FilterSessions_sorted:
  "list_all numeric_session ss \<Longrightarrow> sorted_wrt (\<lambda>a b. compare_sessions a b \<le> 0) (FilterSessions fs ss f)"
  unfolding FilterSessions_def sortSessions_def
  by (rule session_order.sorted_sort_func) (auto simp: list_all_iff)

lemma FilterSessions_order:
  assumes "mset ys = mset xs" "list_all numeric_session xs" "distinct (map s_ID xs)"
  shows "FilterSessions fs ys f = FilterSessions fs xs f"
  unfolding FilterSessions_def sortSessions_def
proof (rule session_order.sort_permutation)
  let ?P = "\<lambda>s. matchesFilterState s f \<and> matchesFilterScope fs s f"
  show "mset (filter ?P ys) = mset (filter ?P xs)" using assms(1) by simp
  show "set (filter ?P xs) \<subseteq> {s. numeric_session s}" using assms(2) by (auto simp: list_all_iff)
  show "a = b" if "a \<in> set (filter ?P xs)" "b \<in> set (filter ?P xs)" "compare_sessions a b = 0" for a b
    using that compare_sessions_id [OF that(3)] assms(3) by (auto simp: distinct_map inj_on_def)
qed

lemma FilterSessions_idem: "list_all numeric_session ss \<Longrightarrow> distinct (map s_ID ss) \<Longrightarrow>
   FilterSessions fs (FilterSessions fs ss f) f = FilterSessions fs ss f"
proof -
  let ?P = "\<lambda>s. matchesFilterState s f \<and> matchesFilterScope fs s f"
  let ?xs = "filter ?P ss"
  assume ss: "list_all numeric_session ss" "distinct (map s_ID ss)"
  then have "FilterSessions fs (sort_func compare_sessions ?xs) f = FilterSessions fs ?xs f"
    by (intro FilterSessions_order) (auto simp: list_all_iff distinct_map_filter)
  then show ?thesis by (simp add: FilterSessions_def sortSessions_def)
qed

subsection \<open>Containment is a prefix of path elements\<close>

text \<open>What \<open>filepath\<close> documents: an absolute path is rooted, and symbolic links of a rooted path resolve to one.\<close>

definition rooted_fs :: "file_system \<Rightarrow> bool" where
  "rooted_fs fs \<longleftrightarrow>
     (\<forall>p. \<exists>q. fs_Abs fs p = Some q \<and> is_rooted q) \<and>
     (\<forall>p q. is_rooted p \<longrightarrow> fs_EvalSymlinks fs p = Some q \<longrightarrow> is_rooted q)"

lemma path_join_rooted: "is_rooted a \<Longrightarrow> is_rooted (path_join a b)"
proof -
  assume a: "is_rooted a"
  then have "a \<noteq> []" by (auto simp: is_rooted_iff)
  moreover have "is_rooted (join ''/'' (filter (\<lambda>e. e \<noteq> []) [a, b]))"
    using a by (auto simp: is_rooted_iff)
  ultimately show ?thesis by (simp add: path_join_def Let_def)
qed

lemma path_dir_rooted: "path_dir p \<noteq> ''.'' \<Longrightarrow> is_rooted p \<Longrightarrow> is_rooted (path_dir p)"
proof -
  assume dot: "path_dir p \<noteq> ''.''" and p: "is_rooted p"
  let ?q = "rev (dropWhile (\<lambda>c. c \<noteq> CHR ''/'') (rev p))"
  have "?q \<noteq> []" using dot path_clean_Nil unfolding path_dir_def by metis
  moreover obtain r where "p = ?q @ r"
    by (metis takeWhile_dropWhile_id rev_append rev_rev_ident)
  ultimately have "is_rooted ?q" using p by (metis hd_append2 is_rooted_iff)
  then show ?thesis by (simp add: path_dir_def)
qed

lemma canonicalize_rooted:
  "rooted_fs fs \<Longrightarrow> is_rooted p \<Longrightarrow> is_rooted (canonicalizeExistingOrParent fs p)"
proof (induction fs p rule: canonicalizeExistingOrParent.induct)
  case (1 fs p)
  show ?case
  proof (cases "fs_EvalSymlinks fs p")
    case (Some q)
    then show ?thesis
      using "1.prems" by (auto simp: canonicalizeExistingOrParent.simps [of fs p] rooted_fs_def)
  next
    case None
    then show ?thesis
      using "1.prems" "1.IH" [OF None refl] path_dir_rooted [of p] path_join_rooted
      by (simp add: canonicalizeExistingOrParent.simps [of fs p] Let_def)
  qed
qed

lemma path_base_nonempty [simp]: "path_base p \<noteq> []"
  by (simp add: path_base_def Let_def)

lemma canonicalize_clean:
  "path_clean p = p \<Longrightarrow> path_clean (canonicalizeExistingOrParent fs p) = canonicalizeExistingOrParent fs p"
proof (induction fs p rule: canonicalizeExistingOrParent.induct)
  case (1 fs p)
  show ?case
    using "1.prems"
    by (cases "fs_EvalSymlinks fs p")
      (auto simp: canonicalizeExistingOrParent.simps [of fs p] Let_def path_clean_idem path_join_def)
qed

lemma CanonicalPath_clean:
  assumes "rooted_fs fs" "\<And>p q. fs_Abs fs p = Some q \<Longrightarrow> path_clean q = q" "trim_space p \<noteq> []"
  shows "is_rooted (CanonicalPath fs p) \<and> path_clean (CanonicalPath fs p) = CanonicalPath fs p"
proof -
  obtain q where q: "fs_Abs fs (path_clean p) = Some q" "is_rooted q"
    using assms(1) unfolding rooted_fs_def by metis
  then show ?thesis
    using canonicalize_rooted [OF assms(1)] canonicalize_clean assms(2,3)
    by (simp add: CanonicalPath_def Let_def)
qed

lemma rooted_elems_plain: "is_rooted p \<Longrightarrow> list_all plain (path_elems p)"
  using path_elems_normal [of p] by (auto simp: normal_elems_def)

lemma has_prefix_iff: "has_prefix s p \<longleftrightarrow> (\<exists>u. s = p @ u)"
  by (induction s p rule: has_prefix.induct) auto

lemma rel_of_dotdots:
  assumes "bs \<noteq> []"
  shows "join ''/'' (map (\<lambda>_. dotdot) bs @ ts) = ''..'' \<or>
     has_prefix (join ''/'' (map (\<lambda>_. dotdot) bs @ ts)) ''../''"
proof -
  obtain b bs' where "bs = b # bs'" using assms by (cases bs) auto
  then show ?thesis by (cases "map (\<lambda>_. dotdot) bs' @ ts") (simp_all add: dotdot_def)
qed

lemma rel_below:
  assumes "plain t"
  shows "join ''/'' (t # ts) \<noteq> ''..'' \<and> \<not> has_prefix (join ''/'' (t # ts)) ''../''"
proof -
  have t: "CHR ''/'' \<notin> set t" "t \<noteq> ''..''" using assms by (auto simp: plain_def dotdot_def)
  have first: "''../'' @ u \<noteq> t @ CHR ''/'' # v" for u v
    using append_sep_inject [of "CHR ''/''" "''..''" t u v] t by auto
  show ?thesis
  proof (cases ts)
    case Nil
    then show ?thesis using t by (auto simp: has_prefix_iff)
  next
    case (Cons u us)
    then have "join ''/'' (t # ts) = t @ CHR ''/'' # join ''/'' ts" by simp
    moreover have "t @ CHR ''/'' # v \<noteq> ''..''" for v
    proof
      assume "t @ CHR ''/'' # v = ''..''"
      then have "CHR ''/'' \<in> set ''..''" by (metis in_set_conv_decomp)
      then show False by simp
    qed
    ultimately show ?thesis using first by (metis has_prefix_iff)
  qed
qed

text \<open>On clean rooted paths the test compares elements, not characters.\<close>

lemma within_iff_prefix:
  assumes t: "is_rooted t" "path_clean t = t" and b: "is_rooted b" "path_clean b = b"
  shows "(if t = b then True
      else case path_rel b t of None \<Rightarrow> False
      | Some rel \<Rightarrow> rel \<noteq> ''..'' \<and> \<not> has_prefix rel ''../'') \<longleftrightarrow>
     (\<exists>us. path_elems t = path_elems b @ us)"
proof (cases "t = b")
  case False
  obtain bs ts where common: "drop_common (path_elems b) (path_elems t) = (bs, ts)" by fastforce
  obtain cs where cs: "path_elems b = cs @ bs" "path_elems t = cs @ ts"
    using drop_common_suffix [OF common] by blast
  have plains: "list_all plain bs" "list_all plain ts"
    using cs rooted_elems_plain [OF t(1)] rooted_elems_plain [OF b(1)] by (metis list_all_append)+
  then have "\<not> (bs \<noteq> [] \<and> hd bs = dotdot)" by (cases bs) (auto simp: plain_def)
  then have rel: "path_rel b t = Some (join ''/'' (map (\<lambda>_. dotdot) bs @ ts))"
    using False t b common by (simp add: path_rel_def)
  show ?thesis
  proof (cases bs)
    case Nil
    have "ts \<noteq> []"
    proof
      assume "ts = []"
      then have "path_clean t = path_clean b" using Nil cs t b by (simp add: path_clean_def)
      then show False using False t b by simp
    qed
    then obtain u us where "ts = u # us" by (cases ts) auto
    then show ?thesis
      using Nil rel False cs plains rel_below [of u us] by simp
  next
    case (Cons x xs)
    have "\<nexists>us. path_elems t = path_elems b @ us"
    proof
      assume "\<exists>us. path_elems t = path_elems b @ us"
      then show False using common drop_common_prefix Cons by (metis fst_conv list.distinct(1))
    qed
    then show ?thesis using rel False rel_of_dotdots [of bs ts] Cons by auto
  qed
qed simp

lemma PathWithin_spec:
  assumes fs: "rooted_fs fs" "\<And>p q. fs_Abs fs p = Some q \<Longrightarrow> path_clean q = q"
    and targ: "trim_space targ \<noteq> []" and base: "trim_space base \<noteq> []"
  shows "PathWithinOrEqual fs targ base \<longleftrightarrow>
     (\<exists>us. path_elems (CanonicalPath fs targ) = path_elems (CanonicalPath fs base) @ us)"
proof -
  have t: "is_rooted (CanonicalPath fs targ)" "path_clean (CanonicalPath fs targ) = CanonicalPath fs targ"
    using CanonicalPath_clean [OF fs targ] by auto
  have b: "is_rooted (CanonicalPath fs base)" "path_clean (CanonicalPath fs base) = CanonicalPath fs base"
    using CanonicalPath_clean [OF fs base] by auto
  have "CanonicalPath fs targ \<noteq> []" "CanonicalPath fs base \<noteq> []"
    using t b by (auto simp: is_rooted_iff)
  then show ?thesis
    unfolding within_iff_prefix [OF t b, symmetric] PathWithinOrEqual_def Let_def by simp
qed

end
