(* ===== verification/Aht_Process.thy ===== *)
theory Aht_Process
  imports Aht_Query
begin

section \<open>Processes of the machine: \<open>internal/processinfo\<close>\<close>

text \<open>
  An entry of the process table, with the hints a scan reads from its environment and its
  arguments; the identity of it that a session stores; and the programs that launch an agent for
  another one.
\<close>

record proc_info =
  pr_PID :: int
  pr_Name :: string
  pr_PPID :: int
  pr_ProcessGroupID :: int
  pr_Foreground :: bool
  pr_StartIdentity :: string
  pr_Executable :: string
  pr_CWD :: string
  pr_TTY :: string
  pr_AgentHint :: string
  pr_MultiplexerKind :: string
  pr_MultiplexerServer :: string
  pr_MultiplexerSession :: string
  pr_MultiplexerPane :: string
  pr_Args :: "string list"

definition zero_proc :: proc_info where
  "zero_proc =
     \<lparr>pr_PID = 0, pr_Name = [], pr_PPID = 0, pr_ProcessGroupID = 0, pr_Foreground = False,
      pr_StartIdentity = [], pr_Executable = [], pr_CWD = [], pr_TTY = [], pr_AgentHint = [],
      pr_MultiplexerKind = [], pr_MultiplexerServer = [], pr_MultiplexerSession = [],
      pr_MultiplexerPane = [], pr_Args = []\<rparr>"

definition processIdentity :: "proc_info \<Rightarrow> process_identity" where
  "processIdentity p =
     \<lparr>p_PID = pr_PID p, p_PPID = pr_PPID p, p_ProcessGroupID = pr_ProcessGroupID p,
      p_Foreground = pr_Foreground p, p_StartIdentity = pr_StartIdentity p,
      p_Executable = pr_Executable p, p_CWD = pr_CWD p, p_TTY = pr_TTY p\<rparr>"

definition wrapper_names :: "string list" where
  "wrapper_names =
     [''env'', ''fence'', ''bwrap'', ''bubblewrap'', ''mise'', ''nix-shell'', ''nix'', ''direnv'',
      ''node'', ''bun'', ''python'', ''python3'', ''sh'', ''bash'']"

definition IsAgentWrapper :: "proc_info \<Rightarrow> bool" where
  "IsAgentWrapper p =
     (let base = path_base (pr_Executable p);
          command = (if base = '''' \<and> pr_Args p \<noteq> [] then path_base (hd (pr_Args p)) else base)
      in command \<in> set wrapper_names)"

subsection \<open>Identities\<close>

lemma processIdentity_simps [simp]:
  "p_PID (processIdentity p) = pr_PID p" "p_PPID (processIdentity p) = pr_PPID p"
  "p_ProcessGroupID (processIdentity p) = pr_ProcessGroupID p"
  "p_StartIdentity (processIdentity p) = pr_StartIdentity p"
  by (simp_all add: processIdentity_def)

lemma process_complete_identity:
  "process_complete (processIdentity p) \<longleftrightarrow> pr_PID p > 0 \<and> pr_StartIdentity p \<noteq> []"
  by (simp add: process_complete_def)

lemma validStoredProcess_identity:
  assumes "pr_PID p > 0" "pr_StartIdentity p \<noteq> []" "pr_PPID p \<ge> 0" "pr_ProcessGroupID p \<ge> 0"
  shows "validStoredProcess (processIdentity p) b"
proof -
  have "processIdentity p \<noteq> zero_process"
    using assms(1) by (auto simp: processIdentity_def zero_process_def)
  then show ?thesis using assms by (simp add: validStoredProcess_def process_complete_identity)
qed

text \<open>\<open>filepath.Base\<close> never returns the empty string, so the arguments are not looked at.\<close>

lemma IsAgentWrapper_executable:
  "IsAgentWrapper p \<longleftrightarrow> path_base (pr_Executable p) \<in> set wrapper_names"
  using path_base_nonempty [of "pr_Executable p"] by (simp add: IsAgentWrapper_def Let_def)

end
