(* ===== verification/Aht_Harness.thy ===== *)
theory Aht_Harness
  imports Aht_Process Aht_Authority
begin

section \<open>The contract of a harness adapter: \<open>internal/harness/harness.go\<close>, \<open>lifecycle.go\<close>\<close>

text \<open>
  An adapter describes one agent program: the names it is known by, the variables of its
  environment, what its integration can report, and how its native events are read. The optional
  interfaces of an adapter are optional fields of a record; the interfaces that read the payloads,
  transcripts and configuration files of an agent are not part of it.
\<close>

record env_keys =
  ek_SessionID :: "string list"
  ek_SessionPath :: "string list"
  ek_ProjectRoot :: "string list"
  ek_PID :: "string list"
  ek_Event :: "string list"

record capabilities =
  cap_SessionStart :: bool
  cap_SessionEnd :: bool
  cap_RunningIdle :: bool
  cap_WaitingPermission :: bool
  cap_ProcessIdentity :: bool
  cap_NativeCatalog :: bool
  cap_TTYTmuxContext :: bool

record harness_definition =
  hd_ExclusiveProcess :: bool
  hd_CatalogCreates :: bool
  hd_ID :: harness
  hd_Aliases :: "string list"
  hd_ProcessNames :: "string list"
  hd_Env :: env_keys
  hd_Capabilities :: capabilities
  hd_IntegrationVersion :: int
  hd_IntegrationSource :: string
  hd_StateAuthority :: authority
  hd_ScreenFallback :: bool

definition IntegrationVersion :: int where
  "IntegrationVersion = 15"

type_synonym attributes = "(string, string) fmap"

definition attr :: "attributes \<Rightarrow> string \<Rightarrow> string" where
  "attr as k = deref_or '''' (fmlookup as k)"

subsection \<open>The lifecycle a native event stands for\<close>

text \<open>The empty lifecycle and the empty presence mean that the event claims none.\<close>

record lifecycle_defaults =
  ld_Event :: string
  ld_Lifecycle :: native_lifecycle
  ld_Presence :: presence

abbreviation no_lifecycle :: native_lifecycle where
  "no_lifecycle \<equiv> NativeLifecycleOther []"

definition FirstAttribute :: "attributes \<Rightarrow> string list \<Rightarrow> string" where
  "FirstAttribute as keys =
     deref_or '''' (find (\<lambda>v. v \<noteq> '''') (map (\<lambda>k. trim_space (attr as k)) keys))"

text \<open>
  \<open>strings.EqualFold\<close> against a word of ASCII letters: besides the two cases of a letter, the
  long s folds to s and the Kelvin sign to k.
\<close>

fun fold_case :: "string \<Rightarrow> string" where
  "fold_case [] = []"
| "fold_case (a # s) =
     (if a = CHR 0xC5 \<and> has_prefix s [CHR 0xBF] then CHR ''s'' # fold_case (drop 1 s)
      else if a = CHR 0xE2 \<and> has_prefix s [CHR 0x84, CHR 0xAA] then CHR ''k'' # fold_case (drop 2 s)
      else lower_char a # fold_case s)"

definition event_letter :: "char \<Rightarrow> char option" where
  "event_letter c =
     (if CHR ''A'' \<le> c \<and> c \<le> CHR ''Z'' then Some (lower_char c)
      else if (CHR ''a'' \<le> c \<and> c \<le> CHR ''z'') \<or> (CHR ''0'' \<le> c \<and> c \<le> CHR ''9'') then Some c
      else None)"

definition normalizedLifecycleEvent :: "string \<Rightarrow> string" where
  "normalizedLifecycleEvent event =
     (let n = List.map_filter event_letter (trim_space event) in
      if n \<in> set [''sessionstart'', ''sessioncreated'', ''onsessionstart''] then ''start''
      else if n \<in> set [''sessionswitch'', ''sessionbranch'', ''sessiontree''] then ''resume''
      else if n \<in> set [''sessionend'', ''sessionshutdown'', ''sessiondeleted'', ''onsessionfinalize'']
        then ''end''
      else '''')"

definition TranslateLifecycle :: "string \<Rightarrow> string \<Rightarrow> lifecycle_defaults" where
  "TranslateLifecycle event source =
     (let kind = normalizedLifecycleEvent event in
      if kind = ''start'' then
        \<lparr>ld_Event = event,
         ld_Lifecycle =
           (if fold_case source = ''resume'' \<or> fold_case source = ''resumed'' then NativeLifecycleResume
            else NativeLifecycleStart),
         ld_Presence = PresenceLive\<rparr>
      else if kind = ''resume'' then
        \<lparr>ld_Event = event, ld_Lifecycle = NativeLifecycleResume, ld_Presence = PresenceLive\<rparr>
      else if kind = ''end'' then
        \<lparr>ld_Event = event, ld_Lifecycle = NativeLifecycleEnd, ld_Presence = PresenceGone\<rparr>
      else \<lparr>ld_Event = event, ld_Lifecycle = no_lifecycle, ld_Presence = no_presence\<rparr>)"

type_synonym lifecycle_adapter = "string \<Rightarrow> attributes \<Rightarrow> lifecycle_defaults"

definition BaseAdapter_LifecycleDefaults :: lifecycle_adapter where
  "BaseAdapter_LifecycleDefaults event as =
     TranslateLifecycle event (FirstAttribute as [''source'', ''reason''])"

text \<open>The adapters that read a missing event and the source from attributes of their own.\<close>

definition own_lifecycle :: "string \<Rightarrow> string list \<Rightarrow> lifecycle_adapter" where
  "own_lifecycle event_key source_keys event as =
     TranslateLifecycle (if event = '''' then attr as event_key else event)
       (FirstAttribute as source_keys)"

subsection \<open>Adapters\<close>

type_synonym activity_detail_adapter = "string \<Rightarrow> activity \<Rightarrow> attributes \<Rightarrow> activity_detail option"

type_synonym resume_adapter = "string \<Rightarrow> string \<Rightarrow> string list"

record adapter =
  ad_Definition :: harness_definition
  ad_ScreenManifest :: bool
  ad_ProcessFilter :: "(proc_info \<Rightarrow> bool) option"
  ad_RetainNativeActivity :: bool
  ad_DetailReporters :: "string list"
  ad_Lifecycle :: lifecycle_adapter
  ad_ActivityDetail :: "(activity_detail_adapter \<times> detail_capabilities) option"
  ad_Resume :: "resume_adapter option"

text \<open>An adapter with nothing but its definition and what \<open>BaseAdapter\<close> provides.\<close>

definition base_adapter :: "harness_definition \<Rightarrow> adapter" where
  "base_adapter d =
     \<lparr>ad_Definition = d, ad_ScreenManifest = False, ad_ProcessFilter = None,
      ad_RetainNativeActivity = False, ad_DetailReporters = [],
      ad_Lifecycle = BaseAdapter_LifecycleDefaults, ad_ActivityDetail = None, ad_Resume = None\<rparr>"

definition no_details :: detail_capabilities where
  "no_details = \<lparr>dc_Native = no_support, dc_Screen = no_support\<rparr>"

definition supports :: "bool \<Rightarrow> bool \<Rightarrow> bool \<Rightarrow> detail_support" where
  "supports p q u = \<lparr>ds_Permission = p, ds_Question = q, ds_UsageLimit = u\<rparr>"

text \<open>The command that resumes a session by its identifier, after fixed words.\<close>

definition resume_by_id :: "string list \<Rightarrow> resume_adapter" where
  "resume_by_id ws session path = (if session = '''' then [] else ws @ [session])"

definition resume_by_path_or_id :: "string list \<Rightarrow> resume_adapter" where
  "resume_by_path_or_id ws session path =
     (if path \<noteq> '''' then ws @ [path] else if session \<noteq> '''' then ws @ [session] else [])"

definition ResumeFlag :: string where
  "ResumeFlag = ''--resume''"

subsection \<open>What an event is read as\<close>

lemma TranslateLifecycle_event [simp]: "ld_Event (TranslateLifecycle e s) = e"
  by (simp add: TranslateLifecycle_def Let_def)

text \<open>An event that claims a lifecycle claims a presence with it, and both are known values.\<close>

lemma TranslateLifecycle_range:
  "(ld_Lifecycle (TranslateLifecycle e s), ld_Presence (TranslateLifecycle e s)) \<in>
     {(no_lifecycle, no_presence), (NativeLifecycleStart, PresenceLive),
      (NativeLifecycleResume, PresenceLive), (NativeLifecycleEnd, PresenceGone)}"
  by (simp add: TranslateLifecycle_def Let_def)

lemma TranslateLifecycle_end_iff:
  "ld_Lifecycle (TranslateLifecycle e s) = NativeLifecycleEnd \<longleftrightarrow> normalizedLifecycleEvent e = ''end''"
  by (simp add: TranslateLifecycle_def Let_def)

lemma own_lifecycle_event:
  "ld_Event (own_lifecycle k ks e as) = (if e = '''' then attr as k else e)"
  by (simp add: own_lifecycle_def)

end
