(* ===== verification/Aht_Adapters.thy ===== *)
theory Aht_Adapters
  imports Aht_Harness
begin

section \<open>The adapters of the supported agents: \<open>internal/harness/*\<close>\<close>

text \<open>
  One definition per agent, in the order of the catalog, and the interfaces that tell the state of
  an agent from its native events. The embedded screen manifest of an adapter is represented by
  its presence.
\<close>

subsection \<open>Definitions\<close>

definition claude_definition :: harness_definition where
  "claude_definition =
     \<lparr>hd_ExclusiveProcess = True, hd_CatalogCreates = True, hd_ID = ''claude'',
      hd_Aliases = [''claude-code'', ''claude_code''],
      hd_ProcessNames = [''claude'', ''claude-code''],
      hd_Env =
        \<lparr>ek_SessionID = [''CLAUDE_SESSION_ID''],
          ek_SessionPath = [''CLAUDE_SESSION_PATH''],
         ek_ProjectRoot = [], ek_PID = [''CLAUDE_PID''],
         ek_Event = []\<rparr>,
      hd_Capabilities =
        \<lparr>cap_SessionStart = True, cap_SessionEnd = True, cap_RunningIdle = True,
         cap_WaitingPermission = True, cap_ProcessIdentity = False,
         cap_NativeCatalog = True, cap_TTYTmuxContext = False\<rparr>,
      hd_IntegrationVersion = 15, hd_IntegrationSource = ''claude-hook'',
      hd_StateAuthority = AuthorityHook, hd_ScreenFallback = True\<rparr>"

definition codex_definition :: harness_definition where
  "codex_definition =
     \<lparr>hd_ExclusiveProcess = True, hd_CatalogCreates = False, hd_ID = ''codex'',
      hd_Aliases = [],
      hd_ProcessNames = [''codex''],
      hd_Env =
        \<lparr>ek_SessionID = [''CODEX_SESSION_ID''], ek_SessionPath = [''CODEX_SESSION_PATH''],
         ek_ProjectRoot = [], ek_PID = [''CODEX_PID''],
         ek_Event = []\<rparr>,
      hd_Capabilities =
        \<lparr>cap_SessionStart = True, cap_SessionEnd = True, cap_RunningIdle = True,
         cap_WaitingPermission = True, cap_ProcessIdentity = False,
         cap_NativeCatalog = False, cap_TTYTmuxContext = False\<rparr>,
      hd_IntegrationVersion = 15, hd_IntegrationSource = ''codex-hook'',
      hd_StateAuthority = AuthorityHook, hd_ScreenFallback = True\<rparr>"

definition cursor_definition :: harness_definition where
  "cursor_definition =
     \<lparr>hd_ExclusiveProcess = True, hd_CatalogCreates = False, hd_ID = ''cursor'',
      hd_Aliases = [''cursor-agent'', ''cursor_agent'', ''cursor-cli'', ''cursor_cli''],
      hd_ProcessNames = [''cursor'', ''cursor-agent'', ''cursor-cli''],
      hd_Env =
        \<lparr>ek_SessionID = [], ek_SessionPath = [''CURSOR_TRANSCRIPT_PATH''],
         ek_ProjectRoot = [''CURSOR_PROJECT_DIR'', ''CLAUDE_PROJECT_DIR''], ek_PID = [],
         ek_Event = []\<rparr>,
      hd_Capabilities =
        \<lparr>cap_SessionStart = True, cap_SessionEnd = True, cap_RunningIdle = True,
         cap_WaitingPermission = False, cap_ProcessIdentity = False,
         cap_NativeCatalog = False, cap_TTYTmuxContext = False\<rparr>,
      hd_IntegrationVersion = 15, hd_IntegrationSource = ''cursor-hook'',
      hd_StateAuthority = AuthorityHook, hd_ScreenFallback = False\<rparr>"

definition copilot_definition :: harness_definition where
  "copilot_definition =
     \<lparr>hd_ExclusiveProcess = True, hd_CatalogCreates = False, hd_ID = ''copilot'',
      hd_Aliases = [''github-copilot'', ''github_copilot'', ''copilot-cli'', ''copilot_cli'',
        ''github-copilot-cli'', ''github_copilot_cli''],
      hd_ProcessNames = [''copilot''],
      hd_Env =
        \<lparr>ek_SessionID = [], ek_SessionPath = [],
         ek_ProjectRoot = [], ek_PID = [],
         ek_Event = []\<rparr>,
      hd_Capabilities =
        \<lparr>cap_SessionStart = True, cap_SessionEnd = True, cap_RunningIdle = True,
         cap_WaitingPermission = True, cap_ProcessIdentity = False,
         cap_NativeCatalog = False, cap_TTYTmuxContext = False\<rparr>,
      hd_IntegrationVersion = 15, hd_IntegrationSource = ''copilot-hook'',
      hd_StateAuthority = AuthorityHook, hd_ScreenFallback = False\<rparr>"

definition cline_definition :: harness_definition where
  "cline_definition =
     \<lparr>hd_ExclusiveProcess = True, hd_CatalogCreates = False, hd_ID = ''cline'',
      hd_Aliases = [],
      hd_ProcessNames = [''cline''],
      hd_Env =
        \<lparr>ek_SessionID = [], ek_SessionPath = [],
         ek_ProjectRoot = [], ek_PID = [],
         ek_Event = []\<rparr>,
      hd_Capabilities =
        \<lparr>cap_SessionStart = False, cap_SessionEnd = False, cap_RunningIdle = True,
         cap_WaitingPermission = False, cap_ProcessIdentity = False,
         cap_NativeCatalog = False, cap_TTYTmuxContext = False\<rparr>,
      hd_IntegrationVersion = 11, hd_IntegrationSource = ''cline-plugin'',
      hd_StateAuthority = AuthorityHook, hd_ScreenFallback = False\<rparr>"

definition kimi_definition :: harness_definition where
  "kimi_definition =
     \<lparr>hd_ExclusiveProcess = False, hd_CatalogCreates = False, hd_ID = ''kimi-code'',
      hd_Aliases = [''kimi'', ''kimi_code'', ''kimicode''],
      hd_ProcessNames = [''kimi'', ''kimi-code''],
      hd_Env =
        \<lparr>ek_SessionID = [], ek_SessionPath = [],
         ek_ProjectRoot = [], ek_PID = [],
         ek_Event = []\<rparr>,
      hd_Capabilities =
        \<lparr>cap_SessionStart = True, cap_SessionEnd = True, cap_RunningIdle = True,
         cap_WaitingPermission = True, cap_ProcessIdentity = False,
         cap_NativeCatalog = True, cap_TTYTmuxContext = False\<rparr>,
      hd_IntegrationVersion = 15, hd_IntegrationSource = ''kimi-code-hook'',
      hd_StateAuthority = AuthorityHook, hd_ScreenFallback = False\<rparr>"

definition grok_definition :: harness_definition where
  "grok_definition =
     \<lparr>hd_ExclusiveProcess = True, hd_CatalogCreates = False, hd_ID = ''grok'',
      hd_Aliases = [''grok-build'', ''grok_build''],
      hd_ProcessNames = [''grok'', ''grok-build''],
      hd_Env =
        \<lparr>ek_SessionID = [''GROK_SESSION_ID''], ek_SessionPath = [],
         ek_ProjectRoot = [''GROK_WORKSPACE_ROOT''], ek_PID = [],
         ek_Event = [''GROK_HOOK_EVENT'']\<rparr>,
      hd_Capabilities =
        \<lparr>cap_SessionStart = True, cap_SessionEnd = True, cap_RunningIdle = True,
         cap_WaitingPermission = False, cap_ProcessIdentity = False,
         cap_NativeCatalog = False, cap_TTYTmuxContext = False\<rparr>,
      hd_IntegrationVersion = 15, hd_IntegrationSource = ''grok-hook'',
      hd_StateAuthority = AuthorityHook, hd_ScreenFallback = False\<rparr>"

definition goose_definition :: harness_definition where
  "goose_definition =
     \<lparr>hd_ExclusiveProcess = True, hd_CatalogCreates = False, hd_ID = ''goose'',
      hd_Aliases = [],
      hd_ProcessNames = [''goose''],
      hd_Env =
        \<lparr>ek_SessionID = [], ek_SessionPath = [],
         ek_ProjectRoot = [], ek_PID = [],
         ek_Event = []\<rparr>,
      hd_Capabilities =
        \<lparr>cap_SessionStart = True, cap_SessionEnd = True, cap_RunningIdle = True,
         cap_WaitingPermission = False, cap_ProcessIdentity = False,
         cap_NativeCatalog = True, cap_TTYTmuxContext = False\<rparr>,
      hd_IntegrationVersion = 15, hd_IntegrationSource = ''goose-hook'',
      hd_StateAuthority = AuthorityHook, hd_ScreenFallback = False\<rparr>"

definition pi_definition :: harness_definition where
  "pi_definition =
     \<lparr>hd_ExclusiveProcess = True, hd_CatalogCreates = False, hd_ID = ''pi'',
      hd_Aliases = [],
      hd_ProcessNames = [''pi''],
      hd_Env =
        \<lparr>ek_SessionID = [''PI_SESSION_ID''], ek_SessionPath = [''PI_SESSION_PATH''],
         ek_ProjectRoot = [], ek_PID = [''PI_PID''],
         ek_Event = []\<rparr>,
      hd_Capabilities =
        \<lparr>cap_SessionStart = True, cap_SessionEnd = True, cap_RunningIdle = True,
         cap_WaitingPermission = True, cap_ProcessIdentity = False,
         cap_NativeCatalog = True, cap_TTYTmuxContext = False\<rparr>,
      hd_IntegrationVersion = 19, hd_IntegrationSource = ''pi-extension'',
      hd_StateAuthority = AuthorityHook, hd_ScreenFallback = True\<rparr>"

definition omp_definition :: harness_definition where
  "omp_definition =
     \<lparr>hd_ExclusiveProcess = True, hd_CatalogCreates = False, hd_ID = ''omp'',
      hd_Aliases = [''ohmypi'', ''oh-my-pi'', ''oh_my_pi''],
      hd_ProcessNames = [''omp'', ''ohmypi'', ''oh-my-pi''],
      hd_Env =
        \<lparr>ek_SessionID = [], ek_SessionPath = [],
         ek_ProjectRoot = [], ek_PID = [],
         ek_Event = []\<rparr>,
      hd_Capabilities =
        \<lparr>cap_SessionStart = True, cap_SessionEnd = True, cap_RunningIdle = True,
         cap_WaitingPermission = True, cap_ProcessIdentity = False,
         cap_NativeCatalog = True, cap_TTYTmuxContext = False\<rparr>,
      hd_IntegrationVersion = 19, hd_IntegrationSource = ''omp-extension'',
      hd_StateAuthority = AuthorityHook, hd_ScreenFallback = True\<rparr>"

definition opencode_definition :: harness_definition where
  "opencode_definition =
     \<lparr>hd_ExclusiveProcess = True, hd_CatalogCreates = False, hd_ID = ''opencode'',
      hd_Aliases = [''open-code'', ''open_code''],
      hd_ProcessNames = [''opencode'', ''open-code''],
      hd_Env =
        \<lparr>ek_SessionID = [''OPENCODE_SESSION_ID''],
          ek_SessionPath = [''OPENCODE_SESSION_PATH''],
         ek_ProjectRoot = [], ek_PID = [''OPENCODE_PID''],
         ek_Event = []\<rparr>,
      hd_Capabilities =
        \<lparr>cap_SessionStart = True, cap_SessionEnd = True, cap_RunningIdle = True,
         cap_WaitingPermission = True, cap_ProcessIdentity = False,
         cap_NativeCatalog = True, cap_TTYTmuxContext = False\<rparr>,
      hd_IntegrationVersion = 14, hd_IntegrationSource = ''opencode-plugin'',
      hd_StateAuthority = AuthorityHook, hd_ScreenFallback = True\<rparr>"

definition agy_definition :: harness_definition where
  "agy_definition =
     \<lparr>hd_ExclusiveProcess = True, hd_CatalogCreates = False, hd_ID = ''agy'',
      hd_Aliases = [''antigravity'', ''antigravity-cli'', ''antigravity_cli'',
        ''google-antigravity'', ''google_antigravity''],
      hd_ProcessNames = [''agy'', ''antigravity-cli''],
      hd_Env =
        \<lparr>ek_SessionID = [], ek_SessionPath = [],
         ek_ProjectRoot = [], ek_PID = [],
         ek_Event = []\<rparr>,
      hd_Capabilities =
        \<lparr>cap_SessionStart = False, cap_SessionEnd = False, cap_RunningIdle = True,
         cap_WaitingPermission = True, cap_ProcessIdentity = False,
         cap_NativeCatalog = False, cap_TTYTmuxContext = False\<rparr>,
      hd_IntegrationVersion = 10, hd_IntegrationSource = ''agy-hook'',
      hd_StateAuthority = AuthorityHook, hd_ScreenFallback = False\<rparr>"

definition kilo_definition :: harness_definition where
  "kilo_definition =
     \<lparr>hd_ExclusiveProcess = True, hd_CatalogCreates = False, hd_ID = ''kilo'',
      hd_Aliases = [''kilocode'', ''kilo-code'', ''kilo_code''],
      hd_ProcessNames = [''kilo'', ''kilocode'', ''kilo-code'', ''kilo_code''],
      hd_Env =
        \<lparr>ek_SessionID = [''KILO_SESSION_ID''], ek_SessionPath = [''KILO_SESSION_PATH''],
         ek_ProjectRoot = [''KILO_PROJECT_ROOT''], ek_PID = [''KILO_PID''],
         ek_Event = [''KILO_EVENT'']\<rparr>,
      hd_Capabilities =
        \<lparr>cap_SessionStart = True, cap_SessionEnd = True, cap_RunningIdle = True,
         cap_WaitingPermission = True, cap_ProcessIdentity = False,
         cap_NativeCatalog = True, cap_TTYTmuxContext = False\<rparr>,
      hd_IntegrationVersion = 12, hd_IntegrationSource = ''kilo-plugin'',
      hd_StateAuthority = AuthorityHook, hd_ScreenFallback = False\<rparr>"

definition droid_definition :: harness_definition where
  "droid_definition =
     \<lparr>hd_ExclusiveProcess = True, hd_CatalogCreates = False, hd_ID = ''droid'',
      hd_Aliases = [''factory'', ''factory-droid'', ''factory_droid'', ''factory-cli'',
        ''factory_cli''],
      hd_ProcessNames = [''droid''],
      hd_Env =
        \<lparr>ek_SessionID = [], ek_SessionPath = [],
         ek_ProjectRoot = [''FACTORY_PROJECT_DIR''], ek_PID = [],
         ek_Event = []\<rparr>,
      hd_Capabilities =
        \<lparr>cap_SessionStart = True, cap_SessionEnd = True, cap_RunningIdle = True,
         cap_WaitingPermission = False, cap_ProcessIdentity = False,
         cap_NativeCatalog = False, cap_TTYTmuxContext = False\<rparr>,
      hd_IntegrationVersion = 15, hd_IntegrationSource = ''droid-hook'',
      hd_StateAuthority = AuthorityHook, hd_ScreenFallback = False\<rparr>"

definition openclaw_definition :: harness_definition where
  "openclaw_definition =
     \<lparr>hd_ExclusiveProcess = False, hd_CatalogCreates = False, hd_ID = ''openclaw'',
      hd_Aliases = [],
      hd_ProcessNames = [''openclaw'', ''openclaw-gateway''],
      hd_Env =
        \<lparr>ek_SessionID = [], ek_SessionPath = [],
         ek_ProjectRoot = [], ek_PID = [],
         ek_Event = []\<rparr>,
      hd_Capabilities =
        \<lparr>cap_SessionStart = True, cap_SessionEnd = True, cap_RunningIdle = True,
         cap_WaitingPermission = False, cap_ProcessIdentity = False,
         cap_NativeCatalog = False, cap_TTYTmuxContext = False\<rparr>,
      hd_IntegrationVersion = 10, hd_IntegrationSource = ''openclaw-plugin'',
      hd_StateAuthority = AuthorityHook, hd_ScreenFallback = False\<rparr>"

definition hermes_definition :: harness_definition where
  "hermes_definition =
     \<lparr>hd_ExclusiveProcess = True, hd_CatalogCreates = False, hd_ID = ''hermes'',
      hd_Aliases = [''hermes-agent'', ''hermes_agent''],
      hd_ProcessNames = [''hermes'', ''hermes-agent''],
      hd_Env =
        \<lparr>ek_SessionID = [], ek_SessionPath = [],
         ek_ProjectRoot = [], ek_PID = [],
         ek_Event = []\<rparr>,
      hd_Capabilities =
        \<lparr>cap_SessionStart = True, cap_SessionEnd = True, cap_RunningIdle = True,
         cap_WaitingPermission = True, cap_ProcessIdentity = False,
         cap_NativeCatalog = False, cap_TTYTmuxContext = False\<rparr>,
      hd_IntegrationVersion = 9, hd_IntegrationSource = ''hermes-plugin'',
      hd_StateAuthority = AuthorityHook, hd_ScreenFallback = False\<rparr>"

definition amp_definition :: harness_definition where
  "amp_definition =
     \<lparr>hd_ExclusiveProcess = True, hd_CatalogCreates = False, hd_ID = ''amp'',
      hd_Aliases = [''ampcode'', ''amp-code'', ''amp_code''],
      hd_ProcessNames = [''amp''],
      hd_Env =
        \<lparr>ek_SessionID = [''AMP_THREAD_ID'', ''AMP_SESSION_ID''], ek_SessionPath = [],
         ek_ProjectRoot = [], ek_PID = [],
         ek_Event = []\<rparr>,
      hd_Capabilities =
        \<lparr>cap_SessionStart = True, cap_SessionEnd = True, cap_RunningIdle = True,
         cap_WaitingPermission = True, cap_ProcessIdentity = False,
         cap_NativeCatalog = True, cap_TTYTmuxContext = False\<rparr>,
      hd_IntegrationVersion = 5, hd_IntegrationSource = ''amp-plugin'',
      hd_StateAuthority = AuthorityHook, hd_ScreenFallback = False\<rparr>"

definition crush_definition :: harness_definition where
  "crush_definition =
     \<lparr>hd_ExclusiveProcess = True, hd_CatalogCreates = False, hd_ID = ''crush'',
      hd_Aliases = [],
      hd_ProcessNames = [''crush''],
      hd_Env =
        \<lparr>ek_SessionID = [''CRUSH_SESSION_ID''], ek_SessionPath = [],
         ek_ProjectRoot = [''CRUSH_PROJECT_DIR''], ek_PID = [],
         ek_Event = [''CRUSH_EVENT'']\<rparr>,
      hd_Capabilities =
        \<lparr>cap_SessionStart = False, cap_SessionEnd = False, cap_RunningIdle = False,
         cap_WaitingPermission = False, cap_ProcessIdentity = False,
         cap_NativeCatalog = True, cap_TTYTmuxContext = False\<rparr>,
      hd_IntegrationVersion = 15, hd_IntegrationSource = ''crush-hook'',
      hd_StateAuthority = AuthorityScreen, hd_ScreenFallback = False\<rparr>"

definition qwen_definition :: harness_definition where
  "qwen_definition =
     \<lparr>hd_ExclusiveProcess = True, hd_CatalogCreates = False, hd_ID = ''qwen'',
      hd_Aliases = [''qwen-code'', ''qwen_code'', ''qwencode''],
      hd_ProcessNames = [''qwen''],
      hd_Env =
        \<lparr>ek_SessionID = [], ek_SessionPath = [],
         ek_ProjectRoot = [''QWEN_PROJECT_DIR''], ek_PID = [],
         ek_Event = []\<rparr>,
      hd_Capabilities =
        \<lparr>cap_SessionStart = True, cap_SessionEnd = True, cap_RunningIdle = True,
         cap_WaitingPermission = True, cap_ProcessIdentity = False,
         cap_NativeCatalog = False, cap_TTYTmuxContext = False\<rparr>,
      hd_IntegrationVersion = 15, hd_IntegrationSource = ''qwen-hook'',
      hd_StateAuthority = AuthorityHook, hd_ScreenFallback = False\<rparr>"

definition prime_definition :: harness_definition where
  "prime_definition =
     \<lparr>hd_ExclusiveProcess = False, hd_CatalogCreates = False, hd_ID = ''prime-agent'',
      hd_Aliases = [''prime'', ''primeagent'', ''prime_agent''],
      hd_ProcessNames = [''prime-agent''],
      hd_Env =
        \<lparr>ek_SessionID = [], ek_SessionPath = [],
         ek_ProjectRoot = [''PRIME_AGENT_INTERNAL_DAEMON_WORKER_CWD''], ek_PID = [],
         ek_Event = []\<rparr>,
      hd_Capabilities =
        \<lparr>cap_SessionStart = False, cap_SessionEnd = False, cap_RunningIdle = True,
         cap_WaitingPermission = False, cap_ProcessIdentity = True,
         cap_NativeCatalog = True, cap_TTYTmuxContext = False\<rparr>,
      hd_IntegrationVersion = 1, hd_IntegrationSource = ''prime-agent-catalog'',
      hd_StateAuthority = AuthorityHook, hd_ScreenFallback = False\<rparr>"

subsection \<open>How native events are read\<close>

definition claude_LifecycleDefaults :: lifecycle_adapter where
  "claude_LifecycleDefaults =
     own_lifecycle ''claude_hook_event'' [''claude_start_source'', ''source'', ''reason'']"

definition codex_LifecycleDefaults :: lifecycle_adapter where
  "codex_LifecycleDefaults =
     own_lifecycle ''codex_hook_event'' [''codex_start_source'', ''source'', ''reason'']"

definition copilot_LifecycleDefaults :: lifecycle_adapter where
  "copilot_LifecycleDefaults =
     own_lifecycle ''copilot_hook_event'' [''copilot_start_source'', ''source'', ''reason'']"

definition cursor_LifecycleDefaults :: lifecycle_adapter where
  "cursor_LifecycleDefaults =
     own_lifecycle ''cursor_hook_event'' [''cursor_start_source'', ''source'', ''reason'']"

definition droid_LifecycleDefaults :: lifecycle_adapter where
  "droid_LifecycleDefaults =
     own_lifecycle ''droid_hook_event'' [''droid_source'', ''source'', ''reason'']"

definition goose_LifecycleDefaults :: lifecycle_adapter where
  "goose_LifecycleDefaults =
     own_lifecycle ''goose_event'' [''goose_start_source'', ''source'', ''reason'']"

definition grok_LifecycleDefaults :: lifecycle_adapter where
  "grok_LifecycleDefaults =
     own_lifecycle ''grok_hook_event'' [''grok_start_source'', ''source'', ''reason'']"

definition kimi_LifecycleDefaults :: lifecycle_adapter where
  "kimi_LifecycleDefaults =
     own_lifecycle ''kimi_code_hook_event_name'' [''kimi_code_source'', ''source'', ''reason'']"

definition omp_LifecycleDefaults :: lifecycle_adapter where
  "omp_LifecycleDefaults =
     own_lifecycle ''omp_event'' [''omp_reason'', ''omp_approval_reason'', ''source'', ''reason'']"

definition pi_LifecycleDefaults :: lifecycle_adapter where
  "pi_LifecycleDefaults = own_lifecycle ''pi_event'' [''pi_reason'', ''source'', ''reason'']"

definition qwen_LifecycleDefaults :: lifecycle_adapter where
  "qwen_LifecycleDefaults =
     own_lifecycle ''qwen_hook_event'' [''qwen_source'', ''source'', ''qwen_reason'', ''reason'']"

subsection \<open>The reason an agent waits or has failed\<close>

definition agy_ActivityDetail :: activity_detail_adapter where
  "agy_ActivityDetail event act as =
     (if act = ActivityWaiting \<and> event = ''PreToolUse'' then
        (if attr as ''agy_tool_name'' = ''ask_permission'' then Some ActivityDetailPermission
         else if attr as ''agy_tool_name'' = ''ask_question'' then Some ActivityDetailQuestion
         else None)
      else None)"

definition amp_ActivityDetail :: activity_detail_adapter where
  "amp_ActivityDetail event act as =
     (if act = ActivityWaiting \<and> event = ''thread.state''
        \<and> attr as ''amp_thread_state'' = ''awaiting-approval''
      then Some ActivityDetailPermission else None)"

definition hookActivityDetail :: "string \<Rightarrow> activity \<Rightarrow> string \<Rightarrow> activity_detail option" where
  "hookActivityDetail event act notification =
     (if act \<noteq> ActivityWaiting then None
      else if event = ''PermissionRequest'' then Some ActivityDetailPermission
      else if event = ''Elicitation'' then Some ActivityDetailQuestion
      else if event = ''Notification'' then
        (if notification = ''permission_prompt'' then Some ActivityDetailPermission
         else if notification \<in> set [''elicitation_dialog'', ''elicitation_url_dialog'']
           then Some ActivityDetailQuestion
         else None)
      else None)"

definition claude_ActivityDetail :: activity_detail_adapter where
  "claude_ActivityDetail event act as =
     (if act = ActivityFailed \<and> event = ''StopFailure''
        \<and> attr as ''claude_error_type'' \<in> set [''rate_limit'', ''billing_error'']
      then Some ActivityDetailUsageLimit
      else hookActivityDetail event act (attr as ''claude_notification_type''))"

definition codex_ActivityDetail :: activity_detail_adapter where
  "codex_ActivityDetail event act as =
     (if act = ActivityWaiting \<and> event = ''PermissionRequest''
      then Some ActivityDetailPermission else None)"

definition copilot_ActivityDetail :: activity_detail_adapter where
  "copilot_ActivityDetail event act as =
     (if act \<noteq> ActivityWaiting then None
      else if event = ''permissionRequest''
           \<or> (event = ''notification'' \<and> attr as ''copilot_notification_type'' = ''permission_prompt'')
      then Some ActivityDetailPermission
      else None)"

definition crush_ActivityDetail :: activity_detail_adapter where
  "crush_ActivityDetail event act as = None"

definition droid_ActivityDetail :: activity_detail_adapter where
  "droid_ActivityDetail event act as =
     (if act = ActivityWaiting \<and> event = ''Notification''
        \<and> attr as ''droid_notification_type'' = ''permission_prompt''
      then Some ActivityDetailPermission else None)"

definition hermes_ActivityDetail :: activity_detail_adapter where
  "hermes_ActivityDetail event act as =
     (if act = ActivityWaiting \<and> event = ''pre_approval_request''
      then Some ActivityDetailPermission else None)"

definition kilo_ActivityDetail :: activity_detail_adapter where
  "kilo_ActivityDetail event act as =
     (if act = ActivityWaiting \<and> event = ''permission.asked''
      then Some ActivityDetailPermission else None)"

definition kimi_ActivityDetail :: activity_detail_adapter where
  "kimi_ActivityDetail event act as =
     (if act = ActivityWaiting \<and> event = ''PermissionRequest''
      then Some ActivityDetailPermission else None)"

definition omp_ActivityDetail :: activity_detail_adapter where
  "omp_ActivityDetail event act as = None"

definition opencode_ActivityDetail :: activity_detail_adapter where
  "opencode_ActivityDetail event act as =
     (if act = ActivityWaiting \<and> event = ''question.asked'' then Some ActivityDetailQuestion
      else if act = ActivityWaiting \<and> event = ''permission.asked'' then Some ActivityDetailPermission
      else None)"

definition pi_ActivityDetail :: activity_detail_adapter where
  "pi_ActivityDetail event act as = None"

definition prime_ActivityDetail :: activity_detail_adapter where
  "prime_ActivityDetail event act as =
     (if act = ActivityFailed \<and> attr as ''prime_quota_parked'' = ''true''
      then Some ActivityDetailUsageLimit else None)"

definition qwen_ActivityDetail :: activity_detail_adapter where
  "qwen_ActivityDetail event act as =
     (if act = ActivityFailed \<and> event = ''StopFailure''
        \<and> attr as ''qwen_error_type'' \<in> set [''rate_limit'', ''billing_error'']
      then Some ActivityDetailUsageLimit
      else if act = ActivityWaiting \<and> event = ''Notification''
        \<and> attr as ''qwen_notification_type'' = ''permission_prompt''
      then Some ActivityDetailPermission
      else None)"

subsection \<open>The details an integration and a screen can report\<close>

definition agy_DetailCapabilities :: detail_capabilities where
  "agy_DetailCapabilities = \<lparr>dc_Native = supports True True False, dc_Screen = no_support\<rparr>"

definition amp_DetailCapabilities :: detail_capabilities where
  "amp_DetailCapabilities = \<lparr>dc_Native = supports True False False, dc_Screen = no_support\<rparr>"

definition claude_DetailCapabilities :: detail_capabilities where
  "claude_DetailCapabilities = \<lparr>dc_Native = supports True True True, dc_Screen = supports True True True\<rparr>"

definition codex_DetailCapabilities :: detail_capabilities where
  "codex_DetailCapabilities = \<lparr>dc_Native = supports True False False, dc_Screen = supports True False True\<rparr>"

definition copilot_DetailCapabilities :: detail_capabilities where
  "copilot_DetailCapabilities = \<lparr>dc_Native = supports True False False, dc_Screen = no_support\<rparr>"

definition crush_DetailCapabilities :: detail_capabilities where
  "crush_DetailCapabilities = \<lparr>dc_Native = no_support, dc_Screen = supports True True False\<rparr>"

definition droid_DetailCapabilities :: detail_capabilities where
  "droid_DetailCapabilities = \<lparr>dc_Native = supports True False False, dc_Screen = no_support\<rparr>"

definition hermes_DetailCapabilities :: detail_capabilities where
  "hermes_DetailCapabilities = \<lparr>dc_Native = supports True False False, dc_Screen = no_support\<rparr>"

definition kilo_DetailCapabilities :: detail_capabilities where
  "kilo_DetailCapabilities = \<lparr>dc_Native = supports True False False, dc_Screen = no_support\<rparr>"

definition kimi_DetailCapabilities :: detail_capabilities where
  "kimi_DetailCapabilities = \<lparr>dc_Native = supports True False False, dc_Screen = no_support\<rparr>"

definition omp_DetailCapabilities :: detail_capabilities where
  "omp_DetailCapabilities = \<lparr>dc_Native = supports True True False, dc_Screen = supports True True True\<rparr>"

definition opencode_DetailCapabilities :: detail_capabilities where
  "opencode_DetailCapabilities = \<lparr>dc_Native = supports True True False, dc_Screen = supports True True False\<rparr>"

definition pi_DetailCapabilities :: detail_capabilities where
  "pi_DetailCapabilities = \<lparr>dc_Native = no_support, dc_Screen = supports True True True\<rparr>"

definition prime_DetailCapabilities :: detail_capabilities where
  "prime_DetailCapabilities = \<lparr>dc_Native = supports False False True, dc_Screen = no_support\<rparr>"

definition qwen_DetailCapabilities :: detail_capabilities where
  "qwen_DetailCapabilities = \<lparr>dc_Native = supports True False True, dc_Screen = no_support\<rparr>"

subsection \<open>Resuming a session\<close>

definition claude_ResumeCommand :: resume_adapter where
  "claude_ResumeCommand = resume_by_id [''claude'', ResumeFlag]"

definition codex_ResumeCommand :: resume_adapter where
  "codex_ResumeCommand = resume_by_id [''codex'', ''resume'']"

definition cursor_ResumeCommand :: resume_adapter where
  "cursor_ResumeCommand = resume_by_id [''cursor-agent'', ResumeFlag]"

definition copilot_ResumeCommand :: resume_adapter where
  "copilot_ResumeCommand = resume_by_id [''copilot'', ''--resume'']"

definition cline_ResumeCommand :: resume_adapter where
  "cline_ResumeCommand = resume_by_id [''cline'', ''--id'']"

definition kimi_ResumeCommand :: resume_adapter where
  "kimi_ResumeCommand = resume_by_id [''kimi'', ''--session'']"

definition grok_ResumeCommand :: resume_adapter where
  "grok_ResumeCommand = resume_by_id [''grok'', ResumeFlag]"

definition goose_ResumeCommand :: resume_adapter where
  "goose_ResumeCommand = resume_by_id [''goose'', ''session'', ResumeFlag, ''--session-id'']"

definition pi_ResumeCommand :: resume_adapter where
  "pi_ResumeCommand = resume_by_path_or_id [''pi'', ''--session'']"

definition omp_ResumeCommand :: resume_adapter where
  "omp_ResumeCommand = resume_by_path_or_id [''omp'', ''--session'']"

definition opencode_ResumeCommand :: resume_adapter where
  "opencode_ResumeCommand = resume_by_id [''opencode'', ''--session'']"

definition agy_ResumeCommand :: resume_adapter where
  "agy_ResumeCommand = resume_by_id [''agy'', ''--conversation'']"

definition kilo_ResumeCommand :: resume_adapter where
  "kilo_ResumeCommand = resume_by_id [''kilo'', ''--session'']"

definition droid_ResumeCommand :: resume_adapter where
  "droid_ResumeCommand = resume_by_id [''droid'', ResumeFlag]"

definition openclaw_ResumeCommand :: resume_adapter where
  "openclaw_ResumeCommand session path = (if trim_space session = '''' then [] else [''openclaw'', ''tui'', ''--session''] @ [session])"

definition hermes_ResumeCommand :: resume_adapter where
  "hermes_ResumeCommand session path = (if trim_space session = '''' then [] else [''hermes'', ResumeFlag] @ [session])"

definition amp_ResumeCommand :: resume_adapter where
  "amp_ResumeCommand = resume_by_id [''amp'', ''threads'', ''continue'']"

definition crush_ResumeCommand :: resume_adapter where
  "crush_ResumeCommand = resume_by_id [''crush'', ''--session'']"

definition qwen_ResumeCommand :: resume_adapter where
  "qwen_ResumeCommand = resume_by_id [''qwen'', ResumeFlag]"

definition prime_ResumeCommand :: resume_adapter where
  "prime_ResumeCommand = resume_by_path_or_id [''prime-agent'', ResumeFlag]"

subsection \<open>Processes that are not agents\<close>

definition cursor_ObservableProcess :: "proc_info \<Rightarrow> bool" where
  "cursor_ObservableProcess p =
     (\<not> (pr_TTY p = '''' \<and> pr_MultiplexerPane p = '''' \<and> ''agent'' \<notin> set (pr_Args p)))"

definition omp_ObservableProcess :: "proc_info \<Rightarrow> bool" where
  "omp_ObservableProcess p =
     list_all (\<lambda>arg. \<not> has_prefix (path_base arg) ''__omp_worker_'') (pr_Args p)"

definition prime_ObservableProcess :: "proc_info \<Rightarrow> bool" where
  "prime_ObservableProcess p =
     (path_base (pr_Executable p) = ''prime-agent'' \<and> length (pr_Args p) > 1
      \<and> pr_Args p ! 1 = ''worker'')"

subsection \<open>The adapters\<close>

definition claude_adapter :: adapter where
  "claude_adapter =
     (base_adapter claude_definition)
       \<lparr>ad_ScreenManifest := True,
        ad_RetainNativeActivity := True,
        ad_Lifecycle := claude_LifecycleDefaults,
        ad_ActivityDetail := Some (claude_ActivityDetail, claude_DetailCapabilities),
        ad_Resume := Some claude_ResumeCommand\<rparr>"

definition codex_adapter :: adapter where
  "codex_adapter =
     (base_adapter codex_definition)
       \<lparr>ad_ScreenManifest := True,
        ad_RetainNativeActivity := True,
        ad_Lifecycle := codex_LifecycleDefaults,
        ad_ActivityDetail := Some (codex_ActivityDetail, codex_DetailCapabilities),
        ad_Resume := Some codex_ResumeCommand\<rparr>"

definition cursor_adapter :: adapter where
  "cursor_adapter =
     (base_adapter cursor_definition)
       \<lparr>ad_ProcessFilter := Some cursor_ObservableProcess,
        ad_Lifecycle := cursor_LifecycleDefaults,
        ad_Resume := Some cursor_ResumeCommand\<rparr>"

definition copilot_adapter :: adapter where
  "copilot_adapter =
     (base_adapter copilot_definition)
       \<lparr>ad_Lifecycle := copilot_LifecycleDefaults,
        ad_ActivityDetail := Some (copilot_ActivityDetail, copilot_DetailCapabilities),
        ad_Resume := Some copilot_ResumeCommand\<rparr>"

definition cline_adapter :: adapter where
  "cline_adapter =
     (base_adapter cline_definition)
       \<lparr>ad_Resume := Some cline_ResumeCommand\<rparr>"

definition kimi_adapter :: adapter where
  "kimi_adapter =
     (base_adapter kimi_definition)
       \<lparr>ad_Lifecycle := kimi_LifecycleDefaults,
        ad_ActivityDetail := Some (kimi_ActivityDetail, kimi_DetailCapabilities),
        ad_Resume := Some kimi_ResumeCommand\<rparr>"

definition grok_adapter :: adapter where
  "grok_adapter =
     (base_adapter grok_definition)
       \<lparr>ad_Lifecycle := grok_LifecycleDefaults,
        ad_Resume := Some grok_ResumeCommand\<rparr>"

definition goose_adapter :: adapter where
  "goose_adapter =
     (base_adapter goose_definition)
       \<lparr>ad_Lifecycle := goose_LifecycleDefaults,
        ad_Resume := Some goose_ResumeCommand\<rparr>"

definition pi_adapter :: adapter where
  "pi_adapter =
     (base_adapter pi_definition)
       \<lparr>ad_ScreenManifest := True,
        ad_RetainNativeActivity := True,
        ad_Lifecycle := pi_LifecycleDefaults,
        ad_ActivityDetail := Some (pi_ActivityDetail, pi_DetailCapabilities),
        ad_Resume := Some pi_ResumeCommand\<rparr>"

definition omp_adapter :: adapter where
  "omp_adapter =
     (base_adapter omp_definition)
       \<lparr>ad_ScreenManifest := True,
        ad_ProcessFilter := Some omp_ObservableProcess,
        ad_Lifecycle := omp_LifecycleDefaults,
        ad_ActivityDetail := Some (omp_ActivityDetail, omp_DetailCapabilities),
        ad_Resume := Some omp_ResumeCommand\<rparr>"

definition opencode_adapter :: adapter where
  "opencode_adapter =
     (base_adapter opencode_definition)
       \<lparr>ad_ScreenManifest := True,
        ad_ActivityDetail := Some (opencode_ActivityDetail, opencode_DetailCapabilities),
        ad_Resume := Some opencode_ResumeCommand\<rparr>"

definition agy_adapter :: adapter where
  "agy_adapter =
     (base_adapter agy_definition)
       \<lparr>ad_ActivityDetail := Some (agy_ActivityDetail, agy_DetailCapabilities),
        ad_Resume := Some agy_ResumeCommand\<rparr>"

definition kilo_adapter :: adapter where
  "kilo_adapter =
     (base_adapter kilo_definition)
       \<lparr>ad_ActivityDetail := Some (kilo_ActivityDetail, kilo_DetailCapabilities),
        ad_Resume := Some kilo_ResumeCommand\<rparr>"

definition droid_adapter :: adapter where
  "droid_adapter =
     (base_adapter droid_definition)
       \<lparr>ad_Lifecycle := droid_LifecycleDefaults,
        ad_ActivityDetail := Some (droid_ActivityDetail, droid_DetailCapabilities),
        ad_Resume := Some droid_ResumeCommand\<rparr>"

definition openclaw_adapter :: adapter where
  "openclaw_adapter =
     (base_adapter openclaw_definition)
       \<lparr>ad_Resume := Some openclaw_ResumeCommand\<rparr>"

definition hermes_adapter :: adapter where
  "hermes_adapter =
     (base_adapter hermes_definition)
       \<lparr>ad_ActivityDetail := Some (hermes_ActivityDetail, hermes_DetailCapabilities),
        ad_Resume := Some hermes_ResumeCommand\<rparr>"

definition amp_adapter :: adapter where
  "amp_adapter =
     (base_adapter amp_definition)
       \<lparr>ad_ActivityDetail := Some (amp_ActivityDetail, amp_DetailCapabilities),
        ad_Resume := Some amp_ResumeCommand\<rparr>"

definition crush_adapter :: adapter where
  "crush_adapter =
     (base_adapter crush_definition)
       \<lparr>ad_ScreenManifest := True,
        ad_ActivityDetail := Some (crush_ActivityDetail, crush_DetailCapabilities),
        ad_Resume := Some crush_ResumeCommand\<rparr>"

definition qwen_adapter :: adapter where
  "qwen_adapter =
     (base_adapter qwen_definition)
       \<lparr>ad_Lifecycle := qwen_LifecycleDefaults,
        ad_ActivityDetail := Some (qwen_ActivityDetail, qwen_DetailCapabilities),
        ad_Resume := Some qwen_ResumeCommand\<rparr>"

definition prime_adapter :: adapter where
  "prime_adapter =
     (base_adapter prime_definition)
       \<lparr>ad_ProcessFilter := Some prime_ObservableProcess,
        ad_ActivityDetail := Some (prime_ActivityDetail, prime_DetailCapabilities),
        ad_Resume := Some prime_ResumeCommand\<rparr>"

definition adapters :: "adapter list" where
  "adapters =
     [claude_adapter, codex_adapter, cursor_adapter, copilot_adapter, cline_adapter,
      kimi_adapter, grok_adapter, goose_adapter, pi_adapter, omp_adapter,
      opencode_adapter, agy_adapter, kilo_adapter, droid_adapter, openclaw_adapter,
      hermes_adapter, amp_adapter, crush_adapter, qwen_adapter, prime_adapter]"

end
