(* ===== verification/Aht_Catalog.thy ===== *)
theory Aht_Catalog
  imports Aht_Adapters
begin

section \<open>The catalog of harnesses: \<open>internal/harness/catalog\<close>, \<open>pkg/harness\<close>\<close>

text \<open>
  The catalog looks adapters up by identifier, by name and by command, and is the source of the
  rules the reducer is built with. \<open>PrepareObservation\<close> completes the report of a hook from the
  adapter of its harness before the registry sees it.
\<close>

definition Find :: "harness \<Rightarrow> adapter option" where
  "Find h = find (\<lambda>a. hd_ID (ad_Definition a) = h) adapters"

definition SupportsScreen :: "harness \<Rightarrow> bool" where
  "SupportsScreen h = (case Find h of None \<Rightarrow> False | Some a \<Rightarrow> ad_ScreenManifest a)"

definition ProcessFilterFor :: "harness \<Rightarrow> (proc_info \<Rightarrow> bool) option" where
  "ProcessFilterFor h = (case Find h of None \<Rightarrow> None | Some a \<Rightarrow> ad_ProcessFilter a)"

definition IntegrationVersionFor :: "harness \<Rightarrow> int" where
  "IntegrationVersionFor h =
     (case Find h of None \<Rightarrow> IntegrationVersion | Some a \<Rightarrow> hd_IntegrationVersion (ad_Definition a))"

subsection \<open>Names\<close>

definition token_punctuation :: "char set" where
  "token_punctuation =
     {CHR '' '', CHR ''.'', CHR ''-'', CHR ''_'', CHR '':'', CHR ''!''}"

definition normalizeToken :: "string \<Rightarrow> string" where
  "normalizeToken v = filter (\<lambda>c. c \<notin> token_punctuation) (to_lower (trim_space v))"

definition containsNormalizedToken :: "string list \<Rightarrow> string \<Rightarrow> bool" where
  "containsNormalizedToken vs n = list_ex (\<lambda>v. normalizeToken v = n) vs"

datatype catalog_error = ErrUnknownHarness string

definition ParseHarness :: "string \<Rightarrow> catalog_error + harness" where
  "ParseHarness v =
     (let n = normalizeToken v in
      case find (\<lambda>a. n = normalizeToken (hd_ID (ad_Definition a))
                     \<or> containsNormalizedToken (hd_Aliases (ad_Definition a)) n) adapters of
        Some a \<Rightarrow> Inr (hd_ID (ad_Definition a))
      | None \<Rightarrow> Inl (ErrUnknownHarness v))"

definition FromCommand :: "string \<Rightarrow> harness option" where
  "FromCommand command =
     (let n = normalizeToken (path_base command) in
      map_option (\<lambda>a. hd_ID (ad_Definition a))
        (find (\<lambda>a. containsNormalizedToken (hd_ProcessNames (ad_Definition a)) n) adapters))"

definition SupportedNames :: "string list" where
  "SupportedNames = map (\<lambda>a. hd_ID (ad_Definition a)) adapters"

definition ProcessNames :: "harness \<Rightarrow> string list" where
  "ProcessNames h = (case Find h of None \<Rightarrow> [] | Some a \<Rightarrow> hd_ProcessNames (ad_Definition a))"

subsection \<open>Environment variables\<close>

datatype env_field = EnvSessionID | EnvSessionPath | EnvProjectRoot | EnvPID | EnvEvent

fun genericEnvNames :: "env_field \<Rightarrow> string list" where
  "genericEnvNames EnvSessionID = [''AHT_SESSION_ID'', ''AGENT_SESSION_ID'']"
| "genericEnvNames EnvSessionPath = [''AHT_SESSION_PATH'', ''AGENT_SESSION_PATH'']"
| "genericEnvNames EnvProjectRoot = [''AHT_PROJECT_ROOT'', ''PROJECT_ROOT'']"
| "genericEnvNames EnvPID = [''AHT_PID'', ''AGENT_PID'']"
| "genericEnvNames EnvEvent = [''AHT_EVENT'', ''AGENT_EVENT'']"

fun envNamesForField :: "env_keys \<Rightarrow> env_field \<Rightarrow> string list" where
  "envNamesForField k EnvSessionID = ek_SessionID k"
| "envNamesForField k EnvSessionPath = ek_SessionPath k"
| "envNamesForField k EnvProjectRoot = ek_ProjectRoot k"
| "envNamesForField k EnvPID = ek_PID k"
| "envNamesForField k EnvEvent = ek_Event k"

definition appendUnique :: "string list \<Rightarrow> string list \<Rightarrow> string list" where
  "appendUnique vs ns = foldl (\<lambda>acc n. if n \<in> set acc then acc else acc @ [n]) vs ns"

definition EnvNames :: "harness \<Rightarrow> env_field \<Rightarrow> string list" where
  "EnvNames h field =
     (let names = genericEnvNames field in
      case Find h of
        None \<Rightarrow> names
      | Some a \<Rightarrow>
          (let native = envNamesForField (hd_Env (ad_Definition a)) field in
           if field = EnvProjectRoot then appendUnique native names else appendUnique names native))"

subsection \<open>The rules of the reducer\<close>

definition DetailCapabilitiesFor :: "harness \<Rightarrow> detail_capabilities" where
  "DetailCapabilitiesFor h =
     (case Find h of
        None \<Rightarrow> no_details
      | Some a \<Rightarrow> (case ad_ActivityDetail a of None \<Rightarrow> no_details | Some (_, caps) \<Rightarrow> caps))"

definition catalog_Known :: "harness \<Rightarrow> bool" where
  "catalog_Known h = (Find h \<noteq> None)"

definition catalog_Policy :: "harness \<Rightarrow> policy" where
  "catalog_Policy h =
     (case Find h of
        None \<Rightarrow>
          \<lparr>pol_DetailReporters = [], pol_Details = no_details, pol_ExclusiveProcess = False,
           pol_Authority = AuthorityHook, pol_ScreenFallback = False,
           pol_RetainNativeActivity = False, pol_Reporter = [], pol_CatalogCreates = False\<rparr>
      | Some a \<Rightarrow>
          (let d = ad_Definition a in
           \<lparr>pol_DetailReporters = ad_DetailReporters a, pol_Details = DetailCapabilitiesFor h,
            pol_ExclusiveProcess = hd_ExclusiveProcess d, pol_Authority = hd_StateAuthority d,
            pol_ScreenFallback = hd_ScreenFallback d,
            pol_RetainNativeActivity = ad_RetainNativeActivity a,
            pol_Reporter = hd_IntegrationSource d, pol_CatalogCreates = hd_CatalogCreates d\<rparr>))"

definition catalog_Rules :: rules where
  "catalog_Rules = \<lparr>ru_Known = catalog_Known, ru_Policy = catalog_Policy\<rparr>"

definition Harnesses :: "harness list" where
  "Harnesses = map (\<lambda>a. hd_ID (ad_Definition a)) adapters"

subsection \<open>Completing a report\<close>

definition ResumeCommandFor :: "harness \<Rightarrow> string \<Rightarrow> string \<Rightarrow> string list" where
  "ResumeCommandFor h session path =
     (case Find h of
        None \<Rightarrow> []
      | Some a \<Rightarrow> (case ad_Resume a of None \<Rightarrow> [] | Some r \<Rightarrow> r session path))"

definition zero_listing :: listing where
  "zero_listing =
     \<lparr>li_ResumeCommand = [], li_CWD = [], li_ProjectRoot = [], li_ProcessPID = 0,
      li_ProcessStartIdentity = [], li_Current = False\<rparr>"

definition WithResumeCommand :: "observation \<Rightarrow> observation" where
  "WithResumeCommand ob =
     (if (case ob_Evidence ob of EvReport _ \<Rightarrow> False | EvListing _ \<Rightarrow> False | _ \<Rightarrow> True) then ob
      else if (case ob_Listing ob of None \<Rightarrow> False | Some l \<Rightarrow> li_ResumeCommand l \<noteq> []) then ob
      else let command = ResumeCommandFor (ob_Harness ob) (oi_SessionID (ob_Subject ob))
                 (oi_SessionPath (ob_Subject ob)) in
        if command = [] then ob
        else SetListing
          (Some ((deref_or zero_listing (ob_Listing ob))\<lparr>li_ResumeCommand := command\<rparr>)) ob)"

definition LifecycleFor :: "harness \<Rightarrow> string \<Rightarrow> attributes \<Rightarrow> lifecycle_defaults" where
  "LifecycleFor h event as =
     (case Find h of Some a \<Rightarrow> ad_Lifecycle a event as | None \<Rightarrow> TranslateLifecycle event '''')"

definition prepareDetail :: "harness \<Rightarrow> report \<Rightarrow> report" where
  "prepareDetail h r =
     (case (r_Detail r, r_Activity r, Find h) of
        (None, Some act, Some a) \<Rightarrow>
          (case ad_ActivityDetail a of
             None \<Rightarrow> r
           | Some (detail, _) \<Rightarrow> r\<lparr>r_Detail := detail (r_Event r) act (r_Attributes r)\<rparr>)
      | _ \<Rightarrow> r)"

definition prepareLifecycle :: "lifecycle_defaults \<Rightarrow> report \<Rightarrow> report" where
  "prepareLifecycle d r =
     r\<lparr>r_Event := ld_Event d,
       r_Lifecycle := (if r_Lifecycle r = None \<and> ld_Lifecycle d \<noteq> no_lifecycle
                       then Some (ld_Lifecycle d) else r_Lifecycle r),
       r_Claim := (if r_Claim r = None \<and> ld_Presence d \<noteq> no_presence
                   then Some (ld_Presence d) else r_Claim r)\<rparr>"

definition PrepareObservation :: "observation \<Rightarrow> observation" where
  "PrepareObservation ob =
     (case ob_Evidence ob of
        EvReport r \<Rightarrow>
          (let d = LifecycleFor (ob_Harness ob) (r_Event r) (r_Attributes r);
               r' = prepareDetail (ob_Harness ob) (prepareLifecycle d r)
           in WithResumeCommand (ob\<lparr>ob_Evidence := EvReport r'\<rparr>))
      | _ \<Rightarrow> ob)"

subsection \<open>Native catalogs\<close>

text \<open>
  The list of sessions an agent keeps itself; how an adapter obtains it is a parameter, as is
  whether the context is cancelled before each adapter is asked.
\<close>

record catalog_session =
  cs_SessionID :: string
  cs_SessionPath :: string
  cs_ResumeCommand :: "string list"
  cs_CWD :: string
  cs_ProjectRoot :: string
  cs_ProcessPID :: int
  cs_Current :: bool
  cs_Activity :: activity
  cs_Attributes :: attributes
  cs_Title :: string

record native_entry =
  ne_Harness :: harness
  ne_Reporter :: reporter
  ne_Session :: catalog_session

datatype provider_error = CatalogUnavailable | CatalogFailed string

datatype native_failure = ListCancelled | ListFailed harness provider_error

type_synonym provider = "harness \<Rightarrow> (catalog_session list \<times> provider_error option) option"

definition definition_reporter :: "harness_definition \<Rightarrow> reporter" where
  "definition_reporter d =
     \<lparr>rp_Sequence = None, rp_Integration = hd_IntegrationSource d,
      rp_Version = hd_IntegrationVersion d, rp_MultiSession = (\<not> hd_ExclusiveProcess d)\<rparr>"

fun nativeCatalog ::
    "provider \<Rightarrow> (nat \<Rightarrow> bool) \<Rightarrow> nat \<Rightarrow> adapter list \<Rightarrow> native_entry list \<times> native_failure list" where
  "nativeCatalog prov cancelled n [] = ([], [])"
| "nativeCatalog prov cancelled n (a # as) =
     (if cancelled n then ([], [ListCancelled])
      else
        (let d = ad_Definition a; (es, fs) = nativeCatalog prov cancelled (Suc n) as in
         case prov (hd_ID d) of
           None \<Rightarrow> (es, fs)
         | Some (ss, err) \<Rightarrow>
             (map (\<lambda>s. \<lparr>ne_Harness = hd_ID d, ne_Reporter = definition_reporter d, ne_Session = s\<rparr>) ss
                @ es,
              (case err of
                 None \<Rightarrow> []
               | Some CatalogUnavailable \<Rightarrow> []
               | Some e \<Rightarrow> [ListFailed (hd_ID d) e]) @ fs)))"

end
