(* ===== verification/Aht_Screen.thy ===== *)
theory Aht_Screen
  imports Aht_Query
begin

section \<open>Screen rules: \<open>internal/agentstate\<close>, \<open>pkg/mux/muxctx.go\<close>, \<open>pkg/detection\<close>\<close>

text \<open>
  The activity of an agent is read from the lines of its terminal by the rules of a manifest. The
  engine of regular expressions and the lower-case mapping of Unicode are a parameter; a compiled
  expression is represented by its source. The escape sequences are removed by the automaton that
  the pattern of \<open>detector.go\<close> stands for. The texts of an inspection are constructors that hold
  the values the messages quote.
\<close>

record text_engine =
  te_Lower :: "string \<Rightarrow> string"
  te_Compiles :: "string \<Rightarrow> bool"
  te_MatchString :: "string \<Rightarrow> string \<Rightarrow> bool"

subsection \<open>Lines of a screen\<close>

fun split_char :: "char \<Rightarrow> string \<Rightarrow> string list" where
  "split_char c [] = [[]]"
| "split_char c (x # xs) =
     (if x = c then [] # split_char c xs
      else (case split_char c xs of [] \<Rightarrow> [[x]] | w # ws \<Rightarrow> (x # w) # ws))"

definition LF :: char where "LF = CHR 0x0A"

definition CR :: char where "CR = CHR 0x0D"

definition ESC :: char where "ESC = CHR 0x1B"

definition BEL :: char where "BEL = CHR 0x07"

text \<open>\<open>strings.ReplaceAll(text, "\r\n", "\n")\<close>.\<close>

fun replace_crlf :: "string \<Rightarrow> string" where
  "replace_crlf [] = []"
| "replace_crlf [x] = [x]"
| "replace_crlf (x # y # xs) =
     (if x = CR \<and> y = LF then LF # replace_crlf xs else x # replace_crlf (y # xs))"

definition BoundBottomLines :: "string \<Rightarrow> int \<Rightarrow> string list" where
  "BoundBottomLines text limit =
     (let lines = split_char LF (map (\<lambda>c. if c = CR then LF else c) (replace_crlf text));
          kept = (if lines \<noteq> [] \<and> last lines = '''' then butlast lines else lines)
      in if limit > 0 \<and> int (length kept) > limit then drop (length kept - nat limit) kept else kept)"

definition NormalizePaneID :: "multiplexer_kind \<Rightarrow> string \<Rightarrow> string" where
  "NormalizePaneID k pane =
     (let p = trim_space pane in
      if k = MultiplexerZellij \<and> p \<noteq> '''' \<and> \<not> has_prefix p ''terminal_'' \<and> \<not> has_prefix p ''plugin_''
      then ''terminal_'' @ p else p)"

text \<open>
  What \<open>ansiEscapePattern\<close> takes after an escape character: a control sequence with its
  parameters, intermediates and final byte, an operating system command with its terminator, or
  nothing.
\<close>

definition in_range :: "nat \<Rightarrow> nat \<Rightarrow> char \<Rightarrow> bool" where
  "in_range a b c \<longleftrightarrow> a \<le> of_char c \<and> of_char c \<le> b"

definition csi_end :: "string \<Rightarrow> string option" where
  "csi_end s =
     (case dropWhile (in_range 0x20 0x2F) (dropWhile (in_range 0x30 0x3F) s) of
        [] \<Rightarrow> None
      | c # rest \<Rightarrow> if in_range 0x40 0x7E c then Some rest else None)"

definition osc_end :: "string \<Rightarrow> string option" where
  "osc_end s =
     (case dropWhile (\<lambda>c. c \<noteq> BEL \<and> c \<noteq> ESC) s of
        [] \<Rightarrow> None
      | c # rest \<Rightarrow>
          if c = BEL then Some rest
          else (case rest of [] \<Rightarrow> None | d # t \<Rightarrow> if d = CHR 0x5C then Some t else None))"

definition escape_end :: "string \<Rightarrow> string" where
  "escape_end s =
     (case s of
        [] \<Rightarrow> []
      | c # rest \<Rightarrow>
          if c = CHR ''['' then (case csi_end rest of Some t \<Rightarrow> t | None \<Rightarrow> s)
          else if c = CHR '']'' then (case osc_end rest of Some t \<Rightarrow> t | None \<Rightarrow> s)
          else s)"

lemma length_csi_end: "csi_end s = Some t \<Longrightarrow> length t < length s"
proof -
  assume "csi_end s = Some t"
  then obtain c where c: "dropWhile (in_range 0x20 0x2F) (dropWhile (in_range 0x30 0x3F) s) = c # t"
    by (auto simp: csi_end_def split: list.splits if_splits)
  have "length (c # t) \<le> length s"
    unfolding c [symmetric] by (meson length_dropWhile_le order_trans)
  then show ?thesis by simp
qed

lemma length_osc_end: "osc_end s = Some t \<Longrightarrow> length t < length s"
proof -
  assume "osc_end s = Some t"
  then obtain c rest where c: "dropWhile (\<lambda>c. c \<noteq> BEL \<and> c \<noteq> ESC) s = c # rest"
    and t: "length t \<le> length rest"
    by (auto simp: osc_end_def split: list.splits if_splits)
  have "length (c # rest) \<le> length s"
    unfolding c [symmetric] by (rule length_dropWhile_le)
  then show ?thesis using t by simp
qed

lemma length_escape_end: "length (escape_end s) \<le> length s"
  by (auto simp: escape_end_def split: list.splits option.splits
      dest!: length_csi_end length_osc_end)

function strip_escapes :: "string \<Rightarrow> string" where
  "strip_escapes [] = []"
| "strip_escapes (c # s) = (if c = ESC then strip_escapes (escape_end s) else c # strip_escapes s)"
  by pat_completeness auto
termination
  by (relation "measure length") (auto simp: le_imp_less_Suc length_escape_end)

definition maxSnapshotLines :: int where
  "maxSnapshotLines = 100"

record screen_snapshot =
  ss_Lines :: "string list"
  ss_Title :: string

definition NormalizeSnapshot :: "string \<Rightarrow> string \<Rightarrow> screen_snapshot" where
  "NormalizeSnapshot text title =
     \<lparr>ss_Lines = BoundBottomLines (strip_escapes text) maxSnapshotLines, ss_Title = strip_escapes title\<rparr>"

subsection \<open>Manifests\<close>

record screen_rule =
  sr_Detail :: activity_detail
  sr_ID :: string
  sr_State :: string
  sr_Priority :: int
  sr_Region :: string
  sr_CaseSensitive :: bool
  sr_All :: "string list"
  sr_Any :: "string list"
  sr_None :: "string list"
  sr_RegexAll :: "string list"
  sr_RegexAny :: "string list"
  sr_RegexNone :: "string list"
  sr_TitleAny :: "string list"
  sr_TitleRegexAny :: "string list"
  sr_regexAllCompiled :: "string list"
  sr_regexAnyCompiled :: "string list"
  sr_regexNoneCompiled :: "string list"
  sr_titleRegexAnyCompiled :: "string list"

record manifest =
  mf_Version :: int
  mf_Agent :: string
  mf_Rules :: "screen_rule list"
  mf_Source :: string
  mf_Warning :: string

datatype manifest_error =
  ErrManifestTooLarge
  | ErrManifestInvalid string
  | ErrBundledNotFound
  | ErrReadingManifest

text \<open>The region of a rule; \<open>None\<close> for \<open>errInvalidRegion\<close>.\<close>

definition blank :: "string \<Rightarrow> bool" where
  "blank s \<longleftrightarrow> trim_space s = ''''"

definition selectRegion :: "string \<Rightarrow> string list \<Rightarrow> string list option" where
  "selectRegion region lines =
     (let v = trim_space region in
      if v = '''' \<or> v = ''all'' then Some lines
      else case split_char (CHR '':'') v of
        [side, num] \<Rightarrow>
          if side \<noteq> ''bottom'' \<and> side \<noteq> ''top'' then None
          else (case atoi num of
              None \<Rightarrow> None
            | Some n \<Rightarrow>
                if n \<le> 0 then None
                else if side = ''top'' then Some (take (nat (min n (int (length lines)))) lines)
                else let kept = rev (dropWhile blank (rev lines))
                  in Some (drop (length kept - nat (min n (int (length kept)))) kept))
      | _ \<Rightarrow> None)"

definition hasPositiveMatcher :: "screen_rule \<Rightarrow> bool" where
  "hasPositiveMatcher r \<longleftrightarrow>
     length (sr_All r) + length (sr_Any r) + length (sr_RegexAll r) + length (sr_RegexAny r) +
     length (sr_TitleAny r) + length (sr_TitleRegexAny r) > 0"

definition validateMatchers :: "screen_rule \<Rightarrow> manifest_error option" where
  "validateMatchers r =
     (if list_ex (list_ex blank)
           [sr_All r, sr_Any r, sr_None r, sr_RegexAll r, sr_RegexAny r, sr_RegexNone r,
            sr_TitleAny r, sr_TitleRegexAny r]
      then Some (ErrManifestInvalid ''matcher is empty'') else None)"

definition validateRule :: "screen_rule \<Rightarrow> manifest_error option" where
  "validateRule r =
     (case NormalizeActivity (sr_State r) of
        Inl _ \<Rightarrow> Some (ErrManifestInvalid ''unsupported state'')
      | Inr a \<Rightarrow>
          if a = ActivityUnknown \<or> a = no_activity then Some (ErrManifestInvalid ''unsupported state'')
          else if sr_Detail r \<noteq> no_detail \<and> \<not> detail_valid_for (sr_Detail r) a
          then Some (ErrManifestInvalid ''invalid activity detail'')
          else if selectRegion (sr_Region r) [] = None then Some (ErrManifestInvalid ''invalid region'')
          else if \<not> hasPositiveMatcher r then Some (ErrManifestInvalid ''no positive matcher'')
          else validateMatchers r)"

definition manifestSchemaVersion :: int where
  "manifestSchemaVersion = 1"

definition validate_rule_turn ::
    "string list \<Rightarrow> screen_rule \<Rightarrow> manifest_error + string list" where
  "validate_rule_turn seen r =
     (if blank (sr_ID r) then Inl (ErrManifestInvalid ''rule has no id'')
      else if sr_ID r \<in> set seen then Inl (ErrManifestInvalid ''duplicate rule id'')
      else case validateRule r of Some e \<Rightarrow> Inl e | None \<Rightarrow> Inr (sr_ID r # seen))"

definition validateManifest :: "manifest \<Rightarrow> manifest_error option" where
  "validateManifest m =
     (if mf_Version m \<noteq> manifestSchemaVersion \<or> mf_Rules m = []
      then Some (ErrManifestInvalid ''schema version or empty rules'')
      else case fold_result validate_rule_turn [] (mf_Rules m) of Inl e \<Rightarrow> Some e | Inr _ \<Rightarrow> None)"

definition ruleRegexExpression :: "string \<Rightarrow> bool \<Rightarrow> string" where
  "ruleRegexExpression expression caseSensitive =
     (if caseSensitive then expression else ''(?i:'' @ expression @ '')'')"

definition compileRuleExpressions :: "text_engine \<Rightarrow> string list \<Rightarrow> bool \<Rightarrow> string list option" where
  "compileRuleExpressions te es cs =
     (let ps = map (\<lambda>e. ruleRegexExpression e cs) es
      in if list_all (te_Compiles te) ps then Some ps else None)"

definition compile_rule :: "text_engine \<Rightarrow> screen_rule \<Rightarrow> manifest_error + screen_rule" where
  "compile_rule te r =
     (let comp = (\<lambda>es. compileRuleExpressions te es (sr_CaseSensitive r)) in
      case comp (sr_RegexAll r) of
        None \<Rightarrow> Inl (ErrManifestInvalid ''regex_all'')
      | Some a \<Rightarrow>
          (case comp (sr_RegexAny r) of
             None \<Rightarrow> Inl (ErrManifestInvalid ''regex_any'')
           | Some b \<Rightarrow>
               (case comp (sr_RegexNone r) of
                  None \<Rightarrow> Inl (ErrManifestInvalid ''regex_none'')
                | Some c \<Rightarrow>
                    (case comp (sr_TitleRegexAny r) of
                       None \<Rightarrow> Inl (ErrManifestInvalid ''title_regex_any'')
                     | Some d \<Rightarrow>
                         Inr (r\<lparr>sr_regexAllCompiled := a, sr_regexAnyCompiled := b,
                                sr_regexNoneCompiled := c, sr_titleRegexAnyCompiled := d\<rparr>)))))"

definition compileRules :: "text_engine \<Rightarrow> manifest \<Rightarrow> manifest_error + manifest" where
  "compileRules te m =
     (case fold_result (\<lambda>rs r. case compile_rule te r of Inl e \<Rightarrow> Inl e | Inr r' \<Rightarrow> Inr (rs @ [r']))
             [] (mf_Rules m) of
        Inl e \<Rightarrow> Inl e
      | Inr rs \<Rightarrow> Inr (m\<lparr>mf_Rules := rs\<rparr>))"

definition sortedRules :: "screen_rule list \<Rightarrow> screen_rule list" where
  "sortedRules rs = sort_func (\<lambda>a b. compare (sr_Priority b) (sr_Priority a)) rs"

subsection \<open>Matching\<close>

text \<open>\<open>strings.Contains\<close>.\<close>

fun contains :: "string \<Rightarrow> string \<Rightarrow> bool" where
  "contains [] p = (p = [])"
| "contains (x # xs) p = (has_prefix (x # xs) p \<or> contains xs p)"

definition normalizedLiteral :: "text_engine \<Rightarrow> string \<Rightarrow> bool \<Rightarrow> string" where
  "normalizedLiteral te v cs = (if cs then v else te_Lower te v)"

definition containsAny :: "text_engine \<Rightarrow> string \<Rightarrow> string list \<Rightarrow> bool \<Rightarrow> bool" where
  "containsAny te text vs cs = list_ex (\<lambda>v. contains text (normalizedLiteral te v cs)) vs"

definition matchesAllRegex :: "text_engine \<Rightarrow> string \<Rightarrow> string list \<Rightarrow> bool" where
  "matchesAllRegex te text es = list_all (\<lambda>e. te_MatchString te e text) es"

definition matchesAnyRegex :: "text_engine \<Rightarrow> string \<Rightarrow> string list \<Rightarrow> bool" where
  "matchesAnyRegex te text es = list_ex (\<lambda>e. te_MatchString te e text) es"

definition matchesText :: "text_engine \<Rightarrow> screen_rule \<Rightarrow> string \<Rightarrow> bool" where
  "matchesText te r text =
     (if \<not> list_all (\<lambda>v. contains text (normalizedLiteral te v (sr_CaseSensitive r))) (sr_All r) then False
      else if sr_Any r \<noteq> [] \<and> \<not> containsAny te text (sr_Any r) (sr_CaseSensitive r) then False
      else if containsAny te text (sr_None r) (sr_CaseSensitive r) \<or>
              \<not> matchesAllRegex te text (sr_regexAllCompiled r) then False
      else if sr_regexAnyCompiled r \<noteq> [] \<and> \<not> matchesAnyRegex te text (sr_regexAnyCompiled r) then False
      else \<not> matchesAnyRegex te text (sr_regexNoneCompiled r))"

definition matchesTitle :: "text_engine \<Rightarrow> screen_rule \<Rightarrow> string \<Rightarrow> bool" where
  "matchesTitle te r title =
     (if sr_TitleAny r \<noteq> [] \<and> \<not> containsAny te title (sr_TitleAny r) (sr_CaseSensitive r) then False
      else sr_titleRegexAnyCompiled r = [] \<or> matchesAnyRegex te title (sr_titleRegexAnyCompiled r))"

definition rule_text :: "text_engine \<Rightarrow> screen_rule \<Rightarrow> string \<Rightarrow> string" where
  "rule_text te r s = (if sr_CaseSensitive r then s else te_Lower te s)"

definition rule_matches :: "text_engine \<Rightarrow> screen_rule \<Rightarrow> screen_snapshot \<Rightarrow> bool" where
  "rule_matches te r snap =
     (case selectRegion (sr_Region r) (ss_Lines snap) of
        None \<Rightarrow> False
      | Some region \<Rightarrow>
          matchesText te r (rule_text te r (join [LF] region)) \<and>
          matchesTitle te r (rule_text te r (ss_Title snap)))"

end
