(* ===== verification/Aht_Detector.thy ===== *)
theory Aht_Detector
  imports Aht_Screen
begin

section \<open>Decisions and their inspection: \<open>detector.go\<close>, \<open>manifest.go\<close>, \<open>detection.go\<close>\<close>

text \<open>
  \<open>Evaluate\<close> is what tracking uses, \<open>Inspect\<close> what a user sees of the same rules; both are
  modelled as they are written, with their own matching of a rule. The loader of manifests has
  the files, the bundled manifests and the TOML decoder as parameters.
\<close>

record rule_evidence =
  re_RuleID :: string
  re_Matched :: bool

record decision =
  dn_Activity :: activity
  dn_Detail :: activity_detail
  dn_Reason :: string
  dn_RuleID :: string
  dn_ManifestSource :: string
  dn_ManifestVersion :: int
  dn_Warning :: string
  dn_Evidence :: "rule_evidence list"

definition initialDecision :: "manifest \<Rightarrow> decision" where
  "initialDecision m =
     \<lparr>dn_Activity = ActivityUnknown, dn_Detail = no_detail, dn_Reason = ''no_rule_matched'', dn_RuleID = [],
      dn_ManifestSource = mf_Source m, dn_ManifestVersion = mf_Version m, dn_Warning = mf_Warning m,
      dn_Evidence = []\<rparr>"

text \<open>The activity of a rule; the error of the second result is discarded by the code.\<close>

definition state_activity :: "string \<Rightarrow> activity" where
  "state_activity s = (case NormalizeActivity s of Inl _ \<Rightarrow> no_activity | Inr a \<Rightarrow> a)"

definition note_rule :: "screen_rule \<Rightarrow> bool \<Rightarrow> decision \<Rightarrow> decision" where
  "note_rule r matched d =
     d\<lparr>dn_Evidence := dn_Evidence d @ [\<lparr>re_RuleID = sr_ID r, re_Matched = matched\<rparr>]\<rparr>"

definition take_rule :: "screen_rule \<Rightarrow> decision \<Rightarrow> decision" where
  "take_rule r d =
     d\<lparr>dn_Activity := state_activity (sr_State r), dn_Reason := ''manifest_rule'',
       dn_Detail := sr_Detail r, dn_RuleID := sr_ID r\<rparr>"

fun evaluate_rules :: "text_engine \<Rightarrow> screen_snapshot \<Rightarrow> decision \<Rightarrow> screen_rule list \<Rightarrow> decision" where
  "evaluate_rules te snap d [] = d"
| "evaluate_rules te snap d (r # rs) =
     (let matched = rule_matches te r snap; d' = note_rule r matched d in
      if matched then take_rule r d' else evaluate_rules te snap d' rs)"

definition Manifest_Evaluate :: "text_engine \<Rightarrow> manifest \<Rightarrow> screen_snapshot \<Rightarrow> decision" where
  "Manifest_Evaluate te m snap = evaluate_rules te snap (initialDecision m) (sortedRules (mf_Rules m))"

subsection \<open>Inspection of one rule\<close>

datatype inspection_detail =
  NoDetails
  | InvalidRegion string
  | LinesSelected nat
  | MissingItem string
  | AllItems nat
  | MatchedItem string
  | NoItems nat
  | ExcludedItem string

record matcher_inspection =
  mi_Name :: string
  mi_Passed :: bool
  mi_Details :: inspection_detail

type_synonym matcher_result = "matcher_inspection \<times> bool"

definition inspected :: "string \<Rightarrow> bool \<Rightarrow> inspection_detail \<Rightarrow> matcher_result" where
  "inspected name passed det = (\<lparr>mi_Name = name, mi_Passed = passed, mi_Details = det\<rparr>, passed)"

definition inspectAllMatcher :: "text_engine \<Rightarrow> screen_rule \<Rightarrow> string \<Rightarrow> matcher_result" where
  "inspectAllMatcher te r text =
     (case find (\<lambda>v. \<not> contains text (normalizedLiteral te v (sr_CaseSensitive r))) (sr_All r) of
        Some v \<Rightarrow> inspected ''all'' False (MissingItem v)
      | None \<Rightarrow> inspected ''all'' True (AllItems (length (sr_All r))))"

definition inspectAnyMatcher :: "text_engine \<Rightarrow> screen_rule \<Rightarrow> string \<Rightarrow> matcher_result" where
  "inspectAnyMatcher te r text =
     (case find (\<lambda>v. contains text (normalizedLiteral te v (sr_CaseSensitive r))) (sr_Any r) of
        Some v \<Rightarrow> inspected ''any'' True (MatchedItem v)
      | None \<Rightarrow> inspected ''any'' False (NoItems (length (sr_Any r))))"

definition inspectNoneMatcher :: "text_engine \<Rightarrow> screen_rule \<Rightarrow> string \<Rightarrow> matcher_result" where
  "inspectNoneMatcher te r text =
     (case find (\<lambda>v. contains text (normalizedLiteral te v (sr_CaseSensitive r))) (sr_None r) of
        Some v \<Rightarrow> inspected ''none'' False (ExcludedItem v)
      | None \<Rightarrow> inspected ''none'' True (NoItems (length (sr_None r))))"

text \<open>The source of the compiled expression with the given index; the two lists are set together.\<close>

definition source_at :: "string list \<Rightarrow> nat \<Rightarrow> string" where
  "source_at es i = (if i < length es then es ! i else '''')"

definition find_expression :: "(string \<Rightarrow> bool) \<Rightarrow> string list \<Rightarrow> string list \<Rightarrow> string option" where
  "find_expression P ps es =
     map_option (\<lambda>x. source_at es (fst x)) (find (\<lambda>x. P (snd x)) (enumerate 0 ps))"

definition inspectRegexAllMatcher :: "text_engine \<Rightarrow> screen_rule \<Rightarrow> string \<Rightarrow> matcher_result" where
  "inspectRegexAllMatcher te r text =
     (case find_expression (\<lambda>e. \<not> te_MatchString te e text) (sr_regexAllCompiled r) (sr_RegexAll r) of
        Some v \<Rightarrow> inspected ''regex_all'' False (MissingItem v)
      | None \<Rightarrow> inspected ''regex_all'' True (AllItems (length (sr_RegexAll r))))"

definition inspectRegexAnyMatcher :: "text_engine \<Rightarrow> screen_rule \<Rightarrow> string \<Rightarrow> matcher_result" where
  "inspectRegexAnyMatcher te r text =
     (case find_expression (\<lambda>e. te_MatchString te e text) (sr_regexAnyCompiled r) (sr_RegexAny r) of
        Some v \<Rightarrow> inspected ''regex_any'' True (MatchedItem v)
      | None \<Rightarrow> inspected ''regex_any'' False (NoItems (length (sr_RegexAny r))))"

definition inspectRegexNoneMatcher :: "text_engine \<Rightarrow> screen_rule \<Rightarrow> string \<Rightarrow> matcher_result" where
  "inspectRegexNoneMatcher te r text =
     (case find_expression (\<lambda>e. te_MatchString te e text) (sr_regexNoneCompiled r) (sr_RegexNone r) of
        Some v \<Rightarrow> inspected ''regex_none'' False (ExcludedItem v)
      | None \<Rightarrow> inspected ''regex_none'' True (NoItems (length (sr_RegexNone r))))"

definition inspectTitleAnyMatcher :: "text_engine \<Rightarrow> screen_rule \<Rightarrow> string \<Rightarrow> matcher_result" where
  "inspectTitleAnyMatcher te r title =
     (case find (\<lambda>v. contains title (normalizedLiteral te v (sr_CaseSensitive r))) (sr_TitleAny r) of
        Some v \<Rightarrow> inspected ''title_any'' True (MatchedItem v)
      | None \<Rightarrow> inspected ''title_any'' False (NoItems (length (sr_TitleAny r))))"

definition inspectTitleRegexAnyMatcher :: "text_engine \<Rightarrow> screen_rule \<Rightarrow> string \<Rightarrow> matcher_result" where
  "inspectTitleRegexAnyMatcher te r title =
     (case find_expression (\<lambda>e. te_MatchString te e title) (sr_titleRegexAnyCompiled r)
             (sr_TitleRegexAny r) of
        Some v \<Rightarrow> inspected ''title_regex_any'' True (MatchedItem v)
      | None \<Rightarrow> inspected ''title_regex_any'' False (NoItems (length (sr_TitleRegexAny r))))"

definition inspectTextMatchers :: "text_engine \<Rightarrow> screen_rule \<Rightarrow> string \<Rightarrow> matcher_result list" where
  "inspectTextMatchers te r text =
     (if sr_All r = [] then [] else [inspectAllMatcher te r text]) @
     (if sr_Any r = [] then [] else [inspectAnyMatcher te r text]) @
     (if sr_None r = [] then [] else [inspectNoneMatcher te r text]) @
     (if sr_regexAllCompiled r = [] then [] else [inspectRegexAllMatcher te r text]) @
     (if sr_regexAnyCompiled r = [] then [] else [inspectRegexAnyMatcher te r text]) @
     (if sr_regexNoneCompiled r = [] then [] else [inspectRegexNoneMatcher te r text])"

definition inspectTitleMatchers :: "text_engine \<Rightarrow> screen_rule \<Rightarrow> string \<Rightarrow> matcher_result list" where
  "inspectTitleMatchers te r title =
     (if sr_TitleAny r = [] then [] else [inspectTitleAnyMatcher te r title]) @
     (if sr_titleRegexAnyCompiled r = [] then [] else [inspectTitleRegexAnyMatcher te r title])"

definition inspectRegionMatcher ::
    "screen_rule \<Rightarrow> string list \<Rightarrow> string list \<times> matcher_inspection \<times> bool \<times> bool" where
  "inspectRegionMatcher r lines =
     (let region = selectRegion (sr_Region r) lines;
          insp = (\<lambda>passed det. \<lparr>mi_Name = ''region'', mi_Passed = passed, mi_Details = det\<rparr>) in
      if sr_Region r = '''' \<or> sr_Region r = ''all''
      then ((case region of None \<Rightarrow> [] | Some ls \<Rightarrow> ls), insp True NoDetails, True, False)
      else case region of
        None \<Rightarrow> ([], insp False (InvalidRegion (sr_Region r)), False, True)
      | Some ls \<Rightarrow> (ls, insp True (LinesSelected (length ls)), True, True))"

text \<open>The first failure is the inspection of the matcher that failed; \<open>None\<close> is the empty text.\<close>

definition rule_inspect ::
    "text_engine \<Rightarrow> screen_rule \<Rightarrow> screen_snapshot
     \<Rightarrow> bool \<times> matcher_inspection list \<times> matcher_inspection option" where
  "rule_inspect te r snap =
     (let (ls, region, ok, configured) = inspectRegionMatcher r (ss_Lines snap) in
      if configured \<and> \<not> ok then (False, [region], Some region)
      else let start = (if configured then [region] else []);
               results = inspectTextMatchers te r (rule_text te r (join [LF] ls)) @
                         inspectTitleMatchers te r (rule_text te r (ss_Title snap));
               failure = map_option fst (find (\<lambda>x. \<not> snd x) results)
           in (failure = None, start @ map fst results, failure))"

subsection \<open>Inspection of a manifest\<close>

datatype candidate_reason =
  Won
  | ShadowedEqual string int
  | ShadowedHigher string int int
  | FailedBy matcher_inspection
  | DidNotMatch

record candidate_rule =
  ca_ID :: string
  ca_State :: string
  ca_Priority :: int
  ca_Region :: string
  ca_Matched :: bool
  ca_Winner :: bool
  ca_Reason :: candidate_reason
  ca_Matchers :: "matcher_inspection list"

record inspection =
  in_Harness :: string
  in_ManifestSource :: string
  in_ManifestVersion :: int
  in_Warning :: string
  in_LinesEvaluated :: nat
  in_Title :: string
  in_Decision :: decision
  in_WinningRule :: string
  in_Candidates :: "candidate_rule list"
  in_Screen :: string

type_synonym inspect_state = "decision \<times> int \<times> candidate_rule list"

definition inspect_turn :: "text_engine \<Rightarrow> screen_snapshot \<Rightarrow> inspect_state \<Rightarrow> screen_rule \<Rightarrow> inspect_state" where
  "inspect_turn te snap st r =
     (let (d, winnerPriority, cs) = st;
          (matched, matchers, failure) = rule_inspect te r snap;
          undecided = (dn_RuleID d = '''');
          winner = (matched \<and> undecided);
          d1 = (if undecided then note_rule r matched d else d);
          d2 = (if winner then take_rule r d1 else d1);
          wp = (if winner then sr_Priority r else winnerPriority);
          reason = (if winner then Won
                    else if matched then
                      (if wp = sr_Priority r then ShadowedEqual (dn_RuleID d2) (sr_Priority r)
                       else ShadowedHigher (dn_RuleID d2) wp (sr_Priority r))
                    else (case failure of Some m \<Rightarrow> FailedBy m | None \<Rightarrow> DidNotMatch))
      in (d2, wp, cs @ [\<lparr>ca_ID = sr_ID r, ca_State = sr_State r, ca_Priority = sr_Priority r,
            ca_Region = sr_Region r, ca_Matched = matched, ca_Winner = winner, ca_Reason = reason,
            ca_Matchers = matchers\<rparr>]))"

definition Manifest_Inspect :: "text_engine \<Rightarrow> manifest \<Rightarrow> screen_snapshot \<Rightarrow> inspection" where
  "Manifest_Inspect te m snap =
     (let (d, _, cs) = foldl (inspect_turn te snap) (initialDecision m, 0, []) (sortedRules (mf_Rules m))
      in \<lparr>in_Harness = mf_Agent m, in_ManifestSource = mf_Source m, in_ManifestVersion = mf_Version m,
          in_Warning = mf_Warning m, in_LinesEvaluated = length (ss_Lines snap), in_Title = ss_Title snap,
          in_Decision = d, in_WinningRule = dn_RuleID d, in_Candidates = cs, in_Screen = []\<rparr>)"

subsection \<open>Loading manifests\<close>

text \<open>
  What the loader reads: a file, or that it does not exist or cannot be read; the decoder of TOML;
  for each harness the text of the bundled manifest, and whether the catalog supports its screen.
\<close>

datatype file_read = FileMissing | FileUnreadable | FileContent string

record manifest_source =
  ms_Decode :: "string \<Rightarrow> manifest option"
  ms_SupportsScreen :: "string \<Rightarrow> bool"
  ms_Bundled :: "string \<Rightarrow> string option"
  ms_Open :: "string \<Rightarrow> file_read"

definition maxManifestBytes :: int where
  "maxManifestBytes = 2 ^ 20"

definition MaxScreenBytes :: int where
  "MaxScreenBytes = 2 * 2 ^ 20"

definition ParseManifest ::
    "text_engine \<Rightarrow> (string \<Rightarrow> manifest option) \<Rightarrow> string \<Rightarrow> string \<Rightarrow> manifest_error + manifest" where
  "ParseManifest te decode data h =
     (if int (length data) > maxManifestBytes then Inl ErrManifestTooLarge
      else case decode data of
        None \<Rightarrow> Inl (ErrManifestInvalid ''parsing TOML'')
      | Some m \<Rightarrow>
          if mf_Agent m \<noteq> h then Inl (ErrManifestInvalid ''agent does not match'')
          else (case validateManifest m of
              Some e \<Rightarrow> Inl e
            | None \<Rightarrow> compileRules te m))"

definition readManifestFile :: "manifest_source \<Rightarrow> string \<Rightarrow> manifest_error + string option" where
  "readManifestFile ms path =
     (case ms_Open ms path of
        FileMissing \<Rightarrow> Inr None
      | FileUnreadable \<Rightarrow> Inl ErrReadingManifest
      | FileContent data \<Rightarrow> if int (length data) > maxManifestBytes then Inl ErrManifestTooLarge else Inr (Some data))"

definition loadBundled :: "text_engine \<Rightarrow> manifest_source \<Rightarrow> string \<Rightarrow> manifest_error + manifest" where
  "loadBundled te ms h =
     (case ms_Bundled ms h of
        None \<Rightarrow> Inl ErrBundledNotFound
      | Some data \<Rightarrow>
          (case ParseManifest te (ms_Decode ms) data h of
             Inl e \<Rightarrow> Inl e
           | Inr m \<Rightarrow> Inr (m\<lparr>mf_Source := ''bundled:'' @ h\<rparr>)))"

definition LoadExplicitManifest ::
    "text_engine \<Rightarrow> manifest_source \<Rightarrow> string \<Rightarrow> string \<Rightarrow> manifest_error + manifest" where
  "LoadExplicitManifest te ms path h =
     (case readManifestFile ms path of
        Inl e \<Rightarrow> Inl e
      | Inr None \<Rightarrow> Inl ErrReadingManifest
      | Inr (Some data) \<Rightarrow>
          (case ParseManifest te (ms_Decode ms) data h of
             Inl e \<Rightarrow> Inl e
           | Inr m \<Rightarrow> Inr (m\<lparr>mf_Source := path\<rparr>)))"

text \<open>What is left of the loading once the bundled manifest is known, if there is one.\<close>

definition load_override ::
    "text_engine \<Rightarrow> manifest_source \<Rightarrow> string \<Rightarrow> string \<Rightarrow> manifest option \<Rightarrow> manifest_error + manifest" where
  "load_override te ms h path bundled =
     (let fallback = (\<lambda>e. case bundled of None \<Rightarrow> Inl e | Some b \<Rightarrow> Inr b);
          warned = (\<lambda>w e. case bundled of None \<Rightarrow> Inl e | Some b \<Rightarrow> Inr (b\<lparr>mf_Warning := w\<rparr>)) in
      if path = '''' then fallback (ErrManifestInvalid ''unsupported screen harness'')
      else case readManifestFile ms path of
        Inr None \<Rightarrow> fallback (ErrManifestInvalid ''unsupported screen harness'')
      | Inl e \<Rightarrow> warned ''reading local override'' e
      | Inr (Some data) \<Rightarrow>
          (case ParseManifest te (ms_Decode ms) data h of
             Inl e \<Rightarrow> warned ''ignoring invalid local override'' e
           | Inr local \<Rightarrow> Inr (local\<lparr>mf_Source := path\<rparr>)))"

definition loadUncached ::
    "text_engine \<Rightarrow> manifest_source \<Rightarrow> string \<Rightarrow> string \<Rightarrow> manifest_error + manifest" where
  "loadUncached te ms h path =
     (if ms_SupportsScreen ms h then
        (case loadBundled te ms h of
           Inl e \<Rightarrow> Inl e
         | Inr b \<Rightarrow> load_override te ms h path (Some b))
      else load_override te ms h path None)"

text \<open>
  The cache maps a harness and a path to the fingerprint of the file and the result. The
  fingerprint of a file, from its modification time, size and mode, is a parameter.
\<close>

type_synonym manifest_cache = "(string \<times> (string \<times> (manifest_error + manifest))) list"

definition cache_key :: "string \<Rightarrow> string \<Rightarrow> string" where
  "cache_key h path = h @ [CHR 0x00] @ path"

definition Loader_Load ::
    "text_engine \<Rightarrow> manifest_source \<Rightarrow> (string \<Rightarrow> string) \<Rightarrow> string \<Rightarrow> string \<Rightarrow> manifest_cache
     \<Rightarrow> (manifest_error + manifest) \<times> manifest_cache" where
  "Loader_Load te ms fingerprint h path cache =
     (let key = cache_key h path;
          fresh = (let m = loadUncached te ms h path in (m, map_put key (fingerprint path, m) cache)) in
      case map_of cache key of
        Some (fp, result) \<Rightarrow> if fp = fingerprint path then (result, cache) else fresh
      | None \<Rightarrow> fresh)"

datatype inspect_error =
  InspectContext
  | ErrScreenTooLarge
  | ErrManifestOptions
  | InspectManifest manifest_error

record inspect_options =
  io_Title :: string
  io_ManifestPath :: string
  io_ConfigDir :: string
  io_IncludeScreen :: bool

text \<open>
  \<open>detection.Inspect\<close>; the override path that the loader computes from the configuration
  directory is given. The copy of the result into the public types is the identity here.
\<close>

definition Detection_Inspect ::
    "text_engine \<Rightarrow> manifest_source \<Rightarrow> (string \<Rightarrow> string) \<Rightarrow> bool \<Rightarrow> bool \<Rightarrow> string \<Rightarrow> string
     \<Rightarrow> inspect_options \<Rightarrow> string \<Rightarrow> manifest_cache \<Rightarrow> (inspect_error + inspection) \<times> manifest_cache" where
  "Detection_Inspect te ms fp cancelled cancelled' h screen opts override cache =
     (if cancelled then (Inl InspectContext, cache)
      else if int (length screen) > MaxScreenBytes then (Inl ErrScreenTooLarge, cache)
      else if io_ManifestPath opts \<noteq> '''' \<and> io_ConfigDir opts \<noteq> '''' then (Inl ErrManifestOptions, cache)
      else let (loaded, cache') =
                 (if io_ManifestPath opts \<noteq> ''''
                  then (LoadExplicitManifest te ms (io_ManifestPath opts) h, cache)
                  else Loader_Load te ms fp h override cache)
        in case loaded of
             Inl e \<Rightarrow> (Inl (InspectManifest e), cache')
           | Inr m \<Rightarrow>
               if cancelled' then (Inl InspectContext, cache')
               else let raw = Manifest_Inspect te m (NormalizeSnapshot screen (io_Title opts))
                 in (Inr (if io_IncludeScreen opts then raw\<lparr>in_Screen := screen\<rparr> else raw), cache'))"

end
