(* ===== verification/Aht_Agents.thy ===== *)
theory Aht_Agents
  imports Aht_Catalog Aht_Detector
begin

section \<open>Agents among the processes: \<open>internal/observer/observer.go\<close>, \<open>catalog.go\<close>\<close>

text \<open>
  A cycle of the observer takes a scan of the process table and decides which processes are
  agents. A process is an agent by its hint, its executable or its arguments; a wrapper that only
  launches an agent, and an agent that runs inside another one of the same harness, are not
  counted. A Go map whose keys are process identifiers is an association list.
\<close>

type_synonym 'a pid_map = "(int \<times> 'a) list"

definition processesByPID :: "proc_info list \<Rightarrow> proc_info pid_map" where
  "processesByPID ps =
     foldl (\<lambda>m p. if pr_PID p > 0 then AList.update (pr_PID p) p m else m) [] ps"

subsection \<open>Which harness a process runs\<close>

fun isReportCommand :: "string list \<Rightarrow> harness \<Rightarrow> bool" where
  "isReportCommand [] h = False"
| "isReportCommand (a # as) h = ((a = ''report'' \<and> h \<in> set as) \<or> isReportCommand as h)"

definition isTestFixtureProcess :: "proc_info \<Rightarrow> bool" where
  "isTestFixtureProcess p =
     (contains (pr_Executable p) ''/aht-systest-'' \<or> contains (pr_CWD p) ''/aht-systest-''
      \<or> list_ex (\<lambda>arg. contains arg ''/aht-systest-'') (pr_Args p)
      \<or> (''manage'' \<in> set (pr_Args p) \<and> (''tracker'' \<in> set (pr_Args p) \<or> ''run'' \<in> set (pr_Args p))))"

definition observableHarness :: "proc_info \<Rightarrow> harness \<Rightarrow> harness option" where
  "observableHarness p h =
     (if isTestFixtureProcess p \<or> isReportCommand (pr_Args p) h then None
      else if list_ex (\<lambda>arg. has_prefix arg ''--type='') (pr_Args p) then None
      else case ProcessFilterFor h of
        Some observable \<Rightarrow> if observable p then Some h else None
      | None \<Rightarrow> Some h)"

definition commandArgumentPrefixCount :: nat where
  "commandArgumentPrefixCount = 2"

text \<open>The first of the words that names a harness.\<close>

definition first_command :: "string list \<Rightarrow> harness option" where
  "first_command ws =
     (case find (\<lambda>w. FromCommand w \<noteq> None) ws of None \<Rightarrow> None | Some w \<Rightarrow> FromCommand w)"

definition hinted_harness :: "proc_info \<Rightarrow> harness option" where
  "hinted_harness p =
     (if pr_AgentHint p = '''' then None
      else case ParseHarness (pr_AgentHint p) of Inr h \<Rightarrow> Some h | Inl _ \<Rightarrow> None)"

definition resolveHarness :: "proc_info \<Rightarrow> harness option" where
  "resolveHarness p =
     (case hinted_harness p of
        Some h \<Rightarrow> observableHarness p h
      | None \<Rightarrow>
          (case FromCommand (pr_Executable p) of
             Some h \<Rightarrow> observableHarness p h
           | None \<Rightarrow>
               (case first_command (take commandArgumentPrefixCount (pr_Args p)) of
                  Some h \<Rightarrow> observableHarness p h
                | None \<Rightarrow>
                    if IsAgentWrapper p then
                      (case first_command (drop commandArgumentPrefixCount (pr_Args p)) of
                         Some h \<Rightarrow> observableHarness p h
                       | None \<Rightarrow> None)
                    else None)))"

definition resolveHarnesses :: "proc_info list \<Rightarrow> harness pid_map" where
  "resolveHarnesses ps =
     foldl (\<lambda>m p. if pr_PID p \<le> 0 \<or> pr_StartIdentity p = '''' then m
                  else (case resolveHarness p of
                    None \<Rightarrow> m
                  | Some h \<Rightarrow> AList.update (pr_PID p) h m)) [] ps"

definition isDirectAgentProcess :: "proc_info \<Rightarrow> bool" where
  "isDirectAgentProcess p =
     (\<not> IsAgentWrapper p
      \<and> (FromCommand (pr_Executable p) \<noteq> None
         \<or> list_ex (\<lambda>arg. FromCommand arg \<noteq> None) (take commandArgumentPrefixCount (pr_Args p))))"

definition preferForegroundProcess :: "proc_info \<Rightarrow> proc_info \<Rightarrow> bool" where
  "preferForegroundProcess c b =
     (if isDirectAgentProcess c \<noteq> isDirectAgentProcess b then isDirectAgentProcess c
      else if (pr_PID c = pr_ProcessGroupID c) \<noteq> (pr_PID b = pr_ProcessGroupID b)
        then pr_PID c = pr_ProcessGroupID c
      else pr_PID c < pr_PID b)"

subsection \<open>Nested agents\<close>

text \<open>
  The parents a walk visits: it stops at a process it has seen, at one that is not in the table,
  and above a process that \<open>through\<close> refuses.
\<close>

function parents :: "(proc_info \<Rightarrow> bool) \<Rightarrow> proc_info pid_map \<Rightarrow> int list \<Rightarrow> int \<Rightarrow> int list" where
  "parents through m seen ppid =
     (if ppid > 0 \<and> ppid \<notin> set seen then
        ppid #
        (case map_of m ppid of
           None \<Rightarrow> []
         | Some q \<Rightarrow> if through q then parents through m (ppid # seen) (pr_PPID q) else [])
      else [])"
  by pat_completeness auto
termination
proof (relation "measure (\<lambda>(through, m, seen, ppid). card (fst ` set m - set seen))")
  fix through :: "proc_info \<Rightarrow> bool" and m :: "proc_info pid_map" and seen ppid q
  assume "0 < ppid \<and> ppid \<notin> set seen" and "map_of m ppid = Some q"
  then have "ppid \<in> fst ` set m - set seen" by (auto dest: map_of_SomeD intro: rev_image_eqI)
  then have "card (fst ` set m - set (ppid # seen)) < card (fst ` set m - set seen)"
    by (intro psubset_card_mono) auto
  then show "((through, m, ppid # seen, pr_PPID q), through, m, seen, ppid)
      \<in> measure (\<lambda>(through, m, seen, ppid). card (fst ` set m - set seen))"
    by simp
qed simp

declare parents.simps [simp del]

definition launchesHarnessThroughWrappers ::
    "int \<Rightarrow> harness \<Rightarrow> proc_info list \<Rightarrow> proc_info pid_map \<Rightarrow> harness pid_map \<Rightarrow> bool" where
  "launchesHarnessThroughWrappers wrapper h ps pm hm =
     list_ex (\<lambda>p. pr_PID p \<noteq> wrapper \<and> deref_or '''' (map_of hm (pr_PID p)) = h
                  \<and> wrapper \<in> set (parents IsAgentWrapper pm [pr_PID p] (pr_PPID p))) ps"

definition hasAncestorHarness ::
    "int \<Rightarrow> harness \<Rightarrow> proc_info pid_map \<Rightarrow> harness pid_map \<Rightarrow> bool" where
  "hasAncestorHarness pid h pm hm =
     (case map_of pm pid of
        None \<Rightarrow> False
      | Some c \<Rightarrow> list_ex (\<lambda>x. map_of hm x = Some h) (parents (\<lambda>_. True) pm [pid] (pr_PPID c)))"

definition prune_wrapper ::
    "proc_info list \<Rightarrow> proc_info pid_map \<Rightarrow> harness pid_map \<Rightarrow> proc_info \<Rightarrow> harness pid_map" where
  "prune_wrapper ps pm hm p =
     (case map_of hm (pr_PID p) of
        None \<Rightarrow> hm
      | Some h \<Rightarrow>
          if IsAgentWrapper p \<and> launchesHarnessThroughWrappers (pr_PID p) h ps pm hm
          then AList.delete (pr_PID p) hm else hm)"

definition prune_nested :: "proc_info pid_map \<Rightarrow> harness pid_map \<Rightarrow> proc_info \<Rightarrow> harness pid_map" where
  "prune_nested pm hm p =
     (case map_of hm (pr_PID p) of
        None \<Rightarrow> hm
      | Some h \<Rightarrow>
          if hasAncestorHarness (pr_PID p) h pm hm then AList.delete (pr_PID p) hm else hm)"

definition pruneNestedHarnesses ::
    "proc_info list \<Rightarrow> proc_info pid_map \<Rightarrow> harness pid_map \<Rightarrow> harness pid_map" where
  "pruneNestedHarnesses ps pm hm =
     foldl (prune_nested pm) (foldl (prune_wrapper ps pm) hm ps) ps"

definition harness_at :: "harness pid_map \<Rightarrow> int \<Rightarrow> harness" where
  "harness_at hm pid = deref_or '''' (map_of hm pid)"

text \<open>The loop of \<open>nestedHarnessProcess\<close>, which takes as many turns as the table has entries.\<close>

fun nested_walk :: "nat \<Rightarrow> proc_info \<Rightarrow> proc_info \<Rightarrow> proc_info pid_map \<Rightarrow> harness pid_map \<Rightarrow> bool" where
  "nested_walk 0 p ancestor pm hm = False"
| "nested_walk (Suc n) p ancestor pm hm =
     (case map_of pm (pr_PPID ancestor) of
        None \<Rightarrow> False
      | Some q \<Rightarrow>
          if pr_PID q = pr_PID ancestor \<or> pr_PID q = pr_PID p then False
          else if harness_at hm (pr_PID q) \<noteq> '''' then True
          else nested_walk n p q pm hm)"

definition nestedHarnessProcess ::
    "proc_info \<Rightarrow> proc_info pid_map \<Rightarrow> harness pid_map \<Rightarrow> bool" where
  "nestedHarnessProcess p pm hm = nested_walk (length pm) p p pm hm"

definition drop_foreground ::
    "proc_info pid_map \<Rightarrow> harness pid_map \<Rightarrow> proc_info \<Rightarrow> proc_info" where
  "drop_foreground pm hm p =
     (if \<not> pr_Foreground p \<or> harness_at hm (pr_PID p) = '''' then p
      else if nestedHarnessProcess p pm hm then p\<lparr>pr_Foreground := False\<rparr> else p)"

text \<open>The processes are changed in place and the table is filled from them again.\<close>

definition normalizeHarnessForeground ::
    "proc_info list \<Rightarrow> proc_info pid_map \<Rightarrow> harness pid_map \<Rightarrow> proc_info list \<times> proc_info pid_map" where
  "normalizeHarnessForeground ps pm hm =
     (let ps' = map (drop_foreground pm hm) ps
      in (ps', foldl (\<lambda>m p. AList.update (pr_PID p) p m) pm ps'))"

subsection \<open>Catalog entries\<close>

record catalog_entry =
  ce_Harness :: harness
  ce_SessionID :: string
  ce_SessionPath :: string
  ce_ResumeCommand :: "string list"
  ce_CWD :: string
  ce_ProjectRoot :: string
  ce_ProcessPID :: int
  ce_Current :: bool
  ce_Activity :: activity
  ce_Attributes :: attributes
  ce_Title :: string
  ce_Reporter :: reporter

definition native_catalog_entry :: "native_entry \<Rightarrow> catalog_entry" where
  "native_catalog_entry e =
     (let s = ne_Session e in
      \<lparr>ce_Harness = ne_Harness e, ce_SessionID = cs_SessionID s, ce_SessionPath = cs_SessionPath s,
       ce_ResumeCommand = cs_ResumeCommand s, ce_CWD = cs_CWD s, ce_ProjectRoot = cs_ProjectRoot s,
       ce_ProcessPID = cs_ProcessPID s, ce_Current = cs_Current s, ce_Activity = cs_Activity s,
       ce_Attributes = cs_Attributes s, ce_Title = cs_Title s, ce_Reporter = ne_Reporter e\<rparr>)"

datatype catalog_failure =
  CatalogEntryHarness nat
  | CatalogEntryUnknown nat catalog_error
  | CatalogTooLarge
  | CatalogReading
  | CatalogDecoding
  | CatalogContext
  | CatalogNative "native_failure list"

text \<open>
  \<open>payload\<close> is what the environment variables hold, or why it cannot be read; \<open>decode\<close> is the
  decoder of JSON.
\<close>

fun normalize_entries :: "nat \<Rightarrow> catalog_entry list \<Rightarrow> catalog_failure + catalog_entry list" where
  "normalize_entries i [] = Inr []"
| "normalize_entries i (e # es) =
     (if ce_Harness e = '''' then Inl (CatalogEntryHarness i)
      else case ParseHarness (ce_Harness e) of
        Inl err \<Rightarrow> Inl (CatalogEntryUnknown i err)
      | Inr h \<Rightarrow>
          (case normalize_entries (Suc i) es of
             Inl err \<Rightarrow> Inl err
           | Inr es' \<Rightarrow> Inr (e\<lparr>ce_Harness := h\<rparr> # es')))"

definition configuredCatalog ::
    "(string \<Rightarrow> catalog_entry list option) \<Rightarrow> catalog_failure + string
     \<Rightarrow> catalog_failure + catalog_entry list" where
  "configuredCatalog decode payload =
     (case payload of
        Inl e \<Rightarrow> Inl e
      | Inr '''' \<Rightarrow> Inr []
      | Inr text \<Rightarrow>
          (case decode text of
             None \<Rightarrow> Inl CatalogDecoding
           | Some es \<Rightarrow> normalize_entries 0 es))"

definition defaultCatalogList ::
    "bool \<Rightarrow> catalog_failure + catalog_entry list \<Rightarrow> native_entry list \<times> native_failure list
     \<Rightarrow> catalog_entry list \<times> catalog_failure list" where
  "defaultCatalogList cancelled configured native =
     (if cancelled then ([], [CatalogContext])
      else ((case configured of Inl _ \<Rightarrow> [] | Inr es \<Rightarrow> es) @ map native_catalog_entry (fst native),
            (case configured of Inl e \<Rightarrow> [e] | Inr _ \<Rightarrow> []) @
            (if snd native = [] then [] else [CatalogNative (snd native)])))"

definition catalogListedProcess :: "catalog_entry \<Rightarrow> proc_info pid_map \<Rightarrow> proc_info option" where
  "catalogListedProcess e pm =
     (case map_of pm (ce_ProcessPID e) of
        None \<Rightarrow> None
      | Some p \<Rightarrow>
          if pr_PID p \<le> 0 \<or> pr_StartIdentity p = '''' then None
          else if FromCommand (pr_Executable p) \<noteq> None
                \<and> FromCommand (pr_Executable p) \<noteq> Some (ce_Harness e) then None
          else if resolveHarness p = Some (ce_Harness e) then Some p else None)"

definition claim_entry ::
    "proc_info pid_map \<Rightarrow> catalog_entry list \<times> catalog_entry pid_map \<Rightarrow> catalog_entry
     \<Rightarrow> catalog_entry list \<times> catalog_entry pid_map" where
  "claim_entry pm st e =
     (let (es, cm) = st in
      if \<not> ce_Current e \<or> ce_ProcessPID e \<le> 0 then (es @ [e], cm)
      else if catalogListedProcess e pm = None
        then (es @ [e\<lparr>ce_Current := False, ce_ProcessPID := 0\<rparr>], cm)
      else (es @ [e], AList.update (ce_ProcessPID e) e cm))"

definition claimCurrentCatalogEntries ::
    "catalog_entry list \<Rightarrow> proc_info pid_map \<Rightarrow> catalog_entry list \<times> catalog_entry pid_map" where
  "claimCurrentCatalogEntries es pm = foldl (claim_entry pm) ([], []) es"

end
