(* ===== verification/Aht_Panes.thy ===== *)
theory Aht_Panes
  imports Aht_Agents
begin

section \<open>Agents in the panes of multiplexers: \<open>internal/observer/multiplexer.go\<close>\<close>

text \<open>
  The inventory of a multiplexer names panes and the processes in them. A pane is given the agent
  that is in the foreground of its terminal, or one its processes launched, or one that carries
  its identity in its environment, or the only one that fits its command and directory.
\<close>

record process_ref =
  pf_PID :: int
  pf_ProcessGroupID :: int
  pf_Command :: string
  pf_CWD :: string

record pane =
  pn_Location :: location
  pn_Processes :: "process_ref list"
  pn_ProcessTTY :: string
  pn_Command :: string
  pn_CWD :: string
  pn_Title :: string
  pn_Activity :: "activity option"
  pn_StateReason :: string

definition multiplexerPriority :: "multiplexer_kind \<Rightarrow> int" where
  "multiplexerPriority k =
     (if k = MultiplexerHerdr then 3 else if k = MultiplexerZellij then 2
      else if k = MultiplexerTmux then 1 else 0)"

definition sortPanesByPriority :: "pane list \<Rightarrow> pane list" where
  "sortPanesByPriority ps =
     sort_func (\<lambda>l r. compare (multiplexerPriority (l_Kind (pn_Location r)))
                              (multiplexerPriority (l_Kind (pn_Location l)))) ps"

definition paneLocation :: "pane \<Rightarrow> location" where
  "paneLocation p =
     (let l = pn_Location p;
          l1 = (if l_PanePID l = 0 \<and> pn_Processes p \<noteq> []
                then l\<lparr>l_PanePID := pf_PID (hd (pn_Processes p))\<rparr> else l)
      in if l_PaneTTY l1 = '''' then l1\<lparr>l_PaneTTY := pn_ProcessTTY p\<rparr> else l1)"

text \<open>
  The drivers are asked in turn and a failing one is left out; what a driver lists is a parameter.
\<close>

definition listMultiplexerPanes :: "('e + pane list) list \<Rightarrow> pane list \<times> 'e list" where
  "listMultiplexerPanes drivers =
     (concat (map (\<lambda>d. case d of Inl _ \<Rightarrow> [] | Inr ps \<Rightarrow> ps) drivers),
      List.map_filter (\<lambda>d. case d of Inl e \<Rightarrow> Some e | Inr _ \<Rightarrow> None) drivers)"

definition captureMultiplexerPane ::
    "(multiplexer_kind \<times> (pane \<Rightarrow> 'e + string \<times> string)) list \<Rightarrow> pane
     \<Rightarrow> 'e option + string \<times> string" where
  "captureMultiplexerPane drivers p =
     (case map_of drivers (l_Kind (pn_Location p)) of
        None \<Rightarrow> Inl None
      | Some capture \<Rightarrow> (case capture p of Inl e \<Rightarrow> Inl (Some e) | Inr s \<Rightarrow> Inr s))"

definition locationPresence ::
    "(location \<Rightarrow> 'e + presence) \<Rightarrow> location \<Rightarrow> 'e + presence" where
  "locationPresence tmux l = (if l_Kind l = MultiplexerTmux then tmux l else Inr PresenceUnknown)"

subsection \<open>Processes tied to a pane\<close>

fun descends_walk :: "nat \<Rightarrow> proc_info \<Rightarrow> int \<Rightarrow> proc_info pid_map \<Rightarrow> bool" where
  "descends_walk 0 p root pm = False"
| "descends_walk (Suc n) p root pm =
     (if pr_PPID p = root then True
      else case map_of pm (pr_PPID p) of
        None \<Rightarrow> False
      | Some q \<Rightarrow> if pr_PID q = pr_PID p then False else descends_walk n q root pm)"

definition processDescendsFrom :: "proc_info \<Rightarrow> int \<Rightarrow> proc_info pid_map \<Rightarrow> bool" where
  "processDescendsFrom p root pm = (root > 0 \<and> descends_walk (length pm) p root pm)"

definition herdrIdentityMatches :: "proc_info \<Rightarrow> location \<Rightarrow> bool" where
  "herdrIdentityMatches p l =
     ((pr_MultiplexerServer p \<noteq> '''' \<and> l_ServerID l \<noteq> '''' \<and> pr_MultiplexerServer p = l_ServerID l)
      \<or> (pr_MultiplexerSession p \<noteq> '''' \<and> l_SessionName l \<noteq> ''''
         \<and> pr_MultiplexerSession p = l_SessionName l))"

definition multiplexerIdentityMatches :: "proc_info \<Rightarrow> location \<Rightarrow> bool" where
  "multiplexerIdentityMatches p l =
     (if pr_MultiplexerKind p = '''' \<or> pr_MultiplexerKind p \<noteq> l_Kind l then False
      else if l_Kind l = MultiplexerZellij
           \<and> (pr_MultiplexerSession p = '''' \<or> l_SessionName l = ''''
              \<or> pr_MultiplexerSession p \<noteq> l_SessionName l) then False
      else if l_Kind l = MultiplexerHerdr \<and> \<not> herdrIdentityMatches p l then False
      else if l_Kind l = MultiplexerTmux then False
      else NormalizePaneID (l_Kind l) (pr_MultiplexerPane p) = NormalizePaneID (l_Kind l) (l_PaneID l))"

definition processTiedToPane :: "proc_info \<Rightarrow> pane \<Rightarrow> proc_info pid_map \<Rightarrow> bool" where
  "processTiedToPane p pn pm =
     (let l = paneLocation pn in
      (l_PaneTTY l \<noteq> '''' \<and> pr_TTY p = l_PaneTTY l)
      \<or> pr_PID p = l_PanePID l \<or> processDescendsFrom p (l_PanePID l) pm
      \<or> list_ex (\<lambda>r. pr_PID p = pf_PID r \<or> processDescendsFrom p (pf_PID r) pm) (pn_Processes pn)
      \<or> multiplexerIdentityMatches p l)"

definition paneForegroundKnown :: "pane \<Rightarrow> proc_info list \<Rightarrow> bool" where
  "paneForegroundKnown pn ps =
     (let tty = l_PaneTTY (paneLocation pn) in
      list_ex (\<lambda>p. tty \<noteq> '''' \<and> pr_TTY p = tty \<and> (pr_Foreground p \<or> pr_ProcessGroupID p > 0)) ps)"

subsection \<open>The agent of a pane\<close>

text \<open>
  The process a loop selects: the first that fits, replaced by a later one that is preferred. The
  code starts from the zero process and tests its identifier, so a selected process whose
  identifier is zero would be replaced by any other.
\<close>

fun select_process ::
    "(proc_info \<Rightarrow> bool) \<Rightarrow> harness pid_map \<Rightarrow> proc_info \<times> harness \<Rightarrow> proc_info list
     \<Rightarrow> proc_info \<times> harness" where
  "select_process fits hm best [] = best"
| "select_process fits hm best (p # ps) =
     select_process fits hm
       (case map_of hm (pr_PID p) of
          None \<Rightarrow> best
        | Some h \<Rightarrow>
            if fits p \<and> (pr_PID (fst best) = 0 \<or> preferForegroundProcess p (fst best))
            then (p, h) else best) ps"

definition selected :: "proc_info \<times> harness \<Rightarrow> (proc_info \<times> harness) option" where
  "selected b = (if pr_PID (fst b) \<noteq> 0 then Some b else None)"

definition foregroundPaneProcess ::
    "pane \<Rightarrow> proc_info list \<Rightarrow> harness pid_map \<Rightarrow> (proc_info \<times> harness) option" where
  "foregroundPaneProcess pn ps hm =
     (let tty = l_PaneTTY (paneLocation pn) in
      selected (select_process (\<lambda>p. pr_Foreground p \<and> tty \<noteq> '''' \<and> pr_TTY p = tty) hm
                  (zero_proc, '''') ps))"

definition processMatchingMultiplexerIdentity ::
    "pane \<Rightarrow> proc_info list \<Rightarrow> harness pid_map \<Rightarrow> (proc_info \<times> harness) option" where
  "processMatchingMultiplexerIdentity pn ps hm =
     selected (select_process (\<lambda>p. multiplexerIdentityMatches p (pn_Location pn)) hm
                 (zero_proc, '''') ps)"

text \<open>
  The inner loop of \<open>descendantHarnessProcess\<close> is the walk above, with as many turns as there are
  processes; above the root of an agent it does not go on.
\<close>

definition descendantHarnessProcess ::
    "int \<Rightarrow> proc_info list \<Rightarrow> proc_info pid_map \<Rightarrow> harness pid_map \<Rightarrow> (proc_info \<times> harness) option" where
  "descendantHarnessProcess root ps pm hm =
     (if root \<le> 0 then None
      else map_option (\<lambda>p. (p, harness_at hm (pr_PID p)))
        (find (\<lambda>p. map_of hm (pr_PID p) \<noteq> None \<and> descends_walk (length ps) p root pm) ps))"

definition referenced_process ::
    "proc_info list \<Rightarrow> proc_info pid_map \<Rightarrow> harness pid_map \<Rightarrow> process_ref
     \<Rightarrow> (proc_info \<times> harness) option" where
  "referenced_process ps pm hm r =
     (case (case map_of pm (pf_PID r) of
              None \<Rightarrow> None
            | Some p \<Rightarrow> map_option (\<lambda>h. (p, h)) (map_of hm (pr_PID p))) of
        Some x \<Rightarrow> Some x
      | None \<Rightarrow> descendantHarnessProcess (pf_PID r) ps pm hm)"

text \<open>\<open>strings.Fields\<close>, as far as its first field.\<close>

function first_field :: "string \<Rightarrow> string" where
  "first_field s =
     (case strip_one white_space s of
        Some _ \<Rightarrow> ''''
      | None \<Rightarrow> (case s of [] \<Rightarrow> '''' | c # cs \<Rightarrow> c # first_field cs))"
  by pat_completeness auto
termination
  by (relation "measure length") auto

declare first_field.simps [simp del]

definition commandPaneKey :: "pane \<Rightarrow> (string \<times> harness) option" where
  "commandPaneKey pn =
     (if pn_CWD pn = '''' then None
      else let field = first_field (trim_left white_space (pn_Command pn)) in
        if field = '''' then None
        else map_option (\<lambda>h. (h @ CHR 0x00 # path_clean (pn_CWD pn), h)) (FromCommand (path_base field)))"

definition commandPaneCounts :: "pane list \<Rightarrow> string \<Rightarrow> nat" where
  "commandPaneCounts pns key = length (filter (\<lambda>k. fst k = key) (List.map_filter commandPaneKey pns))"

definition commandPaneProcess ::
    "pane \<Rightarrow> proc_info list \<Rightarrow> harness pid_map \<Rightarrow> (string \<Rightarrow> nat) \<Rightarrow> (proc_info \<times> harness) option" where
  "commandPaneProcess pn ps hm counts =
     (case commandPaneKey pn of
        None \<Rightarrow> None
      | Some (key, h) \<Rightarrow>
          if counts key \<noteq> 1 then None
          else
            (case foldl (\<lambda>st p.
                     case st of
                       None \<Rightarrow> None
                     | Some best \<Rightarrow>
                         if harness_at hm (pr_PID p) \<noteq> h then Some best
                         else if pr_CWD p = '''' \<or> pn_CWD pn \<noteq> pr_CWD p then Some best
                         else if pr_PID best \<noteq> 0 then None
                         else Some p) (Some zero_proc) ps of
               None \<Rightarrow> None
             | Some best \<Rightarrow> selected (best, h)))"

definition multiplexerPaneProcess ::
    "pane \<Rightarrow> proc_info list \<Rightarrow> proc_info pid_map \<Rightarrow> harness pid_map \<Rightarrow> (string \<Rightarrow> nat)
     \<Rightarrow> (proc_info \<times> harness) option" where
  "multiplexerPaneProcess pn ps pm hm counts =
     (case foregroundPaneProcess pn ps hm of
        Some x \<Rightarrow> Some x
      | None \<Rightarrow>
          (case find (\<lambda>r. referenced_process ps pm hm r \<noteq> None) (pn_Processes pn) of
             Some r \<Rightarrow> referenced_process ps pm hm r
           | None \<Rightarrow>
               (case processMatchingMultiplexerIdentity pn ps hm of
                  Some x \<Rightarrow> Some x
                | None \<Rightarrow> commandPaneProcess pn ps hm counts)))"

end
