(* ===== verification/Aht_Sightings.thy ===== *)
theory Aht_Sightings
  imports Aht_Panes
begin

section \<open>What a cycle observes: \<open>internal/observer/observer.go\<close>\<close>

text \<open>
  The observations a cycle makes from its inventory: that a process is there or is gone, where it
  runs, what its screen and its catalog say, and what has become of a session whose process nobody
  can see.
\<close>

text \<open>An observation about a process, which names no session.\<close>

definition bare_observation :: "harness \<Rightarrow> time \<Rightarrow> evidence \<Rightarrow> observation" where
  "bare_observation h at ev =
     \<lparr>ob_Harness = h, ob_At = at, ob_Subject = zero_identity, ob_Evidence = ev\<rparr>"

record process_key =
  pk_harness :: harness
  pk_pid :: int
  pk_start :: string

record tracked_process =
  tk_process :: proc_info
  tk_missingSince :: time
  tk_missingCount :: int

record cycle_inventory =
  ci_processes :: "proc_info list"
  ci_processByPID :: "proc_info pid_map"
  ci_harnessByPID :: "harness pid_map"
  ci_knownSessions :: "session list"

type_synonym tracked_map = "(process_key \<times> tracked_process) list"

definition process_key_of :: "harness \<Rightarrow> proc_info \<Rightarrow> process_key" where
  "process_key_of h p = \<lparr>pk_harness = h, pk_pid = pr_PID p, pk_start = pr_StartIdentity p\<rparr>"

subsection \<open>Processes that are there\<close>

definition sighting_subject :: "catalog_entry pid_map \<Rightarrow> harness \<Rightarrow> proc_info \<Rightarrow> observation_identity" where
  "sighting_subject cm h p =
     (case map_of cm (pr_PID p) of
        None \<Rightarrow> zero_identity
      | Some e \<Rightarrow>
          if ce_Harness e = h
          then \<lparr>oi_SessionID = ce_SessionID e, oi_SessionPath = ce_SessionPath e, oi_CWD = ce_CWD e,
                oi_Attributes = fmempty\<rparr>
          else zero_identity)"

definition sighting_turn ::
    "catalog_entry pid_map \<Rightarrow> harness pid_map \<Rightarrow> time \<Rightarrow> observation list \<times> tracked_map \<Rightarrow> proc_info
     \<Rightarrow> observation list \<times> tracked_map" where
  "sighting_turn cm hm at st p =
     (case map_of hm (pr_PID p) of
        None \<Rightarrow> st
      | Some h \<Rightarrow>
          (fst st @ [\<lparr>ob_Harness = h, ob_At = at, ob_Subject = sighting_subject cm h p,
                      ob_Evidence = EvSighting \<lparr>si_Process = processIdentity p, si_Present = True\<rparr>\<rparr>],
           AList.update (process_key_of h p)
             \<lparr>tk_process = p, tk_missingSince = 0, tk_missingCount = 0\<rparr> (snd st)))"

definition processSightings ::
    "cycle_inventory \<Rightarrow> catalog_entry pid_map \<Rightarrow> time \<Rightarrow> observation list \<times> tracked_map" where
  "processSightings ci cm at =
     foldl (sighting_turn cm (ci_harnessByPID ci) at) ([], []) (ci_processes ci)"

subsection \<open>Places\<close>

definition placement_observation :: "harness \<Rightarrow> proc_info \<Rightarrow> location \<Rightarrow> time \<Rightarrow> observation" where
  "placement_observation h p l at =
     bare_observation h at (EvPlacement \<lparr>pl_Process = processIdentity p, pl_Location = l\<rparr>)"

text \<open>The agent of the pane, if there is one, and every agent tied to it that has no place yet.\<close>

definition placed_in_pane ::
    "cycle_inventory \<Rightarrow> pane \<Rightarrow> (proc_info \<times> harness) option \<Rightarrow> int list \<Rightarrow> proc_info \<Rightarrow> bool" where
  "placed_in_pane ci pn chosen claimed c =
     (harness_at (ci_harnessByPID ci) (pr_PID c) \<noteq> '''' \<and> pr_PID c \<notin> set claimed
      \<and> ((case chosen of None \<Rightarrow> False | Some (p, _) \<Rightarrow> pr_PID c = pr_PID p)
         \<or> processTiedToPane c pn (ci_processByPID ci)))"

fun panePlacementObservations ::
    "cycle_inventory \<Rightarrow> pane \<Rightarrow> (proc_info \<times> harness) option \<Rightarrow> time \<Rightarrow> int list \<Rightarrow> proc_info list
     \<Rightarrow> observation list \<times> int list" where
  "panePlacementObservations ci pn chosen at claimed [] = ([], claimed)"
| "panePlacementObservations ci pn chosen at claimed (c # cs) =
     (if placed_in_pane ci pn chosen claimed c then
        (let (obs, claimed') = panePlacementObservations ci pn chosen at (pr_PID c # claimed) cs
         in (placement_observation (harness_at (ci_harnessByPID ci) (pr_PID c)) c (paneLocation pn) at
               # obs, claimed'))
      else panePlacementObservations ci pn chosen at claimed cs)"

subsection \<open>Screens\<close>

definition sessionForProcess :: "session list \<Rightarrow> harness \<Rightarrow> process_identity \<Rightarrow> session" where
  "sessionForProcess ss h q =
     (case find (\<lambda>s. s_Harness s = h \<and> (case s_Process s of None \<Rightarrow> False | Some p \<Rightarrow> process_equal p q)) ss of
        Some s \<Rightarrow> s
      | None \<Rightarrow> zero_session\<lparr>s_Harness := h, s_Process := Some q\<rparr>)"

definition shouldDetectScreen :: "session \<Rightarrow> time \<Rightarrow> bool" where
  "shouldDetectScreen s at =
     (let pol = catalog_Policy (s_Harness s) in
      if SupportsScreen (s_Harness s) then fst (ActivityAuthority s pol at) = AuthorityScreen
      else pol_Authority pol = AuthorityHook \<and> \<not> he_Active (EvaluateHook s pol at))"

definition screenFallbackMetadata :: "session \<Rightarrow> harness \<Rightarrow> time \<Rightarrow> string \<times> string" where
  "screenFallbackMetadata s h at =
     (let pol = catalog_Policy h in
      if pol_Authority pol \<noteq> AuthorityHook then ('''', '''')
      else (pol_Reporter pol, he_Reason (EvaluateHook s pol at)))"

definition screenObservationTime :: "time \<Rightarrow> time \<Rightarrow> time" where
  "screenObservationTime cycleAt capturedAt = (if capturedAt < cycleAt then cycleAt else capturedAt)"

text \<open>A reading whose activity and reason are given, with what it falls back from.\<close>

definition screen_reading ::
    "session \<Rightarrow> harness \<Rightarrow> process_identity \<Rightarrow> time \<Rightarrow> activity \<Rightarrow> string \<Rightarrow> screen_observation" where
  "screen_reading s h q at act reason =
     \<lparr>sc_Detail = no_detail, sc_Activity = act, sc_Authority = AuthorityScreen, sc_Reason = reason,
      sc_RuleID = [], sc_ManifestSource = [], sc_ManifestVersion = 0,
      sc_FallbackForIntegration = fst (screenFallbackMetadata s h at),
      sc_FallbackReason = snd (screenFallbackMetadata s h at), sc_Process = q, sc_ObservedAt = at\<rparr>"

definition unavailableScreenState ::
    "(harness \<Rightarrow> bool) \<Rightarrow> session list \<Rightarrow> harness \<Rightarrow> proc_info \<Rightarrow> time \<Rightarrow> string \<Rightarrow> observation option" where
  "unavailableScreenState supported ss h p at reason =
     (let q = processIdentity p; s = sessionForProcess ss h q in
      if \<not> supported h \<or> \<not> shouldDetectScreen s at then None
      else Some (bare_observation h at (EvReading (screen_reading s h q at ActivityUnknown reason))))"

definition unlocated_process ::
    "(harness \<Rightarrow> bool) \<Rightarrow> session list \<Rightarrow> proc_info pid_map \<Rightarrow> int list \<Rightarrow> time \<Rightarrow> bool
     \<Rightarrow> int \<times> harness \<Rightarrow> observation list" where
  "unlocated_process supported ss pm claimed at inspect x =
     (let (pid, h) = x; p = deref_or zero_proc (map_of pm pid) in
      if pid \<in> set claimed then []
      else placement_observation h p zero_location at
        # (if \<not> inspect then []
           else case unavailableScreenState supported ss h p at ''screen_not_in_supported_multiplexer'' of
             None \<Rightarrow> []
           | Some ob \<Rightarrow> [ob]))"

text \<open>\<open>hm\<close> is the map in the order its range loop takes.\<close>

definition observationsForUnlocatedProcesses ::
    "(harness \<Rightarrow> bool) \<Rightarrow> session list \<Rightarrow> proc_info pid_map \<Rightarrow> harness pid_map \<Rightarrow> int list \<Rightarrow> time
     \<Rightarrow> bool \<Rightarrow> observation list" where
  "observationsForUnlocatedProcesses supported ss pm hm claimed at inspect =
     concat (map (unlocated_process supported ss pm claimed at inspect) hm)"

subsection \<open>Catalog entries\<close>

definition entry_subject :: "catalog_entry \<Rightarrow> observation_identity" where
  "entry_subject e =
     \<lparr>oi_SessionID = ce_SessionID e, oi_SessionPath = ce_SessionPath e, oi_CWD = ce_CWD e,
      oi_Attributes = ce_Attributes e\<rparr>"

definition entry_listing :: "catalog_entry \<Rightarrow> string \<Rightarrow> listing" where
  "entry_listing e start =
     \<lparr>li_ResumeCommand = ce_ResumeCommand e, li_CWD = ce_CWD e, li_ProjectRoot = ce_ProjectRoot e,
      li_ProcessPID = ce_ProcessPID e, li_ProcessStartIdentity = start, li_Current = ce_Current e\<rparr>"

definition catalogActivityReport :: "catalog_entry \<Rightarrow> proc_info pid_map \<Rightarrow> report option" where
  "catalogActivityReport e pm =
     (if \<not> ce_Current e \<or> rp_Integration (ce_Reporter e) = '''' \<or> \<not> activity_valid (ce_Activity e)
      then None
      else case catalogListedProcess e pm of
        None \<Rightarrow> None
      | Some p \<Rightarrow>
          Some \<lparr>r_DetailObservedAt = None, r_Detail = None, r_Reporter = ce_Reporter e,
                r_Event = ''catalog.activity'', r_Lifecycle = None, r_Claim = None,
                r_Activity = Some (ce_Activity e), r_Process = Some (processIdentity p),
                r_Location = None, r_Listing = Some (entry_listing e ''''),
                r_Attributes = ce_Attributes e, r_Payload = []\<rparr>)"

definition entry_observations :: "proc_info pid_map \<Rightarrow> time \<Rightarrow> catalog_entry \<Rightarrow> observation list" where
  "entry_observations pm at e =
     (if ce_Harness e = '''' \<or> ce_SessionID e = '''' then []
      else
        (let start = (if ce_Current e then
                        (case catalogListedProcess e pm of None \<Rightarrow> '''' | Some p \<Rightarrow> pr_StartIdentity p)
                      else '''')
         in \<lparr>ob_Harness = ce_Harness e, ob_At = at, ob_Subject = entry_subject e,
             ob_Evidence = EvListing (entry_listing e start)\<rparr>
            # (case catalogActivityReport e pm of
                 None \<Rightarrow> []
               | Some r \<Rightarrow>
                   [PrepareObservation \<lparr>ob_Harness = ce_Harness e, ob_At = at,
                      ob_Subject = entry_subject e, ob_Evidence = EvReport r\<rparr>])))"

definition catalogObservations ::
    "catalog_entry list \<Rightarrow> proc_info pid_map \<Rightarrow> time \<Rightarrow> observation list" where
  "catalogObservations es pm at = concat (map (entry_observations pm at) es)"

subsection \<open>Sessions whose process nobody sees\<close>

definition absence_of_process :: "process_identity \<Rightarrow> sighting" where
  "absence_of_process q =
     \<lparr>si_Process = zero_process\<lparr>p_PID := p_PID q, p_StartIdentity := p_StartIdentity q\<rparr>,
      si_Present = False\<rparr>"

definition complete_process :: "session \<Rightarrow> bool" where
  "complete_process s = (case s_Process s of None \<Rightarrow> False | Some q \<Rightarrow> process_complete q)"

definition unobservedSessionAbsence ::
    "session \<Rightarrow> proc_info pid_map \<Rightarrow> time \<Rightarrow> observation option" where
  "unobservedSessionAbsence s pm at =
     (if complete_process s then
        (let q = deref_or zero_process (s_Process s) in
         if (case map_of pm (p_PID q) of
               None \<Rightarrow> False
             | Some p \<Rightarrow> pr_StartIdentity p = '''' \<or> pr_StartIdentity p = p_StartIdentity q)
         then None
         else Some (bare_observation (s_Harness s) at (EvSighting (absence_of_process q))))
      else if s_Process s = None \<and> l_PanePID (s_Location s) > 0 then
        (if map_of pm (l_PanePID (s_Location s)) \<noteq> None then None
         else Some
           \<lparr>ob_Harness = s_Harness s, ob_At = at,
            ob_Subject =
              \<lparr>oi_SessionID = s_SessionID s, oi_SessionPath = s_SessionPath s, oi_CWD = s_CWD s,
               oi_Attributes =
                 (case o_Native (s_Observations s) of None \<Rightarrow> fmempty | Some n \<Rightarrow> n_Attributes n)\<rparr>,
            ob_Evidence = EvSighting \<lparr>si_Process = zero_process, si_Present = False\<rparr>\<rparr>)
      else None)"

definition isProcessTracked :: "tracked_map \<Rightarrow> session \<Rightarrow> bool" where
  "isProcessTracked tracked s =
     (case s_Process s of
        None \<Rightarrow> False
      | Some q \<Rightarrow>
          list_ex (\<lambda>(k, _). pk_harness k = s_Harness s \<and> pk_pid k = p_PID q
                     \<and> (pk_start k = '''' \<or> p_StartIdentity q = '''' \<or> pk_start k = p_StartIdentity q))
            tracked)"

text \<open>
  What becomes of one session: an observation, or \<open>None\<close>, and whether its location could not be
  checked.
\<close>

definition reconcile_session ::
    "(location \<Rightarrow> presence option) \<Rightarrow> tracked_map \<Rightarrow> proc_info pid_map \<Rightarrow> time \<Rightarrow> session
     \<Rightarrow> observation option \<times> bool" where
  "reconcile_session where_is tracked pm at s =
     (if s_Presence s = PresenceGone \<or> isProcessTracked tracked s then (None, False)
      else case unobservedSessionAbsence s pm at of
        Some ob \<Rightarrow> (Some ob, False)
      | None \<Rightarrow>
          if complete_process s then (None, False)
          else
            (let found = where_is (s_Location s);
                 gone = (found = Some PresenceGone);
                 presence = (if gone then PresenceGone else PresenceUnknown);
                 reason = (if gone then ''location_gone'' else ''owner_unverified'')
             in (if s_Presence s = presence
                    \<and> (case s_Decision s of None \<Rightarrow> False | Some d \<Rightarrow> d_Reason d = reason) then None
                 else Some
                   \<lparr>ob_Harness = s_Harness s, ob_At = at,
                    ob_Subject =
                      \<lparr>oi_SessionID = s_SessionID s, oi_SessionPath = s_SessionPath s, oi_CWD = [],
                       oi_Attributes = fmempty\<rparr>,
                    ob_Evidence = EvVerification \<lparr>v_Presence = presence, v_Reason = reason\<rparr>\<rparr>,
                 found = None)))"

definition reconcileUnobservedSessions ::
    "(location \<Rightarrow> presence option) \<Rightarrow> tracked_map \<Rightarrow> session list \<Rightarrow> proc_info pid_map \<Rightarrow> time
     \<Rightarrow> observation list \<times> string list" where
  "reconcileUnobservedSessions where_is tracked ss pm at =
     (List.map_filter (\<lambda>s. fst (reconcile_session where_is tracked pm at s)) ss,
      map s_ID (filter (\<lambda>s. snd (reconcile_session where_is tracked pm at s)) ss))"

definition goneVerificationCount :: "observation list \<Rightarrow> nat" where
  "goneVerificationCount obs =
     length (filter (\<lambda>ob. case ob_Evidence ob of
                       EvVerification v \<Rightarrow> v_Presence v = PresenceGone
                     | _ \<Rightarrow> True) obs)"

end
