(* ===== verification/Aht_Observer.thy ===== *)
theory Aht_Observer
  imports Aht_Sightings
begin

section \<open>The observer: \<open>internal/observer/observer.go\<close>\<close>

text \<open>
  The observer runs one cycle after another. A cycle takes an inventory of processes, panes and
  catalogs, turns it into observations, and gives them to the store; between cycles it remembers
  which agents it tracks, which processes are not confirmed yet, and which readings of a screen
  wait for a second one. What a cycle meets is the record \<open>cycle_world\<close>; the store is a record of
  its operations on a state of its own.
\<close>

definition defaultMissingSnapshots :: int where
  "defaultMissingSnapshots = 2"

definition defaultProcessConfirmation :: duration where
  "defaultProcessConfirmation = 3 * second"

definition defaultObserverInterval :: duration where
  "defaultObserverInterval = second"

definition healthWriteInterval :: duration where
  "healthWriteInterval = 30 * second"

definition initialScreenConfirmations :: int where
  "initialScreenConfirmations = 2"

record pending_decision =
  pd_activity :: activity
  pd_ruleID :: string
  pd_confirmations :: int

definition zero_pending :: pending_decision where
  "zero_pending = \<lparr>pd_activity = no_activity, pd_ruleID = [], pd_confirmations = 0\<rparr>"

type_synonym pending_map = "(process_key \<times> pending_decision) list"

type_synonym candidate_map = "(process_key \<times> time) list"

datatype detect_error =
  DetectLoading harness manifest_error
  | DetectCapturing harness string
  | DetectOverrideInvalid string

datatype cycle_error =
  CycleRegistry string reg_error
  | CycleProcesses
  | CyclePanes
  | CycleCatalog "catalog_failure list"
  | CycleDetection detect_error
  | CycleLocations "string list"
  | CycleObservations reg_error "(nat \<times> reg_error) list"
  | CycleDegraded
  | CycleHealth

record health =
  ht_PID :: int
  ht_StartIdentity :: string
  ht_Interval :: duration
  ht_GracePeriod :: duration
  ht_StartedAt :: time
  ht_LastAttemptAt :: time
  ht_LastSuccessAt :: time
  ht_LastErrorCategory :: string
  ht_LastError :: "cycle_error option"
  ht_Cycles :: int
  ht_Observations :: int
  ht_Sessions :: int
  ht_Degraded :: bool

definition zero_health :: health where
  "zero_health =
     \<lparr>ht_PID = 0, ht_StartIdentity = [], ht_Interval = 0, ht_GracePeriod = 0, ht_StartedAt = 0,
      ht_LastAttemptAt = 0, ht_LastSuccessAt = 0, ht_LastErrorCategory = [], ht_LastError = None,
      ht_Cycles = 0, ht_Observations = 0, ht_Sessions = 0, ht_Degraded = False\<rparr>"

record observer =
  os_interval :: duration
  os_grace :: duration
  os_confirmAfter :: duration
  os_disableScreen :: bool
  os_healthPath :: string
  os_lockPath :: string
  os_startedAt :: time
  os_initialized :: bool
  os_tracked :: tracked_map
  os_candidates :: candidate_map
  os_screenPending :: pending_map
  os_health :: health
  os_lastHealthWrite :: time
  os_running :: bool
  os_continuous :: bool
  os_cache :: manifest_cache

record cycle_result =
  rs_ObservedAt :: time
  rs_Observations :: nat
  rs_Sessions :: nat
  rs_Processes :: nat
  rs_Panes :: nat
  rs_Catalog :: nat
  rs_Present :: nat
  rs_Gone :: nat
  rs_Changed :: nat
  rs_Degraded :: bool
  rs_Error :: "cycle_error option"

text \<open>
  The operations of the interface \<open>Store\<close>, and what one cycle meets: the clock, the inventories,
  the loader of manifests, the capture of a screen and the moment it was taken, the order in which
  the range loops over maps go, the identifier of the observer's process, and whether the health
  file can be written.
\<close>

record 's observation_store =
  op_Observe :: "observation \<Rightarrow> 's \<Rightarrow> (reg_error + session) \<times> 's"
  op_ObserveBatch :: "observation list \<Rightarrow> 's \<Rightarrow> (reg_error + session list) \<times> 's"
  op_List :: "session_filter \<Rightarrow> 's \<Rightarrow> (reg_error + session list) \<times> 's"

record cycle_world =
  cw_now :: time
  cw_processes :: "proc_info list option"
  cw_panes :: "pane list \<times> bool"
  cw_catalog :: "catalog_entry list \<times> catalog_failure list"
  cw_locationPresence :: "location \<Rightarrow> presence option"
  cw_text :: text_engine
  cw_manifests :: manifest_source
  cw_fingerprint :: "string \<Rightarrow> string"
  cw_overridePath :: "harness \<Rightarrow> string"
  cw_overrideExists :: "harness \<Rightarrow> bool"
  cw_capture :: "pane \<Rightarrow> (string \<times> string) option"
  cw_capturedAt :: "pane \<Rightarrow> time"
  cw_harnessOrder :: "harness pid_map \<Rightarrow> harness pid_map"
  cw_trackedOrder :: "tracked_map \<Rightarrow> tracked_map"
  cw_pid :: int
  cw_healthWritten :: bool

definition loader_Supports :: "cycle_world \<Rightarrow> harness \<Rightarrow> bool" where
  "loader_Supports w h = (SupportsScreen h \<or> cw_overrideExists w h)"

text \<open>\<open>New\<close>: the options after their defaults, and the files beside the store.\<close>

definition observerStateFiles :: "string \<Rightarrow> string \<Rightarrow> string \<times> string" where
  "observerStateFiles healthPath storePath =
     (if storePath = [] then (healthPath, [])
      else ((if healthPath = [] then storePath @ ''.observer-health.json'' else healthPath),
            storePath @ ''.observer.lock''))"

definition New_observer :: "duration \<Rightarrow> duration \<Rightarrow> duration \<Rightarrow> bool \<Rightarrow> string \<Rightarrow> string \<Rightarrow> observer" where
  "New_observer interval grace confirmation disableScreen healthPath storePath =
     \<lparr>os_interval = (if interval \<le> 0 then defaultObserverInterval else interval), os_grace = grace,
      os_confirmAfter = (if confirmation = 0 then defaultProcessConfirmation else confirmation),
      os_disableScreen = disableScreen,
      os_healthPath = fst (observerStateFiles healthPath storePath),
      os_lockPath = snd (observerStateFiles healthPath storePath),
      os_startedAt = 0, os_initialized = False, os_tracked = [], os_candidates = [],
      os_screenPending = [], os_health = zero_health, os_lastHealthWrite = 0, os_running = False,
      os_continuous = False, os_cache = []\<rparr>"

subsection \<open>Confirming a process\<close>

definition processConfirmed ::
    "observer \<Rightarrow> process_key \<Rightarrow> session list \<Rightarrow> catalog_entry pid_map \<Rightarrow> time \<Rightarrow> bool" where
  "processConfirmed o' k ss cm at =
     (if \<not> os_continuous o' \<or> os_confirmAfter o' < 0 then True
      else if map_of (os_tracked o') k \<noteq> None then True
      else if (case map_of cm (pk_pid k) of None \<Rightarrow> False | Some e \<Rightarrow> ce_Harness e = pk_harness k) then True
      else if list_ex (\<lambda>s. s_Harness s = pk_harness k
                \<and> (case s_Process s of
                     None \<Rightarrow> False
                   | Some q \<Rightarrow> p_PID q = pk_pid k \<and> p_StartIdentity q = pk_start k)) ss then True
      else case map_of (os_candidates o') k of
        None \<Rightarrow> False
      | Some firstSeen \<Rightarrow> time_sub at firstSeen \<ge> os_confirmAfter o')"

definition harness_key :: "proc_info pid_map \<Rightarrow> int \<times> harness \<Rightarrow> process_key" where
  "harness_key pm x =
     \<lparr>pk_harness = snd x, pk_pid = fst x,
      pk_start = pr_StartIdentity (deref_or zero_proc (map_of pm (fst x)))\<rparr>"

text \<open>
  The loop deletes from the map it ranges over; what is left, and the candidates, do not depend on
  the order.
\<close>

definition holdUnconfirmedProcesses ::
    "observer \<Rightarrow> session list \<Rightarrow> catalog_entry pid_map \<Rightarrow> proc_info pid_map \<Rightarrow> harness pid_map \<Rightarrow> time
     \<Rightarrow> candidate_map \<times> harness pid_map" where
  "holdUnconfirmedProcesses o' ss cm pm hm at =
     (let confirmed = (\<lambda>x. processConfirmed o' (harness_key pm x) ss cm at)
      in (map (\<lambda>x. (harness_key pm x, deref_or at (map_of (os_candidates o') (harness_key pm x))))
            (filter (\<lambda>x. \<not> confirmed x) hm),
          filter confirmed hm))"

subsection \<open>Readings of a screen\<close>

text \<open>A reading, an error, or both; and the cache of the loader.\<close>

definition captureScreenState ::
    "cycle_world \<Rightarrow> session \<Rightarrow> harness \<Rightarrow> process_identity \<Rightarrow> pane \<Rightarrow> time \<Rightarrow> manifest_cache
     \<Rightarrow> (observation option \<times> detect_error option) \<times> manifest_cache" where
  "captureScreenState w s h q pn at cache =
     (case Loader_Load (cw_text w) ((cw_manifests w)\<lparr>ms_SupportsScreen := SupportsScreen\<rparr>)
             (cw_fingerprint w) h (cw_overridePath w h) cache of
        (Inl e, cache') \<Rightarrow> ((None, Some (DetectLoading h e)), cache')
      | (Inr m, cache') \<Rightarrow>
          (case cw_capture w pn of
             None \<Rightarrow> ((None, Some (DetectCapturing h (l_PaneID (pn_Location pn)))), cache')
           | Some (screen, title) \<Rightarrow>
               (let d = Manifest_Evaluate (cw_text w) m (NormalizeSnapshot screen title) in
                if dn_Activity d = ActivityUnknown \<and> dn_Reason d = ''no_rule_matched''
                   \<and> s_Activity s \<noteq> None \<and> s_Activity s \<noteq> Some ActivityUnknown
                then ((None, None), cache')
                else
                  (let seen = screenObservationTime at (cw_capturedAt w pn);
                       r = (screen_reading s h q at (dn_Activity d) (dn_Reason d))
                             \<lparr>sc_Detail := dn_Detail d, sc_RuleID := dn_RuleID d,
                              sc_ManifestSource := dn_ManifestSource d,
                              sc_ManifestVersion := dn_ManifestVersion d, sc_ObservedAt := seen\<rparr>
                   in ((Some (bare_observation h seen (EvReading r)),
                        if mf_Warning m \<noteq> '''' then Some (DetectOverrideInvalid (mf_Warning m))
                        else None), cache')))))"

definition detectScreenState ::
    "cycle_world \<Rightarrow> observer \<Rightarrow> session list \<Rightarrow> harness \<Rightarrow> proc_info \<Rightarrow> pane \<Rightarrow> time
     \<Rightarrow> (observation option \<times> detect_error option) \<times> manifest_cache" where
  "detectScreenState w o' ss h p pn at =
     (let q = processIdentity p; s = sessionForProcess ss h q in
      if \<not> loader_Supports w h \<or> \<not> shouldDetectScreen s at then ((None, None), os_cache o')
      else case pn_Activity pn of
        Some act \<Rightarrow>
          ((Some (bare_observation h at (EvReading (screen_reading s h q at act
              (if pn_StateReason pn = '''' then ''multiplexer_agent_status'' else pn_StateReason pn)))),
            None), os_cache o')
      | None \<Rightarrow>
          if os_disableScreen o' then ((None, None), os_cache o')
          else captureScreenState w s h q pn at (os_cache o'))"

definition screenDecisionReady ::
    "observer \<Rightarrow> session list \<Rightarrow> harness \<Rightarrow> proc_info \<Rightarrow> observation \<Rightarrow> bool \<times> pending_map" where
  "screenDecisionReady o' ss h p ob =
     (let pending = os_screenPending o'; k = process_key_of h p; q = processIdentity p in
      case (ob_Reading ob, ob_ActivityClaim ob) of
        (Some r, Some act) \<Rightarrow>
          if \<not> os_continuous o' \<or> sc_Authority r \<noteq> AuthorityScreen then (True, pending)
          else if (case o_Screen (s_Observations (sessionForProcess ss h q)) of
                     None \<Rightarrow> False
                   | Some sc \<Rightarrow> process_equal (sc_Process sc) q)
            then (True, AList.delete k pending)
          else
            (let old = deref_or zero_pending (map_of pending k) in
             if pd_activity old \<noteq> act \<or> pd_ruleID old \<noteq> sc_RuleID r
             then (False, AList.update k
                     \<lparr>pd_activity = act, pd_ruleID = sc_RuleID r, pd_confirmations = 1\<rparr> pending)
             else if pd_confirmations old + 1 < initialScreenConfirmations
             then (False, AList.update k
                     (old\<lparr>pd_confirmations := pd_confirmations old + 1\<rparr>) pending)
             else (True, AList.delete k pending))
      | _ \<Rightarrow> (True, pending))"

definition prunePendingScreenDecisions :: "tracked_map \<Rightarrow> pending_map \<Rightarrow> pending_map" where
  "prunePendingScreenDecisions current pending =
     filter (\<lambda>(k, _). map_of current k \<noteq> None) pending"

subsection \<open>The panes of a cycle\<close>

record pane_state =
  ps_observations :: "observation list"
  ps_claimed :: "int list"
  ps_observer :: observer
  ps_error :: "detect_error option"

text \<open>The second half of a turn: the reading of the agent that holds the pane.\<close>

definition read_pane ::
    "cycle_world \<Rightarrow> cycle_inventory \<Rightarrow> time \<Rightarrow> pane \<Rightarrow> proc_info \<Rightarrow> harness \<Rightarrow> pane_state \<Rightarrow> pane_state" where
  "read_pane w ci at pn p h st =
     (let ((found, err), cache') = detectScreenState w (ps_observer st) (ci_knownSessions ci) h p pn at;
          st1 = st\<lparr>ps_observer := (ps_observer st)\<lparr>os_cache := cache'\<rparr>,
                   ps_error := (case err of None \<Rightarrow> ps_error st | Some e \<Rightarrow> Some e)\<rparr>
      in case found of
           None \<Rightarrow> st1
         | Some ob \<Rightarrow>
             (let (ready, pending) = screenDecisionReady (ps_observer st) (ci_knownSessions ci) h p ob
              in st1\<lparr>ps_observer := (ps_observer st1)\<lparr>os_screenPending := pending\<rparr>,
                     ps_observations := ps_observations st1 @ (if ready then [ob] else [])\<rparr>))"

definition owns_pane :: "cycle_inventory \<Rightarrow> pane \<Rightarrow> proc_info \<Rightarrow> bool" where
  "owns_pane ci pn p =
     (\<not> nestedHarnessProcess p (ci_processByPID ci) (ci_harnessByPID ci)
      \<and> \<not> (\<not> pr_Foreground p \<and> ((pr_ProcessGroupID p > 0 \<and> pr_TTY p \<noteq> '''')
             \<or> paneForegroundKnown pn (ci_processes ci))))"

definition pane_turn ::
    "cycle_world \<Rightarrow> cycle_inventory \<Rightarrow> (string \<Rightarrow> nat) \<Rightarrow> time \<Rightarrow> pane_state \<Rightarrow> pane \<Rightarrow> pane_state" where
  "pane_turn w ci counts at st pn =
     (let chosen = multiplexerPaneProcess pn (ci_processes ci) (ci_processByPID ci)
                     (ci_harnessByPID ci) counts;
          (placed, claimed') =
            panePlacementObservations ci pn chosen at (ps_claimed st) (ci_processes ci);
          st1 = st\<lparr>ps_observations := ps_observations st @ placed, ps_claimed := claimed'\<rparr>
      in case chosen of
           None \<Rightarrow> st1
         | Some (p, h) \<Rightarrow>
             if pr_PID p \<in> set (ps_claimed st) \<or> \<not> owns_pane ci pn p then st1
             else read_pane w ci at pn p h st1)"

definition paneObservations ::
    "cycle_world \<Rightarrow> cycle_inventory \<Rightarrow> pane list \<Rightarrow> time \<Rightarrow> observer \<Rightarrow> pane_state" where
  "paneObservations w ci panes at o' =
     foldl (pane_turn w ci (commandPaneCounts panes) at)
       \<lparr>ps_observations = [], ps_claimed = [], ps_observer = o', ps_error = None\<rparr> panes"

subsection \<open>Processes that are gone\<close>

record tracked_update =
  tu_next :: tracked_map
  tu_retired :: "process_key list"
  tu_candidates :: candidate_map

definition missingProcessRetired :: "duration \<Rightarrow> tracked_process \<Rightarrow> time \<Rightarrow> bool" where
  "missingProcessRetired grace t at =
     (if grace = 0 then tk_missingCount t \<ge> defaultMissingSnapshots
      else grace > 0 \<and> time_sub at (tk_missingSince t) \<ge> grace)"

definition note_missing :: "time \<Rightarrow> tracked_process \<Rightarrow> tracked_process" where
  "note_missing at t =
     t\<lparr>tk_missingCount := tk_missingCount t + 1,
       tk_missingSince := (if tk_missingSince t = 0 then at else tk_missingSince t)\<rparr>"

definition retire_missing ::
    "duration \<Rightarrow> tracked_map \<Rightarrow> time \<Rightarrow> observation list \<times> tracked_update
     \<Rightarrow> process_key \<times> tracked_process \<Rightarrow> observation list \<times> tracked_update" where
  "retire_missing grace current at st x =
     (if map_of current (fst x) \<noteq> None then st
      else
        (let old = note_missing at (snd x);
             u = (snd st)\<lparr>tu_next := AList.update (fst x) old (tu_next (snd st))\<rparr>
         in if \<not> missingProcessRetired grace old at then (fst st, u)
            else (fst st @ [bare_observation (pk_harness (fst x)) at
                    (EvSighting \<lparr>si_Process = processIdentity (tk_process old), si_Present = False\<rparr>)],
                  u\<lparr>tu_retired := tu_retired u @ [fst x]\<rparr>)))"

definition retireMissingProcesses ::
    "duration \<Rightarrow> tracked_map \<Rightarrow> tracked_map \<Rightarrow> time \<Rightarrow> observation list \<times> tracked_update" where
  "retireMissingProcesses grace tracked current at =
     foldl (retire_missing grace current at)
       ([], \<lparr>tu_next = current, tu_retired = [], tu_candidates = []\<rparr>) tracked"

subsection \<open>Health\<close>

definition updateHealth ::
    "cycle_world \<Rightarrow> time \<Rightarrow> bool \<Rightarrow> string \<Rightarrow> cycle_error option \<Rightarrow> cycle_result \<Rightarrow> observer
     \<Rightarrow> observer \<times> bool" where
  "updateHealth w at degraded category err r o' =
     (let h0 = os_health o';
          h1 = (if os_startedAt o' = 0
                then h0\<lparr>ht_PID := cw_pid w, ht_StartedAt := at, ht_Interval := os_interval o',
                        ht_GracePeriod := os_grace o'\<rparr> else h0);
          h2 = h1\<lparr>ht_LastAttemptAt := at, ht_Cycles := ht_Cycles h1 + 1,
                  ht_Observations := ht_Observations h1 + int (rs_Observations r),
                  ht_Sessions := ht_Sessions h1 + int (rs_Sessions r), ht_Degraded := degraded\<rparr>;
          h3 = (case err of
                  Some e \<Rightarrow> h2\<lparr>ht_LastErrorCategory := category, ht_LastError := Some e\<rparr>
                | None \<Rightarrow>
                    if \<not> degraded
                    then h2\<lparr>ht_LastSuccessAt := at, ht_LastErrorCategory := [], ht_LastError := None\<rparr>
                    else h2)
      in (o'\<lparr>os_startedAt := (if os_startedAt o' = 0 then at else os_startedAt o'), os_health := h3\<rparr>,
          os_lastHealthWrite o' = 0 \<or> time_sub at (os_lastHealthWrite o') \<ge> healthWriteInterval
          \<or> degraded \<noteq> ht_Degraded h0 \<or> ht_LastErrorCategory h3 \<noteq> ht_LastErrorCategory h0))"

text \<open>\<open>False\<close> where the health file could not be written.\<close>

definition recordHealth ::
    "cycle_world \<Rightarrow> time \<Rightarrow> bool \<Rightarrow> string \<Rightarrow> cycle_error option \<Rightarrow> cycle_result \<Rightarrow> observer
     \<Rightarrow> bool \<times> observer" where
  "recordHealth w at degraded category err r o' =
     (let (o1, shouldWrite) = updateHealth w at degraded category err r o' in
      if \<not> shouldWrite \<or> os_healthPath o' = [] then (True, o1)
      else if \<not> cw_healthWritten w then (False, o1)
      else (True, o1\<lparr>os_lastHealthWrite := at\<rparr>))"

definition withDegradation :: "cycle_error \<Rightarrow> cycle_result \<Rightarrow> cycle_result" where
  "withDegradation e r = r\<lparr>rs_Degraded := True, rs_Error := Some e\<rparr>"

text \<open>A failed cycle reports its error and, after it, that of the health file.\<close>

definition failCycle ::
    "cycle_world \<Rightarrow> time \<Rightarrow> string \<Rightarrow> cycle_error \<Rightarrow> cycle_result \<Rightarrow> observer
     \<Rightarrow> (cycle_result \<times> cycle_error list) \<times> observer" where
  "failCycle w at component err r o' =
     (let r' = withDegradation err r; (written, o1) = recordHealth w at True component (Some err) r' o'
      in ((r', err # (if written then [] else [CycleHealth])), o1))"

definition recordCycleHealth ::
    "cycle_world \<Rightarrow> time \<Rightarrow> cycle_result \<Rightarrow> observer \<Rightarrow> bool \<times> observer" where
  "recordCycleHealth w at r o' =
     (if rs_Degraded r then recordHealth w at True ''reconciliation'' (Some CycleDegraded) r o'
      else recordHealth w at False '''' None r o')"

subsection \<open>Recording\<close>

definition is_conflict :: "reg_error \<Rightarrow> bool" where
  "is_conflict e = (case e of ErrObservationConflict _ \<Rightarrow> True | _ \<Rightarrow> False)"

fun observe_each ::
    "'s observation_store \<Rightarrow> nat \<Rightarrow> observation list \<Rightarrow> 's
     \<Rightarrow> (session list \<times> (nat \<times> reg_error) list) \<times> 's" where
  "observe_each op i [] s = (([], []), s)"
| "observe_each op i (ob # obs) s =
     (let (out, s1) = op_Observe op ob s; ((ss, es), s2) = observe_each op (Suc i) obs s1
      in case out of
           Inl e \<Rightarrow> ((ss, (i, e) # es), s2)
         | Inr x \<Rightarrow> ((x # ss, es), s2))"

text \<open>The sessions, the error, and whether the error is a conflict.\<close>

definition observeBatch ::
    "'s observation_store \<Rightarrow> observation list \<Rightarrow> 's
     \<Rightarrow> (session list \<times> (cycle_error \<times> bool) option) \<times> 's" where
  "observeBatch op obs s =
     (case op_ObserveBatch op obs s of
        (Inr ss, s1) \<Rightarrow> ((ss, None), s1)
      | (Inl e, s1) \<Rightarrow>
          if \<not> is_conflict e then (([], Some (CycleObservations e [], False)), s1)
          else
            (let ((ss, es), s2) = observe_each op 0 obs s1
             in ((ss, Some (CycleObservations e es, True)), s2)))"

definition drop_retired :: "process_key list \<Rightarrow> tracked_map \<Rightarrow> tracked_map" where
  "drop_retired ks m = foldl (\<lambda>m k. AList.delete k m) m ks"

definition recordObservations ::
    "'s observation_store \<Rightarrow> cycle_world \<Rightarrow> time \<Rightarrow> observation list \<Rightarrow> tracked_update \<Rightarrow> cycle_result
     \<Rightarrow> observer \<Rightarrow> 's \<Rightarrow> (cycle_result \<times> cycle_error list) \<times> observer \<times> 's" where
  "recordObservations op w at obs u r o' s =
     (let r0 = r\<lparr>rs_Observations := length obs\<rparr>;
          ((ss, failure), s1) = (if obs = [] then (([], None), s) else observeBatch op obs s);
          r1 = (if obs = [] then r0 else r0\<lparr>rs_Sessions := length ss, rs_Changed := length ss\<rparr>)
      in case failure of
           Some (err, conflict) \<Rightarrow>
             (let o1 = (if conflict then o'\<lparr>os_tracked := tu_next u\<rparr> else o');
                  (out, o2) = failCycle w at ''registry'' err r1 o1
              in (out, o2, s1))
         | None \<Rightarrow>
             (let o1 = o'\<lparr>os_tracked := drop_retired (tu_retired u) (tu_next u),
                          os_candidates := tu_candidates u\<rparr>;
                  (written, o2) = recordCycleHealth w at r1 o1
              in if written then ((r1, []), o2, s1)
                 else ((withDegradation CycleHealth r1, [CycleHealth]), o2, s1)))"

subsection \<open>One cycle\<close>

definition tracked_from_session :: "session \<Rightarrow> (process_key \<times> tracked_process) option" where
  "tracked_from_session s =
     (case o_Process (s_Observations s) of
        None \<Rightarrow> None
      | Some po \<Rightarrow>
          if \<not> po_Present po \<or> \<not> process_complete (po_Process po) then None
          else
            (let q = po_Process po;
                 p = zero_proc\<lparr>pr_PID := p_PID q, pr_PPID := p_PPID q,
                       pr_ProcessGroupID := p_ProcessGroupID q, pr_Foreground := p_Foreground q,
                       pr_StartIdentity := p_StartIdentity q, pr_Executable := p_Executable q,
                       pr_CWD := p_CWD q, pr_TTY := p_TTY q\<rparr>
             in Some (process_key_of (s_Harness s) p,
                  \<lparr>tk_process = p, tk_missingSince = po_ObservedAt po,
                   tk_missingCount = defaultMissingSnapshots - 1\<rparr>)))"

definition initializeTracked ::
    "'s observation_store \<Rightarrow> observer \<Rightarrow> 's \<Rightarrow> reg_error option \<times> observer \<times> 's" where
  "initializeTracked op o' s =
     (if os_initialized o' then (None, o', s)
      else case op_List op (zero_filter\<lparr>f_Presence := PresenceLive\<rparr>) s of
        (Inl e, s1) \<Rightarrow> (Some e, o', s1)
      | (Inr ss, s1) \<Rightarrow>
          (None,
           o'\<lparr>os_tracked := foldl (\<lambda>m x. AList.update (fst x) (snd x) m) (os_tracked o')
                             (List.map_filter tracked_from_session ss),
              os_initialized := True\<rparr>, s1))"

definition zero_cycle_result :: "time \<Rightarrow> cycle_result" where
  "zero_cycle_result at =
     \<lparr>rs_ObservedAt = at, rs_Observations = 0, rs_Sessions = 0, rs_Processes = 0, rs_Panes = 0,
      rs_Catalog = 0, rs_Present = 0, rs_Gone = 0, rs_Changed = 0, rs_Degraded = False,
      rs_Error = None\<rparr>"

text \<open>
  The inventory: the processes with the agents among them, the catalog entries with the claims
  that hold, and the processes that wait for their confirmation.
\<close>

definition takeInventory ::
    "observer \<Rightarrow> proc_info list \<Rightarrow> catalog_entry list \<Rightarrow> session list \<Rightarrow> time
     \<Rightarrow> cycle_inventory \<times> catalog_entry list \<times> catalog_entry pid_map \<times> candidate_map" where
  "takeInventory o' ps es ss at =
     (let pm = processesByPID ps;
          (es', cm) = claimCurrentCatalogEntries es pm;
          hm = pruneNestedHarnesses ps pm (resolveHarnesses ps);
          (ps', pm') = normalizeHarnessForeground ps pm hm;
          (pending, hm') = holdUnconfirmedProcesses o' ss cm pm' hm at
      in (\<lparr>ci_processes = ps', ci_processByPID = pm', ci_harnessByPID = hm', ci_knownSessions = ss\<rparr>,
          es', cm, pending))"

text \<open>The observations of a cycle and what it will remember.\<close>

record cycle_findings =
  cf_observations :: "observation list"
  cf_update :: tracked_update
  cf_observer :: observer
  cf_result :: cycle_result

definition collectObservations ::
    "cycle_world \<Rightarrow> time \<Rightarrow> proc_info list \<Rightarrow> session list \<Rightarrow> cycle_result \<Rightarrow> observer \<Rightarrow> cycle_findings" where
  "collectObservations w at ps ss r o' =
     (let panes = sortPanesByPriority (fst (cw_panes w));
          (ci, es, cm, pending) = takeInventory o' ps (fst (cw_catalog w)) ss at;
          (sightings, current) = processSightings ci cm at;
          st = paneObservations w ci panes at o';
          unlocated =
            (if snd (cw_panes w) then []
             else observationsForUnlocatedProcesses (loader_Supports w) ss (ci_processByPID ci)
                    (cw_harnessOrder w (ci_harnessByPID ci)) (ps_claimed st) at
                    (\<not> os_disableScreen o'));
          listed = catalogObservations es (ci_processByPID ci) at;
          (gone, update) =
            retireMissingProcesses (os_grace o') (cw_trackedOrder w (os_tracked o')) current at;
          (reconciled, unchecked) =
            reconcileUnobservedSessions (cw_locationPresence w) (os_tracked o') ss
              (ci_processByPID ci) at;
          r1 = r\<lparr>rs_Present := rs_Present r + length sightings\<rparr>;
          r2 = (case ps_error st of None \<Rightarrow> r1 | Some e \<Rightarrow> withDegradation (CycleDetection e) r1);
          r3 = r2\<lparr>rs_Gone := rs_Gone r2 + length gone + goneVerificationCount reconciled\<rparr>;
          r4 = (if unchecked = [] then r3 else withDegradation (CycleLocations unchecked) r3);
          o1 = ps_observer st;
          o2 = o1\<lparr>os_screenPending := prunePendingScreenDecisions current (os_screenPending o1)\<rparr>
      in \<lparr>cf_observations =
            sightings @ ps_observations st @ unlocated @ listed @ gone @ reconciled,
          cf_update = update\<lparr>tu_candidates := pending\<rparr>, cf_observer = o2, cf_result = r4\<rparr>)"

text \<open>The result once the inventories are taken.\<close>

definition inventory_result :: "cycle_world \<Rightarrow> proc_info list \<Rightarrow> cycle_result" where
  "inventory_result w ps =
     (let r1 = (zero_cycle_result (cw_now w))\<lparr>rs_Processes := length ps\<rparr>;
          r2 = (if snd (cw_panes w) then withDegradation CyclePanes r1 else r1)
                 \<lparr>rs_Panes := length (fst (cw_panes w))\<rparr>
      in (if snd (cw_catalog w) = [] then r2
          else withDegradation (CycleCatalog (snd (cw_catalog w))) r2)
           \<lparr>rs_Catalog := length (fst (cw_catalog w))\<rparr>)"

definition runCycle ::
    "'s observation_store \<Rightarrow> cycle_world \<Rightarrow> observer \<Rightarrow> 's
     \<Rightarrow> (cycle_result \<times> cycle_error list) \<times> observer \<times> 's" where
  "runCycle op w o' s =
     (let at = cw_now w; r0 = zero_cycle_result at in
      case initializeTracked op o' s of
        (Some e, o1, s1) \<Rightarrow>
          (let (out, o2) =
             failCycle w at ''registry'' (CycleRegistry ''initializing observer state'' e) r0 o1
           in (out, o2, s1))
      | (None, o1, s1) \<Rightarrow>
          (case cw_processes w of
             None \<Rightarrow>
               (let (out, o2) = failCycle w at ''process-enumeration'' CycleProcesses r0 o1
                in (out, o2, s1))
           | Some ps \<Rightarrow>
               (let r3 = inventory_result w ps
                in case op_List op zero_filter s1 of
                     (Inl e, s2) \<Rightarrow>
                       (let (out, o2) = failCycle w at ''registry''
                            (CycleRegistry ''listing sessions for state detection'' e) r3 o1
                        in (out, o2, s2))
                   | (Inr ss, s2) \<Rightarrow>
                       (let f = collectObservations w at ps ss r3 o1
                        in recordObservations op w at (cf_observations f) (cf_update f)
                             (cf_result f) (cf_observer f) s2))))"

subsection \<open>Running\<close>

text \<open>The lock of an observer: the flag in memory and the lock file.\<close>

datatype lock_outcome = LockDirectoryFailed | LockHeldElsewhere | LockTaken

datatype run_error = ErrAlreadyRunning | LockUnavailable | RunHandler

definition acquireLock :: "lock_outcome \<Rightarrow> observer \<Rightarrow> run_error option \<times> observer" where
  "acquireLock out o' =
     (if os_running o' then (Some ErrAlreadyRunning, o')
      else if os_lockPath o' \<noteq> [] \<and> out \<noteq> LockTaken
        then (Some LockUnavailable, o'\<lparr>os_running := False\<rparr>)
      else (None, o'\<lparr>os_running := True\<rparr>))"

definition releaseLock :: "observer \<Rightarrow> observer" where
  "releaseLock o' = o'\<lparr>os_running := False\<rparr>"

definition RunOnce ::
    "'s observation_store \<Rightarrow> lock_outcome \<Rightarrow> cycle_world \<Rightarrow> observer \<Rightarrow> 's
     \<Rightarrow> (run_error + cycle_result \<times> cycle_error list) \<times> observer \<times> 's" where
  "RunOnce op lk w o' s =
     (case acquireLock lk o' of
        (Some e, o1) \<Rightarrow> (Inl e, o1, s)
      | (None, o1) \<Rightarrow>
          (let (out, o2, s1) = runCycle op w o1 s in (Inr out, releaseLock o2, s1)))"

text \<open>
  The turns of \<open>run\<close>: what the cycle meets, whether the handler accepts its result, and whether
  the context has ended after it. The run ends with a turn whose handler fails or whose context
  has ended; \<open>None\<close> means that it goes on.
\<close>

record run_turn =
  rt_world :: cycle_world
  rt_handled :: bool
  rt_ended :: bool

fun run_cycles ::
    "'s observation_store \<Rightarrow> observer \<Rightarrow> 's \<Rightarrow> run_turn list
     \<Rightarrow> (run_error option) option \<times> observer \<times> 's" where
  "run_cycles op o' s [] = (None, o', s)"
| "run_cycles op o' s (t # ts) =
     (let (out, o1, s1) = runCycle op (rt_world t) o' s in
      if \<not> rt_handled t then (Some (Some RunHandler), o1, s1)
      else if rt_ended t then (Some None, o1, s1)
      else run_cycles op o1 s1 ts)"

definition run_observer ::
    "'s observation_store \<Rightarrow> lock_outcome \<Rightarrow> observer \<Rightarrow> 's \<Rightarrow> run_turn list
     \<Rightarrow> (run_error option) option \<times> observer \<times> 's" where
  "run_observer op lk o' s ts =
     (case acquireLock lk o' of
        (Some e, o1) \<Rightarrow> (Some (Some e), o1, s)
      | (None, o1) \<Rightarrow>
          (let (out, o2, s1) = run_cycles op (o1\<lparr>os_continuous := True\<rparr>) s ts
           in (out, (if out = None then o2 else releaseLock (o2\<lparr>os_continuous := False\<rparr>)), s1)))"

end
