(* ===== verification/Aht_CatalogFacts.thy ===== *)
theory Aht_CatalogFacts
  imports Aht_Catalog
begin

section \<open>What the catalog guarantees\<close>

text \<open>
  No name and no command of one harness is a name or a command of another, so the order of the
  catalog does not matter; the policies of the catalog are coherent; and the completion of a report
  keeps it valid, keeps it within the capabilities the adapter declares, and is done once.
\<close>

definition name_tokens :: "adapter \<Rightarrow> string list" where
  "name_tokens a = map normalizeToken (hd_ID (ad_Definition a) # hd_Aliases (ad_Definition a))"

definition command_tokens :: "adapter \<Rightarrow> string list" where
  "command_tokens a = map normalizeToken (hd_ProcessNames (ad_Definition a))"

lemma distinct_concat_unique:
  assumes "distinct (concat (map g xs))" "a \<in> set xs" "b \<in> set xs" "n \<in> set (g a)" "n \<in> set (g b)"
  shows "a = b"
  using assms by (induction xs) auto

lemma find_unique:
  assumes "\<And>a b. a \<in> set xs \<Longrightarrow> b \<in> set xs \<Longrightarrow> P a \<Longrightarrow> P b \<Longrightarrow> a = b"
  shows "find P xs = Some a \<longleftrightarrow> a \<in> set xs \<and> P a"
  using assms by (cases "find P xs") (auto simp: find_None_iff dest: find_SomeD)

text \<open>The tokens of the catalog, in its order.\<close>

lemma name_tokens_computed:
  "map name_tokens adapters =
     [[''claude'', ''claudecode'', ''claudecode''],
      [''codex''],
      [''cursor'', ''cursoragent'', ''cursoragent'', ''cursorcli'', ''cursorcli''],
      [''copilot'', ''githubcopilot'', ''githubcopilot'', ''copilotcli'', ''copilotcli'', ''githubcopilotcli'', ''githubcopilotcli''],
      [''cline''],
      [''kimicode'', ''kimi'', ''kimicode'', ''kimicode''],
      [''grok'', ''grokbuild'', ''grokbuild''],
      [''goose''],
      [''pi''],
      [''omp'', ''ohmypi'', ''ohmypi'', ''ohmypi''],
      [''opencode'', ''opencode'', ''opencode''],
      [''agy'', ''antigravity'', ''antigravitycli'', ''antigravitycli'', ''googleantigravity'', ''googleantigravity''],
      [''kilo'', ''kilocode'', ''kilocode'', ''kilocode''],
      [''droid'', ''factory'', ''factorydroid'', ''factorydroid'', ''factorycli'', ''factorycli''],
      [''openclaw''],
      [''hermes'', ''hermesagent'', ''hermesagent''],
      [''amp'', ''ampcode'', ''ampcode'', ''ampcode''],
      [''crush''],
      [''qwen'', ''qwencode'', ''qwencode'', ''qwencode''],
      [''primeagent'', ''prime'', ''primeagent'', ''primeagent'']]"
  by code_simp

lemma command_tokens_computed:
  "map command_tokens adapters =
     [[''claude'', ''claudecode''],
      [''codex''],
      [''cursor'', ''cursoragent'', ''cursorcli''],
      [''copilot''],
      [''cline''],
      [''kimi'', ''kimicode''],
      [''grok'', ''grokbuild''],
      [''goose''],
      [''pi''],
      [''omp'', ''ohmypi'', ''ohmypi''],
      [''opencode'', ''opencode''],
      [''agy'', ''antigravitycli''],
      [''kilo'', ''kilocode'', ''kilocode'', ''kilocode''],
      [''droid''],
      [''openclaw'', ''openclawgateway''],
      [''hermes'', ''hermesagent''],
      [''amp''],
      [''crush''],
      [''qwen''],
      [''primeagent'']]"
  by code_simp

lemma adapters_name_tokens: "distinct (concat (map (remdups \<circ> name_tokens) adapters))"
  unfolding map_map [symmetric] name_tokens_computed by code_simp

lemma adapters_command_tokens: "distinct (concat (map (remdups \<circ> command_tokens) adapters))"
  unfolding map_map [symmetric] command_tokens_computed by code_simp

lemma adapters_IDs: "distinct (map (\<lambda>a. hd_ID (ad_Definition a)) adapters)"
  by code_simp

subsection \<open>Looking up an adapter\<close>

lemma containsNormalizedToken_iff: "containsNormalizedToken vs n \<longleftrightarrow> n \<in> set (map normalizeToken vs)"
  by (induction vs) (auto simp: containsNormalizedToken_def)

lemma name_tokens_unique:
  "a \<in> set adapters \<Longrightarrow> b \<in> set adapters \<Longrightarrow> n \<in> set (name_tokens a) \<Longrightarrow> n \<in> set (name_tokens b) \<Longrightarrow> a = b"
  using distinct_concat_unique [OF adapters_name_tokens] by (simp add: comp_def)

lemma command_tokens_unique:
  "a \<in> set adapters \<Longrightarrow> b \<in> set adapters \<Longrightarrow> n \<in> set (command_tokens a) \<Longrightarrow>
   n \<in> set (command_tokens b) \<Longrightarrow> a = b"
  using distinct_concat_unique [OF adapters_command_tokens] by (simp add: comp_def)

lemma adapter_ID_unique:
  "a \<in> set adapters \<Longrightarrow> b \<in> set adapters \<Longrightarrow>
   hd_ID (ad_Definition a) = hd_ID (ad_Definition b) \<Longrightarrow> a = b"
  using adapters_IDs by (auto simp: distinct_map inj_on_def)

lemma Find_iff: "Find h = Some a \<longleftrightarrow> a \<in> set adapters \<and> hd_ID (ad_Definition a) = h"
  unfolding Find_def by (rule find_unique) (auto intro: adapter_ID_unique)

lemma ParseHarness_iff:
  "ParseHarness v = Inr h \<longleftrightarrow>
     (\<exists>a. a \<in> set adapters \<and> hd_ID (ad_Definition a) = h \<and> normalizeToken v \<in> set (name_tokens a))"
proof -
  have pred: "(\<lambda>a. normalizeToken v = normalizeToken (hd_ID (ad_Definition a))
        \<or> containsNormalizedToken (hd_Aliases (ad_Definition a)) (normalizeToken v)) =
      (\<lambda>a. normalizeToken v \<in> set (name_tokens a))"
    by (simp add: name_tokens_def containsNormalizedToken_iff fun_eq_iff)
  have "find (\<lambda>a. normalizeToken v \<in> set (name_tokens a)) adapters = Some a \<longleftrightarrow>
      a \<in> set adapters \<and> normalizeToken v \<in> set (name_tokens a)" for a
    by (rule find_unique) (auto intro: name_tokens_unique)
  moreover have "ParseHarness v = Inr h \<longleftrightarrow>
      (\<exists>a. find (\<lambda>a. normalizeToken v \<in> set (name_tokens a)) adapters = Some a
        \<and> hd_ID (ad_Definition a) = h)"
    unfolding ParseHarness_def Let_def pred
    by (cases "find (\<lambda>a. normalizeToken v \<in> set (name_tokens a)) adapters") auto
  ultimately show ?thesis by auto
qed

lemma FromCommand_iff:
  "FromCommand c = Some h \<longleftrightarrow>
     (\<exists>a. a \<in> set adapters \<and> hd_ID (ad_Definition a) = h
        \<and> normalizeToken (path_base c) \<in> set (command_tokens a))"
proof -
  have pred: "(\<lambda>a. containsNormalizedToken (hd_ProcessNames (ad_Definition a)) n) =
      (\<lambda>a. n \<in> set (command_tokens a))" for n
    by (simp add: command_tokens_def containsNormalizedToken_iff fun_eq_iff)
  have "find (\<lambda>a. n \<in> set (command_tokens a)) adapters = Some a \<longleftrightarrow>
      a \<in> set adapters \<and> n \<in> set (command_tokens a)" for a n
    by (rule find_unique) (auto intro: command_tokens_unique)
  then show ?thesis unfolding FromCommand_def Let_def pred map_option_eq_Some by auto
qed

lemma catalog_Known_iff: "catalog_Known h \<longleftrightarrow> (\<exists>a. a \<in> set adapters \<and> hd_ID (ad_Definition a) = h)"
  by (auto simp: catalog_Known_def Find_iff)

lemma ParseHarness_known: "ParseHarness v = Inr h \<Longrightarrow> catalog_Known h"
  by (auto simp: ParseHarness_iff catalog_Known_iff)

lemma FromCommand_known: "FromCommand c = Some h \<Longrightarrow> catalog_Known h"
  by (auto simp: FromCommand_iff catalog_Known_iff)

lemma adapters_named: "list_all (\<lambda>a. hd_ID (ad_Definition a) \<noteq> '''') adapters"
  by code_simp

lemma catalog_Known_named: "catalog_Known h \<Longrightarrow> h \<noteq> ''''"
  using adapters_named by (auto simp: catalog_Known_iff list_all_iff)

subsection \<open>Coherent policies\<close>

text \<open>
  An agent whose screen decides has a screen manifest, an agent that falls back to its screen has
  one too, and the reports of every agent are recognised by a reporter of its own.
\<close>

definition coherent_adapter :: "adapter \<Rightarrow> bool" where
  "coherent_adapter a =
     (let d = ad_Definition a in
      hd_ID d \<noteq> '''' \<and> hd_IntegrationSource d \<noteq> '''' \<and> hd_IntegrationVersion d > 0
      \<and> (hd_StateAuthority d = AuthorityHook \<or> hd_StateAuthority d = AuthorityScreen)
      \<and> (hd_StateAuthority d = AuthorityScreen \<longrightarrow> ad_ScreenManifest a \<and> \<not> hd_ScreenFallback d)
      \<and> (hd_ScreenFallback d \<longrightarrow> ad_ScreenManifest a)
      \<and> (ad_RetainNativeActivity a \<longrightarrow> hd_StateAuthority d = AuthorityHook))"

lemma adapters_coherent: "list_all coherent_adapter adapters"
  by code_simp

lemma adapters_sources: "distinct (map (\<lambda>a. hd_IntegrationSource (ad_Definition a)) adapters)"
  by code_simp

lemma Find_coherent: "Find h = Some a \<Longrightarrow> coherent_adapter a"
  using adapters_coherent by (auto simp: Find_iff list_all_iff)

subsection \<open>Details an adapter derives\<close>

definition native_support :: "detail_capabilities \<Rightarrow> activity_detail \<Rightarrow> bool" where
  "native_support caps d =
     (case d of
        ActivityDetailPermission \<Rightarrow> ds_Permission (dc_Native caps)
      | ActivityDetailQuestion \<Rightarrow> ds_Question (dc_Native caps)
      | ActivityDetailUsageLimit \<Rightarrow> ds_UsageLimit (dc_Native caps)
      | _ \<Rightarrow> False)"

text \<open>A detail explains the activity, and the adapter declares that its reports can carry it.\<close>

definition declared_detail :: "activity_detail_adapter \<times> detail_capabilities \<Rightarrow> bool" where
  "declared_detail x \<longleftrightarrow>
     (\<forall>event act as d. fst x event act as = Some d \<longrightarrow>
        detail_valid_for d act \<and> native_support (snd x) d)"

lemmas activity_details =
  agy_ActivityDetail_def amp_ActivityDetail_def claude_ActivityDetail_def hookActivityDetail_def
  codex_ActivityDetail_def copilot_ActivityDetail_def crush_ActivityDetail_def
  droid_ActivityDetail_def hermes_ActivityDetail_def kilo_ActivityDetail_def
  kimi_ActivityDetail_def omp_ActivityDetail_def opencode_ActivityDetail_def
  pi_ActivityDetail_def prime_ActivityDetail_def qwen_ActivityDetail_def

lemmas detail_capability_defs =
  agy_DetailCapabilities_def amp_DetailCapabilities_def claude_DetailCapabilities_def
  codex_DetailCapabilities_def copilot_DetailCapabilities_def crush_DetailCapabilities_def
  droid_DetailCapabilities_def hermes_DetailCapabilities_def kilo_DetailCapabilities_def
  kimi_DetailCapabilities_def omp_DetailCapabilities_def opencode_DetailCapabilities_def
  pi_DetailCapabilities_def prime_DetailCapabilities_def qwen_DetailCapabilities_def

lemma declared_details:
  "declared_detail (agy_ActivityDetail, agy_DetailCapabilities)"
  "declared_detail (amp_ActivityDetail, amp_DetailCapabilities)"
  "declared_detail (claude_ActivityDetail, claude_DetailCapabilities)"
  "declared_detail (codex_ActivityDetail, codex_DetailCapabilities)"
  "declared_detail (copilot_ActivityDetail, copilot_DetailCapabilities)"
  "declared_detail (crush_ActivityDetail, crush_DetailCapabilities)"
  "declared_detail (droid_ActivityDetail, droid_DetailCapabilities)"
  "declared_detail (hermes_ActivityDetail, hermes_DetailCapabilities)"
  "declared_detail (kilo_ActivityDetail, kilo_DetailCapabilities)"
  "declared_detail (kimi_ActivityDetail, kimi_DetailCapabilities)"
  "declared_detail (omp_ActivityDetail, omp_DetailCapabilities)"
  "declared_detail (opencode_ActivityDetail, opencode_DetailCapabilities)"
  "declared_detail (pi_ActivityDetail, pi_DetailCapabilities)"
  "declared_detail (prime_ActivityDetail, prime_DetailCapabilities)"
  "declared_detail (qwen_ActivityDetail, qwen_DetailCapabilities)"
  by (auto simp: declared_detail_def activity_details detail_capability_defs supports_def
      native_support_def detail_valid_for_def split: if_splits)

lemmas adapter_defs =
  claude_adapter_def codex_adapter_def cursor_adapter_def copilot_adapter_def cline_adapter_def
  kimi_adapter_def grok_adapter_def goose_adapter_def pi_adapter_def omp_adapter_def
  opencode_adapter_def agy_adapter_def kilo_adapter_def droid_adapter_def openclaw_adapter_def
  hermes_adapter_def amp_adapter_def crush_adapter_def qwen_adapter_def prime_adapter_def
  base_adapter_def

lemma adapters_details:
  "a \<in> set adapters \<Longrightarrow> ad_ActivityDetail a = Some x \<Longrightarrow> declared_detail x"
  using declared_details unfolding adapters_def by (auto simp: adapter_defs)

subsection \<open>Completing a report\<close>

text \<open>What reading an event once more yields is what reading it yielded.\<close>

definition stable_lifecycle :: "lifecycle_adapter \<Rightarrow> bool" where
  "stable_lifecycle l \<longleftrightarrow>
     (\<forall>event as. \<exists>e s. l event as = TranslateLifecycle e s \<and> (event \<noteq> '''' \<longrightarrow> e = event)
        \<and> l e as = TranslateLifecycle e s)"

lemma stable_base: "stable_lifecycle BaseAdapter_LifecycleDefaults"
  unfolding stable_lifecycle_def BaseAdapter_LifecycleDefaults_def by blast

lemma stable_own: "stable_lifecycle (own_lifecycle k ks)"
  unfolding stable_lifecycle_def
proof (intro allI)
  fix event as
  let ?e = "if event = '''' then attr as k else event"
  show "\<exists>e s. own_lifecycle k ks event as = TranslateLifecycle e s \<and> (event \<noteq> '''' \<longrightarrow> e = event)
      \<and> own_lifecycle k ks e as = TranslateLifecycle e s"
    by (rule exI [of _ ?e], rule exI [of _ "FirstAttribute as ks"]) (simp add: own_lifecycle_def)
qed

lemma adapters_lifecycle: "a \<in> set adapters \<Longrightarrow> stable_lifecycle (ad_Lifecycle a)"
  unfolding adapters_def
  by (auto simp: adapter_defs claude_LifecycleDefaults_def codex_LifecycleDefaults_def
      copilot_LifecycleDefaults_def cursor_LifecycleDefaults_def droid_LifecycleDefaults_def
      goose_LifecycleDefaults_def grok_LifecycleDefaults_def kimi_LifecycleDefaults_def
      omp_LifecycleDefaults_def pi_LifecycleDefaults_def qwen_LifecycleDefaults_def
      stable_base stable_own)

lemma LifecycleFor_form:
  "\<exists>e s. LifecycleFor h event as = TranslateLifecycle e s
    \<and> (event \<noteq> '''' \<longrightarrow> e = event) \<and> LifecycleFor h e as = TranslateLifecycle e s"
proof (cases "Find h")
  case None
  then show ?thesis unfolding LifecycleFor_def by auto
next
  case (Some a)
  then have "stable_lifecycle (ad_Lifecycle a)" by (simp add: Find_iff adapters_lifecycle)
  then show ?thesis unfolding LifecycleFor_def Some stable_lifecycle_def by simp
qed

lemma prepareLifecycle_fields [simp]:
  "r_Event (prepareLifecycle d r) = ld_Event d"
  "r_Activity (prepareLifecycle d r) = r_Activity r" "r_Detail (prepareLifecycle d r) = r_Detail r"
  "r_DetailObservedAt (prepareLifecycle d r) = r_DetailObservedAt r"
  "r_Attributes (prepareLifecycle d r) = r_Attributes r"
  "r_Listing (prepareLifecycle d r) = r_Listing r" "r_Process (prepareLifecycle d r) = r_Process r"
  "r_Location (prepareLifecycle d r) = r_Location r"
  "r_Reporter (prepareLifecycle d r) = r_Reporter r"
  by (simp_all add: prepareLifecycle_def)

lemma prepareDetail_fields [simp]:
  "r_Event (prepareDetail h r) = r_Event r" "r_Activity (prepareDetail h r) = r_Activity r"
  "r_Lifecycle (prepareDetail h r) = r_Lifecycle r" "r_Claim (prepareDetail h r) = r_Claim r"
  "r_DetailObservedAt (prepareDetail h r) = r_DetailObservedAt r"
  "r_Attributes (prepareDetail h r) = r_Attributes r" "r_Listing (prepareDetail h r) = r_Listing r"
  "r_Process (prepareDetail h r) = r_Process r" "r_Location (prepareDetail h r) = r_Location r"
  "r_Reporter (prepareDetail h r) = r_Reporter r"
  by (simp_all add: prepareDetail_def split: option.split prod.split)

text \<open>A derived detail is one the adapter declares.\<close>

lemma prepareDetail_declared:
  assumes "r_Detail r = None" "r_Detail (prepareDetail h r) = Some d"
  obtains act where "r_Activity r = Some act" "detail_valid_for d act"
    "native_support (DetailCapabilitiesFor h) d"
proof -
  from assms obtain act a detail caps where
    "r_Activity r = Some act" "Find h = Some a" "ad_ActivityDetail a = Some (detail, caps)"
    "detail (r_Event r) act (r_Attributes r) = Some d"
    by (auto simp: prepareDetail_def split: option.splits)
  moreover from this have "declared_detail (detail, caps)"
    using adapters_details by (auto simp: Find_iff)
  ultimately show ?thesis
    using that by (auto simp: declared_detail_def DetailCapabilitiesFor_def)
qed

lemma prepareDetail_kept: "r_Detail r \<noteq> None \<Longrightarrow> prepareDetail h r = r"
  by (auto simp: prepareDetail_def split: option.split prod.split)

lemma prepareDetail_idem: "prepareDetail h (prepareDetail h r) = prepareDetail h r"
proof (cases "r_Detail r = None \<and> r_Detail (prepareDetail h r) = None")
  case True
  then have "prepareDetail h r = r"
    by (auto simp: prepareDetail_def split: option.splits prod.splits)
  then show ?thesis by simp
next
  case False
  then show ?thesis using prepareDetail_kept by metis
qed

lemma prepareLifecycle_idem: "prepareLifecycle d (prepareLifecycle d r) = prepareLifecycle d r"
  by (simp add: prepareLifecycle_def)

lemma prepareLifecycle_detail:
  assumes "ld_Event d = r_Event r"
  shows "prepareLifecycle d (prepareDetail h r) = prepareDetail h (prepareLifecycle d r)"
  using assms
  by (auto simp: prepareDetail_def prepareLifecycle_def split: option.split prod.split)

lemma prepare_listing:
  "prepareLifecycle d (r\<lparr>r_Listing := l\<rparr>) = (prepareLifecycle d r)\<lparr>r_Listing := l\<rparr>"
  "prepareDetail h (r\<lparr>r_Listing := l\<rparr>) = (prepareDetail h r)\<lparr>r_Listing := l\<rparr>"
  by (simp_all add: prepareLifecycle_def prepareDetail_def split: option.split prod.split)

text \<open>The listing a report has after its resume command is known.\<close>

definition resumed_listing :: "observation \<Rightarrow> listing option \<Rightarrow> listing option" where
  "resumed_listing ob l =
     (let command = ResumeCommandFor (ob_Harness ob) (oi_SessionID (ob_Subject ob))
            (oi_SessionPath (ob_Subject ob)) in
      if (case l of None \<Rightarrow> False | Some v \<Rightarrow> li_ResumeCommand v \<noteq> []) \<or> command = [] then l
      else Some ((deref_or zero_listing l)\<lparr>li_ResumeCommand := command\<rparr>))"

lemma WithResumeCommand_report:
  "ob_Evidence ob = EvReport r \<Longrightarrow>
   WithResumeCommand ob = ob\<lparr>ob_Evidence := EvReport (r\<lparr>r_Listing := resumed_listing ob (r_Listing r)\<rparr>)\<rparr>"
  by (auto simp: WithResumeCommand_def resumed_listing_def ob_Listing_def SetListing_def Let_def
      split: option.split)

lemma resumed_listing_idem: "resumed_listing ob (resumed_listing ob l) = resumed_listing ob l"
  by (auto simp: resumed_listing_def Let_def split: option.split)

lemma resumed_listing_evidence [simp]: "resumed_listing (ob\<lparr>ob_Evidence := e\<rparr>) l = resumed_listing ob l"
  by (simp add: resumed_listing_def)

lemma resumed_listing_valid: "validateListing l = None \<Longrightarrow> validateListing (resumed_listing ob l) = None"
  by (auto simp: resumed_listing_def validateListing_def zero_listing_def Let_def
      split: option.split option.splits if_splits)

definition prepared_report :: "observation \<Rightarrow> report \<Rightarrow> report" where
  "prepared_report ob r =
     (prepareDetail (ob_Harness ob)
        (prepareLifecycle (LifecycleFor (ob_Harness ob) (r_Event r) (r_Attributes r)) r))
       \<lparr>r_Listing := resumed_listing ob (r_Listing r)\<rparr>"

lemma PrepareObservation_report:
  "ob_Evidence ob = EvReport r \<Longrightarrow>
   PrepareObservation ob = ob\<lparr>ob_Evidence := EvReport (prepared_report ob r)\<rparr>"
  by (simp add: PrepareObservation_def prepared_report_def Let_def WithResumeCommand_report)

lemma PrepareObservation_other:
  "(\<And>r. ob_Evidence ob \<noteq> EvReport r) \<Longrightarrow> PrepareObservation ob = ob"
  by (simp add: PrepareObservation_def split: evidence.split)

lemma prepared_report_idem: "prepared_report ob (prepared_report ob r) = prepared_report ob r"
proof -
  obtain e s where d: "LifecycleFor (ob_Harness ob) (r_Event r) (r_Attributes r) = TranslateLifecycle e s"
    and again: "LifecycleFor (ob_Harness ob) e (r_Attributes r) = TranslateLifecycle e s"
    using LifecycleFor_form by metis
  define h where "h = ob_Harness ob"
  define r1 where "r1 = prepareLifecycle (TranslateLifecycle e s) r"
  have p: "prepared_report ob r = (prepareDetail h r1)\<lparr>r_Listing := resumed_listing ob (r_Listing r)\<rparr>"
    by (simp add: prepared_report_def d r1_def h_def)
  have ev: "r_Event r1 = e" by (simp add: r1_def)
  have at: "r_Attributes r1 = r_Attributes r" by (simp add: r1_def)
  have "prepareDetail h (prepareLifecycle (TranslateLifecycle e s) (prepareDetail h r1)) =
      prepareDetail h r1"
    using prepareLifecycle_detail [of "TranslateLifecycle e s" r1 h]
    by (simp add: ev prepareDetail_idem prepareLifecycle_idem r1_def)
  then show ?thesis
    unfolding p by (simp add: prepared_report_def h_def [symmetric] ev at again [folded h_def]
        prepare_listing resumed_listing_idem)
qed

lemma PrepareObservation_idem: "PrepareObservation (PrepareObservation ob) = PrepareObservation ob"
proof (cases "ob_Evidence ob")
  case (EvReport r)
  have "prepared_report (ob\<lparr>ob_Evidence := x\<rparr>) r' = prepared_report ob r'" for x r'
    by (simp add: prepared_report_def)
  then show ?thesis
    by (simp add: PrepareObservation_report [OF EvReport] PrepareObservation_report prepared_report_idem)
qed (simp_all add: PrepareObservation_other)

text \<open>
  A valid report stays valid unless its event ends the session while it claims an activity, which
  the registry refuses.
\<close>

definition ends_with_activity :: "observation \<Rightarrow> report \<Rightarrow> bool" where
  "ends_with_activity ob r \<longleftrightarrow>
     r_Lifecycle (prepared_report ob r) = Some NativeLifecycleEnd \<and> r_Activity r \<noteq> None"

lemma prepared_report_valid:
  assumes "validateReport r = None"
  shows "validateReport (prepared_report ob r) =
    (if ends_with_activity ob r then Some (ErrInvalidObservation ''end cannot include activity'')
     else None)"
proof -
  obtain e s where d: "LifecycleFor (ob_Harness ob) (r_Event r) (r_Attributes r) = TranslateLifecycle e s"
    and ev: "r_Event r \<noteq> '''' \<longrightarrow> e = r_Event r"
    using LifecycleFor_form by metis
  define p where "p = prepared_report ob r"
  define h where "h = ob_Harness ob"
  define r1 where "r1 = prepareLifecycle (TranslateLifecycle e s) r"
  have p: "p = (prepareDetail h r1)\<lparr>r_Listing := resumed_listing ob (r_Listing r)\<rparr>"
    by (simp add: p_def prepared_report_def d r1_def h_def)
  have valid: "validReportDetail r" "validStoredLifecycle (r_Lifecycle r)"
    "validStoredOptionalPresence (r_Claim r)" "validStoredOptionalActivity (r_Activity r)"
    "r_Lifecycle r \<noteq> None \<or> r_Claim r \<noteq> None \<or> r_Activity r \<noteq> None \<or> r_Event r \<noteq> ''''"
    "validateReportMetadata r = None"
    using assms by (auto simp: validateReport_def split: if_splits)
  have detail: "validReportDetail p"
  proof (cases "r_Detail r")
    case None
    then have at: "r_DetailObservedAt r = None" using valid(1)
      by (auto simp: validReportDetail_def split: option.splits)
    have "validDetail (r_Detail p) (r_Activity r)"
    proof (cases "r_Detail (prepareDetail h r1)")
      case (Some v)
      then obtain act where act: "r_Activity r1 = Some act" "detail_valid_for v act"
        using prepareDetail_declared [of r1 h v] None by (auto simp: r1_def)
      moreover have "r_Activity r1 = r_Activity r" by (simp add: r1_def)
      ultimately show ?thesis by (simp add: p Some validDetail_def)
    qed (simp add: p validDetail_def)
    then show ?thesis using at by (simp add: validReportDetail_def p r1_def)
  next
    case (Some v)
    then have "prepareDetail h r1 = r1" by (simp add: prepareDetail_kept r1_def)
    then show ?thesis using valid(1)
      by (simp add: validReportDetail_def p r1_def split: option.splits)
  qed
  have range: "(ld_Lifecycle (TranslateLifecycle e s), ld_Presence (TranslateLifecycle e s)) \<in>
     {(no_lifecycle, no_presence), (NativeLifecycleStart, PresenceLive),
      (NativeLifecycleResume, PresenceLive), (NativeLifecycleEnd, PresenceGone)}"
    by (rule TranslateLifecycle_range)
  have states: "validStoredLifecycle (r_Lifecycle p)" "validStoredOptionalPresence (r_Claim p)"
    "validStoredOptionalActivity (r_Activity p)" "r_Activity p = r_Activity r"
    using valid(2-4) range
    by (auto simp: p r1_def prepareLifecycle_def validStoredLifecycle_def
        validStoredOptionalPresence_def)
  have some: "\<not> (r_Lifecycle p = None \<and> r_Claim p = None \<and> r_Activity p = None \<and> r_Event p = '''')"
    using valid(5) ev by (auto simp: p r1_def prepareLifecycle_def split: if_splits)
  have meta: "validateReportMetadata p = None"
    using valid(6) resumed_listing_valid [of "r_Listing r" ob]
    by (auto simp: validateReportMetadata_def p r1_def split: if_splits option.splits)
  show ?thesis
    using detail states some meta
    by (auto simp: validateReport_def p_def [symmetric] ends_with_activity_def)
qed

end
