(* ===== verification/Aht_Inventory.thy ===== *)
theory Aht_Inventory
  imports Aht_Panes Aht_CatalogFacts
begin

section \<open>Lines of descent: the walks of the observer against a relation\<close>

text \<open>
  The observer follows the parents of a process in three places, each time with a bound or a set
  of visited processes that makes the walk end on a table with a cycle. Here the walks are
  compared with the relation they compute, and the pruning of nested agents is shown to keep one
  agent of every line of descent.
\<close>

definition parent_of :: "proc_info pid_map \<Rightarrow> int \<Rightarrow> int \<Rightarrow> bool" where
  "parent_of pm x y \<longleftrightarrow> (\<exists>q. map_of pm x = Some q \<and> pr_PPID q = y \<and> y > 0)"

definition ancestor :: "proc_info pid_map \<Rightarrow> int \<Rightarrow> int \<Rightarrow> bool" where
  "ancestor pm = (parent_of pm)\<^sup>+\<^sup>+"

definition well_keyed :: "proc_info pid_map \<Rightarrow> bool" where
  "well_keyed pm \<longleftrightarrow> (\<forall>k q. map_of pm k = Some q \<longrightarrow> pr_PID q = k \<and> k > 0)"

lemma parent_of_unique: "parent_of pm x y \<Longrightarrow> parent_of pm x z \<Longrightarrow> y = z"
  by (auto simp: parent_of_def)

lemma ancestor_trans: "ancestor pm x y \<Longrightarrow> ancestor pm y z \<Longrightarrow> ancestor pm x z"
  unfolding ancestor_def by (rule tranclp_trans)

text \<open>A process has one parent, so its ancestors form a line.\<close>

lemma rtranclp_linear:
  assumes "\<And>x y z. r x y \<Longrightarrow> r x z \<Longrightarrow> y = z" "r\<^sup>*\<^sup>* x y" "r\<^sup>*\<^sup>* x z"
  shows "r\<^sup>*\<^sup>* y z \<or> r\<^sup>*\<^sup>* z y"
  using assms(2,3)
proof (induction rule: rtranclp_induct)
  case (step y y')
  then consider "r\<^sup>*\<^sup>* y z" | "r\<^sup>*\<^sup>* z y" by blast
  then show ?case
  proof cases
    case 1
    then show ?thesis using step.hyps(2) assms(1) by (cases rule: converse_rtranclpE) auto
  next
    case 2
    then show ?thesis using step.hyps(2) by (simp add: rtranclp.rtrancl_into_rtrancl)
  qed
qed simp

lemma ancestors_linear:
  assumes "ancestor pm x y" "ancestor pm x z"
  shows "y = z \<or> ancestor pm y z \<or> ancestor pm z y"
proof -
  have "(parent_of pm)\<^sup>*\<^sup>* y z \<or> (parent_of pm)\<^sup>*\<^sup>* z y"
    using assms unfolding ancestor_def
    by (intro rtranclp_linear [where x = x] tranclp_into_rtranclp parent_of_unique)
  then show ?thesis unfolding ancestor_def by (auto simp: rtranclp_into_tranclp1 dest: rtranclpD)
qed

subsection \<open>Walks that remember what they visited\<close>

text \<open>A path from a point can start at its last visit of that point.\<close>

lemma leave_for_good:
  assumes "r\<^sup>*\<^sup>* x y" "y \<noteq> x"
  shows "\<exists>z. r x z \<and> z \<noteq> x \<and> (\<lambda>a b. r a b \<and> b \<noteq> x)\<^sup>*\<^sup>* z y"
  using assms
proof (induction rule: rtranclp_induct)
  case (step y z)
  then show ?case
  proof (cases "y = x")
    case False
    then obtain w where "r x w" "w \<noteq> x" "(\<lambda>a b. r a b \<and> b \<noteq> x)\<^sup>*\<^sup>* w y" using step.IH by blast
    then show ?thesis using step.hyps(2) step.prems
      by (metis (mono_tags, lifting) rtranclp.rtrancl_into_rtrancl)
  qed auto
qed simp

definition climbs :: "(proc_info \<Rightarrow> bool) \<Rightarrow> proc_info pid_map \<Rightarrow> int set \<Rightarrow> int \<Rightarrow> int \<Rightarrow> bool" where
  "climbs through pm S x y \<longleftrightarrow>
     (\<exists>q. map_of pm x = Some q \<and> through q \<and> pr_PPID q = y \<and> y > 0 \<and> y \<notin> S)"

lemma climbs_insert: "climbs t pm (insert x S) = (\<lambda>a b. climbs t pm S a b \<and> b \<noteq> x)"
  by (auto simp: climbs_def fun_eq_iff)

lemma parents_iff:
  "y \<in> set (parents t pm seen x) \<longleftrightarrow> x > 0 \<and> x \<notin> set seen \<and> (climbs t pm (set seen))\<^sup>*\<^sup>* x y"
proof (induction t pm seen x rule: parents.induct)
  case (1 t pm seen x)
  show ?case
  proof (cases "x > 0 \<and> x \<notin> set seen")
    case True
    have rest: "y \<in> set (case map_of pm x of None \<Rightarrow> []
        | Some q \<Rightarrow> if t q then parents t pm (x # seen) (pr_PPID q) else []) \<longleftrightarrow>
      (\<exists>z. climbs t pm (set seen) x z \<and> z \<noteq> x
        \<and> (\<lambda>a b. climbs t pm (set seen) a b \<and> b \<noteq> x)\<^sup>*\<^sup>* z y)"
    proof (cases "map_of pm x")
      case (Some q)
      then show ?thesis
        using 1 [OF True Some] by (auto simp: climbs_insert) (auto simp: climbs_def)
    qed (auto simp: climbs_def)
    have "y \<in> set (parents t pm seen x) \<longleftrightarrow> y = x \<or>
      (\<exists>z. climbs t pm (set seen) x z \<and> z \<noteq> x
        \<and> (\<lambda>a b. climbs t pm (set seen) a b \<and> b \<noteq> x)\<^sup>*\<^sup>* z y)"
      using True rest by (subst parents.simps) simp
    also have "\<dots> \<longleftrightarrow> (climbs t pm (set seen))\<^sup>*\<^sup>* x y"
      using leave_for_good [of "climbs t pm (set seen)" x y]
      by (auto elim!: converse_rtranclp_into_rtranclp intro: rtranclp_mono [THEN predicate2D, rotated])
    finally show ?thesis using True by simp
  qed (subst parents.simps, auto)
qed

lemma climbs_parent: "climbs t pm S x y \<Longrightarrow> parent_of pm x y"
  by (auto simp: climbs_def parent_of_def)

lemma parents_ancestor:
  assumes "map_of pm x = Some q" "y \<in> set (parents t pm seen (pr_PPID q))"
  shows "ancestor pm x y"
proof -
  have "parent_of pm x (pr_PPID q)" using assms by (auto simp: parent_of_def parents_iff)
  moreover have "(parent_of pm)\<^sup>*\<^sup>* (pr_PPID q) y"
    using assms(2) by (auto simp: parents_iff intro: rtranclp_mono [THEN predicate2D, rotated] climbs_parent)
  ultimately show ?thesis unfolding ancestor_def by (rule rtranclp_into_tranclp2)
qed

text \<open>The walk of \<open>hasAncestorHarness\<close> meets exactly the ancestors, the process itself left out.\<close>

lemma parents_all_iff:
  assumes "map_of pm x = Some q" "y \<noteq> x"
  shows "y \<in> set (parents (\<lambda>_. True) pm [x] (pr_PPID q)) \<longleftrightarrow> ancestor pm x y"
proof
  assume "ancestor pm x y"
  then have "(parent_of pm)\<^sup>*\<^sup>* x y" unfolding ancestor_def by (rule tranclp_into_rtranclp)
  from leave_for_good [OF this assms(2)] obtain z
    where z: "parent_of pm x z" "z \<noteq> x" "(\<lambda>a b. parent_of pm a b \<and> b \<noteq> x)\<^sup>*\<^sup>* z y" by blast
  have "(\<lambda>a b. parent_of pm a b \<and> b \<noteq> x) = climbs (\<lambda>_. True) pm {x}"
    by (auto simp: climbs_def parent_of_def fun_eq_iff)
  then show "y \<in> set (parents (\<lambda>_. True) pm [x] (pr_PPID q))"
    using z assms(1) by (auto simp: parents_iff parent_of_def)
qed (rule parents_ancestor [OF assms(1)])

lemma hasAncestorHarness_iff:
  "hasAncestorHarness x h pm hm \<longleftrightarrow> (\<exists>y. y \<noteq> x \<and> ancestor pm x y \<and> map_of hm y = Some h)"
proof (cases "map_of pm x")
  case None
  then show ?thesis
    unfolding ancestor_def hasAncestorHarness_def
    by (auto simp: parent_of_def elim: converse_tranclpE)
next
  case (Some q)
  have "x \<notin> set (parents (\<lambda>_. True) pm [x] (pr_PPID q))"
    by (auto simp: parents_iff climbs_def elim: rtranclp.cases)
  then show ?thesis
    using parents_all_iff [OF Some] by (simp add: hasAncestorHarness_def Some list_ex_iff) metis
qed

subsection \<open>Pruning\<close>

definition same_line :: "proc_info pid_map \<Rightarrow> int \<Rightarrow> int \<Rightarrow> bool" where
  "same_line pm x z \<longleftrightarrow> z = x \<or> ancestor pm x z \<or> ancestor pm z x"

definition thinned :: "harness pid_map \<Rightarrow> harness pid_map \<Rightarrow> bool" where
  "thinned hm hm' \<longleftrightarrow> (\<forall>x h. map_of hm' x = Some h \<longrightarrow> map_of hm x = Some h)"

definition kept_by ::
    "(int \<Rightarrow> int \<Rightarrow> bool) \<Rightarrow> harness pid_map \<Rightarrow> harness pid_map \<Rightarrow> bool" where
  "kept_by r hm hm' \<longleftrightarrow>
     (\<forall>x h. map_of hm x = Some h \<longrightarrow> (\<exists>z. map_of hm' z = Some h \<and> (z = x \<or> r x z)))"

lemma map_of_delete: "map_of (AList.delete k m) x = (if x = k then None else map_of m x)"
  by (simp add: delete_conv')

lemma thinned_trans: "thinned a b \<Longrightarrow> thinned b c \<Longrightarrow> thinned a c"
  by (simp add: thinned_def)

lemma kept_by_trans:
  assumes "transp r" "kept_by r a b" "kept_by r b c"
  shows "kept_by r a c"
  unfolding kept_by_def
proof (intro allI impI)
  fix x h assume "map_of a x = Some h"
  then obtain z where z: "map_of b z = Some h" "z = x \<or> r x z"
    using assms(2) unfolding kept_by_def by blast
  then obtain w where w: "map_of c w = Some h" "w = z \<or> r z w"
    using assms(3) unfolding kept_by_def by blast
  then show "\<exists>z. map_of c z = Some h \<and> (z = x \<or> r x z)"
    using z(2) assms(1) by (auto dest: transpD)
qed

text \<open>
  A loop that deletes an entry only while a related one of the same harness is there leaves, for
  each of the first entries, a related one at the end.
\<close>

definition deletes_related :: "(int \<Rightarrow> int \<Rightarrow> bool) \<Rightarrow> harness pid_map \<Rightarrow> harness pid_map \<Rightarrow> bool" where
  "deletes_related r hm hm' \<longleftrightarrow> hm' = hm \<or>
     (\<exists>x h y. hm' = AList.delete x hm \<and> map_of hm x = Some h \<and> y \<noteq> x \<and> r x y
        \<and> map_of hm y = Some h)"

lemma deletes_related_kept:
  assumes "deletes_related r hm hm'"
  shows "thinned hm hm' \<and> kept_by r hm hm'"
proof (cases "hm' = hm")
  case True
  then show ?thesis by (auto simp: thinned_def kept_by_def)
next
  case False
  then obtain x h y where del: "hm' = AList.delete x hm"
    and xy: "map_of hm x = Some h" "y \<noteq> x" "r x y" "map_of hm y = Some h"
    using assms unfolding deletes_related_def by blast
  have at: "map_of hm' z = (if z = x then None else map_of hm z)" for z
    by (simp add: del map_of_delete)
  have "kept_by r hm hm'"
    unfolding kept_by_def
  proof (intro allI impI)
    fix a b assume a: "map_of hm a = Some b"
    then have "map_of hm' (if a = x then y else a) = Some b" using xy by (auto simp: at)
    then show "\<exists>z. map_of hm' z = Some b \<and> (z = a \<or> r a z)" using xy by (metis (full_types))
  qed
  then show ?thesis by (simp add: thinned_def at)
qed

lemma foldl_thinned_kept:
  assumes "transp r"
    and turn: "\<And>hm' p. thinned hm hm' \<Longrightarrow> p \<in> set ps \<Longrightarrow> deletes_related r hm' (f hm' p)"
  shows "thinned hm (foldl f hm ps) \<and> kept_by r hm (foldl f hm ps)"
  using turn
proof (induction ps rule: rev_induct)
  case Nil
  show ?case by (auto simp: thinned_def kept_by_def)
next
  case (snoc p ps)
  then have *: "thinned hm (foldl f hm ps) \<and> kept_by r hm (foldl f hm ps)" by simp
  then have "deletes_related r (foldl f hm ps) (f (foldl f hm ps) p)" using snoc.prems by simp
  then have turned: "thinned (foldl f hm ps) (foldl f hm (ps @ [p]))"
    "kept_by r (foldl f hm ps) (foldl f hm (ps @ [p]))"
    by (auto dest: deletes_related_kept)
  show ?case
    using thinned_trans [OF _ turned(1)] kept_by_trans [OF assms(1) _ turned(2)] * by blast
qed

lemma transp_ancestor: "transp (ancestor pm)" "transp (\<lambda>x y. ancestor pm y x)"
  by (auto intro: transpI ancestor_trans)

text \<open>What the tables of a cycle hold.\<close>

definition agents_of :: "proc_info list \<Rightarrow> harness pid_map \<Rightarrow> bool" where
  "agents_of ps hm \<longleftrightarrow>
     (\<forall>x h. map_of hm x = Some h \<longrightarrow> x > 0 \<and> h \<noteq> [] \<and> x \<in> pr_PID ` set ps)"

lemma agents_of_thinned: "agents_of ps hm \<Longrightarrow> thinned hm hm' \<Longrightarrow> agents_of ps hm'"
  by (auto simp: agents_of_def thinned_def)

lemma processesByPID_snoc:
  "processesByPID (ps @ [p]) =
     (if pr_PID p > 0 then AList.update (pr_PID p) p (processesByPID ps) else processesByPID ps)"
  by (simp add: processesByPID_def)

lemma processesByPID_well_keyed: "well_keyed (processesByPID ps)"
proof (induction ps rule: rev_induct)
  case Nil
  show ?case by (simp add: well_keyed_def processesByPID_def)
next
  case (snoc p ps)
  then show ?case
    unfolding well_keyed_def processesByPID_snoc by (auto simp: update_conv')
qed

lemma processesByPID_lookup:
  assumes "distinct (map pr_PID ps)"
  shows "map_of (processesByPID ps) k = Some p \<longleftrightarrow> k > 0 \<and> p \<in> set ps \<and> pr_PID p = k"
  using assms
proof (induction ps rule: rev_induct)
  case Nil
  show ?case by (simp add: processesByPID_def)
next
  case (snoc a ps)
  then have other: "q \<in> set ps \<Longrightarrow> pr_PID q \<noteq> pr_PID a" for q
    using imageI [of q "set ps" pr_PID] snoc.prems by force
  have before: "map_of (processesByPID ps) k = Some p \<longleftrightarrow> k > 0 \<and> p \<in> set ps \<and> pr_PID p = k"
    using snoc by simp
  show ?case
  proof (cases "pr_PID a > 0 \<and> k = pr_PID a")
    case True
    then show ?thesis using other by (auto simp: processesByPID_snoc update_conv')
  next
    case False
    then have "map_of (processesByPID (ps @ [a])) k = map_of (processesByPID ps) k"
      by (simp add: processesByPID_snoc update_conv')
    then show ?thesis using False before by auto
  qed
qed

lemma first_command_known: "first_command ws = Some h \<Longrightarrow> catalog_Known h"
  by (auto simp: first_command_def dest: FromCommand_known split: option.splits)

lemma observableHarness_same: "observableHarness p h = Some h' \<Longrightarrow> h' = h"
  by (auto simp: observableHarness_def split: if_splits option.splits)

lemma resolveHarness_known: "resolveHarness p = Some h \<Longrightarrow> catalog_Known h"
  unfolding resolveHarness_def hinted_harness_def
  by (auto dest!: observableHarness_same dest: ParseHarness_known FromCommand_known first_command_known
      split: option.splits sum.splits if_splits)

lemma resolveHarnesses_snoc:
  "resolveHarnesses (ps @ [p]) =
     (if pr_PID p \<le> 0 \<or> pr_StartIdentity p = [] then resolveHarnesses ps
      else case resolveHarness p of
        None \<Rightarrow> resolveHarnesses ps
      | Some h \<Rightarrow> AList.update (pr_PID p) h (resolveHarnesses ps))"
  by (simp add: resolveHarnesses_def split: option.splits)

lemma resolveHarnesses_sound:
  "map_of (resolveHarnesses ps) x = Some h \<Longrightarrow>
   \<exists>p. p \<in> set ps \<and> pr_PID p = x \<and> x > 0 \<and> pr_StartIdentity p \<noteq> [] \<and> resolveHarness p = Some h"
proof (induction ps rule: rev_induct)
  case Nil
  then show ?case by (simp add: resolveHarnesses_def)
next
  case (snoc a ps)
  then show ?case
    by (auto simp: resolveHarnesses_snoc update_conv' split: if_splits option.splits)
qed

lemma resolveHarnesses_agents: "agents_of ps (resolveHarnesses ps)"
  unfolding agents_of_def
  using resolveHarnesses_sound resolveHarness_known catalog_Known_named by fastforce

lemma prune_wrapper_turn:
  assumes "distinct (map pr_PID ps)" "agents_of ps hm" "p \<in> set ps"
  shows "deletes_related (\<lambda>x y. ancestor (processesByPID ps) y x) hm
    (prune_wrapper ps (processesByPID ps) hm p)"
proof (cases "prune_wrapper ps (processesByPID ps) hm p = hm")
  case False
  then obtain h where h: "map_of hm (pr_PID p) = Some h"
    and gone: "prune_wrapper ps (processesByPID ps) hm p = AList.delete (pr_PID p) hm"
    and launches: "launchesHarnessThroughWrappers (pr_PID p) h ps (processesByPID ps) hm"
    by (auto simp: prune_wrapper_def split: option.splits if_splits)
  then obtain q where q: "q \<in> set ps" "pr_PID q \<noteq> pr_PID p" "harness_at hm (pr_PID q) = h"
    and up: "pr_PID p \<in> set (parents IsAgentWrapper (processesByPID ps) [pr_PID q] (pr_PPID q))"
    by (auto simp: launchesHarnessThroughWrappers_def list_ex_iff harness_at_def)
  have "h \<noteq> []" using h assms(2) by (simp add: agents_of_def)
  then have at: "map_of hm (pr_PID q) = Some h"
    using q(3) by (cases "map_of hm (pr_PID q)") (auto simp: harness_at_def deref_or_def)
  then have "pr_PID q > 0" using assms(2) by (simp add: agents_of_def)
  then have "map_of (processesByPID ps) (pr_PID q) = Some q"
    using q(1) assms(1) by (simp add: processesByPID_lookup)
  then have "ancestor (processesByPID ps) (pr_PID q) (pr_PID p)" using up by (rule parents_ancestor)
  then show ?thesis using h gone q(2) at unfolding deletes_related_def by blast
qed (simp add: deletes_related_def)

lemma prune_nested_turn: "deletes_related (ancestor pm) hm (prune_nested pm hm p)"
  unfolding deletes_related_def prune_nested_def
  by (auto simp: hasAncestorHarness_iff split: option.splits)

lemma prune_nested_none:
  "map_of (prune_nested pm hm p) (pr_PID p) = Some h \<Longrightarrow> y \<noteq> pr_PID p \<Longrightarrow>
   ancestor pm (pr_PID p) y \<Longrightarrow> map_of (prune_nested pm hm p) y \<noteq> Some h"
  by (auto simp: prune_nested_def hasAncestorHarness_iff map_of_delete split: option.splits if_splits)

lemma foldl_thinned:
  assumes "\<And>hm p. thinned hm (f hm p)"
  shows "thinned hm (foldl f hm ps)"
proof (induction ps arbitrary: hm)
  case (Cons p ps)
  show ?case using thinned_trans [OF assms Cons.IH] by simp
qed (simp add: thinned_def)

lemma pruned_no_nested:
  assumes "x \<in> pr_PID ` set ps" "map_of (foldl (prune_nested pm) hm ps) x = Some h"
    "y \<noteq> x" "ancestor pm x y"
  shows "map_of (foldl (prune_nested pm) hm ps) y \<noteq> Some h"
  using assms
proof (induction ps arbitrary: hm)
  case (Cons p ps)
  have thin: "thinned (prune_nested pm hm p) (foldl (prune_nested pm) (prune_nested pm hm p) ps)"
    using deletes_related_kept [OF prune_nested_turn] by (intro foldl_thinned) blast
  show ?case
  proof (cases "x = pr_PID p")
    case True
    then show ?thesis
      using prune_nested_none [of pm hm p h y] Cons.prems thin by (auto simp: thinned_def)
  next
    case False
    then show ?thesis using Cons by auto
  qed
qed simp

lemma pruned_agents:
  assumes "distinct (map pr_PID ps)" "agents_of ps hm"
  defines "pm \<equiv> processesByPID ps"
  defines "hm' \<equiv> pruneNestedHarnesses ps pm hm"
  shows "thinned hm hm'"
    and "kept_by (\<lambda>x z. ancestor pm x z \<or> ancestor pm z x) hm hm'"
    and "map_of hm' x = Some h \<Longrightarrow> y \<noteq> x \<Longrightarrow> ancestor pm x y \<Longrightarrow> map_of hm' y \<noteq> Some h"
proof -
  define hm1 where "hm1 = foldl (prune_wrapper ps pm) hm ps"
  have one: "thinned hm hm1 \<and> kept_by (\<lambda>x y. ancestor pm y x) hm hm1"
    unfolding hm1_def pm_def
    using prune_wrapper_turn [OF assms(1)] agents_of_thinned [OF assms(2)]
    by (intro foldl_thinned_kept transp_ancestor) blast
  have two: "thinned hm1 hm' \<and> kept_by (ancestor pm) hm1 hm'"
    unfolding hm'_def hm1_def pruneNestedHarnesses_def
    by (intro foldl_thinned_kept transp_ancestor prune_nested_turn)
  show thin: "thinned hm hm'" using one two thinned_trans by blast
  show "kept_by (\<lambda>x z. ancestor pm x z \<or> ancestor pm z x) hm hm'"
    unfolding kept_by_def
  proof (intro allI impI)
    fix x h assume "map_of hm x = Some h"
    then obtain y where y: "map_of hm1 y = Some h" "y = x \<or> ancestor pm y x"
      using one unfolding kept_by_def by blast
    then obtain z where z: "map_of hm' z = Some h" "z = y \<or> ancestor pm y z"
      using two unfolding kept_by_def by blast
    then have "z = x \<or> ancestor pm x z \<or> ancestor pm z x"
      using y(2) ancestors_linear [of pm y x z] by auto
    then show "\<exists>z. map_of hm' z = Some h \<and> (z = x \<or> ancestor pm x z \<or> ancestor pm z x)"
      using z(1) by blast
  qed
  assume "map_of hm' x = Some h" "y \<noteq> x" "ancestor pm x y"
  moreover have "x \<in> pr_PID ` set ps"
    using calculation(1) thin assms(2) unfolding thinned_def agents_of_def by blast
  ultimately show "map_of hm' y \<noteq> Some h"
    using pruned_no_nested unfolding hm'_def pruneNestedHarnesses_def by blast
qed

subsection \<open>Bounded walks\<close>

text \<open>
  \<open>processDescendsFrom\<close> takes as many turns as the table has entries. A process in the table that
  descends from the root does so within them, whatever cycles the table has.
\<close>

lemma descends_walk_sound:
  assumes "descends_walk n p root pm" "map_of pm (pr_PID p) = Some p" "root > 0" "well_keyed pm"
  shows "ancestor pm (pr_PID p) root"
  using assms
proof (induction n p root pm rule: descends_walk.induct)
  case (2 n p root pm)
  show ?case
  proof (cases "pr_PPID p = root")
    case True
    then have "parent_of pm (pr_PID p) root" using 2(3,4) by (simp add: parent_of_def)
    then show ?thesis unfolding ancestor_def by blast
  next
    case False
    then obtain q where q: "map_of pm (pr_PPID p) = Some q" "descends_walk n q root pm"
      using 2(2) by (auto split: option.splits if_splits)
    then have key: "pr_PID q = pr_PPID p" "pr_PPID p > 0" using 2(5) by (auto simp: well_keyed_def)
    have "pr_PID q \<noteq> pr_PID p" using 2(2) q False by auto
    then have "ancestor pm (pr_PID q) root" using 2 q key False by simp
    moreover have "parent_of pm (pr_PID p) (pr_PID q)" using key 2(3) by (simp add: parent_of_def)
    ultimately show ?thesis unfolding ancestor_def by (metis tranclp_into_tranclp2)
  qed
qed simp

lemma leave_source:
  assumes "r\<^sup>+\<^sup>+ x y"
  shows "\<exists>z. r x z \<and> (\<lambda>a b. r a b \<and> a \<noteq> x)\<^sup>*\<^sup>* z y"
  using assms
proof (induction rule: tranclp_induct)
  case (step y w)
  then show ?case
  proof (cases "y = x")
    case False
    then have "(\<lambda>a b. r a b \<and> a \<noteq> x)\<^sup>*\<^sup>* z y \<Longrightarrow> (\<lambda>a b. r a b \<and> a \<noteq> x)\<^sup>*\<^sup>* z w" for z
      using rtranclp.rtrancl_into_rtrancl [of "\<lambda>a b. r a b \<and> a \<noteq> x" z y w] step.hyps(2) False
      by simp
    then show ?thesis using step.IH by blast
  qed blast
qed blast

lemma descends_walk_complete:
  assumes "map_of pm (pr_PID p) = Some p" "well_keyed pm" "pr_PID p \<notin> S"
    and "(\<lambda>a b. parent_of pm a b \<and> a \<notin> S)\<^sup>+\<^sup>+ (pr_PID p) root"
    and "card (fst ` set pm - S) \<le> n"
  shows "descends_walk n p root pm"
  using assms
proof (induction n arbitrary: p S)
  case 0
  then have "pr_PID p \<in> fst ` set pm - S" by (auto dest: map_of_SomeD intro: rev_image_eqI)
  moreover have "finite (fst ` set pm - S)" by simp
  ultimately show ?case using 0 by (metis card_gt_0_iff empty_iff le_zero_eq less_irrefl)
next
  case (Suc n)
  define x where "x = pr_PID p"
  define S' where "S' = insert x S"
  have x: "x \<in> fst ` set pm - S"
    using Suc.prems(1,3) unfolding x_def by (auto dest: map_of_SomeD intro: rev_image_eqI)
  show ?case
  proof (cases "pr_PPID p = root")
    case False
    obtain z where z: "parent_of pm x z"
      "(\<lambda>a b. (parent_of pm a b \<and> a \<notin> S) \<and> a \<noteq> x)\<^sup>*\<^sup>* z root"
      using leave_source [OF Suc.prems(4)] unfolding x_def by blast
    have "z = pr_PPID p" using z(1) Suc.prems(1) by (auto simp: parent_of_def x_def)
    moreover have "(\<lambda>a b. (parent_of pm a b \<and> a \<notin> S) \<and> a \<noteq> x) =
        (\<lambda>a b. parent_of pm a b \<and> a \<notin> S')"
      by (auto simp: S'_def fun_eq_iff)
    ultimately have path: "(\<lambda>a b. parent_of pm a b \<and> a \<notin> S')\<^sup>+\<^sup>+ (pr_PPID p) root"
      using z(2) False by (auto dest: rtranclpD)
    then have "\<exists>y. parent_of pm (pr_PPID p) y \<and> pr_PPID p \<notin> S'"
      by (cases rule: converse_tranclpE) blast+
    then obtain q where q: "map_of pm (pr_PPID p) = Some q" "pr_PPID p \<notin> S'"
      by (auto simp: parent_of_def)
    then have key: "pr_PID q = pr_PPID p" using Suc.prems(2) by (simp add: well_keyed_def)
    have "fst ` set pm - S' = (fst ` set pm - S) - {x}" by (auto simp: S'_def)
    then have "card (fst ` set pm - S') \<le> n"
      using Suc.prems(5) x by (simp add: card_Diff_singleton)
    then have "descends_walk n q root pm"
      using Suc.IH [of q S'] q key path Suc.prems(2) by simp
    moreover have "pr_PID q \<noteq> pr_PID p" using q(2) key by (simp add: S'_def x_def)
    ultimately show ?thesis using q(1) by simp
  qed simp
qed

lemma processDescendsFrom_iff:
  assumes "map_of pm (pr_PID p) = Some p" "well_keyed pm"
  shows "processDescendsFrom p root pm \<longleftrightarrow> root > 0 \<and> ancestor pm (pr_PID p) root"
proof -
  have "card (fst ` set pm - {}) \<le> length pm"
    using card_image_le [of "set pm" fst] card_length [of pm] by simp
  then show ?thesis
    using descends_walk_sound [OF _ assms(1) _ assms(2)]
      descends_walk_complete [OF assms, of "{}" root "length pm"]
    by (auto simp: processDescendsFrom_def ancestor_def)
qed

end
