(* ===== verification/Aht_Tracking.thy ===== *)
theory Aht_Tracking
  imports Aht_Observer Aht_Inventory "HOL-Library.Multiset"
begin

section \<open>What the observer remembers between cycles\<close>

text \<open>
  The table of tracked processes is a map whose entries stand for their own process. A cycle that
  records its batch replaces the table by that of the agents it saw and of those that are missing
  but not given up yet; a cycle that fails leaves it as it was.
\<close>

definition entry_ok :: "process_key \<Rightarrow> tracked_process \<Rightarrow> bool" where
  "entry_ok k t \<longleftrightarrow>
     process_key_of (pk_harness k) (tk_process t) = k \<and> process_complete (processIdentity (tk_process t))"

definition tracked_ok :: "tracked_map \<Rightarrow> bool" where
  "tracked_ok m \<longleftrightarrow> distinct (map fst m)
     \<and> (\<forall>k t. map_of m k = Some t \<longrightarrow> entry_ok k t)"

lemma tracked_ok_update:
  "tracked_ok m \<Longrightarrow> entry_ok k t \<Longrightarrow> tracked_ok (AList.update k t m)"
  by (auto simp: tracked_ok_def update_conv' distinct_update split: if_splits)

lemma tracked_ok_delete: "tracked_ok m \<Longrightarrow> tracked_ok (AList.delete k m)"
  by (auto simp: tracked_ok_def delete_conv' distinct_delete split: if_splits)

lemma tracked_ok_Nil: "tracked_ok []"
  by (simp add: tracked_ok_def)

lemma process_key_of_simps [simp]:
  "pk_harness (process_key_of h p) = h" "pk_pid (process_key_of h p) = pr_PID p"
  "pk_start (process_key_of h p) = pr_StartIdentity p"
  by (simp_all add: process_key_of_def)

subsection \<open>The agents a cycle sees\<close>

definition complete_agents :: "harness pid_map \<Rightarrow> proc_info list \<Rightarrow> bool" where
  "complete_agents hm ps \<longleftrightarrow>
     (\<forall>p\<in>set ps. map_of hm (pr_PID p) \<noteq> None \<longrightarrow> process_complete (processIdentity p))"

lemma sighting_turn_tracked:
  "tracked_ok (snd st) \<Longrightarrow> map_of hm (pr_PID p) \<noteq> None \<longrightarrow> process_complete (processIdentity p) \<Longrightarrow>
   tracked_ok (snd (sighting_turn cm hm at st p))"
  by (auto simp: sighting_turn_def entry_ok_def intro!: tracked_ok_update split: option.split)

lemma processSightings_tracked:
  assumes "complete_agents (ci_harnessByPID ci) (ci_processes ci)"
  shows "tracked_ok (snd (processSightings ci cm at))"
proof -
  have "tracked_ok (snd (foldl (sighting_turn cm hm at) st ps))"
    if "tracked_ok (snd st)" "complete_agents hm ps" for hm st ps
    using that
  proof (induction ps arbitrary: st)
    case (Cons p ps)
    have "tracked_ok (snd (sighting_turn cm hm at st p))"
      using Cons.prems by (intro sighting_turn_tracked) (auto simp: complete_agents_def)
    then show ?case using Cons by (simp add: complete_agents_def)
  qed simp
  then show ?thesis using assms by (simp add: processSightings_def tracked_ok_Nil)
qed

text \<open>A fresh entry, as a sighting makes it.\<close>

definition fresh_entry :: "proc_info \<Rightarrow> tracked_process" where
  "fresh_entry p = \<lparr>tk_process = p, tk_missingSince = 0, tk_missingCount = 0\<rparr>"

definition sighting_of :: "catalog_entry pid_map \<Rightarrow> time \<Rightarrow> harness \<Rightarrow> proc_info \<Rightarrow> observation" where
  "sighting_of cm at h p =
     \<lparr>ob_Harness = h, ob_At = at, ob_Subject = sighting_subject cm h p,
      ob_Evidence = EvSighting \<lparr>si_Process = processIdentity p, si_Present = True\<rparr>\<rparr>"

lemma processSightings_obs:
  "ob \<in> set (fst (processSightings ci cm at)) \<longleftrightarrow>
     (\<exists>p h. p \<in> set (ci_processes ci) \<and> map_of (ci_harnessByPID ci) (pr_PID p) = Some h
        \<and> ob = sighting_of cm at h p)"
proof -
  have "ob \<in> set (fst (foldl (sighting_turn cm hm at) st ps)) \<longleftrightarrow> ob \<in> set (fst st) \<or>
     (\<exists>p h. p \<in> set ps \<and> map_of hm (pr_PID p) = Some h \<and> ob = sighting_of cm at h p)" for hm st ps
    by (induction ps arbitrary: st)
      (auto simp: sighting_turn_def sighting_of_def split: option.splits)
  then show ?thesis by (simp add: processSightings_def)
qed

lemma processSightings_keys:
  "map_of (snd (processSightings ci cm at)) k = Some t \<Longrightarrow>
     \<exists>p. p \<in> set (ci_processes ci) \<and> map_of (ci_harnessByPID ci) (pr_PID p) = Some (pk_harness k)
       \<and> k = process_key_of (pk_harness k) p \<and> t = fresh_entry p"
proof -
  have "map_of (snd (foldl (sighting_turn cm hm at) st ps)) k = Some t \<Longrightarrow>
      map_of (snd st) k = Some t \<or>
     (\<exists>p. p \<in> set ps \<and> map_of hm (pr_PID p) = Some (pk_harness k)
        \<and> k = process_key_of (pk_harness k) p \<and> t = fresh_entry p)" for hm st ps
    by (induction ps arbitrary: st)
      (fastforce simp: sighting_turn_def fresh_entry_def update_conv' split: option.splits if_splits)+
  then show "map_of (snd (processSightings ci cm at)) k = Some t \<Longrightarrow> ?thesis"
    by (fastforce simp: processSightings_def)
qed

lemma processSightings_seen:
  "p \<in> set (ci_processes ci) \<Longrightarrow> map_of (ci_harnessByPID ci) (pr_PID p) = Some h \<Longrightarrow>
   map_of (snd (processSightings ci cm at)) (process_key_of h p) \<noteq> None"
proof -
  have turn: "map_of (snd st) k \<noteq> None \<or> (map_of hm (pr_PID a) = Some h' \<and> k = process_key_of h' a) \<Longrightarrow>
     map_of (snd (sighting_turn cm hm at st a)) k \<noteq> None" for hm st k a h'
    by (auto simp: sighting_turn_def update_conv' split: option.splits)
  have keep: "map_of (snd st) k \<noteq> None \<Longrightarrow>
     map_of (snd (foldl (sighting_turn cm hm at) st ps)) k \<noteq> None" for hm st ps k
  proof (induction ps arbitrary: st)
    case (Cons a ps)
    show ?case unfolding foldl_Cons by (rule Cons.IH, rule turn) (simp add: Cons.prems)
  qed simp
  have "p \<in> set ps \<Longrightarrow> map_of hm (pr_PID p) = Some h \<Longrightarrow>
     map_of (snd (foldl (sighting_turn cm hm at) st ps)) (process_key_of h p) \<noteq> None" for hm st ps
  proof (induction ps arbitrary: st)
    case (Cons a ps)
    show ?case
    proof (cases "a = p")
      case True
      then show ?thesis unfolding foldl_Cons
        by (intro keep turn [where h' = h]) (use Cons.prems in simp)
    next
      case False
      then show ?thesis using Cons by simp
    qed
  qed simp
  then show "p \<in> set (ci_processes ci) \<Longrightarrow> map_of (ci_harnessByPID ci) (pr_PID p) = Some h \<Longrightarrow> ?thesis"
    by (simp add: processSightings_def)
qed

subsection \<open>Processes that are missing\<close>

definition gone_observation :: "time \<Rightarrow> process_key \<Rightarrow> tracked_process \<Rightarrow> observation" where
  "gone_observation at k t =
     bare_observation (pk_harness k) at
       (EvSighting \<lparr>si_Process = processIdentity (tk_process t), si_Present = False\<rparr>)"

definition given_up :: "duration \<Rightarrow> tracked_map \<Rightarrow> time \<Rightarrow> process_key \<Rightarrow> tracked_process \<Rightarrow> bool" where
  "given_up grace current at k t \<longleftrightarrow>
     map_of current k = None \<and> missingProcessRetired grace (note_missing at t) at"

lemma retire_missing_cases:
  "retire_missing grace current at st (k, t) =
     (if map_of current k \<noteq> None then st
      else if given_up grace current at k t
      then (fst st @ [gone_observation at k t],
            (snd st)\<lparr>tu_next := AList.update k (note_missing at t) (tu_next (snd st)),
                     tu_retired := tu_retired (snd st) @ [k]\<rparr>)
      else (fst st,
            (snd st)\<lparr>tu_next := AList.update k (note_missing at t) (tu_next (snd st))\<rparr>))"
  by (simp add: retire_missing_def given_up_def gone_observation_def Let_def note_missing_def)

lemma foldl_retire_next:
  "distinct (map fst ts) \<Longrightarrow>
   map_of (tu_next (snd (foldl (retire_missing grace current at) st ts))) k =
     (if map_of current k = None \<and> map_of ts k \<noteq> None then map_option (note_missing at) (map_of ts k)
      else map_of (tu_next (snd st)) k)"
proof (induction ts arbitrary: st)
  case (Cons x ts)
  obtain a t where x: "x = (a, t)" by (cases x)
  have "k = a \<Longrightarrow> map_of ts k = None" using Cons.prems by (simp add: x map_of_eq_None_iff)
  then show ?case using Cons
    by (auto simp: x retire_missing_cases update_conv' Cons.IH)
qed simp

lemma foldl_retire_keys:
  "k \<in> set (tu_retired (snd (foldl (retire_missing grace current at) st ts))) \<longleftrightarrow>
     k \<in> set (tu_retired (snd st)) \<or> (\<exists>t. (k, t) \<in> set ts \<and> given_up grace current at k t)"
proof (induction ts arbitrary: st)
  case (Cons x ts)
  then show ?case by (cases x) (auto simp: retire_missing_cases given_up_def)
qed simp

lemma foldl_retire_obs:
  "ob \<in> set (fst (foldl (retire_missing grace current at) st ts)) \<longleftrightarrow>
     ob \<in> set (fst st)
     \<or> (\<exists>k t. (k, t) \<in> set ts \<and> given_up grace current at k t \<and> ob = gone_observation at k t)"
proof (induction ts arbitrary: st)
  case (Cons x ts)
  then show ?case by (cases x) (auto simp: retire_missing_cases given_up_def)
qed simp

lemma foldl_retire_ok:
  "tracked_ok (tu_next (snd st)) \<Longrightarrow>
   (\<And>k t. (k, t) \<in> set ts \<Longrightarrow> entry_ok k t) \<Longrightarrow>
   tracked_ok (tu_next (snd (foldl (retire_missing grace current at) st ts)))"
proof (induction ts arbitrary: st)
  case (Cons x ts)
  obtain k t where x: "x = (k, t)" by (cases x)
  have "entry_ok k (note_missing at t)"
    using Cons.prems(2) [of k t] by (simp add: x note_missing_def entry_ok_def)
  then have "tracked_ok (tu_next (snd (retire_missing grace current at st x)))"
    using Cons.prems(1) by (simp add: x retire_missing_cases tracked_ok_update)
  then show ?case using Cons.IH Cons.prems(2) by simp
qed simp

text \<open>The order of the range loop is that of a permutation of the table.\<close>

lemma map_of_mset:
  assumes "distinct (map fst m)" "mset m' = mset m"
  shows "map_of m' = map_of m" "distinct (map fst m')"
proof -
  have "mset (map fst m') = mset (map fst m)" using assms(2) by simp
  then show *: "distinct (map fst m')" using assms(1) by (metis distinct_count_atmost_1 mset_eq_setD set_mset_mset)
  show "map_of m' = map_of m"
    using map_of_inject_set [OF * assms(1)] assms(2) mset_eq_setD by blast
qed

lemma tracked_ok_mset: "tracked_ok m \<Longrightarrow> mset m' = mset m \<Longrightarrow> tracked_ok m'"
  using map_of_mset [of m m'] by (simp add: tracked_ok_def)

lemma tracked_ok_mem: "tracked_ok m \<Longrightarrow> (k, t) \<in> set m \<longleftrightarrow> map_of m k = Some t"
  by (simp add: tracked_ok_def)

lemma retireMissingProcesses_next:
  assumes "tracked_ok m" "mset m' = mset m"
  shows "map_of (tu_next (snd (retireMissingProcesses grace m' current at))) k =
    (case map_of current k of Some c \<Rightarrow> Some c | None \<Rightarrow> map_option (note_missing at) (map_of m k))"
proof -
  have eq: "map_of m' = map_of m" "distinct (map fst m')"
    using map_of_mset [of m m'] assms by (auto simp: tracked_ok_def)
  show ?thesis
    by (simp add: retireMissingProcesses_def foldl_retire_next [OF eq(2)] eq(1) split: option.split)
qed

lemma retireMissingProcesses_retired:
  assumes "tracked_ok m" "mset m' = mset m"
  shows "k \<in> set (tu_retired (snd (retireMissingProcesses grace m' current at))) \<longleftrightarrow>
    (\<exists>t. map_of m k = Some t \<and> given_up grace current at k t)"
  using assms mset_eq_setD [OF assms(2)]
  by (simp add: retireMissingProcesses_def foldl_retire_keys tracked_ok_mem)

lemma retireMissingProcesses_obs:
  assumes "tracked_ok m" "mset m' = mset m"
  shows "ob \<in> set (fst (retireMissingProcesses grace m' current at)) \<longleftrightarrow>
    (\<exists>k t. map_of m k = Some t \<and> given_up grace current at k t \<and> ob = gone_observation at k t)"
  using assms mset_eq_setD [OF assms(2)]
  by (simp add: retireMissingProcesses_def foldl_retire_obs tracked_ok_mem)

lemma retireMissingProcesses_ok:
  assumes "tracked_ok m" "mset m' = mset m" "tracked_ok current"
  shows "tracked_ok (tu_next (snd (retireMissingProcesses grace m' current at)))"
proof -
  have "tracked_ok m'" using tracked_ok_mset assms(1,2) by blast
  then show ?thesis unfolding retireMissingProcesses_def using assms(3)
    by (intro foldl_retire_ok) (simp_all add: tracked_ok_mem, simp add: tracked_ok_def)
qed

lemma drop_retired_lookup:
  "map_of (drop_retired ks m) k = (if k \<in> set ks then None else map_of m k)"
  unfolding drop_retired_def
  by (induction ks arbitrary: m) (auto simp: delete_conv')

lemma drop_retired_ok: "tracked_ok m \<Longrightarrow> tracked_ok (drop_retired ks m)"
  unfolding drop_retired_def
  by (induction ks arbitrary: m) (auto intro: tracked_ok_delete)

subsection \<open>What a cycle keeps\<close>

named_theorems observer_frame

text \<open>The part of an observer that only the recording of a batch changes.\<close>

definition memory :: "observer \<Rightarrow> tracked_map \<times> candidate_map \<times> pending_map \<times> bool" where
  "memory o' = (os_tracked o', os_candidates o', os_screenPending o', os_initialized o')"

text \<open>What no cycle changes.\<close>

definition options :: "observer \<Rightarrow> duration \<times> duration \<times> bool \<times> bool \<times> bool" where
  "options o' =
     (os_grace o', os_confirmAfter o', os_disableScreen o', os_continuous o', os_running o')"

lemma memory_eq_iff:
  "memory a = memory b \<longleftrightarrow> os_tracked a = os_tracked b \<and> os_candidates a = os_candidates b
     \<and> os_screenPending a = os_screenPending b \<and> os_initialized a = os_initialized b"
  by (simp add: memory_def)

lemma options_eq_iff:
  "options a = options b \<longleftrightarrow> os_grace a = os_grace b \<and> os_confirmAfter a = os_confirmAfter b
     \<and> os_disableScreen a = os_disableScreen b \<and> os_continuous a = os_continuous b
     \<and> os_running a = os_running b"
  by (simp add: options_def)

lemma updateHealth_frame [observer_frame]:
  "memory (fst (updateHealth w at d c e r o')) = memory o'"
  "options (fst (updateHealth w at d c e r o')) = options o'"
  by (simp_all add: updateHealth_def Let_def memory_def options_def)

lemma recordHealth_frame [observer_frame]:
  "memory (snd (recordHealth w at d c e r o')) = memory o'"
  "options (snd (recordHealth w at d c e r o')) = options o'"
proof -
  obtain o1 b where u: "updateHealth w at d c e r o' = (o1, b)" by (rule prod.exhaust)
  then have "memory o1 = memory o'" "options o1 = options o'"
    using updateHealth_frame [of w at d c e r o'] by simp_all
  moreover have "memory (o1\<lparr>os_lastHealthWrite := at\<rparr>) = memory o1"
    "options (o1\<lparr>os_lastHealthWrite := at\<rparr>) = options o1"
    by (simp_all add: memory_def options_def)
  ultimately show "memory (snd (recordHealth w at d c e r o')) = memory o'"
    "options (snd (recordHealth w at d c e r o')) = options o'"
    by (simp_all add: recordHealth_def u)
qed

lemma failCycle_frame [observer_frame]:
  "memory (snd (failCycle w at c e r o')) = memory o'"
  "options (snd (failCycle w at c e r o')) = options o'"
  using recordHealth_frame [of w at True c "Some e" "withDegradation e r" o']
  by (simp_all add: failCycle_def Let_def case_prod_beta)

lemma recordCycleHealth_frame [observer_frame]:
  "memory (snd (recordCycleHealth w at r o')) = memory o'"
  "options (snd (recordCycleHealth w at r o')) = options o'"
  by (simp_all add: recordCycleHealth_def observer_frame)

lemma failCycle_errors: "hd (snd (fst (failCycle w at c e r o'))) = e" "snd (fst (failCycle w at c e r o')) \<noteq> []"
  by (simp_all add: failCycle_def Let_def case_prod_beta)

text \<open>Looking at the panes changes only the cache of manifests and the readings that wait.\<close>

lemma read_pane_frame:
  "os_tracked (ps_observer (read_pane w ci at pn p h st)) = os_tracked (ps_observer st)"
  "os_candidates (ps_observer (read_pane w ci at pn p h st)) = os_candidates (ps_observer st)"
  "os_initialized (ps_observer (read_pane w ci at pn p h st)) = os_initialized (ps_observer st)"
  "options (ps_observer (read_pane w ci at pn p h st)) = options (ps_observer st)"
  by (simp_all add: read_pane_def options_def Let_def case_prod_beta split: option.split)

lemma pane_turn_frame:
  "os_tracked (ps_observer (pane_turn w ci counts at st pn)) = os_tracked (ps_observer st)"
  "os_candidates (ps_observer (pane_turn w ci counts at st pn)) = os_candidates (ps_observer st)"
  "os_initialized (ps_observer (pane_turn w ci counts at st pn)) = os_initialized (ps_observer st)"
  "options (ps_observer (pane_turn w ci counts at st pn)) = options (ps_observer st)"
  by (simp_all add: pane_turn_def read_pane_frame Let_def case_prod_beta split: option.split)

lemma paneObservations_frame:
  "os_tracked (ps_observer (paneObservations w ci pns at o')) = os_tracked o'"
  "os_candidates (ps_observer (paneObservations w ci pns at o')) = os_candidates o'"
  "os_initialized (ps_observer (paneObservations w ci pns at o')) = os_initialized o'"
  "options (ps_observer (paneObservations w ci pns at o')) = options o'"
proof -
  have "os_tracked (ps_observer (foldl (pane_turn w ci c at) st pns)) = os_tracked (ps_observer st)
    \<and> os_candidates (ps_observer (foldl (pane_turn w ci c at) st pns)) = os_candidates (ps_observer st)
    \<and> os_initialized (ps_observer (foldl (pane_turn w ci c at) st pns)) = os_initialized (ps_observer st)
    \<and> options (ps_observer (foldl (pane_turn w ci c at) st pns)) = options (ps_observer st)" for c st
    by (induction pns arbitrary: st) (simp_all add: pane_turn_frame)
  then show "os_tracked (ps_observer (paneObservations w ci pns at o')) = os_tracked o'"
    "os_candidates (ps_observer (paneObservations w ci pns at o')) = os_candidates o'"
    "os_initialized (ps_observer (paneObservations w ci pns at o')) = os_initialized o'"
    "options (ps_observer (paneObservations w ci pns at o')) = options o'"
    by (simp_all add: paneObservations_def)
qed

lemma initializeTracked_frame:
  "initializeTracked op o' s = (e, o1, s1) \<Longrightarrow>
   os_candidates o1 = os_candidates o' \<and> os_screenPending o1 = os_screenPending o'
     \<and> options o1 = options o'"
  by (auto simp: initializeTracked_def options_def split: if_splits prod.splits sum.splits)

subsection \<open>Cycles that record their batch, and cycles that fail\<close>

text \<open>A cycle whose only error is that of the health file has recorded its batch.\<close>

definition recorded :: "cycle_error list \<Rightarrow> bool" where
  "recorded errs \<longleftrightarrow> set errs \<subseteq> {CycleHealth}"

definition stored_batch ::
    "'s observation_store \<Rightarrow> observation list \<Rightarrow> 's \<Rightarrow> 's \<Rightarrow> bool" where
  "stored_batch op obs s s' \<longleftrightarrow>
     (if obs = [] then s' = s else \<exists>ss. op_ObserveBatch op obs s = (Inr ss, s'))"

lemma failCycle_not_recorded:
  "e \<noteq> CycleHealth \<Longrightarrow> \<not> recorded (snd (fst (failCycle w at c e r o')))"
  using failCycle_errors [of w at c e r o'] by (cases "snd (fst (failCycle w at c e r o'))") (auto simp: recorded_def)

definition batch_error :: "(cycle_error \<times> bool) option \<Rightarrow> bool" where
  "batch_error f \<longleftrightarrow> (case f of None \<Rightarrow> True | Some (e, _) \<Rightarrow> e \<noteq> CycleHealth)"

lemma observeBatch_cases:
  "case observeBatch op obs s of
     ((ss, None), s1) \<Rightarrow> op_ObserveBatch op obs s = (Inr ss, s1)
   | ((ss, Some (err, conflict)), s1) \<Rightarrow>
       (\<exists>e es s0. op_ObserveBatch op obs s = (Inl e, s0) \<and> conflict = is_conflict e
          \<and> err = CycleObservations e es)"
  by (auto simp: observeBatch_def split: prod.split sum.split)

lemma recordCycleHealth_observer:
  assumes "recordCycleHealth w at r o1 = (b, o2)"
  shows "memory o2 = memory o1" "options o2 = options o1"
  using recordCycleHealth_frame [of w at r o1] assms by simp_all

lemma failCycle_observer:
  assumes "failCycle w at c e r o1 = ((r', errs), o2)" "e \<noteq> CycleHealth"
  shows "memory o2 = memory o1" "options o2 = options o1" "\<not> recorded errs"
  using failCycle_frame [of w at c e r o1] failCycle_not_recorded [of e w at c r o1] assms
  by simp_all

lemma recordObservations_cases:
  assumes "recordObservations op w at obs u r o' s = ((r', errs), o2, s')"
  shows "if recorded errs
    then stored_batch op obs s s'
      \<and> memory o2 = (drop_retired (tu_retired u) (tu_next u), tu_candidates u, os_screenPending o',
          os_initialized o')
      \<and> options o2 = options o'
    else \<exists>e s0. op_ObserveBatch op obs s = (Inl e, s0)
      \<and> memory o2 = (if is_conflict e then tu_next u else os_tracked o', os_candidates o',
          os_screenPending o', os_initialized o')
      \<and> options o2 = options o'"
proof -
  obtain ss failure s1 where b: "(if obs = [] then (([], None), s) else observeBatch op obs s) =
      ((ss, failure), s1)"
    by (metis prod.exhaust)
  define r0 where "r0 = r\<lparr>rs_Observations := length obs\<rparr>"
  define r1 where "r1 = (if obs = [] then r0 else r0\<lparr>rs_Sessions := length ss, rs_Changed := length ss\<rparr>)"
  note unfolded = assms [unfolded recordObservations_def Let_def b prod.case,
      folded r0_def, folded r1_def]
  show ?thesis
  proof (cases failure)
    case None
    then have stored: "stored_batch op obs s s1"
      using b observeBatch_cases [of op obs s] by (auto simp: stored_batch_def split: if_splits)
    obtain b o3 where h: "recordCycleHealth w at r1
        (o'\<lparr>os_tracked := drop_retired (tu_retired u) (tu_next u), os_candidates := tu_candidates u\<rparr>) =
        (b, o3)"
      by (rule prod.exhaust)
    have "recorded errs" "o2 = o3" "s' = s1"
      using unfolded by (auto simp: None h recorded_def split: if_splits)
    then show ?thesis using stored recordCycleHealth_observer [OF h]
      by (simp add: memory_def options_def)
  next
    case (Some f)
    obtain err conflict where f: "f = (err, conflict)" by (rule prod.exhaust)
    obtain e es s0 where e: "op_ObserveBatch op obs s = (Inl e, s0)" "conflict = is_conflict e"
      "err = CycleObservations e es"
      using b Some f observeBatch_cases [of op obs s] by (auto split: if_splits)
    obtain out o3 where h: "failCycle w at ''registry'' err r1
        (if conflict then o'\<lparr>os_tracked := tu_next u\<rparr> else o') = (out, o3)"
      by (rule prod.exhaust)
    have o: "out = (r', errs)" "o2 = o3" "s' = s1" using unfolded by (auto simp: Some f h)
    have "err \<noteq> CycleHealth" by (simp add: e)
    from failCycle_observer [OF h [unfolded o(1)] this] show ?thesis
      using e o by (auto simp: memory_def options_def)
  qed
qed

text \<open>
  A cycle either failed before its batch, or gave the store the batch it collected from the
  process table and the sessions of the store.
\<close>

definition cycle_batch ::
    "'s observation_store \<Rightarrow> cycle_world \<Rightarrow> observer \<Rightarrow> 's
     \<Rightarrow> (observer \<times> proc_info list \<times> session list \<times> cycle_result \<times> 's) option" where
  "cycle_batch op w o' s =
     (case initializeTracked op o' s of
        (Some e, o1, s1) \<Rightarrow> None
      | (None, o1, s1) \<Rightarrow>
          (case cw_processes w of
             None \<Rightarrow> None
           | Some ps \<Rightarrow>
               (case op_List op zero_filter s1 of
                  (Inl e, s2) \<Rightarrow> None
                | (Inr ss, s2) \<Rightarrow>
                    Some (o1, ps, ss, inventory_result w ps, s2))))"

lemma runCycle_cases:
  assumes "runCycle op w o' s = ((r, errs), o2, s')"
  shows "case cycle_batch op w o' s of
     None \<Rightarrow> \<not> recorded errs
       \<and> memory o2 = memory (fst (snd (initializeTracked op o' s))) \<and> options o2 = options o'
   | Some (o1, ps, ss, r3, s2) \<Rightarrow>
       o1 = fst (snd (initializeTracked op o' s)) \<and> options o1 = options o' \<and>
       (let f = collectObservations w (cw_now w) ps ss r3 o1 in
        recordObservations op w (cw_now w) (cf_observations f) (cf_update f) (cf_result f)
          (cf_observer f) s2 = ((r, errs), o2, s'))"
proof -
  obtain e o1 s1 where i: "initializeTracked op o' s = (e, o1, s1)" by (metis prod.exhaust)
  note opts = initializeTracked_frame [OF i]
  note unfolded = assms [unfolded runCycle_def Let_def i prod.case]
  show ?thesis
  proof (cases e)
    case (Some err)
    obtain out o3 where h: "failCycle w (cw_now w) ''registry''
        (CycleRegistry ''initializing observer state'' err) (zero_cycle_result (cw_now w)) o1 = (out, o3)"
      by (rule prod.exhaust)
    have "out = (r, errs)" "o2 = o3" using unfolded by (auto simp: Some h)
    from failCycle_observer [OF h [unfolded this(1)]] show ?thesis
      using opts \<open>o2 = o3\<close> by (simp add: cycle_batch_def i Some)
  next
    case None
    show ?thesis
    proof (cases "cw_processes w")
      case no: None
      obtain out o3 where h: "failCycle w (cw_now w) ''process-enumeration'' CycleProcesses
          (zero_cycle_result (cw_now w)) o1 = (out, o3)"
        by (rule prod.exhaust)
      have "out = (r, errs)" "o2 = o3" using unfolded by (auto simp: None no h)
      from failCycle_observer [OF h [unfolded this(1)]] show ?thesis
        using opts \<open>o2 = o3\<close> by (simp add: cycle_batch_def i None no)
    next
      case ps: (Some ps)
      obtain res s2 where l: "op_List op zero_filter s1 = (res, s2)" by (rule prod.exhaust)
      show ?thesis
      proof (cases res)
        case (Inl err)
        obtain out o3 where h: "failCycle w (cw_now w) ''registry''
            (CycleRegistry ''listing sessions for state detection'' err) (inventory_result w ps) o1 = (out, o3)"
          by (rule prod.exhaust)
        have "out = (r, errs)" "o2 = o3"
          using unfolded by (auto simp: None ps l Inl h)
        from failCycle_observer [OF h [unfolded this(1)]] show ?thesis
          using opts \<open>o2 = o3\<close> by (simp add: cycle_batch_def i None ps l Inl)
      next
        case (Inr ss)
        then show ?thesis
          using unfolded opts by (simp add: cycle_batch_def i None ps l Let_def)
      qed
    qed
  qed
qed

end
