(* ===== verification/Aht_CycleFacts.thy ===== *)
theory Aht_CycleFacts
  imports Aht_Tracking
begin

section \<open>The inventory and the batch of a cycle\<close>

text \<open>
  What the inventory of a cycle guarantees to the loops that follow, provided the process table
  names every process once, and of what kind the observations are that each loop makes.
\<close>

subsection \<open>The inventory\<close>

lemma drop_foreground_simps [simp]:
  "pr_PID (drop_foreground pm hm p) = pr_PID p"
  "pr_StartIdentity (drop_foreground pm hm p) = pr_StartIdentity p"
  "pr_PPID (drop_foreground pm hm p) = pr_PPID p"
  "pr_ProcessGroupID (drop_foreground pm hm p) = pr_ProcessGroupID p"
  "pr_TTY (drop_foreground pm hm p) = pr_TTY p"
  by (simp_all add: drop_foreground_def)

lemma other_pid: "k \<notin> pr_PID ` set ps \<Longrightarrow> p \<in> set ps \<Longrightarrow> pr_PID p \<noteq> k"
  by blast

lemma foldl_update_lookup:
  "distinct (map pr_PID ps) \<Longrightarrow>
   map_of (foldl (\<lambda>m p. AList.update (pr_PID p) p m) m ps) k =
     (case find (\<lambda>p. pr_PID p = k) ps of Some p \<Rightarrow> Some p | None \<Rightarrow> map_of m k)"
proof (induction ps arbitrary: m)
  case (Cons a ps)
  then have "find (\<lambda>p. pr_PID p = pr_PID a) ps = None" by (auto simp: find_None_iff dest: other_pid)
  then show ?case using Cons by (auto simp: update_conv' split: option.split)
qed simp

lemma distinct_pids_unique:
  "distinct (map pr_PID ps) \<Longrightarrow> p \<in> set ps \<Longrightarrow> q \<in> set ps \<Longrightarrow> pr_PID p = pr_PID q \<Longrightarrow> p = q"
  by (auto simp: distinct_map inj_on_def)

lemma normalized_lookup:
  assumes "distinct (map pr_PID ps)" "normalizeHarnessForeground ps (processesByPID ps) hm = (ps', pm')"
  shows "map_of pm' k = Some p \<longleftrightarrow> p \<in> set ps' \<and> pr_PID p = k" "map pr_PID ps' = map pr_PID ps"
proof -
  have ps': "ps' = map (drop_foreground (processesByPID ps) hm) ps"
    and pm': "pm' = foldl (\<lambda>m p. AList.update (pr_PID p) p m) (processesByPID ps) ps'"
    using assms(2) by (auto simp: normalizeHarnessForeground_def Let_def)
  show pids: "map pr_PID ps' = map pr_PID ps" by (simp add: ps' comp_def)
  then have d: "distinct (map pr_PID ps')" using assms(1) by simp
  have "find (\<lambda>p. pr_PID p = k) ps' = Some q \<longleftrightarrow> q \<in> set ps' \<and> pr_PID q = k" for q
    by (rule find_unique) (auto intro: distinct_pids_unique [OF d])
  moreover have "find (\<lambda>p. pr_PID p = k) ps' = None \<Longrightarrow> map_of (processesByPID ps) k = None"
  proof -
    assume "find (\<lambda>p. pr_PID p = k) ps' = None"
    then have "k \<notin> set (map pr_PID ps)" unfolding pids [symmetric] by (auto simp: find_None_iff)
    then show "map_of (processesByPID ps) k = None"
      using processesByPID_lookup [OF assms(1), of k] other_pid [of k ps]
      by (cases "map_of (processesByPID ps) k") auto
  qed
  ultimately show "map_of pm' k = Some p \<longleftrightarrow> p \<in> set ps' \<and> pr_PID p = k"
    by (cases "find (\<lambda>p. pr_PID p = k) ps'") (auto simp: pm' foldl_update_lookup [OF d])
qed

lemma resolveHarnesses_keys: "distinct (map fst (resolveHarnesses ps))"
proof (induction ps rule: rev_induct)
  case (snoc p ps)
  then show ?case by (simp add: resolveHarnesses_snoc distinct_update split: option.split)
qed (simp add: resolveHarnesses_def)

lemma pruned_keys: "distinct (map fst hm) \<Longrightarrow> distinct (map fst (pruneNestedHarnesses ps pm hm))"
proof -
  have "distinct (map fst (prune_wrapper ps pm hm p))" if "distinct (map fst hm)" for hm p
    using that by (auto simp: prune_wrapper_def distinct_delete split: option.split)
  then have one: "distinct (map fst (foldl (prune_wrapper ps pm) hm qs))" if "distinct (map fst hm)" for hm qs
    using that by (induction qs arbitrary: hm) auto
  have "distinct (map fst (prune_nested pm hm p))" if "distinct (map fst hm)" for hm p
    using that by (auto simp: prune_nested_def distinct_delete split: option.split)
  then have two: "distinct (map fst (foldl (prune_nested pm) hm qs))" if "distinct (map fst hm)" for hm qs
    using that by (induction qs arbitrary: hm) auto
  show "distinct (map fst hm) \<Longrightarrow> ?thesis" unfolding pruneNestedHarnesses_def by (intro one two)
qed

lemma map_of_filter_pairs:
  "distinct (map fst m) \<Longrightarrow> map_of (filter P m) k = Some v \<longleftrightarrow> map_of m k = Some v \<and> P (k, v)"
  by (induction m) (auto simp: map_of_eq_None_iff rev_image_eqI)

lemma distinct_filter_keys: "distinct (map fst m) \<Longrightarrow> distinct (map fst (filter P m))"
  by (induction m) auto

text \<open>What a cycle that runs on a table without duplicates knows of its inventory.\<close>

definition inventory_ok :: "cycle_inventory \<Rightarrow> bool" where
  "inventory_ok ci \<longleftrightarrow>
     distinct (map pr_PID (ci_processes ci))
     \<and> (\<forall>k p. map_of (ci_processByPID ci) k = Some p \<longleftrightarrow> p \<in> set (ci_processes ci) \<and> pr_PID p = k)
     \<and> distinct (map fst (ci_harnessByPID ci))
     \<and> (\<forall>x h. map_of (ci_harnessByPID ci) x = Some h \<longrightarrow>
          catalog_Known h
          \<and> (\<exists>p. p \<in> set (ci_processes ci) \<and> pr_PID p = x \<and> process_complete (processIdentity p)))"

lemma takeInventory_ok:
  assumes "distinct (map pr_PID ps)" "takeInventory o' ps es ss at = (ci, es', cm, pending)"
  shows "inventory_ok ci" "ci_knownSessions ci = ss"
    "\<forall>p\<in>set (ci_processes ci). \<exists>q\<in>set ps. pr_PID p = pr_PID q \<and> pr_PPID p = pr_PPID q
       \<and> pr_ProcessGroupID p = pr_ProcessGroupID q \<and> pr_StartIdentity p = pr_StartIdentity q"
proof -
  define pm where "pm = processesByPID ps"
  define hm where "hm = pruneNestedHarnesses ps pm (resolveHarnesses ps)"
  obtain ps' pm' where n: "normalizeHarnessForeground ps pm hm = (ps', pm')" by (metis prod.exhaust)
  have ps': "ps' = map (drop_foreground pm hm) ps"
    using n by (auto simp: normalizeHarnessForeground_def Let_def)
  define confirmed where "confirmed = (\<lambda>x. processConfirmed o' (harness_key pm' x) ss cm at)"
  have ci: "ci = \<lparr>ci_processes = ps', ci_processByPID = pm', ci_harnessByPID = filter confirmed hm,
      ci_knownSessions = ss\<rparr>"
    using assms(2) n
    by (auto simp: takeInventory_def Let_def pm_def [symmetric] hm_def [symmetric] confirmed_def
        holdUnconfirmedProcesses_def split: prod.splits)
  have keys: "distinct (map fst hm)" unfolding hm_def by (intro pruned_keys resolveHarnesses_keys)
  have thin: "thinned (resolveHarnesses ps) hm"
    unfolding hm_def pm_def by (rule pruned_agents(1) [OF assms(1) resolveHarnesses_agents])
  have "catalog_Known h \<and> (\<exists>p. p \<in> set ps' \<and> pr_PID p = x \<and> process_complete (processIdentity p))"
    if "map_of hm x = Some h" for x h
  proof -
    have "map_of (resolveHarnesses ps) x = Some h" using that thin by (simp add: thinned_def)
    from resolveHarnesses_sound [OF this] obtain p where
      "p \<in> set ps" "pr_PID p = x" "x > 0" "pr_StartIdentity p \<noteq> []" "resolveHarness p = Some h" by blast
    moreover from this have "drop_foreground pm hm p \<in> set ps'" by (simp add: ps')
    ultimately show ?thesis
      using resolveHarness_known
      by (metis drop_foreground_simps(1,2) process_complete_identity)
  qed
  then show "inventory_ok ci"
    using normalized_lookup [OF assms(1) n [unfolded pm_def]] assms(1) keys
      distinct_filter_keys [OF keys, of confirmed]
    unfolding inventory_ok_def by (simp add: ci map_of_filter_pairs [OF keys] del: map_of_eq_Some_iff) blast
  show "ci_knownSessions ci = ss" by (simp add: ci)
  show "\<forall>p\<in>set (ci_processes ci). \<exists>q\<in>set ps. pr_PID p = pr_PID q \<and> pr_PPID p = pr_PPID q
       \<and> pr_ProcessGroupID p = pr_ProcessGroupID q \<and> pr_StartIdentity p = pr_StartIdentity q"
    by (auto simp: ci ps')
qed

lemma inventory_complete_agents:
  assumes "inventory_ok ci"
  shows "complete_agents (ci_harnessByPID ci) (ci_processes ci)"
  unfolding complete_agents_def
proof (intro ballI impI)
  fix p assume p: "p \<in> set (ci_processes ci)" "map_of (ci_harnessByPID ci) (pr_PID p) \<noteq> None"
  then obtain h where "map_of (ci_harnessByPID ci) (pr_PID p) = Some h" by blast
  then obtain q where "q \<in> set (ci_processes ci)" "pr_PID q = pr_PID p"
    "process_complete (processIdentity q)"
    using assms unfolding inventory_ok_def by metis
  then show "process_complete (processIdentity p)"
    using p(1) assms distinct_pids_unique unfolding inventory_ok_def by blast
qed

end
