(* ===== verification/Aht_Detection.thy ===== *)
theory Aht_Detection
  imports Aht_Detector
begin

section \<open>What the screen rules decide\<close>

text \<open>
  The two ways of matching a rule agree, the winner of an evaluation is the matching rule of
  highest priority that comes first, normalised screens are bounded and free of escapes, regions
  are contiguous, and the cache of the loader cannot be observed.
\<close>

subsection \<open>Stable sorting\<close>

lemma filter_insert_back:
  "filter (\<lambda>y. f y = k) (insert_back (\<lambda>a b. compare (f b) (f a)) x ys) =
     (if f x = k then x # filter (\<lambda>y. f y = k) ys else filter (\<lambda>y. f y = k) ys)"
  by (induction ys) (auto simp: compare_def)

lemma filter_fold_insert_back:
  "filter (\<lambda>y. f y = k) (fold (insert_back (\<lambda>a b. compare (f b) (f a))) xs ys) =
     rev (filter (\<lambda>y. f y = k) xs) @ filter (\<lambda>y. f y = k) ys"
  by (induction xs arbitrary: ys) (simp_all add: filter_insert_back)

lemma sort_func_stable:
  "filter (\<lambda>y. f y = k) (sort_func (\<lambda>a b. compare (f b) (f a)) xs) = filter (\<lambda>y. f y = k) xs"
  by (simp add: sort_func_def filter_fold_insert_back rev_filter [symmetric])

interpretation by_priority: comparator "\<lambda>a b. compare (f b) (f a)" UNIV for f :: "'a \<Rightarrow> 'b::linorder"
  by unfold_locales (auto simp: compare_def split: if_splits)

lemma find_filter: "find P (filter Q xs) = find (\<lambda>x. Q x \<and> P x) xs"
  by (induction xs) auto

lemma find_prefix:
  "find P xs = Some x \<longleftrightarrow> (\<exists>ys zs. xs = ys @ x # zs \<and> P x \<and> (\<forall>y \<in> set ys. \<not> P y))"
proof (induction xs)
  case (Cons a xs)
  show ?case
  proof (cases "P a")
    case True
    then show ?thesis by (fastforce simp: Cons_eq_append_conv)
  next
    case False
    have "(\<exists>ys zs. a # xs = ys @ x # zs \<and> P x \<and> (\<forall>y \<in> set ys. \<not> P y)) \<longleftrightarrow>
        (\<exists>ys zs. xs = ys @ x # zs \<and> P x \<and> (\<forall>y \<in> set ys. \<not> P y))"
      (is "?l \<longleftrightarrow> ?r")
    proof
      assume ?l
      then show ?r using False by (auto simp: Cons_eq_append_conv)
    next
      assume ?r
      then obtain ys zs where "a # xs = (a # ys) @ x # zs" "P x" "\<forall>y \<in> set (a # ys). \<not> P y"
        using False by auto
      then show ?l by blast
    qed
    then show ?thesis using Cons False by simp
  qed
qed simp

text \<open>The first match of the sorted list is the first of the greatest matches.\<close>

lemma find_sorted:
  assumes "find P (sort_func (\<lambda>a b. compare (f b) (f a)) xs) = Some x"
  shows "\<exists>i < length xs. xs ! i = x \<and> P x \<and>
    (\<forall>j < length xs. P (xs ! j) \<longrightarrow> f (xs ! j) < f x \<or> f (xs ! j) = f x \<and> i \<le> j)"
proof -
  let ?s = "sort_func (\<lambda>a b. compare (f b) (f a)) xs"
  from assms obtain ys zs where s: "?s = ys @ x # zs" and x: "P x" and ys: "\<forall>y \<in> set ys. \<not> P y"
    unfolding find_prefix by blast
  have sorted: "sorted_wrt (\<lambda>a b. compare (f b) (f a) \<le> 0) (ys @ x # zs)"
    unfolding s [symmetric] by (rule by_priority.sorted_sort_func) simp
  have le: "f y \<le> f x" if "y \<in> set xs" "P y" for y
  proof -
    have "y \<in> set ?s" using that by simp
    then have "y = x \<or> y \<in> set zs" using ys that unfolding s by auto
    then show ?thesis using sorted by (auto simp: sorted_wrt_append compare_def split: if_splits)
  qed
  have "find P (filter (\<lambda>y. f y = f x) ?s) = Some x"
    using x ys unfolding s find_filter find_prefix by auto
  then have "find (\<lambda>y. f y = f x \<and> P y) xs = Some x"
    by (simp add: sort_func_stable find_filter)
  then obtain i where i: "i < length xs" "xs ! i = x" "\<forall>j < i. \<not> (f (xs ! j) = f x \<and> P (xs ! j))"
    by (auto simp: find_Some_iff)
  have "f (xs ! j) < f x \<or> f (xs ! j) = f x \<and> i \<le> j" if "j < length xs" "P (xs ! j)" for j
    using that i(3) le [of "xs ! j"] by (meson linorder_not_le nth_mem order_le_imp_less_or_eq)
  then show ?thesis using i(1,2) x by blast
qed

subsection \<open>Matching and inspecting a rule\<close>

lemma find_is_None: "find P xs = None \<longleftrightarrow> \<not> list_ex P xs"
  by (induction xs) auto

lemma find_enumerate: "find (\<lambda>x. P (snd x)) (enumerate n ps) = None \<longleftrightarrow> \<not> list_ex P ps"
  by (induction ps arbitrary: n) auto

lemma find_expression_None: "find_expression P ps es = None \<longleftrightarrow> \<not> list_ex P ps"
  by (simp add: find_expression_def find_enumerate)

text \<open>A case on a search whose two results pass or fail.\<close>

lemma find_case:
  "snd (case find P xs of Some v \<Rightarrow> inspected n a (f v) | None \<Rightarrow> inspected n b d) =
     (if list_ex P xs then a else b)"
  "snd (case find_expression P ps es of Some v \<Rightarrow> inspected n a (f v) | None \<Rightarrow> inspected n b d) =
     (if list_ex P ps then a else b)"
  using find_is_None [of P xs] find_expression_None [of P ps es]
  by (auto simp: inspected_def split: option.split)

lemma inspected_snd [simp]: "snd (inspected n p d) = p"
  by (simp add: inspected_def)

lemma matcher_passes:
  "snd (inspectAllMatcher te r t) \<longleftrightarrow>
     list_all (\<lambda>v. contains t (normalizedLiteral te v (sr_CaseSensitive r))) (sr_All r)"
  "snd (inspectAnyMatcher te r t) \<longleftrightarrow> containsAny te t (sr_Any r) (sr_CaseSensitive r)"
  "snd (inspectNoneMatcher te r t) \<longleftrightarrow> \<not> containsAny te t (sr_None r) (sr_CaseSensitive r)"
  "snd (inspectRegexAllMatcher te r t) \<longleftrightarrow> matchesAllRegex te t (sr_regexAllCompiled r)"
  "snd (inspectRegexAnyMatcher te r t) \<longleftrightarrow> matchesAnyRegex te t (sr_regexAnyCompiled r)"
  "snd (inspectRegexNoneMatcher te r t) \<longleftrightarrow> \<not> matchesAnyRegex te t (sr_regexNoneCompiled r)"
  "snd (inspectTitleAnyMatcher te r t) \<longleftrightarrow> containsAny te t (sr_TitleAny r) (sr_CaseSensitive r)"
  "snd (inspectTitleRegexAnyMatcher te r t) \<longleftrightarrow> matchesAnyRegex te t (sr_titleRegexAnyCompiled r)"
  unfolding inspectAllMatcher_def inspectAnyMatcher_def inspectNoneMatcher_def
    inspectRegexAllMatcher_def inspectRegexAnyMatcher_def inspectRegexNoneMatcher_def
    inspectTitleAnyMatcher_def inspectTitleRegexAnyMatcher_def find_case
    matchesAllRegex_def matchesAnyRegex_def containsAny_def
  by (auto simp: list_ex_iff list_all_iff)

lemma text_matchers_pass:
  "list_all snd (inspectTextMatchers te r t) \<longleftrightarrow> matchesText te r t"
  by (auto simp: inspectTextMatchers_def matchesText_def matcher_passes containsAny_def
      matchesAllRegex_def matchesAnyRegex_def list_all_append)

lemma title_matchers_pass:
  "list_all snd (inspectTitleMatchers te r t) \<longleftrightarrow> matchesTitle te r t"
  by (auto simp: inspectTitleMatchers_def matchesTitle_def matcher_passes)

lemma inspect_matches: "fst (rule_inspect te r snap) \<longleftrightarrow> rule_matches te r snap"
proof -
  have none: "find (\<lambda>x. \<not> snd x) ms = None \<longleftrightarrow> list_all snd ms" for ms :: "matcher_result list"
    by (induction ms) auto
  have all: "selectRegion '''' ls = Some ls" "selectRegion ''all'' ls = Some ls" for ls
    by (simp_all add: selectRegion_def Let_def) (code_simp)+
  show ?thesis
    unfolding rule_inspect_def rule_matches_def inspectRegionMatcher_def Let_def
    by (auto simp: all none text_matchers_pass title_matchers_pass split: option.split)
qed

subsection \<open>Evaluations\<close>

definition noted :: "text_engine \<Rightarrow> screen_snapshot \<Rightarrow> screen_rule list \<Rightarrow> rule_evidence list" where
  "noted te snap rs = map (\<lambda>r. \<lparr>re_RuleID = sr_ID r, re_Matched = rule_matches te r snap\<rparr>) rs"

lemma evaluate_rules_none:
  "find (\<lambda>r. rule_matches te r snap) rs = None \<Longrightarrow>
     evaluate_rules te snap d rs = d\<lparr>dn_Evidence := dn_Evidence d @ noted te snap rs\<rparr>"
  by (induction rs arbitrary: d) (auto simp: note_rule_def noted_def Let_def split: if_splits)

lemma evaluate_rules_some:
  "find (\<lambda>r. rule_matches te r snap) rs = Some x \<Longrightarrow>
     \<exists>e. evaluate_rules te snap d rs = take_rule x (d\<lparr>dn_Evidence := e\<rparr>)"
proof (induction rs arbitrary: d)
  case (Cons r rs)
  show ?case
  proof (cases "rule_matches te r snap")
    case True
    then show ?thesis using Cons.prems by (auto simp: note_rule_def)
  next
    case False
    then have "find (\<lambda>r. rule_matches te r snap) rs = Some x" using Cons.prems by simp
    from Cons.IH [OF this, of "note_rule r False d"] show ?thesis
      using False by (auto simp: note_rule_def)
  qed
qed simp

lemma initialDecision_reads [simp]:
  "dn_Activity (initialDecision m) = ActivityUnknown" "dn_Detail (initialDecision m) = no_detail"
  "dn_Reason (initialDecision m) = ''no_rule_matched''" "dn_RuleID (initialDecision m) = []"
  "dn_Evidence (initialDecision m) = []"
  by (simp_all add: initialDecision_def)

lemma take_rule_reads [simp]:
  "dn_Activity (take_rule r d) = state_activity (sr_State r)" "dn_Detail (take_rule r d) = sr_Detail r"
  "dn_RuleID (take_rule r d) = sr_ID r" "dn_Reason (take_rule r d) = ''manifest_rule''"
  by (simp_all add: take_rule_def)

lemma evaluate_none:
  assumes "\<forall>r \<in> set (mf_Rules m). \<not> rule_matches te r snap"
  shows "Manifest_Evaluate te m snap =
    (initialDecision m)\<lparr>dn_Evidence := noted te snap (sortedRules (mf_Rules m))\<rparr>"
proof -
  have "find (\<lambda>r. rule_matches te r snap) (sortedRules (mf_Rules m)) = None"
    using assms by (auto simp: find_None_iff sortedRules_def)
  from evaluate_rules_none [OF this] show ?thesis by (simp add: Manifest_Evaluate_def)
qed

lemma evaluate_some:
  assumes "r \<in> set (mf_Rules m)" "rule_matches te r snap"
  shows "\<exists>i < length (mf_Rules m). let x = mf_Rules m ! i; d = Manifest_Evaluate te m snap in
    rule_matches te x snap \<and> dn_RuleID d = sr_ID x \<and> dn_Activity d = state_activity (sr_State x) \<and>
    dn_Detail d = sr_Detail x \<and> dn_Reason d = ''manifest_rule'' \<and>
    (\<forall>j < length (mf_Rules m). rule_matches te (mf_Rules m ! j) snap \<longrightarrow>
       sr_Priority (mf_Rules m ! j) < sr_Priority x \<or>
       sr_Priority (mf_Rules m ! j) = sr_Priority x \<and> i \<le> j)"
proof -
  let ?P = "\<lambda>r. rule_matches te r snap"
  have "find ?P (sortedRules (mf_Rules m)) \<noteq> None"
    using assms by (auto simp: find_None_iff sortedRules_def)
  then obtain x where x: "find ?P (sortedRules (mf_Rules m)) = Some x" by blast
  from evaluate_rules_some [OF x] obtain e
    where "Manifest_Evaluate te m snap = take_rule x ((initialDecision m)\<lparr>dn_Evidence := e\<rparr>)"
    by (auto simp: Manifest_Evaluate_def)
  then show ?thesis using find_sorted [OF x [unfolded sortedRules_def]] by (auto simp: Let_def)
qed

lemma inspect_rules:
  assumes "\<forall>r \<in> set rs. sr_ID r \<noteq> ''''"
  shows "fst (foldl (inspect_turn te snap) (d, wp, cs) rs) =
    (if dn_RuleID d = '''' then evaluate_rules te snap d rs else d)"
  using assms
proof (induction rs arbitrary: d wp cs)
  case (Cons r rs)
  obtain matched ms f where insp: "rule_inspect te r snap = (matched, ms, f)" by (metis prod_cases3)
  then have m: "matched = rule_matches te r snap" using inspect_matches [of te r snap] by simp
  obtain wp' cs' where turn: "inspect_turn te snap (d, wp, cs) r =
      (if dn_RuleID d = '''' then
         if matched then take_rule r (note_rule r matched d) else note_rule r matched d
       else d, wp', cs')"
    by (simp add: inspect_turn_def insp Let_def)
  have "dn_RuleID (note_rule r b d) = dn_RuleID d" for b by (simp add: note_rule_def)
  then show ?case using Cons turn m by (simp add: Let_def)
qed simp

lemma inspect_decision:
  assumes "\<forall>r \<in> set (mf_Rules m). sr_ID r \<noteq> ''''"
  shows "in_Decision (Manifest_Inspect te m snap) = Manifest_Evaluate te m snap"
proof -
  have "\<forall>r \<in> set (sortedRules (mf_Rules m)). sr_ID r \<noteq> ''''" using assms by (simp add: sortedRules_def)
  note fold = inspect_rules [OF this, of te snap "initialDecision m" 0 "[]"]
  obtain d wp cs where st: "foldl (inspect_turn te snap) (initialDecision m, 0, []) (sortedRules (mf_Rules m)) =
      (d, wp, cs)" by (metis prod_cases3)
  show ?thesis using fold by (simp add: Manifest_Inspect_def Manifest_Evaluate_def st)
qed

text \<open>The candidates are the sorted rules, and the winner is the one the decision names.\<close>

lemma inspect_turn_candidates:
  "\<exists>w why ms. snd (snd (inspect_turn te snap (d, wp, cs) r)) =
     cs @ [\<lparr>ca_ID = sr_ID r, ca_State = sr_State r, ca_Priority = sr_Priority r, ca_Region = sr_Region r,
            ca_Matched = rule_matches te r snap, ca_Winner = w, ca_Reason = why, ca_Matchers = ms\<rparr>] \<and>
     (w \<longleftrightarrow> rule_matches te r snap \<and> dn_RuleID d = '''')"
  using inspect_matches [of te r snap]
  by (auto simp: inspect_turn_def Let_def split: prod.split)

lemma inspect_candidates:
  "map (\<lambda>c. (ca_ID c, ca_Priority c, ca_Matched c)) (snd (snd (foldl (inspect_turn te snap) (d, wp, cs) rs))) =
   map (\<lambda>c. (ca_ID c, ca_Priority c, ca_Matched c)) cs @
   map (\<lambda>r. (sr_ID r, sr_Priority r, rule_matches te r snap)) rs"
proof (induction rs arbitrary: d wp cs)
  case (Cons r rs)
  obtain d' wp' cs' where t: "inspect_turn te snap (d, wp, cs) r = (d', wp', cs')" by (metis prod_cases3)
  then show ?case using Cons inspect_turn_candidates [of te snap d wp cs r] by auto
qed simp

lemma inspect_turn_decision:
  "dn_RuleID (fst (inspect_turn te snap (d, wp, cs) r)) =
     (if dn_RuleID d = '''' \<and> rule_matches te r snap then sr_ID r else dn_RuleID d)"
  using inspect_matches [of te r snap]
  by (auto simp: inspect_turn_def Let_def note_rule_def split: prod.split)

lemma inspect_winners:
  assumes "\<forall>r \<in> set rs. sr_ID r \<noteq> ''''" "distinct (map sr_ID rs)" "dn_RuleID d \<notin> sr_ID ` set rs"
    and "\<forall>c \<in> set cs. ca_Winner c \<longleftrightarrow> ca_ID c = dn_RuleID d \<and> dn_RuleID d \<noteq> ''''"
    and "\<forall>c \<in> set cs. ca_ID c \<notin> sr_ID ` set rs"
  shows "let (d', _, cs') = foldl (inspect_turn te snap) (d, wp, cs) rs in
    \<forall>c \<in> set cs'. ca_Winner c \<longleftrightarrow> ca_ID c = dn_RuleID d' \<and> dn_RuleID d' \<noteq> ''''"
  using assms
proof (induction rs arbitrary: d wp cs)
  case (Cons r rs)
  obtain d1 wp1 cs1 where t: "inspect_turn te snap (d, wp, cs) r = (d1, wp1, cs1)" by (metis prod_cases3)
  have d1: "dn_RuleID d1 = (if dn_RuleID d = '''' \<and> rule_matches te r snap then sr_ID r else dn_RuleID d)"
    using inspect_turn_decision [of te snap d wp cs r] t by simp
  obtain c where cs1: "cs1 = cs @ [c]" and c: "ca_ID c = sr_ID r"
    "ca_Winner c \<longleftrightarrow> rule_matches te r snap \<and> dn_RuleID d = ''''"
    using inspect_turn_candidates [of te snap d wp cs r] t by auto
  have "let (d', _, cs') = foldl (inspect_turn te snap) (d1, wp1, cs1) rs in
    \<forall>c \<in> set cs'. ca_Winner c \<longleftrightarrow> ca_ID c = dn_RuleID d' \<and> dn_RuleID d' \<noteq> ''''"
  proof (rule Cons.IH)
    show "\<forall>c \<in> set cs1. ca_Winner c \<longleftrightarrow> ca_ID c = dn_RuleID d1 \<and> dn_RuleID d1 \<noteq> ''''"
      using Cons.prems cs1 c d1 by auto
    show "\<forall>c \<in> set cs1. ca_ID c \<notin> sr_ID ` set rs" using Cons.prems cs1 c by auto
    show "dn_RuleID d1 \<notin> sr_ID ` set rs" using Cons.prems d1 by auto
  qed (use Cons.prems in auto)
  then show ?case using t by simp
qed simp

lemma inspect_summary:
  assumes "\<forall>r \<in> set (mf_Rules m). sr_ID r \<noteq> ''''" "distinct (map sr_ID (mf_Rules m))"
  shows "map (\<lambda>c. (ca_ID c, ca_Matched c)) (in_Candidates (Manifest_Inspect te m snap)) =
      map (\<lambda>r. (sr_ID r, rule_matches te r snap)) (sortedRules (mf_Rules m))"
    and "\<forall>c \<in> set (in_Candidates (Manifest_Inspect te m snap)).
      ca_Winner c \<longleftrightarrow> ca_ID c = in_WinningRule (Manifest_Inspect te m snap) \<and> ca_ID c \<noteq> ''''"
proof -
  let ?rs = "sortedRules (mf_Rules m)"
  have rs: "\<forall>r \<in> set ?rs. sr_ID r \<noteq> ''''" "distinct (map sr_ID ?rs)"
    using assms(1) mset_eq_imp_distinct_iff [of "map sr_ID ?rs" "map sr_ID (mf_Rules m)"] assms(2)
    by (simp_all add: sortedRules_def)
  obtain d wp cs where st: "foldl (inspect_turn te snap) (initialDecision m, 0, []) ?rs = (d, wp, cs)"
    by (metis prod_cases3)
  have "map (\<lambda>c. (ca_ID c, ca_Priority c, ca_Matched c)) cs =
      map (\<lambda>r. (sr_ID r, sr_Priority r, rule_matches te r snap)) ?rs"
    using inspect_candidates [of te snap "initialDecision m" 0 "[]" ?rs] st by simp
  from arg_cong [OF this, of "map (\<lambda>(i, p, b). (i, b))"]
  show "map (\<lambda>c. (ca_ID c, ca_Matched c)) (in_Candidates (Manifest_Inspect te m snap)) =
      map (\<lambda>r. (sr_ID r, rule_matches te r snap)) ?rs"
    by (simp add: Manifest_Inspect_def st comp_def)
  have "\<forall>c \<in> set cs. ca_Winner c \<longleftrightarrow> ca_ID c = dn_RuleID d \<and> dn_RuleID d \<noteq> ''''"
  proof -
    have fresh: "dn_RuleID (initialDecision m) \<notin> sr_ID ` set ?rs" using rs(1) by auto
    show ?thesis using inspect_winners [OF rs fresh, of "[]" te snap 0] st by simp
  qed
  then show "\<forall>c \<in> set (in_Candidates (Manifest_Inspect te m snap)).
      ca_Winner c \<longleftrightarrow> ca_ID c = in_WinningRule (Manifest_Inspect te m snap) \<and> ca_ID c \<noteq> ''''"
    by (auto simp: Manifest_Inspect_def st)
qed

subsection \<open>Validated manifests\<close>

lemma validate_rules_fold:
  assumes "fold_result validate_rule_turn seen rs = Inr out"
  shows "(\<forall>r \<in> set rs. \<not> blank (sr_ID r) \<and> validateRule r = None) \<and>
    distinct (map sr_ID rs) \<and> set (map sr_ID rs) \<inter> set seen = {}"
  using assms
proof (induction rs arbitrary: seen)
  case (Cons r rs)
  from Cons.prems have r: "\<not> blank (sr_ID r)" "validateRule r = None" "sr_ID r \<notin> set seen"
    and rest: "fold_result validate_rule_turn (sr_ID r # seen) rs = Inr out"
    by (auto simp: validate_rule_turn_def [of seen r] split: sum.splits if_splits option.splits)
  show ?case using Cons.IH [OF rest] r by auto
qed simp

lemma validateManifest_rules:
  assumes "validateManifest m = None"
  shows "mf_Rules m \<noteq> []" "distinct (map sr_ID (mf_Rules m))"
    "r \<in> set (mf_Rules m) \<Longrightarrow> validateRule r = None" "r \<in> set (mf_Rules m) \<Longrightarrow> sr_ID r \<noteq> ''''"
proof -
  from assms obtain out where out: "fold_result validate_rule_turn [] (mf_Rules m) = Inr out"
    and ne: "mf_Rules m \<noteq> []"
    by (auto simp: validateManifest_def split: if_splits sum.splits)
  note facts = validate_rules_fold [OF out]
  have blank: "blank ''''" by code_simp
  show "mf_Rules m \<noteq> []" by (rule ne)
  show "distinct (map sr_ID (mf_Rules m))" using facts by blast
  show "r \<in> set (mf_Rules m) \<Longrightarrow> validateRule r = None" using facts by blast
  show "r \<in> set (mf_Rules m) \<Longrightarrow> sr_ID r \<noteq> ''''" using facts blank by metis
qed

lemma normalized_activity_valid: "NormalizeActivity s = Inr a \<Longrightarrow> a = no_activity \<or> activity_valid a"
  by (auto simp: NormalizeActivity_def Let_def activity_valid_def split: if_splits)

lemma validateRule_state:
  assumes "validateRule r = None"
  shows "activity_valid (state_activity (sr_State r))" "state_activity (sr_State r) \<noteq> ActivityUnknown"
    "sr_Detail r = no_detail \<or> detail_valid_for (sr_Detail r) (state_activity (sr_State r))"
    "selectRegion (sr_Region r) [] \<noteq> None"
  using assms normalized_activity_valid [of "sr_State r"]
  by (auto simp: validateRule_def state_activity_def split: sum.splits if_splits)

lemma compile_rule_updates:
  assumes "compile_rule te r = Inr r'"
  shows "\<exists>a b c d. r' = r\<lparr>sr_regexAllCompiled := a, sr_regexAnyCompiled := b,
    sr_regexNoneCompiled := c, sr_titleRegexAnyCompiled := d\<rparr>"
  using assms unfolding compile_rule_def Let_def by (simp split: option.splits) blast

lemma compile_rule_same:
  assumes "compile_rule te r = Inr r'"
  shows "sr_ID r' = sr_ID r" "validateRule r' = validateRule r" "sr_Priority r' = sr_Priority r"
proof -
  obtain a b c d where r': "r' = r\<lparr>sr_regexAllCompiled := a, sr_regexAnyCompiled := b,
      sr_regexNoneCompiled := c, sr_titleRegexAnyCompiled := d\<rparr>"
    using compile_rule_updates [OF assms] by blast
  show "sr_ID r' = sr_ID r" "sr_Priority r' = sr_Priority r" by (simp_all add: r')
  have reads: "sr_State r' = sr_State r" "sr_Detail r' = sr_Detail r" "sr_Region r' = sr_Region r"
    "sr_All r' = sr_All r" "sr_Any r' = sr_Any r" "sr_None r' = sr_None r"
    "sr_RegexAll r' = sr_RegexAll r" "sr_RegexAny r' = sr_RegexAny r" "sr_RegexNone r' = sr_RegexNone r"
    "sr_TitleAny r' = sr_TitleAny r" "sr_TitleRegexAny r' = sr_TitleRegexAny r" "sr_ID r' = sr_ID r"
    by (simp_all add: r')
  show "validateRule r' = validateRule r"
    unfolding validateRule_def validateMatchers_def hasPositiveMatcher_def reads ..
qed

lemma compile_rules_fold:
  assumes "fold_result (\<lambda>rs r. case compile_rule te r of Inl e \<Rightarrow> Inl e | Inr r' \<Rightarrow> Inr (rs @ [r'])) acc rs = Inr out"
  shows "\<exists>ts. out = acc @ ts \<and> list_all2 (\<lambda>r r'. compile_rule te r = Inr r') rs ts"
  using assms
proof (induction rs arbitrary: acc)
  case (Cons r rs)
  then obtain r' where r': "compile_rule te r = Inr r'"
    and rest: "fold_result (\<lambda>rs r. case compile_rule te r of Inl e \<Rightarrow> Inl e | Inr r' \<Rightarrow> Inr (rs @ [r']))
      (acc @ [r']) rs = Inr out"
    by (auto split: sum.splits)
  from Cons.IH [OF rest] show ?case using r' by auto
qed simp

lemma validate_rules_cong:
  assumes "list_all2 (\<lambda>r r'. sr_ID r' = sr_ID r \<and> validateRule r' = validateRule r) rs ts"
  shows "fold_result validate_rule_turn seen ts = fold_result validate_rule_turn seen rs"
  using assms
proof (induction rs ts arbitrary: seen rule: list_all2_induct)
  case (Cons r rs r' ts)
  then have "validate_rule_turn seen r' = validate_rule_turn seen r" by (simp add: validate_rule_turn_def split: option.split)
  then show ?case using Cons.IH by (simp split: sum.split)
qed simp

lemma compileRules_valid:
  assumes "compileRules te m = Inr m'" "validateManifest m = None"
  shows "validateManifest m' = None"
proof -
  from assms(1) obtain ts where m': "m' = m\<lparr>mf_Rules := ts\<rparr>"
    and ts: "list_all2 (\<lambda>r r'. compile_rule te r = Inr r') (mf_Rules m) ts"
    using compile_rules_fold [of te "[]"] by (auto simp: compileRules_def split: sum.splits)
  have "list_all2 (\<lambda>r r'. sr_ID r' = sr_ID r \<and> validateRule r' = validateRule r) (mf_Rules m) ts"
    using ts by (rule list_all2_mono) (simp add: compile_rule_same)
  note fold = validate_rules_cong [OF this]
  have "ts = [] \<longleftrightarrow> mf_Rules m = []" using ts by auto
  then show ?thesis using assms(2) by (auto simp: m' validateManifest_def fold split: if_splits)
qed

lemma ParseManifest_valid:
  assumes "ParseManifest te decode data h = Inr m"
  shows "validateManifest m = None"
  using assms compileRules_valid
  by (auto simp: ParseManifest_def split: option.splits if_splits)

subsection \<open>Normalised screens\<close>

lemma escape_end_suffix: "\<exists>p. s = p @ escape_end s"
proof -
  have drop_suffix: "\<exists>p. t = p @ dropWhile P t" for P and t :: string
    by (metis takeWhile_dropWhile_id)
  have csi: "\<exists>p. t = p @ u" if cs: "csi_end t = Some u" for t u
  proof -
    obtain c where "dropWhile (in_range 0x20 0x2F) (dropWhile (in_range 0x30 0x3F) t) = c # u"
      using cs by (auto simp: csi_end_def split: list.splits if_splits)
    then show ?thesis
      using drop_suffix [of "dropWhile (in_range 0x30 0x3F) t" "in_range 0x20 0x2F"]
        drop_suffix [of t "in_range 0x30 0x3F"] by (metis append.assoc append_Cons append_Nil)
  qed
  have osc: "\<exists>p. t = p @ u" if os: "osc_end t = Some u" for t u
  proof -
    obtain q where "dropWhile (\<lambda>c. c \<noteq> BEL \<and> c \<noteq> ESC) t = q @ u"
      using os by (auto simp: osc_end_def split: list.splits if_splits)
    then show ?thesis
      using drop_suffix [of t "\<lambda>c. c \<noteq> BEL \<and> c \<noteq> ESC"] by (metis append.assoc)
  qed
  show ?thesis
    using csi osc
    by (auto simp: escape_end_def split: list.split option.split) (metis append_Cons)+
qed

lemma strip_escapes_no_escape: "ESC \<notin> set (strip_escapes s)"
  by (induction s rule: strip_escapes.induct) auto

lemma strip_escapes_plain: "ESC \<notin> set s \<Longrightarrow> strip_escapes s = s"
  by (induction s) auto

lemma split_char_nonempty: "split_char c s \<noteq> []"
  by (induction s) (auto split: list.splits)

lemma split_char_parts:
  "w \<in> set (split_char c s) \<Longrightarrow> c \<notin> set w \<and> set w \<subseteq> set s"
proof (induction s arbitrary: w)
  case (Cons x s)
  show ?case
  proof (cases "x = c")
    case True
    then show ?thesis using Cons by auto
  next
    case False
    obtain v vs where v: "split_char c s = v # vs" using split_char_nonempty by (cases "split_char c s") auto
    then have "w = x # v \<or> w \<in> set vs" using Cons.prems False by auto
    then show ?thesis using Cons.IH v False by fastforce
  qed
qed simp

lemma split_char_join: "join [c] (split_char c s) = s"
proof (induction s)
  case (Cons x s)
  obtain v vs where v: "split_char c s = v # vs" using split_char_nonempty by (cases "split_char c s") auto
  show ?case using Cons v by (cases vs) auto
qed simp

lemma set_replace_crlf: "set (replace_crlf s) \<subseteq> insert LF (set s)"
  by (induction s rule: replace_crlf.induct) auto

lemma BoundBottomLines_lines:
  assumes "w \<in> set (BoundBottomLines scr limit)"
  shows "LF \<notin> set w \<and> CR \<notin> set w \<and> set w \<subseteq> insert LF (set scr)"
proof -
  let ?t = "map (\<lambda>c. if c = CR then LF else c) (replace_crlf scr)"
  have "w \<in> set (split_char LF ?t)"
    using assms by (auto simp: BoundBottomLines_def Let_def split: if_splits dest: in_set_dropD in_set_butlastD)
  from split_char_parts [OF this] have w: "LF \<notin> set w" "set w \<subseteq> set ?t" by auto
  moreover have "CR \<notin> set ?t" by (auto simp: CR_def LF_def)
  moreover have "set ?t \<subseteq> insert LF (set scr)" using set_replace_crlf [of scr] by auto
  ultimately show ?thesis by blast
qed

lemma BoundBottomLines_bound: "0 < limit \<Longrightarrow> int (length (BoundBottomLines scr limit)) \<le> limit"
  by (auto simp: BoundBottomLines_def Let_def)

text \<open>The bound keeps the bottom of the screen.\<close>

lemma BoundBottomLines_suffix: "\<exists>top. BoundBottomLines scr 0 = top @ BoundBottomLines scr limit"
proof -
  obtain kept where "BoundBottomLines scr 0 = kept"
    "BoundBottomLines scr limit =
       (if limit > 0 \<and> int (length kept) > limit then drop (length kept - nat limit) kept else kept)"
    unfolding BoundBottomLines_def Let_def by simp
  then show ?thesis
    by (metis append_Nil append_take_drop_id)
qed

subsection \<open>Regions\<close>

lemma selectRegion_independent: "selectRegion r ls = None \<longleftrightarrow> selectRegion r ls' = None"
  by (auto simp: selectRegion_def Let_def split: list.split option.split)

lemma contiguous_bottom:
  "\<exists>above below. ls = above @ drop n (rev (dropWhile P (rev ls))) @ below \<and> list_all P below"
proof -
  have "ls = rev (dropWhile P (rev ls)) @ rev (takeWhile P (rev ls))"
    by (metis rev_append rev_rev_ident takeWhile_dropWhile_id)
  then have "ls = take n (rev (dropWhile P (rev ls))) @ drop n (rev (dropWhile P (rev ls))) @
      rev (takeWhile P (rev ls))"
    by (metis append.assoc append_take_drop_id)
  moreover have "list_all P (rev (takeWhile P (rev ls)))" by (auto simp: list_all_iff dest: set_takeWhileD)
  ultimately show ?thesis by blast
qed

lemma selectRegion_contiguous:
  assumes "selectRegion r ls = Some out"
  shows "\<exists>above below. ls = above @ out @ below"
proof -
  consider "out = ls" | n where "out = take n ls" | n where "out = drop n (rev (dropWhile blank (rev ls)))"
    using assms by (auto simp: selectRegion_def Let_def split: list.splits option.splits if_splits)
  then show ?thesis
  proof cases
    case 1
    then show ?thesis by (metis append_Nil append_Nil2)
  next
    case 2
    then show ?thesis by (metis append_Nil append_take_drop_id)
  next
    case 3
    then show ?thesis using contiguous_bottom by metis
  qed
qed

subsection \<open>The loader\<close>

lemma compileRules_agent: "compileRules te m = Inr m' \<Longrightarrow> mf_Agent m' = mf_Agent m"
  by (auto simp: compileRules_def split: sum.splits)

lemma ParseManifest_agent: "ParseManifest te decode data h = Inr m \<Longrightarrow> mf_Agent m = h"
  by (auto simp: ParseManifest_def split: option.splits if_splits dest: compileRules_agent)

lemma validateManifest_relabel [simp]:
  "validateManifest (m\<lparr>mf_Source := s\<rparr>) = validateManifest m"
  "validateManifest (m\<lparr>mf_Warning := w\<rparr>) = validateManifest m"
  by (simp_all add: validateManifest_def)

lemma loadBundled_valid:
  assumes "loadBundled te ms h = Inr b"
  shows "validateManifest b = None" "mf_Agent b = h"
  using assms
  by (auto simp: loadBundled_def split: option.splits sum.splits dest: ParseManifest_valid ParseManifest_agent)

text \<open>Where there is a bundled manifest, an override can replace it but cannot make the loading fail.\<close>

lemma load_override_total:
  assumes "validateManifest b = None" "mf_Agent b = h"
  shows "\<exists>m. load_override te ms h path (Some b) = Inr m \<and> validateManifest m = None \<and> mf_Agent m = h \<and>
    (mf_Source m = path \<or> mf_Rules m = mf_Rules b \<and> mf_Source m = mf_Source b)"
  using assms
  by (auto simp: load_override_def Let_def dest: ParseManifest_valid ParseManifest_agent
      split: sum.split option.split)

text \<open>
  The files at a moment are given by their fingerprints: \<open>content\<close> is what a file with a
  fingerprint holds.
\<close>

definition files_at ::
    "manifest_source \<Rightarrow> (string \<Rightarrow> string \<Rightarrow> file_read) \<Rightarrow> (string \<Rightarrow> string) \<Rightarrow> manifest_source" where
  "files_at ms content fp = ms\<lparr>ms_Open := \<lambda>p. content p (fp p)\<rparr>"

fun load_sequence ::
    "text_engine \<Rightarrow> manifest_source \<Rightarrow> (string \<Rightarrow> string \<Rightarrow> file_read) \<Rightarrow> manifest_cache
     \<Rightarrow> ((string \<Rightarrow> string) \<times> string \<times> string) list \<Rightarrow> (manifest_error + manifest) list" where
  "load_sequence te ms content cache [] = []"
| "load_sequence te ms content cache ((fp, h, path) # rest) =
     (let (m, cache') = Loader_Load te (files_at ms content fp) fp h path cache
      in m # load_sequence te ms content cache' rest)"

lemma loadUncached_same_file:
  assumes "fp path = fp' path"
  shows "loadUncached te (files_at ms content fp) h path = loadUncached te (files_at ms content fp') h path"
  using assms
  by (simp add: loadUncached_def load_override_def loadBundled_def readManifestFile_def files_at_def
      cong: sum.case_cong option.case_cong)

lemma cache_key_inject:
  assumes "CHR 0x00 \<notin> set h" "CHR 0x00 \<notin> set h'" "cache_key h path = cache_key h' path'"
  shows "h = h' \<and> path = path'"
  using assms append_sep_inject [of "CHR 0x00" h h' path path'] by (simp add: cache_key_def)

definition cache_ok ::
    "text_engine \<Rightarrow> manifest_source \<Rightarrow> (string \<Rightarrow> string \<Rightarrow> file_read) \<Rightarrow> manifest_cache \<Rightarrow> bool" where
  "cache_ok te ms content cache \<longleftrightarrow>
     (\<forall>h path fp f m. CHR 0x00 \<notin> set h \<longrightarrow> map_of cache (cache_key h path) = Some (f, m) \<longrightarrow> f = fp path \<longrightarrow>
        m = loadUncached te (files_at ms content fp) h path)"

lemma Loader_Load_correct:
  assumes "cache_ok te ms content cache" "CHR 0x00 \<notin> set h"
    and "Loader_Load te (files_at ms content fp) fp h path cache = (m, cache')"
  shows "m = loadUncached te (files_at ms content fp) h path \<and> cache_ok te ms content cache'"
proof -
  let ?m = "loadUncached te (files_at ms content fp) h path"
  have fresh: "cache_ok te ms content (map_put (cache_key h path) (fp path, ?m) cache)"
    unfolding cache_ok_def
  proof (intro allI impI)
    fix h' path' and fp' :: "string \<Rightarrow> string" and f m'
    assume h': "CHR 0x00 \<notin> set h'" and f: "f = fp' path'"
      and look: "map_of (map_put (cache_key h path) (fp path, ?m) cache) (cache_key h' path') = Some (f, m')"
    show "m' = loadUncached te (files_at ms content fp') h' path'"
    proof (cases "cache_key h' path' = cache_key h path")
      case True
      then have "h' = h" "path' = path" using cache_key_inject [OF h' assms(2)] by blast+
      moreover have "f = fp path" "m' = ?m" using look True by simp_all
      ultimately show ?thesis using f loadUncached_same_file [of fp path fp'] by simp
    next
      case False
      then have "map_of cache (cache_key h' path') = Some (f, m')" using look by simp
      then show ?thesis using assms(1) h' f unfolding cache_ok_def by blast
    qed
  qed
  show ?thesis
  proof (cases "map_of cache (cache_key h path)")
    case None
    then show ?thesis using assms(3) fresh by (auto simp: Loader_Load_def Let_def)
  next
    case (Some e)
    obtain f m0 where e: "e = (f, m0)" by (cases e)
    show ?thesis
    proof (cases "f = fp path")
      case True
      then have "m0 = ?m" using assms(1,2) Some e unfolding cache_ok_def by blast
      then show ?thesis using assms(1,3) Some e True by (auto simp: Loader_Load_def Let_def)
    next
      case False
      then show ?thesis using assms(3) fresh Some e by (auto simp: Loader_Load_def Let_def)
    qed
  qed
qed

lemma load_sequence_correct:
  assumes "cache_ok te ms content cache" "list_all (\<lambda>(fp, h, path). CHR 0x00 \<notin> set h) reqs"
  shows "load_sequence te ms content cache reqs =
    map (\<lambda>(fp, h, path). loadUncached te (files_at ms content fp) h path) reqs"
  using assms
proof (induction reqs arbitrary: cache)
  case (Cons q reqs)
  obtain fp h path where q: "q = (fp, h, path)" by (cases q)
  obtain m cache' where l: "Loader_Load te (files_at ms content fp) fp h path cache = (m, cache')" by fastforce
  have "CHR 0x00 \<notin> set h" using Cons.prems(2) q by simp
  from Loader_Load_correct [OF Cons.prems(1) this l] show ?case using Cons l q by simp
qed simp

lemma cache_ok_empty: "cache_ok te ms content []"
  by (simp add: cache_ok_def)

end
