(* ===== verification/Aht_Batch.thy ===== *)
theory Aht_Batch
  imports Aht_CycleFacts Aht_Detection
begin

section \<open>The observations of a batch\<close>

text \<open>
  Of what form the observations are that each loop of a cycle makes: the agents they are about are
  agents of the inventory, and a reading carries a decision of a manifest that validates or the
  activity the multiplexer gave.
\<close>

definition agent_at :: "cycle_inventory \<Rightarrow> proc_info \<Rightarrow> harness \<Rightarrow> bool" where
  "agent_at ci p h \<longleftrightarrow> p \<in> set (ci_processes ci) \<and> map_of (ci_harnessByPID ci) (pr_PID p) = Some h"

lemma agent_at_facts:
  assumes "inventory_ok ci" "agent_at ci p h"
  shows "catalog_Known h" "process_complete (processIdentity p)" "p \<in> set (ci_processes ci)"
proof -
  show "catalog_Known h" "p \<in> set (ci_processes ci)"
    using assms unfolding inventory_ok_def agent_at_def by blast+
  show "process_complete (processIdentity p)"
    using inventory_complete_agents [OF assms(1)] assms(2)
    unfolding complete_agents_def agent_at_def by auto
qed

lemma inventory_lookup:
  "inventory_ok ci \<Longrightarrow>
   map_of (ci_processByPID ci) k = Some p \<longleftrightarrow> p \<in> set (ci_processes ci) \<and> pr_PID p = k"
  by (simp add: inventory_ok_def)

lemma harness_at_agent:
  assumes "harness_at hm x \<noteq> []"
  shows "map_of hm x = Some (harness_at hm x)"
  using assms by (cases "map_of hm x") (auto simp: harness_at_def deref_or_def)

subsection \<open>The agent of a pane\<close>

lemma select_process_sound:
  assumes "select_process fits hm best ps = (p, h)" "(p, h) \<noteq> best"
  shows "p \<in> set ps \<and> map_of hm (pr_PID p) = Some h \<and> fits p"
  using assms
proof (induction ps arbitrary: best)
  case (Cons a ps)
  define best' where "best' = (case map_of hm (pr_PID a) of
        None \<Rightarrow> best
      | Some h \<Rightarrow>
          if fits a \<and> (pr_PID (fst best) = 0 \<or> preferForegroundProcess a (fst best))
          then (a, h) else best)"
  have sel: "select_process fits hm best' ps = (p, h)" using Cons.prems(1) by (simp add: best'_def)
  show ?case
  proof (cases "(p, h) = best'")
    case True
    then show ?thesis using Cons.prems(2)
      by (auto simp: best'_def split: option.splits if_splits)
  next
    case False
    then show ?thesis using Cons.IH [OF sel] by simp
  qed
qed simp

lemma selected_select_process:
  assumes "selected (select_process fits hm (zero_proc, h0) ps) = Some (p, h)"
  shows "p \<in> set ps \<and> map_of hm (pr_PID p) = Some h \<and> fits p"
proof -
  have "select_process fits hm (zero_proc, h0) ps = (p, h)" "pr_PID p \<noteq> 0"
    using assms by (auto simp: selected_def split: if_splits)
  moreover from this have "(p, h) \<noteq> (zero_proc, h0)" by (auto simp: zero_proc_def)
  ultimately show ?thesis using select_process_sound [of fits hm "(zero_proc, h0)" ps p h] by blast
qed

lemma commandPaneProcess_fold:
  assumes "foldl (\<lambda>st p. case st of None \<Rightarrow> None
      | Some best \<Rightarrow>
          if harness_at hm (pr_PID p) \<noteq> h then Some best
          else if pr_CWD p = '''' \<or> cwd \<noteq> pr_CWD p then Some best
          else if pr_PID best \<noteq> 0 then None else Some p) st ps = Some best"
  shows "st = Some best \<or> best \<in> set ps \<and> harness_at hm (pr_PID best) = h"
  using assms
proof (induction ps arbitrary: st)
  case (Cons a ps)
  from Cons.IH [OF Cons.prems [unfolded foldl_Cons]] show ?case
    by (auto split: option.splits if_splits)
qed simp

lemma commandPaneProcess_sound:
  assumes "commandPaneProcess pn ps hm counts = Some (p, h)"
  shows "p \<in> set ps \<and> map_of hm (pr_PID p) = Some h"
proof -
  obtain key where key: "commandPaneKey pn = Some (key, h)"
    using assms by (auto simp: commandPaneProcess_def selected_def split: option.splits if_splits prod.splits)
  then have "catalog_Known h"
    by (auto simp: commandPaneKey_def Let_def dest: FromCommand_known split: if_splits)
  then have named: "h \<noteq> []" using catalog_Known_named by simp
  have fold: "foldl (\<lambda>st p. case st of None \<Rightarrow> None
      | Some best \<Rightarrow>
          if harness_at hm (pr_PID p) \<noteq> h then Some best
          else if pr_CWD p = '''' \<or> pn_CWD pn \<noteq> pr_CWD p then Some best
          else if pr_PID best \<noteq> 0 then None else Some p) (Some zero_proc) ps = Some p"
    and pid: "pr_PID p \<noteq> 0"
    using assms by (auto simp: commandPaneProcess_def key selected_def split: option.splits if_splits)
  have "p \<noteq> zero_proc" using pid by (auto simp: zero_proc_def)
  then show ?thesis
    using commandPaneProcess_fold [OF fold] harness_at_agent named by fastforce
qed

lemma descendantHarnessProcess_sound:
  assumes "descendantHarnessProcess root ps pm hm = Some (p, h)"
  shows "p \<in> set ps \<and> map_of hm (pr_PID p) = Some h"
  using assms
  by (auto simp: descendantHarnessProcess_def harness_at_def deref_or_def dest!: find_SomeD
      split: if_splits option.splits)

lemma multiplexerPaneProcess_agent:
  assumes "inventory_ok ci"
    and "multiplexerPaneProcess pn (ci_processes ci) (ci_processByPID ci) (ci_harnessByPID ci) counts =
      Some (p, h)"
  shows "agent_at ci p h"
proof -
  have ref: "agent_at ci p h"
    if "referenced_process (ci_processes ci) (ci_processByPID ci) (ci_harnessByPID ci) r = Some (p, h)"
    for r
    using that descendantHarnessProcess_sound inventory_lookup [OF assms(1)]
    by (auto simp: referenced_process_def agent_at_def split: option.splits)
  consider "foregroundPaneProcess pn (ci_processes ci) (ci_harnessByPID ci) = Some (p, h)"
    | r where "referenced_process (ci_processes ci) (ci_processByPID ci) (ci_harnessByPID ci) r = Some (p, h)"
    | "processMatchingMultiplexerIdentity pn (ci_processes ci) (ci_harnessByPID ci) = Some (p, h)"
    | "commandPaneProcess pn (ci_processes ci) (ci_harnessByPID ci) counts = Some (p, h)"
    using assms(2) by (auto simp: multiplexerPaneProcess_def split: option.splits)
  then show ?thesis
    by cases
      (auto simp: agent_at_def foregroundPaneProcess_def processMatchingMultiplexerIdentity_def Let_def
        dest: selected_select_process commandPaneProcess_sound ref [unfolded agent_at_def])
qed

subsection \<open>Places\<close>

lemma panePlacementObservations_form:
  assumes "ob \<in> set (fst (panePlacementObservations ci pn chosen at claimed cs))"
    "set cs \<subseteq> set (ci_processes ci)"
  shows "\<exists>p h. agent_at ci p h \<and> ob = placement_observation h p (paneLocation pn) at"
  using assms
proof (induction ci pn chosen at claimed cs rule: panePlacementObservations.induct)
  case (2 ci pn chosen at claimed c cs)
  show ?case
  proof (cases "placed_in_pane ci pn chosen claimed c")
    case True
    then have "agent_at ci c (harness_at (ci_harnessByPID ci) (pr_PID c))"
      using 2(4) harness_at_agent by (auto simp: placed_in_pane_def agent_at_def)
    then show ?thesis using 2(1) [OF True] 2(3,4) True by (auto simp: case_prod_beta)
  next
    case False
    then show ?thesis using 2(2) [OF False] 2(3,4) by simp
  qed
qed simp

subsection \<open>Readings\<close>

definition cache_valid :: "manifest_cache \<Rightarrow> bool" where
  "cache_valid cache \<longleftrightarrow> (\<forall>k fp m. map_of cache k = Some (fp, Inr m) \<longrightarrow> validateManifest m = None)"

lemma cache_valid_Nil: "cache_valid []"
  by (simp add: cache_valid_def)

lemma loadUncached_valid: "loadUncached te ms h path = Inr m \<Longrightarrow> validateManifest m = None"
  by (auto simp: loadUncached_def load_override_def Let_def dest: loadBundled_valid ParseManifest_valid
      split: if_splits sum.splits option.splits)

lemma Loader_Load_valid:
  assumes "cache_valid cache" "Loader_Load te ms fp h path cache = (res, cache')"
  shows "cache_valid cache'" "res = Inr m \<Longrightarrow> validateManifest m = None"
proof -
  have fresh: "cache_valid (map_put (cache_key h path) (fp path, loadUncached te ms h path) cache)"
    using assms(1) loadUncached_valid by (auto simp: cache_valid_def)
  show "cache_valid cache'"
    using assms fresh by (auto simp: Loader_Load_def Let_def split: option.splits if_splits)
  show "validateManifest m = None" if "res = Inr m"
    using assms that loadUncached_valid
    by (auto simp: Loader_Load_def Let_def cache_valid_def split: option.splits if_splits)
qed

definition decided :: "activity \<Rightarrow> activity_detail \<Rightarrow> bool" where
  "decided act d \<longleftrightarrow> activity_valid act \<and> (d = no_detail \<or> detail_valid_for d act)"

lemma evaluate_valid:
  assumes "validateManifest m = None"
  shows "decided (dn_Activity (Manifest_Evaluate te m snap)) (dn_Detail (Manifest_Evaluate te m snap))"
proof (cases "\<exists>r\<in>set (mf_Rules m). rule_matches te r snap")
  case True
  then obtain r where "r \<in> set (mf_Rules m)" "rule_matches te r snap" by blast
  from evaluate_some [OF this] obtain x where x: "x \<in> set (mf_Rules m)"
    "dn_Activity (Manifest_Evaluate te m snap) = state_activity (sr_State x)"
    "dn_Detail (Manifest_Evaluate te m snap) = sr_Detail x"
    unfolding Let_def by (metis nth_mem)
  then show ?thesis
    using validateRule_state [OF validateManifest_rules(3) [OF assms x(1)]] by (simp add: decided_def)
next
  case False
  then have "Manifest_Evaluate te m snap =
      (initialDecision m)\<lparr>dn_Evidence := noted te snap (sortedRules (mf_Rules m))\<rparr>"
    by (intro evaluate_none) blast
  then show ?thesis by (simp add: decided_def activity_valid_def)
qed

text \<open>What a reading of the screen of an agent looks like.\<close>

definition reading_of :: "cycle_inventory \<Rightarrow> time \<Rightarrow> bool \<Rightarrow> observation \<Rightarrow> bool" where
  "reading_of ci at good ob \<longleftrightarrow>
     (\<exists>p h r seen. agent_at ci p h \<and> seen \<ge> at \<and> ob = bare_observation h seen (EvReading r)
        \<and> sc_Process r = processIdentity p \<and> (good \<longrightarrow> decided (sc_Activity r) (sc_Detail r)))"

lemma reading_ofI:
  "agent_at ci p h \<Longrightarrow> at \<le> seen \<Longrightarrow> sc_Process r = processIdentity p \<Longrightarrow>
   (good \<Longrightarrow> decided (sc_Activity r) (sc_Detail r)) \<Longrightarrow>
   reading_of ci at good (bare_observation h seen (EvReading r))"
  unfolding reading_of_def by blast

lemma decided_no_detail: "decided act no_detail \<longleftrightarrow> activity_valid act"
  by (simp add: decided_def)

lemma captureScreenState_form:
  assumes "captureScreenState w s h (processIdentity p) pn at cache = ((found, err), cache')"
    "agent_at ci p h"
  shows "cache_valid cache \<Longrightarrow> cache_valid cache'"
    "found = Some ob \<Longrightarrow> reading_of ci at (cache_valid cache) ob"
proof -
  obtain res c1 where l: "Loader_Load (cw_text w) ((cw_manifests w)\<lparr>ms_SupportsScreen := SupportsScreen\<rparr>)
      (cw_fingerprint w) h (cw_overridePath w h) cache = (res, c1)"
    by (rule prod.exhaust)
  have c1: "cache' = c1"
    using assms(1) by (auto simp: captureScreenState_def l Let_def split: sum.splits option.splits if_splits)
  then show "cache_valid cache \<Longrightarrow> cache_valid cache'" using Loader_Load_valid(1) [OF _ l] by simp
  assume found: "found = Some ob"
  then obtain m screen title where m: "res = Inr m" "cw_capture w pn = Some (screen, title)"
    using assms(1) by (auto simp: captureScreenState_def l split: sum.splits option.splits)
  define d where "d = Manifest_Evaluate (cw_text w) m (NormalizeSnapshot screen title)"
  define seen where "seen = screenObservationTime at (cw_capturedAt w pn)"
  have ob: "ob = bare_observation h seen (EvReading
      ((screen_reading s h (processIdentity p) at (dn_Activity d) (dn_Reason d))
         \<lparr>sc_Detail := dn_Detail d, sc_RuleID := dn_RuleID d, sc_ManifestSource := dn_ManifestSource d,
          sc_ManifestVersion := dn_ManifestVersion d, sc_ObservedAt := seen\<rparr>))"
    using assms(1) found
    by (auto simp: captureScreenState_def l m Let_def d_def [symmetric] seen_def [symmetric] split: if_splits)
  have "decided (dn_Activity d) (dn_Detail d)" if "cache_valid cache"
    using Loader_Load_valid(2) [OF that l m(1)] evaluate_valid unfolding d_def by blast
  moreover have "seen \<ge> at" by (simp add: seen_def screenObservationTime_def)
  ultimately show "reading_of ci at (cache_valid cache) ob"
    unfolding ob by (intro reading_ofI [OF assms(2)]) (simp_all add: screen_reading_def)
qed

lemma detectScreenState_form:
  assumes "detectScreenState w o' ss h p pn at = ((found, err), cache')" "agent_at ci p h"
  shows "cache_valid (os_cache o') \<Longrightarrow> cache_valid cache'"
    "found = Some ob \<Longrightarrow>
     reading_of ci at (cache_valid (os_cache o') \<and> pred_option activity_valid (pn_Activity pn)) ob"
proof -
  define s where "s = sessionForProcess ss h (processIdentity p)"
  consider (none) "found = None" "cache' = os_cache o'"
    | (status) act where "pn_Activity pn = Some act" "cache' = os_cache o'"
        "found = Some (bare_observation h at (EvReading (screen_reading s h (processIdentity p) at act
           (if pn_StateReason pn = '''' then ''multiplexer_agent_status'' else pn_StateReason pn))))"
    | (capture) "captureScreenState w s h (processIdentity p) pn at (os_cache o') = ((found, err), cache')"
        "pn_Activity pn = None"
    using assms(1)
    by (auto simp: detectScreenState_def Let_def s_def [symmetric] split: if_splits option.splits)
  then have "(cache_valid (os_cache o') \<longrightarrow> cache_valid cache') \<and> (found = Some ob \<longrightarrow>
     reading_of ci at (cache_valid (os_cache o') \<and> pred_option activity_valid (pn_Activity pn)) ob)"
  proof cases
    case status
    then show ?thesis
      by (auto intro!: reading_ofI [OF assms(2)] simp: screen_reading_def decided_def)
  next
    case capture
    then show ?thesis using captureScreenState_form [OF capture(1) assms(2)] by auto
  qed auto
  then show "cache_valid (os_cache o') \<Longrightarrow> cache_valid cache'"
    "found = Some ob \<Longrightarrow>
     reading_of ci at (cache_valid (os_cache o') \<and> pred_option activity_valid (pn_Activity pn)) ob"
    by blast+
qed

subsection \<open>The panes of a cycle\<close>

definition placement_of :: "cycle_inventory \<Rightarrow> time \<Rightarrow> pane list \<Rightarrow> observation \<Rightarrow> bool" where
  "placement_of ci at pns ob \<longleftrightarrow>
     (\<exists>p h pn. agent_at ci p h \<and> pn \<in> set pns \<and> ob = placement_observation h p (paneLocation pn) at)"

definition panes_known :: "pane list \<Rightarrow> bool" where
  "panes_known pns \<longleftrightarrow> (\<forall>pn\<in>set pns. pred_option activity_valid (pn_Activity pn))"

definition pane_form :: "cycle_inventory \<Rightarrow> time \<Rightarrow> pane list \<Rightarrow> bool \<Rightarrow> pane_state \<Rightarrow> bool" where
  "pane_form ci at pns good st \<longleftrightarrow>
     (good \<longrightarrow> cache_valid (os_cache (ps_observer st)) \<and> panes_known pns)
     \<and> (\<forall>ob\<in>set (ps_observations st). placement_of ci at pns ob \<or> reading_of ci at good ob)"

lemma reading_of_weaken: "reading_of ci at g ob \<Longrightarrow> (g' \<Longrightarrow> g) \<Longrightarrow> reading_of ci at g' ob"
  unfolding reading_of_def by blast

lemma read_pane_form:
  assumes "pane_form ci at pns good st" "agent_at ci p h" "pn \<in> set pns"
  shows "pane_form ci at pns good (read_pane w ci at pn p h st)"
proof -
  obtain found err cache' where d:
    "detectScreenState w (ps_observer st) (ci_knownSessions ci) h p pn at = ((found, err), cache')"
    by (metis prod.exhaust)
  have cache: "good \<Longrightarrow> cache_valid cache'"
    using detectScreenState_form(1) [OF d assms(2)] assms(1) by (simp add: pane_form_def)
  show ?thesis
  proof (cases found)
    case None
    then show ?thesis using assms(1) cache by (simp add: read_pane_def d pane_form_def)
  next
    case (Some ob)
    have "reading_of ci at good ob"
      using detectScreenState_form(2) [OF d assms(2) Some] assms(1,3)
      by (auto simp: pane_form_def panes_known_def elim: reading_of_weaken)
    then show ?thesis using assms(1) cache
      by (auto simp: read_pane_def d Some pane_form_def case_prod_beta Let_def)
  qed
qed

lemma pane_turn_form:
  assumes "inventory_ok ci" "pane_form ci at pns good st" "pn \<in> set pns"
  shows "pane_form ci at pns good (pane_turn w ci counts at st pn)"
proof -
  define chosen where "chosen = multiplexerPaneProcess pn (ci_processes ci) (ci_processByPID ci)
      (ci_harnessByPID ci) counts"
  obtain placed claimed' where p: "panePlacementObservations ci pn chosen at (ps_claimed st)
      (ci_processes ci) = (placed, claimed')"
    by (rule prod.exhaust)
  have "placement_of ci at pns ob" if "ob \<in> set placed" for ob
    using panePlacementObservations_form [of ob ci pn chosen at "ps_claimed st" "ci_processes ci"]
      that p assms(3) by (auto simp: placement_of_def)
  then have placed: "pane_form ci at pns good
      (st\<lparr>ps_observations := ps_observations st @ placed, ps_claimed := claimed'\<rparr>)"
    using assms(2) by (auto simp: pane_form_def)
  show ?thesis
  proof (cases chosen)
    case None
    then show ?thesis using placed by (simp add: pane_turn_def chosen_def [symmetric] None p [unfolded None])
  next
    case (Some x)
    obtain q h where x: "x = (q, h)" by (rule prod.exhaust)
    have "agent_at ci q h"
      using multiplexerPaneProcess_agent [OF assms(1)] Some x unfolding chosen_def by blast
    from read_pane_form [OF placed this assms(3)] show ?thesis
      using placed by (simp add: pane_turn_def chosen_def [symmetric] Some x p [unfolded Some x] Let_def)
  qed
qed

lemma paneObservations_form:
  assumes "inventory_ok ci" "good \<longrightarrow> cache_valid (os_cache o') \<and> panes_known pns"
  shows "pane_form ci at pns good (paneObservations w ci pns at o')"
proof -
  have "pane_form ci at pns good (foldl (pane_turn w ci counts at) st qs)"
    if "pane_form ci at pns good st" "set qs \<subseteq> set pns" for counts st qs
    using that
  proof (induction qs arbitrary: st)
    case (Cons q qs)
    then show ?case using pane_turn_form [OF assms(1) Cons.prems(1), of q] by simp
  qed simp
  moreover have "pane_form ci at pns good
      \<lparr>ps_observations = [], ps_claimed = [], ps_observer = o', ps_error = None\<rparr>"
    using assms(2) by (simp add: pane_form_def)
  ultimately show ?thesis by (simp add: paneObservations_def)
qed

subsection \<open>Processes without a place\<close>

lemma unavailableScreenState_form:
  assumes "unavailableScreenState loader ss h p at reason = Some ob" "agent_at ci p h"
  shows "reading_of ci at True ob"
  using assms
  by (auto simp: unavailableScreenState_def Let_def screen_reading_def decided_def activity_valid_def
      intro!: reading_ofI split: if_splits)

lemma observationsForUnlocatedProcesses_form:
  assumes "inventory_ok ci" "mset hm = mset (ci_harnessByPID ci)"
    and "ob \<in> set (observationsForUnlocatedProcesses loader ss (ci_processByPID ci) hm claimed at inspect)"
  shows "(\<exists>p h. agent_at ci p h \<and> pr_PID p \<notin> set claimed \<and> ob = placement_observation h p zero_location at)
    \<or> reading_of ci at True ob"
proof -
  obtain pid h where x: "(pid, h) \<in> set hm" "pid \<notin> set claimed"
    "ob \<in> set (unlocated_process loader ss (ci_processByPID ci) claimed at inspect (pid, h))"
    using assms(3)
    by (auto simp: observationsForUnlocatedProcesses_def unlocated_process_def Let_def split: if_splits)
  have "(pid, h) \<in> set (ci_harnessByPID ci)" using x(1) mset_eq_setD [OF assms(2)] by simp
  then have look: "map_of (ci_harnessByPID ci) pid = Some h"
    using assms(1) by (simp add: inventory_ok_def)
  then obtain p where p: "p \<in> set (ci_processes ci)" "pr_PID p = pid"
    using assms(1) unfolding inventory_ok_def by blast
  then have "map_of (ci_processByPID ci) pid = Some p" using inventory_lookup [OF assms(1)] by blast
  moreover have "agent_at ci p h" using p look by (simp add: agent_at_def)
  ultimately show ?thesis
    using x(2,3) p(2) unavailableScreenState_form
    by (auto simp: unlocated_process_def Let_def deref_or_def split: if_splits option.splits)
qed

end
