(* ===== verification/Aht_Watch.thy ===== *)
theory Aht_Watch
  imports Aht_Batch
begin

section \<open>The watch over one process\<close>

text \<open>
  What the observer promises about one process: it is watched from the cycle that sees it, and
  after as many snapshots without it, or after as long, as the grace period says, it is reported
  gone once and the watch ends. Here the cycles that record their batch are shown to refine this
  watch for every process at once.
\<close>

subsection \<open>What a batch says of a process\<close>

definition about :: "process_key \<Rightarrow> bool \<Rightarrow> observation \<Rightarrow> bool" where
  "about k present ob \<longleftrightarrow> ob_Harness ob = pk_harness k \<and>
     (case ob_Evidence ob of
        EvSighting si \<Rightarrow> si_Present si = present \<and> p_PID (si_Process si) = pk_pid k
          \<and> p_StartIdentity (si_Process si) = pk_start k
      | _ \<Rightarrow> False)"

definition batch_says :: "process_key \<Rightarrow> bool \<Rightarrow> observation list \<Rightarrow> bool" where
  "batch_says k present obs \<longleftrightarrow> list_ex (about k present) obs"

lemma batch_says_append [simp]:
  "batch_says k b (xs @ ys) \<longleftrightarrow> batch_says k b xs \<or> batch_says k b ys"
  by (simp add: batch_says_def)

lemma batch_says_Nil [simp]: "\<not> batch_says k b []"
  by (simp add: batch_says_def)

lemma batch_says_iff: "batch_says k b obs \<longleftrightarrow> (\<exists>ob\<in>set obs. about k b ob)"
  by (simp add: batch_says_def list_ex_iff)

definition silent :: "observation \<Rightarrow> bool" where
  "silent ob \<longleftrightarrow> (case ob_Evidence ob of EvSighting _ \<Rightarrow> False | _ \<Rightarrow> True)"

lemma silent_about: "silent ob \<Longrightarrow> \<not> about k b ob"
  by (simp add: silent_def about_def split: evidence.splits)

lemma silent_forms:
  "placement_of ci at pns ob \<Longrightarrow> silent ob" "reading_of ci at g ob \<Longrightarrow> silent ob"
  "silent (placement_observation h p l at)"
  by (auto simp: placement_of_def reading_of_def silent_def placement_observation_def bare_observation_def)

lemma entry_observations_silent: "ob \<in> set (catalogObservations es pm at) \<Longrightarrow> silent ob"
  by (auto simp: catalogObservations_def entry_observations_def silent_def Let_def PrepareObservation_report
      split: if_splits option.splits)

lemma about_sighting_of:
  "about k True (sighting_of cm at h p) \<longleftrightarrow> k = process_key_of h p" "\<not> about k False (sighting_of cm at h p)"
  by (auto simp: about_def sighting_of_def process_key_of_def)

lemma processSightings_says:
  "batch_says k True (fst (processSightings ci cm at)) \<longleftrightarrow>
     map_of (snd (processSightings ci cm at)) k \<noteq> None"
  "\<not> batch_says k False (fst (processSightings ci cm at))"
proof -
  have "(\<exists>ob\<in>set (fst (processSightings ci cm at)). about k True ob) \<longleftrightarrow>
      (\<exists>p h. p \<in> set (ci_processes ci) \<and> map_of (ci_harnessByPID ci) (pr_PID p) = Some h
         \<and> k = process_key_of h p)" (is "?says \<longleftrightarrow> ?seen")
  proof
    assume ?says
    then obtain ob where ob: "ob \<in> set (fst (processSightings ci cm at))" "about k True ob" by blast
    then obtain p h where p: "p \<in> set (ci_processes ci)"
      "map_of (ci_harnessByPID ci) (pr_PID p) = Some h" "ob = sighting_of cm at h p"
      using processSightings_obs [of ob ci cm at] by blast
    then show ?seen using ob(2) about_sighting_of(1) [of k cm at h p] by blast
  next
    assume ?seen
    then obtain p h where p: "p \<in> set (ci_processes ci)"
      "map_of (ci_harnessByPID ci) (pr_PID p) = Some h" "k = process_key_of h p"
      by blast
    then have "sighting_of cm at h p \<in> set (fst (processSightings ci cm at))"
      using processSightings_obs [of "sighting_of cm at h p" ci cm at] by blast
    then show ?says using p(3) about_sighting_of(1) [of k cm at h p] by blast
  qed
  also have "\<dots> \<longleftrightarrow> map_of (snd (processSightings ci cm at)) k \<noteq> None"
    using processSightings_keys [of ci cm at k] processSightings_seen by fastforce
  finally show "batch_says k True (fst (processSightings ci cm at)) \<longleftrightarrow>
     map_of (snd (processSightings ci cm at)) k \<noteq> None"
    by (simp add: batch_says_iff)
  show "\<not> batch_says k False (fst (processSightings ci cm at))"
    by (auto simp: batch_says_iff processSightings_obs about_sighting_of)
qed

lemma gone_observation_about:
  "entry_ok k' t \<Longrightarrow> about k b (gone_observation at k' t) \<longleftrightarrow> \<not> b \<and> k = k'"
  by (cases k; cases k')
    (auto simp: about_def gone_observation_def bare_observation_def entry_ok_def process_key_of_def)

lemma unobservedSessionAbsence_form:
  assumes "unobservedSessionAbsence s pm at = Some ob"
  shows "(\<exists>q. s_Process s = Some q \<and> process_complete q
      \<and> ob = bare_observation (s_Harness s) at (EvSighting (absence_of_process q)))
    \<or> s_Process s = None \<and> ob_Harness ob = s_Harness s \<and> ob_At ob = at
      \<and> oi_SessionID (ob_Subject ob) = s_SessionID s \<and> oi_SessionPath (ob_Subject ob) = s_SessionPath s
      \<and> ob_Evidence ob = EvSighting \<lparr>si_Process = zero_process, si_Present = False\<rparr>"
proof (cases "s_Process s")
  case None
  then show ?thesis using assms
    by (auto simp: unobservedSessionAbsence_def complete_process_def split: if_splits)
next
  case (Some q)
  then have "process_complete q"
    using assms by (auto simp: unobservedSessionAbsence_def complete_process_def split: if_splits)
  then have "ob = bare_observation (s_Harness s) at (EvSighting (absence_of_process q))"
    using assms Some
    by (simp add: unobservedSessionAbsence_def complete_process_def Let_def deref_or_def split: if_splits)
  then show ?thesis using Some \<open>process_complete q\<close> by blast
qed

text \<open>A session is reconciled only if none of the tracked processes is its own.\<close>

lemma reconciled_says:
  assumes "ob \<in> set (fst (reconcileUnobservedSessions where_is tracked ss pm at))" "about k b ob"
  shows "\<not> b" "pk_pid k > 0 \<Longrightarrow> map_of tracked k = None"
proof -
  obtain s where s: "s \<in> set ss" "fst (reconcile_session where_is tracked pm at s) = Some ob"
    using assms(1) by (auto simp: reconcileUnobservedSessions_def List.map_filter_def)
  then have skipped: "\<not> isProcessTracked tracked s"
    by (auto simp: reconcile_session_def split: if_splits)
  have absence: "unobservedSessionAbsence s pm at = Some ob"
  proof (cases "unobservedSessionAbsence s pm at")
    case None
    then have "\<exists>v. ob_Evidence ob = EvVerification v"
      using s(2) by (auto simp: reconcile_session_def Let_def split: if_splits)
    then show ?thesis using assms(2) by (auto simp: about_def)
  next
    case (Some x)
    then show ?thesis using s(2) by (auto simp: reconcile_session_def split: if_splits)
  qed
  then consider (own) q where "s_Process s = Some q"
      "ob = bare_observation (s_Harness s) at (EvSighting (absence_of_process q))"
    | (pane) "ob_Evidence ob = EvSighting \<lparr>si_Process = zero_process, si_Present = False\<rparr>"
    using unobservedSessionAbsence_form by blast
  then have "\<not> b \<and> (pk_pid k > 0 \<longrightarrow> map_of tracked k = None)"
  proof cases
    case own
    then have k: "pk_harness k = s_Harness s" "pk_pid k = p_PID q" "pk_start k = p_StartIdentity q" "\<not> b"
      using assms(2) by (auto simp: about_def bare_observation_def absence_of_process_def)
    have "(k, t) \<notin> set tracked" for t
      using skipped own(1) k by (auto simp: isProcessTracked_def list_ex_iff)
    then have "map_of tracked k = None" by (cases "map_of tracked k") (auto dest: map_of_SomeD)
    then show ?thesis using k(4) by blast
  next
    case pane
    then show ?thesis using assms(2) by (auto simp: about_def zero_process_def)
  qed
  then show "\<not> b" "pk_pid k > 0 \<Longrightarrow> map_of tracked k = None" by auto
qed

subsection \<open>The batch of a cycle\<close>

text \<open>
  The process table names every process once, and the range loops of the cycle take each entry of
  their map once.
\<close>

definition fair_world :: "cycle_world \<Rightarrow> bool" where
  "fair_world w \<longleftrightarrow>
     (\<forall>ps. cw_processes w = Some ps \<longrightarrow> distinct (map pr_PID ps))
     \<and> (\<forall>m. mset (cw_trackedOrder w m) = mset m)
     \<and> (\<forall>m. mset (cw_harnessOrder w m) = mset m)"

lemma collectObservations_parts:
  fixes w at ps ss r o' defines "f \<equiv> collectObservations w at ps ss r o'"
  assumes "takeInventory o' ps (fst (cw_catalog w)) ss at = (ci, es, cm, pending)"
  shows "cf_observations f =
     fst (processSightings ci cm at)
     @ ps_observations (paneObservations w ci (sortPanesByPriority (fst (cw_panes w))) at o')
     @ (if snd (cw_panes w) then []
        else observationsForUnlocatedProcesses (loader_Supports w) ss (ci_processByPID ci)
               (cw_harnessOrder w (ci_harnessByPID ci))
               (ps_claimed (paneObservations w ci (sortPanesByPriority (fst (cw_panes w))) at o')) at
               (\<not> os_disableScreen o'))
     @ catalogObservations es (ci_processByPID ci) at
     @ fst (retireMissingProcesses (os_grace o') (cw_trackedOrder w (os_tracked o'))
              (snd (processSightings ci cm at)) at)
     @ fst (reconcileUnobservedSessions (cw_locationPresence w) (os_tracked o') ss
              (ci_processByPID ci) at)"
    and "tu_next (cf_update f) = tu_next (snd (retireMissingProcesses (os_grace o')
       (cw_trackedOrder w (os_tracked o')) (snd (processSightings ci cm at)) at))"
    and "tu_retired (cf_update f) = tu_retired (snd (retireMissingProcesses (os_grace o')
       (cw_trackedOrder w (os_tracked o')) (snd (processSightings ci cm at)) at))"
    and "tu_candidates (cf_update f) = pending"
    and "os_tracked (cf_observer f) = os_tracked o'" "os_candidates (cf_observer f) = os_candidates o'"
    "os_initialized (cf_observer f) = os_initialized o'" "options (cf_observer f) = options o'"
    and "os_screenPending (cf_observer f) = prunePendingScreenDecisions (snd (processSightings ci cm at))
       (os_screenPending (ps_observer
          (paneObservations w ci (sortPanesByPriority (fst (cw_panes w))) at o')))"
  unfolding f_def
  by (simp_all add: collectObservations_def Let_def assms(2) case_prod_beta paneObservations_frame
      options_def paneObservations_frame(4) [unfolded options_def, simplified])

lemma os_simps_options:
  "options a = options b \<Longrightarrow> os_grace a = os_grace b" "options a = options b \<Longrightarrow> os_continuous a = os_continuous b"
  "options a = options b \<Longrightarrow> os_confirmAfter a = os_confirmAfter b"
  by (simp_all add: options_eq_iff)

text \<open>What the batch says of every process: which are seen, and which of the tracked ones are gone.\<close>

lemma collected_says:
  fixes w at ps ss r o' and ci :: cycle_inventory and cm
  assumes "fair_world w" "distinct (map pr_PID ps)" "tracked_ok (os_tracked o')"
    and "takeInventory o' ps (fst (cw_catalog w)) ss at = (ci, es, cm, pending)"
  defines "obs \<equiv> cf_observations (collectObservations w at ps ss r o')"
  defines "current \<equiv> snd (processSightings ci cm at)"
  shows "batch_says k True obs \<longleftrightarrow> map_of current k \<noteq> None"
    and "map_of (os_tracked o') k = Some t \<Longrightarrow>
      batch_says k False obs \<longleftrightarrow> given_up (os_grace o') current at k t"
proof -
  have ok: "inventory_ok ci" using takeInventory_ok [OF assms(2,4)] by simp
  have orders: "mset (cw_trackedOrder w (os_tracked o')) = mset (os_tracked o')"
    "mset (cw_harnessOrder w (ci_harnessByPID ci)) = mset (ci_harnessByPID ci)"
    using assms(1) by (simp_all add: fair_world_def)
  have panes: "\<not> batch_says k b (ps_observations (paneObservations w ci pns at o'))" for b pns
    using paneObservations_form [OF ok, where good = False and o' = o' and w = w and at = at] silent_forms silent_about
    unfolding pane_form_def batch_says_iff by blast
  have unlocated: "\<not> batch_says k b (observationsForUnlocatedProcesses l ss (ci_processByPID ci)
      (cw_harnessOrder w (ci_harnessByPID ci)) c at i)" for b l c i
    using observationsForUnlocatedProcesses_form [OF ok orders(2)] silent_forms silent_about
    unfolding batch_says_iff by metis
  have listed: "\<not> batch_says k b (catalogObservations es (ci_processByPID ci) at)" for b
    using entry_observations_silent silent_about unfolding batch_says_iff by blast
  have gone: "batch_says k b (fst (retireMissingProcesses (os_grace o')
      (cw_trackedOrder w (os_tracked o')) current at)) \<longleftrightarrow>
    \<not> b \<and> (\<exists>t. map_of (os_tracked o') k = Some t \<and> given_up (os_grace o') current at k t)" for b
  proof -
    have entry: "map_of (os_tracked o') k' = Some t' \<Longrightarrow> entry_ok k' t'" for k' t'
      using assms(3) by (simp add: tracked_ok_def)
    show ?thesis
    proof
      assume "batch_says k b (fst (retireMissingProcesses (os_grace o')
        (cw_trackedOrder w (os_tracked o')) current at))"
      then obtain ob where ob: "about k b ob"
        "ob \<in> set (fst (retireMissingProcesses (os_grace o')
          (cw_trackedOrder w (os_tracked o')) current at))"
        unfolding batch_says_iff by blast
      from ob(2) obtain k' t' where t: "map_of (os_tracked o') k' = Some t'"
        "given_up (os_grace o') current at k' t'" "ob = gone_observation at k' t'"
        unfolding retireMissingProcesses_obs [OF assms(3) orders(1)] by blast
      have "\<not> b \<and> k = k'"
        using ob(1) gone_observation_about [OF entry [OF t(1)]] unfolding t(3) by blast
      then show "\<not> b \<and> (\<exists>t. map_of (os_tracked o') k = Some t \<and> given_up (os_grace o') current at k t)"
        using t(1,2) by blast
    next
      assume "\<not> b \<and> (\<exists>t. map_of (os_tracked o') k = Some t \<and> given_up (os_grace o') current at k t)"
      then obtain t where t: "\<not> b" "map_of (os_tracked o') k = Some t"
        "given_up (os_grace o') current at k t" by blast
      then have "gone_observation at k t \<in> set (fst (retireMissingProcesses (os_grace o')
          (cw_trackedOrder w (os_tracked o')) current at))"
        unfolding retireMissingProcesses_obs [OF assms(3) orders(1)] by blast
      moreover have "about k b (gone_observation at k t)"
        using gone_observation_about [OF entry [OF t(2)]] t(1) by blast
      ultimately show "batch_says k b (fst (retireMissingProcesses (os_grace o')
          (cw_trackedOrder w (os_tracked o')) current at))"
        unfolding batch_says_iff by blast
    qed
  qed
  note parts = collectObservations_parts(1) [OF assms(4), where r = r, folded obs_def]
  have not_true: "\<not> batch_says k True (fst (reconcileUnobservedSessions wh (os_tracked o') ss pm at))" for wh pm
    unfolding batch_says_iff using reconciled_says(1) by blast
  show "batch_says k True obs \<longleftrightarrow> map_of current k \<noteq> None"
    using panes unlocated listed gone not_true
    by (simp add: parts current_def processSightings_says)
  assume t: "map_of (os_tracked o') k = Some t"
  then have "entry_ok k t" using assms(3) by (simp add: tracked_ok_def)
  then have "pk_pid k > 0" by (cases k) (auto simp: entry_ok_def process_complete_def process_key_of_def)
  then have "\<not> batch_says k False (fst (reconcileUnobservedSessions wh (os_tracked o') ss pm at))" for wh pm
    unfolding batch_says_iff using reconciled_says(2) t by fastforce
  then show "batch_says k False obs \<longleftrightarrow> given_up (os_grace o') current at k t"
    using panes unlocated listed gone t
    by (simp add: parts current_def processSightings_says)
qed

subsection \<open>The watch\<close>

text \<open>
  The state of the watch over a process: since when it has been missing, and in how many snapshots.
  A step takes the time of the snapshot and whether the process is in it, and tells whether the
  process is given up.
\<close>

type_synonym watch = "(time \<times> int) option"

definition watch_step :: "duration \<Rightarrow> time \<Rightarrow> bool \<Rightarrow> watch \<Rightarrow> watch \<times> bool" where
  "watch_step grace at seen st =
     (if seen then (Some (0, 0), False)
      else case st of
        None \<Rightarrow> (None, False)
      | Some (since, n) \<Rightarrow>
          (let since' = (if since = 0 then at else since);
               gone = (if grace = 0 then n + 1 \<ge> 2 else grace > 0 \<and> time_sub at since' \<ge> grace)
           in (if gone then None else Some (since', n + 1), gone)))"

definition watched :: "tracked_map \<Rightarrow> process_key \<Rightarrow> watch" where
  "watched m k = map_option (\<lambda>t. (tk_missingSince t, tk_missingCount t)) (map_of m k)"

lemma given_up_iff:
  "map_of current k = None \<Longrightarrow>
   given_up grace current at k t \<longleftrightarrow> snd (watch_step grace at False (Some (tk_missingSince t, tk_missingCount t)))"
  by (simp add: given_up_def missingProcessRetired_def note_missing_def watch_step_def
      defaultMissingSnapshots_def Let_def)

lemma processSightings_fresh:
  "map_of (snd (processSightings ci cm at)) k = Some t \<Longrightarrow> tk_missingSince t = 0 \<and> tk_missingCount t = 0"
  by (auto dest: processSightings_keys simp: fresh_entry_def)

lemma collected_watch:
  fixes w at ps ss r o' k and ci :: cycle_inventory and cm
  assumes "fair_world w" "distinct (map pr_PID ps)" "tracked_ok (os_tracked o')"
    and "takeInventory o' ps (fst (cw_catalog w)) ss at = (ci, es, cm, pending)"
  defines "f \<equiv> collectObservations w at ps ss r o'"
  defines "step \<equiv> watch_step (os_grace o') at (batch_says k True (cf_observations f)) (watched (os_tracked o') k)"
  shows "watched (drop_retired (tu_retired (cf_update f)) (tu_next (cf_update f))) k = fst step"
    and "watched (os_tracked o') k \<noteq> None \<Longrightarrow> batch_says k False (cf_observations f) \<longleftrightarrow> snd step"
proof -
  define current where "current = snd (processSightings ci cm at)"
  note says = collected_says [OF assms(1-4), where r = r and k = k, folded f_def current_def]
  have orders: "mset (cw_trackedOrder w (os_tracked o')) = mset (os_tracked o')"
    using assms(1) by (simp add: fair_world_def)
  note parts = collectObservations_parts(2,3) [OF assms(4), where r = r, folded f_def, folded current_def]
  have lookup: "map_of (drop_retired (tu_retired (cf_update f)) (tu_next (cf_update f))) k =
    (case map_of current k of Some c \<Rightarrow> Some c
     | None \<Rightarrow> (case map_of (os_tracked o') k of None \<Rightarrow> None
         | Some t \<Rightarrow> if given_up (os_grace o') current at k t then None else Some (note_missing at t)))"
    by (auto simp: drop_retired_lookup parts retireMissingProcesses_next [OF assms(3) orders]
        retireMissingProcesses_retired [OF assms(3) orders] given_up_def split: option.split)
  show "watched (drop_retired (tu_retired (cf_update f)) (tu_next (cf_update f))) k = fst step"
  proof (cases "map_of current k")
    case (Some c)
    then show ?thesis using processSightings_fresh [of ci cm at k c]
      by (simp add: watched_def lookup step_def says(1) watch_step_def current_def)
  next
    case None
    then show ?thesis
    proof (cases "map_of (os_tracked o') k")
      case t: (Some t)
      show ?thesis using given_up_iff [OF None, of "os_grace o'" at t] None t
        by (simp add: watched_def lookup step_def says(1))
          (auto simp: watch_step_def note_missing_def Let_def)
    qed (simp add: watched_def lookup step_def says(1) watch_step_def)
  qed
  assume "watched (os_tracked o') k \<noteq> None"
  then obtain t where t: "map_of (os_tracked o') k = Some t" by (auto simp: watched_def)
  then show "batch_says k False (cf_observations f) \<longleftrightarrow> snd step"
    using says given_up_iff [of current k "os_grace o'" at t]
    by (cases "map_of current k") (auto simp: step_def watched_def given_up_def watch_step_def)
qed

text \<open>The table of a cycle is that of its tracked processes again.\<close>

lemma collected_tracked_ok:
  fixes w at ps ss r o' and ci :: cycle_inventory and cm
  assumes "fair_world w" "distinct (map pr_PID ps)" "tracked_ok (os_tracked o')"
    and "takeInventory o' ps (fst (cw_catalog w)) ss at = (ci, es, cm, pending)"
  shows "tracked_ok (tu_next (cf_update (collectObservations w at ps ss r o')))"
  unfolding collectObservations_parts(2) [OF assms(4)]
  using assms(1,3) takeInventory_ok(1) [OF assms(2,4)]
  by (intro retireMissingProcesses_ok [where m = "os_tracked o'"] processSightings_tracked
      inventory_complete_agents) (simp_all add: fair_world_def)

end
