(* ===== verification/Aht_Cycles.thy ===== *)
theory Aht_Cycles
  imports Aht_Watch
begin

section \<open>Runs of the observer\<close>

text \<open>
  A run of cycles that record their batches, with the batches they gave to the store, and what
  holds along it: the table of tracked processes stays one, and refines the watch over every
  process.
\<close>

definition batch_of ::
    "'s observation_store \<Rightarrow> cycle_world \<Rightarrow> observer \<Rightarrow> 's \<Rightarrow> observation list" where
  "batch_of op w o' s =
     (case cycle_batch op w o' s of
        None \<Rightarrow> []
      | Some (o1, ps, ss, r3, s2) \<Rightarrow>
          cf_observations (collectObservations w (cw_now w) ps ss r3 o1))"

lemma tracked_from_session_ok: "tracked_from_session s = Some (k, t) \<Longrightarrow> entry_ok k t"
  by (auto simp: tracked_from_session_def entry_ok_def Let_def process_complete_def process_key_of_def
      split: option.splits if_splits)

lemma initializeTracked_ok:
  assumes "initializeTracked op o' s = (e, o1, s1)" "tracked_ok (os_tracked o')"
  shows "tracked_ok (os_tracked o1)"
proof -
  have "tracked_ok (foldl (\<lambda>m x. AList.update (fst x) (snd x) m) m xs)"
    if "tracked_ok m" "\<forall>x\<in>set xs. entry_ok (fst x) (snd x)" for m xs
    using that
  proof (induction xs arbitrary: m)
    case (Cons x xs)
    then show ?case using tracked_ok_update [of m "fst x" "snd x"] by simp
  qed simp
  moreover have "\<forall>x\<in>set (List.map_filter tracked_from_session ss). entry_ok (fst x) (snd x)" for ss
    using tracked_from_session_ok by (auto simp: List.map_filter_def)
  ultimately show ?thesis
    using assms by (auto simp: initializeTracked_def split: if_splits prod.splits sum.splits)
qed

lemma cycle_batch_processes:
  "cycle_batch op w o' s = Some (o1, ps, ss, r3, s2) \<Longrightarrow> cw_processes w = Some ps"
  by (auto simp: cycle_batch_def split: option.splits sum.splits prod.splits)

lemma initialized_cycle:
  assumes "os_initialized o'"
  shows "fst (snd (initializeTracked op o' s)) = o'"
    and "cycle_batch op w o' s = Some (o1, ps, ss, r3, s2) \<Longrightarrow> o1 = o'"
  using assms by (auto simp: initializeTracked_def cycle_batch_def split: option.splits sum.splits prod.splits)

text \<open>Whatever becomes of a cycle, the table stays a table of complete processes.\<close>

lemma runCycle_tracked_ok:
  assumes "runCycle op w o' s = ((r, errs), o2, s')" "fair_world w" "tracked_ok (os_tracked o')"
  shows "tracked_ok (os_tracked o2)"
proof -
  have start: "tracked_ok (os_tracked (fst (snd (initializeTracked op o' s))))"
    using initializeTracked_ok [OF _ assms(3)] by (cases "initializeTracked op o' s") auto
  show ?thesis
  proof (cases "cycle_batch op w o' s")
    case None
    then show ?thesis using runCycle_cases [OF assms(1)] start by (simp add: memory_eq_iff)
  next
    case (Some b)
    obtain o1 ps ss r3 s2 where b: "b = (o1, ps, ss, r3, s2)" by (metis prod.exhaust)
    obtain ci es cm pending where inv:
      "takeInventory o1 ps (fst (cw_catalog w)) ss (cw_now w) = (ci, es, cm, pending)"
      by (metis prod.exhaust)
    define f where "f = collectObservations w (cw_now w) ps ss r3 o1"
    have o1: "tracked_ok (os_tracked o1)" and rec: "recordObservations op w (cw_now w)
        (cf_observations f) (cf_update f) (cf_result f) (cf_observer f) s2 = ((r, errs), o2, s')"
      using runCycle_cases [OF assms(1)] start by (auto simp: Some b f_def Let_def)
    have d: "distinct (map pr_PID ps)"
      using assms(2) cycle_batch_processes [OF Some [unfolded b]] by (simp add: fair_world_def)
    have u: "tracked_ok (tu_next (cf_update f))"
      unfolding f_def by (rule collected_tracked_ok [OF assms(2) d o1 inv])
    have "os_tracked (cf_observer f) = os_tracked o1"
      unfolding f_def by (rule collectObservations_parts(5) [OF inv])
    then show ?thesis
      using recordObservations_cases [OF rec] u o1 drop_retired_ok [OF u]
      by (auto simp: memory_def split: if_splits)
  qed
qed

text \<open>A cycle that records its batch takes a step of the watch over every process.\<close>

lemma runCycle_watch:
  assumes "runCycle op w o' s = ((r, errs), o2, s')" "recorded errs" "fair_world w"
    "tracked_ok (os_tracked o')" "os_initialized o'"
  defines "obs \<equiv> batch_of op w o' s"
  shows "\<exists>s0. stored_batch op obs s0 s'"
    and "watched (os_tracked o2) k =
      fst (watch_step (os_grace o') (cw_now w) (batch_says k True obs) (watched (os_tracked o') k))"
    and "watched (os_tracked o') k \<noteq> None \<Longrightarrow>
      batch_says k False obs \<longleftrightarrow>
        snd (watch_step (os_grace o') (cw_now w) (batch_says k True obs) (watched (os_tracked o') k))"
    and "os_initialized o2" "options o2 = options o'"
proof -
  obtain o1 ps ss r3 s2 where b: "cycle_batch op w o' s = Some (o1, ps, ss, r3, s2)"
    using runCycle_cases [OF assms(1)] assms(2) by (cases "cycle_batch op w o' s") auto
  have o1: "o1 = o'" by (rule initialized_cycle(2) [OF assms(5) b])
  obtain ci es cm pending where inv:
    "takeInventory o' ps (fst (cw_catalog w)) ss (cw_now w) = (ci, es, cm, pending)"
    by (metis prod.exhaust)
  define f where "f = collectObservations w (cw_now w) ps ss r3 o'"
  have obs: "obs = cf_observations f" by (simp add: obs_def batch_of_def b f_def o1)
  have rec: "recordObservations op w (cw_now w)
      (cf_observations f) (cf_update f) (cf_result f) (cf_observer f) s2 = ((r, errs), o2, s')"
    using runCycle_cases [OF assms(1)] by (simp add: b o1 f_def Let_def)
  have d: "distinct (map pr_PID ps)"
    using assms(3) cycle_batch_processes [OF b] by (simp add: fair_world_def)
  note watch = collected_watch [OF assms(3) d assms(4) inv, where r = r3, folded f_def]
  note memory = recordObservations_cases [OF rec]
  show "\<exists>s0. stored_batch op obs s0 s'" using memory assms(2) by (auto simp: obs)
  have tracked: "os_tracked o2 = drop_retired (tu_retired (cf_update f)) (tu_next (cf_update f))"
    "os_initialized o2 = os_initialized (cf_observer f)" "options o2 = options (cf_observer f)"
    using memory assms(2) by (auto simp: memory_def)
  show "watched (os_tracked o2) k =
      fst (watch_step (os_grace o') (cw_now w) (batch_says k True obs) (watched (os_tracked o') k))"
    by (simp add: tracked watch(1) obs)
  show "watched (os_tracked o') k \<noteq> None \<Longrightarrow> batch_says k False obs \<longleftrightarrow>
        snd (watch_step (os_grace o') (cw_now w) (batch_says k True obs) (watched (os_tracked o') k))"
    using watch(2) by (simp add: obs)
  show "os_initialized o2" "options o2 = options o'"
    using collectObservations_parts(7,8) [OF inv, where r = r3, folded f_def] assms(5)
    by (simp_all add: tracked)
qed

text \<open>A cycle that fails forgets no process.\<close>

lemma failed_cycle:
  assumes "runCycle op w o' s = ((r, errs), o2, s')" "\<not> recorded errs" "fair_world w"
    "tracked_ok (os_tracked o')" "os_initialized o'"
  shows "watched (os_tracked o') k \<noteq> None \<Longrightarrow> watched (os_tracked o2) k \<noteq> None"
    and "os_candidates o2 = os_candidates o'"
    and "options o2 = options o'"
proof -
  have "(watched (os_tracked o') k \<noteq> None \<longrightarrow> watched (os_tracked o2) k \<noteq> None)
    \<and> os_candidates o2 = os_candidates o' \<and> options o2 = options o'"
  proof (cases "cycle_batch op w o' s")
    case None
    then show ?thesis using runCycle_cases [OF assms(1)] initialized_cycle(1) [OF assms(5), of op s]
      by (simp add: memory_eq_iff)
  next
    case (Some b)
    obtain o1 ps ss r3 s2 where b: "b = (o1, ps, ss, r3, s2)" by (metis prod.exhaust)
    have o1: "o1 = o'" by (rule initialized_cycle(2) [OF assms(5) Some [unfolded b]])
    obtain ci es cm pending where inv:
      "takeInventory o' ps (fst (cw_catalog w)) ss (cw_now w) = (ci, es, cm, pending)"
      by (metis prod.exhaust)
    define f where "f = collectObservations w (cw_now w) ps ss r3 o'"
    have rec: "recordObservations op w (cw_now w)
        (cf_observations f) (cf_update f) (cf_result f) (cf_observer f) s2 = ((r, errs), o2, s')"
      using runCycle_cases [OF assms(1)] by (simp add: Some b o1 f_def Let_def)
    note parts = collectObservations_parts [OF inv, where r = r3, folded f_def]
    have orders: "mset (cw_trackedOrder w (os_tracked o')) = mset (os_tracked o')"
      using assms(3) by (simp add: fair_world_def)
    have "map_of (os_tracked o') k \<noteq> None \<Longrightarrow> map_of (tu_next (cf_update f)) k \<noteq> None"
      by (simp add: parts(2) retireMissingProcesses_next [OF assms(4) orders] split: option.split)
    then show ?thesis
      using recordObservations_cases [OF rec] assms(2) parts(5,6,8)
      by (auto simp: memory_def watched_def split: if_splits)
  qed
  then show "watched (os_tracked o') k \<noteq> None \<Longrightarrow> watched (os_tracked o2) k \<noteq> None"
    "os_candidates o2 = os_candidates o'" "options o2 = options o'" by blast+
qed

subsection \<open>Recorded runs\<close>

inductive recorded_run ::
    "'s observation_store \<Rightarrow> observer \<Rightarrow> 's \<Rightarrow> cycle_world list \<Rightarrow> observation list list
     \<Rightarrow> observer \<Rightarrow> 's \<Rightarrow> bool" for op where
  run_stop: "recorded_run op o' s [] [] o' s"
| run_cycle: "runCycle op w o' s = ((r, errs), o1, s1) \<Longrightarrow> recorded errs \<Longrightarrow>
    recorded_run op o1 s1 ws bs o2 s2 \<Longrightarrow>
    recorded_run op o' s (w # ws) (batch_of op w o' s # bs) o2 s2"

inductive_cases recorded_run_ConsE: "recorded_run op o' s (w # ws) bs o2 s2"
inductive_cases recorded_run_NilE: "recorded_run op o' s [] bs o2 s2"

definition ready :: "observer \<Rightarrow> bool" where
  "ready o' \<longleftrightarrow> tracked_ok (os_tracked o') \<and> os_initialized o'"

lemma runCycle_ready:
  assumes "runCycle op w o' s = ((r, errs), o2, s')" "recorded errs" "fair_world w" "ready o'"
  shows "ready o2"
  using runCycle_tracked_ok [OF assms(1,3)] runCycle_watch(4) [OF assms(1-3)] assms(4)
  by (auto simp: ready_def)

lemma recorded_run_length: "recorded_run op o' s ws bs o2 s2 \<Longrightarrow> length bs = length ws"
  by (induction rule: recorded_run.induct) auto

lemma recorded_run_ready:
  assumes "recorded_run op o' s ws bs o2 s2" "\<forall>w\<in>set ws. fair_world w" "ready o'"
  shows "ready o2 \<and> options o2 = options o'"
  using assms
proof (induction rule: recorded_run.induct)
  case (run_cycle w o' s r errs o1 s1 ws bs o2 s2)
  have w: "fair_world w" using run_cycle.prems(1) by simp
  have "options o1 = options o'"
    using runCycle_watch(5) [OF run_cycle.hyps(1,2) w] run_cycle.prems(2) by (simp add: ready_def)
  then show ?case using run_cycle runCycle_ready [OF run_cycle.hyps(1,2) w] by simp
qed simp

text \<open>The watch over one process along a run.\<close>

fun watch_run :: "duration \<Rightarrow> (time \<times> bool) list \<Rightarrow> watch \<Rightarrow> watch" where
  "watch_run g [] st = st"
| "watch_run g ((at, seen) # xs) st = watch_run g xs (fst (watch_step g at seen st))"

lemma recorded_run_watch:
  assumes "recorded_run op o' s ws bs o2 s2" "\<forall>w\<in>set ws. fair_world w" "ready o'"
  shows "watched (os_tracked o2) k =
    watch_run (os_grace o') (zip (map cw_now ws) (map (batch_says k True) bs)) (watched (os_tracked o') k)"
  using assms
proof (induction rule: recorded_run.induct)
  case (run_cycle w o' s r errs o1 s1 ws bs o2 s2)
  have w: "fair_world w" and ok: "tracked_ok (os_tracked o')" "os_initialized o'"
    using run_cycle.prems by (auto simp: ready_def)
  note step = runCycle_watch [OF run_cycle.hyps(1,2) w ok]
  have "os_grace o1 = os_grace o'" using step(5) by (simp add: options_eq_iff)
  then show ?case
    using run_cycle.IH run_cycle.prems runCycle_ready [OF run_cycle.hyps(1,2) w] step(2) by simp
qed simp

text \<open>
  A process that is missing from some snapshot on is reported gone by the first snapshot at which
  the grace period is over, and by none before.
\<close>

definition over :: "duration \<Rightarrow> time \<Rightarrow> time \<Rightarrow> int \<Rightarrow> bool" where
  "over g since at n \<longleftrightarrow> (if g = 0 then n \<ge> 2 else g > 0 \<and> time_sub at since \<ge> g)"

lemma watch_step_missing:
  "since \<noteq> 0 \<Longrightarrow> watch_step g at False (Some (since, n)) =
     (if over g since at (n + 1) then None else Some (since, n + 1), over g since at (n + 1))"
  by (simp add: watch_step_def over_def Let_def)

lemma missing_run:
  assumes "recorded_run op o' s ws bs o2 s2" "\<forall>w\<in>set ws. fair_world w" "ready o'"
    and "watched (os_tracked o') k = Some (since, n)" "since \<noteq> 0"
    and "i < length ws" "\<forall>j\<le>i. \<not> batch_says k True (bs ! j)"
    and "\<forall>j<i. \<not> over (os_grace o') since (cw_now (ws ! j)) (n + 1 + int j)"
  shows "batch_says k False (bs ! i) \<longleftrightarrow> over (os_grace o') since (cw_now (ws ! i)) (n + 1 + int i)"
  using assms
proof (induction arbitrary: n i rule: recorded_run.induct)
  case (run_cycle w o' s r errs o1 s1 ws bs o2 s2)
  have w: "fair_world w" and ok: "tracked_ok (os_tracked o')" "os_initialized o'"
    using run_cycle.prems by (auto simp: ready_def)
  note step = runCycle_watch [OF run_cycle.hyps(1,2) w ok]
  have unseen: "\<not> batch_says k True (batch_of op w o' s)" using run_cycle.prems(6) by fastforce
  show ?case
  proof (cases i)
    case 0
    then show ?thesis
      using step(3) [of k] run_cycle.prems(3,4) unseen by (simp add: watch_step_missing)
  next
    case (Suc m)
    have early: "\<not> over (os_grace o') since (cw_now w) (n + 1)"
      using run_cycle.prems(7) [rule_format, of 0] Suc by simp
    have "watched (os_tracked o1) k = Some (since, n + 1)"
      using step(2) [of k] run_cycle.prems(3,4) unseen early by (simp add: watch_step_missing)
    moreover have "os_grace o1 = os_grace o'" using step(5) by (simp add: options_eq_iff)
    moreover have "ready o1" by (rule runCycle_ready [OF run_cycle.hyps(1,2) w run_cycle.prems(2)])
    moreover have "\<not> batch_says k True (bs ! j)" if "j \<le> m" for j
      using run_cycle.prems(6) [rule_format, of "Suc j"] that Suc by simp
    moreover have "\<forall>j<m. \<not> over (os_grace o') since (cw_now (ws ! j)) (n + 1 + 1 + int j)"
    proof (intro allI impI)
      fix j assume "j < m"
      then have "Suc j < i" using Suc by simp
      then have "\<not> over (os_grace o') since (cw_now ((w # ws) ! Suc j)) (n + 1 + int (Suc j))"
        using run_cycle.prems(7) by blast
      then show "\<not> over (os_grace o') since (cw_now (ws ! j)) (n + 1 + 1 + int j)"
        by (simp add: algebra_simps)
    qed
    ultimately have later: "batch_says k False (bs ! m) \<longleftrightarrow>
        over (os_grace o') since (cw_now (ws ! m)) (n + 1 + 1 + int m)"
      using run_cycle.IH [of "n + 1" m] run_cycle.prems(1,4,5) Suc by simp
    then show ?thesis unfolding Suc nth_Cons_Suc by (simp add: add.assoc)
  qed
qed simp

lemma watch_step_first:
  "watch_step g at False (Some (0, 0)) = (if over g at at 1 then None else Some (at, 1), over g at at 1)"
  by (simp add: watch_step_def over_def Let_def)

lemma watch_step_seen: "watch_step g at True st = (Some (0, 0), False)"
  by (simp add: watch_step_def)

lemma gone_when_over:
  assumes run: "recorded_run op o' s (w0 # w1 # ws) bs o2 s2"
    and "\<forall>w\<in>set (w0 # w1 # ws). fair_world w" "ready o'" "cw_now w1 \<noteq> 0"
    and "batch_says k True (bs ! 0)" "i \<le> length ws" "\<forall>j\<le>i. \<not> batch_says k True (bs ! Suc j)"
    and early: "\<forall>j<i. \<not> over (os_grace o') (cw_now w1) (cw_now ((w1 # ws) ! j)) (int (Suc j))"
  shows "batch_says k False (bs ! Suc i) \<longleftrightarrow>
    over (os_grace o') (cw_now w1) (cw_now ((w1 # ws) ! i)) (int (Suc i))"
proof -
  obtain r errs o1 s1 cs where c0: "runCycle op w0 o' s = ((r, errs), o1, s1)" "recorded errs"
    and bs: "bs = batch_of op w0 o' s # cs" and rest: "recorded_run op o1 s1 (w1 # ws) cs o2 s2"
    using run by (rule recorded_run_ConsE) blast
  have fair: "fair_world w0" "fair_world w1" using assms(2) by auto
  have ok: "tracked_ok (os_tracked o')" "os_initialized o'" using assms(3) by (auto simp: ready_def)
  note s0 = runCycle_watch [OF c0 fair(1) ok]
  have g1: "os_grace o1 = os_grace o'" using s0(5) by (simp add: options_eq_iff)
  have ready1: "ready o1" by (rule runCycle_ready [OF c0 fair(1) assms(3)])
  then have ok1: "tracked_ok (os_tracked o1)" "os_initialized o1" by (auto simp: ready_def)
  have seen: "watched (os_tracked o1) k = Some (0, 0)"
    using s0(2) [of k] assms(5) by (simp add: bs watch_step_seen)
  obtain r' errs' o3 s3 ds where c1: "runCycle op w1 o1 s1 = ((r', errs'), o3, s3)" "recorded errs'"
    and cs: "cs = batch_of op w1 o1 s1 # ds" and tail: "recorded_run op o3 s3 ws ds o2 s2"
    using rest by (rule recorded_run_ConsE) blast
  note s1 = runCycle_watch [OF c1 fair(2) ok1]
  have unseen: "\<not> batch_says k True (batch_of op w1 o1 s1)"
    using assms(7) [rule_format, of 0] by (simp add: bs cs)
  show ?thesis
  proof (cases i)
    case 0
    then show ?thesis using s1(3) [of k] seen unseen by (simp add: bs cs watch_step_first g1)
  next
    case (Suc m)
    have "\<not> over (os_grace o') (cw_now w1) (cw_now w1) 1"
      using early [rule_format, of 0] Suc by simp
    then have "watched (os_tracked o3) k = Some (cw_now w1, 1)"
      using s1(2) [of k] seen unseen by (simp add: watch_step_first g1)
    moreover have "os_grace o3 = os_grace o'" using s1(5) g1 by (simp add: options_eq_iff)
    moreover have "ready o3" by (rule runCycle_ready [OF c1 fair(2) ready1])
    moreover have "\<not> batch_says k True (ds ! j)" if "j \<le> m" for j
      using assms(7) [rule_format, of "Suc j"] that Suc by (simp add: bs cs)
    moreover have "\<not> over (os_grace o') (cw_now w1) (cw_now (ws ! j)) (1 + 1 + int j)" if "j < m" for j
      using early [rule_format, of "Suc j"] that Suc by (simp add: add.assoc)
    ultimately show ?thesis
      using missing_run [OF tail, of k "cw_now w1" 1 m] assms(2,4,6) Suc by (simp add: bs cs)
  qed
qed

end
