(* ===== verification/Aht_BatchValid.thy ===== *)
theory Aht_BatchValid
  imports Aht_Cycles
begin

section \<open>Every observation of a cycle is accepted\<close>

text \<open>
  The store refuses a batch as a whole when one of its observations is invalid, so a cycle must
  never make one. It does not, where the process table, the multiplexers and the catalogs give
  what they are documented to give.
\<close>

definition nonneg_process :: "proc_info \<Rightarrow> bool" where
  "nonneg_process p \<longleftrightarrow> pr_PPID p \<ge> 0 \<and> pr_ProcessGroupID p \<ge> 0"

definition sound_pane :: "pane \<Rightarrow> bool" where
  "sound_pane pn \<longleftrightarrow> validateLocation (Some (paneLocation pn)) = None
     \<and> pred_option activity_valid (pn_Activity pn)"

definition sound_entry :: "catalog_entry \<Rightarrow> bool" where
  "sound_entry e \<longleftrightarrow> catalog_Known (ce_Harness e) \<and> ce_ProcessPID e \<ge> 0
     \<and> rp_Version (ce_Reporter e) \<ge> 0 \<and> rp_Sequence (ce_Reporter e) = None"

definition sound_session :: "session \<Rightarrow> bool" where
  "sound_session s \<longleftrightarrow> catalog_Known (s_Harness s)
     \<and> (case s_Process s of
          None \<Rightarrow> s_SessionID s \<noteq> [] \<or> s_SessionPath s \<noteq> []
        | Some q \<Rightarrow> process_complete q)"

definition sound_world :: "cycle_world \<Rightarrow> bool" where
  "sound_world w \<longleftrightarrow> cw_now w > 0
     \<and> (\<forall>ps. cw_processes w = Some ps \<longrightarrow> (\<forall>p\<in>set ps. nonneg_process p))
     \<and> (\<forall>pn\<in>set (fst (cw_panes w)). sound_pane pn)
     \<and> (\<forall>e\<in>set (fst (cw_catalog w)). sound_entry e)"

definition tracked_sound :: "tracked_map \<Rightarrow> bool" where
  "tracked_sound m \<longleftrightarrow>
     (\<forall>k t. map_of m k = Some t \<longrightarrow> catalog_Known (pk_harness k) \<and> nonneg_process (tk_process t))"

abbreviation accepted :: "observation \<Rightarrow> bool" where
  "accepted ob \<equiv> validateObservation catalog_Known ob = None"

lemma valid_identity:
  assumes "process_complete (processIdentity p)" "nonneg_process p"
  shows "validStoredProcess (processIdentity p) False"
  using assms by (intro validStoredProcess_identity) (auto simp: nonneg_process_def process_complete_identity)

lemma identity_not_zero:
  "process_complete (processIdentity p) \<Longrightarrow> processIdentity p \<noteq> zero_process"
  by (auto simp: process_complete_def zero_process_def processIdentity_def)

lemma accepted_sighting:
  assumes "catalog_Known (ob_Harness ob)" "ob_At ob \<noteq> 0"
    "ob_Evidence ob = EvSighting \<lparr>si_Process = q, si_Present = b\<rparr>"
    "if q = zero_process then \<not> b \<and> (oi_SessionID (ob_Subject ob) \<noteq> [] \<or> oi_SessionPath (ob_Subject ob) \<noteq> [])
     else validStoredProcess q False"
  shows "accepted ob"
  using assms catalog_Known_named [OF assms(1)] validStoredProcess_complete [of q]
  by (auto simp: validateObservation_def validateEvidenceAt_def validateEvidence_def validateSighting_def
      ob_Process_def split: if_splits)

lemma accepted_placement:
  assumes "catalog_Known h" "at \<noteq> 0" "process_complete (processIdentity p)" "nonneg_process p"
    "validateLocation (Some l) = None"
  shows "accepted (placement_observation h p l at)"
  using assms valid_identity [OF assms(3,4)] catalog_Known_named [OF assms(1)]
  by (simp add: validateObservation_def validateEvidenceAt_def validateEvidence_def validatePlacement_def
      ob_Process_def placement_observation_def bare_observation_def)

lemma accepted_reading:
  assumes "inventory_ok ci" "\<forall>p\<in>set (ci_processes ci). nonneg_process p" "at > 0"
    "reading_of ci at True ob"
  shows "accepted ob"
proof -
  obtain p h r seen where *: "agent_at ci p h" "seen \<ge> at" "ob = bare_observation h seen (EvReading r)"
    "sc_Process r = processIdentity p" "decided (sc_Activity r) (sc_Detail r)"
    using assms(4) unfolding reading_of_def by blast
  note facts = agent_at_facts [OF assms(1) *(1)]
  have "validStoredProcess (processIdentity p) False"
    using valid_identity facts assms(2) by blast
  then show ?thesis
    using facts *(2,4,5) assms(3) catalog_Known_named [OF facts(1)]
    by (auto simp: *(3) validateObservation_def validateEvidenceAt_def validateEvidence_def
        validateReading_def ob_Process_def bare_observation_def decided_def)
qed

lemma zero_location_valid: "validateLocation (Some zero_location) = None"
  by (simp add: validateLocation_def location_empty_def zero_location_def)

subsection \<open>Catalog entries\<close>

lemma prepared_report_keeps:
  "r_Process (prepared_report ob r) = r_Process r"
  "r_DetailObservedAt (prepared_report ob r) = r_DetailObservedAt r"
  by (simp_all add: prepared_report_def prepareDetail_def prepareLifecycle_def split: option.split prod.split)

lemma catalog_event_plain: "normalizedLifecycleEvent ''catalog.activity'' = ''''"
  by code_simp

lemma catalog_report_lifecycle:
  assumes "r_Event r = ''catalog.activity''" "r_Lifecycle r = None"
  shows "\<not> ends_with_activity ob r"
proof -
  obtain e s where "LifecycleFor (ob_Harness ob) (r_Event r) (r_Attributes r) = TranslateLifecycle e s"
    and "r_Event r \<noteq> '''' \<longrightarrow> e = r_Event r"
    using LifecycleFor_form by metis
  then have d: "LifecycleFor (ob_Harness ob) (r_Event r) (r_Attributes r) = TranslateLifecycle ''catalog.activity'' s"
    using assms(1) by simp
  have "ld_Lifecycle (TranslateLifecycle ''catalog.activity'' s) = no_lifecycle"
    by (simp add: TranslateLifecycle_def catalog_event_plain)
  then have "r_Lifecycle (prepared_report ob r) = None"
    using assms(2)
    by (simp add: prepared_report_def d prepareDetail_def prepareLifecycle_def split: option.split prod.split)
  then show ?thesis by (simp add: ends_with_activity_def)
qed

lemma catalogListedProcess_sound:
  assumes "catalogListedProcess e pm = Some p"
  shows "map_of pm (ce_ProcessPID e) = Some p" "process_complete (processIdentity p)"
  using assms by (auto simp: catalogListedProcess_def process_complete_identity split: option.splits if_splits)

lemma entry_observations_accepted:
  assumes "inventory_ok ci" "\<forall>p\<in>set (ci_processes ci). nonneg_process p" "at > 0"
    "sound_entry e" "ob \<in> set (entry_observations (ci_processByPID ci) at e)"
  shows "accepted ob"
proof -
  have entry: "catalog_Known (ce_Harness e)" "ce_ProcessPID e \<ge> 0" "rp_Version (ce_Reporter e) \<ge> 0"
    "rp_Sequence (ce_Reporter e) = None" using assms(4) by (auto simp: sound_entry_def)
  note named = catalog_Known_named [OF entry(1)]
  have id: "ce_SessionID e \<noteq> []" using assms(5) by (auto simp: entry_observations_def split: if_splits)
  consider (listing) start where "ob = \<lparr>ob_Harness = ce_Harness e, ob_At = at, ob_Subject = entry_subject e,
       ob_Evidence = EvListing (entry_listing e start)\<rparr>"
    | (report) r where "catalogActivityReport e (ci_processByPID ci) = Some r"
       "ob = PrepareObservation \<lparr>ob_Harness = ce_Harness e, ob_At = at, ob_Subject = entry_subject e,
          ob_Evidence = EvReport r\<rparr>"
    using assms(5)
    by (cases "catalogActivityReport e (ci_processByPID ci)")
      (auto simp: entry_observations_def Let_def split: if_splits)
  then show ?thesis
  proof cases
    case listing
    then show ?thesis using entry named assms(3) id
      by (simp add: validateObservation_def validateEvidenceAt_def validateEvidence_def
          validateListing_def ob_Process_def entry_listing_def entry_subject_def)
  next
    case report
    define ob0 where "ob0 = \<lparr>ob_Harness = ce_Harness e, ob_At = at, ob_Subject = entry_subject e,
          ob_Evidence = EvReport r\<rparr>"
    obtain p where p: "catalogListedProcess e (ci_processByPID ci) = Some p"
      and act: "activity_valid (ce_Activity e)"
      and r: "r = \<lparr>r_DetailObservedAt = None, r_Detail = None, r_Reporter = ce_Reporter e,
                r_Event = ''catalog.activity'', r_Lifecycle = None, r_Claim = None,
                r_Activity = Some (ce_Activity e), r_Process = Some (processIdentity p),
                r_Location = None, r_Listing = Some (entry_listing e ''''),
                r_Attributes = ce_Attributes e, r_Payload = []\<rparr>"
      using report(1) by (auto simp: catalogActivityReport_def split: if_splits option.splits)
    have "validateReport r = None"
      using entry act
      by (simp add: r validateReport_def validReportDetail_def validDetail_def validStoredLifecycle_def
          validStoredOptionalPresence_def validStoredOptionalActivity_def validateReportMetadata_def
          validateLocation_def validateListing_def entry_listing_def)
    moreover have "\<not> ends_with_activity ob0 r" by (rule catalog_report_lifecycle) (simp_all add: r)
    ultimately have valid: "validateReport (prepared_report ob0 r) = None"
      by (simp add: prepared_report_valid)
    have "p \<in> set (ci_processes ci)"
      using catalogListedProcess_sound(1) [OF p] inventory_lookup [OF assms(1)] by blast
    then have "validStoredProcess (processIdentity p) False"
      using valid_identity catalogListedProcess_sound(2) [OF p] assms(2) by blast
    moreover have "ob = ob0\<lparr>ob_Evidence := EvReport (prepared_report ob0 r)\<rparr>"
      by (simp add: report(2) ob0_def PrepareObservation_report)
    ultimately show ?thesis
      using valid entry(1) named assms(3) id
      by (simp add: validateObservation_def validateEvidenceAt_def validateEvidence_def ob_Process_def
          prepared_report_keeps ob0_def r entry_subject_def)
  qed
qed

lemma claimed_entries_sound:
  assumes "\<forall>e\<in>set es. sound_entry e"
  shows "\<forall>e\<in>set (fst (claimCurrentCatalogEntries es pm)). sound_entry e"
proof -
  have all: "\<forall>e\<in>set (fst (foldl (claim_entry pm) st es)). sound_entry e"
    if "\<forall>e\<in>set (fst st). sound_entry e" "\<forall>e\<in>set es. sound_entry e" for st es
    using that
  proof (induction es arbitrary: st)
    case (Cons e es)
    have "sound_entry (e\<lparr>ce_Current := False, ce_ProcessPID := 0\<rparr>)"
      using Cons.prems(2) by (simp add: sound_entry_def)
    then have "\<forall>x\<in>set (fst (claim_entry pm st e)). sound_entry x"
      using Cons.prems by (simp add: claim_entry_def case_prod_beta ball_Un)
    then show ?case using Cons.IH [of "claim_entry pm st e"] Cons.prems(2) by simp
  qed simp
  show ?thesis using all [of "([], [])" es] assms by (simp add: claimCurrentCatalogEntries_def)
qed

subsection \<open>Processes and sessions that are gone\<close>

lemma gone_accepted:
  assumes "entry_ok k t" "catalog_Known (pk_harness k)" "nonneg_process (tk_process t)" "at > 0"
  shows "accepted (gone_observation at k t)"
proof (rule accepted_sighting [where q = "processIdentity (tk_process t)" and b = False])
  have c: "process_complete (processIdentity (tk_process t))" using assms(1) by (simp add: entry_ok_def)
  show "if processIdentity (tk_process t) = zero_process
    then \<not> False \<and> (oi_SessionID (ob_Subject (gone_observation at k t)) \<noteq> []
      \<or> oi_SessionPath (ob_Subject (gone_observation at k t)) \<noteq> [])
    else validStoredProcess (processIdentity (tk_process t)) False"
    using valid_identity [OF c assms(3)] identity_not_zero [OF c] by simp
qed (use assms in \<open>simp_all add: gone_observation_def bare_observation_def\<close>)

lemma reconciled_accepted:
  assumes "\<forall>s\<in>set ss. sound_session s" "at > 0"
    "ob \<in> set (fst (reconcileUnobservedSessions wh m ss pm at))"
  shows "accepted ob"
proof -
  obtain s where s: "s \<in> set ss" "fst (reconcile_session wh m pm at s) = Some ob"
    using assms(3) by (auto simp: reconcileUnobservedSessions_def List.map_filter_def)
  have known: "catalog_Known (s_Harness s)" and sound: "sound_session s"
    using assms(1) s(1) by (auto simp: sound_session_def)
  note named = catalog_Known_named [OF known]
  show ?thesis
  proof (cases "unobservedSessionAbsence s pm at")
    case (Some x)
    then have "x = ob" using s(2) by (auto simp: reconcile_session_def split: if_splits)
    from unobservedSessionAbsence_form [OF Some [unfolded this]] consider
      (own) q where "process_complete q"
        "ob = bare_observation (s_Harness s) at (EvSighting (absence_of_process q))"
      | (none) "s_Process s = None" "ob_Harness ob = s_Harness s" "ob_At ob = at"
        "oi_SessionID (ob_Subject ob) = s_SessionID s" "oi_SessionPath (ob_Subject ob) = s_SessionPath s"
        "ob_Evidence ob = EvSighting \<lparr>si_Process = zero_process, si_Present = False\<rparr>"
      by auto
    then show ?thesis
    proof cases
      case own
      then have "validStoredProcess (zero_process\<lparr>p_PID := p_PID q, p_StartIdentity := p_StartIdentity q\<rparr>) False"
        by (auto simp: validStoredProcess_def process_complete_def zero_process_def)
      then show ?thesis using own known assms(2)
        by (intro accepted_sighting) (auto simp: bare_observation_def absence_of_process_def)
    next
      case none
      then show ?thesis using known assms(2) sound
        by (intro accepted_sighting) (auto simp: sound_session_def)
    qed
  next
    case None
    then have "\<not> complete_process s" "ob_Harness ob = s_Harness s" "ob_At ob = at"
      "oi_SessionID (ob_Subject ob) = s_SessionID s" "oi_SessionPath (ob_Subject ob) = s_SessionPath s"
      "validateEvidenceAt (ob_Evidence ob) at = None" "ob_Process ob = None"
      using s(2)
      by (auto simp: reconcile_session_def Let_def validateEvidenceAt_def validateEvidence_def
          validateVerification_def ob_Process_def split: if_splits)
    then show ?thesis
      using sound known named assms(2)
      by (auto simp: validateObservation_def sound_session_def complete_process_def split: option.splits)
  qed
qed

subsection \<open>The whole batch\<close>

lemma takeInventory_nonneg:
  assumes "distinct (map pr_PID ps)" "\<forall>p\<in>set ps. nonneg_process p"
    "takeInventory o' ps es ss at = (ci, es', cm, pending)"
  shows "\<forall>p\<in>set (ci_processes ci). nonneg_process p"
  using takeInventory_ok(3) [OF assms(1,3)] assms(2) by (fastforce simp: nonneg_process_def)

lemma takeInventory_entries:
  "takeInventory o' ps es ss at = (ci, es', cm, pending) \<Longrightarrow>
   es' = fst (claimCurrentCatalogEntries es (processesByPID ps))"
  by (auto simp: takeInventory_def Let_def split: prod.splits)

lemma sorted_panes: "set (sortPanesByPriority pns) = set pns"
  by (simp add: sortPanesByPriority_def)

lemma collected_accepted:
  fixes w at ps ss r o' and ci :: cycle_inventory and cm
  assumes "fair_world w" "sound_world w" "cw_processes w = Some ps" "at = cw_now w"
    and "tracked_ok (os_tracked o')" "tracked_sound (os_tracked o')" "cache_valid (os_cache o')"
    and "\<forall>s\<in>set ss. sound_session s"
    and inv: "takeInventory o' ps (fst (cw_catalog w)) ss at = (ci, es, cm, pending)"
    and ob: "ob \<in> set (cf_observations (collectObservations w at ps ss r o'))"
  shows "accepted ob"
proof -
  have d: "distinct (map pr_PID ps)" using assms(1,3) by (simp add: fair_world_def)
  have at: "at > 0" using assms(2,4) by (simp add: sound_world_def)
  have ok: "inventory_ok ci" using takeInventory_ok [OF d inv] by simp
  have nonneg: "\<forall>p\<in>set (ci_processes ci). nonneg_process p"
    using takeInventory_nonneg [OF d _ inv] assms(2,3) by (auto simp: sound_world_def)
  have entries: "\<forall>e\<in>set es. sound_entry e"
    unfolding takeInventory_entries [OF inv]
    using assms(2) by (intro claimed_entries_sound) (simp add: sound_world_def)
  have panes: "panes_known (sortPanesByPriority (fst (cw_panes w)))"
    "\<forall>pn\<in>set (sortPanesByPriority (fst (cw_panes w))). validateLocation (Some (paneLocation pn)) = None"
    using assms(2) by (auto simp: panes_known_def sorted_panes sound_world_def sound_pane_def)
  have orders: "mset (cw_trackedOrder w (os_tracked o')) = mset (os_tracked o')"
    "mset (cw_harnessOrder w (ci_harnessByPID ci)) = mset (ci_harnessByPID ci)"
    using assms(1) by (simp_all add: fair_world_def)
  have agent: "accepted (placement_observation h p l at)"
    if "agent_at ci p h" "validateLocation (Some l) = None" for p h l
    using agent_at_facts [OF ok that(1)] nonneg at that(2) by (intro accepted_placement) auto
  consider (sighting) "ob \<in> set (fst (processSightings ci cm at))"
    | (pane) "ob \<in> set (ps_observations (paneObservations w ci
         (sortPanesByPriority (fst (cw_panes w))) at o'))"
    | (unlocated) c i where "ob \<in> set (observationsForUnlocatedProcesses (loader_Supports w) ss
         (ci_processByPID ci) (cw_harnessOrder w (ci_harnessByPID ci)) c at i)"
    | (listed) "ob \<in> set (catalogObservations es (ci_processByPID ci) at)"
    | (gone) "ob \<in> set (fst (retireMissingProcesses (os_grace o') (cw_trackedOrder w (os_tracked o'))
              (snd (processSightings ci cm at)) at))"
    | (reconciled) "ob \<in> set (fst (reconcileUnobservedSessions (cw_locationPresence w) (os_tracked o') ss
              (ci_processByPID ci) at))"
    using ob unfolding collectObservations_parts(1) [OF inv] by (auto split: if_splits)
  then show ?thesis
  proof cases
    case sighting
    then obtain p h where p: "agent_at ci p h" "ob = sighting_of cm at h p"
      unfolding processSightings_obs agent_at_def by blast
    note facts = agent_at_facts [OF ok p(1)]
    have "validStoredProcess (processIdentity p) False" using valid_identity facts nonneg by blast
    then show ?thesis using facts at identity_not_zero [OF facts(2)] unfolding p(2)
      by (intro accepted_sighting [where q = "processIdentity p" and b = True])
        (simp_all add: sighting_of_def)
  next
    case pane
    have "pane_form ci at (sortPanesByPriority (fst (cw_panes w))) True
        (paneObservations w ci (sortPanesByPriority (fst (cw_panes w))) at o')"
      using paneObservations_form [OF ok] assms(7) panes(1) by blast
    then consider "placement_of ci at (sortPanesByPriority (fst (cw_panes w))) ob"
      | "reading_of ci at True ob"
      using pane unfolding pane_form_def by blast
    then show ?thesis
    proof cases
      case 1
      then show ?thesis using agent panes(2) by (auto simp: placement_of_def)
    qed (rule accepted_reading [OF ok nonneg at])
  next
    case unlocated
    consider p h where "agent_at ci p h" "ob = placement_observation h p zero_location at"
      | "reading_of ci at True ob"
      using observationsForUnlocatedProcesses_form [OF ok orders(2) unlocated] by blast
    then show ?thesis
    proof cases
      case 1
      then show ?thesis using agent [OF 1(1) zero_location_valid] by simp
    qed (rule accepted_reading [OF ok nonneg at])
  next
    case listed
    then obtain e where "e \<in> set es" "ob \<in> set (entry_observations (ci_processByPID ci) at e)"
      by (auto simp: catalogObservations_def)
    then show ?thesis using entry_observations_accepted [OF ok nonneg at] entries by blast
  next
    case gone
    then obtain k t where "map_of (os_tracked o') k = Some t" "ob = gone_observation at k t"
      unfolding retireMissingProcesses_obs [OF assms(5) orders(1)] by blast
    then show ?thesis using gone_accepted [OF _ _ _ at] assms(5,6)
      by (auto simp: tracked_ok_def tracked_sound_def)
  next
    case reconciled
    then show ?thesis using reconciled_accepted [OF assms(8) at] by blast
  qed
qed

subsection \<open>Along a run\<close>

text \<open>The cache of manifests is changed by nothing but the looks at the panes.\<close>

lemma recordHealth_cache: "os_cache (snd (recordHealth w at d c e r o')) = os_cache o'"
proof -
  obtain o1 b where u: "updateHealth w at d c e r o' = (o1, b)" by (rule prod.exhaust)
  then have "os_cache o1 = os_cache o'" by (auto simp: updateHealth_def Let_def)
  then show ?thesis by (simp add: recordHealth_def u)
qed

lemma failCycle_cache: "os_cache (snd (failCycle w at c e r o')) = os_cache o'"
  using recordHealth_cache [of w at True c "Some e" "withDegradation e r" o']
  by (simp add: failCycle_def Let_def case_prod_beta)

lemma recordObservations_cache:
  "os_cache (fst (snd (recordObservations op w at obs u r o' s))) = os_cache o'"
  by (simp add: recordObservations_def Let_def case_prod_beta failCycle_cache recordCycleHealth_def
      recordHealth_cache split: option.split)

lemma initializeTracked_cache: "os_cache (fst (snd (initializeTracked op o' s))) = os_cache o'"
  by (simp add: initializeTracked_def case_prod_beta split: sum.split)

lemma runCycle_cache:
  "os_cache (fst (snd (runCycle op w o' s))) =
     (case cycle_batch op w o' s of
        None \<Rightarrow> os_cache o'
      | Some (o1, ps, ss, r3, s2) \<Rightarrow>
          os_cache (cf_observer (collectObservations w (cw_now w) ps ss r3 o1)))"
  using initializeTracked_cache [of op o' s]
  by (auto simp: runCycle_def cycle_batch_def Let_def case_prod_beta failCycle_cache
      recordObservations_cache split: option.split sum.split prod.split)

lemma collected_cache:
  assumes "inventory_ok ci" "takeInventory o' ps (fst (cw_catalog w)) ss at = (ci, es, cm, pending)"
    "cache_valid (os_cache o')" "sound_world w"
  shows "cache_valid (os_cache (cf_observer (collectObservations w at ps ss r o')))"
proof -
  have "panes_known (sortPanesByPriority (fst (cw_panes w)))"
    using assms(4) by (auto simp: panes_known_def sorted_panes sound_world_def sound_pane_def)
  then have "pane_form ci at (sortPanesByPriority (fst (cw_panes w))) True
      (paneObservations w ci (sortPanesByPriority (fst (cw_panes w))) at o')"
    using paneObservations_form [OF assms(1)] assms(3) by blast
  then show ?thesis
    by (simp add: pane_form_def collectObservations_def Let_def assms(2) case_prod_beta)
qed

lemma tracked_sound_drop: "tracked_sound m \<Longrightarrow> tracked_sound (drop_retired ks m)"
  by (auto simp: tracked_sound_def drop_retired_lookup)

lemma collected_tracked_sound:
  fixes w at ps ss r o' and ci :: cycle_inventory and cm
  assumes "fair_world w" "sound_world w" "cw_processes w = Some ps"
    and "tracked_ok (os_tracked o')" "tracked_sound (os_tracked o')"
    and inv: "takeInventory o' ps (fst (cw_catalog w)) ss at = (ci, es, cm, pending)"
  shows "tracked_sound (tu_next (cf_update (collectObservations w at ps ss r o')))"
  unfolding tracked_sound_def collectObservations_parts(2) [OF inv]
proof (intro allI impI)
  fix k t
  assume lookup: "map_of (tu_next (snd (retireMissingProcesses (os_grace o')
      (cw_trackedOrder w (os_tracked o')) (snd (processSightings ci cm at)) at))) k = Some t"
  have d: "distinct (map pr_PID ps)" using assms(1,3) by (simp add: fair_world_def)
  have ok: "inventory_ok ci" using takeInventory_ok [OF d inv] by simp
  have nonneg: "\<forall>p\<in>set (ci_processes ci). nonneg_process p"
    using takeInventory_nonneg [OF d _ inv] assms(2,3) by (auto simp: sound_world_def)
  have orders: "mset (cw_trackedOrder w (os_tracked o')) = mset (os_tracked o')"
    using assms(1) by (simp add: fair_world_def)
  show "catalog_Known (pk_harness k) \<and> nonneg_process (tk_process t)"
  proof (cases "map_of (snd (processSightings ci cm at)) k")
    case None
    then obtain t0 where "map_of (os_tracked o') k = Some t0" "t = note_missing at t0"
      using lookup by (auto simp: retireMissingProcesses_next [OF assms(4) orders])
    then show ?thesis using assms(5) by (auto simp: tracked_sound_def note_missing_def)
  next
    case (Some c)
    then have "t = c" using lookup by (simp add: retireMissingProcesses_next [OF assms(4) orders])
    then obtain p where p: "p \<in> set (ci_processes ci)"
      "map_of (ci_harnessByPID ci) (pr_PID p) = Some (pk_harness k)" "t = fresh_entry p"
      using processSightings_keys [OF Some] by blast
    then have "agent_at ci p (pk_harness k)" by (simp add: agent_at_def)
    from agent_at_facts [OF ok this] show ?thesis using nonneg p(1,3) by (simp add: fresh_entry_def)
  qed
qed

text \<open>An observer that is ready, tracks agents only, and has loaded valid manifests.\<close>

definition sound_observer :: "observer \<Rightarrow> bool" where
  "sound_observer o' \<longleftrightarrow>
     ready o' \<and> tracked_sound (os_tracked o') \<and> cache_valid (os_cache o')"

definition lists_sound :: "'s observation_store \<Rightarrow> bool" where
  "lists_sound op \<longleftrightarrow>
     (\<forall>s ss s'. op_List op zero_filter s = (Inr ss, s') \<longrightarrow> (\<forall>x\<in>set ss. sound_session x))"

lemma cycle_batch_listed:
  "cycle_batch op w o' s = Some (o1, ps, ss, r3, s2) \<Longrightarrow> lists_sound op \<Longrightarrow> \<forall>x\<in>set ss. sound_session x"
  unfolding cycle_batch_def lists_sound_def by (fastforce split: option.splits sum.splits prod.splits)

lemma cycle_accepted:
  assumes "fair_world w" "sound_world w" "sound_observer o'" "lists_sound op"
  shows "\<forall>ob\<in>set (batch_of op w o' s). accepted ob"
proof (cases "cycle_batch op w o' s")
  case None
  then show ?thesis by (simp add: batch_of_def)
next
  case (Some b)
  obtain o1 ps ss r3 s2 where b: "b = (o1, ps, ss, r3, s2)" by (metis prod.exhaust)
  note batch = Some [unfolded b]
  have o1: "o1 = o'"
    using initialized_cycle(2) [OF _ batch] assms(3) by (simp add: sound_observer_def ready_def)
  obtain ci es cm pending where inv:
    "takeInventory o' ps (fst (cw_catalog w)) ss (cw_now w) = (ci, es, cm, pending)"
    by (metis prod.exhaust)
  show ?thesis
    using collected_accepted [OF assms(1,2) cycle_batch_processes [OF batch] refl _ _ _
        cycle_batch_listed [OF batch assms(4)] inv] assms(3)
    by (simp add: batch_of_def batch o1 sound_observer_def ready_def)
qed

lemma cycle_sound:
  assumes "runCycle op w o' s = ((r, errs), o2, s')" "recorded errs"
    "fair_world w" "sound_world w" "sound_observer o'"
  shows "sound_observer o2"
proof -
  have ready: "ready o'" and i: "os_initialized o'" and ok: "tracked_ok (os_tracked o')"
    using assms(5) by (auto simp: sound_observer_def ready_def)
  obtain o1 ps ss r3 s2 where batch: "cycle_batch op w o' s = Some (o1, ps, ss, r3, s2)"
    using runCycle_cases [OF assms(1)] assms(2) by (cases "cycle_batch op w o' s") auto
  have o1: "o1 = o'" by (rule initialized_cycle(2) [OF i batch])
  note ps = cycle_batch_processes [OF batch]
  obtain ci es cm pending where inv:
    "takeInventory o' ps (fst (cw_catalog w)) ss (cw_now w) = (ci, es, cm, pending)"
    by (metis prod.exhaust)
  have d: "distinct (map pr_PID ps)" using assms(3) ps by (simp add: fair_world_def)
  define f where "f = collectObservations w (cw_now w) ps ss r3 o'"
  have rec: "recordObservations op w (cw_now w)
      (cf_observations f) (cf_update f) (cf_result f) (cf_observer f) s2 = ((r, errs), o2, s')"
    using runCycle_cases [OF assms(1)] by (simp add: batch o1 f_def Let_def)
  have "os_tracked o2 = drop_retired (tu_retired (cf_update f)) (tu_next (cf_update f))"
    using recordObservations_cases [OF rec] assms(2) by (simp add: memory_def)
  moreover have "tracked_sound (tu_next (cf_update f))"
    unfolding f_def by (rule collected_tracked_sound [OF assms(3,4) ps ok _ inv])
      (use assms(5) in \<open>simp add: sound_observer_def\<close>)
  ultimately have "tracked_sound (os_tracked o2)" by (simp add: tracked_sound_drop)
  moreover have "os_cache o2 = os_cache (cf_observer f)"
    using runCycle_cache [of op w o' s] by (simp add: batch o1 f_def assms(1))
  then have "cache_valid (os_cache o2)"
    using collected_cache [OF takeInventory_ok(1) [OF d inv] inv _ assms(4), where r = r3] assms(5)
    by (simp add: f_def sound_observer_def)
  ultimately show ?thesis
    using runCycle_ready [OF assms(1-3) ready] by (simp add: sound_observer_def)
qed

lemma recorded_run_accepted:
  assumes "recorded_run op o' s ws bs o2 s2" "\<forall>w\<in>set ws. fair_world w \<and> sound_world w"
    "sound_observer o'" "lists_sound op"
  shows "sound_observer o2 \<and> (\<forall>b\<in>set bs. \<forall>ob\<in>set b. accepted ob)"
  using assms
proof (induction rule: recorded_run.induct)
  case (run_cycle w o' s r errs o1 s1 ws bs o2 s2)
  have w: "fair_world w" "sound_world w" using run_cycle.prems(1) by auto
  have "sound_observer o1"
    by (rule cycle_sound [OF run_cycle.hyps(1,2) w run_cycle.prems(2)])
  then show ?case
    using run_cycle cycle_accepted [OF w run_cycle.prems(2,3), of s] by simp
qed simp

text \<open>The first cycle that records its batch has taken up the sessions of the store.\<close>

lemma first_cycle_ready:
  assumes "runCycle op w o' s = ((r, errs), o2, s')" "recorded errs" "fair_world w"
    "tracked_ok (os_tracked o')"
  shows "ready o2"
proof -
  obtain o1 ps ss r3 s2 where batch: "cycle_batch op w o' s = Some (o1, ps, ss, r3, s2)"
    using runCycle_cases [OF assms(1)] assms(2) by (cases "cycle_batch op w o' s") auto
  then have o1: "os_initialized o1"
    by (auto simp: cycle_batch_def initializeTracked_def split: option.splits sum.splits prod.splits if_splits)
  obtain ci es cm pending where inv:
    "takeInventory o1 ps (fst (cw_catalog w)) ss (cw_now w) = (ci, es, cm, pending)"
    by (metis prod.exhaust)
  define f where "f = collectObservations w (cw_now w) ps ss r3 o1"
  have rec: "recordObservations op w (cw_now w)
      (cf_observations f) (cf_update f) (cf_result f) (cf_observer f) s2 = ((r, errs), o2, s')"
    using runCycle_cases [OF assms(1), unfolded batch option.case prod.case Let_def]
    unfolding f_def by blast
  have "os_initialized o2"
    using recordObservations_cases [OF rec] assms(2) o1
      collectObservations_parts(7) [OF inv, where r = r3, folded f_def]
    by (simp add: memory_def)
  then show ?thesis using runCycle_tracked_ok [OF assms(1,3,4)] by (simp add: ready_def)
qed

end
