(* ===== verification/Aht_Confirmation.thy ===== *)
theory Aht_Confirmation
  imports Aht_Cycles
begin

section \<open>Confirming what runs under the name of an agent\<close>

text \<open>
  A process that only its command names as an agent is held back until it has been found in every
  snapshot of a long enough stretch of the run.
\<close>

text \<open>The agents of a scan, before any is held back.\<close>

definition agents_in_scan :: "proc_info list \<Rightarrow> process_key list" where
  "agents_in_scan ps =
     (let pm = processesByPID ps;
          hm = pruneNestedHarnesses ps pm (resolveHarnesses ps)
      in map (harness_key (snd (normalizeHarnessForeground ps pm hm))) hm)"

definition found_in :: "process_key \<Rightarrow> cycle_world \<Rightarrow> bool" where
  "found_in k w = (case cw_processes w of None \<Rightarrow> False | Some ps \<Rightarrow> k \<in> set (agents_in_scan ps))"

text \<open>What confirms a process at once.\<close>

definition vouched ::
    "observer \<Rightarrow> session list \<Rightarrow> catalog_entry pid_map \<Rightarrow> process_key \<Rightarrow> bool" where
  "vouched o' ss cm k \<longleftrightarrow>
     map_of (os_tracked o') k \<noteq> None
     \<or> (\<exists>e. map_of cm (pk_pid k) = Some e \<and> ce_Harness e = pk_harness k)
     \<or> (\<exists>s\<in>set ss. s_Harness s = pk_harness k
          \<and> (\<exists>q. s_Process s = Some q \<and> p_PID q = pk_pid k \<and> p_StartIdentity q = pk_start k))"

lemma processConfirmed_iff:
  "processConfirmed o' k ss cm at \<longleftrightarrow> \<not> os_continuous o' \<or> os_confirmAfter o' < 0 \<or> vouched o' ss cm k
     \<or> (\<exists>t. map_of (os_candidates o') k = Some t \<and> time_sub at t \<ge> os_confirmAfter o')"
  by (auto simp: processConfirmed_def vouched_def list_ex_iff split: option.split)

lemma harness_key_inject:
  "distinct (map fst hm) \<Longrightarrow> x \<in> set hm \<Longrightarrow> y \<in> set hm \<Longrightarrow> harness_key pm x = harness_key pm y \<Longrightarrow> x = y"
  by (auto simp: harness_key_def prod_eq_iff)

lemma held_back:
  assumes "takeInventory o' ps es ss at = (ci, es', cm, pending)" "map_of pending k = Some t"
  shows "k \<in> set (agents_in_scan ps) \<and> (t = at \<or> map_of (os_candidates o') k = Some t)"
proof -
  define pm where "pm = processesByPID ps"
  define hm where "hm = pruneNestedHarnesses ps pm (resolveHarnesses ps)"
  obtain ps' pm' where n: "normalizeHarnessForeground ps pm hm = (ps', pm')" by (metis prod.exhaust)
  have "(k, t) \<in> set pending" using assms(2) by (rule map_of_SomeD)
  then obtain x where "x \<in> set hm" "k = harness_key pm' x"
    "t = deref_or at (map_of (os_candidates o') (harness_key pm' x))"
    using assms(1) n
    by (auto simp: takeInventory_def holdUnconfirmedProcesses_def Let_def pm_def [symmetric]
        hm_def [symmetric] split: prod.splits)
  then show ?thesis
    by (auto simp: agents_in_scan_def Let_def pm_def [symmetric] hm_def [symmetric] n deref_or_def
        split: option.splits)
qed

lemma released:
  assumes "takeInventory o' ps es ss at = (ci, es', cm, pending)" "inventory_ok ci"
    and "map_of (snd (processSightings ci cm at')) k \<noteq> None"
  shows "k \<in> set (agents_in_scan ps) \<and> processConfirmed o' k ss cm at"
proof -
  define pm where "pm = processesByPID ps"
  define hm where "hm = pruneNestedHarnesses ps pm (resolveHarnesses ps)"
  obtain ps' pm' where n: "normalizeHarnessForeground ps pm hm = (ps', pm')" by (metis prod.exhaust)
  have ci: "ci_processByPID ci = pm'"
    "ci_harnessByPID ci = filter (\<lambda>x. processConfirmed o' (harness_key pm' x) ss cm at) hm"
    using assms(1) n
    by (auto simp: takeInventory_def holdUnconfirmedProcesses_def Let_def pm_def [symmetric]
        hm_def [symmetric] split: prod.splits)
  obtain p where p: "p \<in> set (ci_processes ci)"
    "map_of (ci_harnessByPID ci) (pr_PID p) = Some (pk_harness k)" "k = process_key_of (pk_harness k) p"
    using assms(3) processSightings_keys by fastforce
  have "map_of pm' (pr_PID p) = Some p" using inventory_lookup [OF assms(2)] p(1) by (simp add: ci)
  then have k: "k = harness_key pm' (pr_PID p, pk_harness k)"
    using p(3) by (simp add: harness_key_def process_key_of_def deref_or_def)
  have "(pr_PID p, pk_harness k) \<in> set (ci_harnessByPID ci)" using p(2) by (rule map_of_SomeD)
  then have "(pr_PID p, pk_harness k) \<in> set hm" "processConfirmed o' (harness_key pm' (pr_PID p, pk_harness k)) ss cm at"
    by (simp_all add: ci)
  then show ?thesis
    using k by (auto simp: agents_in_scan_def Let_def pm_def [symmetric] hm_def [symmetric] n
        intro!: rev_image_eqI)
qed

text \<open>The candidates after a cycle that recorded its batch.\<close>

lemma runCycle_candidates:
  assumes "runCycle op w o' s = ((r, errs), o2, s')" "recorded errs" "os_initialized o'"
    and "map_of (os_candidates o2) k = Some t"
  shows "found_in k w \<and> (t = cw_now w \<or> map_of (os_candidates o') k = Some t)"
proof -
  obtain o1 ps ss r3 s2 where b: "cycle_batch op w o' s = Some (o1, ps, ss, r3, s2)"
    using runCycle_cases [OF assms(1)] assms(2) by (cases "cycle_batch op w o' s") auto
  have o1: "o1 = o'" by (rule initialized_cycle(2) [OF assms(3) b])
  obtain ci es cm pending where inv:
    "takeInventory o' ps (fst (cw_catalog w)) ss (cw_now w) = (ci, es, cm, pending)"
    by (metis prod.exhaust)
  define f where "f = collectObservations w (cw_now w) ps ss r3 o'"
  have rec: "recordObservations op w (cw_now w)
      (cf_observations f) (cf_update f) (cf_result f) (cf_observer f) s2 = ((r, errs), o2, s')"
    using runCycle_cases [OF assms(1)] by (simp add: b o1 f_def Let_def)
  have "os_candidates o2 = pending"
    using recordObservations_cases [OF rec] assms(2)
      collectObservations_parts(4) [OF inv, where r = r3, folded f_def]
    by (simp add: memory_def)
  then show ?thesis
    using held_back [OF inv, of k t] assms(4) cycle_batch_processes [OF b] by (simp add: found_in_def)
qed

definition vouched_in ::
    "'s observation_store \<Rightarrow> cycle_world \<Rightarrow> observer \<Rightarrow> 's \<Rightarrow> process_key \<Rightarrow> bool" where
  "vouched_in op w o' s k \<longleftrightarrow>
     (case cycle_batch op w o' s of
        None \<Rightarrow> False
      | Some (o1, ps, ss, r3, s2) \<Rightarrow>
          vouched o1 ss (snd (claimCurrentCatalogEntries (fst (cw_catalog w)) (processesByPID ps))) k)"

lemma takeInventory_claims:
  "takeInventory o' ps es ss at = (ci, es', cm, pending) \<Longrightarrow>
   cm = snd (claimCurrentCatalogEntries es (processesByPID ps))"
  by (auto simp: takeInventory_def Let_def split: prod.splits)

lemma runCycle_sighting:
  assumes "runCycle op w o' s = ((r, errs), o2, s')" "recorded errs" "os_initialized o'"
    and "fair_world w" "tracked_ok (os_tracked o')"
    and "batch_says k True (batch_of op w o' s)" "os_continuous o'" "os_confirmAfter o' \<ge> 0"
  shows "found_in k w \<and> (vouched_in op w o' s k
    \<or> (\<exists>t. map_of (os_candidates o') k = Some t \<and> time_sub (cw_now w) t \<ge> os_confirmAfter o'))"
proof -
  obtain o1 ps ss r3 s2 where b: "cycle_batch op w o' s = Some (o1, ps, ss, r3, s2)"
    using runCycle_cases [OF assms(1)] assms(2) by (cases "cycle_batch op w o' s") auto
  have o1: "o1 = o'" by (rule initialized_cycle(2) [OF assms(3) b])
  obtain ci es cm pending where inv:
    "takeInventory o' ps (fst (cw_catalog w)) ss (cw_now w) = (ci, es, cm, pending)"
    by (metis prod.exhaust)
  have d: "distinct (map pr_PID ps)"
    using assms(4) cycle_batch_processes [OF b] by (simp add: fair_world_def)
  have "map_of (snd (processSightings ci cm (cw_now w))) k \<noteq> None"
    using collected_says(1) [OF assms(4) d assms(5) inv, where r = r3 and k = k] assms(6)
    by (simp add: batch_of_def b o1)
  from released [OF inv takeInventory_ok(1) [OF d inv] this] show ?thesis
    using assms(7,8) cycle_batch_processes [OF b] takeInventory_claims [OF inv]
    by (auto simp: found_in_def processConfirmed_iff vouched_in_def b o1)
qed

text \<open>A candidate has been found in every snapshot since the time it is remembered with.\<close>

definition found_since :: "process_key \<Rightarrow> time \<Rightarrow> cycle_world list \<Rightarrow> bool" where
  "found_since k t ws \<longleftrightarrow>
     (\<exists>j<length ws. cw_now (ws ! j) = t \<and> (\<forall>w\<in>set (drop j ws). found_in k w))"

lemma found_since_Cons: "found_since k t ws \<Longrightarrow> found_since k t (w # ws)"
  unfolding found_since_def by (metis Suc_less_eq drop_Suc_Cons length_Cons nth_Cons_Suc)

lemma recorded_run_candidates:
  assumes "recorded_run op o' s ws bs o2 s2" "\<forall>w\<in>set ws. fair_world w" "ready o'"
    and "map_of (os_candidates o2) k = Some t"
  shows "found_since k t ws \<or> map_of (os_candidates o') k = Some t \<and> (\<forall>w\<in>set ws. found_in k w)"
  using assms
proof (induction rule: recorded_run.induct)
  case (run_cycle w o' s r errs o1 s1 ws bs o2 s2)
  have w: "fair_world w" and i: "os_initialized o'" using run_cycle.prems by (auto simp: ready_def)
  have "ready o1" by (rule runCycle_ready [OF run_cycle.hyps(1,2) w run_cycle.prems(2)])
  then consider "found_since k t ws" | "map_of (os_candidates o1) k = Some t" "\<forall>w\<in>set ws. found_in k w"
    using run_cycle by auto
  then show ?case
  proof cases
    case 1
    then show ?thesis by (simp add: found_since_Cons)
  next
    case 2
    from runCycle_candidates [OF run_cycle.hyps(1,2) i 2(1)] consider
      "found_in k w" "t = cw_now w" | "found_in k w" "map_of (os_candidates o') k = Some t" by blast
    then show ?thesis
    proof cases
      case 1
      then have "found_since k t (w # ws)" using 2(2) by (auto simp: found_since_def intro!: exI [of _ 0])
      then show ?thesis ..
    qed (use 2(2) in simp)
  qed
qed simp

end
