(* ===== verification/Aht_Placement.thy ===== *)
theory Aht_Placement
  imports Aht_Watch
begin

section \<open>Every agent has one place\<close>

text \<open>
  A cycle places each agent it sights at most once: in the first pane that claims it, the panes
  of the preferred multiplexers coming first, or without a place if none does.
\<close>

definition placed_pid :: "observation \<Rightarrow> int option" where
  "placed_pid ob =
     (case ob_Evidence ob of EvPlacement p \<Rightarrow> Some (p_PID (pl_Process p)) | _ \<Rightarrow> None)"

definition placed_pids :: "observation list \<Rightarrow> int list" where
  "placed_pids obs = List.map_filter placed_pid obs"

definition sighted_pid :: "observation \<Rightarrow> int option" where
  "sighted_pid ob =
     (case ob_Evidence ob of
        EvSighting si \<Rightarrow> if si_Present si then Some (p_PID (si_Process si)) else None
      | _ \<Rightarrow> None)"

definition sighted_pids :: "observation list \<Rightarrow> int list" where
  "sighted_pids obs = List.map_filter sighted_pid obs"

lemma map_filter_append: "List.map_filter f (xs @ ys) = List.map_filter f xs @ List.map_filter f ys"
  by (simp add: List.map_filter_def)

lemma placed_pids_simps [simp]:
  "placed_pids [] = []" "placed_pids (xs @ ys) = placed_pids xs @ placed_pids ys"
  "placed_pids (placement_observation h p l at # xs) = pr_PID p # placed_pids xs"
  by (simp_all add: placed_pids_def map_filter_append List.map_filter_simps placed_pid_def
      placement_observation_def bare_observation_def)

lemma placed_pids_none: "(\<And>ob. ob \<in> set obs \<Longrightarrow> placed_pid ob = None) \<Longrightarrow> placed_pids obs = []"
  by (auto simp: placed_pids_def List.map_filter_def filter_empty_conv)

lemma sighted_pids_none: "(\<And>ob. ob \<in> set obs \<Longrightarrow> sighted_pid ob = None) \<Longrightarrow> sighted_pids obs = []"
  by (auto simp: sighted_pids_def List.map_filter_def filter_empty_conv)

lemma sighted_pids_append [simp]:
  "sighted_pids [] = []" "sighted_pids (xs @ ys) = sighted_pids xs @ sighted_pids ys"
  by (simp_all add: sighted_pids_def map_filter_append List.map_filter_simps)

lemma reading_places_none: "reading_of ci at g ob \<Longrightarrow> placed_pid ob = None"
  by (auto simp: reading_of_def placed_pid_def bare_observation_def)

lemma silent_sighted: "silent ob \<Longrightarrow> sighted_pid ob = None"
  by (simp add: silent_def sighted_pid_def split: evidence.splits)

subsection \<open>The panes\<close>

lemma panePlacementObservations_pids:
  "panePlacementObservations ci pn chosen at claimed cs = (obs, claimed') \<Longrightarrow> distinct claimed \<Longrightarrow>
   distinct claimed' \<and> mset claimed' = mset (placed_pids obs) + mset claimed"
proof (induction ci pn chosen at claimed cs arbitrary: obs rule: panePlacementObservations.induct)
  case (2 ci pn chosen at claimed c cs)
  show ?case
  proof (cases "placed_in_pane ci pn chosen claimed c")
    case True
    then have new: "pr_PID c \<notin> set claimed" by (simp add: placed_in_pane_def)
    obtain obs' where obs': "panePlacementObservations ci pn chosen at (pr_PID c # claimed) cs = (obs', claimed')"
      and obs: "obs = placement_observation (harness_at (ci_harnessByPID ci) (pr_PID c)) c (paneLocation pn) at # obs'"
      using 2(3) True by (auto split: prod.splits)
    show ?thesis using 2(1) [OF True obs'] 2(4) new by (simp add: obs)
  next
    case False
    then show ?thesis using 2 by simp
  qed
qed simp

text \<open>What has been placed is what has been claimed, and both are agents.\<close>

definition claims_ok :: "cycle_inventory \<Rightarrow> pane_state \<Rightarrow> bool" where
  "claims_ok ci st \<longleftrightarrow> distinct (ps_claimed st)
     \<and> mset (ps_claimed st) = mset (placed_pids (ps_observations st))"

lemma read_pane_claims:
  assumes "claims_ok ci st" "agent_at ci p h"
  shows "claims_ok ci (read_pane w ci at pn p h st)"
proof -
  obtain found err cache' where d:
    "detectScreenState w (ps_observer st) (ci_knownSessions ci) h p pn at = ((found, err), cache')"
    by (metis prod.exhaust)
  have "placed_pids [ob] = []" if "found = Some ob" for ob
    using detectScreenState_form(2) [OF d assms(2) that] reading_places_none
    by (intro placed_pids_none) auto
  then show ?thesis using assms(1)
    by (auto simp: claims_ok_def read_pane_def d Let_def case_prod_beta split: option.split)
qed

lemma pane_turn_claims:
  assumes "inventory_ok ci" "claims_ok ci st"
  shows "claims_ok ci (pane_turn w ci counts at st pn)"
proof -
  define chosen where "chosen = multiplexerPaneProcess pn (ci_processes ci) (ci_processByPID ci)
      (ci_harnessByPID ci) counts"
  obtain placed claimed' where p: "panePlacementObservations ci pn chosen at (ps_claimed st)
      (ci_processes ci) = (placed, claimed')"
    by (rule prod.exhaust)
  have placed: "claims_ok ci (st\<lparr>ps_observations := ps_observations st @ placed, ps_claimed := claimed'\<rparr>)"
    using panePlacementObservations_pids [OF p] assms(2) by (simp add: claims_ok_def)
  show ?thesis
  proof (cases chosen)
    case None
    then show ?thesis using placed
      by (simp add: pane_turn_def chosen_def [symmetric] None p [unfolded None])
  next
    case (Some x)
    obtain q h where x: "x = (q, h)" by (rule prod.exhaust)
    have "agent_at ci q h"
      using multiplexerPaneProcess_agent [OF assms(1)] Some x unfolding chosen_def by blast
    from read_pane_claims [OF placed this] show ?thesis
      using placed
      by (simp add: pane_turn_def chosen_def [symmetric] Some x p [unfolded Some x] Let_def)
  qed
qed

lemma paneObservations_claims:
  assumes "inventory_ok ci"
  shows "claims_ok ci (paneObservations w ci pns at o')"
proof -
  have "claims_ok ci (foldl (pane_turn w ci counts at) st qs)" if "claims_ok ci st" for counts st qs
    using that
  proof (induction qs arbitrary: st)
    case (Cons q qs)
    show ?case using Cons.IH [OF pane_turn_claims [OF assms Cons.prems]] by simp
  qed simp
  then show ?thesis by (simp add: paneObservations_def claims_ok_def)
qed

lemma paneObservations_agents:
  assumes "inventory_ok ci" "x \<in> set (placed_pids (ps_observations (paneObservations w ci pns at o')))"
  shows "x \<in> fst ` set (ci_harnessByPID ci)"
proof -
  obtain ob where ob: "ob \<in> set (ps_observations (paneObservations w ci pns at o'))" "placed_pid ob = Some x"
    using assms(2) by (auto simp: placed_pids_def List.map_filter_def)
  then have "placement_of ci at pns ob"
    using paneObservations_form [OF assms(1), where good = False and o' = o' and w = w and at = at]
      reading_places_none unfolding pane_form_def by force
  then obtain p h where "agent_at ci p h" "x = pr_PID p"
    using ob(2) by (auto simp: placement_of_def placed_pid_def placement_observation_def bare_observation_def)
  then show ?thesis by (auto simp: agent_at_def dest: map_of_SomeD intro: rev_image_eqI)
qed

subsection \<open>The agents without a pane\<close>

lemma unlocated_pids:
  assumes "\<forall>x\<in>set hm. pr_PID (deref_or zero_proc (map_of pm (fst x))) = fst x"
  shows "placed_pids (observationsForUnlocatedProcesses loader ss pm hm claimed at inspect) =
    filter (\<lambda>x. x \<notin> set claimed) (map fst hm)"
  using assms
proof (induction hm)
  case (Cons x hm)
  obtain pid h where x: "x = (pid, h)" by (rule prod.exhaust)
  have "placed_pids [ob] = []"
    if "unavailableScreenState loader ss h p at reason = Some ob" for ob p reason
    using that
    by (intro placed_pids_none)
      (auto simp: unavailableScreenState_def Let_def placed_pid_def bare_observation_def split: if_splits)
  then have "placed_pids (unlocated_process loader ss pm claimed at inspect x) =
      (if pid \<in> set claimed then [] else [pid])"
    using Cons.prems by (auto simp: unlocated_process_def x Let_def split: option.split)
  then show ?case using Cons by (simp add: observationsForUnlocatedProcesses_def x)
qed (simp add: observationsForUnlocatedProcesses_def)

lemma processSightings_pids:
  "sighted_pids (fst (processSightings ci cm at)) =
     filter (\<lambda>x. map_of (ci_harnessByPID ci) x \<noteq> None) (map pr_PID (ci_processes ci))"
proof -
  have "sighted_pids (fst (foldl (sighting_turn cm hm at) st ps)) =
      sighted_pids (fst st) @ filter (\<lambda>x. map_of hm x \<noteq> None) (map pr_PID ps)" for hm st ps
    by (induction ps arbitrary: st)
      (auto simp: sighting_turn_def sighted_pids_def map_filter_append List.map_filter_simps sighted_pid_def
        split: option.splits)
  then show ?thesis by (simp add: processSightings_def)
qed

lemma inventory_pids:
  assumes "inventory_ok ci"
  shows "distinct (sighted_pids (fst (processSightings ci cm at)))"
    "set (sighted_pids (fst (processSightings ci cm at))) = fst ` set (ci_harnessByPID ci)"
proof -
  show "distinct (sighted_pids (fst (processSightings ci cm at)))"
    using assms by (simp add: processSightings_pids inventory_ok_def)
  have agent: "x \<in> pr_PID ` set (ci_processes ci)" if x: "map_of (ci_harnessByPID ci) x = Some h" for x h
    using assms x unfolding inventory_ok_def by (metis imageI)
  have "map_of (ci_harnessByPID ci) x \<noteq> None \<longleftrightarrow> x \<in> fst ` set (ci_harnessByPID ci)" for x
    by (metis map_of_eq_None_iff)
  then show "set (sighted_pids (fst (processSightings ci cm at))) = fst ` set (ci_harnessByPID ci)"
    using agent by (auto simp: processSightings_pids)
qed

subsection \<open>The batch\<close>

lemma sighting_places_none: "placed_pid (sighting_of cm at h p) = None"
  by (simp add: placed_pid_def sighting_of_def)

lemma about_places_none:
  "ob \<in> set (fst (processSightings ci cm at)) \<Longrightarrow> placed_pid ob = None"
  "ob \<in> set (catalogObservations es pm at) \<Longrightarrow> placed_pid ob = None"
  "ob \<in> set (fst (retireMissingProcesses g m current at)) \<Longrightarrow> placed_pid ob = None"
  "ob \<in> set (fst (reconcileUnobservedSessions wh m ss pm at)) \<Longrightarrow> placed_pid ob = None"
proof -
  show "ob \<in> set (fst (processSightings ci cm at)) \<Longrightarrow> placed_pid ob = None"
    using processSightings_obs sighting_places_none by metis
  show "ob \<in> set (catalogObservations es pm at) \<Longrightarrow> placed_pid ob = None"
    by (auto simp: catalogObservations_def entry_observations_def placed_pid_def Let_def
        PrepareObservation_report split: if_splits option.splits)
  show "ob \<in> set (fst (retireMissingProcesses g m current at)) \<Longrightarrow> placed_pid ob = None"
    by (auto simp: retireMissingProcesses_def foldl_retire_obs gone_observation_def placed_pid_def
        bare_observation_def)
  assume "ob \<in> set (fst (reconcileUnobservedSessions wh m ss pm at))"
  then obtain s where "fst (reconcile_session wh m pm at s) = Some ob"
    by (auto simp: reconcileUnobservedSessions_def List.map_filter_def)
  then show "placed_pid ob = None"
    using unobservedSessionAbsence_form [of s pm at ob]
    by (auto simp: reconcile_session_def placed_pid_def Let_def bare_observation_def
        split: if_splits option.splits)
qed

lemma no_sighting:
  "ob \<in> set (fst (retireMissingProcesses g m current at)) \<Longrightarrow> sighted_pid ob = None"
  "ob \<in> set (fst (reconcileUnobservedSessions wh m ss pm at)) \<Longrightarrow> sighted_pid ob = None"
proof -
  show "ob \<in> set (fst (retireMissingProcesses g m current at)) \<Longrightarrow> sighted_pid ob = None"
    by (auto simp: retireMissingProcesses_def foldl_retire_obs gone_observation_def sighted_pid_def
        bare_observation_def)
  assume ob: "ob \<in> set (fst (reconcileUnobservedSessions wh m ss pm at))"
  show "sighted_pid ob = None"
  proof (rule ccontr)
    assume "sighted_pid ob \<noteq> None"
    then obtain si where si: "ob_Evidence ob = EvSighting si" "si_Present si"
      by (auto simp: sighted_pid_def split: evidence.splits if_splits)
    define k where "k = \<lparr>pk_harness = ob_Harness ob, pk_pid = p_PID (si_Process si),
      pk_start = p_StartIdentity (si_Process si)\<rparr>"
    have "about k True ob" by (simp add: about_def si k_def)
    then show False using reconciled_says(1) [OF ob] by blast
  qed
qed

lemma collected_places:
  fixes w at ps ss r o' and ci :: cycle_inventory and cm
  assumes "fair_world w" "distinct (map pr_PID ps)"
    and "takeInventory o' ps (fst (cw_catalog w)) ss at = (ci, es, cm, pending)"
  defines "obs \<equiv> cf_observations (collectObservations w at ps ss r o')"
  shows "distinct (placed_pids obs)" "distinct (sighted_pids obs)"
    and "set (placed_pids obs) \<subseteq> set (sighted_pids obs)"
    and "\<not> snd (cw_panes w) \<Longrightarrow> set (placed_pids obs) = set (sighted_pids obs)"
proof -
  have ok: "inventory_ok ci" using takeInventory_ok [OF assms(2,3)] by simp
  define hm where "hm = cw_harnessOrder w (ci_harnessByPID ci)"
  have order: "mset hm = mset (ci_harnessByPID ci)" using assms(1) by (simp add: hm_def fair_world_def)
  have keys: "distinct (map fst hm)" "fst ` set hm = fst ` set (ci_harnessByPID ci)"
    using map_of_mset(2) [OF _ order] ok mset_eq_setD [OF order] by (auto simp: inventory_ok_def)
  have pid: "\<forall>x\<in>set hm. pr_PID (deref_or zero_proc (map_of (ci_processByPID ci) (fst x))) = fst x"
  proof
    fix x assume "x \<in> set hm"
    then have "map_of (ci_harnessByPID ci) (fst x) = Some (snd x)"
      using ok mset_eq_setD [OF order] by (simp add: inventory_ok_def)
    then obtain p where "p \<in> set (ci_processes ci)" "pr_PID p = fst x"
      using ok unfolding inventory_ok_def by blast
    then have "map_of (ci_processByPID ci) (fst x) = Some p" using inventory_lookup [OF ok] by blast
    then show "pr_PID (deref_or zero_proc (map_of (ci_processByPID ci) (fst x))) = fst x"
      using \<open>pr_PID p = fst x\<close> by (simp add: deref_or_def)
  qed
  define st where "st = paneObservations w ci (sortPanesByPriority (fst (cw_panes w))) at o'"
  have claims: "claims_ok ci st" unfolding st_def by (rule paneObservations_claims [OF ok])
  then have st: "distinct (placed_pids (ps_observations st))"
    "set (placed_pids (ps_observations st)) = set (ps_claimed st)"
    unfolding claims_ok_def by (metis distinct_count_atmost_1 set_mset_mset, metis mset_eq_setD)
  have agents: "set (ps_claimed st) \<subseteq> fst ` set (ci_harnessByPID ci)"
    using paneObservations_agents [OF ok] st(2) unfolding st_def by blast
  define unl where "unl = (if snd (cw_panes w) then []
        else observationsForUnlocatedProcesses (loader_Supports w) ss (ci_processByPID ci) hm
               (ps_claimed st) at (\<not> os_disableScreen o'))"
  have unl: "placed_pids unl = (if snd (cw_panes w) then [] else filter (\<lambda>x. x \<notin> set (ps_claimed st)) (map fst hm))"
    by (simp add: unl_def unlocated_pids [OF pid])
  note parts = collectObservations_parts(1) [OF assms(3), where r = r, folded obs_def hm_def, folded st_def, folded unl_def]
  have placed: "placed_pids obs = placed_pids (ps_observations st) @ placed_pids unl"
    by (simp add: parts placed_pids_none [OF about_places_none(1)] placed_pids_none [OF about_places_none(2)]
        placed_pids_none [OF about_places_none(3)] placed_pids_none [OF about_places_none(4)])
  have quiet: "sighted_pids (ps_observations st) = []" "sighted_pids unl = []"
    "sighted_pids (catalogObservations es (ci_processByPID ci) at) = []"
  proof -
    have "silent ob" if "ob \<in> set (ps_observations st)" for ob
      using paneObservations_form [OF ok, where good = False and o' = o' and w = w and at = at] that
        silent_forms unfolding pane_form_def st_def by blast
    then show "sighted_pids (ps_observations st) = []" by (intro sighted_pids_none silent_sighted)
    have "silent ob" if "ob \<in> set unl" for ob
    proof -
      have "ob \<in> set (observationsForUnlocatedProcesses (loader_Supports w) ss (ci_processByPID ci) hm
          (ps_claimed st) at (\<not> os_disableScreen o'))"
        using that by (simp add: unl_def split: if_splits)
      from observationsForUnlocatedProcesses_form [OF ok order this] show ?thesis
        using silent_forms by blast
    qed
    then show "sighted_pids unl = []" by (intro sighted_pids_none silent_sighted)
    show "sighted_pids (catalogObservations es (ci_processByPID ci) at) = []"
      by (intro sighted_pids_none silent_sighted entry_observations_silent)
  qed
  have sighted: "sighted_pids obs = sighted_pids (fst (processSightings ci cm at))"
    by (simp add: parts quiet sighted_pids_none [OF no_sighting(1)] sighted_pids_none [OF no_sighting(2)])
  show "distinct (placed_pids obs)"
    using st keys(1) by (auto simp: placed unl)
  show "distinct (sighted_pids obs)" "set (placed_pids obs) \<subseteq> set (sighted_pids obs)"
    using inventory_pids [OF ok, of cm at] agents keys(2) st(2) by (auto simp: sighted placed unl)
  show "set (placed_pids obs) = set (sighted_pids obs)" if "\<not> snd (cw_panes w)"
    using inventory_pids [OF ok, of cm at] agents keys(2) st(2) that by (auto simp: sighted placed unl)
qed

end
