(* ===== verification/Aht_Validation.thy ===== *)
theory Aht_Validation
  imports Aht_Reducer
begin

section \<open>Validation of stored sessions: \<open>state_validation.go\<close>\<close>

text \<open>
  A store validates every snapshot before it replaces the current one: the reason a session is
  corrupt, or the empty string. \<open>session_wf\<close> is the invariant the reducer keeps of every session:
  it implies everything the validation asks for except that a gone session has no detail, which
  the code does not keep (see \<open>retirement_leaves_detail\<close> in the root theory).
\<close>

subsection \<open>Slots\<close>

definition validStoredProcessObservation :: "process_observation \<Rightarrow> bool" where
  "validStoredProcessObservation p =
     (po_ObservedAt p \<noteq> 0 \<and> validStoredProcess (po_Process p) (\<not> po_Present p))"

definition validStoredMultiplexerObservation :: "multiplexer_observation \<Rightarrow> bool" where
  "validStoredMultiplexerObservation m =
     (mo_ObservedAt m \<noteq> 0 \<and> validStoredProcess (mo_Process m) False \<and>
      l_PanePID (mo_Location m) \<ge> 0 \<and>
      (location_empty (mo_Location m) \<or> kind_valid (l_Kind (mo_Location m))))"

definition validStoredCatalogObservation :: "catalog_observation \<Rightarrow> bool" where
  "validStoredCatalogObservation c = (co_ObservedAt c \<noteq> 0 \<and> co_ProcessPID c \<ge> 0)"

definition validStoredNativeObservation :: "native_observation \<Rightarrow> bool" where
  "validStoredNativeObservation n =
     (n_ObservedAt n \<noteq> 0 \<and> validDetailEvidence (n_Detail n) (n_Activity n) \<and>
      (case n_Detail n of None \<Rightarrow> True | Some d \<Rightarrow> \<not> de_ObservedAt d > n_ObservedAt n) \<and>
      validStoredProcess (n_Process n) True \<and> validStoredLifecycle (n_Lifecycle n) \<and>
      validStoredOptionalPresence (n_Presence n) \<and> validStoredOptionalActivity (n_Activity n))"

definition validStoredScreenObservation :: "screen_observation \<Rightarrow> bool" where
  "validStoredScreenObservation r =
     (sc_ObservedAt r \<noteq> 0 \<and>
      (sc_Detail r = no_detail \<or> detail_valid_for (sc_Detail r) (sc_Activity r)) \<and>
      validStoredProcess (sc_Process r) False \<and> activity_valid (sc_Activity r) \<and>
      sc_ManifestVersion r \<ge> 0)"

definition validStoredActivityDecision :: "activity_decision \<Rightarrow> bool" where
  "validStoredActivityDecision d =
     (d_ObservedAt d \<noteq> 0 \<and> validStoredProcess (d_Process d) True \<and> d_ManifestVersion d \<ge> 0)"

definition storedObservationCorruption :: "observations \<Rightarrow> string" where
  "storedObservationCorruption obs =
     (if \<not> pred_option validStoredNativeObservation (o_Native obs)
      then ''invalid native observation''
      else if \<not> pred_option validStoredProcessObservation (o_Process obs)
      then ''invalid process observation''
      else if \<not> pred_option validStoredMultiplexerObservation (o_Location obs)
      then ''invalid multiplexer observation''
      else if \<not> pred_option validStoredCatalogObservation (o_Catalog obs)
      then ''invalid catalog observation''
      else if \<not> pred_option validStoredScreenObservation (o_Screen obs)
      then ''invalid screen observation''
      else '''')"

subsection \<open>Sessions\<close>

definition storedSessionIdentityCorruption :: "string \<Rightarrow> session \<Rightarrow> string" where
  "storedSessionIdentityCorruption k s =
     (if k = '''' \<or> s_ID s \<noteq> k then ''map key and session id differ''
      else if s_SchemaVersion s \<noteq> storeSchemaVersion then ''invalid session schema version''
      else if s_Harness s = '''' then ''invalid harness''
      else if s_CreatedAt s = 0 \<or> s_UpdatedAt s = 0 \<or> s_UpdatedAt s < s_CreatedAt s
      then ''invalid session timestamps''
      else '''')"

definition incarnationProcessMatches :: "incarnation \<Rightarrow> process_identity option \<Rightarrow> bool" where
  "incarnationProcessMatches cur p =
     (if process_complete (i_Process cur) \<noteq> (case p of None \<Rightarrow> False | Some q \<Rightarrow> process_complete q)
      then False
      else \<not> process_complete (i_Process cur) \<or> pred_option (process_equal (i_Process cur)) p)"

definition expected_presence :: "incarnation_state \<Rightarrow> presence option" where
  "expected_presence st =
     (case st of
        IncarnationStarting \<Rightarrow> Some PresenceUnknown
      | IncarnationLive \<Rightarrow> Some PresenceLive
      | IncarnationEnded \<Rightarrow> Some PresenceGone
      | IncarnationExited \<Rightarrow> Some PresenceGone
      | IncarnationOther _ \<Rightarrow> None)"

definition storedIncarnationCorruption :: "session \<Rightarrow> string" where
  "storedIncarnationCorruption s =
     (let cur = s_Incarnation s in
      if (case o_Native (s_Observations s) of None \<Rightarrow> False | Some n \<Rightarrow> nativeEnded n) \<and>
         s_Presence s \<noteq> PresenceGone
      then ''native end is not terminal''
      else case expected_presence (i_State cur) of
        None \<Rightarrow> ''invalid incarnation state''
      | Some p \<Rightarrow>
          if s_Presence s \<noteq> p then ''incarnation liveness mismatch''
          else if \<not> incarnationProcessMatches cur (s_Process s)
          then ''incarnation process mismatch''
          else if \<not> pred_option process_complete (i_Previous cur)
          then ''invalid previous process identity''
          else '''')"

definition storedSessionContextCorruption :: "session \<Rightarrow> string" where
  "storedSessionContextCorruption s =
     (if \<not> pred_option (\<lambda>p. validStoredProcess p False) (s_Process s)
      then ''invalid process identity''
      else if l_PanePID (s_Location s) < 0 then ''invalid multiplexer pane pid''
      else if \<not> location_empty (s_Location s) \<and> \<not> kind_valid (l_Kind (s_Location s))
      then ''invalid multiplexer kind''
      else if \<not> pred_option validStoredActivityDecision (s_Decision s)
      then ''invalid activity decision''
      else '''')"

definition storedSessionStateCorruption :: "session \<Rightarrow> string" where
  "storedSessionStateCorruption s =
     (if storedIncarnationCorruption s \<noteq> '''' then storedIncarnationCorruption s
      else if s_Liveness s = NoLiveness then ''missing liveness''
      else if \<not> pred_option activity_valid (s_Activity s) then ''invalid activity''
      else storedSessionContextCorruption s)"

definition storedSessionCorruption :: "string \<Rightarrow> session \<Rightarrow> string" where
  "storedSessionCorruption k s =
     (if storedSessionIdentityCorruption k s \<noteq> '''' then storedSessionIdentityCorruption k s
      else if storedSessionStateCorruption s \<noteq> '''' then storedSessionStateCorruption s
      else if \<not> validStateDetail (s_Detail s) (s_Activity s) then ''invalid activity detail''
      else storedObservationCorruption (s_Observations s))"

definition validateSnapshot :: "snapshot \<Rightarrow> reg_error option" where
  "validateSnapshot sn =
     (case find (\<lambda>x. storedSessionCorruption (fst x) (snd x) \<noteq> '''') (sn_Sessions sn) of
        None \<Rightarrow> None
      | Some x \<Rightarrow> Some (ErrCorruptStore (storedSessionCorruption (fst x) (snd x))))"

lemma validateSnapshot_None:
  "validateSnapshot sn = None \<longleftrightarrow>
   (\<forall>x \<in> set (sn_Sessions sn). storedSessionCorruption (fst x) (snd x) = [])"
  by (auto simp: validateSnapshot_def find_None_iff dest!: find_SomeD split: option.split)

end
