(* ===== verification/Aht_Invariant.thy ===== *)
theory Aht_Invariant
  imports Aht_Validation
begin

section \<open>The invariant of a session\<close>

text \<open>
  The invariant is split by what an operation touches: identity and times, liveness, the
  incarnation and its process, the location, the evidence slots, the detail. Each operation of
  the reducer gets one lemma per part.
\<close>

subsection \<open>Incarnations\<close>

definition incarnation_wf :: "incarnation \<Rightarrow> bool" where
  "incarnation_wf n \<longleftrightarrow>
     validStoredProcess (i_Process n) True \<and> pred_option process_complete (i_Previous n) \<and>
     (i_Previous n \<noteq> None \<longrightarrow> process_complete (i_Process n))"

definition state_known :: "incarnation_state \<Rightarrow> bool" where
  "state_known st \<longleftrightarrow> expected_presence st \<noteq> None \<or> st = no_incarnation"

definition state_agrees :: "incarnation_state \<Rightarrow> presence \<Rightarrow> bool" where
  "state_agrees st p \<longleftrightarrow> p = deref_or PresenceUnknown (expected_presence st) \<and> state_known st"

definition process_known :: "observation \<Rightarrow> bool" where
  "process_known ob \<longleftrightarrow> (\<forall>p. ob_Process ob = Some p \<longrightarrow> validStoredProcess p False)"

lemma observation_ok_process_known: "observation_ok ob \<Longrightarrow> process_known ob"
  by (simp add: observation_ok_def process_known_def)

lemma process_known_complete: "process_known ob \<Longrightarrow> ob_Process ob = Some p \<Longrightarrow> process_complete p"
  by (auto simp: process_known_def dest: validStoredProcess_complete)

lemma expected_presence_cases:
  "expected_presence st = Some p \<longleftrightarrow>
     p = PresenceUnknown \<and> st = IncarnationStarting \<or> p = PresenceLive \<and> st = IncarnationLive
     \<or> p = PresenceGone \<and> terminal_state st"
  by (auto simp: expected_presence_def terminal_state_def split: incarnation_state.split)

lemma expected_presence_simps [simp]:
  "expected_presence IncarnationStarting = Some PresenceUnknown"
  "expected_presence IncarnationLive = Some PresenceLive"
  "expected_presence IncarnationEnded = Some PresenceGone"
  "expected_presence IncarnationExited = Some PresenceGone"
  "expected_presence (IncarnationOther x) = None"
  by (simp_all add: expected_presence_def)

lemma terminal_state_simps [simp]:
  "terminal_state IncarnationEnded" "terminal_state IncarnationExited"
  "\<not> terminal_state IncarnationStarting" "\<not> terminal_state IncarnationLive"
  "\<not> terminal_state (IncarnationOther x)"
  by (simp_all add: terminal_state_def)

lemma state_agrees_gone: "state_agrees st p \<Longrightarrow> p = PresenceGone \<longleftrightarrow> terminal_state st"
  by (cases st) (auto simp: state_agrees_def state_known_def)

lemma evidence_process_is_observed:
  assumes "process_known ob" "ob_Process ob = Some p"
  shows "i_Process (take_process (normalizeIncarnationInput s ob at ret) n) = p"
  using process_known_complete [OF assms] assms(2) by (simp add: take_process_def)

lemma evidence_process_kept:
  "ob_Process ob = None \<Longrightarrow>
   i_Process (take_process (normalizeIncarnationInput s ob at ret) n) = i_Process n"
  by (simp add: take_process_def)

lemma verification_has_no_process: "verifies (normalizeIncarnationInput s ob at ret) \<Longrightarrow> ob_Process ob = None"
  by (auto simp: verifies_def ev_verification_def ob_Process_def split: evidence.splits)

lemma replace_process:
  assumes "in_different (normalizeIncarnationInput s ob at ret)"
  obtains p where "ob_Process ob = Some p" "process_complete p"
    "process_complete (i_Process (s_Incarnation s))"
  using assms by (auto simp: normalizeIncarnationInput_def split: option.splits)

lemma bind_process:
  assumes "bindsTerminalProcess (normalizeIncarnationInput s ob at ret)"
  obtains p where "ob_Process ob = Some p" "process_complete p"
  using assms by (auto simp: bindsTerminalProcess_def has_complete_process_def split: option.splits)

lemma transition_for_bases:
  "transition_for i IncarnationReplace =
     applyEvidence i ((transition_base i)\<lparr>t_reset := True,
       t_next := fresh_incarnation IncarnationStarting (deref_or zero_process (in_process i))
                   (Some (i_Process (in_current i)))\<rparr>)"
  "transition_for i IncarnationBind =
     applyEvidence i ((transition_base i)\<lparr>t_reset := True,
       t_next := fresh_incarnation IncarnationLive (deref_or zero_process (in_process i)) None\<rparr>)"
  "transition_for i IncarnationResume =
     applyEvidence i ((transition_base i)\<lparr>t_reset := True,
       t_next := fresh_incarnation IncarnationStarting (i_Process (in_current i))
                   (i_Previous (in_current i))\<rparr>)"
  "transition_for i IncarnationContinue =
     applyEvidence i (if i_State (in_current i) = no_incarnation
       then (transition_base i)\<lparr>t_next := (in_current i)\<lparr>i_State := IncarnationStarting\<rparr>\<rparr>
       else transition_base i)"
  by (simp_all add: transition_for_def Let_def)

lemma fresh_incarnation_reads [simp]:
  "i_State (fresh_incarnation st p q) = st" "i_Process (fresh_incarnation st p q) = p"
  "i_EvidenceAt (fresh_incarnation st p q) = 0" "i_TransitionAt (fresh_incarnation st p q) = 0"
  "i_Previous (fresh_incarnation st p q) = q"
  by (simp_all add: fresh_incarnation_def)

lemma transition_base_reads [simp]:
  "t_next (transition_base i) = in_current i" "\<not> t_reset (transition_base i)"
  "\<not> t_terminal (transition_base i)" "t_accepted (transition_base i)"
  "\<not> t_ignored (transition_base i)"
  by (simp_all add: transition_base_def)

lemma verify_transition_reads [simp]:
  "t_accepted (verify_transition i)" "\<not> t_reset (verify_transition i)"
  "t_terminal (verify_transition i) = terminal_state (i_State (t_next (verify_transition i)))"
  "i_State (t_next (verify_transition i)) \<in> {IncarnationExited, IncarnationStarting}"
  "i_Process (t_next (verify_transition i)) = i_Process (in_current i)"
  "i_Previous (t_next (verify_transition i)) = i_Previous (in_current i)"
  "i_EvidenceAt (t_next (verify_transition i)) = i_EvidenceAt (in_current i)"
  by (simp_all add: verify_transition_def Let_def)

lemma retire_transition_reads [simp]:
  "t_accepted (retire_transition i)" "\<not> t_reset (retire_transition i)"
  "t_terminal (retire_transition i)"
  "i_State (t_next (retire_transition i)) = IncarnationExited"
  "i_Process (t_next (retire_transition i)) = i_Process (in_current i)"
  "i_Previous (t_next (retire_transition i)) = i_Previous (in_current i)"
  "i_EvidenceAt (t_next (retire_transition i)) = i_EvidenceAt (in_current i)"
  by (simp_all add: retire_transition_def)

subsection \<open>The next incarnation is well formed\<close>

lemma next_process:
  assumes "t_accepted (transitionIncarnation s ob at False)" "process_known ob"
    and "ob_Process ob = Some p"
  shows "i_Process (t_next (transitionIncarnation s ob at False)) = p"
  using assms(1)
proof (cases rule: accepted_cases)
  case verify
  then show ?thesis using verification_has_no_process assms(3) by fastforce
qed (simp_all add: transition_for_bases applyEvidence_process
    evidence_process_is_observed [OF assms(2,3)])

lemma next_process_kept:
  assumes "t_accepted (transitionIncarnation s ob at ret)" "ob_Process ob = None \<or> ret"
  shows "i_Process (t_next (transitionIncarnation s ob at ret)) = i_Process (s_Incarnation s)"
  using assms(1)
proof (cases rule: accepted_cases)
  case replace
  then show ?thesis using assms(2) replace_process by (metis option.distinct(1))
next
  case bind
  then show ?thesis using assms(2) bind_process by (metis option.distinct(1))
qed (use assms(2) in \<open>auto simp: transition_for_bases applyEvidence_process evidence_process_kept\<close>)

lemma next_previous:
  assumes "t_accepted (transitionIncarnation s ob at ret)"
  shows "i_Previous (t_next (transitionIncarnation s ob at ret)) \<in>
     {i_Previous (s_Incarnation s), None, Some (i_Process (s_Incarnation s))}"
  using assms by (cases rule: accepted_cases) (auto simp: transition_for_bases)

lemma next_incarnation_wf:
  assumes acc: "t_accepted (transitionIncarnation s ob at ret)" and known: "process_known ob"
    and wf: "incarnation_wf (s_Incarnation s)"
  shows "incarnation_wf (t_next (transitionIncarnation s ob at ret))"
proof -
  let ?n = "t_next (transitionIncarnation s ob at ret)"
  have process: "validStoredProcess (i_Process ?n) True \<and>
      (process_complete (i_Process (s_Incarnation s)) \<longrightarrow> process_complete (i_Process ?n))"
  proof (cases "ob_Process ob = None \<or> ret")
    case True
    then show ?thesis using next_process_kept [OF acc True] wf by (simp add: incarnation_wf_def)
  next
    case False
    then obtain p where p: "ob_Process ob = Some p" and ret: "ret = False" by auto
    have "validStoredProcess p False" using known p by (simp add: process_known_def)
    then show ?thesis
      using next_process [OF acc [unfolded ret] known p] ret
      by (auto simp: validStoredProcess_complete intro: validStoredProcess_weaken)
  qed
  moreover have "pred_option process_complete (i_Previous ?n) \<and>
      (i_Previous ?n \<noteq> None \<longrightarrow> process_complete (i_Process (s_Incarnation s)))"
    using acc
  proof (cases rule: accepted_cases)
    case replace
    then show ?thesis by (auto simp: transition_for_bases elim: replace_process)
  qed (use wf in \<open>auto simp: transition_for_bases incarnation_wf_def\<close>)
  ultimately show ?thesis by (simp add: incarnation_wf_def)
qed

lemma next_state:
  assumes acc: "t_accepted (transitionIncarnation s ob at ret)"
    and st: "state_known (i_State (s_Incarnation s))"
  shows "expected_presence (i_State (t_next (transitionIncarnation s ob at ret))) \<noteq> None \<and>
     t_terminal (transitionIncarnation s ob at ret) =
       terminal_state (i_State (t_next (transitionIncarnation s ob at ret)))"
proof -
  have evid: "expected_presence (i_State (t_next (applyEvidence i b))) \<noteq> None \<and>
      t_terminal (applyEvidence i b) = terminal_state (i_State (t_next (applyEvidence i b)))"
    if "in_end i \<or> in_absent i \<or> i_State (t_next b) \<in> {IncarnationStarting, IncarnationLive}"
      and "\<not> t_terminal b" for i b
  proof (cases "in_end i \<or> in_absent i")
    case True
    then have "terminal_state (i_State (t_next (applyEvidence i b)))"
      by (rule applyEvidence_terminal_state)
    then show ?thesis using True expected_presence_cases by auto
  next
    case False
    then show ?thesis using applyEvidence_open_state [of i b] that by auto
  qed
  show ?thesis
    using acc
  proof (cases rule: accepted_cases)
    case verify
    then show ?thesis
      using verify_transition_reads(4) [of "normalizeIncarnationInput s ob at ret"] by auto
  next
    case retire
    then show ?thesis by simp
  next
    case continue
    let ?i = "normalizeIncarnationInput s ob at ret"
    have "terminal_state (i_State (s_Incarnation s)) \<Longrightarrow> in_end ?i \<or> in_absent ?i"
      using continue by (auto simp: terminalRejected_def)
    then show ?thesis
      unfolding continue(6) transition_for_bases using st
      by (intro evid) (auto simp: state_known_def expected_presence_cases)
  qed (simp_all only: transition_for_bases, (rule evid; simp)+)
qed

text \<open>Without a reset, only a session that is not over stays open.\<close>

lemma next_open:
  assumes "t_accepted (transitionIncarnation s ob at ret)"
    and "\<not> t_reset (transitionIncarnation s ob at ret)"
    and "\<not> t_terminal (transitionIncarnation s ob at ret)"
  shows "\<not> terminal_state (i_State (s_Incarnation s))"
  using assms(1)
proof (cases rule: accepted_cases)
  case verify
  then show ?thesis by (simp add: verificationRejected_def)
next
  case continue
  then show ?thesis using assms(3) by (auto simp: transition_for_bases terminalRejected_def)
qed (use assms in \<open>auto simp: transition_for_bases\<close>)

lemma next_end:
  assumes "t_accepted (transitionIncarnation s ob at False)"
    and "ob_Evidence ob = EvReport r" "reportEnds r"
  shows "t_terminal (transitionIncarnation s ob at False)"
proof -
  have "in_end (normalizeIncarnationInput s ob at False)"
    using assms(2,3) by (simp add: normalizeIncarnationInput_def ev_report_def)
  moreover have "\<not> verifies (normalizeIncarnationInput s ob at False)"
    using assms(2) by (simp add: verifies_def ev_verification_def)
  ultimately show ?thesis
    by (cases rule: accepted_cases [OF assms(1)]) (simp_all add: transition_for_bases)
qed

lemma next_retired:
  assumes "t_accepted (transitionIncarnation s ob at True)" "ob_Process ob \<noteq> None"
  shows "transitionIncarnation s ob at True = retire_transition (normalizeIncarnationInput s ob at True)"
  using assms(1)
proof (cases rule: accepted_cases)
  case verify
  then show ?thesis using verification_has_no_process [OF verify(1)] assms(2) by simp
qed simp_all

subsection \<open>Sessions\<close>

text \<open>Presence, activity and decision depend on the liveness alone.\<close>

lemma s_Presence_updates [simp]:
  "s_Presence (s\<lparr>s_Detail := x0\<rparr>) = s_Presence s"
  "s_Presence (s\<lparr>s_Incarnation := x1\<rparr>) = s_Presence s"
  "s_Presence (s\<lparr>s_IdentityState := x2\<rparr>) = s_Presence s"
  "s_Presence (s\<lparr>s_SchemaVersion := x3\<rparr>) = s_Presence s"
  "s_Presence (s\<lparr>s_SessionID := x4\<rparr>) = s_Presence s"
  "s_Presence (s\<lparr>s_SessionPath := x5\<rparr>) = s_Presence s"
  "s_Presence (s\<lparr>s_ResumeCommand := x6\<rparr>) = s_Presence s"
  "s_Presence (s\<lparr>s_CWD := x7\<rparr>) = s_Presence s"
  "s_Presence (s\<lparr>s_ProjectRoot := x8\<rparr>) = s_Presence s"
  "s_Presence (s\<lparr>s_Process := x9\<rparr>) = s_Presence s"
  "s_Presence (s\<lparr>s_Location := x10\<rparr>) = s_Presence s"
  "s_Presence (s\<lparr>s_Observations := x11\<rparr>) = s_Presence s"
  "s_Presence (s\<lparr>s_CreatedAt := x12\<rparr>) = s_Presence s"
  "s_Presence (s\<lparr>s_UpdatedAt := x13\<rparr>) = s_Presence s"
  "s_Presence (s\<lparr>s_PresenceChangedAt := x14\<rparr>) = s_Presence s"
  "s_Presence (s\<lparr>s_ActivityChangedAt := x15\<rparr>) = s_Presence s"
  by (simp_all add: s_Presence_def)

lemma s_Activity_updates [simp]:
  "s_Activity (s\<lparr>s_Detail := x0\<rparr>) = s_Activity s"
  "s_Activity (s\<lparr>s_Incarnation := x1\<rparr>) = s_Activity s"
  "s_Activity (s\<lparr>s_IdentityState := x2\<rparr>) = s_Activity s"
  "s_Activity (s\<lparr>s_SchemaVersion := x3\<rparr>) = s_Activity s"
  "s_Activity (s\<lparr>s_SessionID := x4\<rparr>) = s_Activity s"
  "s_Activity (s\<lparr>s_SessionPath := x5\<rparr>) = s_Activity s"
  "s_Activity (s\<lparr>s_ResumeCommand := x6\<rparr>) = s_Activity s"
  "s_Activity (s\<lparr>s_CWD := x7\<rparr>) = s_Activity s"
  "s_Activity (s\<lparr>s_ProjectRoot := x8\<rparr>) = s_Activity s"
  "s_Activity (s\<lparr>s_Process := x9\<rparr>) = s_Activity s"
  "s_Activity (s\<lparr>s_Location := x10\<rparr>) = s_Activity s"
  "s_Activity (s\<lparr>s_Observations := x11\<rparr>) = s_Activity s"
  "s_Activity (s\<lparr>s_CreatedAt := x12\<rparr>) = s_Activity s"
  "s_Activity (s\<lparr>s_UpdatedAt := x13\<rparr>) = s_Activity s"
  "s_Activity (s\<lparr>s_PresenceChangedAt := x14\<rparr>) = s_Activity s"
  "s_Activity (s\<lparr>s_ActivityChangedAt := x15\<rparr>) = s_Activity s"
  by (simp_all add: s_Activity_def)

lemma s_Decision_updates [simp]:
  "s_Decision (s\<lparr>s_Detail := x0\<rparr>) = s_Decision s"
  "s_Decision (s\<lparr>s_Incarnation := x1\<rparr>) = s_Decision s"
  "s_Decision (s\<lparr>s_IdentityState := x2\<rparr>) = s_Decision s"
  "s_Decision (s\<lparr>s_SchemaVersion := x3\<rparr>) = s_Decision s"
  "s_Decision (s\<lparr>s_SessionID := x4\<rparr>) = s_Decision s"
  "s_Decision (s\<lparr>s_SessionPath := x5\<rparr>) = s_Decision s"
  "s_Decision (s\<lparr>s_ResumeCommand := x6\<rparr>) = s_Decision s"
  "s_Decision (s\<lparr>s_CWD := x7\<rparr>) = s_Decision s"
  "s_Decision (s\<lparr>s_ProjectRoot := x8\<rparr>) = s_Decision s"
  "s_Decision (s\<lparr>s_Process := x9\<rparr>) = s_Decision s"
  "s_Decision (s\<lparr>s_Location := x10\<rparr>) = s_Decision s"
  "s_Decision (s\<lparr>s_Observations := x11\<rparr>) = s_Decision s"
  "s_Decision (s\<lparr>s_CreatedAt := x12\<rparr>) = s_Decision s"
  "s_Decision (s\<lparr>s_UpdatedAt := x13\<rparr>) = s_Decision s"
  "s_Decision (s\<lparr>s_PresenceChangedAt := x14\<rparr>) = s_Decision s"
  "s_Decision (s\<lparr>s_ActivityChangedAt := x15\<rparr>) = s_Decision s"
  by (simp_all add: s_Decision_def)

definition meta_wf :: "session \<Rightarrow> bool" where
  "meta_wf s \<longleftrightarrow>
     s_ID s \<noteq> [] \<and> s_SchemaVersion s = storeSchemaVersion \<and> s_Harness s \<noteq> [] \<and>
     0 < s_CreatedAt s \<and> s_CreatedAt s \<le> s_UpdatedAt s"

definition decision_wf :: "activity_decision \<Rightarrow> bool" where
  "decision_wf d \<longleftrightarrow> validStoredActivityDecision d \<and> validDetailAuthority (d_Authority d)"

definition live_wf :: "session \<Rightarrow> bool" where
  "live_wf s \<longleftrightarrow>
     s_Liveness s \<noteq> NoLiveness \<and> pred_option activity_valid (s_Activity s) \<and>
     pred_option decision_wf (s_Decision s)"

definition process_wf :: "incarnation \<Rightarrow> process_identity option \<Rightarrow> bool" where
  "process_wf n p \<longleftrightarrow>
     incarnationProcessMatches n p \<and> pred_option (\<lambda>q. validStoredProcess q False) p"

definition location_wf :: "location \<Rightarrow> bool" where
  "location_wf l \<longleftrightarrow> 0 \<le> l_PanePID l \<and> (location_empty l \<or> kind_valid (l_Kind l))"

definition native_wf :: "native_observation \<Rightarrow> bool" where
  "native_wf n \<longleftrightarrow> validStoredNativeObservation n \<and> 0 < n_ObservedAt n"

definition slots_wf :: "observations \<Rightarrow> bool" where
  "slots_wf obs \<longleftrightarrow>
     pred_option native_wf (o_Native obs) \<and>
     pred_option validStoredProcessObservation (o_Process obs) \<and>
     pred_option validStoredMultiplexerObservation (o_Location obs) \<and>
     pred_option validStoredCatalogObservation (o_Catalog obs) \<and>
     pred_option validStoredScreenObservation (o_Screen obs)"

definition end_wf :: "session \<Rightarrow> bool" where
  "end_wf s \<longleftrightarrow>
     pred_option (\<lambda>n. nativeEnded n \<longrightarrow> s_Presence s = PresenceGone) (o_Native (s_Observations s))"

definition detail_wf :: "session \<Rightarrow> bool" where
  "detail_wf s \<longleftrightarrow> s_Presence s = PresenceGone \<or> validStateDetail (s_Detail s) (s_Activity s)"

definition session_core :: "session \<Rightarrow> bool" where
  "session_core s \<longleftrightarrow>
     meta_wf s \<and> live_wf s \<and> incarnation_wf (s_Incarnation s) \<and>
     state_agrees (i_State (s_Incarnation s)) (s_Presence s) \<and>
     process_wf (s_Incarnation s) (s_Process s) \<and> location_wf (s_Location s) \<and>
     slots_wf (s_Observations s) \<and> end_wf s \<and> detail_wf s"

definition session_wf :: "session \<Rightarrow> bool" where
  "session_wf s \<longleftrightarrow> session_core s \<and> i_State (s_Incarnation s) \<noteq> no_incarnation"

lemmas session_parts =
  meta_wf_def live_wf_def process_wf_def location_wf_def end_wf_def detail_wf_def

lemma session_wf_core: "session_wf s \<Longrightarrow> session_core s"
  by (simp add: session_wf_def)

lemma session_core_slots: "session_core s \<Longrightarrow> slots_wf (s_Observations s)"
  by (simp add: session_core_def)

lemma native_wf_valid: "pred_option native_wf n \<Longrightarrow> pred_option validStoredNativeObservation n"
  by (cases n) (auto simp: native_wf_def)

lemma decision_wf_valid: "pred_option decision_wf d \<Longrightarrow> pred_option validStoredActivityDecision d"
  by (cases d) (auto simp: decision_wf_def)

lemma slots_wf_accepted: "slots_wf obs \<Longrightarrow> storedObservationCorruption obs = []"
  by (simp add: slots_wf_def storedObservationCorruption_def native_wf_valid)

lemma session_wf_incarnation: "session_wf s \<Longrightarrow> storedIncarnationCorruption s = []"
  by (cases "o_Native (s_Observations s)")
    (auto simp: session_wf_def session_core_def storedIncarnationCorruption_def state_agrees_def
      state_known_def end_wf_def process_wf_def incarnation_wf_def Let_def split: option.split)

lemma session_wf_state: "session_wf s \<Longrightarrow> storedSessionStateCorruption s = []"
  using session_wf_incarnation [of s]
  by (auto simp: session_wf_def session_core_def storedSessionStateCorruption_def
      storedSessionContextCorruption_def live_wf_def process_wf_def location_wf_def decision_wf_valid)

lemma session_wf_identity: "session_wf s \<Longrightarrow> storedSessionIdentityCorruption (s_ID s) s = []"
  by (auto simp: session_wf_def session_core_def meta_wf_def storedSessionIdentityCorruption_def)

text \<open>The validation of a well-formed session can only object to the detail of a gone one.\<close>

lemma session_wf_corruption:
  assumes "session_wf s"
  shows "storedSessionCorruption (s_ID s) s =
     (if s_Presence s = PresenceGone \<and> s_Detail s \<noteq> None then ''invalid activity detail'' else [])"
proof -
  have "validStateDetail (s_Detail s) (s_Activity s) \<longleftrightarrow>
      \<not> (s_Presence s = PresenceGone \<and> s_Detail s \<noteq> None)"
    using assms activity_None_iff_gone [of s]
    by (auto simp: session_wf_def session_core_def detail_wf_def validStateDetail_def
        split: option.splits)
  then show ?thesis
    using assms session_wf_identity session_wf_state slots_wf_accepted session_core_slots
    by (simp add: storedSessionCorruption_def session_wf_core)
qed

end
