(* ===== verification/Aht_Preservation.thy ===== *)
theory Aht_Preservation
  imports Aht_Invariant
begin

section \<open>The operations of the reducer keep the invariant\<close>

subsection \<open>Committing a transition\<close>

lemma note_changes_reads [simp]:
  "s_Presence (note_changes b at s) = s_Presence s"
  "s_Activity (note_changes b at s) = s_Activity s"
  "s_Decision (note_changes b at s) = s_Decision s"
  "s_Liveness (note_changes b at s) = s_Liveness s"
  "s_Detail (note_changes b at s) = s_Detail s"
  "s_Incarnation (note_changes b at s) = s_Incarnation s"
  "s_IdentityState (note_changes b at s) = s_IdentityState s"
  "s_SchemaVersion (note_changes b at s) = s_SchemaVersion s"
  "s_ID (note_changes b at s) = s_ID s"
  "s_Harness (note_changes b at s) = s_Harness s"
  "s_SessionID (note_changes b at s) = s_SessionID s"
  "s_SessionPath (note_changes b at s) = s_SessionPath s"
  "s_Process (note_changes b at s) = s_Process s"
  "s_Location (note_changes b at s) = s_Location s"
  "s_Observations (note_changes b at s) = s_Observations s"
  "s_CreatedAt (note_changes b at s) = s_CreatedAt s"
  "s_UpdatedAt (note_changes b at s) = s_UpdatedAt s"
  by (simp_all add: note_changes_def)

lemma reset_evidence_frame [simp]:
  "s_Detail (reset_evidence n at s) = s_Detail s"
  "s_Incarnation (reset_evidence n at s) = s_Incarnation s"
  "s_IdentityState (reset_evidence n at s) = s_IdentityState s"
  "s_SchemaVersion (reset_evidence n at s) = s_SchemaVersion s"
  "s_ID (reset_evidence n at s) = s_ID s"
  "s_Harness (reset_evidence n at s) = s_Harness s"
  "s_SessionID (reset_evidence n at s) = s_SessionID s"
  "s_SessionPath (reset_evidence n at s) = s_SessionPath s"
  "s_Process (reset_evidence n at s) = s_Process s"
  "s_Location (reset_evidence n at s) = s_Location s"
  "s_CreatedAt (reset_evidence n at s) = s_CreatedAt s"
  "s_UpdatedAt (reset_evidence n at s) = s_UpdatedAt s"
  by (simp_all add: reset_evidence_def Let_def)

lemma reset_evidence_observations [simp]:
  "s_Observations (reset_evidence n at s) =
     (s_Observations s)\<lparr>o_Native := None, o_Screen := None, o_Process := None, o_Location := None\<rparr>"
  by (simp add: reset_evidence_def Let_def)

lemma take_incarnation_frame [simp]:
  "s_Detail (take_incarnation n s) = s_Detail s"
  "s_Incarnation (take_incarnation n s) = n"
  "s_IdentityState (take_incarnation n s) = s_IdentityState s"
  "s_Liveness (take_incarnation n s) = s_Liveness s"
  "s_SchemaVersion (take_incarnation n s) = s_SchemaVersion s"
  "s_ID (take_incarnation n s) = s_ID s"
  "s_Harness (take_incarnation n s) = s_Harness s"
  "s_SessionID (take_incarnation n s) = s_SessionID s"
  "s_SessionPath (take_incarnation n s) = s_SessionPath s"
  "s_Location (take_incarnation n s) = s_Location s"
  "s_Observations (take_incarnation n s) = s_Observations s"
  "s_CreatedAt (take_incarnation n s) = s_CreatedAt s"
  "s_UpdatedAt (take_incarnation n s) = s_UpdatedAt s"
  "s_Presence (take_incarnation n s) = s_Presence s"
  "s_Activity (take_incarnation n s) = s_Activity s"
  "s_Decision (take_incarnation n s) = s_Decision s"
  by (simp_all add: take_incarnation_def)

lemma take_incarnation_process [simp]:
  "s_Process (take_incarnation n s) =
     (if process_complete (i_Process n) then Some (i_Process n) else s_Process s)"
  by (simp add: take_incarnation_def)

lemma settle_liveness_frame [simp]:
  "s_Detail (settle_liveness t at s) = s_Detail s"
  "s_Incarnation (settle_liveness t at s) = s_Incarnation s"
  "s_IdentityState (settle_liveness t at s) = s_IdentityState s"
  "s_SchemaVersion (settle_liveness t at s) = s_SchemaVersion s"
  "s_ID (settle_liveness t at s) = s_ID s"
  "s_Harness (settle_liveness t at s) = s_Harness s"
  "s_SessionID (settle_liveness t at s) = s_SessionID s"
  "s_SessionPath (settle_liveness t at s) = s_SessionPath s"
  "s_Process (settle_liveness t at s) = s_Process s"
  "s_Location (settle_liveness t at s) = s_Location s"
  "s_Observations (settle_liveness t at s) = s_Observations s"
  "s_CreatedAt (settle_liveness t at s) = s_CreatedAt s"
  "s_UpdatedAt (settle_liveness t at s) = s_UpdatedAt s"
  by (simp_all add: settle_liveness_def split: incarnation_state.split)

lemma lc_commit_frame [simp]:
  "s_Detail (lc_commit t at s) = s_Detail s"
  "s_IdentityState (lc_commit t at s) = s_IdentityState s"
  "s_SchemaVersion (lc_commit t at s) = s_SchemaVersion s"
  "s_ID (lc_commit t at s) = s_ID s"
  "s_Harness (lc_commit t at s) = s_Harness s"
  "s_SessionID (lc_commit t at s) = s_SessionID s"
  "s_SessionPath (lc_commit t at s) = s_SessionPath s"
  "s_Location (lc_commit t at s) = s_Location s"
  "s_CreatedAt (lc_commit t at s) = s_CreatedAt s"
  "s_UpdatedAt (lc_commit t at s) = s_UpdatedAt s"
  by (simp_all add: lc_commit_def Let_def)

lemma lc_commit_incarnation:
  "t_accepted t \<Longrightarrow> s_Incarnation (lc_commit t at s) = t_next t"
  "t_accepted t \<Longrightarrow> s_Process (lc_commit t at s) =
     (if process_complete (i_Process (t_next t)) then Some (i_Process (t_next t)) else s_Process s)"
  "t_accepted t \<Longrightarrow> s_Observations (lc_commit t at s) =
     (if t_reset t then (s_Observations s)\<lparr>o_Native := None, o_Screen := None, o_Process := None,
                          o_Location := None\<rparr>
      else s_Observations s)"
  by (simp_all add: lc_commit_def Let_def)

lemma lc_commit_rejected [simp]: "\<not> t_accepted t \<Longrightarrow> lc_commit t at s = s"
  by (simp add: lc_commit_def)

lemma settle_liveness_terminal:
  "t_terminal t \<Longrightarrow> s_Presence (settle_liveness t at s) = PresenceGone"
  by (auto simp: settle_liveness_def replacedTombstone_def s_Presence_def split: liveness.splits)

lemma settle_liveness_open:
  "\<not> t_terminal t \<Longrightarrow> expected_presence (i_State (t_next t)) = Some p \<Longrightarrow> \<not> terminal_state (i_State (t_next t)) \<Longrightarrow>
   s_Presence (settle_liveness t at s) = p"
  by (cases "i_State (t_next t)") (auto simp: settle_liveness_def)

lemma settle_liveness_presence:
  assumes "t_terminal t = terminal_state (i_State (t_next t))"
    and "expected_presence (i_State (t_next t)) = Some p"
  shows "s_Presence (settle_liveness t at s) = p"
  using assms settle_liveness_open [of t p at s] settle_liveness_terminal [of t at s]
  by (auto simp: expected_presence_cases)

lemma setPresence_live:
  "live_wf s \<Longrightarrow> live_wf (setPresence p s)"
  by (auto simp: live_wf_def setPresence_def NewLiveness_def s_Activity_def s_Decision_def
      split: liveness.splits presence.splits)

lemma live_wf_Gone: "pred_option decision_wf d \<Longrightarrow> live_wf (s\<lparr>s_Liveness := Gone at why d\<rparr>)"
  by (simp add: live_wf_def s_Activity_def s_Decision_def)

lemma live_wf_Unknown: "pred_option decision_wf d \<Longrightarrow> live_wf (s\<lparr>s_Liveness := Unknown ActivityUnknown d\<rparr>)"
  by (simp add: live_wf_def s_Activity_def s_Decision_def)

lemma process_decision_wf:
  "at \<noteq> 0 \<Longrightarrow> validStoredProcess p True \<Longrightarrow> decision_wf (process_decision why p at)"
  by (simp add: decision_wf_def validStoredActivityDecision_def validDetailAuthority_def
      process_decision_def)

lemma settle_liveness_live:
  assumes "live_wf s" "at \<noteq> 0" "incarnation_wf (t_next t)"
  shows "live_wf (settle_liveness t at s)"
proof -
  have "decision_wf (process_decision ''process_gone'' (i_Process (t_next t)) at)"
    using assms by (simp add: process_decision_wf incarnation_wf_def)
  then show ?thesis
    using assms by (auto simp: settle_liveness_def setPresence_live live_wf_Gone
        split: incarnation_state.splits)
qed

lemma reset_evidence_live:
  assumes "at \<noteq> 0" "incarnation_wf n"
  shows "live_wf (reset_evidence n at s)"
proof -
  have "decision_wf (process_decision ''process_replaced'' (i_Process n) at)"
    using assms by (simp add: process_decision_wf incarnation_wf_def)
  then show ?thesis
    by (auto simp: reset_evidence_def Let_def live_wf_def setDecision_def NewLiveness_def
        s_Presence_def s_Activity_def s_Decision_def)
qed

lemma live_wf_cong: "s_Liveness s = s_Liveness s' \<Longrightarrow> live_wf s = live_wf s'"
  using readers_of_liveness [of s s'] by (simp add: live_wf_def)

lemma lc_commit_live:
  assumes "live_wf s" "at \<noteq> 0" "incarnation_wf (t_next t)"
  shows "live_wf (lc_commit t at s)"
proof (cases "t_accepted t")
  case True
  define s1 where "s1 = (if t_reset t then reset_evidence (t_next t) at s else s)"
  have "live_wf (take_incarnation (t_next t) s1)"
    using assms reset_evidence_live live_wf_cong [of "take_incarnation (t_next t) s1" s1]
    by (simp add: s1_def)
  then have "live_wf (settle_liveness t at (take_incarnation (t_next t) s1))"
    using assms settle_liveness_live by blast
  then show ?thesis
    using True by (simp add: lc_commit_def s1_def [symmetric] Let_def live_wf_def)
qed (use assms in simp)

lemma lc_commit_process:
  assumes acc: "t_accepted (transitionIncarnation s ob at ret)" and known: "process_known ob"
    and wf: "incarnation_wf (s_Incarnation s)" "process_wf (s_Incarnation s) (s_Process s)"
  defines "t \<equiv> transitionIncarnation s ob at ret"
  shows "process_wf (t_next t) (s_Process (lc_commit t at' s))"
proof (cases "process_complete (i_Process (t_next t))")
  case True
  then have "validStoredProcess (i_Process (t_next t)) False"
    using next_incarnation_wf [OF acc known wf(1)]
    by (auto simp: t_def incarnation_wf_def validStoredProcess_def split: if_splits)
  then show ?thesis
    using True acc
    by (simp add: t_def lc_commit_incarnation process_wf_def incarnationProcessMatches_def
        process_equal_refl)
next
  case False
  have "\<not> process_complete (i_Process (s_Incarnation s))"
  proof (cases "ob_Process ob = None \<or> ret")
    case True
    then show ?thesis using next_process_kept [OF acc True] False by (simp add: t_def)
  next
    case no: False
    then obtain p where p: "ob_Process ob = Some p" and "ret = False" by auto
    then show ?thesis
      using next_process [of s ob at p] acc known False process_known_complete [OF known p]
      by (simp add: t_def)
  qed
  then have "s_Process s = None"
    using wf by (cases "s_Process s")
      (auto simp: process_wf_def incarnationProcessMatches_def validStoredProcess_complete split: if_splits)
  then show ?thesis
    using False acc
    by (simp add: t_def lc_commit_incarnation process_wf_def incarnationProcessMatches_def)
qed

lemma lc_commit_presence:
  assumes acc: "t_accepted (transitionIncarnation s ob at ret)"
    and agrees: "state_agrees (i_State (s_Incarnation s)) (s_Presence s)"
  defines "t \<equiv> transitionIncarnation s ob at ret"
  shows "expected_presence (i_State (t_next t)) = Some (s_Presence (lc_commit t at' s))"
proof -
  have st: "state_known (i_State (s_Incarnation s))" using agrees by (simp add: state_agrees_def)
  obtain p where p: "expected_presence (i_State (t_next t)) = Some p"
    and trm: "t_terminal t = terminal_state (i_State (t_next t))"
    using next_state [OF acc st] by (auto simp: t_def)
  then show ?thesis
    using acc settle_liveness_presence [OF trm p]
    by (simp add: lc_commit_def Let_def t_def [symmetric])
qed

lemma lc_commit_agrees:
  fixes at' :: time
  assumes "t_accepted (transitionIncarnation s ob at ret)"
    and "state_agrees (i_State (s_Incarnation s)) (s_Presence s)"
  defines "s1 \<equiv> lc_commit (transitionIncarnation s ob at ret) at' s"
  shows "state_agrees (i_State (s_Incarnation s1)) (s_Presence s1)"
    and "i_State (s_Incarnation s1) \<noteq> no_incarnation"
  using lc_commit_presence [OF assms(1,2), of at'] assms(1)
  by (auto simp: s1_def lc_commit_incarnation state_agrees_def state_known_def)

lemma slots_wf_reset: "slots_wf obs \<Longrightarrow>
   slots_wf (obs\<lparr>o_Native := None, o_Screen := None, o_Process := None, o_Location := None\<rparr>)"
  by (simp add: slots_wf_def)

lemma lc_commit_slots:
  "slots_wf (s_Observations s) \<Longrightarrow> slots_wf (s_Observations (lc_commit t at s))"
  by (cases "t_accepted t") (simp_all add: lc_commit_incarnation slots_wf_reset)

lemma lc_commit_end:
  assumes acc: "t_accepted (transitionIncarnation s ob at ret)" and "end_wf s"
    and agrees: "state_agrees (i_State (s_Incarnation s)) (s_Presence s)"
  defines "t \<equiv> transitionIncarnation s ob at ret"
  shows "end_wf (lc_commit t at' s)"
proof (cases "t_terminal t \<or> t_reset t")
  case True
  then show ?thesis
    using acc settle_liveness_terminal [of t]
    by (auto simp: end_wf_def lc_commit_def Let_def t_def [symmetric] option.pred_set)
next
  case False
  then have "s_Presence s \<noteq> PresenceGone"
    using next_open [OF acc] state_agrees_gone [OF agrees] by (simp add: t_def)
  then show ?thesis
    using False \<open>end_wf s\<close> acc
    by (auto simp: end_wf_def lc_commit_incarnation t_def [symmetric] option.pred_set)
qed

text \<open>Everything but the detail survives a commit; the detail of the session is not touched.\<close>

definition session_open :: "session \<Rightarrow> bool" where
  "session_open s \<longleftrightarrow>
     meta_wf s \<and> live_wf s \<and> incarnation_wf (s_Incarnation s) \<and>
     state_agrees (i_State (s_Incarnation s)) (s_Presence s) \<and>
     process_wf (s_Incarnation s) (s_Process s) \<and> location_wf (s_Location s) \<and>
     slots_wf (s_Observations s) \<and> end_wf s"

lemma session_core_open: "session_core s \<longleftrightarrow> session_open s \<and> detail_wf s"
  by (auto simp: session_core_def session_open_def)

lemma lc_commit_meta: "meta_wf s \<Longrightarrow> meta_wf (lc_commit t at s)"
  by (simp add: meta_wf_def)

lemma lc_commit_open:
  assumes core: "session_open s" and acc: "t_accepted (transitionIncarnation s ob at ret)"
    and known: "process_known ob" and time: "at' \<noteq> 0"
  shows "session_open (lc_commit (transitionIncarnation s ob at ret) at' s)"
    and "i_State (s_Incarnation (lc_commit (transitionIncarnation s ob at ret) at' s)) \<noteq> no_incarnation"
proof -
  let ?t = "transitionIncarnation s ob at ret"
  have agrees: "state_agrees (i_State (s_Incarnation s)) (s_Presence s)"
    and inc: "incarnation_wf (s_Incarnation s)"
    and proc: "process_wf (s_Incarnation s) (s_Process s)"
    using core by (simp_all add: session_open_def)
  have next_wf: "incarnation_wf (t_next ?t)" by (rule next_incarnation_wf [OF acc known inc])
  show "session_open (lc_commit ?t at' s)"
    unfolding session_open_def
    using core lc_commit_meta lc_commit_live [OF _ time next_wf] next_wf
      lc_commit_agrees [OF acc agrees, of at'] lc_commit_process [OF acc known inc proc, of at']
      lc_commit_slots lc_commit_end [OF acc _ agrees, of at'] acc
    by (auto simp: session_open_def lc_commit_incarnation(1))
  show "i_State (s_Incarnation (lc_commit ?t at' s)) \<noteq> no_incarnation"
    by (rule lc_commit_agrees [OF acc agrees])
qed

subsection \<open>Storing the evidence\<close>

text \<open>
  What the validation of an observation does not ask for but the validation of a stored session
  does: a report whose detail is not dated after the moment it is received, a reading with a
  known authority and a manifest version that is not negative, and a time in the years the
  zero instant precedes.
\<close>

definition observation_sane :: "time \<Rightarrow> observation \<Rightarrow> bool" where
  "observation_sane received ob \<longleftrightarrow>
     0 \<le> ob_At ob \<and>
     (case ob_Evidence ob of
        EvReport r \<Rightarrow> pred_option (\<lambda>t. t \<le> received) (r_DetailObservedAt r)
      | EvReading r \<Rightarrow> 0 \<le> sc_ManifestVersion r \<and> validDetailAuthority (sc_Authority r)
      | _ \<Rightarrow> True)"

lemma report_detail_valid:
  assumes "validateReport r = None" "r_Detail r = Some v" "v \<noteq> no_detail"
  obtains a where "r_Activity r = Some a" "detail_valid_for v a"
  using assms
  by (auto simp: validateReport_def validReportDetail_def validDetail_def split: if_splits option.splits)

lemma report_state_valid:
  assumes "validateReport r = None"
  shows "validStoredLifecycle (r_Lifecycle r)" "validStoredOptionalPresence (r_Claim r)"
    "validStoredOptionalActivity (r_Activity r)"
  using assms by (auto simp: validateReport_def split: if_splits)

lemma report_detail_time:
  assumes "validateReport r = None" "r_DetailObservedAt r = Some t"
  shows "t \<noteq> 0"
  using assms by (auto simp: validateReport_def validReportDetail_def split: if_splits option.splits)

lemma report_location_valid:
  assumes "validateReport r = None" "r_Location r = Some l"
  shows "location_wf l"
  using assms
  by (auto simp: validateReport_def validateReportMetadata_def validateLocation_def location_wf_def
      split: if_splits option.splits)

lemma nativeDetail_cases:
  assumes "nativeDetail s r p at = Some e"
  obtains
    (given) v where "r_Detail r = Some v" "v \<noteq> no_detail"
      "e = \<lparr>de_Value = v, de_ObservedAt = deref_or at (r_DetailObservedAt r)\<rparr>"
  | (failed) "r_Activity r = Some ActivityFailed"
      "e = \<lparr>de_Value = ActivityDetailGeneral, de_ObservedAt = at\<rparr>"
  | (kept) n where "r_Activity r = None" "\<not> reportEnds r" "retainNativeDetail s r p"
      "o_Native (s_Observations s) = Some n" "n_Detail n = Some e"
  using assms by (auto simp: nativeDetail_def split: if_splits option.splits)

lemma nativeActivity_given: "r_Activity r = Some a \<Longrightarrow> nativeActivity s r p = Some a"
  by (simp add: nativeActivity_def)

lemma nativeActivity_kept:
  assumes "r_Activity r = None" "\<not> reportEnds r" "retainNativeDetail s r p"
    and "o_Native (s_Observations s) = Some n" "s_Process s = Some p"
  shows "nativeActivity s r p = n_Activity n"
  using assms by (auto simp: nativeActivity_def retainNativeDetail_def process_equal_refl)

lemma nativeActivity_valid:
  assumes "validStoredOptionalActivity (r_Activity r)"
    and "pred_option native_wf (o_Native (s_Observations s))"
  shows "validStoredOptionalActivity (nativeActivity s r p)"
  using assms
  by (auto simp: nativeActivity_def native_wf_def validStoredNativeObservation_def
      split: option.splits)

lemma native_slot_wf:
  assumes ev: "ob_Evidence ob = EvReport r" and r: "validateReport r = None"
    and known: "process_known ob" and at: "0 < at"
    and dated: "pred_option (\<lambda>t. t \<le> at) (r_DetailObservedAt r)"
    and slots: "pred_option native_wf (o_Native (s_Observations s))"
    and order: "\<And>n. o_Native (s_Observations s) = Some n \<Longrightarrow> s_Presence s \<noteq> PresenceGone \<Longrightarrow>
                  n_ObservedAt n \<le> at"
    and proc: "ob_Process ob \<noteq> None \<Longrightarrow> s_Process s = ob_Process ob"
  shows "native_wf (native_slot s ob at)"
proof -
  define p where "p = deref_or zero_process (ob_Process ob)"
  have p_ok: "validStoredProcess p True"
    using known by (cases "ob_Process ob") (auto simp: p_def process_known_def intro: validStoredProcess_weaken)
  have detail: "validDetailEvidence (nativeDetail s r p at) (nativeActivity s r p) \<and>
      pred_option (\<lambda>d. de_ObservedAt d \<le> at) (nativeDetail s r p at)"
  proof (cases "nativeDetail s r p at")
    case (Some e)
    then show ?thesis
    proof (cases rule: nativeDetail_cases)
      case (given v)
      then obtain a where "r_Activity r = Some a" "detail_valid_for v a"
        using report_detail_valid r by metis
      then show ?thesis
        using given Some nativeActivity_given [of r a s p] dated at report_detail_time [OF r]
        by (cases "r_DetailObservedAt r") (auto simp: validDetailEvidence_def)
    next
      case failed
      then show ?thesis
        using Some at nativeActivity_given [of r ActivityFailed s p]
        by (simp add: validDetailEvidence_def detail_valid_for_def)
    next
      case (kept n)
      then have "process_complete p" "s_Presence s \<noteq> PresenceGone"
        by (auto simp: retainNativeDetail_def split: option.splits)
      then have "s_Process s = Some p"
        using proc by (cases "ob_Process ob") (auto simp: p_def)
      then have "nativeActivity s r p = n_Activity n" using kept nativeActivity_kept by blast
      moreover have "native_wf n" "n_ObservedAt n \<le> at"
        using slots kept order \<open>s_Presence s \<noteq> PresenceGone\<close> by auto
      ultimately show ?thesis
        using kept Some by (auto simp: native_wf_def validStoredNativeObservation_def)
    qed
  qed simp
  then show ?thesis
    using ev p_ok at report_state_valid [OF r] nativeActivity_valid slots
    by (auto simp: native_wf_def native_slot_def validStoredNativeObservation_def ob_Report_def
        p_def [symmetric] Let_def split: option.splits)
qed

lemma storeObservation_frame [simp]:
  "s_Liveness (storeObservation ob at s) = s_Liveness s"
  "s_Detail (storeObservation ob at s) = s_Detail s"
  "s_Incarnation (storeObservation ob at s) = s_Incarnation s"
  "s_IdentityState (storeObservation ob at s) = s_IdentityState s"
  "s_SchemaVersion (storeObservation ob at s) = s_SchemaVersion s"
  "s_ID (storeObservation ob at s) = s_ID s"
  "s_Harness (storeObservation ob at s) = s_Harness s"
  "s_SessionID (storeObservation ob at s) = s_SessionID s"
  "s_SessionPath (storeObservation ob at s) = s_SessionPath s"
  "s_Process (storeObservation ob at s) = s_Process s"
  "s_Location (storeObservation ob at s) = s_Location s"
  "s_CreatedAt (storeObservation ob at s) = s_CreatedAt s"
  "s_UpdatedAt (storeObservation ob at s) = s_UpdatedAt s"
  by (cases "ob_Evidence ob"; simp add: storeObservation_def storeNativeObservation_def
      storeProcessObservation_def storeMultiplexerObservation_def storeCatalogObservation_def
      storeScreenObservation_def)+

lemma storeObservation_reads [simp]:
  "s_Presence (storeObservation ob at s) = s_Presence s"
  "s_Activity (storeObservation ob at s) = s_Activity s"
  "s_Decision (storeObservation ob at s) = s_Decision s"
  by (simp_all add: s_Presence_def s_Activity_def s_Decision_def)

lemma storeObservation_native:
  "o_Native (s_Observations (storeObservation ob at s)) =
     (case ob_Evidence ob of EvReport _ \<Rightarrow> Some (native_slot s ob at)
      | _ \<Rightarrow> o_Native (s_Observations s))"
  by (cases "ob_Evidence ob"; simp add: storeObservation_def storeNativeObservation_def
      storeProcessObservation_def storeMultiplexerObservation_def storeCatalogObservation_def
      storeScreenObservation_def)

lemma storeObservation_slots:
  assumes ok: "observation_ok ob" and sane: "observation_sane received ob" and at: "0 < at"
    and dated: "\<And>r. ob_Evidence ob = EvReport r \<Longrightarrow> pred_option (\<lambda>t. t \<le> at) (r_DetailObservedAt r)"
    and slots: "slots_wf (s_Observations s)"
    and order: "\<And>n. o_Native (s_Observations s) = Some n \<Longrightarrow> s_Presence s \<noteq> PresenceGone \<Longrightarrow>
                  ob_Kind ob = ''report'' \<Longrightarrow> n_ObservedAt n \<le> at"
    and proc: "ob_Process ob \<noteq> None \<Longrightarrow> s_Process s = ob_Process ob"
  shows "slots_wf (s_Observations (storeObservation ob at s))"
proof (cases "ob_Evidence ob")
  case NoEvidence
  then show ?thesis using slots by (simp add: storeObservation_def)
next
  case (EvReport r)
  then have "native_wf (native_slot s ob at)"
    using observation_ok_kinds(2) [OF ok] observation_ok_process_known [OF ok] at dated slots order proc
    by (intro native_slot_wf) (auto simp: slots_wf_def ob_Kind_def)
  then show ?thesis
    using slots EvReport by (simp add: slots_wf_def storeObservation_def storeNativeObservation_def)
next
  case (EvSighting si)
  have "validStoredProcess (deref_or zero_process (ob_Process ob)) (ob_Present ob \<noteq> Some True)"
  proof (cases "ob_Process ob")
    case None
    then have "\<not> si_Present si"
      using EvSighting observation_ok_kinds(3) [OF ok EvSighting] by (auto simp: ob_Process_def split: if_splits)
    then show ?thesis using None EvSighting by (simp add: ob_Present_def)
  next
    case (Some p)
    then show ?thesis using ok by (auto simp: observation_ok_def intro: validStoredProcess_weaken)
  qed
  then show ?thesis
    using slots EvSighting at
    by (simp add: slots_wf_def storeObservation_def storeProcessObservation_def
        validStoredProcessObservation_def)
next
  case (EvPlacement pl)
  then have "validStoredProcess (pl_Process pl) False" "location_wf (pl_Location pl)"
    using ok observation_ok_evidence [OF ok]
    by (auto simp: observation_ok_def ob_Process_def validateEvidence_def validatePlacement_def
        validateLocation_def location_wf_def split: if_splits)
  then show ?thesis
    using slots EvPlacement at
    by (simp add: slots_wf_def storeObservation_def storeMultiplexerObservation_def
        validStoredMultiplexerObservation_def location_wf_def)
next
  case (EvListing l)
  then have "0 \<le> li_ProcessPID l"
    using observation_ok_evidence [OF ok]
    by (auto simp: validateEvidence_def validateListing_def split: if_splits)
  then show ?thesis
    using slots EvListing at
    by (simp add: slots_wf_def storeObservation_def storeCatalogObservation_def
        validStoredCatalogObservation_def)
next
  case (EvReading r)
  then have "validateReading r = None" "validStoredProcess (sc_Process r) False"
    using ok observation_ok_evidence [OF ok]
    by (auto simp: observation_ok_def ob_Process_def validateEvidence_def)
  then have "validStoredScreenObservation (r\<lparr>sc_ObservedAt := at\<rparr>)"
    using EvReading sane at
    by (auto simp: validStoredScreenObservation_def validateReading_def observation_sane_def
        split: if_splits)
  then show ?thesis
    using slots EvReading by (simp add: slots_wf_def storeObservation_def storeScreenObservation_def)
next
  case (EvVerification v)
  then show ?thesis using slots by (simp add: storeObservation_def)
qed

lemma storeObservation_end:
  assumes "end_wf s" "\<And>r. ob_Evidence ob = EvReport r \<Longrightarrow> reportEnds r \<Longrightarrow> s_Presence s = PresenceGone"
  shows "end_wf (storeObservation ob at s)"
  using assms
  by (cases "ob_Evidence ob")
    (auto simp: end_wf_def storeObservation_native native_slot_def nativeEnded_def reportEnds_def
      ob_Report_def Let_def)

subsection \<open>Identity, metadata and activity\<close>

lemma session_open_cong:
  assumes "session_open s" "s_Liveness s' = s_Liveness s" "s_Incarnation s' = s_Incarnation s"
    and "s_SchemaVersion s' = s_SchemaVersion s" "s_ID s' = s_ID s" "s_Harness s' = s_Harness s"
    and "s_CreatedAt s' = s_CreatedAt s" "s_UpdatedAt s' = s_UpdatedAt s"
    and "s_Observations s' = s_Observations s"
    and "process_wf (s_Incarnation s) (s_Process s')" "location_wf (s_Location s')"
  shows "session_open s'"
  using assms readers_of_liveness [of s' s]
  by (simp add: session_open_def meta_wf_def live_wf_def end_wf_def)

lemma applyIdentity_frame [simp]:
  "s_Liveness (applyIdentity ob s) = s_Liveness s"
  "s_Detail (applyIdentity ob s) = s_Detail s"
  "s_Incarnation (applyIdentity ob s) = s_Incarnation s"
  "s_SchemaVersion (applyIdentity ob s) = s_SchemaVersion s"
  "s_ID (applyIdentity ob s) = s_ID s"
  "s_Harness (applyIdentity ob s) = s_Harness s"
  "s_Process (applyIdentity ob s) = s_Process s"
  "s_Location (applyIdentity ob s) = s_Location s"
  "s_Observations (applyIdentity ob s) = s_Observations s"
  "s_CreatedAt (applyIdentity ob s) = s_CreatedAt s"
  "s_UpdatedAt (applyIdentity ob s) = s_UpdatedAt s"
  "s_Presence (applyIdentity ob s) = s_Presence s"
  "s_Activity (applyIdentity ob s) = s_Activity s"
  "s_Decision (applyIdentity ob s) = s_Decision s"
  by (simp_all add: applyIdentity_def)

lemmas metadata_defs = applyMetadata_def applyProcess_def applyLocation_def applyListing_def Let_def

lemma applyMetadata_frame [simp]:
  "s_Liveness (applyMetadata ob s) = s_Liveness s"
  "s_Detail (applyMetadata ob s) = s_Detail s"
  "s_Incarnation (applyMetadata ob s) = s_Incarnation s"
  "s_IdentityState (applyMetadata ob s) = s_IdentityState s"
  "s_SchemaVersion (applyMetadata ob s) = s_SchemaVersion s"
  "s_ID (applyMetadata ob s) = s_ID s"
  "s_Harness (applyMetadata ob s) = s_Harness s"
  "s_SessionID (applyMetadata ob s) = s_SessionID s"
  "s_SessionPath (applyMetadata ob s) = s_SessionPath s"
  "s_Observations (applyMetadata ob s) = s_Observations s"
  "s_CreatedAt (applyMetadata ob s) = s_CreatedAt s"
  "s_UpdatedAt (applyMetadata ob s) = s_UpdatedAt s"
  by (simp_all add: metadata_defs split: option.split)

lemma applyMetadata_reads [simp]:
  "s_Presence (applyMetadata ob s) = s_Presence s"
  "s_Activity (applyMetadata ob s) = s_Activity s"
  "s_Decision (applyMetadata ob s) = s_Decision s"
  by (simp_all add: s_Presence_def s_Activity_def s_Decision_def)

lemma applyMetadata_process:
  "s_Process (applyMetadata ob s) =
     (case ob_Process ob of None \<Rightarrow> s_Process s
      | Some p \<Rightarrow> if process_complete p then Some p else s_Process s)"
  by (simp add: metadata_defs split: option.split)

lemma applyMetadata_location:
  "s_Location (applyMetadata ob s) = s_Location s \<or>
   (\<exists>l. ob_Location ob = Some l \<and> s_Location (applyMetadata ob s) = l)"
  by (simp add: metadata_defs split: option.split)

lemma ob_Location_wf:
  assumes "observation_ok ob" "ob_Location ob = Some l"
  shows "location_wf l"
proof (cases "ob_Evidence ob")
  case (EvReport r)
  then show ?thesis
    using assms observation_ok_kinds(2) report_location_valid by (auto simp: ob_Location_def)
next
  case (EvPlacement p)
  then show ?thesis
    using assms observation_ok_evidence [OF assms(1)]
    by (auto simp: ob_Location_def validateEvidence_def validatePlacement_def validateLocation_def
        location_wf_def split: if_splits)
qed (use assms in \<open>auto simp: ob_Location_def\<close>)

lemma applyIdentity_open: "session_open s \<Longrightarrow> session_open (applyIdentity ob s)"
  by (rule session_open_cong) (auto simp: session_open_def)

lemma applyMetadata_open:
  assumes "session_open s" "observation_ok ob"
    and "ob_Process ob \<noteq> None \<Longrightarrow> s_Process s = ob_Process ob"
  shows "session_open (applyMetadata ob s)"
proof (rule session_open_cong [OF assms(1)])
  show "process_wf (s_Incarnation s) (s_Process (applyMetadata ob s))"
    using assms by (cases "ob_Process ob") (auto simp: applyMetadata_process session_open_def)
  show "location_wf (s_Location (applyMetadata ob s))"
    using applyMetadata_location [of ob s] ob_Location_wf [OF assms(2)] assms(1)
    by (auto simp: session_open_def)
qed simp_all

lemma lc_apply_frame [simp]:
  "s_Detail (lc_apply ob pol at s) = s_Detail s"
  "s_Incarnation (lc_apply ob pol at s) = s_Incarnation s"
  "s_IdentityState (lc_apply ob pol at s) = s_IdentityState s"
  "s_SchemaVersion (lc_apply ob pol at s) = s_SchemaVersion s"
  "s_ID (lc_apply ob pol at s) = s_ID s"
  "s_Harness (lc_apply ob pol at s) = s_Harness s"
  "s_SessionID (lc_apply ob pol at s) = s_SessionID s"
  "s_SessionPath (lc_apply ob pol at s) = s_SessionPath s"
  "s_Process (lc_apply ob pol at s) = s_Process s"
  "s_Location (lc_apply ob pol at s) = s_Location s"
  "s_Observations (lc_apply ob pol at s) = s_Observations s"
  "s_CreatedAt (lc_apply ob pol at s) = s_CreatedAt s"
  "s_UpdatedAt (lc_apply ob pol at s) = s_UpdatedAt s"
  by (cases "ob_Evidence ob"; simp add: lc_apply_def lc_report_def lc_reading_def lc_verify_def
      Let_def split: option.split)+

text \<open>Deciding the activity keeps the presence and leaves a valid activity and decision.\<close>

lemma setActivity_live:
  "live_wf s \<Longrightarrow> pred_option activity_valid a \<Longrightarrow> live_wf (setActivity a s)"
  by (cases a) (auto simp: live_wf_def setActivity_def NewLiveness_def s_Activity_def s_Decision_def
      s_Presence_def split: liveness.splits presence.splits)

lemma setDecision_live:
  "live_wf s \<Longrightarrow> pred_option decision_wf d \<Longrightarrow> live_wf (setDecision d s)"
  by (auto simp: live_wf_def setDecision_def NewLiveness_def s_Activity_def s_Decision_def
      s_Presence_def split: liveness.splits presence.splits)

lemma setActivity_presence [simp]: "s_Presence (setActivity a s) = s_Presence s"
  by (cases "s_Presence s = PresenceGone") simp_all

lemma native_wf_parts:
  assumes "native_wf n"
  shows "pred_option activity_valid (n_Activity n)" "validStoredProcess (n_Process n) True"
    "n_Detail n = Some e \<Longrightarrow> de_ObservedAt e \<noteq> 0"
  using assms
  by (auto simp: native_wf_def validStoredNativeObservation_def validStoredOptionalActivity_def
      validDetailEvidence_def split: option.splits)

lemma lc_report_presence [simp]: "s_Presence (lc_report r pol at s) = s_Presence s"
  by (simp add: lc_report_def split: option.split)

lemma lc_reading_presence [simp]: "s_Presence (lc_reading pol at s) = s_Presence s"
  by (simp add: lc_reading_def split: option.split)

lemma lc_report_live:
  assumes "live_wf s" "slots_wf (s_Observations s)" "at \<noteq> 0"
  shows "live_wf (lc_report r pol at s)"
proof (cases "o_Native (s_Observations s)")
  case (Some n)
  then have "native_wf n" using assms(2) by (simp add: slots_wf_def)
  then show ?thesis
    using assms Some native_wf_parts(1,2)
    by (simp add: lc_report_def setDecision_live setActivity_live decision_wf_def
        validStoredActivityDecision_def validDetailAuthority_def)
qed (use assms in \<open>simp add: lc_report_def\<close>)

lemma lc_reading_live:
  assumes "live_wf s" "slots_wf (s_Observations s)" "at \<noteq> 0"
    and "\<And>sc. o_Screen (s_Observations s) = Some sc \<Longrightarrow> validDetailAuthority (sc_Authority sc)"
  shows "live_wf (lc_reading pol at s)"
proof (cases "o_Screen (s_Observations s)")
  case (Some sc)
  then have "validStoredScreenObservation sc" using assms(2) by (simp add: slots_wf_def)
  then show ?thesis
    using assms Some
    by (cases "s_Process s")
      (simp_all add: lc_reading_def setDecision_live setActivity_live decision_wf_def
        validStoredActivityDecision_def validStoredScreenObservation_def validStoredProcess_weaken)
qed (use assms in \<open>simp add: lc_reading_def\<close>)

lemma lc_verify_live: "at \<noteq> 0 \<Longrightarrow> live_wf (lc_verify v at s)"
  by (simp add: lc_verify_def Let_def live_wf_Gone live_wf_Unknown process_decision_wf)

lemma lc_verify_presence:
  "s_Presence (lc_verify v at s) =
     (if v_Presence v = PresenceGone then PresenceGone else PresenceUnknown)"
  by (simp add: lc_verify_def Let_def s_Presence_def)

lemma lc_apply_open:
  assumes op: "session_open s" and "at \<noteq> 0"
    and screen: "\<And>r sc. ob_Evidence ob = EvReading r \<Longrightarrow> o_Screen (s_Observations s) = Some sc \<Longrightarrow>
                   validDetailAuthority (sc_Authority sc)"
    and verified: "\<And>v. ob_Evidence ob = EvVerification v \<Longrightarrow>
                   s_Presence (lc_verify v at s) = s_Presence s"
  shows "session_open (lc_apply ob pol at s)"
proof -
  have live: "live_wf s" and slots: "slots_wf (s_Observations s)"
    using op by (simp_all add: session_open_def)
  have "s_Presence (lc_apply ob pol at s) = s_Presence s \<and> live_wf (lc_apply ob pol at s)"
  proof (cases "ob_Evidence ob")
    case (EvReport r)
    then show ?thesis using lc_report_live [OF live slots] assms by (simp add: lc_apply_def)
  next
    case (EvReading r)
    then show ?thesis using lc_reading_live [OF live slots] assms by (simp add: lc_apply_def)
  next
    case (EvVerification v)
    then show ?thesis using lc_verify_live assms by (simp add: lc_apply_def)
  qed (use live in \<open>simp_all add: lc_apply_def\<close>)
  then show ?thesis using op by (simp add: session_open_def meta_wf_def end_wf_def)
qed

subsection \<open>One accepted observation\<close>

lemma detail_slots:
  assumes "slots_wf (s_Observations s)" "live_wf s"
  shows "detail_slots_ok s"
proof -
  have "de_ObservedAt e \<noteq> 0" if "o_Native (s_Observations s) = Some n" "n_Detail n = Some e" for n e
    using that assms(1) native_wf_parts(3) by (auto simp: slots_wf_def)
  moreover have "sc_ObservedAt sc \<noteq> 0" if "o_Screen (s_Observations s) = Some sc" for sc
    using that assms(1) by (simp add: slots_wf_def validStoredScreenObservation_def)
  moreover have "validDetailAuthority (d_Authority d)" if "s_Decision s = Some d" for d
    using that assms(2) by (simp add: live_wf_def decision_wf_def)
  ultimately show ?thesis unfolding detail_slots_ok_def by blast
qed

lemma resolveDetail_core:
  "session_open s \<Longrightarrow> session_core (resolveDetail pol now s)"
  using resolveDetail_valid [OF detail_slots, of s pol now]
  by (auto simp: session_core_open session_open_def meta_wf_def live_wf_def end_wf_def detail_wf_def)

lemma stamped_core:
  assumes "session_core s" "0 < received"
  shows "session_core (s\<lparr>s_SchemaVersion := storeSchemaVersion,
           s_UpdatedAt := maxTime [s_UpdatedAt s, received]\<rparr>)"
proof -
  have "s_CreatedAt s \<le> maxTime [s_UpdatedAt s, received]"
    using assms order_trans [OF _ maxTime_ge1 [of "s_UpdatedAt s" received]]
    by (simp add: session_core_def meta_wf_def)
  then show ?thesis
    using assms by (simp add: session_core_def meta_wf_def live_wf_def end_wf_def detail_wf_def)
qed

lemma note_changes_core: "session_core s \<Longrightarrow> session_core (note_changes b at s)"
  by (simp add: session_core_def meta_wf_def live_wf_def end_wf_def detail_wf_def)

lemma lc_commit_observed:
  assumes "t_accepted (transitionIncarnation s ob at False)" "process_known ob"
    and "ob_Process ob \<noteq> None"
  shows "s_Process (lc_commit (transitionIncarnation s ob at False) at' s) = ob_Process ob"
  using assms next_process [OF assms(1,2)] process_known_complete [OF assms(2)]
  by (auto simp: lc_commit_incarnation)

lemma verified_presence:
  assumes acc: "t_accepted (transitionIncarnation s ob at False)"
    and ev: "ob_Evidence ob = EvVerification v" and agrees: "state_agrees (i_State (s_Incarnation s)) (s_Presence s)"
  shows "s_Presence (lc_commit (transitionIncarnation s ob at False) at' s) =
     (if v_Presence v = PresenceGone then PresenceGone else PresenceUnknown)"
proof -
  have "verifies (normalizeIncarnationInput s ob at False)"
    using ev by (simp add: verifies_def ev_verification_def)
  then have "transitionIncarnation s ob at False =
      verify_transition (normalizeIncarnationInput s ob at False)"
    by (cases rule: accepted_cases [OF acc]) simp_all
  then have "i_State (t_next (transitionIncarnation s ob at False)) =
      (if v_Presence v = PresenceGone then IncarnationExited else IncarnationStarting)"
    using ev by (simp add: verify_transition_def ev_verification_def Let_def)
  then show ?thesis
    using lc_commit_presence [OF acc agrees, of at'] by (auto split: if_splits)
qed

text \<open>
  The order the storing needs: a native slot that is still there after the commit, on a session
  that is not gone, is not younger than the report.
\<close>

lemma update_session_wf:
  fixes s :: session and ob :: observation
  defines "t at \<equiv> transitionIncarnation s ob at False"
  assumes core: "session_core s" and acc: "t_accepted (t at0)"
    and ok: "observation_ok ob" and sane: "observation_sane received ob"
    and at: "0 < at" and received: "0 < received"
    and dated: "\<And>r. ob_Evidence ob = EvReport r \<Longrightarrow> pred_option (\<lambda>t. t \<le> at) (r_DetailObservedAt r)"
    and order: "\<And>n. \<not> t_reset (t at0) \<Longrightarrow> \<not> t_terminal (t at0) \<Longrightarrow> ob_Kind ob = ''report'' \<Longrightarrow>
                  o_Native (s_Observations s) = Some n \<Longrightarrow> n_ObservedAt n \<le> at"
  shows "session_wf (update_session pol ob at received (t at0) s)"
proof -
  define s1 where "s1 = lc_commit (t at0) at s"
  define s2 where "s2 = storeObservation ob at s1"
  define s4 where "s4 = applyMetadata ob (applyIdentity ob s2)"
  define s5 where "s5 = lc_apply ob pol at s4"
  note known = observation_ok_process_known [OF ok]
  have agrees: "state_agrees (i_State (s_Incarnation s)) (s_Presence s)"
    using core by (simp add: session_core_def)
  have s1: "session_open s1" "i_State (s_Incarnation s1) \<noteq> no_incarnation"
    using lc_commit_open [OF _ acc [unfolded t_def] known, of at] core at
    by (simp_all add: s1_def t_def session_core_open)
  have observed: "s_Process s1 = ob_Process ob" if "ob_Process ob \<noteq> None"
    using lc_commit_observed [OF acc [unfolded t_def] known that, of at] by (simp add: s1_def t_def)
  have gone: "s_Presence s1 = PresenceGone" if "t_terminal (t at0)"
    using that acc settle_liveness_terminal by (simp add: s1_def lc_commit_def Let_def)
  have ends: "s_Presence s1 = PresenceGone" if "ob_Evidence ob = EvReport r" "reportEnds r" for r
    using gone next_end [OF acc [unfolded t_def] that] by (simp add: t_def)
  have kept: "n_ObservedAt n \<le> at"
    if "o_Native (s_Observations s1) = Some n" "s_Presence s1 \<noteq> PresenceGone" "ob_Kind ob = ''report''" for n
    using that gone order acc by (auto simp: s1_def lc_commit_incarnation split: if_splits)
  have slots: "slots_wf (s_Observations s2)"
    unfolding s2_def using s1 observed kept
    by (intro storeObservation_slots [OF ok sane at dated]) (auto simp: session_open_def)
  have s2: "session_open s2"
    using s1(1) slots storeObservation_end [of s1 ob at] ends
    by (simp add: session_open_def s2_def meta_wf_def live_wf_def)
  have s4: "session_open s4"
    unfolding s4_def using s2 observed
    by (intro applyMetadata_open applyIdentity_open ok) (simp_all add: s2_def)
  have screen: "validDetailAuthority (sc_Authority sc)"
    if "ob_Evidence ob = EvReading r" "o_Screen (s_Observations s4) = Some sc" for r sc
    using that sane
    by (auto simp: s4_def s2_def storeObservation_def storeScreenObservation_def observation_sane_def)
  have verified: "s_Presence (lc_verify v at s4) = s_Presence s4"
    if "ob_Evidence ob = EvVerification v" for v
    using verified_presence [OF acc [unfolded t_def] that agrees, of at]
    by (simp add: lc_verify_presence s4_def s2_def s1_def t_def)
  have s5: "session_open s5"
    unfolding s5_def using s4 at screen verified by (intro lc_apply_open) auto
  have "i_State (s_Incarnation s5) \<noteq> no_incarnation"
    using s1(2) by (simp add: s5_def s4_def s2_def)
  then show ?thesis
    using note_changes_core [OF stamped_core [OF resolveDetail_core [OF s5] received]]
    by (simp add: session_wf_def update_session_def Let_def s5_def s4_def s2_def s1_def)
qed

end
