(* ===== verification/Aht_Sessions.thy ===== *)
theory Aht_Sessions
  imports Aht_Preservation
begin

section \<open>The invariant of the session map\<close>

text \<open>
  A map of sessions is well formed when every session is, under its own identifier. The theory
  shows that retirement, merging and reduction keep it, and that a batch does.
\<close>

definition entry_wf :: "string \<times> session \<Rightarrow> bool" where
  "entry_wf x \<longleftrightarrow> s_ID (snd x) = fst x \<and> session_wf (snd x)"

definition sessions_wf :: "session go_map \<Rightarrow> bool" where
  "sessions_wf m \<longleftrightarrow> map_ok m \<and> list_all entry_wf m"

lemma sessions_wf_Nil [simp]: "sessions_wf []"
  by (simp add: sessions_wf_def)

lemma sessions_wf_get: "sessions_wf m \<Longrightarrow> map_of m k = Some s \<Longrightarrow> session_wf s \<and> s_ID s = k"
  by (auto simp: sessions_wf_def entry_wf_def list_all_iff dest!: map_of_SomeD)

lemma sessions_wf_mem: "sessions_wf m \<Longrightarrow> (k, s) \<in> set m \<Longrightarrow> session_wf s \<and> s_ID s = k \<and> map_of m k = Some s"
  by (auto simp: sessions_wf_def entry_wf_def list_all_iff map_ok_def)

lemma sessions_wf_put:
  "sessions_wf m \<Longrightarrow> session_wf s \<Longrightarrow> s_ID s = k \<Longrightarrow> sessions_wf (map_put k s m)"
  using set_map_put_subset [of k s m]
  by (auto simp: sessions_wf_def list_all_iff entry_wf_def)

lemma sessions_wf_del: "sessions_wf m \<Longrightarrow> sessions_wf (map_del k m)"
  using set_map_del_subset [of k m] by (auto simp: sessions_wf_def list_all_iff)

lemma session_wf_id: "session_wf s \<Longrightarrow> s_ID s \<noteq> []"
  by (simp add: session_wf_def session_core_def meta_wf_def)

subsection \<open>The best match is a stored session\<close>

lemma best_step_in:
  assumes "fst b \<noteq> [] \<Longrightarrow> b \<in> A \<and> s_Harness (snd b) = h \<and> P (snd b)" "x \<in> A"
    and "fst (best_step h P b x) \<noteq> []"
  shows "best_step h P b x \<in> A \<and> s_Harness (snd (best_step h P b x)) = h \<and> P (snd (best_step h P b x))"
  using assms by (auto simp: best_step_def split: if_splits)

lemma bestMatching_fold:
  assumes "fst b \<noteq> [] \<Longrightarrow> b \<in> A \<and> s_Harness (snd b) = h \<and> P (snd b)" "set m \<subseteq> A"
    and "fst (foldl (best_step h P) b m) \<noteq> []"
  shows "foldl (best_step h P) b m \<in> A \<and> s_Harness (snd (foldl (best_step h P) b m)) = h
     \<and> P (snd (foldl (best_step h P) b m))"
  using assms
proof (induction m arbitrary: b)
  case (Cons x m)
  show ?case
    using Cons.prems best_step_in [where b = b and A = A and h = h and P = P and x = x]
    by (simp, intro Cons.IH) auto
qed simp

lemma bestMatching_found:
  assumes "bestMatchingSessionID m h P = k" "k \<noteq> []"
  obtains s where "(k, s) \<in> set m" "s_Harness s = h" "P s"
proof -
  define b where "b = foldl (best_step h P) ([], zero_session) m"
  have "b \<in> set m \<and> s_Harness (snd b) = h \<and> P (snd b)" "fst b = k"
    using assms bestMatching_fold [of "([], zero_session)" "set m" h P m]
    by (auto simp: bestMatchingSessionID_def b_def)
  then show thesis using that [of "snd b"] by (cases b) simp
qed

subsection \<open>Retirement\<close>

lemma mark_replaced_frame [simp]:
  "s_Detail (mark_replaced p at s) = s_Detail s"
  "s_Incarnation (mark_replaced p at s) = s_Incarnation s"
  "s_SchemaVersion (mark_replaced p at s) = s_SchemaVersion s"
  "s_ID (mark_replaced p at s) = s_ID s"
  "s_Harness (mark_replaced p at s) = s_Harness s"
  "s_SessionID (mark_replaced p at s) = s_SessionID s"
  "s_SessionPath (mark_replaced p at s) = s_SessionPath s"
  "s_Process (mark_replaced p at s) = s_Process s"
  "s_Location (mark_replaced p at s) = s_Location s"
  "s_Observations (mark_replaced p at s) = s_Observations s"
  "s_CreatedAt (mark_replaced p at s) = s_CreatedAt s"
  "s_UpdatedAt (mark_replaced p at s) = s_UpdatedAt s"
  by (simp_all add: mark_replaced_def Let_def split: liveness.split)

lemma mark_replaced_presence [simp]: "s_Presence (mark_replaced p at s) = s_Presence s"
proof -
  have "s_Presence (case s_Liveness s of Gone t r d \<Rightarrow> s\<lparr>s_Liveness := Gone t sessionReplacedReason d\<rparr>
          | _ \<Rightarrow> s) = s_Presence s"
    by (simp add: s_Presence_def split: liveness.split)
  then show ?thesis by (simp add: mark_replaced_def Let_def)
qed

lemma mark_replaced_live:
  assumes "live_wf s" "at \<noteq> 0" "validStoredProcess p True"
  shows "live_wf (mark_replaced p at s)"
proof -
  have "live_wf (case s_Liveness s of Gone t r d \<Rightarrow> s\<lparr>s_Liveness := Gone t sessionReplacedReason d\<rparr>
          | _ \<Rightarrow> s)"
    using assms(1) by (auto simp: live_wf_Gone live_wf_def s_Decision_def s_Activity_def split: liveness.splits)
  moreover have "decision_wf (replaced_decision p at)"
    using assms by (simp add: decision_wf_def validStoredActivityDecision_def
        validDetailAuthority_def replaced_decision_def)
  ultimately show ?thesis by (simp add: mark_replaced_def Let_def setDecision_live)
qed

lemma mark_replaced_open:
  assumes "session_open s" "at \<noteq> 0" "validStoredProcess p True"
  shows "session_open (mark_replaced p at s)"
  using assms mark_replaced_live by (auto simp: session_open_def meta_wf_def end_wf_def)

lemma touched_open:
  assumes "session_open s" "0 < t"
  shows "session_open (s\<lparr>s_UpdatedAt := maxTime [s_UpdatedAt s, t]\<rparr>)"
  using assms order_trans [OF _ maxTime_ge1 [of "s_UpdatedAt s" t]]
  by (auto simp: session_open_def meta_wf_def live_wf_def end_wf_def)

lemma retired_gone:
  assumes "t_accepted (transitionIncarnation s ob at True)" "ob_Process ob \<noteq> None"
  shows "s_Presence (lc_commit (transitionIncarnation s ob at True) at' s) = PresenceGone"
  using assms next_retired [OF assms] settle_liveness_terminal
  by (simp add: lc_commit_def Let_def)

lemma gone_session_wf:
  "session_open s \<Longrightarrow> s_Presence s = PresenceGone \<Longrightarrow> session_wf s"
  using state_agrees_gone [of "i_State (s_Incarnation s)" PresenceGone]
  by (auto simp: session_wf_def session_core_open detail_wf_def session_open_def)

lemma retire_session_wf:
  assumes "retire_session r ob at received s = Inr (Some s')" "session_wf s"
    and "observation_ok ob" "at \<noteq> 0" "0 < received" "ob_Process ob = Some p"
  shows "session_wf s'" "s_ID s' = s_ID s" "s_Presence s' = PresenceGone"
proof -
  define t where "t = transitionIncarnation s ob at True"
  define s1 where "s1 = lc_commit t at s"
  obtain replace native where conf: "conflictingSessionReplacement r s ob = (replace, native)"
    by fastforce
  then have acc: "t_accepted t" and
    s': "s' = (let s2 = (if native then mark_replaced p at s1 else s1)
                in s2\<lparr>s_UpdatedAt := maxTime [s_UpdatedAt s2, received]\<rparr>)"
    using assms(1,6)
    by (simp_all add: retire_session_def t_def [symmetric] s1_def Let_def split: if_splits)
  note known = observation_ok_process_known [OF assms(3)]
  have "session_open s" using assms(2) by (simp add: session_wf_def session_core_open)
  then have op: "session_open s1"
    unfolding s1_def t_def using lc_commit_open(1) acc known assms(4) by (simp add: t_def)
  have gone: "s_Presence s1 = PresenceGone"
    using retired_gone acc assms(6) by (simp add: s1_def t_def)
  have "validStoredProcess p True"
    using known assms(6) by (auto simp: process_known_def intro: validStoredProcess_weaken)
  then have "session_open s'"
    using op assms(4,5) mark_replaced_open touched_open by (simp add: s' Let_def)
  moreover show "s_Presence s' = PresenceGone" using gone by (simp add: s' Let_def)
  ultimately show "session_wf s'" by (rule gone_session_wf)
  show "s_ID s' = s_ID s" by (simp add: s' Let_def s1_def)
qed

definition reducing :: "observation \<Rightarrow> time \<Rightarrow> time \<Rightarrow> bool" where
  "reducing ob at received \<longleftrightarrow>
     observation_ok ob \<and> observation_sane received ob \<and> 0 < at \<and> 0 < received"

interpretation retire: invariant_loop
  "retire_turn r ob at received"
  "\<lambda>m. reducing ob at received \<and> ob_Process ob \<noteq> None \<and> sessions_wf m" entry_wf
  for r ob at received
proof
  fix m x m'
  assume "reducing ob at received \<and> ob_Process ob \<noteq> None \<and> sessions_wf m" "entry_wf x"
    and "retire_turn r ob at received m x = Inr m'"
  then show "reducing ob at received \<and> ob_Process ob \<noteq> None \<and> sessions_wf m'"
    using retire_session_wf(1,2) [of r ob at received "snd x"]
    by (auto simp: retire_turn_def reducing_def entry_wf_def sessions_wf_put
        split: sum.splits option.splits)
qed

lemma retireConflicting_wf:
  assumes "sessions_wf m" "reducing ob at received"
    and "retireConflictingProcessSessions r m ob at received = Inr m'"
  shows "sessions_wf m'"
proof -
  have "list_all entry_wf m" using assms(1) by (simp add: sessions_wf_def)
  then show ?thesis
    using assms retire.loop_keeps [of ob at received m m r m']
    by (auto simp: retireConflictingProcessSessions_def split: option.splits if_splits)
qed

subsection \<open>Merging\<close>

lemma retire_prior_wf:
  assumes "session_wf s" "reducing ob at received" "ob_Process ob \<noteq> None"
  shows "session_wf (retire_prior ob at s)" "s_ID (retire_prior ob at s) = s_ID s"
proof -
  let ?t = "transitionIncarnation s ob at True"
  have facts: "session_open s" "process_known ob" "at \<noteq> 0" "0 < at"
    using assms observation_ok_process_known
    by (auto simp: session_wf_def session_core_open reducing_def)
  show "session_wf (retire_prior ob at s)"
  proof (cases "t_accepted ?t")
    case True
    then have "session_open (lc_commit ?t at s)" using lc_commit_open(1) facts by blast
    then show ?thesis
      using touched_open [of "lc_commit ?t at s" at] facts retired_gone [OF True assms(3), of at]
      by (auto simp: retire_prior_def Let_def intro!: gone_session_wf)
  next
    case False
    then have "session_open (retire_prior ob at s)"
      using touched_open facts by (simp add: retire_prior_def)
    then show ?thesis
      using assms(1) False
      by (simp add: session_wf_def session_core_open retire_prior_def detail_wf_def)
  qed
  show "s_ID (retire_prior ob at s) = s_ID s" by (simp add: retire_prior_def Let_def)
qed

lemma retire_prior_process:
  "s_Process s \<noteq> None \<Longrightarrow> s_Process (retire_prior ob at s) \<noteq> None"
  by (cases "t_accepted (transitionIncarnation s ob at True)")
    (auto simp: retire_prior_def Let_def lc_commit_incarnation)

lemma later_pred: "pred_option P a \<Longrightarrow> pred_option P b \<Longrightarrow> pred_option P (later t a b)"
  by (cases a; cases b) (auto simp: later_def)

lemma later_None [simp]: "later t a None = a"
  by (cases a) (simp_all add: later_def)

lemma merged_slots_wf:
  "slots_wf a \<Longrightarrow> slots_wf b \<Longrightarrow> slots_wf (mergeObservations a b)"
  by (simp add: slots_wf_def mergeObservations_def mergeTerminalObservations_def later_pred)

lemma identity_only_slots: "slots_wf obs \<Longrightarrow> slots_wf (identity_only_evidence obs)"
  by (simp add: slots_wf_def identity_only_evidence_def)

lemma mergeMetadata_frame [simp]:
  "s_Liveness (mergeProvisionalMetadata t p) = s_Liveness t"
  "s_Detail (mergeProvisionalMetadata t p) = s_Detail t"
  "s_Incarnation (mergeProvisionalMetadata t p) = s_Incarnation t"
  "s_SchemaVersion (mergeProvisionalMetadata t p) = s_SchemaVersion t"
  "s_ID (mergeProvisionalMetadata t p) = s_ID t"
  "s_Harness (mergeProvisionalMetadata t p) = s_Harness t"
  "s_Process (mergeProvisionalMetadata t p) = s_Process t"
  "s_Observations (mergeProvisionalMetadata t p) = s_Observations t"
  "s_CreatedAt (mergeProvisionalMetadata t p) = s_CreatedAt t"
  "s_UpdatedAt (mergeProvisionalMetadata t p) = s_UpdatedAt t"
  "s_Presence (mergeProvisionalMetadata t p) = s_Presence t"
  "s_Activity (mergeProvisionalMetadata t p) = s_Activity t"
  "s_Decision (mergeProvisionalMetadata t p) = s_Decision t"
  by (simp_all add: mergeProvisionalMetadata_def)

text \<open>
  Merging into a session with a complete process takes no report, sighting or reading from the
  session that disappears, so the merged session ends only if it had ended before.
\<close>

lemma mergeProvisional_wf:
  assumes t: "session_wf t" and p: "session_wf p"
    and proc: "s_Process t = Some q" "process_complete q"
  shows "session_wf (mergeProvisionalSession t p)" "s_ID (mergeProvisionalSession t p) = s_ID t"
proof -
  let ?m = "mergeProvisionalSession t p"
  have obs: "s_Observations ?m =
      mergeObservations (s_Observations t) (identity_only_evidence (s_Observations p))"
    using proc by (simp add: mergeProvisionalSession_def Let_def)
  have frame: "s_Liveness ?m = s_Liveness t" "s_Detail ?m = s_Detail t"
    "s_Incarnation ?m = s_Incarnation t" "s_SchemaVersion ?m = s_SchemaVersion t"
    "s_ID ?m = s_ID t" "s_Harness ?m = s_Harness t" "s_Process ?m = s_Process t"
    "s_Presence ?m = s_Presence t" "s_Activity ?m = s_Activity t" "s_Decision ?m = s_Decision t"
    using proc by (simp_all add: mergeProvisionalSession_def Let_def)
  have loc: "s_Location ?m \<in> {s_Location t, s_Location p}"
    using proc by (simp add: mergeProvisionalSession_def Let_def mergeProvisionalMetadata_def)
  have times: "0 < s_CreatedAt ?m \<and> s_CreatedAt ?m \<le> s_UpdatedAt ?m"
    using t p proc
    by (auto simp: mergeProvisionalSession_def Let_def session_wf_def session_core_def meta_wf_def
        maxTime_two)
  have slots: "slots_wf (s_Observations ?m)"
    unfolding obs using t p
    by (intro merged_slots_wf identity_only_slots) (simp_all add: session_wf_def session_core_def)
  have native: "o_Native (s_Observations ?m) = o_Native (s_Observations t)"
    by (simp add: obs mergeObservations_def mergeTerminalObservations_def identity_only_evidence_def)
  show "session_wf ?m"
    using t p loc times slots native
    by (auto simp: session_wf_def session_core_def meta_wf_def live_wf_def end_wf_def detail_wf_def frame)
  show "s_ID ?m = s_ID t" by (rule frame)
qed

lemma processMatch_found:
  assumes "findProcessMatchingSession m ob = k" "k \<noteq> []"
  obtains s p where "(k, s) \<in> set m" "s_Harness s = ob_Harness ob" "ob_Process ob = Some p"
    "process_complete p" "session_has_process s (Some p)" "\<not> observationIdentityConflicts s (ob_Subject ob)"
proof -
  obtain p where p: "ob_Process ob = Some p" "process_complete p"
    using assms by (auto simp: findProcessMatchingSession_def split: option.splits if_splits)
  then have "bestMatchingSessionID m (ob_Harness ob) (\<lambda>s. session_has_process s (Some p) \<and>
      \<not> observationIdentityConflicts s (ob_Subject ob)) = k"
    using assms(1) by (simp add: findProcessMatchingSession_def)
  then show thesis using assms(2) p that by (elim bestMatching_found) auto
qed

lemma session_has_process_complete:
  "session_has_process s (Some p) \<Longrightarrow> process_complete p \<Longrightarrow>
   \<exists>q. s_Process s = Some q \<and> process_complete q"
  using process_equal_complete by (auto simp: session_has_process_def split: option.splits)

lemma identityMatch_found:
  assumes "findIdentityMatchingSession m ob = k" "k \<noteq> []"
  obtains s where "(k, s) \<in> set m" "s_Harness s = ob_Harness ob"
    "oi_SessionID (ob_Subject ob) \<noteq> [] \<and> s_SessionID s = oi_SessionID (ob_Subject ob) \<or>
     oi_SessionPath (ob_Subject ob) \<noteq> [] \<and> s_SessionPath s \<noteq> [] \<and>
       path_clean (s_SessionPath s) = path_clean (oi_SessionPath (ob_Subject ob))"
proof -
  let ?P = "\<lambda>s. s_SessionID s = oi_SessionID (ob_Subject ob)"
  let ?Q = "\<lambda>s. s_SessionPath s \<noteq> [] \<and> path_clean (s_SessionPath s) = path_clean (oi_SessionPath (ob_Subject ob))"
  consider "oi_SessionID (ob_Subject ob) \<noteq> []" "bestMatchingSessionID m (ob_Harness ob) ?P = k"
    | "oi_SessionPath (ob_Subject ob) \<noteq> []" "bestMatchingSessionID m (ob_Harness ob) ?Q = k"
    using assms by (auto simp: findIdentityMatchingSession_def Let_def split: if_splits)
  then show thesis
  proof cases
    case 1
    show thesis
      by (rule bestMatching_found [OF 1(2) assms(2)]) (use 1(1) that in auto)
  next
    case 2
    show thesis
      by (rule bestMatching_found [OF 2(2) assms(2)]) (use 2(1) that in auto)
  qed
qed

lemma map_get_Some [simp]: "map_of m k = Some s \<Longrightarrow> map_get z k m = s"
  by (simp add: map_get_def)

lemma reconcile_wf:
  assumes m: "sessions_wf m" and red: "reducing ob at received"
    and iid: "findIdentityMatchingSession m ob = iid" and pid: "findProcessMatchingSession m ob = pid"
    and res: "reconcileIdentityProcessSessions m ob at iid pid = (m', absorbed)"
  shows "sessions_wf m'"
proof (cases "iid \<noteq> [] \<and> pid \<noteq> [] \<and> iid \<noteq> pid")
  case True
  obtain t p where t: "(pid, t) \<in> set m" and p: "ob_Process ob = Some p" "process_complete p"
    "session_has_process t (Some p)"
    using processMatch_found [OF pid] True by metis
  obtain prior where prior: "(iid, prior) \<in> set m"
    using identityMatch_found [OF iid] True by metis
  note t_wf = sessions_wf_mem [OF m t] and prior_wf = sessions_wf_mem [OF m prior]
  define m1 where "m1 = (if s_Process prior \<noteq> None \<and> \<not> session_has_process prior (ob_Process ob)
      then map_put iid (retire_prior ob at prior) m else m)"
  have m1: "sessions_wf m1"
    unfolding m1_def using m prior_wf retire_prior_wf [OF _ red] p(1) sessions_wf_put by simp
  have "map_of m1 iid \<noteq> None" using prior_wf by (simp add: m1_def)
  then obtain prov where prov: "map_of m1 iid = Some prov" by blast
  have target: "map_of m1 pid = Some t" using t_wf True by (auto simp: m1_def)
  obtain q where q: "s_Process t = Some q" "process_complete q"
    using session_has_process_complete p by blast
  have "m' = (if s_Process prov = None
      then map_del iid (map_put pid (mergeProvisionalSession t prov) m1) else m1)"
  proof -
    have "map_get zero_session iid m = prior" "map_get zero_session iid m1 = prov"
      "map_get zero_session pid m1 = t"
      using prior_wf prov target by simp_all
    then have "reconcileIdentityProcessSessions m ob at iid pid =
        (if s_Process prov = None
         then (map_del iid (map_put pid (mergeProvisionalSession t prov) m1), True) else (m1, False))"
      using True unfolding reconcileIdentityProcessSessions_def Let_def m1_def by presburger
    then show ?thesis using res by (auto split: if_splits)
  qed
  moreover have "sessions_wf (map_put pid (mergeProvisionalSession t prov) m1)"
    using mergeProvisional_wf [OF _ _ q] sessions_wf_get [OF m1 prov] t_wf m1 sessions_wf_put by simp
  ultimately show ?thesis using m1 sessions_wf_del by simp
qed (use res m in \<open>auto simp: reconcileIdentityProcessSessions_def\<close>)

lemma findAndReconcile_wf:
  assumes "sessions_wf m" "reducing ob at received"
    and "findAndReconcileMatchingSession m ob at = (m', found)"
  shows "sessions_wf m'"
  using assms reconcile_wf [OF assms(1,2) refl refl]
  by (auto simp: findAndReconcileMatchingSession_def Let_def split: if_splits prod.splits)

subsection \<open>Resumption\<close>

lemma absorb_resumed_frame [simp]:
  "s_Liveness (absorb_resumed ob p s) = s_Liveness s"
  "s_Detail (absorb_resumed ob p s) = s_Detail s"
  "s_SchemaVersion (absorb_resumed ob p s) = s_SchemaVersion s"
  "s_ID (absorb_resumed ob p s) = s_ID s"
  "s_Harness (absorb_resumed ob p s) = s_Harness s"
  "s_SessionID (absorb_resumed ob p s) = s_SessionID s"
  "s_SessionPath (absorb_resumed ob p s) = s_SessionPath s"
  "s_Process (absorb_resumed ob p s) = s_Process s"
  "s_CreatedAt (absorb_resumed ob p s) = s_CreatedAt s"
  "s_UpdatedAt (absorb_resumed ob p s) = s_UpdatedAt s"
  "s_Presence (absorb_resumed ob p s) = s_Presence s"
  "s_Activity (absorb_resumed ob p s) = s_Activity s"
  "s_Decision (absorb_resumed ob p s) = s_Decision s"
  by (simp_all add: absorb_resumed_def Let_def s_Presence_def s_Activity_def s_Decision_def
      split: option.split)

lemma absorb_resumed_incarnation:
  "s_Incarnation (absorb_resumed ob p s) = (s_Incarnation s)\<lparr>i_EvidenceAt :=
     maxTime [i_EvidenceAt (s_Incarnation s), i_EvidenceAt (s_Incarnation p)]\<rparr>"
  by (simp add: absorb_resumed_def Let_def split: option.split)

lemma absorb_resumed_native [simp]:
  "o_Native (s_Observations (absorb_resumed ob p s)) = o_Native (s_Observations s)"
  by (simp add: absorb_resumed_def Let_def split: option.split)

lemma evidence_time_wf [simp]:
  "process_wf (n\<lparr>i_EvidenceAt := x\<rparr>) q = process_wf n q"
  "incarnation_wf (n\<lparr>i_EvidenceAt := x\<rparr>) = incarnation_wf n"
  by (simp_all add: process_wf_def incarnationProcessMatches_def incarnation_wf_def)

lemma absorb_resumed_wf:
  assumes "session_wf s" "session_wf p"
  shows "session_wf (absorb_resumed ob p s)"
proof -
  have "slots_wf (s_Observations (absorb_resumed ob p s))"
    using assms by (auto simp: session_wf_def session_core_def slots_wf_def absorb_resumed_def Let_def
        split: option.split)
  moreover have "location_wf (s_Location (absorb_resumed ob p s))"
    using assms by (auto simp: session_wf_def session_core_def absorb_resumed_def Let_def split: option.split)
  ultimately show ?thesis
    using assms(1)
    by (auto simp: session_wf_def session_core_def meta_wf_def live_wf_def end_wf_def detail_wf_def
        absorb_resumed_incarnation)
qed

interpretation resume: invariant_loop "resume_turn ob"
  "\<lambda>st. sessions_wf (fst st) \<and> session_wf (snd st)" entry_wf for ob
proof
  fix st x st'
  assume "sessions_wf (fst st) \<and> session_wf (snd st)" "entry_wf x" "resume_turn ob st x = Inr st'"
  then show "sessions_wf (fst st') \<and> session_wf (snd st')"
    by (cases st)
      (auto simp: resume_turn_def entry_wf_def sessions_wf_del absorb_resumed_wf
        split: if_splits option.splits)
qed

lemma resume_keeps_id:
  "fold_result (resume_turn ob) (m, s) xs = Inr (m', s') \<Longrightarrow> s_ID s' = s_ID s"
proof (induction xs arbitrary: m s)
  case (Cons x xs)
  then obtain m1 s1 where step: "resume_turn ob (m, s) x = Inr (m1, s1)"
    and rest: "fold_result (resume_turn ob) (m1, s1) xs = Inr (m', s')"
    by (auto split: sum.splits)
  from step have "s_ID s1 = s_ID s"
    by (auto simp: resume_turn_def split: if_splits option.splits)
  then show ?case using Cons.IH [OF rest] by simp
qed simp

lemma reconcileResumed_wf:
  assumes "sessions_wf m" "session_wf s" "reconcileResumedProcessSession m s ob = Inr (m', s')"
  shows "sessions_wf m'" "session_wf s'" "s_ID s' = s_ID s"
  using assms resume.loop_keeps [of "(m, s)" m ob "(m', s')"] resume_keeps_id [of ob m s m m' s']
  by (auto simp: reconcileResumedProcessSession_def sessions_wf_def)

subsection \<open>One observation\<close>

lemma validateSequenceOrder_None:
  "validateSequenceOrder a b = None \<longleftrightarrow> a = None \<or> (\<exists>p c. a = Some p \<and> b = Some c \<and> p < c)"
  by (auto simp: validateSequenceOrder_def split: option.splits)

lemma sequencedTime_later:
  assumes "sequencedObservationTime s ob at = Inr at'" "\<not> duplicateSequencedReport s ob"
  shows "at \<le> at'"
  using assms
  by (auto simp: sequencedObservationTime_def Let_def nanosecond_def split: option.splits if_splits)

lemma observationTime_bounds:
  "observationTime o' r \<le> r" "observationTime o' r \<le> o'"
  "0 < o' \<Longrightarrow> 0 < r \<Longrightarrow> 0 < observationTime o' r"
  by (auto simp: observationTime_def)

lemma duplicate_has_native:
  "duplicateSequencedReport s ob \<Longrightarrow> o_Native (s_Observations s) \<noteq> None"
  by (auto simp: duplicateSequencedReport_def Let_def split: option.splits)

definition fresh_session :: "session \<Rightarrow> bool" where
  "fresh_session s \<longleftrightarrow> session_core s \<and> s_Observations s = zero_observations"

lemma fresh_slot: "s_Observations s = zero_observations \<Longrightarrow> sourceSlotTime s ob = 0"
  by (cases "ob_Evidence ob") (simp_all add: sourceSlotTime_def zero_observations_def Let_def)

lemma fresh_native [simp]: "fresh_session s \<Longrightarrow> o_Native (s_Observations s) = None"
  by (simp add: fresh_session_def zero_observations_def)

lemma report_slot:
  "ob_Kind ob = ''report'' \<Longrightarrow> o_Native (s_Observations s) = Some n \<Longrightarrow>
   sourceSlotTime s ob = n_ObservedAt n"
  by (auto simp: ob_Kind_iff sourceSlotTime_def Let_def)

lemma applyObservation_wf:
  fixes s :: session and ob :: observation
  defines "t at \<equiv> transitionIncarnation s ob at False"
  assumes s: "session_wf s \<or> fresh_session s" and acc: "t_accepted (t at0)"
    and ok: "observation_ok ob" and sane: "observation_sane received ob"
    and at: "0 < at" and received: "0 < received"
    and dated: "\<And>r. ob_Evidence ob = EvReport r \<Longrightarrow> pred_option (\<lambda>t. t \<le> at) (r_DetailObservedAt r)"
    and res: "applyObservation r ob at received (t at0) s = Inr s'"
  shows "session_wf s'" "s_ID s' = s_ID s"
proof -
  have core: "session_core s" using s session_wf_core fresh_session_def by blast
  consider (same) "s' = s" "sourceSlotTime s ob \<noteq> 0"
    | (new) "s' = update_session (re_Policy r (s_Harness s)) ob at received (t at0) s"
        "\<not> t_reset (t at0) \<Longrightarrow> \<not> t_terminal (t at0) \<Longrightarrow> sourceSlotTime s ob \<noteq> 0 \<Longrightarrow> sourceSlotTime s ob < at"
    using res by (auto simp: applyObservation_def Let_def split: if_splits)
  then show "session_wf s'"
  proof cases
    case same
    then show ?thesis using s fresh_slot by (auto simp: fresh_session_def)
  next
    case new
    have "n_ObservedAt n \<le> at"
      if "\<not> t_reset (t at0)" "\<not> t_terminal (t at0)" "ob_Kind ob = ''report''"
        "o_Native (s_Observations s) = Some n" for n
    proof -
      have "native_wf n" using core that(4) by (simp add: session_core_def slots_wf_def)
      then show ?thesis
        using new(2) that report_slot [OF that(3,4)] by (simp add: native_wf_def)
    qed
    then show ?thesis
      unfolding new(1) t_def
      by (intro update_session_wf [OF core acc [unfolded t_def] ok sane at received dated])
        (auto simp: t_def)
  qed
  show "s_ID s' = s_ID s"
    using res by (auto simp: applyObservation_def Let_def update_session_def split: if_splits)
qed

lemma detail_dated:
  assumes "observation_ok ob" "observation_sane received ob" "ob_Evidence ob = EvReport r"
    and "observationTime (ob_At ob) received \<le> at"
  shows "pred_option (\<lambda>t. t \<le> at) (r_DetailObservedAt r)"
  using assms
  by (cases "r_DetailObservedAt r")
    (auto simp: observation_ok_def validateEvidenceAt_def observation_sane_def observationTime_def
      split: option.splits if_splits)

lemma clear_native_duplicate: "\<not> duplicateSequencedReport (clear_native s) ob"
  by (simp add: duplicateSequencedReport_def clear_native_def Let_def)

lemma reduceSession_wf:
  assumes m: "sessions_wf m" and s: "session_wf s \<or> fresh_session s"
    and red: "reducing ob at received" and at: "observationTime (ob_At ob) received = at"
    and res: "reduceSession r m s ob at received = Inr (m', s')"
  shows "sessions_wf m'" "session_wf s'" "s_ID s' = s_ID s"
proof -
  let ?t = "transitionIncarnation s ob at False"
  define base where "base = (if t_reset ?t then clear_native s else s)"
  obtain at' where at': "sequencedObservationTime base ob at = Inr at'"
    using res by (auto simp: reduceSession_def base_def Let_def split: sum.splits)
  have "sessions_wf m' \<and> session_wf s' \<and> s_ID s' = s_ID s"
  proof (cases "duplicateSequencedReport base ob")
    case True
    then have "s_Observations s \<noteq> zero_observations"
      using duplicate_has_native [of s ob] clear_native_duplicate [of s ob]
      by (auto simp: base_def zero_observations_def split: if_splits)
    then show ?thesis
      using True res at' s m by (auto simp: reduceSession_def base_def Let_def fresh_session_def)
  next
    case False
    then have acc: "t_accepted ?t"
      using res at' by (auto simp: reduceSession_def base_def Let_def split: if_splits)
    obtain s1 where s1: "applyObservation r ob at' received ?t s = Inr s1"
      using res at' False acc by (auto simp: reduceSession_def base_def Let_def split: sum.splits)
    have le: "at \<le> at'" using sequencedTime_later [OF at' False] .
    have known: "observation_ok ob" "observation_sane received ob" "0 < at'" "0 < received"
      using red le by (auto simp: reducing_def)
    have dated: "pred_option (\<lambda>t. t \<le> at') (r_DetailObservedAt rr)" if "ob_Evidence ob = EvReport rr" for rr
      by (rule detail_dated [OF known(1,2) that]) (use at le in simp)
    note s1_wf = applyObservation_wf [OF s acc known dated s1]
    show ?thesis
      using res at' False acc s1 s1_wf m reconcileResumed_wf [of m s1 ob m' s']
      by (auto simp: reduceSession_def base_def Let_def split: if_splits)
  qed
  then show "sessions_wf m'" "session_wf s'" "s_ID s' = s_ID s" by auto
qed

lemma newSession_fresh:
  assumes "sid \<noteq> []" "h \<noteq> []" "0 < now"
  shows "fresh_session (newSession sid h now)"
proof -
  have live: "s_Liveness (newSession sid h now) = Unknown ActivityUnknown None"
    by (simp add: newSession_def NewLiveness_def)
  then have "s_Presence (newSession sid h now) = PresenceUnknown"
    "s_Activity (newSession sid h now) = Some ActivityUnknown"
    "s_Decision (newSession sid h now) = None"
    by (simp_all add: s_Presence_def s_Activity_def s_Decision_def)
  then show ?thesis
    using assms live
    by (simp add: fresh_session_def session_core_def meta_wf_def live_wf_def incarnation_wf_def
        state_agrees_def state_known_def process_wf_def incarnationProcessMatches_def location_wf_def
        slots_wf_def end_wf_def detail_wf_def newSession_def zero_incarnation_def zero_observations_def
        location_empty_def zero_location_def)
qed

lemma zero_session_id [simp]: "s_ID zero_session = []"
  by (simp add: zero_session_def)

lemma map_get_cases:
  obtains (found) s where "map_of m k = Some s" "map_get z k m = s" | (missing) "map_get z k m = z"
  by (cases "map_of m k") (auto simp: map_get_def)

lemma target_session_wf:
  assumes "sessions_wf m" "ob_Harness ob \<noteq> []" "0 < received"
  shows "session_wf (target_session r m ob received found) \<or>
    fresh_session (target_session r m ob received found)"
proof -
  define sid0 where "sid0 = (if found = [] then sessionIDForObservation r ob else found)"
  have sid0: "sid0 \<noteq> []" by (simp add: sid0_def)
  show ?thesis
  proof (cases rule: map_get_cases [where m = m and k = sid0 and z = zero_session])
    case (found s)
    then have "session_wf s" "s_ID s = sid0" using sessions_wf_get assms(1) by auto
    then show ?thesis
      using found sid0 newSession_fresh [OF _ assms(2,3)]
      by (simp add: target_session_def sid0_def [symmetric] Let_def)
  next
    case missing
    then show ?thesis
      using sid0 newSession_fresh [OF _ assms(2,3)]
      by (simp add: target_session_def sid0_def [symmetric] Let_def)
  qed
qed

lemma reduceOne_wf:
  assumes m: "sessions_wf m" and ok: "observation_ok ob" and sane: "observation_sane received ob"
    and received: "0 < received" and res: "reduceOne r m ob received = Inr (m', kept)"
  shows "sessions_wf m'" "pred_option session_wf kept"
proof -
  define at where "at = observationTime (ob_At ob) received"
  have "0 < ob_At ob" using ok sane by (auto simp: observation_ok_def observation_sane_def)
  then have red: "reducing ob at received"
    using ok sane received by (simp add: reducing_def at_def observationTime_bounds(3))
  obtain m1 where m1: "retireConflictingProcessSessions r m ob at received = Inr m1"
    using res by (auto simp: reduceOne_def at_def Let_def split: sum.splits)
  obtain m2 found where m2: "findAndReconcileMatchingSession m1 ob at = (m2, found)" by fastforce
  have wf1: "sessions_wf m1" by (rule retireConflicting_wf [OF m red m1])
  have wf2: "sessions_wf m2" by (rule findAndReconcile_wf [OF wf1 red m2])
  have target: "session_wf (target_session r m2 ob received found) \<or>
      fresh_session (target_session r m2 ob received found)"
    by (rule target_session_wf [OF wf2 _ received]) (use ok in \<open>simp add: observation_ok_def\<close>)
  have eq: "reduceOne r m ob received =
      (if found = [] \<and> \<not> observationCreatesSession r ob then Inr (m2, None)
       else case reduceSession r m2 (target_session r m2 ob received found) ob at received of
         Inl e \<Rightarrow> Inl e | Inr (m3, s) \<Rightarrow> Inr (map_put (s_ID s) s m3, Some s))"
    using m1 m2 by (simp add: reduceOne_def at_def Let_def)
  have "sessions_wf m' \<and> pred_option session_wf kept"
  proof (cases "found = [] \<and> \<not> observationCreatesSession r ob")
    case True
    then show ?thesis using res eq wf2 by auto
  next
    case False
    then obtain m3 s where m3: "reduceSession r m2 (target_session r m2 ob received found) ob at received = Inr (m3, s)"
      and out: "m' = map_put (s_ID s) s m3" "kept = Some s"
      using res eq by (auto split: sum.splits)
    show ?thesis
      using reduceSession_wf [OF wf2 target red at_def [symmetric] m3] out sessions_wf_put by simp
  qed
  then show "sessions_wf m'" "pred_option session_wf kept" by auto
qed

subsection \<open>A batch\<close>

lemma stamp_sane:
  "observation_sane received ob \<Longrightarrow> 0 < received \<Longrightarrow> observation_sane received (stamp received ob)"
  by (auto simp: observation_sane_def stamp_def)

lemma apply_one_wf:
  assumes "sessions_wf (sn_Sessions (bs_snap b))" "observation_sane received ob" "0 < received"
    and "apply_one r received b ob = Inr b'"
  shows "sessions_wf (sn_Sessions (bs_snap b'))"
proof -
  define o' where "o' = stamp received ob"
  have valid: "validateObservation (ru_Known (re_Rules r)) o' = None"
    using assms(4) by (auto simp: apply_one_def o'_def Let_def split: option.splits)
  then have ok: "observation_ok o'" by (simp add: validateObservation_ok)
  have sane: "observation_sane received o'" using stamp_sane assms(2,3) by (simp add: o'_def)
  show ?thesis
  proof (cases "reduceOne r (sn_Sessions (bs_snap b)) o' received")
    case (Inl e)
    then show ?thesis
      using assms(1,4) valid
      by (auto simp: apply_one_def o'_def [symmetric] Let_def split: if_splits)
  next
    case (Inr mk)
    obtain m kept where mk: "mk = (m, kept)" by fastforce
    have "sessions_wf m" using reduceOne_wf(1) [OF assms(1) ok sane assms(3)] Inr mk by blast
    then show ?thesis
      using assms(1,4) valid Inr mk
      by (auto simp: apply_one_def o'_def [symmetric] Let_def split: if_splits)
  qed
qed

interpretation batch: invariant_loop "poll_and_apply ctx r received"
  "\<lambda>b. 0 < received \<and> sessions_wf (sn_Sessions (bs_snap b))" "\<lambda>x. observation_sane received (snd x)"
  for ctx r received
proof
  fix b x b'
  assume "0 < received \<and> sessions_wf (sn_Sessions (bs_snap b))" "observation_sane received (snd x)"
    and "poll_and_apply ctx r received b x = Inr b'"
  then show "0 < received \<and> sessions_wf (sn_Sessions (bs_snap b'))"
    using apply_one_wf [of b received "snd x" r b'] by (auto simp: poll_and_apply_def split: if_splits)
qed

lemma enumerate_all: "list_all P xs \<Longrightarrow> list_all (\<lambda>x. P (snd x)) (enumerate n xs)"
  by (induction xs arbitrary: n) auto

lemma batch_wf:
  assumes "sessions_wf (sn_Sessions sn)" "list_all (observation_sane received) obs" "0 < received"
    and "applyObservationBatch ctx r sn obs received = Inr (sn', saved, ended)"
  shows "sessions_wf (sn_Sessions sn')"
proof -
  obtain b where b: "fold_result (poll_and_apply ctx r received)
      \<lparr>bs_snap = sn, bs_saved = [], bs_ended = 0\<rparr> (enumerate 0 obs) = Inr b"
    using assms(4) by (auto simp: applyObservationBatch_def split: sum.splits)
  have "sessions_wf (sn_Sessions (bs_snap b))"
    using batch.loop_keeps [OF _ enumerate_all [OF assms(2), of 0] b] assms(1,3) by simp
  then show ?thesis using assms(4) b by (auto simp: applyObservationBatch_def Let_def)
qed

subsection \<open>Expiry\<close>

lemma sessions_wf_fold_del:
  assumes "sessions_wf m"
  shows "sessions_wf (fst (foldl (\<lambda>(m', n) x. if P x then (map_del (fst x) m', n + 1) else (m', n)) (m, n) xs))"
  using assms by (induction xs arbitrary: m n) (auto simp: sessions_wf_del)

lemma deleteExpired_wf:
  "sessions_wf m \<Longrightarrow> sessions_wf (fst (deleteExpiredGoneSessions m now after at))"
  by (simp add: deleteExpiredGoneSessions_def sessions_wf_fold_del)

lemma remove_gone_turn_wf:
  "sessions_wf (sn_Sessions (fst st)) \<Longrightarrow> sessions_wf (sn_Sessions (fst (remove_gone_turn st x)))"
  by (cases st) (auto simp: remove_gone_turn_def Let_def sessions_wf_del)

lemma removeGone_wf:
  "sessions_wf (sn_Sessions sn) \<Longrightarrow> sessions_wf (sn_Sessions (fst (removeGoneProcessOnlySessions sn)))"
proof -
  have "sessions_wf (sn_Sessions (fst st)) \<Longrightarrow>
      sessions_wf (sn_Sessions (fst (foldl remove_gone_turn st xs)))" for st xs
    by (induction xs arbitrary: st) (auto simp: remove_gone_turn_wf)
  then show "sessions_wf (sn_Sessions sn) \<Longrightarrow> ?thesis"
    by (simp add: removeGoneProcessOnlySessions_def)
qed

lemma expireTombstones_wf:
  assumes "sessions_wf (sn_Sessions sn)"
  shows "sessions_wf (sn_Sessions (fst (expireTombstones sn now ttl)))"
proof -
  have fold: "sessions_wf m \<Longrightarrow> sessions_wf (fst (foldl (\<lambda>(m', k) x.
       if P x then (m', k) else (map_del (fst x) m', k + 1)) (m, n) xs))" for m P n and xs :: "(string \<times> session) list"
    by (induction xs arbitrary: m n) (auto simp: sessions_wf_del)
  obtain sn1 n1 where one: "removeGoneProcessOnlySessions sn = (sn1, n1)" by fastforce
  then have "sessions_wf (sn_Sessions sn1)" using removeGone_wf [OF assms] by simp
  then show ?thesis
    using fold [of "sn_Sessions sn1" "\<lambda>x. s_Presence (snd x) \<noteq> PresenceGone \<or>
        time_sub now (goneSince (snd x)) < ttl" n1 "sn_Sessions sn1"] one
    by (simp add: expireTombstones_def Let_def pruneEndedProcesses_def case_prod_beta)
qed

end
