(* ===== verification/Aht_Summary.thy ===== *)
theory Aht_Summary
  imports Aht_Query
begin

section \<open>Counting sessions by group: \<open>summary.go\<close>\<close>

text \<open>
  Sessions are grouped by multiplexer session, project or harness, and counted by presence and
  activity. The Go map from group keys to summaries and the slice of keys in order of first
  appearance are one association list here, which grows at its end. \<open>lower\<close> is
  \<open>strings.ToLower\<close>, whose Unicode tables no property depends on.
\<close>

datatype group_by = ByMultiplexerSession | ByProject | ByHarness | ByOther string

record group_key =
  g_groupBy :: group_by
  g_kind :: multiplexer_kind
  g_server :: string
  g_id :: string
  g_name :: string
  g_projectRoot :: string
  g_harness :: harness

record summary =
  u_GroupBy :: group_by
  u_GroupKey :: string
  u_GroupLabel :: string
  u_Project :: string
  u_ProjectRoot :: string
  u_Harness :: harness
  u_MultiplexerKind :: multiplexer_kind
  u_MultiplexerServerID :: string
  u_MultiplexerSessionID :: string
  u_MultiplexerSessionName :: string
  u_Total :: nat
  u_Live :: nat
  u_Gone :: nat
  u_PresenceUnknown :: nat
  u_Running :: nat
  u_Waiting :: nat
  u_Idle :: nat
  u_Failed :: nat
  u_Interrupted :: nat
  u_ActivityUnknown :: nat

definition group_valid :: "group_by \<Rightarrow> bool" where
  "group_valid g = (g = ByMultiplexerSession \<or> g = ByProject \<or> g = ByHarness)"

subsection \<open>Group keys\<close>

definition multiplexerSummaryKey :: "session \<Rightarrow> group_key \<times> string \<times> string" where
  "multiplexerSummaryKey s =
     (let l = s_Location s;
          key = \<lparr>g_groupBy = ByMultiplexerSession, g_kind = l_Kind l, g_server = l_ServerID l,
                 g_id = l_SessionID l,
                 g_name = (if l_SessionID l \<noteq> '''' then '''' else l_SessionName l),
                 g_projectRoot = [], g_harness = []\<rparr>;
          label = (if l_SessionName l \<noteq> '''' then l_SessionName l
                   else if l_SessionID l \<noteq> '''' then l_SessionID l else ''unknown'');
          id_or_name = or_string (g_id key) (g_name key);
          key_string = (if g_server key \<noteq> ''''
                        then g_kind key @ '':'' @ g_server key @ '':'' @ id_or_name
                        else if id_or_name \<noteq> '''' then g_kind key @ '':'' @ id_or_name
                        else ''unknown'')
      in (key, label, key_string))"

definition project_key :: "string \<Rightarrow> group_key" where
  "project_key root =
     \<lparr>g_groupBy = ByProject, g_kind = [], g_server = [], g_id = [], g_name = [],
      g_projectRoot = root, g_harness = []\<rparr>"

definition projectSummaryKey :: "session \<Rightarrow> group_key \<times> string \<times> string" where
  "projectSummaryKey s =
     (if s_ProjectRoot s = '''' then (project_key [], ''unknown'', '''')
      else let cleaned = path_clean (s_ProjectRoot s); base = path_base cleaned;
               label = (if base = '''' \<or> base = ''.'' \<or> base = ''/'' then cleaned else base)
        in (project_key cleaned, label, cleaned))"

definition harnessSummaryKey :: "session \<Rightarrow> group_key \<times> string \<times> string" where
  "harnessSummaryKey s =
     (\<lparr>g_groupBy = ByHarness, g_kind = [], g_server = [], g_id = [], g_name = [],
       g_projectRoot = [], g_harness = s_Harness s\<rparr>,
      (if s_Harness s = '''' then ''unknown'' else s_Harness s), s_Harness s)"

definition sessionGroupKey :: "session \<Rightarrow> group_by \<Rightarrow> group_key \<times> string \<times> string" where
  "sessionGroupKey s g =
     (case g of
        ByProject \<Rightarrow> projectSummaryKey s
      | ByHarness \<Rightarrow> harnessSummaryKey s
      | ByMultiplexerSession \<Rightarrow> multiplexerSummaryKey s
      | ByOther _ \<Rightarrow> multiplexerSummaryKey s)"

subsection \<open>Counting\<close>

definition empty_summary :: "group_by \<Rightarrow> string \<Rightarrow> string \<Rightarrow> summary" where
  "empty_summary g label key_string =
     \<lparr>u_GroupBy = g, u_GroupKey = key_string, u_GroupLabel = label, u_Project = [],
      u_ProjectRoot = [], u_Harness = [], u_MultiplexerKind = [], u_MultiplexerServerID = [],
      u_MultiplexerSessionID = [], u_MultiplexerSessionName = [], u_Total = 0, u_Live = 0,
      u_Gone = 0, u_PresenceUnknown = 0, u_Running = 0, u_Waiting = 0, u_Idle = 0, u_Failed = 0,
      u_Interrupted = 0, u_ActivityUnknown = 0\<rparr>"

definition newSummaryForGroup ::
    "session \<Rightarrow> group_by \<Rightarrow> group_key \<Rightarrow> string \<Rightarrow> string \<Rightarrow> summary" where
  "newSummaryForGroup s g key label key_string =
     (let u = empty_summary g label key_string; l = s_Location s;
          mux = u\<lparr>u_MultiplexerKind := l_Kind l, u_MultiplexerServerID := l_ServerID l,
                  u_MultiplexerSessionID := l_SessionID l,
                  u_MultiplexerSessionName := l_SessionName l\<rparr>
      in case g of
           ByProject \<Rightarrow> u\<lparr>u_Project := label, u_ProjectRoot := g_projectRoot key\<rparr>
         | ByHarness \<Rightarrow> u\<lparr>u_Harness := s_Harness s\<rparr>
         | ByMultiplexerSession \<Rightarrow> mux
         | ByOther _ \<Rightarrow> mux)"

definition addActivity :: "activity option \<Rightarrow> summary \<Rightarrow> summary" where
  "addActivity a u =
     (case a of
        Some ActivityRunning \<Rightarrow> u\<lparr>u_Running := u_Running u + 1\<rparr>
      | Some ActivityWaiting \<Rightarrow> u\<lparr>u_Waiting := u_Waiting u + 1\<rparr>
      | Some ActivityIdle \<Rightarrow> u\<lparr>u_Idle := u_Idle u + 1\<rparr>
      | Some ActivityFailed \<Rightarrow> u\<lparr>u_Failed := u_Failed u + 1\<rparr>
      | Some ActivityInterrupted \<Rightarrow> u\<lparr>u_Interrupted := u_Interrupted u + 1\<rparr>
      | _ \<Rightarrow> u\<lparr>u_ActivityUnknown := u_ActivityUnknown u + 1\<rparr>)"

definition addSession :: "session \<Rightarrow> summary \<Rightarrow> summary" where
  "addSession s u =
     (let u1 = u\<lparr>u_Total := u_Total u + 1\<rparr>;
          u2 = (case s_Presence s of
                  PresenceLive \<Rightarrow> u1\<lparr>u_Live := u_Live u1 + 1\<rparr>
                | PresenceGone \<Rightarrow> u1\<lparr>u_Gone := u_Gone u1 + 1\<rparr>
                | _ \<Rightarrow> u1\<lparr>u_PresenceUnknown := u_PresenceUnknown u1 + 1\<rparr>)
      in if s_Presence s = PresenceGone then u2 else addActivity (s_Activity s) u2)"

definition summary_turn ::
    "group_by \<Rightarrow> (group_key \<times> summary) list \<Rightarrow> session \<Rightarrow> (group_key \<times> summary) list" where
  "summary_turn g groups s =
     (let (key, label, key_string) = sessionGroupKey s g;
          u = deref_or (newSummaryForGroup s g key label key_string) (map_of groups key)
      in AList.update key (addSession s u) groups)"

definition summary_groups :: "group_by \<Rightarrow> session list \<Rightarrow> (group_key \<times> summary) list" where
  "summary_groups g ss = foldl (summary_turn g) [] ss"

subsection \<open>Sorting\<close>

definition empty_last :: "bool \<Rightarrow> bool \<Rightarrow> int" where
  "empty_last a b = (if a = b then 0 else if a then 1 else -1)"

definition mux_empty :: "summary \<Rightarrow> bool" where
  "mux_empty u =
     (u_MultiplexerKind u = '''' \<and> u_MultiplexerServerID u = '''' \<and>
      u_MultiplexerSessionID u = '''' \<and> u_MultiplexerSessionName u = '''')"

definition compare_multiplexer :: "summary \<Rightarrow> summary \<Rightarrow> int" where
  "compare_multiplexer a b =
     cmp_or
       [empty_last (mux_empty a) (mux_empty b),
        compare (u_MultiplexerKind a) (u_MultiplexerKind b),
        compare (u_MultiplexerServerID a) (u_MultiplexerServerID b),
        compare (u_MultiplexerSessionName a) (u_MultiplexerSessionName b),
        compare (u_MultiplexerSessionID a) (u_MultiplexerSessionID b),
        compare (u_GroupKey a) (u_GroupKey b)]"

definition compare_project :: "(string \<Rightarrow> string) \<Rightarrow> summary \<Rightarrow> summary \<Rightarrow> int" where
  "compare_project lower a b =
     cmp_or
       [empty_last (u_ProjectRoot a = '''') (u_ProjectRoot b = ''''),
        compare (lower (u_GroupLabel a)) (lower (u_GroupLabel b)),
        compare (u_GroupLabel a) (u_GroupLabel b),
        compare (u_ProjectRoot a) (u_ProjectRoot b),
        compare (u_GroupKey a) (u_GroupKey b)]"

definition compare_harness :: "(string \<Rightarrow> string) \<Rightarrow> summary \<Rightarrow> summary \<Rightarrow> int" where
  "compare_harness lower a b =
     cmp_or
       [empty_last (u_Harness a = '''') (u_Harness b = ''''),
        compare (lower (u_Harness a)) (lower (u_Harness b)),
        compare (u_Harness a) (u_Harness b),
        compare (u_GroupKey a) (u_GroupKey b)]"

definition compare_summaries :: "(string \<Rightarrow> string) \<Rightarrow> group_by \<Rightarrow> summary \<Rightarrow> summary \<Rightarrow> int" where
  "compare_summaries lower g a b =
     (case g of
        ByMultiplexerSession \<Rightarrow> compare_multiplexer a b
      | ByProject \<Rightarrow> compare_project lower a b
      | ByHarness \<Rightarrow> compare_harness lower a b
      | ByOther _ \<Rightarrow> compare (u_GroupKey a) (u_GroupKey b))"

definition sortSummaries :: "(string \<Rightarrow> string) \<Rightarrow> group_by \<Rightarrow> summary list \<Rightarrow> summary list" where
  "sortSummaries lower g us = sort_func (compare_summaries lower g) us"

definition SummariesWithOptions :: "(string \<Rightarrow> string) \<Rightarrow> session list \<Rightarrow> group_by \<Rightarrow> summary list" where
  "SummariesWithOptions lower ss opt =
     (let g = (if opt = ByOther [] then ByMultiplexerSession else opt)
      in sortSummaries lower g (map snd (summary_groups g ss)))"

definition Summaries :: "(string \<Rightarrow> string) \<Rightarrow> session list \<Rightarrow> summary list" where
  "Summaries lower ss = SummariesWithOptions lower ss ByMultiplexerSession"

subsection \<open>The counts add up\<close>

definition balanced :: "summary \<Rightarrow> bool" where
  "balanced u \<longleftrightarrow>
     u_Total u = u_Live u + u_Gone u + u_PresenceUnknown u \<and>
     u_Live u + u_PresenceUnknown u =
       u_Running u + u_Waiting u + u_Idle u + u_Failed u + u_Interrupted u + u_ActivityUnknown u"

lemma addActivity_counts [simp]:
  "u_Total (addActivity a u) = u_Total u" "u_Live (addActivity a u) = u_Live u"
  "u_Gone (addActivity a u) = u_Gone u" "u_PresenceUnknown (addActivity a u) = u_PresenceUnknown u"
  "u_Running (addActivity a u) + u_Waiting (addActivity a u) + u_Idle (addActivity a u) +
     u_Failed (addActivity a u) + u_Interrupted (addActivity a u) + u_ActivityUnknown (addActivity a u) =
   Suc (u_Running u + u_Waiting u + u_Idle u + u_Failed u + u_Interrupted u + u_ActivityUnknown u)"
  by (simp_all add: addActivity_def split: option.split activity.split)

lemma addSession_total [simp]: "u_Total (addSession s u) = Suc (u_Total u)"
  by (simp add: addSession_def Let_def split: presence.split)

lemma addSession_balanced: "balanced u \<Longrightarrow> balanced (addSession s u)"
  using presence_cases [of s] by (auto simp: balanced_def addSession_def Let_def)

lemma newSummary_counts:
  "balanced (newSummaryForGroup s g key label ks)" "u_Total (newSummaryForGroup s g key label ks) = 0"
  by (simp_all add: balanced_def newSummaryForGroup_def empty_summary_def Let_def split: group_by.split)

definition group_of :: "group_by \<Rightarrow> session \<Rightarrow> group_key" where
  "group_of g s = fst (sessionGroupKey s g)"

lemma summary_turn_map:
  "map_of (summary_turn g groups s) =
     (map_of groups)(group_of g s \<mapsto> addSession s
        (deref_or (newSummaryForGroup s g (group_of g s) (fst (snd (sessionGroupKey s g)))
                     (snd (snd (sessionGroupKey s g)))) (map_of groups (group_of g s))))"
  by (simp add: summary_turn_def group_of_def AList.update_conv' case_prod_beta Let_def)

lemma summary_turn_distinct: "distinct (map fst groups) \<Longrightarrow> distinct (map fst (summary_turn g groups s))"
  by (simp add: summary_turn_def case_prod_beta Let_def AList.distinct_update)

lemma summary_fold_distinct:
  "distinct (map fst groups) \<Longrightarrow> distinct (map fst (foldl (summary_turn g) groups ss))"
  by (induction ss arbitrary: groups) (auto simp: summary_turn_distinct)

text \<open>The summary of a key counts the sessions of that key, and no other key has a summary.\<close>

lemma summary_fold_counts:
  assumes "\<And>k u. map_of groups k = Some u \<Longrightarrow> balanced u"
  shows "(case map_of (foldl (summary_turn g) groups ss) k of
       None \<Rightarrow> map_of groups k = None \<and> filter (\<lambda>s. group_of g s = k) ss = []
     | Some u \<Rightarrow> balanced u \<and>
         u_Total u = (case map_of groups k of None \<Rightarrow> 0 | Some v \<Rightarrow> u_Total v) +
                     length (filter (\<lambda>s. group_of g s = k) ss) \<and>
         (map_of groups k \<noteq> None \<or> filter (\<lambda>s. group_of g s = k) ss \<noteq> []))"
  using assms
proof (induction ss arbitrary: groups)
  case Nil
  then show ?case by (auto split: option.split)
next
  case (Cons s ss)
  let ?g1 = "summary_turn g groups s"
  have bal: "balanced u" if "map_of ?g1 k' = Some u" for k' u
    using that Cons.prems newSummary_counts(1) addSession_balanced
    by (cases "map_of groups (group_of g s)") (auto simp: summary_turn_map split: if_splits)
  show ?case
    using Cons.IH [of ?g1] bal newSummary_counts(2)
    by (cases "map_of groups (group_of g s)")
      (auto simp: summary_turn_map split: option.splits if_splits)
qed

lemma summary_groups_count:
  "map_of (summary_groups g ss) k = Some u \<Longrightarrow>
     balanced u \<and> u_Total u = length (filter (\<lambda>s. group_of g s = k) ss) \<and> 0 < u_Total u"
  using summary_fold_counts [where groups = "[]" and g = g and ss = ss and k = k] by (auto simp: summary_groups_def)

lemma summary_groups_keys:
  "map_of (summary_groups g ss) k \<noteq> None \<longleftrightarrow> k \<in> group_of g ` set ss"
  using summary_fold_counts [where groups = "[]" and g = g and ss = ss and k = k]
  by (auto simp: summary_groups_def filter_empty_conv split: option.splits)

lemma length_filter_count: "length (filter (\<lambda>s. f s = k) xs) = count (mset (map f xs)) k"
  by (induction xs) auto

lemma summary_groups_total: "sum_list (map (u_Total \<circ> snd) (summary_groups g ss)) = length ss"
proof -
  let ?gs = "summary_groups g ss"
  have dist: "distinct (map fst ?gs)" by (simp add: summary_groups_def summary_fold_distinct)
  have total: "(u_Total \<circ> snd) x = length (filter (\<lambda>s. group_of g s = fst x) ss)" if "x \<in> set ?gs" for x
    using summary_groups_count [of g ss "fst x" "snd x"] that dist by simp
  have keys: "set (map fst ?gs) = group_of g ` set ss"
    using summary_groups_keys [of g ss] by (auto simp: map_of_eq_None_iff)
  have "sum_list (map (u_Total \<circ> snd) ?gs) =
      sum_list (map (\<lambda>k. length (filter (\<lambda>s. group_of g s = k) ss)) (map fst ?gs))"
    using total by (simp add: comp_def cong: map_cong)
  also have "\<dots> = (\<Sum>k \<in> group_of g ` set ss. count (mset (map (group_of g) ss)) k)"
    unfolding length_filter_count sum_list_distinct_conv_sum_set [OF dist] keys ..
  also have "\<dots> = length ss"
    using size_multiset_overloaded_eq [of "mset (map (group_of g) ss)"] by simp
  finally show ?thesis .
qed

subsection \<open>The order of summaries\<close>

lemma empty_last_comparator: "comparator (\<lambda>a b. empty_last (f a) (f b)) A"
  by unfold_locales (auto simp: empty_last_def split: if_splits)

lemma compare_multiplexer_comparator: "comparator compare_multiplexer UNIV"
  using comparator_cmp_or [of UNIV
    "[\<lambda>a b. empty_last (mux_empty a) (mux_empty b),
      \<lambda>a b. compare (u_MultiplexerKind a) (u_MultiplexerKind b),
      \<lambda>a b. compare (u_MultiplexerServerID a) (u_MultiplexerServerID b),
      \<lambda>a b. compare (u_MultiplexerSessionName a) (u_MultiplexerSessionName b),
      \<lambda>a b. compare (u_MultiplexerSessionID a) (u_MultiplexerSessionID b),
      \<lambda>a b. compare (u_GroupKey a) (u_GroupKey b)]"]
  unfolding compare_multiplexer_def [abs_def]
  by (simp only: list.map list.pred_inject comparator_key empty_last_comparator simp_thms True_implies_equals)

lemma compare_project_comparator: "comparator (compare_project lower) UNIV"
  using comparator_cmp_or [of UNIV
    "[\<lambda>a b. empty_last (u_ProjectRoot a = '''') (u_ProjectRoot b = ''''),
      \<lambda>a b. compare (lower (u_GroupLabel a)) (lower (u_GroupLabel b)),
      \<lambda>a b. compare (u_GroupLabel a) (u_GroupLabel b),
      \<lambda>a b. compare (u_ProjectRoot a) (u_ProjectRoot b),
      \<lambda>a b. compare (u_GroupKey a) (u_GroupKey b)]"]
  unfolding compare_project_def [abs_def]
  by (simp only: list.map list.pred_inject comparator_key empty_last_comparator simp_thms True_implies_equals)

lemma compare_harness_comparator: "comparator (compare_harness lower) UNIV"
  using comparator_cmp_or [of UNIV
    "[\<lambda>a b. empty_last (u_Harness a = '''') (u_Harness b = ''''),
      \<lambda>a b. compare (lower (u_Harness a)) (lower (u_Harness b)),
      \<lambda>a b. compare (u_Harness a) (u_Harness b),
      \<lambda>a b. compare (u_GroupKey a) (u_GroupKey b)]"]
  unfolding compare_harness_def [abs_def]
  by (simp only: list.map list.pred_inject comparator_key empty_last_comparator simp_thms True_implies_equals)

interpretation summary_order: comparator "compare_summaries lower g" UNIV for lower g
  using compare_multiplexer_comparator compare_project_comparator compare_harness_comparator
    comparator_key [of u_GroupKey UNIV]
  by (cases g) (simp_all add: compare_summaries_def [abs_def])

lemma Summaries_sorted:
  "sorted_wrt (\<lambda>a b. compare_summaries lower (if g = ByOther [] then ByMultiplexerSession else g) a b \<le> 0)
     (SummariesWithOptions lower ss g)"
  unfolding SummariesWithOptions_def sortSummaries_def Let_def
  by (rule summary_order.sorted_sort_func) simp

end
