(* ===== verification/Aht_Journal.thy ===== *)
theory Aht_Journal
  imports Aht_Sessions Aht_Summary
begin

section \<open>The journal and the file store: \<open>journal.go\<close>, \<open>journal_read.go\<close>, \<open>store.go\<close>\<close>

text \<open>
  A store on disk is a snapshot and a journal of commands accepted since. A reader folds the
  journal into the snapshot; a writer appends one command, or rewrites the snapshot and empties
  the journal. The disk is the decoded content of the two files: the bytes, their size limits,
  the locks and the directory are not modelled. How a write ends is the parameter
  \<open>io\<close>, so a failed write is a branch, and a crash between two writes is one of the states a
  write goes through.
\<close>

record journal_entry =
  je_Sequence :: "64 word"
  je_ReceivedAt :: time
  je_Observations :: "observation list"
  je_DeleteAfter :: "duration option"
  je_Reset :: bool

record decoded_entry =
  dj_entry :: journal_entry
  dj_rejected :: "(nat \<times> reg_error) list"

record journal_result =
  jr_changes :: "change list"
  jr_sessions :: "session list"
  jr_deleted :: nat
  jr_remaining :: nat
  jr_cleared :: int
  jr_reset_remaining :: nat
  jr_ended :: nat

definition zero_result :: journal_result where
  "zero_result =
     \<lparr>jr_changes = [], jr_sessions = [], jr_deleted = 0, jr_remaining = 0, jr_cleared = 0,
      jr_reset_remaining = 0, jr_ended = 0\<rparr>"

subsection \<open>Applying one command to a snapshot\<close>

definition applyJournalEntry ::
    "go_ctx \<Rightarrow> reducer \<Rightarrow> snapshot \<Rightarrow> journal_entry \<Rightarrow> reg_error + snapshot \<times> journal_result" where
  "applyJournalEntry ctx r sn e =
     (let prior = sn_Sessions sn;
          finish = (\<lambda>out res.
            let out' = out\<lparr>sn_JournalSequence := je_Sequence e\<rparr>
            in (out', res\<lparr>jr_changes := stateChanges prior (sn_Sessions out')\<rparr>))
      in if je_Reset e then
           Inr (finish (newSnapshot\<lparr>sn_UpdatedAt := je_ReceivedAt e\<rparr>)
             (zero_result\<lparr>jr_cleared := int (length (sn_Sessions sn))\<rparr>))
         else case je_DeleteAfter e of
           Some after \<Rightarrow>
             let (m, n) = deleteExpiredGoneSessions (sn_Sessions sn) (je_ReceivedAt e) after
                            s_PresenceChangedAt;
                 sn1 = sn\<lparr>sn_Sessions := m\<rparr>;
                 sn2 = (if after \<ge> 0 then pruneEndedProcesses sn1 (je_ReceivedAt e) after else sn1)
             in Inr (finish (sn2\<lparr>sn_UpdatedAt := maxTime [sn_UpdatedAt sn2, je_ReceivedAt e]\<rparr>)
                  (zero_result\<lparr>jr_deleted := n, jr_remaining := length m\<rparr>))
         | None \<Rightarrow>
             (case applyObservationBatch ctx r sn (je_Observations e) (je_ReceivedAt e) of
                Inl err \<Rightarrow> Inl err
              | Inr (sn1, saved, ended) \<Rightarrow>
                  Inr (finish (fst (removeGoneProcessOnlySessions sn1))
                    (zero_result\<lparr>jr_sessions := saved, jr_ended := ended\<rparr>))))"

text \<open>The map copy that makes a failed command leave the state alone; it forgets the dropped errors.\<close>

definition cloneRegistrySnapshotForMutation :: "snapshot \<Rightarrow> snapshot" where
  "cloneRegistrySnapshotForMutation sn = sn\<lparr>sn_dropped := []\<rparr>"

subsection \<open>Folding\<close>

definition first_rejection :: "decoded_entry \<Rightarrow> reg_error option" where
  "first_rejection d =
     (case find (\<lambda>i. map_of (dj_rejected d) i \<noteq> None) [0 ..< length (je_Observations (dj_entry d))] of
        None \<Rightarrow> None
      | Some i \<Rightarrow> map_of (dj_rejected d) i)"

text \<open>A context is polled once per observation of an entry; entries are numbered in the fold.\<close>

definition fold_entry ::
    "(nat \<Rightarrow> go_ctx) \<Rightarrow> reducer \<Rightarrow> snapshot \<Rightarrow> nat \<times> decoded_entry \<Rightarrow> reg_error + snapshot" where
  "fold_entry ctx r sn x =
     (let d = snd x; e = dj_entry d in
      if je_Sequence e \<le> sn_JournalSequence sn then Inr sn
      else case first_rejection d of
        Some err \<Rightarrow> Inl err
      | None \<Rightarrow>
          (case applyJournalEntry (ctx (fst x)) r sn e of
             Inl err \<Rightarrow> Inl err
           | Inr (sn', _) \<Rightarrow> Inr sn'))"

definition foldJournal ::
    "(nat \<Rightarrow> go_ctx) \<Rightarrow> reducer \<Rightarrow> snapshot \<Rightarrow> decoded_entry list \<Rightarrow> reg_error + snapshot" where
  "foldJournal ctx r sn ds = fold_result (fold_entry ctx r) sn (enumerate 0 ds)"

subsection \<open>Replaying, one observation at a time\<close>

definition rejectable :: "reg_error \<Rightarrow> bool" where
  "rejectable e =
     (case e of ErrObservationConflict _ \<Rightarrow> True | ErrInvalidObservation _ \<Rightarrow> True | _ \<Rightarrow> False)"

type_synonym rejection = "64 word \<times> nat \<times> reg_error"

definition replayObservation ::
    "go_ctx \<Rightarrow> reducer \<Rightarrow> snapshot \<Rightarrow> journal_entry \<Rightarrow> observation
     \<Rightarrow> reg_error + snapshot \<times> reg_error list" where
  "replayObservation ctx r candidate e ob =
     (case applyJournalEntry ctx r (cloneRegistrySnapshotForMutation candidate)
             (e\<lparr>je_Observations := [ob]\<rparr>) of
        Inl err \<Rightarrow> if rejectable err then Inr (candidate, [err]) else Inl err
      | Inr (out, _) \<Rightarrow> Inr (out\<lparr>sn_dropped := []\<rparr>, sn_dropped out))"

definition replay_step ::
    "(nat \<Rightarrow> go_ctx) \<Rightarrow> reducer \<Rightarrow> decoded_entry \<Rightarrow> snapshot \<times> rejection list
     \<Rightarrow> nat \<times> observation \<Rightarrow> reg_error + snapshot \<times> rejection list" where
  "replay_step ctx r d st x =
     (let (candidate, rejected) = st; i = fst x; e = dj_entry d in
      case map_of (dj_rejected d) i of
        Some err \<Rightarrow> Inr (candidate, rejected @ [(je_Sequence e, i, err)])
      | None \<Rightarrow>
          (case replayObservation (ctx i) r candidate e (snd x) of
             Inl err \<Rightarrow> Inl err
           | Inr (out, dropped) \<Rightarrow>
               Inr (out, rejected @ map (\<lambda>err. (je_Sequence e, i, err)) dropped)))"

definition replayObservations ::
    "(nat \<Rightarrow> go_ctx) \<Rightarrow> reducer \<Rightarrow> snapshot \<Rightarrow> decoded_entry
     \<Rightarrow> reg_error + snapshot \<times> rejection list" where
  "replayObservations ctx r candidate d =
     fold_result (replay_step ctx r d) (candidate, []) (enumerate 0 (je_Observations (dj_entry d)))"

definition replay_entry ::
    "(nat \<Rightarrow> nat \<Rightarrow> go_ctx) \<Rightarrow> reducer \<Rightarrow> snapshot \<times> rejection list \<Rightarrow> nat \<times> decoded_entry
     \<Rightarrow> reg_error + snapshot \<times> rejection list" where
  "replay_entry ctx r st x =
     (let (candidate, rejected) = st; e = dj_entry (snd x) in
      if je_Sequence e \<le> sn_JournalSequence candidate then Inr (candidate, rejected)
      else if je_Reset e \<or> je_DeleteAfter e \<noteq> None then
        (case applyJournalEntry (ctx (fst x) 0) r candidate e of
           Inl err \<Rightarrow> Inl err
         | Inr (out, _) \<Rightarrow> Inr (out, rejected))
      else case replayObservations (ctx (fst x)) r candidate (snd x) of
        Inl err \<Rightarrow> Inl err
      | Inr (out, dropped) \<Rightarrow>
          Inr (out\<lparr>sn_JournalSequence := je_Sequence e,
                   sn_UpdatedAt := maxTime [sn_UpdatedAt out, je_ReceivedAt e]\<rparr>,
               rejected @ dropped))"

definition replayJournal ::
    "(nat \<Rightarrow> nat \<Rightarrow> go_ctx) \<Rightarrow> reducer \<Rightarrow> snapshot \<Rightarrow> decoded_entry list
     \<Rightarrow> reg_error + snapshot \<times> rejection list" where
  "replayJournal ctx r previous ds =
     fold_result (replay_entry ctx r) (cloneRegistrySnapshotForMutation previous, []) (enumerate 0 ds)"

subsection \<open>The disk\<close>

record disk =
  dk_Snapshot :: "snapshot option"
  dk_Journal :: "decoded_entry list"

text \<open>
  A write either succeeds, or fails and leaves the file alone, or reaches the file and then
  reports an error because it could not be synced.
\<close>

datatype write_result = Written | Failed | Unsynced

record io =
  io_append :: write_result
  io_snapshot :: write_result
  io_truncate :: write_result
  io_publish :: write_result

text \<open>What the codec writes and reads back: the exported fields.\<close>

definition encoded_snapshot :: "snapshot \<Rightarrow> snapshot" where
  "encoded_snapshot sn = sn\<lparr>sn_dropped := []\<rparr>"

definition loadSnapshot :: "disk \<Rightarrow> reg_error + snapshot" where
  "loadSnapshot d =
     (case dk_Snapshot d of
        None \<Rightarrow> Inr newSnapshot
      | Some sn \<Rightarrow>
          if sn_SchemaVersion sn \<noteq> storeSchemaVersion
          then Inl (ErrStorage ''unsupported store schema'')
          else (case validateSnapshot sn of Some e \<Rightarrow> Inl e | None \<Rightarrow> Inr sn))"

definition loadLocked :: "(nat \<Rightarrow> go_ctx) \<Rightarrow> reducer \<Rightarrow> disk \<Rightarrow> reg_error + snapshot" where
  "loadLocked ctx r d =
     (case loadSnapshot d of
        Inl e \<Rightarrow> Inl e
      | Inr sn \<Rightarrow>
          (case foldJournal ctx r sn (dk_Journal d) of
             Inl e \<Rightarrow> Inl e
           | Inr out \<Rightarrow> (case validateSnapshot out of Some e \<Rightarrow> Inl e | None \<Rightarrow> Inr out)))"

text \<open>A journal entry the code wrote decodes without a rejected observation.\<close>

definition encoded_entry :: "journal_entry \<Rightarrow> decoded_entry" where
  "encoded_entry e = \<lparr>dj_entry = e, dj_rejected = []\<rparr>"

definition appendJournal :: "io \<Rightarrow> journal_entry \<Rightarrow> disk \<Rightarrow> reg_error option \<times> disk" where
  "appendJournal io e d =
     (let d1 = d\<lparr>dk_Journal := dk_Journal d @ [encoded_entry e]\<rparr> in
      case io_append io of
        Failed \<Rightarrow> (Some (ErrStorage ''appending journal''), d)
      | Unsynced \<Rightarrow> (Some (ErrStorage ''syncing journal''), d1)
      | Written \<Rightarrow> (None, d1))"

definition persistJournalSnapshot :: "io \<Rightarrow> snapshot \<Rightarrow> disk \<Rightarrow> reg_error option \<times> disk" where
  "persistJournalSnapshot io sn d =
     (let d1 = d\<lparr>dk_Snapshot := Some (encoded_snapshot sn)\<rparr> in
      case io_snapshot io of
        Failed \<Rightarrow> (Some (ErrStorage ''writing store''), d)
      | Unsynced \<Rightarrow> (Some (ErrStorage ''syncing directory''), d1)
      | Written \<Rightarrow>
          (case io_truncate io of
             Failed \<Rightarrow> (Some (ErrStorage ''truncating journal''), d1)
           | Unsynced \<Rightarrow> (Some (ErrStorage ''syncing journal''), d1\<lparr>dk_Journal := []\<rparr>)
           | Written \<Rightarrow> (None, d1\<lparr>dk_Journal := []\<rparr>)))"

definition resetJournalPosition :: "disk \<Rightarrow> 64 word \<Rightarrow> int \<Rightarrow> 64 word \<times> int" where
  "resetJournalPosition d sq cleared =
     (let (s1, c1) = (case dk_Snapshot d of
            None \<Rightarrow> (sq, cleared)
          | Some sn \<Rightarrow> (max sq (sn_JournalSequence sn),
                        if cleared < 0 then int (length (sn_Sessions sn)) else cleared))
      in (fold (\<lambda>x s. max s (je_Sequence (dj_entry x))) (dk_Journal d) s1, max c1 0))"

definition reset_entry :: "64 word \<Rightarrow> time \<Rightarrow> journal_entry" where
  "reset_entry sq at =
     \<lparr>je_Sequence = sq, je_ReceivedAt = at, je_Observations = [], je_DeleteAfter = None,
      je_Reset = True\<rparr>"

definition reset_snapshot :: "64 word \<Rightarrow> time \<Rightarrow> snapshot" where
  "reset_snapshot sq at = newSnapshot\<lparr>sn_JournalSequence := sq, sn_UpdatedAt := at\<rparr>"

definition resetJournalSnapshot ::
    "bool \<Rightarrow> io \<Rightarrow> disk \<Rightarrow> time \<Rightarrow> 64 word \<Rightarrow> int
     \<Rightarrow> (reg_error + snapshot \<times> journal_result) \<times> disk" where
  "resetJournalSnapshot cancelled io d at sq0 cleared0 =
     (let (sq, cleared) = resetJournalPosition d sq0 cleared0 in
      if sq = - 1 then (Inl ErrJournalSequenceExhausted, d)
      else if cancelled then (Inl ErrContext, d)
      else let sn = reset_snapshot (sq + 1) at;
               d1 = d\<lparr>dk_Journal := [encoded_entry (reset_entry (sq + 1) at)]\<rparr>
        in case io_publish io of
             Failed \<Rightarrow> (Inl (ErrStorage ''publishing reset''), d)
           | Unsynced \<Rightarrow> (Inl (ErrStorage ''syncing directory''), d1)
           | Written \<Rightarrow>
               (case persistJournalSnapshot io sn d1 of
                  (Some e, d2) \<Rightarrow> (Inl e, d2)
                | (None, d2) \<Rightarrow> (Inr (sn, zero_result\<lparr>jr_cleared := cleared\<rparr>), d2)))"

subsection \<open>The file store as a writer\<close>

datatype owner_lock = OwnerFree | OwnerHeld | OwnerError

record call_ctx =
  cx_fold :: "nat \<Rightarrow> go_ctx"
  cx_apply :: go_ctx
  cx_commit :: bool

definition transactLocked ::
    "call_ctx \<Rightarrow> reducer \<Rightarrow> io \<Rightarrow> owner_lock \<Rightarrow> disk \<Rightarrow> journal_entry
     \<Rightarrow> (reg_error + journal_result) \<times> disk" where
  "transactLocked ctx r io owner d e =
     (if je_Reset e then
        (case resetJournalSnapshot (cx_commit ctx) io d (je_ReceivedAt e) 0 (- 1) of
           (Inl err, d') \<Rightarrow> (Inl err, d')
         | (Inr (_, res), d') \<Rightarrow> (Inr res, d'))
      else case loadSnapshot d of
        Inl err \<Rightarrow> (Inl err, d)
      | Inr sn0 \<Rightarrow>
          (case foldJournal (cx_fold ctx) r sn0 (dk_Journal d) of
             Inl err \<Rightarrow> (Inl err, d)
           | Inr sn \<Rightarrow>
               let e' = e\<lparr>je_Sequence := sn_JournalSequence sn + 1\<rparr> in
               (case applyJournalEntry (cx_apply ctx) r sn e' of
                  Inl err \<Rightarrow> (Inl err, d)
                | Inr (out, res) \<Rightarrow>
                    (case validateSnapshot out of
                       Some err \<Rightarrow> (Inl err, d)
                     | None \<Rightarrow>
                         if cx_commit ctx then (Inl ErrContext, d)
                         else (case owner of
                             OwnerError \<Rightarrow> (Inl (ErrStorage ''owner lock''), d)
                           | OwnerFree \<Rightarrow>
                               (case persistJournalSnapshot io out d of
                                  (Some err, d') \<Rightarrow> (Inl err, d')
                                | (None, d') \<Rightarrow> (Inr res, d'))
                           | OwnerHeld \<Rightarrow>
                               (case appendJournal io e' d of
                                  (Some err, d') \<Rightarrow> (Inl err, d')
                                | (None, d') \<Rightarrow> (Inr res, d')))))))"

definition observe_entry :: "time \<Rightarrow> observation list \<Rightarrow> journal_entry" where
  "observe_entry now obs =
     \<lparr>je_Sequence = 0, je_ReceivedAt = now, je_Observations = obs, je_DeleteAfter = None,
      je_Reset = False\<rparr>"

definition gc_entry :: "time \<Rightarrow> duration \<Rightarrow> journal_entry" where
  "gc_entry now after =
     \<lparr>je_Sequence = 0, je_ReceivedAt = now, je_Observations = [], je_DeleteAfter = Some after,
      je_Reset = False\<rparr>"

subsection \<open>The file store as a reader\<close>

definition served_session :: "reducer \<Rightarrow> time \<Rightarrow> session \<Rightarrow> session" where
  "served_session r now s =
     resolveDetail (re_Policy r (s_Harness s)) now (s\<lparr>s_SchemaVersion := storeSchemaVersion\<rparr>)"

definition FileStore_Get :: "(nat \<Rightarrow> go_ctx) \<Rightarrow> reducer \<Rightarrow> disk \<Rightarrow> time \<Rightarrow> string \<Rightarrow> reg_error + session" where
  "FileStore_Get ctx r d now k =
     (case loadLocked ctx r d of
        Inl e \<Rightarrow> Inl e
      | Inr sn \<Rightarrow>
          (case map_of (sn_Sessions sn) k of
             None \<Rightarrow> Inl ErrSessionNotFound
           | Some s \<Rightarrow> Inr (served_session r now s)))"

definition watchSnapshot ::
    "file_system \<Rightarrow> (nat \<Rightarrow> go_ctx) \<Rightarrow> reducer \<Rightarrow> disk \<Rightarrow> time \<Rightarrow> session_filter
     \<Rightarrow> reg_error + session list \<times> time" where
  "watchSnapshot fs ctx r d now f =
     (case loadLocked ctx r d of
        Inl e \<Rightarrow> Inl e
      | Inr sn \<Rightarrow>
          Inr (FilterSessions fs (map (\<lambda>x. served_session r now (snd x)) (sn_Sessions sn)) f,
               sn_UpdatedAt sn))"

definition SummaryWithOptions ::
    "(string \<Rightarrow> string) \<Rightarrow> file_system \<Rightarrow> (nat \<Rightarrow> go_ctx) \<Rightarrow> reducer \<Rightarrow> disk \<Rightarrow> time \<Rightarrow> session_filter
     \<Rightarrow> group_by \<Rightarrow> reg_error + summary list" where
  "SummaryWithOptions lower fs ctx r d now f g =
     (if g \<noteq> ByOther [] \<and> \<not> group_valid g then Inl ErrUnsupportedGroupBy
      else case watchSnapshot fs ctx r d now f of
        Inl e \<Rightarrow> Inl e
      | Inr (ss, _) \<Rightarrow> Inr (SummariesWithOptions lower ss g))"

definition Journal_Observe ::
    "call_ctx \<Rightarrow> reducer \<Rightarrow> io \<Rightarrow> owner_lock \<Rightarrow> disk \<Rightarrow> time \<Rightarrow> observation
     \<Rightarrow> (reg_error + session) \<times> disk" where
  "Journal_Observe ctx r io owner d now ob =
     (case transactLocked ctx r io owner d (observe_entry now [ob]) of
        (Inl e, d') \<Rightarrow> (Inl e, d')
      | (Inr res, d') \<Rightarrow>
          (case jr_sessions res of
             s # _ \<Rightarrow> (Inr s, d')
           | [] \<Rightarrow>
               if jr_ended res > 0 then (Inl ErrProcessEnded, d')
               else case loadLocked (cx_fold ctx) r d' of
                 Inl e \<Rightarrow> (Inl e, d')
               | Inr sn \<Rightarrow>
                   let found = findMatchingSession (sn_Sessions sn) ob in
                   (FileStore_Get (cx_fold ctx) r d' now
                      (if found = '''' then sessionIDForObservation r ob else found), d')))"

end
