(* ===== verification/Aht_Durability.thy ===== *)
theory Aht_Durability
  imports Aht_Journal
begin

section \<open>What the journal and the snapshot promise together\<close>

text \<open>
  A reader that finds any of the states a writer leaves behind, including those of a write that
  failed half-way, loads the state before the command or the state after it. The theory proves
  this for appending, for checkpointing and for resetting, and that a fold keeps the sessions
  well formed.
\<close>

subsection \<open>Contexts that are never cancelled\<close>

definition calm :: "nat \<Rightarrow> go_ctx" where
  "calm = (\<lambda>_ _. False)"

lemma fold_result_calm:
  assumes "\<And>s x s'. f s x = Inr s' \<Longrightarrow> g s x = Inr s'" "fold_result f s xs = Inr s'"
  shows "fold_result g s xs = Inr s'"
  using assms(2)
proof (induction xs arbitrary: s)
  case (Cons x xs)
  then obtain s1 where "f s x = Inr s1" "fold_result f s1 xs = Inr s'" by (auto split: sum.splits)
  then show ?case using Cons.IH [of s1] assms(1) [of s x s1] by simp
qed simp

lemma batch_calm:
  assumes "applyObservationBatch ctx r sn obs received = Inr out"
  shows "applyObservationBatch (\<lambda>_. False) r sn obs received = Inr out"
proof -
  obtain b where b: "fold_result (poll_and_apply ctx r received)
      \<lparr>bs_snap = sn, bs_saved = [], bs_ended = 0\<rparr> (enumerate 0 obs) = Inr b"
    using assms by (auto simp: applyObservationBatch_def split: sum.splits)
  have "fold_result (poll_and_apply (\<lambda>_. False) r received)
      \<lparr>bs_snap = sn, bs_saved = [], bs_ended = 0\<rparr> (enumerate 0 obs) = Inr b"
    by (rule fold_result_calm [OF _ b]) (auto simp: poll_and_apply_def split: if_splits)
  then show ?thesis using assms b by (simp add: applyObservationBatch_def)
qed

lemma applyJournalEntry_calm:
  "applyJournalEntry ctx r sn e = Inr out \<Longrightarrow> applyJournalEntry (\<lambda>_. False) r sn e = Inr out"
  by (auto simp: applyJournalEntry_def Let_def batch_calm split: if_splits option.splits sum.splits
      dest: batch_calm)

lemma fold_entry_calm: "fold_entry ctx r sn x = Inr out \<Longrightarrow> fold_entry calm r sn x = Inr out"
  by (auto simp: fold_entry_def calm_def Let_def split: if_splits option.splits sum.splits
      dest: applyJournalEntry_calm)

lemma foldJournal_calm: "foldJournal ctx r sn ds = Inr out \<Longrightarrow> foldJournal calm r sn ds = Inr out"
  unfolding foldJournal_def by (rule fold_result_calm [where f = "fold_entry ctx r"]) (rule fold_entry_calm)

lemma fold_result_map:
  "(\<And>s x. f s x = g s (h x)) \<Longrightarrow> fold_result f s xs = fold_result g s (map h xs)"
  by (induction xs arbitrary: s) (simp_all split: sum.split)

lemma foldJournal_calm_simps:
  "foldJournal calm r sn [] = Inr sn"
  "foldJournal calm r sn (d # ds) =
     (case fold_entry calm r sn (0, d) of Inl e \<Rightarrow> Inl e | Inr sn' \<Rightarrow> foldJournal calm r sn' ds)"
  "foldJournal calm r sn (ds @ es) =
     (case foldJournal calm r sn ds of Inl e \<Rightarrow> Inl e | Inr sn' \<Rightarrow> foldJournal calm r sn' es)"
proof -
  have *: "fold_result (fold_entry calm r) s (enumerate n xs) =
      fold_result (\<lambda>s d. fold_entry calm r s (0, d)) s xs" for s n xs
    using fold_result_map [where f = "fold_entry calm r" and g = "\<lambda>s d. fold_entry calm r s (0, d)"
        and h = snd and s = s and xs = "enumerate n xs"]
    by (simp add: fold_entry_def calm_def)
  show "foldJournal calm r sn [] = Inr sn" by (simp add: foldJournal_def)
  show "foldJournal calm r sn (d # ds) =
     (case fold_entry calm r sn (0, d) of Inl e \<Rightarrow> Inl e | Inr sn' \<Rightarrow> foldJournal calm r sn' ds)"
    "foldJournal calm r sn (ds @ es) =
     (case foldJournal calm r sn ds of Inl e \<Rightarrow> Inl e | Inr sn' \<Rightarrow> foldJournal calm r sn' es)"
    unfolding foldJournal_def * by (simp_all add: fold_result_append)
qed

subsection \<open>Sequence numbers\<close>

abbreviation entry_sequence :: "decoded_entry \<Rightarrow> 64 word" where
  "entry_sequence d \<equiv> je_Sequence (dj_entry d)"

lemma applyJournalEntry_sequence:
  "applyJournalEntry ctx r sn e = Inr (out, res) \<Longrightarrow> sn_JournalSequence out = je_Sequence e"
  by (auto simp: applyJournalEntry_def Let_def split: if_splits option.splits sum.splits prod.splits)

lemma fold_entry_sequence:
  assumes "fold_entry ctx r sn x = Inr out"
  shows "sn_JournalSequence out = max (sn_JournalSequence sn) (entry_sequence (snd x))"
  using assms
  by (auto simp: fold_entry_def Let_def max_def not_le split: if_splits option.splits sum.splits
      dest: applyJournalEntry_sequence)

lemma foldJournal_sequence:
  "foldJournal calm r sn ds = Inr out \<Longrightarrow>
   sn_JournalSequence out = fold (\<lambda>d s. max s (entry_sequence d)) ds (sn_JournalSequence sn)"
proof (induction ds arbitrary: sn)
  case (Cons d ds)
  then obtain sn1 where "fold_entry calm r sn (0, d) = Inr sn1" "foldJournal calm r sn1 ds = Inr out"
    by (auto simp: foldJournal_calm_simps split: sum.splits)
  then show ?case using Cons.IH [of sn1] fold_entry_sequence by fastforce
qed (simp add: foldJournal_calm_simps)

lemma fold_max_le:
  "(s :: 64 word) \<le> fold (\<lambda>d s. max s (entry_sequence d)) ds s"
  "d \<in> set ds \<Longrightarrow> entry_sequence d \<le> fold (\<lambda>d s. max s (entry_sequence d)) ds s"
proof -
  show base: "s \<le> fold (\<lambda>d s. max s (entry_sequence d)) ds s" for s
    by (induction ds arbitrary: s) (auto intro: order_trans [OF max.cobounded1])
  show "d \<in> set ds \<Longrightarrow> entry_sequence d \<le> fold (\<lambda>d s. max s (entry_sequence d)) ds s"
  proof (induction ds arbitrary: s)
    case (Cons a ds)
    have *: "x \<le> fold (\<lambda>d s. max s (entry_sequence d)) ds x" for x
      by (induction ds arbitrary: x) (auto intro: order_trans [OF max.cobounded1])
    show ?case using Cons * [of "max s (entry_sequence a)"] by auto
  qed simp
qed

text \<open>Entries at or before the sequence of a snapshot do nothing to it.\<close>

lemma foldJournal_skip:
  "(\<And>d. d \<in> set ds \<Longrightarrow> entry_sequence d \<le> sn_JournalSequence sn) \<Longrightarrow> foldJournal calm r sn ds = Inr sn"
  by (induction ds) (auto simp: foldJournal_calm_simps fold_entry_def)

lemma foldJournal_applied:
  assumes "foldJournal calm r sn ds = Inr out" "d \<in> set ds"
  shows "entry_sequence d \<le> sn_JournalSequence out"
  using foldJournal_sequence [OF assms(1)] fold_max_le(2) [OF assms(2)] by simp

subsection \<open>The errors a snapshot remembers do not matter\<close>

text \<open>Two snapshots that encode alike differ in the dropped errors only.\<close>

definition same_store :: "snapshot \<Rightarrow> snapshot \<Rightarrow> bool" where
  "same_store sn sn' \<longleftrightarrow> encoded_snapshot sn = encoded_snapshot sn'"

lemma same_store_fields:
  assumes "same_store sn sn'"
  shows "sn_Sessions sn = sn_Sessions sn'" "sn_EndedProcesses sn = sn_EndedProcesses sn'"
    "sn_JournalSequence sn = sn_JournalSequence sn'" "sn_UpdatedAt sn = sn_UpdatedAt sn'"
    "sn_SchemaVersion sn = sn_SchemaVersion sn'"
  using assms by (cases sn; cases sn'; simp add: same_store_def encoded_snapshot_def)+

lemma same_storeI:
  "sn_Sessions sn = sn_Sessions sn' \<Longrightarrow> sn_EndedProcesses sn = sn_EndedProcesses sn' \<Longrightarrow>
   sn_JournalSequence sn = sn_JournalSequence sn' \<Longrightarrow> sn_UpdatedAt sn = sn_UpdatedAt sn' \<Longrightarrow>
   sn_SchemaVersion sn = sn_SchemaVersion sn' \<Longrightarrow> same_store sn sn'"
  by (cases sn; cases sn'; simp add: same_store_def encoded_snapshot_def)

lemma same_store_iff:
  "same_store sn sn' \<longleftrightarrow> sn_Sessions sn = sn_Sessions sn' \<and> sn_EndedProcesses sn = sn_EndedProcesses sn' \<and>
     sn_JournalSequence sn = sn_JournalSequence sn' \<and> sn_UpdatedAt sn = sn_UpdatedAt sn' \<and>
     sn_SchemaVersion sn = sn_SchemaVersion sn'"
  using same_store_fields same_storeI by blast

lemma encoded_same [simp]: "same_store (encoded_snapshot sn) sn"
  by (simp add: same_store_def encoded_snapshot_def)

lemma fold_result_rel:
  assumes "\<And>s s' x. R s s' \<Longrightarrow> rel_sum (=) R (f s x) (f s' x)" "R s s'"
  shows "rel_sum (=) R (fold_result f s xs) (fold_result f s' xs)"
  using assms(2)
proof (induction xs arbitrary: s s')
  case (Cons x xs)
  show ?case using assms(1) [OF Cons.prems, of x] Cons.IH by (auto elim!: rel_sum.cases)
qed simp

definition same_batch :: "batch_state \<Rightarrow> batch_state \<Rightarrow> bool" where
  "same_batch b b' \<longleftrightarrow>
     same_store (bs_snap b) (bs_snap b') \<and> bs_saved b = bs_saved b' \<and> bs_ended b = bs_ended b'"

lemma apply_one_same:
  assumes "same_batch b b'"
  shows "rel_sum (=) same_batch (apply_one r received b ob) (apply_one r received b' ob)"
proof -
  have same: "same_store (bs_snap b) (bs_snap b')" using assms by (simp add: same_batch_def)
  note f = same_store_fields [OF same]
  have e: "endedProcessReport (bs_snap b) o' = endedProcessReport (bs_snap b') o'"
    "dropped_session (bs_snap b) o' = dropped_session (bs_snap b') o'" for o'
    by (simp_all only: endedProcessReport_def dropped_session_def f)
  show ?thesis
    using f assms
    by (auto simp: apply_one_def e same_batch_def same_store_iff Let_def
        split: option.split sum.split prod.split)
qed

lemma batch_same:
  assumes "same_store sn sn'"
  shows "rel_sum (=) (\<lambda>(a, x) (b, y). same_store a b \<and> x = y)
     (applyObservationBatch ctx r sn obs received) (applyObservationBatch ctx r sn' obs received)"
proof -
  let ?s = "\<lambda>sn. \<lparr>bs_snap = sn, bs_saved = [], bs_ended = 0\<rparr>"
  have "rel_sum (=) same_batch (fold_result (poll_and_apply ctx r received) (?s sn) (enumerate 0 obs))
      (fold_result (poll_and_apply ctx r received) (?s sn') (enumerate 0 obs))"
    by (rule fold_result_rel)
      (use assms in \<open>auto simp: poll_and_apply_def same_batch_def intro!: apply_one_same\<close>)
  then show ?thesis
    by (auto simp: applyObservationBatch_def Let_def same_batch_def same_store_iff elim!: rel_sum.cases)
qed

lemma removeGone_same:
  assumes "same_store sn sn'"
  shows "same_store (fst (removeGoneProcessOnlySessions sn)) (fst (removeGoneProcessOnlySessions sn'))"
proof -
  have turn: "same_store (fst st) (fst st') \<Longrightarrow> same_store (fst (remove_gone_turn st x)) (fst (remove_gone_turn st' x))"
    for st st' :: "snapshot \<times> nat" and x
    by (cases st; cases st') (auto simp: remove_gone_turn_def same_store_iff Let_def split: option.split)
  have "same_store (fst st) (fst st') \<Longrightarrow>
      same_store (fst (foldl remove_gone_turn st xs)) (fst (foldl remove_gone_turn st' xs))"
    for st st' :: "snapshot \<times> nat" and xs
    by (induction xs arbitrary: st st') (simp_all add: turn)
  then show ?thesis
    using assms same_store_fields(1) [OF assms] by (simp add: removeGoneProcessOnlySessions_def)
qed

lemma prune_same: "same_store sn sn' \<Longrightarrow> same_store (pruneEndedProcesses sn t d) (pruneEndedProcesses sn' t d)"
  by (simp add: pruneEndedProcesses_def same_store_iff)

lemma applyJournalEntry_same:
  assumes "same_store sn sn'"
  shows "rel_sum (=) (\<lambda>(a, x) (b, y). same_store a b \<and> x = y)
     (applyJournalEntry ctx r sn e) (applyJournalEntry ctx r sn' e)"
proof -
  note f = same_store_fields [OF assms]
  show ?thesis
  proof (cases "je_Reset e \<or> je_DeleteAfter e \<noteq> None")
    case True
    then show ?thesis
      using f
      by (auto simp: applyJournalEntry_def Let_def same_store_iff pruneEndedProcesses_def
          split: prod.split)
  next
    case False
    have gone: "same_store ((fst (removeGoneProcessOnlySessions a))\<lparr>sn_JournalSequence := q\<rparr>)
        ((fst (removeGoneProcessOnlySessions b))\<lparr>sn_JournalSequence := q\<rparr>)"
      "sn_Sessions (fst (removeGoneProcessOnlySessions a)) = sn_Sessions (fst (removeGoneProcessOnlySessions b))"
      if "same_store a b" for a b q
      using removeGone_same [OF that] by (simp_all add: same_store_iff)
    show ?thesis
      using batch_same [OF assms, of ctx r "je_Observations e" "je_ReceivedAt e"] False f(1)
      by (auto simp: applyJournalEntry_def Let_def gone elim!: rel_sum.cases)
  qed
qed

lemma foldJournal_same:
  assumes "same_store sn sn'"
  shows "rel_sum (=) same_store (foldJournal ctx r sn ds) (foldJournal ctx r sn' ds)"
  unfolding foldJournal_def
proof (rule fold_result_rel [where R = "\<lambda>a b. same_store a b" and s = sn and s' = sn'])
  show "same_store sn sn'" by (rule assms)
next
  fix a b :: snapshot and x :: "nat \<times> decoded_entry"
  assume ab: "same_store a b"
  have "rel_sum (=) (\<lambda>(a, x) (b, y). same_store a b \<and> x = y)
      (applyJournalEntry (ctx (fst x)) r a (dj_entry (snd x)))
      (applyJournalEntry (ctx (fst x)) r b (dj_entry (snd x)))"
    by (rule applyJournalEntry_same [OF ab])
  then show "rel_sum (=) same_store (fold_entry ctx r a x) (fold_entry ctx r b x)"
    using ab same_store_fields(3) [OF ab]
    by (auto simp: fold_entry_def Let_def split: option.split elim!: rel_sum.cases)
qed

subsection \<open>Commands are atomic\<close>

interpretation schema: invariant_loop "poll_and_apply ctx r received"
  "\<lambda>b. sn_SchemaVersion (bs_snap b) = v" "\<lambda>_. True" for ctx r received v
  by unfold_locales
    (auto simp: poll_and_apply_def apply_one_def Let_def split: if_splits option.splits sum.splits prod.splits)

lemma batch_schema:
  assumes "applyObservationBatch ctx r sn obs received = Inr (out, saved, ended)"
  shows "sn_SchemaVersion out = sn_SchemaVersion sn"
proof -
  obtain b where b: "fold_result (poll_and_apply ctx r received)
      \<lparr>bs_snap = sn, bs_saved = [], bs_ended = 0\<rparr> (enumerate 0 obs) = Inr b"
    using assms by (auto simp: applyObservationBatch_def split: sum.splits)
  have "sn_SchemaVersion (bs_snap b) = sn_SchemaVersion sn"
    by (rule schema.loop_keeps [OF _ _ b]) (simp_all add: list_all_iff)
  then show ?thesis using assms b by (auto simp: applyObservationBatch_def Let_def)
qed

lemma removeGone_schema [simp]:
  "sn_SchemaVersion (fst (removeGoneProcessOnlySessions sn)) = sn_SchemaVersion sn"
proof -
  have "sn_SchemaVersion (fst (foldl remove_gone_turn st xs)) = sn_SchemaVersion (fst st)" for st xs
    by (induction xs arbitrary: st) (auto simp: remove_gone_turn_def Let_def split: prod.splits)
  then show ?thesis by (simp add: removeGoneProcessOnlySessions_def)
qed

lemma applyJournalEntry_schema:
  assumes "applyJournalEntry ctx r sn e = Inr (out, res)" "sn_SchemaVersion sn = storeSchemaVersion"
  shows "sn_SchemaVersion out = storeSchemaVersion"
  using assms
  by (auto simp: applyJournalEntry_def Let_def newSnapshot_def pruneEndedProcesses_def
      split: if_splits option.splits sum.splits prod.splits dest: batch_schema)

lemma fold_entry_schema:
  "fold_entry ctx r sn x = Inr out \<Longrightarrow> sn_SchemaVersion sn = storeSchemaVersion \<Longrightarrow>
   sn_SchemaVersion out = storeSchemaVersion"
  by (auto simp: fold_entry_def Let_def split: if_splits option.splits sum.splits
      dest: applyJournalEntry_schema)

lemma foldJournal_schema:
  "foldJournal calm r sn ds = Inr out \<Longrightarrow> sn_SchemaVersion sn = storeSchemaVersion \<Longrightarrow>
   sn_SchemaVersion out = storeSchemaVersion"
proof (induction ds arbitrary: sn)
  case (Cons d ds)
  then show ?case by (auto simp: foldJournal_calm_simps split: sum.splits dest: fold_entry_schema)
qed (simp add: foldJournal_calm_simps)

lemma loadSnapshot_schema: "loadSnapshot d = Inr sn \<Longrightarrow> sn_SchemaVersion sn = storeSchemaVersion"
  by (auto simp: loadSnapshot_def newSnapshot_def split: option.splits if_splits)

text \<open>What the store of a disk is.\<close>

definition loads :: "reducer \<Rightarrow> disk \<Rightarrow> snapshot \<Rightarrow> bool" where
  "loads r d sn \<longleftrightarrow> (\<exists>x. loadLocked calm r d = Inr x \<and> same_store x sn)"

lemma loadedE:
  assumes "loadLocked calm r d = Inr sn"
  obtains sn0 where "loadSnapshot d = Inr sn0" "foldJournal calm r sn0 (dk_Journal d) = Inr sn"
    "validateSnapshot sn = None" "sn_SchemaVersion sn = storeSchemaVersion"
    "\<And>x. x \<in> set (dk_Journal d) \<Longrightarrow> entry_sequence x \<le> sn_JournalSequence sn"
proof -
  obtain sn0 where "loadSnapshot d = Inr sn0" "foldJournal calm r sn0 (dk_Journal d) = Inr sn"
    "validateSnapshot sn = None"
    using assms by (auto simp: loadLocked_def split: sum.splits option.splits)
  then show thesis
    using that foldJournal_schema [OF _ loadSnapshot_schema] foldJournal_applied by blast
qed

lemma loads_refl: "loadLocked calm r d = Inr sn \<Longrightarrow> loads r d sn"
  by (auto simp: loads_def same_store_def)

lemma validate_same: "same_store a b \<Longrightarrow> validateSnapshot a = validateSnapshot b"
  by (simp add: validateSnapshot_def same_store_fields(1))

lemma word_less_succ: "(x :: 64 word) \<noteq> - 1 \<Longrightarrow> x < x + 1"
  using unatSuc [of x] by (auto simp: word_less_nat_alt add.commute add_eq_0_iff)

lemma append_loads:
  assumes old: "loadLocked calm r d = Inr sn" and seq: "je_Sequence e = sn_JournalSequence sn + 1"
    and room: "sn_JournalSequence sn \<noteq> - 1"
    and new: "applyJournalEntry ctx r sn e = Inr (out, res)" and valid: "validateSnapshot out = None"
  shows "loads r (d\<lparr>dk_Journal := dk_Journal d @ [encoded_entry e]\<rparr>) out"
proof -
  obtain sn0 where sn0: "loadSnapshot d = Inr sn0" "foldJournal calm r sn0 (dk_Journal d) = Inr sn"
    using old by (rule loadedE)
  have "\<not> sn_JournalSequence sn + 1 \<le> sn_JournalSequence sn"
    using word_less_succ [OF room] by simp
  then have "fold_entry calm r sn (0, encoded_entry e) = Inr out"
    using applyJournalEntry_calm [OF new] seq
    by (simp add: fold_entry_def encoded_entry_def first_rejection_def find_None_iff Let_def calm_def
        split: option.split)
  then have "foldJournal calm r sn0 (dk_Journal d @ [encoded_entry e]) = Inr out"
    using sn0(2) by (simp add: foldJournal_calm_simps)
  then have "loadLocked calm r (d\<lparr>dk_Journal := dk_Journal d @ [encoded_entry e]\<rparr>) = Inr out"
    using sn0(1) valid by (simp add: loadLocked_def loadSnapshot_def)
  then show ?thesis by (rule loads_refl)
qed

lemma checkpoint_loads:
  assumes "sn_SchemaVersion out = storeSchemaVersion" "validateSnapshot out = None"
    and "\<And>x. x \<in> set ds \<Longrightarrow> entry_sequence x \<le> sn_JournalSequence out"
  shows "loads r (d\<lparr>dk_Snapshot := Some (encoded_snapshot out), dk_Journal := ds\<rparr>) out"
proof -
  have valid: "validateSnapshot (encoded_snapshot out) = None"
    using validate_same [OF encoded_same] assms(2) by simp
  have "foldJournal calm r (encoded_snapshot out) ds = Inr (encoded_snapshot out)"
    by (rule foldJournal_skip) (use assms(3) in \<open>simp add: encoded_snapshot_def\<close>)
  then show ?thesis
    using assms(1) valid
    by (simp add: loads_def loadLocked_def loadSnapshot_def encoded_snapshot_def same_store_def)
qed

lemma persist_loads:
  assumes "sn_SchemaVersion out = storeSchemaVersion" "validateSnapshot out = None"
    and "\<And>x. x \<in> set (dk_Journal d) \<Longrightarrow> entry_sequence x \<le> sn_JournalSequence out"
    and "persistJournalSnapshot io out d = (err, d')"
  shows "d' = d \<and> err \<noteq> None \<or> loads r d' out"
proof -
  have "loads r (d\<lparr>dk_Snapshot := Some (encoded_snapshot out), dk_Journal := dk_Journal d\<rparr>) out"
    "loads r (d\<lparr>dk_Snapshot := Some (encoded_snapshot out), dk_Journal := []\<rparr>) out"
    using assms(1-3) by (intro checkpoint_loads; simp)+
  then show ?thesis
    using assms(4) by (auto simp: persistJournalSnapshot_def Let_def split: write_result.splits)
qed

lemma resetJournalPosition_sequence:
  assumes "loadLocked calm r d = Inr sn"
  shows "fst (resetJournalPosition d 0 (- 1)) = sn_JournalSequence sn"
proof -
  obtain sn0 where sn0: "loadSnapshot d = Inr sn0" "foldJournal calm r sn0 (dk_Journal d) = Inr sn"
    using assms by (rule loadedE)
  have "sn_JournalSequence sn0 = (case dk_Snapshot d of None \<Rightarrow> 0 | Some x \<Rightarrow> sn_JournalSequence x)"
    using sn0(1) by (auto simp: loadSnapshot_def newSnapshot_def split: option.splits if_splits)
  then show ?thesis
    using foldJournal_sequence [OF sn0(2)]
    by (cases "dk_Snapshot d") (simp_all add: resetJournalPosition_def Let_def)
qed

lemma reset_snapshot_ok:
  "validateSnapshot (reset_snapshot q at) = None" "sn_SchemaVersion (reset_snapshot q at) = storeSchemaVersion"
  "sn_JournalSequence (reset_snapshot q at) = q"
  by (simp_all add: reset_snapshot_def validateSnapshot_def newSnapshot_def)

lemma apply_reset:
  "applyJournalEntry ctx r sn (e\<lparr>je_Sequence := q, je_Reset := True\<rparr>) =
     Inr (reset_snapshot q (je_ReceivedAt e),
          zero_result\<lparr>jr_cleared := int (length (sn_Sessions sn)),
                      jr_changes := stateChanges (sn_Sessions sn) []\<rparr>)"
  by (simp add: applyJournalEntry_def reset_snapshot_def newSnapshot_def Let_def zero_result_def)

text \<open>The reset is published before the checkpoint, so no crash restores what it discarded.\<close>

lemma published_reset_loads:
  assumes old: "loadLocked calm r d = Inr sn" and room: "sn_JournalSequence sn \<noteq> - 1"
  shows "loads r (d\<lparr>dk_Journal := [encoded_entry (reset_entry (sn_JournalSequence sn + 1) at)]\<rparr>)
     (reset_snapshot (sn_JournalSequence sn + 1) at)"
proof -
  let ?q = "sn_JournalSequence sn + 1"
  obtain sn0 where sn0: "loadSnapshot d = Inr sn0" "foldJournal calm r sn0 (dk_Journal d) = Inr sn"
    using old by (rule loadedE)
  have "sn_JournalSequence sn0 \<le> sn_JournalSequence sn"
    using foldJournal_sequence [OF sn0(2)] fold_max_le(1) by simp
  then have "\<not> ?q \<le> sn_JournalSequence sn0" using word_less_succ [OF room] by simp
  moreover have "applyJournalEntry (calm 0) r sn0 (reset_entry ?q at) =
      Inr (reset_snapshot ?q at, zero_result\<lparr>jr_cleared := int (length (sn_Sessions sn0)),
                      jr_changes := stateChanges (sn_Sessions sn0) []\<rparr>)"
    using apply_reset [where ctx = "calm 0" and r = r and sn = sn0 and e = "reset_entry ?q at" and q = ?q] by (simp add: reset_entry_def)
  ultimately have "foldJournal calm r sn0 [encoded_entry (reset_entry ?q at)] = Inr (reset_snapshot ?q at)"
    by (simp add: foldJournal_calm_simps fold_entry_def encoded_entry_def first_rejection_def Let_def
        find_None_iff reset_entry_def split: option.split)
  then have "loadLocked calm r (d\<lparr>dk_Journal := [encoded_entry (reset_entry ?q at)]\<rparr>) = Inr (reset_snapshot ?q at)"
    using sn0(1) reset_snapshot_ok by (simp add: loadLocked_def loadSnapshot_def)
  then show ?thesis by (rule loads_refl)
qed

lemma reset_loads:
  assumes old: "loadLocked calm r d = Inr sn" and room: "sn_JournalSequence sn \<noteq> - 1"
    and res: "resetJournalSnapshot cancelled io d at 0 (- 1) = (result, d')"
  shows "d' = d \<and> (\<exists>e. result = Inl e) \<or> loads r d' (reset_snapshot (sn_JournalSequence sn + 1) at)"
proof -
  let ?q = "sn_JournalSequence sn + 1"
  let ?d1 = "d\<lparr>dk_Journal := [encoded_entry (reset_entry ?q at)]\<rparr>"
  have published: "loads r ?d1 (reset_snapshot ?q at)" by (rule published_reset_loads [OF old room])
  obtain cleared where pos: "resetJournalPosition d 0 (- 1) = (sn_JournalSequence sn, cleared)"
    using resetJournalPosition_sequence [OF old] by (cases "resetJournalPosition d 0 (- 1)") simp
  obtain err d2 where p: "persistJournalSnapshot io (reset_snapshot ?q at) ?d1 = (err, d2)" by fastforce
  have "d2 = ?d1 \<and> err \<noteq> None \<or> loads r d2 (reset_snapshot ?q at)"
    by (rule persist_loads [OF _ _ _ p])
      (simp_all add: reset_snapshot_ok encoded_entry_def reset_entry_def)
  then have "loads r d2 (reset_snapshot ?q at)" using published by auto
  moreover have "d' = d \<and> (\<exists>e. result = Inl e) \<or> d' = ?d1 \<or> d' = d2"
    using res p pos room
    by (auto simp: resetJournalSnapshot_def Let_def split: if_splits option.splits write_result.splits)
  ultimately show ?thesis using published by blast
qed

text \<open>
  A command of the file store, whatever fails: the disk loads the old state, and then the
  command has not succeeded, or the state the command leads to.
\<close>

definition next_entry :: "snapshot \<Rightarrow> journal_entry \<Rightarrow> journal_entry" where
  "next_entry sn e = e\<lparr>je_Sequence := sn_JournalSequence sn + 1\<rparr>"

lemma transact_atomic:
  assumes old: "loadLocked calm r d = Inr sn" and room: "sn_JournalSequence sn \<noteq> - 1"
    and tr: "transactLocked ctx r io owner d e = (result, d')"
  shows "d' = d \<and> (\<exists>err. result = Inl err) \<or>
    (\<exists>out res. applyJournalEntry (\<lambda>_. False) r sn (next_entry sn e) = Inr (out, res) \<and> loads r d' out)"
proof (cases "je_Reset e")
  case True
  obtain rr where rr: "resetJournalSnapshot (cx_commit ctx) io d (je_ReceivedAt e) 0 (- 1) = (rr, d')"
    "(\<exists>err. rr = Inl err) \<longrightarrow> (\<exists>err. result = Inl err)"
    using tr True by (auto simp: transactLocked_def split: prod.splits sum.splits)
  have reset_next: "next_entry sn e = e\<lparr>je_Sequence := sn_JournalSequence sn + 1, je_Reset := True\<rparr>"
    using True by (simp add: next_entry_def)
  show ?thesis
    using reset_loads [OF old room rr(1)] rr(2) unfolding reset_next apply_reset by auto
next
  case False
  obtain sn0 where sn0: "loadSnapshot d = Inr sn0" "foldJournal calm r sn0 (dk_Journal d) = Inr sn"
    "sn_SchemaVersion sn = storeSchemaVersion"
    "\<And>x. x \<in> set (dk_Journal d) \<Longrightarrow> entry_sequence x \<le> sn_JournalSequence sn"
    using old by (rule loadedE) auto
  show ?thesis
  proof (cases "foldJournal (cx_fold ctx) r sn0 (dk_Journal d)")
    case (Inl err)
    then show ?thesis using tr False sn0(1) by (auto simp: transactLocked_def)
  next
    case (Inr x)
    then have x: "x = sn" using foldJournal_calm sn0(2) by fastforce
    show ?thesis
    proof (cases "applyJournalEntry (cx_apply ctx) r sn (next_entry sn e)")
      case (Inl err)
      then show ?thesis
        using tr False sn0(1) Inr x by (auto simp: transactLocked_def next_entry_def Let_def)
    next
      case app: (Inr or)
      obtain out res where "or": "or = (out, res)" by fastforce
      note new = app [unfolded "or"]
      have seq: "sn_JournalSequence out = sn_JournalSequence sn + 1"
        using applyJournalEntry_sequence [OF new] by (simp add: next_entry_def)
      have schema: "sn_SchemaVersion out = storeSchemaVersion"
        by (rule applyJournalEntry_schema [OF new sn0(3)])
      have applied: "applyJournalEntry (\<lambda>_. False) r sn (next_entry sn e) = Inr (out, res)"
        by (rule applyJournalEntry_calm [OF new])
      have "d' = d \<and> (\<exists>err. result = Inl err) \<or> loads r d' out"
      proof (cases "validateSnapshot out = None \<and> \<not> cx_commit ctx \<and> owner \<noteq> OwnerError")
        case True
        have app: "loads r (d\<lparr>dk_Journal := dk_Journal d @ [encoded_entry (next_entry sn e)]\<rparr>) out"
          by (rule append_loads [OF old _ room new]) (use True in \<open>simp_all add: next_entry_def\<close>)
        obtain err d2 where p: "persistJournalSnapshot io out d = (err, d2)" by fastforce
        have "entry_sequence y \<le> sn_JournalSequence out" if "y \<in> set (dk_Journal d)" for y
          using sn0(4) [OF that] word_less_succ [OF room] seq by simp
        then have pl: "d2 = d \<and> err \<noteq> None \<or> loads r d2 out"
          using persist_loads [OF schema _ _ p] True by simp
        show ?thesis
          using tr False sn0(1) Inr x new True app p pl
          by (cases owner)
            (auto simp: transactLocked_def next_entry_def Let_def appendJournal_def
              split: if_splits option.splits write_result.splits)
      next
        case invalid: False
        then show ?thesis
          using tr False sn0(1) Inr x new
          by (auto simp: transactLocked_def next_entry_def Let_def split: option.splits if_splits)
      qed
      then show ?thesis using applied by blast
    qed
  qed
qed

subsection \<open>Sessions stay well formed\<close>

definition entry_sane :: "journal_entry \<Rightarrow> bool" where
  "entry_sane e \<longleftrightarrow>
     je_Reset e \<or> je_DeleteAfter e \<noteq> None \<or>
     0 < je_ReceivedAt e \<and> list_all (observation_sane (je_ReceivedAt e)) (je_Observations e)"

lemma applyJournalEntry_wf:
  assumes "sessions_wf (sn_Sessions sn)" "entry_sane e" "applyJournalEntry ctx r sn e = Inr (out, res)"
  shows "sessions_wf (sn_Sessions out)"
proof (cases "je_Reset e \<or> je_DeleteAfter e \<noteq> None")
  case True
  then show ?thesis
    using assms deleteExpired_wf [OF assms(1)]
    by (auto simp: applyJournalEntry_def Let_def newSnapshot_def pruneEndedProcesses_def
        split: if_splits prod.splits option.splits dest: arg_cong [where f = fst])
      (metis fst_conv)+
next
  case False
  then obtain sn1 saved ended where b:
    "applyObservationBatch ctx r sn (je_Observations e) (je_ReceivedAt e) = Inr (sn1, saved, ended)"
    and out: "sn_Sessions out = sn_Sessions (fst (removeGoneProcessOnlySessions sn1))"
    using assms(3) by (auto simp: applyJournalEntry_def Let_def split: sum.splits)
  have "sessions_wf (sn_Sessions sn1)"
    using batch_wf [OF assms(1) _ _ b] assms(2) False by (auto simp: entry_sane_def)
  then show ?thesis using out removeGone_wf by simp
qed

interpretation journal_fold: invariant_loop "fold_entry ctx r" "\<lambda>sn. sessions_wf (sn_Sessions sn)"
  "\<lambda>x. entry_sane (dj_entry (snd x))" for ctx r
  by unfold_locales
    (auto simp: fold_entry_def Let_def split: if_splits option.splits sum.splits
      dest: applyJournalEntry_wf)

lemma foldJournal_wf:
  assumes "sessions_wf (sn_Sessions sn)" "list_all (\<lambda>d. entry_sane (dj_entry d)) ds"
    and "foldJournal ctx r sn ds = Inr out"
  shows "sessions_wf (sn_Sessions out)"
  using journal_fold.loop_keeps [OF assms(1) enumerate_all [OF assms(2)]] assms(3)
  by (simp add: foldJournal_def)

definition observations_sane :: "decoded_entry \<Rightarrow> nat \<times> observation \<Rightarrow> bool" where
  "observations_sane d x \<longleftrightarrow>
     0 < je_ReceivedAt (dj_entry d) \<and> observation_sane (je_ReceivedAt (dj_entry d)) (snd x)"

lemma replayObservation_wf:
  assumes "sessions_wf (sn_Sessions c)" "0 < je_ReceivedAt e" "observation_sane (je_ReceivedAt e) ob"
    and "replayObservation ctx r c e ob = Inr (out, dropped)"
  shows "sessions_wf (sn_Sessions out)"
proof -
  have "sessions_wf (sn_Sessions (cloneRegistrySnapshotForMutation c))" "entry_sane (e\<lparr>je_Observations := [ob]\<rparr>)"
    using assms(1-3) by (simp_all add: cloneRegistrySnapshotForMutation_def entry_sane_def)
  then show ?thesis
    using assms(1,4) applyJournalEntry_wf
    by (auto simp: replayObservation_def split: sum.splits if_splits)
qed

interpretation replay_obs: invariant_loop "replay_step ctx r d" "\<lambda>st. sessions_wf (sn_Sessions (fst st))"
  "observations_sane d" for ctx r d
  by unfold_locales
    (auto simp: replay_step_def observations_sane_def Let_def split: option.splits sum.splits prod.splits
      dest: replayObservation_wf)

interpretation replay: invariant_loop "replay_entry ctx r" "\<lambda>st. sessions_wf (sn_Sessions (fst st))"
  "\<lambda>x. entry_sane (dj_entry (snd x))" for ctx r
proof
  fix st x st'
  assume wf: "sessions_wf (sn_Sessions (fst st))" and sane: "entry_sane (dj_entry (snd x))"
    and res: "replay_entry ctx r st x = Inr st'"
  obtain c rej where st: "st = (c, rej)" by fastforce
  let ?e = "dj_entry (snd x)"
  show "sessions_wf (sn_Sessions (fst st'))"
  proof (cases "je_Sequence ?e \<le> sn_JournalSequence c \<or> je_Reset ?e \<or> je_DeleteAfter ?e \<noteq> None")
    case True
    then show ?thesis
      using wf sane res st
      by (auto simp: replay_entry_def Let_def split: if_splits sum.splits dest: applyJournalEntry_wf)
  next
    case False
    then obtain out dropped where o: "replayObservations (ctx (fst x)) r c (snd x) = Inr (out, dropped)"
      and st': "sn_Sessions (fst st') = sn_Sessions out"
      using res st by (auto simp: replay_entry_def Let_def split: sum.splits)
    have "list_all (observations_sane (snd x)) (enumerate 0 (je_Observations ?e))"
      using sane False enumerate_all [where P = "observation_sane (je_ReceivedAt ?e)" and xs = "je_Observations ?e" and n = 0]
      by (auto simp: entry_sane_def observations_sane_def list_all_iff)
    then show ?thesis
      using replay_obs.loop_keeps [OF _ _ o [unfolded replayObservations_def]] wf st st' by simp
  qed
qed

lemma replayJournal_wf:
  assumes "sessions_wf (sn_Sessions sn)" "list_all (\<lambda>d. entry_sane (dj_entry d)) ds"
    and "replayJournal ctx r sn ds = Inr (out, rejected)"
  shows "sessions_wf (sn_Sessions out)"
proof -
  have "sessions_wf (sn_Sessions (fst (cloneRegistrySnapshotForMutation sn, [] :: rejection list)))"
    using assms(1) by (simp add: cloneRegistrySnapshotForMutation_def)
  from replay.loop_keeps [OF this enumerate_all [OF assms(2)] assms(3) [unfolded replayJournal_def]]
  show ?thesis by simp
qed

subsection \<open>Replaying agrees with folding, one observation per entry\<close>

definition single_entry :: "decoded_entry \<Rightarrow> bool" where
  "single_entry d \<longleftrightarrow>
     je_Reset (dj_entry d) \<or> je_DeleteAfter (dj_entry d) \<noteq> None \<or> length (je_Observations (dj_entry d)) = 1"

lemma same_store_sym: "same_store a b \<Longrightarrow> same_store b a"
  by (simp add: same_store_def)

lemma same_store_trans: "same_store a b \<Longrightarrow> same_store b c \<Longrightarrow> same_store a c"
  by (simp add: same_store_def)

lemma clone_same [simp]: "same_store (cloneRegistrySnapshotForMutation sn) sn"
  by (simp add: same_store_iff cloneRegistrySnapshotForMutation_def)

lemma removeGone_updated [simp]:
  "sn_UpdatedAt (fst (removeGoneProcessOnlySessions sn)) = sn_UpdatedAt sn"
proof -
  have "sn_UpdatedAt (fst (foldl remove_gone_turn st xs)) = sn_UpdatedAt (fst st)" for st xs
    by (induction xs arbitrary: st) (auto simp: remove_gone_turn_def Let_def split: prod.splits)
  then show ?thesis by (simp add: removeGoneProcessOnlySessions_def)
qed

lemma applied_updated:
  assumes "applyJournalEntry ctx r sn e = Inr (out, res)" "\<not> je_Reset e" "je_DeleteAfter e = None"
  shows "maxTime [sn_UpdatedAt out, je_ReceivedAt e] = sn_UpdatedAt out"
  using assms
  by (auto simp: applyJournalEntry_def applyObservationBatch_def Let_def maxTime_two split: sum.splits)

lemma first_rejection_single:
  assumes "length (je_Observations (dj_entry d)) = 1" "first_rejection d = None"
  shows "map_of (dj_rejected d) 0 = None"
proof (cases "map_of (dj_rejected d) 0")
  case (Some err)
  then have "first_rejection d = Some err" using assms(1) by (simp add: first_rejection_def)
  then show ?thesis using assms(2) by simp
qed

lemma replay_entry_single:
  assumes "same_store c sn" "single_entry d" "fold_entry calm r sn (k, d) = Inr out"
  shows "\<exists>c' rej'. replay_entry (\<lambda>_. calm) r (c, rej) (j, d) = Inr (c', rej') \<and> same_store c' out"
proof (cases "entry_sequence d \<le> sn_JournalSequence sn")
  case True
  then show ?thesis
    using assms(1,3) same_store_fields(3) [OF assms(1)] by (simp add: replay_entry_def fold_entry_def)
next
  case late: False
  then obtain res where new: "applyJournalEntry (\<lambda>_. False) r sn (dj_entry d) = Inr (out, res)"
    and none: "first_rejection d = None"
    using assms(3) by (auto simp: fold_entry_def calm_def Let_def split: option.splits sum.splits)
  have follow: "\<exists>c' res. applyJournalEntry (\<lambda>_. False) r b (dj_entry d) = Inr (c', res) \<and> same_store c' out"
    if "same_store b sn" for b
    using applyJournalEntry_same [OF that, of "\<lambda>_. False" r "dj_entry d"] new by (auto elim!: rel_sum.cases)
  have late': "\<not> entry_sequence d \<le> sn_JournalSequence c" using late same_store_fields(3) [OF assms(1)] by simp
  show ?thesis
  proof (cases "je_Reset (dj_entry d) \<or> je_DeleteAfter (dj_entry d) \<noteq> None")
    case True
    then show ?thesis
      using follow [OF assms(1)] late' by (auto simp: replay_entry_def calm_def Let_def)
  next
    case False
    then have one: "length (je_Observations (dj_entry d)) = 1" using assms(2) by (simp add: single_entry_def)
    then obtain ob where ob: "je_Observations (dj_entry d) = [ob]"
      by (cases "je_Observations (dj_entry d)") auto
    then have same: "(dj_entry d)\<lparr>je_Observations := [ob]\<rparr> = dj_entry d" by simp
    obtain c' res' where c': "applyJournalEntry (\<lambda>_. False) r (cloneRegistrySnapshotForMutation c) (dj_entry d) = Inr (c', res')"
      "same_store c' out"
      using follow same_store_trans [OF clone_same assms(1)] by blast
    have alone: "applyJournalEntry (\<lambda>_. False) r (cloneRegistrySnapshotForMutation c)
        ((dj_entry d)\<lparr>je_Observations := [ob]\<rparr>) = Inr (c', res')"
      using c'(1) by (simp only: same)
    have obs: "replayObservations calm r c d = Inr (c'\<lparr>sn_dropped := []\<rparr>,
        map (\<lambda>err. (entry_sequence d, 0, err)) (sn_dropped c'))"
      using alone first_rejection_single [OF one none] ob
      by (simp add: replayObservations_def replay_step_def replayObservation_def calm_def Let_def)
    have "maxTime [sn_UpdatedAt c', je_ReceivedAt (dj_entry d)] = sn_UpdatedAt c'"
      "sn_JournalSequence c' = entry_sequence d"
      using applied_updated [OF c'(1)] applyJournalEntry_sequence [OF c'(1)] False by auto
    then show ?thesis
      using obs late' False c'(2) by (auto simp: replay_entry_def Let_def same_store_iff)
  qed
qed

lemma replay_loop_single:
  assumes "same_store c sn" "list_all single_entry ds" "foldJournal calm r sn ds = Inr out"
  shows "\<exists>c' rej'. fold_result (replay_entry (\<lambda>_. calm) r) (c, rej) (enumerate n ds) = Inr (c', rej') \<and>
     same_store c' out"
  using assms
proof (induction ds arbitrary: c sn rej n)
  case (Cons d ds)
  obtain sn1 where sn1: "fold_entry calm r sn (0, d) = Inr sn1" "foldJournal calm r sn1 ds = Inr out"
    using Cons.prems(3) by (auto simp: foldJournal_calm_simps split: sum.splits)
  obtain c1 rej1 where "replay_entry (\<lambda>_. calm) r (c, rej) (n, d) = Inr (c1, rej1)" "same_store c1 sn1"
    using replay_entry_single [OF Cons.prems(1) _ sn1(1)] Cons.prems(2) by fastforce
  then show ?case
    using Cons.IH [of c1 sn1 rej1 "Suc n"] Cons.prems(2) sn1(2) by simp
qed (simp add: foldJournal_calm_simps)

lemma replay_single:
  assumes "list_all single_entry ds" "foldJournal calm r sn ds = Inr out"
  obtains out' rejected where "replayJournal (\<lambda>_. calm) r sn ds = Inr (out', rejected)" "same_store out' out"
  using replay_loop_single [OF clone_same assms, of "[]" 0] unfolding replayJournal_def by blast

end
