(* ===== verification/Aht_MemoryStore.thy ===== *)
theory Aht_MemoryStore
  imports Aht_Durability
begin

section \<open>The live owner: \<open>memory_store.go\<close>, \<open>journal_read.go\<close>\<close>

text \<open>
  The owner keeps the registry in memory, drains what fallback writers appended to the journal,
  appends its own commands and checkpoints. The state of the model is the store and the disk.
  The mutex and the store lock make every operation atomic; whether the store lock is obtained,
  which polls of the context are cancelled, which writes succeed and what the clock says are
  the environment of a call. Releasing a lock succeeds. The channels carry no data: \<open>ms_dirty\<close>
  is whether one is pending in \<open>dirty\<close>, and a closed \<open>stateChanged\<close> is a new revision.
\<close>

record memory_store =
  ms_tombstoneTTL :: duration
  ms_snapshot :: snapshot
  ms_revision :: "64 word"
  ms_storageRevision :: "64 word"
  ms_visibleRevision :: "64 word"
  ms_persistedRevision :: "64 word"
  ms_persistedAt :: time
  ms_backgroundPersistInterval :: duration
  ms_owned :: bool
  ms_dirty :: bool

record mem_env =
  me_replay :: "nat \<Rightarrow> nat \<Rightarrow> go_ctx"
  me_apply :: go_ctx
  me_cancelled :: bool
  me_reject_io :: io
  me_io :: io
  me_now :: time
  me_wall :: time
  me_lock :: bool

text \<open>\<open>json.Valid\<close> is a parameter.\<close>

type_synonym json_valid = "string \<Rightarrow> bool"

subsection \<open>Accepting a snapshot\<close>

definition acceptSnapshotLocked :: "snapshot \<Rightarrow> change list \<Rightarrow> memory_store \<Rightarrow> memory_store" where
  "acceptSnapshotLocked candidate changes s =
     (let s1 = s\<lparr>ms_snapshot := candidate, ms_storageRevision := ms_storageRevision s + 1\<rparr> in
      if changes = [] then s1
      else s1\<lparr>ms_visibleRevision := ms_storageRevision s1, ms_revision := ms_revision s1 + 1,
              ms_dirty := True\<rparr>)"

definition accept_with_changes :: "snapshot \<Rightarrow> memory_store \<Rightarrow> memory_store" where
  "accept_with_changes candidate s =
     acceptSnapshotLocked candidate
       (stateChanges (sn_Sessions (ms_snapshot s)) (sn_Sessions candidate)) s"

subsection \<open>Draining the journal\<close>

definition journalBaseline :: "memory_store \<Rightarrow> disk \<Rightarrow> reg_error + snapshot" where
  "journalBaseline s d =
     (case dk_Snapshot d of
        None \<Rightarrow> Inr (ms_snapshot s)
      | Some header \<Rightarrow>
          if sn_JournalSequence header > sn_JournalSequence (ms_snapshot s) then loadSnapshot d
          else Inr (ms_snapshot s))"

definition drained :: "memory_store \<Rightarrow> snapshot \<Rightarrow> disk \<Rightarrow> bool" where
  "drained s baseline d \<longleftrightarrow>
     sn_JournalSequence baseline = sn_JournalSequence (ms_snapshot s) \<and>
     (dk_Journal d = [] \<or>
      je_Sequence (dj_entry (last (dk_Journal d))) \<le> sn_JournalSequence baseline)"

definition consumeJournalLocked ::
    "mem_env \<Rightarrow> reducer \<Rightarrow> memory_store \<Rightarrow> disk \<Rightarrow> reg_error option \<times> memory_store \<times> disk" where
  "consumeJournalLocked env r s d =
     (case journalBaseline s d of
        Inl e \<Rightarrow> (Some e, s, d)
      | Inr baseline \<Rightarrow>
          if drained s baseline d then (None, s, d)
          else (case replayJournal (me_replay env) r baseline (dk_Journal d) of
            Inl e \<Rightarrow> (Some e, s, d)
          | Inr (candidate, rejected) \<Rightarrow>
              (case validateSnapshot candidate of
                 Some e \<Rightarrow> (Some e, s, d)
               | None \<Rightarrow>
                   (case (if rejected = [] then (None, d)
                          else persistJournalSnapshot (me_reject_io env) candidate d) of
                      (Some e, d') \<Rightarrow> (Some e, s, d')
                    | (None, d') \<Rightarrow> (None, accept_with_changes candidate s, d')))))"

subsection \<open>Commands\<close>

definition journalWorthy :: "journal_entry \<Rightarrow> journal_result \<Rightarrow> bool" where
  "journalWorthy e res =
     (if je_Reset e \<or> je_DeleteAfter e \<noteq> None \<or> jr_changes res \<noteq> [] then True
      else list_ex (\<lambda>ob. ob_Kind ob = ''report'') (je_Observations e))"

text \<open>\<open>maps.Equal\<close>.\<close>

definition maps_equal :: "'a go_map \<Rightarrow> 'a go_map \<Rightarrow> bool" where
  "maps_equal a b \<longleftrightarrow> length a = length b \<and> list_all (\<lambda>(k, v). map_of b k = Some v) a"

text \<open>
  The code compares the addresses of the two native observations, which are equal only when
  their values are; under the invariant that stored payloads are valid the two tests give the
  same answer (\<open>payload_check\<close> below).
\<close>

definition payload_ok :: "json_valid \<Rightarrow> session \<Rightarrow> bool" where
  "payload_ok json s =
     (case o_Native (s_Observations s) of
        None \<Rightarrow> True
      | Some n \<Rightarrow> n_RawPayload n = [] \<or> json (n_RawPayload n))"

definition validateNativePayloadChanges :: "json_valid \<Rightarrow> snapshot \<Rightarrow> snapshot \<Rightarrow> reg_error option" where
  "validateNativePayloadChanges json previous candidate =
     (case find (\<lambda>x. \<not> (o_Native (s_Observations (snd x)) = None \<or>
               o_Native (s_Observations (snd x)) =
                 o_Native (s_Observations (map_get zero_session (fst x) (sn_Sessions previous))) \<or>
               payload_ok json (snd x))) (sn_Sessions candidate) of
        None \<Rightarrow> None
      | Some _ \<Rightarrow> Some ErrEncoding)"

text \<open>What happens once the entry has been reduced and, when it is worth it, journaled.\<close>

definition settle_command ::
    "mem_env \<Rightarrow> memory_store \<Rightarrow> snapshot \<Rightarrow> journal_result \<Rightarrow> memory_store \<times> journal_result" where
  "settle_command env s candidate res =
     (let (kept, removed) = expireTombstones candidate (me_now env) (ms_tombstoneTTL s);
          res' = (if removed > 0
                  then res\<lparr>jr_changes :=
                         stateChanges (sn_Sessions (ms_snapshot s)) (sn_Sessions kept)\<rparr>
                  else res)
      in (acceptSnapshotLocked kept (jr_changes res') s, res'))"

definition commit_command ::
    "mem_env \<Rightarrow> memory_store \<Rightarrow> disk \<Rightarrow> journal_entry \<Rightarrow> snapshot \<Rightarrow> journal_result
     \<Rightarrow> (reg_error + journal_result) \<times> memory_store \<times> disk" where
  "commit_command env s d e candidate res =
     (if journalWorthy e res \<or>
         \<not> maps_equal (sn_EndedProcesses candidate) (sn_EndedProcesses (ms_snapshot s)) then
        (case appendJournal (me_io env) e d of
           (Some err, d') \<Rightarrow> (Inl err, s, d')
         | (None, d') \<Rightarrow>
             let (s', res') = settle_command env s candidate res in (Inr res', s', d'))
      else let (s', res') = settle_command env s
                 (candidate\<lparr>sn_JournalSequence := sn_JournalSequence (ms_snapshot s)\<rparr>) res
        in (Inr res', s', d))"

definition reduce_command ::
    "json_valid \<Rightarrow> mem_env \<Rightarrow> reducer \<Rightarrow> memory_store \<Rightarrow> disk \<Rightarrow> journal_entry
     \<Rightarrow> (reg_error + journal_result) \<times> memory_store \<times> disk" where
  "reduce_command json env r s d e0 =
     (let base = cloneRegistrySnapshotForMutation (ms_snapshot s);
          e = e0\<lparr>je_Sequence := sn_JournalSequence base + 1, je_ReceivedAt := me_now env\<rparr>
      in case applyJournalEntry (me_apply env) r base e of
           Inl err \<Rightarrow> (Inl err, s, d)
         | Inr (candidate, res) \<Rightarrow>
             (case validateSnapshot candidate of
                Some err \<Rightarrow> (Inl err, s, d)
              | None \<Rightarrow>
                  (case validateNativePayloadChanges json (ms_snapshot s) candidate of
                     Some err \<Rightarrow> (Inl err, s, d)
                   | None \<Rightarrow>
                       if me_cancelled env then (Inl ErrContext, s, d)
                       else commit_command env s d e candidate res)))"

definition commandLocked ::
    "json_valid \<Rightarrow> mem_env \<Rightarrow> reducer \<Rightarrow> memory_store \<Rightarrow> disk \<Rightarrow> journal_entry
     \<Rightarrow> (reg_error + journal_result) \<times> memory_store \<times> disk" where
  "commandLocked json env r s d e =
     (if je_Reset e then
        (case resetJournalSnapshot (me_cancelled env) (me_io env) d (me_now env)
                (sn_JournalSequence (ms_snapshot s)) (int (length (sn_Sessions (ms_snapshot s)))) of
           (Inl err, d') \<Rightarrow> (Inl err, s, d')
         | (Inr (candidate, res), d') \<Rightarrow>
             let changes = stateChanges (sn_Sessions (ms_snapshot s)) (sn_Sessions candidate)
             in (Inr (res\<lparr>jr_changes := changes\<rparr>), acceptSnapshotLocked candidate changes s, d'))
      else case consumeJournalLocked env r s d of
        (Some err, s', d') \<Rightarrow> (Inl err, s', d')
      | (None, s', d') \<Rightarrow> reduce_command json env r s' d' e)"

definition MemoryStore_command ::
    "json_valid \<Rightarrow> mem_env \<Rightarrow> reducer \<Rightarrow> memory_store \<Rightarrow> disk \<Rightarrow> journal_entry
     \<Rightarrow> (reg_error + journal_result) \<times> memory_store \<times> disk" where
  "MemoryStore_command json env r s d e =
     (if \<not> ms_owned s then (Inl ErrStoreClosed, s, d)
      else if \<not> me_lock env then (Inl (ErrStorage ''store lock''), s, d)
      else commandLocked json env r s d e)"

definition MemoryStore_Observe ::
    "json_valid \<Rightarrow> mem_env \<Rightarrow> reducer \<Rightarrow> memory_store \<Rightarrow> disk \<Rightarrow> observation
     \<Rightarrow> (reg_error + session) \<times> memory_store \<times> disk" where
  "MemoryStore_Observe json env r s d ob =
     (case MemoryStore_command json env r s d (observe_entry 0 [ob]) of
        (Inl e, s', d') \<Rightarrow> (Inl e, s', d')
      | (Inr res, s', d') \<Rightarrow>
          (case jr_sessions res of
             x # _ \<Rightarrow> (Inr x, s', d')
           | [] \<Rightarrow>
               if jr_ended res > 0 then (Inl ErrProcessEnded, s', d')
               else let found = findMatchingSession (sn_Sessions (ms_snapshot s')) ob;
                        sid = (if found = '''' then sessionIDForObservation r ob else found)
                 in (case map_of (sn_Sessions (ms_snapshot s')) sid of
                       None \<Rightarrow> (Inl ErrSessionNotFound, s', d')
                     | Some x \<Rightarrow> (Inr x, s', d'))))"

definition MemoryStore_ObserveBatch ::
    "json_valid \<Rightarrow> mem_env \<Rightarrow> reducer \<Rightarrow> memory_store \<Rightarrow> disk \<Rightarrow> observation list
     \<Rightarrow> (reg_error + session list) \<times> memory_store \<times> disk" where
  "MemoryStore_ObserveBatch json env r s d obs =
     (case MemoryStore_command json env r s d (observe_entry 0 obs) of
        (Inl e, s', d') \<Rightarrow> (Inl e, s', d')
      | (Inr res, s', d') \<Rightarrow> (Inr (jr_sessions res), s', d'))"

definition MemoryStore_GC ::
    "json_valid \<Rightarrow> mem_env \<Rightarrow> reducer \<Rightarrow> memory_store \<Rightarrow> disk \<Rightarrow> duration
     \<Rightarrow> (reg_error + nat \<times> nat) \<times> memory_store \<times> disk" where
  "MemoryStore_GC json env r s d after =
     (case MemoryStore_command json env r s d (gc_entry 0 after) of
        (Inl e, s', d') \<Rightarrow> (Inl e, s', d')
      | (Inr res, s', d') \<Rightarrow> (Inr (jr_deleted res, jr_remaining res), s', d'))"

subsection \<open>Reading\<close>

text \<open>The map with refreshed details and whether any changed.\<close>

definition refreshed :: "reducer \<Rightarrow> time \<Rightarrow> session \<Rightarrow> session" where
  "refreshed r now s = resolveDetail (re_Policy r (s_Harness s)) now s"

definition refreshDetailsLocked :: "mem_env \<Rightarrow> reducer \<Rightarrow> memory_store \<Rightarrow> memory_store" where
  "refreshDetailsLocked env r s =
     (let m = sn_Sessions (ms_snapshot s); now = me_now env;
          stale = filter (\<lambda>x. s_Detail (snd x) \<noteq> s_Detail (refreshed r now (snd x))) m;
          changes = map (\<lambda>x. \<lparr>c_ID = fst x, c_Removed = False\<rparr>) stale;
          candidate = (cloneRegistrySnapshotForMutation (ms_snapshot s))\<lparr>sn_Sessions :=
            foldl (\<lambda>m' x. map_put (fst x) (refreshed r now (snd x)) m') m stale\<rparr>
      in if changes = [] then s else acceptSnapshotLocked candidate changes s)"

definition drainLocked ::
    "mem_env \<Rightarrow> reducer \<Rightarrow> memory_store \<Rightarrow> disk \<Rightarrow> reg_error option \<times> memory_store \<times> disk" where
  "drainLocked env r s d =
     (if \<not> ms_owned s then (Some ErrStoreClosed, s, d)
      else if \<not> me_lock env then (Some (ErrStorage ''store lock''), s, d)
      else case consumeJournalLocked env r s d of
        (Some e, s', d') \<Rightarrow> (Some e, s', d')
      | (None, s', d') \<Rightarrow> (None, refreshDetailsLocked env r s', d'))"

record state_snapshot =
  ss_Revision :: "64 word"
  ss_UpdatedAt :: time
  ss_Sessions :: "session list"

definition stateLocked :: "file_system \<Rightarrow> memory_store \<Rightarrow> session_filter \<Rightarrow> state_snapshot" where
  "stateLocked fs s f =
     \<lparr>ss_Revision = ms_revision s,
      ss_UpdatedAt = sn_UpdatedAt (ms_snapshot s),
      ss_Sessions = FilterSessions fs
        (map (\<lambda>x. (snd x)\<lparr>s_SchemaVersion := storeSchemaVersion\<rparr>) (sn_Sessions (ms_snapshot s))) f\<rparr>"

text \<open>\<open>cancelled\<close> is the check before the mutex is taken.\<close>

definition MemoryStore_State ::
    "bool \<Rightarrow> file_system \<Rightarrow> mem_env \<Rightarrow> reducer \<Rightarrow> memory_store \<Rightarrow> disk \<Rightarrow> session_filter
     \<Rightarrow> (reg_error + state_snapshot) \<times> memory_store \<times> disk" where
  "MemoryStore_State cancelled fs env r s d f =
     (if cancelled then (Inl ErrContext, s, d)
      else case drainLocked env r s d of
        (Some e, s', d') \<Rightarrow> (Inl e, s', d')
      | (None, s', d') \<Rightarrow> (Inr (stateLocked fs s' f), s', d'))"

definition MemoryStore_Get ::
    "bool \<Rightarrow> mem_env \<Rightarrow> reducer \<Rightarrow> memory_store \<Rightarrow> disk \<Rightarrow> string
     \<Rightarrow> (reg_error + session) \<times> memory_store \<times> disk" where
  "MemoryStore_Get cancelled env r s d sid =
     (if cancelled then (Inl ErrContext, s, d)
      else case drainLocked env r s d of
        (Some e, s', d') \<Rightarrow> (Inl e, s', d')
      | (None, s', d') \<Rightarrow>
          (case map_of (sn_Sessions (ms_snapshot s')) sid of
             None \<Rightarrow> (Inl ErrSessionNotFound, s', d')
           | Some x \<Rightarrow> (Inr (x\<lparr>s_SchemaVersion := storeSchemaVersion\<rparr>), s', d')))"

text \<open>One turn of the loop of \<open>WaitForRevision\<close>: an answer, or \<open>None\<close> to wait for a change.\<close>

definition wait_turn ::
    "bool \<Rightarrow> file_system \<Rightarrow> mem_env \<Rightarrow> reducer \<Rightarrow> 64 word \<Rightarrow> session_filter \<Rightarrow> memory_store \<Rightarrow> disk
     \<Rightarrow> (reg_error + state_snapshot) option \<times> memory_store \<times> disk" where
  "wait_turn cancelled fs env r after f s d =
     (if cancelled then (Some (Inl ErrContext), s, d)
      else case drainLocked env r s d of
        (Some e, s', d') \<Rightarrow> (Some (Inl e), s', d')
      | (None, s', d') \<Rightarrow>
          if ms_revision s' > after then (Some (Inr (stateLocked fs s' f)), s', d')
          else (None, s', d'))"

subsection \<open>Persistence\<close>

definition persistDueLocked :: "mem_env \<Rightarrow> bool \<Rightarrow> memory_store \<Rightarrow> bool" where
  "persistDueLocked env force s =
     (if ms_storageRevision s \<le> ms_persistedRevision s then False
      else if force \<or> ms_visibleRevision s > ms_persistedRevision s then True
      else time_sub (me_wall env) (ms_persistedAt s) \<ge> ms_backgroundPersistInterval s)"

definition expireTombstonesLocked :: "mem_env \<Rightarrow> memory_store \<Rightarrow> memory_store" where
  "expireTombstonesLocked env s =
     (if \<not> hasExpiredTombstones (ms_snapshot s) (me_now env) (ms_tombstoneTTL s) then s
      else accept_with_changes
        (fst (expireTombstones (cloneRegistrySnapshotForMutation (ms_snapshot s)) (me_now env)
                (ms_tombstoneTTL s))) s)"

text \<open>\<open>slot\<close> says whether the single flush slot was obtained before the context was cancelled.\<close>

definition persist ::
    "bool \<Rightarrow> mem_env \<Rightarrow> reducer \<Rightarrow> bool \<Rightarrow> memory_store \<Rightarrow> disk
     \<Rightarrow> reg_error option \<times> memory_store \<times> disk" where
  "persist slot env r force s d =
     (if \<not> slot then (Some ErrContext, s, d)
      else if \<not> ms_owned s then (None, s, d)
      else if \<not> me_lock env then (Some (ErrStorage ''store lock''), s, d)
      else case consumeJournalLocked env r s d of
        (Some e, s', d') \<Rightarrow> (Some e, s', d')
      | (None, s', d') \<Rightarrow>
          let s2 = expireTombstonesLocked env s' in
          if \<not> persistDueLocked env force s2 then (None, s2, d')
          else if me_cancelled env then (Some ErrContext, s2, d')
          else (case persistJournalSnapshot (me_io env) (ms_snapshot s2) d' of
                  (Some e, d2) \<Rightarrow> (Some e, s2, d2)
                | (None, d2) \<Rightarrow>
                    (None, s2\<lparr>ms_persistedRevision := ms_storageRevision s2,
                              ms_persistedAt := me_wall env\<rparr>, d2)))"

definition DefaultTombstoneTTL :: duration where
  "DefaultTombstoneTTL = 10 * minute"

definition defaultBackgroundPersistInterval :: duration where
  "defaultBackgroundPersistInterval = minute"

definition defaultPersistenceSettle :: duration where
  "defaultPersistenceSettle = 500000000"

definition defaultPersistenceMaxDelay :: duration where
  "defaultPersistenceMaxDelay = 2 * second"

definition normalizePersistenceOptions :: "duration \<Rightarrow> duration \<Rightarrow> duration \<times> duration" where
  "normalizePersistenceOptions settle max_delay =
     (let settle' = (if settle \<le> 0 then defaultPersistenceSettle else settle)
      in (settle', if max_delay < settle' then defaultPersistenceMaxDelay else max_delay))"

definition opened_store :: "mem_env \<Rightarrow> duration \<Rightarrow> snapshot \<Rightarrow> memory_store" where
  "opened_store env ttl loaded =
     \<lparr>ms_tombstoneTTL = ttl,
      ms_snapshot = fst (expireTombstones (loaded\<lparr>sn_dropped := []\<rparr>) (me_now env) ttl),
      ms_revision = 1, ms_storageRevision = 1, ms_visibleRevision = 1, ms_persistedRevision = 0,
      ms_persistedAt = 0, ms_backgroundPersistInterval = defaultBackgroundPersistInterval,
      ms_owned = True, ms_dirty = False\<rparr>"

text \<open>\<open>owner_free\<close> says whether the owner lock was obtained; the contexts are background contexts.\<close>

definition OpenMemoryStoreWithOptions ::
    "bool \<Rightarrow> mem_env \<Rightarrow> reducer \<Rightarrow> duration \<Rightarrow> disk \<Rightarrow> (reg_error + memory_store) \<times> disk" where
  "OpenMemoryStoreWithOptions owner_free env r ttl0 d =
     (let ttl = (if ttl0 \<le> 0 then DefaultTombstoneTTL else ttl0) in
      if \<not> me_lock env \<or> \<not> owner_free then (Inl (ErrStorage ''store owned''), d)
      else case loadLocked calm r d of
        Inl e \<Rightarrow> (Inl e, d)
      | Inr loaded \<Rightarrow>
          (case persist True env r True (opened_store env ttl loaded) d of
             (Some e, _, d') \<Rightarrow> (Inl e, d')
           | (None, s, d') \<Rightarrow> (Inr s, d')))"

definition MemoryStore_Close ::
    "mem_env \<Rightarrow> reducer \<Rightarrow> memory_store \<Rightarrow> disk \<Rightarrow> reg_error option \<times> memory_store \<times> disk" where
  "MemoryStore_Close env r s d =
     (case persist True env r True s d of
        (err, s', d') \<Rightarrow> (err, s'\<lparr>ms_owned := False\<rparr>, d'))"

definition MemoryStore_Reset ::
    "bool \<Rightarrow> json_valid \<Rightarrow> mem_env \<Rightarrow> mem_env \<Rightarrow> reducer \<Rightarrow> memory_store \<Rightarrow> disk
     \<Rightarrow> (reg_error + int \<times> nat) \<times> memory_store \<times> disk" where
  "MemoryStore_Reset slot json env flush_env r s d =
     (case MemoryStore_command json env r s d
             \<lparr>je_Sequence = 0, je_ReceivedAt = 0, je_Observations = [], je_DeleteAfter = None,
              je_Reset = True\<rparr> of
        (Inl e, s', d') \<Rightarrow> (Inl e, s', d')
      | (Inr res, s', d') \<Rightarrow>
          (case persist slot flush_env r True s' d' of
             (Some e, s2, d2) \<Rightarrow> (Inl e, s2, d2)
           | (None, s2, d2) \<Rightarrow> (Inr (jr_cleared res, jr_reset_remaining res), s2, d2)))"

end
