(* ===== verification/Aht_Owner.thy ===== *)
theory Aht_Owner
  imports Aht_MemoryStore
begin

section \<open>What the live owner promises\<close>

text \<open>
  Four contracts: the public revision moves exactly with what consumers see; the snapshot in
  memory stays well formed and valid; the journal on disk stays strictly increasing and covered
  by the memory after every command; a flush makes the disk load what is in memory.
\<close>

subsection \<open>What consumers see\<close>

definition consumer_view :: "session go_map \<Rightarrow> string \<Rightarrow> session option" where
  "consumer_view m k = map_option consumerState (map_of m k)"

definition visible :: "memory_store \<Rightarrow> string \<Rightarrow> session option" where
  "visible s = consumer_view (sn_Sessions (ms_snapshot s))"

lemma sort_func_Nil_iff [simp]: "sort_func c xs = [] \<longleftrightarrow> xs = []"
  by (metis length_0_conv mset_sort_func size_mset)

lemma no_changes_view:
  assumes "stateChanges before after = []"
  shows "consumer_view before = consumer_view after"
proof
  fix k
  have none: "raw_changes before after = []" using assms by (simp add: stateChanges_raw)
  show "consumer_view before k = consumer_view after k"
  proof (cases "map_of before k")
    case (Some p)
    then have "(k, p) \<in> set before" by (rule map_of_SomeD)
    then have "old_changes after (k, p) = []" using none by (simp add: raw_changes_def)
    then show ?thesis using Some by (auto simp: old_changes_def consumer_view_def split: option.splits if_splits)
  next
    case None
    have "map_of after k = None"
    proof (rule ccontr)
      assume "map_of after k \<noteq> None"
      then obtain q where "(k, q) \<in> set after" by (auto dest: map_of_SomeD)
      then have "new_changes before (k, q) = []" using none by (simp add: raw_changes_def)
      then show False using None by (simp add: new_changes_def)
    qed
    then show ?thesis using None by (simp add: consumer_view_def)
  qed
qed

lemma no_changes_same: "map_ok m \<Longrightarrow> stateChanges m m = []"
  by (auto simp: stateChanges_raw raw_changes_def old_changes_def new_changes_def in_set_map_of
      split: option.splits dest: map_of_SomeD)

text \<open>
  \<open>seen n s s'\<close>: the revision moved \<open>n\<close> times, and when it did not, consumers see the same.
\<close>

definition seen :: "nat \<Rightarrow> memory_store \<Rightarrow> memory_store \<Rightarrow> bool" where
  "seen n s s' \<longleftrightarrow> ms_revision s' = ms_revision s + of_nat n \<and> (n = 0 \<longrightarrow> visible s' = visible s)"

lemma seen_refl [simp]: "seen 0 s s"
  by (simp add: seen_def)

lemma seen_trans: "seen m a b \<Longrightarrow> seen n b c \<Longrightarrow> seen (m + n) a c"
  by (auto simp: seen_def)

lemma acceptSnapshot_seen:
  assumes "changes = [] \<Longrightarrow> consumer_view (sn_Sessions candidate) = visible s"
  shows "seen (if changes = [] then 0 else 1) s (acceptSnapshotLocked candidate changes s)"
  using assms by (simp add: seen_def acceptSnapshotLocked_def visible_def Let_def)

lemma acceptSnapshot_fields [simp]:
  "ms_snapshot (acceptSnapshotLocked c ch s) = c"
  "ms_owned (acceptSnapshotLocked c ch s) = ms_owned s"
  "ms_tombstoneTTL (acceptSnapshotLocked c ch s) = ms_tombstoneTTL s"
  "ms_storageRevision (acceptSnapshotLocked c ch s) = ms_storageRevision s + 1"
  "ms_persistedRevision (acceptSnapshotLocked c ch s) = ms_persistedRevision s"
  by (simp_all add: acceptSnapshotLocked_def Let_def)

lemma acceptWith_fields [simp]:
  "ms_snapshot (accept_with_changes c s) = c"
  "ms_owned (accept_with_changes c s) = ms_owned s"
  "ms_tombstoneTTL (accept_with_changes c s) = ms_tombstoneTTL s"
  by (simp_all add: accept_with_changes_def)

lemma acceptWith_seen: "\<exists>n \<le> 1. seen n s (accept_with_changes c s)"
proof -
  let ?ch = "stateChanges (sn_Sessions (ms_snapshot s)) (sn_Sessions c)"
  have "seen (if ?ch = [] then 0 else 1) s (accept_with_changes c s)"
    unfolding accept_with_changes_def
    by (rule acceptSnapshot_seen) (simp add: visible_def no_changes_view)
  then show ?thesis by (intro exI [of _ "if ?ch = [] then 0 else 1"]) simp
qed

lemma consumeJournal_seen:
  assumes "consumeJournalLocked env r s d = (err, s', d')"
  shows "\<exists>n \<le> 1. seen n s s'" "err \<noteq> None \<Longrightarrow> s' = s" "ms_owned s' = ms_owned s"
    "ms_tombstoneTTL s' = ms_tombstoneTTL s"
proof -
  have "s' = s \<or> err = None \<and> (\<exists>c. s' = accept_with_changes c s)"
    using assms
    by (auto simp: consumeJournalLocked_def split: sum.splits option.splits if_splits prod.splits)
  then show "\<exists>n \<le> 1. seen n s s'" "err \<noteq> None \<Longrightarrow> s' = s" "ms_owned s' = ms_owned s"
    "ms_tombstoneTTL s' = ms_tombstoneTTL s"
    using acceptWith_seen seen_refl by (auto intro: exI [of _ 0])
qed

subsection \<open>A command\<close>

lemma applied_changes:
  assumes "applyJournalEntry ctx r sn e = Inr (out, res)"
  shows "jr_changes res = stateChanges (sn_Sessions sn) (sn_Sessions out)"
  using assms
  by (auto simp: applyJournalEntry_def Let_def split: if_splits option.splits sum.splits prod.splits)

lemma counted_idle:
  assumes "\<And>m n x. g (m, n) x = (if P x then (f m x, n + 1) else (m, n :: nat))"
    and "snd (foldl g (m, n) xs) = n"
  shows "foldl g (m, n) xs = (m, n)"
proof -
  have count: "snd (foldl g (m, n) ys) = n + length (filter P ys)" for ys m n
    by (induction ys arbitrary: m n) (simp_all add: assms(1))
  then have "filter P xs = []" using assms(2) by simp
  then have "\<not> P x" if "x \<in> set xs" for x using that by (simp add: filter_empty_conv)
  then show ?thesis by (intro foldl_idle) (simp add: assms(1))
qed

lemma expireTombstones_none:
  assumes "snd (expireTombstones sn now ttl) = 0"
  shows "sn_Sessions (fst (expireTombstones sn now ttl)) = sn_Sessions sn"
proof -
  obtain sn1 n1 where one: "removeGoneProcessOnlySessions sn = (sn1, n1)" by fastforce
  let ?P = "\<lambda>x :: string \<times> session. \<not> (s_Presence (snd x) \<noteq> PresenceGone \<or> time_sub now (goneSince (snd x)) < ttl)"
  let ?g = "\<lambda>(m', k) x. if s_Presence (snd x) \<noteq> PresenceGone \<or> time_sub now (goneSince (snd x)) < ttl
              then (m', k) else (map_del (fst x) m', k + 1)"
  have g: "?g (m', n) x = (if ?P x then (map_del (fst x) m', n + 1) else (m', n :: nat))" for m' n x
    by simp
  have total: "n1 + length (filter ?P (sn_Sessions sn1)) = 0"
    using assms one delete_loop(2) [of ?g ?P, OF g, where m = "sn_Sessions sn1" and n = n1 and xs = "sn_Sessions sn1"]
    by (simp add: expireTombstones_def case_prod_beta Let_def)
  have "n1 = length (filter (\<lambda>x. spent (snd x)) (sn_Sessions sn))"
    using remove_gone_loop(2) [of "(sn, 0)" "sn_Sessions sn"] one
    by (simp add: removeGoneProcessOnlySessions_def)
  then have none: "filter (\<lambda>x. spent (snd x)) (sn_Sessions sn) = []" using total by simp
  have "removeGoneProcessOnlySessions sn = (sn, 0)"
    unfolding removeGoneProcessOnlySessions_def
    by (rule foldl_idle)
      (use none in \<open>auto simp: remove_gone_turn_def filter_empty_conv spent_def Let_def\<close>)
  then have sn1: "sn1 = sn" "n1 = 0" using one by simp_all
  have "foldl ?g (sn_Sessions sn1, n1) (sn_Sessions sn1) = (sn_Sessions sn1, n1)"
    by (rule counted_idle [where P = ?P and f = "\<lambda>m x. map_del (fst x) m", OF g])
      (use total delete_loop(2) [of ?g ?P, OF g, where m = "sn_Sessions sn1" and n = n1 and xs = "sn_Sessions sn1"] in simp)
  then show ?thesis
    using one sn1 by (simp add: expireTombstones_def pruneEndedProcesses_def case_prod_beta Let_def)
qed

lemma settle_seen:
  assumes "jr_changes res = stateChanges (sn_Sessions (ms_snapshot s)) (sn_Sessions candidate)"
    and "settle_command env s candidate res = (s', res')"
  shows "\<exists>n \<le> 1. seen n s s'"
    "ms_snapshot s' = fst (expireTombstones candidate (me_now env) (ms_tombstoneTTL s))"
    "ms_owned s' = ms_owned s" "ms_tombstoneTTL s' = ms_tombstoneTTL s"
proof -
  obtain kept removed where x: "expireTombstones candidate (me_now env) (ms_tombstoneTTL s) = (kept, removed)"
    by fastforce
  have ch: "jr_changes res' = stateChanges (sn_Sessions (ms_snapshot s)) (sn_Sessions kept)"
    and s': "s' = acceptSnapshotLocked kept (jr_changes res') s"
    using assms x expireTombstones_none [of candidate "me_now env" "ms_tombstoneTTL s"]
    by (auto simp: settle_command_def Let_def split: if_splits)
  then have "s' = accept_with_changes kept s" by (simp add: accept_with_changes_def)
  then show "\<exists>n \<le> 1. seen n s s'"
    "ms_snapshot s' = fst (expireTombstones candidate (me_now env) (ms_tombstoneTTL s))"
    "ms_owned s' = ms_owned s" "ms_tombstoneTTL s' = ms_tombstoneTTL s"
    using acceptWith_seen x by simp_all
qed

definition stamped_entry :: "mem_env \<Rightarrow> memory_store \<Rightarrow> journal_entry \<Rightarrow> journal_entry" where
  "stamped_entry env s e =
     e\<lparr>je_Sequence := sn_JournalSequence (ms_snapshot s) + 1, je_ReceivedAt := me_now env\<rparr>"

lemma reduce_failed:
  assumes "reduce_command json env r s d e = (Inl err, s', d')"
  shows "s' = s"
  using assms
  by (auto simp: reduce_command_def commit_command_def Let_def
      split: sum.splits option.splits if_splits prod.splits)

lemma clone_reads [simp]:
  "sn_JournalSequence (cloneRegistrySnapshotForMutation sn) = sn_JournalSequence sn"
  "sn_Sessions (cloneRegistrySnapshotForMutation sn) = sn_Sessions sn"
  "sn_SchemaVersion (cloneRegistrySnapshotForMutation sn) = sn_SchemaVersion sn"
  by (simp_all add: cloneRegistrySnapshotForMutation_def)

text \<open>A successful command: what was reduced, and whether it went to the journal.\<close>

lemma reduce_succeeded:
  assumes "reduce_command json env r s d e = (Inr res, s', d')"
  obtains (journaled) candidate res0 where
      "applyJournalEntry (me_apply env) r (cloneRegistrySnapshotForMutation (ms_snapshot s)) (stamped_entry env s e)
         = Inr (candidate, res0)"
      "validateSnapshot candidate = None" "validateNativePayloadChanges json (ms_snapshot s) candidate = None"
      "settle_command env s candidate res0 = (s', res)"
      "d' = d\<lparr>dk_Journal := dk_Journal d @ [encoded_entry (stamped_entry env s e)]\<rparr>"
    | (refreshed) candidate res0 where
      "applyJournalEntry (me_apply env) r (cloneRegistrySnapshotForMutation (ms_snapshot s)) (stamped_entry env s e)
         = Inr (candidate, res0)"
      "validateSnapshot candidate = None" "validateNativePayloadChanges json (ms_snapshot s) candidate = None"
      "settle_command env s
         (candidate\<lparr>sn_JournalSequence := sn_JournalSequence (ms_snapshot s)\<rparr>) res0 = (s', res)"
      "d' = d" "\<not> journalWorthy (stamped_entry env s e) res0"
      "maps_equal (sn_EndedProcesses candidate) (sn_EndedProcesses (ms_snapshot s))"
proof -
  obtain candidate res0 where app: "applyJournalEntry (me_apply env) r
      (cloneRegistrySnapshotForMutation (ms_snapshot s)) (stamped_entry env s e) = Inr (candidate, res0)"
    and ok: "validateSnapshot candidate = None" "validateNativePayloadChanges json (ms_snapshot s) candidate = None"
    and rest: "commit_command env s d (stamped_entry env s e) candidate res0 = (Inr res, s', d')"
    using assms
    by (auto simp: reduce_command_def stamped_entry_def [symmetric] Let_def
        split: sum.splits option.splits if_splits)
  show thesis
  proof (cases "journalWorthy (stamped_entry env s e) res0 \<or>
      \<not> maps_equal (sn_EndedProcesses candidate) (sn_EndedProcesses (ms_snapshot s))")
    case True
    then have "settle_command env s candidate res0 = (s', res)"
      "d' = d\<lparr>dk_Journal := dk_Journal d @ [encoded_entry (stamped_entry env s e)]\<rparr>"
      using rest
      by (auto simp: commit_command_def appendJournal_def Let_def split: write_result.splits prod.splits)
    then show thesis using journaled app ok by blast
  next
    case False
    then have "settle_command env s
        (candidate\<lparr>sn_JournalSequence := sn_JournalSequence (ms_snapshot s)\<rparr>) res0 = (s', res)" "d' = d"
      using rest by (auto simp: commit_command_def split: prod.splits)
    then show thesis using refreshed app ok False by blast
  qed
qed

lemma reduce_seen:
  assumes "reduce_command json env r s d e = (res, s', d')"
  shows "\<exists>n \<le> 1. seen n s s'" "ms_owned s' = ms_owned s"
proof -
  have "(\<exists>n \<le> 1. seen n s s') \<and> ms_owned s' = ms_owned s"
  proof (cases res)
    case (Inl err)
    then have "s' = s" using assms reduce_failed by blast
    then show ?thesis by (auto intro: exI [of _ 0])
  next
    case (Inr out)
    note red = assms [unfolded Inr]
    show ?thesis
    proof (cases rule: reduce_succeeded [OF red])
      case (1 candidate res0)
      then show ?thesis using settle_seen(1,3) [OF _ 1(4)] applied_changes [OF 1(1)] by simp
    next
      case (2 candidate res0)
      then show ?thesis using settle_seen(1,3) [OF _ 2(4)] applied_changes [OF 2(1)] by simp
    qed
  qed
  then show "\<exists>n \<le> 1. seen n s s'" "ms_owned s' = ms_owned s" by auto
qed

lemma seen_two:
  assumes "\<exists>n \<le> 1. seen n a b" "\<exists>n \<le> 1. seen n b c"
  shows "\<exists>n \<le> 2. seen n a c"
proof -
  obtain m n where "m \<le> 1" "seen m a b" "n \<le> 1" "seen n b c" using assms by blast
  then show ?thesis using seen_trans by (intro exI [of _ "m + n"]) auto
qed

lemma seen_one_two: "\<exists>n \<le> 1. seen n a b \<Longrightarrow> \<exists>n \<le> 2. seen n a b"
  by (metis le_trans one_le_numeral)

lemma command_seen:
  assumes "MemoryStore_command json env r s d e = (res, s', d')"
  shows "\<exists>n \<le> 2. seen n s s'"
proof (cases "ms_owned s \<and> me_lock env")
  case False
  then have "s' = s" using assms by (auto simp: MemoryStore_command_def split: if_splits)
  then show ?thesis by (auto intro: exI [of _ 0])
next
  case True
  then have locked: "commandLocked json env r s d e = (res, s', d')"
    using assms by (simp add: MemoryStore_command_def)
  show ?thesis
  proof (cases "je_Reset e")
    case True
    then have "s' = s \<or> (\<exists>c. s' = accept_with_changes c s)"
      using locked
      by (auto simp: commandLocked_def accept_with_changes_def Let_def split: sum.splits prod.splits)
    then show ?thesis
      using acceptWith_seen by (metis seen_one_two seen_refl zero_le)
  next
    case False
    obtain err s1 d1 where c: "consumeJournalLocked env r s d = (err, s1, d1)" by (metis prod_cases3)
    show ?thesis
    proof (cases err)
      case None
      then have "reduce_command json env r s1 d1 e = (res, s', d')"
        using locked False c by (simp add: commandLocked_def)
      then show ?thesis using seen_two [OF consumeJournal_seen(1) [OF c] reduce_seen(1)] by blast
    next
      case (Some x)
      then show ?thesis
        using locked False c consumeJournal_seen(1) [OF c] seen_one_two by (auto simp: commandLocked_def)
    qed
  qed
qed

text \<open>Two revisions that are equal show consumers the same sessions.\<close>

lemma seen_unmoved:
  assumes "\<exists>n \<le> 2. seen n s s'" "ms_revision s' = ms_revision s"
  shows "visible s' = visible s"
proof -
  obtain n where n: "n \<le> 2" "seen n s s'" using assms(1) by blast
  consider "n = 0" | "n = 1" | "n = 2" using n(1) by linarith
  then have "n = 0"
    by cases (use n(2) assms(2) in \<open>simp_all add: seen_def\<close>)
  then show ?thesis using n(2) by (simp add: seen_def)
qed

subsection \<open>The snapshot in memory stays well formed and valid\<close>

definition retired_clear :: "session go_map \<Rightarrow> bool" where
  "retired_clear m \<longleftrightarrow> (\<forall>x \<in> set m. s_Presence (snd x) = PresenceGone \<longrightarrow> s_Detail (snd x) = None)"

lemma validate_iff_retired_clear:
  assumes "sessions_wf (sn_Sessions sn)"
  shows "validateSnapshot sn = None \<longleftrightarrow> retired_clear (sn_Sessions sn)"
proof -
  have "storedSessionCorruption (fst x) (snd x) = [] \<longleftrightarrow>
      (s_Presence (snd x) = PresenceGone \<longrightarrow> s_Detail (snd x) = None)" if "x \<in> set (sn_Sessions sn)" for x
    using session_wf_corruption [of "snd x"] assms that
    by (auto simp: sessions_wf_def entry_wf_def list_all_iff)
  then show ?thesis by (simp add: validateSnapshot_None retired_clear_def)
qed

definition snapshot_ok :: "snapshot \<Rightarrow> bool" where
  "snapshot_ok sn \<longleftrightarrow>
     sessions_wf (sn_Sessions sn) \<and> retired_clear (sn_Sessions sn) \<and> sn_SchemaVersion sn = storeSchemaVersion"

lemma snapshot_ok_valid: "snapshot_ok sn \<Longrightarrow> validateSnapshot sn = None"
  by (simp add: snapshot_ok_def validate_iff_retired_clear)

lemma snapshot_okI:
  "sessions_wf (sn_Sessions sn) \<Longrightarrow> validateSnapshot sn = None \<Longrightarrow>
   sn_SchemaVersion sn = storeSchemaVersion \<Longrightarrow> snapshot_ok sn"
  by (simp add: snapshot_ok_def validate_iff_retired_clear)

lemma snapshot_ok_clone [simp]: "snapshot_ok (cloneRegistrySnapshotForMutation sn) = snapshot_ok sn"
  by (simp add: snapshot_ok_def)

lemma snapshot_ok_sequence [simp]: "snapshot_ok (sn\<lparr>sn_JournalSequence := q\<rparr>) = snapshot_ok sn"
  by (simp add: snapshot_ok_def)

lemma snapshot_ok_same: "same_store a b \<Longrightarrow> snapshot_ok a = snapshot_ok b"
  by (simp add: snapshot_ok_def same_store_fields)

definition disk_ok :: "disk \<Rightarrow> bool" where
  "disk_ok d \<longleftrightarrow>
     pred_option (\<lambda>sn. sessions_wf (sn_Sessions sn)) (dk_Snapshot d) \<and>
     list_all (\<lambda>x. entry_sane (dj_entry x)) (dk_Journal d)"

lemma replayObservation_schema:
  "replayObservation ctx r c e ob = Inr (out, dropped) \<Longrightarrow> sn_SchemaVersion c = storeSchemaVersion \<Longrightarrow>
   sn_SchemaVersion out = storeSchemaVersion"
  by (auto simp: replayObservation_def split: sum.splits if_splits dest: applyJournalEntry_schema)

interpretation replay_obs_schema: invariant_loop "replay_step ctx r d"
  "\<lambda>st. sn_SchemaVersion (fst st) = storeSchemaVersion" "\<lambda>_. True" for ctx r d
  by unfold_locales
    (auto simp: replay_step_def Let_def split: option.splits sum.splits prod.splits
      dest: replayObservation_schema)

interpretation replay_schema: invariant_loop "replay_entry ctx r"
  "\<lambda>st. sn_SchemaVersion (fst st) = storeSchemaVersion" "\<lambda>_. True" for ctx r
proof
  fix st x st'
  assume ok: "sn_SchemaVersion (fst st) = storeSchemaVersion" and res: "replay_entry ctx r st x = Inr st'"
  have obs: "sn_SchemaVersion out = storeSchemaVersion"
    if "replayObservations c r (fst st) (snd x) = Inr (out, dropped)" for c out dropped
    using replay_obs_schema.loop_keeps [OF _ _ that [unfolded replayObservations_def]] ok
    by (simp add: list_all_iff)
  show "sn_SchemaVersion (fst st') = storeSchemaVersion"
    using ok res obs
    by (cases st)
      (auto simp: replay_entry_def Let_def split: if_splits sum.splits dest: applyJournalEntry_schema)
qed

lemma replayJournal_schema:
  assumes "replayJournal ctx r sn ds = Inr (out, rejected)" "sn_SchemaVersion sn = storeSchemaVersion"
  shows "sn_SchemaVersion out = storeSchemaVersion"
proof -
  have "sn_SchemaVersion (fst (cloneRegistrySnapshotForMutation sn, [] :: rejection list)) = storeSchemaVersion"
    using assms(2) by simp
  from replay_schema.loop_keeps [OF this _ assms(1) [unfolded replayJournal_def]]
  show ?thesis by (simp add: list_all_iff)
qed

lemma persist_disk_ok:
  assumes "disk_ok d" "sessions_wf (sn_Sessions sn)" "persistJournalSnapshot io sn d = (err, d')"
  shows "disk_ok d'"
  using assms
  by (auto simp: persistJournalSnapshot_def disk_ok_def encoded_snapshot_def Let_def
      split: write_result.splits)

lemma consume_ok:
  assumes mem: "snapshot_ok (ms_snapshot s)" and disk: "disk_ok d"
    and con: "consumeJournalLocked env r s d = (err, s', d')"
  shows "snapshot_ok (ms_snapshot s')" "disk_ok d'"
proof -
  have "snapshot_ok (ms_snapshot s') \<and> disk_ok d'"
  proof (cases "s' = s \<and> d' = d")
    case True
    then show ?thesis using mem disk by simp
  next
    case False
    then obtain baseline candidate rejected where b: "journalBaseline s d = Inr baseline"
      and rep: "replayJournal (me_replay env) r baseline (dk_Journal d) = Inr (candidate, rejected)"
      and valid: "validateSnapshot candidate = None"
      and d': "d' = d \<or> (\<exists>e. persistJournalSnapshot (me_reject_io env) candidate d = (e, d'))"
      and s': "s' = s \<or> ms_snapshot s' = candidate"
      using con
      by (auto simp: consumeJournalLocked_def split: sum.splits option.splits if_splits prod.splits)
    have base: "sessions_wf (sn_Sessions baseline)" "sn_SchemaVersion baseline = storeSchemaVersion"
      using b mem disk loadSnapshot_schema [of d baseline]
      by (auto simp: journalBaseline_def snapshot_ok_def disk_ok_def loadSnapshot_def
          split: option.splits if_splits)
    have cand: "sessions_wf (sn_Sessions candidate)"
      using replayJournal_wf [OF base(1) _ rep] disk by (simp add: disk_ok_def)
    have "snapshot_ok candidate"
      by (rule snapshot_okI [OF cand valid replayJournal_schema [OF rep base(2)]])
    then show ?thesis using s' d' mem disk persist_disk_ok [OF disk cand] by metis
  qed
  then show "snapshot_ok (ms_snapshot s')" "disk_ok d'" by auto
qed

lemma expire_ok:
  assumes "snapshot_ok sn"
  shows "snapshot_ok (fst (expireTombstones sn now ttl))"
proof -
  let ?out = "fst (expireTombstones sn now ttl)"
  have wf: "sessions_wf (sn_Sessions sn)" "sessions_wf (sn_Sessions ?out)"
    using assms expireTombstones_wf by (simp_all add: snapshot_ok_def)
  then have ok: "map_ok (sn_Sessions sn)" "map_ok (sn_Sessions ?out)" by (simp_all add: sessions_wf_def)
  have "x \<in> set (sn_Sessions sn)" if "x \<in> set (sn_Sessions ?out)" for x
    using that expireTombstones_spec [OF ok(1), of now ttl "fst x"] in_set_map_of [OF ok(2), of "fst x" "snd x"]
    by (auto split: option.splits if_splits dest: map_of_SomeD)
  then have "retired_clear (sn_Sessions ?out)" using assms by (auto simp: snapshot_ok_def retired_clear_def)
  moreover have "sn_SchemaVersion ?out = sn_SchemaVersion sn"
    using removeGone_schema [of sn]
    by (simp add: expireTombstones_def pruneEndedProcesses_def case_prod_beta Let_def)
  ultimately show ?thesis using wf assms by (simp add: snapshot_ok_def)
qed

lemma applied_ok:
  assumes "snapshot_ok sn" "entry_sane e" "applyJournalEntry ctx r sn e = Inr (out, res)"
    and "validateSnapshot out = None"
  shows "snapshot_ok out"
  using assms applyJournalEntry_wf [OF _ assms(2,3)] applyJournalEntry_schema [OF assms(3)]
  by (intro snapshot_okI) (auto simp: snapshot_ok_def)

lemma reduce_ok:
  assumes mem: "snapshot_ok (ms_snapshot s)" and disk: "disk_ok d"
    and sane: "entry_sane (stamped_entry env s e)"
    and red: "reduce_command json env r s d e = (res, s', d')"
  shows "snapshot_ok (ms_snapshot s')" "disk_ok d'"
proof -
  have more: "disk_ok (d\<lparr>dk_Journal := dk_Journal d @ [encoded_entry (stamped_entry env s e)]\<rparr>)"
    using disk sane by (simp add: disk_ok_def encoded_entry_def)
  have d': "disk_ok d'"
    using red disk more
    by (auto simp: reduce_command_def commit_command_def appendJournal_def stamped_entry_def [symmetric] Let_def
        split: sum.splits option.splits if_splits prod.splits write_result.splits)
  have "snapshot_ok (ms_snapshot s')"
  proof (cases res)
    case (Inl err)
    then show ?thesis using red reduce_failed mem by blast
  next
    case (Inr out)
    have base: "snapshot_ok (cloneRegistrySnapshotForMutation (ms_snapshot s))" using mem by simp
    note red' = red [unfolded Inr]
    show ?thesis
    proof (cases rule: reduce_succeeded [OF red'])
      case (1 candidate res0)
      then show ?thesis
        using settle_seen(2) [OF _ 1(4)] applied_changes [OF 1(1)] expire_ok applied_ok [OF base sane 1(1,2)]
        by simp
    next
      case (2 candidate res0)
      then show ?thesis
        using settle_seen(2) [OF _ 2(4)] applied_changes [OF 2(1)] expire_ok applied_ok [OF base sane 2(1,2)]
        by simp
    qed
  qed
  then show "snapshot_ok (ms_snapshot s')" "disk_ok d'" using d' by auto
qed

lemma reset_snapshot_is_ok [simp]: "snapshot_ok (reset_snapshot q at)"
  by (simp add: snapshot_ok_def reset_snapshot_def newSnapshot_def retired_clear_def)

lemma reset_disk_ok:
  assumes "disk_ok d" "resetJournalSnapshot cancelled io d at sq cleared = (result, d')"
  shows "disk_ok d'" "\<And>c res. result = Inr (c, res) \<Longrightarrow> snapshot_ok c"
proof -
  obtain sq' cl where pos: "resetJournalPosition d sq cleared = (sq', cl)" by fastforce
  let ?d1 = "d\<lparr>dk_Journal := [encoded_entry (reset_entry (sq' + 1) at)]\<rparr>"
  obtain err d2 where p: "persistJournalSnapshot io (reset_snapshot (sq' + 1) at) ?d1 = (err, d2)" by fastforce
  have one: "disk_ok ?d1"
    using assms(1) by (simp add: disk_ok_def encoded_entry_def reset_entry_def entry_sane_def)
  have two: "disk_ok d2"
    by (rule persist_disk_ok [OF one _ p]) (simp add: reset_snapshot_def newSnapshot_def)
  show "disk_ok d'"
    using assms one two pos p
    by (auto simp: resetJournalSnapshot_def Let_def split: if_splits option.splits write_result.splits)
  show "result = Inr (c, res) \<Longrightarrow> snapshot_ok c" for c res
    using assms(2) pos p
    by (auto simp: resetJournalSnapshot_def Let_def split: if_splits option.splits write_result.splits)
qed

definition command_sane :: "mem_env \<Rightarrow> journal_entry \<Rightarrow> bool" where
  "command_sane env e \<longleftrightarrow> entry_sane (e\<lparr>je_ReceivedAt := me_now env\<rparr>)"

lemma stamped_sane: "command_sane env e \<Longrightarrow> entry_sane (stamped_entry env s e)"
  by (simp add: command_sane_def stamped_entry_def entry_sane_def)

lemma command_ok:
  assumes mem: "snapshot_ok (ms_snapshot s)" and disk: "disk_ok d" and sane: "command_sane env e"
    and cmd: "MemoryStore_command json env r s d e = (res, s', d')"
  shows "snapshot_ok (ms_snapshot s')" "disk_ok d'"
proof -
  have "snapshot_ok (ms_snapshot s') \<and> disk_ok d'"
  proof (cases "ms_owned s \<and> me_lock env")
    case False
    then show ?thesis using cmd mem disk by (auto simp: MemoryStore_command_def split: if_splits)
  next
    case True
    then have locked: "commandLocked json env r s d e = (res, s', d')"
      using cmd by (simp add: MemoryStore_command_def)
    show ?thesis
    proof (cases "je_Reset e")
      case True
      obtain result d1 where rst: "resetJournalSnapshot (me_cancelled env) (me_io env) d (me_now env)
          (sn_JournalSequence (ms_snapshot s)) (int (length (sn_Sessions (ms_snapshot s)))) = (result, d1)"
        by fastforce
      then show ?thesis
        using locked True mem reset_disk_ok [OF disk rst]
        by (auto simp: commandLocked_def Let_def split: sum.splits)
    next
      case False
      obtain err s1 d1 where c: "consumeJournalLocked env r s d = (err, s1, d1)" by (metis prod_cases3)
      note ok = consume_ok [OF mem disk c]
      show ?thesis
      proof (cases err)
        case None
        then have "reduce_command json env r s1 d1 e = (res, s', d')"
          using locked False c by (simp add: commandLocked_def)
        then show ?thesis using reduce_ok [OF ok stamped_sane [OF sane]] by blast
      qed (use locked False c ok in \<open>simp add: commandLocked_def\<close>)
    qed
  qed
  then show "snapshot_ok (ms_snapshot s')" "disk_ok d'" by auto
qed

subsection \<open>Reading keeps the invariant\<close>

lemma refreshed_reads [simp]:
  "s_ID (refreshed r now s) = s_ID s" "s_Presence (refreshed r now s) = s_Presence s"
  "s_Incarnation (refreshed r now s) = s_Incarnation s"
  by (simp_all add: refreshed_def resolveDetail_def s_Presence_def)

lemma refreshed_gone: "s_Presence s = PresenceGone \<Longrightarrow> s_Detail (refreshed r now s) = None"
  by (simp add: refreshed_def resolveDetail_def)

lemma refreshed_wf: "session_wf s \<Longrightarrow> session_wf (refreshed r now s)"
  using resolveDetail_core [of s "re_Policy r (s_Harness s)" now]
  by (simp add: session_wf_def session_core_open refreshed_def [symmetric])

lemma refresh_fold:
  assumes "sessions_wf m'" "retired_clear m'" "set xs \<subseteq> set m" "sessions_wf m"
  shows "sessions_wf (foldl (\<lambda>m' x. map_put (fst x) (refreshed r now (snd x)) m') m' xs) \<and>
    retired_clear (foldl (\<lambda>m' x. map_put (fst x) (refreshed r now (snd x)) m') m' xs)"
  using assms(1-3)
proof (induction xs arbitrary: m')
  case (Cons x xs)
  have x: "session_wf (snd x)" "s_ID (snd x) = fst x"
    using Cons.prems(3) assms(4) by (auto simp: sessions_wf_def entry_wf_def list_all_iff)
  let ?m = "map_put (fst x) (refreshed r now (snd x)) m'"
  have "sessions_wf ?m" by (rule sessions_wf_put) (use Cons.prems(1) x refreshed_wf in simp_all)
  moreover have "retired_clear ?m"
    using Cons.prems(2) set_map_put_subset [of "fst x" "refreshed r now (snd x)" m'] refreshed_gone
    by (fastforce simp: retired_clear_def)
  ultimately show ?case using Cons.IH Cons.prems(3) by simp
qed simp

lemma refresh_ok:
  assumes "snapshot_ok (ms_snapshot s)"
  shows "snapshot_ok (ms_snapshot (refreshDetailsLocked env r s))"
proof -
  let ?m = "sn_Sessions (ms_snapshot s)"
  let ?stale = "filter (\<lambda>x. s_Detail (snd x) \<noteq> s_Detail (refreshed r (me_now env) (snd x))) ?m"
  have wf: "sessions_wf ?m" "retired_clear ?m" using assms by (simp_all add: snapshot_ok_def)
  have "sessions_wf (foldl (\<lambda>m' x. map_put (fst x) (refreshed r (me_now env) (snd x)) m') ?m ?stale) \<and>
      retired_clear (foldl (\<lambda>m' x. map_put (fst x) (refreshed r (me_now env) (snd x)) m') ?m ?stale)"
    by (rule refresh_fold [OF wf _ wf(1)]) auto
  then show ?thesis using assms by (simp add: refreshDetailsLocked_def snapshot_ok_def Let_def)
qed

lemma refresh_seen: "\<exists>n \<le> 1. seen n s (refreshDetailsLocked env r s)"
proof -
  let ?m = "sn_Sessions (ms_snapshot s)"
  let ?stale = "filter (\<lambda>x. s_Detail (snd x) \<noteq> s_Detail (refreshed r (me_now env) (snd x))) ?m"
  show ?thesis
  proof (cases "?stale = []")
    case True
    then show ?thesis by (intro exI [of _ 0]) (simp add: refreshDetailsLocked_def)
  next
    case False
    then have "seen 1 s (refreshDetailsLocked env r s)"
      by (simp add: refreshDetailsLocked_def acceptSnapshotLocked_def seen_def Let_def)
    then show ?thesis by (intro exI [of _ 1]) simp
  qed
qed

lemma drain_seen:
  assumes "drainLocked env r s d = (err, s', d')"
  shows "\<exists>n \<le> 2. seen n s s'"
proof (cases "ms_owned s \<and> me_lock env")
  case False
  then have "s' = s" using assms by (auto simp: drainLocked_def split: if_splits)
  then show ?thesis by (auto intro: exI [of _ 0])
next
  case True
  obtain e1 s1 d1 where c: "consumeJournalLocked env r s d = (e1, s1, d1)" by (metis prod_cases3)
  show ?thesis
  proof (cases e1)
    case None
    then have "s' = refreshDetailsLocked env r s1" using assms True c by (auto simp: drainLocked_def)
    then show ?thesis using seen_two [OF consumeJournal_seen(1) [OF c] refresh_seen] by blast
  next
    case (Some x)
    then show ?thesis
      using assms True c seen_one_two [OF consumeJournal_seen(1) [OF c]] by (auto simp: drainLocked_def)
  qed
qed

lemma drain_ok:
  assumes mem: "snapshot_ok (ms_snapshot s)" and disk: "disk_ok d"
    and dr: "drainLocked env r s d = (err, s', d')"
  shows "snapshot_ok (ms_snapshot s')" "disk_ok d'"
proof -
  obtain e1 s1 d1 where c: "consumeJournalLocked env r s d = (e1, s1, d1)" by (metis prod_cases3)
  note ok = consume_ok [OF mem disk c]
  show "snapshot_ok (ms_snapshot s')" "disk_ok d'"
    using dr mem disk c ok refresh_ok [OF ok(1)]
    by (auto simp: drainLocked_def split: if_splits option.splits)
qed

subsection \<open>The memory covers the disk\<close>

definition journal_ordered :: "disk \<Rightarrow> bool" where
  "journal_ordered d \<longleftrightarrow> sorted_wrt (<) (map entry_sequence (dk_Journal d))"

definition covered :: "memory_store \<Rightarrow> disk \<Rightarrow> bool" where
  "covered s d \<longleftrightarrow>
     (\<forall>x \<in> set (dk_Journal d). entry_sequence x \<le> sn_JournalSequence (ms_snapshot s)) \<and>
     pred_option (\<lambda>sn. sn_JournalSequence sn \<le> sn_JournalSequence (ms_snapshot s)) (dk_Snapshot d)"

lemma replay_entry_sequence:
  assumes "replay_entry ctx r st x = Inr st'"
  shows "sn_JournalSequence (fst st') = max (sn_JournalSequence (fst st)) (entry_sequence (snd x))"
  using assms
  by (cases st)
    (auto simp: replay_entry_def Let_def max_def not_le split: if_splits sum.splits
      dest: applyJournalEntry_sequence)

lemma replay_loop_sequence:
  "fold_result (replay_entry ctx r) st (enumerate n ds) = Inr st' \<Longrightarrow>
   sn_JournalSequence (fst st') = fold (\<lambda>d q. max q (entry_sequence d)) ds (sn_JournalSequence (fst st))"
proof (induction ds arbitrary: st n)
  case (Cons d ds)
  then obtain st1 where "replay_entry ctx r st (n, d) = Inr st1"
    "fold_result (replay_entry ctx r) st1 (enumerate (Suc n) ds) = Inr st'"
    by (auto split: sum.splits)
  then show ?case using Cons.IH [of st1] replay_entry_sequence by fastforce
qed simp

lemma replayJournal_sequence:
  assumes "replayJournal ctx r sn ds = Inr (out, rejected)"
  shows "sn_JournalSequence sn \<le> sn_JournalSequence out"
    "d \<in> set ds \<Longrightarrow> entry_sequence d \<le> sn_JournalSequence out"
  using replay_loop_sequence [OF assms [unfolded replayJournal_def]] fold_max_le by simp_all

lemma ordered_last:
  assumes "journal_ordered d" "x \<in> set (dk_Journal d)"
  shows "entry_sequence x \<le> entry_sequence (last (dk_Journal d))"
proof -
  have "sorted_wrt (<) (map entry_sequence xs) \<Longrightarrow> x \<in> set xs \<Longrightarrow> entry_sequence x \<le> entry_sequence (last xs)" for xs
    by (induction xs) (auto simp: less_imp_le)
  then show ?thesis using assms by (simp add: journal_ordered_def)
qed

lemma persist_ordered:
  assumes "journal_ordered d" "persistJournalSnapshot io sn d = (err, d')"
  shows "journal_ordered d'"
  using assms
  by (auto simp: persistJournalSnapshot_def journal_ordered_def Let_def split: write_result.splits)

lemma journalBaseline_cases:
  assumes "journalBaseline s d = Inr baseline"
  obtains (memory) "baseline = ms_snapshot s"
      "pred_option (\<lambda>sn. sn_JournalSequence sn \<le> sn_JournalSequence (ms_snapshot s)) (dk_Snapshot d)"
    | (disk) "dk_Snapshot d = Some baseline" "sn_JournalSequence (ms_snapshot s) < sn_JournalSequence baseline"
  using assms by (auto simp: journalBaseline_def loadSnapshot_def not_less split: option.splits if_splits)

lemma consume_covers:
  assumes ord: "journal_ordered d" and con: "consumeJournalLocked env r s d = (None, s', d')"
  shows "journal_ordered d'" "covered s' d'"
proof -
  obtain baseline where b: "journalBaseline s d = Inr baseline"
    using con by (auto simp: consumeJournalLocked_def split: sum.splits)
  have "journal_ordered d' \<and> covered s' d'"
  proof (cases "drained s baseline d")
    case True
    then have same: "s' = s" "d' = d" using con b by (auto simp: consumeJournalLocked_def)
    have seq: "sn_JournalSequence baseline = sn_JournalSequence (ms_snapshot s)"
      "\<And>x. x \<in> set (dk_Journal d) \<Longrightarrow> entry_sequence x \<le> sn_JournalSequence baseline"
      using True ordered_last [OF ord] order_trans by (fastforce simp: drained_def)+
    then have "covered s d" using journalBaseline_cases [OF b] by (auto simp: covered_def)
    then show ?thesis using same ord by simp
  next
    case False
    then obtain candidate rejected where
      rep: "replayJournal (me_replay env) r baseline (dk_Journal d) = Inr (candidate, rejected)"
      and s': "ms_snapshot s' = candidate"
      and d': "d' = d \<or> persistJournalSnapshot (me_reject_io env) candidate d = (None, d')"
      using con b
      by (auto simp: consumeJournalLocked_def split: sum.splits option.splits if_splits prod.splits)
    note seq = replayJournal_sequence [OF rep]
    have head: "pred_option (\<lambda>sn. sn_JournalSequence sn \<le> sn_JournalSequence candidate) (dk_Snapshot d)"
    proof (cases rule: journalBaseline_cases [OF b])
      case 1
      then show ?thesis using seq(1) by (cases "dk_Snapshot d") auto
    next
      case 2
      then show ?thesis using seq(1) by simp
    qed
    have "covered s' d'"
      using d'
    proof
      assume "d' = d"
      then show ?thesis using seq(2) head s' by (simp add: covered_def)
    next
      assume "persistJournalSnapshot (me_reject_io env) candidate d = (None, d')"
      then have "dk_Snapshot d' = Some (encoded_snapshot candidate)" "dk_Journal d' = []"
        by (auto simp: persistJournalSnapshot_def Let_def split: write_result.splits)
      then show ?thesis using s' by (simp add: covered_def encoded_snapshot_def)
    qed
    then show ?thesis using d' ord persist_ordered by blast
  qed
  then show "journal_ordered d'" "covered s' d'" by auto
qed

lemma removeGone_sequence [simp]:
  "sn_JournalSequence (fst (removeGoneProcessOnlySessions sn)) = sn_JournalSequence sn"
proof -
  have "sn_JournalSequence (fst (foldl remove_gone_turn st xs)) = sn_JournalSequence (fst st)" for st xs
    by (induction xs arbitrary: st) (auto simp: remove_gone_turn_def Let_def split: prod.splits)
  then show ?thesis by (simp add: removeGoneProcessOnlySessions_def)
qed

lemma expireTombstones_sequence [simp]:
  "sn_JournalSequence (fst (expireTombstones sn now ttl)) = sn_JournalSequence sn"
  using removeGone_sequence [of sn]
  by (simp add: expireTombstones_def pruneEndedProcesses_def case_prod_beta Let_def)

text \<open>
  After a command the journal is still strictly increasing and the memory is at its end, so the
  next entry of either writer has the next number. The hypothesis says the counter has not
  wrapped around.
\<close>

lemma command_covers:
  assumes ord: "journal_ordered d" and reset: "\<not> je_Reset e"
    and cmd: "MemoryStore_command json env r s d e = (Inr res, s', d')"
    and room: "sn_JournalSequence (ms_snapshot s') \<noteq> 0"
  shows "journal_ordered d'" "covered s' d'"
proof -
  have locked: "commandLocked json env r s d e = (Inr res, s', d')"
    using cmd by (auto simp: MemoryStore_command_def split: if_splits)
  obtain s1 d1 where c: "consumeJournalLocked env r s d = (None, s1, d1)"
    and red: "reduce_command json env r s1 d1 e = (Inr res, s', d')"
    using locked reset by (auto simp: commandLocked_def split: option.splits prod.splits)
  note cov = consume_covers [OF ord c]
  have "journal_ordered d' \<and> covered s' d'"
  proof (cases rule: reduce_succeeded [OF red])
    case (1 candidate res0)
    have "sn_JournalSequence candidate = sn_JournalSequence (ms_snapshot s1) + 1"
      using applyJournalEntry_sequence [OF 1(1)] by (simp add: stamped_entry_def)
    then have s': "sn_JournalSequence (ms_snapshot s') = sn_JournalSequence (ms_snapshot s1) + 1"
      using settle_seen(2) [OF _ 1(4)] applied_changes [OF 1(1)] by simp
    then have less: "sn_JournalSequence (ms_snapshot s1) < sn_JournalSequence (ms_snapshot s1) + 1"
      using room by (intro word_less_succ) auto
    have old: "entry_sequence x \<le> sn_JournalSequence (ms_snapshot s1)" if "x \<in> set (dk_Journal d1)" for x
      using cov(2) that by (simp add: covered_def)
    have new: "entry_sequence (encoded_entry (stamped_entry env s1 e)) = sn_JournalSequence (ms_snapshot s1) + 1"
      by (simp add: encoded_entry_def stamped_entry_def)
    have "journal_ordered d'"
      using cov(1) 1(5) old less new by (auto simp: journal_ordered_def sorted_wrt_append intro: le_less_trans)
    moreover have "covered s' d'"
      using cov(2) 1(5) s' less new
      by (cases "dk_Snapshot d1") (auto simp: covered_def intro: order_trans less_imp_le)
    ultimately show ?thesis by blast
  next
    case (2 candidate res0)
    have "sn_JournalSequence (ms_snapshot s') = sn_JournalSequence (ms_snapshot s1)"
      using settle_seen(2) [OF _ 2(4)] applied_changes [OF 2(1)] by simp
    then show ?thesis using cov 2(5) by (simp add: covered_def)
  qed
  then show "journal_ordered d'" "covered s' d'" by auto
qed

subsection \<open>A flush makes memory durable\<close>

lemma flush_durable:
  assumes mem: "snapshot_ok (ms_snapshot s)" and disk: "disk_ok d" and own: "ms_owned s"
    and due: "ms_persistedRevision s < ms_storageRevision s'"
    and ran: "persist True env r True s d = (None, s', d')"
  shows "loads r d' (ms_snapshot s')" "ms_persistedRevision s' = ms_storageRevision s'"
proof -
  obtain e1 s1 d1 where c: "consumeJournalLocked env r s d = (e1, s1, d1)" by (metis prod_cases3)
  have e1: "e1 = None" using ran own c by (auto simp: persist_def split: if_splits option.splits)
  have kept: "ms_persistedRevision s1 = ms_persistedRevision s"
    using c
    by (auto simp: consumeJournalLocked_def accept_with_changes_def split: sum.splits option.splits if_splits prod.splits)
  let ?s2 = "expireTombstonesLocked env s1"
  have ok1: "snapshot_ok (ms_snapshot s1)" by (rule consume_ok [OF mem disk c])
  have ok2: "snapshot_ok (ms_snapshot ?s2)"
    using ok1 expire_ok by (simp add: expireTombstonesLocked_def)
  have kept2: "ms_persistedRevision ?s2 = ms_persistedRevision s"
    using kept by (simp add: expireTombstonesLocked_def accept_with_changes_def)
  obtain err d2 where p: "persistJournalSnapshot (me_io env) (ms_snapshot ?s2) d1 = (err, d2)" by fastforce
  have due2: "persistDueLocked env True ?s2"
    using ran own c e1 due kept2
    by (auto simp: persist_def persistDueLocked_def Let_def split: if_splits option.splits)
  then have res: "err = None" "d' = d2"
    "s' = ?s2\<lparr>ms_persistedRevision := ms_storageRevision ?s2, ms_persistedAt := me_wall env\<rparr>"
    using ran own c e1 p by (auto simp: persist_def Let_def split: if_splits option.splits)
  have "d2 = d1\<lparr>dk_Snapshot := Some (encoded_snapshot (ms_snapshot ?s2)), dk_Journal := []\<rparr>"
    using p res(1) by (auto simp: persistJournalSnapshot_def Let_def split: write_result.splits)
  then have "loads r d2 (ms_snapshot ?s2)"
    using checkpoint_loads [of "ms_snapshot ?s2" "[]"] ok2 snapshot_ok_valid [OF ok2]
    by (simp add: snapshot_ok_def)
  then show "loads r d' (ms_snapshot s')" "ms_persistedRevision s' = ms_storageRevision s'"
    using res by simp_all
qed

end
