(* ===== verification/Aht_Runs.thy ===== *)
theory Aht_Runs
  imports Aht_Owner
begin

section \<open>Runs of the owner and the fallback writers\<close>

text \<open>
  The state is the store of the owner and the disk. A step is a command of the owner, a read
  that drains the journal, a persistence pass, a close, or a command of a fallback writer that
  finds the owner lock held. Locks make each of them atomic; they interleave in any order.
\<close>

subsection \<open>Every operation keeps the invariant\<close>

lemma persist_ok:
  assumes mem: "snapshot_ok (ms_snapshot s)" and disk: "disk_ok d"
    and ran: "persist slot env r force s d = (err, s', d')"
  shows "snapshot_ok (ms_snapshot s')" "disk_ok d'"
proof -
  obtain e1 s1 d1 where c: "consumeJournalLocked env r s d = (e1, s1, d1)" by (metis prod_cases3)
  note ok = consume_ok [OF mem disk c]
  let ?s2 = "expireTombstonesLocked env s1"
  have ok2: "snapshot_ok (ms_snapshot ?s2)"
    using ok(1) expire_ok by (simp add: expireTombstonesLocked_def)
  obtain e2 d2 where p: "persistJournalSnapshot (me_io env) (ms_snapshot ?s2) d1 = (e2, d2)" by fastforce
  have "disk_ok d2" using persist_disk_ok [OF ok(2) _ p] ok2 by (simp add: snapshot_ok_def)
  then show "snapshot_ok (ms_snapshot s')" "disk_ok d'"
    using ran mem disk c ok ok2 p
    by (auto simp: persist_def Let_def split: if_splits option.splits)
qed

lemma persist_seen:
  assumes "persist slot env r force s d = (err, s', d')"
  shows "\<exists>n \<le> 2. seen n s s'"
proof -
  obtain e1 s1 d1 where c: "consumeJournalLocked env r s d = (e1, s1, d1)" by (metis prod_cases3)
  let ?s2 = "expireTombstonesLocked env s1"
  have one: "\<exists>n \<le> 1. seen n s s1" by (rule consumeJournal_seen(1) [OF c])
  have "\<exists>n \<le> 1. seen n s1 ?s2"
    using acceptWith_seen by (auto simp: expireTombstonesLocked_def intro: exI [of _ 0])
  then have two: "\<exists>n \<le> 2. seen n s ?s2" by (rule seen_two [OF one])
  have same: "seen n s (?s2\<lparr>ms_persistedRevision := a, ms_persistedAt := b\<rparr>) = seen n s ?s2" for n a b
    by (simp add: seen_def visible_def)
  have "\<exists>n \<le> 2. seen n s s" by (auto intro: exI [of _ 0])
  then show ?thesis
    using assms c two seen_one_two [OF one] same
    by (auto simp: persist_def Let_def split: if_splits option.splits prod.splits)
qed

lemma loaded_wf:
  assumes "disk_ok d" "loadLocked ctx r d = Inr sn"
  shows "snapshot_ok sn"
proof -
  obtain sn0 where sn0: "loadSnapshot d = Inr sn0" "foldJournal ctx r sn0 (dk_Journal d) = Inr sn"
    "validateSnapshot sn = None"
    using assms(2) by (auto simp: loadLocked_def split: sum.splits option.splits)
  have wf0: "sessions_wf (sn_Sessions sn0)"
    using sn0(1) assms(1)
    by (auto simp: loadSnapshot_def disk_ok_def newSnapshot_def split: option.splits if_splits)
  have wf: "sessions_wf (sn_Sessions sn)"
    using foldJournal_wf [OF wf0 _ sn0(2)] assms(1) by (simp add: disk_ok_def)
  show ?thesis
    by (rule snapshot_okI [OF wf sn0(3)
          foldJournal_schema [OF foldJournal_calm [OF sn0(2)] loadSnapshot_schema [OF sn0(1)]]])
qed

lemma open_ok:
  assumes disk: "disk_ok d" and op: "OpenMemoryStoreWithOptions free env r ttl d = (Inr s, d')"
  shows "snapshot_ok (ms_snapshot s)" "disk_ok d'"
proof -
  define t where "t = (if ttl \<le> 0 then DefaultTombstoneTTL else ttl)"
  obtain sn where sn: "loadLocked calm r d = Inr sn"
    and ran: "persist True env r True (opened_store env t sn) d = (None, s, d')"
    using op
    by (auto simp: OpenMemoryStoreWithOptions_def t_def Let_def split: if_splits sum.splits option.splits prod.splits)
  have "snapshot_ok (sn\<lparr>sn_dropped := []\<rparr>)"
    using loaded_wf [OF disk sn] by (simp add: snapshot_ok_def)
  then have "snapshot_ok (ms_snapshot (opened_store env t sn))"
    using expire_ok by (simp add: opened_store_def)
  then show "snapshot_ok (ms_snapshot s)" "disk_ok d'" using persist_ok [OF _ disk ran] by blast+
qed

lemma transact_disk_ok:
  assumes disk: "disk_ok d" and sane: "entry_sane e"
    and tr: "transactLocked ctx r io owner d e = (result, d')"
  shows "disk_ok d'"
proof (cases "je_Reset e")
  case True
  then show ?thesis
    using tr reset_disk_ok(1) [OF disk]
    by (auto simp: transactLocked_def split: prod.splits sum.splits)
next
  case reset: False
  show ?thesis
  proof (cases "d' = d")
    case False
    obtain sn0 sn where sn0: "loadSnapshot d = Inr sn0" "foldJournal (cx_fold ctx) r sn0 (dk_Journal d) = Inr sn"
      using tr reset False by (auto simp: transactLocked_def split: sum.splits)
    have wf0: "sessions_wf (sn_Sessions sn0)"
      using sn0(1) disk
      by (auto simp: loadSnapshot_def disk_ok_def newSnapshot_def split: option.splits if_splits)
    have wf: "sessions_wf (sn_Sessions sn)"
      using foldJournal_wf [OF wf0 _ sn0(2)] disk by (simp add: disk_ok_def)
    have sane': "entry_sane (next_entry sn e)" using sane by (simp add: entry_sane_def next_entry_def)
    obtain out res where out: "applyJournalEntry (cx_apply ctx) r sn (next_entry sn e) = Inr (out, res)"
      using tr reset False sn0
      by (auto simp: transactLocked_def next_entry_def Let_def split: sum.splits)
    have wf_out: "sessions_wf (sn_Sessions out)" by (rule applyJournalEntry_wf [OF wf sane' out])
    have "d' = d\<lparr>dk_Journal := dk_Journal d @ [encoded_entry (next_entry sn e)]\<rparr> \<or>
        (\<exists>err. persistJournalSnapshot io out d = (err, d'))"
      using tr reset False sn0 out
      by (auto simp: transactLocked_def next_entry_def appendJournal_def Let_def
          split: option.splits if_splits owner_lock.splits write_result.splits prod.splits)
    then show ?thesis
      using disk sane' persist_disk_ok [OF disk wf_out]
      by (auto simp: disk_ok_def encoded_entry_def)
  qed (use disk in simp)
qed

subsection \<open>The step relation\<close>

inductive store_step :: "json_valid \<Rightarrow> reducer \<Rightarrow> memory_store \<times> disk \<Rightarrow> memory_store \<times> disk \<Rightarrow> bool"
  for json :: json_valid and r :: reducer where
  owner_command:
    "command_sane env e \<Longrightarrow> MemoryStore_command json env r s d e = (res, s', d') \<Longrightarrow>
     store_step json r (s, d) (s', d')"
| owner_read:
    "drainLocked env r s d = (err, s', d') \<Longrightarrow> store_step json r (s, d) (s', d')"
| owner_persist:
    "persist slot env r force s d = (err, s', d') \<Longrightarrow> store_step json r (s, d) (s', d')"
| owner_close:
    "MemoryStore_Close env r s d = (err, s', d') \<Longrightarrow> store_step json r (s, d) (s', d')"
| fallback_command:
    "ms_owned s \<Longrightarrow> entry_sane e \<Longrightarrow> transactLocked ctx r io OwnerHeld d e = (res, d') \<Longrightarrow>
     store_step json r (s, d) (s, d')"

inductive_cases store_stepE: "store_step json r (s, d) (s', d')"

inductive reachable :: "json_valid \<Rightarrow> reducer \<Rightarrow> memory_store \<times> disk \<Rightarrow> bool"
  for json :: json_valid and r :: reducer where
  opened:
    "disk_ok d \<Longrightarrow> OpenMemoryStoreWithOptions free env r ttl d = (Inr s, d') \<Longrightarrow> reachable json r (s, d')"
| stepped: "reachable json r c \<Longrightarrow> store_step json r c c' \<Longrightarrow> reachable json r c'"

lemma store_step_ok:
  assumes "store_step json r (s, d) (s', d')" "snapshot_ok (ms_snapshot s)" "disk_ok d"
  shows "snapshot_ok (ms_snapshot s') \<and> disk_ok d'"
proof (cases rule: store_stepE [OF assms(1)])
  case 1
  then show ?thesis using command_ok [OF assms(2,3)] by blast
next
  case 2
  then show ?thesis using drain_ok [OF assms(2,3)] by blast
next
  case 3
  then show ?thesis using persist_ok [OF assms(2,3)] by blast
next
  case 4
  then obtain env err s1 where "persist True env r True s d = (err, s1, d')" "ms_snapshot s' = ms_snapshot s1"
    by (auto simp: MemoryStore_Close_def split: prod.splits)
  then show ?thesis using persist_ok [OF assms(2,3)] by metis
next
  case 5
  then show ?thesis using assms(2) transact_disk_ok [OF assms(3)] by blast
qed

lemma reachable_ok: "reachable json r c \<Longrightarrow> snapshot_ok (ms_snapshot (fst c)) \<and> disk_ok (snd c)"
proof (induction rule: reachable.induct)
  case (opened d free env ttl s d')
  then show ?case using open_ok by simp
next
  case (stepped c c')
  then show ?case using store_step_ok by (cases c; cases c') auto
qed

text \<open>Whatever the owner or the others do, consumers see what the revision says.\<close>

lemma store_step_seen:
  assumes "store_step json r (s, d) (s', d')"
  shows "\<exists>n \<le> 2. seen n s s'"
proof (cases rule: store_stepE [OF assms])
  case 4
  then obtain env err s1 where s1: "persist True env r True s d = (err, s1, d')" "s' = s1\<lparr>ms_owned := False\<rparr>"
    by (auto simp: MemoryStore_Close_def split: prod.splits)
  have "seen n s s' = seen n s s1" for n using s1(2) by (simp add: seen_def visible_def)
  then show ?thesis using persist_seen [OF s1(1)] by simp
qed (use command_seen drain_seen persist_seen in \<open>blast | (auto intro: exI [of _ 0])\<close>)+

end
