(* ===== verification/Aht_RegistryCheck.thy ===== *)
theory Aht_RegistryCheck
  imports Aht_Sessions
begin

section \<open>The specification of a transition: \<open>internal/registrycheck\<close>\<close>

text \<open>
  The package the tests of the registry check themselves against: sessions and observations are
  projected to strings and times, and eight rules say what one observation may do to a session.
  The theory models the projection and the rules, and proves that the reducer obeys them.
\<close>

subsection \<open>The projected state: \<open>core/check.go\<close>\<close>

datatype check_error =
  CheckIdentity | CheckTime | CheckLiveness | CheckNativeEnd | CheckVerification | CheckGoneActivity

record core_session =
  k_SessionPath :: string
  k_SessionID :: string
  k_Process :: string
  k_IncarnationProcess :: string
  k_Incarnation :: string
  k_EvidenceAt :: time
  k_DecisionAt :: time
  k_TransitionAt :: time
  k_PreviousProcess :: string
  k_ID :: string
  k_Harness :: string
  k_CreatedAt :: time
  k_UpdatedAt :: time
  k_HasLiveness :: bool
  k_Presence :: string
  k_Activity :: string
  k_ValidState :: bool
  k_NativeEnded :: bool

definition ProcessKey :: "int \<Rightarrow> string \<Rightarrow> string" where
  "ProcessKey pid start =
     (if pid \<le> 0 \<or> start = '''' then '''' else itoa pid @ '':'' @ start)"

definition sessionStateViolations :: "core_session \<Rightarrow> check_error list" where
  "sessionStateViolations s =
     (if k_CreatedAt s = 0 \<or> k_UpdatedAt s = 0 \<or> k_UpdatedAt s < k_CreatedAt s
      then [CheckTime] else []) @
     (if \<not> k_HasLiveness s \<or> \<not> k_ValidState s then [CheckLiveness] else []) @
     (if k_Presence s = ''gone'' \<and> k_Activity s \<noteq> '''' then [CheckGoneActivity] else []) @
     (if k_NativeEnded s \<and> (k_Presence s \<noteq> ''gone'' \<or> k_Activity s \<noteq> '''')
      then [CheckNativeEnd] else [])"

definition incarnationViolations :: "core_session \<Rightarrow> check_error list" where
  "incarnationViolations s =
     (let st = k_Incarnation s in
      if st = '''' then []
      else
        (if st \<in> set [''live'', ''ended'', ''exited'', ''starting''] then [] else [CheckLiveness]) @
        (if k_Presence s \<noteq>
              (if st = ''live'' then ''live''
               else if st = ''ended'' \<or> st = ''exited'' then ''gone'' else ''unknown'')
            \<or> k_Process s \<noteq> k_IncarnationProcess s
         then [CheckLiveness] else []))"

text \<open>The loop of \<open>Sessions\<close>: the identifiers seen, the current sessions by key, the violations.\<close>

definition sessions_turn ::
    "string list \<times> (string \<times> string) list \<times> check_error list \<Rightarrow> core_session
     \<Rightarrow> string list \<times> (string \<times> string) list \<times> check_error list" where
  "sessions_turn st s =
     (let (seen, current, out) = st;
          sid = k_ID s;
          key = k_Harness s @ ''/'' @ k_SessionID s;
          open_id = (k_SessionID s \<noteq> '''' \<and> k_Presence s \<noteq> ''gone'')
      in (sid # seen,
          (if open_id then map_put key sid current else current),
          out @ (if sid = '''' \<or> k_Harness s = '''' then [CheckIdentity] else [])
              @ (if sid \<in> set seen then [CheckIdentity] else [])
              @ sessionStateViolations s
              @ (if open_id \<and> map_get '''' key current \<noteq> '''' then [CheckIdentity] else [])
              @ incarnationViolations s))"

definition core_Sessions :: "core_session list \<Rightarrow> check_error list" where
  "core_Sessions ss = snd (snd (foldl sessions_turn ([], [], []) ss))"

definition core_Verification :: "string \<Rightarrow> string \<Rightarrow> bool \<Rightarrow> check_error option" where
  "core_Verification prior after complete =
     (if (prior = ''gone'' \<or> complete) \<and> after \<noteq> prior then Some CheckVerification
      else if prior \<noteq> ''live'' \<and> after = ''live'' then Some CheckVerification
      else None)"

text \<open>\<open>Coverage\<close>, without its lock: the names hit so far.\<close>

definition Coverage_Hit :: "string \<Rightarrow> string list \<Rightarrow> string list" where
  "Coverage_Hit name hits = List.insert name hits"

definition Coverage_Missing :: "string list \<Rightarrow> string list \<Rightarrow> string list" where
  "Coverage_Missing required hits = filter (\<lambda>n. n \<notin> set hits) required"

subsection \<open>The eight rules: \<open>core/invariants.go\<close>\<close>

record core_event =
  e_Kind :: string
  e_Process :: string
  e_Harness :: string
  e_SessionID :: string
  e_SessionPath :: string
  e_At :: time
  e_Ends :: bool
  e_Present :: bool

definition eventTargetsSession :: "core_event \<Rightarrow> core_session \<Rightarrow> bool" where
  "eventTargetsSession e s =
     (let target = (e_Harness e = k_Harness s) in
      if e_SessionID e \<noteq> '''' \<and> k_SessionID s \<noteq> ''''
      then target \<and> e_SessionID e = k_SessionID s
      else if e_SessionPath e \<noteq> '''' \<and> k_SessionPath s \<noteq> ''''
      then target \<and> path_clean (e_SessionPath e) = path_clean (k_SessionPath s)
      else target)"

definition nativeIdentityEndInvariant ::
    "core_session \<Rightarrow> core_session \<Rightarrow> core_event \<Rightarrow> check_error option" where
  "nativeIdentityEndInvariant b a e =
     (let changed = (k_Process a \<noteq> k_Process b \<or> k_Incarnation a \<noteq> k_Incarnation b \<or>
            k_Presence a \<noteq> k_Presence b \<or> k_Activity a \<noteq> k_Activity b \<or>
            k_NativeEnded a \<noteq> k_NativeEnded b \<or> k_DecisionAt a \<noteq> k_DecisionAt b)
      in if e_Kind e = ''report'' \<and> e_Ends e \<and> \<not> eventTargetsSession e b \<and> changed
         then Some CheckNativeEnd else None)"

definition terminalIncarnation :: "string \<Rightarrow> bool" where
  "terminalIncarnation st = (st = ''ended'' \<or> st = ''exited'')"

definition terminalTimeInvariant ::
    "core_session \<Rightarrow> core_session \<Rightarrow> core_event \<Rightarrow> check_error option" where
  "terminalTimeInvariant b a e =
     (if terminalIncarnation (k_Incarnation b) \<and> terminalIncarnation (k_Incarnation a) \<and>
         k_Process b = k_Process a \<and> k_TransitionAt a < k_TransitionAt b
      then Some CheckTime else None)"

definition retiredProcessInvariant ::
    "core_session \<Rightarrow> core_session \<Rightarrow> core_event \<Rightarrow> check_error option" where
  "retiredProcessInvariant b a e =
     (if k_PreviousProcess b \<noteq> '''' \<and> k_PreviousProcess b = e_Process e \<and>
         k_Process b \<noteq> e_Process e \<and> k_Process a \<noteq> k_Process b
      then Some CheckLiveness else None)"

definition ownProcessTerminalEvent :: "core_event \<Rightarrow> core_session \<Rightarrow> bool" where
  "ownProcessTerminalEvent e s =
     (e_Kind e = ''sighting'' \<and> \<not> e_Present e \<and> e_Process e = k_Process s \<or>
      e_Kind e = ''report'' \<and> e_Ends e \<and> eventTargetsSession e s \<and>
        (e_Process e = k_Process s \<or> e_Process e = ''''))"

definition ownProcessTerminalInvariant ::
    "core_session \<Rightarrow> core_session \<Rightarrow> core_event \<Rightarrow> check_error option" where
  "ownProcessTerminalInvariant b a e =
     (if \<not> ownProcessTerminalEvent e b then None
      else if e_At e < k_EvidenceAt b then (if a \<noteq> b then Some CheckLiveness else None)
      else if k_Presence a \<noteq> ''gone'' \<or> k_Activity a \<noteq> '''' then Some CheckLiveness
      else None)"

definition oldProcessEndInvariant ::
    "core_session \<Rightarrow> core_session \<Rightarrow> core_event \<Rightarrow> check_error option" where
  "oldProcessEndInvariant b a e =
     (if e_Kind e = ''report'' \<and> e_Ends e \<and> e_Process e \<noteq> '''' \<and> k_Process b \<noteq> '''' \<and>
         e_Process e \<noteq> k_Process b \<and>
         (k_Process a \<noteq> k_Process b \<or> k_Incarnation a \<noteq> k_Incarnation b)
      then Some CheckNativeEnd else None)"

definition exitEvidenceInvariant ::
    "core_session \<Rightarrow> core_session \<Rightarrow> core_event \<Rightarrow> check_error option" where
  "exitEvidenceInvariant b a e =
     (if e_Kind e = ''sighting'' \<and> \<not> e_Present e \<and> k_Process a = k_Process b \<and>
         k_EvidenceAt a \<noteq> k_EvidenceAt b
      then Some CheckTime else None)"

definition processEvidenceTimeInvariant ::
    "core_session \<Rightarrow> core_session \<Rightarrow> core_event \<Rightarrow> check_error option" where
  "processEvidenceTimeInvariant b a e =
     (if k_Process b \<noteq> k_Process a \<and> k_Process b \<noteq> '''' \<and> e_At e < k_EvidenceAt b
      then Some CheckTime else None)"

definition activityDecisionTimeInvariant ::
    "core_session \<Rightarrow> core_session \<Rightarrow> core_event \<Rightarrow> check_error option" where
  "activityDecisionTimeInvariant b a e =
     (if k_Process b = k_Process a \<and> \<not> terminalIncarnation (k_Incarnation b) \<and>
         k_Presence a \<noteq> ''gone'' \<and> k_DecisionAt b \<noteq> 0 \<and> k_DecisionAt a < k_DecisionAt b
      then Some CheckTime else None)"

definition transition_rules ::
    "(core_session \<Rightarrow> core_session \<Rightarrow> core_event \<Rightarrow> check_error option) list" where
  "transition_rules =
     [nativeIdentityEndInvariant, terminalTimeInvariant, retiredProcessInvariant,
      ownProcessTerminalInvariant, oldProcessEndInvariant, exitEvidenceInvariant,
      processEvidenceTimeInvariant, activityDecisionTimeInvariant]"

fun first_violation ::
    "(core_session \<Rightarrow> core_session \<Rightarrow> core_event \<Rightarrow> check_error option) list
     \<Rightarrow> core_session \<Rightarrow> core_session \<Rightarrow> core_event \<Rightarrow> check_error option" where
  "first_violation [] b a e = None"
| "first_violation (rule # rs) b a e =
     (case rule b a e of Some err \<Rightarrow> Some err | None \<Rightarrow> first_violation rs b a e)"

definition core_Transition ::
    "core_session \<Rightarrow> core_session \<Rightarrow> core_event \<Rightarrow> check_error option" where
  "core_Transition b a e = first_violation transition_rules b a e"

subsection \<open>The projection: \<open>check.go\<close>\<close>

definition process_key :: "process_identity option \<Rightarrow> string" where
  "process_key p = (case p of None \<Rightarrow> '''' | Some q \<Rightarrow> ProcessKey (p_PID q) (p_StartIdentity q))"

definition project :: "session \<Rightarrow> core_session" where
  "project s =
     \<lparr>k_SessionPath = s_SessionPath s,
      k_SessionID = s_SessionID s,
      k_Process = process_key (s_Process s),
      k_IncarnationProcess = process_key (Some (i_Process (s_Incarnation s))),
      k_Incarnation = incarnation_string (i_State (s_Incarnation s)),
      k_EvidenceAt = i_EvidenceAt (s_Incarnation s),
      k_DecisionAt = (case s_Decision s of None \<Rightarrow> 0 | Some d \<Rightarrow> d_ObservedAt d),
      k_TransitionAt = i_TransitionAt (s_Incarnation s),
      k_PreviousProcess = process_key (i_Previous (s_Incarnation s)),
      k_ID = s_ID s,
      k_Harness = s_Harness s,
      k_CreatedAt = s_CreatedAt s,
      k_UpdatedAt = s_UpdatedAt s,
      k_HasLiveness = (s_Liveness s \<noteq> NoLiveness),
      k_Presence = presence_string (s_Presence s),
      k_Activity = (case s_Activity s of None \<Rightarrow> '''' | Some a \<Rightarrow> activity_string a),
      k_ValidState = (presence_valid (s_Presence s) \<and> pred_option activity_valid (s_Activity s)),
      k_NativeEnded =
        (case o_Native (s_Observations s) of
           None \<Rightarrow> False | Some n \<Rightarrow> n_Lifecycle n = Some NativeLifecycleEnd)\<rparr>"

definition event_of :: "observation \<Rightarrow> core_event" where
  "event_of ob =
     \<lparr>e_Kind = ob_Kind ob,
      e_Process = process_key (ob_Process ob),
      e_Harness = ob_Harness ob,
      e_SessionID = oi_SessionID (ob_Subject ob),
      e_SessionPath = oi_SessionPath (ob_Subject ob),
      e_At = ob_At ob,
      e_Ends = (r_Lifecycle (ob_Report ob) = Some NativeLifecycleEnd \<or>
                r_Claim (ob_Report ob) = Some PresenceGone),
      e_Present = (ob_Present ob = Some True)\<rparr>"

definition check_Sessions :: "session list \<Rightarrow> check_error list" where
  "check_Sessions ss = core_Sessions (map project ss)"

definition check_Verification :: "session \<Rightarrow> session \<Rightarrow> check_error option" where
  "check_Verification prior after =
     core_Verification (presence_string (s_Presence prior)) (presence_string (s_Presence after))
       (case s_Process prior of None \<Rightarrow> False | Some p \<Rightarrow> process_complete p)"

definition check_Transition :: "session \<Rightarrow> session \<Rightarrow> observation \<Rightarrow> check_error option" where
  "check_Transition prior after ob = core_Transition (project prior) (project after) (event_of ob)"

subsection \<open>Process keys\<close>

lemma process_key_None [simp]: "process_key None = []"
  by (simp add: process_key_def)

lemma process_key_empty: "process_key (Some p) = [] \<longleftrightarrow> \<not> process_complete p"
  by (auto simp: process_key_def ProcessKey_def process_complete_def)

lemma process_key_eq:
  "process_complete p \<Longrightarrow> process_key (Some p) = process_key (Some q) \<longleftrightarrow> process_equal p q"
  using append_sep_inject [OF itoa_no_colon itoa_no_colon]
  by (auto simp: process_key_def ProcessKey_def process_complete_def process_equal_def itoa_inject)

lemma process_wf_key:
  assumes "process_wf n p"
  shows "process_key p = process_key (Some (i_Process n))"
proof (cases p)
  case None
  then show ?thesis
    using assms process_key_empty [of "i_Process n"]
    by (auto simp: process_wf_def incarnationProcessMatches_def split: if_splits)
next
  case (Some q)
  then have "process_complete (i_Process n) \<and> process_equal (i_Process n) q"
    using assms
    by (auto simp: process_wf_def incarnationProcessMatches_def validStoredProcess_complete split: if_splits)
  then show ?thesis using Some process_key_eq by metis
qed

lemma session_wf_key:
  "session_core s \<Longrightarrow> process_key (s_Process s) = process_key (Some (i_Process (s_Incarnation s)))"
  using process_wf_key by (simp add: session_core_def)

subsection \<open>A well-formed session violates nothing\<close>

lemma presence_string_simps [simp]:
  "presence_valid p \<Longrightarrow> presence_string p = ''gone'' \<longleftrightarrow> p = PresenceGone"
  "presence_valid p \<Longrightarrow> presence_string p = ''live'' \<longleftrightarrow> p = PresenceLive"
  "presence_valid p \<Longrightarrow> presence_string p = ''unknown'' \<longleftrightarrow> p = PresenceUnknown"
  by (auto simp: presence_valid_def)

lemma terminalIncarnation_string:
  "state_known st \<Longrightarrow> terminalIncarnation (incarnation_string st) = terminal_state st"
  by (cases st) (auto simp: terminalIncarnation_def state_known_def)

lemma native_end_wf:
  "end_wf s \<Longrightarrow> k_NativeEnded (project s) \<Longrightarrow> s_Presence s = PresenceGone"
  by (auto simp: end_wf_def project_def nativeEnded_def split: option.splits)

lemma project_activity: "s_Presence s = PresenceGone \<Longrightarrow> k_Activity (project s) = []"
  using activity_None_iff_gone [of s] by (simp add: project_def)

lemma session_wf_state_violations: "session_wf s \<Longrightarrow> sessionStateViolations (project s) = []"
  using native_end_wf [of s] project_activity [of s]
  by (auto simp: sessionStateViolations_def session_wf_def session_core_def meta_wf_def live_wf_def
      project_def)

lemma session_wf_incarnation_violations: "session_wf s \<Longrightarrow> incarnationViolations (project s) = []"
  using session_wf_key [of s]
  by (cases "i_State (s_Incarnation s)")
    (auto simp: incarnationViolations_def project_def session_wf_def session_core_def
      state_agrees_def state_known_def Let_def)

subsection \<open>What a transition does to the incarnation\<close>

lemma different_iff:
  assumes "process_known ob" "ob_Process ob = Some p" "process_complete (i_Process (s_Incarnation s))"
  shows "in_different (normalizeIncarnationInput s ob at ret) \<longleftrightarrow>
     process_key (Some p) \<noteq> process_key (Some (i_Process (s_Incarnation s)))"
  using assms process_known_complete [OF assms(1,2)] process_key_eq [OF assms(3), of p]
  by (auto simp: normalizeIncarnationInput_def)

lemma absent_iff:
  "in_absent (normalizeIncarnationInput s ob at ret) \<longleftrightarrow> ob_Kind ob = ''sighting'' \<and> ob_Present ob = Some False"
  by (simp add: normalizeIncarnationInput_def)

lemma end_iff:
  "in_end (normalizeIncarnationInput s ob at ret) \<longleftrightarrow>
     (\<exists>r. ob_Evidence ob = EvReport r \<and> reportEnds r)"
  by (simp add: normalizeIncarnationInput_def ev_report_def split: evidence.split)

lemma terminal_never_back:
  assumes acc: "t_accepted (transitionIncarnation s ob at False)" and known: "process_known ob"
    and old: "terminal_state (i_State (s_Incarnation s))"
    and new: "terminal_state (i_State (t_next (transitionIncarnation s ob at False)))"
    and same: "process_key (Some (i_Process (t_next (transitionIncarnation s ob at False)))) =
       process_key (Some (i_Process (s_Incarnation s)))"
  shows "i_TransitionAt (s_Incarnation s) \<le> i_TransitionAt (t_next (transitionIncarnation s ob at False))"
proof -
  let ?i = "normalizeIncarnationInput s ob at False"
  have time: "i_TransitionAt (s_Incarnation s) \<le> i_TransitionAt (t_next (applyEvidence ?i b))"
    if "terminal_state (i_State (t_next (applyEvidence ?i b)))"
      and "in_end ?i \<or> in_absent ?i \<or> i_State (t_next b) \<in> {IncarnationStarting, IncarnationLive}" for b
  proof (cases "in_end ?i \<or> in_absent ?i")
    case True
    then show ?thesis using applyEvidence_terminal_time [OF True] by simp
  next
    case False
    then have "\<not> terminal_state (i_State (t_next (applyEvidence ?i b)))"
      using applyEvidence_open_state [of ?i b] that(2) by auto
    then show ?thesis using that(1) by simp
  qed
  show ?thesis
    using acc
  proof (cases rule: accepted_cases)
    case verify
    then show ?thesis using old by (simp add: verificationRejected_def)
  next
    case retire
    then show ?thesis by simp
  next
    case replace
    then show ?thesis using new by (simp only: transition_for_bases, intro time) auto
  next
    case bind
    then show ?thesis using new by (simp only: transition_for_bases, intro time) auto
  next
    case resume
    then show ?thesis using new by (simp only: transition_for_bases, intro time) auto
  next
    case continue
    then show ?thesis
      using new old by (simp only: transition_for_bases, intro time) (auto simp: terminalRejected_def)
  qed
qed

lemma replaced_not_retired:
  assumes acc: "t_accepted (transitionIncarnation s ob at False)" and known: "process_known ob"
    and wf: "incarnation_wf (s_Incarnation s)"
    and prev: "i_Previous (s_Incarnation s) = Some q" and p: "ob_Process ob = Some p"
    and same: "process_key (Some q) = process_key (Some p)"
  shows "process_key (Some p) = process_key (Some (i_Process (s_Incarnation s)))"
proof (rule ccontr)
  assume ne: "\<not> ?thesis"
  let ?i = "normalizeIncarnationInput s ob at False"
  have "process_complete q" "process_complete (i_Process (s_Incarnation s))"
    using wf prev by (auto simp: incarnation_wf_def)
  then have "previousProcess ?i" "in_different ?i"
    using ne same prev p process_key_eq different_iff [OF known p]
    by (auto simp: previousProcess_def)
  then have "replacementRejected ?i" by (simp add: replacementRejected_def)
  then show False
    using \<open>in_different ?i\<close> verification_has_no_process [of s ob at False] p
    by (cases rule: accepted_cases [OF acc]) auto
qed

lemma old_process_cannot_end:
  assumes acc: "t_accepted (transitionIncarnation s ob at False)" and known: "process_known ob"
    and p: "ob_Process ob = Some p" "process_complete (i_Process (s_Incarnation s))"
    and e: "ob_Evidence ob = EvReport r" "reportEnds r"
  shows "process_key (Some p) = process_key (Some (i_Process (s_Incarnation s)))"
proof (rule ccontr)
  assume ne: "\<not> ?thesis"
  let ?i = "normalizeIncarnationInput s ob at False"
  have "in_different ?i" using ne different_iff [OF known p] by simp
  moreover have "in_end ?i" using e end_iff by blast
  ultimately show False
    using verification_has_no_process [of s ob at False] p
    by (cases rule: accepted_cases [OF acc]) (auto simp: replacementRejected_def)
qed

lemma exit_is_no_evidence:
  assumes acc: "t_accepted (transitionIncarnation s ob at False)"
    and "ob_Kind ob = ''sighting''" "ob_Present ob = Some False"
  shows "i_EvidenceAt (t_next (transitionIncarnation s ob at False)) = i_EvidenceAt (s_Incarnation s)"
proof -
  let ?i = "normalizeIncarnationInput s ob at False"
  have absent: "in_absent ?i" using assms absent_iff by blast
  have none: "ev_report ob = None" "ev_verification ob = None"
    using assms(2) by (auto simp: ev_report_def ev_verification_def ob_Kind_iff)
  have evid: "i_EvidenceAt (t_next (applyEvidence ?i b)) = i_EvidenceAt (t_next b)" for b
    using absent none
    by (simp add: applyEvidence_def Let_def note_evidence_def ownProcessEvidence_def split: option.split)
  show ?thesis
    using acc
  proof (cases rule: accepted_cases)
    case replace
    then show ?thesis using absent by (simp add: replacementRejected_def)
  next
    case bind
    then show ?thesis using none by (simp add: bindsTerminalProcess_def)
  next
    case resume
    have "\<not> in_start ?i" using none by (simp add: normalizeIncarnationInput_def reportStarts_def)
    then show ?thesis using resume by (simp add: resumesTerminal_def)
  next
    case continue
    then show ?thesis using evid by (simp add: transition_for_bases)
  qed (auto simp: verifies_def none)
qed

lemma new_process_is_newer:
  assumes acc: "t_accepted (transitionIncarnation s ob at False)" and known: "process_known ob"
    and old: "process_complete (i_Process (s_Incarnation s))"
    and new: "process_key (Some (i_Process (t_next (transitionIncarnation s ob at False)))) \<noteq>
       process_key (Some (i_Process (s_Incarnation s)))"
  shows "i_EvidenceAt (s_Incarnation s) \<le> at"
proof (cases "ob_Process ob")
  case None
  then show ?thesis using new next_process_kept [OF acc] by simp
next
  case (Some p)
  then have "in_different (normalizeIncarnationInput s ob at False)"
    using new next_process [OF acc known Some] different_iff [OF known Some old] by simp
  then show ?thesis
    using verification_has_no_process [of s ob at False] Some
    by (cases rule: accepted_cases [OF acc])
      (auto simp: replacementRejected_def in_evidence_at_def)
qed

text \<open>A terminal observation that is accepted ends the session, unless it is a stale one.\<close>

lemma absent_ends:
  assumes "t_accepted (transitionIncarnation s ob at False)"
    and "ob_Kind ob = ''sighting''" "ob_Present ob = Some False"
  shows "t_terminal (transitionIncarnation s ob at False)"
proof -
  have "in_absent (normalizeIncarnationInput s ob at False)" using assms absent_iff by blast
  moreover have "ev_verification ob = None" using assms(2) by (auto simp: ev_verification_def ob_Kind_iff)
  ultimately show ?thesis
    by (cases rule: accepted_cases [OF assms(1)]) (auto simp: transition_for_bases verifies_def)
qed

lemma stale_terminal_rejected:
  assumes known: "process_known ob" and stale: "at < i_EvidenceAt (s_Incarnation s)"
    and own: "ob_Process ob = None \<or> process_key (ob_Process ob) = process_key (Some (i_Process (s_Incarnation s)))"
    and final: "ob_Kind ob = ''sighting'' \<and> ob_Present ob = Some False \<or>
       (\<exists>r. ob_Evidence ob = EvReport r \<and> reportEnds r)"
  shows "\<not> t_accepted (transitionIncarnation s ob at False)"
proof
  let ?i = "normalizeIncarnationInput s ob at False"
  assume acc: "t_accepted (transitionIncarnation s ob at False)"
  have "terminalStale ?i"
    using stale final absent_iff end_iff by (auto simp: terminalStale_def in_evidence_at_def)
  moreover have "\<not> in_different ?i"
    using own different_iff [OF known, of _ s at False]
    by (cases "ob_Process ob") (auto simp: normalizeIncarnationInput_def)
  moreover have "\<not> verifies ?i"
    using final by (auto simp: verifies_def ev_verification_def ob_Kind_iff)
  moreover have "\<not> bindsTerminalProcess ?i"
    using stale by (simp add: bindsTerminalProcess_def in_evidence_at_def)
  ultimately show False by (cases rule: accepted_cases [OF acc]) auto
qed

subsection \<open>What an update does to the projected session\<close>

lemma update_session_reads:
  assumes "t_accepted t"
  shows "s_Incarnation (update_session pol ob at received t s) = t_next t"
    and "s_Harness (update_session pol ob at received t s) = s_Harness s"
    and "s_ID (update_session pol ob at received t s) = s_ID s"
  using assms by (simp_all add: update_session_def Let_def lc_commit_incarnation)

lemma update_session_liveness:
  "s_Presence (update_session pol ob at received t s) =
     s_Presence (lc_apply ob pol at (applyMetadata ob (applyIdentity ob (storeObservation ob at (lc_commit t at s)))))"
  "s_Decision (update_session pol ob at received t s) =
     s_Decision (lc_apply ob pol at (applyMetadata ob (applyIdentity ob (storeObservation ob at (lc_commit t at s)))))"
  by (simp_all add: update_session_def Let_def)

lemma lc_commit_decision:
  assumes "\<not> t_terminal t" "\<not> t_reset t"
  shows "s_Decision (lc_commit t at s) = s_Decision s"
  using assms
  by (cases "t_accepted t") (simp_all add: lc_commit_def Let_def settle_liveness_def split: incarnation_state.split)

lemma acceptsActivity_decision:
  "acceptsActivity s at \<Longrightarrow> s_Decision s = Some d \<Longrightarrow> d_ObservedAt d \<le> at"
  by (simp add: acceptsActivity_def)

lemma lc_report_decision:
  assumes "s_Decision s = Some d"
  shows "\<exists>d'. s_Decision (lc_report r pol at s) = Some d' \<and> d_ObservedAt d \<le> d_ObservedAt d'"
  using assms acceptsActivity_decision by (auto simp: lc_report_def split: option.split)

lemma lc_reading_decision:
  assumes "s_Decision s = Some d"
  shows "\<exists>d'. s_Decision (lc_reading pol at s) = Some d' \<and> d_ObservedAt d \<le> d_ObservedAt d'"
  using assms acceptsActivity_decision by (auto simp: lc_reading_def split: option.split)

lemma lc_apply_decision:
  assumes "s_Decision s = Some d"
    and "\<And>v. ob_Evidence ob = EvVerification v \<Longrightarrow> d_ObservedAt d \<le> at"
  shows "\<exists>d'. s_Decision (lc_apply ob pol at s) = Some d' \<and> d_ObservedAt d \<le> d_ObservedAt d'"
proof (cases "ob_Evidence ob")
  case (EvReport r)
  then show ?thesis using lc_report_decision [OF assms(1)] by (simp add: lc_apply_def)
next
  case (EvReading r)
  then show ?thesis using lc_reading_decision [OF assms(1)] by (simp add: lc_apply_def)
next
  case (EvVerification v)
  then show ?thesis
    using assms(2) by (auto simp: lc_apply_def lc_verify_def s_Decision_def process_decision_def Let_def)
qed (use assms in \<open>simp_all add: lc_apply_def\<close>)

lemma decision_never_back:
  fixes s :: session and ob :: observation and at :: time
  defines "t \<equiv> transitionIncarnation s ob at False"
  assumes acc: "t_accepted t" and known: "process_known ob" and le: "at \<le> at'"
    and old: "\<not> terminal_state (i_State (s_Incarnation s))"
    and same: "process_key (Some (i_Process (t_next t))) = process_key (Some (i_Process (s_Incarnation s)))"
    and open': "\<not> t_terminal t" and d: "s_Decision s = Some d"
  shows "\<exists>d'. s_Decision (update_session pol ob at' received t s) = Some d' \<and> d_ObservedAt d \<le> d_ObservedAt d'"
proof -
  let ?i = "normalizeIncarnationInput s ob at False"
  have no_reset: "\<not> t_reset t"
    using acc [unfolded t_def]
  proof (cases rule: accepted_cases)
    case replace
    obtain p where p: "ob_Process ob = Some p" "process_complete (i_Process (s_Incarnation s))"
      using replace_process [OF replace(3)] by metis
    then have "process_key (Some (i_Process (s_Incarnation s))) \<noteq> process_key (Some p)"
      using replace(3) different_iff [OF known p] by simp
    then show ?thesis using same next_process [OF _ known p(1)] acc by (simp add: t_def)
  next
    case bind
    then show ?thesis using old by (simp add: bindsTerminalProcess_def)
  next
    case resume
    then show ?thesis using old by (simp add: resumesTerminal_def)
  qed (simp_all add: transition_for_bases t_def)
  have verified: "d_ObservedAt d \<le> at" if "ob_Evidence ob = EvVerification v" for v
  proof -
    have "verifies ?i" using that by (simp add: verifies_def ev_verification_def)
    then have "\<not> verificationRejected ?i"
      by (cases rule: accepted_cases [OF acc [unfolded t_def]]) simp_all
    then show ?thesis using \<open>verifies ?i\<close> d by (auto simp: verificationRejected_def)
  qed
  show ?thesis
    unfolding update_session_liveness
    using verified le d lc_commit_decision [OF open' no_reset]
    by (intro lc_apply_decision) fastforce+
qed

subsection \<open>The rules hold of an accepted observation\<close>

text \<open>
  \<open>accepted_step\<close> collects what the rules need of an accepted observation: the session before,
  the session after the update, and the projection after a possible absorption of a provisional
  session, which can only change the time of the evidence and only after a reset.
\<close>

definition accepted_step ::
    "policy \<Rightarrow> session \<Rightarrow> observation \<Rightarrow> time \<Rightarrow> time \<Rightarrow> time \<Rightarrow> core_session \<Rightarrow> bool" where
  "accepted_step pol s ob at at' received a \<longleftrightarrow>
     (let t = transitionIncarnation s ob at False; u = update_session pol ob at' received t s in
      session_wf s \<and> process_known ob \<and> at \<le> at' \<and> at \<le> ob_At ob \<and> t_accepted t \<and> session_wf u \<and>
      (\<exists>x. a = (project u)\<lparr>k_EvidenceAt := x\<rparr> \<and> (\<not> t_reset t \<longrightarrow> x = k_EvidenceAt (project u))))"

lemma accepted_step_facts:
  assumes "accepted_step pol s ob at at' received a"
  defines "t \<equiv> transitionIncarnation s ob at False"
  shows "t_accepted t" "process_known ob" "session_core s" "incarnation_wf (s_Incarnation s)"
    and "state_known (i_State (s_Incarnation s))" "state_known (i_State (t_next t))"
    and "k_Process (project s) = process_key (Some (i_Process (s_Incarnation s)))"
    and "k_Process a = process_key (Some (i_Process (t_next t)))"
    and "k_Incarnation a = incarnation_string (i_State (t_next t))"
    and "k_TransitionAt a = i_TransitionAt (t_next t)"
    and "k_Presence a = presence_string (s_Presence (update_session pol ob at' received t s))"
    and "k_Activity a = k_Activity (project (update_session pol ob at' received t s))"
    and "at \<le> at'" "at \<le> ob_At ob"
    and "k_DecisionAt a = k_DecisionAt (project (update_session pol ob at' received t s))"
    and "\<not> t_reset t \<Longrightarrow> k_EvidenceAt a = i_EvidenceAt (t_next t)"
proof -
  define u where "u = update_session pol ob at' received t s"
  have all: "session_wf s" "process_known ob" "at \<le> at'" "at \<le> ob_At ob" "t_accepted t" "session_wf u"
    "\<exists>x. a = (project u)\<lparr>k_EvidenceAt := x\<rparr> \<and> (\<not> t_reset t \<longrightarrow> x = k_EvidenceAt (project u))"
    using assms(1) unfolding accepted_step_def Let_def t_def [symmetric] u_def by blast+
  then obtain x where a: "a = (project u)\<lparr>k_EvidenceAt := x\<rparr>"
    and x: "\<not> t_reset t \<Longrightarrow> x = k_EvidenceAt (project u)" by blast
  have inc: "s_Incarnation u = t_next t" using update_session_reads(1) [OF all(5)] by (simp add: u_def)
  have core: "session_core s" "session_core u" using all session_wf_core by blast+
  show "t_accepted t" "process_known ob" "session_core s" "at \<le> at'" "at \<le> ob_At ob"
    by (fact all core)+
  show "incarnation_wf (s_Incarnation s)" using core by (simp add: session_core_def)
  show "state_known (i_State (s_Incarnation s))" using core by (simp add: session_core_def state_agrees_def)
  show "state_known (i_State (t_next t))"
    using core inc by (simp add: session_core_def state_agrees_def)
  show "k_Process (project s) = process_key (Some (i_Process (s_Incarnation s)))"
    using session_wf_key [OF core(1)] by (simp add: project_def)
  show "k_Process a = process_key (Some (i_Process (t_next t)))"
    using session_wf_key [OF core(2)] inc by (simp add: project_def a)
  show "k_Incarnation a = incarnation_string (i_State (t_next t))"
    "k_TransitionAt a = i_TransitionAt (t_next t)"
    using inc by (simp_all add: project_def a)
  show "k_Presence a = presence_string (s_Presence (update_session pol ob at' received t s))"
    by (simp add: project_def a u_def)
  show "k_Activity a = k_Activity (project (update_session pol ob at' received t s))"
    "k_DecisionAt a = k_DecisionAt (project (update_session pol ob at' received t s))"
    by (simp_all add: a u_def)
  show "k_EvidenceAt a = i_EvidenceAt (t_next t)" if "\<not> t_reset t"
    using x [OF that] inc by (simp add: a project_def)
qed

lemma project_fields [simp]:
  "k_Incarnation (project s) = incarnation_string (i_State (s_Incarnation s))"
  "k_TransitionAt (project s) = i_TransitionAt (s_Incarnation s)"
  "k_EvidenceAt (project s) = i_EvidenceAt (s_Incarnation s)"
  "k_PreviousProcess (project s) = process_key (i_Previous (s_Incarnation s))"
  "k_Presence (project s) = presence_string (s_Presence s)"
  "k_Harness (project s) = s_Harness s"
  "k_SessionID (project s) = s_SessionID s"
  "k_SessionPath (project s) = s_SessionPath s"
  by (simp_all add: project_def)

lemma event_fields [simp]:
  "e_Kind (event_of ob) = ob_Kind ob" "e_Process (event_of ob) = process_key (ob_Process ob)"
  "e_At (event_of ob) = ob_At ob" "e_Harness (event_of ob) = ob_Harness ob"
  "e_SessionID (event_of ob) = oi_SessionID (ob_Subject ob)"
  "e_SessionPath (event_of ob) = oi_SessionPath (ob_Subject ob)"
  "e_Present (event_of ob) = (ob_Present ob = Some True)"
  by (simp_all add: event_of_def)

lemma event_ends: "ob_Kind ob = ''report'' \<Longrightarrow> e_Ends (event_of ob) \<longleftrightarrow>
   (\<exists>r. ob_Evidence ob = EvReport r \<and> reportEnds r)"
  by (auto simp: event_of_def ob_Kind_iff ob_Report_def reportEnds_def)

lemma event_absent: "ob_Kind ob = ''sighting'' \<Longrightarrow> ob_Present ob \<noteq> Some True \<Longrightarrow> ob_Present ob = Some False"
  by (auto simp: ob_Kind_iff ob_Present_def)

lemma observed_process_complete:
  "process_known ob \<Longrightarrow> process_key (ob_Process ob) \<noteq> [] \<longleftrightarrow> ob_Process ob \<noteq> None"
  using process_known_complete process_key_empty by (cases "ob_Process ob") auto

lemma targets_iff:
  "eventTargetsSession (event_of ob) (project s) \<longleftrightarrow>
     ob_Harness ob = s_Harness s \<and> \<not> observationIdentityConflicts s (ob_Subject ob)"
  by (simp add: eventTargetsSession_def observationIdentityConflicts_def Let_def)

lemma step_terminal_time:
  assumes "accepted_step pol s ob at at' received a"
  shows "terminalTimeInvariant (project s) a e = None"
  using terminal_never_back [of s ob at] accepted_step_facts [OF assms]
  by (auto simp: terminalTimeInvariant_def terminalIncarnation_string)

lemma step_retired_process:
  assumes "accepted_step pol s ob at at' received a"
  shows "retiredProcessInvariant (project s) a (event_of ob) = None"
proof (rule ccontr)
  note f = accepted_step_facts [OF assms]
  assume "\<not> ?thesis"
  then have bad: "process_key (i_Previous (s_Incarnation s)) \<noteq> []"
    "process_key (i_Previous (s_Incarnation s)) = process_key (ob_Process ob)"
    "k_Process (project s) \<noteq> process_key (ob_Process ob)"
    by (auto simp: retiredProcessInvariant_def split: if_splits)
  then obtain q p where "i_Previous (s_Incarnation s) = Some q" "ob_Process ob = Some p"
    by (cases "i_Previous (s_Incarnation s)"; cases "ob_Process ob") auto
  then show False using replaced_not_retired [OF f(1,2,4)] bad f(7) by simp
qed

lemma step_old_end:
  assumes "accepted_step pol s ob at at' received a"
  shows "oldProcessEndInvariant (project s) a (event_of ob) = None"
proof (rule ccontr)
  note f = accepted_step_facts [OF assms]
  assume "\<not> ?thesis"
  then have bad: "ob_Kind ob = ''report''" "e_Ends (event_of ob)" "process_key (ob_Process ob) \<noteq> []"
    "k_Process (project s) \<noteq> []" "process_key (ob_Process ob) \<noteq> k_Process (project s)"
    by (auto simp: oldProcessEndInvariant_def split: if_splits)
  then obtain p r where "ob_Process ob = Some p" "ob_Evidence ob = EvReport r" "reportEnds r"
    using event_ends by (cases "ob_Process ob") auto
  then show False
    using old_process_cannot_end [OF f(1,2)] bad f(7) process_key_empty by auto
qed

lemma absent_no_reset:
  assumes "t_accepted (transitionIncarnation s ob at False)"
    and "ob_Kind ob = ''sighting''" "ob_Present ob = Some False"
  shows "\<not> t_reset (transitionIncarnation s ob at False)"
proof -
  have "in_absent (normalizeIncarnationInput s ob at False)" using assms absent_iff by blast
  moreover have "ev_report ob = None" using assms(2) by (auto simp: ev_report_def ob_Kind_iff)
  ultimately show ?thesis
    by (cases rule: accepted_cases [OF assms(1)])
      (auto simp: transition_for_bases replacementRejected_def bindsTerminalProcess_def
        resumesTerminal_def normalizeIncarnationInput_def reportStarts_def)
qed

lemma step_exit_evidence:
  assumes "accepted_step pol s ob at at' received a"
  shows "exitEvidenceInvariant (project s) a (event_of ob) = None"
proof (rule ccontr)
  note f = accepted_step_facts [OF assms]
  assume "\<not> ?thesis"
  then have bad: "ob_Kind ob = ''sighting''" "ob_Present ob = Some False"
    "k_EvidenceAt a \<noteq> i_EvidenceAt (s_Incarnation s)"
    using event_absent by (auto simp: exitEvidenceInvariant_def split: if_splits)
  then show False
    using exit_is_no_evidence [OF f(1)] absent_no_reset [OF f(1)] f(16) by simp
qed

lemma step_process_time:
  assumes "accepted_step pol s ob at at' received a"
  shows "processEvidenceTimeInvariant (project s) a (event_of ob) = None"
proof (rule ccontr)
  note f = accepted_step_facts [OF assms]
  assume "\<not> ?thesis"
  then have bad: "k_Process (project s) \<noteq> k_Process a" "k_Process (project s) \<noteq> []"
    "ob_At ob < i_EvidenceAt (s_Incarnation s)"
    by (auto simp: processEvidenceTimeInvariant_def split: if_splits)
  then show False
    using new_process_is_newer [OF f(1,2)] f(7,8,14) process_key_empty by fastforce
qed

lemma step_decision_time:
  assumes "accepted_step pol s ob at at' received a"
  shows "activityDecisionTimeInvariant (project s) a (event_of ob) = None"
proof (rule ccontr)
  note f = accepted_step_facts [OF assms]
  let ?t = "transitionIncarnation s ob at False"
  let ?u = "update_session pol ob at' received ?t s"
  assume "\<not> ?thesis"
  then have bad: "k_Process (project s) = k_Process a" "\<not> terminal_state (i_State (s_Incarnation s))"
    "s_Presence ?u \<noteq> PresenceGone" "k_DecisionAt (project s) \<noteq> 0"
    "k_DecisionAt a < k_DecisionAt (project s)"
    using f(5,11) by (auto simp: activityDecisionTimeInvariant_def terminalIncarnation_string split: if_splits)
  then obtain d where d: "s_Decision s = Some d" by (auto simp: project_def split: option.splits)
  have wf: "session_wf ?u" using assms by (simp add: accepted_step_def Let_def)
  then have "\<not> terminal_state (i_State (t_next ?t))"
    using bad(3) update_session_reads(1) [OF f(1)] state_agrees_gone
    by (auto simp: session_wf_def session_core_def)
  then have "\<not> t_terminal ?t" using next_state [OF f(1,5)] by simp
  then show False
    using decision_never_back [OF f(1,2,13) bad(2) _ _ d, of pol received] bad(1,5) f(7,8,15) d
    by (auto simp: project_def)
qed

lemma step_own_end:
  assumes "accepted_step pol s ob at at' received a"
  shows "ownProcessTerminalInvariant (project s) a (event_of ob) = None"
proof (cases "ownProcessTerminalEvent (event_of ob) (project s)")
  case True
  note f = accepted_step_facts [OF assms]
  let ?t = "transitionIncarnation s ob at False"
  let ?u = "update_session pol ob at' received ?t s"
  have final: "ob_Kind ob = ''sighting'' \<and> ob_Present ob = Some False \<or>
      (\<exists>r. ob_Evidence ob = EvReport r \<and> reportEnds r)"
    using True event_ends event_absent by (auto simp: ownProcessTerminalEvent_def)
  have "t_terminal ?t" using final absent_ends [OF f(1)] next_end [OF f(1)] by blast
  then have "terminal_state (i_State (t_next ?t))" using next_state [OF f(1,5)] by simp
  moreover have "session_wf ?u" using assms by (simp add: accepted_step_def Let_def)
  ultimately have gone: "s_Presence ?u = PresenceGone"
    using update_session_reads(1) [OF f(1)] state_agrees_gone
    by (fastforce simp: session_wf_def session_core_def)
  have own: "ob_Process ob = None \<or>
      process_key (ob_Process ob) = process_key (Some (i_Process (s_Incarnation s)))"
    using True f(7) observed_process_complete [OF f(2)] by (auto simp: ownProcessTerminalEvent_def)
  have "i_EvidenceAt (s_Incarnation s) \<le> ob_At ob"
    using stale_terminal_rejected [OF f(2) _ own final, of at] f(1,14) by force
  then show ?thesis
    using gone project_activity f(11,12) by (simp add: ownProcessTerminalInvariant_def)
qed (simp add: ownProcessTerminalInvariant_def)

lemma step_native_end:
  assumes "accepted_step pol s ob at at' received a"
    and "\<And>r. ob_Evidence ob = EvReport r \<Longrightarrow> reportEnds r \<Longrightarrow> eventTargetsSession (event_of ob) (project s)"
  shows "nativeIdentityEndInvariant (project s) a (event_of ob) = None"
  using assms(2) event_ends by (auto simp: nativeIdentityEndInvariant_def Let_def)

lemma step_checked:
  assumes "accepted_step pol s ob at at' received a"
    and "\<And>r. ob_Evidence ob = EvReport r \<Longrightarrow> reportEnds r \<Longrightarrow> eventTargetsSession (event_of ob) (project s)"
  shows "core_Transition (project s) a (event_of ob) = None"
  using step_native_end [OF assms] step_terminal_time [OF assms(1)] step_retired_process [OF assms(1)]
    step_own_end [OF assms(1)] step_old_end [OF assms(1)] step_exit_evidence [OF assms(1)]
    step_process_time [OF assms(1)] step_decision_time [OF assms(1)]
  by (simp add: core_Transition_def transition_rules_def)

subsection \<open>The rules hold of the reducer\<close>

lemma duplicate_report:
  assumes "duplicateSequencedReport s ob"
  obtains r n where "ob_Evidence ob = EvReport r" "o_Native (s_Observations s) = Some n"
    "n = native_slot s ob (n_ObservedAt n)"
proof -
  obtain n where n: "o_Native (s_Observations s) = Some n"
    and seq: "rp_Sequence (r_Reporter (ob_Report ob)) \<noteq> None"
    and same: "observationEquivalent s ob (n_ObservedAt n)"
    using assms by (auto simp: duplicateSequencedReport_def Let_def split: option.splits)
  obtain r where r: "ob_Evidence ob = EvReport r"
    using seq by (cases "ob_Evidence ob") (auto simp: ob_Report_def zero_report_def zero_reporter_def)
  then have "n = native_slot s ob (n_ObservedAt n)"
    using same n by (simp add: observationEquivalent_def existingSlot_def Let_def storeObservation_def
        storeNativeObservation_def)
  then show thesis using that r n by blast
qed

lemma duplicate_end_gone:
  assumes "duplicateSequencedReport s ob" "end_wf s" "ob_Evidence ob = EvReport r" "reportEnds r"
  shows "s_Presence s = PresenceGone"
proof -
  obtain n where n: "o_Native (s_Observations s) = Some n" "n = native_slot s ob (n_ObservedAt n)"
    using duplicate_report [OF assms(1)] by metis
  have "nativeEnded (native_slot s ob t)" for t
    using assms(3,4) by (auto simp: nativeEnded_def native_slot_def ob_Report_def reportEnds_def Let_def)
  then have "nativeEnded n" using n(2) by metis
  then show ?thesis using assms(2) n(1) by (simp add: end_wf_def)
qed

lemma unchanged_checked:
  assumes "\<And>r. ob_Evidence ob = EvReport r \<Longrightarrow> reportEnds r \<Longrightarrow> s_Presence s = PresenceGone"
    and "ob_Kind ob = ''sighting'' \<Longrightarrow> ob_Present ob = Some False \<Longrightarrow> s_Presence s = PresenceGone"
  shows "check_Transition s s ob = None"
proof -
  have "ownProcessTerminalInvariant (project s) (project s) (event_of ob) = None"
    using assms event_ends event_absent project_activity
    by (auto simp: ownProcessTerminalInvariant_def ownProcessTerminalEvent_def)
  then show ?thesis
    by (simp add: check_Transition_def core_Transition_def transition_rules_def
        nativeIdentityEndInvariant_def terminalTimeInvariant_def retiredProcessInvariant_def
        oldProcessEndInvariant_def exitEvidenceInvariant_def processEvidenceTimeInvariant_def
        activityDecisionTimeInvariant_def Let_def)
qed

lemma absorb_projection:
  "project (absorb_resumed ob p s) = (project s)\<lparr>k_EvidenceAt :=
     maxTime [i_EvidenceAt (s_Incarnation s), i_EvidenceAt (s_Incarnation p)]\<rparr>"
  by (simp add: project_def absorb_resumed_incarnation)

lemma projection_refl: "\<exists>x. project s = (project s)\<lparr>k_EvidenceAt := x\<rparr>"
  by (rule exI [of _ "k_EvidenceAt (project s)"]) simp

lemma resume_projection:
  "fold_result (resume_turn ob) (m, s) xs = Inr (m', s') \<Longrightarrow> \<exists>x. project s' = (project s)\<lparr>k_EvidenceAt := x\<rparr>"
proof (induction xs arbitrary: m s)
  case Nil
  then show ?case using projection_refl [of s] by simp
next
  case (Cons x xs)
  then obtain m1 s1 where step: "resume_turn ob (m, s) x = Inr (m1, s1)"
    and rest: "fold_result (resume_turn ob) (m1, s1) xs = Inr (m', s')"
    by (auto split: sum.splits)
  from step have "s1 = s \<or> (\<exists>p. s1 = absorb_resumed ob p s)"
    by (auto simp: resume_turn_def split: if_splits option.splits)
  then show ?case using Cons.IH [OF rest] by (auto simp: absorb_projection)
qed

lemma reduceSession_checked:
  assumes s: "session_wf s" and red: "reducing ob at received"
    and at: "observationTime (ob_At ob) received = at"
    and target: "\<And>r. ob_Evidence ob = EvReport r \<Longrightarrow> reportEnds r \<Longrightarrow>
       ob_Harness ob = s_Harness s \<and> \<not> observationIdentityConflicts s (ob_Subject ob)"
    and res: "reduceSession r m s ob at received = Inr (m', s')"
  shows "check_Transition s s' ob = None"
proof -
  let ?t = "transitionIncarnation s ob at False"
  define base where "base = (if t_reset ?t then clear_native s else s)"
  have known: "observation_ok ob" "observation_sane received ob" "0 < at" "0 < received"
    using red by (auto simp: reducing_def)
  note pk = observation_ok_process_known [OF known(1)]
  have end': "end_wf s" using s by (simp add: session_wf_def session_core_def)
  obtain at' where at': "sequencedObservationTime base ob at = Inr at'"
    using res by (auto simp: reduceSession_def base_def Let_def split: sum.splits)
  show ?thesis
  proof (cases "duplicateSequencedReport base ob")
    case True
    then have "base = s" "s' = s"
      using res at' clear_native_duplicate [of s ob]
      by (auto simp: reduceSession_def base_def Let_def split: if_splits)
    then show ?thesis
      using True duplicate_end_gone [OF _ end'] duplicate_report [of s ob]
      by (metis unchanged_checked ob_Kind_iff(2) evidence.distinct(13))
  next
    case False
    then have acc: "t_accepted ?t"
      using res at' by (auto simp: reduceSession_def base_def Let_def split: if_splits)
    obtain s1 where s1: "applyObservation r ob at' received ?t s = Inr s1"
      using res at' False acc by (auto simp: reduceSession_def base_def Let_def split: sum.splits)
    have le: "at \<le> at'" using sequencedTime_later [OF at' False] .
    have dated: "pred_option (\<lambda>t. t \<le> at') (r_DetailObservedAt rr)" if "ob_Evidence ob = EvReport rr" for rr
      by (rule detail_dated [OF known(1,2) that]) (use at le in simp)
    have wf1: "session_wf s1"
      by (rule applyObservation_wf(1) [OF disjI1 [OF s] acc known(1,2) _ known(4) dated s1])
        (use known le in auto)
    have out: "\<exists>x. project s' = (project s1)\<lparr>k_EvidenceAt := x\<rparr> \<and> (\<not> t_reset ?t \<longrightarrow> s' = s1)"
      using res at' False acc s1 resume_projection [of ob m s1 m m' s'] projection_refl [of s1]
      by (auto simp: reduceSession_def base_def Let_def reconcileResumedProcessSession_def split: if_splits)
    show ?thesis
    proof (cases "s1 = update_session (re_Policy r (s_Harness s)) ob at' received ?t s")
      case True
      have "at \<le> ob_At ob" using observationTime_bounds(2) at by metis
      moreover have "\<exists>x. project s' = (project s1)\<lparr>k_EvidenceAt := x\<rparr> \<and>
          (\<not> t_reset ?t \<longrightarrow> x = k_EvidenceAt (project s1))"
      proof (cases "t_reset ?t")
        case False
        then show ?thesis using out by (intro exI [of _ "k_EvidenceAt (project s1)"]) simp
      qed (use out in blast)
      ultimately have "accepted_step (re_Policy r (s_Harness s)) s ob at at' received (project s')"
        using s pk le acc wf1 True unfolding accepted_step_def Let_def by simp
      then show ?thesis
        unfolding check_Transition_def using target targets_iff by (intro step_checked) auto
    next
      case no: False
      then have "s1 = s" "\<not> t_reset ?t" "\<not> t_terminal ?t"
        using s1 by (auto simp: applyObservation_def Let_def split: if_splits)
      then show ?thesis
        using out next_end [OF acc] absent_ends [OF acc] by (auto intro!: unchanged_checked)
    qed
  qed
qed

lemma reduceSession_verified:
  assumes s: "session_wf s" and ev: "ob_Evidence ob = EvVerification v" and ok: "observation_ok ob"
    and res: "reduceSession r m s ob at received = Inr (m', s')"
  shows "check_Verification s s' = None" "s_Presence s \<noteq> PresenceGone" "s_Presence s' = v_Presence v"
proof -
  let ?t = "transitionIncarnation s ob at False"
  have ver: "verifies (normalizeIncarnationInput s ob at False)"
    using ev by (simp add: verifies_def ev_verification_def)
  have dup: "\<not> duplicateSequencedReport x ob" for x
    using ev by (auto elim: duplicate_report)
  then have acc: "t_accepted ?t"
    using res by (auto simp: reduceSession_def Let_def split: sum.splits if_splits)
  have rule: "\<not> verificationRejected (normalizeIncarnationInput s ob at False)"
    "?t = verify_transition (normalizeIncarnationInput s ob at False)"
    using ver by (cases rule: accepted_cases [OF acc]; simp)+
  have core: "session_core s" using s session_wf_core by blast
  then have agrees: "state_agrees (i_State (s_Incarnation s)) (s_Presence s)"
    by (simp add: session_core_def)
  show open': "s_Presence s \<noteq> PresenceGone"
    using rule(1) ver state_agrees_gone [OF agrees] by (auto simp: verificationRejected_def)
  have incomplete: "\<not> process_complete (i_Process (s_Incarnation s))"
    using rule(1) ver by (auto simp: verificationRejected_def)
  then have no_process: "s_Process s = None"
    using core by (cases "s_Process s")
      (auto simp: session_core_def process_wf_def incarnationProcessMatches_def
        validStoredProcess_complete split: if_splits)
  obtain at' where "applyObservation r ob at' received ?t s = Inr s'"
    using res dup acc rule(2) by (auto simp: reduceSession_def Let_def split: sum.splits if_splits)
  moreover have "sourceSlotTime s ob = 0" using ev by (simp add: sourceSlotTime_def Let_def)
  ultimately have "s' = update_session (re_Policy r (s_Harness s)) ob at' received ?t s"
    by (auto simp: applyObservation_def Let_def split: if_splits)
  then show presence: "s_Presence s' = v_Presence v"
    using ev observation_ok_kinds(6) [OF ok ev]
    by (auto simp: update_session_liveness lc_apply_def lc_verify_presence)
  then show "check_Verification s s' = None"
    using open' no_process observation_ok_kinds(6) [OF ok ev]
    by (auto simp: check_Verification_def core_Verification_def)
qed

end
