(* ===== verification/Aht_Examples.thy ===== *)
theory Aht_Examples
  imports Aht_Runs Aht_RegistryCheck
begin

section \<open>Concrete inputs\<close>

text \<open>
  A policy, processes, observations and an environment on which the theorems of the root theory
  are applied. The digest is the identity, the clock says 10 and every write succeeds.
\<close>

definition ex_policy :: policy where
  "ex_policy =
     \<lparr>pol_DetailReporters = [],
      pol_Details = \<lparr>dc_Native = \<lparr>ds_Permission = True, ds_Question = True, ds_UsageLimit = True\<rparr>,
                     dc_Screen = no_support\<rparr>,
      pol_ExclusiveProcess = True, pol_Authority = AuthorityHook, pol_ScreenFallback = True,
      pol_RetainNativeActivity = False, pol_Reporter = ''aht'', pol_CatalogCreates = True\<rparr>"

definition ex_reducer :: reducer where
  "ex_reducer =
     \<lparr>re_Rules = \<lparr>ru_Known = (\<lambda>_. True), ru_Policy = (\<lambda>_. ex_policy)\<rparr>, re_Digest = (\<lambda>s. s)\<rparr>"

definition ex_process :: "int \<Rightarrow> process_identity" where
  "ex_process pid = zero_process\<lparr>p_PID := pid, p_StartIdentity := ''t''\<rparr>"

definition ex_sighting :: "int \<Rightarrow> bool \<Rightarrow> time \<Rightarrow> observation" where
  "ex_sighting pid present at =
     \<lparr>ob_Harness = ''codex'', ob_At = at, ob_Subject = zero_identity,
      ob_Evidence = EvSighting \<lparr>si_Process = ex_process pid, si_Present = present\<rparr>\<rparr>"

definition ex_verification :: "string \<Rightarrow> presence \<Rightarrow> time \<Rightarrow> observation" where
  "ex_verification sid p at =
     \<lparr>ob_Harness = ''codex'', ob_At = at, ob_Subject = zero_identity\<lparr>oi_SessionID := sid\<rparr>,
      ob_Evidence = EvVerification \<lparr>v_Presence = p, v_Reason = ''lost''\<rparr>\<rparr>"

definition ex_report ::
    "process_identity option \<Rightarrow> string \<Rightarrow> 64 word option \<Rightarrow> activity option \<Rightarrow> native_lifecycle option
     \<Rightarrow> time \<Rightarrow> observation" where
  "ex_report p sid sq a l at =
     \<lparr>ob_Harness = ''codex'', ob_At = at, ob_Subject = zero_identity\<lparr>oi_SessionID := sid\<rparr>,
      ob_Evidence = EvReport (zero_report\<lparr>
        r_Process := p, r_Event := ''e'', r_Activity := a, r_Lifecycle := l,
        r_Reporter := zero_reporter\<lparr>rp_Integration := ''aht'', rp_Sequence := sq, rp_Version := 1\<rparr>\<rparr>)\<rparr>"

definition ex_live_report :: "int \<Rightarrow> string \<Rightarrow> 64 word \<Rightarrow> activity \<Rightarrow> time \<Rightarrow> observation" where
  "ex_live_report pid sid sq a at =
     (let ob = ex_report (Some (ex_process pid)) sid (Some sq) (Some a) None at
      in ob\<lparr>ob_Evidence := EvReport ((ob_Report ob)\<lparr>r_Claim := Some PresenceLive\<rparr>)\<rparr>)"

definition ex_batch :: "observation list" where
  "ex_batch = [ex_sighting 7 True 5, ex_live_report 7 ''A'' 1 ActivityFailed 6, ex_sighting 8 True 6]"

definition ex_run :: "observation list \<Rightarrow> reg_error + snapshot" where
  "ex_run obs =
     (case applyObservationBatch (\<lambda>_. False) ex_reducer newSnapshot obs 10 of
        Inl e \<Rightarrow> Inl e | Inr (sn, _) \<Rightarrow> Inr sn)"

text \<open>The state after the batch.\<close>

definition ex_snapshot :: snapshot where
  "ex_snapshot = (case ex_run ex_batch of Inl _ \<Rightarrow> newSnapshot | Inr sn \<Rightarrow> sn)"

definition ex_sessions :: "session go_map" where
  "ex_sessions = sn_Sessions ex_snapshot"

definition ex_session :: session where
  "ex_session = snd (hd ex_sessions)"

definition ex_io :: io where
  "ex_io = \<lparr>io_append = Written, io_snapshot = Written, io_truncate = Written, io_publish = Written\<rparr>"

definition ex_ctx :: call_ctx where
  "ex_ctx = \<lparr>cx_fold = (\<lambda>_ _. False), cx_apply = (\<lambda>_. False), cx_commit = False\<rparr>"

definition ex_env :: mem_env where
  "ex_env =
     \<lparr>me_replay = (\<lambda>_ _ _. False), me_apply = (\<lambda>_. False), me_cancelled = False, me_reject_io = ex_io,
      me_io = ex_io, me_now = 10, me_wall = 10, me_lock = True\<rparr>"

definition ex_disk :: disk where
  "ex_disk = \<lparr>dk_Snapshot = None, dk_Journal = []\<rparr>"

definition ex_entry :: "observation list \<Rightarrow> 64 word \<Rightarrow> time \<Rightarrow> decoded_entry" where
  "ex_entry obs q at =
     encoded_entry \<lparr>je_Sequence = q, je_ReceivedAt = at, je_Observations = obs, je_DeleteAfter = None,
                    je_Reset = False\<rparr>"

definition ex_journal :: "decoded_entry list" where
  "ex_journal = [ex_entry [ex_sighting 7 True 5] 1 6, ex_entry [ex_sighting 7 False 7] 2 8]"

lemma ex_ctx_calm: "cx_fold ex_ctx = calm"
  by (simp add: ex_ctx_def calm_def)

definition ex_store :: memory_store where
  "ex_store =
     (case fst (OpenMemoryStoreWithOptions True ex_env ex_reducer 0 ex_disk) of
        Inl _ \<Rightarrow> opened_store ex_env 0 newSnapshot | Inr s \<Rightarrow> s)"

definition ex_open_disk :: disk where
  "ex_open_disk = snd (OpenMemoryStoreWithOptions True ex_env ex_reducer 0 ex_disk)"

definition ex_changed :: "memory_store \<times> disk" where
  "ex_changed =
     snd (MemoryStore_command (\<lambda>_. True) ex_env ex_reducer ex_store ex_open_disk
            (observe_entry 0 [ex_sighting 7 True 5]))"

definition ex_native_session :: session where
  "ex_native_session =
     (case ex_run [ex_report None ''B'' None (Some ActivityIdle) None 5] of
        Inl _ \<Rightarrow> zero_session | Inr sn \<Rightarrow> snd (hd (sn_Sessions sn)))"

text \<open>A session known only by its process, which has gone.\<close>

definition ex_gone :: snapshot where
  "ex_gone =
     (case ex_run [ex_sighting 8 True 5, ex_sighting 8 False 6] of
        Inl _ \<Rightarrow> newSnapshot | Inr sn \<Rightarrow> sn)"

definition ex_fs :: file_system where
  "ex_fs = \<lparr>fs_Abs = (\<lambda>p. Some (path_clean (CHR ''/'' # p))), fs_EvalSymlinks = Some\<rparr>"

definition ex_divergent :: "decoded_entry list" where
  "ex_divergent =
     [ex_entry [ex_sighting 7 True 5] 1 6,
      ex_entry [ex_sighting 7 False 7,
                ex_report (Some (ex_process 7)) ''A'' None None (Some NativeLifecycleStart) 8] 2 9]"

text \<open>A report dated after the time it is received at, with a detail of the same time.\<close>

definition ex_future_detail :: observation where
  "ex_future_detail =
     (let ob = ex_report (Some (ex_process 7)) ''A'' None (Some ActivityFailed) None 20
      in ob\<lparr>ob_Evidence := EvReport ((ob_Report ob)
           \<lparr>r_Detail := Some ActivityDetailUsageLimit, r_DetailObservedAt := Some 20\<rparr>)\<rparr>)"

definition ex_bad_reading :: observation where
  "ex_bad_reading =
     \<lparr>ob_Harness = ''codex'', ob_At = 6, ob_Subject = zero_identity,
      ob_Evidence = EvReading
        \<lparr>sc_Detail = no_detail, sc_Activity = ActivityIdle, sc_Authority = AuthorityScreen, sc_Reason = ''r'',
         sc_RuleID = ''rule'', sc_ManifestSource = ''m'', sc_ManifestVersion = -1,
         sc_FallbackForIntegration = [], sc_FallbackReason = [], sc_Process = ex_process 7,
         sc_ObservedAt = 6\<rparr>\<rparr>"

lemma map_of_rev_ok: "map_ok m \<Longrightarrow> map_of (rev m) = map_of m"
  by (subst map_of_inject_set) (simp_all add: map_ok_def rev_map [symmetric])

lemma ex_opened: "OpenMemoryStoreWithOptions True ex_env ex_reducer 0 ex_disk = (Inr ex_store, ex_open_disk)"
proof -
  have "\<not> isl (fst (OpenMemoryStoreWithOptions True ex_env ex_reducer 0 ex_disk))" by code_simp
  then show ?thesis
    unfolding ex_store_def ex_open_disk_def
    by (cases "OpenMemoryStoreWithOptions True ex_env ex_reducer 0 ex_disk") (auto split: sum.splits)
qed

lemma ex_batch_runs: "applyObservationBatch (\<lambda>_. False) ex_reducer newSnapshot ex_batch 10 =
   Inr (ex_snapshot, snd (projr (applyObservationBatch (\<lambda>_. False) ex_reducer newSnapshot ex_batch 10)))"
proof -
  have "\<not> isl (applyObservationBatch (\<lambda>_. False) ex_reducer newSnapshot ex_batch 10)" by code_simp
  then show ?thesis
    by (cases "applyObservationBatch (\<lambda>_. False) ex_reducer newSnapshot ex_batch 10")
      (auto simp: ex_snapshot_def ex_run_def)
qed

end
