(* ===== verification/Aht_Client.thy ===== *)
theory Aht_Client
  imports Aht_Process
begin

section \<open>Selecting a session: \<open>pkg/client/selector.go\<close>, \<open>pkg/client/current.go\<close>\<close>

text \<open>
  A client names one session by a selector, or asks for the one it runs in. The list of sessions
  and the processes and terminals of the machine are what the store and the operating system
  answer, given as functions; a pair of a value and a flag stands for the results \<open>(value, found)\<close>.
\<close>

datatype client_error =
  ErrAmbiguousSession "string list"
  | ErrNoCurrentSession
  | ErrClientContext
  | ErrClientStore reg_error
  | ErrClientConfig
  | ErrNotFound

record selector =
  sl_ID :: string
  sl_Reference :: string
  sl_Harness :: harness
  sl_MultiplexerKind :: multiplexer_kind
  sl_MultiplexerServer :: string
  sl_MultiplexerPane :: string
  sl_Project :: string
  sl_ProjectSubtree :: bool
  sl_CWD :: string

definition Selector_Filter :: "selector \<Rightarrow> session_filter" where
  "Selector_Filter sel =
     zero_filter\<lparr>f_Harness := sl_Harness sel, f_Project := sl_Project sel,
       f_ProjectSubtree := sl_ProjectSubtree sel, f_CWD := sl_CWD sel,
       f_MultiplexerKind := sl_MultiplexerKind sel, f_MultiplexerServer := sl_MultiplexerServer sel,
       f_MultiplexerPane := sl_MultiplexerPane sel\<rparr>"

definition matchesIDAndHarness :: "session \<Rightarrow> selector \<Rightarrow> bool" where
  "matchesIDAndHarness s sel =
     (if sl_ID sel \<noteq> '''' \<and> s_ID s \<noteq> sl_ID sel then False
      else if sl_Harness sel \<noteq> '''' \<and> s_Harness s \<noteq> sl_Harness sel then False
      else True)"

definition matchesLocation :: "file_system \<Rightarrow> session \<Rightarrow> selector \<Rightarrow> bool" where
  "matchesLocation fs s sel =
     (let location = (if location_empty (s_Location s) then s_Location s else s_Location s) in
      if sl_MultiplexerKind sel \<noteq> '''' \<and> l_Kind location \<noteq> sl_MultiplexerKind sel then False
      else if sl_MultiplexerServer sel \<noteq> '''' \<and> \<not> MatchesServer fs s (sl_MultiplexerServer sel) then False
      else if sl_MultiplexerPane sel \<noteq> '''' \<and> l_PaneID (s_Location s) \<noteq> sl_MultiplexerPane sel then False
      else True)"

definition matchesPaths :: "file_system \<Rightarrow> session \<Rightarrow> selector \<Rightarrow> bool" where
  "matchesPaths fs s sel =
     (if sl_Project sel \<noteq> '''' \<and> \<not> MatchesProject fs s (sl_Project sel) (sl_ProjectSubtree sel) then False
      else if sl_CWD sel \<noteq> '''' \<and> \<not> PathsEqual fs (SessionCWD s) (sl_CWD sel) then False
      else True)"

definition matchesSessionQualifiers :: "file_system \<Rightarrow> session \<Rightarrow> selector \<Rightarrow> bool" where
  "matchesSessionQualifiers fs s sel =
     (matchesIDAndHarness s sel \<and> matchesLocation fs s sel \<and> matchesPaths fs s sel)"

definition filterByQualifiers :: "file_system \<Rightarrow> session list \<Rightarrow> selector \<Rightarrow> session list" where
  "filterByQualifiers fs ss sel = filter (\<lambda>s. matchesSessionQualifiers fs s sel) ss"

definition sessionIDs :: "session list \<Rightarrow> string list" where
  "sessionIDs ss = map s_ID ss"

definition resolveWithoutReference :: "session list \<Rightarrow> client_error + session" where
  "resolveWithoutReference qualified =
     (case qualified of
        [] \<Rightarrow> Inl ErrNotFound
      | [s] \<Rightarrow> Inr s
      | _ \<Rightarrow> Inl (ErrAmbiguousSession (sessionIDs qualified)))"

definition matchesReferenceCandidate :: "file_system \<Rightarrow> session \<Rightarrow> string \<Rightarrow> bool" where
  "matchesReferenceCandidate fs s reference =
     (if has_prefix (s_ID s) reference then True
      else if s_SessionID s \<noteq> '''' \<and> s_SessionID s = reference then True
      else if s_SessionPath s \<noteq> '''' \<and>
              (s_SessionPath s = reference \<or> PathsEqual fs (s_SessionPath s) reference) then True
      else False)"

definition resolveWithReference :: "file_system \<Rightarrow> session list \<Rightarrow> string \<Rightarrow> client_error + session" where
  "resolveWithReference fs qualified reference =
     (case find (\<lambda>s. s_ID s = reference) qualified of
        Some s \<Rightarrow> Inr s
      | None \<Rightarrow>
          (case filter (\<lambda>s. matchesReferenceCandidate fs s reference) qualified of
             [] \<Rightarrow> Inl ErrNotFound
           | [s] \<Rightarrow> Inr s
           | ms \<Rightarrow> Inl (ErrAmbiguousSession (sessionIDs ms))))"

definition ResolveSessions :: "file_system \<Rightarrow> session list \<Rightarrow> selector \<Rightarrow> client_error + session" where
  "ResolveSessions fs ss sel =
     (let qualified = filterByQualifiers fs ss sel in
      if sl_Reference sel = '''' then resolveWithoutReference qualified
      else resolveWithReference fs qualified (sl_Reference sel))"

definition Client_Resolve ::
    "file_system \<Rightarrow> bool \<Rightarrow> (session_filter \<Rightarrow> reg_error + session list) \<Rightarrow> selector
     \<Rightarrow> client_error + session" where
  "Client_Resolve fs configured list_sessions sel =
     (if \<not> configured then Inl ErrClientConfig
      else case list_sessions (Selector_Filter sel) of
        Inl e \<Rightarrow> Inl (ErrClientStore e)
      | Inr ss \<Rightarrow> ResolveSessions fs ss sel)"

subsection \<open>The session a process runs in\<close>

text \<open>
  The inspectors after their defaults have been filled in: the process table, \<open>None\<close> when it
  cannot be read; a search for one process, which may fail; and the terminals around the caller,
  \<open>None\<close> where the inspection fails.
\<close>

datatype find_result = FindError | FindMissing | FindFound proc_info

record inspectors =
  cu_PID :: int
  cu_ProcessList :: "proc_info list option"
  cu_ProcessFind :: "int \<Rightarrow> find_result"
  cu_TmuxCurrent :: "location option"
  cu_ZellijCurrent :: location
  cu_HerdrCurrent :: location

definition buildProcessIndex :: "proc_info list \<Rightarrow> int \<Rightarrow> proc_info option" where
  "buildProcessIndex ps = map_of (rev (map (\<lambda>p. (pr_PID p, p)) ps))"

definition indexSessionsByPID :: "session list \<Rightarrow> int \<Rightarrow> session list" where
  "indexSessionsByPID ss pid =
     filter (\<lambda>s. case s_Process s of None \<Rightarrow> False | Some p \<Rightarrow> process_complete p \<and> p_PID p = pid) ss"

definition lookupProcess :: "inspectors \<Rightarrow> int \<Rightarrow> proc_info option" where
  "lookupProcess opts pid =
     (case (case cu_ProcessList opts of None \<Rightarrow> None | Some ps \<Rightarrow> buildProcessIndex ps pid) of
        Some p \<Rightarrow> Some p
      | None \<Rightarrow> (case cu_ProcessFind opts pid of FindFound p \<Rightarrow> Some p | _ \<Rightarrow> None))"

text \<open>The start identity of the process of a candidate, which has one.\<close>

definition start_identity :: "session \<Rightarrow> string" where
  "start_identity s = p_StartIdentity (deref_or zero_process (s_Process s))"

definition matchAncestorSession :: "session list \<Rightarrow> proc_info \<Rightarrow> client_error + session option" where
  "matchAncestorSession candidates p =
     (case filter (\<lambda>s. start_identity s = pr_StartIdentity p) candidates of
        [] \<Rightarrow> Inr None
      | [s] \<Rightarrow> Inr (Some s)
      | _ \<Rightarrow> Inl (ErrAmbiguousSession []))"

text \<open>
  The walk over the parents stops at a process it has seen. An \<open>int\<close> of Go has 64 bits, which
  bounds the number of steps.
\<close>

definition max_pid :: int where
  "max_pid = 2 ^ 63 - 1"

function walk_ancestors ::
    "inspectors \<Rightarrow> session list \<Rightarrow> int list \<Rightarrow> int \<Rightarrow> client_error + session option" where
  "walk_ancestors opts ss seen pid =
     (if pid > 0 \<and> pid \<le> max_pid \<and> pid \<notin> set seen then
        (case lookupProcess opts pid of
           None \<Rightarrow> Inr None
         | Some p \<Rightarrow>
             (case (if indexSessionsByPID ss pid = [] then Inr None
                    else matchAncestorSession (indexSessionsByPID ss pid) p) of
                Inl e \<Rightarrow> Inl e
              | Inr (Some s) \<Rightarrow> Inr (Some s)
              | Inr None \<Rightarrow> walk_ancestors opts ss (pid # seen) (pr_PPID p)))
      else Inr None)"
  by pat_completeness auto
termination
proof (relation "measure (\<lambda>(opts, ss, seen, pid). card ({1..max_pid} - set seen))")
  fix opts :: inspectors and ss :: "session list" and seen :: "int list" and pid p y x2
  assume "0 < pid \<and> pid \<le> max_pid \<and> pid \<notin> set seen"
  then have "pid \<in> {1..max_pid} - set seen" by simp
  then have "{1..max_pid} - set (pid # seen) \<subset> {1..max_pid} - set seen"
    unfolding list.set by blast
  then have "card ({1..max_pid} - set (pid # seen)) < card ({1..max_pid} - set seen)"
    by (intro psubset_card_mono) (rule finite_Diff [OF finite_atLeastAtMost_int])
  then show "((opts, ss, pid # seen, pr_PPID p), opts, ss, seen, pid)
      \<in> measure (\<lambda>(opts, ss, seen, pid). card ({1..max_pid} - set seen))"
    unfolding in_measure prod.case .
qed (rule wf_measure)

declare walk_ancestors.simps [simp del]

definition resolveCurrentFromAncestors :: "session list \<Rightarrow> inspectors \<Rightarrow> client_error + session option" where
  "resolveCurrentFromAncestors ss opts = walk_ancestors opts ss [] (cu_PID opts)"

definition matchesPaneLocation ::
    "file_system \<Rightarrow> session \<Rightarrow> multiplexer_kind \<Rightarrow> string \<Rightarrow> string \<Rightarrow> string \<Rightarrow> bool" where
  "matchesPaneLocation fs s kind server pane sname =
     (if l_Kind (s_Location s) \<noteq> kind then False
      else if l_PaneID (s_Location s) \<noteq> pane then False
      else if server \<noteq> '''' \<and> \<not> MatchesServer fs s server then False
      else if sname \<noteq> '''' \<and> l_SessionName (s_Location s) \<noteq> sname then False
      else True)"

definition verifyCandidateProcess :: "session \<Rightarrow> inspectors \<Rightarrow> bool" where
  "verifyCandidateProcess s opts =
     (case s_Process s of
        None \<Rightarrow> False
      | Some q \<Rightarrow>
          if \<not> process_complete q then False
          else (case cu_ProcessFind opts (p_PID q) of
             FindFound p \<Rightarrow>
               if pr_StartIdentity p \<noteq> p_StartIdentity q then False
               else (case cu_ProcessFind opts (cu_PID opts) of
                  FindFound caller \<Rightarrow> pr_TTY caller \<noteq> '''' \<and> pr_TTY caller = pr_TTY p
                | _ \<Rightarrow> False)
           | _ \<Rightarrow> False))"

definition resolvePaneSession ::
    "file_system \<Rightarrow> session list \<Rightarrow> multiplexer_kind \<Rightarrow> string \<Rightarrow> string \<Rightarrow> string \<Rightarrow> inspectors
     \<Rightarrow> client_error + session option" where
  "resolvePaneSession fs ss kind server pane sname opts =
     (case filter (\<lambda>s. matchesPaneLocation fs s kind server pane sname \<and> verifyCandidateProcess s opts) ss of
        [] \<Rightarrow> Inr None
      | [s] \<Rightarrow> Inr (Some s)
      | _ \<Rightarrow> Inl (ErrAmbiguousSession []))"

definition resolveCurrentTmux :: "file_system \<Rightarrow> session list \<Rightarrow> inspectors \<Rightarrow> client_error + session option" where
  "resolveCurrentTmux fs ss opts =
     (case cu_TmuxCurrent opts of
        None \<Rightarrow> Inr None
      | Some l \<Rightarrow>
          if location_empty l \<or> l_PaneID l = '''' \<or> l_ServerID l = '''' \<or> l_PaneTTY l = '''' then Inr None
          else resolvePaneSession fs ss MultiplexerTmux (l_ServerID l) (l_PaneID l) '''' opts)"

definition resolveCurrentZellij :: "file_system \<Rightarrow> session list \<Rightarrow> inspectors \<Rightarrow> client_error + session option" where
  "resolveCurrentZellij fs ss opts =
     (let l = cu_ZellijCurrent opts in
      if location_empty l \<or> l_PaneID l = '''' \<or> l_SessionName l = '''' then Inr None
      else resolvePaneSession fs ss MultiplexerZellij '''' (l_PaneID l) (l_SessionName l) opts)"

definition resolveCurrentHerdr :: "file_system \<Rightarrow> session list \<Rightarrow> inspectors \<Rightarrow> client_error + session option" where
  "resolveCurrentHerdr fs ss opts =
     (let l = cu_HerdrCurrent opts in
      if location_empty l \<or> l_PaneID l = '''' then Inr None
      else resolvePaneSession fs ss MultiplexerHerdr (l_ServerID l) (l_PaneID l) (l_SessionName l) opts)"

definition or_else ::
    "client_error + session option \<Rightarrow> client_error + session option \<Rightarrow> client_error + session option" where
  "or_else a b = (case a of Inr None \<Rightarrow> b | _ \<Rightarrow> a)"

definition resolveCurrentFromTerminal ::
    "file_system \<Rightarrow> session list \<Rightarrow> inspectors \<Rightarrow> client_error + session option" where
  "resolveCurrentFromTerminal fs ss opts =
     or_else (resolveCurrentTmux fs ss opts)
       (or_else (resolveCurrentZellij fs ss opts) (resolveCurrentHerdr fs ss opts))"

definition currentWithInspectors ::
    "file_system \<Rightarrow> bool \<Rightarrow> bool \<Rightarrow> bool \<Rightarrow> (session_filter \<Rightarrow> reg_error + session list) \<Rightarrow> inspectors
     \<Rightarrow> client_error + session" where
  "currentWithInspectors fs configured cancelled cancelled' list_sessions opts =
     (if \<not> configured then Inl ErrClientConfig
      else if cancelled then Inl ErrClientContext
      else case list_sessions (zero_filter\<lparr>f_Presence := PresenceLive\<rparr>) of
        Inl e \<Rightarrow> Inl (ErrClientStore e)
      | Inr ss \<Rightarrow>
          if ss = [] then Inl ErrNoCurrentSession
          else (case or_else (resolveCurrentFromAncestors ss opts) (resolveCurrentFromTerminal fs ss opts) of
             Inl e \<Rightarrow> Inl e
           | Inr (Some s) \<Rightarrow> Inr s
           | Inr None \<Rightarrow> if cancelled' then Inl ErrClientContext else Inl ErrNoCurrentSession))"

end
