(* ===== verification/Aht_Resolution.thy ===== *)
theory Aht_Resolution
  imports Aht_Client
begin

section \<open>What a client resolves\<close>

text \<open>
  The qualifiers of a selector are the filter of the store and an identifier; a selector names a
  session exactly when one session qualifies; and the current session of a process is hosted by
  its nearest ancestor that hosts one, or shares its verified terminal.
\<close>

subsection \<open>Selectors\<close>

lemma qualifiers_agree:
  "matchesSessionQualifiers fs s sel \<longleftrightarrow>
     (sl_ID sel = '''' \<or> s_ID s = sl_ID sel) \<and>
     matchesFilterState s (Selector_Filter sel) \<and> matchesFilterScope fs s (Selector_Filter sel)"
  by (auto simp: matchesSessionQualifiers_def matchesIDAndHarness_def matchesLocation_def matchesPaths_def
      Selector_Filter_def zero_filter_def matchesFilterState_def matchesFilterScope_def
      matchesFilterLocation_def Let_def)

lemma filter_single:
  assumes "distinct xs"
  shows "filter P xs = [s] \<longleftrightarrow> {x \<in> set xs. P x} = {s}"
proof
  assume "filter P xs = [s]"
  then show "{x \<in> set xs. P x} = {s}" by (metis set_filter list.set(1,2))
next
  assume "{x \<in> set xs. P x} = {s}"
  then have "set (filter P xs) = {s}" by simp
  moreover have "distinct (filter P xs)" using assms by simp
  ultimately show "filter P xs = [s]"
    by (metis distinct_card card_1_singletonE length_0_conv length_Suc_conv list.set(1,2)
        is_singletonI is_singleton_altdef singleton_inject One_nat_def)
qed

lemma single_case:
  "(case xs of [] \<Rightarrow> Inl a | [s] \<Rightarrow> Inr s | x # y # zs \<Rightarrow> Inl (b x y zs)) = Inr s \<longleftrightarrow> xs = [s]"
  "(\<And>x y zs. b x y zs \<noteq> a) \<Longrightarrow>
     (case xs of [] \<Rightarrow> Inl a | [s] \<Rightarrow> Inr s | x # y # zs \<Rightarrow> Inl (b x y zs)) = Inl a \<longleftrightarrow> xs = []"
  by (auto split: list.split)

lemma find_key:
  assumes "distinct (map key xs)"
  shows "find (\<lambda>s. key s = k) xs = Some s \<longleftrightarrow> s \<in> set xs \<and> key s = k"
  using assms by (induction xs) auto

lemma has_prefix_refl [simp]: "has_prefix s s"
  by (induction s) auto

lemma reference_self: "s_ID s = r \<Longrightarrow> matchesReferenceCandidate fs s r"
  by (simp add: matchesReferenceCandidate_def)

lemma distinct_FilterSessions: "distinct (map s_ID ss) \<Longrightarrow> distinct (map s_ID (FilterSessions fs ss f))"
  unfolding FilterSessions_def sortSessions_def
  by (metis distinct_map_filter mset_map mset_sort_func mset_eq_imp_distinct_iff)

lemma qualified_sessions:
  "set (filterByQualifiers fs (FilterSessions fs ss (Selector_Filter sel)) sel) =
     {s \<in> set ss. matchesSessionQualifiers fs s sel}"
  by (auto simp: filterByQualifiers_def FilterSessions_set qualifiers_agree)

lemma distinct_qualified:
  "distinct (map s_ID ss) \<Longrightarrow>
     distinct (map s_ID (filterByQualifiers fs (FilterSessions fs ss (Selector_Filter sel)) sel))"
  unfolding filterByQualifiers_def by (rule distinct_map_filter [OF distinct_FilterSessions])

lemma resolve_without:
  assumes "distinct xs"
  shows "resolveWithoutReference xs = Inr s \<longleftrightarrow> set xs = {s}"
    and "resolveWithoutReference xs = Inl ErrNotFound \<longleftrightarrow> set xs = {}"
  using filter_single [OF assms, of "\<lambda>_. True" s]
  by (simp_all add: resolveWithoutReference_def single_case)

lemma resolve_with:
  assumes "distinct (map s_ID xs)"
  shows "resolveWithReference fs xs r = Inr s \<longleftrightarrow>
      s \<in> set xs \<and> s_ID s = r \<or>
      (\<forall>x \<in> set xs. s_ID x \<noteq> r) \<and> {x \<in> set xs. matchesReferenceCandidate fs x r} = {s}"
    and "resolveWithReference fs xs r = Inl ErrNotFound \<longleftrightarrow>
      {x \<in> set xs. matchesReferenceCandidate fs x r} = {}"
proof -
  have d: "distinct xs" using assms by (simp add: distinct_map)
  note single = filter_single [OF d, of "\<lambda>x. matchesReferenceCandidate fs x r" s]
  show "resolveWithReference fs xs r = Inr s \<longleftrightarrow>
      s \<in> set xs \<and> s_ID s = r \<or>
      (\<forall>x \<in> set xs. s_ID x \<noteq> r) \<and> {x \<in> set xs. matchesReferenceCandidate fs x r} = {s}"
  proof (cases "find (\<lambda>s. s_ID s = r) xs")
    case None
    then have "\<forall>x \<in> set xs. s_ID x \<noteq> r" by (auto simp: find_None_iff)
    then show ?thesis using None single by (simp add: resolveWithReference_def single_case) blast
  next
    case (Some x)
    then have x: "x \<in> set xs" "s_ID x = r" using find_key [OF assms] by blast+
    have "s = x" if "s \<in> set xs" "s_ID s = r"
      using that x assms by (simp add: distinct_map inj_on_def)
    then show ?thesis using Some x by (simp add: resolveWithReference_def) blast
  qed
  show "resolveWithReference fs xs r = Inl ErrNotFound \<longleftrightarrow>
      {x \<in> set xs. matchesReferenceCandidate fs x r} = {}"
  proof (cases "find (\<lambda>s. s_ID s = r) xs")
    case None
    then show ?thesis by (auto simp: resolveWithReference_def single_case filter_empty_conv)
  next
    case (Some x)
    then have x: "x \<in> set xs" "s_ID x = r" using find_key [OF assms] by blast+
    then have "matchesReferenceCandidate fs x r" using reference_self by blast
    then show ?thesis using Some x(1) by (simp add: resolveWithReference_def) blast
  qed
qed

lemma resolve_spec:
  assumes "distinct (map s_ID ss)"
    and "list_sessions (Selector_Filter sel) = Inr (FilterSessions fs ss (Selector_Filter sel))"
    and Q: "Q = {s \<in> set ss. matchesSessionQualifiers fs s sel}"
  shows "Client_Resolve fs True list_sessions sel = Inr s \<longleftrightarrow>
     (if sl_Reference sel = '''' then Q = {s}
      else s \<in> Q \<and> s_ID s = sl_Reference sel \<or>
        (\<forall>x \<in> Q. s_ID x \<noteq> sl_Reference sel) \<and>
        {x \<in> Q. matchesReferenceCandidate fs x (sl_Reference sel)} = {s})"
    and "Client_Resolve fs True list_sessions sel = Inl ErrNotFound \<longleftrightarrow>
     (if sl_Reference sel = '''' then Q = {}
      else {x \<in> Q. matchesReferenceCandidate fs x (sl_Reference sel)} = {})"
  using resolve_with [OF distinct_qualified [OF assms(1)]]
    resolve_without [OF distinct_qualified [OF assms(1), unfolded distinct_map, THEN conjunct1]]
  by (simp_all add: Client_Resolve_def assms(2) ResolveSessions_def Let_def qualified_sessions Q)

subsection \<open>The current session\<close>

text \<open>A session is hosted by a process when the process that runs under its pid is its own.\<close>

definition hosted :: "inspectors \<Rightarrow> session list \<Rightarrow> int \<Rightarrow> session \<Rightarrow> bool" where
  "hosted opts ss pid s \<longleftrightarrow>
     s \<in> set ss \<and>
     (\<exists>p q. lookupProcess opts pid = Some p \<and> s_Process s = Some q \<and> process_complete q \<and> p_PID q = pid \<and>
        p_StartIdentity q = pr_StartIdentity p)"

text \<open>Climbing from a process to an ancestor past processes that host no session.\<close>

inductive climb :: "inspectors \<Rightarrow> session list \<Rightarrow> int \<Rightarrow> int \<Rightarrow> bool" for opts ss where
  here: "climb opts ss pid pid"
| parent: "0 < pid \<Longrightarrow> pid \<le> max_pid \<Longrightarrow> lookupProcess opts pid = Some p \<Longrightarrow> \<nexists>s. hosted opts ss pid s \<Longrightarrow>
     climb opts ss (pr_PPID p) q \<Longrightarrow> climb opts ss pid q"

inductive_cases climbE: "climb opts ss pid q"

lemma matching_sessions:
  assumes "lookupProcess opts pid = Some p"
  shows "set (filter (\<lambda>s. start_identity s = pr_StartIdentity p) (indexSessionsByPID ss pid)) =
    {s. hosted opts ss pid s}"
  using assms by (auto simp: indexSessionsByPID_def hosted_def start_identity_def split: option.splits)

lemma match_step:
  assumes "lookupProcess opts pid = Some p"
    and "(if indexSessionsByPID ss pid = [] then Inr None
          else matchAncestorSession (indexSessionsByPID ss pid) p) = Inr out"
  shows "case out of None \<Rightarrow> \<nexists>s. hosted opts ss pid s | Some s \<Rightarrow> {s'. hosted opts ss pid s'} = {s}"
proof -
  define ms where "ms = filter (\<lambda>s. start_identity s = pr_StartIdentity p) (indexSessionsByPID ss pid)"
  have set: "set ms = {s. hosted opts ss pid s}"
    unfolding ms_def by (rule matching_sessions [OF assms(1)])
  have "case out of None \<Rightarrow> ms = [] | Some s \<Rightarrow> ms = [s]"
    using assms(2) unfolding matchAncestorSession_def ms_def [symmetric]
    by (auto simp: ms_def split: if_splits list.splits)
  then show ?thesis using set by (cases out) auto
qed

lemma walk_finds_nearest:
  assumes "walk_ancestors opts ss seen pid = Inr (Some s)"
  shows "\<exists>q. climb opts ss pid q \<and> {s'. hosted opts ss q s'} = {s}"
  using assms
proof (induction opts ss seen pid rule: walk_ancestors.induct)
  case (1 opts ss seen pid)
  let ?m = "\<lambda>p. if indexSessionsByPID ss pid = [] then Inr None
          else matchAncestorSession (indexSessionsByPID ss pid) p"
  from "1.prems" have go: "0 < pid \<and> pid \<le> max_pid \<and> pid \<notin> set seen"
    by (subst (asm) walk_ancestors.simps) (auto split: if_splits)
  with "1.prems" obtain p out where p: "lookupProcess opts pid = Some p" and out: "?m p = Inr out"
    and rest: "case out of None \<Rightarrow> walk_ancestors opts ss (pid # seen) (pr_PPID p) = Inr (Some s) | Some s' \<Rightarrow> s' = s"
    by (subst (asm) walk_ancestors.simps) (auto split: option.splits sum.splits)
  note step = match_step [OF p out]
  show ?case
  proof (cases out)
    case None
    with rest "1.IH" [OF go p] out obtain q where "climb opts ss (pr_PPID p) q" "{s'. hosted opts ss q s'} = {s}"
      by auto
    then show ?thesis using go p step None climb.parent by fastforce
  next
    case (Some s')
    then show ?thesis using step rest climb.here by fastforce
  qed
qed

lemma walk_misses_none:
  assumes "walk_ancestors opts ss seen pid = Inr None"
    and "\<forall>x \<in> set seen. (\<nexists>s. hosted opts ss x s) \<and>
      (\<forall>p. lookupProcess opts x = Some p \<longrightarrow> pr_PPID p \<in> insert pid (set seen))"
  shows "climb opts ss pid q \<Longrightarrow> q \<le> max_pid \<Longrightarrow> \<nexists>s. hosted opts ss q s"
  using assms
proof (induction opts ss seen pid arbitrary: q rule: walk_ancestors.induct)
  case (1 opts ss seen pid)
  show ?case
  proof (cases "0 < pid \<and> pid \<le> max_pid \<and> pid \<notin> set seen")
    case go: True
    show ?thesis
    proof (cases "lookupProcess opts pid")
      case None
      have "q = pid" using "1.prems"(1) None by (metis climbE option.distinct(1))
      then show ?thesis using None by (simp add: hosted_def)
    next
      case (Some p)
      let ?m = "if indexSessionsByPID ss pid = [] then Inr None
          else matchAncestorSession (indexSessionsByPID ss pid) p"
      have m: "?m = Inr None" and rest: "walk_ancestors opts ss (pid # seen) (pr_PPID p) = Inr None"
        using "1.prems"(3) go Some by (subst (asm) (1) walk_ancestors.simps, auto split: option.splits sum.splits)+
      have none: "\<nexists>s. hosted opts ss pid s" using match_step [OF Some m] by simp
      then have closed: "\<forall>x \<in> set (pid # seen). (\<nexists>s. hosted opts ss x s) \<and>
          (\<forall>p'. lookupProcess opts x = Some p' \<longrightarrow> pr_PPID p' \<in> insert (pr_PPID p) (set (pid # seen)))"
        using "1.prems"(4) Some by auto
      from "1.prems"(1) consider "q = pid" | "climb opts ss (pr_PPID p) q"
        using Some by (metis climbE option.inject)
      then show ?thesis
      proof cases
        case 1
        then show ?thesis using none by simp
      next
        case 2
        then show ?thesis using "1.IH" [OF go Some m refl _ "1.prems"(2) rest closed] by blast
      qed
    qed
  next
    case stop: False
    show ?thesis
    proof (cases "pid \<in> set seen")
      case True
      have "q \<in> set seen" if "climb opts ss x q" "x \<in> set seen" for x
        using that "1.prems"(4) True by (induction rule: climb.induct) auto
      then show ?thesis using "1.prems"(1,4) True by blast
    next
      case False
      then have "q = pid" "\<not> (0 < pid \<and> pid \<le> max_pid)" using "1.prems"(1) stop by (auto elim: climbE)
      then show ?thesis using "1.prems"(2) by (auto simp: hosted_def process_complete_def)
    qed
  qed
qed

text \<open>A session verified by its terminal: its own process runs, on the terminal of the caller.\<close>

definition verified :: "inspectors \<Rightarrow> session \<Rightarrow> bool" where
  "verified opts s \<longleftrightarrow>
     (\<exists>p q caller. s_Process s = Some q \<and> process_complete q \<and>
        cu_ProcessFind opts (p_PID q) = FindFound p \<and> pr_StartIdentity p = p_StartIdentity q \<and>
        cu_ProcessFind opts (cu_PID opts) = FindFound caller \<and> pr_TTY caller \<noteq> '''' \<and>
        pr_TTY caller = pr_TTY p)"

lemma verify_verified: "verifyCandidateProcess s opts \<Longrightarrow> verified opts s"
  by (auto simp: verifyCandidateProcess_def verified_def split: option.splits find_result.splits if_splits)

lemma pane_session:
  assumes "resolvePaneSession fs ss kind server pane sname opts = Inr (Some s)"
  shows "s \<in> set ss \<and> verified opts s \<and> l_Kind (s_Location s) = kind \<and> l_PaneID (s_Location s) = pane"
proof -
  have "filter (\<lambda>s. matchesPaneLocation fs s kind server pane sname \<and> verifyCandidateProcess s opts) ss = [s]"
    using assms by (simp add: resolvePaneSession_def split: list.splits)
  then have "s \<in> set (filter (\<lambda>s. matchesPaneLocation fs s kind server pane sname \<and>
      verifyCandidateProcess s opts) ss)" by simp
  then show ?thesis using verify_verified by (auto simp: matchesPaneLocation_def split: if_splits)
qed

lemma or_else_Some: "or_else a b = Inr (Some s) \<longleftrightarrow> a = Inr (Some s) \<or> a = Inr None \<and> b = Inr (Some s)"
  by (auto simp: or_else_def split: sum.splits option.splits)

lemma terminal_session:
  assumes "resolveCurrentFromTerminal fs ss opts = Inr (Some s)"
  shows "s \<in> set ss \<and> verified opts s"
proof -
  consider "resolveCurrentTmux fs ss opts = Inr (Some s)" | "resolveCurrentZellij fs ss opts = Inr (Some s)"
    | "resolveCurrentHerdr fs ss opts = Inr (Some s)"
    using assms by (auto simp: resolveCurrentFromTerminal_def or_else_Some)
  then obtain kind server pane sname
    where "resolvePaneSession fs ss kind server pane sname opts = Inr (Some s)"
    by (cases; auto simp: resolveCurrentTmux_def resolveCurrentZellij_def resolveCurrentHerdr_def Let_def
        split: option.splits if_splits)
  then show ?thesis by (blast dest: pane_session)
qed

lemma current_spec:
  assumes "currentWithInspectors fs configured cancelled cancelled' list_sessions opts = Inr s"
    and "list_sessions (zero_filter\<lparr>f_Presence := PresenceLive\<rparr>) = Inr live"
  shows "s \<in> set live \<and>
    ((\<exists>q. climb opts live (cu_PID opts) q \<and> {s'. hosted opts live q s'} = {s}) \<or>
     (\<forall>q \<le> max_pid. climb opts live (cu_PID opts) q \<longrightarrow> (\<nexists>s'. hosted opts live q s')) \<and> verified opts s)"
proof -
  have "or_else (resolveCurrentFromAncestors live opts) (resolveCurrentFromTerminal fs live opts) = Inr (Some s)"
    using assms by (auto simp: currentWithInspectors_def split: if_splits sum.splits option.splits)
  then consider "walk_ancestors opts live [] (cu_PID opts) = Inr (Some s)"
    | "walk_ancestors opts live [] (cu_PID opts) = Inr None" "resolveCurrentFromTerminal fs live opts = Inr (Some s)"
    by (auto simp: or_else_Some resolveCurrentFromAncestors_def)
  then show ?thesis
  proof cases
    case 1
    then obtain q where q: "climb opts live (cu_PID opts) q" "{s'. hosted opts live q s'} = {s}"
      using walk_finds_nearest by blast
    then have "hosted opts live q s" by blast
    then have "s \<in> set live" unfolding hosted_def by blast
    then show ?thesis using q by blast
  next
    case 2
    have "\<nexists>s'. hosted opts live q s'" if "q \<le> max_pid" "climb opts live (cu_PID opts) q" for q
      using walk_misses_none [OF 2(1) _ that(2,1)] by simp
    then show ?thesis using terminal_session [OF 2(2)] by blast
  qed
qed

lemma current_live:
  assumes "s \<in> set (FilterSessions fs ss (zero_filter\<lparr>f_Presence := PresenceLive\<rparr>))"
  shows "s \<in> set ss \<and> s_Presence s = PresenceLive"
  using assms by (auto simp: FilterSessions_set matchesFilterState_def zero_filter_def split: if_splits)

end
