(* ===== verification/Aht_Wait.thy ===== *)
theory Aht_Wait
  imports Aht_Client
begin

section \<open>Waiting for a session: \<open>pkg/client/wait.go\<close>\<close>

text \<open>
  A wait follows the snapshots of a stream until its session satisfies a condition, for long
  enough where asked. One iteration of its loop is a step on the state of the run; the
  environment says what the iteration meets: whether the context has ended, what is queued on the
  stream, and which case the blocking \<open>select\<close> takes. The goroutines that feed the stream are part
  of the environment.
\<close>

datatype client_mode = ModeAuto | ModeRealtimeOnly | ModeDurableOnly | ModeOther string

datatype ctx_end = CtxCanceled | CtxDeadlineExceeded

datatype stream_error = StreamUnavailable | StreamTransportClosed | StreamDeadline | StreamOther reg_error

datatype wait_error =
  ErrWaitTimeout
  | ErrWaitCanceled
  | ErrSessionDisappeared
  | ErrUnknownState
  | ErrConditionRequired
  | ErrContradictoryCondition
  | ErrInvalidDuration string
  | ErrSessionRequired
  | ErrWaitRegistry reg_error
  | ErrStreamClosed
  | ErrWaitStream stream_error
  | ErrInvalidMode
  | ErrWaitConfig

record wait_options =
  wo_ID :: string
  wo_Activity :: activity
  wo_Presence :: presence
  wo_Timeout :: duration
  wo_StableFor :: duration

record wait_result =
  wt_Session :: session
  wt_Initial :: bool

text \<open>
  The state of a run. The timer is the moment at which it fires, and \<open>wr_timerCh\<close> says that its
  channel is still listened to.
\<close>

record wait_run =
  wr_mode :: client_mode
  wr_opts :: wait_options
  wr_durable :: bool
  wr_stableTimer :: "time option"
  wr_timerCh :: bool
  wr_stableReady :: bool
  wr_candidate :: "session option"
  wr_lastSeen :: "session option"
  wr_seenInitial :: bool

datatype stream_input = StreamEvent "session list" | StreamError stream_error | StreamEnd

datatype select_case = SelectDone ctx_end | SelectTimer | SelectEvent stream_input

record wait_turn =
  tn_ctx :: "ctx_end option"
  tn_queued :: "stream_input option"
  tn_select :: select_case
  tn_now :: time

subsection \<open>Options\<close>

definition validateDurations :: "wait_options \<Rightarrow> wait_error option" where
  "validateDurations o' =
     (if wo_Timeout o' < 0 then Some (ErrInvalidDuration ''timeout cannot be negative'')
      else if wo_StableFor o' < 0 then Some (ErrInvalidDuration ''stable-for cannot be negative'')
      else if wo_Timeout o' > 0 \<and> wo_StableFor o' \<ge> wo_Timeout o'
      then Some (ErrInvalidDuration ''stable-for duration must be less than timeout'')
      else None)"

definition validateConditions :: "wait_options \<Rightarrow> wait_error option" where
  "validateConditions o' =
     (if wo_Activity o' = no_activity \<and> wo_Presence o' = no_presence then Some ErrConditionRequired
      else if wo_Presence o' \<noteq> no_presence \<and> \<not> presence_valid (wo_Presence o')
      then Some (ErrWaitRegistry (ErrUnknownPresence (presence_string (wo_Presence o'))))
      else if wo_Activity o' \<noteq> no_activity \<and> \<not> activity_valid (wo_Activity o')
      then Some (ErrWaitRegistry (ErrUnknownActivity (activity_string (wo_Activity o'))))
      else if wo_Presence o' = PresenceGone \<and> wo_Activity o' \<noteq> no_activity
      then Some ErrContradictoryCondition
      else if wo_Presence o' = PresenceUnknown \<and> wo_Activity o' \<noteq> no_activity
      then Some ErrContradictoryCondition
      else None)"

definition WaitOptions_Validate :: "wait_options \<Rightarrow> wait_error option" where
  "WaitOptions_Validate o' =
     (if trim_space (wo_ID o') = '''' then Some ErrSessionRequired
      else case validateDurations o' of Some e \<Rightarrow> Some e | None \<Rightarrow> validateConditions o')"

subsection \<open>Conditions\<close>

definition evaluateCondition :: "session \<Rightarrow> wait_options \<Rightarrow> wait_error + bool" where
  "evaluateCondition s o' =
     (if wo_Presence o' = PresenceGone then Inr (s_Presence s = PresenceGone)
      else if s_Presence s = PresenceGone then Inl ErrSessionDisappeared
      else if s_Presence s = PresenceUnknown then
        (if wo_Presence o' = PresenceUnknown then Inr True else Inl ErrUnknownState)
      else if wo_Presence o' \<noteq> no_presence \<and> wo_Presence o' \<noteq> PresenceLive then Inr False
      else if wo_Activity o' \<noteq> no_activity then
        (case s_Activity s of None \<Rightarrow> Inr False | Some a \<Rightarrow> Inr (a = wo_Activity o'))
      else Inr True)"

definition removedSession :: "session \<Rightarrow> time \<Rightarrow> session" where
  "removedSession s at =
     (if s_Presence s = PresenceGone then s
      else s\<lparr>s_Liveness := Gone at ''session_removed'' (s_Decision s), s_PresenceChangedAt := at\<rparr>)"

definition sameWaitProcess :: "process_identity option \<Rightarrow> process_identity option \<Rightarrow> bool" where
  "sameWaitProcess l r =
     (case (l, r) of
        (Some p, Some q) \<Rightarrow> p_PID p = p_PID q \<and> p_StartIdentity p = p_StartIdentity q
      | _ \<Rightarrow> l = None \<and> r = None)"

subsection \<open>One iteration\<close>

definition resetStable :: "wait_run \<Rightarrow> wait_run" where
  "resetStable r =
     r\<lparr>wr_stableReady := False, wr_stableTimer := None, wr_timerCh := False, wr_candidate := None\<rparr>"

definition holdCandidate :: "time \<Rightarrow> session \<Rightarrow> wait_run \<Rightarrow> wait_run" where
  "holdCandidate now current r =
     (let r1 = (case wr_candidate r of
                  Some c \<Rightarrow> if \<not> sameWaitProcess (s_Process c) (s_Process current) then resetStable r else r
                | None \<Rightarrow> r);
          r2 = r1\<lparr>wr_candidate := Some current\<rparr>
      in case wr_stableTimer r2 of
           None \<Rightarrow> r2\<lparr>wr_stableTimer := Some (now + wo_StableFor (wr_opts r)), wr_timerCh := True\<rparr>
         | Some _ \<Rightarrow> r2)"

definition currentSession :: "wait_run \<Rightarrow> session list \<Rightarrow> time \<Rightarrow> session option" where
  "currentSession r ss now =
     (case find (\<lambda>s. s_ID s = wo_ID (wr_opts r)) ss of
        Some s \<Rightarrow> Some s
      | None \<Rightarrow> map_option (\<lambda>s. removedSession s now) (wr_lastSeen r))"

datatype wait_outcome = Continue wait_run | Return "wait_error + wait_result"

definition observe :: "session list \<Rightarrow> time \<Rightarrow> wait_run \<Rightarrow> wait_outcome" where
  "observe ss now r =
     (let isInitial = (\<not> wr_seenInitial r); r1 = r\<lparr>wr_seenInitial := True\<rparr> in
      case currentSession r1 ss now of
        None \<Rightarrow> Return (Inl (ErrWaitRegistry ErrSessionNotFound))
      | Some current \<Rightarrow>
          let r2 = r1\<lparr>wr_lastSeen := Some current\<rparr> in
          (case evaluateCondition current (wr_opts r) of
             Inl e \<Rightarrow> Return (Inl e)
           | Inr False \<Rightarrow> Continue (resetStable r2)
           | Inr True \<Rightarrow>
               if wo_StableFor (wr_opts r) = 0
               then Return (Inr \<lparr>wt_Session = current, wt_Initial = isInitial\<rparr>)
               else Continue (holdCandidate now current r2)))"

datatype wait_step = StepEvent stream_input | StepStable | StepTimer | StepCanceled ctx_end

definition nextEvent :: "wait_turn \<Rightarrow> wait_run \<Rightarrow> wait_step \<times> wait_run" where
  "nextEvent tn r =
     (case tn_ctx tn of
        Some e \<Rightarrow> (StepCanceled e, r)
      | None \<Rightarrow>
          (case tn_queued tn of
             Some ev \<Rightarrow> (StepEvent ev, r)
           | None \<Rightarrow>
               if wr_stableReady r \<and> wr_candidate r \<noteq> None then (StepStable, r)
               else (case tn_select tn of
                   SelectDone e \<Rightarrow> (StepCanceled e, r)
                 | SelectTimer \<Rightarrow> (StepTimer, r\<lparr>wr_stableReady := True, wr_timerCh := False\<rparr>)
                 | SelectEvent ev \<Rightarrow> (StepEvent ev, r))))"

text \<open>A nil error next to a closed stream is \<open>None\<close>.\<close>

definition fallsBackToDurable :: "stream_error option \<Rightarrow> wait_run \<Rightarrow> bool" where
  "fallsBackToDurable e r =
     (if wr_mode r \<noteq> ModeAuto \<or> wr_durable r then False
      else case e of
        None \<Rightarrow> True
      | Some err \<Rightarrow> err = StreamUnavailable \<or> err = StreamTransportClosed)"

definition waitError :: "stream_error \<Rightarrow> wait_error" where
  "waitError e = (if e = StreamDeadline then ErrWaitTimeout else ErrWaitStream e)"

definition ctxError :: "ctx_end \<Rightarrow> wait_error" where
  "ctxError e = (case e of CtxDeadlineExceeded \<Rightarrow> ErrWaitTimeout | CtxCanceled \<Rightarrow> ErrWaitCanceled)"

definition replaceFailedStream :: "stream_error option \<Rightarrow> wait_run \<Rightarrow> wait_outcome" where
  "replaceFailedStream e r =
     (let r1 = resetStable r in
      if \<not> fallsBackToDurable e r1 then
        (case e of None \<Rightarrow> Return (Inl ErrStreamClosed) | Some err \<Rightarrow> Return (Inl (waitError err)))
      else Continue (r1\<lparr>wr_durable := True\<rparr>))"

definition wait_iteration :: "wait_turn \<Rightarrow> wait_run \<Rightarrow> wait_outcome" where
  "wait_iteration tn r =
     (case nextEvent tn r of
        (StepCanceled e, r') \<Rightarrow> Return (Inl (ctxError e))
      | (StepStable, r') \<Rightarrow>
          (case wr_candidate r' of
             None \<Rightarrow> Return (Inl (ErrWaitRegistry ErrNilDereference))
           | Some c \<Rightarrow> Return (Inr \<lparr>wt_Session = c, wt_Initial = False\<rparr>))
      | (StepTimer, r') \<Rightarrow> Continue r'
      | (StepEvent StreamEnd, r') \<Rightarrow> replaceFailedStream None r'
      | (StepEvent (StreamError e), r') \<Rightarrow> replaceFailedStream (Some e) r'
      | (StepEvent (StreamEvent ss), r') \<Rightarrow> observe ss (tn_now tn) r')"

text \<open>The loop over the turns of the environment; \<open>None\<close> when it is still waiting after them.\<close>

fun wait_loop :: "wait_run \<Rightarrow> wait_turn list \<Rightarrow> (wait_error + wait_result) option" where
  "wait_loop r [] = None"
| "wait_loop r (tn # tns) =
     (case wait_iteration tn r of Return res \<Rightarrow> Some res | Continue r' \<Rightarrow> wait_loop r' tns)"

subsection \<open>Starting\<close>

text \<open>How the subscription to the broker answers; the result says whether the durable store is watched.\<close>

definition startWatcher :: "client_mode \<Rightarrow> stream_error option \<Rightarrow> wait_error + bool" where
  "startWatcher mode subscription =
     (case mode of
        ModeRealtimeOnly \<Rightarrow>
          (case subscription of Some e \<Rightarrow> Inl (waitError e) | None \<Rightarrow> Inr False)
      | ModeDurableOnly \<Rightarrow> Inr True
      | ModeAuto \<Rightarrow>
          (case subscription of
             None \<Rightarrow> Inr False
           | Some e \<Rightarrow>
               if e \<noteq> StreamUnavailable \<and> e \<noteq> StreamTransportClosed then Inl (waitError e) else Inr True)
      | ModeOther _ \<Rightarrow> Inl ErrInvalidMode)"

definition started_run :: "client_mode \<Rightarrow> wait_options \<Rightarrow> bool \<Rightarrow> wait_run" where
  "started_run mode o' durable =
     \<lparr>wr_mode = mode, wr_opts = o', wr_durable = durable, wr_stableTimer = None, wr_timerCh = False,
      wr_stableReady = False, wr_candidate = None, wr_lastSeen = None, wr_seenInitial = False\<rparr>"

definition Client_Wait ::
    "bool \<Rightarrow> client_mode \<Rightarrow> stream_error option \<Rightarrow> wait_options \<Rightarrow> wait_turn list
     \<Rightarrow> (wait_error + wait_result) option" where
  "Client_Wait configured mode subscription o' tns =
     (if \<not> configured then Some (Inl ErrWaitConfig)
      else case WaitOptions_Validate o' of
        Some e \<Rightarrow> Some (Inl e)
      | None \<Rightarrow>
          (case startWatcher mode subscription of
             Inl e \<Rightarrow> Some (Inl e)
           | Inr durable \<Rightarrow> wait_loop (started_run mode o' durable) tns))"

end
