(* ===== verification/Aht_Waiting.thy ===== *)
theory Aht_Waiting
  imports Aht_Wait
begin

section \<open>What a wait promises\<close>

text \<open>
  A wait that returns a session has last seen it satisfy the condition, and where it asked for
  stability, everything it saw for that long satisfied the condition in the same process. The
  view of a turn is what its iteration read from the stream.
\<close>

datatype wait_view = SawSession time session | SawFailure | SawNothing

definition turn_view :: "wait_turn \<Rightarrow> wait_run \<Rightarrow> wait_view" where
  "turn_view tn r =
     (case fst (nextEvent tn r) of
        StepEvent (StreamEvent ss) \<Rightarrow>
          (case currentSession r ss (tn_now tn) of
             Some s \<Rightarrow> SawSession (tn_now tn) s
           | None \<Rightarrow> SawNothing)
      | StepEvent _ \<Rightarrow> SawFailure
      | _ \<Rightarrow> SawNothing)"

fun wait_trace :: "wait_run \<Rightarrow> wait_turn list \<Rightarrow> wait_view list" where
  "wait_trace r [] = []"
| "wait_trace r (tn # tns) =
     turn_view tn r # (case wait_iteration tn r of Continue r' \<Rightarrow> wait_trace r' tns | Return _ \<Rightarrow> [])"

text \<open>
  A timer is only received from a channel that is listened to, once its moment has come: what
  \<open>time.Timer\<close> and a nil channel promise.
\<close>

definition timer_ok :: "wait_turn \<Rightarrow> wait_run \<Rightarrow> bool" where
  "timer_ok tn r \<longleftrightarrow>
     (fst (nextEvent tn r) = StepTimer \<longrightarrow>
        wr_timerCh r \<and> (case wr_stableTimer r of None \<Rightarrow> False | Some dl \<Rightarrow> dl \<le> tn_now tn))"

fun timers_ok :: "wait_run \<Rightarrow> wait_turn list \<Rightarrow> bool" where
  "timers_ok r [] = True"
| "timers_ok r (tn # tns) =
     (timer_ok tn r \<and> (case wait_iteration tn r of Continue r' \<Rightarrow> timers_ok r' tns | Return _ \<Rightarrow> True))"

definition view_holds :: "wait_options \<Rightarrow> session \<Rightarrow> wait_view \<Rightarrow> bool" where
  "view_holds o' c v =
     (case v of
        SawSession t s \<Rightarrow> evaluateCondition s o' = Inr True \<and> sameWaitProcess (s_Process s) (s_Process c)
      | SawFailure \<Rightarrow> False
      | SawNothing \<Rightarrow> True)"

fun last_seen :: "wait_view list \<Rightarrow> session option" where
  "last_seen [] = None"
| "last_seen (v # vs) =
     (case last_seen vs of
        Some s \<Rightarrow> Some s
      | None \<Rightarrow> (case v of SawSession t s \<Rightarrow> Some s | _ \<Rightarrow> None))"

lemma last_seen_append:
  "last_seen (us @ vs) = (case last_seen vs of Some s \<Rightarrow> Some s | None \<Rightarrow> last_seen us)"
  by (induction us) (auto split: option.splits wait_view.splits)

lemma same_process_refl: "sameWaitProcess p p"
  by (simp add: sameWaitProcess_def split: option.split)

lemma same_process_trans: "sameWaitProcess p q \<Longrightarrow> sameWaitProcess q r \<Longrightarrow> sameWaitProcess p r"
  by (auto simp: sameWaitProcess_def split: option.splits)

lemma view_holds_simps [simp]:
  "view_holds o' c (SawSession t s) \<longleftrightarrow>
     evaluateCondition s o' = Inr True \<and> sameWaitProcess (s_Process s) (s_Process c)"
  "\<not> view_holds o' c SawFailure" "view_holds o' c SawNothing"
  by (simp_all add: view_holds_def)

lemma view_holds_same: "view_holds o' c v \<Longrightarrow> sameWaitProcess (s_Process c) (s_Process d) \<Longrightarrow> view_holds o' d v"
  by (auto simp: view_holds_def split: wait_view.splits intro: same_process_trans)

subsection \<open>The invariant of a run\<close>

text \<open>What is held: since the moment the timer was started everything seen satisfied the condition.\<close>

definition held :: "wait_options \<Rightarrow> wait_view list \<Rightarrow> session \<Rightarrow> time \<Rightarrow> bool" where
  "held o' past c dl \<longleftrightarrow>
     (\<exists>pre t0 s0 rest. past = pre @ SawSession t0 s0 # rest \<and> dl = t0 + wo_StableFor o' \<and>
        (\<forall>v \<in> set (SawSession t0 s0 # rest). view_holds o' c v)) \<and>
     last_seen past = Some c \<and> evaluateCondition c o' = Inr True"

definition run_ok :: "wait_view list \<Rightarrow> time \<Rightarrow> wait_run \<Rightarrow> bool" where
  "run_ok past now r \<longleftrightarrow>
     (case (wr_candidate r, wr_stableTimer r) of
        (None, None) \<Rightarrow> \<not> wr_stableReady r \<and> \<not> wr_timerCh r
      | (Some c, Some dl) \<Rightarrow> held (wr_opts r) past c dl \<and> (wr_stableReady r \<longrightarrow> dl \<le> now)
      | _ \<Rightarrow> False)"

lemma run_ok_reset: "run_ok past now (resetStable r)"
  by (simp add: run_ok_def resetStable_def)

lemma resetStable_reads [simp]:
  "wr_opts (resetStable r) = wr_opts r" "wr_lastSeen (resetStable r) = wr_lastSeen r"
  by (simp_all add: resetStable_def)

lemma held_start:
  "evaluateCondition s o' = Inr True \<Longrightarrow> held o' (past @ [SawSession t s]) s (t + wo_StableFor o')"
  unfolding held_def by (force simp: last_seen_append same_process_refl)

lemma held_extend:
  assumes "held o' past c dl" "evaluateCondition s o' = Inr True" "sameWaitProcess (s_Process c) (s_Process s)"
  shows "held o' (past @ [SawSession t s]) s dl"
proof -
  obtain pre t0 s0 rest where past: "past = pre @ SawSession t0 s0 # rest" "dl = t0 + wo_StableFor o'"
    and all: "\<forall>v \<in> set (SawSession t0 s0 # rest). view_holds o' c v"
    using assms(1) unfolding held_def by blast
  have "\<forall>v \<in> set (SawSession t0 s0 # rest @ [SawSession t s]). view_holds o' s v"
    using all view_holds_same [OF _ assms(3)] assms(2) by (auto simp: same_process_refl intro: same_process_trans [OF _ assms(3)])
  moreover have "past @ [SawSession t s] = pre @ SawSession t0 s0 # (rest @ [SawSession t s])"
    using past by simp
  ultimately show ?thesis using past(2) assms(2) unfolding held_def last_seen_append by fastforce
qed

lemma held_nothing:
  assumes "held o' past c dl"
  shows "held o' (past @ [SawNothing]) c dl"
proof -
  obtain pre t0 s0 rest where past: "past = pre @ SawSession t0 s0 # rest" "dl = t0 + wo_StableFor o'"
    and all: "\<forall>v \<in> set (SawSession t0 s0 # rest). view_holds o' c v"
    using assms(1) unfolding held_def by blast
  have "\<forall>v \<in> set (SawSession t0 s0 # rest @ [SawNothing]). view_holds o' c v"
    using all by auto
  moreover have "past @ [SawNothing] = pre @ SawSession t0 s0 # (rest @ [SawNothing])" using past by simp
  ultimately show ?thesis using past(2) assms unfolding held_def last_seen_append by fastforce
qed

lemma holdCandidate_ok:
  assumes "run_ok past t r" "t \<le> now" "evaluateCondition s (wr_opts r) = Inr True"
  shows "run_ok (past @ [SawSession now s]) now (holdCandidate now s r)"
proof (cases "wr_candidate r")
  case None
  then have "wr_stableTimer r = None" "\<not> wr_stableReady r" using assms(1) by (auto simp: run_ok_def split: option.splits)
  then show ?thesis using None held_start [OF assms(3)] by (simp add: holdCandidate_def run_ok_def Let_def)
next
  case (Some c)
  then obtain dl where dl: "wr_stableTimer r = Some dl" and h: "held (wr_opts r) past c dl"
    and ready: "wr_stableReady r \<longrightarrow> dl \<le> t"
    using assms(1) by (auto simp: run_ok_def split: option.splits)
  show ?thesis
  proof (cases "sameWaitProcess (s_Process c) (s_Process s)")
    case True
    then show ?thesis
      using Some dl ready assms(2) held_extend [OF h assms(3) True]
      by (auto simp: holdCandidate_def run_ok_def Let_def)
  next
    case False
    then show ?thesis
      using Some held_start [OF assms(3)] by (simp add: holdCandidate_def run_ok_def Let_def resetStable_def)
  qed
qed

lemma run_ok_note: "run_ok past t r \<Longrightarrow> run_ok past t (r\<lparr>wr_seenInitial := a, wr_lastSeen := b\<rparr>)"
  by (cases "wr_candidate r"; cases "wr_stableTimer r") (simp_all add: run_ok_def)

lemma holdCandidate_opts [simp]: "wr_opts (holdCandidate now s r) = wr_opts r"
  by (simp add: holdCandidate_def Let_def split: option.split)

lemma currentSession_note [simp]: "currentSession (r\<lparr>wr_seenInitial := a\<rparr>) ss now = currentSession r ss now"
  by (simp add: currentSession_def split: option.split)

lemma observe_ok:
  assumes "run_ok past t r" "t \<le> now" "observe ss now r = Continue r'"
  shows "\<exists>s. currentSession r ss now = Some s \<and> run_ok (past @ [SawSession now s]) now r' \<and> wr_opts r' = wr_opts r"
proof -
  from assms(3) obtain s where s: "currentSession r ss now = Some s"
    by (auto simp: observe_def Let_def split: option.splits)
  let ?r = "r\<lparr>wr_seenInitial := True, wr_lastSeen := Some s\<rparr>"
  consider "r' = resetStable ?r" | "evaluateCondition s (wr_opts r) = Inr True" "r' = holdCandidate now s ?r"
    using assms(3) s by (auto simp: observe_def Let_def split: sum.splits bool.splits if_splits)
  then show ?thesis
  proof cases
    case 1
    then show ?thesis using s run_ok_reset by simp
  next
    case 2
    then show ?thesis using s holdCandidate_ok [OF run_ok_note [OF assms(1)] assms(2), of s] by simp
  qed
qed

lemma iteration_ok:
  assumes "run_ok past t r" "t \<le> tn_now tn" "timer_ok tn r" "wait_iteration tn r = Continue r'"
  shows "run_ok (past @ [turn_view tn r]) (tn_now tn) r' \<and> wr_opts r' = wr_opts r"
proof -
  obtain step r1 where step: "nextEvent tn r = (step, r1)" by fastforce
  show ?thesis
  proof (cases step)
    case (StepEvent ev)
    then have r1: "r1 = r" using step by (auto simp: nextEvent_def split: option.splits if_splits select_case.splits)
    show ?thesis
    proof (cases ev)
      case (StreamEvent ss)
      then have "observe ss (tn_now tn) r = Continue r'" using assms(4) step StepEvent r1 by (simp add: wait_iteration_def)
      from observe_ok [OF assms(1,2) this] show ?thesis
        using step StepEvent StreamEvent by (auto simp: turn_view_def)
    qed (use assms(4) step StepEvent r1 run_ok_reset in
        \<open>auto simp: wait_iteration_def replaceFailedStream_def Let_def run_ok_def resetStable_def turn_view_def
           split: if_splits option.splits\<close>)
  next
    case StepTimer
    then have r1: "r1 = r\<lparr>wr_stableReady := True, wr_timerCh := False\<rparr>"
      using step by (auto simp: nextEvent_def split: option.splits if_splits select_case.splits)
    have "r' = r1" using assms(4) step StepTimer by (simp add: wait_iteration_def)
    moreover obtain dl where "wr_stableTimer r = Some dl" "dl \<le> tn_now tn"
      using assms(3) step StepTimer by (auto simp: timer_ok_def split: option.splits)
    ultimately show ?thesis
      using assms(1) r1 step StepTimer held_nothing
      by (auto simp: run_ok_def turn_view_def split: option.splits)
  qed (use assms(4) step in \<open>auto simp: wait_iteration_def split: option.splits\<close>)
qed

lemma iteration_result:
  assumes "run_ok past t r" "t \<le> tn_now tn" "wait_iteration tn r = Return (Inr res)"
  shows "evaluateCondition (wt_Session res) (wr_opts r) = Inr True \<and>
    last_seen (past @ [turn_view tn r]) = Some (wt_Session res) \<and>
    (wo_StableFor (wr_opts r) \<noteq> 0 \<longrightarrow>
       (\<exists>dl \<le> tn_now tn. held (wr_opts r) (past @ [turn_view tn r]) (wt_Session res) dl))"
proof -
  obtain step r1 where step: "nextEvent tn r = (step, r1)" by fastforce
  consider (stable) "step = StepStable" | (event) ss where "step = StepEvent (StreamEvent ss)"
    using assms(3) step
    by (auto simp: wait_iteration_def replaceFailedStream_def Let_def split: wait_step.splits stream_input.splits
        if_splits option.splits)
  then show ?thesis
  proof cases
    case stable
    then obtain c where c: "r1 = r" "wr_stableReady r" "wr_candidate r = Some c"
      using step by (auto simp: nextEvent_def split: option.splits if_splits select_case.splits)
    then have res: "wt_Session res = c" using assms(3) step stable by (auto simp: wait_iteration_def)
    obtain dl where dl: "held (wr_opts r) past c dl" "dl \<le> t"
      using assms(1) c by (auto simp: run_ok_def split: option.splits)
    have view: "turn_view tn r = SawNothing" using step stable by (simp add: turn_view_def)
    note now = held_nothing [OF dl(1)]
    then have "last_seen (past @ [SawNothing]) = Some c" "evaluateCondition c (wr_opts r) = Inr True"
      unfolding held_def by blast+
    moreover have "dl \<le> tn_now tn" using dl(2) assms(2) by simp
    ultimately show ?thesis using now unfolding res view by blast
  next
    case event
    then have r1: "r1 = r" using step by (auto simp: nextEvent_def split: option.splits if_splits select_case.splits)
    with event step assms(3) have "observe ss (tn_now tn) r = Return (Inr res)" by (simp add: wait_iteration_def)
    then show ?thesis
      using step event
      by (auto simp: observe_def Let_def turn_view_def last_seen_append split: option.splits sum.splits bool.splits if_splits)
  qed
qed

subsection \<open>The whole wait\<close>

lemma wait_loop_result:
  assumes "run_ok past t r" "sorted (t # map tn_now tns)" "timers_ok r tns"
    and "wait_loop r tns = Some (Inr res)"
  shows "\<exists>n < length tns. length (wait_trace r tns) = Suc n \<and>
    evaluateCondition (wt_Session res) (wr_opts r) = Inr True \<and>
    last_seen (past @ wait_trace r tns) = Some (wt_Session res) \<and>
    (wo_StableFor (wr_opts r) \<noteq> 0 \<longrightarrow>
       (\<exists>dl \<le> tn_now (tns ! n). held (wr_opts r) (past @ wait_trace r tns) (wt_Session res) dl))"
  using assms
proof (induction tns arbitrary: past t r)
  case (Cons tn tns)
  have le: "t \<le> tn_now tn" and ok: "timer_ok tn r" using Cons.prems(2,3) by auto
  show ?case
  proof (cases "wait_iteration tn r")
    case (Continue r')
    note step = iteration_ok [OF Cons.prems(1) le ok Continue]
    have "sorted (tn_now tn # map tn_now tns)" "timers_ok r' tns" "wait_loop r' tns = Some (Inr res)"
      using Cons.prems Continue by auto
    from Cons.IH [OF conjunct1 [OF step] this] obtain n where "n < length tns"
      "length (wait_trace r' tns) = Suc n" "evaluateCondition (wt_Session res) (wr_opts r') = Inr True"
      "last_seen ((past @ [turn_view tn r]) @ wait_trace r' tns) = Some (wt_Session res)"
      "wo_StableFor (wr_opts r') \<noteq> 0 \<longrightarrow> (\<exists>dl \<le> tn_now (tns ! n).
         held (wr_opts r') ((past @ [turn_view tn r]) @ wait_trace r' tns) (wt_Session res) dl)"
      by blast
    then show ?thesis using Continue conjunct2 [OF step] by (intro exI [of _ "Suc n"]) simp
  next
    case (Return out)
    then have "out = Inr res" using Cons.prems(4) by simp
    then have "wait_iteration tn r = Return (Inr res)" using Return by simp
    from iteration_result [OF Cons.prems(1) le this] show ?thesis using Return by (intro exI [of _ 0]) simp
  qed
qed simp

lemma started_ok: "run_ok [] t (started_run mode o' durable)"
  by (simp add: run_ok_def started_run_def)

text \<open>What the condition asks for, in the words of the options.\<close>

definition satisfies :: "session \<Rightarrow> wait_options \<Rightarrow> bool" where
  "satisfies s o' \<longleftrightarrow>
     (wo_Presence o' \<noteq> no_presence \<longrightarrow> s_Presence s = wo_Presence o') \<and>
     (wo_Activity o' \<noteq> no_activity \<longrightarrow> s_Activity s = Some (wo_Activity o') \<and> s_Presence s \<noteq> PresenceGone)"

lemma presence_case:
  assumes "presence_valid (s_Presence s)"
  shows "s_Presence s = PresenceLive \<or> s_Presence s = PresenceGone \<or> s_Presence s = PresenceUnknown"
  using assms by (auto simp: presence_valid_def)

lemma condition_satisfied:
  assumes "WaitOptions_Validate o' = None" "evaluateCondition s o' = Inr True" "presence_valid (s_Presence s)"
  shows "satisfies s o'"
  using assms presence_case [OF assms(3)]
  by (auto simp: WaitOptions_Validate_def validateConditions_def evaluateCondition_def satisfies_def
      presence_valid_def split: if_splits option.splits)

text \<open>Where the context ends, the wait ends.\<close>

lemma wait_loop_ends:
  assumes "tn \<in> set tns" "tn_ctx tn \<noteq> None"
  shows "wait_loop r tns \<noteq> None"
  using assms
proof (induction tns arbitrary: r)
  case (Cons x tns)
  show ?case
  proof (cases "wait_iteration x r")
    case (Continue r')
    have "x \<noteq> tn" using Continue Cons.prems(2) by (auto simp: wait_iteration_def nextEvent_def)
    then show ?thesis using Cons Continue by simp
  qed simp
qed simp

end
