(* ===== verification/Aht_Inputs.thy ===== *)
theory Aht_Inputs
  imports Aht_Examples Aht_Detection Aht_Resolution Aht_Waiting
begin

section \<open>Concrete inputs for screens and clients\<close>

text \<open>
  A manifest of three rules with a screen, selectors and process tables over the sessions of
  \<open>Aht_Examples\<close>, and the turns of a wait that asks for stability.
\<close>

definition ex_engine :: text_engine where
  "ex_engine = \<lparr>te_Lower = map lower_char, te_Compiles = (\<lambda>_. True), te_MatchString = (\<lambda>e t. contains t e)\<rparr>"

definition ex_rule :: "string \<Rightarrow> string \<Rightarrow> int \<Rightarrow> string \<Rightarrow> screen_rule" where
  "ex_rule rid st prio literal =
     \<lparr>sr_Detail = no_detail, sr_ID = rid, sr_State = st, sr_Priority = prio, sr_Region = ''bottom:2'',
      sr_CaseSensitive = False, sr_All = [literal], sr_Any = [], sr_None = [], sr_RegexAll = [],
      sr_RegexAny = [], sr_RegexNone = [], sr_TitleAny = [], sr_TitleRegexAny = [],
      sr_regexAllCompiled = [], sr_regexAnyCompiled = [], sr_regexNoneCompiled = [],
      sr_titleRegexAnyCompiled = []\<rparr>"

definition ex_manifest :: manifest where
  "ex_manifest =
     \<lparr>mf_Version = 1, mf_Agent = ''codex'',
      mf_Rules = [ex_rule ''idle'' ''idle'' 1 ''ready'', ex_rule ''busy'' ''running'' 5 ''esc'',
                  ex_rule ''late'' ''waiting'' 5 ''ready''],
      mf_Source = [], mf_Warning = []\<rparr>"

definition ex_screen :: string where
  "ex_screen = ''ready'' @ [CR, LF] @ [ESC] @ ''[1mEsc to stop'' @ [LF]"

definition ex_snap :: screen_snapshot where
  "ex_snap = NormalizeSnapshot ex_screen ''agent''"

text \<open>The bundled text is read as the manifest, every other text is refused.\<close>

definition ex_source :: manifest_source where
  "ex_source =
     \<lparr>ms_Decode = (\<lambda>t. if t = ''bundled'' then Some ex_manifest else None), ms_SupportsScreen = (\<lambda>h. h = ''codex''),
      ms_Bundled = (\<lambda>h. if h = ''codex'' then Some ''bundled'' else None), ms_Open = (\<lambda>_. FileContent ''x'')\<rparr>"

definition ex_content :: "string \<Rightarrow> string \<Rightarrow> file_read" where
  "ex_content path fp = (if fp = ''1'' then FileMissing else FileContent ''bundled'')"

definition ex_requests :: "((string \<Rightarrow> string) \<times> string \<times> string) list" where
  "ex_requests = [(\<lambda>_. ''1'', ''codex'', ''/c''), (\<lambda>_. ''1'', ''codex'', ''/c''), (\<lambda>_. ''2'', ''codex'', ''/c'')]"

definition ex_list :: "session_filter \<Rightarrow> reg_error + session list" where
  "ex_list f = Inr (FilterSessions ex_fs (map snd ex_sessions) f)"

definition ex_selector :: selector where
  "ex_selector =
     \<lparr>sl_ID = [], sl_Reference = ''A'', sl_Harness = ''codex'', sl_MultiplexerKind = [],
      sl_MultiplexerServer = [], sl_MultiplexerPane = [], sl_Project = [], sl_ProjectSubtree = False,
      sl_CWD = []\<rparr>"

definition ex_proc :: "int \<Rightarrow> int \<Rightarrow> proc_info" where
  "ex_proc pid ppid =
     \<lparr>pr_PID = pid, pr_Name = [], pr_PPID = ppid, pr_ProcessGroupID = 0, pr_Foreground = False,
      pr_StartIdentity = ''t'', pr_Executable = [], pr_CWD = [], pr_TTY = [], pr_AgentHint = [],
      pr_MultiplexerKind = [], pr_MultiplexerServer = [], pr_MultiplexerSession = [],
      pr_MultiplexerPane = [], pr_Args = []\<rparr>"

definition ex_inspectors :: inspectors where
  "ex_inspectors =
     \<lparr>cu_PID = 100, cu_ProcessList = Some [ex_proc 100 50, ex_proc 50 7, ex_proc 7 1, ex_proc 1 0],
      cu_ProcessFind = (\<lambda>_. FindMissing), cu_TmuxCurrent = None, cu_ZellijCurrent = zero_location,
      cu_HerdrCurrent = zero_location\<rparr>"

definition ex_wait :: wait_options where
  "ex_wait =
     \<lparr>wo_ID = s_ID ex_session, wo_Activity = no_activity, wo_Presence = PresenceLive, wo_Timeout = 0,
      wo_StableFor = 5\<rparr>"

definition ex_turn :: "stream_input option \<Rightarrow> select_case \<Rightarrow> time \<Rightarrow> wait_turn" where
  "ex_turn queued choice now = \<lparr>tn_ctx = None, tn_queued = queued, tn_select = choice, tn_now = now\<rparr>"

definition ex_turns :: "wait_turn list" where
  "ex_turns =
     [ex_turn (Some (StreamEvent (map snd ex_sessions))) SelectTimer 10,
      ex_turn None SelectTimer 15,
      ex_turn None SelectTimer 15]"

end
