(* ===== verification/Aht_CycleInputs.thy ===== *)
theory Aht_CycleInputs
  imports Aht_BatchValid Aht_Confirmation Aht_Placement Aht_Inputs
begin

section \<open>Concrete cycles of the observer\<close>

text \<open>
  A store that keeps the batches it is given and lists no session, an observer without screens,
  and the worlds in which an agent runs below its shell, or no longer does.
\<close>

definition ex_keeper :: "observation list list observation_store" where
  "ex_keeper =
     \<lparr>op_Observe = (\<lambda>_ s. (Inl ErrStoreClosed, s)), op_ObserveBatch = (\<lambda>obs s. (Inr [], s @ [obs])),
      op_List = (\<lambda>_ s. (Inr [], s))\<rparr>"

definition ex_command :: "int \<Rightarrow> int \<Rightarrow> string \<Rightarrow> proc_info" where
  "ex_command pid ppid command =
     (ex_proc pid ppid)\<lparr>pr_Name := command, pr_Executable := ''/usr/bin/'' @ command, pr_Args := [command]\<rparr>"

definition ex_world :: "time \<Rightarrow> proc_info list \<Rightarrow> cycle_world" where
  "ex_world at ps =
     \<lparr>cw_now = at, cw_processes = Some ps, cw_panes = ([], False), cw_catalog = ([], []),
      cw_locationPresence = (\<lambda>_. None), cw_text = ex_engine, cw_manifests = ex_source,
      cw_fingerprint = (\<lambda>p. p), cw_overridePath = (\<lambda>h. h), cw_overrideExists = (\<lambda>_. False),
      cw_capture = (\<lambda>_. None), cw_capturedAt = (\<lambda>_. at), cw_harnessOrder = (\<lambda>m. m),
      cw_trackedOrder = (\<lambda>m. m), cw_pid = 1, cw_healthWritten = True\<rparr>"

text \<open>The shell belongs to another user, and so has no start identity.\<close>

definition ex_shell :: "proc_info list" where
  "ex_shell = map (\<lambda>p. p\<lparr>pr_StartIdentity := []\<rparr>) [ex_command 7 1 ''sh'']"

definition ex_agents :: "proc_info list" where
  "ex_agents = ex_command 8 7 ''claude'' # ex_shell"

definition ex_worlds :: "cycle_world list" where
  "ex_worlds = [ex_world 5 ex_agents, ex_world 6 ex_shell, ex_world 7 ex_shell]"

definition ex_observer :: observer where
  "ex_observer = (New_observer 0 0 0 True [] [])\<lparr>os_initialized := True\<rparr>"

text \<open>Runs by evaluation.\<close>

fun run_recorded ::
    "'s observation_store \<Rightarrow> cycle_world list \<Rightarrow> observer \<Rightarrow> 's
     \<Rightarrow> (observation list list \<times> observer \<times> 's) option" where
  "run_recorded op [] o' s = Some ([], o', s)"
| "run_recorded op (w # ws) o' s =
     (let ((r, errs), o1, s1) = runCycle op w o' s in
      if errs = [] then map_option (\<lambda>(bs, x). (batch_of op w o' s # bs, x)) (run_recorded op ws o1 s1)
      else None)"

lemma run_recorded_run:
  "run_recorded op ws o' s = Some (bs, o2, s2) \<Longrightarrow> recorded_run op o' s ws bs o2 s2"
proof (induction ws arbitrary: o' s bs)
  case (Cons w ws)
  obtain r errs o1 s1 where c: "runCycle op w o' s = ((r, errs), o1, s1)" by (metis prod.exhaust)
  have e: "errs = []" using Cons.prems by (simp add: c split: if_splits)
  then obtain cs where "bs = batch_of op w o' s # cs" "run_recorded op ws o1 s1 = Some (cs, o2, s2)"
    using Cons.prems by (auto simp: c)
  then show ?case using run_cycle [OF c] Cons.IH e by (simp add: recorded_def)
qed (simp add: run_stop)

definition ex_key :: process_key where
  "ex_key = \<lparr>pk_harness = ''claude'', pk_pid = 8, pk_start = ''t''\<rparr>"

definition ex_ran :: "observation list list \<times> observer \<times> observation list list" where
  "ex_ran = the (run_recorded ex_keeper ex_worlds ex_observer [])"

lemma ex_ran_says:
  "map_option (\<lambda>(bs, _). map (\<lambda>b. (batch_says ex_key True b, batch_says ex_key False b)) bs)
     (run_recorded ex_keeper ex_worlds ex_observer [])
   = Some [(True, False), (False, False), (False, True)]"
  by code_simp

lemma ex_run_evaluates: "run_recorded ex_keeper ex_worlds ex_observer [] = Some ex_ran"
  using ex_ran_says by (cases "run_recorded ex_keeper ex_worlds ex_observer []") (simp_all add: ex_ran_def)

lemma ex_run_recorded:
  "recorded_run ex_keeper ex_observer [] ex_worlds (fst ex_ran) (fst (snd ex_ran)) (snd (snd ex_ran))"
  by (rule run_recorded_run) (simp add: ex_run_evaluates)

lemma ex_ran_batches:
  "length (fst ex_ran) = 3"
  "batch_says ex_key True (fst ex_ran ! 0)" "\<not> batch_says ex_key True (fst ex_ran ! 1)"
  "\<not> batch_says ex_key True (fst ex_ran ! 2)"
  using ex_ran_says unfolding ex_run_evaluates by (auto simp: case_prod_beta)

text \<open>The worlds are fair and sound, and the observers ready.\<close>

lemma ex_agents_distinct: "distinct (map pr_PID ex_agents)" "distinct (map pr_PID ex_shell)"
  by (simp_all add: ex_agents_def ex_shell_def ex_command_def ex_proc_def)

lemma ex_world_fair: "distinct (map pr_PID ps) \<Longrightarrow> fair_world (ex_world at ps)"
  by (simp add: fair_world_def ex_world_def)

lemma ex_worlds_fair: "\<forall>w\<in>set ex_worlds. fair_world w"
  by (simp add: ex_worlds_def ex_world_fair ex_agents_distinct)

lemma ex_worlds_sound: "\<forall>w\<in>set ex_worlds. sound_world w"
  by (simp add: ex_worlds_def sound_world_def ex_world_def ex_agents_def ex_shell_def ex_command_def
      ex_proc_def nonneg_process_def)

lemma ex_observer_sound: "sound_observer ex_observer"
  by (simp add: sound_observer_def ready_def ex_observer_def New_observer_def tracked_ok_Nil
      tracked_sound_def cache_valid_Nil)

lemma ex_observer_ready: "ready ex_observer"
  using ex_observer_sound by (simp add: sound_observer_def)

lemma ex_keeper_sound: "lists_sound ex_keeper"
  by (simp add: lists_sound_def ex_keeper_def)

definition ex_blind :: cycle_world where
  "ex_blind = (ex_world 5 [])\<lparr>cw_processes := None\<rparr>"

lemma ex_blind_fair: "fair_world ex_blind"
  by (simp add: ex_blind_def fair_world_def ex_world_def)

text \<open>A continuous observer that confirms what it finds after three nanoseconds.\<close>

definition ex_patient :: observer where
  "ex_patient = ex_observer\<lparr>os_continuous := True, os_confirmAfter := 3\<rparr>"

lemma ex_patient_ready: "ready ex_patient"
  using ex_observer_ready by (simp add: ready_def ex_patient_def)

definition ex_waited :: "observation list list \<times> observer \<times> observation list list" where
  "ex_waited = the (run_recorded ex_keeper [ex_world 5 ex_agents] ex_patient [])"

lemma ex_waits:
  "map_option (\<lambda>(bs, _). map (batch_says ex_key True) bs)
     (run_recorded ex_keeper [ex_world 5 ex_agents, ex_world 9 ex_agents] ex_patient []) = Some [False, True]"
  by code_simp

lemma run_recorded_two:
  assumes "run_recorded op [v, w] o' s = Some (bs, x)"
  shows "\<exists>o1 s1 b. run_recorded op [v] o' s = Some ([b], o1, s1)
     \<and> snd (fst (runCycle op w o1 s1)) = [] \<and> bs = [b, batch_of op w o1 s1]"
proof -
  obtain r errs o1 s1 where "runCycle op v o' s = ((r, errs), o1, s1)" by (metis prod.exhaust)
  then show ?thesis using assms by (auto simp: case_prod_beta split: if_splits)
qed

lemma ex_confirmed:
  "run_recorded ex_keeper [ex_world 5 ex_agents] ex_patient [] = Some ex_waited"
  "snd (fst (runCycle ex_keeper (ex_world 9 ex_agents) (fst (snd ex_waited)) (snd (snd ex_waited)))) = []"
  "batch_says ex_key True
     (batch_of ex_keeper (ex_world 9 ex_agents) (fst (snd ex_waited)) (snd (snd ex_waited)))"
proof -
  obtain bs x where r: "run_recorded ex_keeper [ex_world 5 ex_agents, ex_world 9 ex_agents] ex_patient [] =
      Some (bs, x)" and says: "map (batch_says ex_key True) bs = [False, True]"
    using ex_waits by auto
  obtain o1 s1 b where o: "run_recorded ex_keeper [ex_world 5 ex_agents] ex_patient [] = Some ([b], o1, s1)"
    "snd (fst (runCycle ex_keeper (ex_world 9 ex_agents) o1 s1)) = []"
    "bs = [b, batch_of ex_keeper (ex_world 9 ex_agents) o1 s1]"
    using run_recorded_two [OF r] by blast
  have w: "ex_waited = ([b], o1, s1)" unfolding ex_waited_def o(1) by simp
  show "run_recorded ex_keeper [ex_world 5 ex_agents] ex_patient [] = Some ex_waited"
    "snd (fst (runCycle ex_keeper (ex_world 9 ex_agents) (fst (snd ex_waited)) (snd (snd ex_waited)))) = []"
    "batch_says ex_key True
     (batch_of ex_keeper (ex_world 9 ex_agents) (fst (snd ex_waited)) (snd (snd ex_waited)))"
    using o says unfolding w by simp_all
qed

lemma ex_waited_run:
  "recorded_run ex_keeper ex_patient [] [ex_world 5 ex_agents] (fst ex_waited)
     (fst (snd ex_waited)) (snd (snd ex_waited))"
  by (rule run_recorded_run) (simp only: ex_confirmed(1) prod.collapse)

text \<open>An agent that runs below another process of itself.\<close>

definition ex_nested :: "proc_info list" where
  "ex_nested = ex_command 9 8 ''claude'' # ex_agents"

lemma ex_nested_distinct: "distinct (map pr_PID ex_nested)"
  by (simp add: ex_nested_def ex_agents_def ex_shell_def ex_command_def ex_proc_def)

text \<open>An observer that tracks the agent.\<close>

definition ex_watching :: observer where
  "ex_watching = ex_observer\<lparr>os_tracked := [(ex_key, fresh_entry (ex_command 8 7 ''claude''))]\<rparr>"

lemma ex_watching_ready: "ready ex_watching"
  by (simp add: ready_def ex_watching_def tracked_ok_def entry_ok_def fresh_entry_def ex_key_def
      process_key_of_def process_complete_def processIdentity_def ex_command_def ex_proc_def
      ex_observer_def New_observer_def)

end
