(* ===== verification/Aht_StoreWatch.thy ===== *)
theory Aht_StoreWatch
  imports Aht_Durability
begin

section \<open>Watching the file store: \<open>watch.go\<close>\<close>

text \<open>
  The loop that follows a store through the changes of its directory. The state of the model is
  what \<open>fileStoreWatch\<close> and \<open>watchRunState\<close> keep; the watcher of \<open>fsnotify\<close>, the timers and the
  disk are the turns a run meets, in the order they happen to arrive. The values given to the
  handler are the third component of every operation, in the order they are given.
\<close>

definition defaultWatchDebounce :: duration where
  "defaultWatchDebounce = 100 * 1000000"

definition defaultWatchReconcileInterval :: duration where
  "defaultWatchReconcileInterval = 30 * second"

record watch_options =
  wt_Filter :: session_filter
  wt_Debounce :: duration
  wt_ReconcileInterval :: duration

datatype watch_failure =
  WatchYieldRequired
  | WatchCreating
  | WatchParentNotDirectory
  | WatchStating
  | WatchAdding
  | WatchRemoving
  | WatchResolving
  | WatchWatcher string
  | WatchReading reg_error

text \<open>What ends a watch with an error: one of the above, or a handler that refused a value.\<close>

datatype watch_error = WatchFailed watch_failure | WatchYielding bool

record watch_result =
  wr_Sessions :: "session list"
  wr_UpdatedAt :: time
  wr_Initial :: bool
  wr_Err :: "watch_failure option"

record store_watch =
  sw_filter :: session_filter
  sw_target :: string
  sw_directory :: string
  sw_baseline :: "session list"
  sw_baselineUpdatedAt :: time
  sw_haveBaseline :: bool
  sw_debounce :: bool

definition normalizeFileStoreWatchOptions :: "watch_options \<Rightarrow> watch_options" where
  "normalizeFileStoreWatchOptions w =
     w\<lparr>wt_Debounce := (if wt_Debounce w \<le> 0 then defaultWatchDebounce else wt_Debounce w),
       wt_ReconcileInterval :=
         (if wt_ReconcileInterval w \<le> 0 then defaultWatchReconcileInterval
          else wt_ReconcileInterval w)\<rparr>"

subsection \<open>Events of the file system\<close>

text \<open>The bits of \<open>fsnotify.Op\<close> an event carries.\<close>

datatype fs_op = OpCreate | OpWrite | OpRemove | OpRename | OpChmod

record fs_event =
  fe_Name :: string
  fe_Op :: "fs_op list"

definition isFileStoreWatchEvent :: "file_system \<Rightarrow> fs_event \<Rightarrow> string \<Rightarrow> string \<Rightarrow> bool" where
  "isFileStoreWatchEvent fs e target directory =
     (if \<not> list_ex (\<lambda>x. x \<in> set [OpCreate, OpWrite, OpRename, OpRemove]) (fe_Op e) then False
      else case fs_Abs fs (fe_Name e) of
        None \<Rightarrow> False
      | Some p \<Rightarrow>
          (let path = path_clean p
           in path = target \<or> path = target @ ''.journal.jsonl'' \<or> path = directory))"

definition isFileStoreWatchDirectoryRemoval :: "file_system \<Rightarrow> fs_event \<Rightarrow> string \<Rightarrow> bool" where
  "isFileStoreWatchDirectoryRemoval fs e directory =
     (if \<not> list_ex (\<lambda>x. x \<in> set [OpRename, OpRemove]) (fe_Op e) then False
      else case fs_Abs fs (fe_Name e) of
        None \<Rightarrow> False
      | Some p \<Rightarrow> path_clean p = directory)"

text \<open>What \<open>os.Stat\<close> answers for the directory.\<close>

datatype dir_stat = StatMissing | StatFailed | StatFile | StatDirectory

definition isSystemOrTempRoot :: "file_system \<Rightarrow> string \<Rightarrow> string \<Rightarrow> bool" where
  "isSystemOrTempRoot fs tempDir dir =
     (let clean = path_clean dir; temp = path_clean tempDir in
      if clean = ''/'' \<or> clean = ''.'' \<or> clean = path_dir clean then True
      else if clean = temp \<or> CanonicalPath fs clean = CanonicalPath fs temp then True
      else clean = ''/tmp'' \<or> clean = ''/var/tmp'' \<or> clean = ''/private/tmp''
        \<or> clean = ''/private/var/tmp'')"

text \<open>The paths that are added, and the error: that the parent cannot be watched does not matter.\<close>

definition addFileStoreWatchPaths ::
    "file_system \<Rightarrow> string \<Rightarrow> (string \<Rightarrow> bool) \<Rightarrow> string \<Rightarrow> string list \<times> watch_failure option" where
  "addFileStoreWatchPaths fs tempDir addable directory =
     (let root = path_dir directory;
          parent = (if isSystemOrTempRoot fs tempDir root then []
                    else filter addable [root])
      in if addable directory then (parent @ [directory], None) else (parent, Some WatchAdding))"

definition fileStoreWatchTarget ::
    "file_system \<Rightarrow> (string \<Rightarrow> dir_stat) \<Rightarrow> string \<Rightarrow> watch_failure + string \<times> string" where
  "fileStoreWatchTarget fs stat path =
     (case fs_Abs fs path of
        None \<Rightarrow> Inl WatchResolving
      | Some target \<Rightarrow>
          (let directory = path_dir target in
           case stat directory of
             StatDirectory \<Rightarrow> Inr (path_clean target, directory)
           | StatFile \<Rightarrow> Inl WatchParentNotDirectory
           | _ \<Rightarrow> Inl WatchStating))"

definition ensureDirectoryWatch :: "dir_stat \<Rightarrow> bool \<Rightarrow> watch_failure option" where
  "ensureDirectoryWatch st added =
     (case st of
        StatMissing \<Rightarrow> None
      | StatFailed \<Rightarrow> Some WatchStating
      | StatFile \<Rightarrow> Some WatchParentNotDirectory
      | StatDirectory \<Rightarrow> if added then None else Some WatchAdding)"

subsection \<open>Scans\<close>

text \<open>
  What one scan meets: whether the context is cancelled before it and after its read, the
  directory, the read of the store, the disk and the clock, and what the handler answers.
\<close>

record scan_world =
  se_before :: bool
  se_after :: bool
  se_stat :: dir_stat
  se_added :: bool
  se_ctx :: "nat \<Rightarrow> go_ctx"
  se_disk :: disk
  se_now :: time
  se_accepts :: "watch_result \<Rightarrow> bool"

type_synonym scan_outcome = "watch_error option \<times> store_watch \<times> watch_result list"

definition yieldError :: "(watch_result \<Rightarrow> bool) \<Rightarrow> watch_failure \<Rightarrow> store_watch \<Rightarrow> scan_outcome" where
  "yieldError accepts e w =
     (let r = \<lparr>wr_Sessions = sw_baseline w, wr_UpdatedAt = sw_baselineUpdatedAt w,
               wr_Initial = False, wr_Err = Some e\<rparr>
      in (if accepts r then None else Some (WatchYielding True), w, [r]))"

definition fileStoreWatch_scan :: "file_system \<Rightarrow> reducer \<Rightarrow> scan_world \<Rightarrow> store_watch \<Rightarrow> scan_outcome" where
  "fileStoreWatch_scan fs r sw w =
     (if se_before sw then (None, w, [])
      else case ensureDirectoryWatch (se_stat sw) (se_added sw) of
        Some e \<Rightarrow> yieldError (se_accepts sw) e w
      | None \<Rightarrow>
          (case watchSnapshot fs (se_ctx sw) r (se_disk sw) (se_now sw) (sw_filter w) of
             Inl e \<Rightarrow>
               if se_after sw then (None, w, []) else yieldError (se_accepts sw) (WatchReading e) w
           | Inr (sessions, updatedAt) \<Rightarrow>
               (let w' = w\<lparr>sw_baseline := sessions, sw_baselineUpdatedAt := updatedAt,
                           sw_haveBaseline := True\<rparr>;
                    res = \<lparr>wr_Sessions = sessions, wr_UpdatedAt = updatedAt,
                           wr_Initial = \<not> sw_haveBaseline w, wr_Err = None\<rparr>
                in if sw_haveBaseline w \<and> sw_baseline w = sessions then (None, w', [])
                   else (if se_accepts sw res then None else Some (WatchYielding False), w', [res]))))"

text \<open>A watcher error is given to the handler, and then the store is read.\<close>

definition handleWatcherError ::
    "file_system \<Rightarrow> reducer \<Rightarrow> scan_world \<Rightarrow> watch_failure option \<Rightarrow> store_watch \<Rightarrow> scan_outcome" where
  "handleWatcherError fs r sw e w =
     (case e of
        None \<Rightarrow> (None, w, [])
      | Some err \<Rightarrow>
          (case yieldError (se_accepts sw) err w of
             (Some x, w1, rs) \<Rightarrow> (Some x, w1, rs)
           | (None, w1, rs) \<Rightarrow>
               (let (x, w2, rs') = fileStoreWatch_scan fs r sw w1 in (x, w2, rs @ rs'))))"

subsection \<open>The loop\<close>

text \<open>
  What the \<open>select\<close> of a turn takes. An event comes with whether the watch of a removed directory
  could be given up; a watcher may send a nil error. The timer of the debounce can only be taken
  when it is armed.
\<close>

datatype watch_case =
  CaseDone
  | CaseEvents fs_event bool
  | CaseEventsClosed
  | CaseDebounce
  | CaseReconcile
  | CaseErrors "string option"
  | CaseErrorsClosed

text \<open>Whether the watch is done, and the outcome.\<close>

definition watchRunState_step ::
    "file_system \<Rightarrow> reducer \<Rightarrow> watch_case \<times> scan_world \<Rightarrow> store_watch \<Rightarrow> bool \<times> scan_outcome" where
  "watchRunState_step fs r turn w =
     (case turn of (c, sw) \<Rightarrow>
      (case c of
        CaseDone \<Rightarrow> (True, None, w, [])
      | CaseEvents e removed \<Rightarrow>
          if isFileStoreWatchDirectoryRemoval fs e (sw_directory w) \<and> \<not> removed
          then (False, handleWatcherError fs r sw (Some WatchRemoving) w)
          else (False, None,
                w\<lparr>sw_debounce := sw_debounce w
                    \<or> isFileStoreWatchEvent fs e (sw_target w) (sw_directory w)\<rparr>, [])
      | CaseEventsClosed \<Rightarrow> (True, None, w, [])
      | CaseDebounce \<Rightarrow> (False, fileStoreWatch_scan fs r sw (w\<lparr>sw_debounce := False\<rparr>))
      | CaseReconcile \<Rightarrow> (False, fileStoreWatch_scan fs r sw w)
      | CaseErrors e \<Rightarrow> (False, handleWatcherError fs r sw (map_option WatchWatcher e) w)
      | CaseErrorsClosed \<Rightarrow> (True, None, w, [])))"

text \<open>
  The turns of a run, each with whether the context is still good before it. The result is
  \<open>None\<close> while the run goes on.
\<close>

fun fileStoreWatch_run ::
    "file_system \<Rightarrow> reducer \<Rightarrow> (bool \<times> watch_case \<times> scan_world) list \<Rightarrow> store_watch
     \<Rightarrow> watch_error option option \<times> store_watch \<times> watch_result list" where
  "fileStoreWatch_run fs r [] w = (None, w, [])"
| "fileStoreWatch_run fs r ((good, turn) # ts) w =
     (if \<not> good then (Some None, w, [])
      else case watchRunState_step fs r turn w of
        (finished, err, w1, rs) \<Rightarrow>
          if err \<noteq> None \<or> finished then (Some err, w1, rs)
          else (let (res, w2, rs') = fileStoreWatch_run fs r ts w1 in (res, w2, rs @ rs')))"

text \<open>What the start of a watch meets, before its first scan.\<close>

record watch_start =
  st_cancelled :: bool
  st_handler :: bool
  st_stat :: "string \<Rightarrow> dir_stat"
  st_watcher :: bool
  st_addable :: "string \<Rightarrow> bool"
  st_temp :: string

definition opened_watch :: "watch_options \<Rightarrow> string \<Rightarrow> string \<Rightarrow> store_watch" where
  "opened_watch opts target directory =
     \<lparr>sw_filter = wt_Filter opts, sw_target = target, sw_directory = directory, sw_baseline = [],
      sw_baselineUpdatedAt = 0, sw_haveBaseline = False, sw_debounce = False\<rparr>"

definition FileStore_Watch ::
    "file_system \<Rightarrow> reducer \<Rightarrow> watch_start \<Rightarrow> string \<Rightarrow> watch_options \<Rightarrow> scan_world
     \<Rightarrow> (bool \<times> watch_case \<times> scan_world) list
     \<Rightarrow> watch_error option option \<times> watch_result list" where
  "FileStore_Watch fs r st path opts0 first ts =
     (if st_cancelled st then (Some None, [])
      else if \<not> st_handler st then (Some (Some (WatchFailed WatchYieldRequired)), [])
      else (let opts = normalizeFileStoreWatchOptions opts0 in
        case fileStoreWatchTarget fs (st_stat st) path of
          Inl e \<Rightarrow> (Some (Some (WatchFailed e)), [])
        | Inr (target, directory) \<Rightarrow>
            if \<not> st_watcher st then (Some (Some (WatchFailed WatchCreating)), [])
            else (case addFileStoreWatchPaths fs (st_temp st) (st_addable st) directory of
              (_, Some e) \<Rightarrow> (Some (Some (WatchFailed e)), [])
            | (_, None) \<Rightarrow>
                (case fileStoreWatch_scan fs r first (opened_watch opts target directory) of
                   (Some e, w1, rs) \<Rightarrow> (Some (Some e), rs)
                 | (None, w1, rs) \<Rightarrow>
                     (let (res, w2, rs') = fileStoreWatch_run fs r ts w1 in (res, rs @ rs'))))))"

subsection \<open>What the handler sees\<close>

text \<open>
  The sessions the last snapshot a handler was given holds, and the streams of values that make
  sense to it: the first snapshot is the initial one, every further snapshot differs from the one
  before it, and an error repeats the sessions already known.
\<close>

fun stream_view :: "session list option \<Rightarrow> watch_result list \<Rightarrow> session list option" where
  "stream_view v [] = v"
| "stream_view v (r # rs) = stream_view (if wr_Err r = None then Some (wr_Sessions r) else v) rs"

fun stream_ok :: "session list option \<Rightarrow> watch_result list \<Rightarrow> bool" where
  "stream_ok v [] = True"
| "stream_ok v (r # rs) =
     (if wr_Err r = None
      then wr_Initial r = (v = None) \<and> v \<noteq> Some (wr_Sessions r) \<and> stream_ok (Some (wr_Sessions r)) rs
      else \<not> wr_Initial r \<and> wr_Sessions r = deref_or [] v \<and> stream_ok v rs)"

lemma stream_append:
  "stream_view v (rs @ rs') = stream_view (stream_view v rs) rs'"
  "stream_ok v (rs @ rs') \<longleftrightarrow> stream_ok v rs \<and> stream_ok (stream_view v rs) rs'"
  by (induction rs arbitrary: v) simp_all

definition known_sessions :: "store_watch \<Rightarrow> session list option" where
  "known_sessions w = (if sw_haveBaseline w then Some (sw_baseline w) else None)"

definition watch_ok :: "store_watch \<Rightarrow> bool" where
  "watch_ok w \<longleftrightarrow> (\<not> sw_haveBaseline w \<longrightarrow> sw_baseline w = [])"

text \<open>An outcome that tells the handler exactly what the watch knows.\<close>

definition told :: "store_watch \<Rightarrow> store_watch \<Rightarrow> watch_result list \<Rightarrow> bool" where
  "told w w' rs \<longleftrightarrow> watch_ok w' \<and> sw_filter w' = sw_filter w \<and> sw_directory w' = sw_directory w \<and> stream_ok (known_sessions w) rs
     \<and> stream_view (known_sessions w) rs = known_sessions w'"

lemma told_none: "watch_ok w \<Longrightarrow> told w w []"
  by (simp add: told_def)

lemma told_append: "told w w1 rs \<Longrightarrow> told w1 w2 rs' \<Longrightarrow> told w w2 (rs @ rs')"
  by (simp add: told_def stream_append)

lemma told_error:
  "watch_ok w \<Longrightarrow> yieldError accepts e w = (x, w', rs) \<Longrightarrow> told w w' rs"
  by (auto simp: yieldError_def Let_def told_def watch_ok_def known_sessions_def deref_or_def)

lemma told_scan:
  assumes "watch_ok w" "fileStoreWatch_scan fs r sw w = (x, w', rs)"
  shows "told w w' rs"
proof (cases "se_before sw \<or> ensureDirectoryWatch (se_stat sw) (se_added sw) \<noteq> None")
  case True
  then show ?thesis
    using assms told_none told_error
    by (auto simp: fileStoreWatch_scan_def split: if_splits option.splits)
next
  case False
  show ?thesis
  proof (cases "watchSnapshot fs (se_ctx sw) r (se_disk sw) (se_now sw) (sw_filter w)")
    case (Inl e)
    then show ?thesis using False assms told_none told_error
      by (auto simp: fileStoreWatch_scan_def split: if_splits)
  next
    case (Inr y)
    then show ?thesis using False assms
      by (cases y)
        (auto simp: fileStoreWatch_scan_def Let_def told_def watch_ok_def known_sessions_def split: if_splits)
  qed
qed

lemma told_handled:
  assumes "watch_ok w" "handleWatcherError fs r sw e w = (x, w', rs)"
  shows "told w w' rs"
proof (cases e)
  case None
  then show ?thesis using assms told_none by (auto simp: handleWatcherError_def)
next
  case (Some err)
  obtain y w1 rs1 where y: "yieldError (se_accepts sw) err w = (y, w1, rs1)" by (metis prod.exhaust)
  note one = told_error [OF assms(1) y]
  show ?thesis
  proof (cases y)
    case None
    obtain z w2 rs2 where z: "fileStoreWatch_scan fs r sw w1 = (z, w2, rs2)" by (metis prod.exhaust)
    have "told w1 w2 rs2" using one by (intro told_scan [OF _ z]) (simp add: told_def)
    then show ?thesis using told_append [OF one] assms(2) by (auto simp: handleWatcherError_def Some y None z)
  qed (use one assms(2) in \<open>simp add: handleWatcherError_def Some y\<close>)
qed

lemma told_debounce: "told (w\<lparr>sw_debounce := b\<rparr>) w' rs \<longleftrightarrow> told w w' rs"
  by (simp add: told_def known_sessions_def)

lemma told_step:
  assumes "watch_ok w" "watchRunState_step fs r turn w = (finished, x, w', rs)"
  shows "told w w' rs"
proof (cases turn)
  case (Pair c sw)
  have ok: "watch_ok (w\<lparr>sw_debounce := b\<rparr>)" for b using assms(1) by (simp add: watch_ok_def)
  show ?thesis
  proof (cases c)
    case (CaseEvents e removed)
    have "told w (w\<lparr>sw_debounce := b\<rparr>) []" for b
      using assms(1) by (simp add: told_def watch_ok_def known_sessions_def)
    then show ?thesis using assms told_handled [OF assms(1)]
      by (auto simp: watchRunState_step_def Pair CaseEvents split: if_splits)
  next
    case CaseDebounce
    then show ?thesis using assms(2) told_scan [OF ok]
      by (auto simp: watchRunState_step_def Pair told_debounce)
  qed (use assms told_none [OF assms(1)] told_scan [OF assms(1)] told_handled [OF assms(1)] in
      \<open>auto simp: watchRunState_step_def Pair\<close>)
qed

lemma told_run:
  "watch_ok w \<Longrightarrow> fileStoreWatch_run fs r ts w = (res, w', rs) \<Longrightarrow> told w w' rs"
proof (induction ts arbitrary: w rs)
  case (Cons t ts)
  obtain good turn where t: "t = (good, turn)" by (rule prod.exhaust)
  obtain finished x w1 rs1 where s: "watchRunState_step fs r turn w = (finished, x, w1, rs1)"
    by (metis prod.exhaust)
  note one = told_step [OF Cons.prems(1) s]
  then have ok: "watch_ok w1" by (simp add: told_def)
  show ?case
    using Cons.prems told_none one told_append [OF one] Cons.IH [OF ok]
    by (auto simp: t s split: if_splits prod.splits)
qed (simp add: told_none)

lemma run_append:
  assumes "fileStoreWatch_run fs r (ts @ us) w = (None, w', rs)"
  shows "\<exists>w1 rs1 rs2. fileStoreWatch_run fs r ts w = (None, w1, rs1)
    \<and> fileStoreWatch_run fs r us w1 = (None, w', rs2) \<and> rs = rs1 @ rs2"
  using assms
  by (induction ts arbitrary: w rs) (fastforce split: if_splits prod.splits)+

lemma scan_current:
  assumes "fileStoreWatch_scan fs r sw w = (x, w', rs)" "\<not> se_before sw"
    "se_stat sw = StatDirectory" "se_added sw"
    "watchSnapshot fs (se_ctx sw) r (se_disk sw) (se_now sw) (sw_filter w) = Inr (ss, at)"
  shows "known_sessions w' = Some ss"
  using assms
  by (auto simp: fileStoreWatch_scan_def ensureDirectoryWatch_def Let_def known_sessions_def split: if_splits)

text \<open>A watch that gave its handler anything went through its first scan.\<close>

lemma watch_cases:
  assumes "FileStore_Watch fs r st path opts first ts = (res, rs)"
  obtains (refused) "res \<noteq> None" "rs = []"
  | (first) x w w1 where "fileStoreWatch_scan fs r first w = (x, w1, rs)" "res \<noteq> None"
      "watch_ok w" "known_sessions w = None" "sw_filter w = wt_Filter opts"
  | (running) w w1 rs1 w2 rs2 where "fileStoreWatch_scan fs r first w = (None, w1, rs1)"
      "fileStoreWatch_run fs r ts w1 = (res, w2, rs2)" "rs = rs1 @ rs2"
      "watch_ok w" "known_sessions w = None" "sw_filter w = wt_Filter opts"
      "\<exists>target. fs_Abs fs path = Some target \<and> sw_directory w = path_dir target"
proof -
  define opened where
    "opened = (\<lambda>target directory. opened_watch (normalizeFileStoreWatchOptions opts) target directory)"
  have fresh: "watch_ok (opened t d)" "known_sessions (opened t d) = None"
    "sw_filter (opened t d) = wt_Filter opts" for t d
    by (simp_all add: opened_def opened_watch_def watch_ok_def known_sessions_def
        normalizeFileStoreWatchOptions_def)
  consider "res \<noteq> None \<and> rs = []" | t d x w1 rs1 where
      "fileStoreWatch_scan fs r first (opened t d) = (x, w1, rs1)"
      "(case x of Some e \<Rightarrow> (Some (Some e), rs1)
        | None \<Rightarrow> (case fileStoreWatch_run fs r ts w1 of (res, w2, rs') \<Rightarrow> (res, rs1 @ rs'))) = (res, rs)"
      "\<exists>target. fs_Abs fs path = Some target \<and> d = path_dir target"
  proof (cases "fileStoreWatchTarget fs (st_stat st) path")
    case (Inl e)
    then have "res \<noteq> None \<and> rs = []" using assms by (auto simp: FileStore_Watch_def Let_def split: if_splits)
    then show ?thesis by (rule that(1))
  next
    case (Inr td)
    obtain t d where td: "td = (t, d)" by (rule prod.exhaust)
    obtain added e where added: "addFileStoreWatchPaths fs (st_temp st) (st_addable st) d = (added, e)"
      by (rule prod.exhaust)
    show ?thesis
    proof (cases "st_cancelled st \<or> \<not> st_handler st \<or> \<not> st_watcher st \<or> e \<noteq> None")
      case True
      then have "res \<noteq> None \<and> rs = []"
        using assms by (auto simp: FileStore_Watch_def Let_def Inr td added split: if_splits)
      then show ?thesis by (rule that(1))
    next
      case False
      obtain x w1 rs1 where scanned: "fileStoreWatch_scan fs r first (opened t d) = (x, w1, rs1)"
        by (metis prod.exhaust)
      show ?thesis
      proof (rule that(2) [OF scanned])
        show "\<exists>target. fs_Abs fs path = Some target \<and> d = path_dir target"
          using Inr by (auto simp: fileStoreWatchTarget_def Let_def td split: option.splits dir_stat.splits)
      qed (use assms False scanned in \<open>auto simp: FileStore_Watch_def Let_def Inr td added opened_def split: option.splits\<close>)
    qed
  qed
  then show ?thesis
  proof cases
    case (2 t d x w1 rs1)
    have "sw_directory (opened t d) = d" by (simp add: opened_def opened_watch_def)
    then show ?thesis
      using 2 first [OF _ _ fresh] running [OF _ _ _ fresh] by (cases x) (auto split: prod.splits)
  qed (use refused in blast)
qed

lemma watch_told:
  assumes "FileStore_Watch fs r st path opts first ts = (res, rs)"
  shows "stream_ok None rs"
  using assms
proof (cases rule: watch_cases)
  case first
  then show ?thesis using told_scan [OF first(3,1)] by (simp add: told_def)
next
  case (running w w1 rs1 w2 rs2)
  note one = told_scan [OF running(4,1)]
  then have "watch_ok w1" by (simp add: told_def)
  from told_append [OF one told_run [OF this running(2)]] show ?thesis
    using running(3,5) by (simp add: told_def)
qed simp

text \<open>
  The turns that read the store: the debounce after an event, the reconciliation, an error of the
  watcher, and the removal of the directory where its watch could not be given up.
\<close>

definition turn_reads :: "file_system \<Rightarrow> string \<Rightarrow> watch_case \<Rightarrow> bool" where
  "turn_reads fs directory c =
     (case c of
        CaseDebounce \<Rightarrow> True
      | CaseReconcile \<Rightarrow> True
      | CaseErrors e \<Rightarrow> e \<noteq> None
      | CaseEvents e removed \<Rightarrow> isFileStoreWatchDirectoryRemoval fs e directory \<and> \<not> removed
      | _ \<Rightarrow> False)"

lemma handled_current:
  assumes "handleWatcherError fs r sw (Some e) w = (None, w', rs)" "\<not> se_before sw"
    "se_stat sw = StatDirectory" "se_added sw"
    "watchSnapshot fs (se_ctx sw) r (se_disk sw) (se_now sw) (sw_filter w) = Inr (ss, at)"
  shows "known_sessions w' = Some ss"
proof -
  obtain x rs1 where y: "yieldError (se_accepts sw) e w = (x, w, rs1)" by (simp add: yieldError_def Let_def)
  then have "x = None" using assms(1) by (cases x) (auto simp: handleWatcherError_def)
  obtain z w2 rs2 where z: "fileStoreWatch_scan fs r sw w = (z, w2, rs2)" by (metis prod.exhaust)
  have "w' = w2" using assms(1) y z \<open>x = None\<close> by (auto simp: handleWatcherError_def)
  then show ?thesis using scan_current [OF z assms(2-5)] by simp
qed

lemma step_current:
  assumes "watchRunState_step fs r (c, sw) w = (False, None, w', rs)" "turn_reads fs (sw_directory w) c"
    "\<not> se_before sw" "se_stat sw = StatDirectory" "se_added sw"
    "watchSnapshot fs (se_ctx sw) r (se_disk sw) (se_now sw) (sw_filter w) = Inr (ss, at)"
  shows "known_sessions w' = Some ss"
  using assms(2)
proof (cases c)
  case CaseDebounce
  then have "fileStoreWatch_scan fs r sw (w\<lparr>sw_debounce := False\<rparr>) = (None, w', rs)"
    using assms(1) by (simp add: watchRunState_step_def)
  from scan_current [OF this assms(3-5)] show ?thesis using assms(6) by simp
next
  case CaseReconcile
  then have "fileStoreWatch_scan fs r sw w = (None, w', rs)"
    using assms(1) by (simp add: watchRunState_step_def)
  from scan_current [OF this assms(3-6)] show ?thesis .
next
  case (CaseErrors e)
  then obtain text_of where "handleWatcherError fs r sw (Some (WatchWatcher text_of)) w = (None, w', rs)"
    using assms(1,2) by (cases e) (auto simp: watchRunState_step_def turn_reads_def)
  from handled_current [OF this assms(3-6)] show ?thesis .
next
  case (CaseEvents e removed)
  then have "handleWatcherError fs r sw (Some WatchRemoving) w = (None, w', rs)"
    using assms(1,2) by (simp add: watchRunState_step_def turn_reads_def)
  from handled_current [OF this assms(3-6)] show ?thesis .
qed (simp_all add: turn_reads_def)

text \<open>A watch whose last turn read the store shows what it read.\<close>

lemma watch_current:
  assumes "FileStore_Watch fs r st path opts first (ts @ [(True, c, sw)]) = (None, rs)"
    "fs_Abs fs path = Some target" "turn_reads fs (path_dir target) c"
    "\<not> se_before sw" "se_stat sw = StatDirectory" "se_added sw"
    "watchSnapshot fs (se_ctx sw) r (se_disk sw) (se_now sw) (wt_Filter opts) = Inr (ss, at)"
  shows "stream_view None rs = Some ss"
  using assms(1)
proof (cases rule: watch_cases)
  case (running w w1 rs1 w2 rs2)
  note one = told_scan [OF running(4,1)]
  then have ok1: "watch_ok w1" by (simp add: told_def)
  obtain w3 rs3 rs4 where split: "fileStoreWatch_run fs r ts w1 = (None, w3, rs3)"
    "fileStoreWatch_run fs r [(True, c, sw)] w3 = (None, w2, rs4)" "rs2 = rs3 @ rs4"
    using run_append [OF running(2)] by blast
  note two = told_run [OF ok1 split(1)]
  obtain finished x w5 rs5 where last: "watchRunState_step fs r (c, sw) w3 = (finished, x, w5, rs5)"
    by (metis prod.exhaust)
  have "sw_filter w3 = wt_Filter opts" "sw_directory w3 = path_dir target"
    using one two running(6,7) assms(2) by (auto simp: told_def)
  moreover have step: "\<not> finished" "x = None" "w2 = w5" "rs4 = rs5"
    using split(2) last by (auto split: if_splits)
  ultimately have "known_sessions w2 = Some ss"
    using step_current [of fs r c sw w3 w5 rs5] last assms(3-7) by simp
  moreover have "told w w2 rs"
    using told_append [OF one told_run [OF ok1 running(2)]] running(3) by simp
  ultimately show ?thesis using running(5) by (simp add: told_def)
qed simp_all

end
