(* ===== verification/Aht_Broker.thy ===== *)
theory Aht_Broker
  imports Aht_MemoryStore
begin

section \<open>The wire protocol and its client: \<open>pkg/broker\<close>\<close>

text \<open>
  A request is one line of JSON on a connection of its own, a response another; the values of this
  model are the decoded ones. What the transport does to a call is its environment: whether the
  broker accepts the connection, whether the request can be sent, and the frame that comes back.
\<close>

definition ProtocolVersion :: int where
  "ProtocolVersion = 2"

datatype broker_method =
  MethodPing
  | MethodObserve
  | MethodObserveBatch
  | MethodList
  | MethodGet
  | MethodSummary
  | MethodGC
  | MethodSubscribe
  | MethodReset
  | MethodOther string

record request =
  rq_Version :: int
  rq_ID :: string
  rq_Method :: broker_method
  rq_Observation :: "observation option"
  rq_Observations :: "observation list"
  rq_Filter :: session_filter
  rq_SessionID :: string
  rq_DeleteAfter :: duration
  rq_SummaryOptions :: group_by

record wire_error =
  we_Code :: string
  we_Message :: string

text \<open>The results of \<open>GC\<close> and \<open>Reset\<close> are pairs, as in the stores.\<close>

record response =
  rsp_Version :: int
  rsp_ID :: string
  rsp_Type :: string
  rsp_Error :: "wire_error option"
  rsp_Session :: "session option"
  rsp_Sessions :: "session list"
  rsp_Summaries :: "summary list"
  rsp_Snapshot :: "state_snapshot option"
  rsp_GC :: "(nat \<times> nat) option"
  rsp_Reset :: "(int \<times> nat) option"
  rsp_Now :: time

definition newResponse :: "string \<Rightarrow> string \<Rightarrow> response" where
  "newResponse i typ =
     \<lparr>rsp_Version = ProtocolVersion, rsp_ID = i, rsp_Type = typ, rsp_Error = None,
      rsp_Session = None, rsp_Sessions = [], rsp_Summaries = [], rsp_Snapshot = None,
      rsp_GC = None, rsp_Reset = None, rsp_Now = 0\<rparr>"

text \<open>\<open>env\<close> is the value of \<open>AHT_SOCKET\<close>, \<open>default_path\<close> the default path of the store.\<close>

definition SocketPath :: "string \<Rightarrow> string \<Rightarrow> string \<Rightarrow> string" where
  "SocketPath env default_path storePath =
     (if env \<noteq> [] then env
      else path_clean (if storePath = [] then default_path else storePath) @ ''.sock'')"

definition DefaultSocketPath :: "string \<Rightarrow> string \<Rightarrow> string" where
  "DefaultSocketPath env default_path = SocketPath env default_path []"

text \<open>
  An error keeps the sentinels it wraps: that no broker accepted the connection, that a sent request
  has no reply, that a stream lost its transport, that a response is not one, what the broker
  answered, that the context is cancelled, and any other failure of sending.
\<close>

datatype broker_error =
  BrokerUnavailable
  | BrokerNoReply
  | BrokerStreamClosed
  | BrokerProtocol string
  | RemoteError string string
  | BrokerCanceled
  | BrokerSending
  | BrokerGroupBy

definition IsUnavailable :: "broker_error \<Rightarrow> bool" where
  "IsUnavailable e = (e = BrokerUnavailable)"

definition NoReply :: "broker_error \<Rightarrow> bool" where
  "NoReply e = (e = BrokerNoReply)"

definition StreamClosed :: "broker_error \<Rightarrow> bool" where
  "StreamClosed e = (e = BrokerStreamClosed)"

text \<open>The sentinel a code of the broker stands for.\<close>

datatype remote_class = ClassBusy | ClassRegistry reg_error

definition RemoteError_Unwrap :: "string \<Rightarrow> string \<Rightarrow> remote_class option" where
  "RemoteError_Unwrap code msg =
     (if code = ''busy'' then Some ClassBusy
      else if code = ''not_found'' then Some (ClassRegistry ErrSessionNotFound)
      else if code = ''observation_conflict'' then Some (ClassRegistry (ErrObservationConflict msg))
      else if code = ''process_ended'' then Some (ClassRegistry ErrProcessEnded)
      else None)"

definition RemoteError_Error :: "string \<Rightarrow> string \<Rightarrow> string" where
  "RemoteError_Error code msg = (if msg = [] then code else code @ '': '' @ msg)"

subsection \<open>Requests\<close>

definition newRequest :: "broker_method \<Rightarrow> request" where
  "newRequest m =
     \<lparr>rq_Version = 0, rq_ID = [], rq_Method = m, rq_Observation = None, rq_Observations = [],
      rq_Filter = zero_filter, rq_SessionID = [], rq_DeleteAfter = 0, rq_SummaryOptions = ByOther []\<rparr>"

text \<open>The counter of the process is read as incremented; its decimal digits are the identifier.\<close>

definition prepare :: "64 word \<Rightarrow> request \<Rightarrow> request" where
  "prepare next_id q =
     q\<lparr>rq_Version := ProtocolVersion,
       rq_ID := (if rq_ID q = [] then digits (unat next_id) else rq_ID q)\<rparr>"

definition needsSnapshotFiltering :: "session_filter \<Rightarrow> bool" where
  "needsSnapshotFiltering f =
     (f_Project f \<noteq> [] \<or> f_CWD f \<noteq> [] \<or> f_MultiplexerKind f \<noteq> [] \<or> f_MultiplexerServer f \<noteq> []
      \<or> f_MultiplexerPane f \<noteq> [])"

subsection \<open>Responses\<close>

definition connectionBusyResponse :: "response \<Rightarrow> bool" where
  "connectionBusyResponse a =
     (rsp_ID a = [] \<and> rsp_Type a = ''error''
      \<and> (case rsp_Error a of None \<Rightarrow> False | Some e \<Rightarrow> we_Code e = ''busy'' \<and> we_Message e \<noteq> [])
      \<and> rsp_Session a = None \<and> rsp_Sessions a = [] \<and> rsp_Summaries a = [] \<and> rsp_Snapshot a = None
      \<and> rsp_GC a = None \<and> rsp_Reset a = None \<and> rsp_Now a = 0)"

definition remote :: "response \<Rightarrow> broker_error option" where
  "remote a = map_option (\<lambda>e. RemoteError (we_Code e) (we_Message e)) (rsp_Error a)"

definition validateResponse :: "request \<Rightarrow> response \<Rightarrow> broker_error option" where
  "validateResponse q a =
     (if rsp_Version a \<noteq> ProtocolVersion then Some (BrokerProtocol ''version'')
      else if connectionBusyResponse a then remote a
      else if rsp_ID a \<noteq> rq_ID q then Some (BrokerProtocol ''response id'')
      else remote a)"

text \<open>
  What a read brings: a response, a line that is none, a line beyond the limit, or the end of the
  transport. A line without its newline at the end of the transport is such an end.
\<close>

datatype frame = FrameResponse response | FrameMalformed | FrameTooLong | FrameLost

datatype read_error = ReadTransport | ReadProtocol string

definition readResponse :: "frame \<Rightarrow> read_error + response" where
  "readResponse f =
     (case f of
        FrameResponse a \<Rightarrow> Inr a
      | FrameMalformed \<Rightarrow> Inl (ReadProtocol ''decoding response frame'')
      | FrameTooLong \<Rightarrow> Inl (ReadProtocol ''reading response frame'')
      | FrameLost \<Rightarrow> Inl ReadTransport)"

text \<open>
  The environment of one exchange. A transport failure while sending still reads the answer, since
  the broker may have answered a connection it refused.
\<close>

datatype send_result = SendDone | SendTransport | SendFailed

record exchange =
  xc_dialled :: bool
  xc_send :: send_result
  xc_sendCancelled :: bool
  xc_frame :: frame
  xc_readCancelled :: bool

definition roundTrip :: "exchange \<Rightarrow> request \<Rightarrow> broker_error + response" where
  "roundTrip x q =
     (if \<not> xc_dialled x then Inl BrokerUnavailable
      else if xc_send x \<noteq> SendDone \<and> xc_sendCancelled x then Inl BrokerCanceled
      else if xc_send x = SendFailed then Inl BrokerSending
      else case readResponse (xc_frame x) of
        Inl e \<Rightarrow>
          if xc_readCancelled x then Inl BrokerCanceled
          else (case e of ReadTransport \<Rightarrow> Inl BrokerNoReply | ReadProtocol why \<Rightarrow> Inl (BrokerProtocol why))
      | Inr a \<Rightarrow> (case validateResponse q a of Some e \<Rightarrow> Inl e | None \<Rightarrow> Inr a))"

subsection \<open>The operations of the client\<close>

text \<open>
  \<open>x\<close> is what the exchange is like for the request that is sent, \<open>next_id\<close> the counter.
\<close>

type_synonym caller = "request \<Rightarrow> exchange"

definition broker_call :: "caller \<Rightarrow> 64 word \<Rightarrow> request \<Rightarrow> broker_error + response" where
  "broker_call x next_id q = roundTrip (x (prepare next_id q)) (prepare next_id q)"

definition Client_Ping :: "caller \<Rightarrow> 64 word \<Rightarrow> broker_error option" where
  "Client_Ping x i = (case broker_call x i (newRequest MethodPing) of Inl e \<Rightarrow> Some e | Inr _ \<Rightarrow> None)"

definition Client_Observe :: "caller \<Rightarrow> 64 word \<Rightarrow> observation \<Rightarrow> broker_error + session" where
  "Client_Observe x i ob =
     (case broker_call x i ((newRequest MethodObserve)\<lparr>rq_Observation := Some ob\<rparr>) of
        Inl e \<Rightarrow> Inl e
      | Inr a \<Rightarrow>
          (case rsp_Session a of
             None \<Rightarrow> Inl (BrokerProtocol ''observe response omitted session'')
           | Some s \<Rightarrow> Inr s))"

definition Client_ObserveBatch ::
    "caller \<Rightarrow> 64 word \<Rightarrow> observation list \<Rightarrow> broker_error + session list" where
  "Client_ObserveBatch x i obs =
     (case broker_call x i ((newRequest MethodObserveBatch)\<lparr>rq_Observations := obs\<rparr>) of
        Inl e \<Rightarrow> Inl e
      | Inr a \<Rightarrow> Inr (rsp_Sessions a))"

definition Client_List ::
    "file_system \<Rightarrow> caller \<Rightarrow> 64 word \<Rightarrow> session_filter \<Rightarrow> broker_error + session list" where
  "Client_List fs x i f =
     (let f' = NormalizePaths fs f in
      case broker_call x i ((newRequest MethodList)\<lparr>rq_Filter := f'\<rparr>) of
        Inl e \<Rightarrow> Inl e
      | Inr a \<Rightarrow> if rsp_Sessions a = [] then Inr [] else Inr (FilterSessions fs (rsp_Sessions a) f'))"

definition Client_Get :: "caller \<Rightarrow> 64 word \<Rightarrow> string \<Rightarrow> broker_error + session" where
  "Client_Get x i sid =
     (case broker_call x i ((newRequest MethodGet)\<lparr>rq_SessionID := sid\<rparr>) of
        Inl e \<Rightarrow> Inl e
      | Inr a \<Rightarrow>
          (case rsp_Session a of
             None \<Rightarrow> Inl (BrokerProtocol ''get response omitted session'')
           | Some s \<Rightarrow> Inr s))"

definition summarizeLocally ::
    "(string \<Rightarrow> string) \<Rightarrow> file_system \<Rightarrow> caller \<Rightarrow> 64 word \<Rightarrow> session_filter \<Rightarrow> group_by
     \<Rightarrow> broker_error + summary list" where
  "summarizeLocally lower fs x i f g =
     (case Client_List fs x i f of
        Inl e \<Rightarrow> Inl e
      | Inr ss \<Rightarrow> Inr (SummariesWithOptions lower ss g))"

text \<open>The second exchange is the one of a summary computed here after all.\<close>

definition Client_SummaryWithOptions ::
    "(string \<Rightarrow> string) \<Rightarrow> file_system \<Rightarrow> caller \<Rightarrow> caller \<Rightarrow> 64 word \<Rightarrow> session_filter \<Rightarrow> group_by
     \<Rightarrow> broker_error + summary list" where
  "Client_SummaryWithOptions lower fs x x' i f g =
     (if g \<noteq> ByOther [] \<and> \<not> group_valid g then Inl BrokerGroupBy
      else if needsSnapshotFiltering f then summarizeLocally lower fs x i f g
      else case broker_call x i ((newRequest MethodSummary)
                 \<lparr>rq_Filter := NormalizePaths fs f, rq_SummaryOptions := g\<rparr>) of
        Inl e \<Rightarrow> Inl e
      | Inr a \<Rightarrow>
          if list_ex (\<lambda>u. g \<noteq> ByOther [] \<and> g \<noteq> ByMultiplexerSession \<and> u_GroupBy u \<noteq> g) (rsp_Summaries a)
          then summarizeLocally lower fs x' (i + 1) f g
          else Inr (rsp_Summaries a))"

definition Client_GC :: "caller \<Rightarrow> 64 word \<Rightarrow> duration \<Rightarrow> broker_error + nat \<times> nat" where
  "Client_GC x i after =
     (case broker_call x i ((newRequest MethodGC)\<lparr>rq_DeleteAfter := after\<rparr>) of
        Inl e \<Rightarrow> Inl e
      | Inr a \<Rightarrow>
          (case rsp_GC a of
             None \<Rightarrow> Inl (BrokerProtocol ''gc response omitted result'')
           | Some r \<Rightarrow> Inr r))"

definition Client_Reset :: "caller \<Rightarrow> 64 word \<Rightarrow> broker_error + int \<times> nat" where
  "Client_Reset x i =
     (case broker_call x i (newRequest MethodReset) of
        Inl e \<Rightarrow> Inl e
      | Inr a \<Rightarrow>
          (case rsp_Reset a of
             None \<Rightarrow> Inl (BrokerProtocol ''reset response omitted result'')
           | Some r \<Rightarrow> Inr r))"

subsection \<open>Subscriptions\<close>

definition filtered_snapshot :: "file_system \<Rightarrow> session_filter \<Rightarrow> state_snapshot \<Rightarrow> state_snapshot" where
  "filtered_snapshot fs f st = st\<lparr>ss_Sessions := FilterSessions fs (ss_Sessions st) f\<rparr>"

text \<open>The first frame of a subscription.\<close>

definition Client_Subscribe ::
    "file_system \<Rightarrow> caller \<Rightarrow> 64 word \<Rightarrow> session_filter \<Rightarrow> broker_error + request \<times> state_snapshot" where
  "Client_Subscribe fs x i f =
     (let q = prepare i ((newRequest MethodSubscribe)\<lparr>rq_Filter := NormalizePaths fs f\<rparr>) in
      case roundTrip (x q) q of
        Inl e \<Rightarrow> Inl (if e = BrokerNoReply then BrokerStreamClosed else e)
      | Inr a \<Rightarrow>
          (case rsp_Snapshot a of
             None \<Rightarrow> Inl (BrokerProtocol ''subscribe response omitted snapshot'')
           | Some st \<Rightarrow> Inr (q, filtered_snapshot fs (rq_Filter q) st)))"

text \<open>
  The reader of the stream: the frames with whether the context is cancelled when they arrive. The
  snapshots that are delivered, and the error that ends the stream; \<open>None\<close> for a stream that goes on
  or was cancelled.
\<close>

fun runSubscription ::
    "file_system \<Rightarrow> request \<Rightarrow> (frame \<times> bool) list \<Rightarrow> state_snapshot list \<times> broker_error option" where
  "runSubscription fs q [] = ([], None)"
| "runSubscription fs q ((f, cancelled) # rest) =
     (case readResponse f of
        Inl e \<Rightarrow>
          ([], if cancelled then None
               else Some (case e of ReadTransport \<Rightarrow> BrokerStreamClosed | ReadProtocol why \<Rightarrow> BrokerProtocol why))
      | Inr a \<Rightarrow>
          (case validateResponse q a of
             Some e \<Rightarrow> ([], Some e)
           | None \<Rightarrow>
               (case (if rsp_Type a = ''heartbeat'' then None else rsp_Snapshot a) of
                  None \<Rightarrow> runSubscription fs q rest
                | Some st \<Rightarrow>
                    if cancelled then ([], None)
                    else (let (ss, e) = runSubscription fs q rest
                          in (filtered_snapshot fs (rq_Filter q) st # ss, e)))))"

end
