(* ===== verification/Aht_BrokerServer.thy ===== *)
theory Aht_BrokerServer
  imports Aht_Broker
begin

section \<open>The broker: \<open>internal/brokerserver/server.go\<close>\<close>

text \<open>
  The server answers one request per connection from the memory store it owns. The mutex of the
  store makes every operation atomic, so the state of the model is the store with its disk, and
  the connections are independent of each other but for the number of them.
\<close>

definition maxBatchObservations :: nat where
  "maxBatchObservations = 4096"

definition defaultMaxConnections :: int where
  "defaultMaxConnections = 256"

definition writeTimeout :: duration where
  "writeTimeout = 2 * second"

record server =
  sv_maxConnections :: int
  sv_writeTimeout :: duration

definition New_server :: "int \<Rightarrow> duration \<Rightarrow> server" where
  "New_server maxConnections wt =
     \<lparr>sv_maxConnections = (if maxConnections \<le> 0 then defaultMaxConnections else maxConnections),
      sv_writeTimeout = (if wt \<le> 0 then writeTimeout else wt)\<rparr>"

subsection \<open>Reads of the memory store the server makes\<close>

definition MemoryStore_List ::
    "bool \<Rightarrow> file_system \<Rightarrow> mem_env \<Rightarrow> reducer \<Rightarrow> memory_store \<Rightarrow> disk \<Rightarrow> session_filter
     \<Rightarrow> (reg_error + session list) \<times> memory_store \<times> disk" where
  "MemoryStore_List cancelled fs env r s d f =
     (case MemoryStore_State cancelled fs env r s d f of
        (Inl e, s', d') \<Rightarrow> (Inl e, s', d')
      | (Inr st, s', d') \<Rightarrow> (Inr (ss_Sessions st), s', d'))"

definition MemoryStore_SummaryWithOptions ::
    "(string \<Rightarrow> string) \<Rightarrow> bool \<Rightarrow> file_system \<Rightarrow> mem_env \<Rightarrow> reducer \<Rightarrow> memory_store \<Rightarrow> disk
     \<Rightarrow> session_filter \<Rightarrow> group_by \<Rightarrow> (reg_error + summary list) \<times> memory_store \<times> disk" where
  "MemoryStore_SummaryWithOptions lower cancelled fs env r s d f g =
     (if g \<noteq> ByOther [] \<and> \<not> group_valid g then (Inl ErrUnsupportedGroupBy, s, d)
      else case MemoryStore_List cancelled fs env r s d f of
        (Inl e, s', d') \<Rightarrow> (Inl e, s', d')
      | (Inr ss, s', d') \<Rightarrow> (Inr (SummariesWithOptions lower ss g), s', d'))"

subsection \<open>Requests\<close>

datatype request_error =
  ErrProtocolVersion int
  | ErrRequestIDRequired
  | ErrUnknownMethod string
  | ErrObservationRequired
  | ErrBatchRequired
  | ErrBatchTooLarge
  | ErrSessionIDRequired

definition validateRequest :: "request \<Rightarrow> request_error option" where
  "validateRequest q =
     (if rq_Version q \<noteq> ProtocolVersion then Some (ErrProtocolVersion (rq_Version q))
      else if rq_ID q = [] then Some ErrRequestIDRequired
      else case rq_Method q of
        MethodOther m \<Rightarrow> Some (ErrUnknownMethod m)
      | _ \<Rightarrow>
          if rq_Method q = MethodObserve \<and> rq_Observation q = None then Some ErrObservationRequired
          else if rq_Method q = MethodObserveBatch \<and> rq_Observations q = [] then Some ErrBatchRequired
          else if rq_Method q = MethodObserveBatch
                  \<and> length (rq_Observations q) > maxBatchObservations then Some ErrBatchTooLarge
          else if rq_Method q = MethodGet \<and> rq_SessionID q = [] then Some ErrSessionIDRequired
          else None)"

subsection \<open>Responses\<close>

definition errorResponse :: "string \<Rightarrow> string \<Rightarrow> string \<Rightarrow> response" where
  "errorResponse i code msg =
     (newResponse i ''error'')\<lparr>rsp_Error := Some \<lparr>we_Code = code, we_Message = msg\<rparr>\<rparr>"

definition operation_code :: "reg_error \<Rightarrow> string" where
  "operation_code e =
     (case e of
        ErrSessionNotFound \<Rightarrow> ''not_found''
      | ErrObservationConflict _ \<Rightarrow> ''observation_conflict''
      | ErrProcessEnded \<Rightarrow> ''process_ended''
      | ErrContext \<Rightarrow> ''canceled''
      | _ \<Rightarrow> ''operation_failed'')"

text \<open>\<open>text_of\<close> is the text of an error.\<close>

definition operationErrorResponse :: "(reg_error \<Rightarrow> string) \<Rightarrow> string \<Rightarrow> reg_error \<Rightarrow> response" where
  "operationErrorResponse text_of i e = errorResponse i (operation_code e) (text_of e)"

definition snapshotResponse :: "string \<Rightarrow> state_snapshot \<Rightarrow> response" where
  "snapshotResponse i st = (newResponse i ''snapshot'')\<lparr>rsp_Snapshot := Some st\<rparr>"

text \<open>
  What a write does: \<open>len\<close> is the length of the encoded response, which is replaced by an error when
  it exceeds the limit of a frame. The encoding and the deadline succeed; whether the bytes are
  written is the environment.
\<close>

definition MaxResponseBytes :: int where
  "MaxResponseBytes = 64 * 1048576"

definition written_response :: "(response \<Rightarrow> int) \<Rightarrow> response \<Rightarrow> response" where
  "written_response len a =
     (if len a \<ge> MaxResponseBytes
      then errorResponse (rsp_ID a) ''response_too_large'' ''broker response exceeds frame limit''
      else a)"

subsection \<open>Executing a request\<close>

text \<open>
  The parameters a server has throughout, and what one operation meets: whether its context is
  cancelled before it, the environment of the store for the operation and for the flush of a reset,
  whether the slot of that flush is obtained, and the clock.
\<close>

record server_params =
  sp_fs :: file_system
  sp_lower :: "string \<Rightarrow> string"
  sp_json :: json_valid
  sp_reducer :: reducer
  sp_text :: "reg_error \<Rightarrow> string"
  sp_size :: "response \<Rightarrow> int"

record operation_env =
  oe_cancelled :: bool
  oe_env :: mem_env
  oe_flush :: mem_env
  oe_slot :: bool
  oe_now :: time

definition answered ::
    "server_params \<Rightarrow> string \<Rightarrow> ('a \<Rightarrow> response \<Rightarrow> response) \<Rightarrow> (reg_error + 'a) \<times> memory_store \<times> disk
     \<Rightarrow> response \<times> memory_store \<times> disk" where
  "answered p i put out =
     (case out of
        (Inl e, s, d) \<Rightarrow> (operationErrorResponse (sp_text p) i e, s, d)
      | (Inr a, s, d) \<Rightarrow> (put a (newResponse i ''result''), s, d))"

text \<open>A nil observation is dereferenced only where the request was not validated.\<close>

definition execute ::
    "server_params \<Rightarrow> operation_env \<Rightarrow> request \<Rightarrow> memory_store \<Rightarrow> disk
     \<Rightarrow> response \<times> memory_store \<times> disk" where
  "execute p oe q s d =
     (let i = rq_ID q; r = sp_reducer p; env = oe_env oe; cancelled = oe_cancelled oe in
      case rq_Method q of
        MethodPing \<Rightarrow> ((newResponse i ''result'')\<lparr>rsp_Now := oe_now oe\<rparr>, s, d)
      | MethodObserve \<Rightarrow>
          (case rq_Observation q of
             None \<Rightarrow> (operationErrorResponse (sp_text p) i ErrNilDereference, s, d)
           | Some ob \<Rightarrow>
               answered p i (\<lambda>x a. a\<lparr>rsp_Session := Some x\<rparr>)
                 (MemoryStore_Observe (sp_json p) env r s d ob))
      | MethodObserveBatch \<Rightarrow>
          answered p i (\<lambda>xs a. a\<lparr>rsp_Sessions := xs\<rparr>)
            (MemoryStore_ObserveBatch (sp_json p) env r s d (rq_Observations q))
      | MethodList \<Rightarrow>
          answered p i (\<lambda>xs a. a\<lparr>rsp_Sessions := xs\<rparr>)
            (MemoryStore_List cancelled (sp_fs p) env r s d (rq_Filter q))
      | MethodGet \<Rightarrow>
          answered p i (\<lambda>x a. a\<lparr>rsp_Session := Some x\<rparr>)
            (MemoryStore_Get cancelled env r s d (rq_SessionID q))
      | MethodSummary \<Rightarrow>
          (let g = (if rq_SummaryOptions q = ByOther [] then ByMultiplexerSession
                    else rq_SummaryOptions q)
           in answered p i (\<lambda>us a. a\<lparr>rsp_Summaries := us\<rparr>)
                (MemoryStore_SummaryWithOptions (sp_lower p) cancelled (sp_fs p) env r s d
                   (rq_Filter q) g))
      | MethodGC \<Rightarrow>
          answered p i (\<lambda>x a. a\<lparr>rsp_GC := Some x\<rparr>)
            (MemoryStore_GC (sp_json p) env r s d (rq_DeleteAfter q))
      | MethodReset \<Rightarrow>
          answered p i (\<lambda>x a. a\<lparr>rsp_Reset := Some x\<rparr>)
            (MemoryStore_Reset (oe_slot oe) (sp_json p) env (oe_flush oe) r s d)
      | _ \<Rightarrow> (newResponse i ''result'', s, d))"

text \<open>
  What arrives on a connection: nothing in time or beyond the limit, a line that is no request with
  the identifier that was decoded from it, or a request.
\<close>

datatype incoming = NoRequest | BadRequest string string | Incoming request

subsection \<open>Subscriptions\<close>

text \<open>
  A turn of the stream: what the other operations have made of the store meanwhile, the environment
  of the drain, whether the connection is given up, whether the heartbeat is due before a newer
  revision, the clock, and whether the frame can be written.
\<close>

record stream_turn =
  tr_meanwhile :: "memory_store \<times> disk \<Rightarrow> memory_store \<times> disk"
  tr_env :: mem_env
  tr_given_up :: bool
  tr_due :: bool
  tr_now :: time
  tr_written :: bool

text \<open>
  The frames of the loop after the first snapshot, and the store. A wait without an answer goes on
  with the next turn; a wait that is cancelled while the connection is not is the heartbeat.
\<close>

fun stream_turns ::
    "server_params \<Rightarrow> request \<Rightarrow> 64 word \<Rightarrow> stream_turn list \<Rightarrow> memory_store \<Rightarrow> disk
     \<Rightarrow> response list \<times> memory_store \<times> disk" where
  "stream_turns p q revision [] s d = ([], s, d)"
| "stream_turns p q revision (t # ts) s0 d0 =
     (let (s1, d1) = tr_meanwhile t (s0, d0);
          (answer, s, d) =
            wait_turn (tr_given_up t \<or> tr_due t) (sp_fs p) (tr_env t) (sp_reducer p) revision
              (rq_Filter q) s1 d1;
          send = (\<lambda>a go. let (frames, s', d') = (if tr_written t then go else ([], s, d))
                         in ((if tr_written t then [written_response (sp_size p) a] else []) @ frames,
                             s', d'))
      in case answer of
           None \<Rightarrow> stream_turns p q revision ts s d
         | Some (Inl e) \<Rightarrow>
             if tr_given_up t then ([], s, d)
             else if e = ErrContext
             then send ((newResponse (rq_ID q) ''heartbeat'')\<lparr>rsp_Now := tr_now t\<rparr>)
                    (stream_turns p q revision ts s d)
             else send (operationErrorResponse (sp_text p) (rq_ID q) e) ([], s, d)
         | Some (Inr st) \<Rightarrow>
             send (snapshotResponse (rq_ID q) st) (stream_turns p q (ss_Revision st) ts s d))"

definition serveSubscription ::
    "server_params \<Rightarrow> operation_env \<Rightarrow> bool \<Rightarrow> request \<Rightarrow> stream_turn list \<Rightarrow> memory_store \<Rightarrow> disk
     \<Rightarrow> response list \<times> memory_store \<times> disk" where
  "serveSubscription p oe first_written q ts s d =
     (case MemoryStore_State (oe_cancelled oe) (sp_fs p) (oe_env oe) (sp_reducer p) s d (rq_Filter q) of
        (Inl e, s', d') \<Rightarrow>
          ((if first_written
            then [written_response (sp_size p) (operationErrorResponse (sp_text p) (rq_ID q) e)]
            else []), s', d')
      | (Inr st, s', d') \<Rightarrow>
          if \<not> first_written then ([], s', d')
          else (let (frames, s2, d2) = stream_turns p q (ss_Revision st) ts s' d'
                in (written_response (sp_size p) (snapshotResponse (rq_ID q) st) # frames, s2, d2)))"

subsection \<open>A connection\<close>

text \<open>
  \<open>handleConnection\<close>: the responses that are written. The deadlines of the connection can be set;
  \<open>invalid\<close> is the text of a request error, and the last arguments are the turns of a subscription.
\<close>

definition handleConnection ::
    "server_params \<Rightarrow> (request_error \<Rightarrow> string) \<Rightarrow> operation_env \<Rightarrow> incoming \<Rightarrow> bool
     \<Rightarrow> stream_turn list \<Rightarrow> memory_store \<Rightarrow> disk \<Rightarrow> response list \<times> memory_store \<times> disk" where
  "handleConnection p invalid oe c written ts s d =
     (case c of
        NoRequest \<Rightarrow> ([], s, d)
      | BadRequest i why \<Rightarrow>
          ((if written then [written_response (sp_size p) (errorResponse i ''invalid_json'' why)] else []),
           s, d)
      | Incoming q \<Rightarrow>
          (case validateRequest q of
             Some e \<Rightarrow>
               ((if written
                 then [written_response (sp_size p) (errorResponse (rq_ID q) ''invalid_request'' (invalid e))]
                 else []), s, d)
           | None \<Rightarrow>
               if rq_Method q = MethodSubscribe then serveSubscription p oe written q ts s d
               else (case execute p oe q s d of
                       (a, s', d') \<Rightarrow>
                         ((if written then [written_response (sp_size p) a] else []), s', d'))))"

subsection \<open>The accept loop\<close>

text \<open>
  The semaphore holds a token for each connection that is handled. A connection that finds it full
  is answered that the broker is busy.
\<close>

datatype accept_event = Accepted | ConnectionDone | AcceptFailed | ListenerClosed

datatype accept_state = Serving int | Stopped | StoppedWithError

inductive accept_step :: "server \<Rightarrow> accept_state \<Rightarrow> accept_event \<Rightarrow> response list \<Rightarrow> accept_state \<Rightarrow> bool"
  for sv where
  accept_handled: "n < sv_maxConnections sv \<Longrightarrow>
    accept_step sv (Serving n) Accepted [] (Serving (n + 1))"
| accept_busy: "n \<ge> sv_maxConnections sv \<Longrightarrow>
    accept_step sv (Serving n) Accepted [errorResponse [] ''busy'' ''aht broker busy''] (Serving n)"
| accept_done: "n > 0 \<Longrightarrow> accept_step sv (Serving n) ConnectionDone [] (Serving (n - 1))"
| accept_closed: "accept_step sv (Serving n) ListenerClosed [] Stopped"
| accept_failed: "accept_step sv (Serving n) AcceptFailed [] StoppedWithError"

inductive_cases accept_stepE: "accept_step sv st ev out st'"

inductive accept_run :: "server \<Rightarrow> accept_state \<Rightarrow> accept_event list \<Rightarrow> response list \<Rightarrow> accept_state \<Rightarrow> bool"
  for sv where
  accept_stop: "accept_run sv st [] [] st"
| accept_more: "accept_step sv st ev out st' \<Longrightarrow> accept_run sv st' evs outs st'' \<Longrightarrow>
    accept_run sv st (ev # evs) (out @ outs) st''"

end
