(* ===== verification/Aht_Routing.thy ===== *)
theory Aht_Routing
  imports Aht_BrokerServer Aht_Wait
begin

section \<open>Routing of calls: \<open>pkg/broker/store.go\<close>, \<open>pkg/client/client.go\<close>\<close>

text \<open>
  A client sends an operation to the broker, to the files, or to the broker and, where that is
  not to be had, to the files. An operation of the files is one on the disk; the environment of one
  is the record \<open>fallback_env\<close>.
\<close>

record fallback_env =
  fb_fs :: file_system
  fb_lower :: "string \<Rightarrow> string"
  fb_reducer :: reducer
  fb_ctx :: call_ctx
  fb_io :: io
  fb_owner :: owner_lock
  fb_now :: time
  fb_cancelled :: bool
  fb_locked :: bool

subsection \<open>The operations of the files\<close>

text \<open>\<open>transact\<close>: the directory can be made; \<open>fb_locked\<close> says whether the store lock is obtained.\<close>

definition Journal_transact ::
    "fallback_env \<Rightarrow> disk \<Rightarrow> journal_entry \<Rightarrow> (reg_error + journal_result) \<times> disk" where
  "Journal_transact fe d e =
     (if \<not> fb_locked fe then (Inl (ErrStorage ''store lock''), d)
      else transactLocked (fb_ctx fe) (fb_reducer fe) (fb_io fe) (fb_owner fe) d e)"

definition fallback_Observe ::
    "fallback_env \<Rightarrow> disk \<Rightarrow> observation \<Rightarrow> (reg_error + session) \<times> disk" where
  "fallback_Observe fe d ob =
     (if \<not> fb_locked fe then (Inl (ErrStorage ''store lock''), d)
      else Journal_Observe (fb_ctx fe) (fb_reducer fe) (fb_io fe) (fb_owner fe) d (fb_now fe) ob)"

definition Journal_Append ::
    "fallback_env \<Rightarrow> disk \<Rightarrow> observation list \<Rightarrow> (reg_error + session list) \<times> disk" where
  "Journal_Append fe d obs =
     (case Journal_transact fe d (observe_entry (fb_now fe) obs) of
        (Inl e, d') \<Rightarrow> (Inl e, d')
      | (Inr res, d') \<Rightarrow> (Inr (jr_sessions res), d'))"

definition Journal_GC :: "fallback_env \<Rightarrow> disk \<Rightarrow> duration \<Rightarrow> (reg_error + nat \<times> nat) \<times> disk" where
  "Journal_GC fe d after =
     (case Journal_transact fe d (gc_entry (fb_now fe) after) of
        (Inl e, d') \<Rightarrow> (Inl e, d')
      | (Inr res, d') \<Rightarrow> (Inr (jr_deleted res, jr_remaining res), d'))"

definition Journal_Reset :: "fallback_env \<Rightarrow> disk \<Rightarrow> (reg_error + int \<times> nat) \<times> disk" where
  "Journal_Reset fe d =
     (case Journal_transact fe d
             \<lparr>je_Sequence = 0, je_ReceivedAt = fb_now fe, je_Observations = [], je_DeleteAfter = None,
              je_Reset = True\<rparr> of
        (Inl e, d') \<Rightarrow> (Inl e, d')
      | (Inr res, d') \<Rightarrow> (Inr (jr_cleared res, jr_reset_remaining res), d'))"

definition FileStore_List :: "fallback_env \<Rightarrow> disk \<Rightarrow> session_filter \<Rightarrow> reg_error + session list" where
  "FileStore_List fe d f =
     (if fb_cancelled fe then Inl ErrContext
      else case watchSnapshot (fb_fs fe) (cx_fold (fb_ctx fe)) (fb_reducer fe) d (fb_now fe) f of
        Inl e \<Rightarrow> Inl e
      | Inr (ss, _) \<Rightarrow> Inr ss)"

definition fallback_Get :: "fallback_env \<Rightarrow> disk \<Rightarrow> string \<Rightarrow> reg_error + session" where
  "fallback_Get fe d sid =
     (if fb_cancelled fe then Inl ErrContext
      else FileStore_Get (cx_fold (fb_ctx fe)) (fb_reducer fe) d (fb_now fe) sid)"

definition fallback_Summary ::
    "fallback_env \<Rightarrow> disk \<Rightarrow> session_filter \<Rightarrow> group_by \<Rightarrow> reg_error + summary list" where
  "fallback_Summary fe d f g =
     (if fb_cancelled fe then Inl ErrContext
      else SummaryWithOptions (fb_lower fe) (fb_fs fe) (cx_fold (fb_ctx fe)) (fb_reducer fe) d
        (fb_now fe) f g)"

subsection \<open>The store that falls back: \<open>store.go\<close>\<close>

datatype store_error = FromBroker broker_error | FromFiles reg_error

definition from_files :: "(reg_error + 'a) \<times> disk \<Rightarrow> (store_error + 'a) \<times> disk" where
  "from_files out = (case out of (Inl e, d) \<Rightarrow> (Inl (FromFiles e), d) | (Inr a, d) \<Rightarrow> (Inr a, d))"

definition from_broker :: "broker_error + 'a \<Rightarrow> disk \<Rightarrow> (store_error + 'a) \<times> disk" where
  "from_broker out d = (case out of Inl e \<Rightarrow> (Inl (FromBroker e), d) | Inr a \<Rightarrow> (Inr a, d))"

text \<open>
  What the broker answered and the disk as the call left it, and the operation of the files. Only
  an observation is tried again when a sent request has no reply.
\<close>

definition or_observed ::
    "broker_error + 'a \<Rightarrow> disk \<Rightarrow> (reg_error + 'a) \<times> disk \<Rightarrow> (store_error + 'a) \<times> disk" where
  "or_observed out d fallback =
     (case out of
        Inl e \<Rightarrow> if \<not> IsUnavailable e \<and> \<not> NoReply e then from_broker out d else from_files fallback
      | Inr a \<Rightarrow> from_broker out d)"

definition or_offline ::
    "broker_error + 'a \<Rightarrow> disk \<Rightarrow> (reg_error + 'a) \<times> disk \<Rightarrow> (store_error + 'a) \<times> disk" where
  "or_offline out d fallback =
     (case out of
        Inl e \<Rightarrow> if \<not> IsUnavailable e then from_broker out d else from_files fallback
      | Inr a \<Rightarrow> from_broker out d)"

definition Store_Observe ::
    "caller \<Rightarrow> 64 word \<Rightarrow> fallback_env \<Rightarrow> disk \<Rightarrow> observation \<Rightarrow> (store_error + session) \<times> disk" where
  "Store_Observe x i fe d ob = or_observed (Client_Observe x i ob) d (fallback_Observe fe d ob)"

definition Store_ObserveBatch ::
    "caller \<Rightarrow> 64 word \<Rightarrow> fallback_env \<Rightarrow> disk \<Rightarrow> observation list
     \<Rightarrow> (store_error + session list) \<times> disk" where
  "Store_ObserveBatch x i fe d obs = or_observed (Client_ObserveBatch x i obs) d (Journal_Append fe d obs)"

definition Store_List ::
    "caller \<Rightarrow> 64 word \<Rightarrow> fallback_env \<Rightarrow> disk \<Rightarrow> session_filter \<Rightarrow> (store_error + session list) \<times> disk" where
  "Store_List x i fe d f = or_offline (Client_List (fb_fs fe) x i f) d (FileStore_List fe d f, d)"

definition Store_Get ::
    "caller \<Rightarrow> 64 word \<Rightarrow> fallback_env \<Rightarrow> disk \<Rightarrow> string \<Rightarrow> (store_error + session) \<times> disk" where
  "Store_Get x i fe d sid = or_offline (Client_Get x i sid) d (fallback_Get fe d sid, d)"

definition Store_SummaryWithOptions ::
    "caller \<Rightarrow> caller \<Rightarrow> 64 word \<Rightarrow> fallback_env \<Rightarrow> disk \<Rightarrow> session_filter \<Rightarrow> group_by
     \<Rightarrow> (store_error + summary list) \<times> disk" where
  "Store_SummaryWithOptions x x' i fe d f g =
     or_offline (Client_SummaryWithOptions (fb_lower fe) (fb_fs fe) x x' i f g) d
       (fallback_Summary fe d f g, d)"

definition Store_GC ::
    "caller \<Rightarrow> 64 word \<Rightarrow> fallback_env \<Rightarrow> disk \<Rightarrow> duration \<Rightarrow> (store_error + nat \<times> nat) \<times> disk" where
  "Store_GC x i fe d after = or_offline (Client_GC x i after) d (Journal_GC fe d after)"

definition Store_Reset ::
    "caller \<Rightarrow> 64 word \<Rightarrow> fallback_env \<Rightarrow> disk \<Rightarrow> (store_error + int \<times> nat) \<times> disk" where
  "Store_Reset x i fe d = or_offline (Client_Reset x i) d (Journal_Reset fe d)"

subsection \<open>The client: \<open>client.go\<close>\<close>

record client_config =
  cc_StorePath :: string
  cc_SocketPath :: string
  cc_Mode :: client_mode

text \<open>\<open>OperationError\<close> keeps what the broker answered; other errors are passed on.\<close>

datatype public_error =
  PublicUnavailable
  | PublicProtocol string
  | OperationError string string
  | PublicOther store_error
  | ErrInvalidMode string
  | ErrRealtimeRequired
  | ErrHandlerRequired
  | ErrHandling

definition publicError :: "store_error \<Rightarrow> public_error" where
  "publicError e =
     (case e of
        FromBroker BrokerUnavailable \<Rightarrow> PublicUnavailable
      | FromBroker (BrokerProtocol why) \<Rightarrow> PublicProtocol why
      | FromBroker (RemoteError code msg) \<Rightarrow> OperationError code msg
      | _ \<Rightarrow> PublicOther e)"

text \<open>\<open>New\<close>: the mode, the path of the store and the socket of a configuration.\<close>

definition New_client :: "string \<Rightarrow> string \<Rightarrow> client_config \<Rightarrow> client_config" where
  "New_client env default_path c =
     (let storePath = (if cc_StorePath c = [] then default_path else cc_StorePath c) in
      \<lparr>cc_StorePath = storePath,
       cc_SocketPath =
         (if cc_SocketPath c = [] then SocketPath env default_path storePath else cc_SocketPath c),
       cc_Mode = (if cc_Mode c = ModeOther [] then ModeAuto else cc_Mode c)\<rparr>)"

definition public_result :: "(store_error + 'a) \<times> disk \<Rightarrow> (public_error + 'a) \<times> disk" where
  "public_result out = (case out of (Inl e, d) \<Rightarrow> (Inl (publicError e), d) | (Inr a, d) \<Rightarrow> (Inr a, d))"

text \<open>The three stores a mode chooses from.\<close>

definition routed ::
    "client_mode \<Rightarrow> disk \<Rightarrow> (store_error + 'a) \<times> disk \<Rightarrow> broker_error + 'a \<Rightarrow> (reg_error + 'a) \<times> disk
     \<Rightarrow> (public_error + 'a) \<times> disk" where
  "routed m d auto realtime durable =
     (case m of
        ModeAuto \<Rightarrow> public_result auto
      | ModeRealtimeOnly \<Rightarrow> public_result (from_broker realtime d)
      | ModeDurableOnly \<Rightarrow> public_result (from_files durable)
      | ModeOther w \<Rightarrow> (Inl (ErrInvalidMode w), d))"

definition public_Observe ::
    "client_mode \<Rightarrow> caller \<Rightarrow> 64 word \<Rightarrow> fallback_env \<Rightarrow> disk \<Rightarrow> observation \<Rightarrow> (public_error + session) \<times> disk" where
  "public_Observe m x i fe d ob =
     routed m d (Store_Observe x i fe d ob) (Client_Observe x i ob) (fallback_Observe fe d ob)"

definition public_ObserveBatch ::
    "client_mode \<Rightarrow> caller \<Rightarrow> 64 word \<Rightarrow> fallback_env \<Rightarrow> disk \<Rightarrow> observation list
     \<Rightarrow> (public_error + session list) \<times> disk" where
  "public_ObserveBatch m x i fe d obs =
     routed m d (Store_ObserveBatch x i fe d obs) (Client_ObserveBatch x i obs) (Journal_Append fe d obs)"

definition public_List ::
    "client_mode \<Rightarrow> caller \<Rightarrow> 64 word \<Rightarrow> fallback_env \<Rightarrow> disk \<Rightarrow> session_filter
     \<Rightarrow> (public_error + session list) \<times> disk" where
  "public_List m x i fe d f =
     (case routed m d (Store_List x i fe d f) (Client_List (fb_fs fe) x i f) (FileStore_List fe d f, d) of
        (Inl e, d') \<Rightarrow> (Inl e, d')
      | (Inr ss, d') \<Rightarrow> (Inr (FilterSessions (fb_fs fe) ss f), d'))"

definition public_Get ::
    "client_mode \<Rightarrow> caller \<Rightarrow> 64 word \<Rightarrow> fallback_env \<Rightarrow> disk \<Rightarrow> string \<Rightarrow> (public_error + session) \<times> disk" where
  "public_Get m x i fe d sid =
     routed m d (Store_Get x i fe d sid) (Client_Get x i sid) (fallback_Get fe d sid, d)"

definition public_SummaryWithOptions ::
    "client_mode \<Rightarrow> caller \<Rightarrow> caller \<Rightarrow> 64 word \<Rightarrow> fallback_env \<Rightarrow> disk \<Rightarrow> session_filter \<Rightarrow> group_by
     \<Rightarrow> (public_error + summary list) \<times> disk" where
  "public_SummaryWithOptions m x x' i fe d f g =
     routed m d (Store_SummaryWithOptions x x' i fe d f g)
       (Client_SummaryWithOptions (fb_lower fe) (fb_fs fe) x x' i f g) (fallback_Summary fe d f g, d)"

definition public_GC ::
    "client_mode \<Rightarrow> caller \<Rightarrow> 64 word \<Rightarrow> fallback_env \<Rightarrow> disk \<Rightarrow> duration \<Rightarrow> (public_error + nat \<times> nat) \<times> disk" where
  "public_GC m x i fe d after =
     routed m d (Store_GC x i fe d after) (Client_GC x i after) (Journal_GC fe d after)"

definition public_Reset ::
    "client_mode \<Rightarrow> caller \<Rightarrow> 64 word \<Rightarrow> fallback_env \<Rightarrow> disk \<Rightarrow> (public_error + int \<times> nat) \<times> disk" where
  "public_Reset m x i fe d = routed m d (Store_Reset x i fe d) (Client_Reset x i) (Journal_Reset fe d)"

definition public_Ping :: "client_mode \<Rightarrow> caller \<Rightarrow> 64 word \<Rightarrow> public_error option" where
  "public_Ping m x i =
     (case m of
        ModeOther w \<Rightarrow> Some (ErrInvalidMode w)
      | _ \<Rightarrow> map_option (\<lambda>e. publicError (FromBroker e)) (Client_Ping x i))"

definition public_Subscribe ::
    "client_mode \<Rightarrow> file_system \<Rightarrow> caller \<Rightarrow> 64 word \<Rightarrow> session_filter
     \<Rightarrow> public_error + request \<times> state_snapshot" where
  "public_Subscribe m fs x i f =
     (case m of
        ModeOther w \<Rightarrow> Inl (ErrInvalidMode w)
      | ModeDurableOnly \<Rightarrow> Inl ErrRealtimeRequired
      | _ \<Rightarrow> (case Client_Subscribe fs x i f of Inl e \<Rightarrow> Inl (publicError (FromBroker e)) | Inr a \<Rightarrow> Inr a))"

text \<open>
  The turns of \<open>watchSnapshots\<close>: what its \<open>select\<close> takes. A channel that is closed is not taken
  again; the watch ends when both are. The snapshots that were handled, and how it ended.
\<close>

datatype subscription_turn =
  TurnCancelled
  | TurnSnapshot state_snapshot bool
  | TurnSnapshotsClosed
  | TurnError "broker_error option"
  | TurnErrorsClosed

fun watchSnapshots ::
    "bool \<Rightarrow> bool \<Rightarrow> bool \<Rightarrow> subscription_turn list
     \<Rightarrow> state_snapshot list \<times> public_error option option" where
  "watchSnapshots cancelled snapshots errors [] =
     (if \<not> snapshots \<and> \<not> errors
      then ([], Some (if cancelled then None else Some (PublicOther (FromBroker BrokerStreamClosed))))
      else ([], None))"
| "watchSnapshots cancelled snapshots errors (t # ts) =
     (if \<not> snapshots \<and> \<not> errors
      then ([], Some (if cancelled then None else Some (PublicOther (FromBroker BrokerStreamClosed))))
      else case t of
        TurnCancelled \<Rightarrow> ([], Some None)
      | TurnSnapshot st handled \<Rightarrow>
          if \<not> snapshots then watchSnapshots cancelled snapshots errors ts
          else if \<not> handled then ([st], Some (Some ErrHandling))
          else (let (sts, res) = watchSnapshots cancelled snapshots errors ts in (st # sts, res))
      | TurnSnapshotsClosed \<Rightarrow> watchSnapshots cancelled False errors ts
      | TurnError e \<Rightarrow>
          if \<not> errors then watchSnapshots cancelled snapshots errors ts
          else (case e of
                  None \<Rightarrow> watchSnapshots cancelled snapshots errors ts
                | Some err \<Rightarrow> ([], Some (Some (publicError (FromBroker err)))))
      | TurnErrorsClosed \<Rightarrow> watchSnapshots cancelled snapshots False ts)"

definition public_Watch ::
    "client_mode \<Rightarrow> bool \<Rightarrow> file_system \<Rightarrow> caller \<Rightarrow> 64 word \<Rightarrow> session_filter \<Rightarrow> bool \<Rightarrow> subscription_turn list
     \<Rightarrow> state_snapshot list \<times> public_error option option" where
  "public_Watch m handler fs x i f cancelled ts =
     (case m of
        ModeOther w \<Rightarrow> ([], Some (Some (ErrInvalidMode w)))
      | _ \<Rightarrow>
          if \<not> handler then ([], Some (Some ErrHandlerRequired))
          else (case public_Subscribe m fs x i f of
                  Inl e \<Rightarrow> ([], Some (Some e))
                | Inr _ \<Rightarrow> watchSnapshots cancelled True True ts))"

end
