(* ===== verification/Aht_RoutingFacts.thy ===== *)
theory Aht_RoutingFacts
  imports Aht_Routing
begin

section \<open>A call through the broker\<close>

text \<open>
  The client and the server are composed here, and a call is compared with the operation of the store
  it stands for.
\<close>

definition busy_response :: response where
  "busy_response = errorResponse [] ''busy'' ''aht broker busy''"

definition replied :: "frame \<Rightarrow> exchange" where
  "replied f = \<lparr>xc_dialled = True, xc_send = SendDone, xc_sendCancelled = False, xc_frame = f,
                xc_readCancelled = False\<rparr>"

definition served ::
    "server_params \<Rightarrow> (request_error \<Rightarrow> string) \<Rightarrow> operation_env \<Rightarrow> request \<Rightarrow> memory_store \<Rightarrow> disk
     \<Rightarrow> frame \<times> memory_store \<times> disk" where
  "served p invalid oe q s d =
     (case handleConnection p invalid oe (Incoming q) True [] s d of
        (a # _, s', d') \<Rightarrow> (FrameResponse a, s', d')
      | ([], s', d') \<Rightarrow> (FrameLost, s', d'))"

text \<open>The exchange of a call whose response arrives.\<close>

definition answering ::
    "server_params \<Rightarrow> (request_error \<Rightarrow> string) \<Rightarrow> operation_env \<Rightarrow> memory_store \<Rightarrow> disk \<Rightarrow> caller" where
  "answering p invalid oe s d q = replied (fst (served p invalid oe q s d))"

text \<open>
  What can become of a call, as the exchange the client has and what the broker leaves: the request
  does not reach the handler, and no broker is there, or none that answers, or one that is busy, or
  what arrives cannot be read; or it is carried out, and its response arrives, or is lost or spoilt on
  the way. Whether sending seems to have failed and whether the context is cancelled is open.
\<close>

definition unreadable :: "frame \<Rightarrow> bool" where
  "unreadable f \<longleftrightarrow> f = FrameLost \<or> f = FrameMalformed \<or> f = FrameTooLong"

definition passes ::
    "server_params \<Rightarrow> (request_error \<Rightarrow> string) \<Rightarrow> operation_env \<Rightarrow> memory_store \<Rightarrow> disk \<Rightarrow> request
     \<Rightarrow> exchange \<Rightarrow> memory_store \<times> disk \<Rightarrow> bool" where
  "passes p invalid oe s d q x left \<longleftrightarrow>
     left = (s, d) \<and> (\<not> xc_dialled x \<or> unreadable (xc_frame x) \<or> xc_frame x = FrameResponse busy_response)
     \<or> left = snd (served p invalid oe q s d) \<and> xc_dialled x
       \<and> (xc_frame x = fst (served p invalid oe q s d) \<or> unreadable (xc_frame x))"

text \<open>The client has no answer, and is not told why.\<close>

definition no_answer :: "exchange \<Rightarrow> bool" where
  "no_answer x \<longleftrightarrow>
     \<not> xc_dialled x
     \<or> (xc_send x = SendDone \<or> xc_send x = SendTransport \<and> \<not> xc_sendCancelled x)
       \<and> xc_frame x = FrameLost \<and> \<not> xc_readCancelled x"

lemma digits_not_empty: "digits n \<noteq> []"
  by (rule digits_nonempty)

lemma prepare_reads [simp]:
  "rq_Version (prepare i q) = ProtocolVersion" "rq_ID q = [] \<Longrightarrow> rq_ID (prepare i q) = digits (unat i)"
  "rq_Method (prepare i q) = rq_Method q" "rq_Observation (prepare i q) = rq_Observation q"
  "rq_Observations (prepare i q) = rq_Observations q" "rq_Filter (prepare i q) = rq_Filter q"
  "rq_SessionID (prepare i q) = rq_SessionID q" "rq_DeleteAfter (prepare i q) = rq_DeleteAfter q"
  "rq_SummaryOptions (prepare i q) = rq_SummaryOptions q" "rq_ID (prepare i q) \<noteq> []"
  by (simp_all add: prepare_def digits_not_empty)

lemma newRequest_reads [simp]:
  "rq_ID (newRequest m) = []" "rq_Method (newRequest m) = m"
  by (simp_all add: newRequest_def)

text \<open>A busy broker is recognised, although its response has no identifier.\<close>

lemma busy_recognised:
  "connectionBusyResponse busy_response"
  "validateResponse q busy_response = Some (RemoteError ''busy'' ''aht broker busy'')"
  by (simp_all add: connectionBusyResponse_def busy_response_def errorResponse_def newResponse_def
      validateResponse_def remote_def)

text \<open>A response of the server is taken for what it is by the request it answers.\<close>

lemma answer_recognised:
  assumes "rsp_Version a = ProtocolVersion" "rsp_ID a = rq_ID q" "rq_ID q \<noteq> []"
  shows "validateResponse q a = remote a"
  using assms by (simp add: validateResponse_def connectionBusyResponse_def)

lemma served_executed:
  assumes "validateRequest q = None" "rq_Method q \<noteq> MethodSubscribe" "execute p oe q s d = (a, s', d')"
  shows "served p invalid oe q s d = (FrameResponse (written_response (sp_size p) a), s', d')"
  using assms by (simp add: served_def handleConnection_def)

lemma roundTrip_replied:
  assumes "rsp_Version a = ProtocolVersion" "rsp_ID a = rq_ID q" "rq_ID q \<noteq> []"
  shows "roundTrip (replied (FrameResponse a)) q =
    (case rsp_Error a of None \<Rightarrow> Inr a | Some e \<Rightarrow> Inl (RemoteError (we_Code e) (we_Message e)))"
  using answer_recognised [OF assms]
  by (simp add: roundTrip_def replied_def readResponse_def remote_def split: option.split)

definition remote_result :: "(reg_error \<Rightarrow> string) \<Rightarrow> reg_error + 'a \<Rightarrow> broker_error + 'a" where
  "remote_result text_of out =
     (case out of Inl e \<Rightarrow> Inl (RemoteError (operation_code e) (text_of e)) | Inr a \<Rightarrow> Inr a)"

lemma answered_recognised:
  assumes "rq_ID q \<noteq> []" "answered p (rq_ID q) put out = (a, s', d')"
    and "\<And>x b. rsp_Version (put x b) = rsp_Version b \<and> rsp_ID (put x b) = rsp_ID b \<and> rsp_Error (put x b) = rsp_Error b"
  shows "roundTrip (replied (FrameResponse a)) q =
    (case fst out of Inl e \<Rightarrow> Inl (RemoteError (operation_code e) (sp_text p e))
     | Inr x \<Rightarrow> Inr (put x (newResponse (rq_ID q) ''result'')))"
proof -
  have "rsp_Version a = ProtocolVersion" "rsp_ID a = rq_ID q"
    using assms(2,3)
    by (auto simp: answered_def newResponse_def operationErrorResponse_def errorResponse_def
        split: sum.splits prod.splits)
  then show ?thesis
    using assms roundTrip_replied [of a q]
    by (auto simp: answered_def newResponse_def operationErrorResponse_def errorResponse_def
        split: sum.splits prod.splits)
qed

lemma answered_state: "answered p i put out = (a, s', d') \<Longrightarrow> (s', d') = snd out"
  by (auto simp: answered_def split: sum.splits prod.splits)

subsection \<open>The operations, through the broker\<close>

text \<open>The response to a request fits in a frame; one that does not is replaced by an error.\<close>

definition fits :: "server_params \<Rightarrow> operation_env \<Rightarrow> memory_store \<Rightarrow> disk \<Rightarrow> request \<Rightarrow> bool" where
  "fits p oe s d q \<longleftrightarrow> sp_size p (fst (execute p oe q s d)) < MaxResponseBytes"

abbreviation too_large :: broker_error where
  "too_large \<equiv> RemoteError ''response_too_large'' ''broker response exceeds frame limit''"

definition framed_result ::
    "server_params \<Rightarrow> operation_env \<Rightarrow> memory_store \<Rightarrow> disk \<Rightarrow> request \<Rightarrow> reg_error + 'a \<Rightarrow> broker_error + 'a" where
  "framed_result p oe s d q out =
     (if fits p oe s d q then remote_result (sp_text p) out else Inl too_large)"

lemma answered_id:
  assumes "answered p i put out = (a, s', d')"
    and "\<And>x b. rsp_Version (put x b) = rsp_Version b \<and> rsp_ID (put x b) = rsp_ID b \<and> rsp_Error (put x b) = rsp_Error b"
  shows "rsp_ID a = i"
  using assms by (auto simp: answered_def newResponse_def operationErrorResponse_def errorResponse_def
      split: sum.splits prod.splits)

lemma call_replied:
  assumes "validateRequest (prepare i q) = None" "rq_Method q \<noteq> MethodSubscribe"
    "execute p oe (prepare i q) s d = answered p (rq_ID (prepare i q)) put out"
    "\<And>x b. rsp_Version (put x b) = rsp_Version b \<and> rsp_ID (put x b) = rsp_ID b \<and> rsp_Error (put x b) = rsp_Error b"
  shows "broker_call (answering p invalid oe s d) i q =
      (if fits p oe s d (prepare i q)
       then (case fst out of Inl e \<Rightarrow> Inl (RemoteError (operation_code e) (sp_text p e))
             | Inr x \<Rightarrow> Inr (put x (newResponse (rq_ID (prepare i q)) ''result'')))
       else Inl too_large)"
    and "snd (served p invalid oe (prepare i q) s d) = snd out"
proof -
  obtain a s' d' where a: "answered p (rq_ID (prepare i q)) put out = (a, s', d')" by (metis prod.exhaust)
  have sv: "served p invalid oe (prepare i q) s d = (FrameResponse (written_response (sp_size p) a), s', d')"
    by (rule served_executed [OF assms(1)]) (use assms(2,3) a in simp_all)
  have id: "rq_ID (prepare i q) \<noteq> []" by simp
  have aid: "rsp_ID a = rq_ID (prepare i q)" by (rule answered_id [OF a assms(4)])
  show "broker_call (answering p invalid oe s d) i q =
      (if fits p oe s d (prepare i q)
       then (case fst out of Inl e \<Rightarrow> Inl (RemoteError (operation_code e) (sp_text p e))
             | Inr x \<Rightarrow> Inr (put x (newResponse (rq_ID (prepare i q)) ''result'')))
       else Inl too_large)"
  proof (cases "fits p oe s d (prepare i q)")
    case True
    then have "written_response (sp_size p) a = a"
      by (simp add: fits_def assms(3) a written_response_def)
    then show ?thesis using answered_recognised [OF id a assms(4)] True
      by (simp add: broker_call_def answering_def sv)
  next
    case False
    then have w: "written_response (sp_size p) a =
        errorResponse (rq_ID (prepare i q)) ''response_too_large'' ''broker response exceeds frame limit''"
      by (simp add: fits_def assms(3) a aid written_response_def)
    show ?thesis unfolding broker_call_def answering_def sv fst_conv w
      using False id by (subst roundTrip_replied) (simp_all add: errorResponse_def newResponse_def)
  qed
  show "snd (served p invalid oe (prepare i q) s d) = snd out"
    using answered_state [OF a] sv by simp
qed

lemma newResponse_reads [simp]:
  "rsp_Session (newResponse i t) = None" "rsp_Sessions (newResponse i t) = []"
  "rsp_GC (newResponse i t) = None" "rsp_Reset (newResponse i t) = None"
  by (simp_all add: newResponse_def)

definition observe_request :: "observation \<Rightarrow> request" where
  "observe_request ob = (newRequest MethodObserve)\<lparr>rq_Observation := Some ob\<rparr>"

lemma observe_replied:
  fixes p oe s d i ob
  defines "out \<equiv> MemoryStore_Observe (sp_json p) (oe_env oe) (sp_reducer p) s d ob"
  shows "Client_Observe (answering p invalid oe s d) i ob = framed_result p oe s d (prepare i (observe_request ob)) (fst out)"
    and "snd (served p invalid oe (prepare i (observe_request ob)) s d) = snd out"
proof -
  note c = call_replied [where q = "observe_request ob" and i = i and p = p and oe = oe and s = s and d = d
      and put = "\<lambda>x a. a\<lparr>rsp_Session := Some x\<rparr>" and out = out and invalid = invalid]
  have hyps: "validateRequest (prepare i (observe_request ob)) = None" "rq_Method (observe_request ob) \<noteq> MethodSubscribe"
    "execute p oe (prepare i (observe_request ob)) s d = answered p (rq_ID (prepare i (observe_request ob))) (\<lambda>x a. a\<lparr>rsp_Session := Some x\<rparr>) out"
    by (simp_all add: observe_request_def validateRequest_def execute_def out_def digits_not_empty)
  show "Client_Observe (answering p invalid oe s d) i ob = framed_result p oe s d (prepare i (observe_request ob)) (fst out)"
    using c(1) [OF hyps]
    by (simp add: Client_Observe_def observe_request_def framed_result_def remote_result_def split: sum.split)
  show "snd (served p invalid oe (prepare i (observe_request ob)) s d) = snd out" using c(2) [OF hyps] by simp
qed

definition batch_request :: "observation list \<Rightarrow> request" where
  "batch_request obs = (newRequest MethodObserveBatch)\<lparr>rq_Observations := obs\<rparr>"

lemma batch_replied:
  fixes p oe s d i obs
  assumes "obs \<noteq> []" "length obs \<le> maxBatchObservations"
  defines "out \<equiv> MemoryStore_ObserveBatch (sp_json p) (oe_env oe) (sp_reducer p) s d obs"
  shows "Client_ObserveBatch (answering p invalid oe s d) i obs = framed_result p oe s d (prepare i (batch_request obs)) (fst out)"
    and "snd (served p invalid oe (prepare i (batch_request obs)) s d) = snd out"
proof -
  note c = call_replied [where q = "batch_request obs" and i = i and p = p and oe = oe and s = s and d = d
      and put = "\<lambda>xs a. a\<lparr>rsp_Sessions := xs\<rparr>" and out = out and invalid = invalid]
  have hyps: "validateRequest (prepare i (batch_request obs)) = None" "rq_Method (batch_request obs) \<noteq> MethodSubscribe"
    "execute p oe (prepare i (batch_request obs)) s d = answered p (rq_ID (prepare i (batch_request obs))) (\<lambda>xs a. a\<lparr>rsp_Sessions := xs\<rparr>) out"
    using assms(1,2) by (simp_all add: batch_request_def validateRequest_def execute_def out_def digits_not_empty)
  show "Client_ObserveBatch (answering p invalid oe s d) i obs = framed_result p oe s d (prepare i (batch_request obs)) (fst out)"
    using c(1) [OF hyps]
    by (simp add: Client_ObserveBatch_def batch_request_def framed_result_def remote_result_def split: sum.split)
  show "snd (served p invalid oe (prepare i (batch_request obs)) s d) = snd out" using c(2) [OF hyps] by simp
qed

definition get_request :: "string \<Rightarrow> request" where
  "get_request sid = (newRequest MethodGet)\<lparr>rq_SessionID := sid\<rparr>"

lemma get_replied:
  fixes p oe s d i sid
  assumes "sid \<noteq> []"
  defines "out \<equiv> MemoryStore_Get (oe_cancelled oe) (oe_env oe) (sp_reducer p) s d sid"
  shows "Client_Get (answering p invalid oe s d) i sid = framed_result p oe s d (prepare i (get_request sid)) (fst out)"
    and "snd (served p invalid oe (prepare i (get_request sid)) s d) = snd out"
proof -
  note c = call_replied [where q = "get_request sid" and i = i and p = p and oe = oe and s = s and d = d
      and put = "\<lambda>x a. a\<lparr>rsp_Session := Some x\<rparr>" and out = out and invalid = invalid]
  have hyps: "validateRequest (prepare i (get_request sid)) = None" "rq_Method (get_request sid) \<noteq> MethodSubscribe"
    "execute p oe (prepare i (get_request sid)) s d = answered p (rq_ID (prepare i (get_request sid))) (\<lambda>x a. a\<lparr>rsp_Session := Some x\<rparr>) out"
    using assms(1) by (simp_all add: get_request_def validateRequest_def execute_def out_def digits_not_empty)
  show "Client_Get (answering p invalid oe s d) i sid = framed_result p oe s d (prepare i (get_request sid)) (fst out)"
    using c(1) [OF hyps]
    by (simp add: Client_Get_def get_request_def framed_result_def remote_result_def split: sum.split)
  show "snd (served p invalid oe (prepare i (get_request sid)) s d) = snd out" using c(2) [OF hyps] by simp
qed

definition gc_request :: "duration \<Rightarrow> request" where
  "gc_request after = (newRequest MethodGC)\<lparr>rq_DeleteAfter := after\<rparr>"

lemma gc_replied:
  fixes p oe s d i after
  defines "out \<equiv> MemoryStore_GC (sp_json p) (oe_env oe) (sp_reducer p) s d after"
  shows "Client_GC (answering p invalid oe s d) i after = framed_result p oe s d (prepare i (gc_request after)) (fst out)"
    and "snd (served p invalid oe (prepare i (gc_request after)) s d) = snd out"
proof -
  note c = call_replied [where q = "gc_request after" and i = i and p = p and oe = oe and s = s and d = d
      and put = "\<lambda>x a. a\<lparr>rsp_GC := Some x\<rparr>" and out = out and invalid = invalid]
  have hyps: "validateRequest (prepare i (gc_request after)) = None" "rq_Method (gc_request after) \<noteq> MethodSubscribe"
    "execute p oe (prepare i (gc_request after)) s d = answered p (rq_ID (prepare i (gc_request after))) (\<lambda>x a. a\<lparr>rsp_GC := Some x\<rparr>) out"
    by (simp_all add: gc_request_def validateRequest_def execute_def out_def digits_not_empty)
  show "Client_GC (answering p invalid oe s d) i after = framed_result p oe s d (prepare i (gc_request after)) (fst out)"
    using c(1) [OF hyps]
    by (simp add: Client_GC_def gc_request_def framed_result_def remote_result_def split: sum.split)
  show "snd (served p invalid oe (prepare i (gc_request after)) s d) = snd out" using c(2) [OF hyps] by simp
qed

text \<open>The sentinel an error of the store keeps on the wire.\<close>

definition kept_class :: "(reg_error \<Rightarrow> string) \<Rightarrow> reg_error \<Rightarrow> remote_class option" where
  "kept_class text_of e =
     (case e of
        ErrSessionNotFound \<Rightarrow> Some (ClassRegistry ErrSessionNotFound)
      | ErrObservationConflict _ \<Rightarrow> Some (ClassRegistry (ErrObservationConflict (text_of e)))
      | ErrProcessEnded \<Rightarrow> Some (ClassRegistry ErrProcessEnded)
      | _ \<Rightarrow> None)"

lemma kept_on_the_wire: "RemoteError_Unwrap (operation_code e) (text_of e) = kept_class text_of e"
  by (simp add: RemoteError_Unwrap_def operation_code_def kept_class_def split: reg_error.split)

subsection \<open>Falling back\<close>

lemma roundTrip_no_answer:
  "no_answer x \<longleftrightarrow> roundTrip x q = Inl BrokerUnavailable \<or> roundTrip x q = Inl BrokerNoReply"
  "roundTrip x q = Inl BrokerUnavailable \<longleftrightarrow> \<not> xc_dialled x"
proof -
  have "validateResponse q a \<noteq> Some BrokerUnavailable" "validateResponse q a \<noteq> Some BrokerNoReply" for a
    by (simp_all add: validateResponse_def remote_def)
  then show "no_answer x \<longleftrightarrow> roundTrip x q = Inl BrokerUnavailable \<or> roundTrip x q = Inl BrokerNoReply"
    "roundTrip x q = Inl BrokerUnavailable \<longleftrightarrow> \<not> xc_dialled x"
    by (cases "xc_send x"; cases "xc_frame x"; auto simp: no_answer_def roundTrip_def readResponse_def
        split: option.splits)+
qed

text \<open>A call only succeeds with a response the broker gave to it.\<close>

lemma answered_call:
  assumes "passes p invalid oe s d q x left" "roundTrip x q = Inr a"
  shows "left = snd (served p invalid oe q s d)" "fst (served p invalid oe q s d) = FrameResponse a"
    "roundTrip (answering p invalid oe s d q) q = Inr a"
proof -
  have f: "xc_dialled x" "xc_frame x = FrameResponse a" "validateResponse q a = None"
    using assms(2) by (auto simp: roundTrip_def readResponse_def split: if_splits frame.splits read_error.splits option.splits)
  have "a \<noteq> busy_response" using f(3) busy_recognised(2) by auto
  then show l: "left = snd (served p invalid oe q s d)" "fst (served p invalid oe q s d) = FrameResponse a"
    using assms(1) f by (auto simp: passes_def unreadable_def)
  show "roundTrip (answering p invalid oe s d q) q = Inr a"
    using f(3) l(2) by (simp add: answering_def roundTrip_def replied_def readResponse_def)
qed

lemma framed_success: "framed_result p oe s d q out = Inr v \<Longrightarrow> out = Inr v"
  by (auto simp: framed_result_def remote_result_def split: if_splits sum.splits)

lemma public_result_success: "public_result out = (Inr v, e) \<longleftrightarrow> out = (Inr v, e)"
  by (auto simp: public_result_def split: prod.splits sum.splits)

lemma from_files_success: "from_files out = (Inr v, e) \<longleftrightarrow> out = (Inr v, e)"
  by (auto simp: from_files_def split: prod.splits sum.splits)

lemma from_broker_success: "from_broker out d = (Inr v, e) \<longleftrightarrow> out = Inr v \<and> e = d"
  by (auto simp: from_broker_def split: sum.splits)

lemma observed_call:
  fixes p invalid oe s d i ob
  defines "q \<equiv> prepare i (observe_request ob)"
  assumes "passes p invalid oe s d q x left" "Client_Observe (\<lambda>_. x) i ob = Inr v"
  shows "left = snd (MemoryStore_Observe (sp_json p) (oe_env oe) (sp_reducer p) s d ob)"
    and "fst (MemoryStore_Observe (sp_json p) (oe_env oe) (sp_reducer p) s d ob) = Inr v"
proof -
  obtain a where a: "roundTrip x q = Inr a" "rsp_Session a = Some v"
    using assms(3) by (auto simp: Client_Observe_def broker_call_def q_def observe_request_def split: sum.splits option.splits)
  note c = answered_call [OF assms(2) a(1)]
  show "left = snd (MemoryStore_Observe (sp_json p) (oe_env oe) (sp_reducer p) s d ob)"
    using c(1) observe_replied(2) unfolding q_def by metis
  have "Client_Observe (answering p invalid oe s d) i ob = Inr v"
    using c(3) a(2) by (simp add: Client_Observe_def broker_call_def q_def observe_request_def)
  then show "fst (MemoryStore_Observe (sp_json p) (oe_env oe) (sp_reducer p) s d ob) = Inr v"
    unfolding observe_replied(1) by (rule framed_success)
qed

lemma collected_call:
  fixes p invalid oe s d i after
  defines "q \<equiv> prepare i (gc_request after)"
  assumes "passes p invalid oe s d q x left" "Client_GC (\<lambda>_. x) i after = Inr v"
  shows "left = snd (MemoryStore_GC (sp_json p) (oe_env oe) (sp_reducer p) s d after)"
    and "fst (MemoryStore_GC (sp_json p) (oe_env oe) (sp_reducer p) s d after) = Inr v"
proof -
  obtain a where a: "roundTrip x q = Inr a" "rsp_GC a = Some v"
    using assms(3) by (auto simp: Client_GC_def broker_call_def q_def gc_request_def split: sum.splits option.splits)
  note c = answered_call [OF assms(2) a(1)]
  show "left = snd (MemoryStore_GC (sp_json p) (oe_env oe) (sp_reducer p) s d after)"
    using c(1) gc_replied(2) unfolding q_def by metis
  have "Client_GC (answering p invalid oe s d) i after = Inr v"
    using c(3) a(2) by (simp add: Client_GC_def broker_call_def q_def gc_request_def)
  then show "fst (MemoryStore_GC (sp_json p) (oe_env oe) (sp_reducer p) s d after) = Inr v"
    unfolding gc_replied(1) by (rule framed_success)
qed

text \<open>The files are only used where there is no answer, and for a command only where there is no broker.\<close>

lemma observe_routes:
  "no_answer x \<Longrightarrow> public_Observe ModeAuto (\<lambda>_. x) i fe d ob = public_result (from_files (fallback_Observe fe d ob))"
  "\<not> no_answer x \<Longrightarrow> public_Observe ModeAuto (\<lambda>_. x) i fe d ob = public_result (from_broker (Client_Observe (\<lambda>_. x) i ob) d)"
proof -
  let ?q = "prepare i (observe_request ob)"
  have call: "Client_Observe (\<lambda>_. x) i ob = (case roundTrip x ?q of Inl e \<Rightarrow> Inl e
      | Inr a \<Rightarrow> (case rsp_Session a of None \<Rightarrow> Inl (BrokerProtocol ''observe response omitted session'') | Some s \<Rightarrow> Inr s))"
    by (simp add: Client_Observe_def broker_call_def observe_request_def)
  show "no_answer x \<Longrightarrow> public_Observe ModeAuto (\<lambda>_. x) i fe d ob = public_result (from_files (fallback_Observe fe d ob))"
    unfolding roundTrip_no_answer(1) [of x ?q] public_Observe_def routed_def Store_Observe_def or_observed_def call
    by (auto simp: IsUnavailable_def NoReply_def)
  show "\<not> no_answer x \<Longrightarrow> public_Observe ModeAuto (\<lambda>_. x) i fe d ob = public_result (from_broker (Client_Observe (\<lambda>_. x) i ob) d)"
    unfolding roundTrip_no_answer(1) [of x ?q] public_Observe_def routed_def Store_Observe_def or_observed_def call
    by (auto simp: IsUnavailable_def NoReply_def split: sum.split option.split)
qed

lemma collect_routes:
  "\<not> xc_dialled x \<Longrightarrow> public_GC ModeAuto (\<lambda>_. x) i fe d after = public_result (from_files (Journal_GC fe d after))"
  "xc_dialled x \<Longrightarrow> public_GC ModeAuto (\<lambda>_. x) i fe d after = public_result (from_broker (Client_GC (\<lambda>_. x) i after) d)"
proof -
  let ?q = "prepare i (gc_request after)"
  have call: "Client_GC (\<lambda>_. x) i after = (case roundTrip x ?q of Inl e \<Rightarrow> Inl e
      | Inr a \<Rightarrow> (case rsp_GC a of None \<Rightarrow> Inl (BrokerProtocol ''gc response omitted result'') | Some r \<Rightarrow> Inr r))"
    by (simp add: Client_GC_def broker_call_def gc_request_def)
  show "\<not> xc_dialled x \<Longrightarrow> public_GC ModeAuto (\<lambda>_. x) i fe d after = public_result (from_files (Journal_GC fe d after))"
    unfolding roundTrip_no_answer(2) [of x ?q, symmetric] public_GC_def routed_def Store_GC_def or_offline_def call
    by (auto simp: IsUnavailable_def)
  show "xc_dialled x \<Longrightarrow> public_GC ModeAuto (\<lambda>_. x) i fe d after = public_result (from_broker (Client_GC (\<lambda>_. x) i after) d)"
    using roundTrip_no_answer(2) [of x ?q] unfolding public_GC_def routed_def Store_GC_def or_offline_def call
    by (auto simp: IsUnavailable_def split: sum.split option.split)
qed

lemma observed_outcome:
  assumes "passes p invalid oe s d (prepare i (observe_request ob)) x (s1, d1)"
    and "public_Observe ModeAuto (\<lambda>_. x) i fe d1 ob = (res, e)"
  defines "out \<equiv> MemoryStore_Observe (sp_json p) (oe_env oe) (sp_reducer p) s d ob"
  shows "\<forall>v. res = Inr v \<longrightarrow> fst out = Inr v \<and> (s1, d1) = snd out \<and> e = d1 \<or> fallback_Observe fe d1 ob = (Inr v, e)"
    and "if no_answer x then (res, e) = public_result (from_files (fallback_Observe fe d1 ob)) else e = d1"
proof -
  show "if no_answer x then (res, e) = public_result (from_files (fallback_Observe fe d1 ob)) else e = d1"
    using observe_routes [of x i fe d1 ob] assms(2)
    by (auto simp: public_result_def from_broker_def split: sum.splits)
  show "\<forall>v. res = Inr v \<longrightarrow> fst out = Inr v \<and> (s1, d1) = snd out \<and> e = d1 \<or> fallback_Observe fe d1 ob = (Inr v, e)"
  proof (intro allI impI)
    fix v assume v: "res = Inr v"
    show "fst out = Inr v \<and> (s1, d1) = snd out \<and> e = d1 \<or> fallback_Observe fe d1 ob = (Inr v, e)"
    proof (cases "no_answer x")
      case True
      have "public_result (from_files (fallback_Observe fe d1 ob)) = (Inr v, e)"
        unfolding observe_routes(1) [OF True, symmetric, where i = i] using assms(2) v by simp
      then show ?thesis by (simp add: public_result_success from_files_success)
    next
      case False
      have "public_result (from_broker (Client_Observe (\<lambda>_. x) i ob) d1) = (Inr v, e)"
        unfolding observe_routes(2) [OF False, symmetric, where i = i and fe = fe] using assms(2) v by simp
      then have "Client_Observe (\<lambda>_. x) i ob = Inr v" "e = d1"
        by (simp_all add: public_result_success from_broker_success)
      then show ?thesis using observed_call [OF assms(1)] unfolding out_def by metis
    qed
  qed
qed

lemma collected_outcome:
  assumes "passes p invalid oe s d (prepare i (gc_request after)) x (s2, d2)"
    and "public_GC ModeAuto (\<lambda>_. x) i fe d2 after = (res, e)"
  defines "out \<equiv> MemoryStore_GC (sp_json p) (oe_env oe) (sp_reducer p) s d after"
  shows "\<forall>v. res = Inr v \<longrightarrow> fst out = Inr v \<and> (s2, d2) = snd out \<and> e = d2
      \<or> (s2, d2) = (s, d) \<and> Journal_GC fe d after = (Inr v, e)"
    and "if xc_dialled x then e = d2 else (s2, d2) = (s, d)"
    and "xc_dialled x \<and> no_answer x \<longrightarrow> res = Inl (PublicOther (FromBroker BrokerNoReply))"
proof -
  have kept: "\<not> xc_dialled x \<Longrightarrow> (s2, d2) = (s, d)" using assms(1) by (auto simp: passes_def)
  then show "if xc_dialled x then e = d2 else (s2, d2) = (s, d)"
    using collect_routes(2) [of x i fe d2 after] assms(2)
    by (auto simp: public_result_def from_broker_def split: sum.splits)
  show "xc_dialled x \<and> no_answer x \<longrightarrow> res = Inl (PublicOther (FromBroker BrokerNoReply))"
    using collect_routes(2) [of x i fe d2 after] assms(2) roundTrip_no_answer [of x "prepare i (gc_request after)"]
    by (auto simp: public_result_def from_broker_def Client_GC_def broker_call_def gc_request_def publicError_def)
  show "\<forall>v. res = Inr v \<longrightarrow> fst out = Inr v \<and> (s2, d2) = snd out \<and> e = d2
      \<or> (s2, d2) = (s, d) \<and> Journal_GC fe d after = (Inr v, e)"
  proof (intro allI impI)
    fix v assume v: "res = Inr v"
    show "fst out = Inr v \<and> (s2, d2) = snd out \<and> e = d2 \<or> (s2, d2) = (s, d) \<and> Journal_GC fe d after = (Inr v, e)"
    proof (cases "xc_dialled x")
      case False
      have "public_result (from_files (Journal_GC fe d2 after)) = (Inr v, e)"
        unfolding collect_routes(1) [OF False, symmetric, where i = i] using assms(2) v by simp
      then show ?thesis using kept [OF False] by (simp add: public_result_success from_files_success)
    next
      case True
      have "public_result (from_broker (Client_GC (\<lambda>_. x) i after) d2) = (Inr v, e)"
        unfolding collect_routes(2) [OF True, symmetric, where i = i and fe = fe] using assms(2) v by simp
      then have "Client_GC (\<lambda>_. x) i after = Inr v" "e = d2"
        by (simp_all add: public_result_success from_broker_success)
      then show ?thesis using collected_call [OF assms(1)] unfolding out_def by metis
    qed
  qed
qed

subsection \<open>Subscriptions\<close>

definition frame_revisions :: "response list \<Rightarrow> 64 word list" where
  "frame_revisions as = map ss_Revision (List.map_filter rsp_Snapshot as)"

lemma frame_revisions_simps [simp]:
  "frame_revisions [] = []"
  "frame_revisions (a # as) =
     (case rsp_Snapshot a of None \<Rightarrow> frame_revisions as | Some st \<Rightarrow> ss_Revision st # frame_revisions as)"
  by (simp_all add: frame_revisions_def List.map_filter_simps split: option.split)

lemma written_snapshot:
  "rsp_Snapshot (written_response len a) \<in> {None, rsp_Snapshot a}"
  by (simp add: written_response_def errorResponse_def newResponse_def)

lemma snapshot_of_responses [simp]:
  "rsp_Snapshot (snapshotResponse i st) = Some st" "rsp_Snapshot (newResponse i t) = None"
  "rsp_Snapshot (operationErrorResponse f i e) = None"
  by (simp_all add: snapshotResponse_def newResponse_def operationErrorResponse_def errorResponse_def)

lemma wait_turn_newer:
  "wait_turn c fs env r seen f s d = (Some (Inr st), s', d') \<Longrightarrow> seen < ss_Revision st"
  by (auto simp: wait_turn_def stateLocked_def split: if_splits option.splits prod.splits)

text \<open>A list of revisions that starts after one and increases.\<close>

definition rising :: "64 word \<Rightarrow> 64 word list \<Rightarrow> bool" where
  "rising r rs \<longleftrightarrow> sorted_wrt (<) (r # rs)"

lemma rising_simps [simp]:
  "rising r []" "rising r (x # xs) \<longleftrightarrow> r < x \<and> rising x xs"
  by (auto simp: rising_def)

lemma rising_weaken: "rising r xs \<Longrightarrow> q \<le> r \<Longrightarrow> rising q xs"
  by (cases xs) auto

lemma stream_rising:
  "rising seen (frame_revisions (fst (stream_turns p q seen ts s d)))"
proof (induction ts arbitrary: seen s d)
  case (Cons t ts)
  obtain s1 d1 where m: "tr_meanwhile t (s, d) = (s1, d1)" by (rule prod.exhaust)
  obtain answer s2 d2 where w: "wait_turn (tr_given_up t \<or> tr_due t) (sp_fs p) (tr_env t) (sp_reducer p) seen
      (rq_Filter q) s1 d1 = (answer, s2, d2)"
    by (metis prod.exhaust)
  consider "answer = None" | e where "answer = Some (Inl e)" | st where "answer = Some (Inr st)"
    by (metis sum.exhaust option.exhaust)
  then show ?case
  proof cases
    case 3
    have newer: "seen < ss_Revision st" using wait_turn_newer w 3 by blast
    define a where "a = written_response (sp_size p) (snapshotResponse (rq_ID q) st)"
    have a: "rsp_Snapshot a = None \<or> rsp_Snapshot a = Some st"
      using written_snapshot [of "sp_size p" "snapshotResponse (rq_ID q) st"] by (auto simp: a_def)
    have "rising (ss_Revision st) (frame_revisions (fst (stream_turns p q (ss_Revision st) ts s2 d2)))"
      by (rule Cons.IH)
    then have "rising seen (frame_revisions (a # fst (stream_turns p q (ss_Revision st) ts s2 d2)))"
      using a newer rising_weaken [of "ss_Revision st" _ seen] by auto
    moreover have "rising seen (frame_revisions [a])" using a newer by auto
    ultimately show ?thesis
      by (simp add: m w 3 Let_def case_prod_beta a_def del: frame_revisions_simps(2))
  next
    case 2
    have "rsp_Snapshot (written_response (sp_size p) b) = None" if "rsp_Snapshot b = None" for b
      using written_snapshot [of "sp_size p" b] that by auto
    then show ?thesis using Cons.IH by (simp add: m w 2 Let_def case_prod_beta)
  qed (simp add: m w Let_def Cons.IH)
qed simp

lemma runSubscription_rising:
  assumes "rising seen (frame_revisions as)" "set lost \<subseteq> {(FrameLost, True), (FrameLost, False)}"
  shows "rising seen (map ss_Revision (fst (runSubscription fs q (zip (map FrameResponse as) cs @ lost))))"
  using assms(1)
proof (induction as arbitrary: seen cs)
  case Nil
  show ?case using assms(2) by (cases lost) (auto simp: readResponse_def)
next
  case (Cons a as)
  show ?case
  proof (cases cs)
    case Nil
    then show ?thesis using assms(2) by (cases lost) (auto simp: readResponse_def)
  next
    case (Cons c cs')
    have skip: "rising seen (frame_revisions as)"
      using Cons.prems by (auto split: option.splits intro: rising_weaken)
    then show ?thesis
      using Cons.IH [OF skip, of cs'] Cons.IH [of _ cs'] Cons.prems
      by (auto simp: Cons readResponse_def case_prod_beta filtered_snapshot_def
          split: option.splits if_splits)
  qed
qed

lemma subscription_rising:
  assumes "serveSubscription p oe True q ts s d = (first # as, s', d')"
    and "Client_Subscribe fs (\<lambda>_. replied (FrameResponse first)) i f = Inr (q', st)"
    and "set lost \<subseteq> {(FrameLost, True), (FrameLost, False)}"
  shows "rising (ss_Revision st)
    (map ss_Revision (fst (runSubscription fs q' (zip (map FrameResponse as) cs @ lost))))"
proof (cases "fst (MemoryStore_State (oe_cancelled oe) (sp_fs p) (oe_env oe) (sp_reducer p) s d (rq_Filter q))")
  case (Inl e)
  then have "as = []"
    using assms(1) by (auto simp: serveSubscription_def split: prod.splits sum.splits)
  then show ?thesis using runSubscription_rising [of _ "[]", OF _ assms(3)] by simp
next
  case (Inr st0)
  then obtain s1 d1 where f: "first = written_response (sp_size p) (snapshotResponse (rq_ID q) st0)"
    and as: "as = fst (stream_turns p q (ss_Revision st0) ts s1 d1)"
    using assms(1) by (auto simp: serveSubscription_def case_prod_beta Let_def split: prod.splits sum.splits)
  obtain st1 where "rsp_Snapshot first = Some st1" "ss_Revision st = ss_Revision st1"
    using assms(2)
    by (auto simp: Client_Subscribe_def Let_def roundTrip_def replied_def readResponse_def
        filtered_snapshot_def split: sum.splits option.splits if_splits)
  then have "ss_Revision st = ss_Revision st0"
    using written_snapshot [of "sp_size p" "snapshotResponse (rq_ID q) st0"] f by auto
  then show ?thesis using stream_rising as by (intro runSubscription_rising assms(3)) simp
qed

subsection \<open>The accept loop\<close>

text \<open>The connections that are handled never exceed the limit, and each is accounted for.\<close>

lemma accept_step_bounded:
  assumes "accept_step sv (Serving n) ev outs st'" "0 \<le> n" "n \<le> sv_maxConnections sv" "st' = Serving n'"
  shows "0 \<le> n'" "n' \<le> sv_maxConnections sv"
    and "n' = n + of_bool (ev = Accepted) - int (length outs) - of_bool (ev = ConnectionDone)"
    and "outs \<noteq> [] \<Longrightarrow> outs = [busy_response] \<and> n = sv_maxConnections sv"
  using assms by (auto elim!: accept_stepE simp: busy_response_def)

inductive_cases accept_run_nilE: "accept_run sv st [] outs st'"
inductive_cases accept_run_consE: "accept_run sv st (ev # evs) outs st'"

lemma accept_step_ended: "accept_step sv st ev outs st' \<Longrightarrow> \<exists>n. st = Serving n"
  by (auto elim!: accept_stepE)

lemma accept_run_bounded:
  assumes "accept_run sv (Serving n) evs outs (Serving n')" "0 \<le> n" "n \<le> sv_maxConnections sv"
  shows "0 \<le> n' \<and> n' \<le> sv_maxConnections sv
    \<and> n' = n + int (length (filter (\<lambda>ev. ev = Accepted) evs)) - int (length outs)
           - int (length (filter (\<lambda>ev. ev = ConnectionDone) evs))
    \<and> set outs \<subseteq> {busy_response}"
  using assms
proof (induction evs arbitrary: n outs)
  case Nil
  then show ?case by (auto elim: accept_run_nilE)
next
  case (Cons ev evs)
  from Cons.prems(1) obtain now later st where
    step: "accept_step sv (Serving n) ev now st" and more: "accept_run sv st evs later (Serving n')"
    and outs: "outs = now @ later"
    by (auto elim: accept_run_consE)
  have "\<exists>m. st = Serving m"
    using more by (cases evs) (auto elim!: accept_run_nilE accept_run_consE dest: accept_step_ended)
  then obtain m where m: "st = Serving m" ..
  note b = accept_step_bounded [OF step Cons.prems(2,3) m]
  have "set now \<subseteq> {busy_response}" using b(4) by (cases now) auto
  then show ?case using Cons.IH [OF more [unfolded m] b(1,2)] b(3) by (auto simp: outs)
qed

end
