(* ===== verification/Aht_RouteInputs.thy ===== *)
theory Aht_RouteInputs
  imports Aht_StoreWatch Aht_RoutingFacts Aht_Inputs
begin

section \<open>Concrete watches and calls\<close>

text \<open>A watch over an empty store into which one sighting is written.\<close>

definition ex_scan :: "disk \<Rightarrow> scan_world" where
  "ex_scan d =
     \<lparr>se_before = False, se_after = False, se_stat = StatDirectory, se_added = True,
      se_ctx = (\<lambda>_ _. False), se_disk = d, se_now = 10, se_accepts = (\<lambda>_. True)\<rparr>"

definition ex_start :: watch_start where
  "ex_start =
     \<lparr>st_cancelled = False, st_handler = True, st_stat = (\<lambda>_. StatDirectory), st_watcher = True,
      st_addable = (\<lambda>_. True), st_temp = ''/tmp''\<rparr>"

definition ex_watch_options :: watch_options where
  "ex_watch_options = \<lparr>wt_Filter = zero_filter, wt_Debounce = 0, wt_ReconcileInterval = 0\<rparr>"

definition ex_written :: disk where
  "ex_written = ex_disk\<lparr>dk_Journal := [ex_entry [ex_sighting 7 True 5] 1 6]\<rparr>"

definition ex_store_event :: fs_event where
  "ex_store_event = \<lparr>fe_Name = ''aht/state.json'', fe_Op = [OpWrite]\<rparr>"

definition ex_watched :: "watch_error option option \<times> watch_result list" where
  "ex_watched =
     FileStore_Watch ex_fs ex_reducer ex_start ''aht/state.json'' ex_watch_options (ex_scan ex_disk)
       ([(True, CaseEvents ex_store_event True, ex_scan ex_disk)] @ [(True, CaseDebounce, ex_scan ex_written)])"

text \<open>A broker over the empty store, its environment, and the files a call falls back to.\<close>

definition ex_broker :: server_params where
  "ex_broker =
     \<lparr>sp_fs = ex_fs, sp_lower = map lower_char, sp_json = (\<lambda>_. True), sp_reducer = ex_reducer,
      sp_text = (\<lambda>_. ''failed''), sp_size = (\<lambda>_. 100)\<rparr>"

definition ex_operation :: operation_env where
  "ex_operation =
     \<lparr>oe_cancelled = False, oe_env = ex_env, oe_flush = ex_env, oe_slot = True, oe_now = 10\<rparr>"

definition ex_files :: fallback_env where
  "ex_files =
     \<lparr>fb_fs = ex_fs, fb_lower = map lower_char, fb_reducer = ex_reducer, fb_ctx = ex_ctx, fb_io = ex_io,
      fb_owner = OwnerFree, fb_now = 10, fb_cancelled = False, fb_locked = True\<rparr>"

definition ex_answering :: caller where
  "ex_answering = answering ex_broker (\<lambda>_. ''invalid'') ex_operation ex_store ex_open_disk"

lemma ex_fits: "fits ex_broker ex_operation s d q"
  by (simp add: fits_def ex_broker_def MaxResponseBytes_def)

text \<open>A subscription to whose store a process is added, and the events of an accept loop.\<close>

definition ex_subscribe :: request where
  "ex_subscribe = prepare 1 ((newRequest MethodSubscribe)\<lparr>rq_Filter := NormalizePaths ex_fs zero_filter\<rparr>)"

definition ex_stream_turn :: "(memory_store \<times> disk \<Rightarrow> memory_store \<times> disk) \<Rightarrow> stream_turn" where
  "ex_stream_turn meanwhile =
     \<lparr>tr_meanwhile = meanwhile, tr_env = ex_env, tr_given_up = False, tr_due = False, tr_now = 10,
      tr_written = True\<rparr>"

definition ex_stream :: "response list \<times> memory_store \<times> disk" where
  "ex_stream =
     serveSubscription ex_broker ex_operation True ex_subscribe
       [ex_stream_turn (\<lambda>_. ex_changed), ex_stream_turn (\<lambda>sd. sd)] ex_store ex_open_disk"

definition ex_accepts :: "accept_event list" where
  "ex_accepts = [Accepted, Accepted, Accepted, ConnectionDone]"

end
