(* ===== verification/Aht_Ordering.thy ===== *)
theory Aht_Ordering
  imports Aht_Sessions
begin

section \<open>The order of evidence\<close>

text \<open>
  Evidence of one source never goes back in time within an incarnation, a reporter that counts
  its reports is only accepted in order, and a report that comes after its process has ended
  does not bring the session back.
\<close>

lemma update_session_observations:
  "s_Observations (update_session pol ob at received t s) =
     s_Observations (storeObservation ob at (lc_commit t at s))"
  by (simp add: update_session_def note_changes_def resolveDetail_def Let_def)

lemma stored_slot_time:
  "sourceSlotTime x ob =
     (case ob_Evidence ob of
        EvReport _ \<Rightarrow> (case o_Native (s_Observations x) of None \<Rightarrow> 0 | Some n \<Rightarrow> n_ObservedAt n)
      | EvSighting _ \<Rightarrow> (case o_Process (s_Observations x) of None \<Rightarrow> 0 | Some n \<Rightarrow> po_ObservedAt n)
      | EvPlacement _ \<Rightarrow> (case o_Location (s_Observations x) of None \<Rightarrow> 0 | Some n \<Rightarrow> mo_ObservedAt n)
      | EvListing _ \<Rightarrow> (case o_Catalog (s_Observations x) of None \<Rightarrow> 0 | Some n \<Rightarrow> co_ObservedAt n)
      | EvReading _ \<Rightarrow> (case o_Screen (s_Observations x) of None \<Rightarrow> 0 | Some n \<Rightarrow> sc_ObservedAt n)
      | _ \<Rightarrow> 0)"
  by (cases "ob_Evidence ob") (simp_all add: sourceSlotTime_def split: option.split)

lemma update_slot_time:
  "sourceSlotTime (update_session pol ob at received t s) ob =
     (case ob_Evidence ob of NoEvidence \<Rightarrow> 0 | EvVerification _ \<Rightarrow> 0 | _ \<Rightarrow> at)"
  by (cases "ob_Evidence ob")
    (simp_all add: stored_slot_time update_session_observations storeObservation_def storeNativeObservation_def
      storeProcessObservation_def storeMultiplexerObservation_def storeCatalogObservation_def
      storeScreenObservation_def native_slot_def Let_def)

lemma applied_slot_time:
  assumes "applyObservation r ob at received t s = Inr s'" "0 \<le> at"
  shows "sourceSlotTime s' ob = sourceSlotTime s ob \<and> s' = s \<or>
    sourceSlotTime s' ob = (case ob_Evidence ob of NoEvidence \<Rightarrow> 0 | EvVerification _ \<Rightarrow> 0 | _ \<Rightarrow> at)"
    "\<not> t_reset t \<Longrightarrow> \<not> t_terminal t \<Longrightarrow> sourceSlotTime s ob \<le> sourceSlotTime s' ob"
proof -
  have cases: "s' = s \<or> s' = update_session (re_Policy r (s_Harness s)) ob at received t s"
    using assms(1) by (auto simp: applyObservation_def Let_def split: if_splits)
  then show "sourceSlotTime s' ob = sourceSlotTime s ob \<and> s' = s \<or>
    sourceSlotTime s' ob = (case ob_Evidence ob of NoEvidence \<Rightarrow> 0 | EvVerification _ \<Rightarrow> 0 | _ \<Rightarrow> at)"
    using update_slot_time by blast
  show "sourceSlotTime s ob \<le> sourceSlotTime s' ob" if "\<not> t_reset t" "\<not> t_terminal t"
  proof (cases "s' = s")
    case False
    then have s': "s' = update_session (re_Policy r (s_Harness s)) ob at received t s" using cases by blast
    have "sourceSlotTime s ob \<le> at"
      using assms that by (cases "sourceSlotTime s ob = 0") (auto simp: applyObservation_def Let_def split: if_splits)
    moreover have "sourceSlotTime s ob = 0" if "ob_Evidence ob = NoEvidence \<or> (\<exists>v. ob_Evidence ob = EvVerification v)"
      using that by (auto simp: sourceSlotTime_def)
    ultimately show ?thesis
      using assms(2) by (cases "ob_Evidence ob") (auto simp: s' update_slot_time)
  qed simp
qed

subsection \<open>Sequenced reporters\<close>

lemma sequence_follows:
  assumes prev: "o_Native (s_Observations b) = Some n" "ob_Evidence ob = EvReport rep"
    and same: "sameReportProcess n rep" "trim_space (rp_Integration (r_Reporter rep)) \<noteq> []"
      "trim_space (rp_Integration (n_Reporter n)) = trim_space (rp_Integration (r_Reporter rep))"
    and q: "rp_Sequence (n_Reporter n) = Some q"
    and time: "sequencedObservationTime b ob at = Inr at'" and new: "\<not> duplicateSequencedReport b ob"
  obtains q' where "rp_Sequence (r_Reporter rep) = Some q'" "q < q'" "n_ObservedAt n < at'"
proof -
  have kind: "ob_Kind ob = ''report''" "ob_Report ob = rep"
    using prev(2) by (simp_all add: ob_Kind_def ob_Report_def)
  then show thesis
    using assms that
    by (auto simp: sequencedObservationTime_def validateSequenceOrder_def nanosecond_def Let_def
        split: option.splits if_splits)
qed

lemma reduced_sequence:
  assumes res: "reduceSession r m s ob at received = Inr (m', s')"
    and keep: "\<not> t_reset (transitionIncarnation s ob at False)"
    and prev: "o_Native (s_Observations s) = Some n" "ob_Evidence ob = EvReport rep"
    and same: "sameReportProcess n rep" "trim_space (rp_Integration (r_Reporter rep)) \<noteq> []"
      "trim_space (rp_Integration (n_Reporter n)) = trim_space (rp_Integration (r_Reporter rep))"
    and q: "rp_Sequence (n_Reporter n) = Some q"
  shows "m' = m \<and> s' = s \<or>
    (\<exists>n' q'. o_Native (s_Observations s') = Some n' \<and> rp_Sequence (n_Reporter n') = Some q' \<and>
       q < q' \<and> n_ObservedAt n < n_ObservedAt n')"
proof (cases "duplicateSequencedReport s ob")
  case True
  then show ?thesis
    using res keep by (auto simp: reduceSession_def Let_def split: sum.splits)
next
  case False
  obtain at' where at': "sequencedObservationTime s ob at = Inr at'"
    using res keep by (auto simp: reduceSession_def Let_def split: sum.splits)
  obtain q' where q': "rp_Sequence (r_Reporter rep) = Some q'" "q < q'" "n_ObservedAt n < at'"
    using sequence_follows [OF prev same q at' False] by blast
  let ?t = "transitionIncarnation s ob at False"
  have app: "applyObservation r ob at' received ?t s = Inr s'" and m': "m' = m"
    using res keep False at' by (auto simp: reduceSession_def Let_def split: sum.splits if_splits)
  have "s' = s \<or> s' = update_session (re_Policy r (s_Harness s)) ob at' received ?t s"
    using app by (auto simp: applyObservation_def Let_def split: if_splits)
  then show ?thesis
  proof
    assume s': "s' = update_session (re_Policy r (s_Harness s)) ob at' received ?t s"
    show ?thesis
      using q' prev(2)
      by (simp add: s' update_session_observations storeObservation_def storeNativeObservation_def
          native_slot_def ob_Report_def Let_def)
  qed (use m' in simp)
qed

subsection \<open>Reports of ended processes\<close>

lemma endedProcessKey_inject:
  "endedProcessKey p = endedProcessKey q \<longleftrightarrow> p_PID p = p_PID q \<and> p_StartIdentity p = p_StartIdentity q"
  using append_sep_inject [OF itoa_no_colon itoa_no_colon, where us = "p_StartIdentity p" and vs = "p_StartIdentity q"]
  by (simp add: endedProcessKey_def itoa_inject)

lemma removed_process_ended:
  assumes "x \<in> set (sn_Sessions sn)" "spent (snd x)" "s_Process (snd x) = Some p" "process_complete p"
    and "process_equal p q" "ob_Kind ob = ''report''" "ob_Process ob = Some q"
    and "findMatchingSession (sn_Sessions (fst (removeGoneProcessOnlySessions sn))) ob = []"
  shows "endedProcessReport (fst (removeGoneProcessOnlySessions sn)) ob"
proof -
  have "endedProcessKey q = endedProcessKey p"
    using assms(5) by (auto simp: endedProcessKey_inject process_equal_def)
  then have "map_of (sn_EndedProcesses (fst (removeGoneProcessOnlySessions sn))) (endedProcessKey q) \<noteq> None"
    unfolding removeGone_ended records_end_def using assms(1-4) by auto
  moreover have "process_complete q" using assms(4,5) process_equal_complete by blast
  ultimately show ?thesis using assms(6-8) by (simp add: endedProcessReport_def)
qed

end
