(* ===== verification/Aht_Json.thy ===== *)
theory Aht_Json
  imports Aht_Catalog
begin

section \<open>JSON values\<close>

text \<open>
  The values of \<open>encoding/json\<close> as the code meets them: a decoded number keeps its text, as
  \<open>UseNumber\<close> asks for, and a number the code makes itself is a float with an integral value. An
  object is a map; the numbers of its texts are read by a parameter.
\<close>

datatype json =
  JNull
| JBool bool
| JNumber string
| JFloat int
| JString string
| JArray "json list"
| JObject "(string \<times> json) list"

type_synonym json_object = "json go_map"

text \<open>A float is integral, or another number with the digits it is printed with.\<close>

datatype json_float = IntegralFloat int | OtherFloat string

type_synonym float_reader = "string \<Rightarrow> json_float option"

fun as_object :: "json \<Rightarrow> json_object option" where
  "as_object (JObject o') = Some o'"
| "as_object _ = None"

fun as_array :: "json \<Rightarrow> json list option" where
  "as_array (JArray xs) = Some xs"
| "as_array _ = None"

fun as_string :: "json \<Rightarrow> string option" where
  "as_string (JString s) = Some s"
| "as_string _ = None"

lemma zip_size_left [termination_simp]: "(x, y) \<in> set (zip xs ys) \<Longrightarrow> f x < Suc (size_list f xs)"
  by (auto dest!: set_zip_leftD size_list_estimation' [of _ _ "f x" f] simp: less_Suc_eq_le)

lemma zip_size_right [termination_simp]: "(x, y) \<in> set (zip xs ys) \<Longrightarrow> f y < Suc (size_list f ys)"
  by (auto dest!: set_zip_rightD size_list_estimation' [of _ _ "f y" f] simp: less_Suc_eq_le)

text \<open>\<open>reflect.DeepEqual\<close> on such values.\<close>

fun deep_equal :: "json \<Rightarrow> json \<Rightarrow> bool" where
  "deep_equal JNull JNull = True"
| "deep_equal (JBool a) (JBool b) = (a = b)"
| "deep_equal (JNumber a) (JNumber b) = (a = b)"
| "deep_equal (JFloat a) (JFloat b) = (a = b)"
| "deep_equal (JString a) (JString b) = (a = b)"
| "deep_equal (JArray xs) (JArray ys) =
     (length xs = length ys \<and> list_all (\<lambda>(x, y). deep_equal x y) (zip xs ys))"
| "deep_equal (JObject m) (JObject n) =
     (length m = length n
      \<and> list_all (\<lambda>(k, v). case map_of m k of None \<Rightarrow> False | Some w \<Rightarrow> deep_equal w v) n)"
| "deep_equal _ _ = False"

text \<open>What a file that was written holds when it is read again: numbers have become texts.\<close>

fun reread :: "json \<Rightarrow> json" where
  "reread (JFloat n) = JNumber (itoa n)"
| "reread (JArray xs) = JArray (map reread xs)"
| "reread (JObject m) = JObject (map (\<lambda>(k, v). (k, reread v)) m)"
| "reread v = v"

definition reread_object :: "json_object \<Rightarrow> json_object" where
  "reread_object m = map (\<lambda>(k, v). (k, reread v)) m"

end
