(* ===== verification/Aht_Hooks.thy ===== *)
theory Aht_Hooks
  imports Aht_Json Aht_Journal
begin

section \<open>Hooks in configuration files: \<open>internal/install/hooks.go\<close>, \<open>harness_plan.go\<close>, \<open>remove.go\<close>\<close>

text \<open>
  An integration is installed as commands in the JSON configuration of an agent, among the commands
  of the user. The file is read, changed in memory and written when something changed; an error
  leaves it as it is. \<open>split\<close> is the word splitter of a shell, \<open>fl\<close> reads the numbers of JSON.
\<close>

datatype install_error =
  ErrHookConfigShape string
| ErrManagedBlockMarker
| ErrInstallIO string
| ErrTrailingData
| ErrForeignFile string
| ErrSliceBounds

definition managedMarker :: string where
  "managedMarker = ''aht managed integration''"

definition HookTimeoutSeconds :: int where
  "HookTimeoutSeconds = 5"

record command_hook =
  ch_Event :: string
  ch_Matcher :: string
  ch_Command :: string

record hook_plan =
  hp_Source :: string
  hp_StatusMessage :: string
  hp_OmitStatusMessage :: bool
  hp_HooksAtRoot :: bool
  hp_Hooks :: "command_hook list"

record cursor_hook =
  cr_Event :: string
  cr_Command :: string

record cursor_plan =
  cp_Source :: string
  cp_Hooks :: "cursor_hook list"

subsection \<open>Shell words\<close>

definition isSafeShellRune :: "char \<Rightarrow> bool" where
  "isSafeShellRune c =
     (c \<in> set ''/._-+:='' \<or> (CHR ''0'' \<le> c \<and> c \<le> CHR ''9'') \<or> (CHR ''A'' \<le> c \<and> c \<le> CHR ''Z'')
      \<or> (CHR ''a'' \<le> c \<and> c \<le> CHR ''z''))"

definition QUOTE :: char where
  "QUOTE = CHR 0x27"

definition DQUOTE :: char where
  "DQUOTE = CHR 0x22"

definition ShellQuote :: "string \<Rightarrow> string" where
  "ShellQuote v =
     (if v = [] then [QUOTE, QUOTE]
      else if list_all isSafeShellRune v then v
      else QUOTE # concat (map (\<lambda>c. if c = QUOTE then [QUOTE, DQUOTE, QUOTE, DQUOTE, QUOTE] else [c]) v)
           @ [QUOTE])"

text \<open>\<open>reportHookCommand\<close>: the command a hook runs; \<open>flag\<close> and \<open>state\<close> are its transition.\<close>

definition reportHookCommand ::
    "string \<Rightarrow> harness \<Rightarrow> string \<Rightarrow> string \<Rightarrow> string \<Rightarrow> string \<Rightarrow> string \<Rightarrow> string" where
  "reportHookCommand binary h flag state event source stdinFlag =
     join '' '' ([ShellQuote binary, ''report'', ShellQuote h, flag, ShellQuote state]
       @ (if event \<noteq> [] then [''--event'', ShellQuote event] else [])
       @ [''--reporter-version'', ShellQuote (itoa IntegrationVersion), ''--reporter'', ShellQuote source,
          stdinFlag, ''--quiet''])"

subsection \<open>Which commands are managed\<close>

text \<open>
  The pattern of a source: an option that names a reporter, a source or an integration, an opening
  quote that may be missing, the source, and a quote, white space or the end. \<open>tag_ends\<close> matches
  from the end of the option.
\<close>

definition regex_space :: "char set" where
  "regex_space = {CHR 0x09, CHR 0x0A, CHR 0x0C, CHR 0x0D, CHR 0x20}"

definition any_quote :: "char set" where
  "any_quote = {QUOTE, DQUOTE}"

definition tag_value :: "string \<Rightarrow> string \<Rightarrow> bool" where
  "tag_value source t =
     (has_prefix t source
      \<and> (case drop (length source) t of [] \<Rightarrow> True | c # _ \<Rightarrow> c \<in> any_quote \<or> c \<in> regex_space))"

definition tag_quoted :: "string \<Rightarrow> string \<Rightarrow> bool" where
  "tag_quoted source t =
     (tag_value source t \<or> (case t of [] \<Rightarrow> False | c # t' \<Rightarrow> c \<in> any_quote \<and> tag_value source t'))"

fun tag_spaced :: "string \<Rightarrow> string \<Rightarrow> bool" where
  "tag_spaced source [] = False"
| "tag_spaced source (c # t) = (c \<in> regex_space \<and> (tag_quoted source t \<or> tag_spaced source t))"

definition tag_here :: "string \<Rightarrow> string \<Rightarrow> bool" where
  "tag_here source t =
     ((has_prefix t ''--reporter'' \<and> tag_spaced source (drop 10 t))
      \<or> (has_prefix t ''--source'' \<and> tag_spaced source (drop 8 t))
      \<or> (\<exists>p \<in> set [''aht_integration='', ''aht-integration='', ''ahtintegration=''].
           has_prefix t p \<and> tag_quoted source (drop (length p) t)))"

fun tagged :: "string \<Rightarrow> string \<Rightarrow> bool" where
  "tagged source [] = tag_here source []"
| "tagged source (c # t) = (tag_here source (c # t) \<or> tagged source t)"

definition managedSource :: "string \<Rightarrow> harness \<Rightarrow> string" where
  "managedSource source h = (if trim_space source = [] then h @ ''-hook'' else trim_space source)"

text \<open>The adapters that handle hooks themselves.\<close>

definition handles_hooks :: "harness \<Rightarrow> bool" where
  "handles_hooks h = (h \<in> set [''claude'', ''agy''])"

definition nativeHookIDForSource :: "string \<Rightarrow> string" where
  "nativeHookIDForSource source =
     (case find (\<lambda>a. hd_IntegrationSource (ad_Definition a) = source) adapters of
        None \<Rightarrow> []
      | Some a \<Rightarrow> if handles_hooks (hd_ID (ad_Definition a)) then hd_ID (ad_Definition a) else [])"

definition canonicalNativeHookWords :: "string \<Rightarrow> string \<Rightarrow> string list \<Rightarrow> bool" where
  "canonicalNativeHookWords command nativeID words =
     (nativeID \<noteq> [] \<and> length words = 6 \<and> words ! 1 = ''--json'' \<and> words ! 2 = ''hook''
      \<and> words ! 3 = nativeID \<and> words ! 4 = ''--event'' \<and> words ! 5 \<noteq> []
      \<and> command = join '' '' (map ShellQuote words))"

definition canonicalNativeHookCommand ::
    "(string \<Rightarrow> string list option) \<Rightarrow> string \<Rightarrow> string \<Rightarrow> string list \<Rightarrow> bool" where
  "canonicalNativeHookCommand split command nativeID binaries =
     (case split command of
        None \<Rightarrow> False
      | Some words \<Rightarrow>
          words \<noteq> [] \<and> hd words \<in> set binaries \<and> canonicalNativeHookWords command nativeID words)"

definition ownedHookBinary ::
    "(string \<Rightarrow> string list option) \<Rightarrow> string \<Rightarrow> string \<Rightarrow> json_object \<Rightarrow> string" where
  "ownedHookBinary split source nativeID hook =
     (case Option.bind (map_of hook ''command'') as_string of
        None \<Rightarrow> []
      | Some command \<Rightarrow>
          (let tag = tagged source command;
               marked = (map_of hook ''statusMessage'' = Some (JString managedMarker))
           in if \<not> tag \<and> \<not> marked then []
              else case split command of
                None \<Rightarrow> []
              | Some words \<Rightarrow>
                  if length words < 3 then []
                  else if tag \<and> words ! 1 = ''report'' then hd words
                  else if marked \<and> canonicalNativeHookWords command nativeID words then hd words
                  else []))"

fun collectOwnedHookBinaries ::
    "(string \<Rightarrow> string list option) \<Rightarrow> string \<Rightarrow> string \<Rightarrow> json \<Rightarrow> string list" where
  "collectOwnedHookBinaries split source nativeID (JObject hook) =
     filter (\<lambda>b. b \<noteq> []) [ownedHookBinary split source nativeID hook]
     @ concat (map (\<lambda>(k, v). collectOwnedHookBinaries split source nativeID v) hook)"
| "collectOwnedHookBinaries split source nativeID (JArray xs) =
     concat (map (collectOwnedHookBinaries split source nativeID) xs)"
| "collectOwnedHookBinaries split source nativeID _ = []"

definition isManagedSourceHookCommand ::
    "(string \<Rightarrow> string list option) \<Rightarrow> string \<Rightarrow> json_object list \<Rightarrow> string \<Rightarrow> bool" where
  "isManagedSourceHookCommand split source configs command =
     (let nativeID = nativeHookIDForSource source;
          binaries = concat (map (\<lambda>c. collectOwnedHookBinaries split source nativeID (JObject c)) configs)
      in tagged source command
         \<or> (nativeID \<noteq> [] \<and> canonicalNativeHookCommand split command nativeID binaries))"

subsection \<open>Comparing hooks\<close>

fun toFloat64 :: "float_reader \<Rightarrow> json \<Rightarrow> json_float option" where
  "toFloat64 fl (JNumber t) = fl t"
| "toFloat64 fl (JFloat n) = Some (IntegralFloat n)"
| "toFloat64 fl _ = None"

definition numbersEqual :: "float_reader \<Rightarrow> json \<Rightarrow> json \<Rightarrow> bool" where
  "numbersEqual fl a b =
     (case (toFloat64 fl a, toFloat64 fl b) of
        (Some x, Some y) \<Rightarrow> x = y
      | _ \<Rightarrow> deep_equal a b)"

definition commandHookEqual :: "float_reader \<Rightarrow> json_object \<Rightarrow> json_object \<Rightarrow> bool" where
  "commandHookEqual fl actual desired =
     (length actual = length desired
      \<and> list_all (\<lambda>(k, dv). case map_of actual k of
            None \<Rightarrow> False
          | Some av \<Rightarrow>
              if k = ''timeout'' \<or> k = ''timeoutSec'' then numbersEqual fl av dv else deep_equal av dv)
          desired)"

definition hookSlicesEqual :: "float_reader \<Rightarrow> json \<Rightarrow> json \<Rightarrow> bool" where
  "hookSlicesEqual fl actual desired =
     (case (as_array actual, as_array desired) of
        (Some ah, Some dh) \<Rightarrow>
          length ah = length dh
          \<and> list_all (\<lambda>(a, d). case (as_object a, as_object d) of
                (Some am, Some dm) \<Rightarrow> commandHookEqual fl am dm
              | _ \<Rightarrow> deep_equal a d) (zip ah dh)
      | _ \<Rightarrow> False)"

definition commandHookGroupEqual :: "float_reader \<Rightarrow> json_object \<Rightarrow> json_object \<Rightarrow> bool" where
  "commandHookGroupEqual fl actual desired =
     (length actual = length desired
      \<and> list_all (\<lambda>(k, dv). case map_of actual k of
            None \<Rightarrow> False
          | Some av \<Rightarrow> if k = ''hooks'' then hookSlicesEqual fl av dv else deep_equal av dv)
          desired)"

subsection \<open>Groups of hooks\<close>

definition commandHookGroup :: "string \<Rightarrow> string \<Rightarrow> string \<Rightarrow> int \<Rightarrow> json" where
  "commandHookGroup command matcher statusMessage timeoutSeconds =
     (let t = (if timeoutSeconds \<le> 0 then HookTimeoutSeconds else timeoutSeconds);
          hook = [(''type'', JString ''command''), (''command'', JString command), (''timeout'', JFloat t)]
                 @ (if statusMessage \<noteq> [] then [(''statusMessage'', JString statusMessage)] else [])
      in JObject ([(''hooks'', JArray [JObject hook])]
                  @ (if matcher \<noteq> [] then [(''matcher'', JString matcher)] else [])))"

text \<open>The command of a hook, where it is managed, and the hooks of a group.\<close>

definition managed_hook :: "(string \<Rightarrow> bool) \<Rightarrow> json \<Rightarrow> bool" where
  "managed_hook managed hook =
     (case Option.bind (Option.bind (as_object hook) (\<lambda>h. map_of h ''command'')) as_string of
        None \<Rightarrow> False
      | Some command \<Rightarrow> managed command)"

definition group_hooks :: "json \<Rightarrow> json list option" where
  "group_hooks g = Option.bind (Option.bind (as_object g) (\<lambda>o'. map_of o' ''hooks'')) as_array"

definition countManagedHooks :: "json list \<Rightarrow> (string \<Rightarrow> bool) \<Rightarrow> nat" where
  "countManagedHooks hooks managed = length (filter (managed_hook managed) hooks)"

text \<open>The loop of \<open>managedCommandHookGroupsCurrent\<close> with its two counters.\<close>

fun groups_current ::
    "float_reader \<Rightarrow> (string \<Rightarrow> bool) \<Rightarrow> json list \<Rightarrow> nat \<Rightarrow> nat \<Rightarrow> json list \<Rightarrow> bool" where
  "groups_current fl managed desired managedCount desiredCount [] =
     (managedCount = length desired \<and> desiredCount = length desired)"
| "groups_current fl managed desired managedCount desiredCount (g # gs) =
     (case (as_object g, group_hooks g) of
        (Some grp, Some hooks) \<Rightarrow>
          (let n = countManagedHooks hooks managed in
           if n = 0 then groups_current fl managed desired managedCount desiredCount gs
           else if desiredCount \<ge> length desired then False
           else case as_object (desired ! desiredCount) of
             None \<Rightarrow> False
           | Some d \<Rightarrow>
               commandHookGroupEqual fl grp d
               \<and> groups_current fl managed desired (managedCount + n) (desiredCount + 1) gs)
      | _ \<Rightarrow> groups_current fl managed desired managedCount desiredCount gs)"

definition managedCommandHookGroupsCurrent ::
    "float_reader \<Rightarrow> json list \<Rightarrow> json list \<Rightarrow> (string \<Rightarrow> bool) \<Rightarrow> bool" where
  "managedCommandHookGroupsCurrent fl groups desired managed = groups_current fl managed desired 0 0 groups"

text \<open>A group without its managed hooks; \<open>None\<close> for a group that only had managed ones.\<close>

definition cleaned_group :: "(string \<Rightarrow> bool) \<Rightarrow> json \<Rightarrow> json option" where
  "cleaned_group managed g =
     (case (as_object g, group_hooks g) of
        (Some grp, Some hooks) \<Rightarrow>
          if \<not> list_ex (managed_hook managed) hooks then Some g
          else (let kept = filter (\<lambda>h. \<not> managed_hook managed h) hooks
                in if kept = [] then None else Some (JObject (map_put ''hooks'' (JArray kept) grp)))
      | _ \<Rightarrow> Some g)"

definition removeManagedCommandHookGroups :: "(string \<Rightarrow> bool) \<Rightarrow> json list \<Rightarrow> json list \<times> bool" where
  "removeManagedCommandHookGroups managed groups =
     (List.map_filter (cleaned_group managed) groups,
      list_ex (\<lambda>g. case group_hooks g of None \<Rightarrow> False | Some hooks \<Rightarrow> list_ex (managed_hook managed) hooks)
        groups)"

subsection \<open>Events\<close>

text \<open>The object of the hooks; a missing or null one is made.\<close>

definition hooksObject :: "json_object \<Rightarrow> install_error + json_object" where
  "hooksObject config =
     (case map_of config ''hooks'' of
        None \<Rightarrow> Inr []
      | Some JNull \<Rightarrow> Inr []
      | Some (JObject hooks) \<Rightarrow> Inr hooks
      | _ \<Rightarrow> Inl (ErrHookConfigShape ''hooks is not an object''))"

definition hookEventList :: "json_object \<Rightarrow> string \<Rightarrow> install_error + json list" where
  "hookEventList hooks event =
     (case map_of hooks event of
        None \<Rightarrow> Inr []
      | Some JNull \<Rightarrow> Inr []
      | Some (JArray xs) \<Rightarrow> Inr xs
      | _ \<Rightarrow> Inl (ErrHookConfigShape event))"

definition upsertManagedCommandHookGroups ::
    "float_reader \<Rightarrow> json list \<Rightarrow> (string \<Rightarrow> bool) \<Rightarrow> json_object \<Rightarrow> string
     \<Rightarrow> install_error + json_object \<times> bool" where
  "upsertManagedCommandHookGroups fl desired managed hooks event =
     (case hookEventList hooks event of
        Inl e \<Rightarrow> Inl e
      | Inr groups \<Rightarrow>
          if managedCommandHookGroupsCurrent fl groups desired managed then Inr (hooks, False)
          else Inr (map_put event (JArray (fst (removeManagedCommandHookGroups managed groups) @ desired)) hooks,
                    True))"

definition removeManagedJSONHookEvent ::
    "(json list \<Rightarrow> json list \<times> bool) \<Rightarrow> json_object \<Rightarrow> string \<Rightarrow> json_object \<times> bool" where
  "removeManagedJSONHookEvent removeGroups hooks event =
     (case map_of hooks event of
        Some (JArray groups) \<Rightarrow>
          (let (cleaned, removed) = removeGroups groups in
           if \<not> removed then (hooks, False)
           else if cleaned = [] then (map_del event hooks, True)
           else (map_put event (JArray cleaned) hooks, True))
      | _ \<Rightarrow> (hooks, False))"

text \<open>A loop that removes at some keys of a map and tells whether one of them changed.\<close>

fun remove_events ::
    "(json list \<Rightarrow> json list \<times> bool) \<Rightarrow> json_object \<times> bool \<Rightarrow> string list \<Rightarrow> json_object \<times> bool" where
  "remove_events removeGroups acc [] = acc"
| "remove_events removeGroups (hooks, changed) (event # events) =
     (let (hooks', removed) = removeManagedJSONHookEvent removeGroups hooks event
      in remove_events removeGroups (hooks', changed \<or> removed) events)"

definition removeManagedCommandHookEvents :: "(string \<Rightarrow> bool) \<Rightarrow> json_object \<Rightarrow> json_object \<times> bool" where
  "removeManagedCommandHookEvents managed hooks =
     remove_events (removeManagedCommandHookGroups managed) (hooks, False) (map fst hooks)"

definition removeWrappedCommandHooks :: "(string \<Rightarrow> bool) \<Rightarrow> json_object \<Rightarrow> json_object \<times> bool" where
  "removeWrappedCommandHooks managed config =
     (case map_of config ''hooks'' of
        Some (JObject hooks) \<Rightarrow>
          (let (hooks', changed) = removeManagedCommandHookEvents managed hooks in
           if changed \<and> hooks' = [] then (map_del ''hooks'' config, True)
           else (map_put ''hooks'' (JObject hooks') config, changed))
      | _ \<Rightarrow> (config, False))"

subsection \<open>Installing command hooks\<close>

definition HookTimeoutSecondsFor :: "harness \<Rightarrow> string \<Rightarrow> int" where
  "HookTimeoutSecondsFor h event =
     (if h = ''codex'' \<and> (event = ''SessionEnd'' \<or> event = ''Interrupt'') then 3 else HookTimeoutSeconds)"

definition status_message :: "hook_plan \<Rightarrow> string" where
  "status_message plan =
     (let m = trim_space (hp_StatusMessage plan)
      in if \<not> hp_OmitStatusMessage plan \<and> m = [] then managedMarker else m)"

definition desired_groups :: "harness \<Rightarrow> hook_plan \<Rightarrow> string \<Rightarrow> json list" where
  "desired_groups h plan event =
     map (\<lambda>c. commandHookGroup (ch_Command c) (ch_Matcher c) (status_message plan)
                (HookTimeoutSecondsFor h (ch_Event c)))
       (filter (\<lambda>c. ch_Event c = event) (hp_Hooks plan))"

text \<open>\<open>buildJSONCommandHooks\<close>: the events in the order they first occur, the groups wanted for each,
  and the commands as a configuration.\<close>

definition plan_events :: "hook_plan \<Rightarrow> string list" where
  "plan_events plan = rev (remdups (rev (map ch_Event (hp_Hooks plan))))"

definition desired_config :: "hook_plan \<Rightarrow> json_object" where
  "desired_config plan =
     [(''hooks'', JArray (map (\<lambda>c. JObject [(''command'', JString (ch_Command c))]) (hp_Hooks plan)))]"

fun upsert_events ::
    "float_reader \<Rightarrow> (string \<Rightarrow> json list) \<Rightarrow> (string \<Rightarrow> bool) \<Rightarrow> json_object \<times> bool \<Rightarrow> string list
     \<Rightarrow> install_error + json_object \<times> bool" where
  "upsert_events fl desired managed acc [] = Inr acc"
| "upsert_events fl desired managed (hooks, changed) (event # events) =
     (case upsertManagedCommandHookGroups fl (desired event) managed hooks event of
        Inl e \<Rightarrow> Inl e
      | Inr (hooks', updated) \<Rightarrow> upsert_events fl desired managed (hooks', changed \<or> updated) events)"

text \<open>The commands that are managed while a plan is applied to a configuration.\<close>

definition plan_managed ::
    "(string \<Rightarrow> string list option) \<Rightarrow> harness \<Rightarrow> hook_plan \<Rightarrow> json_object \<Rightarrow> string \<Rightarrow> bool" where
  "plan_managed split h plan config =
     isManagedSourceHookCommand split (managedSource (hp_Source plan) h) [config, desired_config plan]"

definition install_events ::
    "float_reader \<Rightarrow> harness \<Rightarrow> hook_plan \<Rightarrow> (string \<Rightarrow> bool) \<Rightarrow> json_object \<times> bool
     \<Rightarrow> install_error + json_object \<times> bool" where
  "install_events fl h plan managed acc =
     (case upsert_events fl (desired_groups h plan) managed acc (plan_events plan) of
        Inl e \<Rightarrow> Inl e
      | Inr (hooks, changed) \<Rightarrow>
          Inr (remove_events (removeManagedCommandHookGroups managed) (hooks, changed)
                 (filter (\<lambda>event. event \<notin> set (plan_events plan)) (map fst hooks))))"

definition applyJSONCommandHooks ::
    "(string \<Rightarrow> string list option) \<Rightarrow> float_reader \<Rightarrow> harness \<Rightarrow> hook_plan \<Rightarrow> json_object
     \<Rightarrow> install_error + json_object \<times> bool" where
  "applyJSONCommandHooks split fl h plan config =
     (let managed = plan_managed split h plan config in
      if hp_HooksAtRoot plan
      then install_events fl h plan managed (removeWrappedCommandHooks managed config)
      else case hooksObject config of
        Inl e \<Rightarrow> Inl e
      | Inr hooks \<Rightarrow>
          (case install_events fl h plan managed (hooks, False) of
             Inl e \<Rightarrow> Inl e
           | Inr (hooks', changed) \<Rightarrow> Inr (map_put ''hooks'' (JObject hooks') config, changed)))"

definition removeJSONCommandHooks ::
    "(string \<Rightarrow> string list option) \<Rightarrow> harness \<Rightarrow> hook_plan \<Rightarrow> json_object \<Rightarrow> json_object \<times> bool" where
  "removeJSONCommandHooks split h plan config =
     (let managed = isManagedSourceHookCommand split (managedSource (hp_Source plan) h) [config];
          (config', changed) = removeWrappedCommandHooks managed config
      in if hp_HooksAtRoot plan
         then (let (config'', changed') = removeManagedCommandHookEvents managed config'
               in (config'', changed' \<or> changed))
         else (config', changed))"

subsection \<open>Installing the hooks of Cursor\<close>

definition ensureCursorVersion :: "json_object \<Rightarrow> json_object \<times> bool" where
  "ensureCursorVersion config =
     (case map_of config ''version'' of
        Some _ \<Rightarrow> (config, False)
      | None \<Rightarrow> (map_put ''version'' (JFloat 1) config, True))"

text \<open>The command of a definition.\<close>

definition hook_command :: "json \<Rightarrow> string option" where
  "hook_command hook = Option.bind (Option.bind (as_object hook) (\<lambda>h. map_of h ''command'')) as_string"

definition countManagedCursorHooks :: "json list \<Rightarrow> string \<Rightarrow> (string \<Rightarrow> bool) \<Rightarrow> nat \<times> nat" where
  "countManagedCursorHooks definitions command managed =
     (let owned = filter (managed_hook managed) definitions
      in (length owned, length (filter (\<lambda>h. hook_command h = Some command) owned)))"

definition removeManagedCursorHooks :: "(string \<Rightarrow> bool) \<Rightarrow> json list \<Rightarrow> json list \<times> bool" where
  "removeManagedCursorHooks managed definitions =
     (filter (\<lambda>h. \<not> managed_hook managed h) definitions, list_ex (managed_hook managed) definitions)"

definition cursor_definition_for :: "string \<Rightarrow> json" where
  "cursor_definition_for command =
     JObject [(''command'', JString command), (''timeout'', JFloat HookTimeoutSeconds)]"

definition upsertCursorHook ::
    "(string \<Rightarrow> bool) \<Rightarrow> json_object \<Rightarrow> string \<Rightarrow> string \<Rightarrow> install_error + json_object \<times> bool" where
  "upsertCursorHook managed config event command =
     (case hooksObject config of
        Inl e \<Rightarrow> Inl e
      | Inr hooks \<Rightarrow>
          (case hookEventList hooks event of
             Inl e \<Rightarrow> Inl e
           | Inr definitions \<Rightarrow>
               if countManagedCursorHooks definitions command managed = (1, 1)
               then Inr (map_put ''hooks'' (JObject hooks) config, False)
               else Inr (map_put ''hooks''
                 (JObject (map_put event
                    (JArray (fst (removeManagedCursorHooks managed definitions) @ [cursor_definition_for command]))
                    hooks)) config, True)))"

fun upsert_cursor_hooks ::
    "(string \<Rightarrow> bool) \<Rightarrow> json_object \<times> bool \<Rightarrow> cursor_hook list \<Rightarrow> install_error + json_object \<times> bool" where
  "upsert_cursor_hooks managed acc [] = Inr acc"
| "upsert_cursor_hooks managed (config, changed) (hook # hooks) =
     (case upsertCursorHook managed config (cr_Event hook) (cr_Command hook) of
        Inl e \<Rightarrow> Inl e
      | Inr (config', updated) \<Rightarrow> upsert_cursor_hooks managed (config', changed \<or> updated) hooks)"

definition applyCursorJSONHooks ::
    "(string \<Rightarrow> string list option) \<Rightarrow> harness \<Rightarrow> cursor_plan \<Rightarrow> json_object
     \<Rightarrow> install_error + json_object \<times> bool" where
  "applyCursorJSONHooks split h plan config =
     upsert_cursor_hooks (isManagedSourceHookCommand split (managedSource (cp_Source plan) h) [config])
       (ensureCursorVersion config) (cp_Hooks plan)"

definition removeCursorJSONHooks ::
    "(string \<Rightarrow> string list option) \<Rightarrow> harness \<Rightarrow> cursor_plan \<Rightarrow> json_object \<Rightarrow> json_object \<times> bool" where
  "removeCursorJSONHooks split h plan config =
     (case map_of config ''hooks'' of
        Some (JObject hooks) \<Rightarrow>
          (let managed = isManagedSourceHookCommand split (managedSource (cp_Source plan) h) [config];
               (hooks', changed) = remove_events (removeManagedCursorHooks managed) (hooks, False)
                 (map cr_Event (cp_Hooks plan))
           in (map_put ''hooks'' (JObject hooks') config, changed))
      | _ \<Rightarrow> (config, False))"

subsection \<open>The files\<close>

text \<open>What a configuration file holds. A file that was written is read again with its numbers as texts.\<close>

datatype config_file =
  ConfigMissing
| ConfigUnreadable
| ConfigBlank
| ConfigInvalid
| ConfigTrailing
| ConfigNull
| ConfigObject json_object

definition readJSONObject :: "config_file \<Rightarrow> install_error + json_object" where
  "readJSONObject f =
     (case f of
        ConfigMissing \<Rightarrow> Inr []
      | ConfigUnreadable \<Rightarrow> Inl (ErrInstallIO ''reading'')
      | ConfigBlank \<Rightarrow> Inr []
      | ConfigInvalid \<Rightarrow> Inl (ErrInstallIO ''parsing'')
      | ConfigTrailing \<Rightarrow> Inl ErrTrailingData
      | ConfigNull \<Rightarrow> Inr []
      | ConfigObject config \<Rightarrow> Inr config)"

text \<open>\<open>writeFileAtomic\<close> replaces the file by a rename, whose directory may then fail to be synced.\<close>

definition write_config :: "write_result \<Rightarrow> json_object \<Rightarrow> config_file \<Rightarrow> install_error option \<times> config_file" where
  "write_config w config f =
     (case w of
        Written \<Rightarrow> (None, ConfigObject (reread_object config))
      | Failed \<Rightarrow> (Some (ErrInstallIO ''writing''), f)
      | Unsynced \<Rightarrow> (Some (ErrInstallIO ''syncing''), ConfigObject (reread_object config)))"

text \<open>Whether something changed, where the operation succeeds.\<close>

definition installJSONHookFile ::
    "bool \<Rightarrow> write_result \<Rightarrow> (json_object \<Rightarrow> install_error + json_object \<times> bool) \<Rightarrow> config_file
     \<Rightarrow> (install_error + bool) \<times> config_file" where
  "installJSONHookFile dry w apply_to f =
     (case readJSONObject f of
        Inl e \<Rightarrow> (Inl e, f)
      | Inr config \<Rightarrow>
          (case apply_to config of
             Inl e \<Rightarrow> (Inl e, f)
           | Inr (config', changed) \<Rightarrow>
               if \<not> changed \<or> dry then (Inr changed, f)
               else (case write_config w config' f of
                       (Some e, f') \<Rightarrow> (Inl e, f')
                     | (None, f') \<Rightarrow> (Inr changed, f'))))"

definition removeJSONHooks ::
    "bool \<Rightarrow> write_result \<Rightarrow> (json_object \<Rightarrow> json_object \<times> bool) \<Rightarrow> config_file
     \<Rightarrow> (install_error + bool) \<times> config_file" where
  "removeJSONHooks dry w apply_to f =
     (case readJSONObject f of
        Inl e \<Rightarrow> (Inl e, f)
      | Inr config \<Rightarrow>
          (let (config', changed) = apply_to config in
           if changed \<and> \<not> dry
           then (case write_config w config' f of
                   (Some e, f') \<Rightarrow> (Inl e, f')
                 | (None, f') \<Rightarrow> (Inr changed, f'))
           else (Inr changed, f)))"

end
