(* ===== verification/Aht_HooksFacts.thy ===== *)
theory Aht_HooksFacts
  imports Aht_Hooks
begin

section \<open>What installing and removing do to a configuration\<close>

text \<open>
  Per event, both operations are functions on the value the event has; \<open>installed\<close> and \<open>removed\<close>
  are these functions, and the loops apply them at the events they run over.
\<close>

definition has_managed :: "(string \<Rightarrow> bool) \<Rightarrow> json list \<Rightarrow> bool" where
  "has_managed managed groups =
     list_ex (\<lambda>g. case group_hooks g of None \<Rightarrow> False | Some hooks \<Rightarrow> list_ex (managed_hook managed) hooks)
       groups"

definition cleaned_groups :: "(string \<Rightarrow> bool) \<Rightarrow> json list \<Rightarrow> json list" where
  "cleaned_groups managed groups = List.map_filter (cleaned_group managed) groups"

lemma remove_groups [simp]:
  "removeManagedCommandHookGroups managed groups = (cleaned_groups managed groups, has_managed managed groups)"
  by (simp add: removeManagedCommandHookGroups_def cleaned_groups_def has_managed_def)

definition groups_of :: "json option \<Rightarrow> json list" where
  "groups_of v = (case v of Some (JArray groups) \<Rightarrow> groups | _ \<Rightarrow> [])"

definition removed :: "(string \<Rightarrow> bool) \<Rightarrow> json option \<Rightarrow> json option" where
  "removed managed v =
     (if \<not> has_managed managed (groups_of v) then v
      else if cleaned_groups managed (groups_of v) = [] then None
      else Some (JArray (cleaned_groups managed (groups_of v))))"

definition installed ::
    "float_reader \<Rightarrow> (string \<Rightarrow> bool) \<Rightarrow> json list \<Rightarrow> json option \<Rightarrow> json option" where
  "installed fl managed desired v =
     (if managedCommandHookGroupsCurrent fl (groups_of v) desired managed then v
      else Some (JArray (cleaned_groups managed (groups_of v) @ desired)))"

lemma cleaned_groups_simps [simp]:
  "cleaned_groups managed [] = []"
  "cleaned_groups managed (g # gs) =
     (case cleaned_group managed g of None \<Rightarrow> [] | Some g' \<Rightarrow> [g']) @ cleaned_groups managed gs"
  "cleaned_groups managed (gs @ gs') = cleaned_groups managed gs @ cleaned_groups managed gs'"
  by (simp_all add: cleaned_groups_def List.map_filter_def split: option.split)

lemma has_managed_simps [simp]:
  "\<not> has_managed managed []"
  "has_managed managed (g # gs) \<longleftrightarrow>
     (case group_hooks g of None \<Rightarrow> False | Some hooks \<Rightarrow> list_ex (managed_hook managed) hooks)
     \<or> has_managed managed gs"
  "has_managed managed (gs @ gs') \<longleftrightarrow> has_managed managed gs \<or> has_managed managed gs'"
  by (simp_all add: has_managed_def)

lemma group_hooks_object: "group_hooks g = Some hooks \<Longrightarrow> \<exists>grp. g = JObject grp \<and> map_of grp ''hooks'' = Some (JArray hooks)"
  by (cases g) (auto simp: group_hooks_def bind_eq_Some_conv elim!: as_array.elims)

lemma group_hooks_put [simp]: "group_hooks (JObject (map_put ''hooks'' (JArray kept) grp)) = Some kept"
  by (simp add: group_hooks_def)

text \<open>The three forms of a cleaned group.\<close>

lemma cleaned_group_cases:
  obtains (other) "group_hooks g = None" "cleaned_group managed g = Some g"
  | (unmanaged) hooks where "group_hooks g = Some hooks" "\<not> list_ex (managed_hook managed) hooks"
      "cleaned_group managed g = Some g"
  | (gone) hooks where "group_hooks g = Some hooks" "list_ex (managed_hook managed) hooks"
      "filter (\<lambda>h. \<not> managed_hook managed h) hooks = []" "cleaned_group managed g = None"
  | (kept) grp hooks where "g = JObject grp" "group_hooks g = Some hooks" "list_ex (managed_hook managed) hooks"
      "filter (\<lambda>h. \<not> managed_hook managed h) hooks \<noteq> []"
      "cleaned_group managed g =
         Some (JObject (map_put ''hooks'' (JArray (filter (\<lambda>h. \<not> managed_hook managed h) hooks)) grp))"
proof (cases "group_hooks g")
  case None
  then have "cleaned_group managed g = Some g" by (simp add: cleaned_group_def split: option.split)
  with None other show ?thesis by blast
next
  case (Some hooks)
  then obtain grp where "g = JObject grp" using group_hooks_object by blast
  then show ?thesis
    using Some unmanaged gone kept by (fastforce simp: cleaned_group_def Let_def)
qed

lemma cleaned_no_managed: "\<not> has_managed managed (cleaned_groups managed groups)"
proof (induction groups)
  case (Cons g gs)
  show ?case
    by (cases managed g rule: cleaned_group_cases) (use Cons in \<open>auto simp: list_ex_iff\<close>)
qed simp

lemma cleaned_unmanaged: "\<not> has_managed managed groups \<Longrightarrow> cleaned_groups managed groups = groups"
proof (induction groups)
  case (Cons g gs)
  then show ?case by (cases managed g rule: cleaned_group_cases) auto
qed simp

lemma groups_of_removed [simp]: "groups_of (removed managed v) = cleaned_groups managed (groups_of v)"
  by (auto simp: removed_def cleaned_unmanaged groups_of_def)

lemma removed_idem [simp]: "removed managed (removed managed v) = removed managed v"
proof -
  have "\<not> has_managed managed (groups_of (removed managed v))"
    by (simp add: cleaned_no_managed)
  then show ?thesis by (simp add: removed_def [of managed "removed managed v"])
qed

subsection \<open>The loops\<close>

lemma removeManagedJSONHookEvent_lookup:
  "removeManagedJSONHookEvent (removeManagedCommandHookGroups managed) hooks event = (hooks', changed) \<Longrightarrow>
   map_of hooks' = (map_of hooks)(event := removed managed (map_of hooks event))
   \<and> changed = has_managed managed (groups_of (map_of hooks event))"
  by (auto simp: removeManagedJSONHookEvent_def removed_def groups_of_def fun_upd_idem_iff
      split: option.splits json.splits if_splits)

lemma remove_events_lookup:
  assumes "remove_events (removeManagedCommandHookGroups managed) (hooks, c) events = (hooks', changed)"
  shows "map_of hooks' = (\<lambda>e. if e \<in> set events then removed managed (map_of hooks e) else map_of hooks e)"
    and "changed = (c \<or> (\<exists>e \<in> set events. has_managed managed (groups_of (map_of hooks e))))"
  using assms
proof (induction events arbitrary: hooks c)
  case (Cons event events)
  case 1
  obtain h1 c1 where one: "removeManagedJSONHookEvent (removeManagedCommandHookGroups managed) hooks event = (h1, c1)"
    by (rule prod.exhaust)
  note look = removeManagedJSONHookEvent_lookup [OF one]
  from 1 one have "remove_events (removeManagedCommandHookGroups managed) (h1, c \<or> c1) events = (hooks', changed)"
    by (simp del: remove_groups)
  from Cons.IH(1) [OF this] look show ?case by (auto simp: fun_eq_iff)
next
  case (Cons event events)
  case 2
  obtain h1 c1 where one: "removeManagedJSONHookEvent (removeManagedCommandHookGroups managed) hooks event = (h1, c1)"
    by (rule prod.exhaust)
  note look = removeManagedJSONHookEvent_lookup [OF one]
  from 2 one have "remove_events (removeManagedCommandHookGroups managed) (h1, c \<or> c1) events = (hooks', changed)"
    by (simp del: remove_groups)
  from Cons.IH(2) [OF this] look show ?case by (auto simp: cleaned_no_managed)
qed simp_all

lemma upsert_lookup:
  assumes "upsertManagedCommandHookGroups fl desired managed hooks event = Inr (hooks', updated)"
  shows "map_of hooks' = (map_of hooks)(event := installed fl managed desired (map_of hooks event))"
    and "updated = (\<not> managedCommandHookGroupsCurrent fl (groups_of (map_of hooks event)) desired managed)"
proof -
  have "hookEventList hooks event = Inr (groups_of (map_of hooks event))"
    using assms by (auto simp: upsertManagedCommandHookGroups_def hookEventList_def groups_of_def
        split: sum.splits option.splits json.splits)
  with assms show "map_of hooks' = (map_of hooks)(event := installed fl managed desired (map_of hooks event))"
    "updated = (\<not> managedCommandHookGroupsCurrent fl (groups_of (map_of hooks event)) desired managed)"
    by (auto simp: upsertManagedCommandHookGroups_def installed_def fun_upd_idem_iff split: if_splits)
qed

lemma upsert_events_lookup:
  assumes "upsert_events fl desired managed (hooks, c) events = Inr (hooks', changed)" "distinct events"
  shows "map_of hooks' = (\<lambda>e. if e \<in> set events then installed fl managed (desired e) (map_of hooks e)
      else map_of hooks e)
    \<and> changed = (c \<or> (\<exists>e \<in> set events.
        \<not> managedCommandHookGroupsCurrent fl (groups_of (map_of hooks e)) (desired e) managed))"
  using assms
proof (induction events arbitrary: hooks c)
  case (Cons event events)
  from Cons.prems(1) obtain h1 u1 where
    one: "upsertManagedCommandHookGroups fl (desired event) managed hooks event = Inr (h1, u1)"
    and rest: "upsert_events fl desired managed (h1, c \<or> u1) events = Inr (hooks', changed)"
    by (auto split: sum.splits)
  have other: "map_of h1 e = map_of hooks e" if "e \<in> set events" for e
    using upsert_lookup(1) [OF one] Cons.prems(2) that by auto
  show ?case
    using Cons.IH [OF rest] Cons.prems(2) upsert_lookup [OF one] other by (auto simp: fun_eq_iff)
qed simp

lemma plan_events_distinct [simp]: "distinct (plan_events plan)"
  by (simp add: plan_events_def)

lemma plan_events_set [simp]: "set (plan_events plan) = ch_Event ` set (hp_Hooks plan)"
  by (simp add: plan_events_def)

definition planned :: "hook_plan \<Rightarrow> string \<Rightarrow> bool" where
  "planned plan e \<longleftrightarrow> e \<in> set (plan_events plan)"

lemma install_events_lookup:
  assumes "install_events fl h plan managed (hooks, c) = Inr (hooks', changed)"
  shows "map_of hooks' = (\<lambda>e. if planned plan e then installed fl managed (desired_groups h plan e) (map_of hooks e)
      else removed managed (map_of hooks e))"
    and "changed = (c \<or> (\<exists>e. if planned plan e
        then \<not> managedCommandHookGroupsCurrent fl (groups_of (map_of hooks e)) (desired_groups h plan e) managed
        else has_managed managed (groups_of (map_of hooks e))))"
proof -
  from assms obtain h1 c1 where
    up: "upsert_events fl (desired_groups h plan) managed (hooks, c) (plan_events plan) = Inr (h1, c1)"
    and rest: "remove_events (removeManagedCommandHookGroups managed) (h1, c1)
      (filter (\<lambda>event. event \<notin> set (plan_events plan)) (map fst h1)) = (hooks', changed)"
    by (auto simp: install_events_def simp del: remove_groups plan_events_set split: sum.splits)
  note u = upsert_events_lookup [OF up plan_events_distinct]
  have keys: "map_of h1 e = None" if "e \<notin> set (map fst h1)" for e
    using that by (simp add: map_of_eq_None_iff)
  have none: "groups_of None = []" by (simp add: groups_of_def)
  have same: "map_of h1 e = map_of hooks e" if "\<not> planned plan e" for e
    using u that by (simp add: planned_def del: plan_events_set)
  show "map_of hooks' = (\<lambda>e. if planned plan e then installed fl managed (desired_groups h plan e) (map_of hooks e)
      else removed managed (map_of hooks e))"
  proof
    fix e
    show "map_of hooks' e = (if planned plan e then installed fl managed (desired_groups h plan e) (map_of hooks e)
      else removed managed (map_of hooks e))"
      using remove_events_lookup(1) [OF rest] u same [of e] keys [of e]
      by (auto simp: planned_def removed_def none simp del: plan_events_set)
  qed
  have "(\<exists>e \<in> set (filter (\<lambda>event. event \<notin> set (plan_events plan)) (map fst h1)).
      has_managed managed (groups_of (map_of h1 e))) \<longleftrightarrow>
    (\<exists>e. \<not> planned plan e \<and> has_managed managed (groups_of (map_of hooks e)))"
  proof
    assume "\<exists>e. \<not> planned plan e \<and> has_managed managed (groups_of (map_of hooks e))"
    then obtain e where e: "\<not> planned plan e" "has_managed managed (groups_of (map_of h1 e))" using same by auto
    then have "e \<in> set (map fst h1)" using keys [of e] none by (metis has_managed_simps(1))
    with e show "\<exists>e \<in> set (filter (\<lambda>event. event \<notin> set (plan_events plan)) (map fst h1)).
      has_managed managed (groups_of (map_of h1 e))"
      by (auto simp: planned_def simp del: plan_events_set)
  next
    assume "\<exists>e \<in> set (filter (\<lambda>event. event \<notin> set (plan_events plan)) (map fst h1)).
      has_managed managed (groups_of (map_of h1 e))"
    then show "\<exists>e. \<not> planned plan e \<and> has_managed managed (groups_of (map_of hooks e))"
      using same by (auto simp: planned_def simp del: plan_events_set)
  qed
  with remove_events_lookup(2) [OF rest] u
  show "changed = (c \<or> (\<exists>e. if planned plan e
        then \<not> managedCommandHookGroupsCurrent fl (groups_of (map_of hooks e)) (desired_groups h plan e) managed
        else has_managed managed (groups_of (map_of hooks e))))"
    by (auto simp: planned_def simp del: plan_events_set)
qed

subsection \<open>When the groups of an event are current\<close>

definition managed_groups :: "(string \<Rightarrow> bool) \<Rightarrow> json list \<Rightarrow> json list" where
  "managed_groups managed groups =
     filter (\<lambda>g. case group_hooks g of None \<Rightarrow> False | Some hooks \<Rightarrow> list_ex (managed_hook managed) hooks) groups"

definition group_equal :: "float_reader \<Rightarrow> json \<Rightarrow> json \<Rightarrow> bool" where
  "group_equal fl g d =
     (case (as_object g, as_object d) of (Some a, Some b) \<Rightarrow> commandHookGroupEqual fl a b | _ \<Rightarrow> False)"

definition managed_count :: "(string \<Rightarrow> bool) \<Rightarrow> json \<Rightarrow> nat" where
  "managed_count managed g = countManagedHooks (deref_or [] (group_hooks g)) managed"

lemma countManagedHooks_zero: "countManagedHooks hooks managed = 0 \<longleftrightarrow> \<not> list_ex (managed_hook managed) hooks"
  by (auto simp: countManagedHooks_def list_ex_iff filter_empty_conv)

lemma groups_current_iff:
  assumes "dc \<le> length desired"
  shows "groups_current fl managed desired mc dc groups \<longleftrightarrow>
    list_all2 (group_equal fl) (managed_groups managed groups) (drop dc desired)
    \<and> mc + sum_list (map (managed_count managed) (managed_groups managed groups)) = length desired"
  using assms
proof (induction groups arbitrary: mc dc)
  case Nil
  then show ?case by (auto simp: managed_groups_def)
next
  case (Cons g gs)
  show ?case
  proof (cases "group_hooks g")
    case None
    then show ?thesis
      using Cons.IH [OF Cons.prems] by (simp add: managed_groups_def split: option.split)
  next
    case (Some hooks)
    obtain grp where g: "g = JObject grp" using group_hooks_object [OF Some] by blast
    show ?thesis
    proof (cases "list_ex (managed_hook managed) hooks")
      case False
      then show ?thesis
        using Cons.IH [OF Cons.prems] Some
        by (simp add: managed_groups_def g countManagedHooks_zero [THEN iffD2])
    next
      case True
      then have n: "countManagedHooks hooks managed \<noteq> 0" by (simp add: countManagedHooks_zero)
      have mg: "managed_groups managed (g # gs) = g # managed_groups managed gs"
        using True Some by (simp add: managed_groups_def)
      show ?thesis
      proof (cases "dc < length desired")
        case True
        then have d: "drop dc desired = desired ! dc # drop (dc + 1) desired"
          by (simp add: Cons_nth_drop_Suc)
        have "groups_current fl managed desired mc dc (g # gs) \<longleftrightarrow>
            group_equal fl g (desired ! dc)
            \<and> groups_current fl managed desired (mc + countManagedHooks hooks managed) (dc + 1) gs"
          using True n Some by (simp add: g group_equal_def Let_def split: option.split)
        then show ?thesis
          using Cons.IH [of "dc + 1" "mc + countManagedHooks hooks managed"] True Some
          by (auto simp: mg d managed_count_def)
      next
        case False
        then show ?thesis using n Some mg by (simp add: g)
      qed
    qed
  qed
qed

lemma deep_equal_string [simp]: "deep_equal v (JString s) \<longleftrightarrow> v = JString s"
  by (cases v) auto

lemma commandHookGroup_eq:
  "commandHookGroup c m st t =
     JObject ([(''hooks'', JArray [JObject
        ([(''type'', JString ''command''), (''command'', JString c),
          (''timeout'', JFloat (if t \<le> 0 then HookTimeoutSeconds else t))]
         @ (if st \<noteq> [] then [(''statusMessage'', JString st)] else []))])]
       @ (if m \<noteq> [] then [(''matcher'', JString m)] else []))"
  by (simp add: commandHookGroup_def Let_def)

lemma commandHookGroup_hook:
  obtains hook where "group_hooks (commandHookGroup c m st t) = Some [hook]" "hook_command hook = Some c"
  by (auto simp: commandHookGroup_eq group_hooks_def hook_command_def)

text \<open>A group equal to a wanted one has one hook, with the command that is wanted.\<close>

lemma group_equal_hook:
  assumes "group_equal fl g (commandHookGroup c m st t)"
  shows "\<exists>hook. group_hooks g = Some [hook] \<and> hook_command hook = Some c"
proof -
  from assms obtain grp where g: "g = JObject grp"
    by (cases g) (auto simp: group_equal_def)
  from assms obtain av where av: "map_of grp ''hooks'' = Some av"
    and slices: "hookSlicesEqual fl av (JArray [JObject
        ([(''type'', JString ''command''), (''command'', JString c),
          (''timeout'', JFloat (if t \<le> 0 then HookTimeoutSeconds else t))]
         @ (if st \<noteq> [] then [(''statusMessage'', JString st)] else []))])"
    by (auto simp: g group_equal_def commandHookGroup_eq commandHookGroupEqual_def split: option.splits)
  from slices obtain a where a: "av = JArray [a]"
    by (cases av) (auto simp: hookSlicesEqual_def length_Suc_conv)
  have "\<exists>am. a = JObject am \<and> map_of am ''command'' = Some (JString c)"
    using slices by (cases a) (auto simp: a hookSlicesEqual_def commandHookEqual_def split: option.splits)
  then show ?thesis using av a g by (auto simp: group_hooks_def hook_command_def)
qed

definition wanted :: "json \<Rightarrow> bool" where
  "wanted d \<longleftrightarrow> (\<exists>c m st t. t \<le> 2 ^ 53 \<and> d = commandHookGroup c m st t)"

lemma current_iff:
  assumes "\<forall>d \<in> set desired. wanted d"
  shows "managedCommandHookGroupsCurrent fl groups desired managed \<longleftrightarrow>
    list_all2 (group_equal fl) (managed_groups managed groups) desired"
proof -
  have "sum_list (map (managed_count managed) ms) = length ds"
    if "list_all2 (group_equal fl) ms ds" "\<forall>d \<in> set ds. wanted d"
      "\<forall>g \<in> set ms. \<exists>hooks. group_hooks g = Some hooks \<and> list_ex (managed_hook managed) hooks" for ms ds
    using that
  proof (induction ms ds rule: list_all2_induct)
    case (Cons g ms d ds)
    then obtain c m st t where "group_equal fl g (commandHookGroup c m st t)" by (auto simp: wanted_def)
    then obtain hook where "group_hooks g = Some [hook]" using group_equal_hook by blast
    moreover have "managed_hook managed hook" using Cons.prems(2) calculation by auto
    ultimately have "managed_count managed g = 1" by (simp add: managed_count_def countManagedHooks_def)
    with Cons show ?case by simp
  qed simp
  moreover have "\<forall>g \<in> set (managed_groups managed groups).
      \<exists>hooks. group_hooks g = Some hooks \<and> list_ex (managed_hook managed) hooks"
    by (auto simp: managed_groups_def split: option.splits)
  ultimately show ?thesis
    using assms by (auto simp: managedCommandHookGroupsCurrent_def groups_current_iff)
qed

lemma desired_wanted [simp]:
  assumes "d \<in> set (desired_groups h plan e)"
  shows "wanted d"
proof -
  have "HookTimeoutSecondsFor h e' \<le> 2 ^ 53" for e' by (simp add: HookTimeoutSecondsFor_def HookTimeoutSeconds_def)
  moreover obtain c m st e' where "d = commandHookGroup c m st (HookTimeoutSecondsFor h e')"
    using assms by (auto simp: desired_groups_def)
  ultimately show ?thesis unfolding wanted_def by blast
qed

subsection \<open>The hooks of an event\<close>

definition event_hooks :: "json list \<Rightarrow> json list" where
  "event_hooks groups = concat (map (\<lambda>g. deref_or [] (group_hooks g)) groups)"

lemma event_hooks_simps [simp]:
  "event_hooks [] = []" "event_hooks (g # gs) = deref_or [] (group_hooks g) @ event_hooks gs"
  "event_hooks (gs @ gs') = event_hooks gs @ event_hooks gs'"
  by (simp_all add: event_hooks_def)

lemma cleaned_hooks: "event_hooks (cleaned_groups managed groups) = filter (\<lambda>h. \<not> managed_hook managed h) (event_hooks groups)"
proof (induction groups)
  case (Cons g gs)
  have all: "filter (\<lambda>h. \<not> managed_hook managed h) hooks = hooks" if "\<not> list_ex (managed_hook managed) hooks" for hooks
    using that by (auto simp: list_ex_iff filter_id_conv)
  show ?case
    by (cases managed g rule: cleaned_group_cases) (use Cons all in auto)
qed simp

lemma managed_hooks_in_groups:
  "filter (managed_hook managed) (event_hooks groups)
     = filter (managed_hook managed) (event_hooks (managed_groups managed groups))"
proof (induction groups)
  case (Cons g gs)
  have "filter (managed_hook managed) hooks = []" if "\<not> list_ex (managed_hook managed) hooks" for hooks
    using that by (auto simp: list_ex_iff filter_empty_conv)
  with Cons show ?case by (auto simp: managed_groups_def split: option.splits)
qed (simp add: managed_groups_def)

lemma unmanaged_hooks_cleaned:
  "filter (managed_hook managed) (event_hooks (cleaned_groups managed groups)) = []"
  by (simp add: cleaned_hooks)

lemma equal_groups_hooks:
  assumes "list_all2 (group_equal fl) gs (map (\<lambda>c. commandHookGroup (k c) (m c) (st c) (t c)) cs)"
  shows "map hook_command (event_hooks gs) = map (\<lambda>c. Some (k c)) cs"
  using assms
proof (induction cs arbitrary: gs)
  case (Cons c cs)
  then obtain g gs' where "gs = g # gs'" "group_equal fl g (commandHookGroup (k c) (m c) (st c) (t c))"
    "list_all2 (group_equal fl) gs' (map (\<lambda>c. commandHookGroup (k c) (m c) (st c) (t c)) cs)"
    by (auto simp: list_all2_Cons2)
  moreover from this(2) obtain hook where "group_hooks g = Some [hook]" "hook_command hook = Some (k c)"
    using group_equal_hook by blast
  ultimately show ?case using Cons.IH by simp
qed simp

lemma managed_hook_command: "managed_hook managed h \<longleftrightarrow> (\<exists>c. hook_command h = Some c \<and> managed c)"
  by (auto simp: managed_hook_def hook_command_def split: option.split)

lemma desired_hooks:
  "map hook_command (event_hooks (desired_groups h plan e))
     = map (\<lambda>c. Some (ch_Command c)) (filter (\<lambda>c. ch_Event c = e) (hp_Hooks plan))"
proof -
  have "map hook_command (event_hooks (map (\<lambda>c. commandHookGroup (k c) (m c) (st c) (t c)) cs))
      = map (\<lambda>c. Some (k c)) cs" for k m st t and cs :: "command_hook list"
  proof (induction cs)
    case (Cons c cs)
    obtain hook where "group_hooks (commandHookGroup (k c) (m c) (st c) (t c)) = Some [hook]"
      "hook_command hook = Some (k c)"
      by (rule commandHookGroup_hook)
    with Cons show ?case by simp
  qed simp
  then show ?thesis unfolding desired_groups_def .
qed

text \<open>
  What an event has after the installation: the user's hooks as they were, and as managed hooks
  exactly the commands of the plan.
\<close>

lemma installed_hooks:
  fixes v e h fl
  assumes "\<And>c. c \<in> set (hp_Hooks plan) \<Longrightarrow> managed (ch_Command c)"
  defines "gs \<equiv> groups_of (installed fl managed (desired_groups h plan e) v)"
  shows "filter (\<lambda>h. \<not> managed_hook managed h) (event_hooks gs)
      = filter (\<lambda>h. \<not> managed_hook managed h) (event_hooks (groups_of v))"
    and "map hook_command (filter (managed_hook managed) (event_hooks gs))
      = map (\<lambda>c. Some (ch_Command c)) (filter (\<lambda>c. ch_Event c = e) (hp_Hooks plan))"
proof -
  let ?ds = "desired_groups h plan e" and ?cs = "filter (\<lambda>c. ch_Event c = e) (hp_Hooks plan)"
  have all: "\<forall>x \<in> set xs. managed_hook managed x"
    if "map hook_command xs = map (\<lambda>c. Some (ch_Command c)) ?cs" for xs
  proof
    fix x assume "x \<in> set xs"
    then have "hook_command x \<in> set (map (\<lambda>c. Some (ch_Command c)) ?cs)" unfolding that [symmetric] by simp
    then show "managed_hook managed x" using assms(1) by (auto simp: managed_hook_command)
  qed
  have ds: "\<forall>x \<in> set (event_hooks ?ds). managed_hook managed x" by (rule all [OF desired_hooks])
  have current: "managedCommandHookGroupsCurrent fl groups ?ds managed \<longleftrightarrow>
      list_all2 (group_equal fl) (managed_groups managed groups) ?ds" for groups
    by (rule current_iff) simp
  have "filter (\<lambda>h. \<not> managed_hook managed h) (event_hooks gs)
      = filter (\<lambda>h. \<not> managed_hook managed h) (event_hooks (groups_of v))
    \<and> map hook_command (filter (managed_hook managed) (event_hooks gs)) = map (\<lambda>c. Some (ch_Command c)) ?cs"
  proof (cases "managedCommandHookGroupsCurrent fl (groups_of v) ?ds managed")
    case True
    then have eq: "map hook_command (event_hooks (managed_groups managed (groups_of v)))
        = map (\<lambda>c. Some (ch_Command c)) ?cs"
      unfolding current unfolding desired_groups_def
      by (rule equal_groups_hooks [where k = ch_Command and m = ch_Matcher and st = "\<lambda>_. status_message plan"
            and t = "\<lambda>c. HookTimeoutSecondsFor h (ch_Event c)"])
    have "filter (managed_hook managed) (event_hooks (managed_groups managed (groups_of v)))
        = event_hooks (managed_groups managed (groups_of v))"
      using all [OF eq] by (simp add: filter_id_conv)
    then show ?thesis
      using True eq managed_hooks_in_groups [of managed "groups_of v"] by (simp add: gs_def installed_def)
  next
    case False
    then have gs: "gs = cleaned_groups managed (groups_of v) @ ?ds"
      by (simp add: gs_def installed_def groups_of_def)
    have "filter (\<lambda>h. \<not> managed_hook managed h) (event_hooks ?ds) = []"
      "filter (managed_hook managed) (event_hooks ?ds) = event_hooks ?ds"
      using ds by (auto simp: filter_id_conv filter_empty_conv)
    then show ?thesis by (simp add: gs cleaned_hooks desired_hooks)
  qed
  then show "filter (\<lambda>h. \<not> managed_hook managed h) (event_hooks gs)
      = filter (\<lambda>h. \<not> managed_hook managed h) (event_hooks (groups_of v))"
    "map hook_command (filter (managed_hook managed) (event_hooks gs))
      = map (\<lambda>c. Some (ch_Command c)) (filter (\<lambda>c. ch_Event c = e) (hp_Hooks plan))"
    by auto
qed

subsection \<open>Reading a file that was written\<close>

lemma map_of_reread_object [simp]: "map_of (reread_object m) k = map_option reread (map_of m k)"
  by (induction m) (auto simp: reread_object_def)

lemma reread_object_simps [simp]: "reread (JObject m) = JObject (reread_object m)"
  by (simp add: reread_object_def)

declare reread.simps(3) [simp del]

lemma reread_strings [simp]:
  "as_string (reread v) = as_string v" "reread v = JString s \<longleftrightarrow> v = JString s"
  "as_object (reread v) = map_option reread_object (as_object v)"
  "as_array (reread v) = map_option (map reread) (as_array v)"
  by (cases v; simp add: reread_object_def)+

lemma length_reread_object [simp]: "length (reread_object m) = length m"
  by (simp add: reread_object_def)

lemma bind_case: "Option.bind x f = (case x of None \<Rightarrow> None | Some a \<Rightarrow> f a)"
  by (cases x) simp_all

lemma group_hooks_reread [simp]: "group_hooks (reread g) = map_option (map reread) (group_hooks g)"
  by (cases "as_object g") (auto simp: group_hooks_def bind_case split: option.split)

lemma hook_command_reread [simp]: "hook_command (reread h) = hook_command h"
  by (auto simp: hook_command_def bind_case split: option.split)

lemma managed_hook_reread [simp]: "managed_hook managed (reread h) = managed_hook managed h"
  by (simp add: managed_hook_command)

lemma groups_of_reread [simp]: "groups_of (map_option reread v) = map reread (groups_of v)"
  by (auto simp: groups_of_def split: option.splits json.splits)

lemma managed_groups_reread:
  "managed_groups managed (map reread groups) = map reread (managed_groups managed groups)"
  by (induction groups) (auto simp: managed_groups_def list_ex_iff split: option.splits)

lemma has_managed_reread [simp]: "has_managed managed (map reread groups) = has_managed managed groups"
  by (induction groups) (auto simp: list_ex_iff split: option.splits)

text \<open>Whole numbers that a float represents are read back.\<close>

definition reads_numbers :: "float_reader \<Rightarrow> bool" where
  "reads_numbers fl \<longleftrightarrow> (\<forall>n. 0 \<le> n \<and> n \<le> 2 ^ 53 \<longrightarrow> fl (itoa n) = Some (IntegralFloat n))"

lemma numbersEqual_reread:
  assumes "reads_numbers fl" "numbersEqual fl v (JFloat n)" "0 \<le> n" "n \<le> 2 ^ 53"
  shows "numbersEqual fl (reread v) (JFloat n)"
proof -
  have "toFloat64 fl v = Some (IntegralFloat n)"
    using assms(2) by (cases v) (auto simp: numbersEqual_def split: option.splits)
  then show ?thesis using assms(1,3,4) by (cases v) (auto simp: numbersEqual_def reads_numbers_def)
qed

lemma group_equal_reread:
  assumes "reads_numbers fl" "group_equal fl g d" "wanted d"
  shows "group_equal fl (reread g) d"
proof -
  from assms(3) obtain c m st t where t: "t \<le> 2 ^ 53" and d: "d = commandHookGroup c m st t"
    by (auto simp: wanted_def)
  from assms(2) obtain grp where g: "g = JObject grp" by (cases g) (auto simp: group_equal_def)
  from assms(2) obtain hook am where
    grp: "map_of grp ''hooks'' = Some (JArray [JObject am])"
    and am: "commandHookEqual fl am
        ([(''type'', JString ''command''), (''command'', JString c),
          (''timeout'', JFloat (if t \<le> 0 then HookTimeoutSeconds else t))]
         @ (if st \<noteq> [] then [(''statusMessage'', JString st)] else []))"
  proof -
    from assms(2) obtain av where av: "map_of grp ''hooks'' = Some av"
      and slices: "hookSlicesEqual fl av (JArray [JObject
          ([(''type'', JString ''command''), (''command'', JString c),
            (''timeout'', JFloat (if t \<le> 0 then HookTimeoutSeconds else t))]
           @ (if st \<noteq> [] then [(''statusMessage'', JString st)] else []))])"
      by (auto simp: g d group_equal_def commandHookGroup_eq commandHookGroupEqual_def split: option.splits)
    from slices obtain a where a: "av = JArray [a]"
      by (cases av) (auto simp: hookSlicesEqual_def length_Suc_conv)
    with slices obtain am where "a = JObject am" by (cases a) (auto simp: hookSlicesEqual_def)
    then show ?thesis using that av a slices by (simp add: hookSlicesEqual_def)
  qed
  have "commandHookEqual fl (reread_object am)
      ([(''type'', JString ''command''), (''command'', JString c),
        (''timeout'', JFloat (if t \<le> 0 then HookTimeoutSeconds else t))]
       @ (if st \<noteq> [] then [(''statusMessage'', JString st)] else []))"
    using am numbersEqual_reread [OF assms(1)] t
    by (auto simp: HookTimeoutSeconds_def commandHookEqual_def split: option.splits if_splits)
  then show ?thesis
    using assms(2) grp
    by (auto simp: g d group_equal_def commandHookGroup_eq commandHookGroupEqual_def hookSlicesEqual_def
        split: option.splits if_splits)
qed

lemma group_equal_refl: "wanted d \<Longrightarrow> group_equal fl d d"
  by (auto simp: wanted_def group_equal_def commandHookGroup_eq commandHookGroupEqual_def hookSlicesEqual_def
      commandHookEqual_def numbersEqual_def)

subsection \<open>The programs that own hooks\<close>

abbreviation bins :: "(string \<Rightarrow> string list option) \<Rightarrow> string \<Rightarrow> string \<Rightarrow> json \<Rightarrow> string set" where
  "bins split source nid v \<equiv> set (collectOwnedHookBinaries split source nid v)"

lemma bins_object:
  "bins split source nid (JObject m) =
     {b. b \<noteq> [] \<and> b = ownedHookBinary split source nid m} \<union> (\<Union>v \<in> snd ` set m. bins split source nid v)"
  by (auto simp: case_prod_beta)

lemma bins_array: "bins split source nid (JArray xs) = (\<Union>v \<in> set xs. bins split source nid v)"
  by simp

declare collectOwnedHookBinaries.simps(1,2) [simp del]

lemma bins_value: "map_of m k = Some v \<Longrightarrow> bins split source nid v \<subseteq> bins split source nid (JObject m)"
  unfolding bins_object by (auto dest!: map_of_SomeD)

definition no_string :: "json option \<Rightarrow> bool" where
  "no_string v \<longleftrightarrow> (\<forall>s. v \<noteq> Some (JString s))"

lemma owned_same:
  assumes "\<And>k. map_of m k = map_of n k \<or> no_string (map_of m k) \<and> no_string (map_of n k)"
  shows "ownedHookBinary split source nid m = ownedHookBinary split source nid n"
proof -
  have str: "Option.bind (map_of m k) as_string = Option.bind (map_of n k) as_string" for k
  proof -
    have "Option.bind v as_string = None" if "no_string v" for v
      using that by (cases v; cases "the v") (auto simp: no_string_def)
    then show ?thesis using assms [of k] by metis
  qed
  have "(map_of m k = Some (JString s)) = (map_of n k = Some (JString s))" for k s
    using assms [of k] by (auto simp: no_string_def)
  then have marked: "(map_of m ''statusMessage'' = Some (JString managedMarker)) =
      (map_of n ''statusMessage'' = Some (JString managedMarker))" .
  show ?thesis unfolding ownedHookBinary_def str marked by (rule refl)
qed

lemma bins_reread [simp]: "bins split source nid (reread v) = bins split source nid v"
proof (induction v)
  case (JObject m)
  have "ownedHookBinary split source nid (reread_object m) = ownedHookBinary split source nid m"
    by (simp add: ownedHookBinary_def bind_case split: option.split)
  moreover have "(\<Union>v \<in> snd ` set (reread_object m). bins split source nid v) = (\<Union>v \<in> snd ` set m. bins split source nid v)"
    using JObject by (force simp: reread_object_def)
  ultimately show ?case unfolding reread_object_simps bins_object by simp
qed (auto simp: bins_array)

lemma values_put: "snd ` set (map_put k v m) \<subseteq> insert v (snd ` set m)"
  using image_mono [OF set_map_put_subset [of k v m], of snd] by simp

lemma bins_cleaned_group:
  assumes "cleaned_group managed g = Some g'"
  shows "bins split source nid g' \<subseteq> bins split source nid g"
proof (cases managed g rule: cleaned_group_cases)
  case (kept grp hooks)
  define kept where "kept = filter (\<lambda>h. \<not> managed_hook managed h) hooks"
  define new where "new = map_put ''hooks'' (JArray kept) grp"
  have g': "g' = JObject new" using assms kept(5) by (simp add: new_def kept_def)
  have hooks: "map_of grp ''hooks'' = Some (JArray hooks)"
    using kept(1,2) group_hooks_object by blast
  have arr: "bins split source nid (JArray hooks) \<subseteq> bins split source nid (JObject grp)"
    by (rule bins_value [OF hooks])
  have sub: "bins split source nid (JArray kept) \<subseteq> bins split source nid (JArray hooks)"
    by (auto simp: bins_array kept_def)
  have own: "ownedHookBinary split source nid new = ownedHookBinary split source nid grp"
    by (rule owned_same) (use hooks in \<open>auto simp: no_string_def new_def\<close>)
  have vals: "(\<Union>v \<in> snd ` set new. bins split source nid v)
      \<subseteq> bins split source nid (JArray kept) \<union> (\<Union>v \<in> snd ` set grp. bins split source nid v)"
    using UN_mono [OF values_put [of "''hooks''" "JArray kept" grp] subset_refl,
        of "bins split source nid"] unfolding new_def UN_insert .
  have "bins split source nid (JObject new) \<subseteq> {b. b \<noteq> [] \<and> b = ownedHookBinary split source nid grp}
      \<union> (bins split source nid (JArray kept) \<union> (\<Union>v \<in> snd ` set grp. bins split source nid v))"
    unfolding bins_object [of split source nid new] own by (rule Un_mono [OF subset_refl vals])
  also have "\<dots> \<subseteq> bins split source nid (JObject grp)"
  proof (intro Un_least)
    show "bins split source nid (JArray kept) \<subseteq> bins split source nid (JObject grp)"
      by (rule order_trans [OF sub arr])
  qed (simp_all only: bins_object Un_upper1 Un_upper2)
  finally show ?thesis unfolding g' kept(1) .
qed (use assms in simp_all)

lemma bins_cleaned:
  "bins split source nid (JArray (cleaned_groups managed groups)) \<subseteq> bins split source nid (JArray groups)"
proof
  fix b assume "b \<in> bins split source nid (JArray (cleaned_groups managed groups))"
  then obtain g g' where g: "g \<in> set groups" "cleaned_group managed g = Some g'" "b \<in> bins split source nid g'"
    by (auto simp: bins_array cleaned_groups_def List.map_filter_def)
  have "b \<in> bins split source nid g" by (rule subsetD [OF bins_cleaned_group [OF g(2)] g(3)])
  then show "b \<in> bins split source nid (JArray groups)"
    unfolding bins_array by (rule UN_I [OF g(1)])
qed

lemma bins_append: "bins split source nid (JArray (xs @ ys)) = bins split source nid (JArray xs) \<union> bins split source nid (JArray ys)"
  by (simp only: bins_array set_append UN_Un)

subsection \<open>Installing twice\<close>

text \<open>
  A command of a plan either reports and names the source the plan manages, or it is the canonical
  call of a native hook by the program of a command that reports.
\<close>

definition reporter :: "(string \<Rightarrow> string list option) \<Rightarrow> string \<Rightarrow> string \<Rightarrow> string option" where
  "reporter split source command =
     (case split command of
        Some (b # word # x # rest) \<Rightarrow>
          if tagged source command \<and> word = ''report'' \<and> b \<noteq> [] then Some b else None
      | _ \<Rightarrow> None)"

definition native_caller :: "(string \<Rightarrow> string list option) \<Rightarrow> string \<Rightarrow> string \<Rightarrow> string option" where
  "native_caller split source command =
     (case split command of
        Some words \<Rightarrow>
          if canonicalNativeHookWords command (nativeHookIDForSource source) words then Some (hd words) else None
      | None \<Rightarrow> None)"

definition sound_plan :: "(string \<Rightarrow> string list option) \<Rightarrow> harness \<Rightarrow> hook_plan \<Rightarrow> bool" where
  "sound_plan split h plan \<longleftrightarrow>
     (let source = managedSource (hp_Source plan) h;
          commands = map ch_Command (hp_Hooks plan);
          programs = List.map_filter (reporter split source) commands
      in \<forall>c \<in> set commands.
           reporter split source c \<noteq> None
           \<or> (\<exists>b \<in> set programs. native_caller split source c = Some b))"

lemma reporter_Some: "reporter split source c = Some b \<longleftrightarrow>
    tagged source c \<and> b \<noteq> [] \<and> (\<exists>x rest. split c = Some (b # ''report'' # x # rest))"
  by (auto simp: reporter_def split: option.splits list.splits)

lemma native_caller_Some: "native_caller split source c = Some b \<longleftrightarrow>
    (\<exists>words. split c = Some words \<and> canonicalNativeHookWords c (nativeHookIDForSource source) words \<and> b = hd words)"
  by (auto simp: native_caller_def split: option.splits)

lemma sound_plan_cases:
  assumes "sound_plan split h plan" "c \<in> set (hp_Hooks plan)"
  obtains (report) b where "reporter split (managedSource (hp_Source plan) h) (ch_Command c) = Some b"
    | (native) r b where "r \<in> set (hp_Hooks plan)"
        "reporter split (managedSource (hp_Source plan) h) (ch_Command r) = Some b"
        "native_caller split (managedSource (hp_Source plan) h) (ch_Command c) = Some b"
  using assms unfolding sound_plan_def by (fastforce simp: Let_def List.map_filter_def)

lemma bins_reporter:
  assumes "reporter split source c = Some b" "map_of hook ''command'' = Some (JString c)"
  shows "b \<in> bins split source nid (JObject hook)"
  using assms by (auto simp: bins_object reporter_Some ownedHookBinary_def)

lemma bins_command:
  assumes "split c = Some words" "map_of hook ''command'' = Some (JString c)"
  shows "ownedHookBinary split source nid hook \<in> {[], hd words}"
  using assms by (simp add: ownedHookBinary_def Let_def)

lemma bins_group_reporter:
  "reporter split source c = Some b \<Longrightarrow> b \<in> bins split source nid (commandHookGroup c m st t)"
proof -
  assume r: "reporter split source c = Some b"
  define hook where "hook = [(''type'', JString ''command''), (''command'', JString c),
      (''timeout'', JFloat (if t \<le> 0 then HookTimeoutSeconds else t))]
        @ (if st \<noteq> [] then [(''statusMessage'', JString st)] else [])"
  define grp where "grp = (''hooks'', JArray [JObject hook]) # (if m \<noteq> [] then [(''matcher'', JString m)] else [])"
  have g: "commandHookGroup c m st t = JObject grp"
    by (simp add: commandHookGroup_def hook_def grp_def Let_def)
  have "b \<in> bins split source nid (JObject hook)" by (rule bins_reporter [OF r]) (simp add: hook_def)
  then have "b \<in> bins split source nid (JArray [JObject hook])" by (simp add: bins_array)
  moreover have "map_of grp ''hooks'' = Some (JArray [JObject hook])" by (simp add: grp_def)
  ultimately show ?thesis unfolding g using bins_value by blast
qed

lemma bins_group:
  assumes "split c = Some words"
  shows "bins split source nid (commandHookGroup c m st t) \<subseteq> {hd words}"
proof -
  define hook where "hook = [(''type'', JString ''command''), (''command'', JString c),
      (''timeout'', JFloat (if t \<le> 0 then HookTimeoutSeconds else t))]
        @ (if st \<noteq> [] then [(''statusMessage'', JString st)] else [])"
  define grp where "grp = (''hooks'', JArray [JObject hook]) # (if m \<noteq> [] then [(''matcher'', JString m)] else [])"
  have g: "commandHookGroup c m st t = JObject grp"
    by (simp add: commandHookGroup_def hook_def grp_def Let_def)
  have "ownedHookBinary split source nid grp = []" by (simp add: ownedHookBinary_def grp_def)
  moreover have "ownedHookBinary split source nid hook \<in> {[], hd words}"
    by (rule bins_command [where split = split and c = c, OF assms]) (simp add: hook_def)
  moreover have "(\<Union>v \<in> snd ` set hook. bins split source nid v) = {}" by (simp add: hook_def)
  ultimately show ?thesis unfolding g bins_object by (auto simp: grp_def bins_array bins_object)
qed

lemma bins_desired_config:
  assumes "c \<in> set (hp_Hooks plan)" "reporter split source (ch_Command c) = Some b"
  shows "b \<in> bins split source nid (JObject (desired_config plan))"
proof -
  have "b \<in> bins split source nid (JObject [(''command'', JString (ch_Command c))])"
    by (rule bins_reporter [OF assms(2)]) simp
  then show ?thesis using assms(1) unfolding desired_config_def by (auto simp: bins_object bins_array)
qed

lemma managed_native:
  assumes "native_caller split source c = Some b" "b \<in> (\<Union>k \<in> set cs. bins split source (nativeHookIDForSource source) (JObject k))"
  shows "isManagedSourceHookCommand split source cs c"
proof -
  obtain words where w: "split c = Some words" "canonicalNativeHookWords c (nativeHookIDForSource source) words" "b = hd words"
    using assms(1) unfolding native_caller_Some by blast
  then have "nativeHookIDForSource source \<noteq> []" "words \<noteq> []" by (auto simp: canonicalNativeHookWords_def)
  then show ?thesis using assms(2) w by (auto simp: isManagedSourceHookCommand_def Let_def canonicalNativeHookCommand_def)
qed

lemma plan_manages:
  assumes "sound_plan split h plan" "c \<in> set (hp_Hooks plan)"
  shows "plan_managed split h plan config (ch_Command c)"
  using assms
proof (cases rule: sound_plan_cases)
  case (report b)
  then show ?thesis by (simp add: reporter_Some plan_managed_def isManagedSourceHookCommand_def)
next
  case (native r b)
  then show ?thesis
    unfolding plan_managed_def by (intro managed_native [OF native(3)]) (simp add: bins_desired_config)
qed

lemma isManaged_mono:
  assumes "isManagedSourceHookCommand split source cs command"
    "(\<Union>c \<in> set cs. bins split source (nativeHookIDForSource source) (JObject c))
       \<subseteq> (\<Union>c \<in> set cs'. bins split source (nativeHookIDForSource source) (JObject c))"
  shows "isManagedSourceHookCommand split source cs' command"
  using assms
  by (auto simp: isManagedSourceHookCommand_def canonicalNativeHookCommand_def Let_def split: option.splits)

lemma bins_desired:
  assumes "sound_plan split h plan"
  defines "source \<equiv> managedSource (hp_Source plan) h"
  shows "bins split source nid (JArray (desired_groups h plan e)) \<subseteq> bins split source nid (JObject (desired_config plan))"
proof -
  have one: "bins split source nid (commandHookGroup (ch_Command c) m st t)
      \<subseteq> bins split source nid (JObject (desired_config plan))"
    if "c \<in> set (hp_Hooks plan)" for c m st t
  proof -
    obtain words where words: "split (ch_Command c) = Some words"
      "hd words \<in> bins split source nid (JObject (desired_config plan))"
      using assms(1) \<open>c \<in> set (hp_Hooks plan)\<close>
    proof (cases rule: sound_plan_cases)
      case (report b)
      then show ?thesis using that bins_desired_config \<open>c \<in> set (hp_Hooks plan)\<close> unfolding source_def
        by (fastforce simp: reporter_Some)
    next
      case (native r b)
      then show ?thesis using that bins_desired_config unfolding source_def
        by (fastforce simp: native_caller_Some)
    qed
    then show ?thesis using bins_group [where split = split and source = source and nid = nid, OF words(1)]
      by blast
  qed
  with one show ?thesis by (fastforce simp: desired_groups_def bins_array)
qed

text \<open>The loops keep the keys distinct.\<close>

lemma map_ok_removed:
  "map_ok hooks \<Longrightarrow> map_ok (fst (remove_events removeGroups (hooks, c) events))"
proof (induction events arbitrary: hooks c)
  case (Cons e es)
  have "map_ok (fst (removeManagedJSONHookEvent removeGroups hooks e))"
    using Cons.prems by (auto simp: removeManagedJSONHookEvent_def Let_def case_prod_beta split: option.split json.split)
  then show ?case using Cons.IH by (simp add: case_prod_beta)
qed simp

lemma map_ok_upserted:
  "map_ok hooks \<Longrightarrow> upsert_events fl desired managed (hooks, c) events = Inr (hooks', changed) \<Longrightarrow> map_ok hooks'"
proof (induction events arbitrary: hooks c)
  case (Cons e es)
  from Cons.prems(2) obtain h1 u1 where
    one: "upsertManagedCommandHookGroups fl (desired e) managed hooks e = Inr (h1, u1)"
    and rest: "upsert_events fl desired managed (h1, c \<or> u1) es = Inr (hooks', changed)"
    by (auto split: sum.splits)
  from one Cons.prems(1) have "map_ok h1"
    by (auto simp: upsertManagedCommandHookGroups_def split: sum.splits if_splits)
  then show ?case using Cons.IH rest by blast
qed simp

lemma map_ok_installed:
  assumes "install_events fl h plan managed (hooks, c) = Inr (hooks', changed)" "map_ok hooks"
  shows "map_ok hooks'"
proof -
  from assms(1) obtain h1 c1 where
    up: "upsert_events fl (desired_groups h plan) managed (hooks, c) (plan_events plan) = Inr (h1, c1)"
    and rest: "remove_events (removeManagedCommandHookGroups managed) (h1, c1)
      (filter (\<lambda>event. event \<notin> set (plan_events plan)) (map fst h1)) = (hooks', changed)"
    by (auto simp: install_events_def simp del: remove_groups plan_events_set split: sum.splits)
  show ?thesis
    using map_ok_removed [OF map_ok_upserted [OF assms(2) up], of "removeManagedCommandHookGroups managed" c1
        "filter (\<lambda>event. event \<notin> set (plan_events plan)) (map fst h1)"]
    unfolding rest by simp
qed

text \<open>The events of a plan can be changed when each has a list or nothing.\<close>

definition listable :: "json option \<Rightarrow> bool" where
  "listable v \<longleftrightarrow> v = None \<or> v = Some JNull \<or> (\<exists>xs. v = Some (JArray xs))"

lemma upsert_listable:
  "(\<exists>r. upsertManagedCommandHookGroups fl desired managed hooks e = Inr r) \<longleftrightarrow> listable (map_of hooks e)"
  by (auto simp: upsertManagedCommandHookGroups_def hookEventList_def listable_def
      split: option.splits json.splits)

lemma upsert_events_listable:
  "distinct events \<Longrightarrow> (\<exists>r. upsert_events fl desired managed (hooks, c) events = Inr r) \<longleftrightarrow>
     (\<forall>e \<in> set events. listable (map_of hooks e))"
proof (induction events arbitrary: hooks c)
  case (Cons e es)
  show ?case
  proof (cases "upsertManagedCommandHookGroups fl (desired e) managed hooks e")
    case (Inl x)
    then have "\<not> listable (map_of hooks e)" using upsert_listable by (metis Inl_Inr_False)
    then show ?thesis using Inl by simp
  next
    case (Inr r)
    obtain h1 u1 where r: "r = (h1, u1)" by (rule prod.exhaust)
    have "listable (map_of hooks e)" using Inr upsert_listable by blast
    moreover have "map_of h1 e' = map_of hooks e'" if "e' \<in> set es" for e'
      using upsert_lookup(1) [OF Inr [unfolded r]] Cons.prems that by auto
    ultimately show ?thesis using Cons.IH [of h1 "c \<or> u1"] Cons.prems Inr r by auto
  qed
qed simp

lemma install_events_listable:
  "(\<exists>r. install_events fl h plan managed (hooks, c) = Inr r) \<longleftrightarrow>
     (\<forall>e. planned plan e \<longrightarrow> listable (map_of hooks e))"
proof -
  have "(\<exists>r. install_events fl h plan managed (hooks, c) = Inr r) \<longleftrightarrow>
      (\<exists>r. upsert_events fl (desired_groups h plan) managed (hooks, c) (plan_events plan) = Inr r)"
    by (auto simp: install_events_def simp del: remove_groups plan_events_set split: sum.splits)
  then show ?thesis
    using upsert_events_listable [OF plan_events_distinct] unfolding planned_def by blast
qed

lemma listable_installed: "listable v \<Longrightarrow> listable (installed fl managed desired v)"
  by (auto simp: installed_def listable_def)

lemma listable_reread: "listable v \<Longrightarrow> listable (map_option reread v)"
  by (auto simp: listable_def)

text \<open>The programs that own hooks after an installation owned them before, or are those of the plan.\<close>

lemma bins_installed:
  assumes "install_events fl h plan managed (hooks, c) = Inr (hooks', changed)" "map_ok hooks"
    "sound_plan split h plan"
  defines "source \<equiv> managedSource (hp_Source plan) h"
  shows "bins split source nid (JObject hooks') \<subseteq>
    bins split source nid (JObject hooks) \<union> bins split source nid (JObject (desired_config plan))"
proof -
  let ?own = "bins split source nid (JObject hooks) \<union> bins split source nid (JObject (desired_config plan))"
  note look = install_events_lookup(1) [OF assms(1)]
  have list: "listable (map_of hooks e)" if "planned plan e" for e
    using install_events_listable assms(1) that by blast
  have groups: "bins split source nid (JArray (groups_of (map_of hooks e))) \<subseteq> bins split source nid (JObject hooks)" for e
  proof (cases "\<exists>xs. map_of hooks e = Some (JArray xs)")
    case True
    then obtain xs where "map_of hooks e = Some (JArray xs)" ..
    then show ?thesis using bins_value [of hooks e "JArray xs" split source nid] by (simp only: groups_of_def option.case json.case)
  next
    case False
    then have "groups_of (map_of hooks e) = []" by (auto simp: groups_of_def split: option.split json.split)
    then show ?thesis by (simp add: bins_array)
  qed
  have step: "bins split source nid v \<subseteq> ?own" if "map_of hooks' e = Some v" for e v
  proof -
    have "map_of hooks e = Some v \<or> v = JArray (cleaned_groups managed (groups_of (map_of hooks e)))
        \<or> v = JArray (cleaned_groups managed (groups_of (map_of hooks e)) @ desired_groups h plan e)"
      using that look by (auto simp: installed_def removed_def split: if_splits)
    moreover have "bins split source nid (JArray (cleaned_groups managed (groups_of (map_of hooks e)))) \<subseteq> ?own"
      by (rule order_trans [OF order_trans [OF bins_cleaned groups] Un_upper1])
    moreover have "bins split source nid (JArray (desired_groups h plan e)) \<subseteq> ?own"
      by (rule order_trans [OF bins_desired [OF assms(3), folded source_def] Un_upper2])
    moreover have "map_of hooks e = Some v \<Longrightarrow> bins split source nid v \<subseteq> ?own"
      by (rule order_trans [OF bins_value Un_upper1])
    ultimately show ?thesis by (elim disjE) (simp_all only: bins_append Un_subset_iff)
  qed
  have "ownedHookBinary split source nid hooks' = ownedHookBinary split source nid hooks"
  proof (rule owned_same)
    fix k
    show "map_of hooks' k = map_of hooks k \<or> no_string (map_of hooks' k) \<and> no_string (map_of hooks k)"
      using look list [of k]
      by (auto simp: installed_def removed_def listable_def no_string_def groups_of_def split: option.splits json.splits)
  qed
  note own = this
  have "bins split source nid v \<subseteq> ?own" if "v \<in> snd ` set hooks'" for v
  proof -
    from that obtain k where "(k, v) \<in> set hooks'" by auto
    then have "map_of hooks' k = Some v" using map_ok_installed [OF assms(1,2)] by (simp add: map_ok_def)
    then show ?thesis by (rule step)
  qed
  then have "(\<Union>v \<in> snd ` set hooks'. bins split source nid v) \<subseteq> ?own" by (rule UN_least)
  moreover have "{b. b \<noteq> [] \<and> b = ownedHookBinary split source nid hooks} \<subseteq> ?own"
    by (simp only: bins_object [of split source nid hooks] Un_assoc Un_upper1)
  ultimately show ?thesis unfolding bins_object [of split source nid hooks'] own by (rule Un_least [rotated])
qed

lemma removed_weaker:
  assumes "\<And>c. managed' c \<Longrightarrow> managed c"
  shows "\<not> has_managed managed groups \<Longrightarrow> \<not> has_managed managed' groups"
  using assms by (induction groups) (auto simp: list_ex_iff managed_hook_command split: option.splits)

text \<open>The configuration an installation leaves: its own object of hooks is a map, as JSON objects are.\<close>

definition config_ok :: "json_object \<Rightarrow> bool" where
  "config_ok config \<longleftrightarrow> map_ok config
     \<and> (\<forall>hooks. map_of config ''hooks'' = Some (JObject hooks) \<longrightarrow> map_ok hooks)"

lemma apply_cases:
  assumes "applyJSONCommandHooks split fl h plan config = Inr (config', changed)" "\<not> hp_HooksAtRoot plan"
  obtains hooks hooks' where "hooksObject config = Inr hooks"
    "install_events fl h plan (plan_managed split h plan config) (hooks, False) = Inr (hooks', changed)"
    "config' = map_put ''hooks'' (JObject hooks') config"
  using assms by (auto simp: applyJSONCommandHooks_def Let_def split: sum.splits)

lemma hooksObject_ok: "hooksObject config = Inr hooks \<Longrightarrow> config_ok config \<Longrightarrow> map_ok hooks"
  by (auto simp: hooksObject_def config_ok_def split: option.splits json.splits)

lemma hooksObject_bins:
  "hooksObject config = Inr hooks \<Longrightarrow> bins split source nid (JObject hooks) \<subseteq> bins split source nid (JObject config)"
proof -
  assume "hooksObject config = Inr hooks"
  then have "hooks = [] \<or> map_of config ''hooks'' = Some (JObject hooks)"
    by (auto simp: hooksObject_def split: option.splits json.splits)
  moreover have "bins split source nid (JObject []) = {}" by (simp add: bins_object ownedHookBinary_def)
  ultimately show ?thesis using bins_value [of config "''hooks''" "JObject hooks" split source nid] by (elim disjE) simp_all
qed

text \<open>What is managed after an installation was managed during it.\<close>

lemma managed_after:
  assumes "applyJSONCommandHooks split fl h plan config = Inr (config', changed)" "\<not> hp_HooksAtRoot plan"
    "config_ok config" "sound_plan split h plan"
    "isManagedSourceHookCommand split (managedSource (hp_Source plan) h) cs command"
    "set cs \<subseteq> {config', reread_object config', desired_config plan}"
  shows "plan_managed split h plan config command"
proof -
  define source where "source = managedSource (hp_Source plan) h"
  define nid where "nid = nativeHookIDForSource source"
  let ?own = "bins split source nid (JObject config) \<union> bins split source nid (JObject (desired_config plan))"
  obtain hooks hooks' where hooks: "hooksObject config = Inr hooks"
    and install: "install_events fl h plan (plan_managed split h plan config) (hooks, False) = Inr (hooks', changed)"
    and config': "config' = map_put ''hooks'' (JObject hooks') config"
    by (rule apply_cases [OF assms(1,2)])
  have "bins split source nid (JObject hooks') \<subseteq>
      bins split source nid (JObject hooks) \<union> bins split source nid (JObject (desired_config plan))"
    unfolding source_def by (rule bins_installed [OF install hooksObject_ok [OF hooks assms(3)] assms(4)])
  also have "\<dots> \<subseteq> ?own" by (rule Un_mono [OF hooksObject_bins [OF hooks] subset_refl])
  finally have new: "bins split source nid (JObject hooks') \<subseteq> ?own" .
  have own: "ownedHookBinary split source nid config' = ownedHookBinary split source nid config"
  proof (rule owned_same)
    fix k
    show "map_of config' k = map_of config k \<or> no_string (map_of config' k) \<and> no_string (map_of config k)"
      using hooks by (auto simp: config' no_string_def hooksObject_def split: option.splits json.splits)
  qed
  have "(\<Union>v \<in> snd ` set config'. bins split source nid v)
      \<subseteq> bins split source nid (JObject hooks') \<union> (\<Union>v \<in> snd ` set config. bins split source nid v)"
    using UN_mono [OF values_put [of "''hooks''" "JObject hooks'" config] subset_refl,
        of "bins split source nid"] unfolding config' UN_insert .
  also have "\<dots> \<subseteq> ?own"
  proof (intro Un_least new)
    show "(\<Union>v \<in> snd ` set config. bins split source nid v) \<subseteq> ?own"
      unfolding bins_object [of split source nid config] by (rule order_trans [OF Un_upper2 Un_upper1])
  qed
  finally have vals: "(\<Union>v \<in> snd ` set config'. bins split source nid v) \<subseteq> ?own" .
  have "{b. b \<noteq> [] \<and> b = ownedHookBinary split source nid config} \<subseteq> ?own"
    unfolding bins_object [of split source nid config] by (rule order_trans [OF Un_upper1 Un_upper1])
  then have after: "bins split source nid (JObject config') \<subseteq> ?own"
    unfolding bins_object [of split source nid config'] own using vals by (rule Un_least)
  have again: "bins split source nid (JObject (reread_object config')) \<subseteq> ?own"
    using after bins_reread [of split source nid "JObject config'"] by simp
  have "(\<Union>c \<in> set cs. bins split source nid (JObject c)) \<subseteq> ?own"
  proof (rule UN_least)
    fix c assume "c \<in> set cs"
    then have "c = config' \<or> c = reread_object config' \<or> c = desired_config plan" using assms(6) by auto
    then show "bins split source nid (JObject c) \<subseteq> ?own"
      using after again by (elim disjE) (simp_all only: Un_upper2)
  qed
  then show ?thesis
    unfolding plan_managed_def source_def [symmetric]
    by (intro isManaged_mono [OF assms(5) [folded source_def]])
      (simp add: nid_def [symmetric])
qed

text \<open>Installing again, from the file that was written, changes nothing.\<close>

lemma installed_twice:
  assumes "applyJSONCommandHooks split fl h plan config = Inr (config', changed)" "\<not> hp_HooksAtRoot plan"
    "config_ok config" "sound_plan split h plan" "reads_numbers fl"
  shows "\<exists>config''. applyJSONCommandHooks split fl h plan (reread_object config') = Inr (config'', False)"
proof -
  define managed where "managed = plan_managed split h plan config"
  define again where "again = plan_managed split h plan (reread_object config')"
  obtain hooks hooks' where hooks: "hooksObject config = Inr hooks"
    and install: "install_events fl h plan managed (hooks, False) = Inr (hooks', changed)"
    and config': "config' = map_put ''hooks'' (JObject hooks') config"
    using apply_cases [OF assms(1,2)] unfolding managed_def by blast
  have object: "hooksObject (reread_object config') = Inr (reread_object hooks')"
    by (simp add: hooksObject_def config')
  have weaker: "managed c" if "again c" for c
    unfolding managed_def
    by (rule managed_after [OF assms(1-4) that [unfolded again_def plan_managed_def]]) auto
  have plan: "managed (ch_Command c)" "again (ch_Command c)" if "c \<in> set (hp_Hooks plan)" for c
    unfolding managed_def again_def by (rule plan_manages [OF assms(4) that])+
  note look = install_events_lookup(1) [OF install]
  have listable: "listable (map_of (reread_object hooks') e)" if "planned plan e" for e
  proof -
    have "listable (map_of hooks e)" using install_events_listable install that by blast
    then show ?thesis by (simp add: look that listable_installed listable_reread)
  qed
  have stays: "\<not> has_managed again (groups_of (map_of (reread_object hooks') e))" if "\<not> planned plan e" for e
    using removed_weaker [OF weaker cleaned_no_managed [of managed]] that by (simp add: look)
  have current: "managedCommandHookGroupsCurrent fl (groups_of (map_of (reread_object hooks') e))
      (desired_groups h plan e) again" if "planned plan e" for e
  proof -
    let ?ds = "desired_groups h plan e" and ?gs = "groups_of (map_of hooks e)"
    have iff: "managedCommandHookGroupsCurrent fl gs ?ds m \<longleftrightarrow>
        list_all2 (group_equal fl) (managed_groups m gs) ?ds" for gs m
      by (rule current_iff) simp
    have wanted_hook: "list_ex (managed_hook m) hs" if "group_equal fl g d" "d \<in> set ?ds" "group_hooks g = Some hs"
      "m = managed \<or> m = again" for g d hs m
    proof -
      obtain c where c: "c \<in> set (hp_Hooks plan)"
        "d = commandHookGroup (ch_Command c) (ch_Matcher c) (status_message plan) (HookTimeoutSecondsFor h (ch_Event c))"
        using \<open>d \<in> set ?ds\<close> by (auto simp: desired_groups_def)
      obtain hook where "group_hooks g = Some [hook]" "hook_command hook = Some (ch_Command c)"
        using group_equal_hook \<open>group_equal fl g d\<close> c(2) by blast
      then show ?thesis using \<open>group_hooks g = Some hs\<close> \<open>m = managed \<or> m = again\<close> plan [OF c(1)] by (auto simp: managed_hook_command)
    qed
    have reread_all: "list_all2 (group_equal fl) (map reread gs) ds"
      if "list_all2 (group_equal fl) gs ds" "\<forall>d \<in> set ds. wanted d" for gs ds
      using that by (induction gs ds rule: list_all2_induct) (auto intro: group_equal_reread [OF assms(5)])
    have "list_all2 (group_equal fl) (managed_groups again (groups_of (map_of hooks' e))) ?ds"
    proof (cases "managedCommandHookGroupsCurrent fl ?gs ?ds managed")
      case True
      then have eq: "list_all2 (group_equal fl) (managed_groups managed ?gs) ?ds" by (simp add: iff)
      have "managed_groups again ?gs = managed_groups managed ?gs"
        unfolding managed_groups_def
      proof (rule filter_cong [OF refl])
        fix g assume g: "g \<in> set ?gs"
        show "(case group_hooks g of None \<Rightarrow> False | Some hooks \<Rightarrow> list_ex (managed_hook again) hooks)
            = (case group_hooks g of None \<Rightarrow> False | Some hooks \<Rightarrow> list_ex (managed_hook managed) hooks)"
        proof (cases "group_hooks g")
          case (Some hs)
          have "list_ex (managed_hook again) hs" if "list_ex (managed_hook managed) hs"
          proof -
            have "g \<in> set (managed_groups managed ?gs)" using g Some that by (simp add: managed_groups_def)
            then obtain d where "d \<in> set ?ds" "group_equal fl g d"
              using eq by (metis in_set_conv_nth list_all2_conv_all_nth)
            then show ?thesis using wanted_hook Some by blast
          qed
          moreover have "list_ex (managed_hook managed) hs" if "list_ex (managed_hook again) hs"
            using that weaker by (auto simp: list_ex_iff managed_hook_command)
          ultimately show ?thesis using Some by auto
        qed simp
      qed
      then show ?thesis using eq True that by (simp add: look installed_def)
    next
      case False
      have "managed_groups again ?ds = ?ds"
      proof -
        have "list_ex (managed_hook again) hs" if "d \<in> set ?ds" "group_hooks d = Some hs" for d hs
          using wanted_hook [OF group_equal_refl] that desired_wanted by blast
        moreover have "group_hooks d \<noteq> None" if "d \<in> set ?ds" for d
          using desired_wanted [OF that] commandHookGroup_hook unfolding wanted_def by (metis option.distinct(1))
        ultimately show ?thesis by (auto simp: managed_groups_def filter_id_conv split: option.split)
      qed
      moreover have "managed_groups again (cleaned_groups managed ?gs) = []"
        using removed_weaker [OF weaker cleaned_no_managed [of managed ?gs]]
        by (auto simp: managed_groups_def has_managed_def list_ex_iff filter_empty_conv split: option.splits)
      ultimately have "managed_groups again (cleaned_groups managed ?gs @ ?ds) = ?ds"
        by (simp add: managed_groups_def)
      moreover have "list_all2 (group_equal fl) ?ds ?ds"
        by (simp add: list_all2_conv_all_nth group_equal_refl desired_wanted [OF nth_mem])
      ultimately show ?thesis using False that by (simp add: look installed_def groups_of_def)
    qed
    then have "list_all2 (group_equal fl) (map reread (managed_groups again (groups_of (map_of hooks' e)))) ?ds"
      by (rule reread_all) simp
    then show ?thesis by (simp add: iff managed_groups_reread)
  qed
  obtain hooks'' changed' where second:
    "install_events fl h plan again (reread_object hooks', False) = Inr (hooks'', changed')"
    using install_events_listable listable by (metis prod.exhaust)
  have "\<not> changed'"
    using install_events_lookup(2) [OF second] stays current by (auto split: if_splits)
  then show ?thesis
    using second assms(2) object by (simp add: applyJSONCommandHooks_def again_def)
qed

subsection \<open>Removing what was installed\<close>

lemma cleaned_desired:
  assumes "\<And>c. c \<in> set (hp_Hooks plan) \<Longrightarrow> managed (ch_Command c)"
  shows "cleaned_groups managed (map reread (desired_groups h plan e)) = []"
    and "desired_groups h plan e \<noteq> [] \<Longrightarrow> has_managed managed (map reread (desired_groups h plan e))"
proof -
  have one: "\<exists>hook. group_hooks (reread d) = Some [hook] \<and> managed_hook managed hook"
    if "d \<in> set (desired_groups h plan e)" for d
  proof -
    obtain c m st t where "c \<in> set (hp_Hooks plan)" "d = commandHookGroup (ch_Command c) m st t"
      using \<open>d \<in> set (desired_groups h plan e)\<close> by (auto simp: desired_groups_def)
    moreover obtain hook where "group_hooks (commandHookGroup (ch_Command c) m st t) = Some [hook]"
      "hook_command hook = Some (ch_Command c)"
      by (rule commandHookGroup_hook)
    ultimately show ?thesis using assms by (auto simp: managed_hook_command)
  qed
  have none: "cleaned_group managed (reread d) = None" if "d \<in> set (desired_groups h plan e)" for d
    using one [OF that] by (cases managed "reread d" rule: cleaned_group_cases) auto
  then show "cleaned_groups managed (map reread (desired_groups h plan e)) = []"
    by (simp add: cleaned_groups_def List.map_filter_def filter_empty_conv)
  show "has_managed managed (map reread (desired_groups h plan e))" if "desired_groups h plan e \<noteq> []"
  proof -
    from that obtain d where "d \<in> set (desired_groups h plan e)" by (cases "desired_groups h plan e") auto
    then show ?thesis using one [of d] by (auto simp: has_managed_def list_ex_iff intro!: bexI [of _ d])
  qed
qed

lemma planned_desired: "planned plan e \<longleftrightarrow> desired_groups h plan e \<noteq> []"
  by (auto simp: planned_def desired_groups_def filter_empty_conv)

text \<open>
  Installing into a configuration without hooks of the plan, writing it, reading it and removing gives
  back every event, but an event of the plan without any hooks, be it null or an empty list, is dropped,
  and so is the object of the hooks when nothing is left in it.
\<close>

definition untouched :: "(string \<Rightarrow> bool) \<Rightarrow> json_object \<Rightarrow> bool" where
  "untouched managed hooks \<longleftrightarrow> (\<forall>e. \<not> has_managed managed (groups_of (map_of hooks e)))"

definition cleared :: "hook_plan \<Rightarrow> json_object \<Rightarrow> string \<Rightarrow> json option" where
  "cleared plan hooks e =
     (if planned plan e \<and> groups_of (map_of hooks e) = [] then None else map_of hooks e)"

lemma removed_after_install:
  assumes "applyJSONCommandHooks split fl h plan config = Inr (config', changed)" "\<not> hp_HooksAtRoot plan"
    "config_ok config" "sound_plan split h plan" "reread_object config = config" "hp_Hooks plan \<noteq> []"
    "hooksObject config = Inr hooks"
    "untouched (plan_managed split h plan config) hooks"
  shows "\<exists>config'' hooks''. removeJSONCommandHooks split h plan (reread_object config') = (config'', True)
    \<and> (\<forall>k. k \<noteq> ''hooks'' \<longrightarrow> map_of config'' k = map_of config k)
    \<and> map_of config'' ''hooks'' = (if hooks'' = [] then None else Some (JObject hooks''))
    \<and> map_of hooks'' = cleared plan hooks"
proof -
  define managed where "managed = plan_managed split h plan config"
  define m3 where "m3 = isManagedSourceHookCommand split (managedSource (hp_Source plan) h) [reread_object config']"
  obtain hooks' where
    install: "install_events fl h plan managed (hooks, False) = Inr (hooks', changed)"
    and config': "config' = map_put ''hooks'' (JObject hooks') config"
    using apply_cases [OF assms(1,2)] assms(7) unfolding managed_def by (metis sum.inject(2))
  note look = install_events_lookup(1) [OF install]
  define written where "written = reread_object hooks'"
  have weaker: "managed c" if "m3 c" for c
    unfolding managed_def by (rule managed_after [OF assms(1-4) that [unfolded m3_def]]) auto
  have clean: "\<not> has_managed managed (groups_of (map_of hooks e))" for e
    using assms(8) by (simp add: untouched_def managed_def)
  have clean3: "\<not> has_managed m3 (groups_of (map_of hooks e))" for e
    by (rule removed_weaker [OF weaker clean])
  have stable: "map_option reread (map_of hooks e) = map_of hooks e" for e
  proof (cases "hooks = []")
    case False
    then have "map_of config ''hooks'' = Some (JObject hooks)"
      using assms(7) by (auto simp: hooksObject_def split: option.splits json.splits)
    then have "reread (JObject hooks) = JObject hooks"
      using map_of_reread_object [of config "''hooks''"] assms(5) by simp
    then have "reread_object hooks = hooks" by simp
    then show ?thesis by (metis map_of_reread_object)
  qed simp
  have at: "map_of (written) e =
      (if planned plan e then Some (JArray (groups_of (map_of hooks e) @ map reread (desired_groups h plan e)))
       else map_of hooks e)" for e
  proof (cases "planned plan e")
    case True
    have iff: "managedCommandHookGroupsCurrent fl gs (desired_groups h plan e) managed \<longleftrightarrow>
        list_all2 (group_equal fl) (managed_groups managed gs) (desired_groups h plan e)" for gs
      by (rule current_iff) simp
    have "managed_groups managed (groups_of (map_of hooks e)) = []"
      using clean [of e] by (auto simp: managed_groups_def has_managed_def list_ex_iff filter_empty_conv split: option.splits)
    then have "\<not> managedCommandHookGroupsCurrent fl (groups_of (map_of hooks e)) (desired_groups h plan e) managed"
      using True by (simp add: iff planned_desired [of plan e h])
    moreover have "map reread (groups_of (map_of hooks e)) = groups_of (map_of hooks e)"
      using stable [of e] groups_of_reread [of "map_of hooks e"] by simp
    ultimately show ?thesis
      using True clean by (simp add: written_def look installed_def cleaned_unmanaged groups_of_def)
  next
    case False
    then show ?thesis using clean stable by (simp add: written_def look removed_def)
  qed
  have program: "b \<in> bins split source nid (JObject (reread_object config'))"
    if "r \<in> set (hp_Hooks plan)" "reporter split source (ch_Command r) = Some b" for r b source nid
  proof -
    let ?d = "commandHookGroup (ch_Command r) (ch_Matcher r) (status_message plan) (HookTimeoutSecondsFor h (ch_Event r))"
    have "?d \<in> set (desired_groups h plan (ch_Event r))" using that(1) by (auto simp: desired_groups_def)
    moreover have "b \<in> bins split source nid (reread ?d)" using bins_group_reporter [OF that(2)] by simp
    ultimately have "b \<in> bins split source nid
        (JArray (groups_of (map_of hooks (ch_Event r)) @ map reread (desired_groups h plan (ch_Event r))))"
      by (auto simp: bins_array)
    moreover have "planned plan (ch_Event r)" using that(1) by (simp add: planned_def)
    ultimately have "b \<in> bins split source nid (JObject written)"
      using subsetD [OF bins_value] at [of "ch_Event r"] by simp
    moreover have "map_of (reread_object config') ''hooks'' = Some (JObject written)"
      by (simp add: config' written_def)
    ultimately show ?thesis using bins_value by blast
  qed
  have plan: "m3 (ch_Command c)" if "c \<in> set (hp_Hooks plan)" for c
    using assms(4) that
  proof (cases rule: sound_plan_cases)
    case (report b)
    then show ?thesis by (simp add: m3_def isManagedSourceHookCommand_def reporter_Some)
  next
    case (native r b)
    then show ?thesis unfolding m3_def by (intro managed_native [OF native(3)]) (simp add: program)
  qed
  have restored: "removed m3 (map_of (written) e) = cleared plan hooks e" for e
  proof (cases "planned plan e")
    case True
    have "has_managed m3 (map reread (desired_groups h plan e))"
      "cleaned_groups m3 (map reread (desired_groups h plan e)) = []"
      using cleaned_desired [where managed = m3 and plan = plan, OF plan] True planned_desired by blast+
    moreover have "map_of hooks e = Some (JArray (groups_of (map_of hooks e)))" if "groups_of (map_of hooks e) \<noteq> []"
      using that by (auto simp: groups_of_def split: option.splits json.splits)
    ultimately show ?thesis
      using True cleaned_unmanaged [OF clean3 [of e]]
      by (cases "groups_of (map_of hooks e) = []") (simp_all add: at removed_def cleared_def, simp_all add: groups_of_def)
  next
    case False
    then show ?thesis using clean3 by (simp add: at removed_def cleared_def)
  qed
  obtain hooks'' changed3 where rem: "removeManagedCommandHookEvents m3 (written) = (hooks'', changed3)"
    by (rule prod.exhaust)
  note r = remove_events_lookup [OF rem [unfolded removeManagedCommandHookEvents_def]]
  have same: "map_of hooks'' e = cleared plan hooks e" for e
  proof (cases "e \<in> set (map fst (written))")
    case True
    then show ?thesis using restored by (simp add: r(1))
  next
    case False
    then have "map_of (written) e = None" by (simp only: map_of_eq_None_iff) simp
    then show ?thesis using restored [of e] by (simp add: r(1) removed_def groups_of_def)
  qed
  from assms(6) obtain c where c: "c \<in> set (hp_Hooks plan)" by (cases "hp_Hooks plan") auto
  have "planned plan (ch_Event c)" using c by (simp add: planned_def)
  then have e: "map_of (written) (ch_Event c) =
      Some (JArray (groups_of (map_of hooks (ch_Event c)) @ map reread (desired_groups h plan (ch_Event c))))"
    "has_managed m3 (map reread (desired_groups h plan (ch_Event c)))"
    using at cleaned_desired(2) [where managed = m3 and plan = plan, OF plan] planned_desired by (simp, blast)
  then have "ch_Event c \<in> set (map fst (written))"
    by (metis (no_types, lifting) map_of_eq_None_iff list.set_map option.distinct(1))
  moreover have "has_managed m3 (groups_of (map_of written (ch_Event c)))"
    unfolding e(1) using e(2) by (simp add: groups_of_def)
  ultimately have "changed3" unfolding r(2) by blast
  moreover have "map_of (reread_object config') ''hooks'' = Some (JObject written)"
    by (simp add: config' written_def)
  ultimately have "removeJSONCommandHooks split h plan (reread_object config') =
      (if hooks'' = [] then map_del ''hooks'' (reread_object config')
       else map_put ''hooks'' (JObject hooks'') (reread_object config'), True)"
    using assms(2) rem
    unfolding removeJSONCommandHooks_def m3_def [symmetric] removeWrappedCommandHooks_def
    by (simp del: map_of_reread_object)
  moreover have "map_of (reread_object config') k = map_of config k" if "k \<noteq> ''hooks''" for k
    using that assms(5) by (simp add: config') (metis map_of_reread_object)
  moreover have "map_of hooks'' = cleared plan hooks" by (rule ext) (rule same)
  ultimately show ?thesis
    by (intro exI [of _ "if hooks'' = [] then map_del ''hooks'' (reread_object config')
        else map_put ''hooks'' (JObject hooks'') (reread_object config')"] exI [of _ hooks''] conjI allI impI)
      simp_all
qed

end
