(* ===== verification/Aht_TextBlock.thy ===== *)
theory Aht_TextBlock
  imports Aht_Hooks Aht_Screen
begin

section \<open>Positions in a text\<close>

text \<open>\<open>strings.Index\<close>, and the trimming of characters on one side.\<close>

fun str_index :: "string \<Rightarrow> string \<Rightarrow> nat option" where
  "str_index [] p = (if p = [] then Some 0 else None)"
| "str_index (c # cs) p = (if has_prefix (c # cs) p then Some 0 else map_option Suc (str_index cs p))"

definition trim_right_of :: "char set \<Rightarrow> string \<Rightarrow> string" where
  "trim_right_of cutset s = rev (dropWhile (\<lambda>c. c \<in> cutset) (rev s))"

definition trim_left_of :: "char set \<Rightarrow> string \<Rightarrow> string" where
  "trim_left_of cutset s = dropWhile (\<lambda>c. c \<in> cutset) s"

lemma has_prefix_split: "has_prefix s p \<longleftrightarrow> (\<exists>r. s = p @ r)"
  by (induction s p rule: has_prefix.induct) auto

lemma has_prefix_append [simp]: "has_prefix (p @ r) p"
  by (simp add: has_prefix_split)

lemma str_index_Some:
  "str_index t p = Some i \<longleftrightarrow>
     i \<le> length t \<and> has_prefix (drop i t) p \<and> (\<forall>j < i. \<not> has_prefix (drop j t) p)"
proof (induction t arbitrary: i)
  case Nil
  show ?case by (cases p) auto
next
  case (Cons c cs)
  show ?case
  proof (cases i)
    case 0
    then show ?thesis by auto
  next
    case (Suc k)
    have "(\<forall>j < Suc k. \<not> has_prefix (drop j (c # cs)) p) \<longleftrightarrow>
        \<not> has_prefix (c # cs) p \<and> (\<forall>j < k. \<not> has_prefix (drop j cs) p)"
      by (auto simp: All_less_Suc2)
    then show ?thesis using Cons.IH [of k] Suc by auto
  qed
qed

lemma contains_iff: "contains t p \<longleftrightarrow> (\<exists>u v. t = u @ p @ v)"
proof (induction t)
  case (Cons c cs)
  have "(\<exists>u v. c # cs = u @ p @ v) \<longleftrightarrow> has_prefix (c # cs) p \<or> (\<exists>u v. cs = u @ p @ v)"
    by (auto simp: has_prefix_split Cons_eq_append_conv)
  then show ?case using Cons by simp
qed auto

lemma str_index_None: "str_index t p = None \<longleftrightarrow> \<not> contains t p"
  by (induction t) (auto)

lemma contains_drop: "contains t p \<longleftrightarrow> (\<exists>i \<le> length t. has_prefix (drop i t) p)"
proof
  assume "contains t p"
  then obtain u v where "t = u @ p @ v" by (auto simp: contains_iff)
  then show "\<exists>i \<le> length t. has_prefix (drop i t) p" by (intro exI [of _ "length u"]) simp
next
  assume "\<exists>i \<le> length t. has_prefix (drop i t) p"
  then obtain i r where "drop i t = p @ r" by (auto simp: has_prefix_split)
  then have "t = take i t @ p @ r" by (metis append_take_drop_id)
  then show "contains t p" unfolding contains_iff by blast
qed

section \<open>Blocks in text files: \<open>internal/install/harness_plan.go\<close>, \<open>remove.go\<close>\<close>

text \<open>
  An integration may own a block of a text file, between two markers. A turn of
  \<open>removeManagedTextBlock\<close> removes the first block with the blank space around it; it gives nothing
  when no block is left. A slice of the text between the markers that would be negative panics.
\<close>

record text_plan =
  tp_Toml :: bool
  tp_StartMarker :: string
  tp_EndMarker :: string
  tp_Block :: string

abbreviation blank :: "char set" where
  "blank \<equiv> {CHR '' '', CHR 0x09, CHR 0x0D, CHR 0x0A}"

abbreviation newline :: "char set" where
  "newline \<equiv> {CHR 0x0D, CHR 0x0A}"

definition remove_block :: "string \<Rightarrow> string \<Rightarrow> string \<Rightarrow> install_error + string option" where
  "remove_block startMarker endMarker current =
     (case str_index current startMarker of
        None \<Rightarrow> Inr None
      | Some i \<Rightarrow>
          (case str_index (drop i current) endMarker of
             None \<Rightarrow> Inl ErrManagedBlockMarker
           | Some j \<Rightarrow>
               if j < length startMarker then Inl ErrSliceBounds
               else if contains (drop (i + length startMarker) (take (i + j) current)) startMarker
               then Inl ErrManagedBlockMarker
               else (let front = trim_right_of blank (take i current);
                         tail = trim_left_of newline (drop (i + j + length endMarker) current)
                     in Inr (Some (if front = [] then tail
                                   else if tail = [] then front
                                   else front @ [CHR 0x0A, CHR 0x0A] @ tail)))))"

text \<open>The loop, with as many turns as are allowed; \<open>None\<close> when it has not ended by then.\<close>

fun remove_blocks :: "nat \<Rightarrow> string \<Rightarrow> string \<Rightarrow> string \<Rightarrow> (install_error + string) option" where
  "remove_blocks 0 startMarker endMarker current = None"
| "remove_blocks (Suc n) startMarker endMarker current =
     (case remove_block startMarker endMarker current of
        Inl e \<Rightarrow> Some (Inl e)
      | Inr None \<Rightarrow> Some (Inr current)
      | Inr (Some current') \<Rightarrow> remove_blocks n startMarker endMarker current')"

definition removeManagedTextBlock :: "string \<Rightarrow> string \<Rightarrow> string \<Rightarrow> (install_error + string) option" where
  "removeManagedTextBlock current startMarker endMarker =
     remove_blocks (Suc (length current)) startMarker endMarker current"

definition appendManagedTextBlock :: "string \<Rightarrow> string \<Rightarrow> string" where
  "appendManagedTextBlock current block =
     (let trimmed = trim_right_of blank current
      in if trimmed = [] then block else trimmed @ [CHR 0x0A, CHR 0x0A] @ block)"

text \<open>
  A text file: missing, unreadable, or its content; a missing one is read as empty. \<open>valid\<close> tells
  whether a text is TOML.
\<close>

datatype text_file = TextMissing | TextUnreadable | TextContent string

definition readTextFile :: "text_file \<Rightarrow> install_error + string" where
  "readTextFile f =
     (case f of
        TextMissing \<Rightarrow> Inr []
      | TextUnreadable \<Rightarrow> Inl (ErrInstallIO ''reading'')
      | TextContent t \<Rightarrow> Inr t)"

definition write_text :: "write_result \<Rightarrow> string \<Rightarrow> text_file \<Rightarrow> install_error option \<times> text_file" where
  "write_text w t f =
     (case w of
        Written \<Rightarrow> (None, TextContent t)
      | Failed \<Rightarrow> (Some (ErrInstallIO ''writing''), f)
      | Unsynced \<Rightarrow> (Some (ErrInstallIO ''syncing''), TextContent t))"

definition written_text ::
    "bool \<Rightarrow> write_result \<Rightarrow> string \<Rightarrow> string \<Rightarrow> text_file \<Rightarrow> (install_error + bool) \<times> text_file" where
  "written_text dry w current t f =
     (if current = t \<or> dry then (Inr (current \<noteq> t), f)
      else (case write_text w t f of
              (Some e, f') \<Rightarrow> (Inl e, f')
            | (None, f') \<Rightarrow> (Inr True, f')))"

definition installManagedTextBlock ::
    "bool \<Rightarrow> write_result \<Rightarrow> (string \<Rightarrow> bool) \<Rightarrow> text_plan \<Rightarrow> text_file
     \<Rightarrow> ((install_error + bool) \<times> text_file) option" where
  "installManagedTextBlock dry w valid plan f =
     (case readTextFile f of
        Inl e \<Rightarrow> Some (Inl e, f)
      | Inr current \<Rightarrow>
          (case removeManagedTextBlock current (tp_StartMarker plan) (tp_EndMarker plan) of
             None \<Rightarrow> None
           | Some (Inl e) \<Rightarrow> Some (Inl e, f)
           | Some (Inr cleaned) \<Rightarrow>
               (let t = appendManagedTextBlock cleaned (tp_Block plan)
                in Some (if tp_Toml plan \<and> valid cleaned \<and> \<not> valid t
                         then (Inl (ErrHookConfigShape ''managed block''), f)
                         else written_text dry w current t f))))"

definition removeTextBlock ::
    "bool \<Rightarrow> write_result \<Rightarrow> text_plan \<Rightarrow> text_file \<Rightarrow> ((install_error + bool) \<times> text_file) option" where
  "removeTextBlock dry w plan f =
     (case readTextFile f of
        Inl e \<Rightarrow> Some (Inl e, f)
      | Inr current \<Rightarrow>
          (case removeManagedTextBlock current (tp_StartMarker plan) (tp_EndMarker plan) of
             None \<Rightarrow> None
           | Some (Inl e) \<Rightarrow> Some (Inl e, f)
           | Some (Inr t) \<Rightarrow> Some (written_text dry w current t f)))"

subsection \<open>Removing ends\<close>

lemma trim_right_of_prefix: "\<exists>r. s = trim_right_of cs s @ r \<and> set r \<subseteq> cs"
proof -
  have "rev s = takeWhile (\<lambda>c. c \<in> cs) (rev s) @ dropWhile (\<lambda>c. c \<in> cs) (rev s)" by simp
  then have "s = trim_right_of cs s @ rev (takeWhile (\<lambda>c. c \<in> cs) (rev s))"
    unfolding trim_right_of_def by (metis rev_append rev_rev_ident)
  moreover have "set (rev (takeWhile (\<lambda>c. c \<in> cs) (rev s))) \<subseteq> cs" by (auto dest: set_takeWhileD)
  ultimately show ?thesis by blast
qed

lemma trim_right_of_length: "length (trim_right_of cs s) \<le> length s"
  using trim_right_of_prefix [of s cs] by (metis le_add1 length_append)

lemma trim_right_of_idem [simp]: "trim_right_of cs (trim_right_of cs s) = trim_right_of cs s"
  by (simp add: trim_right_of_def)

lemma trim_left_of_length: "length (trim_left_of cs s) \<le> length s"
  by (simp add: trim_left_of_def length_dropWhile_le)

lemma remove_block_shorter:
  assumes "remove_block s e current = Inr (Some current')" "length s + length e > 2"
  shows "length current' < length current"
proof -
  from assms(1) obtain i j where ij: "str_index current s = Some i" "str_index (drop i current) e = Some j"
    "length s \<le> j" and r: "current' = (let front = trim_right_of blank (take i current);
        tail = trim_left_of newline (drop (i + j + length e) current)
      in if front = [] then tail else if tail = [] then front
         else front @ [CHR 0x0A, CHR 0x0A] @ tail)"
    by (auto simp: remove_block_def Let_def split: option.splits if_splits)
  have "i \<le> length current" using ij(1) by (simp add: str_index_Some)
  moreover have "j + length e \<le> length current - i"
    using ij(2) has_prefix_length [of "drop j (drop i current)" e] by (auto simp: str_index_Some)
  moreover have "length (trim_right_of blank (take i current)) \<le> i"
    using trim_right_of_length [of blank "take i current"] by simp
  moreover have "length (trim_left_of newline (drop (i + j + length e) current)) \<le> length current - (i + j + length e)"
    using trim_left_of_length [of newline "drop (i + j + length e) current"] by simp
  ultimately show ?thesis using r ij(3) assms(2) by (auto simp: Let_def split: if_splits)
qed

lemma remove_blocks_end:
  assumes "length s + length e > 2" "length current < n"
  shows "remove_blocks n s e current \<noteq> None"
  using assms(2)
proof (induction n arbitrary: current)
  case (Suc n)
  show ?case
    using Suc remove_block_shorter [OF _ assms(1), of current]
    by (fastforce split: sum.split option.split)
qed simp

subsection \<open>A block that is appended and removed\<close>

text \<open>A block begins and ends with its markers, which do not occur otherwise, and line breaks.\<close>

definition block_ok :: "string \<Rightarrow> string \<Rightarrow> string \<Rightarrow> bool" where
  "block_ok s e block \<longleftrightarrow>
     s \<noteq> [] \<and> CHR 0x0A \<notin> set s
     \<and> (\<exists>mid nl. block = s @ mid @ e @ nl \<and> set nl \<subseteq> newline \<and> \<not> contains mid s
          \<and> str_index block e = Some (length s + length mid))"

lemma prefix_stops:
  assumes "has_prefix (drop i (t @ CHR 0x0A # rest)) s" "i \<le> length t" "CHR 0x0A \<notin> set s"
  shows "has_prefix (drop i t) s"
proof -
  from assms(1,2) obtain r where r: "drop i t @ CHR 0x0A # rest = s @ r" by (auto simp: has_prefix_split)
  have "length s \<le> length (drop i t)"
  proof (rule ccontr)
    assume *: "\<not> ?thesis"
    then have "(s @ r) ! length (drop i t) = s ! length (drop i t)" by (simp add: nth_append)
    moreover have "(s @ r) ! length (drop i t) = CHR 0x0A" unfolding r [symmetric] by (simp add: nth_append)
    ultimately have "CHR 0x0A \<in> set s" using * by (metis linorder_not_le nth_mem)
    with assms(3) show False by simp
  qed
  then have "take (length s) (drop i t) = s"
    using r by (metis append_eq_conv_conj take_append diff_is_0_eq take0 append_Nil2)
  then show ?thesis unfolding has_prefix_split by (metis append_take_drop_id)
qed

lemma str_index_block:
  assumes "\<not> contains t s" "CHR 0x0A \<notin> set s" "s \<noteq> []"
  shows "str_index (t @ CHR 0x0A # CHR 0x0A # s @ rest) s = Some (length t + 2)"
proof -
  let ?u = "t @ CHR 0x0A # CHR 0x0A # s @ rest"
  have "\<not> has_prefix (drop j ?u) s" if "j < length t + 2" for j
  proof
    assume p: "has_prefix (drop j ?u) s"
    consider "j \<le> length t" | "j = length t + 1" using \<open>j < length t + 2\<close> by linarith
    then show False
    proof cases
      case 1
      then have "has_prefix (drop j t) s" using prefix_stops [OF p _ assms(2)] by simp
      with assms(1) 1 show False by (auto simp: contains_drop)
    next
      case 2
      then have "has_prefix (CHR 0x0A # s @ rest) s" using p by simp
      with assms(2,3) show False by (cases s) auto
    qed
  qed
  then show ?thesis by (auto simp: str_index_Some)
qed

lemma append_then_remove:
  assumes "block_ok s e block" "\<not> contains current s"
  shows "remove_block s e (appendManagedTextBlock current block) = Inr (Some (trim_right_of blank current))"
proof -
  obtain mid nl where block: "block = s @ mid @ e @ nl" "set nl \<subseteq> newline" "\<not> contains mid s"
    "str_index block e = Some (length s + length mid)" and s: "s \<noteq> []" "CHR 0x0A \<notin> set s"
    using assms(1) by (auto simp: block_ok_def)
  define trimmed where "trimmed = trim_right_of blank current"
  have no_marker: "\<not> contains trimmed s"
  proof
    assume "contains trimmed s"
    then obtain u v where "trimmed = u @ s @ v" by (auto simp: contains_iff)
    moreover obtain r where "current = trimmed @ r" using trim_right_of_prefix unfolding trimmed_def by blast
    ultimately have "current = u @ s @ (v @ r)" by simp
    then show False using assms(2) unfolding contains_iff by blast
  qed
  define front where "front = (if trimmed = [] then [] else trimmed @ [CHR 0x0A, CHR 0x0A])"
  have app: "appendManagedTextBlock current block = front @ block"
    by (simp add: appendManagedTextBlock_def trimmed_def front_def Let_def)
  have i: "str_index (front @ block) s = Some (length front)"
  proof (cases "trimmed = []")
    case True
    then show ?thesis using s(1) by (simp add: front_def block(1) str_index_Some)
  next
    case False
    then have "front @ block = trimmed @ CHR 0x0A # CHR 0x0A # s @ (mid @ e @ nl)" "length front = length trimmed + 2"
      by (simp_all add: front_def block(1))
    then show ?thesis using str_index_block [OF no_marker s(2,1), of "mid @ e @ nl"] by simp
  qed
  have trimmed_front: "trim_right_of blank front = trimmed"
  proof (cases "trimmed = []")
    case False
    have "trim_right_of blank (trimmed @ [CHR 0x0A, CHR 0x0A]) = trim_right_of blank trimmed"
      by (simp add: trim_right_of_def)
    then show ?thesis using False by (simp add: front_def trimmed_def)
  qed (simp add: front_def trim_right_of_def)
  have tail: "trim_left_of newline nl = []"
    using block(2) by (auto simp: trim_left_of_def dropWhile_eq_Nil_conv)
  have "drop (length front + (length s + length mid) + length e) (front @ block) = nl"
    by (simp add: block(1))
  moreover have "drop (length front + length s) (take (length front + (length s + length mid)) (front @ block)) = mid"
    by (simp add: block(1))
  ultimately show ?thesis
    using i block(3,4) tail trimmed_front unfolding app remove_block_def
    by (simp add: Let_def trimmed_def)
qed

lemma removeManagedTextBlock_appended:
  assumes "block_ok s e block" "\<not> contains current s"
  shows "removeManagedTextBlock (appendManagedTextBlock current block) s e = Some (Inr (trim_right_of blank current))"
proof -
  obtain r where "current = trim_right_of blank current @ r" using trim_right_of_prefix by blast
  then have "\<not> contains (trim_right_of blank current) s"
    using assms(2) unfolding contains_iff by (metis append.assoc)
  then have none: "remove_block s e (trim_right_of blank current) = Inr None"
    by (simp add: remove_block_def str_index_None [THEN iffD2])
  have "appendManagedTextBlock current block \<noteq> []"
    using assms(1) by (auto simp: appendManagedTextBlock_def block_ok_def Let_def)
  then obtain n where "length (appendManagedTextBlock current block) = Suc n"
    by (cases "appendManagedTextBlock current block") auto
  then show ?thesis
    by (simp add: removeManagedTextBlock_def append_then_remove [OF assms] none)
qed

lemma append_trimmed: "appendManagedTextBlock (trim_right_of blank current) block = appendManagedTextBlock current block"
  by (simp add: appendManagedTextBlock_def)

subsection \<open>A block in a file\<close>

lemma remove_blocks_clean: "remove_blocks n s e current = Some (Inr t) \<Longrightarrow> \<not> contains t s"
proof (induction n arbitrary: current)
  case (Suc n)
  show ?case
  proof (cases "remove_block s e current")
    case (Inr r)
    show ?thesis
    proof (cases r)
      case None
      then have "str_index current s = None"
        using Inr by (auto simp: remove_block_def Let_def split: option.splits if_splits)
      then show ?thesis using Suc.prems Inr None by (simp add: str_index_None)
    qed (use Suc Inr in simp)
  qed (use Suc.prems in simp)
qed simp

text \<open>The text a file holds after a block was installed, and what is left of it when it is removed.\<close>

lemma installed_text:
  assumes "installManagedTextBlock False w valid plan f = Some (Inr changed, f')"
    "block_ok (tp_StartMarker plan) (tp_EndMarker plan) (tp_Block plan)"
  obtains cleaned current where "readTextFile f = Inr current"
    "removeManagedTextBlock current (tp_StartMarker plan) (tp_EndMarker plan) = Some (Inr cleaned)"
    "f' = TextContent (appendManagedTextBlock cleaned (tp_Block plan))"
    "\<not> contains cleaned (tp_StartMarker plan)"
proof -
  obtain current where current: "readTextFile f = Inr current"
    using assms(1) by (auto simp: installManagedTextBlock_def split: sum.splits)
  obtain cleaned where cleaned:
    "removeManagedTextBlock current (tp_StartMarker plan) (tp_EndMarker plan) = Some (Inr cleaned)"
    using assms(1) current by (auto simp: installManagedTextBlock_def split: option.splits sum.splits)
  let ?t = "appendManagedTextBlock cleaned (tp_Block plan)"
  have block: "tp_Block plan \<noteq> []" using assms(2) by (auto simp: block_ok_def)
  have "written_text False w current ?t f = (Inr changed, f')"
    using assms(1) current cleaned by (simp add: installManagedTextBlock_def Let_def split: if_splits)
  then have "f' = TextContent ?t"
    using current block
    by (auto simp: written_text_def write_text_def readTextFile_def appendManagedTextBlock_def Let_def
        split: if_splits write_result.splits text_file.splits)
  then show ?thesis
    using that [OF current cleaned] remove_blocks_clean cleaned unfolding removeManagedTextBlock_def by blast
qed

lemma text_installed_twice:
  assumes "installManagedTextBlock False w valid plan f = Some (Inr changed, f')"
    "block_ok (tp_StartMarker plan) (tp_EndMarker plan) (tp_Block plan)"
    "\<And>t. tp_Toml plan \<Longrightarrow> f' = TextContent t \<Longrightarrow> valid t"
  shows "installManagedTextBlock dry w' valid plan f' = Some (Inr False, f')"
proof -
  obtain cleaned where f': "f' = TextContent (appendManagedTextBlock cleaned (tp_Block plan))"
    and clean: "\<not> contains cleaned (tp_StartMarker plan)"
    using installed_text [OF assms(1,2)] by blast
  show ?thesis
    using removeManagedTextBlock_appended [OF assms(2) clean] assms(3) f'
    by (auto simp: installManagedTextBlock_def readTextFile_def Let_def append_trimmed written_text_def)
qed

lemma text_removed_after_install:
  assumes "installManagedTextBlock False w valid plan f = Some (Inr changed, f')"
    "block_ok (tp_StartMarker plan) (tp_EndMarker plan) (tp_Block plan)"
    "readTextFile f = Inr current" "\<not> contains current (tp_StartMarker plan)"
  shows "removeTextBlock False Written plan f' = Some (Inr True, TextContent (trim_right_of blank current))"
proof -
  obtain cleaned where f': "f' = TextContent (appendManagedTextBlock cleaned (tp_Block plan))"
    and cleaned: "removeManagedTextBlock current (tp_StartMarker plan) (tp_EndMarker plan) = Some (Inr cleaned)"
    using installed_text [OF assms(1,2)] assms(3) by (metis sum.inject(2))
  have "cleaned = current"
    using cleaned assms(4) by (simp add: removeManagedTextBlock_def remove_block_def str_index_None [THEN iffD2])
  moreover have "length (trim_right_of blank current) < length (appendManagedTextBlock current (tp_Block plan))"
    using assms(2) by (auto simp: appendManagedTextBlock_def block_ok_def Let_def)
  ultimately show ?thesis
    using removeManagedTextBlock_appended [OF assms(2,4)] f'
    by (auto simp: removeTextBlock_def readTextFile_def written_text_def write_text_def)
qed

lemma text_installs:
  assumes "block_ok (tp_StartMarker plan) (tp_EndMarker plan) (tp_Block plan)"
    "readTextFile f = Inr current" "\<not> contains current (tp_StartMarker plan)"
    "tp_Toml plan \<longrightarrow> valid (appendManagedTextBlock current (tp_Block plan))"
  shows "\<exists>changed. installManagedTextBlock False Written valid plan f =
    Some (Inr changed, TextContent (appendManagedTextBlock current (tp_Block plan)))"
proof -
  have "removeManagedTextBlock current (tp_StartMarker plan) (tp_EndMarker plan) = Some (Inr current)"
    using assms(3) by (simp add: removeManagedTextBlock_def remove_block_def str_index_None [THEN iffD2])
  moreover have "tp_Block plan \<noteq> []" using assms(1) by (auto simp: block_ok_def)
  ultimately show ?thesis
    using assms(2,4)
    by (auto simp: installManagedTextBlock_def written_text_def write_text_def readTextFile_def
        appendManagedTextBlock_def Let_def split: text_file.splits)
qed

lemma text_install_returns:
  assumes "length (tp_StartMarker plan) + length (tp_EndMarker plan) > 2"
  shows "installManagedTextBlock dry w valid plan f \<noteq> None" "removeTextBlock dry w plan f \<noteq> None"
proof -
  have returns: "removeManagedTextBlock current (tp_StartMarker plan) (tp_EndMarker plan) \<noteq> None" for current
    unfolding removeManagedTextBlock_def by (rule remove_blocks_end [OF assms lessI])
  then show "installManagedTextBlock dry w valid plan f \<noteq> None" "removeTextBlock dry w plan f \<noteq> None"
    using returns
    by (auto simp del: not_None_eq simp: installManagedTextBlock_def removeTextBlock_def Let_def
        split: sum.splits option.splits)
qed

end
