(* ===== verification/Aht_HookPlans.thy ===== *)
theory Aht_HookPlans
  imports Aht_HooksFacts Aht_TextBlock
begin

section \<open>The hooks of the adapters: \<open>internal/harness/install.go\<close> and \<open>internal/harness/*/adapter.go\<close>\<close>

text \<open>
  What the adapters install as commands in a configuration. A transition is an activity or a
  presence; the constants of the code are valid ones. The paths of the files are not modelled.
\<close>

datatype transition = TransitionActivity activity | TransitionPresence presence

fun hookTransitionArgument :: "transition \<Rightarrow> string \<times> string" where
  "hookTransitionArgument (TransitionActivity a) = (''--activity'', activity_string a)"
| "hookTransitionArgument (TransitionPresence p) = (''--presence'', presence_string p)"

definition ReportHookCommand ::
    "string \<Rightarrow> harness \<Rightarrow> transition \<Rightarrow> string \<Rightarrow> string \<Rightarrow> string" where
  "ReportHookCommand binary h t event source =
     (let (flag, state) = hookTransitionArgument t
      in reportHookCommand binary h flag state event source ''--raw-stdin'')"

definition RawStdinDefaultsReportHookCommand ::
    "string \<Rightarrow> harness \<Rightarrow> transition \<Rightarrow> string \<Rightarrow> string \<Rightarrow> string" where
  "RawStdinDefaultsReportHookCommand binary h t event source =
     (let (flag, state) = hookTransitionArgument t
      in reportHookCommand binary h flag state event source ''--raw-stdin-defaults-only'')"

abbreviation to_running :: transition where "to_running \<equiv> TransitionActivity ActivityRunning"
abbreviation to_waiting :: transition where "to_waiting \<equiv> TransitionActivity ActivityWaiting"
abbreviation to_idle :: transition where "to_idle \<equiv> TransitionActivity ActivityIdle"
abbreviation to_failed :: transition where "to_failed \<equiv> TransitionActivity ActivityFailed"
abbreviation to_live :: transition where "to_live \<equiv> TransitionPresence PresenceLive"
abbreviation to_gone :: transition where "to_gone \<equiv> TransitionPresence PresenceGone"

text \<open>A hook of an event that reports a transition of that event.\<close>

definition reporting :: "(transition \<Rightarrow> string \<Rightarrow> string) \<Rightarrow> string \<times> string \<times> transition \<Rightarrow> command_hook" where
  "reporting command = (\<lambda>(event, matcher, t).
     \<lparr>ch_Event = event, ch_Matcher = matcher, ch_Command = command t event\<rparr>)"

subsection \<open>Claude\<close>

definition claude_command :: "string \<Rightarrow> transition \<Rightarrow> string \<Rightarrow> string" where
  "claude_command binary t event = ReportHookCommand binary ''claude'' t event ''claude-hook''"

definition claude_native :: "string \<Rightarrow> string \<Rightarrow> command_hook" where
  "claude_native binary event =
     \<lparr>ch_Event = event, ch_Matcher = [],
      ch_Command = ShellQuote binary @ '' --json hook claude --event '' @ event\<rparr>"

definition claude_plan :: "string \<Rightarrow> hook_plan" where
  "claude_plan binary =
     \<lparr>hp_Source = ''claude-hook'', hp_StatusMessage = [], hp_OmitStatusMessage = False, hp_HooksAtRoot = False,
      hp_Hooks =
        map (reporting (claude_command binary))
          [(''SessionStart'', ''startup|resume|clear'', to_idle), (''SessionStart'', ''compact'', to_live)]
        @ map (claude_native binary) [''SessionStart'', ''FileChanged'']
        @ map (reporting (claude_command binary))
          [(''UserPromptSubmit'', [], to_running), (''PreToolUse'', [], to_running), (''PostToolUse'', [], to_running),
           (''PostToolUseFailure'', [], to_running), (''PermissionRequest'', [], to_waiting), (''Elicitation'', [], to_waiting),
           (''ElicitationResult'', [], to_running), (''PermissionDenied'', [], to_idle),
           (''Notification'', ''permission_prompt'', to_waiting), (''PreCompact'', ''manual'', to_running),
           (''PostCompact'', ''manual'', to_idle), (''Stop'', [], to_idle), (''StopFailure'', [], to_failed),
           (''SessionEnd'', [], to_gone)]\<rparr>"

subsection \<open>Codex, Qwen and Droid\<close>

definition codex_command :: "string \<Rightarrow> transition \<Rightarrow> string \<Rightarrow> string" where
  "codex_command binary t event = ReportHookCommand binary ''codex'' t event ''codex-hook''"

definition codex_plan :: "string \<Rightarrow> hook_plan" where
  "codex_plan binary =
     \<lparr>hp_Source = ''codex-hook'', hp_StatusMessage = ''Recording agent session'', hp_OmitStatusMessage = False,
      hp_HooksAtRoot = False,
      hp_Hooks =
        map (reporting (codex_command binary))
          [(''SessionStart'', ''startup|resume|clear'', to_idle), (''SessionStart'', ''compact'', to_live),
           (''UserPromptSubmit'', [], to_running), (''PermissionRequest'', ''*'', to_waiting)]
        @ [reporting (\<lambda>t event. RawStdinDefaultsReportHookCommand binary ''codex'' t event ''codex-hook'')
             (''PostToolUse'', [], to_running)]
        @ map (reporting (codex_command binary))
          [(''PreCompact'', [], to_running), (''PostCompact'', ''manual'', to_idle), (''Stop'', [], to_idle),
           (''Interrupt'', [], TransitionActivity ActivityInterrupted), (''SessionEnd'', ''other'', to_gone)]\<rparr>"

definition qwenHookCommand :: "string \<Rightarrow> transition \<Rightarrow> string \<Rightarrow> string" where
  "qwenHookCommand binary t event = RawStdinDefaultsReportHookCommand binary ''qwen'' t event ''qwen-hook''"

definition qwen_plan :: "string \<Rightarrow> hook_plan" where
  "qwen_plan binary =
     \<lparr>hp_Source = ''qwen-hook'', hp_StatusMessage = [], hp_OmitStatusMessage = True, hp_HooksAtRoot = False,
      hp_Hooks =
        map (reporting (qwenHookCommand binary))
          [(''SessionStart'', ''startup|resume|clear|branch'', to_idle), (''SessionStart'', ''compact'', to_live),
           (''UserPromptSubmit'', [], to_running), (''PreToolUse'', [], to_running), (''PostToolUse'', [], to_running),
           (''PostToolUseFailure'', [], to_running), (''Notification'', ''permission_prompt'', to_waiting),
           (''Notification'', ''idle_prompt'', to_idle), (''PreCompact'', [], to_running),
           (''PostCompact'', ''manual'', to_idle), (''Stop'', [], to_idle), (''StopFailure'', [], to_failed),
           (''SessionEnd'', [], to_gone)]\<rparr>"

definition droidHookCommand :: "string \<Rightarrow> transition \<Rightarrow> string \<Rightarrow> string" where
  "droidHookCommand binary t event = RawStdinDefaultsReportHookCommand binary ''droid'' t event ''droid-hook''"

definition droid_plan :: "string \<Rightarrow> hook_plan" where
  "droid_plan binary =
     \<lparr>hp_Source = ''droid-hook'', hp_StatusMessage = [], hp_OmitStatusMessage = True, hp_HooksAtRoot = True,
      hp_Hooks =
        map (reporting (droidHookCommand binary))
          [(''SessionStart'', [], to_idle), (''UserPromptSubmit'', [], to_running), (''PreToolUse'', [], to_running),
           (''PostToolUse'', [], to_running), (''Notification'', ''permission_prompt'', to_waiting),
           (''Notification'', ''idle_prompt'', to_idle), (''Stop'', [], to_idle), (''PreCompact'', [], to_running),
           (''SessionEnd'', [], to_gone)]\<rparr>"

subsection \<open>Cursor and Crush\<close>

definition cursorHookCommand :: "string \<Rightarrow> transition \<Rightarrow> string \<Rightarrow> string \<Rightarrow> string" where
  "cursorHookCommand binary t event hookOutput =
     RawStdinDefaultsReportHookCommand binary ''cursor'' t event ''cursor-hook''
     @ '' >/dev/null 2>&1 || true; printf '' @ [QUOTE] @ ''%s'' @ [CHR 0x5C] @ ''n'' @ [QUOTE] @ '' ''
     @ ShellQuote hookOutput"

definition continue_output :: string where
  "continue_output = ''{'' @ [DQUOTE] @ ''continue'' @ [DQUOTE] @ '':true}''"

definition cursor_hooks :: "string \<Rightarrow> cursor_plan" where
  "cursor_hooks binary =
     \<lparr>cp_Source = ''cursor-hook'',
      cp_Hooks = map (\<lambda>(event, t, output). \<lparr>cr_Event = event, cr_Command = cursorHookCommand binary t event output\<rparr>)
        [(''sessionStart'', to_idle, ''{}''), (''beforeSubmitPrompt'', to_running, continue_output),
         (''stop'', to_idle, ''{}''), (''sessionEnd'', to_gone, ''{}'')]\<rparr>"

definition crush_start :: string where
  "crush_start = ''# BEGIN aht managed integration: crush''"

definition crush_end :: string where
  "crush_end = ''# END aht managed integration: crush''"

definition crushHookBlock :: "string \<Rightarrow> string" where
  "crushHookBlock binary =
     (let command = ReportHookCommand binary ''crush'' to_running ''PreToolUse'' ''crush-hook''
      in crush_start @ [CHR 0x0A] @ ''# '' @ managedMarker @ [CHR 0x0A] @ ''# AHT_INTEGRATION_ID=crush'' @ [CHR 0x0A]
         @ ''hook add '' @ ''PreToolUse'' @ '' --name '' @ ''aht'' @ '' --timeout '' @ itoa HookTimeoutSeconds
         @ '' --command '' @ ShellQuote command @ [CHR 0x0A] @ crush_end @ [CHR 0x0A])"

definition crush_plan :: "string \<Rightarrow> text_plan" where
  "crush_plan binary =
     \<lparr>tp_Toml = False, tp_StartMarker = crush_start, tp_EndMarker = crush_end, tp_Block = crushHookBlock binary\<rparr>"

subsection \<open>The plans are sound\<close>

text \<open>
  What the code relies on in the word splitter of the shell: the quoted words of a command, a program
  and plain words, are read back.
\<close>

definition plain_word :: "string \<Rightarrow> bool" where
  "plain_word w \<longleftrightarrow> w \<noteq> [] \<and> list_all isSafeShellRune w"

definition splits_words :: "(string \<Rightarrow> string list option) \<Rightarrow> string \<Rightarrow> bool" where
  "splits_words split binary \<longleftrightarrow>
     (\<forall>ws. list_all plain_word ws \<longrightarrow> split (join '' '' (map ShellQuote (binary # ws))) = Some (binary # ws))"

lemma ShellQuote_plain: "plain_word w \<Longrightarrow> ShellQuote w = w"
  by (simp add: plain_word_def ShellQuote_def)

lemma tagged_suffix: "tagged source t \<Longrightarrow> tagged source (u @ t)"
  by (induction u) simp_all

lemma tagged_reporter: "tagged source (''--reporter '' @ source @ '' '' @ rest)"
proof -
  have "tag_value source (source @ '' '' @ rest)"
    by (simp add: tag_value_def regex_space_def)
  then have "tag_here source (''--reporter '' @ source @ '' '' @ rest)"
    by (simp add: tag_here_def regex_space_def tag_quoted_def)
  then show ?thesis by simp
qed

lemma join_append: "xs \<noteq> [] \<Longrightarrow> ys \<noteq> [] \<Longrightarrow> join sep (xs @ ys) = join sep xs @ sep @ join sep ys"
  by (induction sep xs rule: join.induct) (auto simp: neq_Nil_conv)

lemma version_word: "plain_word (itoa IntegrationVersion)" by code_simp

lemma report_words:
  assumes "list_all plain_word [h, state, source, flag, stdin]" "event = [] \<or> plain_word event"
  shows "reportHookCommand binary h flag state event source stdin =
    join '' '' (map ShellQuote (binary # [''report'', h, flag, state]
      @ (if event \<noteq> [] then [''--event'', event] else [])
      @ [''--reporter-version'', itoa IntegrationVersion, ''--reporter'', source, stdin, ''--quiet'']))"
proof -
  have "plain_word ''report''" "plain_word ''--event''" "plain_word ''--reporter-version''"
    "plain_word ''--reporter''" "plain_word ''--quiet''" by code_simp+
  then show ?thesis using assms by (auto simp: reportHookCommand_def ShellQuote_plain)
qed

lemma reporter_report:
  assumes "splits_words split binary" "binary \<noteq> []"
    "list_all plain_word [h, state, source, flag, stdin]" "event = [] \<or> plain_word event"
  shows "reporter split source (reportHookCommand binary h flag state event source stdin) = Some binary"
proof -
  define ws where "ws = [''report'', h, flag, state] @ (if event \<noteq> [] then [''--event'', event] else [])
      @ [''--reporter-version'', itoa IntegrationVersion, ''--reporter'', source, stdin, ''--quiet'']"
  have "plain_word ''report''" "plain_word ''--event''" "plain_word ''--reporter-version''"
    "plain_word ''--reporter''" "plain_word ''--quiet''" by code_simp+
  then have ws: "list_all plain_word ws" using assms(3,4) version_word by (auto simp: ws_def)
  have "reportHookCommand binary h flag state event source stdin = join '' '' (map ShellQuote (binary # ws))"
    unfolding ws_def using report_words [OF assms(3,4)] by simp
  then have "split (reportHookCommand binary h flag state event source stdin) = Some (binary # ws)"
    using assms(1) ws by (simp add: splits_words_def)
  moreover have "tagged source (reportHookCommand binary h flag state event source stdin)"
  proof -
    define front where "front = [ShellQuote binary, ''report'', ShellQuote h, flag, ShellQuote state]
       @ (if event \<noteq> [] then [''--event'', ShellQuote event] else [])
       @ [''--reporter-version'', ShellQuote (itoa IntegrationVersion)]"
    have "reportHookCommand binary h flag state event source stdin
        = join '' '' (front @ [''--reporter'', source, stdin, ''--quiet''])"
      using assms(3) by (simp add: reportHookCommand_def front_def ShellQuote_plain)
    also have "\<dots> = join '' '' front @ '' '' @ join '' '' [''--reporter'', source, stdin, ''--quiet'']"
      by (rule join_append) (simp_all add: front_def)
    also have "\<dots> = (join '' '' front @ '' '') @ ''--reporter '' @ source @ '' '' @ (stdin @ '' --quiet'')"
      by simp
    finally show ?thesis by (simp only: tagged_suffix tagged_reporter)
  qed
  ultimately show ?thesis using assms(2) by (simp add: reporter_def ws_def)
qed

lemma native_call:
  assumes "splits_words split binary" "plain_word event" "plain_word nid" "nativeHookIDForSource source = nid"
  shows "native_caller split source (ShellQuote binary @ '' --json hook '' @ nid @ '' --event '' @ event) = Some binary"
proof -
  have plain: "plain_word ''--json''" "plain_word ''hook''" "plain_word ''--event''" by code_simp+
  define words where "words = [binary, ''--json'', ''hook'', nid, ''--event'', event]"
  have command: "ShellQuote binary @ '' --json hook '' @ nid @ '' --event '' @ event = join '' '' (map ShellQuote words)"
    using plain assms(2,3) by (simp add: words_def ShellQuote_plain)
  moreover have "split (join '' '' (map ShellQuote words)) = Some words"
    using assms(1) [unfolded splits_words_def, rule_format, of "[''--json'', ''hook'', nid, ''--event'', event]"]
      assms(2,3) plain unfolding words_def by simp
  moreover have "canonicalNativeHookWords (join '' '' (map ShellQuote words)) nid words"
    using assms(2,3) by (simp add: canonicalNativeHookWords_def words_def plain_word_def)
  ultimately show ?thesis using assms(4) by (simp add: native_caller_def words_def)
qed

text \<open>A plan is sound when its commands report, or call a native hook and one reports.\<close>

lemma sound_planI:
  assumes "managedSource (hp_Source plan) h = source"
    "list_all (\<lambda>c. reporter split source (ch_Command c) = Some binary
      \<or> native_caller split source (ch_Command c) = Some binary) (hp_Hooks plan)"
    "list_ex (\<lambda>c. reporter split source (ch_Command c) = Some binary) (hp_Hooks plan)"
  shows "sound_plan split h plan"
proof -
  have "binary \<in> set (List.map_filter (reporter split source) (map ch_Command (hp_Hooks plan)))"
    using assms(1,3) by (force simp: List.map_filter_def list_ex_iff)
  then show ?thesis using assms(1,2) by (fastforce simp: sound_plan_def Let_def list_all_iff)
qed

abbreviation transitions :: "transition set" where
  "transitions \<equiv> {to_idle, to_live, to_running, to_waiting, to_failed, to_gone, TransitionActivity ActivityInterrupted}"

lemma reporter_transition:
  assumes "splits_words split binary" "binary \<noteq> []" "t \<in> transitions" "list_all plain_word [h, source, event]"
  shows "reporter split source (ReportHookCommand binary h t event source) = Some binary"
    and "reporter split source (RawStdinDefaultsReportHookCommand binary h t event source) = Some binary"
proof -
  have "plain_word (fst (hookTransitionArgument t))" "plain_word (snd (hookTransitionArgument t))"
    "plain_word ''--raw-stdin''" "plain_word ''--raw-stdin-defaults-only''" using assms(3)
    by (elim insertE emptyE; hypsubst; code_simp)+
  then show "reporter split source (ReportHookCommand binary h t event source) = Some binary"
    "reporter split source (RawStdinDefaultsReportHookCommand binary h t event source) = Some binary"
    using reporter_report [OF assms(1,2)] assms(4)
    by (simp_all add: ReportHookCommand_def RawStdinDefaultsReportHookCommand_def case_prod_beta)
qed

lemma hook_words:
  "plain_word ''claude''" "plain_word ''claude-hook''" "plain_word ''codex''" "plain_word ''codex-hook''"
  "plain_word ''qwen''" "plain_word ''qwen-hook''" "plain_word ''SessionStart''"
  "plain_word ''FileChanged''" "plain_word ''UserPromptSubmit''" "plain_word ''PreToolUse''"
  "plain_word ''PostToolUse''" "plain_word ''PostToolUseFailure''" "plain_word ''PermissionRequest''"
  "plain_word ''Elicitation''" "plain_word ''ElicitationResult''" "plain_word ''PermissionDenied''"
  "plain_word ''Notification''" "plain_word ''PreCompact''" "plain_word ''PostCompact''"
  "plain_word ''Stop''" "plain_word ''StopFailure''" "plain_word ''Interrupt''" "plain_word ''SessionEnd''"
  by code_simp+

lemma hook_sources: "managedSource ''claude-hook'' ''claude'' = ''claude-hook''"
  "managedSource ''codex-hook'' ''codex'' = ''codex-hook''" "managedSource ''qwen-hook'' ''qwen'' = ''qwen-hook''"
  by code_simp+

lemma claude_plan_sound:
  assumes "splits_words split binary" "binary \<noteq> []"
  shows "sound_plan split ''claude'' (claude_plan binary)"
proof -
  have nid: "nativeHookIDForSource ''claude-hook'' = ''claude''" by code_simp
  have report: "reporter split ''claude-hook'' (claude_command binary t event) = Some binary"
    if "t \<in> transitions" "plain_word event" for t event
    unfolding claude_command_def by (rule reporter_transition [OF assms that(1)]) (use that(2) in \<open>simp add: hook_words\<close>)
  have native: "native_caller split ''claude-hook'' (ch_Command (claude_native binary event)) = Some binary"
    if "plain_word event" for event
    using native_call [OF assms(1) that _ nid] by (simp add: claude_native_def hook_words)
  show ?thesis
    by (rule sound_planI [where source = "''claude-hook''" and binary = binary])
      (simp_all add: claude_plan_def hook_sources reporting_def report native hook_words)
qed

lemma codex_plan_sound:
  assumes "splits_words split binary" "binary \<noteq> []"
  shows "sound_plan split ''codex'' (codex_plan binary)"
proof -
  have report: "reporter split ''codex-hook'' (codex_command binary t event) = Some binary"
    "reporter split ''codex-hook'' (RawStdinDefaultsReportHookCommand binary ''codex'' t event ''codex-hook'') = Some binary"
    if "t \<in> transitions" "plain_word event" for t event
    unfolding codex_command_def
    by (rule reporter_transition [OF assms that(1)], use that(2) in \<open>simp add: hook_words\<close>)+
  show ?thesis
    by (rule sound_planI [where source = "''codex-hook''" and binary = binary])
      (simp_all add: codex_plan_def hook_sources reporting_def report hook_words)
qed

lemma qwen_plan_sound:
  assumes "splits_words split binary" "binary \<noteq> []"
  shows "sound_plan split ''qwen'' (qwen_plan binary)"
proof -
  have report: "reporter split ''qwen-hook'' (qwenHookCommand binary t event) = Some binary"
    if "t \<in> transitions" "plain_word event" for t event
    unfolding qwenHookCommand_def by (rule reporter_transition [OF assms that(1)]) (use that(2) in \<open>simp add: hook_words\<close>)
  show ?thesis
    by (rule sound_planI [where source = "''qwen-hook''" and binary = binary])
      (simp_all add: qwen_plan_def hook_sources reporting_def report hook_words)
qed

end
