(* ===== verification/Aht_InstallInputs.thy ===== *)
theory Aht_InstallInputs
  imports Aht_HookPlans
begin

section \<open>Installing into files, and the inputs of the witnesses\<close>

text \<open>The plans whose hooks are in an object of the configuration.\<close>

definition wrapped_plans :: "string \<Rightarrow> (harness \<times> hook_plan) list" where
  "wrapped_plans binary =
     [(''claude'', claude_plan binary), (''codex'', codex_plan binary), (''qwen'', qwen_plan binary)]"

lemma wrapped_plans_sound:
  assumes "splits_words split binary" "binary \<noteq> []" "(h, plan) \<in> set (wrapped_plans binary)"
  shows "sound_plan split h plan" "\<not> hp_HooksAtRoot plan" "hp_Hooks plan \<noteq> []"
  using assms(3) claude_plan_sound [OF assms(1,2)] codex_plan_sound [OF assms(1,2)] qwen_plan_sound [OF assms(1,2)]
  by (auto simp: wrapped_plans_def claude_plan_def codex_plan_def qwen_plan_def)

lemma upsert_error:
  "upsertManagedCommandHookGroups fl desired managed hooks event = Inl e \<Longrightarrow> \<exists>s. e = ErrHookConfigShape s"
  by (auto simp: upsertManagedCommandHookGroups_def hookEventList_def
      split: sum.splits option.splits json.splits if_splits)

lemma upsert_events_error:
  "upsert_events fl desired managed acc events = Inl e \<Longrightarrow> \<exists>s. e = ErrHookConfigShape s"
proof (induction events arbitrary: acc)
  case (Cons event events)
  then show ?case by (cases acc) (auto split: sum.splits dest: upsert_error)
qed simp

lemma applyJSONCommandHooks_error:
  "applyJSONCommandHooks split fl h plan config = Inl e \<Longrightarrow> \<exists>s. e = ErrHookConfigShape s"
  by (auto simp: applyJSONCommandHooks_def install_events_def hooksObject_def Let_def case_prod_beta
      split: sum.splits option.splits json.splits if_splits dest: upsert_events_error)

lemma installed_file_twice:
  assumes "installJSONHookFile False w (applyJSONCommandHooks split fl h plan) f = (outcome, f')"
    "sound_plan split h plan" "\<not> hp_HooksAtRoot plan" "reads_numbers fl"
    "\<And>config. readJSONObject f = Inr config \<Longrightarrow> config_ok config"
    "outcome \<in> {Inr True, Inr False, Inl (ErrInstallIO ''syncing'')}"
  shows "installJSONHookFile False w' (applyJSONCommandHooks split fl h plan) f' = (Inr False, f')"
proof -
  obtain config where config: "readJSONObject f = Inr config"
    using assms(1,6) by (cases "readJSONObject f") (auto simp: installJSONHookFile_def readJSONObject_def split: config_file.splits)
  obtain config' changed where first: "applyJSONCommandHooks split fl h plan config = Inr (config', changed)"
  proof (cases "applyJSONCommandHooks split fl h plan config")
    case (Inl e)
    moreover have "e \<noteq> ErrInstallIO ''syncing''"
      using applyJSONCommandHooks_error [OF Inl] by auto
    ultimately show ?thesis using assms(1,6) config by (auto simp: installJSONHookFile_def)
  qed (use that in auto)
  show ?thesis
  proof (cases changed)
    case True
    then have "f' = ConfigObject (reread_object config')"
      using assms(1,6) config first by (auto simp: installJSONHookFile_def write_config_def split: write_result.splits)
    moreover obtain config'' where "applyJSONCommandHooks split fl h plan (reread_object config') = Inr (config'', False)"
      using installed_twice [OF first assms(3) assms(5) [OF config] assms(2,4)] by blast
    ultimately show ?thesis by (simp add: installJSONHookFile_def readJSONObject_def)
  next
    case False
    then show ?thesis using assms(1) config first by (auto simp: installJSONHookFile_def)
  qed
qed

text \<open>The hooks of an event in a configuration.\<close>

definition hooks_at :: "json_object \<Rightarrow> string \<Rightarrow> json list" where
  "hooks_at config event =
     event_hooks (groups_of (case map_of config ''hooks'' of
        Some (JObject hooks) \<Rightarrow> map_of hooks event
      | _ \<Rightarrow> None))"

lemma hooks_at_object: "hooksObject config = Inr hooks \<Longrightarrow> hooks_at config event = event_hooks (groups_of (map_of hooks event))"
  by (auto simp: hooksObject_def hooks_at_def groups_of_def split: option.splits json.splits)

lemma applied_hooks:
  assumes "applyJSONCommandHooks split fl h plan config = Inr (config', changed)" "\<not> hp_HooksAtRoot plan"
    "sound_plan split h plan"
  defines "managed \<equiv> managed_hook (plan_managed split h plan config)"
  shows "filter (\<lambda>x. \<not> managed x) (hooks_at config' event) = filter (\<lambda>x. \<not> managed x) (hooks_at config event)"
    and "map hook_command (filter managed (hooks_at config' event))
      = map (\<lambda>c. Some (ch_Command c)) (filter (\<lambda>c. ch_Event c = event) (hp_Hooks plan))"
    and "k \<noteq> ''hooks'' \<Longrightarrow> map_of config' k = map_of config k"
proof -
  obtain hooks hooks' where hooks: "hooksObject config = Inr hooks"
    and install: "install_events fl h plan (plan_managed split h plan config) (hooks, False) = Inr (hooks', changed)"
    and config': "config' = map_put ''hooks'' (JObject hooks') config"
    by (rule apply_cases [OF assms(1,2)])
  have at: "hooks_at config' event = event_hooks (groups_of (map_of hooks' event))"
    by (simp add: hooks_at_def config')
  note look = install_events_lookup(1) [OF install]
  have plan: "c \<in> set (hp_Hooks plan) \<Longrightarrow> plan_managed split h plan config (ch_Command c)" for c
    by (rule plan_manages [OF assms(3)])
  show "filter (\<lambda>x. \<not> managed x) (hooks_at config' event) = filter (\<lambda>x. \<not> managed x) (hooks_at config event)"
    unfolding at hooks_at_object [OF hooks] managed_def
    by (simp add: look cleaned_hooks
        installed_hooks(1) [where plan = plan and managed = "plan_managed split h plan config", OF plan])
  show "map hook_command (filter managed (hooks_at config' event))
      = map (\<lambda>c. Some (ch_Command c)) (filter (\<lambda>c. ch_Event c = event) (hp_Hooks plan))"
  proof (cases "planned plan event")
    case True
    then show ?thesis unfolding at managed_def by (simp add: look installed_hooks(2) [where plan = plan and managed = "plan_managed split h plan config", OF plan])
  next
    case False
    then have "filter (\<lambda>c. ch_Event c = event) (hp_Hooks plan) = []"
      by (auto simp: planned_def filter_empty_conv)
    then show ?thesis using False unfolding at managed_def by (simp add: look cleaned_hooks)
  qed
  show "map_of config' k = map_of config k" if "k \<noteq> ''hooks''"
    using that by (simp add: config')
qed

subsection \<open>A splitter, and a configuration of a user\<close>

text \<open>Words between blanks, for commands without quotes.\<close>

fun blank_words :: "string \<Rightarrow> string \<Rightarrow> string list" where
  "blank_words w [] = (if w = [] then [] else [rev w])"
| "blank_words w (c # cs) =
     (if c = CHR '' '' then (if w = [] then [] else [rev w]) @ blank_words [] cs else blank_words (c # w) cs)"

definition ex_split :: "string \<Rightarrow> string list option" where
  "ex_split command = Some (blank_words [] command)"

definition ex_numbers :: float_reader where
  "ex_numbers t =
     (if t \<noteq> [] \<and> list_all (\<lambda>c. CHR ''0'' \<le> c \<and> c \<le> CHR ''9'') t then Some (IntegralFloat (int (digit_value t)))
      else None)"

lemma ex_numbers_reads: "reads_numbers ex_numbers"
proof -
  have "ex_numbers (itoa n) = Some (IntegralFloat n)" if "0 \<le> n" for n
  proof -
    have "CHR ''0'' \<le> c \<and> c \<le> CHR ''9''" if "c \<in> set (digits (nat n))" for c
      using set_digits [OF that] by (simp add: less_eq_char_def)
    then show ?thesis using that digits_nonempty digit_value_digits [of "nat n"]
      by (simp add: ex_numbers_def itoa_def list_all_iff)
  qed
  then show ?thesis by (simp add: reads_numbers_def)
qed

lemma blank_words_word:
  "CHR '' '' \<notin> set u \<Longrightarrow> u \<noteq> [] \<or> w \<noteq> [] \<Longrightarrow>
     blank_words w (u @ CHR '' '' # r) = (rev w @ u) # blank_words [] r"
  "CHR '' '' \<notin> set u \<Longrightarrow> u \<noteq> [] \<or> w \<noteq> [] \<Longrightarrow> blank_words w u = [rev w @ u]"
  by (induction u arbitrary: w) auto

lemma plain_no_blank: "plain_word u \<Longrightarrow> CHR '' '' \<notin> set u \<and> u \<noteq> []"
proof -
  have "\<not> isSafeShellRune CHR '' ''" by code_simp
  then show "plain_word u \<Longrightarrow> CHR '' '' \<notin> set u \<and> u \<noteq> []"
    unfolding plain_word_def list_all_iff by blast
qed

lemma ex_splits: "plain_word binary \<Longrightarrow> splits_words ex_split binary"
proof -
  have words: "blank_words [] (join '' '' ws) = ws" if "list_all plain_word ws" for ws
    using that
    by (induction "'' ''" ws rule: join.induct) (simp_all add: blank_words_word plain_no_blank)
  have "map ShellQuote ws = ws" if "list_all plain_word ws" for ws
    using that by (induction ws) (simp_all add: ShellQuote_plain)
  then show "plain_word binary \<Longrightarrow> splits_words ex_split binary"
    unfolding splits_words_def ex_split_def using words by (simp add: ShellQuote_plain)
qed

lemma aht_word: "plain_word ''aht''" by code_simp

text \<open>A user who is notified when a session stops.\<close>

definition ex_user_groups :: "json list" where
  "ex_user_groups = [JObject [(''hooks'', JArray [JObject [(''command'', JString ''notify'')]])]]"

definition ex_user_config :: json_object where
  "ex_user_config =
     [(''theme'', JString ''dark''), (''hooks'', JObject [(''Stop'', JArray ex_user_groups)])]"

definition ex_applied :: "install_error + json_object \<times> bool" where
  "ex_applied = applyJSONCommandHooks ex_split ex_numbers ''claude'' (claude_plan ''aht'') ex_user_config"

lemma ex_config_ok: "config_ok ex_user_config"
  by (simp add: config_ok_def ex_user_config_def map_ok_def)

lemma ex_user_reread: "reread_object ex_user_config = ex_user_config"
  by code_simp

lemma unmanaged_command:
  "\<not> tagged source c \<Longrightarrow> split c = Some [w] \<Longrightarrow> \<not> isManagedSourceHookCommand split source cs c"
  by (simp add: isManagedSourceHookCommand_def canonicalNativeHookCommand_def canonicalNativeHookWords_def)

lemma ex_notify: "\<not> plan_managed ex_split ''claude'' (claude_plan ''aht'') config ''notify''"
  unfolding plan_managed_def
  by (rule unmanaged_command [where w = "''notify''"]) code_simp+

lemma ex_untouched:
  "untouched (plan_managed ex_split ''claude'' (claude_plan ''aht'') config)
     [(''Stop'', JArray ex_user_groups)]"
  by (auto simp: untouched_def groups_of_def ex_user_groups_def group_hooks_def managed_hook_def ex_notify)

lemma ex_applied_ok: "\<exists>config' changed. ex_applied = Inr (config', changed)"
proof -
  have hooks: "hooksObject ex_user_config = Inr [(''Stop'', JArray ex_user_groups)]"
    by (simp add: hooksObject_def ex_user_config_def)
  have "listable (map_of [(''Stop'', JArray ex_user_groups)] e)" for e
    by (simp add: listable_def)
  then have "\<exists>r. install_events ex_numbers ''claude'' (claude_plan ''aht'')
      (plan_managed ex_split ''claude'' (claude_plan ''aht'') ex_user_config)
      ([(''Stop'', JArray ex_user_groups)], False) = Inr r"
    unfolding install_events_listable by blast
  then show ?thesis
    using hooks by (auto simp: ex_applied_def applyJSONCommandHooks_def claude_plan_def)
qed

lemma ex_crush_block:
  "block_ok (tp_StartMarker (crush_plan ''aht'')) (tp_EndMarker (crush_plan ''aht'')) (tp_Block (crush_plan ''aht''))"
proof -
  define mid where "mid = drop (length crush_start) (take (length (crushHookBlock ''aht'') - length crush_end - 1) (crushHookBlock ''aht''))"
  have "crush_start \<noteq> []" "CHR 0x0A \<notin> set crush_start" by code_simp+
  moreover have "crushHookBlock ''aht'' = crush_start @ mid @ crush_end @ [CHR 0x0A]"
    "\<not> contains mid crush_start"
    "str_index (crushHookBlock ''aht'') crush_end = Some (length crush_start + length mid)"
    unfolding mid_def by code_simp+
  ultimately show ?thesis unfolding block_ok_def crush_plan_def by fastforce
qed

end
