(* ===== verification/Aht_WaitClock.thy ===== *)
theory Aht_WaitClock
  imports Aht_Waiting
begin

section \<open>A wait against the clock\<close>

text \<open>
  \<open>Aht_Wait\<close> takes what every \<open>select\<close> meets from its environment. Here the channels themselves are
  given: when the context of the caller ends, what arrives on the stream and when, and the timer of the
  wait. A blocking \<open>select\<close> wakes at the earliest moment at which one of its channels is ready, and
  takes any of those that are, which \<open>pick\<close> chooses. Computing takes no time.
\<close>

text \<open>\<open>context.WithTimeout\<close>: the context of the wait ends with that of its caller or at its deadline.\<close>

definition waitContext :: "time \<Rightarrow> wait_options \<Rightarrow> (time \<times> ctx_end) option \<Rightarrow> (time \<times> ctx_end) option" where
  "waitContext start o' caller =
     (if wo_Timeout o' > 0
      then (case caller of
          None \<Rightarrow> Some (start + wo_Timeout o', CtxDeadlineExceeded)
        | Some (t, e) \<Rightarrow> if t \<le> start + wo_Timeout o' then Some (t, e)
            else Some (start + wo_Timeout o', CtxDeadlineExceeded))
      else caller)"

type_synonym arrivals = "(time \<times> stream_input) list"

definition context_over :: "(time \<times> ctx_end) option \<Rightarrow> time \<Rightarrow> ctx_end option" where
  "context_over c now = (case c of Some (t, e) \<Rightarrow> if t \<le> now then Some e else None | None \<Rightarrow> None)"

definition queued_at :: "arrivals \<Rightarrow> time \<Rightarrow> stream_input option" where
  "queued_at as now = (case as of (t, ev) # _ \<Rightarrow> if t \<le> now then Some ev else None | [] \<Rightarrow> None)"

text \<open>The cases of the blocking \<open>select\<close> with the moments at which their channels are ready.\<close>

definition select_cases :: "(time \<times> ctx_end) option \<Rightarrow> arrivals \<Rightarrow> wait_run \<Rightarrow> (time \<times> select_case) list" where
  "select_cases c as r =
     (case c of Some (t, e) \<Rightarrow> [(t, SelectDone e)] | None \<Rightarrow> [])
     @ (case wr_stableTimer r of Some t \<Rightarrow> if wr_timerCh r then [(t, SelectTimer)] else [] | None \<Rightarrow> [])
     @ (case as of (t, ev) # _ \<Rightarrow> [(t, SelectEvent ev)] | [] \<Rightarrow> [])"

type_synonym chooser = "select_case list \<Rightarrow> nat"

definition block_on :: "chooser \<Rightarrow> time \<Rightarrow> (time \<times> select_case) list \<Rightarrow> (time \<times> select_case) option" where
  "block_on pick now cases =
     (if cases = [] then None
      else (let at = max now (Min (set (map fst cases)));
                ready = map snd (filter (\<lambda>x. fst x \<le> at) cases)
            in Some (at, ready ! (pick ready mod length ready))))"

text \<open>The turn that an iteration meets at a moment; \<open>None\<close> where it would block for ever.\<close>

definition turn_at :: "chooser \<Rightarrow> (time \<times> ctx_end) option \<Rightarrow> arrivals \<Rightarrow> time \<Rightarrow> wait_run \<Rightarrow> wait_turn option" where
  "turn_at pick c as now r =
     (if context_over c now \<noteq> None \<or> queued_at as now \<noteq> None \<or> wr_stableReady r \<and> wr_candidate r \<noteq> None
      then Some \<lparr>tn_ctx = context_over c now, tn_queued = queued_at as now, tn_select = SelectTimer, tn_now = now\<rparr>
      else map_option (\<lambda>(at, chosen).
          \<lparr>tn_ctx = None, tn_queued = None, tn_select = chosen, tn_now = at\<rparr>)
        (block_on pick now (select_cases c as r)))"

definition left_after :: "wait_turn \<Rightarrow> wait_run \<Rightarrow> arrivals \<Rightarrow> arrivals" where
  "left_after tn r as = (case fst (nextEvent tn r) of StepEvent _ \<Rightarrow> tl as | _ \<Rightarrow> as)"

lemma block_on_case:
  assumes "block_on pick now cases = Some (at, chosen)"
  shows "\<exists>t. (t, chosen) \<in> set cases \<and> t \<le> at"
proof -
  have ne: "cases \<noteq> []" using assms by (auto simp: block_on_def)
  define at' where "at' = max now (Min (set (map fst cases)))"
  define ready where "ready = map snd (filter (\<lambda>x. fst x \<le> at') cases)"
  have "Min (set (map fst cases)) \<in> set (map fst cases)" using ne by (intro Min_in) auto
  then obtain x where "x \<in> set cases" "fst x = Min (set (map fst cases))" by auto
  then have "x \<in> set (filter (\<lambda>x. fst x \<le> at') cases)" by (simp add: at'_def)
  then have "ready \<noteq> []" unfolding ready_def by (metis empty_iff list.map_disc_iff list.set(1))
  then have "ready ! (pick ready mod length ready) \<in> set ready" by simp
  moreover have "at = at'" "chosen = ready ! (pick ready mod length ready)"
    using assms ne by (auto simp: block_on_def Let_def at'_def ready_def)
  ultimately show ?thesis by (auto simp: ready_def)
qed

lemma block_on_early:
  assumes "block_on pick now cases = Some (at, chosen)" "(t, x) \<in> set cases"
  shows "at \<le> max now t"
proof -
  have "t \<in> set (map fst cases)" using assms(2) by force
  then have "Min (set (map fst cases)) \<le> t" by (intro Min_le) simp_all
  moreover have "at = max now (Min (set (map fst cases)))"
    using assms(1) by (simp add: block_on_def Let_def split: if_splits)
  ultimately show ?thesis by linarith
qed

lemma turn_at_decreases:
  assumes "turn_at pick c as now r = Some tn" "wait_iteration tn r = Continue r'"
  shows "2 * length (left_after tn r as) + of_bool (wr_timerCh r') < 2 * length as + of_bool (wr_timerCh r)"
proof (cases "fst (nextEvent tn r)")
  case (StepEvent ev)
  have "as \<noteq> []"
  proof
    assume "as = []"
    then have "tn_queued tn = None \<and> (\<forall>ev. tn_select tn \<noteq> SelectEvent ev)"
      using assms(1) block_on_case [of pick now "select_cases c as r"]
      by (auto simp: turn_at_def queued_at_def select_cases_def split: if_splits option.splits)
    then show False using StepEvent by (auto simp: nextEvent_def split: option.splits if_splits select_case.splits)
  qed
  then have "Suc (length (left_after tn r as)) = length as" using StepEvent by (simp add: left_after_def)
  moreover have "of_bool (wr_timerCh r') \<le> (1::nat)" by simp
  ultimately show ?thesis by linarith
next
  case StepTimer
  then have sel: "tn_ctx tn = None" "tn_queued tn = None" "tn_select tn = SelectTimer"
    "\<not> (wr_stableReady r \<and> wr_candidate r \<noteq> None)"
    "snd (nextEvent tn r) = r\<lparr>wr_stableReady := True, wr_timerCh := False\<rparr>"
    by (auto simp: nextEvent_def split: option.splits if_splits select_case.splits)
  then have "r' = r\<lparr>wr_stableReady := True, wr_timerCh := False\<rparr>"
    using assms(2) StepTimer by (auto simp: wait_iteration_def split: prod.splits)
  moreover have "wr_timerCh r"
    using assms(1) sel block_on_case [of pick now "select_cases c as r"]
    by (fastforce simp: turn_at_def select_cases_def split: if_splits option.splits list.splits)
  ultimately show ?thesis using StepTimer by (simp add: left_after_def)
qed (use assms(2) in \<open>auto simp: wait_iteration_def split: prod.splits option.splits\<close>)

text \<open>The loop, and the moment at which it returns.\<close>

function (sequential) timed_loop ::
    "chooser \<Rightarrow> (time \<times> ctx_end) option \<Rightarrow> arrivals \<Rightarrow> time \<Rightarrow> wait_run \<Rightarrow> ((wait_error + wait_result) \<times> time) option" where
  "timed_loop pick c as now r =
     (case turn_at pick c as now r of
        None \<Rightarrow> None
      | Some tn \<Rightarrow>
          (case wait_iteration tn r of
             Return res \<Rightarrow> Some (res, tn_now tn)
           | Continue r' \<Rightarrow> timed_loop pick c (left_after tn r as) (tn_now tn) r'))"
  by pat_completeness auto

termination
  by (relation "measure (\<lambda>(pick, c, as, now, r). 2 * length as + of_bool (wr_timerCh r))")
    (auto dest: turn_at_decreases)

declare timed_loop.simps [simp del]

definition Client_WaitTimed ::
    "bool \<Rightarrow> client_mode \<Rightarrow> stream_error option \<Rightarrow> wait_options \<Rightarrow> chooser \<Rightarrow> (time \<times> ctx_end) option \<Rightarrow> arrivals
     \<Rightarrow> time \<Rightarrow> ((wait_error + wait_result) \<times> time) option" where
  "Client_WaitTimed configured mode subscription o' pick caller as start =
     (if \<not> configured then Some (Inl ErrWaitConfig, start)
      else case WaitOptions_Validate o' of
        Some e \<Rightarrow> Some (Inl e, start)
      | None \<Rightarrow>
          (case startWatcher mode subscription of
             Inl e \<Rightarrow> Some (Inl e, start)
           | Inr durable \<Rightarrow> timed_loop pick (waitContext start o' caller) as start (started_run mode o' durable)))"

subsection \<open>It ends with its context\<close>

lemma block_on_now: "block_on pick now cases = Some (at, chosen) \<Longrightarrow> now \<le> at"
  by (auto simp: block_on_def Let_def split: if_splits)

lemma turn_at_cases:
  assumes "turn_at pick c as now r = Some tn"
  obtains "tn_now tn = now" | chosen where "block_on pick now (select_cases c as r) = Some (tn_now tn, chosen)"
proof (cases "context_over c now \<noteq> None \<or> queued_at as now \<noteq> None \<or> wr_stableReady r \<and> wr_candidate r \<noteq> None")
  case True
  then show ?thesis using assms that(1) unfolding turn_at_def by auto
next
  case False
  then obtain x where "block_on pick now (select_cases c as r) = Some x" "tn_now tn = fst x"
    using assms unfolding turn_at_def if_not_P [OF False] by (auto split: prod.splits)
  then show ?thesis using that(2) by (cases x) auto
qed

lemma turn_at_context:
  assumes "turn_at pick (Some (t, e)) as now r = Some tn"
  shows "now \<le> tn_now tn" "tn_now tn \<le> max now t"
proof -
  have "(t, SelectDone e) \<in> set (select_cases (Some (t, e)) as r)" by (simp add: select_cases_def)
  note early = block_on_early [OF _ this]
  show "now \<le> tn_now tn" by (rule turn_at_cases [OF assms]) (auto dest: block_on_now)
  show "tn_now tn \<le> max now t" by (rule turn_at_cases [OF assms]) (auto dest: early)
qed

lemma turn_at_exists: "turn_at pick (Some (t, e)) as now r \<noteq> None"
proof -
  have "select_cases (Some (t, e)) as r \<noteq> []" by (simp add: select_cases_def)
  then have "block_on pick now (select_cases (Some (t, e)) as r) \<noteq> None" by (simp add: block_on_def Let_def)
  then show ?thesis unfolding turn_at_def by simp
qed

lemma timed_loop_ends:
  "\<exists>res at. timed_loop pick (Some (t, e)) as now r = Some (res, at) \<and> now \<le> at \<and> at \<le> max now t"
proof (induction pick "Some (t, e)" as now r rule: timed_loop.induct)
  case (1 pick as now r)
  obtain tn where tn: "turn_at pick (Some (t, e)) as now r = Some tn"
    using turn_at_exists by blast
  note bound = turn_at_context [OF tn]
  show ?case
  proof (cases "wait_iteration tn r")
    case (Continue r')
    from 1 [OF tn Continue] bound show ?thesis
      by (simp add: timed_loop.simps [of pick "Some (t, e)" as now r] tn Continue) fastforce
  next
    case (Return res)
    then show ?thesis using bound by (simp add: timed_loop.simps [of pick "Some (t, e)" as now r] tn)
  qed
qed

lemma timed_loop_turns:
  "timed_loop pick c as now r = Some (res, at) \<Longrightarrow> \<exists>tns. wait_loop r tns = Some res"
proof (induction pick c as now r rule: timed_loop.induct)
  case (1 pick c as now r)
  obtain tn where tn: "turn_at pick c as now r = Some tn"
    using "1.prems" by (simp add: timed_loop.simps [of pick c as now r] split: option.splits)
  show ?case
  proof (cases "wait_iteration tn r")
    case (Continue r')
    then obtain tns where "wait_loop r' tns = Some res"
      using "1.IH" [OF tn Continue] "1.prems" by (auto simp: timed_loop.simps [of pick c as now r] tn)
    then have "wait_loop r (tn # tns) = Some res" by (simp add: Continue)
    then show ?thesis ..
  next
    case (Return res')
    then have "wait_loop r [tn] = Some res" using "1.prems" by (simp add: timed_loop.simps [of pick c as now r] tn)
    then show ?thesis ..
  qed
qed

lemma waitContext_bounds:
  assumes "0 < wo_Timeout o' \<or> caller \<noteq> None"
  shows "\<exists>t e. waitContext start o' caller = Some (t, e) \<and> (0 < wo_Timeout o' \<longrightarrow> t \<le> start + wo_Timeout o')
    \<and> (\<forall>t' e'. caller = Some (t', e') \<longrightarrow> t \<le> t')"
proof (cases caller)
  case (Some te)
  then show ?thesis by (cases te) (simp add: waitContext_def)
qed (use assms in \<open>simp add: waitContext_def\<close>)

lemma timed_wait_ends:
  assumes "0 < wo_Timeout o' \<or> caller \<noteq> None"
  shows "\<exists>res at tns. Client_WaitTimed configured mode subscription o' pick caller as start = Some (res, at)
    \<and> Client_Wait configured mode subscription o' tns = Some res
    \<and> start \<le> at \<and> (0 < wo_Timeout o' \<longrightarrow> at \<le> start + wo_Timeout o')
    \<and> (\<forall>t e. caller = Some (t, e) \<longrightarrow> at \<le> max start t)"
proof (cases "\<not> configured \<or> WaitOptions_Validate o' \<noteq> None \<or> isl (startWatcher mode subscription)")
  case True
  then show ?thesis
    by (auto simp: Client_WaitTimed_def Client_Wait_def split: option.splits sum.splits)
next
  case False
  then obtain durable where go: "configured" "WaitOptions_Validate o' = None" "startWatcher mode subscription = Inr durable"
    by (cases "startWatcher mode subscription") auto
  obtain t e where c: "waitContext start o' caller = Some (t, e)"
    "0 < wo_Timeout o' \<Longrightarrow> t \<le> start + wo_Timeout o'" "\<And>t' e'. caller = Some (t', e') \<Longrightarrow> t \<le> t'"
    using waitContext_bounds [OF assms, of start] by blast
  obtain res at where r: "timed_loop pick (Some (t, e)) as start (started_run mode o' durable) = Some (res, at)"
    "start \<le> at" "at \<le> max start t" using timed_loop_ends by blast
  obtain tns where "wait_loop (started_run mode o' durable) tns = Some res" using timed_loop_turns [OF r(1)] by blast
  then show ?thesis
    using go c r by (intro exI [of _ res] exI [of _ at] exI [of _ tns])
      (fastforce simp: Client_WaitTimed_def Client_Wait_def)
qed

end
