(* ===== verification/Aht_ClockInputs.thy ===== *)
theory Aht_ClockInputs
  imports Aht_WaitClock Aht_Inputs
begin

section \<open>Inputs of a wait against the clock\<close>

text \<open>A wait for an interruption that does not come, with a deadline.\<close>

definition ex_deadline :: wait_options where
  "ex_deadline =
     \<lparr>wo_ID = s_ID ex_session, wo_Activity = ActivityInterrupted, wo_Presence = no_presence, wo_Timeout = 10,
      wo_StableFor = 0\<rparr>"

lemma ex_timed_wait:
  "Client_WaitTimed True ModeDurableOnly None ex_deadline (\<lambda>_. 0) None [(3, StreamEvent [ex_session])] 0
     = Some (Inl ErrWaitTimeout, 10)"
proof -
  let ?pick = "\<lambda>_. 0"
  define c where "c = waitContext 0 ex_deadline None"
  define r0 where "r0 = started_run ModeDurableOnly ex_deadline True"
  define as where "as = [(3 :: time, StreamEvent [ex_session])]"
  define t1 where "t1 = the (turn_at ?pick c as 0 r0)"
  define r1 where "r1 = (case wait_iteration t1 r0 of Continue r \<Rightarrow> r | _ \<Rightarrow> r0)"
  have start: "WaitOptions_Validate ex_deadline = None" "startWatcher ModeDurableOnly None = Inr True" by code_simp+
  have one: "turn_at ?pick c as 0 r0 = Some t1" "wait_iteration t1 r0 = Continue r1"
    "left_after t1 r0 as = []" "tn_now t1 = 3"
    unfolding r1_def t1_def c_def as_def r0_def by code_simp+
  define t2 where "t2 = the (turn_at ?pick c [] 3 r1)"
  have two: "turn_at ?pick c [] 3 r1 = Some t2" "wait_iteration t2 r1 = Return (Inl ErrWaitTimeout)" "tn_now t2 = 10"
    unfolding t2_def r1_def t1_def c_def as_def r0_def by code_simp+
  show ?thesis
    using start one two
    by (simp add: Client_WaitTimed_def c_def [symmetric] as_def [symmetric] r0_def [symmetric] timed_loop.simps)
qed

end
