(* ===== verification/Aht_Hazards.thy ===== *)
theory Aht_Hazards
  imports Aht_Ordering Aht_RegistryCheck Aht_Owner
begin

section \<open>Where the reducer goes wrong\<close>

subsection \<open>The detail of a session that is retired\<close>

lemma lc_commit_detail: "s_Detail (lc_commit t at s) = s_Detail s"
  by (simp add: lc_commit_def settle_liveness_def take_incarnation_def reset_evidence_def note_changes_def Let_def
      split: incarnation_state.split)

lemma retired_detail:
  assumes "retire_session r ob at received s = Inr (Some s')"
  shows "s_Detail s' = s_Detail s"
proof -
  obtain replace native where conf: "conflictingSessionReplacement r s ob = (replace, native)" by fastforce
  have "s_Detail (mark_replaced p at x) = s_Detail x" for p x
    by (simp add: mark_replaced_def Let_def split: liveness.split)
  then show ?thesis
    using assms conf by (auto simp: retire_session_def Let_def lc_commit_detail split: if_splits)
qed

lemma retired_is_gone:
  assumes "retire_session r ob at received s = Inr (Some s')" "ob_Process ob = Some p"
  shows "s_Presence s' = PresenceGone"
proof -
  define t where "t = transitionIncarnation s ob at True"
  define s1 where "s1 = lc_commit t at s"
  obtain replace native where conf: "conflictingSessionReplacement r s ob = (replace, native)" by fastforce
  then have acc: "t_accepted t" and
    s': "s' = (let s2 = (if native then mark_replaced p at s1 else s1)
                in s2\<lparr>s_UpdatedAt := maxTime [s_UpdatedAt s2, received]\<rparr>)"
    using assms by (simp_all add: retire_session_def t_def [symmetric] s1_def Let_def split: if_splits)
  have "s_Presence s1 = PresenceGone" using retired_gone acc assms(2) by (simp add: s1_def t_def)
  then show ?thesis by (simp add: s' Let_def)
qed

lemma gone_detail_invalid:
  assumes "s_Presence s = PresenceGone" "s_Detail s \<noteq> None"
  shows "storedSessionCorruption k s \<noteq> []"
proof -
  have "s_Activity s = None"
    using assms(1) by (auto simp: s_Presence_def s_Activity_def split: liveness.splits)
  then show ?thesis using assms(2) by (auto simp: storedSessionCorruption_def validStateDetail_def)
qed

lemma retirement_detail:
  assumes "map_ok m" "ob_Process ob = Some p" "process_complete p"
    and "retireConflictingProcessSessions r m ob at received = Inr m'"
    and "map_of m k = Some s" "retire_session r ob at received s = Inr (Some s')" "s_Detail s \<noteq> None"
  shows "map_of m' k = Some s'" "s_Presence s' = PresenceGone" "s_Detail s' = s_Detail s"
    and "map_of (sn_Sessions sn) k = Some s' \<Longrightarrow> validateSnapshot sn \<noteq> None"
proof -
  note loop = retireConflicting_map [OF assms(1-3), of r at received]
  then have "map_of m' = (\<lambda>k. map_option (retired_value r ob at received) (map_of m k))"
    using assms(4) by (auto split: if_splits)
  then show "map_of m' k = Some s'" using assms(5,6) by (simp add: retired_value_def)
  show gone: "s_Presence s' = PresenceGone" by (rule retired_is_gone [OF assms(6,2)])
  show detail: "s_Detail s' = s_Detail s" by (rule retired_detail [OF assms(6)])
  show "validateSnapshot sn \<noteq> None" if "map_of (sn_Sessions sn) k = Some s'"
  proof
    assume "validateSnapshot sn = None"
    moreover have "(k, s') \<in> set (sn_Sessions sn)" using that by (rule map_of_SomeD)
    ultimately have "storedSessionCorruption k s' = []" unfolding validateSnapshot_None by fastforce
    then show False using gone_detail_invalid gone detail assms(7) by metis
  qed
qed

subsection \<open>A resumption without a process\<close>

lemma resumed_without_process:
  assumes "ob_Process ob = None"
  shows "reconcileResumedProcessSession m s ob =
    (if list_ex (resume_candidate s) m then Inl ErrNilDereference else Inr (m, s))"
proof -
  have "fold_result (resume_turn ob) (m, s) xs =
      (if list_ex (resume_candidate s) xs then Inl ErrNilDereference else Inr (m, s))" for xs
    using assms by (induction xs) (simp_all add: resume_turn_def)
  then show ?thesis by (simp add: reconcileResumedProcessSession_def)
qed

lemma reset_reduction:
  assumes "t_reset (transitionIncarnation s ob at False)" "t_accepted (transitionIncarnation s ob at False)"
    and "process_complete (i_Process (s_Incarnation s))"
  shows "reduceSession r m s ob at received =
    reconcileResumedProcessSession m
      (update_session (re_Policy r (s_Harness s)) ob at received (transitionIncarnation s ob at False) s) ob"
proof -
  have "sequencedObservationTime (clear_native s) ob at = Inr at" "\<not> duplicateSequencedReport (clear_native s) ob"
    by (simp_all add: sequencedObservationTime_def duplicateSequencedReport_def clear_native_def Let_def)
  then show ?thesis using assms by (simp add: reduceSession_def Let_def applyObservation_def)
qed

lemma resume_candidate_update:
  "t_accepted t \<Longrightarrow> resume_candidate (update_session pol ob at received t s) x = resume_candidate s x"
  by (simp add: resume_candidate_def update_session_reads)

lemma resumption_nil:
  assumes "t_reset (transitionIncarnation s ob at False)" "t_accepted (transitionIncarnation s ob at False)"
    and "process_complete (i_Process (s_Incarnation s))" "ob_Process ob = None"
    and "x \<in> set m" "resume_candidate s x"
  shows "reduceSession r m s ob at received = Inl ErrNilDereference"
  using assms(4-6)
  by (auto simp: reset_reduction [OF assms(1-3)] resumed_without_process [OF assms(4)] resume_candidate_update [OF assms(2)] list_ex_iff)

section \<open>The numbers of the journal\<close>

text \<open>A command of the owner, a reset included, leaves the journal in order and the memory at its end.\<close>

lemma reset_succeeded:
  assumes "resetJournalSnapshot cancelled io d at sq0 cleared0 = (Inr (sn, res), d')"
  shows "dk_Journal d' = []" "dk_Snapshot d' = Some (encoded_snapshot sn)"
  using assms
  by (auto simp: resetJournalSnapshot_def persistJournalSnapshot_def Let_def
      split: prod.splits if_splits write_result.splits option.splits)

lemma owner_command_covers:
  assumes "journal_ordered d" "MemoryStore_command json env r s d e = (Inr res, s', d')"
    and "sn_JournalSequence (ms_snapshot s') \<noteq> 0"
  shows "journal_ordered d' \<and> covered s' d'"
proof (cases "je_Reset e")
  case False
  then show ?thesis using command_covers [OF assms(1) _ assms(2,3)] by blast
next
  case True
  obtain out d1 where reset: "resetJournalSnapshot (me_cancelled env) (me_io env) d (me_now env)
      (sn_JournalSequence (ms_snapshot s)) (int (length (sn_Sessions (ms_snapshot s)))) = (out, d1)"
    by (rule prod.exhaust)
  obtain candidate res0 where out: "out = Inr (candidate, res0)"
    using assms(2) True reset by (cases out) (auto simp: MemoryStore_command_def commandLocked_def split: if_splits)
  have "d' = d1" "ms_snapshot s' = candidate"
    using assms(2) True reset out
    by (auto simp: MemoryStore_command_def commandLocked_def Let_def split: if_splits)
  then show ?thesis using reset_succeeded [OF reset [unfolded out]]
    by (simp add: journal_ordered_def covered_def encoded_snapshot_def)
qed

text \<open>
  A fallback writer leaves the journal in order too, and what it appends has a number above all that was
  on the disk, provided that the largest number is not used there already.
\<close>

definition disk_room :: "disk \<Rightarrow> bool" where
  "disk_room d \<longleftrightarrow>
     (\<forall>x \<in> set (dk_Journal d). entry_sequence x \<noteq> - 1) \<and> pred_option (\<lambda>sn. sn_JournalSequence sn \<noteq> - 1) (dk_Snapshot d)"

definition above_disk :: "disk \<Rightarrow> 64 word \<Rightarrow> bool" where
  "above_disk d q \<longleftrightarrow>
     (\<forall>y \<in> set (dk_Journal d). entry_sequence y < q) \<and> pred_option (\<lambda>sn. sn_JournalSequence sn < q) (dk_Snapshot d)"

lemma fold_max_cases:
  "fold (\<lambda>d s. max s (entry_sequence d)) ds (b :: 64 word) = b
   \<or> (\<exists>d \<in> set ds. fold (\<lambda>d s. max s (entry_sequence d)) ds b = entry_sequence d)"
proof (induction ds arbitrary: b)
  case (Cons d ds)
  show ?case using Cons.IH [of "max b (entry_sequence d)"] by (auto simp: max_def split: if_splits)
qed simp

definition top_number :: "disk \<Rightarrow> 64 word" where
  "top_number d = fold (\<lambda>d s. max s (entry_sequence d)) (dk_Journal d)
     (case dk_Snapshot d of None \<Rightarrow> 0 | Some sn \<Rightarrow> sn_JournalSequence sn)"

lemma above_top: "disk_room d \<Longrightarrow> above_disk d (top_number d + 1)"
proof -
  assume room: "disk_room d"
  let ?b = "case dk_Snapshot d of None \<Rightarrow> 0 | Some sn \<Rightarrow> sn_JournalSequence sn"
  have "?b \<noteq> - 1" using room by (cases "dk_Snapshot d") (auto simp: disk_room_def)
  moreover have "entry_sequence x \<noteq> - 1" if "x \<in> set (dk_Journal d)" for x
    using room that by (simp add: disk_room_def)
  ultimately have "top_number d \<noteq> - 1"
    using fold_max_cases [of "dk_Journal d" ?b] unfolding top_number_def by metis
  then have less: "top_number d < top_number d + 1" by (rule word_less_succ)
  have "?b \<le> top_number d" "\<And>x. x \<in> set (dk_Journal d) \<Longrightarrow> entry_sequence x \<le> top_number d"
    unfolding top_number_def using fold_max_le by blast+
  with less show ?thesis
    by (cases "dk_Snapshot d") (auto simp: above_disk_def intro: le_less_trans)
qed

lemma loaded_top:
  assumes "loadSnapshot d = Inr sn0" "foldJournal ctx r sn0 (dk_Journal d) = Inr sn"
  shows "sn_JournalSequence sn = top_number d"
proof -
  have "sn_JournalSequence sn0 = (case dk_Snapshot d of None \<Rightarrow> 0 | Some x \<Rightarrow> sn_JournalSequence x)"
    using assms(1) by (auto simp: loadSnapshot_def newSnapshot_def split: option.splits if_splits)
  then show ?thesis
    using foldJournal_sequence [OF foldJournal_calm [OF assms(2)]] by (simp add: top_number_def)
qed

lemma reset_top: "fst (resetJournalPosition d q c) = max q (top_number d)"
proof -
  have *: "fold (\<lambda>d s. max s (entry_sequence d)) ds (max q b) = max q (fold (\<lambda>d s. max s (entry_sequence d)) ds b)"
    for ds and b :: "64 word"
    by (induction ds arbitrary: b) (simp_all add: max.assoc)
  show ?thesis
    using * [of "dk_Journal d" 0]
    by (cases "dk_Snapshot d") (simp_all add: resetJournalPosition_def top_number_def * Let_def)
qed

lemma fallback_numbers:
  assumes ord: "journal_ordered d" and room: "disk_room d"
    and tr: "transactLocked ctx r io owner d e = (result, d')"
  shows "journal_ordered d' \<and> (\<forall>x \<in> set (dk_Journal d'). x \<in> set (dk_Journal d) \<or> above_disk d (entry_sequence x))"
proof (cases "je_Reset e")
  case True
  obtain out where reset: "resetJournalSnapshot (cx_commit ctx) io d (je_ReceivedAt e) 0 (- 1) = (out, d')"
    using tr True by (auto simp: transactLocked_def split: prod.splits sum.splits)
  obtain sq cl where pos: "resetJournalPosition d 0 (- 1) = (sq, cl)" by fastforce
  then have sq: "sq = top_number d" using reset_top [of d 0 "- 1"] by simp
  have "dk_Journal d' = dk_Journal d \<or> dk_Journal d' = [] \<or> dk_Journal d' = [encoded_entry (reset_entry (sq + 1) (je_ReceivedAt e))]"
    using reset pos
    by (auto simp: resetJournalSnapshot_def persistJournalSnapshot_def Let_def
        split: if_splits option.splits write_result.splits)
  moreover have "entry_sequence (encoded_entry (reset_entry (sq + 1) (je_ReceivedAt e))) = top_number d + 1"
    by (simp add: encoded_entry_def reset_entry_def sq)
  ultimately show ?thesis using ord above_top [OF room] by (auto simp: journal_ordered_def)
next
  case False
  show ?thesis
  proof (cases "d' = d")
    case False
    obtain sn0 sn where sn: "loadSnapshot d = Inr sn0" "foldJournal (cx_fold ctx) r sn0 (dk_Journal d) = Inr sn"
      using tr \<open>\<not> je_Reset e\<close> \<open>d' \<noteq> d\<close> by (auto simp: transactLocked_def split: sum.splits)
    note top = loaded_top [OF sn]
    let ?x = "encoded_entry (e\<lparr>je_Sequence := sn_JournalSequence sn + 1\<rparr>)"
    have "dk_Journal d' = dk_Journal d \<or> dk_Journal d' = [] \<or> dk_Journal d' = dk_Journal d @ [?x]"
      using tr \<open>\<not> je_Reset e\<close> sn
      by (auto simp: transactLocked_def Let_def persistJournalSnapshot_def appendJournal_def
          split: sum.splits prod.splits option.splits if_splits owner_lock.splits write_result.splits)
    moreover have "entry_sequence ?x = top_number d + 1" by (simp add: encoded_entry_def top)
    ultimately show ?thesis
      using ord above_top [OF room] by (auto simp: journal_ordered_def sorted_wrt_append above_disk_def)
  qed (use ord in simp)
qed

subsection \<open>A reset by the owner\<close>

lemma published_reset_later:
  assumes old: "loadLocked calm r d = Inr sn" and later: "sn_JournalSequence sn < q"
  shows "loads r (d\<lparr>dk_Journal := [encoded_entry (reset_entry q at)]\<rparr>) (reset_snapshot q at)"
proof -
  obtain sn0 where sn0: "loadSnapshot d = Inr sn0" "foldJournal calm r sn0 (dk_Journal d) = Inr sn"
    using old by (rule loadedE)
  have "sn_JournalSequence sn0 \<le> sn_JournalSequence sn"
    using foldJournal_sequence [OF sn0(2)] fold_max_le(1) by simp
  then have "\<not> q \<le> sn_JournalSequence sn0" using later by simp
  moreover have "applyJournalEntry (calm 0) r sn0 (reset_entry q at) =
      Inr (reset_snapshot q at, zero_result\<lparr>jr_cleared := int (length (sn_Sessions sn0)),
                      jr_changes := stateChanges (sn_Sessions sn0) []\<rparr>)"
    using apply_reset [where ctx = "calm 0" and r = r and sn = sn0 and e = "reset_entry q at" and q = q]
    by (simp add: reset_entry_def)
  ultimately have "foldJournal calm r sn0 [encoded_entry (reset_entry q at)] = Inr (reset_snapshot q at)"
    by (simp add: foldJournal_calm_simps fold_entry_def encoded_entry_def first_rejection_def Let_def
        find_None_iff reset_entry_def split: option.split)
  then have "loadLocked calm r (d\<lparr>dk_Journal := [encoded_entry (reset_entry q at)]\<rparr>) = Inr (reset_snapshot q at)"
    using sn0(1) reset_snapshot_ok by (simp add: loadLocked_def loadSnapshot_def)
  then show ?thesis by (rule loads_refl)
qed

lemma owner_reset:
  assumes old: "loadLocked calm r d = Inr sn" and e: "je_Reset e"
    and cmd: "MemoryStore_command json env r s d e = (result, s', d')"
  defines "q \<equiv> max (sn_JournalSequence (ms_snapshot s)) (sn_JournalSequence sn) + 1"
  shows "(\<exists>err. result = Inl err) \<and> s' = s \<and> (d' = d \<or> loads r d' (reset_snapshot q (me_now env)))
    \<or> \<not> isl result \<and> ms_snapshot s' = reset_snapshot q (me_now env) \<and> loads r d' (ms_snapshot s')"
proof (cases "ms_owned s \<and> me_lock env \<and> q - 1 \<noteq> - 1")
  case False
  obtain sq cl where pos: "resetJournalPosition d (sn_JournalSequence (ms_snapshot s))
      (int (length (sn_Sessions (ms_snapshot s)))) = (sq, cl)" by fastforce
  obtain sn0 where sn0: "loadSnapshot d = Inr sn0" "foldJournal calm r sn0 (dk_Journal d) = Inr sn"
    using old by (rule loadedE)
  have "sq = q - 1" using pos reset_top loaded_top [OF sn0] by (metis add_diff_cancel_right' fst_conv q_def)
  then have "(\<exists>err. result = Inl err) \<and> s' = s \<and> d' = d"
    using cmd e False pos
    by (auto simp: MemoryStore_command_def commandLocked_def resetJournalSnapshot_def split: if_splits)
  then show ?thesis by blast
next
  case True
  let ?at = "me_now env"
  let ?d1 = "d\<lparr>dk_Journal := [encoded_entry (reset_entry q ?at)]\<rparr>"
  obtain sn0 where sn0: "loadSnapshot d = Inr sn0" "foldJournal calm r sn0 (dk_Journal d) = Inr sn"
    using old by (rule loadedE)
  obtain cl where pos: "resetJournalPosition d (sn_JournalSequence (ms_snapshot s))
      (int (length (sn_Sessions (ms_snapshot s)))) = (q - 1, cl)"
    using reset_top [of d] loaded_top [OF sn0] by (metis add_diff_cancel_right' fst_conv prod.collapse q_def)
  have "sn_JournalSequence sn \<le> q - 1" by (simp add: q_def)
  then have later: "sn_JournalSequence sn < q" using word_less_succ [of "q - 1"] True by (simp add: le_less_trans)
  have published: "loads r ?d1 (reset_snapshot q ?at)" by (rule published_reset_later [OF old later])
  obtain err d2 where p: "persistJournalSnapshot (me_io env) (reset_snapshot q ?at) ?d1 = (err, d2)" by fastforce
  have "d2 = ?d1 \<and> err \<noteq> None \<or> loads r d2 (reset_snapshot q ?at)"
    by (rule persist_loads [OF _ _ _ p])
      (simp_all add: reset_snapshot_ok encoded_entry_def reset_entry_def)
  then have two: "loads r d2 (reset_snapshot q ?at)" using published by auto
  obtain out d3 where out: "resetJournalSnapshot (me_cancelled env) (me_io env) d ?at
      (sn_JournalSequence (ms_snapshot s)) (int (length (sn_Sessions (ms_snapshot s)))) = (out, d3)" by fastforce
  have outcome: "isl out \<and> (d3 = d \<or> d3 = ?d1 \<or> d3 = d2)
      \<or> (\<exists>res. out = Inr (reset_snapshot q ?at, res)) \<and> d3 = d2"
    using out p pos True
    by (auto simp: resetJournalSnapshot_def Let_def split: if_splits option.splits write_result.splits)
  have "isl out \<and> isl result \<and> s' = s \<and> d' = d3
      \<or> (\<exists>c res. out = Inr (c, res) \<and> \<not> isl result \<and> ms_snapshot s' = c) \<and> d' = d3"
    using cmd True e out
    by (cases out) (auto simp: MemoryStore_command_def commandLocked_def Let_def)
  then show ?thesis using outcome published two by (auto simp: isl_def)
qed

end
