(* ===== verification/Aht_HazardInputs.thy ===== *)
theory Aht_HazardInputs
  imports Aht_Hazards Aht_Examples
begin

section \<open>Registries on which the reducer goes wrong\<close>

text \<open>
  A session with a detail that a later report replaces, a session that has ended beside a live one
  known only by its process, and the report that resumes the ended one without naming a process.
\<close>

definition ex_failed :: "session go_map" where
  "ex_failed =
     (case ex_run [ex_sighting 7 True 5, ex_live_report 7 ''A'' 1 ActivityFailed 6] of
        Inl _ \<Rightarrow> [] | Inr sn \<Rightarrow> sn_Sessions sn)"

definition ex_ended :: "session go_map" where
  "ex_ended =
     (case ex_run [ex_report (Some (ex_process 7)) ''A'' None None None 5,
                   ex_report (Some (ex_process 7)) ''A'' None None (Some NativeLifecycleEnd) 6,
                   ex_sighting 8 True 7] of
        Inl _ \<Rightarrow> [] | Inr sn \<Rightarrow> sn_Sessions sn)"

definition ex_resumption :: observation where
  "ex_resumption = ex_report None ''A'' None None (Some NativeLifecycleStart) 8"

end
