(* ===== verification/Aht_PluginDirectory.thy ===== *)
theory Aht_PluginDirectory
  imports Aht_Hooks Aht_Screen
begin

section \<open>Plugin directories: \<open>internal/install/plugin_directory.go\<close>, \<open>harness_plan.go\<close>, \<open>remove.go\<close>\<close>

text \<open>
  A plugin is a directory that is replaced as a whole: its files are staged beside it, the current
  directory is moved to a backup, and the staged one is moved into its place. What is beside a plugin
  is the map of the entries of its parent directory. Every call to the operating system takes the next
  of a list of results, success or failure; where the list ends the machine stops. An action returns
  a value, or raises the errors that are joined, or has been stopped.
\<close>

datatype node = NotDir string | Tree "string list" "string go_map"

record entry =
  en_node :: node
  en_time :: int

record plugin_world =
  pw_entries :: "entry go_map"
  pw_calls :: "bool list"

datatype 'a outcome = Stopped | Raised "install_error list" | Returned 'a

type_synonym 'a action = "plugin_world \<Rightarrow> 'a outcome \<times> plugin_world"

definition returned :: "'a \<Rightarrow> 'a action" where
  "returned x = (\<lambda>w. (Returned x, w))"

definition raised :: "install_error list \<Rightarrow> 'a action" where
  "raised es = (\<lambda>w. (Raised es, w))"

definition and_then :: "'a action \<Rightarrow> ('a \<Rightarrow> 'b action) \<Rightarrow> 'b action" where
  "and_then m f = (\<lambda>w. case m w of
     (Returned x, w') \<Rightarrow> f x w' | (Raised es, w') \<Rightarrow> (Raised es, w') | (Stopped, w') \<Rightarrow> (Stopped, w'))"

text \<open>The outcome of an action as a value: its errors, or what it returns.\<close>

definition attempt :: "'a action \<Rightarrow> (install_error list + 'a) action" where
  "attempt m = (\<lambda>w. case m w of
     (Returned x, w') \<Rightarrow> (Returned (Inr x), w') | (Raised es, w') \<Rightarrow> (Returned (Inl es), w')
   | (Stopped, w') \<Rightarrow> (Stopped, w'))"

definition syscall :: "bool action" where
  "syscall = (\<lambda>w. case pw_calls w of [] \<Rightarrow> (Stopped, w) | ok # calls \<Rightarrow> (Returned ok, w\<lparr>pw_calls := calls\<rparr>))"

text \<open>A call that either succeeds or raises an error.\<close>

definition must :: "string \<Rightarrow> unit action" where
  "must what = and_then syscall (\<lambda>ok. if ok then returned () else raised [ErrInstallIO what])"

definition entries :: "entry go_map action" where
  "entries = (\<lambda>w. (Returned (pw_entries w), w))"

definition change_entries :: "(entry go_map \<Rightarrow> entry go_map) \<Rightarrow> unit action" where
  "change_entries f = (\<lambda>w. (Returned (), w\<lparr>pw_entries := f (pw_entries w)\<rparr>))"

subsection \<open>The calls\<close>

text \<open>\<open>os.Rename\<close>; false when there is nothing to rename. A directory may take the place of an empty one.\<close>

definition replaceable :: "entry \<Rightarrow> entry option \<Rightarrow> bool" where
  "replaceable en target =
     (case target of
        None \<Rightarrow> True
      | Some old \<Rightarrow>
          (case en_node en of
             Tree _ _ \<Rightarrow> en_node old = Tree [] []
           | NotDir _ \<Rightarrow> (case en_node old of NotDir _ \<Rightarrow> True | Tree _ _ \<Rightarrow> False)))"

definition rename_entry :: "string \<Rightarrow> string \<Rightarrow> bool action" where
  "rename_entry old new =
     and_then (must ''renaming'') (\<lambda>_. and_then entries (\<lambda>es.
       case map_of es old of
         None \<Rightarrow> returned False
       | Some en \<Rightarrow>
           if replaceable en (map_of es new)
           then and_then (change_entries (\<lambda>es. map_put new en (map_del old es))) (\<lambda>_. returned True)
           else raised [ErrInstallIO ''renaming'']))"

definition drop_file :: "string \<Rightarrow> string \<Rightarrow> entry go_map \<Rightarrow> entry go_map" where
  "drop_file name f es =
     (case map_of es name of
        Some en \<Rightarrow>
          (case en_node en of
             Tree ds files \<Rightarrow> map_put name (en\<lparr>en_node := Tree ds (map_del f files)\<rparr>) es
           | NotDir _ \<Rightarrow> es)
      | None \<Rightarrow> es)"

text \<open>\<open>os.RemoveAll\<close>: the files one by one, going on after a failure, then the directory itself.\<close>

fun remove_files :: "string \<Rightarrow> string list \<Rightarrow> bool \<Rightarrow> bool action" where
  "remove_files name [] good = returned good"
| "remove_files name (f # fs) good =
     and_then syscall (\<lambda>ok.
       and_then (if ok then change_entries (drop_file name f) else returned ()) (\<lambda>_. remove_files name fs (good \<and> ok)))"

definition remove_all :: "string \<Rightarrow> unit action" where
  "remove_all name =
     and_then entries (\<lambda>es.
       and_then (case map_option en_node (map_of es name) of
           Some (Tree ds files) \<Rightarrow> remove_files name (map fst files) True
         | _ \<Rightarrow> returned True) (\<lambda>good.
       and_then syscall (\<lambda>ok.
         if good \<and> ok then change_entries (map_del name) else raised [ErrInstallIO ''removing''])))"

text \<open>
  \<open>os.MkdirTemp\<close> beside the plugin: \<open>pick\<close> is the number it chooses at random, and a name
  that is taken is never used; out of attempts, it fails.
\<close>

type_synonym picker = "string \<Rightarrow> entry go_map \<Rightarrow> 32 word"

definition temporary_prefix :: "string \<Rightarrow> string \<Rightarrow> string" where
  "temporary_prefix base kind = ''.'' @ base @ ''.'' @ kind @ ''-''"

definition make_temp :: "picker \<Rightarrow> int \<Rightarrow> string \<Rightarrow> string \<Rightarrow> string action" where
  "make_temp pick now base kind =
     and_then (must ''creating'') (\<lambda>_. and_then entries (\<lambda>es.
       let name = temporary_prefix base kind @ digits (unat (pick (temporary_prefix base kind) es))
       in if map_of es name \<noteq> None then raised [ErrInstallIO ''creating'']
          else and_then (change_entries (map_put name \<lparr>en_node = Tree [] [], en_time = now\<rparr>)) (\<lambda>_. returned name)))"

subsection \<open>A plugin\<close>

record plugin =
  pd_Base :: string
  pd_MarkerFile :: string
  pd_Files :: "string go_map"
  pd_SnippetOrder :: "string list"

text \<open>The environment of an operation on it: names of temporary directories, and the clock.\<close>

record plugin_env =
  pe_pick :: picker
  pe_now :: int

definition validateInstallRelativePath :: "string \<Rightarrow> bool" where
  "validateInstallRelativePath name =
     (let trimmed = trim_space name in
      trimmed \<noteq> [] \<and> \<not> is_rooted trimmed \<and> CHR 0x5C \<notin> set trimmed
      \<and> path_clean trimmed = trimmed \<and> trimmed \<noteq> ''.''
      \<and> list_all (\<lambda>part. part \<noteq> [] \<and> part \<noteq> ''.'' \<and> part \<noteq> ''..'') (split_slash trimmed))"

text \<open>The files of a plan with their rendered content.\<close>

fun renderInstallFiles :: "(string \<times> string) list \<Rightarrow> string go_map \<Rightarrow> install_error + string go_map" where
  "renderInstallFiles [] files = Inr files"
| "renderInstallFiles ((name, content) # specs) files =
     (if \<not> validateInstallRelativePath name then Inl (ErrInstallIO ''invalid plugin file name'')
      else if map_of files name \<noteq> None then Inl (ErrInstallIO ''duplicate plugin file name'')
      else renderInstallFiles specs (map_put name content files))"

definition temporaryName :: "plugin \<Rightarrow> string \<Rightarrow> string \<Rightarrow> bool" where
  "temporaryName p name kind =
     (let pre = temporary_prefix (pd_Base p) kind; suffix = drop (length pre) name; n = digit_value suffix
      in has_prefix name pre \<and> int n < 2 ^ 32 \<and> digits n = suffix)"

definition managed_dir :: "string \<Rightarrow> string \<Rightarrow> bool action" where
  "managed_dir marker name =
     and_then (must ''checking'') (\<lambda>_. and_then entries (\<lambda>es.
       case map_of es name of
         None \<Rightarrow> returned True
       | Some en \<Rightarrow>
           (case en_node en of
              NotDir _ \<Rightarrow> returned False
            | Tree ds files \<Rightarrow>
                if marker = [] then returned False
                else and_then (must ''reading marker'') (\<lambda>_.
                  returned (case map_of files marker of None \<Rightarrow> False | Some c \<Rightarrow> contains c managedMarker)))))"

definition ensureManaged :: "string \<Rightarrow> string \<Rightarrow> bool \<Rightarrow> unit action" where
  "ensureManaged marker name force =
     and_then (managed_dir marker name) (\<lambda>managed.
       if \<not> managed \<and> \<not> force then raised [ErrForeignFile name] else returned ())"

text \<open>The directories of the files: all the parents of their names.\<close>

fun path_parents :: "string list \<Rightarrow> string list list" where
  "path_parents [] = []"
| "path_parents (e # es) = (if es = [] then [] else [e] # map (Cons e) (path_parents es))"

definition expectedDirs :: "string list \<Rightarrow> string list" where
  "expectedDirs names = concat (map (\<lambda>f. map (join ''/'') (path_parents (split_slash f))) names)"

definition hasStaleFiles :: "plugin \<Rightarrow> string list \<Rightarrow> string go_map \<Rightarrow> bool" where
  "hasStaleFiles p ds files =
     (list_ex (\<lambda>d. d \<notin> set (expectedDirs (map fst (pd_Files p)))) ds
      \<or> list_ex (\<lambda>f. map_of (pd_Files p) f = None) (map fst files))"

fun files_differ :: "string go_map \<Rightarrow> (string \<times> string) list \<Rightarrow> bool action" where
  "files_differ files [] = returned False"
| "files_differ files ((f, c) # fs) =
     and_then (must ''reading plugin file'') (\<lambda>_.
       if map_of files f = Some c then files_differ files fs else returned True)"

definition needsUpdate :: "plugin \<Rightarrow> bool action" where
  "needsUpdate p =
     and_then (must ''checking'') (\<lambda>_. and_then entries (\<lambda>es.
       case map_of es (pd_Base p) of
         None \<Rightarrow> returned True
       | Some en \<Rightarrow>
           (case en_node en of
              NotDir _ \<Rightarrow> returned True
            | Tree ds files \<Rightarrow>
                and_then (files_differ files (pd_Files p)) (\<lambda>differ.
                  if differ then returned True
                  else and_then (must ''walking'') (\<lambda>_. returned (hasStaleFiles p ds files))))))"

subsection \<open>Recovery\<close>

record recovery =
  rc_backups :: "string list"
  rc_stages :: "string list"
  rc_newest :: "(string \<times> int) option"

definition collectBackup :: "plugin \<Rightarrow> string \<Rightarrow> entry \<Rightarrow> recovery \<Rightarrow> recovery action" where
  "collectBackup p name en rc =
     and_then (must ''reading backup'') (\<lambda>_.
       case en_node en of
         Tree [] [] \<Rightarrow> returned (rc\<lparr>rc_stages := rc_stages rc @ [name]\<rparr>)
       | _ \<Rightarrow>
           and_then (ensureManaged (pd_MarkerFile p) name False) (\<lambda>_. and_then (must ''checking backup'') (\<lambda>_.
             returned (rc\<lparr>rc_backups := rc_backups rc @ [name],
               rc_newest := (case rc_newest rc of
                  None \<Rightarrow> Some (name, en_time en)
                | Some (_, t) \<Rightarrow> if en_time en > t then Some (name, en_time en) else rc_newest rc)\<rparr>))))"

fun inspect_entries :: "plugin \<Rightarrow> (string \<times> entry) list \<Rightarrow> recovery \<Rightarrow> recovery action" where
  "inspect_entries p [] rc = returned rc"
| "inspect_entries p ((name, en) # rest) rc =
     (case en_node en of
        NotDir _ \<Rightarrow> inspect_entries p rest rc
      | Tree _ _ \<Rightarrow>
          if temporaryName p name ''backup'' then
            and_then (collectBackup p name en rc) (inspect_entries p rest)
          else if temporaryName p name ''stage'' then
            inspect_entries p rest (rc\<lparr>rc_stages := rc_stages rc @ [name]\<rparr>)
          else inspect_entries p rest rc)"

definition inspectRecovery :: "plugin \<Rightarrow> recovery action" where
  "inspectRecovery p =
     and_then (must ''reading recovery directory'') (\<lambda>_. and_then entries (\<lambda>es.
       inspect_entries p es \<lparr>rc_backups = [], rc_stages = [], rc_newest = None\<rparr>))"

fun remove_each :: "string list \<Rightarrow> unit action" where
  "remove_each [] = returned ()"
| "remove_each (name # names) = and_then (remove_all name) (\<lambda>_. remove_each names)"

definition recover_plugin :: "plugin \<Rightarrow> bool \<Rightarrow> bool action" where
  "recover_plugin p dry =
     and_then (inspectRecovery p) (\<lambda>rc.
       let pending = rc_backups rc @ rc_stages rc \<noteq> [] in
       if dry then returned pending
       else and_then (must ''checking recovery target'') (\<lambda>_. and_then entries (\<lambda>es.
         and_then (case (map_of es (pd_Base p), rc_newest rc) of
             (None, Some (newest, _)) \<Rightarrow>
               and_then (rename_entry newest (pd_Base p)) (\<lambda>there.
                 if there then must ''syncing'' else raised [ErrInstallIO ''renaming''])
           | _ \<Rightarrow> returned ()) (\<lambda>_.
         and_then (remove_each (rc_backups rc @ rc_stages rc)) (\<lambda>_.
           if pending then and_then (must ''syncing'') (\<lambda>_. returned True) else returned False)))))"

subsection \<open>Replacement\<close>

text \<open>The content of a staged file is written before it is synced and closed.\<close>

definition put_file :: "string \<Rightarrow> string \<Rightarrow> string \<Rightarrow> entry go_map \<Rightarrow> entry go_map" where
  "put_file name f c es =
     (case map_of es name of
        Some en \<Rightarrow>
          (case en_node en of
             Tree ds files \<Rightarrow>
               map_put name (en\<lparr>en_node := Tree (remdups (expectedDirs [f] @ ds)) (map_put f c files)\<rparr>) es
           | NotDir _ \<Rightarrow> es)
      | None \<Rightarrow> es)"

definition writeStagedPluginFile :: "string \<Rightarrow> string \<Rightarrow> string \<Rightarrow> unit action" where
  "writeStagedPluginFile name f c =
     and_then (must ''creating directory'') (\<lambda>_. and_then (must ''opening'') (\<lambda>_.
     and_then (change_entries (put_file name f [])) (\<lambda>_.
     and_then (must ''writing'') (\<lambda>_. and_then (change_entries (put_file name f c)) (\<lambda>_.
     and_then (must ''syncing'') (\<lambda>_. must ''closing''))))))"

fun write_files :: "string \<Rightarrow> (string \<times> string) list \<Rightarrow> unit action" where
  "write_files name [] = must ''syncing''"
| "write_files name ((f, c) # fs) = and_then (writeStagedPluginFile name f c) (\<lambda>_. write_files name fs)"

definition stage_plugin :: "plugin_env \<Rightarrow> plugin \<Rightarrow> string action" where
  "stage_plugin pe p =
     and_then (must ''creating parent'') (\<lambda>_.
     and_then (make_temp (pe_pick pe) (pe_now pe) (pd_Base p) ''stage'') (\<lambda>staged.
     and_then (attempt (write_files staged (pd_Files p))) (\<lambda>r.
       case r of
         Inr _ \<Rightarrow> returned staged
       | Inl es \<Rightarrow> and_then (attempt (remove_all staged)) (\<lambda>_. raised es))))"

definition restoreBackup :: "plugin \<Rightarrow> string \<Rightarrow> bool \<Rightarrow> unit action" where
  "restoreBackup p backup backupExists =
     (if \<not> backupExists then returned ()
      else and_then (rename_entry backup (pd_Base p)) (\<lambda>there.
        if there then returned () else raised [ErrInstallIO ''restoring'']))"

text \<open>\<open>errors.Join\<close>: an error with those of an action that tries to make up for it.\<close>

definition joined :: "install_error list \<Rightarrow> unit action \<Rightarrow> 'a action" where
  "joined es m = and_then (attempt m) (\<lambda>r. case r of Inl es' \<Rightarrow> raised (es @ es') | Inr _ \<Rightarrow> raised es)"

definition backupCurrent :: "plugin_env \<Rightarrow> plugin \<Rightarrow> (string \<times> bool) action" where
  "backupCurrent pe p =
     and_then (make_temp (pe_pick pe) (pe_now pe) (pd_Base p) ''backup'') (\<lambda>backup.
     and_then (must ''preparing backup'') (\<lambda>_. and_then (change_entries (map_del backup)) (\<lambda>_.
     and_then (rename_entry (pd_Base p) backup) (\<lambda>existed.
       if \<not> existed then returned (backup, False)
       else and_then (attempt (must ''syncing'')) (\<lambda>r.
         case r of
           Inr _ \<Rightarrow> returned (backup, True)
         | Inl es \<Rightarrow> joined es (restoreBackup p backup True))))))"

definition rollbackReplacement :: "plugin \<Rightarrow> string \<Rightarrow> bool \<Rightarrow> unit action" where
  "rollbackReplacement p backup backupExists =
     and_then (attempt (remove_all (pd_Base p))) (\<lambda>removed.
     and_then (attempt (restoreBackup p backup backupExists)) (\<lambda>restored.
     and_then (case restored of Inl es \<Rightarrow> returned (Inl es) | Inr _ \<Rightarrow> attempt (must ''syncing'')) (\<lambda>synced.
       case (removed, synced) of
         (Inr _, Inr _) \<Rightarrow> returned ()
       | (Inl es, Inr _) \<Rightarrow> raised es
       | (Inr _, Inl es) \<Rightarrow> raised es
       | (Inl es, Inl es') \<Rightarrow> raised (es @ es'))))"

definition commitReplacement :: "string \<Rightarrow> bool \<Rightarrow> unit action" where
  "commitReplacement backup backupExists =
     and_then (if backupExists then remove_all backup else returned ()) (\<lambda>_. must ''syncing'')"

text \<open>\<open>replace\<close> returns the backup, on which the callbacks \<open>rollback\<close> and \<open>commit\<close> work.\<close>

definition replace_plugin :: "plugin_env \<Rightarrow> plugin \<Rightarrow> string \<Rightarrow> (string \<times> bool) action" where
  "replace_plugin pe p staged =
     and_then (backupCurrent pe p) (\<lambda>(backup, backupExists).
     and_then (attempt (rename_entry staged (pd_Base p))) (\<lambda>r.
       case r of
         Inl es \<Rightarrow> joined es (restoreBackup p backup backupExists)
       | Inr there \<Rightarrow>
           if \<not> there then joined [ErrInstallIO ''renaming''] (restoreBackup p backup backupExists)
           else and_then (attempt (must ''syncing'')) (\<lambda>s.
             case s of
               Inl es \<Rightarrow> joined es (rollbackReplacement p backup backupExists)
             | Inr _ \<Rightarrow> returned (backup, backupExists))))"

text \<open>The staged directory is removed in the end, which finds nothing once it has been moved.\<close>

definition installStaged :: "plugin_env \<Rightarrow> plugin \<Rightarrow> (string \<times> bool) action" where
  "installStaged pe p =
     and_then (stage_plugin pe p) (\<lambda>staged.
     and_then (attempt (replace_plugin pe p staged)) (\<lambda>r.
     and_then (attempt (remove_all staged)) (\<lambda>_.
       case r of Inl es \<Rightarrow> raised es | Inr b \<Rightarrow> returned b)))"

definition snippet_plugin :: "plugin \<Rightarrow> string" where
  "snippet_plugin p =
     (let order = (if pd_SnippetOrder p = [] then map fst (pd_Files p) else pd_SnippetOrder p)
      in join [CHR 0x0A] (map (\<lambda>name. ''== '' @ name @ '' =='' @ [CHR 0x0A] @ map_get [] name (pd_Files p)) order))"

subsection \<open>Installing and removing a plugin\<close>

text \<open>
  The import manifest of an agent lists its plugins. Its file is read to see whether it has to change_entries and
  to be able to restore it, then written; these actions are arguments. Where writing it fails the plugin
  is rolled back, and then the manifest.
\<close>

record manifest_actions =
  ma_planned :: "bool action"
  ma_prepare :: "unit action"
  ma_write :: "unit action"
  ma_undo :: "unit action"

definition rollbackPluginDirectoryAndManifest ::
    "unit action option \<Rightarrow> unit action option \<Rightarrow> install_error list \<Rightarrow> 'a action" where
  "rollbackPluginDirectoryAndManifest rollbackPlugin rollbackManifest cause =
     and_then (case rollbackPlugin of
         None \<Rightarrow> returned cause
       | Some m \<Rightarrow> and_then (attempt m) (\<lambda>r. returned (case r of Inl es \<Rightarrow> cause @ es | Inr _ \<Rightarrow> cause))) (\<lambda>es.
       case rollbackManifest of None \<Rightarrow> raised es | Some m \<Rightarrow> joined es m)"

definition preparePluginDirectory :: "plugin \<Rightarrow> bool \<Rightarrow> bool \<Rightarrow> bool action" where
  "preparePluginDirectory p dry force =
     and_then (recover_plugin p dry) (\<lambda>_. and_then (ensureManaged (pd_MarkerFile p) (pd_Base p) force) (\<lambda>_.
       needsUpdate p))"

definition writePluginDirectoryChanges ::
    "plugin_env \<Rightarrow> plugin \<Rightarrow> manifest_actions \<Rightarrow> bool \<Rightarrow> bool \<Rightarrow> unit action" where
  "writePluginDirectoryChanges pe p ma pluginChanged manifestChanged =
     and_then (if pluginChanged then and_then (installStaged pe p) (\<lambda>b. returned (Some b)) else returned None)
       (\<lambda>replaced.
         let rollback = map_option (\<lambda>(backup, existed). rollbackReplacement p backup existed) replaced in
         and_then (if \<not> manifestChanged then returned ()
             else and_then (attempt (ma_prepare ma)) (\<lambda>r.
               case r of
                 Inl es \<Rightarrow> rollbackPluginDirectoryAndManifest rollback None es
               | Inr _ \<Rightarrow>
                   and_then (attempt (ma_write ma)) (\<lambda>r.
                     case r of
                       Inl es \<Rightarrow> rollbackPluginDirectoryAndManifest rollback (Some (ma_undo ma)) es
                     | Inr _ \<Rightarrow> returned ()))) (\<lambda>_.
           case replaced of None \<Rightarrow> returned () | Some (backup, existed) \<Rightarrow> commitReplacement backup existed))"

definition install_plugin ::
    "plugin_env \<Rightarrow> plugin \<Rightarrow> manifest_actions \<Rightarrow> bool \<Rightarrow> bool \<Rightarrow> bool action" where
  "install_plugin pe p ma dry force =
     and_then (preparePluginDirectory p dry force) (\<lambda>pluginChanged.
     and_then (ma_planned ma) (\<lambda>manifestChanged.
       let changed = pluginChanged \<or> manifestChanged in
       and_then (if changed \<and> \<not> dry then writePluginDirectoryChanges pe p ma pluginChanged manifestChanged
                 else returned ()) (\<lambda>_. returned changed)))"

definition applyPluginRemoval ::
    "plugin_env \<Rightarrow> plugin \<Rightarrow> manifest_actions \<Rightarrow> bool \<Rightarrow> bool \<Rightarrow> unit action" where
  "applyPluginRemoval pe p ma exists manifestChanged =
     and_then (if manifestChanged then ma_prepare ma else returned ()) (\<lambda>_.
     and_then (if exists then and_then (backupCurrent pe p) (\<lambda>b. returned (Some b)) else returned None) (\<lambda>moved.
       let rollback = map_option (\<lambda>(backup, existed).
             and_then (restoreBackup p backup existed) (\<lambda>_. must ''syncing'')) moved in
       and_then (if \<not> manifestChanged then returned ()
           else and_then (attempt (ma_write ma)) (\<lambda>r.
             case r of
               Inl es \<Rightarrow> rollbackPluginDirectoryAndManifest rollback (Some (ma_undo ma)) es
             | Inr _ \<Rightarrow> returned ())) (\<lambda>_.
         case moved of None \<Rightarrow> returned () | Some (backup, existed) \<Rightarrow> commitReplacement backup existed)))"

definition removePluginDirectory ::
    "plugin_env \<Rightarrow> plugin \<Rightarrow> manifest_actions \<Rightarrow> bool \<Rightarrow> bool action" where
  "removePluginDirectory pe p ma dry =
     and_then (managed_dir (pd_MarkerFile p) (pd_Base p)) (\<lambda>managed.
     and_then (must ''checking'') (\<lambda>_. and_then entries (\<lambda>es.
       let exists = (map_of es (pd_Base p) \<noteq> None) in
       if exists \<and> \<not> managed then raised [ErrForeignFile (pd_Base p)]
       else and_then (ma_planned ma) (\<lambda>manifestChanged.
         let changed = exists \<or> manifestChanged in
         and_then (if changed \<and> \<not> dry then applyPluginRemoval pe p ma exists manifestChanged else returned ())
           (\<lambda>_. returned changed)))))"

end
