(* ===== verification/Aht_PluginFacts.thy ===== *)
theory Aht_PluginFacts
  imports Aht_PluginDirectory
begin

section \<open>Assertions about actions\<close>

text \<open>
  What holds of the entries after an action: when it returns, when it raises an error, and when the
  machine stops in the middle of it. The results of the calls are arbitrary.
\<close>

definition triple ::
    "(entry go_map \<Rightarrow> bool) \<Rightarrow> 'a action \<Rightarrow> ('a \<Rightarrow> entry go_map \<Rightarrow> bool) \<Rightarrow> (entry go_map \<Rightarrow> bool)
     \<Rightarrow> (entry go_map \<Rightarrow> bool) \<Rightarrow> bool" where
  "triple P m Q E S \<longleftrightarrow>
     (\<forall>w :: plugin_world. P (pw_entries w) \<longrightarrow>
        (case m w of
           (Returned x, w') \<Rightarrow> Q x (pw_entries w')
         | (Raised _, w') \<Rightarrow> E (pw_entries w')
         | (Stopped, w') \<Rightarrow> S (pw_entries w')))"

named_theorems triple_rules

lemma tripleD:
  assumes "triple P m Q E S" "P (pw_entries w)"
  shows "m w = (Returned x, w') \<Longrightarrow> Q x (pw_entries w')"
    and "m w = (Raised es, w') \<Longrightarrow> E (pw_entries w')"
    and "m w = (Stopped, w') \<Longrightarrow> S (pw_entries w')"
  using assms unfolding triple_def by (fastforce split: prod.splits outcome.splits)+

lemma triple_weaken:
  assumes "triple P' m Q' E' S'" "\<And>es. P es \<Longrightarrow> P' es" "\<And>x es. Q' x es \<Longrightarrow> Q x es"
    "\<And>es. E' es \<Longrightarrow> E es" "\<And>es. S' es \<Longrightarrow> S es"
  shows "triple P m Q E S"
  unfolding triple_def
proof (intro allI impI)
  fix w :: plugin_world assume "P (pw_entries w)"
  then have "P' (pw_entries w)" by (rule assms(2))
  then show "case m w of (Returned x, w') \<Rightarrow> Q x (pw_entries w') | (Raised _, w') \<Rightarrow> E (pw_entries w')
      | (Stopped, w') \<Rightarrow> S (pw_entries w')"
    using assms(1) assms(3-5) unfolding triple_def by (fastforce split: prod.splits outcome.splits)
qed

lemma triple_pre: "triple P' m Q E S \<Longrightarrow> (\<And>es. P es \<Longrightarrow> P' es) \<Longrightarrow> triple P m Q E S"
  by (erule triple_weaken)

lemma triple_never: "(\<And>es. \<not> P es) \<Longrightarrow> triple P m Q E S"
  by (simp add: triple_def)

lemma triple_exists:
  assumes "\<And>t. triple (P t) m Q E S"
  shows "triple (\<lambda>es. \<exists>t. P t es) m Q E S"
  unfolding triple_def
proof (intro allI impI, elim exE)
  fix w :: plugin_world and t assume p: "P t (pw_entries w)"
  obtain r w' where "m w = (r, w')" by (rule prod.exhaust)
  then show "case m w of (Returned x, w') \<Rightarrow> Q x (pw_entries w') | (Raised _, w') \<Rightarrow> E (pw_entries w')
      | (Stopped, w') \<Rightarrow> S (pw_entries w')" using tripleD [OF assms p] by (cases r) simp_all
qed

lemma triple_returned [triple_rules]: "(\<And>es. P es \<Longrightarrow> Q x es) \<Longrightarrow> triple P (returned x) Q E S"
  by (simp add: triple_def returned_def)

lemma triple_raised [triple_rules]: "(\<And>es. P es \<Longrightarrow> E es) \<Longrightarrow> triple P (raised errs) Q E S"
  by (simp add: triple_def raised_def)

lemma triple_bind:
  assumes "triple P m R E S" "\<And>x. triple (R x) (f x) Q E S"
  shows "triple P (and_then m f) Q E S"
  unfolding triple_def
proof (intro allI impI)
  fix w :: plugin_world assume p: "P (pw_entries w)"
  obtain r w' where m: "m w = (r, w')" by (rule prod.exhaust)
  show "case and_then m f w of (Returned x, w') \<Rightarrow> Q x (pw_entries w') | (Raised _, w') \<Rightarrow> E (pw_entries w')
      | (Stopped, w') \<Rightarrow> S (pw_entries w')"
  proof (cases r)
    case (Returned x)
    then have "R x (pw_entries w')" using tripleD(1) [OF assms(1) p] m by simp
    then show ?thesis using assms(2) [of x] m Returned by (simp add: triple_def and_then_def)
  qed (use tripleD(2,3) [OF assms(1) p] m in \<open>simp_all add: and_then_def\<close>)
qed

lemma triple_attempt:
  assumes "triple P m Q E S"
  shows "triple P (attempt m) (\<lambda>r es. case r of Inl _ \<Rightarrow> E es | Inr x \<Rightarrow> Q x es) E' S"
  using assms unfolding triple_def attempt_def by (fastforce split: prod.splits outcome.splits)

lemma triple_syscall: "(\<And>es. P es \<Longrightarrow> S es) \<Longrightarrow> triple P syscall (\<lambda>_. P) E S"
  by (auto simp: triple_def syscall_def split: list.splits)

lemma triple_must:
  assumes "\<And>es. P es \<Longrightarrow> E es" "\<And>es. P es \<Longrightarrow> S es"
  shows "triple P (must what) (\<lambda>_. P) E S"
  unfolding must_def
  by (rule triple_bind [OF triple_syscall]) (auto intro!: triple_returned triple_raised assms)

lemma triple_must_bind:
  assumes "\<And>es. P es \<Longrightarrow> E es" "\<And>es. P es \<Longrightarrow> S es" "triple P (f ()) Q E S"
  shows "triple P (and_then (must what) f) Q E S"
  by (rule triple_bind [OF triple_must]) (use assms in auto)

lemma triple_entries: "triple P entries (\<lambda>x es. P es \<and> x = es) E S"
  by (simp add: triple_def entries_def)

lemma triple_change: "(\<And>es. P es \<Longrightarrow> Q () (f es)) \<Longrightarrow> triple P (change_entries f) Q E S"
  by (simp add: triple_def change_entries_def)

text \<open>An action that always keeps a property.\<close>

abbreviation keeps :: "(entry go_map \<Rightarrow> bool) \<Rightarrow> 'a action \<Rightarrow> bool" where
  "keeps P m \<equiv> triple P m (\<lambda>_. P) P P"

lemma keeps_bind: "keeps P m \<Longrightarrow> (\<And>x. keeps P (f x)) \<Longrightarrow> keeps P (and_then m f)"
  by (rule triple_bind)

lemma keeps_must: "keeps P (must what)"
  by (rule triple_must)

lemma keeps_syscall: "keeps P syscall"
  by (rule triple_syscall)

lemma keeps_returned: "keeps P (returned x)"
  by (rule triple_returned)

lemma keeps_raised: "keeps P (raised es)"
  by (rule triple_raised)

lemma keeps_attempt: "keeps P m \<Longrightarrow> keeps P (attempt m)"
  unfolding triple_def attempt_def by (fastforce split: prod.splits outcome.splits)

lemma keeps_joined: "keeps P m \<Longrightarrow> keeps P (joined es m)"
  unfolding joined_def
  by (rule keeps_bind [OF keeps_attempt]) (auto intro: keeps_raised split: sum.split)

lemma triple_joined: "triple P m (\<lambda>_. E) E S \<Longrightarrow> triple P (joined errs m) Q E S"
  unfolding joined_def
  by (rule triple_bind [OF triple_attempt]) (auto intro!: triple_raised split: sum.split)

lemma keeps_if: "keeps P m \<Longrightarrow> keeps P m' \<Longrightarrow> keeps P (if b then m else m')"
  by simp

lemma triple_entries_bind:
  assumes "\<And>es. P es \<Longrightarrow> triple (\<lambda>es'. es' = es \<and> P es) (f es) Q E S"
  shows "triple P (and_then entries f) Q E S"
  using assms unfolding triple_def and_then_def entries_def by simp

section \<open>What may be found of a plugin\<close>

text \<open>Names that \<open>MkdirTemp\<close> gives are recognised as such.\<close>

abbreviation backup_name :: "plugin \<Rightarrow> string \<Rightarrow> bool" where
  "backup_name p name \<equiv> temporaryName p name ''backup''"

abbreviation stage_name :: "plugin \<Rightarrow> string \<Rightarrow> bool" where
  "stage_name p name \<equiv> temporaryName p name ''stage''"

definition temporary :: "plugin \<Rightarrow> string \<Rightarrow> bool" where
  "temporary p name \<longleftrightarrow> backup_name p name \<or> stage_name p name"

lemma temporaryName_made:
  "n < 2 ^ 32 \<Longrightarrow> temporaryName p (temporary_prefix (pd_Base p) kind @ digits n) kind"
  by (simp add: temporaryName_def Let_def digit_value_digits has_prefix_iff)

lemma temporaryName_prefix: "temporaryName p name kind \<Longrightarrow> \<exists>s. name = temporary_prefix (pd_Base p) kind @ s"
  by (auto simp: temporaryName_def Let_def has_prefix_iff)

lemma stage_not_backup: "stage_name p name \<Longrightarrow> \<not> backup_name p name"
  by (auto dest!: temporaryName_prefix simp: temporary_prefix_def)

lemma base_not_temporary: "\<not> temporaryName p (pd_Base p) kind"
proof
  assume "temporaryName p (pd_Base p) kind"
  then obtain s where "pd_Base p = temporary_prefix (pd_Base p) kind @ s" by (blast dest: temporaryName_prefix)
  then have "length (pd_Base p) = length (temporary_prefix (pd_Base p) kind @ s)" by simp
  then show False by (simp add: temporary_prefix_def)
qed

text \<open>An entry holds a part of the new files, or all of them and nothing else.\<close>

definition part_of :: "plugin \<Rightarrow> entry \<Rightarrow> bool" where
  "part_of p en \<longleftrightarrow>
     (\<exists>ds files. en_node en = Tree ds files
        \<and> (\<forall>f c. map_of files f = Some c \<longrightarrow> map_of (pd_Files p) f = Some c))"

definition complete :: "plugin \<Rightarrow> entry \<Rightarrow> bool" where
  "complete p en \<longleftrightarrow> (\<exists>ds files. en_node en = Tree ds files \<and> map_of files = map_of (pd_Files p))"

definition holds_marker :: "plugin \<Rightarrow> entry \<Rightarrow> bool" where
  "holds_marker p en \<longleftrightarrow>
     (\<exists>ds files c. en_node en = Tree ds files \<and> pd_MarkerFile p \<noteq> []
        \<and> map_of files (pd_MarkerFile p) = Some c \<and> contains c managedMarker)"

definition is_tree :: "entry \<Rightarrow> bool" where
  "is_tree en \<longleftrightarrow> (\<exists>ds files. en_node en = Tree ds files)"

definition emptied :: "entry \<Rightarrow> bool" where
  "emptied en \<longleftrightarrow> en_node en = Tree [] []"

text \<open>Before the first installation: what else is in the directory, and the plugin if there is one.\<close>

definition acceptable :: "plugin \<Rightarrow> entry go_map \<Rightarrow> entry \<Rightarrow> bool" where
  "acceptable p es0 en \<longleftrightarrow> map_of es0 (pd_Base p) = Some en \<or> part_of p en"

definition no_backup :: "plugin \<Rightarrow> entry go_map \<Rightarrow> bool" where
  "no_backup p es \<longleftrightarrow> (\<forall>b en. backup_name p b \<longrightarrow> map_of es b = Some en \<longrightarrow> emptied en)"

definition only_backup :: "plugin \<Rightarrow> string \<Rightarrow> entry go_map \<Rightarrow> bool" where
  "only_backup p b es \<longleftrightarrow> (\<forall>b' en. backup_name p b' \<longrightarrow> b' \<noteq> b \<longrightarrow> map_of es b' = Some en \<longrightarrow> emptied en)"

text \<open>
  Nothing is lost: the other entries are as they were; the plugin is the one there was or made of new
  files; or it is missing, and was missing or is the only backup that is not empty.
\<close>

definition beside_kept :: "plugin \<Rightarrow> entry go_map \<Rightarrow> entry go_map \<Rightarrow> bool" where
  "beside_kept p es0 es \<longleftrightarrow>
     map_ok es
     \<and> (\<forall>n. n \<noteq> pd_Base p \<longrightarrow> \<not> temporary p n \<longrightarrow> map_of es n = map_of es0 n)
     \<and> (\<forall>n en. temporary p n \<longrightarrow> map_of es n = Some en \<longrightarrow> is_tree en)"

definition kept :: "plugin \<Rightarrow> entry go_map \<Rightarrow> entry go_map \<Rightarrow> bool" where
  "kept p es0 es \<longleftrightarrow>
     (case map_of es (pd_Base p) of
        Some en \<Rightarrow> acceptable p es0 en
      | None \<Rightarrow>
          map_of es0 (pd_Base p) = None \<and> no_backup p es
          \<or> (\<exists>b en. backup_name p b \<and> map_of es b = Some en \<and> acceptable p es0 en \<and> \<not> emptied en
                \<and> only_backup p b es))"

definition safe :: "plugin \<Rightarrow> entry go_map \<Rightarrow> entry go_map \<Rightarrow> bool" where
  "safe p es0 es \<longleftrightarrow> beside_kept p es0 es \<and> kept p es0 es"

definition clean :: "plugin \<Rightarrow> entry go_map \<Rightarrow> bool" where
  "clean p es \<longleftrightarrow> (\<forall>n. temporary p n \<longrightarrow> map_of es n = None)"

lemma complete_part: "complete p en \<Longrightarrow> part_of p en"
  by (auto simp: complete_def part_of_def)

lemma part_tree: "part_of p en \<Longrightarrow> is_tree en"
  by (auto simp: part_of_def is_tree_def)

lemma marker_tree: "holds_marker p en \<Longrightarrow> is_tree en \<and> \<not> emptied en"
  by (auto simp: holds_marker_def is_tree_def emptied_def)

section \<open>What each operation keeps\<close>

lemma drop_file_other: "n \<noteq> name \<Longrightarrow> map_of (drop_file name f es) n = map_of es n"
  by (auto simp: drop_file_def split: option.split node.split)

lemma drop_file_ok: "map_ok es \<Longrightarrow> map_ok (drop_file name f es)"
  by (auto simp: drop_file_def split: option.split node.split)

lemma drop_file_same:
  "map_of (drop_file name f es) name =
     (case map_of es name of
        Some en \<Rightarrow> Some (case en_node en of Tree ds files \<Rightarrow> en\<lparr>en_node := Tree ds (map_del f files)\<rparr> | NotDir c \<Rightarrow> en)
      | None \<Rightarrow> None)"
  by (auto simp: drop_file_def split: option.split node.split)

lemma put_file_other: "n \<noteq> name \<Longrightarrow> map_of (put_file name f c es) n = map_of es n"
  by (auto simp: put_file_def split: option.split node.split)

lemma put_file_ok: "map_ok es \<Longrightarrow> map_ok (put_file name f c es)"
  by (auto simp: put_file_def split: option.split node.split)

lemma put_file_tree:
  assumes "map_of es name = Some en" "en_node en = Tree ds files"
  shows "\<exists>en' ds'. map_of (put_file name f c es) name = Some en' \<and> en_node en' = Tree ds' (map_put f c files)"
  using assms by (auto simp: put_file_def)

lemma triple_remove_all:
  assumes "\<And>es f. P es \<Longrightarrow> P (drop_file name f es)" "\<And>es. P es \<Longrightarrow> Q () (map_del name es)"
    "\<And>es. P es \<Longrightarrow> E es" "\<And>es. P es \<Longrightarrow> S es"
  shows "triple P (remove_all name) Q E S"
proof -
  have files: "triple P (remove_files name fs good) (\<lambda>_. P) E S" for fs good
  proof (induction fs arbitrary: good)
    case (Cons f fs)
    have step: "triple P (if ok then change_entries (drop_file name f) else returned ()) (\<lambda>_. P) E S" for ok
      using assms(1) by (simp add: triple_change triple_returned)
    show ?case
      unfolding remove_files.simps
      by (rule triple_bind [OF triple_syscall triple_bind [OF step Cons.IH]]) (rule assms(4))
  qed (simp add: triple_returned)
  show ?thesis
    unfolding remove_all_def
  proof (rule triple_entries_bind)
    fix es assume "P es"
    have "triple (\<lambda>es'. es' = es \<and> P es) (case map_option en_node (map_of es name) of
        Some (Tree ds fs) \<Rightarrow> remove_files name (map fst fs) True | _ \<Rightarrow> returned True) (\<lambda>_. P) E S"
      by (auto intro!: triple_returned triple_pre [OF files] split: option.split node.split)
    note first = this
    show "triple (\<lambda>es'. es' = es \<and> P es)
        (and_then (case map_option en_node (map_of es name) of
            Some (Tree ds fs) \<Rightarrow> remove_files name (map fst fs) True | _ \<Rightarrow> returned True)
          (\<lambda>good. and_then syscall (\<lambda>ok.
            if good \<and> ok then change_entries (map_del name) else raised [ErrInstallIO ''removing'']))) Q E S"
    proof (rule triple_bind [OF first])
      fix good
      show "triple P (and_then syscall (\<lambda>ok.
          if good \<and> ok then change_entries (map_del name) else raised [ErrInstallIO ''removing''])) Q E S"
        by (rule triple_bind [OF triple_syscall]) (auto intro!: triple_change triple_raised assms)
    qed
  qed
qed

lemma triple_rename:
  assumes "\<And>es. P es \<Longrightarrow> E es" "\<And>es. P es \<Longrightarrow> S es"
    "\<And>es. P es \<Longrightarrow> map_of es old = None \<Longrightarrow> Q False es"
    "\<And>es en. P es \<Longrightarrow> map_of es old = Some en \<Longrightarrow> replaceable en (map_of es new) \<Longrightarrow>
       Q True (map_put new en (map_del old es))"
  shows "triple P (rename_entry old new) Q E S"
  unfolding rename_entry_def
proof (rule triple_bind [OF triple_must], goal_cases)
  case (3 x)
  show ?case
  proof (rule triple_entries_bind)
    fix es assume p: "P es"
    show "triple (\<lambda>es'. es' = es \<and> P es)
      (case map_of es old of
         None \<Rightarrow> returned False
       | Some en \<Rightarrow>
           if replaceable en (map_of es new)
           then and_then (change_entries (\<lambda>es. map_put new en (map_del old es))) (\<lambda>_. returned True)
           else raised [ErrInstallIO ''renaming'']) Q E S"
      using p assms
      by (auto split: option.split intro!: triple_returned triple_raised
          triple_bind [OF triple_change [where Q = "\<lambda>_ es'. Q True es'"]])
  qed
qed (use assms in auto)

lemma triple_make_temp:
  assumes "\<And>es. P es \<Longrightarrow> E es" "\<And>es. P es \<Longrightarrow> S es"
    "\<And>es name. P es \<Longrightarrow> temporaryName p name kind \<Longrightarrow> map_of es name = None \<Longrightarrow>
       Q name (map_put name \<lparr>en_node = Tree [] [], en_time = now\<rparr> es)"
  shows "triple P (make_temp pick now (pd_Base p) kind) Q E S"
  unfolding make_temp_def
proof (rule triple_bind [OF triple_must], goal_cases)
  case (3 x)
  show ?case
  proof (rule triple_entries_bind)
    fix es assume "P es"
    let ?pre = "temporary_prefix (pd_Base p) kind"
    let ?name = "?pre @ digits (unat (pick ?pre es))"
    have "unat (pick ?pre es) < 2 ^ 32" using unsigned_less [of "pick ?pre es"] by simp
    note made = temporaryName_made [OF this]
    show "triple (\<lambda>es'. es' = es \<and> P es)
        (let name = ?name in if map_of es name \<noteq> None then raised [ErrInstallIO ''creating'']
         else and_then (change_entries (map_put name \<lparr>en_node = Tree [] [], en_time = now\<rparr>)) (\<lambda>_. returned name)) Q E S"
    proof (cases "map_of es ?name = None")
      case True
      then have "Q ?name (map_put ?name \<lparr>en_node = Tree [] [], en_time = now\<rparr> es)"
        using assms(3) \<open>P es\<close> made by blast
      with True show ?thesis
        by (simp add: Let_def, intro triple_bind [OF triple_change [where Q = "\<lambda>_ es'. Q ?name es'"]] triple_returned) auto
    qed (auto simp: Let_def intro!: triple_raised assms(1))
  qed
qed (use assms in auto)

lemma triple_managed_dir:
  assumes "\<And>es. P es \<Longrightarrow> E es" "\<And>es. P es \<Longrightarrow> S es"
  shows "triple P (managed_dir (pd_MarkerFile p) name)
    (\<lambda>managed es. P es \<and> managed = (case map_of es name of None \<Rightarrow> True | Some en \<Rightarrow> holds_marker p en)) E S"
  unfolding managed_dir_def
proof (rule triple_bind [OF triple_must], goal_cases)
  case (3 x)
  show ?case
  proof (rule triple_entries_bind)
    fix es assume p: "P es"
    show "triple (\<lambda>es'. es' = es \<and> P es)
      (case map_of es name of None \<Rightarrow> returned True
       | Some en \<Rightarrow> case en_node en of NotDir _ \<Rightarrow> returned False
         | Tree ds files \<Rightarrow> if pd_MarkerFile p = [] then returned False
             else and_then (must ''reading marker'') (\<lambda>_. returned (case map_of files (pd_MarkerFile p) of
               None \<Rightarrow> False | Some c \<Rightarrow> contains c managedMarker)))
      (\<lambda>managed es. P es \<and> managed = (case map_of es name of None \<Rightarrow> True | Some en \<Rightarrow> holds_marker p en)) E S"
      using p assms
      by (auto split: option.split node.split simp: holds_marker_def intro!: triple_returned triple_must_bind)
  qed
qed (use assms in auto)

lemma triple_ensureManaged:
  assumes "\<And>es. P es \<Longrightarrow> E es" "\<And>es. P es \<Longrightarrow> S es"
  shows "triple P (ensureManaged (pd_MarkerFile p) name False)
    (\<lambda>_ es. P es \<and> (case map_of es name of None \<Rightarrow> True | Some en \<Rightarrow> holds_marker p en)) E S"
  unfolding ensureManaged_def
  by (rule triple_bind [OF triple_managed_dir]) (auto intro!: triple_returned triple_raised assms)

section \<open>The phases of a replacement\<close>

text \<open>
  With the plugin \<open>t\<close> there was, if any: a staged directory is filled; the plugin is moved aside to
  a backup; the staged directory is in its place.
\<close>

definition old_ok :: "plugin \<Rightarrow> entry go_map \<Rightarrow> entry option \<Rightarrow> bool" where
  "old_ok p es0 t \<longleftrightarrow>
     (case t of
        Some en \<Rightarrow> acceptable p es0 en \<and> holds_marker p en
      | None \<Rightarrow> map_of es0 (pd_Base p) = None)"

definition only_temps :: "plugin \<Rightarrow> string set \<Rightarrow> entry go_map \<Rightarrow> bool" where
  "only_temps p names es \<longleftrightarrow> (\<forall>n. temporary p n \<longrightarrow> n \<notin> names \<longrightarrow> map_of es n = None)"

definition staging :: "plugin \<Rightarrow> entry go_map \<Rightarrow> entry option \<Rightarrow> string \<Rightarrow> entry go_map \<Rightarrow> bool" where
  "staging p es0 t s es \<longleftrightarrow>
     beside_kept p es0 es \<and> map_of es (pd_Base p) = t \<and> stage_name p s \<and> only_temps p {s} es"

definition filled :: "string \<Rightarrow> (string \<Rightarrow> string option) \<Rightarrow> entry go_map \<Rightarrow> bool" where
  "filled s m es \<longleftrightarrow> (\<exists>en ds files. map_of es s = Some en \<and> en_node en = Tree ds files \<and> map_of files = m)"

definition moved_aside :: "plugin \<Rightarrow> entry go_map \<Rightarrow> entry option \<Rightarrow> string \<Rightarrow> string \<Rightarrow> entry go_map \<Rightarrow> bool" where
  "moved_aside p es0 t s b es \<longleftrightarrow>
     beside_kept p es0 es \<and> map_of es (pd_Base p) = None \<and> stage_name p s \<and> backup_name p b \<and> map_of es b = t
     \<and> filled s (map_of (pd_Files p)) es \<and> only_temps p {s, b} es"

definition placed :: "plugin \<Rightarrow> entry go_map \<Rightarrow> (entry \<Rightarrow> bool) \<Rightarrow> entry option \<Rightarrow> string \<Rightarrow> entry go_map \<Rightarrow> bool" where
  "placed p es0 now t b es \<longleftrightarrow>
     beside_kept p es0 es \<and> (\<exists>en. map_of es (pd_Base p) = Some en \<and> now en) \<and> backup_name p b \<and> map_of es b = t
     \<and> only_temps p {b} es"

definition taken_away :: "plugin \<Rightarrow> entry go_map \<Rightarrow> entry option \<Rightarrow> string \<Rightarrow> entry go_map \<Rightarrow> bool" where
  "taken_away p es0 t b es \<longleftrightarrow>
     beside_kept p es0 es \<and> map_of es (pd_Base p) = None \<and> backup_name p b \<and> map_of es b = t \<and> only_temps p {b} es"

definition settled :: "plugin \<Rightarrow> entry go_map \<Rightarrow> entry go_map \<Rightarrow> bool" where
  "settled p es0 es \<longleftrightarrow> beside_kept p es0 es \<and> clean p es \<and> (\<exists>en. map_of es (pd_Base p) = Some en \<and> complete p en)"

lemma backup_temporary [simp]: "backup_name p b \<Longrightarrow> temporary p b"
  by (simp add: temporary_def)

lemma stage_temporary [simp]: "stage_name p s \<Longrightarrow> temporary p s"
  by (simp add: temporary_def)

lemma base_temporary [simp]: "\<not> temporary p (pd_Base p)"
  by (simp add: temporary_def base_not_temporary)

lemma temporary_not_base [simp]: "temporary p n \<Longrightarrow> n \<noteq> pd_Base p" "temporary p n \<Longrightarrow> pd_Base p \<noteq> n"
  by auto

lemma stage_backup_differ [simp]: "stage_name p s \<Longrightarrow> backup_name p b \<Longrightarrow> s \<noteq> b"
  "stage_name p s \<Longrightarrow> backup_name p b \<Longrightarrow> b \<noteq> s"
  using stage_not_backup by blast+

text \<open>Changes to one temporary entry, or to the plugin.\<close>

lemma beside_kept_change:
  assumes "beside_kept p es0 es" "temporary p n \<or> n = pd_Base p" "map_ok es'"
    "\<And>m. m \<noteq> n \<Longrightarrow> map_of es' m = map_of es m"
    "\<And>en. temporary p n \<Longrightarrow> map_of es' n = Some en \<Longrightarrow> is_tree en"
  shows "beside_kept p es0 es'"
  unfolding beside_kept_def
proof (intro conjI allI impI)
  show "map_of es' m = map_of es0 m" if "m \<noteq> pd_Base p" "\<not> temporary p m" for m
    using that assms(1,2) assms(4) [of m] by (cases "m = n") (auto simp: beside_kept_def)
  show "is_tree en" if "temporary p m" "map_of es' m = Some en" for m en
    using that assms(1,5) assms(4) [of m] by (cases "m = n") (auto simp: beside_kept_def)
qed (rule assms(3))

lemma beside_kept_del: "beside_kept p es0 es \<Longrightarrow> temporary p n \<or> n = pd_Base p \<Longrightarrow> beside_kept p es0 (map_del n es)"
  by (rule beside_kept_change) (auto simp: beside_kept_def)

lemma beside_kept_put:
  "beside_kept p es0 es \<Longrightarrow> temporary p n \<and> is_tree en \<or> n = pd_Base p \<Longrightarrow> beside_kept p es0 (map_put n en es)"
  by (rule beside_kept_change [of p es0 es n]) (auto simp: beside_kept_def)

lemma drop_file_tree: "map_of (drop_file n f es) n = Some en \<Longrightarrow> \<exists>en'. map_of es n = Some en' \<and> is_tree en' = is_tree en"
  by (auto simp: drop_file_same is_tree_def split: option.splits node.splits)

lemma beside_kept_drop: "beside_kept p es0 es \<Longrightarrow> temporary p n \<or> n = pd_Base p \<Longrightarrow> beside_kept p es0 (drop_file n f es)"
  by (rule beside_kept_change [of p es0 es n])
    (auto simp: beside_kept_def drop_file_other drop_file_ok dest!: drop_file_tree)

lemma put_file_is_tree:
  "map_of (put_file n f c es) n = Some en \<Longrightarrow> \<exists>en'. map_of es n = Some en' \<and> is_tree en' = is_tree en"
  by (auto simp: put_file_def is_tree_def split: option.splits node.splits)

lemma beside_kept_put_file: "beside_kept p es0 es \<Longrightarrow> temporary p n \<Longrightarrow> beside_kept p es0 (put_file n f c es)"
  by (rule beside_kept_change [of p es0 es n])
    (auto simp: beside_kept_def put_file_other put_file_ok dest!: put_file_is_tree)

lemma only_temps_put [simp]: "n \<in> names \<or> \<not> temporary p n \<Longrightarrow> only_temps p names es \<Longrightarrow> only_temps p names (map_put n en es)"
  by (auto simp: only_temps_def)

lemma only_temps_del: "only_temps p names es \<Longrightarrow> only_temps p (names - {n}) (map_del n es)"
  by (auto simp: only_temps_def)

lemma only_temps_mono: "only_temps p names es \<Longrightarrow> names \<subseteq> names' \<Longrightarrow> only_temps p names' es"
  by (auto simp: only_temps_def)

lemma only_temps_drop [simp]: "n \<in> names \<or> \<not> temporary p n \<Longrightarrow> only_temps p names es \<Longrightarrow> only_temps p names (drop_file n f es)"
  unfolding only_temps_def by (metis drop_file_other)

lemma only_temps_put_file [simp]: "n \<in> names \<Longrightarrow> only_temps p names es \<Longrightarrow> only_temps p names (put_file n f c es)"
  unfolding only_temps_def by (metis put_file_other)

lemma clean_only: "clean p es \<longleftrightarrow> only_temps p {} es"
  by (simp add: clean_def only_temps_def)

lemma no_backup_only: "only_temps p names es \<Longrightarrow> (\<And>n. n \<in> names \<Longrightarrow> \<not> backup_name p n) \<Longrightarrow> no_backup p es"
  unfolding only_temps_def no_backup_def by (metis backup_temporary option.distinct(1))

lemma only_backup_only: "only_temps p names es \<Longrightarrow> (\<And>n. n \<in> names \<Longrightarrow> n \<noteq> b \<Longrightarrow> \<not> backup_name p n) \<Longrightarrow> only_backup p b es"
  unfolding only_temps_def only_backup_def by (metis backup_temporary option.distinct(1))

text \<open>Every phase is safe.\<close>

lemma safe_present: "beside_kept p es0 es \<Longrightarrow> map_of es (pd_Base p) = Some en \<Longrightarrow> acceptable p es0 en \<Longrightarrow> safe p es0 es"
  by (simp add: safe_def kept_def)

lemma safe_staging:
  assumes "old_ok p es0 t" "staging p es0 t s es"
  shows "safe p es0 es"
proof -
  have "no_backup p es"
    using assms(2) stage_not_backup by (intro no_backup_only [of p "{s}"]) (auto simp: staging_def)
  then show ?thesis using assms by (auto simp: safe_def kept_def staging_def old_ok_def split: option.splits)
qed

lemma safe_away:
  assumes "old_ok p es0 t" "beside_kept p es0 es" "map_of es (pd_Base p) = None" "backup_name p b" "map_of es b = t"
    "only_backup p b es"
  shows "safe p es0 es"
proof (cases t)
  case None
  then have "no_backup p es"
    using assms(5,6) unfolding no_backup_def only_backup_def by (metis option.distinct(1))
  then show ?thesis using assms None by (simp add: safe_def kept_def old_ok_def)
next
  case (Some en)
  then have "acceptable p es0 en" "\<not> emptied en" using assms(1) marker_tree by (auto simp: old_ok_def)
  then show ?thesis using assms Some by (auto simp: safe_def kept_def)
qed

lemma safe_moved_aside: "old_ok p es0 t \<Longrightarrow> moved_aside p es0 t s b es \<Longrightarrow> safe p es0 es"
  by (rule safe_away [of p es0 t es b])
    (auto simp: moved_aside_def stage_not_backup elim!: only_backup_only)

lemma safe_taken_away: "old_ok p es0 t \<Longrightarrow> taken_away p es0 t b es \<Longrightarrow> safe p es0 es"
  by (rule safe_away [of p es0 t es b]) (auto simp: taken_away_def elim!: only_backup_only)

lemma safe_placed: "(\<And>en. now en \<Longrightarrow> part_of p en) \<Longrightarrow> placed p es0 now t b es \<Longrightarrow> safe p es0 es"
  by (auto simp: placed_def acceptable_def intro: safe_present)

lemma safe_settled: "settled p es0 es \<Longrightarrow> safe p es0 es"
  by (auto simp: settled_def acceptable_def complete_part intro: safe_present)

text \<open>What is staged can be changed and removed.\<close>

lemma safe_stage_change:
  assumes "safe p es0 es" "stage_name p s" "map_ok es'" "\<And>m. m \<noteq> s \<Longrightarrow> map_of es' m = map_of es m"
    "\<And>en. map_of es' s = Some en \<Longrightarrow> is_tree en"
  shows "safe p es0 es'"
proof -
  have "s \<noteq> pd_Base p" using assms(2) by simp
  then have base: "map_of es' (pd_Base p) = map_of es (pd_Base p)" using assms(4) by metis
  have backup: "map_of es' b = map_of es b" if "backup_name p b" for b
    using assms(4) [of b] stage_not_backup [OF assms(2)] that by metis
  have "beside_kept p es0 es'"
  proof (rule beside_kept_change [of p es0 es s])
    show "beside_kept p es0 es" "temporary p s \<or> s = pd_Base p" using assms(1,2) by (simp_all add: safe_def)
  qed (use assms in auto)
  moreover have "no_backup p es' = no_backup p es" "only_backup p b es' = only_backup p b es" for b
    using backup by (simp_all add: no_backup_def only_backup_def cong: imp_cong)
  ultimately show ?thesis
    using assms(1) base backup unfolding safe_def kept_def by (auto split: option.splits)
qed

lemma safe_drop_stage: "safe p es0 es \<Longrightarrow> stage_name p s \<Longrightarrow> safe p es0 (drop_file s f es)"
  by (rule safe_stage_change [of p es0 es s])
    (auto simp: safe_def beside_kept_def drop_file_other drop_file_ok dest!: drop_file_tree dest: stage_temporary)

lemma safe_del_stage: "safe p es0 es \<Longrightarrow> stage_name p s \<Longrightarrow> safe p es0 (map_del s es)"
  by (rule safe_stage_change [of p es0 es s]) (auto simp: safe_def beside_kept_def)

lemma keeps_remove_stage: "stage_name p s \<Longrightarrow> keeps (safe p es0) (remove_all s)"
  by (rule triple_remove_all) (auto intro: safe_drop_stage safe_del_stage)

section \<open>The operations\<close>

lemma filled_put: "filled s m es \<Longrightarrow> filled s (m(f \<mapsto> c)) (put_file s f c es)"
proof -
  assume "filled s m es"
  then obtain en ds files where "map_of es s = Some en" "en_node en = Tree ds files" "map_of files = m"
    by (auto simp: filled_def)
  then show "filled s (m(f \<mapsto> c)) (put_file s f c es)"
    using put_file_tree [of es s en ds files f c] unfolding filled_def by (metis map_of_put)
qed

lemma staging_put: "staging p es0 t s es \<Longrightarrow> staging p es0 t s (put_file s f c es)"
  by (auto simp: staging_def beside_kept_put_file put_file_other)

lemma triple_write_file:
  "triple (\<lambda>es. staging p es0 t s es \<and> filled s m es) (writeStagedPluginFile s f c)
     (\<lambda>_ es. staging p es0 t s es \<and> filled s (m(f \<mapsto> c)) es) (staging p es0 t s) (staging p es0 t s)"
proof -
  let ?P = "\<lambda>m es. staging p es0 t s es \<and> filled s m es"
  have put: "triple (?P m) (change_entries (put_file s f c)) (\<lambda>_. ?P (m(f \<mapsto> c))) (staging p es0 t s) (staging p es0 t s)" for m c
    by (rule triple_change) (simp add: filled_put staging_put)
  have "(m(f \<mapsto> []))(f \<mapsto> c) = m(f \<mapsto> c)" by simp
  with put [of "m(f \<mapsto> [])" c] have over: "triple (?P (m(f \<mapsto> []))) (change_entries (put_file s f c)) (\<lambda>_. ?P (m(f \<mapsto> c)))
      (staging p es0 t s) (staging p es0 t s)" by simp
  show ?thesis
    unfolding writeStagedPluginFile_def
    by (rule triple_must_bind, simp, simp, rule triple_must_bind, simp, simp, rule triple_bind [OF put],
        rule triple_must_bind, simp, simp, rule triple_bind [OF over], rule triple_must_bind, simp, simp,
        rule triple_must) simp_all
qed

lemma triple_write_files:
  "triple (\<lambda>es. staging p es0 t s es \<and> filled s m es) (write_files s fs)
     (\<lambda>_ es. staging p es0 t s es \<and> filled s (m ++ map_of (rev fs)) es) (staging p es0 t s) (staging p es0 t s)"
proof (induction fs arbitrary: m)
  case Nil
  show ?case by (auto intro!: triple_must)
next
  case (Cons fc fs)
  obtain f c where fc: "fc = (f, c)" by (rule prod.exhaust)
  have eq: "m ++ map_of (rev ((f, c) # fs)) = m(f \<mapsto> c) ++ map_of (rev fs)" by simp
  show ?case unfolding fc write_files.simps eq by (rule triple_bind [OF triple_write_file Cons.IH])
qed

lemma map_of_rev_files: "map_ok m \<Longrightarrow> map_of (rev m) = map_of m"
  by (rule map_of_inject_set [THEN iffD2]) (simp_all add: map_ok_def rev_map [symmetric])

text \<open>Before a replacement: no temporary entries, and the plugin that was there is managed.\<close>

definition made_ready :: "plugin \<Rightarrow> entry go_map \<Rightarrow> entry option \<Rightarrow> entry go_map \<Rightarrow> bool" where
  "made_ready p es0 t es \<longleftrightarrow> beside_kept p es0 es \<and> map_of es (pd_Base p) = t \<and> clean p es"

lemma safe_ready: "old_ok p es0 t \<Longrightarrow> made_ready p es0 t es \<Longrightarrow> safe p es0 es"
  by (auto simp: made_ready_def safe_def kept_def old_ok_def clean_def no_backup_def split: option.splits)

lemma triple_stage:
  assumes "old_ok p es0 t" "map_ok (pd_Files p)"
  shows "triple (made_ready p es0 t) (stage_plugin pe p)
    (\<lambda>s es. staging p es0 t s es \<and> filled s (map_of (pd_Files p)) es) (safe p es0) (safe p es0)"
proof -
  let ?begun = "\<lambda>s es. staging p es0 t s es \<and> filled s Map.empty es"
  let ?done = "\<lambda>s es. staging p es0 t s es \<and> filled s (map_of (pd_Files p)) es"
  have temp: "triple (made_ready p es0 t) (make_temp (pe_pick pe) (pe_now pe) (pd_Base p) ''stage'') ?begun
      (safe p es0) (safe p es0)"
  proof (rule triple_make_temp)
    fix es name assume "made_ready p es0 t es" "stage_name p name" "map_of es name = None"
    then show "?begun name (map_put name \<lparr>en_node = Tree [] [], en_time = pe_now pe\<rparr> es)"
      using only_temps_mono [of p "{}" es "{name}"]
      by (auto simp: staging_def made_ready_def filled_def is_tree_def clean_only intro!: beside_kept_put)
  qed (use safe_ready [OF assms(1)] in auto)
  have eq: "Map.empty ++ map_of (rev (pd_Files p)) = map_of (pd_Files p)"
    by (simp add: map_of_rev_files [OF assms(2)])
  have writing: "triple (?begun s) (attempt (write_files s (pd_Files p)))
      (\<lambda>r es. case r of Inl _ \<Rightarrow> staging p es0 t s es | Inr _ \<Rightarrow> ?done s es) (safe p es0) (safe p es0)" for s
    by (rule triple_weaken [OF triple_attempt [OF triple_write_files [where m = Map.empty and fs = "pd_Files p", unfolded eq]]])
      (auto intro: safe_staging [OF assms(1)])
  have undo: "triple (staging p es0 t s) (attempt (remove_all s)) (\<lambda>_. safe p es0) (safe p es0) (safe p es0)" for s
  proof (cases "stage_name p s")
    case True
    show ?thesis
      by (rule triple_pre [OF keeps_attempt [OF keeps_remove_stage [OF True]]]) (rule safe_staging [OF assms(1)])
  qed (simp add: triple_def staging_def)
  have final: "triple (\<lambda>es. case r of Inl _ \<Rightarrow> staging p es0 t s es | Inr _ \<Rightarrow> ?done s es)
      (case r of Inr _ \<Rightarrow> returned s | Inl es \<Rightarrow> and_then (attempt (remove_all s)) (\<lambda>_. raised es))
      ?done (safe p es0) (safe p es0)" for r :: "install_error list + unit" and s
  proof (cases r)
    case (Inl errs)
    show ?thesis unfolding Inl by simp (rule triple_bind [OF undo], rule triple_raised)
  qed (auto intro: triple_returned)
  show ?thesis
    unfolding stage_plugin_def
    by (rule triple_must_bind [OF _ _ triple_bind [OF temp triple_bind [OF writing final]]])
      (use safe_ready [OF assms(1)] in auto)
qed

text \<open>Restoring a backup gives back what it holds, wherever it stops.\<close>

definition restorable :: "plugin \<Rightarrow> entry go_map \<Rightarrow> entry option \<Rightarrow> string \<Rightarrow> entry go_map \<Rightarrow> bool" where
  "restorable p es0 t b es \<longleftrightarrow>
     beside_kept p es0 es \<and> backup_name p b \<and> map_of es b = t \<and> only_backup p b es
     \<and> (case map_of es (pd_Base p) of None \<Rightarrow> True | Some en \<Rightarrow> part_of p en)"

lemma safe_restorable: "old_ok p es0 t \<Longrightarrow> restorable p es0 t b es \<Longrightarrow> safe p es0 es"
  by (auto simp: restorable_def acceptable_def split: option.splits intro: safe_away safe_present)

lemma restorable_moved: "moved_aside p es0 t s b es \<Longrightarrow> restorable p es0 t b es"
  by (auto simp: moved_aside_def restorable_def stage_not_backup elim!: only_backup_only)

lemma restorable_taken: "taken_away p es0 t b es \<Longrightarrow> restorable p es0 t b es"
  by (auto simp: taken_away_def restorable_def elim!: only_backup_only)

lemma restorable_placed: "placed p es0 (part_of p) t b es \<Longrightarrow> restorable p es0 t b es"
  by (auto simp: placed_def restorable_def elim!: only_backup_only)

lemma triple_restore:
  assumes "old_ok p es0 t" "\<And>es. P es \<Longrightarrow> restorable p es0 t b es"
  shows "triple P (restoreBackup p b (t \<noteq> None)) (\<lambda>_. safe p es0) (safe p es0) (safe p es0)"
proof (rule triple_pre [OF _ assms(2)])
  note safe = safe_restorable [OF assms(1)]
  show "triple (restorable p es0 t b) (restoreBackup p b (t \<noteq> None)) (\<lambda>_. safe p es0) (safe p es0) (safe p es0)"
  proof (cases t)
    case None
    then show ?thesis using safe by (auto simp: restoreBackup_def intro!: triple_returned)
  next
    case (Some old)
    have "triple (restorable p es0 t b) (rename_entry b (pd_Base p)) (\<lambda>_. safe p es0) (safe p es0) (safe p es0)"
    proof (rule triple_rename)
      fix es en assume r: "restorable p es0 t b es" and en: "map_of es b = Some en"
      then have "beside_kept p es0 (map_put (pd_Base p) en (map_del b es))"
        by (auto simp: restorable_def intro!: beside_kept_put beside_kept_del)
      then show "safe p es0 (map_put (pd_Base p) en (map_del b es))"
        using assms(1) r en Some by (intro safe_present [of p es0 _ en]) (auto simp: restorable_def old_ok_def)
    qed (use safe in auto)
    then show ?thesis
      unfolding restoreBackup_def using Some
      by simp (rule triple_bind, assumption, auto intro!: triple_returned triple_raised)
  qed
qed

lemma triple_rollback:
  assumes "old_ok p es0 t"
  shows "triple (placed p es0 (complete p) t b) (rollbackReplacement p b (t \<noteq> None)) (\<lambda>_. safe p es0) (safe p es0) (safe p es0)"
proof -
  have remove: "triple (placed p es0 (complete p) t b) (attempt (remove_all (pd_Base p))) (\<lambda>_. restorable p es0 t b)
      (safe p es0) (safe p es0)"
  proof (rule triple_weaken [OF triple_attempt [OF triple_remove_all
      [where P = "placed p es0 (part_of p) t b" and Q = "\<lambda>_. restorable p es0 t b"
        and E = "restorable p es0 t b" and S = "safe p es0"]]])
    fix es f assume pl: "placed p es0 (part_of p) t b es"
    have neq: "b \<noteq> pd_Base p" using pl by (auto simp: placed_def)
    obtain en ds files where en: "map_of es (pd_Base p) = Some en" "en_node en = Tree ds files"
      "\<forall>g c. map_of files g = Some c \<longrightarrow> map_of (pd_Files p) g = Some c"
      using pl by (auto simp: placed_def part_of_def)
    then have "part_of p (en\<lparr>en_node := Tree ds (map_del f files)\<rparr>)" by (auto simp: part_of_def)
    then show "placed p es0 (part_of p) t b (drop_file (pd_Base p) f es)"
      using pl en neq by (auto simp: placed_def beside_kept_drop drop_file_same drop_file_other)
  next
    fix es assume pl: "placed p es0 (part_of p) t b es"
    then have "taken_away p es0 t b (map_del (pd_Base p) es)"
      using only_temps_del [of p "{b}" es "pd_Base p"]
      by (auto simp: placed_def taken_away_def beside_kept_del elim: only_temps_mono)
    then show "restorable p es0 t b (map_del (pd_Base p) es)" by (rule restorable_taken)
  qed (auto simp: placed_def complete_part split: sum.splits
      intro!: safe_placed [of "part_of p"] restorable_placed)
  have rest: "triple (safe p es0)
      (and_then (case restored of Inl es \<Rightarrow> returned (Inl es) | Inr _ \<Rightarrow> attempt (must ''syncing'')) (\<lambda>synced.
        case (removed, synced) of
          (Inr _, Inr _) \<Rightarrow> returned ()
        | (Inl es, Inr _) \<Rightarrow> raised es
        | (Inr _, Inl es) \<Rightarrow> raised es
        | (Inl es, Inl es') \<Rightarrow> raised (es @ es'))) (\<lambda>_. safe p es0) (safe p es0) (safe p es0)"
    for restored removed :: "install_error list + unit"
    by (rule keeps_bind)
      (auto intro: keeps_returned keeps_raised keeps_attempt [OF keeps_must] split: sum.split)
  have restored: "triple (restorable p es0 t b) (attempt (restoreBackup p b (t \<noteq> None))) (\<lambda>_. safe p es0) (safe p es0) (safe p es0)"
    by (rule triple_weaken [OF triple_attempt [OF triple_restore [where P = "restorable p es0 t b" and b = b, OF assms]]]) (auto split: sum.splits)
  show ?thesis
    unfolding rollbackReplacement_def
    by (rule triple_bind [OF remove triple_bind [OF restored rest]])
qed

lemma triple_backup:
  assumes "old_ok p es0 t"
  shows "triple (\<lambda>es. staging p es0 t s es \<and> filled s (map_of (pd_Files p)) es) (backupCurrent pe p)
    (\<lambda>(b, existed) es. moved_aside p es0 t s b es \<and> existed = (t \<noteq> None)) (safe p es0) (safe p es0)"
proof -
  let ?full = "filled s (map_of (pd_Files p))"
  define front where "front = (\<lambda>b es. beside_kept p es0 es \<and> map_of es (pd_Base p) = t \<and> stage_name p s \<and> backup_name p b
    \<and> ?full es \<and> only_temps p {s, b} es \<and> (\<forall>en. map_of es b = Some en \<longrightarrow> emptied en))"
  define freed where "freed = (\<lambda>b es. front b es \<and> map_of es b = None)"
  have safe_front: "safe p es0 es" if "front b es" for b es
  proof (cases t)
    case None
    then have "no_backup p es" using that stage_not_backup
      unfolding front_def only_temps_def no_backup_def by (metis backup_temporary insertE singletonD option.distinct(1))
    then show ?thesis using that None assms(1) by (simp add: front_def safe_def kept_def old_ok_def)
  qed (use that assms(1) in \<open>auto simp: front_def old_ok_def intro: safe_present\<close>)
  have temp: "triple (\<lambda>es. staging p es0 t s es \<and> ?full es)
      (make_temp (pe_pick pe) (pe_now pe) (pd_Base p) ''backup'') front (safe p es0) (safe p es0)"
  proof (rule triple_make_temp)
    fix es name assume st: "staging p es0 t s es \<and> ?full es" and name: "backup_name p name" "map_of es name = None"
    then have "name \<noteq> s" using stage_not_backup by (auto simp: staging_def)
    then show "front name (map_put name \<lparr>en_node = Tree [] [], en_time = pe_now pe\<rparr> es)"
      using st name only_temps_mono [of p "{s}" es "{s, name}"]
      by (auto simp: front_def staging_def filled_def is_tree_def emptied_def intro!: beside_kept_put)
  qed (use safe_staging [OF assms(1)] in auto)
  have free: "triple (front b) (change_entries (map_del b)) (\<lambda>_. freed b) (safe p es0) (safe p es0)" for b
  proof (rule triple_change)
    fix es assume "front b es"
    moreover from this have "s \<noteq> b" using stage_not_backup by (auto simp: front_def)
    ultimately show "freed b (map_del b es)"
      using only_temps_del [of p "{s, b}" es b] only_temps_mono [of p "{s, b} - {b}" "map_del b es" "{s, b}"]
      by (auto simp: front_def freed_def filled_def beside_kept_del)
  qed
  have rename: "triple (freed b) (rename_entry (pd_Base p) b)
      (\<lambda>existed es. moved_aside p es0 t s b es \<and> existed = (t \<noteq> None)) (safe p es0) (safe p es0)" for b
  proof (rule triple_rename)
    show "safe p es0 es" if "freed b es" for es using that safe_front by (auto simp: freed_def)
    then show "safe p es0 es" if "freed b es" for es using that .
    fix es assume f: "freed b es"
    show "moved_aside p es0 t s b es \<and> False = (t \<noteq> None)" if "map_of es (pd_Base p) = None"
      using f that by (auto simp: freed_def front_def moved_aside_def)
    fix en assume en: "map_of es (pd_Base p) = Some en"
    have t: "t = Some en" using f en by (auto simp: freed_def front_def)
    then have "is_tree en" using assms(1) marker_tree by (auto simp: old_ok_def)
    then have "beside_kept p es0 (map_put b en (map_del (pd_Base p) es))"
      using f by (intro beside_kept_put beside_kept_del) (auto simp: freed_def front_def)
    moreover have "only_temps p {s, b} (map_put b en (map_del (pd_Base p) es))"
      using f only_temps_del [of p "{s, b}" es "pd_Base p"]
      by (auto simp: freed_def front_def elim!: only_temps_mono)
    ultimately show "moved_aside p es0 t s b (map_put b en (map_del (pd_Base p) es)) \<and> True = (t \<noteq> None)"
      using f unfolding t by (auto simp: freed_def front_def moved_aside_def filled_def)
  qed
  have moved: "triple (\<lambda>es. moved_aside p es0 t s b es \<and> existed = (t \<noteq> None))
      (if \<not> existed then returned (b, False)
       else and_then (attempt (must ''syncing'')) (\<lambda>r.
         case r of Inr _ \<Rightarrow> returned (b, True) | Inl es \<Rightarrow> joined es (restoreBackup p b True)))
      (\<lambda>(b, existed) es. moved_aside p es0 t s b es \<and> existed = (t \<noteq> None)) (safe p es0) (safe p es0)" for b existed
  proof (cases "t = None \<or> \<not> existed")
    case True
    then show ?thesis by (auto simp: triple_def returned_def)
  next
    case False
    have safe: "moved_aside p es0 t s b es \<Longrightarrow> safe p es0 es" for es by (rule safe_moved_aside [OF assms(1)])
    have sync: "triple (moved_aside p es0 t s b) (attempt (must ''syncing'')) (\<lambda>_. moved_aside p es0 t s b)
        (safe p es0) (safe p es0)"
      by (rule triple_weaken [OF keeps_attempt [OF keeps_must [of "moved_aside p es0 t s b"]]]) (auto intro: safe)
    have restore: "triple (moved_aside p es0 t s b) (joined errs (restoreBackup p b True)) Q (safe p es0) (safe p es0)"
      for errs and Q :: "string \<times> bool \<Rightarrow> entry go_map \<Rightarrow> bool"
      using triple_joined [OF triple_restore [where P = "moved_aside p es0 t s b" and b = b, OF assms(1)]]
        restorable_moved False by simp
    have "triple (moved_aside p es0 t s b)
        (and_then (attempt (must ''syncing'')) (\<lambda>r.
           case r of Inr _ \<Rightarrow> returned (b, True) | Inl es \<Rightarrow> joined es (restoreBackup p b True)))
        (\<lambda>(b, existed) es. moved_aside p es0 t s b es \<and> existed = (t \<noteq> None)) (safe p es0) (safe p es0)"
    proof (rule triple_bind [OF sync])
      fix r :: "install_error list + unit"
      show "triple (moved_aside p es0 t s b)
          (case r of Inr _ \<Rightarrow> returned (b, True) | Inl es \<Rightarrow> joined es (restoreBackup p b True))
          (\<lambda>(b, existed) es. moved_aside p es0 t s b es \<and> existed = (t \<noteq> None)) (safe p es0) (safe p es0)"
      proof (cases r)
        case (Inl errs)
        show ?thesis unfolding Inl sum.case by (rule restore)
      next
        case (Inr u)
        show ?thesis unfolding Inr sum.case by (rule triple_returned) (use False in simp)
      qed
    qed
    then show ?thesis using False by (simp add: triple_pre)
  qed
  show ?thesis
    unfolding backupCurrent_def
    by (rule triple_bind [OF temp triple_must_bind [OF _ _ triple_bind [OF free triple_bind [OF rename moved]]]])
      (auto intro: safe_front)
qed

lemma triple_replace:
  assumes "old_ok p es0 t"
  shows "triple (\<lambda>es. staging p es0 t s es \<and> filled s (map_of (pd_Files p)) es) (replace_plugin pe p s)
    (\<lambda>(b, existed) es. placed p es0 (complete p) t b es \<and> existed = (t \<noteq> None)) (safe p es0) (safe p es0)"
proof -
  let ?Q = "\<lambda>(b, existed) es. placed p es0 (complete p) t b es \<and> existed = (t \<noteq> None)"
  have moved: "moved_aside p es0 t s b es \<Longrightarrow> safe p es0 es" for b es by (rule safe_moved_aside [OF assms(1)])
  have finished: "placed p es0 (complete p) t b es \<Longrightarrow> safe p es0 es" for b es
    by (rule safe_placed [of "complete p"]) (rule complete_part)
  have restore: "triple (moved_aside p es0 t s b) (joined errs (restoreBackup p b (t \<noteq> None))) ?Q (safe p es0) (safe p es0)"
    for errs b
    by (rule triple_joined, rule triple_restore [OF assms(1)]) (rule restorable_moved)
  have into: "triple (moved_aside p es0 t s b) (attempt (rename_entry s (pd_Base p)))
      (\<lambda>r es. case r of Inr True \<Rightarrow> placed p es0 (complete p) t b es | _ \<Rightarrow> moved_aside p es0 t s b es)
      (safe p es0) (safe p es0)" for b
  proof (rule triple_weaken [OF triple_attempt [OF triple_rename [where P = "moved_aside p es0 t s b"
      and E = "moved_aside p es0 t s b" and S = "moved_aside p es0 t s b"
      and Q = "\<lambda>there es. there \<and> placed p es0 (complete p) t b es"]]])
    fix es assume m: "moved_aside p es0 t s b es"
    show "False \<and> placed p es0 (complete p) t b es" if "map_of es s = None"
      using m that by (auto simp: moved_aside_def filled_def)
    fix en assume en: "map_of es s = Some en"
    then have "complete p en" using m by (auto simp: moved_aside_def filled_def complete_def)
    moreover have "beside_kept p es0 (map_put (pd_Base p) en (map_del s es))"
      using m by (intro beside_kept_put beside_kept_del) (auto simp: moved_aside_def)
    moreover have "only_temps p {b} (map_put (pd_Base p) en (map_del s es))"
      using m only_temps_del [of p "{s, b}" es s] by (auto simp: moved_aside_def elim!: only_temps_mono)
    moreover have "s \<noteq> b" using m stage_not_backup by (auto simp: moved_aside_def)
    ultimately show "True \<and> placed p es0 (complete p) t b (map_put (pd_Base p) en (map_del s es))"
      using m by (auto simp: placed_def moved_aside_def)
  qed (auto intro: moved split: sum.splits bool.splits)
  have sync: "triple (placed p es0 (complete p) t b) (attempt (must ''syncing'')) (\<lambda>_. placed p es0 (complete p) t b)
      (safe p es0) (safe p es0)" for b
    by (rule triple_weaken [OF keeps_attempt [OF keeps_must [of "placed p es0 (complete p) t b"]]]) (auto intro: finished)
  have synced: "triple (placed p es0 (complete p) t b)
      (case s' of Inl es \<Rightarrow> joined es (rollbackReplacement p b (t \<noteq> None)) | Inr _ \<Rightarrow> returned (b, t \<noteq> None))
      ?Q (safe p es0) (safe p es0)" for b and s' :: "install_error list + unit"
  proof (cases s')
    case (Inl errs)
    show ?thesis unfolding Inl sum.case by (rule triple_joined [OF triple_rollback [OF assms(1)]])
  qed (simp add: triple_returned)
  have step: "triple (\<lambda>es. case r of Inr True \<Rightarrow> placed p es0 (complete p) t b es | _ \<Rightarrow> moved_aside p es0 t s b es)
      (case r of
         Inl es \<Rightarrow> joined es (restoreBackup p b (t \<noteq> None))
       | Inr there \<Rightarrow>
           if \<not> there then joined [ErrInstallIO ''renaming''] (restoreBackup p b (t \<noteq> None))
           else and_then (attempt (must ''syncing'')) (\<lambda>s.
             case s of
               Inl es \<Rightarrow> joined es (rollbackReplacement p b (t \<noteq> None))
             | Inr _ \<Rightarrow> returned (b, t \<noteq> None))) ?Q (safe p es0) (safe p es0)"
    for r :: "install_error list + bool" and b
  proof (cases r)
    case (Inl errs)
    show ?thesis unfolding Inl sum.case by (rule restore)
  next
    case (Inr there)
    show ?thesis
    proof (cases there)
      case True
      then have there: "there = True" by simp
      show ?thesis unfolding Inr sum.case there bool.case not_True_eq_False if_False
        by (rule triple_bind [OF sync synced])
    next
      case False
      show ?thesis unfolding Inr sum.case using False by simp (rule restore [simplified])
    qed
  qed
  show ?thesis
    unfolding replace_plugin_def
  proof (rule triple_bind [OF triple_backup [OF assms]])
    fix be :: "string \<times> bool"
    obtain b existed where be: "be = (b, existed)" by (rule prod.exhaust)
    show "triple (case be of (b, existed) \<Rightarrow> \<lambda>es. moved_aside p es0 t s b es \<and> existed = (t \<noteq> None))
      (case be of (backup, backupExists) \<Rightarrow>
         and_then (attempt (rename_entry s (pd_Base p))) (\<lambda>r.
           case r of
             Inl es \<Rightarrow> joined es (restoreBackup p backup backupExists)
           | Inr there \<Rightarrow>
               if \<not> there then joined [ErrInstallIO ''renaming''] (restoreBackup p backup backupExists)
               else and_then (attempt (must ''syncing'')) (\<lambda>s.
                 case s of
                   Inl es \<Rightarrow> joined es (rollbackReplacement p backup backupExists)
                 | Inr _ \<Rightarrow> returned (backup, backupExists)))) ?Q (safe p es0) (safe p es0)"
    proof (cases "existed = (t \<noteq> None)")
      case True
      show ?thesis unfolding be prod.case True by (rule triple_pre [OF triple_bind [OF into step]]) simp
    next
      case False
      show ?thesis unfolding be prod.case by (rule triple_never) (use False in simp)
    qed
  qed
qed

lemma placed_drop_stage: "placed p es0 now t b es \<Longrightarrow> stage_name p s \<Longrightarrow> placed p es0 now t b (drop_file s f es)"
proof -
  assume pl: "placed p es0 now t b es" and s: "stage_name p s"
  then have "map_of es s = None" using stage_not_backup [OF s] by (auto simp: placed_def only_temps_def)
  then have "drop_file s f es = es" by (simp add: drop_file_def)
  then show ?thesis using pl by simp
qed

lemma placed_del_stage: "placed p es0 now t b es \<Longrightarrow> stage_name p s \<Longrightarrow> placed p es0 now t b (map_del s es)"
  using only_temps_del [of p "{b}" es s] stage_not_backup [of p s]
  by (auto simp: placed_def beside_kept_del elim: only_temps_mono)

lemma triple_installStaged:
  assumes "old_ok p es0 t" "map_ok (pd_Files p)"
  shows "triple (made_ready p es0 t) (installStaged pe p)
    (\<lambda>(b, existed) es. placed p es0 (complete p) t b es \<and> existed = (t \<noteq> None)) (safe p es0) (safe p es0)"
proof -
  let ?Q = "\<lambda>(b, existed) es. placed p es0 (complete p) t b es \<and> existed = (t \<noteq> None)"
  let ?R = "\<lambda>s r es. stage_name p s \<and> (case r of Inl _ \<Rightarrow> safe p es0 es | Inr be \<Rightarrow> ?Q be es)"
  have finished: "placed p es0 (complete p) t b es \<Longrightarrow> safe p es0 es" for b es
    by (rule safe_placed [of "complete p"]) (rule complete_part)
  have tried: "triple (\<lambda>es. staging p es0 t s es \<and> filled s (map_of (pd_Files p)) es)
      (attempt (replace_plugin pe p s)) (?R s) (safe p es0) (safe p es0)" for s
  proof (cases "stage_name p s")
    case True
    show ?thesis
      by (rule triple_weaken [OF triple_attempt [OF triple_replace [OF assms(1)]]]) (auto simp: True)
  qed (simp add: triple_def staging_def)
  have remove: "triple (?R s r) (attempt (remove_all s)) (\<lambda>_. ?R s r) (safe p es0) (safe p es0)"
    for s and r :: "install_error list + string \<times> bool"
  proof (rule triple_weaken [OF keeps_attempt [OF triple_remove_all
      [where name = s and P = "?R s r" and Q = "\<lambda>_. ?R s r" and E = "?R s r" and S = "?R s r"]]])
    fix es f assume r: "?R s r es"
    show "?R s r (drop_file s f es)"
    proof (cases r)
      case (Inr be)
      then show ?thesis using r by (auto intro: placed_drop_stage)
    qed (use r in \<open>auto intro: safe_drop_stage\<close>)
    show "?R s r (map_del s es)"
    proof (cases r)
      case (Inr be)
      then show ?thesis using r by (auto intro: placed_del_stage)
    qed (use r in \<open>auto intro: safe_del_stage\<close>)
  qed (auto intro: finished split: sum.splits)
  have final: "triple (?R s r) (case r of Inl es \<Rightarrow> raised es | Inr b \<Rightarrow> returned b) ?Q (safe p es0) (safe p es0)"
    for s and r :: "install_error list + string \<times> bool"
    by (cases r) (auto intro!: triple_raised triple_returned)
  show ?thesis
    unfolding installStaged_def
    by (rule triple_bind [OF triple_stage [OF assms] triple_bind [OF tried triple_bind [OF remove final]]])
qed

end
