(* ===== verification/Aht_PluginSafety.thy ===== *)
theory Aht_PluginSafety
  imports Aht_PluginFacts
begin

section \<open>A plugin is never lost\<close>

text \<open>Committing a replacement, recovering from an interruption, and the installation as a whole.\<close>

lemma settledI:
  "placed p es0 (complete p) t b es \<Longrightarrow> map_of es b = None \<Longrightarrow> settled p es0 es"
  unfolding settled_def placed_def clean_def only_temps_def by (metis singletonD)

lemma triple_commit:
  "triple (\<lambda>es. placed p es0 (complete p) t b es \<and> existed = (t \<noteq> None)) (commitReplacement b existed)
     (\<lambda>_. settled p es0) (safe p es0) (safe p es0)"
proof -
  let ?P = "\<lambda>es. \<exists>t. placed p es0 (complete p) t b es"
  have finished: "?P es \<Longrightarrow> safe p es0 es" for es by (auto intro: safe_placed complete_part)
  have remove: "triple (\<lambda>es. placed p es0 (complete p) t b es \<and> existed = (t \<noteq> None))
      (if existed then remove_all b else returned ()) (\<lambda>_. settled p es0) (safe p es0) (safe p es0)"
  proof (cases existed)
    case True
    have "triple ?P (remove_all b) (\<lambda>_. settled p es0) (safe p es0) (safe p es0)"
    proof (rule triple_remove_all)
      fix es assume "?P es"
      then obtain t where pl: "placed p es0 (complete p) t b es" ..
      then have "b \<noteq> pd_Base p" by (auto simp: placed_def)
      then show "?P (drop_file b f es)" for f
        using pl by (auto simp: placed_def beside_kept_drop drop_file_other)
      have "only_temps p {b} (map_del b es)"
        using pl only_temps_del [of p "{b}" es b] by (auto simp: placed_def elim: only_temps_mono)
      then show "settled p es0 (map_del b es)"
        using pl \<open>b \<noteq> pd_Base p\<close> by (intro settledI [of p es0 None b]) (auto simp: placed_def beside_kept_del)
    qed (auto intro: finished)
    then have "triple (\<lambda>es. placed p es0 (complete p) t b es \<and> existed = (t \<noteq> None)) (remove_all b)
        (\<lambda>_. settled p es0) (safe p es0) (safe p es0)"
      by (rule triple_pre) auto
    then show ?thesis using True by simp
  next
    case False
    then show ?thesis by (auto intro!: triple_returned settledI simp: placed_def)
  qed
  show ?thesis
    unfolding commitReplacement_def
    by (rule triple_bind [OF remove], rule triple_weaken [OF keeps_must [of "settled p es0"]])
      (auto intro: safe_settled)
qed

subsection \<open>Recovery\<close>

text \<open>What an inspection finds: the backups that hold something, all of them managed, and the rest.\<close>

definition found :: "plugin \<Rightarrow> (string \<times> entry) list \<Rightarrow> recovery \<Rightarrow> bool" where
  "found p seen rc \<longleftrightarrow>
     set (rc_backups rc) = {n. \<exists>en. (n, en) \<in> set seen \<and> is_tree en \<and> backup_name p n \<and> \<not> emptied en}
     \<and> set (rc_stages rc) = {n. \<exists>en. (n, en) \<in> set seen \<and> is_tree en
          \<and> (stage_name p n \<or> backup_name p n \<and> emptied en)}
     \<and> (\<forall>n en. (n, en) \<in> set seen \<longrightarrow> is_tree en \<longrightarrow> backup_name p n \<longrightarrow> \<not> emptied en \<longrightarrow> holds_marker p en)
     \<and> (case rc_newest rc of None \<Rightarrow> rc_backups rc = [] | Some (n, _) \<Rightarrow> n \<in> set (rc_backups rc))"

lemma triple_collect:
  assumes "map_ok es" "(name, en) \<in> set es" "is_tree en" "backup_name p name" "found p seen rc"
  shows "triple (\<lambda>es'. es' = es) (collectBackup p name en rc)
    (\<lambda>rc' es'. es' = es \<and> found p (seen @ [(name, en)]) rc') (\<lambda>es'. es' = es) (\<lambda>es'. es' = es)"
proof -
  have name: "map_of es name = Some en" using assms(1,2) by (simp add: map_ok_def)
  have new: "\<not> stage_name p name" using stage_not_backup assms(4) by blast
  show ?thesis
  proof (cases "emptied en")
    case True
    then have "found p (seen @ [(name, en)]) (rc\<lparr>rc_stages := rc_stages rc @ [name]\<rparr>)"
      using assms(3-5) by (auto simp: found_def split: option.splits)
    moreover have "collectBackup p name en rc =
        and_then (must ''reading backup'') (\<lambda>_. returned (rc\<lparr>rc_stages := rc_stages rc @ [name]\<rparr>))"
      using True by (simp add: collectBackup_def emptied_def)
    ultimately show ?thesis by (auto intro!: triple_must_bind triple_returned)
  next
    case False
    let ?rc = "rc\<lparr>rc_backups := rc_backups rc @ [name],
        rc_newest := (case rc_newest rc of None \<Rightarrow> Some (name, en_time en)
          | Some (_, t) \<Rightarrow> if en_time en > t then Some (name, en_time en) else rc_newest rc)\<rparr>"
    have f: "found p (seen @ [(name, en)]) ?rc" if "holds_marker p en"
      using assms(3-5) that new False unfolding found_def by (auto split: option.splits)
    have "collectBackup p name en rc =
        and_then (must ''reading backup'') (\<lambda>_. and_then (ensureManaged (pd_MarkerFile p) name False) (\<lambda>_.
          and_then (must ''checking backup'') (\<lambda>_. returned ?rc)))"
      using False by (auto simp: collectBackup_def emptied_def split: node.split list.split)
    moreover have "triple (\<lambda>es'. es' = es) (and_then (must ''reading backup'') (\<lambda>_.
        and_then (ensureManaged (pd_MarkerFile p) name False) (\<lambda>_.
          and_then (must ''checking backup'') (\<lambda>_. returned ?rc))))
        (\<lambda>rc' es'. es' = es \<and> found p (seen @ [(name, en)]) rc') (\<lambda>es'. es' = es) (\<lambda>es'. es' = es)"
      by (rule triple_must_bind [OF _ _ triple_bind [OF triple_ensureManaged triple_must_bind [OF _ _ triple_returned]]])
        (auto simp: name f)
    ultimately show ?thesis by simp
  qed
qed

lemma triple_inspect_entries:
  assumes "map_ok es" "set rest \<subseteq> set es" "found p seen rc"
  shows "triple (\<lambda>es'. es' = es) (inspect_entries p rest rc)
    (\<lambda>rc' es'. es' = es \<and> found p (seen @ rest) rc') (\<lambda>es'. es' = es) (\<lambda>es'. es' = es)"
  using assms(2,3)
proof (induction rest arbitrary: rc seen)
  case Nil
  then show ?case by (auto intro!: triple_returned)
next
  case (Cons ne rest)
  obtain name en where ne: "ne = (name, en)" by (rule prod.exhaust)
  have on: "triple (\<lambda>es'. es' = es) (inspect_entries p rest rc')
      (\<lambda>rc' es'. es' = es \<and> found p (seen @ ne # rest) rc') (\<lambda>es'. es' = es) (\<lambda>es'. es' = es)"
    if "found p (seen @ [ne]) rc'" for rc'
    using Cons.IH [OF _ that] Cons.prems(1) by simp
  show ?case
  proof (cases "is_tree en")
    case False
    then have "found p (seen @ [ne]) rc" using Cons.prems(2) by (auto simp: found_def ne)
    then show ?thesis using on False by (auto simp: ne is_tree_def split: node.split)
  next
    case True
    then obtain ds files where tree: "en_node en = Tree ds files" by (auto simp: is_tree_def)
    show ?thesis
    proof (cases "backup_name p name")
      case b: True
      have "triple (\<lambda>es'. es' = es) (and_then (collectBackup p name en rc) (inspect_entries p rest))
          (\<lambda>rc' es'. es' = es \<and> found p (seen @ ne # rest) rc') (\<lambda>es'. es' = es) (\<lambda>es'. es' = es)"
      proof (rule triple_bind [OF triple_collect [OF assms(1) _ True b Cons.prems(2)]])
        show "(name, en) \<in> set es" using Cons.prems(1) by (simp add: ne)
        fix rc'
        show "triple (\<lambda>es'. es' = es \<and> found p (seen @ [(name, en)]) rc') (inspect_entries p rest rc')
            (\<lambda>rc' es'. es' = es \<and> found p (seen @ ne # rest) rc') (\<lambda>es'. es' = es) (\<lambda>es'. es' = es)"
          using on [of rc'] by (cases "found p (seen @ [(name, en)]) rc'") (simp_all add: ne triple_never)
      qed
      then show ?thesis using b by (simp add: ne tree)
    next
      case b: False
      show ?thesis
      proof (cases "stage_name p name")
        case s: True
        have "found p (seen @ [ne]) (rc\<lparr>rc_stages := rc_stages rc @ [name]\<rparr>)"
          using Cons.prems(2) True b s by (auto simp: found_def ne split: option.splits)
        then show ?thesis using on b s by (simp add: ne tree)
      next
        case s: False
        have "found p (seen @ [ne]) rc" using Cons.prems(2) b s by (auto simp: found_def ne)
        then show ?thesis using on b s by (simp add: ne tree)
      qed
    qed
  qed
qed

lemma triple_inspect:
  assumes "\<And>es. P es \<Longrightarrow> map_ok es" "\<And>es. P es \<Longrightarrow> E es" "\<And>es. P es \<Longrightarrow> S es"
  shows "triple P (inspectRecovery p) (\<lambda>rc es. P es \<and> found p es rc) E S"
  unfolding inspectRecovery_def
proof (rule triple_must_bind [OF assms(2,3)], assumption, assumption, rule triple_entries_bind)
  fix es assume p: "P es"
  have "found p [] \<lparr>rc_backups = [], rc_stages = [], rc_newest = None\<rparr>" by (simp add: found_def)
  from triple_inspect_entries [OF assms(1) [OF p] subset_refl this]
  show "triple (\<lambda>es'. es' = es \<and> P es) (inspect_entries p es \<lparr>rc_backups = [], rc_stages = [], rc_newest = None\<rparr>)
      (\<lambda>rc es. P es \<and> found p es rc) E S"
    by (rule triple_weaken) (use p assms in auto)
qed

text \<open>With a plugin that is in its place, or has never been there, what is left can be removed.\<close>

definition based :: "plugin \<Rightarrow> entry go_map \<Rightarrow> string set \<Rightarrow> entry go_map \<Rightarrow> bool" where
  "based p es0 names es \<longleftrightarrow>
     beside_kept p es0 es \<and> only_temps p names es
     \<and> (case map_of es (pd_Base p) of
          Some en \<Rightarrow> acceptable p es0 en
        | None \<Rightarrow> map_of es0 (pd_Base p) = None \<and> no_backup p es)"

lemma safe_based: "based p es0 names es \<Longrightarrow> safe p es0 es"
  by (auto simp: based_def safe_def kept_def split: option.splits)

lemma no_backup_drop: "no_backup p es \<Longrightarrow> no_backup p (drop_file n f es)"
  unfolding no_backup_def
proof (intro allI impI)
  fix b en assume nb: "\<forall>b en. backup_name p b \<longrightarrow> map_of es b = Some en \<longrightarrow> emptied en"
    and b: "backup_name p b" "map_of (drop_file n f es) b = Some en"
  show "emptied en"
  proof (cases "b = n")
    case True
    then obtain en' where "map_of es n = Some en'" "emptied en'"
      using nb b by (auto simp: drop_file_same split: option.splits)
    then show ?thesis using b True by (auto simp: drop_file_same emptied_def map_del_def)
  qed (use nb b drop_file_other in auto)
qed

lemma no_backup_del: "no_backup p es \<Longrightarrow> no_backup p (map_del n es)"
  by (auto simp: no_backup_def split: if_splits)

lemma based_drop: "based p es0 names es \<Longrightarrow> temporary p n \<Longrightarrow> n \<in> names \<Longrightarrow> based p es0 names (drop_file n f es)"
  by (auto simp: based_def beside_kept_drop drop_file_other no_backup_drop split: option.splits)

lemma based_del: "based p es0 names es \<Longrightarrow> temporary p n \<Longrightarrow> based p es0 (names - {n}) (map_del n es)"
  by (auto simp: based_def beside_kept_del only_temps_del no_backup_del split: option.splits)

lemma triple_remove_each:
  assumes "\<And>n. n \<in> set names \<Longrightarrow> temporary p n"
  shows "triple (based p es0 (set names)) (remove_each names) (\<lambda>_. based p es0 {}) (safe p es0) (safe p es0)"
  using assms
proof (induction names)
  case Nil
  then show ?case by (auto intro: triple_returned)
next
  case (Cons n names)
  have "triple (based p es0 (set (n # names))) (remove_all n) (\<lambda>_. based p es0 (set names)) (safe p es0) (safe p es0)"
  proof (rule triple_remove_all)
    fix es assume b: "based p es0 (set (n # names)) es"
    show "based p es0 (set (n # names)) (drop_file n f es)" for f
      using b Cons.prems by (intro based_drop) auto
    have "based p es0 (set (n # names) - {n}) (map_del n es)" using b Cons.prems by (intro based_del) auto
    then show "based p es0 (set names) (map_del n es)"
      by (auto simp: based_def elim!: only_temps_mono)
  qed (rule safe_based, assumption)+
  then show ?case using Cons by (auto intro: triple_bind)
qed

text \<open>Recovery keeps what is safe wherever it ends; when it returns, nothing temporary is left.\<close>

lemma found_names:
  assumes "beside_kept p es0 es" "found p es rc"
  shows "n \<in> set (rc_backups rc @ rc_stages rc) \<Longrightarrow> temporary p n"
    and "only_temps p (set (rc_backups rc @ rc_stages rc)) es"
proof -
  show "temporary p n" if "n \<in> set (rc_backups rc @ rc_stages rc)"
    using assms(2) that by (auto simp: found_def temporary_def)
  have "n \<in> set (rc_backups rc @ rc_stages rc)" if "temporary p n" "map_of es n = Some en" for n en
  proof -
    have "(n, en) \<in> set es" using that by (simp add: map_of_SomeD)
    moreover have "is_tree en" using assms(1) that by (auto simp: beside_kept_def)
    ultimately show ?thesis using assms(2) that(1) unfolding found_def temporary_def by auto
  qed
  then show "only_temps p (set (rc_backups rc @ rc_stages rc)) es"
    unfolding only_temps_def by (metis option.exhaust)
qed

lemma found_backup:
  assumes "beside_kept p es0 es" "found p es rc"
  shows "n \<in> set (rc_backups rc) \<longleftrightarrow> backup_name p n \<and> (\<exists>en. map_of es n = Some en \<and> \<not> emptied en)"
proof -
  have "is_tree en" if "backup_name p n" "map_of es n = Some en" for en
    using assms(1) that backup_temporary unfolding beside_kept_def by blast
  moreover have "(n, en) \<in> set es \<longleftrightarrow> map_of es n = Some en" for en
    using assms(1) by (simp add: beside_kept_def map_ok_def)
  ultimately show ?thesis using assms(2) unfolding found_def by auto
qed

lemma based_found:
  assumes "safe p es0 es" "found p es rc" "map_of es (pd_Base p) \<noteq> None \<or> rc_newest rc = None"
  shows "based p es0 (set (rc_backups rc @ rc_stages rc)) es"
proof -
  have fr: "beside_kept p es0 es" using assms(1) by (simp add: safe_def)
  have "no_backup p es" if "rc_newest rc = None"
    using found_backup [OF fr assms(2)] assms(2) that by (auto simp: found_def no_backup_def)
  moreover have "\<not> (\<exists>b en. backup_name p b \<and> map_of es b = Some en \<and> \<not> emptied en)" if "rc_newest rc = None"
    using found_backup [OF fr assms(2)] assms(2) that by (auto simp: found_def)
  ultimately show ?thesis
    using assms(1,3) fr found_names(2) [OF fr assms(2)]
    unfolding based_def safe_def kept_def by (auto split: option.splits)
qed

lemma based_restored:
  assumes "safe p es0 es" "found p es rc" "map_of es (pd_Base p) = None" "rc_newest rc = Some (n, t)"
    "map_of es n = Some en"
  shows "based p es0 (set (rc_backups rc @ rc_stages rc)) (map_put (pd_Base p) en (map_del n es))"
proof -
  have fr: "beside_kept p es0 es" using assms(1) by (simp add: safe_def)
  have n: "backup_name p n" "\<not> emptied en"
    using found_backup [OF fr assms(2), of n] assms(2,4,5) by (auto simp: found_def)
  then have tree: "is_tree en" using fr assms(5) backup_temporary unfolding beside_kept_def by blast
  have "acceptable p es0 en"
    using assms(1,3,5) n unfolding safe_def kept_def no_backup_def only_backup_def
    by (auto split: option.splits)
  moreover have "beside_kept p es0 (map_put (pd_Base p) en (map_del n es))"
    using n(1) by (intro beside_kept_put beside_kept_del fr) auto
  moreover have "only_temps p (set (rc_backups rc @ rc_stages rc)) (map_put (pd_Base p) en (map_del n es))"
    by (rule only_temps_put [OF _ only_temps_mono [OF only_temps_del [OF found_names(2) [OF fr assms(2)], of n]]]) auto
  ultimately show ?thesis by (simp add: based_def)
qed

lemma triple_recover:
  "triple (safe p es0) (recover_plugin p False) (\<lambda>_. based p es0 {}) (safe p es0) (safe p es0)"
proof -
  let ?found = "\<lambda>rc es. safe p es0 es \<and> found p es rc"
  let ?names = "\<lambda>rc. rc_backups rc @ rc_stages rc"
  have inspect: "triple (safe p es0) (inspectRecovery p) ?found (safe p es0) (safe p es0)"
    by (rule triple_inspect) (auto simp: safe_def beside_kept_def)
  have restore: "triple (\<lambda>es'. es' = es \<and> ?found rc es)
      (case (map_of es (pd_Base p), rc_newest rc) of
         (None, Some (newest, _)) \<Rightarrow> and_then (rename_entry newest (pd_Base p)) (\<lambda>there.
           if there then must ''syncing'' else raised [ErrInstallIO ''renaming''])
       | _ \<Rightarrow> returned ()) (\<lambda>_. based p es0 (set (?names rc))) (safe p es0) (safe p es0)" for rc es
  proof (cases "map_of es (pd_Base p) \<noteq> None \<or> rc_newest rc = None")
    case True
    then show ?thesis using based_found
      by (cases "map_of es (pd_Base p)"; cases "rc_newest rc") (auto intro!: triple_returned)
  next
    case False
    then obtain n t where n: "map_of es (pd_Base p) = None" "rc_newest rc = Some (n, t)" by auto
    have "triple (\<lambda>es'. es' = es \<and> ?found rc es) (and_then (rename_entry n (pd_Base p)) (\<lambda>there.
        if there then must ''syncing'' else raised [ErrInstallIO ''renaming'']))
        (\<lambda>_. based p es0 (set (?names rc))) (safe p es0) (safe p es0)"
    proof (rule triple_bind [OF triple_rename
        [where Q = "\<lambda>there es. if there then based p es0 (set (?names rc)) es else safe p es0 es"]])
      fix there
      show "triple (\<lambda>es. if there then based p es0 (set (?names rc)) es else safe p es0 es)
          (if there then must ''syncing'' else raised [ErrInstallIO ''renaming''])
          (\<lambda>_. based p es0 (set (?names rc))) (safe p es0) (safe p es0)"
        by (cases there) (auto intro!: triple_raised triple_must safe_based)
    qed (use n based_restored in auto)
    then show ?thesis using n by simp
  qed
  have remove: "triple (based p es0 (set (?names rc)))
      (and_then (remove_each (?names rc)) (\<lambda>_.
        if ?names rc \<noteq> [] then and_then (must ''syncing'') (\<lambda>_. returned True) else returned False))
      (\<lambda>_. based p es0 {}) (safe p es0) (safe p es0)" if "\<And>n. n \<in> set (?names rc) \<Longrightarrow> temporary p n" for rc
    by (rule triple_bind [OF triple_remove_each [OF that]])
      (auto intro!: triple_must_bind triple_returned safe_based)
  show ?thesis
    unfolding recover_plugin_def Let_def if_False
  proof (rule triple_bind [OF inspect])
    fix rc
    show "triple (?found rc) (and_then (must ''checking recovery target'') (\<lambda>_. and_then entries (\<lambda>es.
        and_then (case (map_of es (pd_Base p), rc_newest rc) of
           (None, Some (newest, _)) \<Rightarrow> and_then (rename_entry newest (pd_Base p)) (\<lambda>there.
             if there then must ''syncing'' else raised [ErrInstallIO ''renaming''])
         | _ \<Rightarrow> returned ()) (\<lambda>_.
        and_then (remove_each (?names rc)) (\<lambda>_.
          if ?names rc \<noteq> [] then and_then (must ''syncing'') (\<lambda>_. returned True) else returned False)))))
      (\<lambda>_. based p es0 {}) (safe p es0) (safe p es0)"
    proof (rule triple_must_bind, simp, simp, rule triple_entries_bind)
      fix es assume "?found rc es"
      then have "\<And>n. n \<in> set (?names rc) \<Longrightarrow> temporary p n" using found_names(1) by (auto simp: safe_def)
      from triple_bind [OF restore remove [OF this]]
      show "triple (\<lambda>es'. es' = es \<and> ?found rc es)
          (and_then (case (map_of es (pd_Base p), rc_newest rc) of
             (None, Some (newest, _)) \<Rightarrow> and_then (rename_entry newest (pd_Base p)) (\<lambda>there.
               if there then must ''syncing'' else raised [ErrInstallIO ''renaming''])
           | _ \<Rightarrow> returned ()) (\<lambda>_.
          and_then (remove_each (?names rc)) (\<lambda>_.
            if ?names rc \<noteq> [] then and_then (must ''syncing'') (\<lambda>_. returned True) else returned False)))
          (\<lambda>_. based p es0 {}) (safe p es0) (safe p es0)" .
    qed
  qed
qed

subsection \<open>Installation\<close>

lemma triple_files_differ:
  assumes "\<And>es. P es \<Longrightarrow> E es" "\<And>es. P es \<Longrightarrow> S es"
  shows "triple P (files_differ files fs)
    (\<lambda>differ es. P es \<and> (\<not> differ \<longrightarrow> (\<forall>(f, c) \<in> set fs. map_of files f = Some c))) E S"
proof (induction fs)
  case (Cons fc fs)
  obtain f c where fc: "fc = (f, c)" by (rule prod.exhaust)
  have "triple P (if map_of files f = Some c then files_differ files fs else returned True)
      (\<lambda>differ es. P es \<and> (\<not> differ \<longrightarrow> (\<forall>(f, c) \<in> set (fc # fs). map_of files f = Some c))) E S"
    using fc by (auto intro!: triple_returned triple_weaken [OF Cons.IH])
  then show ?case using assms by (auto simp: fc intro!: triple_must_bind)
qed (auto intro: triple_returned)

lemma complete_of:
  assumes "map_ok (pd_Files p)" "en_node en = Tree ds files" "\<forall>(f, c) \<in> set (pd_Files p). map_of files f = Some c"
    "\<not> hasStaleFiles p ds files"
  shows "complete p en"
proof -
  have "map_of files f = map_of (pd_Files p) f" for f
  proof (cases "map_of (pd_Files p) f")
    case None
    then have "f \<notin> fst ` set files" using assms(4) by (auto simp: hasStaleFiles_def list_ex_iff)
    then show ?thesis using None map_of_eq_None_iff by metis
  next
    case (Some c)
    then have "(f, c) \<in> set (pd_Files p)" by (rule map_of_SomeD)
    then show ?thesis using assms(3) Some by auto
  qed
  then show ?thesis using assms(2) by (auto simp: complete_def)
qed

lemma triple_needsUpdate:
  assumes "map_ok (pd_Files p)" "\<And>es. P es \<Longrightarrow> E es" "\<And>es. P es \<Longrightarrow> S es"
  shows "triple P (needsUpdate p)
    (\<lambda>changed es. P es \<and> (\<not> changed \<longrightarrow> (\<exists>en. map_of es (pd_Base p) = Some en \<and> complete p en))) E S"
  unfolding needsUpdate_def
proof (rule triple_must_bind [OF assms(2,3)], assumption, assumption, rule triple_entries_bind)
  let ?Q = "\<lambda>changed es. P es \<and> (\<not> changed \<longrightarrow> (\<exists>en. map_of es (pd_Base p) = Some en \<and> complete p en))"
  fix es assume p: "P es"
  show "triple (\<lambda>es'. es' = es \<and> P es)
      (case map_of es (pd_Base p) of None \<Rightarrow> returned True
       | Some en \<Rightarrow> case en_node en of NotDir _ \<Rightarrow> returned True
         | Tree ds files \<Rightarrow> and_then (files_differ files (pd_Files p)) (\<lambda>differ.
             if differ then returned True else and_then (must ''walking'') (\<lambda>_. returned (hasStaleFiles p ds files)))) ?Q E S"
  proof (cases "\<exists>en ds files. map_of es (pd_Base p) = Some en \<and> en_node en = Tree ds files")
    case False
    then show ?thesis using p by (auto intro!: triple_returned split: option.split node.split)
  next
    case True
    then obtain en ds files where en: "map_of es (pd_Base p) = Some en" "en_node en = Tree ds files" by blast
    let ?P = "\<lambda>es'. es' = es \<and> P es"
    have "triple ?P (and_then (files_differ files (pd_Files p)) (\<lambda>differ.
        if differ then returned True else and_then (must ''walking'') (\<lambda>_. returned (hasStaleFiles p ds files)))) ?Q E S"
    proof (rule triple_bind [OF triple_files_differ [of ?P]])
      fix differ
      show "triple (\<lambda>es'. (es' = es \<and> P es) \<and> (\<not> differ \<longrightarrow> (\<forall>(f, c) \<in> set (pd_Files p). map_of files f = Some c)))
          (if differ then returned True else and_then (must ''walking'') (\<lambda>_. returned (hasStaleFiles p ds files))) ?Q E S"
        using en assms complete_of [of p en ds files] by (cases differ) (auto intro!: triple_returned triple_must_bind)
    qed (use assms in auto)
    then show ?thesis using en by simp
  qed
qed

text \<open>After the preparation, the plugin that was there, if any, is managed, and nothing else is left.\<close>

lemma triple_prepare:
  assumes "map_ok (pd_Files p)"
  shows "triple (safe p es0) (preparePluginDirectory p False False)
    (\<lambda>changed es. \<exists>t. made_ready p es0 t es \<and> old_ok p es0 t \<and> (\<not> changed \<longrightarrow> (\<exists>en. t = Some en \<and> complete p en)))
    (safe p es0) (safe p es0)"
proof -
  let ?managed = "\<lambda>es. based p es0 {} es \<and> (case map_of es (pd_Base p) of None \<Rightarrow> True | Some en \<Rightarrow> holds_marker p en)"
  have managed: "triple (based p es0 {}) (ensureManaged (pd_MarkerFile p) (pd_Base p) False) (\<lambda>_. ?managed)
      (safe p es0) (safe p es0)"
    by (rule triple_ensureManaged) (auto intro: safe_based)
  have needs: "triple ?managed (needsUpdate p)
      (\<lambda>changed es. \<exists>t. made_ready p es0 t es \<and> old_ok p es0 t \<and> (\<not> changed \<longrightarrow> (\<exists>en. t = Some en \<and> complete p en)))
      (safe p es0) (safe p es0)"
    by (rule triple_weaken [OF triple_needsUpdate [OF assms, where P = ?managed and E = "safe p es0" and S = "safe p es0"]])
      (auto intro: safe_based simp: made_ready_def old_ok_def based_def clean_only split: option.splits)
  show ?thesis
    unfolding preparePluginDirectory_def
    by (rule triple_bind [OF triple_recover triple_bind [OF managed needs]])
qed

text \<open>The manifest is not one of the entries beside the plugin.\<close>

definition elsewhere :: "'a action \<Rightarrow> bool" where
  "elsewhere m \<longleftrightarrow> (\<forall>w :: plugin_world. pw_entries (snd (m w)) = pw_entries w)"

definition manifest_elsewhere :: "manifest_actions \<Rightarrow> bool" where
  "manifest_elsewhere ma \<longleftrightarrow>
     elsewhere (ma_planned ma) \<and> elsewhere (ma_prepare ma) \<and> elsewhere (ma_write ma) \<and> elsewhere (ma_undo ma)"

lemma keeps_elsewhere: "elsewhere m \<Longrightarrow> keeps P m"
  unfolding triple_def
proof (intro allI impI)
  fix w :: plugin_world
  assume m: "elsewhere m" "P (pw_entries w)"
  obtain r w' where mw: "m w = (r, w')" by (rule prod.exhaust)
  then have "pw_entries w' = pw_entries w" using m(1) by (metis elsewhere_def snd_conv)
  then show "case m w of (Returned x, w') \<Rightarrow> P (pw_entries w') | (Raised _, w') \<Rightarrow> P (pw_entries w')
      | (Stopped, w') \<Rightarrow> P (pw_entries w')"
    using m(2) mw by (cases r) simp_all
qed

lemma tried_elsewhere:
  assumes "elsewhere m" "\<And>es. P es \<Longrightarrow> S es"
  shows "triple P (attempt m) (\<lambda>_. P) E S"
  by (rule triple_weaken [OF triple_attempt [OF keeps_elsewhere [OF assms(1), of P]]])
    (use assms(2) in \<open>auto split: sum.splits\<close>)

lemma triple_rolled_back:
  assumes "\<And>es. P es \<Longrightarrow> safe p es0 es"
    and "\<And>m. rollback = Some m \<Longrightarrow> triple P m (\<lambda>_. safe p es0) (safe p es0) (safe p es0)"
    and "\<And>m. undo = Some m \<Longrightarrow> elsewhere m"
  shows "triple P (rollbackPluginDirectoryAndManifest rollback undo cause) Q (safe p es0) (safe p es0)"
proof -
  have first: "triple P (case rollback of None \<Rightarrow> returned cause
      | Some m \<Rightarrow> and_then (attempt m) (\<lambda>r. returned (case r of Inl es \<Rightarrow> cause @ es | Inr _ \<Rightarrow> cause)))
      (\<lambda>_. safe p es0) (safe p es0) (safe p es0)"
  proof (cases rollback)
    case None
    then show ?thesis using assms(1) by (simp add: triple_returned)
  next
    case (Some m)
    have "triple P (attempt m) (\<lambda>_. safe p es0) (safe p es0) (safe p es0)"
      by (rule triple_weaken [OF triple_attempt [OF assms(2) [OF Some]]]) (auto split: sum.splits)
    then show ?thesis unfolding Some option.case by (rule triple_bind) (rule triple_returned)
  qed
  have second: "triple (safe p es0) (case undo of None \<Rightarrow> raised es | Some m \<Rightarrow> joined es m) Q
      (safe p es0) (safe p es0)" for es
  proof (cases undo)
    case (Some m)
    show ?thesis unfolding Some option.case
      by (rule triple_joined) (rule keeps_elsewhere [OF assms(3) [OF Some]])
  qed (simp add: triple_raised)
  show ?thesis unfolding rollbackPluginDirectoryAndManifest_def by (rule triple_bind [OF first second])
qed

text \<open>Between the replacement of the plugin, if any, and its commit.\<close>

definition replaced_so_far :: "plugin \<Rightarrow> entry go_map \<Rightarrow> entry option \<Rightarrow> (string \<times> bool) option \<Rightarrow> entry go_map \<Rightarrow> bool" where
  "replaced_so_far p es0 t replaced es \<longleftrightarrow>
     (case replaced of
        None \<Rightarrow> made_ready p es0 t es \<and> (\<exists>en. t = Some en \<and> complete p en)
      | Some (b, existed) \<Rightarrow> placed p es0 (complete p) t b es \<and> existed = (t \<noteq> None))"

lemma safe_so_far: "old_ok p es0 t \<Longrightarrow> replaced_so_far p es0 t replaced es \<Longrightarrow> safe p es0 es"
  by (auto simp: replaced_so_far_def split: option.splits intro: safe_ready safe_placed complete_part)

lemma triple_changes:
  assumes "old_ok p es0 t" "map_ok (pd_Files p)" "manifest_elsewhere ma"
    "\<not> changed \<Longrightarrow> \<exists>en. t = Some en \<and> complete p en"
  shows "triple (made_ready p es0 t) (writePluginDirectoryChanges pe p ma changed manifestChanged)
    (\<lambda>_. settled p es0) (safe p es0) (safe p es0)"
proof -
  note safe = safe_so_far [OF assms(1)]
  let ?J = "replaced_so_far p es0 t"
  let ?rollback = "map_option (\<lambda>(backup, existed). rollbackReplacement p backup existed)"
  have replace: "triple (made_ready p es0 t)
      (if changed then and_then (installStaged pe p) (\<lambda>b. returned (Some b)) else returned None) ?J
      (safe p es0) (safe p es0)"
  proof (cases changed)
    case True
    show ?thesis unfolding if_P [OF True]
      by (rule triple_bind [OF triple_installStaged [OF assms(1,2)] triple_returned])
        (auto simp: replaced_so_far_def split: prod.splits)
  next
    case False
    show ?thesis unfolding if_not_P [OF False]
      by (rule triple_returned) (use assms(4) [OF False] in \<open>simp add: replaced_so_far_def\<close>)
  qed
  have rollback: "triple (?J replaced) m (\<lambda>_. safe p es0) (safe p es0) (safe p es0)"
    if m: "?rollback replaced = Some m" for replaced m
  proof -
    obtain b existed where r: "replaced = Some (b, existed)" "m = rollbackReplacement p b existed"
      using m by (auto simp: map_option_case split: option.splits prod.splits)
    show ?thesis
    proof (cases "existed = (t \<noteq> None)")
      case True
      show ?thesis unfolding r True
        by (rule triple_pre [OF triple_rollback [OF assms(1)]]) (auto simp: replaced_so_far_def)
    qed (simp add: r triple_never replaced_so_far_def)
  qed
  have undo: "triple (?J replaced) (rollbackPluginDirectoryAndManifest (?rollback replaced) u cause) Q
      (safe p es0) (safe p es0)"
    if "u = None \<or> u = Some (ma_undo ma)" for replaced u cause and Q :: "unit \<Rightarrow> entry go_map \<Rightarrow> bool"
    by (rule triple_rolled_back [OF safe rollback])
      (use that assms(3) in \<open>auto simp: manifest_elsewhere_def\<close>)
  have away: "elsewhere (ma_prepare ma)" "elsewhere (ma_write ma)" using assms(3) by (simp_all add: manifest_elsewhere_def)
  have written: "triple (?J replaced) (case r of
        Inl es \<Rightarrow> rollbackPluginDirectoryAndManifest (?rollback replaced) (Some (ma_undo ma)) es
      | Inr _ \<Rightarrow> returned ()) (\<lambda>_. ?J replaced) (safe p es0) (safe p es0)" for r :: "install_error list + unit" and replaced
    by (cases r) (auto intro: undo triple_returned)
  have prepared: "triple (?J replaced) (case r of
        Inl es \<Rightarrow> rollbackPluginDirectoryAndManifest (?rollback replaced) None es
      | Inr _ \<Rightarrow> and_then (attempt (ma_write ma)) (\<lambda>r. case r of
            Inl es \<Rightarrow> rollbackPluginDirectoryAndManifest (?rollback replaced) (Some (ma_undo ma)) es
          | Inr _ \<Rightarrow> returned ())) (\<lambda>_. ?J replaced) (safe p es0) (safe p es0)"
    for r :: "install_error list + unit" and replaced
  proof (cases r)
    case (Inr u)
    show ?thesis unfolding Inr sum.case by (rule triple_bind [OF tried_elsewhere [OF away(2) safe] written])
  qed (auto intro: undo)
  have manifest: "triple (?J replaced) (if \<not> manifestChanged then returned ()
      else and_then (attempt (ma_prepare ma)) (\<lambda>r. case r of
          Inl es \<Rightarrow> rollbackPluginDirectoryAndManifest (?rollback replaced) None es
        | Inr _ \<Rightarrow> and_then (attempt (ma_write ma)) (\<lambda>r. case r of
              Inl es \<Rightarrow> rollbackPluginDirectoryAndManifest (?rollback replaced) (Some (ma_undo ma)) es
            | Inr _ \<Rightarrow> returned ()))) (\<lambda>_. ?J replaced) (safe p es0) (safe p es0)" for replaced
  proof (cases manifestChanged)
    case True
    then have eq: "(\<not> manifestChanged) = False" by simp
    show ?thesis unfolding eq if_False by (rule triple_bind [OF tried_elsewhere [OF away(1) safe] prepared])
  qed (simp add: triple_returned)
  have commit: "triple (?J replaced) (case replaced of None \<Rightarrow> returned () | Some (backup, existed) \<Rightarrow>
      commitReplacement backup existed) (\<lambda>_. settled p es0) (safe p es0) (safe p es0)" for replaced
  proof (cases replaced)
    case None
    then show ?thesis by (auto intro!: triple_returned simp: replaced_so_far_def made_ready_def settled_def)
  next
    case (Some be)
    obtain b existed where be: "be = (b, existed)" by fastforce
    show ?thesis unfolding Some be option.case prod.case
      by (rule triple_pre [OF triple_commit [where t = t]]) (auto simp: replaced_so_far_def)
  qed
  show ?thesis
    unfolding writePluginDirectoryChanges_def Let_def
    by (rule triple_bind [OF replace triple_bind [OF manifest commit]])
qed

lemma triple_install:
  assumes "map_ok (pd_Files p)" "manifest_elsewhere ma"
  shows "triple (safe p es0) (install_plugin pe p ma False False) (\<lambda>_. settled p es0) (safe p es0) (safe p es0)"
proof -
  let ?R = "\<lambda>changed es. \<exists>t. made_ready p es0 t es \<and> old_ok p es0 t \<and> (\<not> changed \<longrightarrow> (\<exists>en. t = Some en \<and> complete p en))"
  have fine: "?R changed es \<Longrightarrow> safe p es0 es" for changed es using safe_ready by blast
  have away: "elsewhere (ma_planned ma)" using assms(2) by (simp add: manifest_elsewhere_def)
  have planned: "triple (?R changed) (ma_planned ma) (\<lambda>_. ?R changed) (safe p es0) (safe p es0)" for changed
    by (rule triple_weaken [OF keeps_elsewhere [OF away, of "?R changed"]]) (auto intro: fine)
  have changes: "triple (?R changed) (writePluginDirectoryChanges pe p ma changed manifestChanged)
      (\<lambda>_. settled p es0) (safe p es0) (safe p es0)" for changed manifestChanged
  proof (rule triple_exists)
    fix t
    show "triple (\<lambda>es. made_ready p es0 t es \<and> old_ok p es0 t \<and> (\<not> changed \<longrightarrow> (\<exists>en. t = Some en \<and> complete p en)))
        (writePluginDirectoryChanges pe p ma changed manifestChanged) (\<lambda>_. settled p es0) (safe p es0) (safe p es0)"
    proof (cases "old_ok p es0 t \<and> (\<not> changed \<longrightarrow> (\<exists>en. t = Some en \<and> complete p en))")
      case True
      then show ?thesis
        by (intro triple_pre [OF triple_changes [OF _ assms, where t = t]]) auto
    next
      case False
      show ?thesis by (rule triple_never) (use False in blast)
    qed
  qed
  have applied: "triple (?R changed) (if (changed \<or> manifestChanged) \<and> \<not> False
        then writePluginDirectoryChanges pe p ma changed manifestChanged else returned ())
      (\<lambda>_. settled p es0) (safe p es0) (safe p es0)" for changed manifestChanged
  proof (cases "changed \<or> manifestChanged")
    case True
    then show ?thesis using changes by simp
  next
    case False
    then have no: "changed = False" "manifestChanged = False" by simp_all
    show ?thesis unfolding no simp_thms if_False
      by (rule triple_returned) (auto simp: made_ready_def settled_def)
  qed
  show ?thesis
    unfolding install_plugin_def Let_def
    by (rule triple_bind [OF triple_prepare [OF assms(1)] triple_bind [OF planned triple_bind [OF applied triple_returned]]])
qed

text \<open>
  The removal of a backup goes file by file. Once its marker is gone and another file is not, it is taken
  for foreign, and no recovery or installation gets past it, not even a forced one.
\<close>

lemma half_removed_backup_blocks:
  assumes "map_ok es" "map_of es b = Some en" "backup_name p b" "is_tree en" "\<not> emptied en" "\<not> holds_marker p en"
  shows "triple (\<lambda>es'. es' = es) (preparePluginDirectory p dry force) (\<lambda>_ _. False) (\<lambda>es'. es' = es) (\<lambda>es'. es' = es)"
proof -
  have "\<not> found p es rc" for rc
    using assms(2-6) map_of_SomeD [OF assms(2)] unfolding found_def by blast
  then have inspect: "triple (\<lambda>es'. es' = es) (inspectRecovery p) (\<lambda>_ _. False) (\<lambda>es'. es' = es) (\<lambda>es'. es' = es)"
    by (intro triple_weaken [OF triple_inspect [of "\<lambda>es'. es' = es"]]) (use assms(1) in auto)
  show ?thesis
    unfolding preparePluginDirectory_def recover_plugin_def Let_def
    by (rule triple_bind [OF triple_bind [OF inspect triple_never] triple_never]) auto
qed

text \<open>Installations one after another, each of which may fail or be stopped anywhere.\<close>

type_synonym plugin_run = "plugin_env \<times> manifest_actions \<times> bool list"

definition run_install :: "plugin \<Rightarrow> plugin_run \<Rightarrow> entry go_map \<Rightarrow> bool outcome \<times> entry go_map" where
  "run_install p run es =
     (case run of (pe, ma, calls) \<Rightarrow>
        map_prod id pw_entries (install_plugin pe p ma False False \<lparr>pw_entries = es, pw_calls = calls\<rparr>))"

definition after_runs :: "plugin \<Rightarrow> plugin_run list \<Rightarrow> entry go_map \<Rightarrow> entry go_map" where
  "after_runs p runs es = fold (\<lambda>run es. snd (run_install p run es)) runs es"

lemma run_install_safe:
  assumes "map_ok (pd_Files p)" "manifest_elsewhere (fst (snd run))" "safe p es0 es"
    and "run_install p run es = (result, es')"
  shows "safe p es0 es' \<or> (\<exists>changed. result = Returned changed)"
    and "result = Returned changed \<Longrightarrow> settled p es0 es'"
proof -
  obtain pe ma calls where run: "run = (pe, ma, calls)" by (rule prod_cases3)
  let ?w = "\<lparr>pw_entries = es, pw_calls = calls\<rparr>"
  obtain r w where w: "install_plugin pe p ma False False ?w = (r, w)" by (rule prod.exhaust)
  have "triple (safe p es0) (install_plugin pe p ma False False) (\<lambda>_. settled p es0) (safe p es0) (safe p es0)"
    by (rule triple_install) (use assms(1,2) run in simp_all)
  note after = tripleD [OF this, of ?w]
  have eq: "result = r" "es' = pw_entries w" using assms(4) w by (auto simp: run_install_def run)
  show "safe p es0 es' \<or> (\<exists>changed. result = Returned changed)"
    using after(2,3) w assms(3) eq by (cases r) auto
  show "settled p es0 es'" if "result = Returned changed"
    using after(1) w assms(3) eq that by auto
qed

lemma settled_safe: "settled p es0 es \<Longrightarrow> safe p es0 es"
  by (auto simp: settled_def safe_def kept_def acceptable_def intro: complete_part)

lemma runs_safe:
  assumes "map_ok (pd_Files p)" "list_all (\<lambda>run. manifest_elsewhere (fst (snd run))) runs" "safe p es0 es"
  shows "safe p es0 (after_runs p runs es)"
  using assms(2,3)
proof (induction runs arbitrary: es)
  case (Cons run runs)
  obtain result es' where run: "run_install p run es = (result, es')" by (rule prod.exhaust)
  have "safe p es0 es'"
    using run_install_safe [OF assms(1) _ Cons.prems(2) run] Cons.prems(1) settled_safe by auto
  then show ?case using Cons.IH [of es'] Cons.prems(1) run by (simp add: after_runs_def)
qed (simp add: after_runs_def)

lemma safe_first:
  assumes "map_ok es0" "clean p es0"
  shows "safe p es0 es0"
  using assms by (auto simp: safe_def beside_kept_def kept_def acceptable_def clean_def no_backup_def split: option.split)

end
