(* ===== verification/Aht_PluginInputs.thy ===== *)
theory Aht_PluginInputs
  imports Aht_PluginSafety
begin

section \<open>A plugin and interrupted installations\<close>

text \<open>
  A plugin of two files over an older version of it, beside a file of the user; a manifest whose
  actions are calls; and installations that are stopped after some calls, fail at one, or go through.
\<close>

definition ex_plugin :: plugin where
  "ex_plugin =
     \<lparr>pd_Base = ''aht'', pd_MarkerFile = ''m'', pd_Files = [(''m'', managedMarker @ '' 2''), (''hooks/run'', ''new'')],
      pd_SnippetOrder = []\<rparr>"

definition ex_beside :: "entry go_map" where
  "ex_beside =
     [(''aht'', \<lparr>en_node = Tree [] [(''m'', managedMarker @ '' 1'')], en_time = 1\<rparr>),
      (''notes'', \<lparr>en_node = NotDir ''n'', en_time = 1\<rparr>)]"

definition ex_import_manifest :: manifest_actions where
  "ex_import_manifest =
     \<lparr>ma_planned = and_then (must ''reading'') (\<lambda>_. returned True), ma_prepare = must ''reading'',
      ma_write = must ''writing'', ma_undo = must ''restoring''\<rparr>"

definition ex_plugin_env :: "32 word \<Rightarrow> plugin_env" where
  "ex_plugin_env n = \<lparr>pe_pick = (\<lambda>_ _. n), pe_now = int (unat n)\<rparr>"

text \<open>Stopped while the old plugin is moved aside, and then failing to write the manifest.\<close>

definition ex_interruptions :: "plugin_run list" where
  "ex_interruptions =
     [(ex_plugin_env 1, ex_import_manifest, replicate 24 True),
      (ex_plugin_env 2, ex_import_manifest, replicate 39 True @ [False] @ replicate 9 True)]"

lemma ex_import_manifest_elsewhere [simp]: "manifest_elsewhere ex_import_manifest"
  by (auto simp: manifest_elsewhere_def elsewhere_def ex_import_manifest_def must_def and_then_def syscall_def
      returned_def raised_def split: list.split)

end
