(* ===== verification/Spec2Isabelle.thy ===== *)
theory Spec2Isabelle
  imports Aht_CycleInputs Aht_RouteInputs Aht_Ordering Aht_CatalogFacts Aht_InstallInputs Aht_ClockInputs
    Aht_HazardInputs Aht_PluginInputs
begin

text \<open>
  This library models the core of \<open>aht\<close>, which tracks the agent processes running in the
  terminals of a machine: the session registry with its stores, the checker that runs beside it,
  the detection of an agent's state from its screen, the observer that turns what runs on the
  machine into observations, the adapters and the catalog of harnesses it recognises agents by,
  the broker that serves the registry to other processes, and the client that reaches it through
  the broker or the files and selects, locates and waits for sessions.

  \<^bold>\<open>The program.\<close> Hooks of agents, process scans, multiplexers and catalogs send observations.
  The reducer (\<open>pkg/registry/reducer.go\<close>) finds the session an observation is about, or
  creates one, moves the state machine of its incarnation, and stores the evidence. A store keeps
  the resulting snapshot: the file store folds an append-only journal over the last checkpoint for
  every command, and the owner store holds the snapshot in memory, drains what other writers
  append, and writes checkpoints. Readers filter, sort and summarise sessions, or follow the
  changes by revision numbers. \<open>internal/registrycheck\<close> watches transitions against a list of
  rules. \<open>internal/agentstate\<close> compiles manifests of screen rules, evaluates them on the captured
  lines of a pane and reports the state it sees, which comes back to the registry as a reading.
  \<open>internal/observer\<close> runs in cycles: it takes an inventory of processes, panes and catalog entries,
  finds the agents among the processes by the names and commands \<open>internal/harness\<close> knows, places
  them in panes, reads screens, notices which agents are gone, and gives the store one batch.
  \<open>pkg/client\<close> picks a session by name, finds the session a process runs in by climbing the
  process table, and waits until a session reaches a state and holds it. Its calls go to the
  broker of \<open>internal/brokerserver\<close>, which owns the memory store, over the protocol of \<open>pkg/broker\<close>,
  or to the files, or to the broker first and to the files where it cannot be had. Agents
  report through hooks that \<open>internal/install\<close> puts into their configuration files.

  \<^bold>\<open>Theories.\<close>
  \<^item> \<open>Aht_Prelude\<close>: times and durations, strings, insertion-ordered maps, folds with errors, the
    locales for loops that keep an invariant and for comparators.
  \<^item> \<open>Aht_Paths\<close>: the functions of \<open>path/filepath\<close> that the code uses.
  \<^item> \<open>Aht_Model\<close>, \<open>Aht_Liveness\<close>, \<open>Aht_Evidence\<close>, \<open>Aht_Authority\<close>, \<open>Aht_Detail\<close>: the data of
    \<open>model.go\<close>, \<open>liveness.go\<close>, \<open>evidence.go\<close>, \<open>evidence_validation.go\<close>, \<open>rules.go\<close>,
    \<open>authority.go\<close>, \<open>detail.go\<close> with their operations.
  \<^item> \<open>Aht_Lifecycle\<close>, \<open>Aht_EvidenceStore\<close>, \<open>Aht_Matching\<close>, \<open>Aht_Reducer\<close>: the reducer, from
    \<open>lifecycle.go\<close>, \<open>evidence_store.go\<close>, \<open>matching.go\<close>, \<open>reducer.go\<close> and \<open>changes.go\<close>.
  \<^item> \<open>Aht_Validation\<close>: \<open>state_validation.go\<close>. \<open>Aht_Invariant\<close>, \<open>Aht_Preservation\<close>,
    \<open>Aht_Sessions\<close>: the invariant of a session and of a registry, kept by every operation.
  \<^item> \<open>Aht_Ordering\<close>: times and sequence numbers of evidence. \<open>Aht_Hazards\<close>: where the reducer leaves a
    detail behind or reads through a nil process, the numbers both kinds of writer give to their
    entries, and the reset by the owner.
  \<^item> \<open>Aht_Query\<close>, \<open>Aht_Summary\<close>: \<open>query.go\<close> and \<open>summary.go\<close>.
  \<^item> \<open>Aht_Journal\<close>, \<open>Aht_Durability\<close>: \<open>journal.go\<close>, the file store, and what survives a crash.
  \<^item> \<open>Aht_MemoryStore\<close>, \<open>Aht_Owner\<close>, \<open>Aht_Runs\<close>: \<open>memory_store.go\<close> and \<open>journal_read.go\<close>, the
    guarantees of each command, and the runs of an owner with fallback writers.
  \<^item> \<open>Aht_RegistryCheck\<close>: \<open>internal/registrycheck\<close>.
  \<^item> \<open>Aht_Screen\<close>, \<open>Aht_Detector\<close>: \<open>internal/agentstate/detector.go\<close> and \<open>manifest.go\<close>, with
    \<open>BoundBottomLines\<close> of \<open>pkg/mux\<close> and \<open>pkg/detection\<close>: text and regions of a screen, validation
    and compilation of a manifest, the evaluation of its rules, the loader and its cache.
    \<open>Aht_Detection\<close>: what a detection returns, and what the cache may change.
  \<^item> \<open>Aht_Client\<close>: \<open>selector.go\<close> and \<open>current.go\<close> of \<open>pkg/client\<close>. \<open>Aht_Resolution\<close>: the session a
    selector names, and the climb through the process table as a relation.
  \<^item> \<open>Aht_Wait\<close>: \<open>wait.go\<close> of \<open>pkg/client\<close>. \<open>Aht_Waiting\<close>: the trace of a wait and what has held when
    it returns. \<open>Aht_WaitClock\<close>: the selects of a wait with the end of its context among their cases,
    and the bound on the events it takes after that.
  \<^item> \<open>Aht_Process\<close>: the records of \<open>internal/processinfo\<close> and the wrappers that launch agents.
    \<open>Aht_Harness\<close>, \<open>Aht_Adapters\<close>, \<open>Aht_Catalog\<close>: what the twenty adapters below \<open>internal/harness\<close>
    say of their harness, and \<open>catalog.go\<close> and \<open>rules.go\<close>. \<open>Aht_CatalogFacts\<close>: names and commands
    identify one harness, and preparing an observation keeps it valid.
  \<^item> \<open>Aht_Agents\<close>, \<open>Aht_Panes\<close>, \<open>Aht_Sightings\<close>, \<open>Aht_Observer\<close>: \<open>internal/observer\<close>: the agents among
    the processes, the panes they run in, the observations of a cycle, the cycle and the run.
    \<open>Aht_Inventory\<close>: pruning and climbing as relations on the process table. \<open>Aht_Tracking\<close>,
    \<open>Aht_CycleFacts\<close>, \<open>Aht_Batch\<close>: what each part of a cycle observes and keeps. \<open>Aht_Watch\<close>,
    \<open>Aht_Cycles\<close>: a watch over one process, and runs of cycles as its refinement.
    \<open>Aht_Confirmation\<close>, \<open>Aht_Placement\<close>, \<open>Aht_BatchValid\<close>: which processes are held back, where
    agents are placed, and why the store accepts every observation of a cycle.
  \<^item> \<open>Aht_StoreWatch\<close>: \<open>watch.go\<close>, the watch over the files of a store, and what it has told its
    handler after each turn.
  \<^item> \<open>Aht_Broker\<close>: \<open>protocol.go\<close> and \<open>client.go\<close> of \<open>pkg/broker\<close>. \<open>Aht_BrokerServer\<close>:
    \<open>internal/brokerserver/server.go\<close>. \<open>Aht_Routing\<close>: \<open>store.go\<close> of \<open>pkg/broker\<close>, \<open>client.go\<close> of
    \<open>pkg/client\<close> and the operations of the files they fall back to. \<open>Aht_RoutingFacts\<close>: client and
    server composed, what becomes of a call that is lost, subscriptions, and the accept loop.
  \<^item> \<open>Aht_Json\<close>, \<open>Aht_Hooks\<close>: the JSON values of a configuration, and the hooks \<open>internal/install\<close>
    puts into it and removes from it (\<open>hooks.go\<close>, \<open>harness_plan.go\<close>, \<open>remove.go\<close>, \<open>artifact.go\<close>).
    \<open>Aht_HooksFacts\<close>: which hooks are managed, what a second installation finds, what removal leaves.
    \<open>Aht_TextBlock\<close>: blocks between markers in text files. \<open>Aht_HookPlans\<close>: the hooks of six adapters.
  \<^item> \<open>Aht_PluginDirectory\<close>: \<open>plugin_directory.go\<close> with the installation and removal of a plugin from
    \<open>harness_plan.go\<close> and \<open>remove.go\<close>. \<open>Aht_PluginFacts\<close>, \<open>Aht_PluginSafety\<close>: a triple over what an
    operation returns, raises or is stopped with; the phases of a replacement, recovery, and runs of
    installations that are interrupted.
  \<^item> \<open>Aht_Examples\<close>, \<open>Aht_Inputs\<close>, \<open>Aht_CycleInputs\<close>, \<open>Aht_RouteInputs\<close>, \<open>Aht_InstallInputs\<close>,
    \<open>Aht_ClockInputs\<close>, \<open>Aht_HazardInputs\<close>, \<open>Aht_PluginInputs\<close>: the inputs of the witnesses.

  \<^bold>\<open>Correspondence.\<close> A struct is a record, an enumeration with known values a datatype with one more
  constructor for other strings, an interface with several implementations a datatype. A Go map is
  an association list with distinct keys, whose order stands for the order a \<open>range\<close> loop happens
  to take; the order-independence theorems quantify over it. Times are nanoseconds as integers with
  zero for the zero time; durations saturate as \<open>time.Sub\<close> does; sequence numbers are 64-bit words.
  Errors are values, one constructor per sentinel error and the fixed part of the message where the
  code has no sentinel; a nil dereference is the error \<open>ErrNilDereference\<close>. Nil and empty slices
  and maps are identified. A context is the function that tells whether it is cancelled at each
  poll. The digest of session identifiers, the JSON validity test, the policies of the
  harnesses, the clock and the path resolution of the operating system are parameters. The disk
  is the decoded snapshot and journal; every write has one of three outcomes: written, failed, or
  written without being synced.

  The regular expressions and the Unicode case folding of the rule language, the TOML decoder, the
  file system with its fingerprints, and the process table are parameters too. The climb through
  the process table ends because it never visits a process identifier twice and there are at most
  \<open>max_pid\<close> of them, which is the largest value of the code's integer type. A wait meets its
  environment in turns: the watch events, timers and cancellations it selects on, in the order they
  happen to arrive. A stable sort is an insertion sort; two stable sorts of one list by one
  comparison agree wherever the comparison is a total preorder.

  An exchange with the broker is described by how far it comes: the connection, the sending, the
  frame that is read. A subscription meets its environment in turns too: what the other clients do
  to the store, whether the heartbeat is due, whether a frame can be written. The limit of a frame
  is compared with the length of an encoding that is a parameter.

  The JSON of a configuration is a tree whose numbers keep their texts; a number the code makes is a
  float with an integral value, which becomes a text when the file is read again. A pattern over the
  commands of hooks is a function on strings; the splitter of shell words is a parameter of which the
  properties only ask that it reads back a program followed by plain words (\<open>splits_words\<close>).
  A plugin is one entry of the map of its parent directory; each call to the operating system succeeds or
  fails as a list of results says, and the machine stops where that list ends, so that every
  crash point between two calls is a length of the list.

  \<^bold>\<open>Properties.\<close> C1 to C8 are about the stores: the registry stays well formed, commands are
  atomic, no change is hidden, crashes and stale journals do no harm. C9 relates the reducer to its
  checker. C10 is about finding sessions, C11 and C12 about ordering evidence, C13 and C14 about
  expiry and changes, C15 to C18 about screens and manifests, C19 to C22 about the client, C23 to
  C28 about the observer and what it sends, C29 to C33 about watches of the files and calls through
  the broker, C34 to C37 about installing hooks and removing them. C38 and C39 describe the
  sessions on which the reducer does not do what it means to. C40 is about plugins and the interruption of
  their installation. The facts after them hold of the same definitions and are of use beside the
  properties; some are inputs on which the code and its comments part.

  \<^bold>\<open>Not modelled.\<close> The encoding of files and messages as JSON, file locks, sockets and deadlines,
  multiplexer drivers, the history index, what the adapters read from payloads, transcripts and
  configuration files, the import manifests and registrations of plugins, retired plugins and shims, and
  the command line.
\<close>
section \<open>Properties of the registry\<close>

subsection \<open>Well-formedness and runs\<close>

text \<open>C1: reducing a batch of observations into a well-formed registry gives a well-formed
  registry: every session keeps an identity, a liveness that agrees with its incarnation, a
  process that matches it and valid evidence slots, and every session that is not gone keeps a detail
  its activity allows. A gone session may be left with a detail, and that is the only thing for which a
  reader can refuse the registry. The observations are valid, which the reducer checks; in addition they
  are received after the epoch, none is dated before it, no detail is observed after its receipt, and a screen reading names a
  manifest version that is not negative and an authority for details.\<close>

theorem batch_keeps_wellformed:
  assumes "sessions_wf (sn_Sessions sn)" "list_all (observation_sane received) obs" "0 < received"
    and "applyObservationBatch ctx r sn obs received = Inr (out, saved, ended)"
  shows "sessions_wf (sn_Sessions out) \<and>
    (validateSnapshot out = None \<longleftrightarrow>
      (\<forall>x \<in> set (sn_Sessions out). s_Presence (snd x) = PresenceGone \<longrightarrow> s_Detail (snd x) = None))"
  using batch_wf [OF assms] validate_iff_retired_clear by (simp add: retired_clear_def)

theorem batch_keeps_wellformed_witness:
  "sessions_wf (sn_Sessions ex_snapshot) \<and> length (sn_Sessions ex_snapshot) = 2 \<and> validateSnapshot ex_snapshot = None"
proof -
  obtain saved ended where b:
    "applyObservationBatch (\<lambda>_. False) ex_reducer newSnapshot ex_batch 10 = Inr (ex_snapshot, saved, ended)"
    using ex_batch_runs by (metis surj_pair)
  have "list_all (observation_sane 10) ex_batch" by code_simp
  moreover have "length (sn_Sessions ex_snapshot) = 2" by code_simp
  moreover have "list_all (\<lambda>x. s_Presence (snd x) = PresenceGone \<longrightarrow> s_Detail (snd x) = None) (sn_Sessions ex_snapshot)"
    by code_simp
  ultimately show ?thesis
    using batch_keeps_wellformed [OF _ _ _ b] by (simp add: newSnapshot_def list_all_iff)
qed

text \<open>C2: let a store be opened over a disk whose sessions are well formed and whose journal keeps the
  bounds below, and let its owner, and while it owns the store the fallback writers, carry out commands, reads, flushes and the closing in any order, with any failing write
  and cancelled context. As long as every command is received after the epoch and its observations are
  not dated before it, carry no detail observed after their receipt, and no reading with a negative
  manifest version or an authority that is none for details, the snapshot the owner holds is well formed
  and would be accepted by the validation of a reader. Observations outside these bounds are
  accepted too, and some of them do spoil the store.\<close>

theorem runs_stay_valid:
  assumes "reachable json r (s, d)"
  shows "sessions_wf (sn_Sessions (ms_snapshot s)) \<and> validateSnapshot (ms_snapshot s) = None"
  using reachable_ok [OF assms] snapshot_ok_valid by (simp_all add: snapshot_ok_def)

theorem runs_stay_valid_witness:
  "\<exists>s d. reachable (\<lambda>_. True) ex_reducer (s, d) \<and> length (sn_Sessions (ms_snapshot s)) = 1 \<and>
     validateSnapshot (ms_snapshot s) = None"
proof -
  let ?e = "observe_entry 0 [ex_sighting 7 True 5]"
  obtain res s d where cmd:
    "MemoryStore_command (\<lambda>_. True) ex_env ex_reducer ex_store ex_open_disk ?e = (res, s, d)"
    by (metis prod_cases3)
  have "disk_ok ex_disk" by (simp add: disk_ok_def ex_disk_def)
  then have "reachable (\<lambda>_. True) ex_reducer (ex_store, ex_open_disk)"
    using ex_opened by (rule reachable.opened)
  moreover have "command_sane ex_env ?e" by code_simp
  ultimately have r: "reachable (\<lambda>_. True) ex_reducer (s, d)"
    using cmd reachable.stepped store_step.owner_command by blast
  have "length (sn_Sessions (ms_snapshot (fst (snd
      (MemoryStore_command (\<lambda>_. True) ex_env ex_reducer ex_store ex_open_disk ?e))))) = 1" by code_simp
  then show ?thesis using cmd r runs_stay_valid [OF r] by auto
qed

text \<open>C3: a command of the file store is atomic. Whichever write fails or is not synced, and
  wherever the process dies between two writes, a reader then loads the state before the
  command, and the command has reported an error, or exactly the state the command leads to.\<close>

theorem commands_are_atomic:
  assumes "loadLocked calm r d = Inr sn" "sn_JournalSequence sn \<noteq> - 1"
    and "transactLocked ctx r io owner d e = (result, d')"
  shows "d' = d \<and> (\<exists>err. result = Inl err) \<or>
    (\<exists>out res. applyJournalEntry (\<lambda>_. False) r sn (next_entry sn e) = Inr (out, res) \<and> loads r d' out)"
  by (rule transact_atomic [OF assms])

theorem commands_are_atomic_witness:
  "\<exists>d' out res. transactLocked ex_ctx ex_reducer (ex_io\<lparr>io_append := Unsynced\<rparr>) OwnerHeld ex_disk
       (observe_entry 10 ex_batch) = (Inl (ErrStorage ''syncing journal''), d') \<and>
     applyJournalEntry (\<lambda>_. False) ex_reducer newSnapshot (next_entry newSnapshot (observe_entry 10 ex_batch))
       = Inr (out, res) \<and> loads ex_reducer d' out"
proof -
  let ?t = "transactLocked ex_ctx ex_reducer (ex_io\<lparr>io_append := Unsynced\<rparr>) OwnerHeld ex_disk (observe_entry 10 ex_batch)"
  obtain result d' where t: "?t = (result, d')" by fastforce
  have old: "loadLocked calm ex_reducer ex_disk = Inr newSnapshot"
    by (simp add: loadLocked_def loadSnapshot_def ex_disk_def foldJournal_calm_simps validateSnapshot_def newSnapshot_def)
  have "fst ?t = Inl (ErrStorage ''syncing journal'')" "dk_Journal (snd ?t) \<noteq> []" by code_simp+
  then have "result = Inl (ErrStorage ''syncing journal'')" "d' \<noteq> ex_disk" using t by (auto simp: ex_disk_def)
  then show ?thesis
    using commands_are_atomic [OF old _ t] t by (auto simp: newSnapshot_def)
qed

text \<open>C4: consumers that compare revisions miss nothing: no step of the owner or of a fallback
  writer leaves the public revision where it was while it changes what consumers see of a
  session, or adds or removes one.\<close>

theorem no_step_hides_changes:
  assumes "store_step json r (s, d) (s', d')" "ms_revision s' = ms_revision s"
  shows "visible s' = visible s"
  by (rule seen_unmoved [OF store_step_seen [OF assms(1)] assms(2)])

theorem no_step_hides_changes_witness:
  "visible (fst (snd (MemoryStore_command (\<lambda>_. True) ex_env ex_reducer ex_store ex_open_disk (observe_entry 0 []))))
     = visible ex_store"
proof -
  let ?c = "MemoryStore_command (\<lambda>_. True) ex_env ex_reducer ex_store ex_open_disk (observe_entry 0 [])"
  obtain res s d where cmd: "?c = (res, s, d)" by (metis prod_cases3)
  have "command_sane ex_env (observe_entry 0 [])" by code_simp
  then have step: "store_step (\<lambda>_. True) ex_reducer (ex_store, ex_open_disk) (s, d)"
    using cmd by (rule store_step.owner_command)
  have "ms_revision (fst (snd ?c)) = ms_revision ex_store" by code_simp
  then show ?thesis using no_step_hides_changes [OF step] cmd by simp
qed

text \<open>C5: both kinds of writer number their entries in order. Over a journal that is strictly increasing,
  a successful command of the owner, a reset included, leaves it so and the memory at or past everything
  on the disk, as long as the 64-bit counter does not wrap around. A fallback writer, whether its command
  succeeds or fails and whatever it leaves half done, leaves the journal strictly increasing, and what it
  has appended has a number above every number the disk held, which no reader can take for one it
  has seen, as long as the largest number is not in use.\<close>

theorem command_keeps_journal:
  assumes "journal_ordered d"
    and "MemoryStore_command json env r s d e = (Inr res, s', d')" "sn_JournalSequence (ms_snapshot s') \<noteq> 0"
    and "disk_room d" "transactLocked ctx r io owner d e' = (result, d'')"
  shows "journal_ordered d' \<and> covered s' d' \<and> journal_ordered d'' \<and>
    (\<forall>x \<in> set (dk_Journal d''). x \<in> set (dk_Journal d) \<or> above_disk d (entry_sequence x))"
  using owner_command_covers [OF assms(1-3)] fallback_numbers [OF assms(1,4,5)] by blast

theorem command_keeps_journal_witness:
  "\<exists>res s d. MemoryStore_command (\<lambda>_. True) ex_env ex_reducer ex_store
       (ex_open_disk\<lparr>dk_Journal := ex_journal\<rparr>) (observe_entry 0 [ex_sighting 8 True 9]) = (Inr res, s, d) \<and>
     covered s d \<and> length (dk_Journal d) = 3 \<and>
     journal_ordered (snd (transactLocked ex_ctx ex_reducer ex_io OwnerHeld (ex_open_disk\<lparr>dk_Journal := ex_journal\<rparr>)
       (observe_entry 10 [ex_sighting 8 True 9])))"
proof -
  let ?d = "ex_open_disk\<lparr>dk_Journal := ex_journal\<rparr>"
  let ?c = "MemoryStore_command (\<lambda>_. True) ex_env ex_reducer ex_store ?d (observe_entry 0 [ex_sighting 8 True 9])"
  let ?t = "transactLocked ex_ctx ex_reducer ex_io OwnerHeld ?d (observe_entry 10 [ex_sighting 8 True 9])"
  obtain result s d where cmd: "?c = (result, s, d)" by (metis prod_cases3)
  obtain result' d' where tr: "?t = (result', d')" by fastforce
  have "\<not> isl (fst ?c)" "sn_JournalSequence (ms_snapshot (fst (snd ?c))) = 3"
    "length (dk_Journal (snd (snd ?c))) = 3" by code_simp+
  then obtain res where r: "result = Inr res" "sn_JournalSequence (ms_snapshot s) \<noteq> 0" "length (dk_Journal d) = 3"
    using cmd by (cases result) auto
  have "journal_ordered ?d" "disk_room ?d" by code_simp+
  from command_keeps_journal [OF this(1) cmd [unfolded r(1)] r(2) this(2) tr] show ?thesis
    using cmd tr r by auto
qed

subsection \<open>Durability\<close>

text \<open>C6: after a flush that had something to write, the disk loads exactly the snapshot in
  memory, and the store knows that it is persisted.\<close>

theorem flush_makes_durable:
  assumes "snapshot_ok (ms_snapshot s)" "disk_ok d" "ms_owned s"
    and "ms_persistedRevision s < ms_storageRevision s'"
    and "persist True env r True s d = (None, s', d')"
  shows "loads r d' (ms_snapshot s') \<and> ms_persistedRevision s' = ms_storageRevision s'"
  using flush_durable [OF assms] by blast

theorem flush_makes_durable_witness:
  "\<exists>s d. persist True ex_env ex_reducer True (fst ex_changed) (snd ex_changed) = (None, s, d) \<and>
     loads ex_reducer d (ms_snapshot s) \<and> length (sn_Sessions (ms_snapshot s)) = 1"
proof -
  let ?p = "persist True ex_env ex_reducer True (fst ex_changed) (snd ex_changed)"
  obtain err s d where p: "?p = (err, s, d)" by (metis prod_cases3)
  have "fst ?p = None" "ms_persistedRevision (fst ex_changed) < ms_storageRevision (fst (snd ?p))"
    "length (sn_Sessions (ms_snapshot (fst (snd ?p)))) = 1" by code_simp+
  then have p': "?p = (None, s, d)" "ms_persistedRevision (fst ex_changed) < ms_storageRevision s"
    "length (sn_Sessions (ms_snapshot s)) = 1" using p by simp_all
  have "snapshot_ok (ms_snapshot (fst ex_changed))" "disk_ok (snd ex_changed)" "ms_owned (fst ex_changed)"
    by code_simp+
  then show ?thesis using flush_makes_durable [OF _ _ _ p'(2,1)] p' by blast
qed

text \<open>C7: a crash between writing a checkpoint and emptying the journal is harmless: every part
  of the journal that the checkpoint already contains is skipped when it is read again.\<close>

theorem stale_journal_is_harmless:
  assumes "foldJournal calm r sn ds = Inr out" "set es \<subseteq> set ds"
  shows "foldJournal calm r (encoded_snapshot out) es = Inr (encoded_snapshot out)"
  by (rule foldJournal_skip) (use assms foldJournal_applied [OF assms(1)] in \<open>auto simp: encoded_snapshot_def\<close>)

theorem stale_journal_is_harmless_witness:
  "\<exists>out. foldJournal calm ex_reducer newSnapshot ex_journal = Inr out \<and>
     foldJournal calm ex_reducer (encoded_snapshot out) (drop 1 ex_journal) = Inr (encoded_snapshot out)"
proof -
  have "\<not> isl (foldJournal calm ex_reducer newSnapshot ex_journal)" by code_simp
  then obtain out where out: "foldJournal calm ex_reducer newSnapshot ex_journal = Inr out"
    by (cases "foldJournal calm ex_reducer newSnapshot ex_journal") auto
  show ?thesis using stale_journal_is_harmless [OF out set_drop_subset [of 1]] out by blast
qed



subsection \<open>The lifecycle of a session\<close>

text \<open>C9: the transition of one session that the reducer accepts passes every check of
  \<open>registrycheck\<close>, given that a report that ends a process is about the session it reduces.\<close>

theorem reduced_session_passes_check:
  assumes "session_wf s" "reducing ob at received" "observationTime (ob_At ob) received = at"
    and "\<And>rep. ob_Evidence ob = EvReport rep \<Longrightarrow> reportEnds rep \<Longrightarrow>
           ob_Harness ob = s_Harness s \<and> \<not> observationIdentityConflicts s (ob_Subject ob)"
    and "reduceSession r m s ob at received = Inr (m', s')"
  shows "check_Transition s s' ob = None"
  by (rule reduceSession_checked [OF assms])

theorem reduced_session_passes_check_witness:
  "\<exists>m s. reduceSession ex_reducer ex_sessions ex_session (ex_live_report 7 ''A'' 2 ActivityIdle 8) 8 10 = Inr (m, s) \<and>
     check_Transition ex_session s (ex_live_report 7 ''A'' 2 ActivityIdle 8) = None"
proof -
  let ?ob = "ex_live_report 7 ''A'' 2 ActivityIdle 8"
  let ?r = "reduceSession ex_reducer ex_sessions ex_session ?ob 8 10"
  have "\<not> isl ?r" by code_simp
  then obtain m s where r: "?r = Inr (m, s)" by (cases ?r) auto
  have wf: "session_wf ex_session" by code_simp
  have "validateObservation (\<lambda>_. True) ?ob = None" "observation_sane 10 ?ob" by code_simp+
  then have red: "reducing ?ob 8 10" by (simp add: reducing_def validateObservation_ok)
  have time: "observationTime (ob_At ?ob) 10 = 8" by code_simp
  have "ob_Harness ?ob = s_Harness ex_session" "\<not> observationIdentityConflicts ex_session (ob_Subject ?ob)"
    by code_simp+
  then show ?thesis using reduced_session_passes_check [OF wf red time _ r] r by blast
qed

subsection \<open>Matching and retirement\<close>

text \<open>C10: which session an observation belongs to does not depend on the order in which the loop
  over the session map happens to run.\<close>

theorem match_is_order_independent:
  assumes "map_ok m" "map_ok m'" "named_keys m" "map_of m = map_of m'"
  shows "findMatchingSession m ob = findMatchingSession m' ob"
  by (simp only: findMatchingSession_def findProcessMatchingSession_def findIdentityMatchingSession_def
      findListingMatchingSession_def bestMatching_order [OF assms])

theorem match_is_order_independent_witness:
  "findMatchingSession ex_sessions (ex_live_report 7 ''A'' 2 ActivityIdle 8) =
     findMatchingSession (rev ex_sessions) (ex_live_report 7 ''A'' 2 ActivityIdle 8) \<and>
   findMatchingSession ex_sessions (ex_live_report 7 ''A'' 2 ActivityIdle 8) \<noteq> []"
proof -
  have ok: "map_ok ex_sessions" "map_ok (rev ex_sessions)" "named_keys ex_sessions"
    "findMatchingSession ex_sessions (ex_live_report 7 ''A'' 2 ActivityIdle 8) \<noteq> []" by code_simp+
  have "map_of ex_sessions = map_of (rev ex_sessions)"
    using map_of_rev_ok [OF ok(1)] by simp
  then show ?thesis using match_is_order_independent [OF ok(1-3)] ok(4) by blast
qed

subsection \<open>The order of evidence\<close>

text \<open>C11: the evidence of one source goes back only where an incarnation begins or ends. An observation
  dated at the epoch or later that is applied leaves the session as it is, or leaves its time in the slot of its source; that time is
  before the one the slot had only if the observation starts a new incarnation, whose slots are cleared, or
  ends the one there is, which is accepted from an earlier time too.\<close>

theorem evidence_never_goes_back:
  assumes "applyObservation r ob at received t s = Inr s'" "0 \<le> at"
  shows "(s' = s \<or> sourceSlotTime s' ob =
       (case ob_Evidence ob of NoEvidence \<Rightarrow> 0 | EvVerification _ \<Rightarrow> 0 | _ \<Rightarrow> at)) \<and>
    (sourceSlotTime s' ob < sourceSlotTime s ob \<longrightarrow> t_reset t \<or> t_terminal t)"
  using applied_slot_time [OF assms] by fastforce

theorem evidence_never_goes_back_witness:
  "\<exists>s. applyObservation ex_reducer (ex_sighting 7 True 9) 9 10
       (transitionIncarnation ex_session (ex_sighting 7 True 9) 9 False) ex_session = Inr s \<and>
     sourceSlotTime ex_session (ex_sighting 7 True 9) \<le> sourceSlotTime s (ex_sighting 7 True 9)"
proof -
  let ?t = "transitionIncarnation ex_session (ex_sighting 7 True 9) 9 False"
  let ?a = "applyObservation ex_reducer (ex_sighting 7 True 9) 9 10 ?t ex_session"
  have "\<not> isl ?a" "\<not> t_reset ?t" "\<not> t_terminal ?t" by code_simp+
  then obtain s where a: "?a = Inr s" "\<not> t_reset ?t" "\<not> t_terminal ?t" by (cases ?a) auto
  then show ?thesis using evidence_never_goes_back [OF a(1)] by (auto simp: not_less [symmetric])
qed

text \<open>C12: within an incarnation a reporter that has a name and numbers its reports is only accepted in order: the
  report that follows one of the same reporter and process either starts a new incarnation, or is the
  duplicate of the one before and changes nothing, or carries a greater number and is stored at a later
  time. The start of an incarnation forgets the numbers of the one before.\<close>

theorem sequences_only_grow:
  assumes "reduceSession r m s ob at received = Inr (m', s')"
    and "o_Native (s_Observations s) = Some n" "ob_Evidence ob = EvReport rep" "sameReportProcess n rep"
    and "trim_space (rp_Integration (r_Reporter rep)) \<noteq> []"
    and "trim_space (rp_Integration (n_Reporter n)) = trim_space (rp_Integration (r_Reporter rep))"
    and "rp_Sequence (n_Reporter n) = Some q"
  shows "t_reset (transitionIncarnation s ob at False) \<or> m' = m \<and> s' = s \<or>
    (\<exists>n' q'. o_Native (s_Observations s') = Some n' \<and> rp_Sequence (n_Reporter n') = Some q' \<and>
       q < q' \<and> n_ObservedAt n < n_ObservedAt n')"
  using reduced_sequence [OF assms(1) _ assms(2-7)] by blast

theorem sequences_only_grow_witness:
  "\<exists>m s n q. reduceSession ex_reducer ex_sessions ex_session (ex_live_report 7 ''A'' 2 ActivityIdle 4) 4 10 = Inr (m, s) \<and>
     o_Native (s_Observations s) = Some n \<and> rp_Sequence (n_Reporter n) = Some q \<and> 1 < q \<and> 6 < n_ObservedAt n"
proof -
  let ?ob = "ex_live_report 7 ''A'' 2 ActivityIdle 4"
  let ?r = "reduceSession ex_reducer ex_sessions ex_session ?ob 4 10"
  let ?n = "the (o_Native (s_Observations ex_session))"
  have "\<not> isl ?r" "snd (projr ?r) \<noteq> ex_session" by code_simp+
  then obtain m s where r: "?r = Inr (m, s)" "s \<noteq> ex_session" by (cases ?r) auto
  have n: "o_Native (s_Observations ex_session) = Some ?n" by code_simp
  have ev: "ob_Evidence ?ob = EvReport (ob_Report ?ob)" by code_simp
  have h: "\<not> t_reset (transitionIncarnation ex_session ?ob 4 False)" "sameReportProcess ?n (ob_Report ?ob)"
    "trim_space (rp_Integration (r_Reporter (ob_Report ?ob))) \<noteq> []"
    "trim_space (rp_Integration (n_Reporter ?n)) = trim_space (rp_Integration (r_Reporter (ob_Report ?ob)))"
    "rp_Sequence (n_Reporter ?n) = Some 1" "n_ObservedAt ?n = 6"
    by code_simp+
  show ?thesis using sequences_only_grow [OF r(1) n ev h(2-5)] r h(1,6) by auto
qed

subsection \<open>Expiry and changes\<close>

text \<open>C13: the expiry removes exactly the gone sessions that are known only by their process or
  have been gone for the time to live, and keeps every other session as it is.\<close>

theorem expiry_removes_exactly:
  assumes "map_ok (sn_Sessions sn)"
  shows "map_of (sn_Sessions (fst (expireTombstones sn now ttl))) k =
     (case map_of (sn_Sessions sn) k of
        None \<Rightarrow> None
      | Some s \<Rightarrow>
          if s_Presence s = PresenceGone \<and> (processOnlySession s \<or> time_sub now (goneSince s) \<ge> ttl)
          then None else Some s)"
  using expireTombstones_spec [OF assms] by (simp add: expired_session_def cong: option.case_cong)

theorem expiry_removes_exactly_witness:
  "map_of (sn_Sessions (fst (expireTombstones ex_gone 10 100))) (fst (hd (sn_Sessions ex_gone))) = None \<and>
   sn_Sessions ex_gone \<noteq> []"
proof -
  let ?x = "hd (sn_Sessions ex_gone)"
  have "map_ok (sn_Sessions ex_gone)" "map_of (sn_Sessions ex_gone) (fst ?x) = Some (snd ?x)"
    "s_Presence (snd ?x) = PresenceGone" "processOnlySession (snd ?x)" "sn_Sessions ex_gone \<noteq> []"
    by code_simp+
  then show ?thesis using expiry_removes_exactly [of ex_gone 10 100 "fst ?x"] by simp
qed

text \<open>C14: the changes between two states name exactly the sessions that appeared, disappeared or
  differ in something a consumer can see.\<close>

theorem changes_are_exact:
  assumes "map_ok old" "map_ok new"
  shows "c \<in> set (stateChanges old new) \<longleftrightarrow>
     (case (map_of old (c_ID c), map_of new (c_ID c)) of
        (None, None) \<Rightarrow> False
      | (Some _, None) \<Rightarrow> c_Removed c
      | (None, Some _) \<Rightarrow> \<not> c_Removed c
      | (Some p, Some q) \<Rightarrow> \<not> c_Removed c \<and> consumerState p \<noteq> consumerState q)"
  by (rule stateChanges_spec [OF assms])

theorem changes_are_exact_witness:
  "\<lparr>c_ID = fst (hd ex_sessions), c_Removed = True\<rparr> \<in> set (stateChanges ex_sessions [])"
proof -
  have "map_ok ex_sessions" "map_of ex_sessions (fst (hd ex_sessions)) = Some (snd (hd ex_sessions))"
    by code_simp+
  then show ?thesis
    using changes_are_exact [of ex_sessions "[]" "\<lparr>c_ID = fst (hd ex_sessions), c_Removed = True\<rparr>"] by simp
qed


subsection \<open>Screens\<close>

text \<open>C15: among the rules that match a screen, the one of highest priority that comes first in the
  manifest decides activity and detail; where no rule matches, the activity is unknown.\<close>

theorem first_matching_rule_decides:
  "let d = Manifest_Evaluate te m snap; rules = mf_Rules m in
   (\<exists>i < length rules. rule_matches te (rules ! i) snap \<and> dn_RuleID d = sr_ID (rules ! i) \<and>
      dn_Activity d = state_activity (sr_State (rules ! i)) \<and> dn_Detail d = sr_Detail (rules ! i) \<and>
      (\<forall>j < length rules. rule_matches te (rules ! j) snap \<longrightarrow>
         sr_Priority (rules ! j) < sr_Priority (rules ! i) \<or>
         sr_Priority (rules ! j) = sr_Priority (rules ! i) \<and> i \<le> j)) \<or>
   (\<forall>r \<in> set rules. \<not> rule_matches te r snap) \<and> dn_RuleID d = '''' \<and>
     dn_Activity d = ActivityUnknown \<and> dn_Reason d = ''no_rule_matched''"
proof (cases "\<exists>r \<in> set (mf_Rules m). rule_matches te r snap")
  case True
  then show ?thesis using evaluate_some [of _ m te snap] unfolding Let_def by blast
next
  case False
  then show ?thesis using evaluate_none [of m te snap] by (simp add: Let_def)
qed

theorem first_matching_rule_decides_witness:
  "dn_RuleID (Manifest_Evaluate ex_engine ex_manifest ex_snap) = ''busy'' \<and>
   (\<exists>i. dn_RuleID (Manifest_Evaluate ex_engine ex_manifest ex_snap) = sr_ID (mf_Rules ex_manifest ! i))"
proof -
  have "dn_RuleID (Manifest_Evaluate ex_engine ex_manifest ex_snap) = ''busy''" by code_simp
  then show ?thesis
    using first_matching_rule_decides [of ex_engine ex_manifest ex_snap] unfolding Let_def by auto
qed

text \<open>C16: what \<open>Inspect\<close> shows of a valid manifest is what tracking does with it. Its decision is
  that of \<open>Evaluate\<close> although it matches the rules with code of its own, it lists every rule with
  whether it matches, and it marks as the winner the rule of the decision and no other.\<close>

theorem inspection_agrees_with_evaluation:
  assumes "validateManifest m = None"
  shows "in_Decision (Manifest_Inspect te m snap) = Manifest_Evaluate te m snap \<and>
    map (\<lambda>c. (ca_ID c, ca_Matched c)) (in_Candidates (Manifest_Inspect te m snap)) =
      map (\<lambda>r. (sr_ID r, rule_matches te r snap)) (sortedRules (mf_Rules m)) \<and>
    (\<forall>c \<in> set (in_Candidates (Manifest_Inspect te m snap)).
       ca_Winner c \<longleftrightarrow> ca_ID c = dn_RuleID (Manifest_Evaluate te m snap))"
proof -
  have ids: "\<forall>r \<in> set (mf_Rules m). sr_ID r \<noteq> ''''" "distinct (map sr_ID (mf_Rules m))"
    using validateManifest_rules [OF assms] by blast+
  note decision = inspect_decision [OF ids(1), of te snap] and summary = inspect_summary [OF ids, of te snap]
  have won: "in_WinningRule (Manifest_Inspect te m snap) = dn_RuleID (Manifest_Evaluate te m snap)"
    unfolding decision [symmetric] by (simp add: Manifest_Inspect_def split: prod.split)
  have "ca_ID c \<noteq> ''''" if "c \<in> set (in_Candidates (Manifest_Inspect te m snap))" for c
  proof -
    have "ca_ID c \<in> fst ` set (map (\<lambda>c. (ca_ID c, ca_Matched c)) (in_Candidates (Manifest_Inspect te m snap)))"
      using that by force
    then show ?thesis unfolding summary(1) using ids(1) by (auto simp: sortedRules_def)
  qed
  then show ?thesis using decision summary won by auto
qed

theorem inspection_agrees_with_evaluation_witness:
  "dn_RuleID (in_Decision (Manifest_Inspect ex_engine ex_manifest ex_snap)) = ''busy''"
proof -
  have "validateManifest ex_manifest = None"
    "dn_RuleID (Manifest_Evaluate ex_engine ex_manifest ex_snap) = ''busy''" by code_simp+
  then show ?thesis using inspection_agrees_with_evaluation by simp
qed

text \<open>C17: a valid manifest only decides activities the registry accepts, with a detail that goes with
  the activity, and it leaves an activity unknown exactly when no rule matches.\<close>

theorem decisions_are_wellformed:
  assumes "validateManifest m = None"
  shows "let d = Manifest_Evaluate te m snap in
    activity_valid (dn_Activity d) \<and>
    (dn_Detail d = no_detail \<or> detail_valid_for (dn_Detail d) (dn_Activity d)) \<and>
    (dn_Activity d = ActivityUnknown \<longleftrightarrow> (\<forall>r \<in> set (mf_Rules m). \<not> rule_matches te r snap))"
proof (cases "\<exists>r \<in> set (mf_Rules m). rule_matches te r snap")
  case True
  then obtain r where r: "r \<in> set (mf_Rules m)" "rule_matches te r snap" by blast
  from evaluate_some [OF r] obtain x where x: "x \<in> set (mf_Rules m)"
    and d: "dn_Activity (Manifest_Evaluate te m snap) = state_activity (sr_State x)"
      "dn_Detail (Manifest_Evaluate te m snap) = sr_Detail x"
    unfolding Let_def by (metis nth_mem)
  then show ?thesis
    using validateRule_state [OF validateManifest_rules(3) [OF assms x]] r by (auto simp: Let_def)
next
  case False
  then show ?thesis using evaluate_none [of m te snap] by (simp add: Let_def activity_valid_def)
qed

theorem decisions_are_wellformed_witness:
  "activity_valid (dn_Activity (Manifest_Evaluate ex_engine ex_manifest ex_snap))"
proof -
  have "validateManifest ex_manifest = None" by code_simp
  then show ?thesis using decisions_are_wellformed [of ex_manifest ex_engine ex_snap] by (simp add: Let_def)
qed

text \<open>C18: the cache of manifests cannot be observed. Where the fingerprint of a file determines what
  it holds, any sequence of loads, with files that change between them, returns what loading
  without a cache would each time.\<close>

theorem manifest_cache_is_transparent:
  assumes "list_all (\<lambda>(fp, h, path). CHR 0x00 \<notin> set h) reqs"
  shows "load_sequence te ms content [] reqs =
    map (\<lambda>(fp, h, path). loadUncached te (files_at ms content fp) h path) reqs"
  by (rule load_sequence_correct [OF cache_ok_empty assms])

theorem manifest_cache_is_transparent_witness:
  "load_sequence ex_engine ex_source ex_content [] ex_requests =
     map (\<lambda>(fp, h, path). loadUncached ex_engine (files_at ex_source ex_content fp) h path) ex_requests"
  by (rule manifest_cache_is_transparent) (simp add: ex_requests_def)

subsection \<open>Clients\<close>

text \<open>C19: a selector resolves to a session exactly when that session alone qualifies, where an exact
  identifier wins over every prefix, native identifier or path; and it resolves to nothing exactly
  when nothing qualifies. The order in which the store lists the sessions has no influence.\<close>

theorem selector_names_one_session:
  assumes "distinct (map s_ID ss)"
    and "list_sessions (Selector_Filter sel) = Inr (FilterSessions fs ss (Selector_Filter sel))"
  shows "let Q = {s \<in> set ss. matchesSessionQualifiers fs s sel};
             C = {s \<in> Q. matchesReferenceCandidate fs s (sl_Reference sel)}
    in (Client_Resolve fs True list_sessions sel = Inr s \<longleftrightarrow>
         (if sl_Reference sel = '''' then Q = {s}
          else s \<in> Q \<and> s_ID s = sl_Reference sel \<or> (\<forall>x \<in> Q. s_ID x \<noteq> sl_Reference sel) \<and> C = {s})) \<and>
       (Client_Resolve fs True list_sessions sel = Inl ErrNotFound \<longleftrightarrow>
         (if sl_Reference sel = '''' then Q = {} else C = {}))"
  using resolve_spec(1) [where ss = ss and list_sessions = list_sessions and sel = sel and fs = fs and s = s, OF assms refl]
    resolve_spec(2) [where ss = ss and list_sessions = list_sessions and sel = sel and fs = fs, OF assms refl]
  unfolding Let_def by blast

theorem selector_names_one_session_witness:
  "\<exists>s. Client_Resolve ex_fs True ex_list ex_selector = Inr s \<and>
     {x \<in> set (map snd ex_sessions). matchesSessionQualifiers ex_fs x ex_selector \<and>
        matchesReferenceCandidate ex_fs x ''A''} = {s}"
proof -
  have ids: "distinct (map s_ID (map snd ex_sessions))"
    "list_all (\<lambda>x. s_ID x \<noteq> ''A'') (map snd ex_sessions)"
    "\<not> isl (Client_Resolve ex_fs True ex_list ex_selector)" by code_simp+
  then obtain s where s: "Client_Resolve ex_fs True ex_list ex_selector = Inr s"
    by (cases "Client_Resolve ex_fs True ex_list ex_selector") auto
  have sel: "sl_Reference ex_selector = ''A''" by (simp add: ex_selector_def)
  have "ex_list (Selector_Filter ex_selector) =
      Inr (FilterSessions ex_fs (map snd ex_sessions) (Selector_Filter ex_selector))" by (simp add: ex_list_def)
  from selector_names_one_session
      [where ss = "map snd ex_sessions" and list_sessions = ex_list and sel = ex_selector and fs = ex_fs and s = s,
        OF ids(1) this] show ?thesis
    using s ids(2) unfolding Let_def sel list_all_iff by auto
qed

text \<open>C20: the current session is a live session that belongs to the caller. Either it is the only
  session whose own process, by pid and start identity, is the nearest ancestor of the caller that
  hosts a session; or no ancestor hosts one, and its process is running on the terminal of the
  caller. A reused pid never makes a session current.\<close>

theorem current_session_is_nearest:
  assumes "list_sessions (zero_filter\<lparr>f_Presence := PresenceLive\<rparr>) =
      Inr (FilterSessions fs ss (zero_filter\<lparr>f_Presence := PresenceLive\<rparr>))"
    and "live = FilterSessions fs ss (zero_filter\<lparr>f_Presence := PresenceLive\<rparr>)"
    and "currentWithInspectors fs configured cancelled cancelled' list_sessions opts = Inr s"
  shows "s \<in> set ss \<and> s_Presence s = PresenceLive \<and>
    ((\<exists>q. climb opts live (cu_PID opts) q \<and> {s'. hosted opts live q s'} = {s}) \<or>
     (\<forall>q \<le> max_pid. climb opts live (cu_PID opts) q \<longrightarrow> (\<nexists>s'. hosted opts live q s')) \<and> verified opts s)"
  using current_spec [OF assms(3,1)] current_live [of s fs ss] unfolding assms(2) by blast

theorem current_session_is_nearest_witness:
  "\<exists>s. currentWithInspectors ex_fs True False False ex_list ex_inspectors = Inr s \<and> s_Presence s = PresenceLive"
proof -
  have "\<not> isl (currentWithInspectors ex_fs True False False ex_list ex_inspectors)" by code_simp
  then obtain s where s: "currentWithInspectors ex_fs True False False ex_list ex_inspectors = Inr s"
    by (cases "currentWithInspectors ex_fs True False False ex_list ex_inspectors") auto
  have "ex_list (zero_filter\<lparr>f_Presence := PresenceLive\<rparr>) =
      Inr (FilterSessions ex_fs (map snd ex_sessions) (zero_filter\<lparr>f_Presence := PresenceLive\<rparr>))"
    by (simp add: ex_list_def)
  from current_session_is_nearest [OF this refl s] show ?thesis using s by blast
qed

text \<open>C21: a wait that returns a session has last seen exactly that session, it satisfied the condition
  asked for, and where stability was asked for, it did so in the same process in everything the
  wait saw since a moment at least that long before it returned, without a failure of the stream.
  Timers fire no earlier than set and clocks do not go back.\<close>

theorem wait_returns_what_held:
  assumes "timers_ok (started_run mode o' durable) tns" "sorted (map tn_now tns)"
    and "WaitOptions_Validate o' = None"
    and "wait_loop (started_run mode o' durable) tns = Some (Inr res)"
  shows "let tr = wait_trace (started_run mode o' durable) tns; n = length tr - 1 in
    satisfies (wt_Session res) o' \<and> last_seen tr = Some (wt_Session res) \<and> n < length tns \<and>
    (wo_StableFor o' \<noteq> 0 \<longrightarrow>
      (\<exists>pre t0 s0 rest. tr = pre @ SawSession t0 s0 # rest \<and> t0 + wo_StableFor o' \<le> tn_now (tns ! n) \<and>
         (\<forall>v \<in> set (SawSession t0 s0 # rest). view_holds o' (wt_Session res) v)))"
proof -
  let ?r = "started_run mode o' durable"
  have opts: "wr_opts ?r = o'" by (simp add: started_run_def)
  define t where "t = (case tns of [] \<Rightarrow> 0 | tn # _ \<Rightarrow> tn_now tn)"
  have "sorted (t # map tn_now tns)" using assms(2) by (cases tns) (auto simp: t_def)
  from wait_loop_result [OF started_ok this assms(1,4)] obtain n where
    n: "n < length tns" "length (wait_trace ?r tns) = Suc n" and
    c: "evaluateCondition (wt_Session res) o' = Inr True" "last_seen (wait_trace ?r tns) = Some (wt_Session res)" and
    h: "wo_StableFor o' \<noteq> 0 \<longrightarrow> (\<exists>dl \<le> tn_now (tns ! n). held o' (wait_trace ?r tns) (wt_Session res) dl)"
    unfolding opts by auto
  have "presence_valid (s_Presence (wt_Session res))"
    by (simp add: s_Presence_def presence_valid_def split: liveness.split)
  then have "satisfies (wt_Session res) o'" using condition_satisfied [OF assms(3) c(1)] by blast
  then show ?thesis using n c(2) h unfolding Let_def held_def by (simp, meson)
qed

theorem wait_returns_what_held_witness:
  "\<exists>res. wait_loop (started_run ModeAuto ex_wait False) ex_turns = Some (Inr res) \<and>
     satisfies (wt_Session res) ex_wait"
proof -
  have ok: "timers_ok (started_run ModeAuto ex_wait False) ex_turns" "sorted (map tn_now ex_turns)"
    "WaitOptions_Validate ex_wait = None"
    "pred_option (\<lambda>r. \<not> isl r) (wait_loop (started_run ModeAuto ex_wait False) ex_turns)"
    "wait_loop (started_run ModeAuto ex_wait False) ex_turns \<noteq> None" by code_simp+
  then obtain out where out: "wait_loop (started_run ModeAuto ex_wait False) ex_turns = Some out" by blast
  with ok(4) obtain res where "out = Inr res" by (cases out) auto
  with out have res: "wait_loop (started_run ModeAuto ex_wait False) ex_turns = Some (Inr res)" by simp
  from wait_returns_what_held [OF ok(1-3) res] show ?thesis using res by (auto simp: Let_def)
qed

text \<open>C22: a wait does not outlive its context. With a timeout, or in a context of the caller that ends,
  a wait returns, whatever finitely many inputs its stream has and when, whichever of the ready channels a
  \<open>select\<close> takes, and even where it blocks on a stream that stays silent: no later than its deadline, and
  no later than the end of the context of the caller, or at once where that has ended before. What it
  returns is what a run of the loop of \<open>Wait\<close> returns. Computing is taken to need no time.\<close>

theorem wait_ends_with_its_context:
  assumes "0 < wo_Timeout o' \<or> caller \<noteq> None"
  shows "\<exists>res at tns. Client_WaitTimed configured mode subscription o' pick caller as start = Some (res, at)
    \<and> Client_Wait configured mode subscription o' tns = Some res
    \<and> start \<le> at \<and> (0 < wo_Timeout o' \<longrightarrow> at \<le> start + wo_Timeout o')
    \<and> (\<forall>t e. caller = Some (t, e) \<longrightarrow> at \<le> max start t)"
  by (rule timed_wait_ends [OF assms])

theorem wait_ends_with_its_context_witness:
  "\<exists>tns. Client_WaitTimed True ModeDurableOnly None ex_deadline (\<lambda>_. 0) None [(3, StreamEvent [ex_session])] 0
      = Some (Inl ErrWaitTimeout, 10)
    \<and> Client_Wait True ModeDurableOnly None ex_deadline tns = Some (Inl ErrWaitTimeout)"
proof -
  have "0 < wo_Timeout ex_deadline \<or> None \<noteq> (None :: (time \<times> ctx_end) option)" by code_simp
  from wait_ends_with_its_context [OF this, of True ModeDurableOnly None "\<lambda>_. 0" "[(3, StreamEvent [ex_session])]" 0]
  show ?thesis unfolding ex_timed_wait by auto
qed

subsection \<open>The observer\<close>

text \<open>C23: the observer watches every process at once and each of them alone. Along any run of cycles
  that record their batch, from whatever worlds, the entry of a process in the table of tracked
  processes is what a watch over that process alone computes from the times of the snapshots and
  from whether each batch reports the process present.\<close>

theorem runs_refine_the_watch:
  assumes "recorded_run op o' s ws bs o2 s2" "\<forall>w\<in>set ws. fair_world w" "ready o'"
  shows "watched (os_tracked o2) k =
    watch_run (os_grace o') (zip (map cw_now ws) (map (batch_says k True) bs)) (watched (os_tracked o') k)"
  by (rule recorded_run_watch [OF assms])

theorem runs_refine_the_watch_witness:
  "watched (os_tracked (fst (snd ex_ran))) ex_key =
     watch_run 0 (zip [5, 6, 7] (map (batch_says ex_key True) (fst ex_ran))) None"
  using runs_refine_the_watch [OF ex_run_recorded ex_worlds_fair ex_observer_ready, of ex_key]
  by (simp add: ex_worlds_def ex_world_def ex_observer_def New_observer_def watched_def)

text \<open>C24: a process is given up exactly when its grace is over. Of a process that one batch reports
  present and the next ones do not, a later batch reports that it is gone at the first snapshot at
  which the grace period, or the number of snapshots that stands for it, is over since it was first
  missed, and not before.\<close>

theorem gone_exactly_after_grace:
  assumes "recorded_run op o' s (w0 # w1 # ws) bs o2 s2"
    "\<forall>w\<in>set (w0 # w1 # ws). fair_world w" "ready o'" "cw_now w1 \<noteq> 0"
    and "batch_says k True (bs ! 0)" "i \<le> length ws" "\<forall>j\<le>i. \<not> batch_says k True (bs ! Suc j)"
    and "\<forall>j<i. \<not> over (os_grace o') (cw_now w1) (cw_now ((w1 # ws) ! j)) (int (Suc j))"
  shows "batch_says k False (bs ! Suc i) \<longleftrightarrow>
    over (os_grace o') (cw_now w1) (cw_now ((w1 # ws) ! i)) (int (Suc i))"
  by (rule gone_when_over [OF assms])

theorem gone_exactly_after_grace_witness:
  "batch_says ex_key False (fst ex_ran ! 2) \<and> \<not> batch_says ex_key False (fst ex_ran ! 1)"
proof -
  note run = ex_run_recorded [unfolded ex_worlds_def]
  note fair = ex_worlds_fair [unfolded ex_worlds_def]
  have says: "batch_says ex_key True (fst ex_ran ! 0)" "\<not> batch_says ex_key True (fst ex_ran ! Suc 0)"
    "\<not> batch_says ex_key True (fst ex_ran ! Suc (Suc 0))"
    using ex_ran_batches by (simp_all add: numeral_2_eq_2)
  have "batch_says ex_key False (fst ex_ran ! Suc i) \<longleftrightarrow> i = 1" if "i \<le> 1" for i
  proof (cases "i = 0")
    case True
    then show ?thesis
      using gone_exactly_after_grace [OF run fair ex_observer_ready, of ex_key 0] says
      by (simp add: over_def ex_observer_def New_observer_def ex_world_def)
  next
    case False
    then have "i = 1" using that by simp
    moreover have "\<forall>j\<le>(1::nat). \<not> batch_says ex_key True (fst ex_ran ! Suc j)"
      using says by (auto simp: le_Suc_eq)
    ultimately show ?thesis
      using gone_exactly_after_grace [OF run fair ex_observer_ready, of ex_key 1] says(1)
      by (simp add: over_def ex_observer_def New_observer_def ex_world_def)
  qed
  from this [of 0] this [of 1] show ?thesis by (simp add: numeral_2_eq_2)
qed

text \<open>C25: a cycle that fails forgets nothing. Whether the process table cannot be read, the store
  refuses to list or to record, or an observation conflicts, every process that was tracked is
  tracked still, the processes that wait for their confirmation are as before, and so are the
  options of the observer.\<close>

theorem failed_cycle_forgets_nothing:
  assumes "runCycle op w o' s = ((r, errs), o2, s')" "\<not> recorded errs" "fair_world w" "ready o'"
  shows "(watched (os_tracked o') k \<noteq> None \<longrightarrow> watched (os_tracked o2) k \<noteq> None) \<and>
    os_candidates o2 = os_candidates o' \<and> options o2 = options o'"
  using failed_cycle [OF assms(1-3)] assms(4) by (auto simp: ready_def)

theorem failed_cycle_forgets_nothing_witness:
  "snd (fst (runCycle ex_keeper ex_blind ex_watching [])) = [CycleProcesses] \<and>
   watched (os_tracked (fst (snd (runCycle ex_keeper ex_blind ex_watching [])))) ex_key \<noteq> None"
proof -
  have e: "snd (fst (runCycle ex_keeper ex_blind ex_watching [])) = [CycleProcesses]" by code_simp
  obtain r errs o2 s' where c: "runCycle ex_keeper ex_blind ex_watching [] = ((r, errs), o2, s')"
    by (metis prod.exhaust)
  have "\<not> recorded errs" using e by (simp add: c recorded_def)
  moreover have "watched (os_tracked ex_watching) ex_key \<noteq> None" by (simp add: ex_watching_def watched_def)
  ultimately have "watched (os_tracked o2) ex_key \<noteq> None"
    using failed_cycle_forgets_nothing [OF c _ ex_blind_fair ex_watching_ready] by blast
  then show ?thesis using e by (simp add: c)
qed

text \<open>C26: no process is reported present before it is confirmed. When a cycle of a continuous run
  reports a process, then the process is in its snapshot, and it was tracked already, claimed by a
  catalog entry or known to a session of the store, or else it has been found in every snapshot of
  the run that is at least the confirmation period old.\<close>

theorem confirmation_is_waited_for:
  assumes "recorded_run op o0 s0 ws bs o' s" "\<forall>w\<in>set ws. fair_world w" "ready o0"
    "os_candidates o0 = []" "os_continuous o0" "os_confirmAfter o0 \<ge> 0"
    and "runCycle op w o' s = ((r, errs), o2, s')" "recorded errs" "fair_world w"
    and "batch_says k True (batch_of op w o' s)"
  shows "found_in k w \<and> (vouched_in op w o' s k \<or>
    (\<exists>t. time_sub (cw_now w) t \<ge> os_confirmAfter o0 \<and> found_since k t ws))"
proof -
  have after: "ready o'" "options o' = options o0" using recorded_run_ready [OF assms(1-3)] by auto
  then have "os_continuous o'" "os_confirmAfter o' = os_confirmAfter o0" "os_initialized o'"
    "tracked_ok (os_tracked o')"
    using assms(5) by (simp_all add: options_eq_iff ready_def)
  then show ?thesis
    using runCycle_sighting [OF assms(7,8) _ assms(9) _ assms(10)] assms(4,6)
      recorded_run_candidates [OF assms(1-3), of k] by auto
qed

theorem confirmation_is_waited_for_witness:
  "found_in ex_key (ex_world 9 ex_agents)"
proof -
  have w: "\<forall>w\<in>set [ex_world 5 ex_agents]. fair_world w"
    by (simp add: ex_world_fair ex_agents_distinct)
  obtain r errs o2 s' where c: "runCycle ex_keeper (ex_world 9 ex_agents) (fst (snd ex_waited))
      (snd (snd ex_waited)) = ((r, errs), o2, s')"
    by (metis prod.exhaust)
  have "recorded errs" "batch_says ex_key True
      (batch_of ex_keeper (ex_world 9 ex_agents) (fst (snd ex_waited)) (snd (snd ex_waited)))"
    using ex_confirmed(2,3) by (simp_all add: c recorded_def)
  from confirmation_is_waited_for [OF ex_waited_run w ex_patient_ready _ _ _ c this(1) _ this(2)]
  show ?thesis
    by (simp add: ex_patient_def ex_observer_def New_observer_def ex_world_fair ex_agents_distinct)
qed

text \<open>C27: the store never refuses a batch for what it says. Along a run whose process table, panes
  and catalogs give what they are documented to give and whose store lists sessions with a known
  harness and a subject, every observation of every batch passes the validation of observations.\<close>

theorem cycle_observations_are_accepted:
  assumes "recorded_run op o' s ws bs o2 s2" "\<forall>w\<in>set ws. fair_world w \<and> sound_world w"
    "sound_observer o'" "lists_sound op"
  shows "\<forall>b\<in>set bs. \<forall>ob\<in>set b. validateObservation catalog_Known ob = None"
  using recorded_run_accepted [OF assms] by blast

theorem cycle_observations_are_accepted_witness:
  "validateObservation catalog_Known (hd (fst ex_ran ! 0)) = None"
proof -
  have "\<forall>b\<in>set (fst ex_ran). \<forall>ob\<in>set b. validateObservation catalog_Known ob = None"
    using cycle_observations_are_accepted [OF ex_run_recorded _ ex_observer_sound ex_keeper_sound]
      ex_worlds_fair ex_worlds_sound by blast
  moreover have "fst ex_ran ! 0 \<noteq> []" "fst ex_ran ! 0 \<in> set (fst ex_ran)"
    using ex_ran_batches by (auto simp: batch_says_def)
  ultimately show ?thesis by (meson hd_in_set)
qed

text \<open>C28: every agent has one place. A batch reports each process present at most once and places it
  at most once, it places only processes it reports present, and where the panes could be listed it
  places all of them.\<close>

theorem agents_have_one_place:
  assumes "fair_world w" "distinct (map pr_PID ps)"
  shows "let obs = cf_observations (collectObservations w at ps ss r o') in
    distinct (placed_pids obs) \<and> distinct (sighted_pids obs) \<and>
    set (placed_pids obs) \<subseteq> set (sighted_pids obs) \<and>
    (snd (cw_panes w) \<or> set (placed_pids obs) = set (sighted_pids obs))"
proof -
  obtain ci es cm pending where inv:
    "takeInventory o' ps (fst (cw_catalog w)) ss at = (ci, es, cm, pending)"
    by (metis prod.exhaust)
  show ?thesis unfolding Let_def using collected_places [OF assms inv, where r = r] by blast
qed

theorem agents_have_one_place_witness:
  "distinct (placed_pids (cf_observations
     (collectObservations (ex_world 5 ex_agents) 5 ex_agents [] (zero_cycle_result 5) ex_observer)))"
  using agents_have_one_place [OF ex_world_fair [OF ex_agents_distinct(1)] ex_agents_distinct(1)]
  unfolding Let_def by blast

subsection \<open>Watches and calls\<close>

text \<open>C29: a watch of the store keeps its handler in step with it. Whatever events, timers, errors
  and failing reads arrive, the first snapshot the handler is given is the initial one, every
  further snapshot differs from the one before, and an error repeats the sessions already known. After
  any turn that reads the store, be it for the debounce after an event, the reconciliation, an error
  of the watcher or a directory that was removed and whose watch could not be given up, the last
  snapshot given is what that read returned, provided that the directory is there and watched, the
  read succeeded and the watch goes on.\<close>

theorem watch_follows_the_store:
  assumes "FileStore_Watch fs r st path opts first (ts @ [(True, c, sw)]) = (None, rs)"
    and "fs_Abs fs path = Some target" "turn_reads fs (path_dir target) c"
    and "\<not> se_before sw" "se_stat sw = StatDirectory" "se_added sw"
    and "watchSnapshot fs (se_ctx sw) r (se_disk sw) (se_now sw) (wt_Filter opts) = Inr (ss, at)"
  shows "stream_ok None rs \<and> stream_view None rs = Some ss"
  using watch_told [OF assms(1)] watch_current [OF assms] by blast

theorem watch_follows_the_store_witness:
  "length (snd ex_watched) = 2 \<and> stream_ok None (snd ex_watched) \<and>
   map_option length (stream_view None (snd ex_watched)) = Some 1"
proof -
  have e: "fst ex_watched = None \<and> length (snd ex_watched) = 2" by code_simp
  have "map_option length (case watchSnapshot ex_fs (\<lambda>_ _. False) ex_reducer ex_written 10 zero_filter of
      Inl _ \<Rightarrow> None | Inr (ss, _) \<Rightarrow> Some ss) = Some 1" by code_simp
  then obtain ss at where ss: "watchSnapshot ex_fs (\<lambda>_ _. False) ex_reducer ex_written 10 zero_filter =
      Inr (ss, at)" "length ss = 1"
    by (auto split: sum.splits)
  have "FileStore_Watch ex_fs ex_reducer ex_start ''aht/state.json'' ex_watch_options (ex_scan ex_disk)
      ([(True, CaseEvents ex_store_event True, ex_scan ex_disk)] @ [(True, CaseDebounce, ex_scan ex_written)]) =
      (None, snd ex_watched)"
    using e by (simp add: ex_watched_def prod_eq_iff)
  moreover have "fs_Abs ex_fs ''aht/state.json'' = Some ''/aht/state.json''" by code_simp
  ultimately show ?thesis
    using watch_follows_the_store [of ex_fs ex_reducer ex_start "''aht/state.json''" ex_watch_options "ex_scan ex_disk"
        "[(True, CaseEvents ex_store_event True, ex_scan ex_disk)]" CaseDebounce "ex_scan ex_written" "snd ex_watched"
        "''/aht/state.json''" ss at] ss e
    by (simp add: ex_scan_def ex_watch_options_def turn_reads_def)
qed

text \<open>C30: a call through the broker is the operation of the store. Where its response arrives, an
  observation, a batch that is not empty and not above the limit of the server, a lookup by an identifier
  that is not empty, and a collection return through request, server, response and client exactly what
  the store returned, and leave what it left, whether or not the response fits in a frame: one
  that does not is replaced by an error that says so. An error of the store arrives as the code and the
  text of the broker, and the three errors callers branch on are recognised from the code again.\<close>

theorem calls_are_store_operations:
  fixes p invalid oe s d i
  defines "x \<equiv> answering p invalid oe s d"
    and "left \<equiv> \<lambda>q. snd (served p invalid oe (prepare i q) s d)"
    and "fit \<equiv> \<lambda>q. fits p oe s d (prepare i q)"
    and "observed \<equiv> MemoryStore_Observe (sp_json p) (oe_env oe) (sp_reducer p) s d"
    and "batched \<equiv> MemoryStore_ObserveBatch (sp_json p) (oe_env oe) (sp_reducer p) s d"
    and "got \<equiv> MemoryStore_Get (oe_cancelled oe) (oe_env oe) (sp_reducer p) s d"
    and "collected \<equiv> MemoryStore_GC (sp_json p) (oe_env oe) (sp_reducer p) s d"
  assumes "obs \<noteq> []" "length obs \<le> maxBatchObservations" "sid \<noteq> []"
  shows "Client_Observe x i ob =
        (if fit (observe_request ob) then remote_result (sp_text p) (fst (observed ob)) else Inl too_large)
      \<and> left (observe_request ob) = snd (observed ob)
      \<and> Client_ObserveBatch x i obs =
        (if fit (batch_request obs) then remote_result (sp_text p) (fst (batched obs)) else Inl too_large)
      \<and> left (batch_request obs) = snd (batched obs)
      \<and> Client_Get x i sid =
        (if fit (get_request sid) then remote_result (sp_text p) (fst (got sid)) else Inl too_large)
      \<and> left (get_request sid) = snd (got sid)
      \<and> Client_GC x i after =
        (if fit (gc_request after) then remote_result (sp_text p) (fst (collected after)) else Inl too_large)
      \<and> left (gc_request after) = snd (collected after)
      \<and> RemoteError_Unwrap (operation_code e) (sp_text p e) = kept_class (sp_text p) e"
  unfolding x_def left_def fit_def observed_def batched_def got_def collected_def framed_result_def [symmetric]
  using observe_replied batch_replied [OF assms(8,9)] get_replied [OF assms(10)] gc_replied kept_on_the_wire
  by metis

theorem calls_are_store_operations_witness:
  "map_sum (\<lambda>_. ()) (\<lambda>x. map_option p_PID (s_Process x)) (Client_Observe ex_answering 1 (ex_sighting 7 True 5))
     = Inr (Some 7)
   \<and> Client_Get ex_answering 1 ''x'' = Inl (RemoteError ''not_found'' ''failed'')
   \<and> RemoteError_Unwrap ''not_found'' ''failed'' = Some (ClassRegistry ErrSessionNotFound)"
proof -
  note c = calls_are_store_operations [where p = ex_broker and invalid = "\<lambda>_. ''invalid''" and oe = ex_operation
      and s = ex_store and d = ex_open_disk and i = 1 and ob = "ex_sighting 7 True 5"
      and obs = "[ex_sighting 7 True 5]" and sid = "''x''" and after = 0 and e = ErrSessionNotFound,
      folded ex_answering_def]
  have "map_sum (\<lambda>_. ()) (\<lambda>x. map_option p_PID (s_Process x)) (remote_result (sp_text ex_broker)
      (fst (MemoryStore_Observe (sp_json ex_broker) (oe_env ex_operation) (sp_reducer ex_broker)
        ex_store ex_open_disk (ex_sighting 7 True 5)))) = Inr (Some 7)"
    "remote_result (sp_text ex_broker)
      (fst (MemoryStore_Get (oe_cancelled ex_operation) (oe_env ex_operation) (sp_reducer ex_broker)
        ex_store ex_open_disk ''x'')) = Inl (RemoteError ''not_found'' ''failed'')"
    "operation_code ErrSessionNotFound = ''not_found'' \<and> sp_text ex_broker ErrSessionNotFound = ''failed''
     \<and> kept_class (sp_text ex_broker) ErrSessionNotFound = Some (ClassRegistry ErrSessionNotFound)"
    by code_simp+
  then show ?thesis using c by (simp add: maxBatchObservations_def ex_fits)
qed

text \<open>C31: an observation survives the loss of the broker, a command is never carried out twice. Let a
  call in automatic mode pass in any of the ways \<open>passes\<close> allows: no broker, a busy one, a request or a
  reply that is lost or spoilt, a send that fails, a context that is cancelled. An observation whose call
  succeeds has been recorded, by the broker or by the files, with the session that is returned; the files are used
  exactly where there was no answer, so they may record what a broker whose reply was lost recorded
  before, which is not always without effect. A collection goes to the files only where no broker could be
  reached, which then has not carried it out; otherwise the files are left alone, and where the reply is
  lost the caller is told.\<close>

theorem retries_are_safe:
  fixes p invalid oe s d i ob after
  defines "observed \<equiv> MemoryStore_Observe (sp_json p) (oe_env oe) (sp_reducer p) s d ob"
    and "collected \<equiv> MemoryStore_GC (sp_json p) (oe_env oe) (sp_reducer p) s d after"
  assumes "passes p invalid oe s d (prepare i (observe_request ob)) x (s1, d1)"
    and "public_Observe ModeAuto (\<lambda>_. x) i fe d1 ob = (res1, e1)"
    and "passes p invalid oe s d (prepare i (gc_request after)) y (s2, d2)"
    and "public_GC ModeAuto (\<lambda>_. y) i fe d2 after = (res2, e2)"
  shows "(\<forall>v. res1 = Inr v \<longrightarrow>
          fst observed = Inr v \<and> (s1, d1) = snd observed \<and> e1 = d1 \<or> fallback_Observe fe d1 ob = (Inr v, e1))
      \<and> (if no_answer x then (res1, e1) = public_result (from_files (fallback_Observe fe d1 ob)) else e1 = d1)
      \<and> (\<forall>v. res2 = Inr v \<longrightarrow>
          fst collected = Inr v \<and> (s2, d2) = snd collected \<and> e2 = d2
          \<or> (s2, d2) = (s, d) \<and> Journal_GC fe d after = (Inr v, e2))
      \<and> (if xc_dialled y then e2 = d2 else (s2, d2) = (s, d))
      \<and> (xc_dialled y \<and> no_answer y \<longrightarrow> res2 = Inl (PublicOther (FromBroker BrokerNoReply)))"
  using observed_outcome [OF assms(3,4)] collected_outcome [OF assms(5,6)]
  unfolding observed_def collected_def by blast

theorem retries_are_safe_witness:
  "let x = replied FrameLost;
       (s1, d1) = snd (served ex_broker (\<lambda>_. ''invalid'') ex_operation
         (prepare 1 (observe_request (ex_sighting 7 True 5))) ex_store ex_open_disk)
   in map_sum (\<lambda>_. ()) (\<lambda>x. map_option p_PID (s_Process x)) (fst (public_Observe ModeAuto (\<lambda>_. x) 1 ex_files d1 (ex_sighting 7 True 5))) = Inr (Some 7)
      \<and> snd (public_Observe ModeAuto (\<lambda>_. x) 1 ex_files d1 (ex_sighting 7 True 5)) \<noteq> d1
      \<and> public_GC ModeAuto (\<lambda>_. x) 1 ex_files ex_open_disk 0 = (Inl (PublicOther (FromBroker BrokerNoReply)), ex_open_disk)"
proof -
  define x where "x = replied FrameLost"
  obtain s1 d1 where 1: "snd (served ex_broker (\<lambda>_. ''invalid'') ex_operation
      (prepare 1 (observe_request (ex_sighting 7 True 5))) ex_store ex_open_disk) = (s1, d1)"
    by (rule prod.exhaust)
  obtain res1 e1 where 2: "public_Observe ModeAuto (\<lambda>_. x) 1 ex_files d1 (ex_sighting 7 True 5) = (res1, e1)"
    by (rule prod.exhaust)
  obtain res2 e2 where 3: "public_GC ModeAuto (\<lambda>_. x) 1 ex_files ex_open_disk 0 = (res2, e2)" by (rule prod.exhaust)
  have lost: "no_answer x" "xc_dialled x" by (simp_all add: x_def no_answer_def replied_def)
  have "passes ex_broker (\<lambda>_. ''invalid'') ex_operation ex_store ex_open_disk
      (prepare 1 (observe_request (ex_sighting 7 True 5))) x (s1, d1)"
    "passes ex_broker (\<lambda>_. ''invalid'') ex_operation ex_store ex_open_disk
      (prepare 1 (gc_request 0)) x (ex_store, ex_open_disk)"
    by (simp_all add: passes_def x_def replied_def unreadable_def 1)
  from retries_are_safe [OF this(1) 2 this(2) 3] lost
  have r: "(res1, e1) = public_result (from_files (fallback_Observe ex_files d1 (ex_sighting 7 True 5)))"
    "res2 = Inl (PublicOther (FromBroker BrokerNoReply))" "e2 = ex_open_disk" by simp_all
  let ?d = "snd (snd (served ex_broker (\<lambda>_. ''invalid'') ex_operation
      (prepare 1 (observe_request (ex_sighting 7 True 5))) ex_store ex_open_disk))"
  let ?f = "public_result (from_files (fallback_Observe ex_files ?d (ex_sighting 7 True 5)))"
  have "map_sum (\<lambda>_. ()) (\<lambda>x. map_option p_PID (s_Process x)) (fst ?f) = Inr (Some 7)"
    "length (dk_Journal (snd ?f)) \<noteq> length (dk_Journal ?d)" by code_simp+
  then have "map_sum (\<lambda>_. ()) (\<lambda>x. map_option p_PID (s_Process x)) res1 = Inr (Some 7)" "e1 \<noteq> d1"
    using r(1) 1 by (auto simp: prod_eq_iff)
  then show ?thesis using 1 2 3 r(2,3) by (simp add: x_def [symmetric])
qed

text \<open>C32: a subscriber never sees an old state again. Whatever the other clients do to the store between
  the waits of a subscription, whichever heartbeats and failing waits come in between, and wherever
  the connection breaks, the revisions of the snapshots delivered after the initial one increase
  strictly from it.\<close>

theorem subscriptions_only_advance:
  assumes "serveSubscription p oe True q ts s d = (first # as, s', d')"
    and "Client_Subscribe fs (\<lambda>_. replied (FrameResponse first)) i f = Inr (q', st)"
    and "set lost \<subseteq> {(FrameLost, True), (FrameLost, False)}"
  shows "sorted_wrt (<) (ss_Revision st #
    map ss_Revision (fst (runSubscription fs q' (zip (map FrameResponse as) cs @ lost))))"
  using subscription_rising [OF assms] by (simp add: rising_def)

theorem subscriptions_only_advance_witness:
  "\<exists>first later s d st. serveSubscription ex_broker ex_operation True ex_subscribe
      [ex_stream_turn (\<lambda>_. ex_changed), ex_stream_turn (\<lambda>sd. sd)] ex_store ex_open_disk = ([first, later], s, d)
    \<and> Client_Subscribe ex_fs (\<lambda>_. replied (FrameResponse first)) 1 zero_filter = Inr (ex_subscribe, st)
    \<and> map ss_Revision (fst (runSubscription ex_fs ex_subscribe (zip (map FrameResponse [later]) [False] @ [(FrameLost, False)]))) = [2]
    \<and> ss_Revision st < 2"
proof -
  have len: "length (fst ex_stream) = 2" by code_simp
  then obtain first later where fl: "fst ex_stream = [first, later]"
    by (cases "fst ex_stream"; cases "tl (fst ex_stream)") auto
  obtain s d where sd: "snd ex_stream = (s, d)" by (rule prod.exhaust)
  have "map_sum (\<lambda>_. ()) fst (Client_Subscribe ex_fs (\<lambda>_. replied (FrameResponse (hd (fst ex_stream)))) 1 zero_filter)
      = Inr ex_subscribe"
    by code_simp
  then obtain st where st: "Client_Subscribe ex_fs (\<lambda>_. replied (FrameResponse first)) 1 zero_filter
      = Inr (ex_subscribe, st)"
    by (cases "Client_Subscribe ex_fs (\<lambda>_. replied (FrameResponse first)) 1 zero_filter") (auto simp: fl)
  have "map ss_Revision (fst (runSubscription ex_fs ex_subscribe
      (zip (map FrameResponse (tl (fst ex_stream))) [False] @ [(FrameLost, False)]))) = [2]"
    by code_simp
  then have two: "map ss_Revision (fst (runSubscription ex_fs ex_subscribe
      (zip (map FrameResponse [later]) [False] @ [(FrameLost, False)]))) = [2]"
    by (simp add: fl)
  have served: "serveSubscription ex_broker ex_operation True ex_subscribe
      [ex_stream_turn (\<lambda>_. ex_changed), ex_stream_turn (\<lambda>sd. sd)] ex_store ex_open_disk = ([first, later], s, d)"
    using fl sd by (metis ex_stream_def prod.collapse)
  have "sorted_wrt (<) (ss_Revision st # map ss_Revision (fst (runSubscription ex_fs ex_subscribe
      (zip (map FrameResponse [later]) [False] @ [(FrameLost, False)]))))"
    by (rule subscriptions_only_advance [OF served st]) simp
  then show ?thesis using served st two by auto
qed

text \<open>C33: the accept loop bounds the connections that are handled. Along any run of a new server the
  tokens that are held are those of the accepted connections that were neither answered busy nor are
  finished, they never exceed the configured number, and a client takes the answer of a refused
  connection for a busy broker, although it names no request.\<close>

theorem connections_are_bounded:
  assumes "accept_run (New_server limit timeout) (Serving 0) evs outs (Serving n)"
  shows "n = int (length (filter (\<lambda>ev. ev = Accepted) evs)) - int (length outs)
           - int (length (filter (\<lambda>ev. ev = ConnectionDone) evs))
      \<and> 0 \<le> n \<and> n \<le> (if limit \<le> 0 then 256 else limit)
      \<and> (\<forall>a\<in>set outs. validateResponse q a = Some (RemoteError ''busy'' ''aht broker busy''))
      \<and> RemoteError_Unwrap ''busy'' ''aht broker busy'' = Some ClassBusy"
proof -
  have "0 \<le> sv_maxConnections (New_server limit timeout)"
    by (simp add: New_server_def defaultMaxConnections_def)
  from accept_run_bounded [OF assms order_refl this] show ?thesis
    by (auto simp: New_server_def defaultMaxConnections_def busy_recognised RemoteError_Unwrap_def)
qed

theorem connections_are_bounded_witness:
  "accept_run (New_server 2 0) (Serving 0) ex_accepts [busy_response] (Serving 1)
   \<and> validateResponse ex_subscribe busy_response = Some (RemoteError ''busy'' ''aht broker busy'')"
proof -
  have steps: "accept_step (New_server 2 0) (Serving 0) Accepted [] (Serving 1)"
    "accept_step (New_server 2 0) (Serving 1) Accepted [] (Serving 2)"
    "accept_step (New_server 2 0) (Serving 2) Accepted [busy_response] (Serving 2)"
    "accept_step (New_server 2 0) (Serving 2) ConnectionDone [] (Serving 1)"
    using accept_handled [of 0 "New_server 2 0"] accept_handled [of 1 "New_server 2 0"]
      accept_busy [of "New_server 2 0" 2] accept_done [of 2 "New_server 2 0"]
    by (simp_all add: New_server_def busy_response_def)
  have run: "accept_run (New_server 2 0) (Serving 0) ex_accepts [busy_response] (Serving 1)"
    using steps [THEN accept_more] accept_stop [of "New_server 2 0" "Serving 1"]
    unfolding ex_accepts_def by (metis append_Nil append_Nil2)
  from connections_are_bounded [OF run, of ex_subscribe] show ?thesis using run by simp
qed

subsection \<open>Installation\<close>

text \<open>C34: installing the hooks of an agent settles. Whatever the configuration of the user holds, once
  an installation of the plan of Claude, Codex or Qwen has gone through, or has replaced the file and
  only failed to sync its directory, installing again from the file as it is then changes nothing.\<close>

theorem hook_installation_settles:
  assumes "splits_words split binary" "binary \<noteq> []" "(h, plan) \<in> set (wrapped_plans binary)" "reads_numbers fl"
    "\<And>config. f = ConfigObject config \<Longrightarrow> config_ok config"
    "installJSONHookFile False w (applyJSONCommandHooks split fl h plan) f = (outcome, f')"
    "outcome \<in> {Inr True, Inr False, Inl (ErrInstallIO ''syncing'')}"
  shows "installJSONHookFile False w' (applyJSONCommandHooks split fl h plan) f' = (Inr False, f')"
proof (rule installed_file_twice [OF assms(6) wrapped_plans_sound(1,2) [OF assms(1-3)] assms(4) _ assms(7)])
  show "config_ok config" if "readJSONObject f = Inr config" for config
    using that assms(5) by (auto simp: readJSONObject_def config_ok_def split: config_file.splits)
qed

theorem hook_installation_settles_witness:
  "\<exists>changed f'. installJSONHookFile False Written (applyJSONCommandHooks ex_split ex_numbers ''claude'' (claude_plan ''aht''))
       (ConfigObject ex_user_config) = (Inr changed, f') \<and>
     installJSONHookFile False Written (applyJSONCommandHooks ex_split ex_numbers ''claude'' (claude_plan ''aht'')) f'
       = (Inr False, f')"
proof -
  have plan: "(''claude'', claude_plan ''aht'') \<in> set (wrapped_plans ''aht'')" by (simp add: wrapped_plans_def)
  obtain config' changed where applied: "ex_applied = Inr (config', changed)" using ex_applied_ok by blast
  obtain f' where first: "installJSONHookFile False Written
      (applyJSONCommandHooks ex_split ex_numbers ''claude'' (claude_plan ''aht'')) (ConfigObject ex_user_config)
      = (Inr changed, f')"
    using applied by (cases changed) (simp_all add: ex_applied_def installJSONHookFile_def readJSONObject_def write_config_def)
  have "installJSONHookFile False Written (applyJSONCommandHooks ex_split ex_numbers ''claude'' (claude_plan ''aht'')) f'
      = (Inr False, f')"
    by (rule hook_installation_settles [OF ex_splits [OF aht_word] _ plan ex_numbers_reads _ first])
      (auto simp: ex_config_ok)
  with first show ?thesis by blast
qed

text \<open>C35: installing hooks leaves those of the user alone. Under every event the hooks that are not
  managed are the same, in the same order; the managed hooks run exactly the commands of the plan for
  that event, in the order of the plan; and every other key of the configuration keeps its value.\<close>

theorem installing_keeps_users_hooks:
  assumes "splits_words split binary" "binary \<noteq> []" "(h, plan) \<in> set (wrapped_plans binary)"
    "applyJSONCommandHooks split fl h plan config = Inr (config', changed)"
  shows "let managed = managed_hook (plan_managed split h plan config) in
    filter (\<lambda>x. \<not> managed x) (hooks_at config' event) = filter (\<lambda>x. \<not> managed x) (hooks_at config event) \<and>
    map hook_command (filter managed (hooks_at config' event))
      = map (\<lambda>c. Some (ch_Command c)) (filter (\<lambda>c. ch_Event c = event) (hp_Hooks plan)) \<and>
    (\<forall>k. k \<noteq> ''hooks'' \<longrightarrow> map_of config' k = map_of config k)"
  using applied_hooks [OF assms(4) wrapped_plans_sound(2,1) [OF assms(1-3)]]
  unfolding Let_def by blast

theorem installing_keeps_users_hooks_witness:
  "\<exists>config' changed. ex_applied = Inr (config', changed) \<and> map_of config' ''theme'' = Some (JString ''dark'') \<and>
     filter (\<lambda>x. \<not> managed_hook (plan_managed ex_split ''claude'' (claude_plan ''aht'') ex_user_config) x)
       (hooks_at config' ''Stop'') = [JObject [(''command'', JString ''notify'')]]"
proof -
  obtain config' changed where applied: "ex_applied = Inr (config', changed)" using ex_applied_ok by blast
  have plan: "(''claude'', claude_plan ''aht'') \<in> set (wrapped_plans ''aht'')" by (simp add: wrapped_plans_def)
  note kept = installing_keeps_users_hooks [OF ex_splits [OF aht_word] _ plan applied [unfolded ex_applied_def],
      where event = "''Stop''", unfolded Let_def, simplified]
  have "hooks_at ex_user_config ''Stop'' = [JObject [(''command'', JString ''notify'')]]" by code_simp
  then have "filter (\<lambda>x. \<not> managed_hook (plan_managed ex_split ''claude'' (claude_plan ''aht'') ex_user_config) x)
      (hooks_at ex_user_config ''Stop'') = [JObject [(''command'', JString ''notify'')]]"
    using ex_notify by (simp add: managed_hook_def)
  moreover have "map_of ex_user_config ''theme'' = Some (JString ''dark'')" by (simp add: ex_user_config_def)
  ultimately show ?thesis using applied kept by auto
qed

text \<open>C36: removal undoes installation. Let the hooks of the plan of Claude, Codex or Qwen be installed
  into a configuration as it was read from a file, in which no hook is managed and the hooks, if there are
  any, are an object, and let the file that was written be read and cleaned. The splitter of shell words is
  one that reads back a program followed by plain words. Then every other key keeps its value, and every event has the value
  it had, except that an event of the plan whose value was null or an empty list is gone, and that the
  object of the hooks is gone where nothing is left in it, even if it was there, empty or null, before.\<close>

theorem removal_undoes_installation:
  assumes "splits_words split binary" "binary \<noteq> []" "(h, plan) \<in> set (wrapped_plans binary)"
    "config_ok config" "reread_object config = config" "hooksObject config = Inr hooks"
    "untouched (plan_managed split h plan config) hooks"
    "applyJSONCommandHooks split fl h plan config = Inr (config', changed)"
  shows "\<exists>config'' hooks''. removeJSONCommandHooks split h plan (reread_object config') = (config'', True) \<and>
    (\<forall>k. k \<noteq> ''hooks'' \<longrightarrow> map_of config'' k = map_of config k) \<and>
    map_of config'' ''hooks'' = (if hooks'' = [] then None else Some (JObject hooks'')) \<and>
    (\<forall>e. map_of hooks'' e =
       (if planned plan e \<and> groups_of (map_of hooks e) = [] then None else map_of hooks e))"
  using removed_after_install [OF assms(8) wrapped_plans_sound(2) [OF assms(1-3)] assms(4)
        wrapped_plans_sound(1) [OF assms(1-3)] assms(5) wrapped_plans_sound(3) [OF assms(1-3)] assms(6,7)]
  by (simp add: fun_eq_iff cleared_def)

theorem removal_undoes_installation_witness:
  "\<exists>config' changed config'' hooks''. ex_applied = Inr (config', changed) \<and>
     removeJSONCommandHooks ex_split ''claude'' (claude_plan ''aht'') (reread_object config') = (config'', True) \<and>
     map_of config'' ''theme'' = Some (JString ''dark'') \<and> map_of config'' ''hooks'' = Some (JObject hooks'') \<and>
     map_of hooks'' ''Stop'' = Some (JArray ex_user_groups) \<and> map_of hooks'' ''SessionStart'' = None"
proof -
  obtain config' changed where applied: "ex_applied = Inr (config', changed)" using ex_applied_ok by blast
  have plan: "(''claude'', claude_plan ''aht'') \<in> set (wrapped_plans ''aht'')" by (simp add: wrapped_plans_def)
  have hooks: "hooksObject ex_user_config = Inr [(''Stop'', JArray ex_user_groups)]"
    by (simp add: ex_user_config_def hooksObject_def)
  obtain config'' hooks'' where removed:
    "removeJSONCommandHooks ex_split ''claude'' (claude_plan ''aht'') (reread_object config') = (config'', True)"
    "\<forall>k. k \<noteq> ''hooks'' \<longrightarrow> map_of config'' k = map_of ex_user_config k"
    "map_of config'' ''hooks'' = (if hooks'' = [] then None else Some (JObject hooks''))"
    "\<And>e. map_of hooks'' e = (if planned (claude_plan ''aht'') e \<and>
       groups_of (map_of [(''Stop'', JArray ex_user_groups)] e) = [] then None
       else map_of [(''Stop'', JArray ex_user_groups)] e)"
    using removal_undoes_installation [OF ex_splits [OF aht_word] _ plan ex_config_ok ex_user_reread hooks ex_untouched
        applied [unfolded ex_applied_def]] by auto
  have "map_of hooks'' ''Stop'' = Some (JArray ex_user_groups)" "map_of hooks'' ''SessionStart'' = None"
    unfolding removed(4) by (simp_all add: groups_of_def ex_user_groups_def)
  moreover from removed(2) have "map_of config'' ''theme'' = Some (JString ''dark'')" by (simp add: ex_user_config_def)
  moreover from calculation(1) have "hooks'' \<noteq> []" by auto
  ultimately show ?thesis using applied removed(1,3) by metis
qed

text \<open>C37: a block in a text file goes and leaves nothing but the trimmed text. Installing a block into a
  file without it appends it, installing again changes nothing, removing it gives back the text of the
  user up to blank space at its end; and neither operation can loop, whatever the file holds.\<close>

theorem text_block_round_trip:
  assumes "block_ok (tp_StartMarker plan) (tp_EndMarker plan) (tp_Block plan)"
    "length (tp_StartMarker plan) + length (tp_EndMarker plan) > 2"
    "readTextFile f = Inr current" "\<not> contains current (tp_StartMarker plan)"
    "tp_Toml plan \<longrightarrow> valid (appendManagedTextBlock current (tp_Block plan))"
  shows "\<exists>changed f'. installManagedTextBlock False Written valid plan f = Some (Inr changed, f') \<and>
      f' = TextContent (appendManagedTextBlock current (tp_Block plan)) \<and>
      installManagedTextBlock False w valid plan f' = Some (Inr False, f') \<and>
      removeTextBlock False Written plan f' = Some (Inr True, TextContent (trim_right_of blank current)) \<and>
      (\<forall>dry w g. installManagedTextBlock dry w valid plan g \<noteq> None \<and> removeTextBlock dry w plan g \<noteq> None)"
proof -
  obtain changed where first: "installManagedTextBlock False Written valid plan f =
      Some (Inr changed, TextContent (appendManagedTextBlock current (tp_Block plan)))"
    using text_installs [where valid = valid, OF assms(1,3-5)] by blast
  moreover note text_installed_twice [OF first assms(1)] text_removed_after_install [OF first assms(1,3,4)]
    text_install_returns [OF assms(2)]
  ultimately show ?thesis using assms(5) by auto
qed

theorem text_block_round_trip_witness:
  "\<exists>changed f'. installManagedTextBlock False Written (\<lambda>_. True) (crush_plan ''aht'') (TextContent ''set theme dark'')
       = Some (Inr changed, f') \<and>
     removeTextBlock False Written (crush_plan ''aht'') f' = Some (Inr True, TextContent ''set theme dark'')"
proof -
  have "\<not> contains ''set theme dark'' (tp_StartMarker (crush_plan ''aht''))"
    "trim_right_of blank ''set theme dark'' = ''set theme dark''"
    "length (tp_StartMarker (crush_plan ''aht'')) + length (tp_EndMarker (crush_plan ''aht'')) > 2" by code_simp+
  note facts = this
  have "readTextFile (TextContent ''set theme dark'') = Inr ''set theme dark''" by (simp add: readTextFile_def)
  from text_block_round_trip [OF ex_crush_block facts(3) this facts(1), of "\<lambda>_. True"]
  show ?thesis unfolding facts(2) by blast
qed

subsection \<open>Observed defects\<close>

text \<open>C38: a session that is retired because another session reports from its exclusive process
  keeps its activity detail, whatever its state. It is gone then, and every snapshot that holds it is one
  the validation refuses, so that a writer refuses the command and a reader the file.\<close>

theorem retirement_leaves_detail:
  assumes "map_ok m" "ob_Process ob = Some p" "process_complete p"
    and "retireConflictingProcessSessions r m ob at received = Inr m'"
    and "map_of m k = Some s" "retire_session r ob at received s = Inr (Some s')" "s_Detail s \<noteq> None"
  shows "map_of m' k = Some s' \<and> s_Presence s' = PresenceGone \<and> s_Detail s' = s_Detail s \<and>
    (\<forall>sn. map_of (sn_Sessions sn) k = Some s' \<longrightarrow> validateSnapshot sn \<noteq> None)"
  using retirement_detail [OF assms] by blast

theorem retirement_leaves_detail_witness:
  "\<exists>m'. retireConflictingProcessSessions ex_reducer ex_failed (ex_live_report 7 ''B'' 2 ActivityRunning 7) 7 10 = Inr m'
     \<and> validateSnapshot (newSnapshot\<lparr>sn_Sessions := m'\<rparr>) \<noteq> None"
proof -
  let ?ob = "ex_live_report 7 ''B'' 2 ActivityRunning 7"
  let ?r = "retireConflictingProcessSessions ex_reducer ex_failed ?ob 7 10"
  let ?k = "fst (hd ex_failed)" and ?s = "snd (hd ex_failed)"
  let ?t = "retire_session ex_reducer ?ob 7 10 ?s"
  have facts: "map_ok ex_failed" "process_complete (ex_process 7)" "map_of ex_failed ?k = Some ?s" "s_Detail ?s \<noteq> None"
    "ob_Process ?ob = Some (ex_process 7)" by code_simp+
  have "\<not> isl ?r" "\<not> isl ?t" "projr ?t \<noteq> None" by code_simp+
  then obtain m' s' where r: "?r = Inr m'" "?t = Inr (Some s')" by (cases ?r; cases ?t) auto
  from retirement_leaves_detail [OF facts(1,5,2) r(1) facts(3) r(2) facts(4)] r(1) show ?thesis by simp
qed

text \<open>C39: a report without a process that starts a new incarnation of a session which ended with a
  complete process is not reduced: as soon as another session of the same harness is provisional,
  without native evidence and with a process, the loop over the sessions reads through a nil process.\<close>

theorem resume_reads_nil:
  assumes "t_reset (transitionIncarnation s ob at False)" "t_accepted (transitionIncarnation s ob at False)"
    and "process_complete (i_Process (s_Incarnation s))" "ob_Process ob = None"
    and "(k, other) \<in> set m" "k \<noteq> s_ID s" "s_Harness other = s_Harness s"
    and "s_IdentityState other = IdentityProvisional" "o_Native (s_Observations other) = None" "s_Process other \<noteq> None"
  shows "reduceSession r m s ob at received = Inl ErrNilDereference"
  by (rule resumption_nil [OF assms(1-5)]) (simp add: resume_candidate_def assms(6-10))

theorem resume_reads_nil_witness:
  "reduceSession ex_reducer ex_ended (snd (hd ex_ended)) ex_resumption 8 10 = Inl ErrNilDereference"
proof -
  have "t_reset (transitionIncarnation (snd (hd ex_ended)) ex_resumption 8 False)"
    "t_accepted (transitionIncarnation (snd (hd ex_ended)) ex_resumption 8 False)"
    "process_complete (i_Process (s_Incarnation (snd (hd ex_ended))))" "ob_Process ex_resumption = None"
    "length ex_ended = 2" by code_simp+
  moreover have "fst (ex_ended ! 1) \<noteq> s_ID (snd (hd ex_ended)) \<and> s_Harness (snd (ex_ended ! 1)) = s_Harness (snd (hd ex_ended))
    \<and> s_IdentityState (snd (ex_ended ! 1)) = IdentityProvisional \<and> o_Native (s_Observations (snd (ex_ended ! 1))) = None
    \<and> s_Process (snd (ex_ended ! 1)) \<noteq> None" by code_simp
  moreover have "(fst (ex_ended ! 1), snd (ex_ended ! 1)) \<in> set ex_ended" using \<open>length ex_ended = 2\<close> by simp
  ultimately show ?thesis using resume_reads_nil [of "snd (hd ex_ended)" ex_resumption 8] by blast
qed

subsection \<open>Plugin directories\<close>



section \<open>Further facts\<close>

text \<open>The order in which sessions are listed by window and pane is not transitive on indices
  that are not all numbers.\<close>

theorem index_order_is_cyclic:
  "compareNumericStrings ''10'' ''1a'' < 0 \<and> compareNumericStrings ''1a'' ''9'' < 0 \<and>
   compareNumericStrings ''9'' ''10'' < 0"
  by (intro conjI; code_simp)

text \<open>A screen reading with a negative manifest version passes the validation of observations
  and leaves a session that the store refuses to load.\<close>

theorem unversioned_reading_corrupts:
  "validateObservation (\<lambda>_. True) ex_bad_reading = None \<and>
   validateSnapshot (projr (ex_run [ex_sighting 7 True 5, ex_bad_reading])) =
     Some (ErrCorruptStore ''invalid activity decision'')"
  by (rule conjI; code_simp)

text \<open>The words the registry prints for presences, activities and lifecycles are read back as
  what they stand for.\<close>

theorem printed_words_are_read_back:
  "(presence_valid p \<longrightarrow> NormalizePresence (presence_string p) = Inr p) \<and>
   (activity_valid a \<longrightarrow> NormalizeActivity (activity_string a) = Inr a) \<and>
   (lifecycle_valid l \<longrightarrow> NormalizeLifecycle (lifecycle_string l) = Inr l)"
proof -
  have "NormalizePresence (presence_string PresenceLive) = Inr PresenceLive"
    "NormalizePresence (presence_string PresenceGone) = Inr PresenceGone"
    "NormalizePresence (presence_string PresenceUnknown) = Inr PresenceUnknown" by code_simp+
  moreover have "NormalizeActivity (activity_string ActivityRunning) = Inr ActivityRunning"
    "NormalizeActivity (activity_string ActivityWaiting) = Inr ActivityWaiting"
    "NormalizeActivity (activity_string ActivityIdle) = Inr ActivityIdle"
    "NormalizeActivity (activity_string ActivityFailed) = Inr ActivityFailed"
    "NormalizeActivity (activity_string ActivityInterrupted) = Inr ActivityInterrupted"
    "NormalizeActivity (activity_string ActivityUnknown) = Inr ActivityUnknown" by code_simp+
  moreover have "NormalizeLifecycle (lifecycle_string NativeLifecycleStart) = Inr NativeLifecycleStart"
    "NormalizeLifecycle (lifecycle_string NativeLifecycleResume) = Inr NativeLifecycleResume"
    "NormalizeLifecycle (lifecycle_string NativeLifecycleEnd) = Inr NativeLifecycleEnd" by code_simp+
  ultimately show ?thesis
    unfolding presence_valid_def activity_valid_def lifecycle_valid_def by blast
qed

text \<open>A filtered list of sessions holds exactly the sessions that match the filter.\<close>

theorem filter_is_exact:
  "set (FilterSessions fs ss f) = {s \<in> set ss. matchesFilterState s f \<and> matchesFilterScope fs s f}"
  by (rule FilterSessions_set)

text \<open>When the cheap test that precedes an expiry finds nothing, the expiry would change
  nothing at all.\<close>

theorem idle_expiry_changes_nothing:
  assumes "\<not> hasExpiredTombstones sn now ttl"
  shows "expireTombstones sn now ttl = (sn, 0)"
  by (rule expireTombstones_idle [OF assms])

text \<open>The keys under which ended processes are remembered identify the processes: two
  processes share a key only when they share the pid and the start identity.\<close>

theorem ended_process_keys_identify:
  "endedProcessKey p = endedProcessKey q \<longleftrightarrow> p_PID p = p_PID q \<and> p_StartIdentity p = p_StartIdentity q"
  by (rule endedProcessKey_inject)

text \<open>A report from a clock ahead of the registry, with a detail time of its own, passes the
  validation of observations and leaves a session that the store refuses to load.\<close>

theorem future_detail_corrupts:
  "validateObservation (\<lambda>_. True) ex_future_detail = None \<and>
   validateSnapshot (projr (ex_run [ex_future_detail])) = Some (ErrCorruptStore ''invalid native observation'')"
  by (rule conjI; code_simp)

text \<open>The screen decides the activity of a session exactly when it is its primary authority,
  or it may fall back and no report of the hook of the session is active, except a report that is
  only too old where the policy keeps native activity.\<close>

theorem screen_authority_iff:
  "fst (ActivityAuthority s pol now) = AuthorityScreen \<longleftrightarrow>
     pol_Authority pol = AuthorityScreen \<or>
     pol_ScreenFallback pol \<and>
     (\<nexists>n. matchingHookObservation s pol = Inr n \<and> n_ObservedAt n \<le> now \<and>
        now - n_ObservedAt n \<le> IntegrationActivityLease) \<and>
     \<not> (pol_RetainNativeActivity pol \<and>
        (\<exists>n. matchingHookObservation s pol = Inr n \<and> n_ObservedAt n \<le> now \<and>
           now - n_ObservedAt n > IntegrationActivityLease))"
  unfolding EvaluateHook_active_iff [symmetric] EvaluateHook_stale_iff [symmetric]
  by (auto simp: ActivityAuthority_def Let_def)

text \<open>The garbage collection of a command deletes exactly the sessions that went gone at
  least the given time ago, and reports how many they were.\<close>

theorem collection_deletes_exactly:
  assumes "map_ok m" "0 \<le> after"
  shows "map_of (fst (deleteExpiredGoneSessions m now after at)) k =
       (case map_of m k of
          None \<Rightarrow> None
        | Some s \<Rightarrow>
            if s_Presence s = PresenceGone \<and> at s \<noteq> 0 \<and> \<not> time_sub now (at s) < after then None else Some s) \<and>
     snd (deleteExpiredGoneSessions m now after at) =
       length (filter (\<lambda>x. expired_gone at now after (snd x)) m)"
  using deleteExpired_spec [OF assms] by (simp add: expired_gone_def cong: option.case_cong)

text \<open>Where every index is a number or empty, a filtered list is sorted and does not depend on
  the order the sessions came in, as the order of a session map would otherwise show.\<close>

theorem filter_is_deterministic:
  assumes "mset ys = mset xs" "list_all numeric_session xs" "distinct (map s_ID xs)"
  shows "FilterSessions fs ys f = FilterSessions fs xs f \<and>
    sorted_wrt (\<lambda>a b. compare_sessions a b \<le> 0) (FilterSessions fs xs f)"
  using FilterSessions_order [OF assms] FilterSessions_sorted [OF assms(2)] by blast

text \<open>Every session is counted in exactly one group, and the summaries come out sorted for each
  of the groupings.\<close>

theorem summaries_cover_and_sort:
  "sum_list (map (u_Total \<circ> snd) (summary_groups g ss)) = length ss \<and>
   sorted_wrt (\<lambda>a b. compare_summaries lower (if g = ByOther [] then ByMultiplexerSession else g) a b \<le> 0)
     (SummariesWithOptions lower ss g)"
  using summary_groups_total Summaries_sorted by blast

text \<open>The list of changes is sorted by identifier without repetition, and it is the same
  whatever order the two session maps are iterated in.\<close>

theorem changes_are_deterministic:
  assumes "map_ok a" "map_ok a'" "map_of a = map_of a'" "map_ok b" "map_ok b'" "map_of b = map_of b'"
  shows "stateChanges a b = stateChanges a' b' \<and> sorted (map c_ID (stateChanges a b)) \<and>
    distinct (map c_ID (stateChanges a b))"
  using stateChanges_order [OF assms] stateChanges_sorted [OF assms(1,4)] by blast

text \<open>A well-formed session violates none of the state and incarnation rules that
  \<open>registrycheck\<close> applies to the sessions of a registry.\<close>

theorem wellformed_session_passes_state_checks:
  assumes "session_wf s"
  shows "sessionStateViolations (project s) @ incarnationViolations (project s) = []"
  using assms session_wf_state_violations session_wf_incarnation_violations by simp

text \<open>Retiring the sessions an observation conflicts with gives, for every order of the loop,
  each session its retired value, or fails for all of them.\<close>

theorem retirement_is_order_independent:
  assumes "map_ok m" "map_ok m'" "map_of m = map_of m'"
  shows "case (retireConflictingProcessSessions r m ob at received,
               retireConflictingProcessSessions r m' ob at received) of
      (Inl e, Inl e') \<Rightarrow> e = e'
    | (Inr out, Inr out') \<Rightarrow> map_of out = map_of out'
    | _ \<Rightarrow> False"
proof (cases "\<exists>p. ob_Process ob = Some p \<and> process_complete p")
  case True
  then obtain p where p: "ob_Process ob = Some p" "process_complete p" by blast
  have "set m = set m'" by (rule set_eq_of_map_of [OF assms])
  then show ?thesis
    using retireConflicting_map [OF assms(1) p, of r at received]
      retireConflicting_map [OF assms(2) p, of r at received] assms(3)
    by (cases "\<exists>x \<in> set m. blocks_retirement r ob at received (snd x)") auto
next
  case False
  then show ?thesis
    using assms(3) by (auto simp: retireConflictingProcessSessions_def split: option.splits)
qed

text \<open>The session the search returns is the one of its harness that matches and is preferred
  to every other such session.\<close>

theorem match_is_preferred:
  assumes "map_ok m" "named_keys m" "bestMatchingSessionID m h P = k" "k \<noteq> []"
  shows "\<exists>s. map_of m k = Some s \<and> s_Harness s = h \<and> P s \<and>
     (\<forall>(k', s') \<in> set m. s_Harness s' = h \<and> P s' \<longrightarrow> k' = k \<or> sessionMatchPreferred s k s' k')"
  using bestMatching_maximal [OF assms] by (fastforce simp: candidate_entry_def preferred_entry_def)

text \<open>A well-formed session whose detail has been resolved, as every reader does, is accepted
  by the validation of stored sessions, whatever the policy and the time.\<close>

theorem resolved_session_is_valid:
  assumes "session_wf s"
  shows "storedSessionCorruption (s_ID s) (resolveDetail (re_Policy r (s_Harness s)) now s) = []"
  using session_wf_corruption [OF refreshed_wf [OF assms, of r now]] refreshed_gone [of s r now]
  by (simp add: refreshed_reads(2)) (simp add: refreshed_def resolveDetail_def)

text \<open>A native report that comes after the session of its process was removed, and that no
  remaining session matches, is counted and dropped: it does not create a session.\<close>

theorem late_report_is_dropped:
  assumes "x \<in> set (sn_Sessions sn)" "spent (snd x)" "s_Process (snd x) = Some p" "process_complete p"
    and "process_equal p q" "ob_Kind ob = ''report''" "ob_Process ob = Some q" "ob_At ob \<noteq> 0"
    and "findMatchingSession (sn_Sessions (fst (removeGoneProcessOnlySessions sn))) ob = []"
    and "validateObservation (ru_Known (re_Rules r)) ob = None"
    and "bs_snap b = fst (removeGoneProcessOnlySessions sn)"
  shows "apply_one r received b ob = Inr (b\<lparr>bs_ended := bs_ended b + 1\<rparr>)"
  using removed_process_ended [OF assms(1-7,9)] assms(8,10,11)
  by (simp add: apply_one_def stamp_def)

text \<open>Whatever a terminal prints, the screen the rules see has at most a hundred lines, free of
  escape characters and line breaks, and they are the bottom ones of the normalised text; the
  region of a rule is a contiguous part of them.\<close>

theorem screens_are_bounded:
  "let snap = NormalizeSnapshot scr title in
   length (ss_Lines snap) \<le> 100 \<and> ESC \<notin> set (ss_Title snap) \<and>
   list_all (\<lambda>w. ESC \<notin> set w \<and> LF \<notin> set w \<and> CR \<notin> set w) (ss_Lines snap) \<and>
   (\<exists>top. BoundBottomLines (strip_escapes scr) 0 = top @ ss_Lines snap) \<and>
   (case selectRegion region (ss_Lines snap) of
      None \<Rightarrow> True | Some out \<Rightarrow> (\<exists>above below. ss_Lines snap = above @ out @ below))"
proof -
  let ?ls = "BoundBottomLines (strip_escapes scr) maxSnapshotLines"
  have "int (length ?ls) \<le> maxSnapshotLines" by (rule BoundBottomLines_bound) (simp add: maxSnapshotLines_def)
  then have "length ?ls \<le> 100" by (simp add: maxSnapshotLines_def)
  moreover have "ESC \<notin> set w \<and> LF \<notin> set w \<and> CR \<notin> set w" if "w \<in> set ?ls" for w
    using BoundBottomLines_lines [OF that] strip_escapes_no_escape [of scr] by (auto simp: ESC_def LF_def)
  ultimately show ?thesis
    using BoundBottomLines_suffix [of "strip_escapes scr" maxSnapshotLines] strip_escapes_no_escape [of title]
    by (auto simp: NormalizeSnapshot_def Let_def list_all_iff split: option.split dest: selectRegion_contiguous)
qed

text \<open>For a harness with a bundled manifest that can be read, no local override, whether missing,
  unreadable, too large or invalid, makes the loading fail: the result is a valid manifest of the
  harness, the override itself or the bundled rules.\<close>

theorem overrides_cannot_disable:
  assumes "ms_SupportsScreen ms h" "loadBundled te ms h = Inr b"
  shows "\<exists>m. loadUncached te ms h path = Inr m \<and> validateManifest m = None \<and> mf_Agent m = h \<and>
    (mf_Source m = path \<or> mf_Rules m = mf_Rules b \<and> mf_Source m = mf_Source b)"
  using load_override_total [OF loadBundled_valid [OF assms(2)]] assms by (simp add: loadUncached_def)

text \<open>The validation of a snapshot accepts a well-formed registry exactly when no gone session
  still carries an activity detail.\<close>

theorem validation_is_about_retired_details:
  assumes "sessions_wf (sn_Sessions sn)"
  shows "validateSnapshot sn = None \<longleftrightarrow>
    (\<forall>x \<in> set (sn_Sessions sn). s_Presence (snd x) = PresenceGone \<longrightarrow> s_Detail (snd x) = None)"
  using validate_iff_retired_clear [OF assms] by (simp add: retired_clear_def)

text \<open>With the documented behaviour of the path functions of the operating system, a path lies
  within another exactly when the elements of its canonical form extend those of the other.\<close>

theorem within_is_a_prefix_of_elements:
  assumes "rooted_fs fs" "\<And>p q. fs_Abs fs p = Some q \<Longrightarrow> path_clean q = q"
    and "trim_space targ \<noteq> []" "trim_space base \<noteq> []"
  shows "PathWithinOrEqual fs targ base \<longleftrightarrow>
     (\<exists>us. path_elems (CanonicalPath fs targ) = path_elems (CanonicalPath fs base) @ us)"
  by (rule PathWithin_spec [OF assms])

text \<open>The bounded climb that decides whether a process runs below another is exact. Although it
  stops after as many steps as there are processes and at any process it has met, it answers yes
  exactly when the other is an ancestor in the process table.\<close>

theorem bounded_climb_is_exact:
  assumes "p \<in> set ps" "distinct (map pr_PID ps)" "pr_PID p > 0"
  shows "processDescendsFrom p root (processesByPID ps) \<longleftrightarrow>
    root > 0 \<and> ancestor (processesByPID ps) (pr_PID p) root"
  by (rule processDescendsFrom_iff)
    (simp_all add: processesByPID_lookup [OF assms(2)] assms processesByPID_well_keyed)

text \<open>Preparing an observation before it is sent is safe. Preparing it twice is preparing it
  once, only a report is changed, and a report that was valid stays so except where its event turns
  out to be the end of the session although it carries an activity.\<close>

theorem preparation_is_safe:
  "PrepareObservation (PrepareObservation ob) = PrepareObservation ob \<and>
   (case ob_Evidence ob of
      EvReport r \<Rightarrow> \<exists>r'. PrepareObservation ob = ob\<lparr>ob_Evidence := EvReport r'\<rparr> \<and>
        (validateReport r \<noteq> None \<or>
         validateReport r' = (if r_Lifecycle r' = Some NativeLifecycleEnd \<and> r_Activity r \<noteq> None
           then Some (ErrInvalidObservation ''end cannot include activity'') else None))
    | _ \<Rightarrow> PrepareObservation ob = ob)"
proof (cases "ob_Evidence ob")
  case (EvReport r)
  note prepared = PrepareObservation_report [OF EvReport]
  have "validateReport r \<noteq> None \<or> validateReport (prepared_report ob r) =
      (if r_Lifecycle (prepared_report ob r) = Some NativeLifecycleEnd \<and> r_Activity r \<noteq> None
       then Some (ErrInvalidObservation ''end cannot include activity'') else None)"
    using prepared_report_valid [of r ob] unfolding ends_with_activity_def by blast
  then show ?thesis
    using PrepareObservation_idem [of ob] prepared unfolding EvReport evidence.case by blast
qed (simp_all add: PrepareObservation_idem PrepareObservation_other)

text \<open>A report that ends a session and ties with the report before it is not idempotent: it is first
  recorded a nanosecond late, and when it is sent again it moves the end of the session back to the
  time it names, which is a change consumers see.\<close>

theorem retry_is_not_idempotent:
  "let active = ex_report None ''A'' None (Some ActivityIdle) None 90;
       ended = ex_report None ''A'' None None (Some NativeLifecycleEnd) 90;
       state = (\<lambda>out. case out of Inr (sn, _) \<Rightarrow> sn | Inl _ \<Rightarrow> newSnapshot);
       once = state (applyObservationBatch (\<lambda>_. False) ex_reducer newSnapshot [active, ended] 100);
       twice = state (applyObservationBatch (\<lambda>_. False) ex_reducer once [ended] 110)
   in map (\<lambda>x. map_option n_ObservedAt (o_Native (s_Observations (snd x)))) (sn_Sessions once) = [Some 91] \<and>
      map (\<lambda>x. map_option n_ObservedAt (o_Native (s_Observations (snd x)))) (sn_Sessions twice) = [Some 90] \<and>
      stateChanges (sn_Sessions once) (sn_Sessions twice) \<noteq> []"
  by code_simp

text \<open>The summary of a group counts each session of the group once: its total is the number of
  the sessions with its key, split by presence, and the ones not gone split by activity.\<close>

theorem summaries_count_sessions:
  assumes "map_of (summary_groups g ss) k = Some u"
  shows "u_Total u = length (filter (\<lambda>s. fst (sessionGroupKey s g) = k) ss) \<and> 0 < u_Total u \<and>
    u_Total u = u_Live u + u_Gone u + u_PresenceUnknown u \<and>
    u_Live u + u_PresenceUnknown u =
      u_Running u + u_Waiting u + u_Idle u + u_Failed u + u_Interrupted u + u_ActivityUnknown u"
  using summary_groups_count [OF assms] unfolding balanced_def group_of_def by blast


text \<open>A verification that is accepted passes the verification check, and it decides exactly
  the presence of the session, which had not gone before.\<close>

theorem verification_passes_check:
  assumes "session_wf s" "ob_Evidence ob = EvVerification v" "observation_ok ob"
    and "reduceSession r m s ob at received = Inr (m', s')"
  shows "check_Verification s s' = None \<and> s_Presence s \<noteq> PresenceGone \<and> s_Presence s' = v_Presence v"
  using reduceSession_verified [OF assms] by blast


text \<open>When every journal entry carries one observation, draining the journal one observation
  at a time, as the owner does, leads to the state a reader folds, up to the remembered errors.\<close>

theorem replay_agrees_with_fold:
  assumes "list_all single_entry ds" "foldJournal calm r sn ds = Inr out"
  shows "\<exists>out' rejected. replayJournal (\<lambda>_. calm) r sn ds = Inr (out', rejected) \<and> same_store out' out"
  using replay_single [OF assms] by blast


text \<open>One agent stands for the processes it consists of. Of the processes that look like agents
  of a harness, those that remain after pruning were agents of that harness before, none of them is
  an ancestor of another of the same harness, and each one pruned is an ancestor or a descendant of
  one that remains.\<close>

theorem pruning_keeps_one_per_line:
  assumes "distinct (map pr_PID ps)"
  defines "pm \<equiv> processesByPID ps"
  defines "hm \<equiv> resolveHarnesses ps"
  defines "left \<equiv> pruneNestedHarnesses ps pm hm"
  shows "(\<forall>x h. map_of left x = Some h \<longrightarrow> map_of hm x = Some h) \<and>
    (\<forall>x y h. map_of left x = Some h \<longrightarrow> map_of left y = Some h \<longrightarrow> \<not> ancestor pm x y \<or> y = x) \<and>
    (\<forall>x h. map_of hm x = Some h \<longrightarrow>
       (\<exists>z. map_of left z = Some h \<and> (z = x \<or> ancestor pm x z \<or> ancestor pm z x)))"
  using pruned_agents [OF assms(1) resolveHarnesses_agents]
  unfolding left_def hm_def pm_def thinned_def kept_by_def by blast

text \<open>A journal entry with several observations does not replay to what the running store holds,
  because the replay removes gone sessions between the observations of an entry.\<close>

theorem replay_diverges_within_entry:
  "map_sum id (\<lambda>sn. length (sn_Sessions sn)) (foldJournal calm ex_reducer newSnapshot ex_divergent) = Inr 1 \<and>
   map_sum id (\<lambda>(sn, _). length (sn_Sessions sn)) (replayJournal (\<lambda>_. calm) ex_reducer newSnapshot ex_divergent) = Inr 0"
  by (rule conjI; code_simp)


end
